(* ===== verification/Prelude.thy ===== *)
theory Prelude
  imports Main "HOL-Library.Word"
begin

text \<open>
  Shared vocabulary of the development: the operation results of
  \<^verbatim>\<open>src/common/include/tuya_error_code.h\<close>, the byte and machine-word types, the memory copies the
  C code performs on buffers, and the generic facts on lists and words that the component
  theories use. The collections \<open>inv_rules\<close> (an operation keeps the invariant of its component)
  and \<open>abs_rules\<close> (an operation seen through its abstraction function) gather what each component
  exports to its clients.
\<close>

unbundle bit_operations_syntax

named_theorems inv_rules \<open>an operation keeps the invariant of its component\<close>
named_theorems abs_rules \<open>an operation seen through the abstraction function of its component\<close>

section \<open>Types and result codes\<close>

type_synonym byte = "8 word"
type_synonym u16 = "16 word"
type_synonym u32 = "32 word"
type_synonym u64 = "64 word"
type_synonym operate_ret = int

abbreviation OPRT_OK :: operate_ret where "OPRT_OK \<equiv> 0"
abbreviation OPRT_COM_ERROR :: operate_ret where "OPRT_COM_ERROR \<equiv> - 1"
abbreviation OPRT_INVALID_PARM :: operate_ret where "OPRT_INVALID_PARM \<equiv> - 2"
abbreviation OPRT_MALLOC_FAILED :: operate_ret where "OPRT_MALLOC_FAILED \<equiv> - 3"
abbreviation OPRT_NOT_SUPPORTED :: operate_ret where "OPRT_NOT_SUPPORTED \<equiv> - 4"
abbreviation OPRT_NOT_FOUND :: operate_ret where "OPRT_NOT_FOUND \<equiv> - 6"
abbreviation OPRT_CR_CJSON_ERR :: operate_ret where "OPRT_CR_CJSON_ERR \<equiv> - 7"
abbreviation OPRT_CJSON_PARSE_ERR :: operate_ret where "OPRT_CJSON_PARSE_ERR \<equiv> - 8"
abbreviation OPRT_CJSON_GET_ERR :: operate_ret where "OPRT_CJSON_GET_ERR \<equiv> - 9"
abbreviation OPRT_CR_MUTEX_ERR :: operate_ret where "OPRT_CR_MUTEX_ERR \<equiv> - 10"
abbreviation OPRT_KVS_WR_FAIL :: operate_ret where "OPRT_KVS_WR_FAIL \<equiv> - 17"
abbreviation OPRT_KVS_RD_FAIL :: operate_ret where "OPRT_KVS_RD_FAIL \<equiv> - 18"
abbreviation OPRT_RESOURCE_NOT_READY :: operate_ret where "OPRT_RESOURCE_NOT_READY \<equiv> - 23"
abbreviation OPRT_EXCEED_UPPER_LIMIT :: operate_ret where "OPRT_EXCEED_UPPER_LIMIT \<equiv> - 24"
abbreviation OPRT_BUFFER_NOT_ENOUGH :: operate_ret where "OPRT_BUFFER_NOT_ENOUGH \<equiv> - 31"
abbreviation OPRT_VERSION_FMT_ERR :: operate_ret where "OPRT_VERSION_FMT_ERR \<equiv> - 36"
abbreviation OPRT_SVC_DP_ID_NOT_FOUND :: operate_ret where "OPRT_SVC_DP_ID_NOT_FOUND \<equiv> - 3585"
abbreviation OPRT_SVC_DP_TP_NOT_MATCH :: operate_ret where "OPRT_SVC_DP_TP_NOT_MATCH \<equiv> - 3586"
abbreviation OPRT_SVC_DP_TYPE_PROP_ILLEGAL :: operate_ret where "OPRT_SVC_DP_TYPE_PROP_ILLEGAL \<equiv> - 3588"
abbreviation OPRT_SVC_DEVOS_SCMA_INVALID :: operate_ret where "OPRT_SVC_DEVOS_SCMA_INVALID \<equiv> - 7169"
abbreviation OPRT_SVC_DEVOS_DEV_DP_CNT_INVALID :: operate_ret where "OPRT_SVC_DEVOS_DEV_DP_CNT_INVALID \<equiv> - 7170"
abbreviation OPRT_BASE_EVENT_INVALID_EVENT_NAME :: operate_ret where
  "OPRT_BASE_EVENT_INVALID_EVENT_NAME \<equiv> - 3840"
abbreviation OPRT_BASE_EVENT_INVALID_EVENT_DESC :: operate_ret where
  "OPRT_BASE_EVENT_INVALID_EVENT_DESC \<equiv> - 3841"
abbreviation OPRT_SVC_BT_API_TRSMITR_CONTINUE :: operate_ret where
  "OPRT_SVC_BT_API_TRSMITR_CONTINUE \<equiv> - 7936"
abbreviation OPRT_SVC_BT_API_TRSMITR_ERROR :: operate_ret where
  "OPRT_SVC_BT_API_TRSMITR_ERROR \<equiv> - 7937"

section \<open>Copies between buffers\<close>

text \<open>
  \<open>memcpy_at dst off src\<close> is the buffer \<open>dst\<close> after \<^verbatim>\<open>memcpy(&dst[off], src, |src|)\<close>. The C call is
  defined only when the copy stays inside \<open>dst\<close>; the components prove that for every copy they make,
  and then the length of the buffer does not change.
\<close>

definition memcpy_at :: "'a list \<Rightarrow> nat \<Rightarrow> 'a list \<Rightarrow> 'a list" where
  "memcpy_at dst off src = take off dst @ src @ drop (off + length src) dst"

lemma length_memcpy_at [simp]:
  "off + length src \<le> length dst \<Longrightarrow> length (memcpy_at dst off src) = length dst"
  by (simp add: memcpy_at_def)

lemma nth_memcpy_at:
  assumes "off + length src \<le> length dst" and "i < length dst"
  shows "memcpy_at dst off src ! i =
    (if off \<le> i \<and> i < off + length src then src ! (i - off) else dst ! i)"
  using assms by (auto simp: memcpy_at_def nth_append min_def)

lemma take_memcpy_at_0 [simp]: "take (length src) (memcpy_at dst 0 src) = src"
  by (simp add: memcpy_at_def)

section \<open>Machine words\<close>

lemma unat_u8_less: "unat (w :: byte) < 256"
  using unsigned_less [of w, where ?'a = nat] by simp

lemma unat_u16_less: "unat (w :: u16) < 65536"
  using unsigned_less [of w, where ?'a = nat] by simp

lemma unat_u32_less: "unat (w :: u32) < 4294967296"
  using unsigned_less [of w, where ?'a = nat] by simp

lemma wrap_sub:
  fixes a b m :: nat
  assumes "b \<le> a" "a < m"
  shows "(a + m - b) mod m = a - b"
proof -
  have "a + m - b = m + (a - b)" using assms(1) by simp
  then show ?thesis using assms(2) by (simp only: mod_add_self1) simp
qed

lemma unat_u32_u64 [simp]: "unat (ucast (w :: u32) :: u64) = unat w"
  using unat_u32_less [of w] by (simp add: unsigned_ucast_eq take_bit_eq_mod)

lemma unat_u8_u16 [simp]: "unat (ucast (w :: byte) :: u16) = unat w"
  using unat_u8_less [of w] by (simp add: unsigned_ucast_eq take_bit_eq_mod)

lemma unat_u8_u32 [simp]: "unat (ucast (w :: byte) :: u32) = unat w"
  using unat_u8_less [of w] by (simp add: unsigned_ucast_eq take_bit_eq_mod)

lemma unat_u16_u32 [simp]: "unat (ucast (w :: u16) :: u32) = unat w"
  using unat_u16_less [of w] by (simp add: unsigned_ucast_eq take_bit_eq_mod)

lemma unat_u16_of_nat: "n < 65536 \<Longrightarrow> unat (of_nat n :: u16) = n"
  by (simp add: unsigned_of_nat take_bit_eq_mod)

section \<open>Decimal numbers\<close>

text \<open>What \<^verbatim>\<open>%u\<close> and \<^verbatim>\<open>%d\<close> print.\<close>

fun nat_digits :: "nat \<Rightarrow> string" where
  "nat_digits n = (if n < 10 then [char_of (48 + n)] else nat_digits (n div 10) @ [char_of (48 + n mod 10)])"

definition int_digits :: "int \<Rightarrow> string" where
  "int_digits v = (if v < 0 then ''-'' @ nat_digits (nat (- v)) else nat_digits (nat v))"

declare nat_digits.simps [simp del]

lemma length_nat_digits: "n < 10 ^ k \<Longrightarrow> 0 < k \<Longrightarrow> length (nat_digits n) \<le> k"
proof (induction k arbitrary: n)
  case (Suc k)
  show ?case
  proof (cases "n < 10")
    case False
    then have "0 < k" using Suc.prems(1) by (cases k) auto
    moreover have "n div 10 < 10 ^ k" using Suc.prems(1) by (simp add: less_mult_imp_div_less mult.commute)
    ultimately have "length (nat_digits (n div 10)) \<le> k" by (rule Suc.IH [rotated])
    then show ?thesis using False by (subst nat_digits.simps) simp
  qed (subst nat_digits.simps, simp)
qed simp

lemma length_byte_digits: "length (nat_digits (unat (w :: byte))) \<le> 3"
  by (rule length_nat_digits) (use unat_u8_less [of w] in simp_all)

lemma length_int_digits: "- (10 ^ k) < v \<Longrightarrow> v < 10 ^ k \<Longrightarrow> 0 < k \<Longrightarrow> length (int_digits v) \<le> Suc k"
  using length_nat_digits [of "nat v" k] length_nat_digits [of "nat (- v)" k] by (auto simp: int_digits_def nat_less_iff)

text \<open>The number of groups of three that base64 encodes.\<close>

lemma div3_round_up: "(n + 2) div 3 = n div 3 + (if n mod 3 \<noteq> 0 then 1 else (0 :: nat))"
  by presburger

section \<open>Texts in memory\<close>

text \<open>The bytes of a text, and the text that a C function reads from a buffer, up to the first zero.\<close>

definition text_bytes :: "string \<Rightarrow> byte list" where
  "text_bytes s = map of_char s"

definition c_string :: "byte list \<Rightarrow> string" where
  "c_string d = map (\<lambda>b. char_of (unat b)) (takeWhile (\<lambda>b. b \<noteq> 0) d)"

lemma unat_char: "unat (of_char c :: byte) = of_char c"
proof -
  have "(of_char c :: byte) = of_nat (of_char c)" by (simp add: of_nat_of_char)
  then show ?thesis by (simp only: unsigned_of_nat take_bit_eq_mod) simp
qed

lemma of_char_zero: "(of_char c :: byte) = 0 \<longleftrightarrow> c = CHR 0x00"
proof -
  have "(of_char c :: byte) = 0 \<longleftrightarrow> unat (of_char c :: byte) = 0" by (simp add: unat_eq_zero)
  also have "\<dots> \<longleftrightarrow> (of_char c :: nat) = of_char CHR 0x00" by (simp add: unat_char)
  finally show ?thesis by (simp only: of_char_eq_iff)
qed

lemma c_string_text: "CHR 0x00 \<notin> set t \<Longrightarrow> c_string (text_bytes t) = t"
  by (induction t) (auto simp: c_string_def text_bytes_def of_char_zero unat_char)

end
