(* ===== verification/RingBuf.thy ===== *)
theory RingBuf
  imports Prelude
begin

text \<open>
  The byte ring buffer of \<^verbatim>\<open>tools/porting/adapter/utilities/src/tuya_ringbuf.c\<close>. A handle is
  \<open>ringbuff option\<close> (\<open>None\<close> is NULL). The abstraction \<open>ring_contents\<close> is the list of unread bytes, oldest
  first; the interface a client relies on is the locale \<open>byte_fifo\<close>, interpreted here on the
  buffer's own operations. All indices are at most \<open>rb_len\<close>, so the 32-bit arithmetic of the source never
  wraps and natural numbers model it.
\<close>

section \<open>Model\<close>

datatype ringbuff_type = OVERFLOW_STOP_TYPE | OVERFLOW_COVERAGE_TYPE

record ringbuff =
  rb_type :: ringbuff_type
  rb_in :: nat
  rb_out :: nat
  rb_len :: nat
  rb_buff :: "byte list"

definition ringbuff_init :: "ringbuff \<Rightarrow> nat \<Rightarrow> ringbuff" where
  "ringbuff_init rb len = rb\<lparr>rb_in := 0, rb_out := 0, rb_len := len\<rparr>"

text \<open>
  \<open>mem\<close> is what the allocator returns: \<open>None\<close> when it fails, otherwise the (uninitialised) bytes of the
  block behind the header. \<open>out\<close> says whether the caller passed a place for the handle.
\<close>

definition tuya_ring_buff_create ::
  "nat \<Rightarrow> ringbuff_type \<Rightarrow> bool \<Rightarrow> byte list option \<Rightarrow> operate_ret \<times> ringbuff option" where
  "tuya_ring_buff_create len type out mem =
     (if type = OVERFLOW_COVERAGE_TYPE then (OPRT_NOT_SUPPORTED, None)
      else if \<not> out \<or> len = 0 then (OPRT_INVALID_PARM, None)
      else case mem of None \<Rightarrow> (OPRT_MALLOC_FAILED, None)
           | Some bs \<Rightarrow>
               (OPRT_OK, Some (ringbuff_init
                  \<lparr>rb_type = type, rb_in = 0, rb_out = 0, rb_len = 0, rb_buff = bs\<rparr> len)))"

definition tuya_ring_buff_free :: "ringbuff option \<Rightarrow> operate_ret \<times> ringbuff option" where
  "tuya_ring_buff_free h =
     (case h of None \<Rightarrow> (OPRT_INVALID_PARM, None) | Some rb \<Rightarrow> (OPRT_OK, None))"

definition tuya_ring_buff_reset :: "ringbuff option \<Rightarrow> operate_ret \<times> ringbuff option" where
  "tuya_ring_buff_reset h =
     (case h of None \<Rightarrow> (OPRT_INVALID_PARM, None)
      | Some rb \<Rightarrow> (OPRT_OK, Some (ringbuff_init rb (rb_len rb))))"

definition tuya_ring_buff_free_size_get :: "ringbuff option \<Rightarrow> nat" where
  "tuya_ring_buff_free_size_get h =
     (case h of None \<Rightarrow> 0
      | Some rb \<Rightarrow>
          (let size = (if rb_in rb = rb_out rb then rb_len rb
                       else if rb_out rb > rb_in rb then rb_out rb - rb_in rb
                       else rb_len rb - (rb_in rb - rb_out rb))
           in size - 1))"

definition tuya_ring_buff_used_size_get :: "ringbuff option \<Rightarrow> nat" where
  "tuya_ring_buff_used_size_get h =
     (case h of None \<Rightarrow> 0
      | Some rb \<Rightarrow>
          (if rb_in rb = rb_out rb then 0
           else if rb_in rb > rb_out rb then rb_in rb - rb_out rb
           else rb_len rb - (rb_out rb - rb_in rb)))"

definition tuya_ring_buff_write ::
  "ringbuff option \<Rightarrow> byte list option \<Rightarrow> nat \<Rightarrow> ringbuff option \<times> nat" where
  "tuya_ring_buff_write h data len =
     (case (h, data) of
        (Some rb, Some pdata) \<Rightarrow>
          if len = 0 then (h, 0)
          else
            let free_len = tuya_ring_buff_free_size_get h;
                len = min free_len len
            in if len = 0 then (h, 0)
               else
                 let tmp_len = min (rb_len rb - rb_in rb) len;
                     buff = memcpy_at (rb_buff rb) (rb_in rb) (take tmp_len pdata);
                     inp = rb_in rb + tmp_len;
                     rest = len - tmp_len;
                     buff' = (if rest > 0 then memcpy_at buff 0 (take rest (drop tmp_len pdata)) else buff);
                     inp' = (if rest > 0 then rest else inp);
                     inp'' = (if inp' \<ge> rb_len rb then 0 else inp')
                 in (Some (rb\<lparr>rb_in := inp'', rb_buff := buff'\<rparr>), tmp_len + rest)
      | _ \<Rightarrow> (h, 0))"

text \<open>
  Reading copies into the caller's memory: the model returns the bytes copied, \<open>dst\<close> says whether
  the caller's pointer is not NULL.
\<close>

definition tuya_ring_buff_read ::
  "ringbuff option \<Rightarrow> bool \<Rightarrow> nat \<Rightarrow> ringbuff option \<times> byte list \<times> nat" where
  "tuya_ring_buff_read h dst len =
     (case h of None \<Rightarrow> (h, [], 0)
      | Some rb \<Rightarrow>
          if \<not> dst \<or> len = 0 then (h, [], 0)
          else
            let used_len = tuya_ring_buff_used_size_get h;
                len = min used_len len
            in if len = 0 then (h, [], 0)
               else
                 let tmp_len = min (rb_len rb - rb_out rb) len;
                     pdata = take tmp_len (drop (rb_out rb) (rb_buff rb));
                     outp = rb_out rb + tmp_len;
                     rest = len - tmp_len;
                     pdata' = (if rest > 0 then pdata @ take rest (rb_buff rb) else pdata);
                     outp' = (if rest > 0 then rest else outp);
                     outp'' = (if outp' \<ge> rb_len rb then 0 else outp')
                 in (Some (rb\<lparr>rb_out := outp''\<rparr>), pdata', tmp_len + rest))"

definition tuya_ring_buff_peek :: "ringbuff option \<Rightarrow> bool \<Rightarrow> nat \<Rightarrow> byte list \<times> nat" where
  "tuya_ring_buff_peek h dst len =
     (case h of None \<Rightarrow> ([], 0)
      | Some rb \<Rightarrow>
          if \<not> dst \<or> len = 0 then ([], 0)
          else
            let outp = rb_out rb;
                used_len = tuya_ring_buff_used_size_get h;
                len = min len used_len
            in if len = 0 then ([], 0)
               else
                 let tmp_len = min (rb_len rb - outp) len;
                     pdata = take tmp_len (drop outp (rb_buff rb));
                     rest = len - tmp_len;
                     pdata' = (if rest > 0 then pdata @ take rest (rb_buff rb) else pdata)
                 in (pdata', tmp_len + rest))"

section \<open>Invariant and abstraction\<close>

definition ring_inv :: "ringbuff \<Rightarrow> bool" where
  "ring_inv rb \<longleftrightarrow> 0 < rb_len rb \<and> length (rb_buff rb) = rb_len rb
     \<and> rb_in rb < rb_len rb \<and> rb_out rb < rb_len rb"

definition ring_contents :: "ringbuff \<Rightarrow> byte list" where
  "ring_contents rb =
     (if rb_out rb \<le> rb_in rb then take (rb_in rb - rb_out rb) (drop (rb_out rb) (rb_buff rb))
      else drop (rb_out rb) (rb_buff rb) @ take (rb_in rb) (rb_buff rb))"

lemma ring_used_contents:
  "ring_inv rb \<Longrightarrow> tuya_ring_buff_used_size_get (Some rb) = length (ring_contents rb)"
  by (auto simp: ring_inv_def ring_contents_def tuya_ring_buff_used_size_get_def)

lemma ring_free_contents:
  "ring_inv rb \<Longrightarrow>
     tuya_ring_buff_free_size_get (Some rb) = rb_len rb - 1 - length (ring_contents rb)"
  by (auto simp: ring_inv_def ring_contents_def tuya_ring_buff_free_size_get_def Let_def)

lemma ring_contents_bound: "ring_inv rb \<Longrightarrow> length (ring_contents rb) < rb_len rb"
  by (auto simp: ring_inv_def ring_contents_def)

text \<open>The two ways the unread bytes lie in the buffer, and what one write does to each.\<close>

lemma ring_contents_linear:
  "rb_out rb \<le> rb_in rb \<Longrightarrow> ring_contents rb = take (rb_in rb - rb_out rb) (drop (rb_out rb) (rb_buff rb))"
  by (simp add: ring_contents_def)

lemma ring_contents_wrapped:
  "rb_in rb < rb_out rb \<Longrightarrow> ring_contents rb = drop (rb_out rb) (rb_buff rb) @ take (rb_in rb) (rb_buff rb)"
  by (simp add: ring_contents_def)

lemma write_linear_part:
  assumes "length b = m" "i + length x \<le> m" "out \<le> i"
  shows "take (i + length x - out) (drop out (memcpy_at b i x)) = take (i - out) (drop out b) @ x"
  using assms by (auto simp: memcpy_at_def take_drop)

lemma write_to_end:
  assumes "length b = m" "i + length x = m" "out \<le> i"
  shows "drop out (memcpy_at b i x) = take (i - out) (drop out b) @ x"
  using write_linear_part [OF assms(1) eq_imp_le [OF assms(2)] assms(3)] assms
  by (simp add: memcpy_at_def)

lemma write_before_out:
  assumes "length b = m" "i + length x < out" "out < m"
  shows "drop out (memcpy_at b i x) @ take (i + length x) (memcpy_at b i x) = drop out b @ take i b @ x"
  using assms by (simp add: memcpy_at_def)

lemma write_wrapped_part:
  assumes "length b = m" "length x \<le> out" "out \<le> m"
  shows "drop out (memcpy_at b 0 x) @ take (length x) (memcpy_at b 0 x) = drop out b @ x"
  using assms by (simp add: memcpy_at_def)

definition ring_push :: "ringbuff \<Rightarrow> byte list \<Rightarrow> nat \<Rightarrow> ringbuff" where
  "ring_push rb d n =
     (let tmp = min (rb_len rb - rb_in rb) n;
          b1 = memcpy_at (rb_buff rb) (rb_in rb) (take tmp d);
          b2 = (if n - tmp > 0 then memcpy_at b1 0 (take (n - tmp) (drop tmp d)) else b1);
          i2 = (if n - tmp > 0 then n - tmp else rb_in rb + tmp)
      in rb\<lparr>rb_in := (if i2 \<ge> rb_len rb then 0 else i2), rb_buff := b2\<rparr>)"

lemma ring_write_push:
  assumes "ring_inv rb" and "n = min (rb_len rb - 1 - length (ring_contents rb)) len"
  shows "tuya_ring_buff_write (Some rb) (Some d) len =
    (Some (if n = 0 then rb else ring_push rb d n), n)"
proof -
  have e: "min (tuya_ring_buff_free_size_get (Some rb)) len = n"
    by (simp only: assms(2) ring_free_contents [OF assms(1)])
  have z: "len = 0 \<Longrightarrow> n = 0" using assms(2) by simp
  have s: "min x n + (n - min x n) = n" for x by simp
  show ?thesis
    unfolding tuya_ring_buff_write_def ring_push_def Let_def option.case prod.case e s
    using z by (cases "n = 0"; cases "len = 0") simp_all
qed

lemma ring_push_contents:
  assumes inv: "ring_inv rb" and n: "0 < n" "n \<le> rb_len rb - 1 - length (ring_contents rb)"
    and d: "n \<le> length d"
  shows "ring_contents (ring_push rb d n) = ring_contents rb @ take n d"
proof (cases "rb_in rb < rb_out rb")
  case True
  then have m: "length (rb_buff rb) = rb_len rb" "rb_in rb + n < rb_out rb" "rb_out rb < rb_len rb"
    using inv n by (auto simp: ring_inv_def ring_contents_wrapped)
  then have p: "ring_push rb d n = rb\<lparr>rb_in := rb_in rb + n,
      rb_buff := memcpy_at (rb_buff rb) (rb_in rb) (take n d)\<rparr>"
    by (simp add: ring_push_def Let_def min_absorb2)
  show ?thesis
    using True m d write_before_out [of "rb_buff rb" "rb_len rb" "rb_in rb" "take n d" "rb_out rb"]
    by (simp only: p ring_contents_def) (simp add: min_absorb2)
next
  case False
  then have m: "length (rb_buff rb) = rb_len rb" "n + rb_in rb < rb_len rb + rb_out rb"
      "rb_out rb \<le> rb_in rb" "rb_in rb < rb_len rb"
    using inv n by (auto simp: ring_inv_def ring_contents_linear)
  consider (short) "rb_in rb + n < rb_len rb" | (exact) "rb_in rb + n = rb_len rb"
    | (wrap) "rb_len rb < rb_in rb + n" by linarith
  then show ?thesis
  proof cases
    case short
    then have p: "ring_push rb d n = rb\<lparr>rb_in := rb_in rb + n,
        rb_buff := memcpy_at (rb_buff rb) (rb_in rb) (take n d)\<rparr>"
      by (simp add: ring_push_def Let_def min_absorb2)
    show ?thesis
      using short m d write_linear_part [of "rb_buff rb" "rb_len rb" "rb_in rb" "take n d" "rb_out rb"]
      by (simp only: p ring_contents_def) (simp add: min_absorb2)
  next
    case exact
    then have "0 < rb_out rb" "rb_len rb - rb_in rb = n" using m by auto
    then show ?thesis
      using exact m d write_to_end [of "rb_buff rb" "rb_len rb" "rb_in rb" "take n d" "rb_out rb"]
      by (simp add: ring_push_def Let_def ring_contents_linear ring_contents_wrapped)
  next
    case wrap
    define tmp where "tmp = rb_len rb - rb_in rb"
    define b1 where "b1 = memcpy_at (rb_buff rb) (rb_in rb) (take tmp d)"
    define x where "x = take (n - tmp) (drop tmp d)"
    have t: "tmp < n" "n - tmp < rb_out rb" "rb_in rb + tmp = rb_len rb" "length x = n - tmp"
      using wrap m d by (auto simp: tmp_def x_def)
    have b1: "length b1 = rb_len rb"
        "drop (rb_out rb) b1 = take (rb_in rb - rb_out rb) (drop (rb_out rb) (rb_buff rb)) @ take tmp d"
      using m t d write_to_end [of "rb_buff rb" "rb_len rb" "rb_in rb" "take tmp d" "rb_out rb"]
      by (auto simp: b1_def)
    have "ring_push rb d n = rb\<lparr>rb_in := n - tmp, rb_buff := memcpy_at b1 0 x\<rparr>"
      using t m by (simp add: ring_push_def Let_def tmp_def [symmetric] b1_def x_def)
    moreover have "take tmp d @ x = take n d"
      using t by (simp add: x_def take_add [symmetric])
    ultimately show ?thesis
      using t m b1 write_wrapped_part [of b1 "rb_len rb" x "rb_out rb"]
      by (simp add: ring_contents_linear ring_contents_wrapped)
  qed
qed

lemma ring_push_inv [inv_rules]:
  assumes "ring_inv rb" "n \<le> rb_len rb - 1 - length (ring_contents rb)" "n \<le> length d"
  shows "ring_inv (ring_push rb d n)"
proof -
  define tmp where "tmp = min (rb_len rb - rb_in rb) n"
  have m: "length (rb_buff rb) = rb_len rb" "0 < rb_len rb" "rb_in rb < rb_len rb" "n < rb_len rb"
    using assms(1,2) by (auto simp: ring_inv_def)
  have t: "tmp \<le> n" "rb_in rb + tmp \<le> rb_len rb" "length (take tmp d) = tmp"
      "length (take (n - tmp) (drop tmp d)) = n - tmp"
    using m assms(3) by (auto simp: tmp_def)
  have "length (memcpy_at (rb_buff rb) (rb_in rb) (take tmp d)) = rb_len rb"
    using m t by (subst length_memcpy_at) auto
  then show ?thesis
    using m t assms(1) unfolding ring_push_def Let_def tmp_def [symmetric]
    by (auto simp: ring_inv_def)
qed

text \<open>Reading takes a prefix of the unread bytes and leaves the rest.\<close>

definition ring_pop :: "ringbuff \<Rightarrow> nat \<Rightarrow> ringbuff" where
  "ring_pop rb n = rb\<lparr>rb_out := (if rb_out rb + n < rb_len rb then rb_out rb + n
                               else rb_out rb + n - rb_len rb)\<rparr>"

lemma ring_read_pop:
  assumes inv: "ring_inv rb" and n: "n = min (length (ring_contents rb)) len"
  shows "tuya_ring_buff_read (Some rb) True len =
    (Some (if n = 0 then rb else ring_pop rb n), take n (ring_contents rb), n)"
proof (cases "n = 0")
  case True
  then show ?thesis
    using n ring_used_contents [OF inv] by (auto simp: tuya_ring_buff_read_def Let_def)
next
  case False
  define tmp where "tmp = min (rb_len rb - rb_out rb) n"
  have r: "tuya_ring_buff_read (Some rb) True len =
      (Some (rb\<lparr>rb_out := (let q = (if n - tmp > 0 then n - tmp else rb_out rb + tmp)
                           in if q \<ge> rb_len rb then 0 else q)\<rparr>),
       (if n - tmp > 0 then take tmp (drop (rb_out rb) (rb_buff rb)) @ take (n - tmp) (rb_buff rb)
        else take tmp (drop (rb_out rb) (rb_buff rb))), n)"
  proof -
    have e: "min (tuya_ring_buff_used_size_get (Some rb)) len = n"
      by (simp only: n ring_used_contents [OF inv])
    have s: "min x n + (n - min x n) = n" for x by simp
    have "len \<noteq> 0" using False n by simp
    with False show ?thesis
      unfolding tuya_ring_buff_read_def Let_def option.case e s tmp_def by simp
  qed
  show ?thesis
  proof (cases "rb_out rb \<le> rb_in rb")
    case True
    then have "tmp = n" "rb_out rb + n < rb_len rb" "n \<le> rb_in rb - rb_out rb"
      using n inv by (auto simp: tmp_def ring_inv_def ring_contents_linear)
    with True False show ?thesis
      by (simp add: r ring_pop_def ring_contents_linear min_absorb1 Let_def)
  next
    case wrapped: False
    then have c: "ring_contents rb = drop (rb_out rb) (rb_buff rb) @ take (rb_in rb) (rb_buff rb)"
        "n \<le> rb_len rb - rb_out rb + rb_in rb" "length (rb_buff rb) = rb_len rb" "rb_out rb < rb_len rb"
      using n inv by (auto simp: ring_inv_def ring_contents_wrapped)
    show ?thesis
      using False wrapped c
      by (simp add: r tmp_def ring_pop_def Let_def)
  qed
qed

lemma ring_pop_contents:
  assumes "ring_inv rb" "n \<le> length (ring_contents rb)"
  shows "ring_contents (ring_pop rb n) = drop n (ring_contents rb)"
  using assms by (auto simp: ring_pop_def ring_inv_def ring_contents_def drop_take ac_simps)

lemma ring_pop_inv [inv_rules]:
  "ring_inv rb \<Longrightarrow> n \<le> length (ring_contents rb) \<Longrightarrow> ring_inv (ring_pop rb n)"
  using ring_contents_bound [of rb] by (auto simp: ring_pop_def ring_inv_def)

section \<open>The interface a client relies on\<close>

text \<open>
  A byte queue of bounded room: \<open>put\<close> accepts as much of the data as fits, \<open>get\<close> delivers the oldest
  bytes. \<open>fifo_run\<close> performs a sequence of such calls and collects the bytes accepted and the bytes
  delivered.
\<close>

datatype fifo_op = Put "byte list" | Get nat

fun fifo_run :: "('b \<Rightarrow> byte list \<Rightarrow> 'b \<times> nat) \<Rightarrow> ('b \<Rightarrow> nat \<Rightarrow> 'b \<times> byte list) \<Rightarrow>
    'b \<Rightarrow> fifo_op list \<Rightarrow> 'b \<times> byte list \<times> byte list" where
  "fifo_run put get b [] = (b, [], [])"
| "fifo_run put get b (Put xs # ops) =
     (case put b xs of (b1, n) \<Rightarrow>
        case fifo_run put get b1 ops of (b2, acc, out) \<Rightarrow> (b2, take n xs @ acc, out))"
| "fifo_run put get b (Get k # ops) =
     (case get b k of (b1, ys) \<Rightarrow>
        case fifo_run put get b1 ops of (b2, acc, out) \<Rightarrow> (b2, acc, ys @ out))"

locale byte_fifo =
  fixes invar :: "'b \<Rightarrow> bool"
    and contents :: "'b \<Rightarrow> byte list"
    and room :: "'b \<Rightarrow> nat"
    and put :: "'b \<Rightarrow> byte list \<Rightarrow> 'b \<times> nat"
    and get :: "'b \<Rightarrow> nat \<Rightarrow> 'b \<times> byte list"
  assumes put_invar: "invar b \<Longrightarrow> invar (fst (put b xs))"
    and put_accepts: "invar b \<Longrightarrow> snd (put b xs) = min (room b) (length xs)"
    and put_contents: "invar b \<Longrightarrow> contents (fst (put b xs)) = contents b @ take (snd (put b xs)) xs"
    and put_room: "invar b \<Longrightarrow> room (fst (put b xs)) = room b - snd (put b xs)"
    and get_invar: "invar b \<Longrightarrow> invar (fst (get b k))"
    and get_delivers: "invar b \<Longrightarrow> snd (get b k) = take k (contents b)"
    and get_contents: "invar b \<Longrightarrow> contents (fst (get b k)) = drop k (contents b)"
begin

lemma get_after_put:
  assumes "invar b" "contents b = []" "length xs \<le> room b"
  shows "snd (get (fst (put b xs)) (length xs)) = xs"
  using assms by (simp add: get_delivers put_invar put_contents put_accepts)

lemma fifo_run_invar: "invar b \<Longrightarrow> invar (fst (fifo_run put get b ops))"
proof (induction ops arbitrary: b)
  case (Cons a ops)
  show ?case
  proof (cases a)
    case (Put xs)
    with Cons.IH [OF put_invar [OF Cons.prems, of xs]] show ?thesis
      by (simp add: case_prod_beta)
  next
    case (Get k)
    with Cons.IH [OF get_invar [OF Cons.prems, of k]] show ?thesis
      by (simp add: case_prod_beta)
  qed
qed simp

lemma fifo_run_order:
  assumes "invar b"
  shows "snd (snd (fifo_run put get b ops)) @ contents (fst (fifo_run put get b ops)) =
    contents b @ fst (snd (fifo_run put get b ops))"
  using assms
proof (induction ops arbitrary: b)
  case (Cons a ops)
  show ?case
  proof (cases a)
    case (Put xs)
    with Cons.IH [OF put_invar [OF Cons.prems, of xs]] Cons.prems show ?thesis
      by (simp add: case_prod_beta put_contents)
  next
    case (Get k)
    with Cons.IH [OF get_invar [OF Cons.prems, of k]] Cons.prems show ?thesis
      by (simp add: case_prod_beta get_contents get_delivers)
  qed
qed simp

end

text \<open>The ring buffer provides that interface.\<close>

definition ring_put :: "ringbuff \<Rightarrow> byte list \<Rightarrow> ringbuff \<times> nat" where
  "ring_put rb xs = (case tuya_ring_buff_write (Some rb) (Some xs) (length xs) of
     (h, n) \<Rightarrow> (the h, n))"

definition ring_get :: "ringbuff \<Rightarrow> nat \<Rightarrow> ringbuff \<times> byte list" where
  "ring_get rb k = (case tuya_ring_buff_read (Some rb) True k of (h, ys, n) \<Rightarrow> (the h, ys))"

definition ring_room :: "ringbuff \<Rightarrow> nat" where
  "ring_room rb = rb_len rb - 1 - length (ring_contents rb)"

lemma ring_put_eq:
  "ring_inv rb \<Longrightarrow> ring_put rb xs =
     (let n = min (ring_room rb) (length xs) in (if n = 0 then rb else ring_push rb xs n, n))"
  by (simp only: ring_put_def ring_write_push [OF _ refl] ring_room_def Let_def prod.case option.sel)

lemma ring_get_eq:
  "ring_inv rb \<Longrightarrow> ring_get rb k =
     (let n = min (length (ring_contents rb)) k
      in (if n = 0 then rb else ring_pop rb n, take n (ring_contents rb)))"
  by (simp add: ring_get_def ring_read_pop [OF _ refl] Let_def)

lemma ring_push_len [simp]: "rb_len (ring_push rb d n) = rb_len rb"
  by (simp add: ring_push_def Let_def)

lemma take_min_length [simp]: "take (min (length xs) k) xs = take k xs"
  by (simp add: min_def)

lemma drop_min_length [simp]: "drop (min (length xs) k) xs = drop k xs"
  by (simp add: min_def)

lemma ring_put_contents:
  assumes "ring_inv rb"
  shows "ring_contents (fst (ring_put rb xs)) = ring_contents rb @ take (snd (ring_put rb xs)) xs"
proof -
  define n where "n = min (ring_room rb) (length xs)"
  have "n \<le> rb_len rb - 1 - length (ring_contents rb)" "n \<le> length xs"
    by (simp_all add: n_def ring_room_def)
  with ring_push_contents [OF assms, of n xs] show ?thesis
    by (simp add: ring_put_eq [OF assms] n_def [symmetric] Let_def)
qed

lemma ring_put_inv:
  assumes "ring_inv rb"
  shows "ring_inv (fst (ring_put rb xs))"
proof -
  define n where "n = min (ring_room rb) (length xs)"
  have "n \<le> rb_len rb - 1 - length (ring_contents rb)" "n \<le> length xs"
    by (simp_all add: n_def ring_room_def)
  with ring_push_inv [OF assms, of n xs] show ?thesis
    by (simp add: ring_put_eq [OF assms] n_def [symmetric] Let_def assms)
qed

lemma ring_put_accepts: "ring_inv rb \<Longrightarrow> snd (ring_put rb xs) = min (ring_room rb) (length xs)"
  by (simp add: ring_put_eq Let_def)

lemma ring_put_len: "ring_inv rb \<Longrightarrow> rb_len (fst (ring_put rb xs)) = rb_len rb"
  by (simp add: ring_put_eq Let_def)

lemma ring_get_inv: "ring_inv rb \<Longrightarrow> ring_inv (fst (ring_get rb k))"
  by (auto simp: ring_get_eq Let_def intro!: ring_pop_inv)

lemma ring_get_contents:
  assumes "ring_inv rb"
  shows "ring_contents (fst (ring_get rb k)) = drop k (ring_contents rb)"
proof -
  define n where "n = min (length (ring_contents rb)) k"
  have "ring_contents (fst (ring_get rb k)) = drop n (ring_contents rb)"
    using ring_pop_contents [OF assms, of n]
    by (simp add: ring_get_eq [OF assms] n_def [symmetric] Let_def) (simp add: n_def)
  then show ?thesis by (simp add: n_def)
qed

interpretation ring: byte_fifo ring_inv ring_contents ring_room ring_put ring_get
proof unfold_locales
  fix b :: ringbuff and xs :: "byte list" and k :: nat
  assume inv: "ring_inv b"
  show "ring_inv (fst (ring_put b xs))" by (rule ring_put_inv [OF inv])
  show acc: "snd (ring_put b xs) = min (ring_room b) (length xs)" by (rule ring_put_accepts [OF inv])
  show con: "ring_contents (fst (ring_put b xs)) = ring_contents b @ take (snd (ring_put b xs)) xs"
    by (rule ring_put_contents [OF inv])
  show "ring_room (fst (ring_put b xs)) = ring_room b - snd (ring_put b xs)"
    using acc con by (simp add: ring_room_def ring_put_len [OF inv])
  show "ring_inv (fst (ring_get b k))" by (rule ring_get_inv [OF inv])
  show "snd (ring_get b k) = take k (ring_contents b)"
    by (simp add: ring_get_eq [OF inv] Let_def)
  show "ring_contents (fst (ring_get b k)) = drop k (ring_contents b)"
    by (rule ring_get_contents [OF inv])
qed

section \<open>Properties\<close>

text \<open>
  C1. No byte is lost, duplicated or reordered: over any sequence of writes and reads, the bytes
  delivered followed by the bytes still in the buffer are the bytes that were in it followed by
  the bytes the writes reported as accepted.
\<close>

theorem ring_buff_fifo:
  assumes "ring_inv rb"
  shows "snd (snd (fifo_run ring_put ring_get rb ops))
      @ ring_contents (fst (fifo_run ring_put ring_get rb ops))
    = ring_contents rb @ fst (snd (fifo_run ring_put ring_get rb ops))"
  by (rule ring.fifo_run_order [OF assms])

lemma ring_buff_fifo_witness:
  "snd (snd (fifo_run ring_put ring_get
       \<lparr>rb_type = OVERFLOW_STOP_TYPE, rb_in = 2, rb_out = 2, rb_len = 3, rb_buff = [0, 0, 0]\<rparr>
       [Put [7, 8, 9], Get 5])) = [7, 8]
   \<and> snd (snd (fifo_run ring_put ring_get
       \<lparr>rb_type = OVERFLOW_STOP_TYPE, rb_in = 2, rb_out = 2, rb_len = 3, rb_buff = [0, 0, 0]\<rparr>
       [Put [7, 8, 9], Get 5])) @ ring_contents (fst (fifo_run ring_put ring_get
       \<lparr>rb_type = OVERFLOW_STOP_TYPE, rb_in = 2, rb_out = 2, rb_len = 3, rb_buff = [0, 0, 0]\<rparr>
       [Put [7, 8, 9], Get 5])) = [7, 8]"
  using ring_buff_fifo [of "\<lparr>rb_type = OVERFLOW_STOP_TYPE, rb_in = 2, rb_out = 2, rb_len = 3,
      rb_buff = [0, 0, 0]\<rparr>" "[Put [7, 8, 9], Get 5]"]
  by (simp add: ring_inv_def ring_put_def ring_get_def tuya_ring_buff_write_def
      tuya_ring_buff_read_def tuya_ring_buff_free_size_get_def tuya_ring_buff_used_size_get_def
      ring_contents_def memcpy_at_def Let_def)

text \<open>
  A write accepts exactly the bytes that fit, one slot of the buffer always staying free, keeps
  the indices inside the buffer, and the two size queries always add up to the capacity.
\<close>

theorem ring_buff_write_spec:
  assumes "ring_inv rb" and "len \<le> length d"
    and "n = min (rb_len rb - 1 - length (ring_contents rb)) len"
  shows "\<exists>rb'. tuya_ring_buff_write (Some rb) (Some d) len = (Some rb', n) \<and> ring_inv rb'
    \<and> ring_contents rb' = ring_contents rb @ take n d
    \<and> tuya_ring_buff_used_size_get (Some rb') + tuya_ring_buff_free_size_get (Some rb') = rb_len rb - 1"
proof -
  let ?rb = "if n = 0 then rb else ring_push rb d n"
  have w: "tuya_ring_buff_write (Some rb) (Some d) len = (Some ?rb, n)"
    by (rule ring_write_push [OF assms(1,3)])
  have n: "n \<le> rb_len rb - 1 - length (ring_contents rb)" "n \<le> length d"
    using assms(2,3) by simp_all
  have i: "ring_inv ?rb" using ring_push_inv [OF assms(1) n] assms(1) by simp
  have c: "ring_contents ?rb = ring_contents rb @ take n d"
    using ring_push_contents [OF assms(1) _ n] by simp
  have "length (ring_contents ?rb) < rb_len ?rb" by (rule ring_contents_bound [OF i])
  then have "tuya_ring_buff_used_size_get (Some ?rb) + tuya_ring_buff_free_size_get (Some ?rb)
      = rb_len rb - 1"
    unfolding ring_used_contents [OF i] ring_free_contents [OF i] by simp
  with w i c show ?thesis by blast
qed

lemma ring_buff_write_spec_witness:
  "\<exists>rb'. tuya_ring_buff_write (Some \<lparr>rb_type = OVERFLOW_STOP_TYPE, rb_in = 3, rb_out = 1, rb_len = 4,
        rb_buff = [0, 5, 6, 0]\<rparr>) (Some [9, 9]) 2 = (Some rb', 1) \<and> ring_inv rb'
     \<and> ring_contents rb' = [5, 6, 9]
     \<and> tuya_ring_buff_used_size_get (Some rb') + tuya_ring_buff_free_size_get (Some rb') = 3"
  using ring_buff_write_spec [of "\<lparr>rb_type = OVERFLOW_STOP_TYPE, rb_in = 3, rb_out = 1, rb_len = 4,
        rb_buff = [0, 5, 6, 0]\<rparr>" 2 "[9, 9]" 1]
  by (simp add: ring_inv_def ring_contents_def)

end
