(* ===== verification/ListHeap.thy ===== *)
theory ListHeap
  imports Prelude
begin

text \<open>
  The intrusive circular doubly linked list of
  \<^verbatim>\<open>tools/porting/adapter/utilities/src/tuya_list.c\<close>, at the level of its pointers: an explicit store maps
  the address of every \<^verbatim>\<open>LIST_HEAD\<close> to its two links, and each operation performs the assignments
  of the source in their order. \<open>dlist h hp xs\<close> says that the list anchored at \<open>hp\<close> holds the nodes \<open>xs\<close>, in
  order. The locale \<open>list_store\<close> states what the timers, the event manager and the queue rely on: which
  sequence of nodes each list holds after an operation, and that other lists do not change. It is
  interpreted on the pointer operations, so the components above may keep plain lists of nodes.
\<close>

section \<open>Model\<close>

record lnode =
  next_p :: nat
  prev_p :: nat

abbreviation NULL :: nat where "NULL \<equiv> 0"

type_synonym list_heap = "nat \<Rightarrow> lnode"

definition INIT_LIST_HEAD :: "nat \<Rightarrow> list_heap \<Rightarrow> list_heap" where
  "INIT_LIST_HEAD p h =
     (let h = h(p := (h p)\<lparr>next_p := p\<rparr>);
          h = h(p := (h p)\<lparr>prev_p := p\<rparr>)
      in h)"

definition list_add :: "nat \<Rightarrow> nat \<Rightarrow> nat \<Rightarrow> list_heap \<Rightarrow> list_heap" where
  "list_add pNew pPrev pNext h =
     (let h = h(pNext := (h pNext)\<lparr>prev_p := pNew\<rparr>);
          h = h(pNew := (h pNew)\<lparr>next_p := pNext\<rparr>);
          h = h(pNew := (h pNew)\<lparr>prev_p := pPrev\<rparr>);
          h = h(pPrev := (h pPrev)\<lparr>next_p := pNew\<rparr>)
      in h)"

definition list_del :: "nat \<Rightarrow> nat \<Rightarrow> list_heap \<Rightarrow> list_heap" where
  "list_del pPrev pNext h =
     (let h = h(pNext := (h pNext)\<lparr>prev_p := pPrev\<rparr>);
          h = h(pPrev := (h pPrev)\<lparr>next_p := pNext\<rparr>)
      in h)"

definition tuya_list_empty :: "nat \<Rightarrow> list_heap \<Rightarrow> bool" where
  "tuya_list_empty pHead h \<longleftrightarrow> next_p (h pHead) = pHead"

definition tuya_list_add :: "nat \<Rightarrow> nat \<Rightarrow> list_heap \<Rightarrow> list_heap" where
  "tuya_list_add pNew pHead h = list_add pNew pHead (next_p (h pHead)) h"

definition tuya_list_add_tail :: "nat \<Rightarrow> nat \<Rightarrow> list_heap \<Rightarrow> list_heap" where
  "tuya_list_add_tail pNew pHead h = list_add pNew (prev_p (h pHead)) pHead h"

definition tuya_list_splice :: "nat \<Rightarrow> nat \<Rightarrow> list_heap \<Rightarrow> list_heap" where
  "tuya_list_splice pList pHead h =
     (let pFirst = next_p (h pList)
      in if pFirst \<noteq> pList
         then (let pLast = prev_p (h pList);
                   pAt = next_p (h pHead);
                   h = h(pFirst := (h pFirst)\<lparr>prev_p := pHead\<rparr>);
                   h = h(pHead := (h pHead)\<lparr>next_p := pFirst\<rparr>);
                   h = h(pLast := (h pLast)\<lparr>next_p := pAt\<rparr>);
                   h = h(pAt := (h pAt)\<lparr>prev_p := pLast\<rparr>)
               in h)
         else h)"

definition tuya_list_del :: "nat \<Rightarrow> list_heap \<Rightarrow> list_heap" where
  "tuya_list_del pEntry h = list_del (prev_p (h pEntry)) (next_p (h pEntry)) h"

definition tuya_list_del_init :: "nat \<Rightarrow> list_heap \<Rightarrow> list_heap" where
  "tuya_list_del_init pEntry h =
     INIT_LIST_HEAD pEntry (list_del (prev_p (h pEntry)) (next_p (h pEntry)) h)"

text \<open>
  The traversal \<^verbatim>\<open>tuya_list_for_each\<close>: the positions visited, from the first node until NULL or the head
  is met. It ends only on a well-formed list, so it carries fuel; \<open>list_for_each_enough\<close> below shows
  that one unit more than the number of nodes is enough.
\<close>

fun list_for_each :: "nat \<Rightarrow> list_heap \<Rightarrow> nat \<Rightarrow> nat \<Rightarrow> nat list option" where
  "list_for_each 0 h pos hp = None"
| "list_for_each (Suc n) h pos hp =
     (if pos = NULL \<or> pos = hp then Some []
      else map_option (\<lambda>ps. pos # ps) (list_for_each n h (next_p (h pos)) hp))"

section \<open>Well-formed lists\<close>

fun linked :: "list_heap \<Rightarrow> nat \<Rightarrow> nat list \<Rightarrow> nat \<Rightarrow> bool" where
  "linked h a [] b \<longleftrightarrow> next_p (h a) = b \<and> prev_p (h b) = a"
| "linked h a (x # xs) b \<longleftrightarrow> next_p (h a) = x \<and> prev_p (h x) = a \<and> linked h x xs b"

definition dlist :: "list_heap \<Rightarrow> nat \<Rightarrow> nat list \<Rightarrow> bool" where
  "dlist h hp xs \<longleftrightarrow> linked h hp xs hp \<and> distinct (NULL # hp # xs)"

lemma linked_append:
  "linked h a (xs @ y # ys) b \<longleftrightarrow> linked h a xs y \<and> linked h y ys b"
  by (induction xs arbitrary: a) auto

lemma linked_frame:
  assumes "linked h a xs b" and "next_p (h' a) = next_p (h a)" and "prev_p (h' b) = prev_p (h b)"
    and "\<And>x. x \<in> set xs \<Longrightarrow> h' x = h x"
  shows "linked h' a xs b"
  using assms by (induction xs arbitrary: a) auto

lemma dlist_frame:
  assumes "dlist h hp xs" and "\<And>x. x \<in> set (hp # xs) \<Longrightarrow> h' x = h x"
  shows "dlist h' hp xs"
  using assms by (auto simp: dlist_def intro!: linked_frame [of h hp xs hp])

lemma linked_last: "linked h a xs b \<Longrightarrow> prev_p (h b) = last (a # xs)"
  by (induction xs arbitrary: a) auto

lemma linked_first: "linked h a xs b \<Longrightarrow> next_p (h a) = hd (xs @ [b])"
  by (cases xs) auto

text \<open>Linking a fresh node between two neighbours of a segment.\<close>

lemma list_add_next:
  "pNew \<noteq> pPrev \<Longrightarrow> pNew \<noteq> pNext \<Longrightarrow>
     next_p (list_add pNew pPrev pNext h p) =
       (if p = pPrev then pNew else if p = pNew then pNext else next_p (h p))"
  by (simp add: list_add_def)

lemma list_add_prev:
  "pNew \<noteq> pPrev \<Longrightarrow> pNew \<noteq> pNext \<Longrightarrow>
     prev_p (list_add pNew pPrev pNext h p) =
       (if p = pNext then pNew else if p = pNew then pPrev else prev_p (h p))"
  by (simp add: list_add_def)

lemma list_add_other: "p \<noteq> pNew \<Longrightarrow> p \<noteq> pPrev \<Longrightarrow> p \<noteq> pNext \<Longrightarrow> list_add pNew pPrev pNext h p = h p"
  by (simp add: list_add_def Let_def)

lemma list_del_next:
  "next_p (list_del pPrev pNext h p) = (if p = pPrev then pNext else next_p (h p))"
  by (simp add: list_del_def)

lemma list_del_prev:
  "prev_p (list_del pPrev pNext h p) = (if p = pNext then pPrev else prev_p (h p))"
  by (simp add: list_del_def)

lemma list_del_other: "p \<noteq> pPrev \<Longrightarrow> p \<noteq> pNext \<Longrightarrow> list_del pPrev pNext h p = h p"
  by (simp add: list_del_def)

lemma linked_frame_weak:
  assumes "linked h a xs b"
    and "\<And>x. x \<in> set (a # xs) \<Longrightarrow> next_p (h' x) = next_p (h x)"
    and "\<And>x. x \<in> set (xs @ [b]) \<Longrightarrow> prev_p (h' x) = prev_p (h x)"
  shows "linked h' a xs b"
  using assms by (induction xs arbitrary: a) auto

lemma linked_new_end:
  assumes "linked h a xs b" "distinct (a # xs)"
    and "\<And>x. x \<in> set (a # xs) \<Longrightarrow> x \<noteq> last (a # xs) \<Longrightarrow> next_p (h' x) = next_p (h x)"
    and "\<And>x. x \<in> set xs \<Longrightarrow> prev_p (h' x) = prev_p (h x)"
    and "next_p (h' (last (a # xs))) = c" "prev_p (h' c) = last (a # xs)"
  shows "linked h' a xs c"
  using assms
proof (induction xs arbitrary: a)
  case (Cons x xs)
  have "a \<noteq> last (x # xs)" using Cons.prems(2) by (auto dest: last_in_set split: if_splits)
  then have "next_p (h' a) = x" using Cons.prems by auto
  moreover have "linked h' x xs c"
    using Cons.prems by (intro Cons.IH) auto
  ultimately show ?case using Cons.prems by auto
qed auto

lemma linked_new_start:
  assumes "linked h a xs b" "distinct (xs @ [b])"
    and "\<And>x. x \<in> set xs \<Longrightarrow> next_p (h' x) = next_p (h x)"
    and "\<And>x. x \<in> set (xs @ [b]) \<Longrightarrow> x \<noteq> hd (xs @ [b]) \<Longrightarrow> prev_p (h' x) = prev_p (h x)"
    and "next_p (h' c) = hd (xs @ [b])" "prev_p (h' (hd (xs @ [b]))) = c"
  shows "linked h' c xs b"
proof (cases xs)
  case (Cons x ys)
  note a = assms(2-6) [unfolded Cons append_Cons list.sel(1)]
  have "linked h x ys b" using assms(1) Cons by simp
  then have "linked h' x ys b"
  proof (rule linked_frame_weak)
    show "next_p (h' y) = next_p (h y)" if "y \<in> set (x # ys)" for y
      by (rule a(2) [OF that])
    show "prev_p (h' y) = prev_p (h y)" if y: "y \<in> set (ys @ [b])" for y
      by (rule a(3)) (use y a(1) in auto)
  qed
  with a(4,5) Cons show ?thesis by simp
qed (use assms in auto)

lemma last_Cons_in: "last (a # xs) \<in> set (a # xs)"
  by (rule last_in_set) simp

lemma hd_snoc_in: "hd (xs @ [b]) \<in> set (xs @ [b])"
  by (rule hd_in_set) simp

text \<open>Linking a fresh node after any position of a list, and unlinking any node.\<close>

lemma dlist_insert:
  assumes d: "dlist h hp (xs @ ys)" and n: "n \<notin> set (NULL # hp # xs @ ys)"
    and p: "p = last (hp # xs)" and q: "q = hd (ys @ [hp])"
  shows "dlist (list_add n p q h) hp (xs @ n # ys)"
proof -
  have dist: "distinct (NULL # hp # xs @ ys)" and l: "linked h hp (xs @ ys) hp"
    using d by (auto simp: dlist_def)
  have l1: "linked h hp xs q" and l2: "linked h p ys hp"
    using l p q by (cases ys; cases xs rule: rev_cases; auto simp: linked_append)+
  have mem: "p \<in> set (hp # xs)" "q \<in> set (ys @ [hp])"
    unfolding p q by (rule last_Cons_in hd_snoc_in)+
  then have np: "n \<noteq> p" "n \<noteq> q" using n by auto
  note ch = list_add_next list_add_prev
  have "linked (list_add n p q h) hp xs n"
  proof (rule linked_new_end [OF l1])
    show "prev_p (list_add n p q h x) = prev_p (h x)" if "x \<in> set xs" for x
      using that mem dist n np by (auto simp: ch)
  qed (use dist n np p in \<open>auto simp: ch\<close>)
  moreover have "linked (list_add n p q h) n ys hp"
  proof (rule linked_new_start [OF l2])
    show "next_p (list_add n p q h x) = next_p (h x)" if "x \<in> set ys" for x
      using that mem dist n np by (auto simp: ch)
  qed (use dist n np q in \<open>auto simp: ch\<close>)
  ultimately show ?thesis
    using dist n by (auto simp: dlist_def linked_append)
qed

lemma dlist_delete:
  assumes d: "dlist h hp (xs @ n # ys)"
  shows "dlist (tuya_list_del n h) hp (xs @ ys)"
proof -
  have dist: "distinct (NULL # hp # xs @ n # ys)" and l1: "linked h hp xs n" and l2: "linked h n ys hp"
    using d by (auto simp: dlist_def linked_append)
  define p q where "p = last (hp # xs)" and "q = hd (ys @ [hp])"
  have del: "tuya_list_del n h = list_del p q h"
    unfolding tuya_list_del_def p_def q_def
    by (simp only: linked_last [OF l1] linked_first [OF l2])
  have mem: "p \<in> set (hp # xs)" "q \<in> set (ys @ [hp])"
    unfolding p_def q_def by (rule last_Cons_in hd_snoc_in)+
  note ch = list_del_next list_del_prev
  have "linked (list_del p q h) hp xs q"
  proof (rule linked_new_end [OF l1])
    show "prev_p (list_del p q h x) = prev_p (h x)" if "x \<in> set xs" for x
      using that mem dist by (auto simp: ch)
  qed (use dist in \<open>auto simp: ch p_def\<close>)
  moreover have "linked (list_del p q h) p ys hp"
  proof (rule linked_new_start [OF l2])
    show "next_p (list_del p q h x) = next_p (h x)" if "x \<in> set ys" for x
      using that mem dist by (auto simp: ch)
  qed (use dist in \<open>auto simp: ch q_def\<close>)
  ultimately have "linked (list_del p q h) hp (xs @ ys) hp"
    unfolding p_def q_def
    by (cases ys; cases xs rule: rev_cases) (auto simp: linked_append)
  with dist del show ?thesis by (auto simp: dlist_def)
qed

lemma dlist_neighbours:
  assumes "dlist h hp (xs @ n # ys)"
  shows "prev_p (h n) = last (hp # xs)" "next_p (h n) = hd (ys @ [hp])"
  using assms linked_last [of h hp xs n] linked_first [of h n ys hp]
  by (simp_all only: dlist_def linked_append)

lemma dlist_add_after:
  assumes "dlist h hp (xs @ ys)" "n \<notin> set (NULL # hp # xs @ ys)" "p = last (hp # xs)"
  shows "dlist (tuya_list_add n p h) hp (xs @ n # ys)"
proof -
  have "next_p (h p) = hd (ys @ [hp])"
  proof (cases xs rule: rev_cases)
    case Nil
    then show ?thesis
      using assms linked_first [of h hp ys hp] by (simp only: dlist_def append_Nil last.simps simp_thms if_True)
  next
    case (snoc zs z)
    then show ?thesis
      using assms dlist_neighbours(2) [of h hp zs z ys] by simp
  qed
  then show ?thesis
    unfolding tuya_list_add_def by (simp only: dlist_insert [OF assms refl])
qed

lemma dlist_add_tail:
  assumes "dlist h hp xs" "n \<notin> set (NULL # hp # xs)"
  shows "dlist (tuya_list_add_tail n hp h) hp (xs @ [n])"
proof -
  have "prev_p (h hp) = last (hp # xs)"
    using assms(1) linked_last [of h hp xs hp] by (simp only: dlist_def)
  then show ?thesis
    using dlist_insert [of h hp xs "[]" n "last (hp # xs)" hp] assms
    by (simp add: tuya_list_add_tail_def)
qed

lemma dlist_split_del:
  assumes "dlist h hp xs" "n \<in> set xs"
  obtains ys zs where "xs = ys @ n # zs" "n \<notin> set ys" "remove1 n xs = ys @ zs"
proof -
  obtain ys zs where "xs = ys @ n # zs" "n \<notin> set ys" using split_list_first [OF assms(2)] by blast
  with that show thesis by (simp add: remove1_append)
qed

lemma dlist_empty: "dlist h hp xs \<Longrightarrow> tuya_list_empty hp h \<longleftrightarrow> xs = []"
  by (cases xs) (auto simp: dlist_def tuya_list_empty_def)

lemma dlist_init: "hp \<noteq> NULL \<Longrightarrow> dlist (INIT_LIST_HEAD hp h) hp []"
  by (simp add: dlist_def INIT_LIST_HEAD_def)

text \<open>What an operation writes: only the links of the nodes it joins.\<close>

lemma tuya_list_add_frame:
  assumes "dlist h hp xs" "p \<in> set (hp # xs)" "n \<notin> set (hp # xs)" "x \<notin> set (hp # xs)" "x \<noteq> n"
  shows "tuya_list_add n p h x = h x"
proof -
  have "next_p (h p) \<in> set (hp # xs)"
  proof -
    obtain ys zs where s: "hp # xs = ys @ p # zs" using split_list [OF assms(2)] by blast
    show ?thesis
    proof (cases ys)
      case Nil
      then have "next_p (h p) = hd (zs @ [hp])" "zs = xs" "p = hp"
        using s assms(1) linked_first [of h hp xs hp] by (auto simp: dlist_def)
      then show ?thesis using hd_snoc_in [of xs hp] by auto
    next
      case (Cons y ys')
      then have "next_p (h p) = hd (zs @ [hp])"
        using s assms(1) dlist_neighbours(2) [of h hp ys' p zs] by simp
      then show ?thesis using s Cons hd_snoc_in [of zs hp] by auto
    qed
  qed
  with assms show ?thesis
    unfolding tuya_list_add_def by (intro list_add_other) auto
qed

lemma tuya_list_add_tail_frame:
  assumes "dlist h hp xs" "x \<notin> set (hp # xs)" "x \<noteq> n"
  shows "tuya_list_add_tail n hp h x = h x"
proof -
  have "prev_p (h hp) = last (hp # xs)"
    using assms(1) linked_last [of h hp xs hp] by (simp only: dlist_def)
  with assms last_Cons_in [of hp xs] show ?thesis
    unfolding tuya_list_add_tail_def by (intro list_add_other) auto
qed

lemma tuya_list_del_frame:
  assumes "dlist h hp xs" "n \<in> set xs" "x \<notin> set (hp # xs)"
  shows "tuya_list_del n h x = h x"
proof -
  obtain ys zs where s: "xs = ys @ n # zs" using assms(1,2) by (rule dlist_split_del)
  have "prev_p (h n) \<in> set (hp # xs)" "next_p (h n) \<in> set (hp # xs)"
    using assms(1) dlist_neighbours [of h hp ys n zs] last_Cons_in [of hp ys] hd_snoc_in [of zs hp]
    unfolding s by auto
  with assms(3) show ?thesis
    unfolding tuya_list_del_def by (intro list_del_other) auto
qed

text \<open>The traversal visits the nodes of the list in order and ends.\<close>

lemma list_for_each_linked:
  assumes "linked h a xs hp" "hp \<notin> set xs" "NULL \<notin> set xs" "length xs < n"
  shows "list_for_each n h (next_p (h a)) hp = Some xs"
  using assms
proof (induction xs arbitrary: a n)
  case Nil
  then show ?case by (cases n) auto
next
  case (Cons x xs)
  then obtain m where "n = Suc m" by (cases n) auto
  with Cons show ?case by auto
qed

lemma list_for_each_enough:
  "dlist h hp xs \<Longrightarrow> length xs < n \<Longrightarrow> list_for_each n h (next_p (h hp)) hp = Some xs"
  using list_for_each_linked [of h hp xs hp n] by (simp add: dlist_def)

text \<open>Splicing links a whole list in front of another one (and leaves the old head dangling).\<close>

lemma linked_join:
  "linked h a xs (hd (ys @ [b])) \<Longrightarrow> linked h (last (a # xs)) ys b \<Longrightarrow> linked h a (xs @ ys) b"
  by (cases ys; cases xs rule: rev_cases) (auto simp: linked_append)

lemma splice_links:
  assumes "next_p (h pList) = f" "prev_p (h pList) = l" "next_p (h pHead) = q" "f \<noteq> pList"
    "l \<noteq> pHead" "f \<noteq> q"
  shows "next_p (tuya_list_splice pList pHead h p) = (if p = l then q else if p = pHead then f else next_p (h p))"
    and "prev_p (tuya_list_splice pList pHead h p) = (if p = q then l else if p = f then pHead else prev_p (h p))"
  using assms by (auto simp: tuya_list_splice_def Let_def)

lemma dlist_splice:
  assumes a: "dlist h a xs" and b: "dlist h b ys" and dj: "set (a # xs) \<inter> set (b # ys) = {}"
  shows "dlist (tuya_list_splice a b h) b (xs @ ys)"
proof (cases xs)
  case Nil
  then have "tuya_list_splice a b h = h" using a by (simp add: tuya_list_splice_def dlist_def)
  with Nil b show ?thesis by simp
next
  case (Cons x us)
  define l q h' where "l = last (x # us)" and "q = hd (ys @ [b])" and "h' = tuya_list_splice a b h"
  have da: "distinct (NULL # a # x # us)" and la: "linked h x us a" and fa: "next_p (h a) = x"
    using a Cons by (auto simp: dlist_def)
  have db: "distinct (NULL # b # ys)" and lb: "linked h b ys b" using b by (auto simp: dlist_def)
  have mem: "l \<in> set (x # us)" "q \<in> set (ys @ [b])"
    unfolding l_def q_def by (rule last_Cons_in hd_snoc_in)+
  have ne: "x \<noteq> a" "l \<noteq> b" "x \<noteq> q" using da dj Cons mem by auto
  have "prev_p (h a) = l" using linked_last [OF la] by (simp only: l_def)
  moreover have "next_p (h b) = q" using linked_first [OF lb] by (simp only: q_def)
  ultimately have ch: "next_p (h' p) = (if p = l then q else if p = b then x else next_p (h p))"
    "prev_p (h' p) = (if p = q then l else if p = x then b else prev_p (h p))" for p
    unfolding h'_def using splice_links [of h a x l b q] fa ne by auto
  have "linked h' x us q"
  proof (rule linked_new_end [OF la])
    show "prev_p (h' p) = prev_p (h p)" if "p \<in> set us" for p
      using that mem da dj Cons by (auto simp: ch)
    show "next_p (h' p) = next_p (h p)" if "p \<in> set (x # us)" "p \<noteq> last (x # us)" for p
      using that dj Cons by (auto simp: ch l_def)
    show "next_p (h' (last (x # us))) = q" by (simp add: ch l_def)
    show "prev_p (h' q) = last (x # us)" by (simp add: ch l_def)
  qed (use da in simp)
  moreover have "linked h' l ys b"
  proof (rule linked_new_start [OF lb])
    show "next_p (h' p) = next_p (h p)" if "p \<in> set ys" for p
      using that mem db dj Cons by (auto simp: ch)
    show "prev_p (h' p) = prev_p (h p)" if "p \<in> set (ys @ [b])" "p \<noteq> hd (ys @ [b])" for p
      using that dj Cons by (auto simp: ch q_def)
    show "next_p (h' l) = hd (ys @ [b])" by (simp add: ch q_def)
    show "prev_p (h' (hd (ys @ [b]))) = l" by (simp add: ch q_def)
  qed (use db in simp)
  ultimately have "linked h' x (us @ ys) b" unfolding l_def q_def by (rule linked_join)
  moreover have "next_p (h' b) = x" "prev_p (h' x) = b" using ne by (auto simp: ch)
  ultimately show ?thesis using Cons da db dj by (auto simp: dlist_def h'_def)
qed

section \<open>The interface of the list\<close>

locale list_store =
  fixes lst :: "'h \<Rightarrow> nat \<Rightarrow> nat list \<Rightarrow> bool"
    and add :: "nat \<Rightarrow> nat \<Rightarrow> 'h \<Rightarrow> 'h"
    and add_tail :: "nat \<Rightarrow> nat \<Rightarrow> 'h \<Rightarrow> 'h"
    and del :: "nat \<Rightarrow> 'h \<Rightarrow> 'h"
  assumes lst_distinct: "lst h hp xs \<Longrightarrow> distinct (NULL # hp # xs)"
    and lst_add: "lst h hp (xs @ ys) \<Longrightarrow> n \<notin> set (NULL # hp # xs @ ys) \<Longrightarrow>
      lst (add n (last (hp # xs)) h) hp (xs @ n # ys)"
    and lst_add_tail: "lst h hp xs \<Longrightarrow> n \<notin> set (NULL # hp # xs) \<Longrightarrow> lst (add_tail n hp h) hp (xs @ [n])"
    and lst_del: "lst h hp xs \<Longrightarrow> n \<in> set xs \<Longrightarrow> lst (del n h) hp (remove1 n xs)"
    and add_tail_frame: "lst h hp xs \<Longrightarrow> n \<notin> set (hp # xs) \<Longrightarrow> lst h hq ys \<Longrightarrow>
      set (hp # xs) \<inter> set (hq # ys) = {} \<Longrightarrow> n \<notin> set (hq # ys) \<Longrightarrow> lst (add_tail n hp h) hq ys"
    and add_frame: "lst h hp xs \<Longrightarrow> n \<notin> set (hp # xs) \<Longrightarrow> lst h hq ys \<Longrightarrow> p \<in> set (hp # xs) \<Longrightarrow>
      set (hp # xs) \<inter> set (hq # ys) = {} \<Longrightarrow> n \<notin> set (hq # ys) \<Longrightarrow> lst (add n p h) hq ys"
    and del_frame: "lst h hp xs \<Longrightarrow> n \<in> set xs \<Longrightarrow> lst h hq ys \<Longrightarrow>
      set (hp # xs) \<inter> set (hq # ys) = {} \<Longrightarrow> lst (del n h) hq ys"
begin

text \<open>
  Moving a node: the idiom \<^verbatim>\<open>tuya_list_del(n); tuya_list_add_tail(n, b)\<close> of the timers and of the event
  manager, the sorted insertion \<^verbatim>\<open>tuya_list_del(n); tuya_list_add(n, pos->prev)\<close> of the timers.
\<close>

lemma move_tail:
  assumes "lst h a xs" "lst h b ys" "set (a # xs) \<inter> set (b # ys) = {}" "n \<in> set xs"
  shows "lst (add_tail n b (del n h)) a (remove1 n xs) \<and> lst (add_tail n b (del n h)) b (ys @ [n])"
proof -
  have d: "distinct (NULL # a # xs)" by (rule lst_distinct [OF assms(1)])
  have l: "lst (del n h) a (remove1 n xs)" "lst (del n h) b ys"
    using lst_del del_frame assms by blast+
  have n: "n \<notin> set (NULL # b # ys)" "n \<notin> set (b # ys)" "n \<notin> set (a # remove1 n xs)" using assms d by auto
  have "set (b # ys) \<inter> set (a # remove1 n xs) = {}"
    using assms(3) set_remove1_subset [of n xs] by auto
  then show ?thesis
    using lst_add_tail [OF l(2) n(1)] add_tail_frame [OF l(2) n(2) l(1) _ n(3)] by blast
qed

lemma move_within:
  assumes "lst h a xs" "n \<in> set xs" "remove1 n xs = ys @ zs"
  shows "lst (add n (last (a # ys)) (del n h)) a (ys @ n # zs)"
proof -
  have "distinct (NULL # a # xs)" by (rule lst_distinct [OF assms(1)])
  then have "n \<notin> set (NULL # a # remove1 n xs)" using assms(2) by (auto intro!: gr0I)
  then show ?thesis
    using lst_add [of "del n h" a ys zs n] lst_del [OF assms(1,2)] assms(3) by simp
qed

end

interpretation lh: list_store dlist tuya_list_add tuya_list_add_tail tuya_list_del
proof unfold_locales
  fix h :: list_heap and hp hq n p :: nat and xs ys :: "nat list"
  show "dlist h hp xs \<Longrightarrow> distinct (NULL # hp # xs)" by (simp add: dlist_def)
  show "dlist h hp (xs @ ys) \<Longrightarrow> n \<notin> set (NULL # hp # xs @ ys) \<Longrightarrow>
      dlist (tuya_list_add n (last (hp # xs)) h) hp (xs @ n # ys)"
    by (rule dlist_add_after) (assumption+, rule refl)
  show "dlist h hp xs \<Longrightarrow> n \<notin> set (NULL # hp # xs) \<Longrightarrow> dlist (tuya_list_add_tail n hp h) hp (xs @ [n])"
    by (rule dlist_add_tail)
  show "dlist h hp xs \<Longrightarrow> n \<in> set xs \<Longrightarrow> dlist (tuya_list_del n h) hp (remove1 n xs)"
    by (metis dlist_delete dlist_split_del)
  show "dlist (tuya_list_add_tail n hp h) hq ys"
    if "dlist h hp xs" "n \<notin> set (hp # xs)" "dlist h hq ys"
      "set (hp # xs) \<inter> set (hq # ys) = {}" "n \<notin> set (hq # ys)"
    using that by (intro dlist_frame [OF that(3)] tuya_list_add_tail_frame [OF that(1)]) auto
  show "dlist (tuya_list_add n p h) hq ys"
    if "dlist h hp xs" "n \<notin> set (hp # xs)" "dlist h hq ys" "p \<in> set (hp # xs)"
      "set (hp # xs) \<inter> set (hq # ys) = {}" "n \<notin> set (hq # ys)"
    using that by (intro dlist_frame [OF that(3)] tuya_list_add_frame [OF that(1,4,2)]) auto
  show "dlist (tuya_list_del n h) hq ys"
    if "dlist h hp xs" "n \<in> set xs" "dlist h hq ys" "set (hp # xs) \<inter> set (hq # ys) = {}"
    using that by (intro dlist_frame [OF that(3)] tuya_list_del_frame [OF that(1,2)]) auto
qed

section \<open>Properties\<close>

text \<open>
  Moving a node between two lists at pointer level, \<^verbatim>\<open>tuya_list_del(n); tuya_list_add_tail(n, b)\<close>:
  afterwards a traversal of each list ends within as many steps as it has nodes plus one and
  visits, in order, the nodes of the first list without \<open>n\<close>, and those of the second followed by \<open>n\<close>.
\<close>

theorem list_move_tail:
  assumes "dlist h a xs" and "dlist h b ys" and "set (a # xs) \<inter> set (b # ys) = {}" and "n \<in> set xs"
  shows "let h' = tuya_list_add_tail n b (tuya_list_del n h)
    in list_for_each (length xs) h' (next_p (h' a)) a = Some (remove1 n xs)
     \<and> list_for_each (length ys + 2) h' (next_p (h' b)) b = Some (ys @ [n])"
proof -
  let ?h = "tuya_list_add_tail n b (tuya_list_del n h)"
  have "length (remove1 n xs) < length xs"
    using assms(4) by (induction xs) auto
  then show ?thesis
    using lh.move_tail [OF assms] list_for_each_enough [of ?h a "remove1 n xs" "length xs"]
      list_for_each_enough [of ?h b "ys @ [n]" "length ys + 2"] unfolding Let_def by simp
qed

definition two_lists :: list_heap where
  "two_lists = tuya_list_add_tail 5 2 (tuya_list_add_tail 4 1 (tuya_list_add_tail 3 1
     (INIT_LIST_HEAD 2 (INIT_LIST_HEAD 1 (\<lambda>_. \<lparr>next_p = 0, prev_p = 0\<rparr>)))))"

lemma two_lists_dlist: "dlist two_lists 1 [3, 4]" "dlist two_lists 2 [5]"
  by (simp_all add: two_lists_def dlist_def tuya_list_add_tail_def list_add_def INIT_LIST_HEAD_def)

lemma list_move_tail_witness:
  "let h' = tuya_list_add_tail 3 2 (tuya_list_del 3 two_lists)
    in list_for_each 2 h' (next_p (h' 1)) 1 = Some [4] \<and> list_for_each 3 h' (next_p (h' 2)) 2 = Some [5, 3]"
  using list_move_tail [OF two_lists_dlist, of 3] by (simp add: Let_def numeral_eq_Suc)

text \<open>
  Splicing a list into another one, at pointer level: the nodes of the first list come, in
  order, in front of those of the second.
\<close>

theorem list_splice_front:
  assumes "dlist h a xs" and "dlist h b ys" and "set (a # xs) \<inter> set (b # ys) = {}"
  shows "dlist (tuya_list_splice a b h) b (xs @ ys)"
  using assms by (rule dlist_splice)

lemma list_splice_front_witness: "dlist (tuya_list_splice 1 2 two_lists) 2 [3, 4, 5]"
  using list_splice_front [OF two_lists_dlist] by simp

end
