(* ===== verification/MsgQueue.thy ===== *)
theory MsgQueue
  imports Prelude
begin

text \<open>
  The bounded message queue of \<^verbatim>\<open>tools/porting/adapter/utilities/src/tuya_queue.c\<close>. The items hang
  on a circular list whose sequence of nodes is kept as a HOL list (\<open>ListHeap\<close> shows that the pointer
  operations implement it); the lock only serialises the calls. A handle is an option (\<open>None\<close> is
  NULL), an item argument too, and \<open>mem\<close> says whether the allocation of a node succeeds. The locale
  \<open>bounded_queue\<close> is the contract the work queue uses.
\<close>

section \<open>Model\<close>

datatype enqueue_policy = POLICY_SEND_TO_BACK | POLICY_SEND_TO_FRONT | POLICY_MAX

record 'a tuya_queue =
  item_size :: nat
  queue_len :: nat
  queue_free :: nat
  q_head :: "'a list"

definition enqueue ::
  "'a tuya_queue option \<Rightarrow> 'a option \<Rightarrow> enqueue_policy \<Rightarrow> bool \<Rightarrow> operate_ret \<times> 'a tuya_queue option" where
  "enqueue h item policy mem =
     (case (h, item) of
        (Some q, Some x) \<Rightarrow>
          if policy = POLICY_MAX then (OPRT_INVALID_PARM, h)
          else if \<not> mem then (OPRT_MALLOC_FAILED, h)
          else if queue_free q > 0 then
            (OPRT_OK, Some (q\<lparr>q_head := (if policy = POLICY_SEND_TO_BACK then q_head q @ [x]
                                        else x # q_head q),
                              queue_free := queue_free q - 1\<rparr>))
          else (OPRT_EXCEED_UPPER_LIMIT, h)
      | _ \<Rightarrow> (OPRT_INVALID_PARM, h))"

text \<open>\<open>lock_ret\<close> is what creating the mutex returns.\<close>

definition tuya_queue_create ::
  "nat \<Rightarrow> nat \<Rightarrow> bool \<Rightarrow> bool \<Rightarrow> operate_ret \<Rightarrow> operate_ret \<times> 'a tuya_queue option" where
  "tuya_queue_create qlen isize has_handle mem lock_ret =
     (if \<not> has_handle \<or> qlen = 0 \<or> isize = 0 then (OPRT_INVALID_PARM, None)
      else if \<not> mem then (OPRT_MALLOC_FAILED, None)
      else if lock_ret \<noteq> OPRT_OK then (OPRT_COM_ERROR, None)
      else (OPRT_OK, Some \<lparr>item_size = isize, queue_len = qlen, queue_free = qlen, q_head = []\<rparr>))"

definition tuya_queue_input ::
  "'a tuya_queue option \<Rightarrow> 'a option \<Rightarrow> bool \<Rightarrow> operate_ret \<times> 'a tuya_queue option" where
  "tuya_queue_input h item mem = enqueue h item POLICY_SEND_TO_BACK mem"

definition tuya_queue_input_instant ::
  "'a tuya_queue option \<Rightarrow> 'a option \<Rightarrow> bool \<Rightarrow> operate_ret \<times> 'a tuya_queue option" where
  "tuya_queue_input_instant h item mem = enqueue h item POLICY_SEND_TO_FRONT mem"

text \<open>\<open>want\<close> says whether the caller passed a place for the item.\<close>

definition tuya_queue_output ::
  "'a tuya_queue option \<Rightarrow> bool \<Rightarrow> operate_ret \<times> 'a option \<times> 'a tuya_queue option" where
  "tuya_queue_output h want =
     (case h of None \<Rightarrow> (OPRT_INVALID_PARM, None, h)
      | Some q \<Rightarrow>
          if queue_free q < queue_len q then
            (OPRT_OK, (if want then Some (hd (q_head q)) else None),
             Some (q\<lparr>q_head := tl (q_head q), queue_free := queue_free q + 1\<rparr>))
          else (OPRT_NOT_FOUND, None, h))"

definition tuya_queue_peek :: "'a tuya_queue option \<Rightarrow> bool \<Rightarrow> operate_ret \<times> 'a option" where
  "tuya_queue_peek h want =
     (case h of None \<Rightarrow> (OPRT_INVALID_PARM, None)
      | Some q \<Rightarrow>
          if \<not> want then (OPRT_INVALID_PARM, None)
          else if queue_free q < queue_len q then (OPRT_OK, Some (hd (q_head q)))
          else (OPRT_NOT_FOUND, None))"

text \<open>
  A traversal callback sees the item in place: it returns whether to go on, the item as it leaves
  it, and its context.
\<close>

fun traverse_items :: "('a \<Rightarrow> 'c \<Rightarrow> bool \<times> 'a \<times> 'c) \<Rightarrow> 'a list \<Rightarrow> 'c \<Rightarrow> 'a list \<times> 'c" where
  "traverse_items cb [] ctx = ([], ctx)"
| "traverse_items cb (x # xs) ctx =
     (case cb x ctx of (go, x', ctx') \<Rightarrow>
        if go then (case traverse_items cb xs ctx' of (xs', ctx'') \<Rightarrow> (x' # xs', ctx''))
        else (x' # xs, ctx'))"

definition tuya_queue_traverse ::
  "'a tuya_queue option \<Rightarrow> ('a \<Rightarrow> 'c \<Rightarrow> bool \<times> 'a \<times> 'c) option \<Rightarrow> 'c
     \<Rightarrow> operate_ret \<times> 'c \<times> 'a tuya_queue option" where
  "tuya_queue_traverse h cb ctx =
     (case (h, cb) of
        (Some q, Some f) \<Rightarrow>
          (case traverse_items f (q_head q) ctx of (xs, ctx') \<Rightarrow>
             (OPRT_OK, ctx', Some (q\<lparr>q_head := xs\<rparr>)))
      | _ \<Rightarrow> (OPRT_INVALID_PARM, ctx, h))"

definition tuya_queue_clear :: "'a tuya_queue option \<Rightarrow> operate_ret \<times> 'a tuya_queue option" where
  "tuya_queue_clear h =
     (case h of None \<Rightarrow> (OPRT_INVALID_PARM, None)
      | Some q \<Rightarrow> (OPRT_OK, Some (q\<lparr>q_head := [], queue_free := queue_len q\<rparr>)))"

text \<open>The batch loop: \<open>index\<close> counts the items skipped, the accumulator holds the items copied.\<close>

fun get_batch_loop :: "nat \<Rightarrow> nat \<Rightarrow> 'a list \<Rightarrow> nat \<Rightarrow> 'a list \<Rightarrow> nat \<times> 'a list" where
  "get_batch_loop start num [] index items = (index, items)"
| "get_batch_loop start num (x # xs) index items =
     (if index < start then get_batch_loop start num xs (index + 1) items
      else if length items \<ge> num then (index, items)
      else get_batch_loop start num xs index (items @ [x]))"

definition tuya_queue_get_batch ::
  "'a tuya_queue option \<Rightarrow> nat \<Rightarrow> bool \<Rightarrow> nat \<Rightarrow> operate_ret \<times> 'a list" where
  "tuya_queue_get_batch h start has_items num =
     (case h of None \<Rightarrow> (OPRT_INVALID_PARM, [])
      | Some q \<Rightarrow>
          if \<not> has_items \<or> num = 0 then (OPRT_INVALID_PARM, [])
          else (case get_batch_loop start num (q_head q) 0 [] of (index, items) \<Rightarrow>
                  if index \<noteq> start \<or> length items \<noteq> num then (OPRT_NOT_FOUND, items)
                  else (OPRT_OK, items)))"

fun delete_batch_loop :: "nat \<Rightarrow> operate_ret \<Rightarrow> 'a tuya_queue option \<Rightarrow> operate_ret \<times> 'a tuya_queue option" where
  "delete_batch_loop 0 op_ret h = (op_ret, h)"
| "delete_batch_loop (Suc count) op_ret h =
     (if op_ret = OPRT_OK
      then (case tuya_queue_output h False of (r, _, h') \<Rightarrow> delete_batch_loop count r h')
      else (op_ret, h))"

definition tuya_queue_delete_batch ::
  "'a tuya_queue option \<Rightarrow> nat \<Rightarrow> operate_ret \<times> 'a tuya_queue option" where
  "tuya_queue_delete_batch h num =
     (if h = None \<or> num = 0 then (OPRT_INVALID_PARM, h) else delete_batch_loop num OPRT_OK h)"

definition tuya_queue_get_free_num :: "'a tuya_queue option \<Rightarrow> nat" where
  "tuya_queue_get_free_num h = (case h of None \<Rightarrow> 0 | Some q \<Rightarrow> queue_free q)"

definition tuya_queue_get_used_num :: "'a tuya_queue option \<Rightarrow> nat" where
  "tuya_queue_get_used_num h = (case h of None \<Rightarrow> 0 | Some q \<Rightarrow> queue_len q - queue_free q)"

definition tuya_queue_get_max_num :: "'a tuya_queue option \<Rightarrow> nat" where
  "tuya_queue_get_max_num h = (case h of None \<Rightarrow> 0 | Some q \<Rightarrow> queue_len q)"

text \<open>Releasing empties the queue, releases its lock (result \<open>lock_ret\<close>) and frees it.\<close>

definition tuya_queue_release ::
  "'a tuya_queue option \<Rightarrow> operate_ret \<Rightarrow> operate_ret \<times> 'a tuya_queue option" where
  "tuya_queue_release h lock_ret =
     (case h of None \<Rightarrow> (OPRT_INVALID_PARM, None)
      | Some q \<Rightarrow> (case tuya_queue_clear h of (_, _) \<Rightarrow> (lock_ret, None)))"

section \<open>Invariant\<close>

definition queue_inv :: "'a tuya_queue \<Rightarrow> bool" where
  "queue_inv q \<longleftrightarrow> 0 < queue_len q \<and> queue_free q + length (q_head q) = queue_len q"

lemma queue_create_inv [inv_rules]:
  "tuya_queue_create qlen isize hh mem lr = (r, Some q) \<Longrightarrow> queue_inv q \<and> q_head q = []"
  by (auto simp: tuya_queue_create_def queue_inv_def split: if_splits)

lemma enqueue_inv [inv_rules]:
  "queue_inv q \<Longrightarrow> enqueue (Some q) item pol mem = (r, Some q') \<Longrightarrow> queue_inv q'"
  by (auto simp: enqueue_def queue_inv_def split: if_splits option.splits)

lemma output_inv [inv_rules]:
  "queue_inv q \<Longrightarrow> tuya_queue_output (Some q) w = (r, x, Some q') \<Longrightarrow> queue_inv q'"
  by (auto simp: tuya_queue_output_def queue_inv_def split: if_splits)

lemma length_traverse_items: "length (fst (traverse_items cb xs ctx)) = length xs"
  by (induction xs arbitrary: ctx) (auto split: prod.splits simp: case_prod_beta)

lemma traverse_inv [inv_rules]:
  assumes "queue_inv q" "tuya_queue_traverse (Some q) (Some cb) ctx = (r, ctx', Some q')"
  shows "queue_inv q'"
proof -
  have "q' = q\<lparr>q_head := fst (traverse_items cb (q_head q) ctx)\<rparr>"
    using assms(2) by (auto simp: tuya_queue_traverse_def split: prod.splits)
  then show ?thesis using assms(1) by (simp add: queue_inv_def length_traverse_items)
qed

lemma clear_inv [inv_rules]: "queue_inv q \<Longrightarrow> tuya_queue_clear (Some q) = (r, Some q') \<Longrightarrow> queue_inv q'"
  by (auto simp: tuya_queue_clear_def queue_inv_def)

lemma get_batch_loop_eq:
  "index \<le> start \<Longrightarrow> length items \<le> num \<Longrightarrow>
     get_batch_loop start num xs index items =
       (min start (index + length xs), items @ take (num - length items) (drop (start - index) xs))"
proof (induction xs arbitrary: index items)
  case (Cons x xs)
  show ?case
  proof (cases "index < start")
    case True
    then show ?thesis using Cons.IH [of "index + 1" items] Cons.prems
      by (simp add: drop_Cons')
  next
    case False
    then show ?thesis using Cons.IH [of index "items @ [x]"] Cons.prems
      by (auto simp: take_Cons')
  qed
qed simp

lemma output_some:
  assumes "queue_inv q" "q_head q = x # xs"
  shows "tuya_queue_output (Some q) w =
    (OPRT_OK, if w then Some x else None, Some (q\<lparr>q_head := xs, queue_free := queue_free q + 1\<rparr>))"
  using assms by (auto simp: tuya_queue_output_def queue_inv_def)

lemma output_none:
  "queue_inv q \<Longrightarrow> q_head q = [] \<Longrightarrow> tuya_queue_output (Some q) w = (OPRT_NOT_FOUND, None, Some q)"
  by (auto simp: tuya_queue_output_def queue_inv_def)

lemma delete_batch_loop_eq:
  assumes "queue_inv q"
  shows "delete_batch_loop n OPRT_OK (Some q) =
    (if n \<le> length (q_head q) then OPRT_OK else OPRT_NOT_FOUND,
     Some (q\<lparr>q_head := drop n (q_head q), queue_free := queue_free q + min n (length (q_head q))\<rparr>))"
  using assms
proof (induction n arbitrary: q)
  case (Suc n)
  show ?case
  proof (cases "q_head q")
    case Nil
    have "delete_batch_loop m OPRT_NOT_FOUND h = (OPRT_NOT_FOUND, h)" for m and h :: "'a tuya_queue option"
      by (cases m) simp_all
    with Nil Suc.prems show ?thesis by (simp add: output_none)
  next
    case (Cons x xs)
    have "queue_inv (q\<lparr>q_head := xs, queue_free := queue_free q + 1\<rparr>)"
      using Suc.prems Cons by (simp add: queue_inv_def)
    from Suc.IH [OF this] show ?thesis
      using Suc.prems Cons by (simp add: output_some)
  qed
qed simp

section \<open>The contract the work queue relies on\<close>

text \<open>\<open>queue_drain tk n q\<close> takes up to \<open>n\<close> items, as a consumer that keeps reading does.\<close>

fun queue_drain :: "('q \<Rightarrow> 'a option \<times> 'q) \<Rightarrow> nat \<Rightarrow> 'q \<Rightarrow> 'a list \<times> 'q" where
  "queue_drain tk 0 q = ([], q)"
| "queue_drain tk (Suc n) q =
     (case tk q of
        (None, q') \<Rightarrow> ([], q')
      | (Some x, q') \<Rightarrow> (case queue_drain tk n q' of (xs, q'') \<Rightarrow> (x # xs, q'')))"

locale bounded_queue =
  fixes invar :: "'q \<Rightarrow> bool"
    and items :: "'q \<Rightarrow> 'a list"
    and capacity :: "'q \<Rightarrow> nat"
    and put_back :: "'a \<Rightarrow> 'q \<Rightarrow> bool \<times> 'q"
    and put_front :: "'a \<Rightarrow> 'q \<Rightarrow> bool \<times> 'q"
    and take_first :: "'q \<Rightarrow> 'a option \<times> 'q"
  assumes put_back_full: "invar q \<Longrightarrow> length (items q) = capacity q \<Longrightarrow> put_back x q = (False, q)"
    and put_back_items: "invar q \<Longrightarrow> length (items q) < capacity q \<Longrightarrow>
      fst (put_back x q) \<and> invar (snd (put_back x q)) \<and> items (snd (put_back x q)) = items q @ [x]
      \<and> capacity (snd (put_back x q)) = capacity q"
    and put_front_items: "invar q \<Longrightarrow> length (items q) < capacity q \<Longrightarrow>
      fst (put_front x q) \<and> invar (snd (put_front x q)) \<and> items (snd (put_front x q)) = x # items q
      \<and> capacity (snd (put_front x q)) = capacity q"
    and take_empty: "invar q \<Longrightarrow> items q = [] \<Longrightarrow> take_first q = (None, q)"
    and take_items: "invar q \<Longrightarrow> items q = x # xs \<Longrightarrow>
      fst (take_first q) = Some x \<and> invar (snd (take_first q)) \<and> items (snd (take_first q)) = xs
      \<and> capacity (snd (take_first q)) = capacity q"
begin

lemma drain_items:
  "invar q \<Longrightarrow> fst (queue_drain take_first n q) = List.take n (items q)
     \<and> items (snd (queue_drain take_first n q)) = List.drop n (items q)"
proof (induction n arbitrary: q)
  case (Suc n)
  show ?case
  proof (cases "items q")
    case Nil
    with Suc.prems show ?thesis by (simp add: take_empty)
  next
    case (Cons x xs)
    from take_items [OF Suc.prems Cons] obtain q' where
      t: "take_first q = (Some x, q')" "invar q'" "items q' = xs"
      by (cases "take_first q") auto
    from Suc.IH [OF t(2)] t Cons show ?thesis by (simp add: case_prod_beta)
  qed
qed simp

lemma put_back_fold:
  "invar q \<Longrightarrow> length (items q) + length xs \<le> capacity q \<Longrightarrow>
     items (fold (\<lambda>x q. snd (put_back x q)) xs q) = items q @ xs
     \<and> invar (fold (\<lambda>x q. snd (put_back x q)) xs q)"
proof (induction xs arbitrary: q)
  case (Cons x xs)
  then have "length (items q) < capacity q" by simp
  from put_back_items [OF Cons.prems(1) this, of x] Cons.IH [of "snd (put_back x q)"] Cons.prems
  show ?case by simp
qed simp

end

definition q_put_back :: "'a \<Rightarrow> 'a tuya_queue \<Rightarrow> bool \<times> 'a tuya_queue" where
  "q_put_back x q = (case tuya_queue_input (Some q) (Some x) True of (r, h) \<Rightarrow> (r = OPRT_OK, the h))"

definition q_put_front :: "'a \<Rightarrow> 'a tuya_queue \<Rightarrow> bool \<times> 'a tuya_queue" where
  "q_put_front x q =
     (case tuya_queue_input_instant (Some q) (Some x) True of (r, h) \<Rightarrow> (r = OPRT_OK, the h))"

definition q_take :: "'a tuya_queue \<Rightarrow> 'a option \<times> 'a tuya_queue" where
  "q_take q = (case tuya_queue_output (Some q) True of (r, x, h) \<Rightarrow> (x, the h))"

lemmas q_ops_defs = q_put_back_def q_put_front_def q_take_def tuya_queue_input_def
  tuya_queue_input_instant_def enqueue_def

interpretation mq: bounded_queue queue_inv q_head queue_len q_put_back q_put_front q_take
proof unfold_locales
  fix q :: "'a tuya_queue" and x :: 'a and xs :: "'a list"
  assume inv: "queue_inv q"
  show "length (q_head q) = queue_len q \<Longrightarrow> q_put_back x q = (False, q)"
    using inv by (simp add: q_ops_defs queue_inv_def)
  show "length (q_head q) < queue_len q \<Longrightarrow>
      fst (q_put_back x q) \<and> queue_inv (snd (q_put_back x q))
      \<and> q_head (snd (q_put_back x q)) = q_head q @ [x] \<and> queue_len (snd (q_put_back x q)) = queue_len q"
    using inv by (simp add: q_ops_defs queue_inv_def)
  show "length (q_head q) < queue_len q \<Longrightarrow>
      fst (q_put_front x q) \<and> queue_inv (snd (q_put_front x q))
      \<and> q_head (snd (q_put_front x q)) = x # q_head q \<and> queue_len (snd (q_put_front x q)) = queue_len q"
    using inv by (simp add: q_ops_defs queue_inv_def)
  show "q_head q = [] \<Longrightarrow> q_take q = (None, q)"
    using inv by (simp add: q_take_def output_none)
  show "q_head q = x # xs \<Longrightarrow>
      fst (q_take q) = Some x \<and> queue_inv (snd (q_take q)) \<and> q_head (snd (q_take q)) = xs
      \<and> queue_len (snd (q_take q)) = queue_len q"
    using inv by (auto simp: q_take_def output_some queue_inv_def)
qed

section \<open>Properties\<close>

text \<open>
  Batches: reading a batch succeeds exactly when the queue holds that many items from the start
  index on, and then copies that slice in order; deleting a batch removes the oldest items and says
  whether there were enough.
\<close>

theorem queue_batches:
  assumes "queue_inv q" and "0 < num"
  shows "tuya_queue_get_batch (Some q) start True num =
      (if start + num \<le> length (q_head q) then OPRT_OK else OPRT_NOT_FOUND,
       take num (drop start (q_head q)))
    \<and> tuya_queue_delete_batch (Some q) num =
      (if num \<le> length (q_head q) then OPRT_OK else OPRT_NOT_FOUND,
       Some (q\<lparr>q_head := drop num (q_head q), queue_free := queue_free q + min num (length (q_head q))\<rparr>))"
proof
  show "tuya_queue_get_batch (Some q) start True num =
      (if start + num \<le> length (q_head q) then OPRT_OK else OPRT_NOT_FOUND,
       take num (drop start (q_head q)))"
    using assms(2) get_batch_loop_eq [of 0 start "[]" num "q_head q"]
    by (auto simp: tuya_queue_get_batch_def min_def)
  show "tuya_queue_delete_batch (Some q) num =
      (if num \<le> length (q_head q) then OPRT_OK else OPRT_NOT_FOUND,
       Some (q\<lparr>q_head := drop num (q_head q), queue_free := queue_free q + min num (length (q_head q))\<rparr>))"
    using assms delete_batch_loop_eq [OF assms(1), of num] by (simp add: tuya_queue_delete_batch_def)
qed

lemma queue_batches_witness:
  "tuya_queue_get_batch (Some \<lparr>item_size = 4, queue_len = 5, queue_free = 2, q_head = [1, 2, 3 :: nat]\<rparr>)
     1 True 2 = (OPRT_OK, [2, 3])"
  using queue_batches [of "\<lparr>item_size = 4, queue_len = 5, queue_free = 2, q_head = [1, 2, 3 :: nat]\<rparr>" 2 1]
  by (simp add: queue_inv_def)

end
