(* ===== verification/SwTimer.thy ===== *)
theory SwTimer
  imports ListHeap
begin

text \<open>
  The software timers of \<^verbatim>\<open>src/tal_system/src/tal_sw_timer.c\<close>. A timer is named by the address of its
  \<^verbatim>\<open>TIMER_T\<close> (a natural number; a NULL argument is \<open>None\<close>); the manager holds the timer records and the
  two lists, the active one kept sorted by expiry time. The lists are sequences of nodes; the sorted
  insertion, the only place that walks and edits the links by hand, is also given on the pointers
  of \<open>ListHeap\<close> and shown to implement the sequence version.

  Expiry times are 64-bit milliseconds, \<^verbatim>\<open>TIME_S\<close> and \<^verbatim>\<open>TIME_MS\<close> are \<^verbatim>\<open>unsigned long\<close>, 32 bits
  on the 32-bit boards the application runs on; the reading \<open>(sec, ms)\<close> of \<^verbatim>\<open>tal_time_get_system_time\<close>
  is an argument of the operations that take one. The counters are 16-bit words; \<open>sem_posts\<close> counts
  the posts of the semaphore that wakes the timer thread. Locks, log output and the debugging field
  \<^verbatim>\<open>last_cb\<close> are left out; callbacks act through the parameter \<open>eff\<close> of the dispatch loop.
\<close>

section \<open>Model\<close>

datatype timer_type = TAL_TIMER_ONCE | TAL_TIMER_CYCLE

record timer =
  t_cb :: nat
  t_data :: nat
  expire_time :: u64
  interval :: u32
  is_running :: bool
  t_type :: timer_type

record timer_mgr =
  timers :: "nat \<Rightarrow> timer"
  list_active :: "nat list"
  list_standby :: "nat list"
  total_cnt :: u16
  running_cnt :: u16
  inited :: bool
  sem_posts :: nat

type_synonym clock = "u32 \<times> u32"

abbreviation SEM_WAIT_FOREVER :: u64 where "SEM_WAIT_FOREVER \<equiv> 0xFFFFFFFF"

definition system_ms :: "clock \<Rightarrow> u64" where
  "system_ms c = (case c of (sec, ms) \<Rightarrow> ucast sec * 1000 + ucast ms)"

definition set_timer :: "nat \<Rightarrow> (timer \<Rightarrow> timer) \<Rightarrow> timer_mgr \<Rightarrow> timer_mgr" where
  "set_timer t f m = m\<lparr>timers := (timers m)(t := f (timers m t))\<rparr>"

definition tal_semaphore_post :: "timer_mgr \<Rightarrow> timer_mgr" where
  "tal_semaphore_post m = m\<lparr>sem_posts := sem_posts m + 1\<rparr>"

text \<open>\<^verbatim>\<open>tuya_list_del\<close> takes the node out of whichever list holds it.\<close>

definition timer_unlink :: "nat \<Rightarrow> timer_mgr \<Rightarrow> timer_mgr" where
  "timer_unlink t m = m\<lparr>list_active := remove1 t (list_active m), list_standby := remove1 t (list_standby m)\<rparr>"

text \<open>The position search of \<^verbatim>\<open>__timer_attach\<close>: before the first timer that does not expire earlier.\<close>

fun attach_before :: "(nat \<Rightarrow> u64) \<Rightarrow> nat \<Rightarrow> nat list \<Rightarrow> nat list" where
  "attach_before ex t [] = [t]"
| "attach_before ex t (x # xs) = (if ex x \<ge> ex t then t # x # xs else x # attach_before ex t xs)"

definition timer_attach :: "nat \<Rightarrow> timer_mgr \<Rightarrow> timer_mgr" where
  "timer_attach t m =
     (let m = timer_unlink t m
      in m\<lparr>list_active := attach_before (\<lambda>x. expire_time (timers m x)) t (list_active m)\<rparr>)"

text \<open>
  The same function on the links: \<open>attach_scan\<close> is the \<^verbatim>\<open>tuya_list_for_each\<close> loop from position \<open>p\<close>,
  whose result is the position it stops at (the list head when no timer expires later, NULL only on a broken list). Its fuel
  bounds the steps; \<open>None\<close> is a loop that has not ended.
\<close>

fun attach_scan :: "nat \<Rightarrow> (nat \<Rightarrow> u64) \<Rightarrow> u64 \<Rightarrow> list_heap \<Rightarrow> nat \<Rightarrow> nat \<Rightarrow> nat option" where
  "attach_scan 0 ex e h p act = None"
| "attach_scan (Suc n) ex e h p act =
     (if p = NULL \<or> p = act then Some p
      else if ex p \<ge> e then Some p
      else attach_scan n ex e h (next_p (h p)) act)"

definition timer_attach_links :: "nat \<Rightarrow> (nat \<Rightarrow> u64) \<Rightarrow> nat \<Rightarrow> nat \<Rightarrow> list_heap \<Rightarrow> list_heap option" where
  "timer_attach_links fuel ex t act h =
     (let h = tuya_list_del t h
      in if tuya_list_empty act h then Some (tuya_list_add_tail t act h)
         else case attach_scan fuel ex (ex t) h (next_p (h act)) act of
                None \<Rightarrow> None
              | Some p \<Rightarrow> if p = act then Some (tuya_list_add_tail t act h)
                          else if p = NULL then Some h
                          else Some (tuya_list_add t (prev_p (h p)) h))"

text \<open>
  One round of the loop of \<^verbatim>\<open>__timer_dispatch\<close>: the new state and either the timer whose callback is
  called (\<open>Inl\<close>, and the loop goes on) or the wait until the next expiry (\<open>Inr\<close>).
\<close>

definition timer_dispatch_round :: "u64 \<Rightarrow> timer_mgr \<Rightarrow> timer_mgr \<times> (nat + u64)" where
  "timer_dispatch_round nowMS m =
     (case list_active m of
        [] \<Rightarrow> (m, Inr SEM_WAIT_FOREVER)
      | t # _ \<Rightarrow>
          if expire_time (timers m t) > nowMS
          then (m, Inr (expire_time (timers m t) - nowMS))
          else if t_type (timers m t) = TAL_TIMER_ONCE
          then (let m = set_timer t (is_running_update (\<lambda>_. False)) m;
                    m = m\<lparr>running_cnt := running_cnt m - 1\<rparr>;
                    m = timer_unlink t m
                in (m\<lparr>list_standby := list_standby m @ [t]\<rparr>, Inl t))
          else (let m = set_timer t (\<lambda>tm. tm\<lparr>expire_time := nowMS + ucast (interval tm)\<rparr>) m
                in (timer_attach t m, Inl t)))"

text \<open>
  The whole loop. Every round reads the clock; the readings are the list argument, and \<open>None\<close> means
  that the loop has not ended within them. \<open>eff t\<close> is what the callback of timer \<open>t\<close> does to the timers.
\<close>

fun timer_dispatch :: "(nat \<Rightarrow> timer_mgr \<Rightarrow> timer_mgr) \<Rightarrow> clock list \<Rightarrow> timer_mgr \<Rightarrow>
    (timer_mgr \<times> nat list \<times> u64) option" where
  "timer_dispatch eff [] m = None"
| "timer_dispatch eff (c # cs) m =
     (case timer_dispatch_round (system_ms c) m of
        (m', Inr next_expired) \<Rightarrow> Some (m', [], next_expired)
      | (m', Inl t) \<Rightarrow>
          map_option (\<lambda>(m'', fired, nx). (m'', t # fired, nx)) (timer_dispatch eff cs (eff t m')))"

text \<open>\<open>thread_ret\<close> is what starting the timer thread returns.\<close>

definition tal_sw_timer_init :: "operate_ret \<Rightarrow> timer_mgr \<Rightarrow> operate_ret \<times> timer_mgr" where
  "tal_sw_timer_init thread_ret m =
     (if inited m then (OPRT_OK, m)
      else (thread_ret, m\<lparr>list_active := [], list_standby := [],
                          inited := (if thread_ret = OPRT_OK then True else inited m)\<rparr>))"

text \<open>\<open>mem\<close> is the address the allocator returns, \<open>None\<close> when it fails.\<close>

definition tal_sw_timer_create ::
  "nat option \<Rightarrow> nat \<Rightarrow> bool \<Rightarrow> nat option \<Rightarrow> timer_mgr \<Rightarrow> operate_ret \<times> nat option \<times> timer_mgr" where
  "tal_sw_timer_create func arg out mem m =
     (case func of
        None \<Rightarrow> (OPRT_INVALID_PARM, None, m)
      | Some f \<Rightarrow>
          if \<not> out then (OPRT_INVALID_PARM, None, m)
          else case mem of
                 None \<Rightarrow> (OPRT_MALLOC_FAILED, None, m)
               | Some p \<Rightarrow>
                   (let m = set_timer p (\<lambda>_. \<lparr>t_cb = f, t_data = arg, expire_time = 0, interval = 0,
                              is_running = False, t_type = TAL_TIMER_ONCE\<rparr>) m;
                        m = m\<lparr>total_cnt := total_cnt m + 1\<rparr>
                    in (OPRT_OK, Some p, m\<lparr>list_standby := list_standby m @ [p]\<rparr>)))"

definition tal_sw_timer_delete :: "nat option \<Rightarrow> timer_mgr \<Rightarrow> operate_ret \<times> timer_mgr" where
  "tal_sw_timer_delete timer_id m =
     (case timer_id of
        None \<Rightarrow> (OPRT_INVALID_PARM, m)
      | Some t \<Rightarrow>
          (let m = timer_unlink t m;
               m = m\<lparr>total_cnt := total_cnt m - 1\<rparr>;
               m = (if is_running (timers m t) then m\<lparr>running_cnt := running_cnt m - 1\<rparr> else m)
           in (OPRT_OK, tal_semaphore_post m)))"

definition tal_sw_timer_stop :: "nat option \<Rightarrow> timer_mgr \<Rightarrow> operate_ret \<times> timer_mgr" where
  "tal_sw_timer_stop timer_id m =
     (case timer_id of
        None \<Rightarrow> (OPRT_INVALID_PARM, m)
      | Some t \<Rightarrow>
          if is_running (timers m t)
          then (let m = set_timer t (is_running_update (\<lambda>_. False)) m;
                    m = m\<lparr>running_cnt := running_cnt m - 1\<rparr>;
                    m = timer_unlink t m
                in (OPRT_OK, tal_semaphore_post (m\<lparr>list_standby := list_standby m @ [t]\<rparr>)))
          else (OPRT_OK, tal_semaphore_post m))"

text \<open>A \<^verbatim>\<open>BOOL_T\<close> is an int: the NULL case returns the error code.\<close>

definition tal_sw_timer_is_running :: "nat option \<Rightarrow> timer_mgr \<Rightarrow> int" where
  "tal_sw_timer_is_running timer_id m =
     (case timer_id of
        None \<Rightarrow> OPRT_INVALID_PARM
      | Some t \<Rightarrow> if is_running (timers m t) then 1 else 0)"

text \<open>
  The result code and the value stored through \<open>remain_time\<close>, if any (\<open>out\<close>: the pointer is not
  NULL). A stopped timer returns its interval converted to the 32-bit result type.
\<close>

definition tal_sw_timer_remain_time_get ::
  "nat option \<Rightarrow> bool \<Rightarrow> clock \<Rightarrow> timer_mgr \<Rightarrow> operate_ret \<times> u32 option" where
  "tal_sw_timer_remain_time_get timer_id out c m =
     (case timer_id of
        None \<Rightarrow> (OPRT_INVALID_PARM, None)
      | Some t \<Rightarrow>
          if \<not> out then (OPRT_INVALID_PARM, None)
          else
            (let nowMS = system_ms c; tm = timers m t
             in if \<not> is_running tm then (sint (interval tm), None)
                else if expire_time tm > nowMS then (OPRT_OK, Some (ucast (expire_time tm - nowMS)))
                else (OPRT_OK, Some 0)))"

definition tal_sw_timer_start ::
  "nat option \<Rightarrow> u32 \<Rightarrow> timer_type \<Rightarrow> clock \<Rightarrow> timer_mgr \<Rightarrow> operate_ret \<times> timer_mgr" where
  "tal_sw_timer_start timer_id time_ms typ c m =
     (case timer_id of
        None \<Rightarrow> (OPRT_INVALID_PARM, m)
      | Some t \<Rightarrow>
          (let m = (if \<not> is_running (timers m t)
                    then (set_timer t (is_running_update (\<lambda>_. True)) m)\<lparr>running_cnt := running_cnt m + 1\<rparr>
                    else m);
               m = (if time_ms \<noteq> 0 then set_timer t (interval_update (\<lambda>_. time_ms)) m else m);
               m = set_timer t (t_type_update (\<lambda>_. typ)) m;
               m = set_timer t (\<lambda>tm. tm\<lparr>expire_time := system_ms c + ucast (interval tm)\<rparr>) m
           in (OPRT_OK, tal_semaphore_post (timer_attach t m))))"

definition tal_sw_timer_trigger :: "nat option \<Rightarrow> timer_mgr \<Rightarrow> operate_ret \<times> timer_mgr" where
  "tal_sw_timer_trigger timer_id m =
     (case timer_id of
        None \<Rightarrow> (OPRT_INVALID_PARM, m)
      | Some t \<Rightarrow>
          (let m = set_timer t (expire_time_update (\<lambda>_. 0)) m
           in if is_running (timers m t)
              then (let m = timer_unlink t m
                    in (OPRT_OK, tal_semaphore_post (m\<lparr>list_active := t # list_active m\<rparr>)))
              else (OPRT_OK, tal_semaphore_post m)))"

definition tal_sw_timer_release :: operate_ret where
  "tal_sw_timer_release = OPRT_OK"

definition tal_sw_timer_get_num :: "timer_mgr \<Rightarrow> nat" where
  "tal_sw_timer_get_num m = unat (running_cnt m)"

section \<open>Invariant\<close>

text \<open>
  Every timer is on exactly one list, on the active one exactly when it runs; the active list is
  sorted by expiry; the counters count (modulo their 16 bits).
\<close>

definition timer_inv :: "timer_mgr \<Rightarrow> bool" where
  "timer_inv m \<longleftrightarrow>
     distinct (list_active m @ list_standby m)
     \<and> list_all (\<lambda>t. is_running (timers m t)) (list_active m)
     \<and> list_all (\<lambda>t. \<not> is_running (timers m t)) (list_standby m)
     \<and> sorted (map (\<lambda>t. expire_time (timers m t)) (list_active m))
     \<and> total_cnt m = of_nat (length (list_active m) + length (list_standby m))
     \<and> running_cnt m = of_nat (length (list_active m))"

definition timer_known :: "nat \<Rightarrow> timer_mgr \<Rightarrow> bool" where
  "timer_known t m \<longleftrightarrow> t \<in> set (list_active m) \<or> t \<in> set (list_standby m)"

lemma set_attach_before [simp]: "set (attach_before ex t xs) = insert t (set xs)"
  by (induction xs) auto

lemma length_attach_before [simp]: "length (attach_before ex t xs) = Suc (length xs)"
  by (induction xs) auto

lemma distinct_attach_before [simp]: "distinct (attach_before ex t xs) \<longleftrightarrow> distinct (t # xs)"
  by (induction xs) auto

lemma sorted_attach_before: "sorted (map ex xs) \<Longrightarrow> sorted (map ex (attach_before ex t xs))"
  by (induction xs) (auto intro: less_imp_le simp: not_le)

lemma filter_attach_before: "\<not> P t \<Longrightarrow> filter P (attach_before ex t xs) = filter P xs"
  by (induction xs) auto

lemma sorted_map_remove1: "sorted (map f xs) \<Longrightarrow> sorted (map f (remove1 x xs))"
  by (induction xs) (auto dest: notin_set_remove1)

lemma sorted_map_cong_on: "(\<And>x. x \<in> set xs \<Longrightarrow> f x = g x) \<Longrightarrow> sorted (map f xs) = sorted (map g xs)"
  by (metis map_cong)

lemma length_remove1_in: "x \<in> set xs \<Longrightarrow> length xs = Suc (length (remove1 x xs))"
  by (induction xs) auto

lemma timers_set_timer [simp]:
  "timers (set_timer t f m) = (timers m)(t := f (timers m t))"
  "list_active (set_timer t f m) = list_active m" "list_standby (set_timer t f m) = list_standby m"
  "total_cnt (set_timer t f m) = total_cnt m" "running_cnt (set_timer t f m) = running_cnt m"
  by (simp_all add: set_timer_def)

lemma timer_unlink_sel [simp]:
  "timers (timer_unlink t m) = timers m" "list_active (timer_unlink t m) = remove1 t (list_active m)"
  "list_standby (timer_unlink t m) = remove1 t (list_standby m)"
  "total_cnt (timer_unlink t m) = total_cnt m" "running_cnt (timer_unlink t m) = running_cnt m"
  by (simp_all add: timer_unlink_def)

lemma timer_attach_sel [simp]:
  "timers (timer_attach t m) = timers m"
  "list_active (timer_attach t m) =
     attach_before (\<lambda>x. expire_time (timers m x)) t (remove1 t (list_active m))"
  "list_standby (timer_attach t m) = remove1 t (list_standby m)"
  "total_cnt (timer_attach t m) = total_cnt m" "running_cnt (timer_attach t m) = running_cnt m"
  by (simp_all add: timer_attach_def)

lemma semaphore_post_sel [simp]:
  "timers (tal_semaphore_post m) = timers m" "list_active (tal_semaphore_post m) = list_active m"
  "list_standby (tal_semaphore_post m) = list_standby m" "total_cnt (tal_semaphore_post m) = total_cnt m"
  "running_cnt (tal_semaphore_post m) = running_cnt m"
  by (simp_all add: tal_semaphore_post_def)


text \<open>The two moves every operation is made of keep the invariant.\<close>

lemma inv_to_standby:
  assumes inv: "timer_inv m" and t: "t \<in> set (list_active m)"
    and tm: "\<And>x. x \<noteq> t \<Longrightarrow> timers m' x = timers m x" "\<not> is_running (timers m' t)"
    and l: "list_active m' = remove1 t (list_active m)" "list_standby m' = remove1 t (list_standby m) @ [t]"
    and c: "total_cnt m' = total_cnt m" "running_cnt m' = running_cnt m - 1"
  shows "timer_inv m'"
proof -
  have d: "distinct (list_active m @ list_standby m)" using inv by (simp add: timer_inv_def)
  then have ns: "t \<notin> set (list_standby m)" using t by auto
  then have rs: "remove1 t (list_standby m) = list_standby m" by (rule remove1_idem)
  have "sorted (map (\<lambda>x. expire_time (timers m' x)) (remove1 t (list_active m)))"
    using inv d tm(1) by (subst sorted_map_cong_on [where g = "\<lambda>x. expire_time (timers m x)"])
      (auto simp: timer_inv_def sorted_map_remove1)
  moreover have "\<forall>x\<in>set (list_standby m). timers m' x = timers m x" using ns tm(1) by metis
  ultimately show ?thesis
    using inv d ns tm length_remove1_in [OF t]
    by (auto simp: timer_inv_def l c rs list_all_iff)
qed

lemma inv_to_active:
  assumes inv: "timer_inv m" and t: "timer_known t m"
    and tm: "\<And>x. x \<noteq> t \<Longrightarrow> timers m' x = timers m x" "is_running (timers m' t)"
    and l: "list_active m' = attach_before (\<lambda>x. expire_time (timers m' x)) t (remove1 t (list_active m))"
      "list_standby m' = remove1 t (list_standby m)"
    and c: "total_cnt m' = total_cnt m"
      "running_cnt m' = (if is_running (timers m t) then running_cnt m else running_cnt m + 1)"
  shows "timer_inv m'"
proof -
  have d: "distinct (list_active m @ list_standby m)" using inv by (simp add: timer_inv_def)
  have r: "is_running (timers m t) \<longleftrightarrow> t \<in> set (list_active m)"
    using inv t d by (auto simp: timer_inv_def timer_known_def list_all_iff)
  have len: "length (remove1 t (list_active m)) + length (remove1 t (list_standby m)) + 1
      = length (list_active m) + length (list_standby m)"
  proof (cases "t \<in> set (list_active m)")
    case True
    then have "t \<notin> set (list_standby m)" using d by auto
    then show ?thesis using length_remove1_in [OF True] by (simp add: remove1_idem)
  next
    case False
    then show ?thesis using t length_remove1_in [of t "list_standby m"]
      by (simp add: timer_known_def remove1_idem)
  qed
  have "sorted (map (\<lambda>x. expire_time (timers m' x)) (remove1 t (list_active m)))"
    using inv d tm(1) by (subst sorted_map_cong_on [where g = "\<lambda>x. expire_time (timers m x)"])
      (auto simp: timer_inv_def sorted_map_remove1)
  then have s: "sorted (map (\<lambda>x. expire_time (timers m' x)) (list_active m'))"
    unfolding l by (rule sorted_attach_before)
  have run: "running_cnt m' = of_nat (length (list_active m'))"
    using inv r length_remove1_in [of t "list_active m"]
    by (auto simp: timer_inv_def l c remove1_idem)
  have tot: "total_cnt m' = of_nat (length (list_active m') + length (list_standby m'))"
    using inv arg_cong [OF len, of "of_nat :: nat \<Rightarrow> u16"] by (simp add: timer_inv_def l c ac_simps)
  have ra: "list_all (\<lambda>x. is_running (timers m' x)) (list_active m')"
    using inv d tm by (fastforce simp: timer_inv_def l list_all_iff)
  have rs: "list_all (\<lambda>x. \<not> is_running (timers m' x)) (list_standby m')"
    using inv d tm by (auto simp: timer_inv_def l list_all_iff)
  show ?thesis unfolding timer_inv_def using d s run tot ra rs by (auto simp: l)
qed

lemma timer_create_inv [inv_rules]:
  assumes "timer_inv m" "\<And>p. mem = Some p \<Longrightarrow> \<not> timer_known p m"
    "tal_sw_timer_create func arg out mem m = (r, tid, m')"
  shows "timer_inv m'"
proof -
  have "sorted (map (\<lambda>x. expire_time (((timers m)(p := v)) x)) (list_active m))"
    if "\<not> timer_known p m" for v p
    using that assms(1) by (subst sorted_map_cong_on [where g = "\<lambda>x. expire_time (timers m x)"])
      (auto simp: timer_inv_def timer_known_def)
  with assms show ?thesis
    by (auto simp: tal_sw_timer_create_def timer_inv_def timer_known_def list_all_iff Let_def
        split: option.splits if_splits)
qed

lemma timer_delete_inv [inv_rules]:
  assumes inv: "timer_inv m" and t: "timer_known t m" and r: "tal_sw_timer_delete (Some t) m = (r, m')"
  shows "timer_inv m'"
proof -
  have d: "distinct (list_active m @ list_standby m)" using inv by (simp add: timer_inv_def)
  have e: "timers m' = timers m" "list_active m' = remove1 t (list_active m)"
    "list_standby m' = remove1 t (list_standby m)" "total_cnt m' = total_cnt m - 1"
    "running_cnt m' = (if is_running (timers m t) then running_cnt m - 1 else running_cnt m)"
    using r by (auto simp: tal_sw_timer_delete_def Let_def split: if_splits)
  have run: "is_running (timers m t) \<longleftrightarrow> t \<in> set (list_active m)"
    using inv t d by (auto simp: timer_inv_def timer_known_def list_all_iff)
  show ?thesis
  proof (cases "t \<in> set (list_active m)")
    case True
    then have "remove1 t (list_standby m) = list_standby m" using d by (auto intro: remove1_idem)
    then show ?thesis using True inv d run length_remove1_in [OF True]
      by (auto simp: timer_inv_def e list_all_iff sorted_map_remove1)
  next
    case False
    then have s: "t \<in> set (list_standby m)" using t by (simp add: timer_known_def)
    have "remove1 t (list_active m) = list_active m" using False by (rule remove1_idem)
    then show ?thesis using False inv d run length_remove1_in [OF s]
      by (auto simp: timer_inv_def e list_all_iff)
  qed
qed

lemma timer_stop_inv [inv_rules]:
  assumes "timer_inv m" "timer_known t m" "tal_sw_timer_stop (Some t) m = (r, m')"
  shows "timer_inv m'"
proof (cases "is_running (timers m t)")
  case True
  then have "t \<in> set (list_active m)" using assms(1,2) by (auto simp: timer_inv_def timer_known_def list_all_iff)
  with True assms show ?thesis
    by (intro inv_to_standby [of m t m']) (auto simp: tal_sw_timer_stop_def Let_def)
next
  case False
  with assms show ?thesis by (auto simp: tal_sw_timer_stop_def timer_inv_def)
qed

lemma timer_start_inv [inv_rules]:
  assumes "timer_inv m" "timer_known t m" "tal_sw_timer_start (Some t) ms typ c m = (r, m')"
  shows "timer_inv m'"
  using assms
  by (intro inv_to_active [of m t m']) (auto simp: tal_sw_timer_start_def Let_def)

lemma timer_trigger_inv [inv_rules]:
  assumes "timer_inv m" "timer_known t m" "tal_sw_timer_trigger (Some t) m = (r, m')"
  shows "timer_inv m'"
proof (cases "is_running (timers m t)")
  case True
  then have l: "list_active m' = t # remove1 t (list_active m)" "timers m' t = (timers m t)\<lparr>expire_time := 0\<rparr>"
    using assms(3) by (auto simp: tal_sw_timer_trigger_def Let_def)
  then have "list_active m' = attach_before (\<lambda>x. expire_time (timers m' x)) t (remove1 t (list_active m))"
    by (cases "remove1 t (list_active m)") simp_all
  with True assms show ?thesis
    by (intro inv_to_active [of m t m']) (auto simp: tal_sw_timer_trigger_def Let_def)
next
  case False
  then have t: "t \<notin> set (list_active m)" using assms(1) by (auto simp: timer_inv_def list_all_iff)
  have "sorted (map (\<lambda>x. expire_time (((timers m)(t := v)) x)) (list_active m))" for v
    using t assms(1) by (subst sorted_map_cong_on [where g = "\<lambda>x. expire_time (timers m x)"])
      (auto simp: timer_inv_def)
  with False t assms show ?thesis
    by (auto simp: tal_sw_timer_trigger_def timer_inv_def list_all_iff Let_def split: if_splits)
qed

lemma timer_round_inv [inv_rules]:
  assumes "timer_inv m" "timer_dispatch_round now m = (m', r)"
  shows "timer_inv m'"
proof (cases "list_active m")
  case Nil
  with assms show ?thesis by (simp add: timer_dispatch_round_def)
next
  case (Cons t ts)
  then have t: "t \<in> set (list_active m)" "timer_known t m" "is_running (timers m t)"
    using assms(1) by (auto simp: timer_known_def timer_inv_def)
  consider "expire_time (timers m t) > now"
    | "\<not> expire_time (timers m t) > now" "t_type (timers m t) = TAL_TIMER_ONCE"
    | "\<not> expire_time (timers m t) > now" "t_type (timers m t) \<noteq> TAL_TIMER_ONCE" by blast
  then show ?thesis
  proof cases
    case 1
    with assms Cons show ?thesis by (simp add: timer_dispatch_round_def)
  next
    case 2
    with assms Cons t show ?thesis
      by (intro inv_to_standby [of m t m']) (auto simp: timer_dispatch_round_def Let_def)
  next
    case 3
    with assms Cons t show ?thesis
      by (intro inv_to_active [of m t m']) (auto simp: timer_dispatch_round_def Let_def)
  qed
qed

section \<open>The sorted insertion on the links\<close>

lemma attach_before_split:
  "attach_before ex t xs =
     takeWhile (\<lambda>x. ex x < ex t) xs @ t # dropWhile (\<lambda>x. ex x < ex t) xs"
  by (induction xs) (auto simp: not_less)

lemma attach_scan_linked:
  assumes "linked h a xs act" "act \<notin> set xs" "NULL \<notin> set xs" "length xs < n"
  shows "attach_scan n ex e h (next_p (h a)) act = Some (hd (dropWhile (\<lambda>x. ex x < e) xs @ [act]))"
  using assms
proof (induction xs arbitrary: a n)
  case Nil
  then show ?case by (cases n) auto
next
  case (Cons x xs)
  then obtain k where "n = Suc k" by (cases n) auto
  with Cons show ?case by (auto simp: not_le)
qed

lemma unlink_either:
  assumes "dlist h act xs" "dlist h sby ys" "set (act # xs) \<inter> set (sby # ys) = {}" "t \<in> set xs \<or> t \<in> set ys"
  shows "dlist (tuya_list_del t h) act (remove1 t xs) \<and> dlist (tuya_list_del t h) sby (remove1 t ys)
    \<and> t \<notin> set (NULL # act # remove1 t xs) \<and> t \<notin> set (sby # remove1 t ys)"
proof -
  have d: "distinct (NULL # act # xs)" "distinct (NULL # sby # ys)" using lh.lst_distinct assms(1,2) by blast+
  have c: "set (sby # ys) \<inter> set (act # xs) = {}" using assms(3) by blast
  show ?thesis
  proof (cases "t \<in> set xs")
    case True
    then have "t \<notin> set (sby # ys)" using assms(3) by auto
    moreover from this have "remove1 t ys = ys" by (simp add: remove1_idem)
    ultimately show ?thesis
      using True d lh.lst_del [OF assms(1) True] lh.del_frame [OF assms(1) True assms(2,3)]
      by (auto intro!: gr0I)
  next
    case False
    then have y: "t \<in> set ys" "remove1 t xs = xs" using assms(4) by (auto simp: remove1_idem)
    moreover from y have "t \<notin> set (act # xs)" using assms(3) by auto
    ultimately show ?thesis
      using d lh.lst_del [OF assms(2) y(1)] lh.del_frame [OF assms(2) y(1) assms(1) c]
      by (auto intro!: gr0I)
  qed
qed

lemma attach_links_tail:
  assumes "dlist h act xs" "dlist h sby ys" "set (act # xs) \<inter> set (sby # ys) = {}"
    "t \<notin> set (NULL # act # xs)" "t \<notin> set (sby # ys)"
  shows "dlist (tuya_list_add_tail t act h) act (xs @ [t]) \<and> dlist (tuya_list_add_tail t act h) sby ys"
  using lh.lst_add_tail [OF assms(1,4)] lh.add_tail_frame [OF assms(1) _ assms(2,3,5)] assms(4) by simp

lemma attach_links_before:
  assumes "dlist h act (xs @ p # zs)" "dlist h sby ys" "set (act # xs @ p # zs) \<inter> set (sby # ys) = {}"
    "t \<notin> set (NULL # act # xs @ p # zs)" "t \<notin> set (sby # ys)"
  shows "dlist (tuya_list_add t (prev_p (h p)) h) act (xs @ t # p # zs)
    \<and> dlist (tuya_list_add t (prev_p (h p)) h) sby ys"
proof -
  have p: "prev_p (h p) = last (act # xs)" by (rule dlist_neighbours [OF assms(1)])
  have "last (act # xs) \<in> set (act # xs @ p # zs)" using last_Cons_in [of act xs] by auto
  with assms show ?thesis
    unfolding p using lh.lst_add [of h act xs "p # zs" t] lh.add_frame [OF assms(1) _ assms(2) _ assms(3,5)] by auto
qed

lemma attach_links_eq:
  assumes "dlist h act xs" "dlist h sby ys" "set (act # xs) \<inter> set (sby # ys) = {}"
    "t \<in> set xs \<or> t \<in> set ys" "length xs < fuel"
  shows "\<exists>h'. timer_attach_links fuel ex t act h = Some h'
    \<and> dlist h' act (attach_before ex t (remove1 t xs)) \<and> dlist h' sby (remove1 t ys)"
proof -
  define h1 xs' ys' where "h1 = tuya_list_del t h" and "xs' = remove1 t xs" and "ys' = remove1 t ys"
  define us vs where "us = takeWhile (\<lambda>x. ex x < ex t) xs'" and "vs = dropWhile (\<lambda>x. ex x < ex t) xs'"
  have l: "dlist h1 act xs'" "dlist h1 sby ys'" "t \<notin> set (NULL # act # xs')" "t \<notin> set (sby # ys')"
    using unlink_either [OF assms(1-4)] by (simp_all add: h1_def xs'_def ys'_def)
  have dj: "set (act # xs') \<inter> set (sby # ys') = {}"
    using assms(3) set_remove1_subset [of t xs] set_remove1_subset [of t ys] unfolding xs'_def ys'_def by auto
  have e: "attach_before ex t xs' = us @ t # vs" "xs' = us @ vs"
    by (simp_all add: us_def vs_def attach_before_split)
  have "length xs' < fuel" using assms(5) by (auto simp: xs'_def length_remove1)
  then have scan: "attach_scan fuel ex (ex t) h1 (next_p (h1 act)) act = Some (hd (vs @ [act]))"
    using attach_scan_linked [of h1 act xs' act fuel ex "ex t"] l(1) by (simp add: dlist_def vs_def)
  note d = timer_attach_links_def Let_def h1_def [symmetric] xs'_def [symmetric] ys'_def [symmetric]
  show ?thesis
  proof (cases vs)
    case Nil
    then have "timer_attach_links fuel ex t act h = Some (tuya_list_add_tail t act h1)"
      using scan by (simp add: d)
    then show ?thesis
      using attach_links_tail [OF l(1,2) dj l(3,4)] Nil e xs'_def ys'_def by auto
  next
    case (Cons p zs)
    then have "p \<noteq> act" "p \<noteq> NULL" "xs' \<noteq> []" using lh.lst_distinct [OF l(1)] e by auto
    then have "timer_attach_links fuel ex t act h = Some (tuya_list_add t (prev_p (h1 p)) h1)"
      using scan Cons dlist_empty [OF l(1)] by (simp add: d)
    then show ?thesis
      using attach_links_before [of h1 act us p zs sby ys' t] l dj Cons e xs'_def ys'_def by auto
  qed
qed

section \<open>The dispatch loop\<close>

lemma system_ms_less: "unat (system_ms c) < 2 ^ 43"
proof (cases c)
  case (Pair s ms)
  then show ?thesis using unat_u32_less [of s] unat_u32_less [of ms]
    by (simp add: system_ms_def unat_word_ariths)
qed

lemma rearm_later:
  assumes "0 < i"
  shows "system_ms c < system_ms c + ucast (i :: u32)"
proof -
  have "unat (system_ms c + ucast i) = unat (system_ms c) + unat i"
    using unat_u32_less [of i] system_ms_less [of c] by (subst unat_add_lem [THEN iffD1]) simp_all
  moreover have "0 < unat i" using assms by (simp add: word_less_nat_alt)
  ultimately show ?thesis by (simp add: word_less_nat_alt)
qed

definition expired :: "u64 \<Rightarrow> timer_mgr \<Rightarrow> nat list" where
  "expired now m = filter (\<lambda>t. expire_time (timers m t) \<le> now) (list_active m)"

definition intervals_pos :: "timer_mgr \<Rightarrow> bool" where
  "intervals_pos m \<longleftrightarrow> list_all (\<lambda>t. t_type (timers m t) = TAL_TIMER_CYCLE \<longrightarrow> 0 < interval (timers m t)) (list_active m)"

lemma round_fires:
  assumes inv: "timer_inv m" and pos: "intervals_pos m" and ex: "expired (system_ms c) m = t # ts"
  obtains m' where "timer_dispatch_round (system_ms c) m = (m', Inl t)" "timer_inv m'"
    "intervals_pos m'" "expired (system_ms c) m' = ts"
proof -
  let ?now = "system_ms c"
  obtain us where a: "list_active m = t # us" and le: "expire_time (timers m t) \<le> ?now"
  proof (cases "list_active m")
    case Nil
    with ex show thesis by (simp add: expired_def)
  next
    case (Cons x us)
    have "expire_time (timers m x) \<le> ?now"
    proof (rule ccontr)
      assume "\<not> ?thesis"
      then have "\<forall>y\<in>set (x # us). \<not> expire_time (timers m y) \<le> ?now"
        using inv Cons by (fastforce simp: timer_inv_def)
      then show False using ex Cons by (simp add: expired_def)
    qed
    with ex Cons that show thesis by (simp add: expired_def)
  qed
  have ts: "ts = filter (\<lambda>x. expire_time (timers m x) \<le> ?now) us"
    using ex a le by (simp add: expired_def)
  have us: "t \<notin> set us" "remove1 t (list_active m) = us" using inv a by (auto simp: timer_inv_def)
  obtain m' where r: "timer_dispatch_round ?now m = (m', Inl t)"
    and o: "\<And>x. x \<noteq> t \<Longrightarrow> timers m' x = timers m x"
    and l: "list_active m' = us \<or> t_type (timers m t) = TAL_TIMER_CYCLE
      \<and> list_active m' = attach_before (\<lambda>x. expire_time (timers m' x)) t us
      \<and> timers m' t = (timers m t)\<lparr>expire_time := ?now + ucast (interval (timers m t))\<rparr>"
  proof (cases "t_type (timers m t)")
    case TAL_TIMER_ONCE
    with a le us that show thesis by (simp add: timer_dispatch_round_def Let_def leD)
  next
    case TAL_TIMER_CYCLE
    with a le us that show thesis by (simp add: timer_dispatch_round_def Let_def leD)
  qed
  have "timer_inv m'" by (rule timer_round_inv [OF inv r])
  moreover have ip: "intervals_pos m'"
    using pos o l us a by (auto simp: intervals_pos_def list_all_iff) (metis)+
  moreover have "expired ?now m' = ts"
  proof -
    have f: "filter (\<lambda>x. expire_time (timers m' x) \<le> ?now) us = ts"
      unfolding ts using o us(1) by (intro filter_cong) (auto, metis+)
    show ?thesis
    proof (cases "list_active m' = us")
      case True
      with f show ?thesis by (simp add: expired_def)
    next
      case False
      with l have c: "t_type (timers m t) = TAL_TIMER_CYCLE"
        "list_active m' = attach_before (\<lambda>x. expire_time (timers m' x)) t us"
        "expire_time (timers m' t) = ?now + ucast (interval (timers m t))" by auto
      have "0 < interval (timers m t)" using pos c(1) a by (simp add: intervals_pos_def)
      then have "\<not> expire_time (timers m' t) \<le> ?now" using rearm_later c(3) by (simp add: not_le)
      then show ?thesis using f by (simp add: expired_def c(2) filter_attach_before)
    qed
  qed
  ultimately show thesis using that r by blast
qed

lemma round_idle:
  assumes "timer_inv m" "expired now m = []"
  shows "timer_dispatch_round now m = (m, Inr (case list_active m of [] \<Rightarrow> SEM_WAIT_FOREVER
    | t # _ \<Rightarrow> expire_time (timers m t) - now))"
  using assms by (auto simp: timer_dispatch_round_def expired_def not_le split: list.splits if_splits)

lemma dispatch_fires:
  assumes "timer_inv m" "intervals_pos m" "length (expired (system_ms c) m) < n"
  shows "\<exists>m'. timer_dispatch (\<lambda>_ m. m) (replicate n c) m =
      Some (m', expired (system_ms c) m, case list_active m' of [] \<Rightarrow> SEM_WAIT_FOREVER
        | t # _ \<Rightarrow> expire_time (timers m' t) - system_ms c)
    \<and> timer_inv m' \<and> expired (system_ms c) m' = []"
  using assms
proof (induction n arbitrary: m)
  case (Suc n)
  show ?case
  proof (cases "expired (system_ms c) m")
    case Nil
    with Suc.prems show ?thesis by (simp add: round_idle)
  next
    case (Cons t ts)
    from round_fires [OF Suc.prems(1,2) Cons] obtain m1 where
      r: "timer_dispatch_round (system_ms c) m = (m1, Inl t)" and
      m1: "timer_inv m1" "intervals_pos m1" "expired (system_ms c) m1 = ts" .
    have "length (expired (system_ms c) m1) < n" using Suc.prems(3) Cons m1(3) by simp
    from Suc.IH [OF m1(1,2) this] r m1(3) Cons show ?thesis by auto
  qed
qed simp

section \<open>Reachable states\<close>

inductive timer_step :: "timer_mgr \<Rightarrow> timer_mgr \<Rightarrow> bool" where
  step_init: "tal_sw_timer_init tr m = (r, m') \<Longrightarrow> inited m \<Longrightarrow> timer_step m m'"
| step_create: "\<not> timer_known p m \<Longrightarrow> tal_sw_timer_create func arg out (Some p) m = (r, tid, m') \<Longrightarrow> timer_step m m'"
| step_delete: "timer_known t m \<Longrightarrow> tal_sw_timer_delete (Some t) m = (r, m') \<Longrightarrow> timer_step m m'"
| step_stop: "timer_known t m \<Longrightarrow> tal_sw_timer_stop (Some t) m = (r, m') \<Longrightarrow> timer_step m m'"
| step_start: "timer_known t m \<Longrightarrow> tal_sw_timer_start (Some t) ms typ c m = (r, m') \<Longrightarrow> timer_step m m'"
| step_trigger: "timer_known t m \<Longrightarrow> tal_sw_timer_trigger (Some t) m = (r, m') \<Longrightarrow> timer_step m m'"
| step_round: "timer_dispatch_round (system_ms c) m = (m', d) \<Longrightarrow> timer_step m m'"

text \<open>The manager starts zeroed, as the static variable of the source does, and is initialised once.\<close>

definition timer_mgr0 :: "(nat \<Rightarrow> timer) \<Rightarrow> timer_mgr" where
  "timer_mgr0 tms = \<lparr>timers = tms, list_active = [], list_standby = [], total_cnt = 0, running_cnt = 0,
     inited = False, sem_posts = 0\<rparr>"

inductive timer_reachable :: "timer_mgr \<Rightarrow> bool" where
  reach_init: "timer_reachable (snd (tal_sw_timer_init OPRT_OK (timer_mgr0 tms)))"
| reach_step: "timer_reachable m \<Longrightarrow> timer_step m m' \<Longrightarrow> timer_reachable m'"

lemma timer_step_inv: "timer_step m m' \<Longrightarrow> timer_inv m \<Longrightarrow> timer_inv m'"
  by (induction rule: timer_step.induct) (auto intro: inv_rules simp: tal_sw_timer_init_def)

lemma timer_init_inv: "timer_inv (snd (tal_sw_timer_init OPRT_OK (timer_mgr0 tms)))"
  by (simp add: tal_sw_timer_init_def timer_mgr0_def timer_inv_def)

lemma reachable_inv: "timer_reachable m \<Longrightarrow> timer_inv m"
  by (induction rule: timer_reachable.induct) (auto intro: timer_init_inv timer_step_inv)

text \<open>A cyclic timer whose interval is zero is due again in the round that re-arms it.\<close>

definition due_forever :: "nat \<Rightarrow> u64 \<Rightarrow> timer_mgr \<Rightarrow> bool" where
  "due_forever t now m \<longleftrightarrow> timer_inv m \<and> t \<in> set (list_active m) \<and> t_type (timers m t) = TAL_TIMER_CYCLE
     \<and> interval (timers m t) = 0 \<and> expire_time (timers m t) \<le> now"

lemma due_forever_round:
  assumes "due_forever t now m"
  shows "\<exists>m' x. timer_dispatch_round now m = (m', Inl x) \<and> due_forever t now m'"
proof -
  have inv: "timer_inv m" and t: "t \<in> set (list_active m)" "t_type (timers m t) = TAL_TIMER_CYCLE"
    "interval (timers m t) = 0" "expire_time (timers m t) \<le> now" using assms by (auto simp: due_forever_def)
  then obtain x xs where a: "list_active m = x # xs" by (cases "list_active m") auto
  have x: "expire_time (timers m x) \<le> now"
    using t inv a by (cases "t = x") (auto simp: timer_inv_def intro: order_trans)
  obtain m' where r: "timer_dispatch_round now m = (m', Inl x)"
    and m': "\<And>y. y \<noteq> x \<Longrightarrow> timers m' y = timers m y" "t \<noteq> x \<Longrightarrow> t \<in> set (list_active m')"
      "t = x \<Longrightarrow> timers m' t = (timers m t)\<lparr>expire_time := now\<rparr> \<and> t \<in> set (list_active m')"
  proof (cases "t_type (timers m x)")
    case TAL_TIMER_ONCE
    then have "t \<noteq> x" using t(2) by auto
    with TAL_TIMER_ONCE a x t that show thesis by (auto simp: timer_dispatch_round_def Let_def leD)
  next
    case TAL_TIMER_CYCLE
    with a x t that show thesis by (cases "t = x") (auto simp: timer_dispatch_round_def Let_def leD)
  qed
  have "due_forever t now m'"
    using t m' timer_round_inv [OF inv r] by (cases "t = x") (simp_all add: due_forever_def)
  with r show ?thesis by blast
qed

section \<open>Properties\<close>

text \<open>
  C33. Every state that the timer interface and the dispatch rounds can reach is well formed: each
  created timer is on exactly one of the two lists, on the active list exactly when it runs, the
  active list is sorted by expiry time, and the two counters are the list lengths modulo \<open>2^16\<close>.
\<close>

theorem timer_reachable_wf:
  assumes "timer_reachable m"
  shows "distinct (list_active m @ list_standby m)
    \<and> list_all (\<lambda>t. is_running (timers m t)) (list_active m)
    \<and> list_all (\<lambda>t. \<not> is_running (timers m t)) (list_standby m)
    \<and> sorted (map (\<lambda>t. expire_time (timers m t)) (list_active m))
    \<and> tal_sw_timer_get_num m = length (list_active m) mod 2 ^ 16
    \<and> unat (total_cnt m) = (length (list_active m) + length (list_standby m)) mod 2 ^ 16"
  using reachable_inv [OF assms]
  by (simp add: timer_inv_def tal_sw_timer_get_num_def unat_of_nat del: of_nat_add)

definition timer_demo :: timer_mgr where
  "timer_demo = snd (tal_sw_timer_start (Some 7) 250 TAL_TIMER_CYCLE (10, 500)
     (snd (snd (tal_sw_timer_create (Some 1) 0 True (Some 7)
       (snd (tal_sw_timer_init OPRT_OK (timer_mgr0 (\<lambda>_. \<lparr>t_cb = 0, t_data = 0, expire_time = 0, interval = 0,
          is_running = False, t_type = TAL_TIMER_ONCE\<rparr>))))))))"

lemmas timer_demo_defs = timer_demo_def tal_sw_timer_init_def timer_mgr0_def tal_sw_timer_create_def
  tal_sw_timer_start_def

lemma reach_create:
  "timer_reachable m \<Longrightarrow> \<not> timer_known p m \<Longrightarrow>
     timer_reachable (snd (snd (tal_sw_timer_create func arg out (Some p) m)))"
  by (rule reach_step, assumption, rule step_create, assumption) (simp add: prod_eq_iff)

lemma reach_start:
  "timer_reachable m \<Longrightarrow> timer_known t m \<Longrightarrow>
     timer_reachable (snd (tal_sw_timer_start (Some t) ms typ c m))"
  by (rule reach_step, assumption, rule step_start, assumption) (simp add: prod_eq_iff)

lemma timer_demo_reachable: "timer_reachable timer_demo"
  unfolding timer_demo_def
  by (intro reach_start reach_create reach_init)
    (auto simp: timer_known_def tal_sw_timer_create_def tal_sw_timer_init_def timer_mgr0_def)

lemma timer_demo_state:
  "list_active timer_demo = [7]" "list_standby timer_demo = []" "is_running (timers timer_demo 7)"
  "expire_time (timers timer_demo 7) = 10750" "interval (timers timer_demo 7) = 250"
  "t_type (timers timer_demo 7) = TAL_TIMER_CYCLE"
  by (simp_all add: timer_demo_defs Let_def system_ms_def)

lemma timer_reachable_wf_witness: "timer_reachable timer_demo \<and> tal_sw_timer_get_num timer_demo = 1"
  using timer_reachable_wf [OF timer_demo_reachable] timer_demo_reachable by (simp add: timer_demo_state)

text \<open>
  C34. A dispatch at one clock reading whose callbacks leave the timers alone ends, as soon as its loop
  may run once more than there are expired timers: it calls exactly the expired timers, each once and
  in the order of the sorted list, afterwards no active timer is expired, and the wait it returns
  is the time to the head of the list, or forever when no timer is active. The only hypothesis on
  the timers is that no cyclic one has interval zero.
\<close>

theorem timer_dispatch_fires:
  assumes "timer_inv m" and "intervals_pos m"
    and "length (filter (\<lambda>t. expire_time (timers m t) \<le> system_ms c) (list_active m)) < n"
  shows "\<exists>m'. timer_dispatch (\<lambda>_ m. m) (replicate n c) m =
      Some (m', filter (\<lambda>t. expire_time (timers m t) \<le> system_ms c) (list_active m),
        case list_active m' of [] \<Rightarrow> SEM_WAIT_FOREVER
        | t # _ \<Rightarrow> expire_time (timers m' t) - system_ms c)
    \<and> timer_inv m' \<and> list_all (\<lambda>t. system_ms c < expire_time (timers m' t)) (list_active m')"
  using dispatch_fires [OF assms(1,2)] assms(3)
  by (fastforce simp: expired_def filter_empty_conv list_all_iff not_le)

lemma timer_dispatch_fires_witness:
  "\<exists>m'. timer_dispatch (\<lambda>_ m. m) (replicate 2 (11, 0)) timer_demo = Some (m', [7],
      case list_active m' of [] \<Rightarrow> SEM_WAIT_FOREVER | t # _ \<Rightarrow> expire_time (timers m' t) - 11000)"
proof -
  have c: "system_ms (11, 0) = 11000" by (simp add: system_ms_def)
  show ?thesis
    using timer_dispatch_fires [of timer_demo "(11, 0)" 2] reachable_inv [OF timer_demo_reachable]
    unfolding c by (auto simp: timer_demo_state intervals_pos_def)
qed

text \<open>
  C40. The pointer version of \<^verbatim>\<open>__timer_attach\<close> implements the sorted insertion: with fuel for one
  visit of each active node and of the list head, its loop ends, the timer is unlinked from the list
  that held it and linked into the active list before the first timer that does not expire
  earlier, and the standby list keeps its other nodes.
\<close>

theorem timer_attach_links_correct:
  assumes "dlist h act xs" and "dlist h sby ys" and "set (act # xs) \<inter> set (sby # ys) = {}"
    and "t \<in> set xs \<or> t \<in> set ys" and "length xs < fuel"
  shows "\<exists>h'. timer_attach_links fuel ex t act h = Some h'
    \<and> dlist h' act (attach_before ex t (remove1 t xs)) \<and> dlist h' sby (remove1 t ys)"
  using assms by (rule attach_links_eq)

definition links_demo :: list_heap where
  "links_demo = tuya_list_add_tail 3 2 (INIT_LIST_HEAD 2 (INIT_LIST_HEAD 1 (\<lambda>_. \<lparr>next_p = 0, prev_p = 0\<rparr>)))"

lemma timer_attach_links_correct_witness:
  "\<exists>h'. timer_attach_links 1 (\<lambda>_. 5) 3 1 links_demo = Some h' \<and> dlist h' 1 [3] \<and> dlist h' 2 []"
proof -
  have "dlist links_demo 1 []" "dlist links_demo 2 [3]"
    by (simp_all add: links_demo_def dlist_def tuya_list_add_tail_def list_add_def INIT_LIST_HEAD_def)
  from timer_attach_links_correct [OF this, of 3 1 "\<lambda>_. 5"] show ?thesis by simp
qed

text \<open>
  Starting a timer with a time of zero keeps its previous interval; on a freshly created timer
  that interval is zero, and if it is started as a cyclic timer then the dispatch loop never ends,
  whatever (non-decreasing) times the clock shows: the timer is due again in every round.
\<close>

theorem timer_zero_interval_spins:
  assumes "timer_inv m" and "timer_known t m" and "interval (timers m t) = 0"
    and "tal_sw_timer_start (Some t) 0 TAL_TIMER_CYCLE c m = (r, m')"
    and "sorted (map system_ms (c # cs))"
  shows "timer_dispatch (\<lambda>_ m. m) cs m' = None"
proof -
  have inv: "timer_inv m'" by (rule timer_start_inv [OF assms(1,2,4)])
  have "due_forever t (system_ms c) m'"
    using inv assms(3,4) by (auto simp: due_forever_def tal_sw_timer_start_def Let_def)
  then show ?thesis using assms(5)
  proof (induction cs arbitrary: c m')
    case (Cons d cs)
    then have "due_forever t (system_ms d) m'" by (auto simp: due_forever_def)
    from due_forever_round [OF this] obtain m1 x where
      "timer_dispatch_round (system_ms d) m' = (m1, Inl x)" "due_forever t (system_ms d) m1" by blast
    with Cons.IH [of d m1] Cons.prems(2) show ?case by simp
  qed simp
qed

lemma timer_zero_interval_spins_witness:
  "timer_dispatch (\<lambda>_ m. m) [(2, 0), (3, 0), (4, 0)]
     (snd (tal_sw_timer_start (Some 7) 0 TAL_TIMER_CYCLE (1, 0)
       (snd (snd (tal_sw_timer_create (Some 1) 0 True (Some 7) (timer_mgr0 (\<lambda>_. timers timer_demo 7))))))) = None"
proof (rule timer_zero_interval_spins [where t = 7 and c = "(1, 0)"])
  let ?m = "snd (snd (tal_sw_timer_create (Some 1) 0 True (Some 7) (timer_mgr0 (\<lambda>_. timers timer_demo 7))))"
  show "timer_inv ?m" "timer_known 7 ?m" "interval (timers ?m 7) = 0"
    by (simp_all add: timer_inv_def timer_known_def tal_sw_timer_create_def timer_mgr0_def)
  show "tal_sw_timer_start (Some 7) 0 TAL_TIMER_CYCLE (1, 0) ?m =
      (fst (tal_sw_timer_start (Some 7) 0 TAL_TIMER_CYCLE (1, 0) ?m),
       snd (tal_sw_timer_start (Some 7) 0 TAL_TIMER_CYCLE (1, 0) ?m))" by simp
  show "sorted (map system_ms [(1, 0), (2, 0), (3, 0), (4, 0)])" by (simp add: system_ms_def)
qed

end
