(* ===== verification/Workqueue.thy ===== *)
theory Workqueue
  imports MsgQueue SwTimer
begin

text \<open>
  The work queues of \<^verbatim>\<open>src/tal_system/src/tal_workqueue.c\<close> and the two queues of
  \<^verbatim>\<open>src/tal_system/src/tal_workq_service.c\<close>. A work queue is a message queue (\<open>MsgQueue\<close>), a semaphore and a
  thread that runs the items; delayed work is a software timer (\<open>SwTimer\<close>) whose callback queues the
  item. Semaphores and threads come from the platform: the semaphore is a value of the type variable
  \<open>'s\<close> with the operations \<open>sem_post\<close> and \<open>sem_wait\<close> as parameters, and the results of creating or
  deleting a thread are arguments. \<open>counting_semaphore\<close> names the documented behaviour the worker
  relies on. Handles are addresses into the system state; a NULL handle is \<open>None\<close>, and so is the
  object found at an address that was never created or is already released, which C does not define.
\<close>

section \<open>Model\<close>

record work_item =
  w_cb :: "nat option"
  w_data :: "nat option"

record 's workqueue =
  wq_queue :: "work_item tuya_queue"
  wq_sem :: 's
  wq_thread :: nat

record 's sem_ops =
  sem_post :: "'s \<Rightarrow> operate_ret \<times> 's"
  sem_wait :: "'s \<Rightarrow> operate_ret \<times> 's"

record delayed_work =
  dw_timer :: "nat option"
  dw_cb :: "nat option"
  dw_data :: "nat option"
  dw_handle :: "nat option"

record 's wq_system_state =
  wq_heap :: "nat \<Rightarrow> 's workqueue option"
  dw_heap :: "nat \<Rightarrow> delayed_work option"
  tmr :: timer_mgr
  wq_system :: "nat option"
  wq_highpri :: "nat option"

text \<open>
  One iteration of the loop of \<^verbatim>\<open>__work_thread_cb\<close>; \<open>run cb data\<close> is what the work callback does to the
  outside state.
\<close>

definition work_thread_iter :: "'s sem_ops \<Rightarrow> (nat \<Rightarrow> nat option \<Rightarrow> 'e \<Rightarrow> 'e) \<Rightarrow> 's workqueue \<Rightarrow> 'e \<Rightarrow> 's workqueue \<times> 'e" where
  "work_thread_iter S run wq env =
     (case sem_wait S (wq_sem wq) of (op_ret, sem) \<Rightarrow>
        (let wq = wq\<lparr>wq_sem := sem\<rparr>
         in if op_ret \<noteq> OPRT_OK then (wq, env)
            else (case tuya_queue_output (Some (wq_queue wq)) True of (op_ret, item, q) \<Rightarrow>
                    (let wq = wq\<lparr>wq_queue := the q\<rparr>
                     in if op_ret \<noteq> OPRT_OK then (wq, env)
                        else (case w_cb (the item) of
                                None \<Rightarrow> (wq, env)
                              | Some cb \<Rightarrow> (wq, run cb (w_data (the item)) env))))))"

definition work_cancel_traverse :: "work_item \<Rightarrow> work_item \<Rightarrow> bool \<times> work_item \<times> work_item" where
  "work_cancel_traverse src dst =
     (let is_same = (if w_cb dst \<noteq> None \<and> w_cb dst = w_cb src then True else False);
          is_same = (if w_data dst \<noteq> None \<and> w_data dst = w_data src then True else is_same);
          src = (if is_same then src\<lparr>w_cb := None\<rparr> else src)
      in (True, src, dst))"

text \<open>
  The arguments after \<open>has_handle\<close> are what the platform answers: the allocation of the queue
  object, allocation and lock of the message queue, the semaphore, the thread.
\<close>

definition tal_workqueue_create ::
  "u16 \<Rightarrow> bool \<Rightarrow> bool \<Rightarrow> bool \<Rightarrow> bool \<Rightarrow> operate_ret \<Rightarrow> operate_ret \<times> 's \<Rightarrow> operate_ret \<times> nat
     \<Rightarrow> operate_ret \<times> 's workqueue option" where
  "tal_workqueue_create qlen has_cfg has_handle mem q_mem q_lock sem_res thread_res =
     (if qlen = 0 \<or> \<not> has_cfg \<or> \<not> has_handle then (OPRT_INVALID_PARM, None)
      else if \<not> mem then (OPRT_MALLOC_FAILED, None)
      else (case tuya_queue_create (unat qlen) 8 True q_mem q_lock of (op_ret, q) \<Rightarrow>
              if op_ret \<noteq> OPRT_OK then (op_ret, None)
              else (case sem_res of (op_ret, sem) \<Rightarrow>
                      if op_ret \<noteq> OPRT_OK then (op_ret, None)
                      else (case thread_res of (op_ret, th) \<Rightarrow>
                              if op_ret \<noteq> OPRT_OK then (op_ret, None)
                              else (op_ret, Some \<lparr>wq_queue = the q, wq_sem = sem, wq_thread = th\<rparr>)))))"

definition tal_workqueue_schedule ::
  "'s sem_ops \<Rightarrow> 's workqueue option \<Rightarrow> nat option \<Rightarrow> nat option \<Rightarrow> bool \<Rightarrow> operate_ret \<times> 's workqueue option" where
  "tal_workqueue_schedule S handle cb data mem =
     (case handle of
        None \<Rightarrow> (OPRT_INVALID_PARM, handle)
      | Some wq \<Rightarrow>
          if cb = None then (OPRT_INVALID_PARM, handle)
          else (case tuya_queue_input (Some (wq_queue wq)) (Some \<lparr>w_cb = cb, w_data = data\<rparr>) mem of (op_ret, q) \<Rightarrow>
                  (let wq = wq\<lparr>wq_queue := the q\<rparr>
                   in if op_ret = OPRT_OK
                      then (case sem_post S (wq_sem wq) of (op_ret, sem) \<Rightarrow> (op_ret, Some (wq\<lparr>wq_sem := sem\<rparr>)))
                      else (op_ret, Some wq))))"

definition tal_workqueue_schedule_instant ::
  "'s sem_ops \<Rightarrow> 's workqueue option \<Rightarrow> nat option \<Rightarrow> nat option \<Rightarrow> bool \<Rightarrow> operate_ret \<times> 's workqueue option" where
  "tal_workqueue_schedule_instant S handle cb data mem =
     (case handle of
        None \<Rightarrow> (OPRT_INVALID_PARM, handle)
      | Some wq \<Rightarrow>
          if cb = None then (OPRT_INVALID_PARM, handle)
          else (case tuya_queue_input_instant (Some (wq_queue wq)) (Some \<lparr>w_cb = cb, w_data = data\<rparr>) mem of (op_ret, q) \<Rightarrow>
                  (let wq = wq\<lparr>wq_queue := the q\<rparr>
                   in if op_ret = OPRT_OK
                      then (case sem_post S (wq_sem wq) of (op_ret, sem) \<Rightarrow> (op_ret, Some (wq\<lparr>wq_sem := sem\<rparr>)))
                      else (op_ret, Some wq))))"

definition tal_workqueue_cancel ::
  "'s workqueue option \<Rightarrow> nat option \<Rightarrow> nat option \<Rightarrow> operate_ret \<times> 's workqueue option" where
  "tal_workqueue_cancel handle cb data =
     (case handle of
        None \<Rightarrow> (OPRT_INVALID_PARM, handle)
      | Some wq \<Rightarrow>
          if cb = None \<and> data = None then (OPRT_INVALID_PARM, handle)
          else (case tuya_queue_traverse (Some (wq_queue wq)) (Some work_cancel_traverse)
                       \<lparr>w_cb = cb, w_data = data\<rparr> of (op_ret, _, q) \<Rightarrow> (op_ret, Some (wq\<lparr>wq_queue := the q\<rparr>))))"

definition tal_workqueue_traverse ::
  "'s workqueue option \<Rightarrow> (work_item \<Rightarrow> 'c \<Rightarrow> bool \<times> work_item \<times> 'c) option \<Rightarrow> 'c
     \<Rightarrow> operate_ret \<times> 'c \<times> 's workqueue option" where
  "tal_workqueue_traverse handle cb ctx =
     (case handle of
        None \<Rightarrow> (OPRT_INVALID_PARM, ctx, handle)
      | Some wq \<Rightarrow>
          if cb = None then (OPRT_INVALID_PARM, ctx, handle)
          else (case tuya_queue_traverse (Some (wq_queue wq)) cb ctx of (op_ret, ctx', q) \<Rightarrow>
                  (op_ret, ctx', Some (wq\<lparr>wq_queue := the q\<rparr>))))"

definition tal_workqueue_get_num :: "'s workqueue option \<Rightarrow> u16" where
  "tal_workqueue_get_num handle =
     (case handle of
        None \<Rightarrow> of_int OPRT_INVALID_PARM
      | Some wq \<Rightarrow> of_nat (tuya_queue_get_used_num (Some (wq_queue wq))))"

text \<open>
  \<open>polls\<close> are the answers of the thread-state polls (true when the thread is deleted); \<open>None\<close> means
  that the wait has not ended within them.
\<close>

fun wait_deleted :: "bool list \<Rightarrow> bool" where
  "wait_deleted [] = False"
| "wait_deleted (p # ps) = (if p then True else wait_deleted ps)"

definition tal_workqueue_release ::
  "'s workqueue option \<Rightarrow> operate_ret \<Rightarrow> bool list \<Rightarrow> (operate_ret \<times> 's workqueue option) option" where
  "tal_workqueue_release handle delete_ret polls =
     (case handle of
        None \<Rightarrow> Some (OPRT_INVALID_PARM, handle)
      | Some wq \<Rightarrow>
          if delete_ret \<noteq> OPRT_OK then Some (delete_ret, handle)
          else if wait_deleted polls then Some (OPRT_OK, None) else None)"

definition tal_workqueue_get_thread :: "'s workqueue option \<Rightarrow> nat option" where
  "tal_workqueue_get_thread handle = map_option wq_thread handle"

section \<open>Delayed work\<close>

definition wq_at :: "'s wq_system_state \<Rightarrow> nat option \<Rightarrow> 's workqueue option" where
  "wq_at y h = Option.bind h (wq_heap y)"

definition put_wq :: "nat option \<Rightarrow> 's workqueue option \<Rightarrow> 's wq_system_state \<Rightarrow> 's wq_system_state" where
  "put_wq h wq y = (case (h, wq) of (Some a, Some w) \<Rightarrow> y\<lparr>wq_heap := (wq_heap y)(a := Some w)\<rparr> | _ \<Rightarrow> y)"

text \<open>The callback of a delayed work's timer; its argument is the address of the \<^verbatim>\<open>DELAYED_WORK_T\<close>.\<close>

definition delayed_work_cb :: "'s sem_ops \<Rightarrow> nat \<Rightarrow> bool \<Rightarrow> 's wq_system_state \<Rightarrow> 's wq_system_state" where
  "delayed_work_cb S arg mem y =
     (case dw_heap y arg of
        None \<Rightarrow> y
      | Some dw \<Rightarrow>
          (case tal_workqueue_schedule S (wq_at y (dw_handle dw)) (dw_cb dw) (dw_data dw) mem of (_, wq) \<Rightarrow>
             put_wq (dw_handle dw) wq y))"

abbreviation DELAYED_WORK_CB :: nat where "DELAYED_WORK_CB \<equiv> 1"

text \<open>\<open>mem\<close> and \<open>tmem\<close> are the addresses the two allocations return, if they succeed.\<close>

definition tal_workqueue_init_delayed ::
  "nat option \<Rightarrow> nat option \<Rightarrow> nat option \<Rightarrow> bool \<Rightarrow> nat option \<Rightarrow> nat option \<Rightarrow> 's wq_system_state
     \<Rightarrow> operate_ret \<times> nat option \<times> 's wq_system_state" where
  "tal_workqueue_init_delayed handle cb data out mem tmem y =
     (if handle = None \<or> \<not> out then (OPRT_INVALID_PARM, None, y)
      else case mem of
             None \<Rightarrow> (OPRT_MALLOC_FAILED, None, y)
           | Some p \<Rightarrow>
               (case tal_sw_timer_create (Some DELAYED_WORK_CB) p True tmem (tmr y) of (op_ret, tid, m) \<Rightarrow>
                  if op_ret \<noteq> OPRT_OK then (OPRT_COM_ERROR, None, y\<lparr>tmr := m\<rparr>)
                  else (OPRT_OK, Some p,
                        y\<lparr>tmr := m, dw_heap := (dw_heap y)(p := Some
                            \<lparr>dw_timer = tid, dw_cb = cb, dw_data = data, dw_handle = handle\<rparr>)\<rparr>)))"

definition dw_at :: "'s wq_system_state \<Rightarrow> nat option \<Rightarrow> delayed_work option" where
  "dw_at y d = Option.bind d (dw_heap y)"

definition tal_workqueue_start_delayed ::
  "nat option \<Rightarrow> u32 \<Rightarrow> timer_type \<Rightarrow> clock \<Rightarrow> 's wq_system_state \<Rightarrow> operate_ret \<times> 's wq_system_state" where
  "tal_workqueue_start_delayed d ms typ c y =
     (case dw_at y d of
        None \<Rightarrow> (OPRT_INVALID_PARM, y)
      | Some dw \<Rightarrow> (case tal_sw_timer_start (dw_timer dw) ms typ c (tmr y) of (r, m) \<Rightarrow> (r, y\<lparr>tmr := m\<rparr>)))"

definition tal_workqueue_stop_delayed :: "nat option \<Rightarrow> 's wq_system_state \<Rightarrow> operate_ret \<times> 's wq_system_state" where
  "tal_workqueue_stop_delayed d y =
     (case dw_at y d of
        None \<Rightarrow> (OPRT_INVALID_PARM, y)
      | Some dw \<Rightarrow> (case tal_sw_timer_stop (dw_timer dw) (tmr y) of (r, m) \<Rightarrow> (r, y\<lparr>tmr := m\<rparr>)))"

definition tal_workqueue_cancel_delayed :: "nat option \<Rightarrow> 's wq_system_state \<Rightarrow> operate_ret \<times> 's wq_system_state" where
  "tal_workqueue_cancel_delayed d y =
     (case dw_at y d of
        None \<Rightarrow> (OPRT_INVALID_PARM, y)
      | Some dw \<Rightarrow>
          (let y = y\<lparr>tmr := snd (tal_sw_timer_delete (dw_timer dw) (tmr y))\<rparr>;
               wq = snd (tal_workqueue_cancel (wq_at y (dw_handle dw)) (dw_cb dw) (dw_data dw));
               y = put_wq (dw_handle dw) wq y
           in (OPRT_OK, y\<lparr>dw_heap := (dw_heap y)(the d := None)\<rparr>)))"

section \<open>The two service queues\<close>

datatype workq_service = WORKQ_SYSTEM | WORKQ_HIGHTPRI

abbreviation MAX_NODE_NUM_WORK_QUEUE :: u16 where "MAX_NODE_NUM_WORK_QUEUE \<equiv> 100"
abbreviation MAX_NODE_NUM_MSG_QUEUE :: u16 where "MAX_NODE_NUM_MSG_QUEUE \<equiv> 100"

text \<open>
  \<open>create\<close> stands for a call of \<^verbatim>\<open>tal_workqueue_create\<close> with the given length; its results are the two
  answers \<open>r1\<close> and \<open>r2\<close> with the addresses \<open>a1\<close> and \<open>a2\<close> of the objects. On a failure of the second the
  first queue is released again.
\<close>

definition tal_workq_init ::
  "(u16 \<Rightarrow> operate_ret \<times> 's workqueue option) \<Rightarrow> (u16 \<Rightarrow> operate_ret \<times> 's workqueue option) \<Rightarrow> nat \<Rightarrow> nat
     \<Rightarrow> 's wq_system_state \<Rightarrow> operate_ret \<times> 's wq_system_state" where
  "tal_workq_init create1 create2 a1 a2 y =
     (if wq_system y \<noteq> None then (OPRT_OK, y)
      else (case create1 MAX_NODE_NUM_WORK_QUEUE of (rt, q1) \<Rightarrow>
              if rt \<noteq> OPRT_OK then (rt, y)
              else (let y = (put_wq (Some a1) q1 y)\<lparr>wq_system := Some a1\<rparr>
                    in case create2 MAX_NODE_NUM_MSG_QUEUE of (rt, q2) \<Rightarrow>
                         if rt \<noteq> OPRT_OK
                         then (rt, y\<lparr>wq_heap := (wq_heap y)(a1 := None), wq_system := None\<rparr>)
                         else (OPRT_OK, (put_wq (Some a2) q2 y)\<lparr>wq_highpri := Some a2\<rparr>))))"

definition tal_workq_get_handle :: "workq_service \<Rightarrow> 's wq_system_state \<Rightarrow> nat option" where
  "tal_workq_get_handle service y =
     (if service = WORKQ_SYSTEM then wq_system y
      else if service = WORKQ_HIGHTPRI then wq_highpri y else None)"

definition tal_workq_schedule ::
  "'s sem_ops \<Rightarrow> workq_service \<Rightarrow> nat option \<Rightarrow> nat option \<Rightarrow> bool \<Rightarrow> 's wq_system_state
     \<Rightarrow> operate_ret \<times> 's wq_system_state" where
  "tal_workq_schedule S service cb data mem y =
     (let h = tal_workq_get_handle service y
      in case tal_workqueue_schedule S (wq_at y h) cb data mem of (r, wq) \<Rightarrow> (r, put_wq h wq y))"

definition tal_workq_schedule_instant ::
  "'s sem_ops \<Rightarrow> workq_service \<Rightarrow> nat option \<Rightarrow> nat option \<Rightarrow> bool \<Rightarrow> 's wq_system_state
     \<Rightarrow> operate_ret \<times> 's wq_system_state" where
  "tal_workq_schedule_instant S service cb data mem y =
     (let h = tal_workq_get_handle service y
      in case tal_workqueue_schedule_instant S (wq_at y h) cb data mem of (r, wq) \<Rightarrow> (r, put_wq h wq y))"

definition tal_workq_cancel ::
  "workq_service \<Rightarrow> nat option \<Rightarrow> nat option \<Rightarrow> 's wq_system_state \<Rightarrow> operate_ret \<times> 's wq_system_state" where
  "tal_workq_cancel service cb data y =
     (let h = tal_workq_get_handle service y
      in case tal_workqueue_cancel (wq_at y h) cb data of (r, wq) \<Rightarrow> (r, put_wq h wq y))"

definition tal_workq_get_num :: "workq_service \<Rightarrow> 's wq_system_state \<Rightarrow> u16" where
  "tal_workq_get_num service y = tal_workqueue_get_num (wq_at y (tal_workq_get_handle service y))"

definition tal_workq_init_delayed where
  "tal_workq_init_delayed service cb data out mem tmem y =
     tal_workqueue_init_delayed (tal_workq_get_handle service y) cb data out mem tmem y"

definition tal_workq_start_delayed where
  "tal_workq_start_delayed d ms typ c y = tal_workqueue_start_delayed d ms typ c y"

definition tal_workq_stop_delayed where
  "tal_workq_stop_delayed d y = tal_workqueue_stop_delayed d y"

definition tal_workq_cancel_delayed where
  "tal_workq_cancel_delayed d y = tal_workqueue_cancel_delayed d y"

section \<open>Invariant\<close>

text \<open>
  What the platform promises of a counting semaphore: \<open>val\<close> reads its count, a post below the maximum
  succeeds and increments it, a wait above zero succeeds and decrements it. (A wait at zero blocks.)
\<close>

definition counting_semaphore :: "'s sem_ops \<Rightarrow> nat \<Rightarrow> ('s \<Rightarrow> nat) \<Rightarrow> bool" where
  "counting_semaphore S cap val \<longleftrightarrow>
     (\<forall>s. val s < cap \<longrightarrow> fst (sem_post S s) = OPRT_OK \<and> val (snd (sem_post S s)) = val s + 1)
     \<and> (\<forall>s. 0 < val s \<longrightarrow> fst (sem_wait S s) = OPRT_OK \<and> val (snd (sem_wait S s)) = val s - 1)"

definition wq_inv :: "nat \<Rightarrow> ('s \<Rightarrow> nat) \<Rightarrow> 's workqueue \<Rightarrow> bool" where
  "wq_inv cap val wq \<longleftrightarrow> queue_inv (wq_queue wq) \<and> queue_len (wq_queue wq) = cap
     \<and> val (wq_sem wq) = length (q_head (wq_queue wq))"

lemma post_ok:
  "counting_semaphore S cap val \<Longrightarrow> val s < cap \<Longrightarrow>
     \<exists>s'. sem_post S s = (OPRT_OK, s') \<and> val s' = val s + 1"
  unfolding counting_semaphore_def by (metis prod.collapse)

lemma wait_ok:
  "counting_semaphore S cap val \<Longrightarrow> 0 < val s \<Longrightarrow>
     \<exists>s'. sem_wait S s = (OPRT_OK, s') \<and> val s' = val s - 1"
  unfolding counting_semaphore_def by (metis prod.collapse)

lemma input_ok:
  assumes "queue_inv q" "length (q_head q) < queue_len q"
  shows "tuya_queue_input (Some q) (Some x) True =
    (OPRT_OK, Some (q\<lparr>q_head := q_head q @ [x], queue_free := queue_free q - 1\<rparr>))"
  using assms by (simp add: tuya_queue_input_def enqueue_def queue_inv_def)

lemma schedule_ok:
  assumes S: "counting_semaphore S cap val" and inv: "wq_inv cap val wq" and cb: "cb \<noteq> None"
    and room: "length (q_head (wq_queue wq)) < cap"
  shows "\<exists>wq'. tal_workqueue_schedule S (Some wq) cb data True = (OPRT_OK, Some wq') \<and> wq_inv cap val wq'
    \<and> q_head (wq_queue wq') = q_head (wq_queue wq) @ [\<lparr>w_cb = cb, w_data = data\<rparr>]"
proof -
  have q: "queue_inv (wq_queue wq)" "queue_len (wq_queue wq) = cap"
    and v: "val (wq_sem wq) = length (q_head (wq_queue wq))" using inv by (auto simp: wq_inv_def)
  from post_ok [OF S, of "wq_sem wq"] v room obtain s' where
    p: "sem_post S (wq_sem wq) = (OPRT_OK, s')" "val s' = length (q_head (wq_queue wq)) + 1" by auto
  have "queue_inv (wq_queue wq\<lparr>q_head := q_head (wq_queue wq) @ [x], queue_free := queue_free (wq_queue wq) - 1\<rparr>)" for x
    using q room by (simp add: queue_inv_def)
  then show ?thesis
    using q p cb room by (simp add: tal_workqueue_schedule_def input_ok wq_inv_def)
qed

lemma schedule_full:
  assumes "wq_inv cap val wq" "cb \<noteq> None" "length (q_head (wq_queue wq)) = cap"
  shows "tal_workqueue_schedule S (Some wq) cb data True = (OPRT_EXCEED_UPPER_LIMIT, Some wq)"
  using assms by (simp add: tal_workqueue_schedule_def tuya_queue_input_def enqueue_def wq_inv_def queue_inv_def)

lemma worker_runs:
  assumes S: "counting_semaphore S cap val" and inv: "wq_inv cap val wq"
    and q: "q_head (wq_queue wq) = x # xs"
  shows "\<exists>wq'. work_thread_iter S run wq env =
      (wq', case w_cb x of None \<Rightarrow> env | Some cb \<Rightarrow> run cb (w_data x) env)
    \<and> wq_inv cap val wq' \<and> q_head (wq_queue wq') = xs"
proof -
  have qi: "queue_inv (wq_queue wq)" using inv by (simp add: wq_inv_def)
  from wait_ok [OF S, of "wq_sem wq"] inv q obtain s' where
    w: "sem_wait S (wq_sem wq) = (OPRT_OK, s')" "val s' = length xs" by (auto simp: wq_inv_def)
  from output_some [OF qi q, of True] w inv q show ?thesis
    by (auto simp: work_thread_iter_def wq_inv_def queue_inv_def split: option.splits)
qed

text \<open>Queueing a list of work items, and letting the worker iterate.\<close>

fun schedule_all :: "'s sem_ops \<Rightarrow> (nat \<times> nat option) list \<Rightarrow> 's workqueue option \<Rightarrow> 's workqueue option" where
  "schedule_all S [] h = h"
| "schedule_all S ((cb, data) # ws) h = schedule_all S ws (snd (tal_workqueue_schedule S h (Some cb) data True))"

fun work_thread_iters :: "nat \<Rightarrow> 's sem_ops \<Rightarrow> (nat \<Rightarrow> nat option \<Rightarrow> 'e \<Rightarrow> 'e) \<Rightarrow> 's workqueue \<Rightarrow> 'e \<Rightarrow> 's workqueue \<times> 'e" where
  "work_thread_iters 0 S run wq env = (wq, env)"
| "work_thread_iters (Suc n) S run wq env =
     (case work_thread_iter S run wq env of (wq', env') \<Rightarrow> work_thread_iters n S run wq' env')"

lemma schedule_all_items:
  assumes "counting_semaphore S cap val" "wq_inv cap val wq" "length (q_head (wq_queue wq)) + length ws \<le> cap"
  shows "\<exists>wq'. schedule_all S ws (Some wq) = Some wq' \<and> wq_inv cap val wq'
    \<and> q_head (wq_queue wq') = q_head (wq_queue wq) @ map (\<lambda>(cb, data). \<lparr>w_cb = Some cb, w_data = data\<rparr>) ws"
  using assms(2,3)
proof (induction ws arbitrary: wq)
  case (Cons w ws)
  obtain cb data where w: "w = (cb, data)" by (cases w)
  from schedule_ok [OF assms(1) Cons.prems(1), of "Some cb" data] Cons.prems(2) obtain wq1 where
    s: "tal_workqueue_schedule S (Some wq) (Some cb) data True = (OPRT_OK, Some wq1)" "wq_inv cap val wq1"
    "q_head (wq_queue wq1) = q_head (wq_queue wq) @ [\<lparr>w_cb = Some cb, w_data = data\<rparr>]" by auto
  from Cons.IH [OF s(2)] Cons.prems(2) s w show ?case by auto
qed simp

lemma worker_drains:
  assumes "counting_semaphore S cap val" "wq_inv cap val wq"
    "q_head (wq_queue wq) = map (\<lambda>(cb, data). \<lparr>w_cb = Some cb, w_data = data\<rparr>) ws"
  shows "\<exists>wq'. work_thread_iters (length ws) S (\<lambda>cb data log. log @ [(cb, data)]) wq env = (wq', env @ ws)
    \<and> wq_inv cap val wq' \<and> q_head (wq_queue wq') = []"
  using assms(2,3)
proof (induction ws arbitrary: wq env)
  case (Cons w ws)
  obtain cb data where w: "w = (cb, data)" by (cases w)
  from worker_runs [OF assms(1) Cons.prems(1), of "\<lparr>w_cb = Some cb, w_data = data\<rparr>"] Cons.prems(2) w obtain wq1 where
    s: "work_thread_iter S (\<lambda>cb data log. log @ [(cb, data)]) wq env = (wq1, env @ [(cb, data)])" "wq_inv cap val wq1"
    "q_head (wq_queue wq1) = map (\<lambda>(cb, data). \<lparr>w_cb = Some cb, w_data = data\<rparr>) ws" by fastforce
  from Cons.IH [OF s(2,3), of "env @ [(cb, data)]"] s(1) w show ?case by auto
qed simp

section \<open>Interleavings\<close>

text \<open>
  The threads are not atomic: between queueing an item and posting the semaphore, and between waking up
  and taking the item, other threads run. The steps below are those halves. \<open>pending\<close> counts the
  schedulers that have queued but not posted yet, \<open>token\<close> says that the worker has passed the wait,
  \<open>ran\<close> collects what it took, and a cancellation may happen at any time.
\<close>

record 's wq_run =
  wr_wq :: "'s workqueue"
  pending :: nat
  token :: bool
  ran :: "work_item list"

inductive work_step :: "'s sem_ops \<Rightarrow> ('s \<Rightarrow> nat) \<Rightarrow> 's wq_run \<Rightarrow> 's wq_run \<Rightarrow> bool" for S val where
  ws_input: "enqueue (Some (wq_queue (wr_wq r))) (Some x) policy mem = (OPRT_OK, Some q) \<Longrightarrow>
    work_step S val r (r\<lparr>wr_wq := (wr_wq r)\<lparr>wq_queue := q\<rparr>, pending := pending r + 1\<rparr>)"
| ws_post: "0 < pending r \<Longrightarrow> sem_post S (wq_sem (wr_wq r)) = (rt, sem) \<Longrightarrow>
    work_step S val r (r\<lparr>wr_wq := (wr_wq r)\<lparr>wq_sem := sem\<rparr>, pending := pending r - 1\<rparr>)"
| ws_wait: "\<not> token r \<Longrightarrow> 0 < val (wq_sem (wr_wq r)) \<Longrightarrow> sem_wait S (wq_sem (wr_wq r)) = (OPRT_OK, sem) \<Longrightarrow>
    work_step S val r (r\<lparr>wr_wq := (wr_wq r)\<lparr>wq_sem := sem\<rparr>, token := True\<rparr>)"
| ws_output: "token r \<Longrightarrow> tuya_queue_output (Some (wq_queue (wr_wq r))) True = (rt, item, Some q) \<Longrightarrow>
    work_step S val r (r\<lparr>wr_wq := (wr_wq r)\<lparr>wq_queue := q\<rparr>, token := False,
      ran := (if rt = OPRT_OK then ran r @ [the item] else ran r)\<rparr>)"
| ws_cancel: "tal_workqueue_cancel (Some (wr_wq r)) cb data = (rt, Some wq) \<Longrightarrow>
    work_step S val r (r\<lparr>wr_wq := wq\<rparr>)"

inductive work_reach :: "'s sem_ops \<Rightarrow> ('s \<Rightarrow> nat) \<Rightarrow> nat \<Rightarrow> 's wq_run \<Rightarrow> bool" for S val cap where
  wr_start: "wq_inv cap val wq \<Longrightarrow> q_head (wq_queue wq) = [] \<Longrightarrow>
    work_reach S val cap \<lparr>wr_wq = wq, pending = 0, token = False, ran = []\<rparr>"
| wr_next: "work_reach S val cap r \<Longrightarrow> work_step S val r r' \<Longrightarrow> work_reach S val cap r'"

definition run_inv :: "nat \<Rightarrow> ('s \<Rightarrow> nat) \<Rightarrow> 's wq_run \<Rightarrow> bool" where
  "run_inv cap val r \<longleftrightarrow> queue_inv (wq_queue (wr_wq r)) \<and> queue_len (wq_queue (wr_wq r)) = cap
     \<and> val (wq_sem (wr_wq r)) + pending r + of_bool (token r) = length (q_head (wq_queue (wr_wq r)))"

lemma enqueue_ok_eq:
  "enqueue (Some q) (Some x) pol mem = (OPRT_OK, Some q') \<Longrightarrow>
     queue_free q > 0 \<and> q' = q\<lparr>q_head := (if pol = POLICY_SEND_TO_BACK then q_head q @ [x] else x # q_head q),
                              queue_free := queue_free q - 1\<rparr>"
  by (auto simp: enqueue_def split: if_splits)

lemma traverse_items_map:
  "(\<And>x c. cb x c = (True, f x c, c)) \<Longrightarrow> traverse_items cb xs c = (map (\<lambda>x. f x c) xs, c)"
  by (induction xs) auto

definition cancel_mark :: "nat option \<Rightarrow> nat option \<Rightarrow> work_item \<Rightarrow> work_item" where
  "cancel_mark cb data x =
     (if cb \<noteq> None \<and> w_cb x = cb \<or> data \<noteq> None \<and> w_data x = data then x\<lparr>w_cb := None\<rparr> else x)"

lemma cancel_eq:
  assumes "cb \<noteq> None \<or> data \<noteq> None"
  shows "tal_workqueue_cancel (Some wq) cb data =
    (OPRT_OK, Some (wq\<lparr>wq_queue := (wq_queue wq)\<lparr>q_head := map (cancel_mark cb data) (q_head (wq_queue wq))\<rparr>\<rparr>))"
proof -
  have "work_cancel_traverse x c = (True, cancel_mark (w_cb c) (w_data c) x, c)" for x c
    by (auto simp: work_cancel_traverse_def cancel_mark_def Let_def)
  note t = traverse_items_map [OF this]
  show ?thesis using assms
    by (auto simp: tal_workqueue_cancel_def tuya_queue_traverse_def t)
qed

lemma work_step_inv:
  assumes S: "counting_semaphore S cap val" and step: "work_step S val r r'" and inv: "run_inv cap val r"
  shows "run_inv cap val r'"
  using step
proof cases
  case (ws_input x policy mem q)
  from enqueue_ok_eq [OF ws_input(2)] inv ws_input(1) show ?thesis by (auto simp: run_inv_def queue_inv_def)
next
  case (ws_post rt sem)
  have "val (wq_sem (wr_wq r)) < cap" using inv ws_post(2) by (auto simp: run_inv_def queue_inv_def)
  from post_ok [OF S this] ws_post inv show ?thesis by (auto simp: run_inv_def)
next
  case (ws_wait sem)
  from wait_ok [OF S ws_wait(3)] ws_wait inv show ?thesis by (auto simp: run_inv_def)
next
  case (ws_output rt item q)
  then obtain x xs where x: "q_head (wq_queue (wr_wq r)) = x # xs"
    using inv by (cases "q_head (wq_queue (wr_wq r))") (auto simp: run_inv_def)
  with ws_output inv output_some [of "wq_queue (wr_wq r)" x xs True] show ?thesis
    by (auto simp: run_inv_def queue_inv_def)
next
  case (ws_cancel cb data rt wq)
  show ?thesis
  proof (cases "cb = None \<and> data = None")
    case True
    with ws_cancel inv show ?thesis by (auto simp: tal_workqueue_cancel_def run_inv_def)
  next
    case False
    with cancel_eq [of cb data "wr_wq r"] ws_cancel inv show ?thesis by (auto simp: run_inv_def queue_inv_def)
  qed
qed

lemma work_reach_inv: "counting_semaphore S cap val \<Longrightarrow> work_reach S val cap r \<Longrightarrow> run_inv cap val r"
  by (rotate_tac, induction rule: work_reach.induct) (auto simp: run_inv_def wq_inv_def dest: work_step_inv)

section \<open>Properties\<close>

text \<open>
  Work is neither lost nor reordered: on a work queue whose semaphore is a counting semaphore of its
  capacity, every call of a list of schedules that fits succeeds, and as many iterations of the worker run
  exactly these callbacks with their data, in the order they were scheduled, and leave the queue empty;
  one more schedule into a full queue is refused and changes nothing.
\<close>

theorem workqueue_runs_in_order:
  assumes "counting_semaphore S cap val" and "wq_inv cap val wq" and "q_head (wq_queue wq) = []" and "length ws \<le> cap"
  shows "\<exists>wq1 wq2. schedule_all S ws (Some wq) = Some wq1
    \<and> work_thread_iters (length ws) S (\<lambda>cb data log. log @ [(cb, data)]) wq1 [] = (wq2, ws)
    \<and> wq_inv cap val wq2 \<and> q_head (wq_queue wq2) = []
    \<and> (length ws = cap \<longrightarrow> tal_workqueue_schedule S (Some wq1) (Some cb) data True = (OPRT_EXCEED_UPPER_LIMIT, Some wq1))"
proof -
  from schedule_all_items [OF assms(1,2), of ws] assms(3,4) obtain wq1 where
    w1: "schedule_all S ws (Some wq) = Some wq1" "wq_inv cap val wq1"
    "q_head (wq_queue wq1) = map (\<lambda>(cb, data). \<lparr>w_cb = Some cb, w_data = data\<rparr>) ws" by auto
  have "length ws = cap \<longrightarrow> tal_workqueue_schedule S (Some wq1) (Some cb) data True = (OPRT_EXCEED_UPPER_LIMIT, Some wq1)"
    using schedule_full [OF w1(2), of "Some cb" S data] w1(3) by auto
  with worker_drains [OF assms(1) w1(2,3), of "[]"] w1(1) show ?thesis by auto
qed

definition nat_sem :: "nat \<Rightarrow> nat sem_ops" where
  "nat_sem cap = \<lparr>sem_post = (\<lambda>n. if n < cap then (OPRT_OK, n + 1) else (OPRT_COM_ERROR, n)),
                 sem_wait = (\<lambda>n. if 0 < n then (OPRT_OK, n - 1) else (OPRT_COM_ERROR, n))\<rparr>"

lemma nat_sem_counting: "counting_semaphore (nat_sem cap) cap (\<lambda>n. n)"
  by (simp add: counting_semaphore_def nat_sem_def)

definition wq_demo :: "nat workqueue" where
  "wq_demo = the (snd (tal_workqueue_create 2 True True True True OPRT_OK (OPRT_OK, 0) (OPRT_OK, 9)))"

lemma wq_demo_inv: "wq_inv 2 (\<lambda>n. n) wq_demo" "q_head (wq_queue wq_demo) = []"
  by (simp_all add: wq_demo_def tal_workqueue_create_def tuya_queue_create_def wq_inv_def queue_inv_def)

lemma workqueue_runs_in_order_witness:
  "\<exists>wq1 wq2. schedule_all (nat_sem 2) [(5, None), (4, Some 1)] (Some wq_demo) = Some wq1
    \<and> work_thread_iters 2 (nat_sem 2) (\<lambda>cb data log. log @ [(cb, data)]) wq1 [] = (wq2, [(5, None), (4, Some 1)])
    \<and> tal_workqueue_schedule (nat_sem 2) (Some wq1) (Some 6) None True = (OPRT_EXCEED_UPPER_LIMIT, Some wq1)"
  using workqueue_runs_in_order [OF nat_sem_counting wq_demo_inv, of "[(5, None), (4, Some 1)]" 6 None]
  by (auto simp: numeral_2_eq_2)

text \<open>
  C2. No lost wake-up, under every interleaving of schedulers, cancellations and the worker: the queued
  items are exactly the semaphore count plus the posts still to come plus the item the awake worker will
  take. So a post never finds the semaphore at its maximum, an awake worker always finds an item, and
  while items are queued some post is due, the worker is awake, or its wait will succeed.
\<close>

theorem work_no_lost_wakeup:
  assumes "counting_semaphore S cap val" and "work_reach S val cap r"
  shows "val (wq_sem (wr_wq r)) + pending r + of_bool (token r) = length (q_head (wq_queue (wr_wq r)))
    \<and> (0 < pending r \<longrightarrow> fst (sem_post S (wq_sem (wr_wq r))) = OPRT_OK)
    \<and> (token r \<longrightarrow> fst (tuya_queue_output (Some (wq_queue (wr_wq r))) True) = OPRT_OK)
    \<and> (q_head (wq_queue (wr_wq r)) \<noteq> [] \<longrightarrow> 0 < pending r \<or> token r
        \<or> fst (sem_wait S (wq_sem (wr_wq r))) = OPRT_OK)"
proof -
  have inv: "run_inv cap val r" by (rule work_reach_inv [OF assms])
  then have e: "val (wq_sem (wr_wq r)) + pending r + of_bool (token r) = length (q_head (wq_queue (wr_wq r)))"
    and q: "queue_inv (wq_queue (wr_wq r))" "queue_len (wq_queue (wr_wq r)) = cap" by (auto simp: run_inv_def)
  have "val (wq_sem (wr_wq r)) < cap" if "0 < pending r"
    using that e q by (auto simp: queue_inv_def)
  then have "0 < pending r \<longrightarrow> fst (sem_post S (wq_sem (wr_wq r))) = OPRT_OK"
    using post_ok [OF assms(1)] by fastforce
  moreover have "token r \<longrightarrow> fst (tuya_queue_output (Some (wq_queue (wr_wq r))) True) = OPRT_OK"
    using e q by (auto simp: tuya_queue_output_def queue_inv_def)
  moreover have "0 < pending r \<or> token r \<or> fst (sem_wait S (wq_sem (wr_wq r))) = OPRT_OK"
    if "q_head (wq_queue (wr_wq r)) \<noteq> []"
  proof (cases "0 < pending r \<or> token r")
    case False
    then have "0 < val (wq_sem (wr_wq r))" using that e by (cases "q_head (wq_queue (wr_wq r))") auto
    from wait_ok [OF assms(1) this] show ?thesis by force
  qed blast
  ultimately show ?thesis using e by blast
qed

definition run_demo :: "nat wq_run" where
  "run_demo = \<lparr>wr_wq = wq_demo, pending = 0, token = False, ran = []\<rparr>"

lemma work_no_lost_wakeup_witness:
  "work_reach (nat_sem 2) (\<lambda>n. n) 2 (run_demo\<lparr>wr_wq := wq_demo\<lparr>wq_queue := (wq_queue wq_demo)\<lparr>q_head := [\<lparr>w_cb = Some 5, w_data = None\<rparr>],
      queue_free := queue_free (wq_queue wq_demo) - 1\<rparr>\<rparr>, pending := 1\<rparr>)
   \<and> fst (sem_post (nat_sem 2) (wq_sem wq_demo)) = OPRT_OK"
proof -
  have "enqueue (Some (wq_queue (wr_wq run_demo))) (Some \<lparr>w_cb = Some 5, w_data = None\<rparr>) POLICY_SEND_TO_BACK True
      = (OPRT_OK, Some ((wq_queue wq_demo)\<lparr>q_head := [\<lparr>w_cb = Some 5, w_data = None\<rparr>],
          queue_free := queue_free (wq_queue wq_demo) - 1\<rparr>))"
    by (simp add: run_demo_def enqueue_def wq_demo_def tal_workqueue_create_def tuya_queue_create_def)
  from ws_input [of run_demo, OF this]
  have step: "work_step (nat_sem 2) (\<lambda>n. n) run_demo (run_demo\<lparr>wr_wq := wq_demo\<lparr>wq_queue :=
      (wq_queue wq_demo)\<lparr>q_head := [\<lparr>w_cb = Some 5, w_data = None\<rparr>],
          queue_free := queue_free (wq_queue wq_demo) - 1\<rparr>\<rparr>, pending := 1\<rparr>)"
    by (simp add: run_demo_def)
  have "work_reach (nat_sem 2) (\<lambda>n. n) 2 run_demo" unfolding run_demo_def by (rule wr_start [OF wq_demo_inv])
  from wr_next [OF this step] show ?thesis
    using work_no_lost_wakeup [OF nat_sem_counting wr_next [OF \<open>work_reach _ _ _ run_demo\<close> step]]
    by (auto simp: run_demo_def)
qed

text \<open>
  Cancelling disarms, in place, every queued item that has the given callback or the given
  data (either match is enough), and leaves the others; the number of queued items does not change, and a
  disarmed item is taken by the worker without being run.
\<close>

theorem workqueue_cancel_marks:
  assumes "cb \<noteq> None \<or> data \<noteq> None"
  shows "tal_workqueue_cancel (Some wq) cb data = (OPRT_OK, Some (wq\<lparr>wq_queue := (wq_queue wq)\<lparr>q_head :=
      map (\<lambda>x. if cb \<noteq> None \<and> w_cb x = cb \<or> data \<noteq> None \<and> w_data x = data then x\<lparr>w_cb := None\<rparr> else x)
        (q_head (wq_queue wq))\<rparr>\<rparr>))"
  using cancel_eq [OF assms, of wq] unfolding cancel_mark_def .

lemma workqueue_cancel_marks_witness:
  "tal_workqueue_cancel (Some \<lparr>wq_queue = \<lparr>item_size = 8, queue_len = 4, queue_free = 1,
      q_head = [\<lparr>w_cb = Some 1, w_data = Some 2\<rparr>, \<lparr>w_cb = Some 3, w_data = Some 2\<rparr>, \<lparr>w_cb = Some 1, w_data = None\<rparr>]\<rparr>,
      wq_sem = (3 :: nat), wq_thread = 0\<rparr>) (Some 3) (Some 2) =
   (OPRT_OK, Some \<lparr>wq_queue = \<lparr>item_size = 8, queue_len = 4, queue_free = 1,
      q_head = [\<lparr>w_cb = None, w_data = Some 2\<rparr>, \<lparr>w_cb = None, w_data = Some 2\<rparr>, \<lparr>w_cb = Some 1, w_data = None\<rparr>]\<rparr>,
      wq_sem = 3, wq_thread = 0\<rparr>)"
  by (subst workqueue_cancel_marks) simp_all

lemma start_timers:
  assumes "tal_sw_timer_start (Some t) ms typ c m = (r, m')"
  shows "timers m' t = (timers m t)\<lparr>is_running := True, interval := (if ms = 0 then interval (timers m t) else ms),
      t_type := typ, expire_time := system_ms c + ucast (if ms = 0 then interval (timers m t) else ms)\<rparr>"
    and "\<And>x. x \<noteq> t \<Longrightarrow> timers m' x = timers m x"
    and "list_active m' = attach_before (\<lambda>x. expire_time (timers m' x)) t (remove1 t (list_active m))"
    and "r = OPRT_OK"
  using assms by (auto simp: tal_sw_timer_start_def Let_def)

lemma start_once_intervals:
  assumes "intervals_pos m" "tal_sw_timer_start (Some t) ms TAL_TIMER_ONCE c m = (r, m')"
  shows "intervals_pos m'"
  unfolding intervals_pos_def list_all_iff
proof
  fix x
  assume "x \<in> set (list_active m')"
  then consider "x = t" | "x \<noteq> t" "x \<in> set (list_active m)"
    using start_timers(3) [OF assms(2)] set_remove1_subset [of t "list_active m"] by auto
  then show "t_type (timers m' x) = TAL_TIMER_CYCLE \<longrightarrow> 0 < interval (timers m' x)"
    using start_timers(1,2) [OF assms(2)] assms(1) by cases (simp_all add: intervals_pos_def list_all_iff)
qed

text \<open>
  Delayed work is due exactly its delay after it was started: the dispatch of the timers at any
  clock reading fires it if and only if that reading is at least the start time plus the delay. A delay
  of zero does not mean at once: it means the delay of the previous start.
\<close>

theorem delayed_work_due:
  assumes "timer_inv (tmr y)" and "intervals_pos (tmr y)"
    and "dw_at y d = Some dw" and "dw_timer dw = Some t" and "timer_known t (tmr y)"
    and "tal_workqueue_start_delayed d ms TAL_TIMER_ONCE c y = (r, y')"
    and "length (list_active (tmr y')) < n"
  shows "\<exists>m' fired nx. timer_dispatch (\<lambda>_ m. m) (replicate n c') (tmr y') = Some (m', fired, nx)
    \<and> (t \<in> set fired \<longleftrightarrow>
        system_ms c + ucast (if ms = 0 then interval (timers (tmr y) t) else ms) \<le> system_ms c')"
proof -
  obtain m1 where s: "tal_sw_timer_start (Some t) ms TAL_TIMER_ONCE c (tmr y) = (r, m1)" and y': "tmr y' = m1"
    using assms(3,4,6) by (auto simp: tal_workqueue_start_delayed_def split: prod.splits)
  note e = start_timers [OF s]
  have "length (expired (system_ms c') m1) < n"
    using assms(7) y' by (simp add: expired_def le_less_trans [OF length_filter_le])
  from dispatch_fires [OF timer_start_inv [OF assms(1,5) s] start_once_intervals [OF assms(2) s] this]
  obtain m' nx where d: "timer_dispatch (\<lambda>_ m. m) (replicate n c') m1 = Some (m', expired (system_ms c') m1, nx)" by blast
  have "t \<in> set (expired (system_ms c') m1) \<longleftrightarrow>
      system_ms c + ucast (if ms = 0 then interval (timers (tmr y) t) else ms) \<le> system_ms c'"
    unfolding expired_def set_filter e(3) set_attach_before by (simp add: e(1))
  with d y' show ?thesis by blast
qed

definition delayed_demo :: "nat wq_system_state" where
  "delayed_demo = \<lparr>wq_heap = (\<lambda>_. None),
     dw_heap = (\<lambda>_. None)(30 := Some \<lparr>dw_timer = Some 7, dw_cb = Some 5, dw_data = None, dw_handle = Some 40\<rparr>),
     tmr = timer_demo, wq_system = None, wq_highpri = None\<rparr>"

lemma delayed_work_due_witness:
  "\<exists>m' fired nx. timer_dispatch (\<lambda>_ m. m) (replicate 2 (20, 249))
      (tmr (snd (tal_workqueue_start_delayed (Some 30) 0 TAL_TIMER_ONCE (20, 0) delayed_demo))) = Some (m', fired, nx)
    \<and> 7 \<notin> set fired"
proof -
  let ?s = "tal_workqueue_start_delayed (Some 30) 0 TAL_TIMER_ONCE (20, 0) delayed_demo"
  have "length (list_active (tmr (snd ?s))) < 2"
    by (simp add: tal_workqueue_start_delayed_def dw_at_def delayed_demo_def tal_sw_timer_start_def
        timer_demo_state Let_def)
  then show ?thesis
    using delayed_work_due [of delayed_demo "Some 30" _ 7 0 "(20, 0)" "fst ?s" "snd ?s" 2 "(20, 249)"]
      reachable_inv [OF timer_demo_reachable]
    by (auto simp: delayed_demo_def dw_at_def timer_known_def timer_demo_state intervals_pos_def system_ms_def)
qed

end
