(* ===== verification/Event.thy ===== *)
theory Event
  imports Prelude
begin

text \<open>
  The event manager of \<^verbatim>\<open>src/tal_system/src/tal_event.c\<close>: events with their subscriber lists, and the free
  list of subscriptions whose event does not exist yet. Lists of nodes are HOL lists, in the order of
  the links. A name or description argument is \<open>None\<close> for NULL; \<open>mem\<close> says whether the allocation
  the call may make succeeds. A callback is a number; \<open>run\<close> says what calling it with the published
  data returns and does to the outside state. The locale \<open>event_bus\<close> is the contract subscribers rely
  on: which subscriptions an event has, in which order they are called, and which stay.
\<close>

section \<open>Model\<close>

type_synonym subscribe_type = byte

abbreviation SUBSCRIBE_TYPE_NORMAL :: subscribe_type where "SUBSCRIBE_TYPE_NORMAL \<equiv> 0"
abbreviation SUBSCRIBE_TYPE_EMERGENCY :: subscribe_type where "SUBSCRIBE_TYPE_EMERGENCY \<equiv> 1"
abbreviation SUBSCRIBE_TYPE_ONETIME :: subscribe_type where "SUBSCRIBE_TYPE_ONETIME \<equiv> 2"
abbreviation EVENT_NAME_MAX_LEN :: nat where "EVENT_NAME_MAX_LEN \<equiv> 16"
abbreviation EVENT_DESC_MAX_LEN :: nat where "EVENT_DESC_MAX_LEN \<equiv> 32"

record subscribe_node =
  s_name :: string
  s_desc :: string
  s_type :: subscribe_type
  s_cb :: "nat option"

record event_node =
  ev_name :: string
  subscribe_root :: "subscribe_node list"

record event_manage =
  ev_inited :: bool
  event_cnt :: nat
  event_root :: "event_node list"
  free_subscribe_root :: "subscribe_node list"

definition event_name_is_valid :: "string option \<Rightarrow> bool" where
  "event_name_is_valid name =
     (case name of None \<Rightarrow> False
      | Some n \<Rightarrow> if length n > EVENT_NAME_MAX_LEN \<or> length n \<le> 0 then False else True)"

definition event_desc_is_valid :: "string option \<Rightarrow> bool" where
  "event_desc_is_valid desc =
     (case desc of None \<Rightarrow> False
      | Some d \<Rightarrow> if length d > EVENT_DESC_MAX_LEN \<or> length d \<le> 0 then False else True)"

text \<open>Adding by kind: at the head for an emergency subscription, at the tail otherwise.\<close>

definition link_subscribe :: "subscribe_node \<Rightarrow> subscribe_node list \<Rightarrow> subscribe_node list" where
  "link_subscribe s subs = (if s_type s = SUBSCRIBE_TYPE_EMERGENCY then s # subs else subs @ [s])"

text \<open>The loop of \<^verbatim>\<open>_event_node_create_init\<close>: the free list that remains and the subscribers adopted.\<close>

fun adopt_free :: "string \<Rightarrow> subscribe_node list \<Rightarrow> subscribe_node list \<Rightarrow> subscribe_node list \<times> subscribe_node list" where
  "adopt_free name [] subs = ([], subs)"
| "adopt_free name (x # xs) subs =
     (if s_name x = name then adopt_free name xs (link_subscribe x subs)
      else (case adopt_free name xs subs of (free, subs') \<Rightarrow> (x # free, subs')))"

definition event_node_create_init :: "string \<Rightarrow> bool \<Rightarrow> event_manage \<Rightarrow> event_node option \<times> event_manage" where
  "event_node_create_init name mem m =
     (if \<not> mem then (None, m)
      else (case adopt_free name (free_subscribe_root m) [] of (free, subs) \<Rightarrow>
              (let ev = \<lparr>ev_name = name, subscribe_root = subs\<rparr>
               in (Some ev, m\<lparr>free_subscribe_root := free, event_root := event_root m @ [ev],
                              event_cnt := event_cnt m + 1\<rparr>))))"

definition event_node_get :: "string \<Rightarrow> event_manage \<Rightarrow> event_node option" where
  "event_node_get name m = find (\<lambda>e. ev_name e = name) (event_root m)"

definition same_free_subscribe :: "subscribe_node \<Rightarrow> subscribe_node \<Rightarrow> bool" where
  "same_free_subscribe s e \<longleftrightarrow> s_name e = s_name s \<and> s_desc e = s_desc s \<and> s_cb e = s_cb s"

definition same_subscribe :: "subscribe_node \<Rightarrow> subscribe_node \<Rightarrow> bool" where
  "same_subscribe s e \<longleftrightarrow> s_desc e = s_desc s \<and> s_cb e = s_cb s"

definition event_node_get_free_subscribe :: "subscribe_node \<Rightarrow> event_manage \<Rightarrow> subscribe_node option" where
  "event_node_get_free_subscribe s m = find (same_free_subscribe s) (free_subscribe_root m)"

definition event_node_get_subscribe :: "event_node \<Rightarrow> subscribe_node \<Rightarrow> subscribe_node option" where
  "event_node_get_subscribe ev s = find (same_subscribe s) (subscribe_root ev)"

text \<open>The dispatch loop: the running result, the subscribers that stay, the outside state.\<close>

fun dispatch_loop :: "(nat \<Rightarrow> 's \<Rightarrow> operate_ret \<times> 's) \<Rightarrow> subscribe_node list \<Rightarrow> operate_ret \<Rightarrow> 's \<Rightarrow>
    operate_ret \<times> subscribe_node list \<times> 's" where
  "dispatch_loop run [] rt s = (rt, [], s)"
| "dispatch_loop run (e # es) rt s =
     (case (case s_cb e of None \<Rightarrow> (rt, s) | Some cb \<Rightarrow> run cb s) of (rt1, s1) \<Rightarrow>
        (case dispatch_loop run es rt1 s1 of (rt2, es2, s2) \<Rightarrow>
           (rt2, if s_type e = SUBSCRIBE_TYPE_ONETIME then es2 else e # es2, s2)))"

definition event_node_dispatch :: "(nat \<Rightarrow> 's \<Rightarrow> operate_ret \<times> 's) \<Rightarrow> event_node \<Rightarrow> 's \<Rightarrow>
    operate_ret \<times> event_node \<times> 's" where
  "event_node_dispatch run ev s =
     (case dispatch_loop run (subscribe_root ev) OPRT_OK s of (rt, subs, s') \<Rightarrow>
        (rt, ev\<lparr>subscribe_root := subs\<rparr>, s'))"

definition event_node_add_free_subscribe :: "subscribe_node \<Rightarrow> bool \<Rightarrow> event_manage \<Rightarrow> operate_ret \<times> event_manage" where
  "event_node_add_free_subscribe s mem m =
     (case event_node_get_free_subscribe s m of
        Some _ \<Rightarrow> (OPRT_OK, m)
      | None \<Rightarrow>
          if \<not> mem then (OPRT_MALLOC_FAILED, m)
          else (OPRT_OK, m\<lparr>free_subscribe_root := free_subscribe_root m @ [s]\<rparr>))"

definition event_node_add_subscribe :: "event_node \<Rightarrow> subscribe_node \<Rightarrow> bool \<Rightarrow> operate_ret \<times> event_node" where
  "event_node_add_subscribe ev s mem =
     (case event_node_get_subscribe ev s of
        Some _ \<Rightarrow> (OPRT_OK, ev)
      | None \<Rightarrow>
          if \<not> mem then (OPRT_MALLOC_FAILED, ev)
          else (OPRT_OK, ev\<lparr>subscribe_root := link_subscribe s (subscribe_root ev)\<rparr>))"

text \<open>Unlinking the entry the search found: the first that matches.\<close>

fun remove_first :: "('a \<Rightarrow> bool) \<Rightarrow> 'a list \<Rightarrow> 'a list" where
  "remove_first P [] = []"
| "remove_first P (x # xs) = (if P x then xs else x # remove_first P xs)"

definition event_node_del_free_subscribe :: "subscribe_node \<Rightarrow> event_manage \<Rightarrow> operate_ret \<times> event_manage" where
  "event_node_del_free_subscribe s m =
     (case event_node_get_free_subscribe s m of
        None \<Rightarrow> (OPRT_OK, m)
      | Some _ \<Rightarrow>
          (OPRT_OK, m\<lparr>free_subscribe_root := remove_first (same_free_subscribe s) (free_subscribe_root m)\<rparr>))"

definition event_node_del_subscribe :: "event_node \<Rightarrow> subscribe_node \<Rightarrow> operate_ret \<times> event_node" where
  "event_node_del_subscribe ev s =
     (case event_node_get_subscribe ev s of
        None \<Rightarrow> (OPRT_OK, ev)
      | Some _ \<Rightarrow> (OPRT_OK, ev\<lparr>subscribe_root := remove_first (same_subscribe s) (subscribe_root ev)\<rparr>))"

definition tal_event_init :: "event_manage \<Rightarrow> operate_ret \<times> event_manage" where
  "tal_event_init m =
     (if ev_inited m then (OPRT_OK, m)
      else (OPRT_OK, m\<lparr>event_root := [], free_subscribe_root := [], event_cnt := 0, ev_inited := True\<rparr>))"

text \<open>
  An event found by name is changed in place: the node the search returns is the first with that
  name.
\<close>

fun store_event :: "event_node \<Rightarrow> event_node list \<Rightarrow> event_node list" where
  "store_event ev [] = []"
| "store_event ev (x # xs) = (if ev_name x = ev_name ev then ev # xs else x # store_event ev xs)"

definition tal_event_publish :: "(nat \<Rightarrow> 's \<Rightarrow> operate_ret \<times> 's) \<Rightarrow> string option \<Rightarrow> bool \<Rightarrow> event_manage \<Rightarrow> 's \<Rightarrow>
    operate_ret \<times> event_manage \<times> 's" where
  "tal_event_publish run name mem m s =
     (let m = (if \<not> ev_inited m then snd (tal_event_init m) else m)
      in if \<not> event_name_is_valid name then (OPRT_BASE_EVENT_INVALID_EVENT_NAME, m, s)
         else case (case event_node_get (the name) m of
                      Some ev \<Rightarrow> (Some ev, m)
                    | None \<Rightarrow> event_node_create_init (the name) mem m) of
                (None, m) \<Rightarrow> (OPRT_MALLOC_FAILED, m, s)
              | (Some ev, m) \<Rightarrow>
                  (case event_node_dispatch run ev s of (rt, ev', s') \<Rightarrow>
                     (rt, m\<lparr>event_root := store_event ev' (event_root m)\<rparr>, s')))"

definition tal_event_subscribe :: "string option \<Rightarrow> string option \<Rightarrow> nat option \<Rightarrow> subscribe_type \<Rightarrow> bool \<Rightarrow>
    event_manage \<Rightarrow> operate_ret \<times> event_manage" where
  "tal_event_subscribe name desc cb typ mem m =
     (let m = (if \<not> ev_inited m then snd (tal_event_init m) else m)
      in if \<not> event_desc_is_valid desc then (OPRT_BASE_EVENT_INVALID_EVENT_DESC, m)
         else if \<not> event_name_is_valid name then (OPRT_BASE_EVENT_INVALID_EVENT_NAME, m)
         else (let s = \<lparr>s_name = the name, s_desc = the desc, s_type = typ, s_cb = cb\<rparr>
               in case event_node_get (the name) m of
                    None \<Rightarrow> event_node_add_free_subscribe s mem m
                  | Some ev \<Rightarrow>
                      (case event_node_add_subscribe ev s mem of (rt, ev') \<Rightarrow>
                         (rt, m\<lparr>event_root := store_event ev' (event_root m)\<rparr>))))"

definition tal_event_unsubscribe :: "string option \<Rightarrow> string option \<Rightarrow> nat option \<Rightarrow>
    event_manage \<Rightarrow> operate_ret \<times> event_manage" where
  "tal_event_unsubscribe name desc cb m =
     (let m = (if \<not> ev_inited m then snd (tal_event_init m) else m)
      in if \<not> event_desc_is_valid desc then (OPRT_BASE_EVENT_INVALID_EVENT_DESC, m)
         else if \<not> event_name_is_valid name then (OPRT_BASE_EVENT_INVALID_EVENT_NAME, m)
         else (let s = \<lparr>s_name = the name, s_desc = the desc, s_type = 0, s_cb = cb\<rparr>
               in case event_node_get (the name) m of
                    None \<Rightarrow> event_node_del_free_subscribe s m
                  | Some ev \<Rightarrow>
                      (case event_node_del_subscribe ev s of (rt, ev') \<Rightarrow>
                         (rt, m\<lparr>event_root := store_event ev' (event_root m)\<rparr>))))"

section \<open>The subscriptions of an event\<close>

text \<open>
  What a publication of \<open>n\<close> will call: the subscribers of the event node, or, before the event exists,
  those it will adopt from the free list.
\<close>

definition event_subs :: "event_manage \<Rightarrow> string \<Rightarrow> subscribe_node list" where
  "event_subs m n = (case event_node_get n m of
      Some ev \<Rightarrow> subscribe_root ev
    | None \<Rightarrow> snd (adopt_free n (free_subscribe_root m) []))"

definition emergency_first :: "subscribe_node list \<Rightarrow> bool" where
  "emergency_first = sorted_wrt (\<lambda>a b. s_type b = SUBSCRIBE_TYPE_EMERGENCY \<longrightarrow> s_type a = SUBSCRIBE_TYPE_EMERGENCY)"

abbreviation sub_key :: "subscribe_node \<Rightarrow> string \<times> nat option" where
  "sub_key s \<equiv> (s_desc s, s_cb s)"

definition subs_ok :: "string \<Rightarrow> subscribe_node list \<Rightarrow> bool" where
  "subs_ok n subs \<longleftrightarrow> list_all (\<lambda>s. s_name s = n) subs \<and> distinct (map sub_key subs) \<and> emergency_first subs"

definition event_inv :: "event_manage \<Rightarrow> bool" where
  "event_inv m \<longleftrightarrow> ev_inited m \<and> event_cnt m = length (event_root m)
     \<and> distinct (map ev_name (event_root m))
     \<and> list_all (\<lambda>e. subs_ok (ev_name e) (subscribe_root e)) (event_root m)
     \<and> list_all (\<lambda>s. s_name s \<notin> ev_name ` set (event_root m)) (free_subscribe_root m)
     \<and> distinct (map (\<lambda>s. (s_name s, sub_key s)) (free_subscribe_root m))"

definition add_unique :: "subscribe_node \<Rightarrow> subscribe_node list \<Rightarrow> subscribe_node list" where
  "add_unique s subs = (if list_ex (same_subscribe s) subs then subs else link_subscribe s subs)"

lemma set_link [simp]: "set (link_subscribe s subs) = insert s (set subs)"
  by (auto simp: link_subscribe_def)

lemma distinct_link: "distinct (map f (link_subscribe s subs)) \<longleftrightarrow> distinct (map f (s # subs))"
  by (auto simp: link_subscribe_def)

lemma emergency_first_Nil [simp]: "emergency_first []"
  by (simp add: emergency_first_def)

lemma emergency_first_link: "emergency_first subs \<Longrightarrow> emergency_first (link_subscribe s subs)"
  by (auto simp: emergency_first_def link_subscribe_def sorted_wrt_append)

lemma emergency_first_filter: "emergency_first subs \<Longrightarrow> emergency_first (filter P subs)"
  unfolding emergency_first_def by (rule sorted_wrt_filter)

lemma filter_link: "filter P (link_subscribe s subs) = (if P s then link_subscribe s (filter P subs) else filter P subs)"
  by (auto simp: link_subscribe_def)

lemma adopt_free_eq:
  "adopt_free n xs subs =
     (filter (\<lambda>x. s_name x \<noteq> n) xs, fold link_subscribe (filter (\<lambda>x. s_name x = n) xs) subs)"
  by (induction xs arbitrary: subs) auto

lemma set_fold_link: "set (fold link_subscribe xs subs) = set xs \<union> set subs"
  by (induction xs arbitrary: subs) auto

lemma distinct_fold_link:
  "distinct (map f (fold link_subscribe xs subs)) \<longleftrightarrow> distinct (map f (xs @ subs))"
  by (induction xs arbitrary: subs) (auto simp: distinct_link)

lemma emergency_first_fold: "emergency_first subs \<Longrightarrow> emergency_first (fold link_subscribe xs subs)"
  by (induction xs arbitrary: subs) (auto intro: emergency_first_link)

lemma filter_fold_link: "filter P (fold link_subscribe xs subs) = fold link_subscribe (filter P xs) (filter P subs)"
  by (induction xs arbitrary: subs) (auto simp: filter_link)

lemma distinct_keys_filter: "distinct (map f xs) \<Longrightarrow> distinct (map f (filter P xs))"
  by (simp add: distinct_map inj_on_def)

lemma adopt_subs_ok:
  assumes "event_inv m"
  shows "subs_ok n (snd (adopt_free n (free_subscribe_root m) []))"
proof -
  let ?f = "filter (\<lambda>x. s_name x = n) (free_subscribe_root m)"
  have "distinct (map (\<lambda>s. (s_name s, sub_key s)) ?f)"
    using assms by (intro distinct_keys_filter) (simp add: event_inv_def)
  then have "distinct (map sub_key ?f)" by (auto simp: distinct_map inj_on_def)
  then show ?thesis
    by (auto simp: subs_ok_def adopt_free_eq list_all_iff set_fold_link distinct_fold_link
        intro!: emergency_first_fold)
qed

lemma event_node_get_some:
  "event_node_get n m = Some ev \<Longrightarrow> ev \<in> set (event_root m) \<and> ev_name ev = n"
  by (auto simp: event_node_get_def find_Some_iff)

lemma event_node_get_none: "event_node_get n m = None \<longleftrightarrow> n \<notin> ev_name ` set (event_root m)"
  by (auto simp: event_node_get_def find_None_iff)

lemma event_node_get_free [simp]: "event_node_get k (m\<lparr>free_subscribe_root := fs\<rparr>) = event_node_get k m"
  by (simp add: event_node_get_def)

lemma event_subs_ok: "event_inv m \<Longrightarrow> subs_ok n (event_subs m n)"
  using adopt_subs_ok [of m n]
  by (auto simp: event_subs_def event_inv_def list_all_iff split: option.split dest: event_node_get_some)

text \<open>Changing an event node in place.\<close>

lemma map_name_store [simp]: "map ev_name (store_event ev xs) = map ev_name xs"
  by (induction xs) auto

lemma names_store: "ev_name ` set (store_event ev xs) = ev_name ` set xs"
  by (metis list.set_map map_name_store)

lemma length_store [simp]: "length (store_event ev xs) = length xs"
  by (induction xs) auto

lemma set_store: "set (store_event ev xs) \<subseteq> insert ev (set xs)"
  by (induction xs) auto

lemma find_store:
  "find (\<lambda>e. ev_name e = n) (store_event ev xs) =
     (if n = ev_name ev \<and> ev_name ev \<in> ev_name ` set xs then Some ev else find (\<lambda>e. ev_name e = n) xs)"
  by (induction xs) (auto simp: find_None_iff)

lemma store_subs:
  assumes inv: "event_inv m" and ev: "ev_name ev \<in> ev_name ` set (event_root m)"
    and ok: "subs_ok (ev_name ev) (subscribe_root ev)"
  shows "event_inv (m\<lparr>event_root := store_event ev (event_root m)\<rparr>)"
    and "event_subs (m\<lparr>event_root := store_event ev (event_root m)\<rparr>) n =
      (if n = ev_name ev then subscribe_root ev else event_subs m n)"
  using inv ev ok set_store [of ev "event_root m"]
  by (auto simp: event_inv_def names_store list_all_iff event_subs_def event_node_get_def find_store
      split: option.split)

section \<open>The operations through the abstraction\<close>

lemma subs_ok_add: "subs_ok n subs \<Longrightarrow> s_name s = n \<Longrightarrow> subs_ok n (add_unique s subs)"
  by (auto simp: subs_ok_def add_unique_def list_all_iff list_ex_iff same_subscribe_def distinct_link
      intro: emergency_first_link)

lemma subs_ok_filter: "subs_ok n subs \<Longrightarrow> subs_ok n (filter P subs)"
  by (auto simp: subs_ok_def list_all_iff intro: emergency_first_filter distinct_keys_filter)

lemma find_none_ex: "find P xs = None \<longleftrightarrow> \<not> list_ex P xs"
  by (induction xs) auto

lemma remove_first_filter:
  "distinct (map f xs) \<Longrightarrow> (\<And>x. P x \<longleftrightarrow> f x = k) \<Longrightarrow> remove_first P xs = filter (\<lambda>x. \<not> P x) xs"
proof (induction xs)
  case (Cons x xs)
  show ?case
  proof (cases "P x")
    case True
    then have "\<forall>y\<in>set xs. \<not> P y" using Cons.prems by (auto simp: image_iff)
    with True show ?thesis by (simp add: filter_True)
  next
    case False
    with Cons show ?thesis by simp
  qed
qed simp

lemma add_free_subs:
  assumes inv: "event_inv m" and new: "event_node_get (s_name s) m = None"
    and r: "event_node_add_free_subscribe s True m = (rt, m')"
  shows "event_inv m' \<and> event_subs m' n = (if n = s_name s then add_unique s (event_subs m n) else event_subs m n)"
proof (cases "event_node_get_free_subscribe s m")
  case None
  then have m': "m' = m\<lparr>free_subscribe_root := free_subscribe_root m @ [s]\<rparr>"
    using r by (simp add: event_node_add_free_subscribe_def)
  have ns: "\<not> list_ex (same_free_subscribe s) (free_subscribe_root m)"
    using None by (simp add: event_node_get_free_subscribe_def find_none_ex)
  have "event_inv m'"
    using inv new ns by (auto simp: m' event_inv_def event_node_get_none list_ex_iff same_free_subscribe_def)
  moreover have "event_subs m' n = (if n = s_name s then add_unique s (event_subs m n) else event_subs m n)"
    using ns new by (auto simp: event_subs_def m' adopt_free_eq add_unique_def list_ex_iff set_fold_link
        same_subscribe_def same_free_subscribe_def split: option.split)
  ultimately show ?thesis ..
next
  case (Some e)
  then have "m' = m" "list_ex (same_free_subscribe s) (free_subscribe_root m)"
    using r find_none_ex [of "same_free_subscribe s" "free_subscribe_root m"]
    by (auto simp: event_node_add_free_subscribe_def event_node_get_free_subscribe_def)
  then show ?thesis using inv new
    by (auto simp: event_subs_def add_unique_def list_ex_iff adopt_free_eq set_fold_link
        same_subscribe_def same_free_subscribe_def)
qed

lemma add_subscribe_subs:
  assumes "event_node_add_subscribe ev s True = (rt, ev')"
  shows "ev_name ev' = ev_name ev \<and> subscribe_root ev' = add_unique s (subscribe_root ev)"
  using assms find_none_ex [of "same_subscribe s" "subscribe_root ev"]
  by (auto simp: event_node_add_subscribe_def event_node_get_subscribe_def add_unique_def split: option.splits)

lemma del_subscribe_subs:
  assumes "distinct (map sub_key (subscribe_root ev))" "event_node_del_subscribe ev s = (rt, ev')"
  shows "ev_name ev' = ev_name ev \<and> subscribe_root ev' = filter (\<lambda>e. \<not> same_subscribe s e) (subscribe_root ev)"
proof -
  have "remove_first (same_subscribe s) (subscribe_root ev) = filter (\<lambda>e. \<not> same_subscribe s e) (subscribe_root ev)"
    by (rule remove_first_filter [OF assms(1), where k = "sub_key s"]) (auto simp: same_subscribe_def)
  with assms(2) show ?thesis
    by (auto simp: event_node_del_subscribe_def event_node_get_subscribe_def find_None_iff
        intro!: filter_True [symmetric] split: option.splits)
qed

lemma del_free_subs:
  assumes inv: "event_inv m" and new: "event_node_get (s_name s) m = None"
    and r: "event_node_del_free_subscribe s m = (rt, m')"
  shows "event_inv m' \<and> event_subs m' n =
    (if n = s_name s then filter (\<lambda>e. \<not> same_subscribe s e) (event_subs m n) else event_subs m n)"
proof -
  have "distinct (map (\<lambda>s. (s_name s, sub_key s)) (free_subscribe_root m))" using inv by (simp add: event_inv_def)
  then have rf: "remove_first (same_free_subscribe s) (free_subscribe_root m)
      = filter (\<lambda>e. \<not> same_free_subscribe s e) (free_subscribe_root m)"
    by (rule remove_first_filter [where k = "(s_name s, sub_key s)"]) (auto simp: same_free_subscribe_def)
  have m': "m' = m\<lparr>free_subscribe_root := filter (\<lambda>e. \<not> same_free_subscribe s e) (free_subscribe_root m)\<rparr>"
  proof (cases "event_node_get_free_subscribe s m")
    case None
    then have "filter (\<lambda>e. \<not> same_free_subscribe s e) (free_subscribe_root m) = free_subscribe_root m"
      by (auto simp: event_node_get_free_subscribe_def find_None_iff)
    with None r show ?thesis by (simp add: event_node_del_free_subscribe_def)
  next
    case (Some e)
    with r rf show ?thesis by (simp add: event_node_del_free_subscribe_def)
  qed
  have "event_inv m'"
    using inv by (auto simp: m' event_inv_def list_all_iff intro: distinct_keys_filter)
  moreover have "event_subs m' n =
      (if n = s_name s then filter (\<lambda>e. \<not> same_subscribe s e) (event_subs m n) else event_subs m n)"
  proof -
    let ?N = "\<lambda>k. filter (\<lambda>x. s_name x = k) (free_subscribe_root m)"
    have "filter (\<lambda>x. \<not> same_free_subscribe s x \<and> s_name x = n) (free_subscribe_root m)
        = (if n = s_name s then filter (\<lambda>e. \<not> same_subscribe s e) (?N n) else ?N n)"
      by (auto simp: same_free_subscribe_def same_subscribe_def intro!: filter_cong)
    then show ?thesis using new
      by (auto simp: event_subs_def m' adopt_free_eq filter_fold_link split: option.split)
  qed
  ultimately show ?thesis ..
qed

lemma dispatch_keeps: "fst (snd (dispatch_loop run subs rt s)) = filter (\<lambda>e. s_type e \<noteq> SUBSCRIBE_TYPE_ONETIME) subs"
  by (induction subs arbitrary: rt s) (auto simp: case_prod_beta)

lemma find_snoc: "find P (xs @ [y]) = (case find P xs of None \<Rightarrow> if P y then Some y else None | Some x \<Rightarrow> Some x)"
  by (induction xs) auto

lemma subscribe_eta [simp]: "\<lparr>s_name = s_name s, s_desc = s_desc s, s_type = s_type s, s_cb = s_cb s\<rparr> = s"
  by (cases s) simp

lemma create_subs:
  assumes inv: "event_inv m" and new: "event_node_get n m = None"
    and r: "event_node_create_init n True m = (ev', m')"
  shows "event_inv m' \<and> ev' = event_node_get n m' \<and> ev' \<noteq> None \<and> event_subs m' k = event_subs m k"
proof -
  define ev where "ev = \<lparr>ev_name = n, subscribe_root = event_subs m n\<rparr>"
  have m': "ev' = Some ev" "m' = m\<lparr>free_subscribe_root := filter (\<lambda>x. s_name x \<noteq> n) (free_subscribe_root m),
      event_root := event_root m @ [ev], event_cnt := event_cnt m + 1\<rparr>"
    using r new by (auto simp: event_node_create_init_def adopt_free_eq ev_def event_subs_def Let_def)
  have get: "event_node_get k m' = (if k = n then Some ev else event_node_get k m)" for k
    using new by (auto simp: m' event_node_get_def ev_def find_snoc split: option.split)
  have "event_inv m'"
    using inv new event_subs_ok [OF inv, of n]
    by (auto simp: m' event_inv_def event_node_get_none ev_def list_all_iff intro: distinct_keys_filter)
  moreover have "event_subs m' k = event_subs m k"
  proof (cases "k = n")
    case True
    then show ?thesis by (simp add: event_subs_def [of m'] get ev_def)
  next
    case False
    then have "filter (\<lambda>x. s_name x = k) (free_subscribe_root m') = filter (\<lambda>x. s_name x = k) (free_subscribe_root m)"
      by (auto simp: m' intro!: filter_cong)
    with False show ?thesis by (simp add: event_subs_def get adopt_free_eq split: option.split)
  qed
  ultimately show ?thesis using m'(1) get [of n] by simp
qed

text \<open>The three calls on an initialised manager, with memory available.\<close>

lemma subscribe_subs:
  assumes inv: "event_inv m" and v: "event_name_is_valid (Some nm)" "event_desc_is_valid (Some d)"
    and r: "tal_event_subscribe (Some nm) (Some d) cb typ True m = (rt, m')"
  shows "event_inv m' \<and> event_subs m' n = (if n = nm
    then add_unique \<lparr>s_name = nm, s_desc = d, s_type = typ, s_cb = cb\<rparr> (event_subs m n) else event_subs m n)"
proof -
  let ?s = "\<lparr>s_name = nm, s_desc = d, s_type = typ, s_cb = cb\<rparr>"
  have i: "ev_inited m" using inv by (simp add: event_inv_def)
  show ?thesis
  proof (cases "event_node_get nm m")
    case None
    then show ?thesis using add_free_subs [OF inv, of ?s rt m' n] r v i
      by (simp add: tal_event_subscribe_def)
  next
    case (Some ev)
    from event_node_get_some [OF Some] have ev: "ev \<in> set (event_root m)" "ev_name ev = nm" by auto
    obtain ev' where a: "event_node_add_subscribe ev ?s True = (rt, ev')"
      and m': "m' = m\<lparr>event_root := store_event ev' (event_root m)\<rparr>"
      using r v i Some by (auto simp: tal_event_subscribe_def split: prod.splits)
    note e = add_subscribe_subs [OF a]
    have "subs_ok nm (event_subs m nm)" by (rule event_subs_ok [OF inv])
    then have "subs_ok (ev_name ev') (subscribe_root ev')"
      using subs_ok_add [of nm "event_subs m nm" ?s] e ev Some by (simp add: event_subs_def)
    from store_subs(1) [OF inv _ this] store_subs(2) [OF inv _ this, of n] show ?thesis
      using ev e Some m' by (auto simp: event_subs_def)
  qed
qed

lemma unsubscribe_subs:
  assumes inv: "event_inv m" and v: "event_name_is_valid (Some nm)" "event_desc_is_valid (Some d)"
    and r: "tal_event_unsubscribe (Some nm) (Some d) cb m = (rt, m')"
  shows "event_inv m' \<and> event_subs m' n = (if n = nm
    then filter (\<lambda>e. sub_key e \<noteq> (d, cb)) (event_subs m n) else event_subs m n)"
proof -
  let ?s = "\<lparr>s_name = nm, s_desc = d, s_type = 0, s_cb = cb\<rparr>"
  have i: "ev_inited m" using inv by (simp add: event_inv_def)
  have key: "same_subscribe ?s e \<longleftrightarrow> sub_key e = (d, cb)" for e by (auto simp: same_subscribe_def)
  show ?thesis
  proof (cases "event_node_get nm m")
    case None
    then show ?thesis using del_free_subs [OF inv, of ?s rt m' n] r v i
      by (simp add: tal_event_unsubscribe_def key)
  next
    case (Some ev)
    from event_node_get_some [OF Some] have ev: "ev \<in> set (event_root m)" "ev_name ev = nm" by auto
    obtain ev' where a: "event_node_del_subscribe ev ?s = (rt, ev')"
      and m': "m' = m\<lparr>event_root := store_event ev' (event_root m)\<rparr>"
      using r v i Some by (auto simp: tal_event_unsubscribe_def split: prod.splits)
    have ok: "subs_ok nm (subscribe_root ev)" using event_subs_ok [OF inv, of nm] Some by (simp add: event_subs_def)
    then have e: "ev_name ev' = ev_name ev"
      "subscribe_root ev' = filter (\<lambda>e. sub_key e \<noteq> (d, cb)) (subscribe_root ev)"
      using del_subscribe_subs [OF _ a] by (auto simp: subs_ok_def key)
    have "subs_ok (ev_name ev') (subscribe_root ev')" using ok e ev by (simp add: subs_ok_filter)
    from store_subs(1) [OF inv _ this] store_subs(2) [OF inv _ this, of n] show ?thesis
      using ev e Some m' by (auto simp: event_subs_def)
  qed
qed

lemma publish_subs:
  assumes inv: "event_inv m" and v: "event_name_is_valid (Some nm)"
    and r: "tal_event_publish run (Some nm) True m s = (rt, m', s')"
  shows "event_inv m' \<and> event_subs m' n = (if n = nm
    then filter (\<lambda>e. s_type e \<noteq> SUBSCRIBE_TYPE_ONETIME) (event_subs m n) else event_subs m n)"
    and "\<exists>subs. dispatch_loop run (event_subs m nm) OPRT_OK s = (rt, subs, s')"
proof -
  have i: "ev_inited m" using inv by (simp add: event_inv_def)
  obtain ev m1 where m1: "event_inv m1" "event_node_get nm m1 = Some ev" "\<And>k. event_subs m1 k = event_subs m k"
    and g: "(case event_node_get nm m of Some ev \<Rightarrow> (Some ev, m)
      | None \<Rightarrow> event_node_create_init nm True m) = (Some ev, m1)"
  proof (cases "event_node_get nm m")
    case None
    obtain o1 m1 where c: "event_node_create_init nm True m = (o1, m1)" by fastforce
    with create_subs [OF inv None c] None that show thesis by auto
  next
    case (Some ev)
    with inv that show thesis by auto
  qed
  from event_node_get_some [OF m1(2)] have ev: "ev \<in> set (event_root m1)" "ev_name ev = nm" by auto
  have es: "event_subs m nm = subscribe_root ev"
    using m1(2) m1(3) [of nm, symmetric] by (simp add: event_subs_def [of m1])
  obtain subs where d: "dispatch_loop run (subscribe_root ev) OPRT_OK s = (rt, subs, s')"
    and m': "m' = m1\<lparr>event_root := store_event (ev\<lparr>subscribe_root := subs\<rparr>) (event_root m1)\<rparr>"
    using r unfolding tal_event_publish_def event_node_dispatch_def
    by (simp only: Let_def i v not_True_eq_False if_False option.sel g prod.case option.case)
      (auto split: prod.splits)
  then show "\<exists>subs. dispatch_loop run (event_subs m nm) OPRT_OK s = (rt, subs, s')" using es by simp
  have k: "subs = filter (\<lambda>e. s_type e \<noteq> SUBSCRIBE_TYPE_ONETIME) (subscribe_root ev)"
    using d dispatch_keeps [of run "subscribe_root ev" OPRT_OK s] by simp
  have "subs_ok nm subs" using event_subs_ok [OF inv, of nm] es k by (simp add: subs_ok_filter)
  then show "event_inv m' \<and> event_subs m' n = (if n = nm
    then filter (\<lambda>e. s_type e \<noteq> SUBSCRIBE_TYPE_ONETIME) (event_subs m n) else event_subs m n)"
    using store_subs(1) [OF m1(1), of "ev\<lparr>subscribe_root := subs\<rparr>"]
      store_subs(2) [OF m1(1), of "ev\<lparr>subscribe_root := subs\<rparr>" n] ev m' m1(3) es k by auto
qed

section \<open>The contract of the event manager\<close>

locale event_bus =
  fixes invar :: "'m \<Rightarrow> bool"
    and subs :: "'m \<Rightarrow> string \<Rightarrow> subscribe_node list"
    and valid :: "subscribe_node \<Rightarrow> bool"
    and subscribe :: "subscribe_node \<Rightarrow> 'm \<Rightarrow> 'm"
    and unsubscribe :: "subscribe_node \<Rightarrow> 'm \<Rightarrow> 'm"
    and publish :: "string \<Rightarrow> 'm \<Rightarrow> 'm"
  assumes subs_wf: "invar m \<Longrightarrow> subs_ok n (subs m n)"
    and subscribe_law: "invar m \<Longrightarrow> valid s \<Longrightarrow> invar (subscribe s m)
      \<and> subs (subscribe s m) n = (if n = s_name s then add_unique s (subs m n) else subs m n)"
    and unsubscribe_law: "invar m \<Longrightarrow> valid s \<Longrightarrow> invar (unsubscribe s m)
      \<and> subs (unsubscribe s m) n = (if n = s_name s then filter (\<lambda>e. sub_key e \<noteq> sub_key s) (subs m n) else subs m n)"
    and publish_law: "invar m \<Longrightarrow> valid s \<Longrightarrow> invar (publish (s_name s) m)
      \<and> subs (publish (s_name s) m) n =
        (if n = s_name s then filter (\<lambda>e. s_type e \<noteq> SUBSCRIBE_TYPE_ONETIME) (subs m n) else subs m n)"
begin

lemma subscribe_twice:
  "invar m \<Longrightarrow> valid s \<Longrightarrow> subs (subscribe s (subscribe s m)) n = subs (subscribe s m) n"
  using subscribe_law [of m s] subscribe_law [of "subscribe s m" s]
  by (auto simp: add_unique_def list_ex_iff same_subscribe_def)

lemma subscribe_unsubscribe:
  assumes "invar m" "valid s" "sub_key s \<notin> sub_key ` set (subs m (s_name s))"
  shows "subs (unsubscribe s (subscribe s m)) n = subs m n"
proof -
  have "filter (\<lambda>e. sub_key e \<noteq> sub_key s) (subs m (s_name s)) = subs m (s_name s)"
    using assms(3) by (intro filter_True) (auto simp: image_iff)
  then show ?thesis
    using assms subscribe_law [of m s n] unsubscribe_law [of "subscribe s m" s n]
    by (auto simp: add_unique_def filter_link)
qed

lemma publish_drops_onetime:
  "invar m \<Longrightarrow> valid s \<Longrightarrow>
     subs (publish (s_name s) (publish (s_name s) m)) n = subs (publish (s_name s) m) n"
  using publish_law [of m s] publish_law [of "publish (s_name s) m" s] by auto

lemma subscribe_all:
  assumes "invar m" "list_all (\<lambda>s. valid s \<and> s_name s = n) ss" "distinct (map sub_key (ss @ subs m n))"
  shows "invar (fold subscribe ss m) \<and> subs (fold subscribe ss m) n = fold link_subscribe ss (subs m n)"
  using assms
proof (induction ss arbitrary: m)
  case (Cons s ss)
  then have s: "invar (subscribe s m)" "subs (subscribe s m) n = link_subscribe s (subs m n)"
    using subscribe_law [of m s n] by (auto simp: add_unique_def list_ex_iff same_subscribe_def image_iff)
  have "distinct (map sub_key (ss @ subs (subscribe s m) n))"
    using Cons.prems(3) by (auto simp: s distinct_link)
  with Cons.IH [OF s(1)] Cons.prems(2) s(2) show ?case by simp
qed simp

end

definition bus_valid :: "subscribe_node \<Rightarrow> bool" where
  "bus_valid s \<longleftrightarrow> event_name_is_valid (Some (s_name s)) \<and> event_desc_is_valid (Some (s_desc s))"

definition bus_subscribe :: "subscribe_node \<Rightarrow> event_manage \<Rightarrow> event_manage" where
  "bus_subscribe s m = snd (tal_event_subscribe (Some (s_name s)) (Some (s_desc s)) (s_cb s) (s_type s) True m)"

definition bus_unsubscribe :: "subscribe_node \<Rightarrow> event_manage \<Rightarrow> event_manage" where
  "bus_unsubscribe s m = snd (tal_event_unsubscribe (Some (s_name s)) (Some (s_desc s)) (s_cb s) m)"

definition bus_publish :: "string \<Rightarrow> event_manage \<Rightarrow> event_manage" where
  "bus_publish n m = fst (snd (tal_event_publish (\<lambda>_ s. (OPRT_OK, s)) (Some n) True m ()))"

interpretation bus: event_bus event_inv event_subs bus_valid bus_subscribe bus_unsubscribe bus_publish
proof unfold_locales
  fix m n s
  assume inv: "event_inv m"
  show "subs_ok n (event_subs m n)" by (rule event_subs_ok [OF inv])
  assume v: "bus_valid s"
  show "event_inv (bus_subscribe s m) \<and> event_subs (bus_subscribe s m) n
      = (if n = s_name s then add_unique s (event_subs m n) else event_subs m n)"
    using subscribe_subs [OF inv, of "s_name s" "s_desc s" "s_cb s" "s_type s" _ "bus_subscribe s m" n] v
    by (cases "tal_event_subscribe (Some (s_name s)) (Some (s_desc s)) (s_cb s) (s_type s) True m")
      (auto simp: bus_valid_def bus_subscribe_def)
  show "event_inv (bus_unsubscribe s m) \<and> event_subs (bus_unsubscribe s m) n
      = (if n = s_name s then filter (\<lambda>e. sub_key e \<noteq> sub_key s) (event_subs m n) else event_subs m n)"
    using unsubscribe_subs [OF inv, of "s_name s" "s_desc s" "s_cb s" _ "bus_unsubscribe s m" n] v
    by (cases "tal_event_unsubscribe (Some (s_name s)) (Some (s_desc s)) (s_cb s) m")
      (auto simp: bus_valid_def bus_unsubscribe_def)
  show "event_inv (bus_publish (s_name s) m) \<and> event_subs (bus_publish (s_name s) m) n
      = (if n = s_name s then filter (\<lambda>e. s_type e \<noteq> SUBSCRIBE_TYPE_ONETIME) (event_subs m n) else event_subs m n)"
    using publish_subs(1) [OF inv, of "s_name s" "\<lambda>_ s. (OPRT_OK, s)" "()" _ "bus_publish (s_name s) m" _ n] v
    by (cases "tal_event_publish (\<lambda>_ s. (OPRT_OK, s)) (Some (s_name s)) True m ()")
      (auto simp: bus_valid_def bus_publish_def)
qed

section \<open>Properties\<close>

lemma fold_link_split:
  "fold link_subscribe ss subs = rev (filter (\<lambda>s. s_type s = SUBSCRIBE_TYPE_EMERGENCY) ss) @ subs
     @ filter (\<lambda>s. s_type s \<noteq> SUBSCRIBE_TYPE_EMERGENCY) ss"
  by (induction ss arbitrary: subs) (auto simp: link_subscribe_def)

lemma dispatch_loop_log:
  "dispatch_loop (\<lambda>cb log. (ret cb, log @ [cb])) subs rt log =
     (last (rt # map ret (List.map_filter s_cb subs)),
      filter (\<lambda>e. s_type e \<noteq> SUBSCRIBE_TYPE_ONETIME) subs, log @ List.map_filter s_cb subs)"
  by (induction subs arbitrary: rt log) (auto simp: List.map_filter_simps split: option.splits)

text \<open>
  C32. A publication calls the callbacks of the event's subscriptions in order, each once and whether or not an earlier one has failed, whether the
  event existed or its subscriptions waited on the free list; it returns success when every callback does; and it
  drops exactly the one-time subscriptions of that event. \<open>ret\<close> gives the result of each callback.
\<close>

theorem event_publish_calls:
  assumes "event_inv m" and "event_name_is_valid (Some nm)"
    and "tal_event_publish (\<lambda>cb log. (ret cb, log @ [cb])) (Some nm) True m [] = (rt, m', log)"
  shows "log = List.map_filter s_cb (event_subs m nm)
    \<and> ((\<forall>cb \<in> set log. ret cb = OPRT_OK) \<longrightarrow> rt = OPRT_OK)
    \<and> event_subs m' nm = filter (\<lambda>e. s_type e \<noteq> SUBSCRIBE_TYPE_ONETIME) (event_subs m nm)
    \<and> (\<forall>k. k \<noteq> nm \<longrightarrow> event_subs m' k = event_subs m k) \<and> event_inv m'"
proof -
  have l: "log = List.map_filter s_cb (event_subs m nm)" "rt = last (OPRT_OK # map ret log)"
    using publish_subs(2) [OF assms] by (auto simp: dispatch_loop_log)
  have "rt = OPRT_OK" if "\<forall>cb \<in> set log. ret cb = OPRT_OK" using that unfolding l(2) by (cases log rule: rev_cases) auto
  then show ?thesis using publish_subs(1) [OF assms] l(1) by auto
qed

definition event_manage0 :: event_manage where
  "event_manage0 = \<lparr>ev_inited = True, event_cnt = 0, event_root = [], free_subscribe_root = []\<rparr>"

lemma event_manage0_inv: "event_inv event_manage0"
  by (simp add: event_manage0_def event_inv_def)

lemma event_manage0_subs: "event_subs event_manage0 n = []"
  by (simp add: event_manage0_def event_subs_def event_node_get_def)

definition event_demo :: event_manage where
  "event_demo = event_manage0\<lparr>free_subscribe_root :=
     [\<lparr>s_name = ''net'', s_desc = ''a'', s_type = 0, s_cb = Some 1\<rparr>,
      \<lparr>s_name = ''net'', s_desc = ''b'', s_type = 1, s_cb = Some 2\<rparr>,
      \<lparr>s_name = ''net'', s_desc = ''c'', s_type = 2, s_cb = Some 3\<rparr>]\<rparr>"

lemma event_demo_facts:
  "event_inv event_demo" "List.map_filter s_cb (event_subs event_demo ''net'') = [2, 1, 3]" "event_name_is_valid (Some ''net'')"
  by (simp_all add: event_demo_def event_manage0_def event_inv_def event_subs_def event_node_get_def link_subscribe_def
      List.map_filter_simps event_name_is_valid_def)

lemma event_publish_calls_witness:
  "\<exists>m' rt. tal_event_publish (\<lambda>cb log. (if cb = 2 then OPRT_COM_ERROR else OPRT_OK, log @ [cb])) (Some ''net'') True event_demo [] = (rt, m', [2, 1, 3])"
proof -
  obtain rt m' log where r: "tal_event_publish (\<lambda>cb log. (if cb = 2 then OPRT_COM_ERROR else OPRT_OK, log @ [cb]))
     (Some ''net'') True event_demo [] = (rt, m', log)" by (cases rule: prod_cases3)
  from event_publish_calls [OF event_demo_facts(1,3) r] event_demo_facts(2) r show ?thesis by auto
qed

text \<open>
  The result of a publication is that of its last callback. The comments of the function promise a failure whenever a subscriber fails: here the first of three
  fails, the last does not, and the publication reports success.
\<close>

theorem event_failure_lost:
  assumes "event_inv m" "event_name_is_valid (Some nm)"
    and "tal_event_publish (\<lambda>cb log. (ret cb, log @ [cb])) (Some nm) True m [] = (rt, m', log)"
  shows "rt = last (OPRT_OK # map ret log)"
  using publish_subs(2) [OF assms] by (auto simp: dispatch_loop_log)

theorem event_failure_lost_witness:
  "\<exists>m'. tal_event_publish (\<lambda>cb log. (if cb = 2 then OPRT_COM_ERROR else OPRT_OK, log @ [cb])) (Some ''net'') True event_demo [] = (OPRT_OK, m', [2, 1, 3])"
proof -
  obtain rt m' log where r: "tal_event_publish (\<lambda>cb log. (if cb = 2 then OPRT_COM_ERROR else OPRT_OK, log @ [cb]))
     (Some ''net'') True event_demo [] = (rt, m', log)" by (cases rule: prod_cases3)
  have "log = [2, 1, 3]" using publish_subs(2) [OF event_demo_facts(1,3) r] event_demo_facts(2) by (auto simp: dispatch_loop_log)
  with event_failure_lost [OF event_demo_facts(1,3) r] r show ?thesis by auto
qed

text \<open>
  The order of the calls: after any sequence of subscriptions to one event (with distinct
  description and callback, by a manager that has no event and no subscription yet), a publication
  calls the emergency subscriptions, the latest first, and then the others in the order of
  subscription.
\<close>

theorem event_subscribe_order:
  assumes "list_all (\<lambda>s. bus_valid s \<and> s_name s = n) ss" and "distinct (map sub_key ss)"
  shows "event_subs (fold bus_subscribe ss event_manage0) n
    = rev (filter (\<lambda>s. s_type s = SUBSCRIBE_TYPE_EMERGENCY) ss) @ filter (\<lambda>s. s_type s \<noteq> SUBSCRIBE_TYPE_EMERGENCY) ss"
  using bus.subscribe_all [OF event_manage0_inv, of n ss] assms
  by (simp add: event_manage0_subs fold_link_split)

lemma event_subscribe_order_witness:
  "event_subs (fold bus_subscribe (free_subscribe_root event_demo) event_manage0) ''net''
    = [\<lparr>s_name = ''net'', s_desc = ''b'', s_type = 1, s_cb = Some 2\<rparr>,
       \<lparr>s_name = ''net'', s_desc = ''a'', s_type = 0, s_cb = Some 1\<rparr>,
       \<lparr>s_name = ''net'', s_desc = ''c'', s_type = 2, s_cb = Some 3\<rparr>]"
  using event_subscribe_order [of "''net''" "free_subscribe_root event_demo"]
  by (simp add: event_demo_def event_manage0_def bus_valid_def event_name_is_valid_def event_desc_is_valid_def)

text \<open>
  Subscribing and unsubscribing again restores the subscriptions of every event, and a second
  identical subscription changes nothing.
\<close>

theorem event_subscribe_undo:
  assumes "event_inv m" and "bus_valid s"
  shows "event_subs (bus_subscribe s (bus_subscribe s m)) n = event_subs (bus_subscribe s m) n
    \<and> (sub_key s \<notin> sub_key ` set (event_subs m (s_name s)) \<longrightarrow>
        event_subs (bus_unsubscribe s (bus_subscribe s m)) n = event_subs m n)"
  using bus.subscribe_twice [OF assms] bus.subscribe_unsubscribe [OF assms] by blast

lemma event_subscribe_undo_witness:
  "event_subs (bus_unsubscribe \<lparr>s_name = ''net'', s_desc = ''d'', s_type = 1, s_cb = Some 4\<rparr>
     (bus_subscribe \<lparr>s_name = ''net'', s_desc = ''d'', s_type = 1, s_cb = Some 4\<rparr> event_manage0)) ''net'' = []"
  using event_subscribe_undo [OF event_manage0_inv, of "\<lparr>s_name = ''net'', s_desc = ''d'', s_type = 1, s_cb = Some 4\<rparr>" "''net''"]
  by (simp add: bus_valid_def event_name_is_valid_def event_desc_is_valid_def event_manage0_subs)

end
