(* ===== verification/BubbleSort.thy ===== *)
theory BubbleSort
  imports Prelude "HOL-Library.Multiset"
begin

text \<open>
  The exchange sort that two components write out by hand (the median filter of the force sensor and
  \<^verbatim>\<open>byte_sort\<close> of the utilities): \<open>bubble_pass gt n xs\<close> is the inner loop over the first \<open>n\<close> neighbouring pairs,
  which swaps a pair \<open>(a, b)\<close> when \<open>gt a b\<close>; \<open>bubble_sort\<close> is the outer loop, each of whose passes compares
  one pair less. The locale \<open>exchange_order\<close> states what the comparison must satisfy.
\<close>

fun bubble_pass :: "('a \<Rightarrow> 'a \<Rightarrow> bool) \<Rightarrow> nat \<Rightarrow> 'a list \<Rightarrow> 'a list" where
  "bubble_pass gt (Suc n) (a # b # xs) =
     (if gt a b then b # bubble_pass gt n (a # xs) else a # bubble_pass gt n (b # xs))"
| "bubble_pass gt n xs = xs"

fun bubble_sort :: "('a \<Rightarrow> 'a \<Rightarrow> bool) \<Rightarrow> nat \<Rightarrow> 'a list \<Rightarrow> 'a list" where
  "bubble_sort gt 0 xs = xs"
| "bubble_sort gt (Suc n) xs = bubble_sort gt n (bubble_pass gt (Suc n) xs)"

locale exchange_order =
  fixes gt :: "'a \<Rightarrow> 'a \<Rightarrow> bool"
    and le :: "'a \<Rightarrow> 'a \<Rightarrow> bool"
  assumes gt_le: "gt a b \<longleftrightarrow> \<not> le a b"
    and le_total: "le a b \<or> le b a"
    and le_trans: "le a b \<Longrightarrow> le b c \<Longrightarrow> le a c"
begin

lemma le_refl: "le a a"
  using le_total by blast

lemma bubble_pass_split:
  assumes "length xs = Suc n"
  shows "\<exists>us m. bubble_pass gt n (xs @ zs) = us @ m # zs \<and> length us = n
    \<and> mset (us @ [m]) = mset xs \<and> (\<forall>u\<in>set us. le u m)"
  using assms
proof (induction n arbitrary: xs)
  case 0
  then obtain x where "xs = [x]" by (cases xs) auto
  then show ?case by (intro exI [of _ "[]"] exI [of _ x]) simp
next
  case (Suc n)
  then obtain a b ys where xs: "xs = a # b # ys" by (cases xs; cases "tl xs") auto
  define lo hi where "lo = (if gt a b then b else a)" and "hi = (if gt a b then a else b)"
  have step: "bubble_pass gt (Suc n) (xs @ zs) = lo # bubble_pass gt n ((hi # ys) @ zs)"
    by (simp add: xs lo_def hi_def)
  have ms: "mset xs = mset (lo # hi # ys)" by (simp add: xs lo_def hi_def)
  have lohi: "le lo hi" using le_total [of a b] by (auto simp: lo_def hi_def gt_le)
  from Suc.IH [of "hi # ys"] Suc.prems xs obtain us m where
    r: "bubble_pass gt n ((hi # ys) @ zs) = us @ m # zs" "length us = n" "mset (us @ [m]) = mset (hi # ys)"
    "\<forall>u\<in>set us. le u m" by auto
  have "hi \<in> set (us @ [m])" using r(3) by (metis list.set_intros(1) set_mset_mset)
  then have "le lo m" using r(4) lohi by (auto intro: le_trans)
  with step ms r show ?case by (intro exI [of _ "lo # us"] exI [of _ m]) auto
qed

lemma bubble_sort_sorted:
  assumes "length xs = Suc n" "sorted_wrt le zs" "\<forall>x\<in>set xs. \<forall>z\<in>set zs. le x z"
  shows "sorted_wrt le (bubble_sort gt n (xs @ zs)) \<and> mset (bubble_sort gt n (xs @ zs)) = mset (xs @ zs)"
  using assms
proof (induction n arbitrary: xs zs)
  case 0
  then obtain x where "xs = [x]" by (cases xs) auto
  with 0 show ?case by simp
next
  case (Suc n)
  from bubble_pass_split [OF Suc.prems(1), of zs] obtain us m where
    r: "bubble_pass gt (Suc n) (xs @ zs) = us @ m # zs" "length us = Suc n" "mset (us @ [m]) = mset xs"
    "\<forall>u\<in>set us. le u m" by auto
  have set: "set (us @ [m]) = set xs" using r(3) by (metis set_mset_mset)
  then have "sorted_wrt le (m # zs)" "\<forall>x\<in>set us. \<forall>z\<in>set (m # zs). le x z" using Suc.prems r(4) by auto
  from Suc.IH [OF r(2) this] r show ?case by (simp add: r(3) [symmetric])
qed

lemma bubble_sort_correct:
  "sorted_wrt le (bubble_sort gt (length xs - 1) xs) \<and> mset (bubble_sort gt (length xs - 1) xs) = mset xs"
  using bubble_sort_sorted [of xs "length xs - 1" "[]"] by (cases xs) simp_all

end

interpretation ascending: exchange_order "\<lambda>a b :: 'a :: linorder. a > b" "\<lambda>a b. a \<le> b"
  by unfold_locales auto

interpretation descending: exchange_order "\<lambda>a b :: 'a :: linorder. a < b" "\<lambda>a b. a \<ge> b"
  by unfold_locales auto

end
