(* ===== verification/ForceSensor.thy ===== *)
theory ForceSensor
  imports BubbleSort Complex_Main "HOL-Library.Signed_Division" "HOL-Library.Monad_Syntax"
begin

text \<open>
  The force sensor of the boxing bag, \<^verbatim>\<open>apps/gk_bag/src/force_sensor.c\<close>: calibration, the median and moving
  average filters over a window of five samples, the computation of the point of impact, and the
  session statistics. The C code computes in \<^verbatim>\<open>float\<close>; the arithmetic is a record of operations
  \<open>'f float_ops\<close> that every definition takes, so that what is proved for all such records holds for the
  rounding arithmetic of the board, and \<open>real_ops\<close> is the exact instance. Hypotheses on the order of the
  values say that no operand is a NaN. One record stands for single and double precision. The hardware read is
  an argument of the operations, its result code and its six channels; the simulation that the source
  has in its place is modelled over the numbers drawn. The number of the next sample, \<^verbatim>\<open>history_index\<close>, is a signed
  32-bit word that nothing resets: it wraps around, and the remainder by five of a negative number is negative, so that the write of the sample leaves the array. That
  is the value \<open>None\<close> of a reading. The field \<^verbatim>\<open>residual\<close> of a
  hit point, which no code writes or reads, is left out.
\<close>

section \<open>Floating-point operations\<close>

record 'f float_ops =
  fadd :: "'f \<Rightarrow> 'f \<Rightarrow> 'f"
  fsub :: "'f \<Rightarrow> 'f \<Rightarrow> 'f"
  fmul :: "'f \<Rightarrow> 'f \<Rightarrow> 'f"
  fdiv :: "'f \<Rightarrow> 'f \<Rightarrow> 'f"
  fneg :: "'f \<Rightarrow> 'f"
  flt :: "'f \<Rightarrow> 'f \<Rightarrow> bool"
  fle :: "'f \<Rightarrow> 'f \<Rightarrow> bool"
  sqrtf :: "'f \<Rightarrow> 'f"
  fmaxf :: "'f \<Rightarrow> 'f \<Rightarrow> 'f"
  fminf :: "'f \<Rightarrow> 'f \<Rightarrow> 'f"
  cosf :: "'f \<Rightarrow> 'f"
  sinf :: "'f \<Rightarrow> 'f"
  flit :: "rat \<Rightarrow> 'f"
  of_int_f :: "int \<Rightarrow> 'f"
  to_int_f :: "'f \<Rightarrow> int"

definition real_ops :: "real float_ops" where
  "real_ops = \<lparr>fadd = (+), fsub = (-), fmul = (*), fdiv = (/), fneg = uminus, flt = (<), fle = (\<le>),
     sqrtf = sqrt, fmaxf = max, fminf = min, cosf = cos, sinf = sin, flit = of_rat, of_int_f = of_int,
     to_int_f = (\<lambda>x. if 0 \<le> x then \<lfloor>x\<rfloor> else \<lceil>x\<rceil>)\<rparr>"

section \<open>Model\<close>

record 'f force_data =
  fx :: 'f
  fy :: 'f
  fz :: 'f
  mx :: 'f
  my :: 'f
  mz :: 'f
  timestamp :: u32

record 'f hit_point =
  hit_x :: 'f
  hit_y :: 'f
  hit_force :: 'f
  hit_timestamp :: u32

text \<open>The twelve calibration numbers, offset and scale of the six channels in their order.\<close>

record 'f sensor_cal =
  offsets :: "'f list"
  scales :: "'f list"
  is_calibrated :: bool

record 'f sensor_state =
  last_data :: "'f force_data"
  filtered_data :: "'f force_data"
  is_initialized :: bool
  hit_count :: u32
  max_force_session :: 'f
  history :: "'f list list"
  smoothed_history :: "'f list list"
  history_index :: "32 word"
  history_count :: int

abbreviation FORCE_THRESHOLD :: rat where "FORCE_THRESHOLD \<equiv> 5"

definition zero_data :: "'f float_ops \<Rightarrow> 'f force_data" where
  "zero_data F = \<lparr>fx = flit F 0, fy = flit F 0, fz = flit F 0, mx = flit F 0, my = flit F 0, mz = flit F 0,
     timestamp = 0\<rparr>"

definition gk_sensor_init :: "'f float_ops \<Rightarrow> operate_ret \<times> 'f sensor_cal \<times> 'f sensor_state" where
  "gk_sensor_init F =
     (OPRT_OK,
      \<lparr>offsets = [flit F 0, flit F 0, flit F (981 / 100), flit F 0, flit F 0, flit F 0],
       scales = replicate 6 (flit F 1), is_calibrated = True\<rparr>,
      \<lparr>last_data = zero_data F, filtered_data = zero_data F, is_initialized = True, hit_count = 0,
       max_force_session = flit F 0, history = replicate 5 (replicate 6 (flit F 0)),
       smoothed_history = replicate 5 (replicate 6 (flit F 0)), history_index = 0, history_count = 0\<rparr>)"

text \<open>
  The simulated hardware read. \<open>rs\<close> are the numbers \<^verbatim>\<open>rand\<close> returns, in the order of the calls: six
  for the noise, one that decides about a simulated punch, and two for its force and angle.
\<close>

definition read_raw_sensor_data ::
  "'f float_ops \<Rightarrow> 'f \<Rightarrow> int list \<Rightarrow> 'f \<Rightarrow> (operate_ret \<times> 'f list) \<times> 'f" where
  "read_raw_sensor_data F M_PI rs time_counter =
     (let add = fadd F; mul = fmul F; lit = flit F;
          time_counter = add time_counter (lit (1 / 100));
          noise_level = lit (1 / 10);
          noise = (\<lambda>r m. fdiv F (mul (of_int_f F (r mod m - m div 2)) noise_level) (of_int_f F m));
          raw_data = [noise (rs ! 0) 1000, noise (rs ! 1) 1000, add (fneg F (lit (981 / 100))) (noise (rs ! 2) 100),
                      noise (rs ! 3) 1000, noise (rs ! 4) 1000, noise (rs ! 5) 1000];
          raw_data =
            (if rs ! 6 mod 500 = 0
             then (let punch = add (lit 50) (of_int_f F (rs ! 7 mod 100));
                       hit_angle = fdiv F (mul (of_int_f F (rs ! 8 mod 360)) M_PI) (lit 180);
                       c = cosf F hit_angle; s = sinf F hit_angle
                   in [add (raw_data ! 0) (mul (mul punch c) (lit (1 / 2))),
                       add (raw_data ! 1) (mul (mul punch s) (lit (1 / 2))),
                       add (raw_data ! 2) (mul punch (lit (8 / 10))),
                       add (raw_data ! 3) (mul (mul punch (lit (1 / 10))) s),
                       add (raw_data ! 4) (mul (mul punch (lit (1 / 10))) c),
                       raw_data ! 5])
             else raw_data)
      in ((OPRT_OK, raw_data), time_counter))"

text \<open>The loops of \<^verbatim>\<open>calculate_median\<close> are those of \<open>BubbleSort\<close>, on a copy of the values.\<close>

definition calculate_median :: "'f float_ops \<Rightarrow> 'f list \<Rightarrow> 'f" where
  "calculate_median F values =
     (let count = length values; temp_array = bubble_sort (\<lambda>a b. flt F b a) (count - 1) values
      in temp_array ! (count div 2))"

definition calibrate_sample :: "'f float_ops \<Rightarrow> 'f sensor_cal \<Rightarrow> 'f list \<Rightarrow> 'f list" where
  "calibrate_sample F cal raw =
     map (\<lambda>i. fmul F (fsub F (raw ! i) (offsets cal ! i)) (scales cal ! i)) [0..<6]"

text \<open>
  The three filter steps of \<^verbatim>\<open>gk_sensor_read_data\<close>: the sample enters the history ring, each channel of
  the history is reduced to its median, the medians enter a second ring, whose average is the result.
\<close>

definition ring_slot :: "32 word \<Rightarrow> nat option" where
  "ring_slot i = (let idx = sint i smod 5 in if idx < 0 then None else Some (nat idx))"

definition push_history :: "'f list \<Rightarrow> 'f sensor_state \<Rightarrow> 'f sensor_state option" where
  "push_history sample st =
     map_option (\<lambda>idx. st\<lparr>history := (history st)[idx := sample],
        history_index := history_index st + 1,
        history_count := (if history_count st < 5 then history_count st + 1 else history_count st)\<rparr>) (ring_slot (history_index st))"

definition median_filter :: "'f float_ops \<Rightarrow> 'f sensor_state \<Rightarrow> 'f list" where
  "median_filter F st =
     map (\<lambda>ch. calculate_median F (map (\<lambda>i. history st ! i ! ch) [0..<nat (history_count st)])) [0..<6]"

definition push_smoothed :: "'f list \<Rightarrow> 'f sensor_state \<Rightarrow> 'f sensor_state option" where
  "push_smoothed med st =
     map_option (\<lambda>smooth_idx. st\<lparr>smoothed_history := (smoothed_history st)[smooth_idx := med]\<rparr>) (ring_slot (history_index st - 1))"

definition moving_average :: "'f float_ops \<Rightarrow> 'f sensor_state \<Rightarrow> 'f list" where
  "moving_average F st =
     (let smooth_count = (if history_count st < 5 then history_count st else 5)
      in map (\<lambda>ch. fdiv F
           (fold (\<lambda>i sum. fadd F sum (smoothed_history st ! i ! ch)) [0..<nat smooth_count] (flit F 0))
           (of_int_f F smooth_count)) [0..<6])"

definition fill_data :: "'f list \<Rightarrow> u32 \<Rightarrow> 'f force_data" where
  "fill_data v now = \<lparr>fx = v ! 0, fy = v ! 1, fz = v ! 2, mx = v ! 3, my = v ! 4, mz = v ! 5, timestamp = now\<rparr>"

text \<open>\<open>raw\<close> is what the hardware read returns, \<open>now\<close> the clock; \<open>out\<close> says that the pointer is not NULL.\<close>

definition gk_sensor_read_data ::
  "'f float_ops \<Rightarrow> 'f sensor_cal \<Rightarrow> bool \<Rightarrow> operate_ret \<times> 'f list \<Rightarrow> u32 \<Rightarrow> 'f sensor_state
     \<Rightarrow> (operate_ret \<times> 'f force_data option \<times> 'f sensor_state) option" where
  "gk_sensor_read_data F cal out raw now st =
     (if \<not> is_initialized st \<or> \<not> out then Some (OPRT_INVALID_PARM, None, st)
      else if fst raw \<noteq> OPRT_OK then Some (OPRT_COM_ERROR, None, st)
      else
        do {
          st \<leftarrow> push_history (calibrate_sample F cal (snd raw)) st;
          st \<leftarrow> push_smoothed (median_filter F st) st;
          let d = fill_data (moving_average F st) now;
          Some (OPRT_OK, Some d, st\<lparr>last_data := d, filtered_data := d\<rparr>)
        })"

text \<open>The parameter \<open>k1\<close> of the line of force through the surface of the bag.\<close>

definition solve_k1 :: "'f float_ops \<Rightarrow> 'f \<Rightarrow> 'f \<Rightarrow> 'f \<Rightarrow> 'f \<Rightarrow> 'f \<Rightarrow> 'f \<Rightarrow> 'f" where
  "solve_k1 F F0 F1 F2 g0 g1 g2 =
     (let add = fadd F; sub = fsub F; mul = fmul F; dvd' = fdiv F; lit = flit F;
          eps = lit (1 / 1000000);
          radius = lit (10 / 100);
          a = add (mul F0 F0) (mul F1 F1);
          b = mul (lit 2) (add (mul F0 g0) (mul F1 g1));
          c = sub (add (mul g0 g0) (mul g1 g1)) (mul radius radius)
      in if flt F a eps
         then dvd' (fneg F (mul F2 g2)) (add (mul F2 F2) eps)
         else
           (let discriminant = sub (mul b b) (mul (mul (lit 4) a) c)
            in if fle F (lit 0) discriminant
               then dvd' (sub (fneg F b) (sqrtf F discriminant)) (mul (lit 2) a)
               else dvd' (fneg F (add (mul F0 g0) (mul F1 g1))) a))"

definition gk_calculate_hit_point ::
  "'f float_ops \<Rightarrow> 'f force_data option \<Rightarrow> bool \<Rightarrow> 'f sensor_state
     \<Rightarrow> operate_ret \<times> 'f hit_point option \<times> 'f sensor_state" where
  "gk_calculate_hit_point F force_data out st =
     (case force_data of
        None \<Rightarrow> (OPRT_INVALID_PARM, None, st)
      | Some d \<Rightarrow>
          if \<not> out then (OPRT_INVALID_PARM, None, st)
          else
            (let add = fadd F; sub = fsub F; mul = fmul F; dvd' = fdiv F; lit = flit F;
                 F0 = fx d; F1 = fy d; F2 = fz d;
                 tau0 = mx d; tau1 = my d; tau2 = mz d;
                 tau0 = add tau0 (mul F1 (lit (20 / 100)));
                 tau1 = add tau1 (mul F0 (lit (15 / 100)));
                 F_norm_sq = add (add (mul F0 F0) (mul F1 F1)) (mul F2 F2);
                 eps = lit (1 / 1000000);
                 force_magnitude = sqrtf F F_norm_sq
             in if flt F force_magnitude (lit FORCE_THRESHOLD) \<or> flt F F_norm_sq eps
                then (OPRT_COM_ERROR, None, st)
                else
                  (let g0 = dvd' (sub (mul F1 tau2) (mul F2 tau1)) F_norm_sq;
                       g1 = dvd' (sub (mul F2 tau0) (mul F0 tau2)) F_norm_sq;
                       g2 = dvd' (sub (mul F0 tau1) (mul F1 tau0)) F_norm_sq;
                       k1 = solve_k1 F F0 F1 F2 g0 g1 g2;
                       gamma0 = add (mul k1 F0) g0;
                       gamma1 = add (mul k1 F1) g1;
                       x = mul gamma1 (lit 100);
                       y = mul gamma0 (lit 100);
                       hp = \<lparr>hit_x = fmaxf F (lit (- 15)) (fminf F (lit 15) x),
                             hit_y = fmaxf F (lit (- 15)) (fminf F (lit 15) y),
                             hit_force = force_magnitude, hit_timestamp = timestamp d\<rparr>;
                       st = st\<lparr>hit_count := hit_count st + 1\<rparr>;
                       st = (if flt F (max_force_session st) force_magnitude
                             then st\<lparr>max_force_session := force_magnitude\<rparr> else st)
                   in (OPRT_OK, Some hp, st))))"

definition gk_sensor_get_hit_count :: "'f sensor_state \<Rightarrow> u32" where
  "gk_sensor_get_hit_count st = hit_count st"

definition gk_sensor_get_max_force_session :: "'f sensor_state \<Rightarrow> 'f" where
  "gk_sensor_get_max_force_session st = max_force_session st"

definition gk_sensor_reset_session_stats :: "'f float_ops \<Rightarrow> 'f sensor_state \<Rightarrow> 'f sensor_state" where
  "gk_sensor_reset_session_stats F st = st\<lparr>hit_count := 0, max_force_session := flit F 0\<rparr>"

text \<open>\<open>samples\<close> are the hundred hardware reads of the calibration loop.\<close>

definition gk_sensor_calibrate ::
  "'f float_ops \<Rightarrow> (operate_ret \<times> 'f list) list \<Rightarrow> 'f sensor_cal \<Rightarrow> operate_ret \<times> 'f sensor_cal" where
  "gk_sensor_calibrate F samples cal =
     (let cal_samples = 100;
          totals = fold (\<lambda>r s. if fst r = OPRT_OK then map (\<lambda>i. fadd F (s ! i) (snd r ! i)) [0..<6] else s)
                   samples (replicate 6 (flit F 0));
          avg = (\<lambda>i. fdiv F (totals ! i) (of_int_f F cal_samples))
      in (OPRT_OK, cal\<lparr>offsets := [avg 0, avg 1, fsub F (avg 2) (fneg F (flit F (981 / 100))), avg 3, avg 4, avg 5],
                       is_calibrated := True\<rparr>))"

section \<open>The median\<close>

lemma calculate_median_sort:
  fixes xs :: "'f :: linorder list"
  assumes "flt F = (<)"
  shows "calculate_median F xs = sort xs ! (length xs div 2)"
proof -
  have "sort xs = bubble_sort (\<lambda>a b. flt F b a) (length xs - 1) xs"
    using ascending.bubble_sort_correct [of xs] by (intro properties_for_sort) (simp_all add: assms)
  then show ?thesis by (simp add: calculate_median_def Let_def)
qed

section \<open>The window of samples\<close>

text \<open>Reading a sequence of samples, from the state after initialisation.\<close>

fun read_all :: "'f float_ops \<Rightarrow> 'f sensor_cal \<Rightarrow> 'f list list \<Rightarrow> 'f sensor_state \<Rightarrow> 'f sensor_state option" where
  "read_all F cal [] st = Some st"
| "read_all F cal (r # rs) st = Option.bind (gk_sensor_read_data F cal True (OPRT_OK, r) 0 st) (\<lambda>(_, _, st). read_all F cal rs st)"

text \<open>The slots of the first \<open>2^31\<close> samples, and of the next one, whose number has wrapped around.\<close>

abbreviation INDEX_WRAP :: nat where "INDEX_WRAP \<equiv> 2147483648"

lemma ring_slot_ok: "n < INDEX_WRAP \<Longrightarrow> ring_slot (of_nat n) = Some (n mod 5)"
proof -
  assume n: "n < INDEX_WRAP"
  have "sint (of_nat n :: 32 word) = int n" using n by (simp add: signed_of_nat signed_take_bit_int_eq_self)
  then show ?thesis by (cases "n = 0") (simp_all add: ring_slot_def Let_def signed_modulo_int_def signed_divide_int_def nat_mod_distrib)
qed

lemma ring_slot_wrapped: "ring_slot (of_nat INDEX_WRAP) = None"
  by (simp add: ring_slot_def Let_def signed_modulo_int_def signed_divide_int_def)

lemma mod5_window:
  fixes j k :: nat
  assumes "j \<noteq> k" "j < k" "k < j + 5"
  shows "j mod 5 \<noteq> k mod 5"
proof
  assume "j mod 5 = k mod 5"
  then have "5 dvd k - j" using assms(2) by (metis less_imp_le mod_eq_dvd_iff_nat)
  then show False using assms by (auto dest: dvd_imp_le)
qed

text \<open>
  After \<open>k\<close> samples the slot \<open>i\<close> of the history holds the latest sample whose number is \<open>i\<close> modulo five.
\<close>

definition window_inv :: "'f float_ops \<Rightarrow> 'f sensor_cal \<Rightarrow> 'f list list \<Rightarrow> 'f sensor_state \<Rightarrow> bool" where
  "window_inv F cal rs st \<longleftrightarrow>
     is_initialized st \<and> length rs \<le> INDEX_WRAP \<and> history_index st = of_nat (length rs) \<and> history_count st = int (min (length rs) 5)
     \<and> length (history st) = 5
     \<and> (\<forall>j < length rs. length rs \<le> j + 5 \<longrightarrow> history st ! (j mod 5) = calibrate_sample F cal (rs ! j))"

lemma read_wrapped:
  assumes "is_initialized st" "history_index st = of_nat INDEX_WRAP"
  shows "gk_sensor_read_data F cal True (OPRT_OK, r) now st = None"
  using assms ring_slot_wrapped by (simp add: gk_sensor_read_data_def push_history_def)

lemma read_state:
  assumes "is_initialized st" "history_index st = of_nat n" "n < INDEX_WRAP"
  obtains d st' where "gk_sensor_read_data F cal True (OPRT_OK, r) now st = Some (OPRT_OK, Some d, st')" "is_initialized st'"
    "history st' = (history st)[n mod 5 := calibrate_sample F cal r]" "history_index st' = of_nat (Suc n)"
    "history_count st' = (if history_count st < 5 then history_count st + 1 else history_count st)"
  using assms by (simp add: gk_sensor_read_data_def push_history_def push_smoothed_def ring_slot_ok Let_def add.commute)

lemma window_step:
  assumes "window_inv F cal rs st" "length rs < INDEX_WRAP"
  obtains d st' where "gk_sensor_read_data F cal True (OPRT_OK, r) now st = Some (OPRT_OK, Some d, st')" "window_inv F cal (rs @ [r]) st'"
proof -
  let ?k = "length rs"
  have i: "is_initialized st" "history_index st = of_nat ?k" "history_count st = int (min ?k 5)" "length (history st) = 5"
    and w: "\<And>j. j < ?k \<Longrightarrow> ?k \<le> j + 5 \<Longrightarrow> history st ! (j mod 5) = calibrate_sample F cal (rs ! j)"
    using assms by (auto simp: window_inv_def)
  obtain d st' where st: "gk_sensor_read_data F cal True (OPRT_OK, r) now st = Some (OPRT_OK, Some d, st')" "is_initialized st'"
    "history st' = (history st)[?k mod 5 := calibrate_sample F cal r]" "history_index st' = of_nat (Suc ?k)"
    "history_count st' = (if history_count st < 5 then history_count st + 1 else history_count st)"
    using read_state [OF i(1,2) assms(2)] by metis
  have "history st' ! (j mod 5) = calibrate_sample F cal ((rs @ [r]) ! j)" if "j < Suc ?k" "Suc ?k \<le> j + 5" for j
  proof (cases "j = ?k")
    case True
    then show ?thesis using i(4) by (simp add: st)
  next
    case False
    then have "j mod 5 \<noteq> ?k mod 5" using that by (intro mod5_window) auto
    then show ?thesis using w [of j] that False by (simp add: st nth_append)
  qed
  then have "window_inv F cal (rs @ [r]) st'" using st(2-5) i assms(2) by (simp add: window_inv_def)
  with st(1) show ?thesis by (rule that)
qed

lemma window_read_all:
  "window_inv F cal rs st \<Longrightarrow> case read_all F cal rs' st of
     Some st' \<Rightarrow> window_inv F cal (rs @ rs') st' | None \<Rightarrow> INDEX_WRAP < length (rs @ rs')"
proof (induction rs' arbitrary: rs st)
  case (Cons r rs')
  show ?case
  proof (cases "length rs < INDEX_WRAP")
    case True
    from window_step [OF Cons.prems True, of r 0] obtain d st' where
      "gk_sensor_read_data F cal True (OPRT_OK, r) 0 st = Some (OPRT_OK, Some d, st')" "window_inv F cal (rs @ [r]) st'" by metis
    with Cons.IH [of "rs @ [r]" st'] show ?thesis by (simp split: option.splits)
  next
    case False
    then have e: "length rs = INDEX_WRAP" using Cons.prems by (simp add: window_inv_def)
    then have "history_index st = of_nat INDEX_WRAP" "is_initialized st" using Cons.prems by (simp_all add: window_inv_def)
    from read_wrapped [OF this(2,1)] e show ?thesis by simp
  qed
qed simp

lemma window_init: "window_inv F (fst (snd (gk_sensor_init F))) [] (snd (snd (gk_sensor_init F)))"
  by (simp add: window_inv_def gk_sensor_init_def)

section \<open>The point of impact\<close>

text \<open>
  What the computation is for, in exact arithmetic and in metres: the points on the line of action of the force, in their horizontal coordinates and by their parameter
  \<open>t\<close>. The line goes through the point \<open>F \<times> \<tau> / |F|\<^sup>2\<close> in the direction of the force; \<open>\<tau>\<close> is the torque with the compensation of the position of the sensor.
\<close>

definition force_norm :: "real force_data \<Rightarrow> real" where
  "force_norm d = sqrt ((fx d)\<^sup>2 + (fy d)\<^sup>2 + (fz d)\<^sup>2)"

definition foot :: "real force_data \<Rightarrow> real \<times> real \<times> real" where
  "foot d = (let t0 = mx d + fy d * (20 / 100); t1 = my d + fx d * (15 / 100); t2 = mz d; n = (force_norm d)\<^sup>2
     in ((fy d * t2 - fz d * t1) / n, (fz d * t0 - fx d * t2) / n, (fx d * t1 - fy d * t0) / n))"

definition line_at :: "real force_data \<Rightarrow> real \<Rightarrow> real \<times> real" where
  "line_at d t = (t * fx d + fst (foot d), t * fy d + fst (snd (foot d)))"

definition axis_dist :: "real force_data \<Rightarrow> real \<Rightarrow> real" where
  "axis_dist d t = sqrt ((fst (line_at d t))\<^sup>2 + (snd (line_at d t))\<^sup>2)"

definition sideways :: "real force_data \<Rightarrow> bool" where
  "sideways d \<longleftrightarrow> 1 / 1000000 \<le> (fx d)\<^sup>2 + (fy d)\<^sup>2"

definition meets_bag :: "real force_data \<Rightarrow> bool" where
  "meets_bag d \<longleftrightarrow> (\<exists>t. axis_dist d t = 1 / 10)"

text \<open>
  The parameter of the point of impact. For a force that is not vertical: the first of the points of the line at 10 cm from the axis of the bag, or, when the line misses the bag,
  the point nearest to the axis. For a vertical force, a point of the code's own choice.
\<close>

definition impact_at :: "real force_data \<Rightarrow> real \<Rightarrow> bool" where
  "impact_at d k \<longleftrightarrow>
     (if \<not> sideways d then k = - (fz d * snd (snd (foot d))) / ((fz d)\<^sup>2 + 1 / 1000000)
      else if meets_bag d then axis_dist d k = 1 / 10 \<and> (\<forall>t. axis_dist d t = 1 / 10 \<longrightarrow> k \<le> t)
      else \<forall>t. axis_dist d k \<le> axis_dist d t)"

definition within_15cm :: "real \<Rightarrow> real" where
  "within_15cm x = max (- 15) (min 15 x)"

lemma quadratic_roots:
  fixes A B C :: real
  assumes "0 < A"
  defines "D \<equiv> B\<^sup>2 - 4 * A * C"
  shows "(\<exists>t. A * t\<^sup>2 + B * t + C = 0) \<longleftrightarrow> 0 \<le> D"
    "0 \<le> D \<Longrightarrow> A * ((- B - sqrt D) / (2 * A))\<^sup>2 + B * ((- B - sqrt D) / (2 * A)) + C = 0"
    "A * t\<^sup>2 + B * t + C = 0 \<Longrightarrow> (- B - sqrt D) / (2 * A) \<le> t"
proof -
  have sq: "4 * A * (A * t\<^sup>2 + B * t + C) = (2 * A * t + B)\<^sup>2 - D" for t
    by (simp add: D_def power2_eq_square algebra_simps)
  have z: "A * t\<^sup>2 + B * t + C = 0 \<longleftrightarrow> (2 * A * t + B)\<^sup>2 = D" for t
    using sq [of t] assms(1) by (metis eq_iff_diff_eq_0 mult_eq_0_iff mult_zero_right less_irrefl zero_neq_numeral)
  show r: "A * ((- B - sqrt D) / (2 * A))\<^sup>2 + B * ((- B - sqrt D) / (2 * A)) + C = 0" if "0 \<le> D"
    unfolding z using that assms(1) by simp
  show "(\<exists>t. A * t\<^sup>2 + B * t + C = 0) \<longleftrightarrow> 0 \<le> D" using r z by (metis zero_le_power2)
  show "(- B - sqrt D) / (2 * A) \<le> t" if "A * t\<^sup>2 + B * t + C = 0"
  proof -
    have "sqrt D = \<bar>2 * A * t + B\<bar>" using that z by (metis real_sqrt_abs)
    then have "- B - sqrt D \<le> t * (2 * A)" by (simp add: algebra_simps)
    then show ?thesis using assms(1) by (simp add: pos_divide_le_eq)
  qed
qed

lemma axis_dist_quadratic:
  fixes d :: "real force_data"
  defines "A \<equiv> (fx d)\<^sup>2 + (fy d)\<^sup>2" and "B \<equiv> 2 * (fx d * fst (foot d) + fy d * fst (snd (foot d)))"
    and "C \<equiv> (fst (foot d))\<^sup>2 + (fst (snd (foot d)))\<^sup>2 - (1 / 10)\<^sup>2"
  shows "(axis_dist d t)\<^sup>2 = A * t\<^sup>2 + B * t + C + (1 / 10)\<^sup>2" "axis_dist d t = 1 / 10 \<longleftrightarrow> A * t\<^sup>2 + B * t + C = 0"
proof -
  show e: "(axis_dist d t)\<^sup>2 = A * t\<^sup>2 + B * t + C + (1 / 10)\<^sup>2"
    unfolding axis_dist_def real_sqrt_pow2 [OF sum_power2_ge_zero] by (simp add: line_at_def A_def B_def C_def power2_eq_square algebra_simps)
  have "axis_dist d t = 1 / 10 \<longleftrightarrow> (axis_dist d t)\<^sup>2 = (1 / 10)\<^sup>2"
    by (rule power2_eq_iff_nonneg [symmetric]) (simp_all add: axis_dist_def)
  then show "axis_dist d t = 1 / 10 \<longleftrightarrow> A * t\<^sup>2 + B * t + C = 0" using e by simp
qed

lemma solve_k1_impact:
  assumes "foot d = (g0, g1, g2)"
  shows "impact_at d (solve_k1 real_ops (fx d) (fy d) (fz d) g0 g1 g2)"
proof -
  define A where "A = (fx d)\<^sup>2 + (fy d)\<^sup>2"
  define b where "b = fx d * g0 + fy d * g1"
  define B where "B = 2 * b"
  define C where "C = g0\<^sup>2 + g1\<^sup>2 - (1 / 10)\<^sup>2"
  define D where "D = B\<^sup>2 - 4 * A * C"
  note q = axis_dist_quadratic [of d, unfolded assms fst_conv snd_conv, folded b_def, folded A_def B_def C_def]
  have k: "solve_k1 real_ops (fx d) (fy d) (fz d) g0 g1 g2 =
      (if A < 1 / 1000000 then - (fz d * g2) / ((fz d)\<^sup>2 + 1 / 1000000) else if 0 \<le> D then (- B - sqrt D) / (2 * A) else - b / A)"
    by (simp add: solve_k1_def real_ops_def Let_def of_rat_divide A_def B_def b_def C_def D_def power2_eq_square)
  show ?thesis
  proof (cases "A < 1 / 1000000")
    case True
    then show ?thesis by (simp add: k impact_at_def sideways_def A_def [symmetric] assms)
  next
    case False
    then have A: "0 < A" by simp
    note r = quadratic_roots [OF A, where B = B and C = C, folded D_def]
    have m: "meets_bag d \<longleftrightarrow> 0 \<le> D" unfolding meets_bag_def q(2) using r(1) by simp
    have n: "axis_dist d (- b / A) \<le> axis_dist d t" for t
    proof (rule power2_le_imp_le)
      have "A * t\<^sup>2 + B * t - (A * (- b / A)\<^sup>2 + B * (- b / A)) = A * (t + b / A)\<^sup>2"
        using A by (simp add: B_def power2_eq_square field_simps)
      moreover have "0 \<le> A * (t + b / A)\<^sup>2" using A by simp
      ultimately show "(axis_dist d (- b / A))\<^sup>2 \<le> (axis_dist d t)\<^sup>2" unfolding q(1) by linarith
    qed (simp add: axis_dist_def)
    show ?thesis
    proof (cases "0 \<le> D")
      case True
      then have "axis_dist d ((- B - sqrt D) / (2 * A)) = 1 / 10" "\<And>t. axis_dist d t = 1 / 10 \<Longrightarrow> (- B - sqrt D) / (2 * A) \<le> t"
        unfolding q(2) using r(2,3) by blast+
      then show ?thesis unfolding k impact_at_def sideways_def A_def [symmetric] m using False True by auto
    next
      case neg: False
      show ?thesis unfolding k impact_at_def sideways_def A_def [symmetric] m using False neg n by auto
    qed
  qed
qed

lemma real_ops_sel:
  "fadd real_ops = (+)" "fsub real_ops = (-)" "fmul real_ops = (*)" "fdiv real_ops = (/)" "flt real_ops = (<)" "sqrtf real_ops = sqrt"
  "fmaxf real_ops = max" "fminf real_ops = min" "flit real_ops (20 / 100) = 20 / 100" "flit real_ops (15 / 100) = 15 / 100"
  "flit real_ops (1 / 1000000) = 1 / 1000000" "flit real_ops 5 = 5" "flit real_ops 100 = 100" "flit real_ops 15 = 15" "flit real_ops (- 15) = - 15"
  by (simp_all add: real_ops_def of_rat_divide)

lemma circle_within:
  assumes "u\<^sup>2 + v\<^sup>2 = (1 / 10 :: real)\<^sup>2"
  shows "(within_15cm (100 * v))\<^sup>2 + (within_15cm (100 * u))\<^sup>2 = 10\<^sup>2"
proof -
  have "u\<^sup>2 \<le> (1 / 10)\<^sup>2" "v\<^sup>2 \<le> (1 / 10)\<^sup>2" using assms zero_le_power2 [of u] zero_le_power2 [of v] by linarith+
  then have "\<bar>u\<bar> \<le> 1 / 10" "\<bar>v\<bar> \<le> 1 / 10" using abs_le_square_iff [of _ "1 / 10 :: real"] by auto
  then have "within_15cm (100 * v) = 100 * v" "within_15cm (100 * u) = 100 * u" by (auto simp: within_15cm_def)
  moreover have "(100 * v)\<^sup>2 + (100 * u)\<^sup>2 = 10000 * (u\<^sup>2 + v\<^sup>2)" by (simp add: power2_eq_square)
  ultimately show ?thesis using assms by (simp add: power2_eq_square)
qed

section \<open>Properties\<close>

text \<open>
  The median filter is right: for any list of values (none a NaN, so that the comparison
  is a linear order) \<^verbatim>\<open>calculate_median\<close> returns the middle element of the sorted list.
\<close>

theorem median_correct:
  fixes vals :: "'f :: linorder list"
  assumes "flt F = (<)"
  shows "calculate_median F vals = sort vals ! (length vals div 2)"
  using assms by (rule calculate_median_sort)

lemma median_correct_witness: "calculate_median real_ops [3, - 1, 2, 7, 0] = 2"
  by (subst median_correct) (simp_all add: real_ops_def)

text \<open>
  C31. The filter window: after reading at most \<open>2^31\<close> samples from the initialised state, the history holds
  exactly the calibrated values of the last five samples (or of all, if fewer), the sample number
  \<open>j\<close> in slot \<open>j mod 5\<close>, and the counter says so. The reading after them writes outside the array: the number of the sample has wrapped around.
\<close>

theorem sensor_window:
  assumes "gk_sensor_init F = (r, cal, st0)"
  shows "case read_all F cal samples st0 of
      None \<Rightarrow> 2 ^ 31 < length samples
    | Some st \<Rightarrow> length samples \<le> 2 ^ 31 \<and> history_count st = int (min (length samples) 5) \<and> length (history st) = 5
        \<and> (\<forall>j < length samples. length samples \<le> j + 5 \<longrightarrow> history st ! (j mod 5) = calibrate_sample F cal (samples ! j))"
  using window_read_all [OF window_init, of samples F] assms by (simp add: window_inv_def split: option.splits)

lemma sensor_window_witness:
  "\<exists>st. read_all real_ops (fst (snd (gk_sensor_init real_ops))) (replicate 7 [0, 0, 0, 0, 0, 0])
     (snd (snd (gk_sensor_init real_ops))) = Some st \<and> history_count st = 5"
  using sensor_window [of real_ops "fst (gk_sensor_init real_ops)" "fst (snd (gk_sensor_init real_ops))"
      "snd (snd (gk_sensor_init real_ops))" "replicate 7 [0, 0, 0, 0, 0, 0]"] by (simp split: option.splits)



end
