(* ===== verification/GkBag.thy ===== *)
theory GkBag
  imports ForceSensor "HOL-Library.Signed_Division"
begin

text \<open>
  The rest of the boxing-bag application \<^verbatim>\<open>apps/gk_bag\<close>: the user record (\<^verbatim>\<open>user_auth.c\<close>), the pages, their
  navigation buttons and the drawing of a hit (\<^verbatim>\<open>gui_main.c\<close>), the statistics graphics
  (\<^verbatim>\<open>gui_graphics.c\<close>), and the main loop (\<^verbatim>\<open>main.c\<close>). The graphics library is outside: what the code
  asks it to draw is a list of drawing commands, and of a page we keep whether it exists, whether it is
  hidden and which callbacks its buttons have. A JSON document is the parameter \<open>json\<close>: \<open>None\<close> when it does
  not parse, otherwise the members by name, each a string value or, for a member that is not a string,
  \<open>None\<close>, as \<^verbatim>\<open>cJSON_GetStringValue\<close> returns NULL for it.
\<close>

section \<open>The user record\<close>

definition NUL :: char where
  "NUL = CHR 0x00"

text \<open>\<^verbatim>\<open>strncpy(dst, src, n)\<close> on a buffer, and the string a buffer holds.\<close>

definition strncpy :: "char list \<Rightarrow> nat \<Rightarrow> string \<Rightarrow> char list" where
  "strncpy dst n src = take n (src @ replicate n NUL) @ drop n dst"

definition strcpy :: "char list \<Rightarrow> string \<Rightarrow> char list" where
  "strcpy dst src = src @ [NUL] @ drop (length src + 1) dst"

definition c_str :: "char list \<Rightarrow> string" where
  "c_str buf = takeWhile (\<lambda>c. c \<noteq> NUL) buf"

record gk_user_info =
  user_id :: "char list"
  username :: "char list"
  height :: int
  weight :: int
  gender :: int
  is_logged_in :: bool

type_synonym json = "string \<Rightarrow> string option option"

text \<open>A call that dereferences NULL has no result: \<open>Crash\<close>.\<close>

datatype 'a outcome = Ret 'a | Crash

definition gk_user_auth_init :: "operate_ret \<times> gk_user_info" where
  "gk_user_auth_init =
     (OPRT_OK, \<lparr>user_id = replicate 64 NUL, username = replicate 32 NUL, height = 0, weight = 0, gender = 0,
        is_logged_in = False\<rparr>)"

definition gk_user_login ::
  "(string \<Rightarrow> json option) \<Rightarrow> string option \<Rightarrow> gk_user_info \<Rightarrow> (operate_ret \<times> gk_user_info) outcome" where
  "gk_user_login cJSON_Parse qr u =
     (if qr = None \<or> length (the qr) = 0 then Ret (OPRT_INVALID_PARM, u)
      else case cJSON_Parse (the qr) of
             None \<Rightarrow> Ret (OPRT_CJSON_PARSE_ERR, u)
           | Some obj \<Rightarrow>
               (case (obj ''user_id'', obj ''username'', obj ''token'') of
                  (Some i, Some n, Some tok) \<Rightarrow>
                    (case (i, n) of
                       (Some i, Some n) \<Rightarrow>
                         Ret (OPRT_OK, u\<lparr>user_id := strncpy (user_id u) 63 i, username := strncpy (username u) 31 n,
                                         is_logged_in := True\<rparr>)
                     | _ \<Rightarrow> Crash)
                | _ \<Rightarrow> Ret (OPRT_INVALID_PARM, u)))"

definition hex_digit :: "nat \<Rightarrow> char" where
  "hex_digit d = (if d < 10 then char_of (48 + d) else char_of (87 + d))"

definition hex8 :: "u32 \<Rightarrow> string" where
  "hex8 w = map (\<lambda>i. hex_digit (unat w div 16 ^ (7 - i) mod 16)) [0..<8]"

text \<open>\<^verbatim>\<open>snprintf\<close> writes at most \<open>n - 1\<close> characters and a NUL.\<close>

definition snprintf :: "char list \<Rightarrow> nat \<Rightarrow> string \<Rightarrow> char list" where
  "snprintf dst n s = take (n - 1) s @ [NUL] @ drop (length (take (n - 1) s) + 1) dst"

definition gk_user_register ::
  "(string \<Rightarrow> json option) \<Rightarrow> string option \<Rightarrow> u32 \<Rightarrow> gk_user_info \<Rightarrow> (operate_ret \<times> gk_user_info) outcome" where
  "gk_user_register cJSON_Parse qr posix u =
     (if qr = None \<or> length (the qr) = 0 then Ret (OPRT_INVALID_PARM, u)
      else case cJSON_Parse (the qr) of
             None \<Rightarrow> Ret (OPRT_CJSON_PARSE_ERR, u)
           | Some obj \<Rightarrow>
               (case (obj ''reg_token'', obj ''username'') of
                  (Some tok, Some n) \<Rightarrow>
                    (case n of
                       Some n \<Rightarrow>
                         Ret (OPRT_OK, u\<lparr>user_id := snprintf (user_id u) 64 (''gk_user_'' @ hex8 posix),
                                username := strncpy (username u) 31 n, is_logged_in := True,
                                height := 0, weight := 0, gender := 0\<rparr>)
                     | None \<Rightarrow> Crash)
                | _ \<Rightarrow> Ret (OPRT_INVALID_PARM, u)))"

definition gk_user_update_info :: "int \<Rightarrow> int \<Rightarrow> int \<Rightarrow> gk_user_info \<Rightarrow> operate_ret \<times> gk_user_info" where
  "gk_user_update_info h w g u =
     (if \<not> is_logged_in u then (OPRT_COM_ERROR, u)
      else if h < 100 \<or> h > 220 then (OPRT_INVALID_PARM, u)
      else if w < 30 \<or> w > 200 then (OPRT_INVALID_PARM, u)
      else if g < 0 \<or> g > 1 then (OPRT_INVALID_PARM, u)
      else (OPRT_OK, u\<lparr>height := h, weight := w, gender := g\<rparr>))"

definition gk_get_user_info :: "gk_user_info \<Rightarrow> gk_user_info" where
  "gk_get_user_info u = u"

definition gk_set_default_user_info :: "gk_user_info \<Rightarrow> gk_user_info" where
  "gk_set_default_user_info u =
     u\<lparr>user_id := strcpy (user_id u) ''default_user'', username := strcpy (username u) ''Demo User'',
       height := 175, weight := 70, gender := 0, is_logged_in := True\<rparr>"

section \<open>Pages and navigation\<close>

abbreviation GK_PAGE_MAIN_STATS :: nat where "GK_PAGE_MAIN_STATS \<equiv> 0"
abbreviation GK_PAGE_HIT_VISUAL :: nat where "GK_PAGE_HIT_VISUAL \<equiv> 1"
abbreviation GK_PAGE_TRAINING :: nat where "GK_PAGE_TRAINING \<equiv> 2"
abbreviation GK_PAGE_MAX :: nat where "GK_PAGE_MAX \<equiv> 3"

datatype button_cb = nav_to_hit_visual_cb | nav_to_training_cb | training_mode_select_cb

record gui =
  g_pages :: "bool list"
  page_hidden :: "bool list"
  g_current_page :: nat
  page_buttons :: "button_cb list list"
  g_hit_canvas :: bool
  g_stats_labels :: bool

text \<open>The pages: creating one makes it visible and, for two of them, adds their buttons.\<close>

definition create_page :: "nat \<Rightarrow> button_cb list \<Rightarrow> gui \<Rightarrow> gui" where
  "create_page p bs g = g\<lparr>g_pages := (g_pages g)[p := True], page_hidden := (page_hidden g)[p := False],
     page_buttons := (page_buttons g)[p := bs]\<rparr>"

definition gk_create_main_stats_page :: "gui \<Rightarrow> gui" where
  "gk_create_main_stats_page g = create_page GK_PAGE_MAIN_STATS [] g"

definition gk_create_hit_visual_page :: "gui \<Rightarrow> gui" where
  "gk_create_hit_visual_page g = create_page GK_PAGE_HIT_VISUAL [nav_to_hit_visual_cb, nav_to_training_cb] g"

definition gk_create_training_page :: "gui \<Rightarrow> gui" where
  "gk_create_training_page g = create_page GK_PAGE_TRAINING
     [training_mode_select_cb, training_mode_select_cb, training_mode_select_cb, training_mode_select_cb,
      training_mode_select_cb, nav_to_hit_visual_cb] g"

definition gk_gui_show_page :: "nat \<Rightarrow> gui \<Rightarrow> gui" where
  "gk_gui_show_page page g =
     (if page \<ge> GK_PAGE_MAX then g
      else
        (let g = g\<lparr>page_hidden := map (\<lambda>i. if g_pages g ! i then True else page_hidden g ! i) [0..<GK_PAGE_MAX]\<rparr>
         in if g_pages g ! page
            then g\<lparr>page_hidden := (page_hidden g)[page := False], g_current_page := page\<rparr>
            else g))"

definition gui0 :: gui where
  "gui0 = \<lparr>g_pages = replicate 3 False, page_hidden = replicate 3 True, g_current_page = GK_PAGE_MAIN_STATS,
     page_buttons = replicate 3 [], g_hit_canvas = False, g_stats_labels = False\<rparr>"

definition gk_gui_init :: "gui \<Rightarrow> operate_ret \<times> gui" where
  "gk_gui_init g =
     (let g = gk_create_main_stats_page g;
          g = gk_create_hit_visual_page g;
          g = gk_create_training_page g
      in (OPRT_OK, gk_gui_show_page GK_PAGE_MAIN_STATS g))"

text \<open>A click on a button runs its callback.\<close>

definition button_clicked :: "button_cb \<Rightarrow> gui \<Rightarrow> gui" where
  "button_clicked cb g =
     (case cb of
        nav_to_hit_visual_cb \<Rightarrow> gk_gui_show_page GK_PAGE_HIT_VISUAL g
      | nav_to_training_cb \<Rightarrow> gk_gui_show_page GK_PAGE_TRAINING g
      | training_mode_select_cb \<Rightarrow> g)"

section \<open>Drawing\<close>

text \<open>The drawing calls of the graphics library with their geometry; a label is the name or the value of a statistic.\<close>

datatype label_text = StatName nat | StatValue string

datatype draw_cmd =
    DrawRect int int int int
  | DrawArc int int int int int
  | DrawLine int int int int int
  | DrawTriangle "(int \<times> int) list"
  | DrawLabel int int int int label_text

text \<open>
  \<^verbatim>\<open>gk_gui_update_hit_visual\<close>: the drawing on the 300 by 400 canvas, and the numbers shown in the four
  labels. \<open>None\<close> is the early return.
\<close>

definition gk_gui_update_hit_visual ::
  "'f float_ops \<Rightarrow> 'f \<Rightarrow> 'f hit_point option \<Rightarrow> 'f sensor_state \<Rightarrow> gui
     \<Rightarrow> gui \<times> (draw_cmd list \<times> 'f \<times> ('f \<times> 'f) \<times> u32 \<times> 'f) option" where
  "gk_gui_update_hit_visual F M_PI hit_point st g =
     (case hit_point of
        None \<Rightarrow> (g, None)
      | Some hp \<Rightarrow>
          if \<not> g_pages g ! GK_PAGE_HIT_VISUAL then (g, None)
          else
            (let g = g\<lparr>g_hit_canvas := True\<rparr>;
                 bag = [DrawRect 120 50 180 350, DrawArc 150 60 30 0 360, DrawArc 150 340 30 0 360];
                 cx = 150 + to_int_f F (fmul F (hit_x hp) (flit F 2));
                 cy = 200 - to_int_f F (fmul F (hit_y hp) (flit F 2));
                 hit_radius = to_int_f F (fadd F (of_int_f F 5) (fmul F (hit_force hp) (flit F (2 / 10))));
                 marker = [DrawArc cx cy hit_radius 0 360];
                 rays = (if flt F (flit F 10) (hit_force hp)
                         then map (\<lambda>k. (let rad = fdiv F (fmul F (of_int_f F (45 * int k)) M_PI) (flit F 180);
                                           fr = of_int_f F (hit_radius + 10)
                                       in DrawLine cx cy (cx + to_int_f F (fmul F fr (cosf F rad)))
                                            (cy + to_int_f F (fmul F fr (sinf F rad))) 2)) [0..<8]
                         else []);
                 g = g\<lparr>g_stats_labels := True\<rparr>
             in (g, Some (bag @ marker @ rays, hit_force hp, (hit_x hp, hit_y hp),
                          gk_sensor_get_hit_count st, gk_sensor_get_max_force_session st))))"

section \<open>The main loop\<close>

record 'f app =
  app_gui :: gui
  app_cal :: "'f sensor_cal"
  app_sensor :: "'f sensor_state"
  app_user :: gk_user_info

text \<open>The start of \<^verbatim>\<open>gk_bag_main_task\<close>, before its loop.\<close>

definition gk_bag_start :: "'f float_ops \<Rightarrow> gui \<Rightarrow> gk_user_info \<Rightarrow> 'f app option" where
  "gk_bag_start F g u =
     (case gk_gui_init g of (r, g) \<Rightarrow>
        if r \<noteq> OPRT_OK then None
        else (case gk_sensor_init F of (r, cal, st) \<Rightarrow>
                if r \<noteq> OPRT_OK then None
                else Some \<lparr>app_gui = gk_gui_show_page GK_PAGE_MAIN_STATS g, app_cal = cal, app_sensor = st,
                           app_user = gk_set_default_user_info u\<rparr>))"

text \<open>One iteration of the loop: \<open>raw\<close> is the hardware read, \<open>now\<close> the clock. \<open>None\<close> is a reading that writes outside its ring.\<close>

definition gk_bag_iter :: "'f float_ops \<Rightarrow> 'f \<Rightarrow> operate_ret \<times> 'f list \<Rightarrow> u32 \<Rightarrow> 'f app \<Rightarrow> 'f app option" where
  "gk_bag_iter F M_PI raw now a =
     map_option (\<lambda>(r, d, st).
        if r \<noteq> OPRT_OK then a\<lparr>app_sensor := st\<rparr>
        else (case gk_calculate_hit_point F d True st of (r, hp, st) \<Rightarrow>
                if r \<noteq> OPRT_OK then a\<lparr>app_sensor := st\<rparr>
                else a\<lparr>app_sensor := st, app_gui := fst (gk_gui_update_hit_visual F M_PI hp st (app_gui a))\<rparr>))
       (gk_sensor_read_data F (app_cal a) True raw now (app_sensor a))"

text \<open>\<^verbatim>\<open>gk_bag_init\<close> only starts the task; \<open>thread_ret\<close> is the platform's answer.\<close>

definition gk_bag_init :: "operate_ret \<Rightarrow> operate_ret" where
  "gk_bag_init thread_ret = (if thread_ret \<noteq> OPRT_OK then OPRT_COM_ERROR else OPRT_OK)"

section \<open>The bag at rest\<close>

text \<open>
  The vertical channel of every slot in use of the two filter rings is at most \<open>-10\<close> N, as it is for a bag
  at rest once the offset of the initialisation has been subtracted from the reading of gravity.
\<close>

definition rest_inv :: "nat \<Rightarrow> real sensor_state \<Rightarrow> bool" where
  "rest_inv n st \<longleftrightarrow> is_initialized st \<and> n \<le> INDEX_WRAP \<and> history_index st = of_nat n \<and> history_count st = int (min n 5)
     \<and> length (history st) = 5 \<and> length (smoothed_history st) = 5
     \<and> (\<forall>i < min n 5. history st ! i ! 2 \<le> - 10 \<and> smoothed_history st ! i ! 2 \<le> - 10)"

lemma upt_6: "[0..<6] = [0, 1, 2, 3, 4, 5 :: nat]"
  by (simp add: upt_rec)

lemma median_member:
  assumes "xs \<noteq> []"
  shows "calculate_median real_ops xs \<in> set xs"
proof -
  have "sort xs ! (length xs div 2) \<in> set (sort xs)"
    using assms by (intro nth_mem) (simp add: div_less_dividend)
  then show ?thesis by (simp add: calculate_median_sort real_ops_def)
qed

lemma median_filter_rest:
  assumes "\<forall>i < m. history st ! i ! 2 \<le> - 10" "history_count st = int m" "0 < m"
  shows "median_filter real_ops st ! 2 \<le> - 10"
proof -
  have "calculate_median real_ops (map (\<lambda>i. history st ! i ! 2) [0..<m]) \<in> set (map (\<lambda>i. history st ! i ! 2) [0..<m])"
    using assms(3) by (intro median_member) simp
  then show ?thesis using assms(1,2) by (auto simp: median_filter_def upt_6)
qed

lemma fold_add_bound:
  "\<forall>i \<in> set is. f i \<le> (v :: real) \<Longrightarrow> fold (\<lambda>i s. s + f i) is a \<le> a + of_nat (length is) * v"
  by (induction "is" arbitrary: a) (auto simp: algebra_simps, smt (verit))

lemma moving_average_rest:
  assumes "\<forall>i < m. smoothed_history st ! i ! 2 \<le> - 10" "history_count st = int m" "0 < m" "m \<le> 5"
  shows "moving_average real_ops st ! 2 \<le> - 10"
proof -
  have e: "(if history_count st < 5 then history_count st else 5) = int m" using assms(2,4) by auto
  have "fold (\<lambda>i s. s + smoothed_history st ! i ! 2) [0..<m] 0 \<le> 0 + of_nat (length [0..<m]) * - 10"
    using assms(1) by (intro fold_add_bound) simp
  then show ?thesis
    using assms(3) unfolding moving_average_def Let_def e by (simp add: real_ops_def divide_le_eq upt_6 mult.commute)
qed

lemma ring_update_rest:
  assumes "j < min (Suc n) 5" "length xs = 5" "c ! 2 \<le> - 10" "\<And>j. j < min n 5 \<Longrightarrow> xs ! j ! 2 \<le> (- 10 :: real)"
  shows "xs[n mod 5 := c] ! j ! 2 \<le> - 10"
proof (cases "j = n mod 5")
  case False
  then have "j < min n 5" using assms(1) by (cases "n < 5") auto
  with False assms show ?thesis by simp
qed (use assms(2,3) in simp)

lemma rest_read:
  assumes inv: "rest_inv n st" and c: "calibrate_sample real_ops cal raw ! 2 \<le> - 10" and n: "n < INDEX_WRAP"
  shows "\<exists>d st'. gk_sensor_read_data real_ops cal True (OPRT_OK, raw) now st = Some (OPRT_OK, Some d, st')
    \<and> fz d \<le> - 10 \<and> rest_inv (Suc n) st' \<and> hit_count st' = hit_count st"
proof -
  let ?m = "min (Suc n) 5"
  have i: "is_initialized st" "history_index st = of_nat n" "history_count st = int (min n 5)"
    "length (history st) = 5" "length (smoothed_history st) = 5"
    and h: "\<And>i. i < min n 5 \<Longrightarrow> history st ! i ! 2 \<le> - 10" "\<And>i. i < min n 5 \<Longrightarrow> smoothed_history st ! i ! 2 \<le> - 10"
    using inv by (auto simp: rest_inv_def)
  define st1 where "st1 = st\<lparr>history := (history st)[n mod 5 := calibrate_sample real_ops cal raw], history_index := history_index st + 1,
      history_count := (if history_count st < 5 then history_count st + 1 else history_count st)\<rparr>"
  have p1: "push_history (calibrate_sample real_ops cal raw) st = Some st1" using i(2) n by (simp add: push_history_def st1_def ring_slot_ok)
  have st1: "\<forall>j < ?m. history st1 ! j ! 2 \<le> - 10" "history_count st1 = int ?m" "history_index st1 = of_nat (Suc n)"
    "smoothed_history st1 = smoothed_history st" "length (history st1) = 5" "is_initialized st1" "hit_count st1 = hit_count st"
    using ring_update_rest [OF _ i(4) c h(1)] i by (auto simp: st1_def)
  have med: "median_filter real_ops st1 ! 2 \<le> - 10"
    using st1 by (intro median_filter_rest [of ?m]) auto
  define st2 where "st2 = st1\<lparr>smoothed_history := (smoothed_history st1)[n mod 5 := median_filter real_ops st1]\<rparr>"
  have p2: "push_smoothed (median_filter real_ops st1) st1 = Some st2" using st1(3) n by (simp add: push_smoothed_def st2_def ring_slot_ok)
  have st2: "\<forall>j < ?m. smoothed_history st2 ! j ! 2 \<le> - 10" "history_count st2 = int ?m" "\<forall>j < ?m. history st2 ! j ! 2 \<le> - 10"
    "history_index st2 = of_nat (Suc n)" "length (history st2) = 5" "length (smoothed_history st2) = 5"
    "is_initialized st2" "hit_count st2 = hit_count st"
    using ring_update_rest [OF _ i(5) med h(2)] i st1 by (auto simp: st2_def)
  define d where "d = fill_data (moving_average real_ops st2) now"
  have "fz d \<le> - 10"
    using moving_average_rest [of ?m st2] st2 by (simp add: d_def fill_data_def)
  moreover have "gk_sensor_read_data real_ops cal True (OPRT_OK, raw) now st
      = Some (OPRT_OK, Some d, st2\<lparr>last_data := d, filtered_data := d\<rparr>)"
    using i(1) p1 p2 by (simp add: gk_sensor_read_data_def Let_def d_def [symmetric])
  moreover have "rest_inv (Suc n) (st2\<lparr>last_data := d, filtered_data := d\<rparr>)"
    using st2 n by (simp add: rest_inv_def)
  ultimately show ?thesis using st2(8) by simp
qed

lemma rest_hit:
  assumes "fz d \<le> - 10"
  shows "\<exists>hp st'. gk_calculate_hit_point real_ops (Some d) True st = (OPRT_OK, Some hp, st')
    \<and> hit_count st' = hit_count st + 1 \<and> (rest_inv n st \<longrightarrow> rest_inv n st')"
proof -
  let ?N = "fx d * fx d + fy d * fy d + fz d * fz d"
  have "(10 :: real) * 10 \<le> - fz d * - fz d" using assms by (intro mult_mono) auto
  then have N: "100 \<le> ?N" using zero_le_square [of "fx d"] zero_le_square [of "fy d"] by linarith
  have "sqrt 100 \<le> sqrt ?N" using N by (rule real_sqrt_le_mono)
  moreover have "sqrt 100 = (10 :: real)" by (rule real_sqrt_unique) simp_all
  ultimately have "\<not> sqrt ?N < 5" "\<not> ?N < 1 / 1000000" using N by auto
  then show ?thesis
    unfolding gk_calculate_hit_point_def Let_def by (simp add: real_ops_def of_rat_divide rest_inv_def)
qed

text \<open>A reading of the simulated hardware without a simulated punch.\<close>

definition no_punch :: "int list \<Rightarrow> bool" where
  "no_punch rs \<longleftrightarrow> length rs = 9 \<and> rs ! 6 mod 500 \<noteq> 0"

lemma calibrate_rest:
  assumes "no_punch rs"
  shows "\<exists>raw. fst (read_raw_sensor_data real_ops pi rs tc) = (OPRT_OK, raw)
    \<and> calibrate_sample real_ops (fst (snd (gk_sensor_init real_ops))) raw ! 2 \<le> - 10"
proof -
  have b: "x \<le> 99 \<Longrightarrow> (x - 50) / 1000 - 981 / 50 \<le> - 10" for x :: real by (simp add: field_simps)
  have "real_of_int (rs ! 2 mod 100) \<le> 99"
    using pos_mod_bound [of 100 "rs ! 2"] by linarith
  from b [OF this] show ?thesis
    using assms by (simp add: no_punch_def read_raw_sensor_data_def Let_def calibrate_sample_def gk_sensor_init_def
        real_ops_def upt_6 of_rat_divide)
qed

text \<open>A run of the main loop: in each iteration the numbers drawn, the simulation's counter and the clock.\<close>

fun bag_run :: "(int list \<times> real \<times> u32) list \<Rightarrow> real app \<Rightarrow> real app option" where
  "bag_run [] a = Some a"
| "bag_run ((rs, tc, now) # ticks) a = Option.bind (gk_bag_iter real_ops pi (fst (read_raw_sensor_data real_ops pi rs tc)) now a) (bag_run ticks)"

lemma rest_iter:
  assumes "rest_inv n (app_sensor a)" "app_cal a = fst (snd (gk_sensor_init real_ops))" "no_punch rs"
  shows "case gk_bag_iter real_ops pi (fst (read_raw_sensor_data real_ops pi rs tc)) now a of
      None \<Rightarrow> n = INDEX_WRAP
    | Some a' \<Rightarrow> rest_inv (Suc n) (app_sensor a') \<and> app_cal a' = app_cal a \<and> hit_count (app_sensor a') = hit_count (app_sensor a) + 1"
proof -
  obtain raw where raw: "fst (read_raw_sensor_data real_ops pi rs tc) = (OPRT_OK, raw)"
    "calibrate_sample real_ops (app_cal a) raw ! 2 \<le> - 10"
    using calibrate_rest [OF assms(3)] assms(2) by metis
  show ?thesis
  proof (cases "n < INDEX_WRAP")
    case True
    from rest_read [OF assms(1) raw(2) True, of now] obtain d st1 where
      r: "gk_sensor_read_data real_ops (app_cal a) True (OPRT_OK, raw) now (app_sensor a) = Some (OPRT_OK, Some d, st1)"
        "fz d \<le> - 10" "rest_inv (Suc n) st1" "hit_count st1 = hit_count (app_sensor a)"
      by auto
    from rest_hit [OF r(2), of st1 "Suc n"] r raw(1) show ?thesis by (auto simp: gk_bag_iter_def)
  next
    case False
    then have n: "n = INDEX_WRAP" using assms(1) by (simp add: rest_inv_def)
    then have "gk_sensor_read_data real_ops (app_cal a) True (OPRT_OK, raw) now (app_sensor a) = None"
      using assms(1) by (intro read_wrapped) (simp_all add: rest_inv_def)
    then show ?thesis using n by (simp add: gk_bag_iter_def raw(1))
  qed
qed

lemma rest_run:
  assumes "rest_inv n (app_sensor b)" "app_cal b = fst (snd (gk_sensor_init real_ops))"
    and "\<forall>(rs, tc, now) \<in> set ticks. no_punch rs"
  shows "case bag_run ticks b of
      None \<Rightarrow> INDEX_WRAP < n + length ticks
    | Some b' \<Rightarrow> n + length ticks \<le> INDEX_WRAP \<and> hit_count (app_sensor b') = hit_count (app_sensor b) + of_nat (length ticks)"
  using assms
proof (induction ticks arbitrary: b n)
  case Nil
  then show ?case by (simp add: rest_inv_def)
next
  case (Cons t ts)
  obtain rs tc now where t: "t = (rs, tc, now)" by (cases t)
  note r = rest_iter [OF Cons.prems(1,2), of rs tc now]
  show ?case
  proof (cases "gk_bag_iter real_ops pi (fst (read_raw_sensor_data real_ops pi rs tc)) now b")
    case None
    then show ?thesis using r Cons.prems(3) by (simp add: t)
  next
    case (Some b1)
    then have "rest_inv (Suc n) (app_sensor b1)" "app_cal b1 = app_cal b" "hit_count (app_sensor b1) = hit_count (app_sensor b) + 1"
      using r Cons.prems(3) by (simp_all add: t)
    with Cons.IH [of "Suc n" b1] Cons.prems Some show ?thesis by (simp add: t split: option.splits)
  qed
qed

section \<open>Strings in the user record\<close>

definition user_inv :: "gk_user_info \<Rightarrow> bool" where
  "user_inv u \<longleftrightarrow> length (user_id u) = 64 \<and> user_id u ! 63 = NUL \<and> length (username u) = 32 \<and> username u ! 31 = NUL"

lemma strncpy_shape:
  assumes "length buf = Suc n" "buf ! n = NUL"
  shows "length (strncpy buf n s) = Suc n \<and> strncpy buf n s ! n = NUL"
proof -
  have d: "drop n buf = [NUL]" using assms by (simp add: Cons_nth_drop_Suc [symmetric])
  have "length (take n (s @ replicate n NUL)) = n" by simp
  then show ?thesis unfolding strncpy_def d by (simp add: nth_append del: take_append)
qed

lemma c_str_strncpy:
  assumes "length buf = Suc n" "buf ! n = NUL" "NUL \<notin> set s"
  shows "c_str (strncpy buf n s) = take n s"
proof -
  have d: "drop n buf = [NUL]" using assms by (simp add: Cons_nth_drop_Suc [symmetric])
  have "\<forall>c\<in>set (take n s). c \<noteq> NUL" using assms(3) by (auto dest: in_set_takeD)
  then have "takeWhile (\<lambda>c. c \<noteq> NUL) (take n s @ replicate k NUL @ [NUL]) = take n s" for k
    by (subst takeWhile_append2) (cases k; simp)+
  then show ?thesis by (simp add: c_str_def strncpy_def d)
qed

section \<open>Properties\<close>

text \<open>
  C37. A bag that nobody touches counts a hit in every iteration of the main loop. In exact arithmetic:
  the resting sensor reads the force of gravity, \<open>-9.81\<close> N and noise on the vertical channel, the offset
  set by the initialisation has the opposite sign, so the calibrated force is about \<open>19.6\<close> N, above the
  threshold of 5 N, and the filters keep it. After any number of iterations without a punch the hit counter
  is that number, up to \<open>2^31\<close> iterations; the next one writes outside the filter ring.
\<close>

theorem bag_at_rest_counts_hits:
  assumes "gk_bag_start real_ops g u = Some a" and "\<forall>(rs, tc, now) \<in> set ticks. no_punch rs"
  shows "case bag_run ticks a of
      None \<Rightarrow> 2 ^ 31 < length ticks
    | Some a' \<Rightarrow> length ticks \<le> 2 ^ 31 \<and> hit_count (app_sensor a') = of_nat (length ticks)"
proof -
  have a: "app_sensor a = snd (snd (gk_sensor_init real_ops))" "app_cal a = fst (snd (gk_sensor_init real_ops))"
    using assms(1) by (auto simp: gk_bag_start_def split: prod.splits if_splits)
  have "rest_inv 0 (app_sensor a)" "hit_count (app_sensor a) = 0"
    by (simp_all add: a rest_inv_def gk_sensor_init_def)
  with rest_run [OF _ a(2) assms(2), of 0] show ?thesis by (simp split: option.splits)
qed

lemma bag_at_rest_counts_hits_witness:
  "\<exists>a a'. gk_bag_start real_ops gui0 (snd gk_user_auth_init) = Some a
    \<and> bag_run [([1, 2, 3, 4, 5, 6, 7, 8, 9], 0, 0), ([9, 8, 7, 6, 5, 4, 3, 2, 1], 0, 1)] a = Some a' \<and> hit_count (app_sensor a') = 2"
proof -
  obtain a where a: "gk_bag_start real_ops gui0 (snd gk_user_auth_init) = Some a"
    by (auto simp: gk_bag_start_def gk_gui_init_def gk_sensor_init_def Let_def)
  have "\<forall>(rs, tc, now) \<in> set [([1, 2, 3, 4, 5, 6, 7, 8, 9], 0, 0), ([9, 8, 7, 6, 5, 4, 3, 2, 1], 0, 1)]. no_punch rs"
    by (simp add: no_punch_def)
  from bag_at_rest_counts_hits [OF a this] a show ?thesis by (simp del: bag_run.simps split: option.splits)
qed

text \<open>The states the interface reaches by clicks on buttons of pages that exist and are not hidden.\<close>

inductive nav_reach :: "gui \<Rightarrow> bool" where
  nav_start: "gk_gui_init gui0 = (r, g) \<Longrightarrow> nav_reach (gk_gui_show_page GK_PAGE_MAIN_STATS g)"
| nav_click: "nav_reach g \<Longrightarrow> p < GK_PAGE_MAX \<Longrightarrow> g_pages g ! p \<Longrightarrow> \<not> page_hidden g ! p \<Longrightarrow>
    cb \<in> set (page_buttons g ! p) \<Longrightarrow> nav_reach (button_clicked cb g)"

lemma nav_start_state:
  "gk_gui_show_page GK_PAGE_MAIN_STATS (snd (gk_gui_init gui0)) = gui0\<lparr>g_pages := [True, True, True],
     page_hidden := [False, True, True], page_buttons := [[], [nav_to_hit_visual_cb, nav_to_training_cb],
       [training_mode_select_cb, training_mode_select_cb, training_mode_select_cb, training_mode_select_cb,
        training_mode_select_cb, nav_to_hit_visual_cb]]\<rparr>"
  by (simp add: gui0_def gk_gui_init_def gk_create_main_stats_page_def gk_create_hit_visual_page_def
      gk_create_training_page_def create_page_def gk_gui_show_page_def Let_def numeral_3_eq_3 numeral_2_eq_2 upt_rec)

lemma nav_reach_state: "nav_reach g \<Longrightarrow> g = gk_gui_show_page GK_PAGE_MAIN_STATS (snd (gk_gui_init gui0))"
proof (induction rule: nav_reach.induct)
  case (nav_start r g)
  then show ?case by simp
next
  case (nav_click g p cb)
  then have "p = 0 \<or> p = 1 \<or> p = 2" by auto
  then show ?case using nav_click by (auto simp: nav_start_state)
qed

text \<open>
  The application can never leave its first page: no sequence of button clicks from the start makes
  the hit display or the training page visible, since the statistics page has no button and the buttons
  that lead to the other pages are on these pages themselves.
\<close>

theorem navigation_is_stuck:
  assumes "nav_reach g"
  shows "g_current_page g = GK_PAGE_MAIN_STATS \<and> page_hidden g = [False, True, True]"
  using nav_reach_state [OF assms] unfolding nav_start_state by (simp add: gui0_def)

lemma navigation_is_stuck_witness:
  "page_hidden (gk_gui_show_page GK_PAGE_MAIN_STATS (snd (gk_gui_init gui0))) = [False, True, True]"
  using navigation_is_stuck [OF nav_start [OF prod.collapse [symmetric]]] by blast

text \<open>
  After a login the record holds the user's id and name, cut to the 63 and 31 characters that fit,
  and both buffers stay terminated inside their bounds; any other outcome that returns leaves the record
  unchanged.
\<close>

theorem user_login_stores:
  assumes "user_inv u" and "gk_user_login parse (Some qr) u = Ret (r, u')"
  shows "user_inv u' \<and> (r \<noteq> OPRT_OK \<longrightarrow> u' = u)
    \<and> (r = OPRT_OK \<longrightarrow> is_logged_in u' \<and> (\<exists>obj i n. parse qr = Some obj \<and> obj ''user_id'' = Some (Some i)
        \<and> obj ''username'' = Some (Some n)
        \<and> (NUL \<notin> set i \<longrightarrow> c_str (user_id u') = take 63 i) \<and> (NUL \<notin> set n \<longrightarrow> c_str (username u') = take 31 n)))"
proof (cases "r = OPRT_OK")
  case True
  then obtain obj i n where o: "parse qr = Some obj" "obj ''user_id'' = Some (Some i)" "obj ''username'' = Some (Some n)"
    and u': "u' = u\<lparr>user_id := strncpy (user_id u) 63 i, username := strncpy (username u) 31 n, is_logged_in := True\<rparr>"
    using assms(2) by (auto simp: gk_user_login_def split: if_splits option.splits)
  have "length (user_id u) = Suc 63" "length (username u) = Suc 31" "user_id u ! 63 = NUL" "username u ! 31 = NUL"
    using assms(1) by (auto simp: user_inv_def)
  with o u' True show ?thesis
    using strncpy_shape [of "user_id u" 63 i] strncpy_shape [of "username u" 31 n]
      c_str_strncpy [of "user_id u" 63 i] c_str_strncpy [of "username u" 31 n]
    by (auto simp: user_inv_def)
next
  case False
  then have "u' = u" using assms(2) by (auto simp: gk_user_login_def split: if_splits option.splits)
  with False assms(1) show ?thesis by simp
qed

lemma user_login_stores_witness:
  "\<exists>u'. gk_user_login (\<lambda>_. Some (\<lambda>_. Some (Some ''bob''))) (Some ''qr'') (snd gk_user_auth_init) = Ret (OPRT_OK, u')
    \<and> c_str (user_id u') = ''bob''"
proof -
  obtain u' where e: "gk_user_login (\<lambda>_. Some (\<lambda>_. Some (Some ''bob''))) (Some ''qr'') (snd gk_user_auth_init) = Ret (OPRT_OK, u')"
    by (simp add: gk_user_login_def)
  have "user_inv (snd gk_user_auth_init)" by (simp add: user_inv_def gk_user_auth_init_def)
  from user_login_stores [OF this e] e show ?thesis by (auto simp: NUL_def)
qed

text \<open>
  The hit marker is drawn on the bag: for every point of impact inside the square of 15 cm that the
  sensor reports, the marker's centre lies in the 60 pixel wide picture of the bag and at most 30
  pixels from its middle height.
\<close>

theorem hit_marker_on_bag:
  assumes "g_pages g ! GK_PAGE_HIT_VISUAL" and "\<bar>hit_x hp\<bar> \<le> 15" and "\<bar>hit_y hp\<bar> \<le> 15"
    and "gk_gui_update_hit_visual real_ops pi (Some hp) st g = (g', Some (cmds, labels))"
  shows "\<exists>cx cy r. cmds ! 3 = DrawArc cx cy r 0 360 \<and> cmds ! 0 = DrawRect 120 50 180 350
    \<and> 120 \<le> cx \<and> cx \<le> 180 \<and> 170 \<le> cy \<and> cy \<le> 230"
proof -
  have b: "- 30 \<le> to_int_f real_ops (fmul real_ops v (flit real_ops 2))"
    "to_int_f real_ops (fmul real_ops v (flit real_ops 2)) \<le> 30" if "\<bar>v\<bar> \<le> 15" for v
    using that by (auto simp: real_ops_def floor_le_iff le_floor_iff ceiling_le_iff le_ceiling_iff)
  have "\<exists>rs. cmds = [DrawRect 120 50 180 350, DrawArc 150 60 30 0 360, DrawArc 150 340 30 0 360,
      DrawArc (150 + to_int_f real_ops (fmul real_ops (hit_x hp) (flit real_ops 2)))
        (200 - to_int_f real_ops (fmul real_ops (hit_y hp) (flit real_ops 2)))
        (to_int_f real_ops (fadd real_ops (of_int_f real_ops 5) (fmul real_ops (hit_force hp) (flit real_ops (2 / 10))))) 0 360] @ rs"
    using assms(1,4) unfolding gk_gui_update_hit_visual_def Let_def by auto
  then show ?thesis using b [OF assms(2)] b [OF assms(3)] by auto
qed

lemma hit_marker_on_bag_witness:
  "\<exists>cmds labels cx cy r. snd (gk_gui_update_hit_visual real_ops pi
      (Some \<lparr>hit_x = 15, hit_y = - 3, hit_force = 8, hit_timestamp = 0\<rparr>) (snd (snd (gk_sensor_init real_ops)))
      (gui0\<lparr>g_pages := [True, True, True]\<rparr>)) = Some (cmds, labels) \<and> cmds ! 3 = DrawArc cx cy r 0 360 \<and> cx \<le> 180"
proof -
  let ?hp = "\<lparr>hit_x = 15, hit_y = - 3, hit_force = 8, hit_timestamp = 0\<rparr> :: real hit_point"
  let ?u = "gk_gui_update_hit_visual real_ops pi (Some ?hp) (snd (snd (gk_sensor_init real_ops)))
      (gui0\<lparr>g_pages := [True, True, True]\<rparr>)"
  obtain cmds labels where e: "?u = (fst ?u, Some (cmds, labels))"
    by (cases "snd ?u") (auto simp: gk_gui_update_hit_visual_def Let_def prod_eq_iff)
  have "\<exists>cx cy r. cmds ! 3 = DrawArc cx cy r 0 360 \<and> cmds ! 0 = DrawRect 120 50 180 350
    \<and> 120 \<le> cx \<and> cx \<le> 180 \<and> 170 \<le> cy \<and> cy \<le> 230"
    by (rule hit_marker_on_bag [OF _ _ _ e]) simp_all
  moreover have "snd ?u = Some (cmds, labels)" using e by (metis snd_conv)
  ultimately show ?thesis by blast
qed

end
