(* ===== verification/BagGraphics.thy ===== *)
theory BagGraphics
  imports GkBag
begin

text \<open>
  The statistics page of the boxing bag, \<^verbatim>\<open>apps/gk_bag/src/gui_graphics.c\<close>: the stick figure, the pentagon of
  the combat statistics, and the page that holds both. The graphics library is reduced to the objects of
  the page: creating one makes it live, cleaning the page deletes them all, and an access to a deleted
  object is the result \<open>None\<close>. Colours, fonts and alignment are left out.
\<close>

section \<open>Model\<close>

record gk_combat_stats =
  speed :: int
  power_stat :: int
  endurance :: int
  accuracy :: int
  technique :: int

record gfx =
  g_combat_stats_canvas :: "nat option"
  g_stick_figure_canvas :: "nat option"
  g_current_stats :: gk_combat_stats
  live_objs :: "nat list"
  next_obj :: nat

definition gfx0 :: gfx where
  "gfx0 = \<lparr>g_combat_stats_canvas = None, g_stick_figure_canvas = None,
     g_current_stats = \<lparr>speed = 50, power_stat = 50, endurance = 50, accuracy = 50, technique = 50\<rparr>,
     live_objs = [], next_obj = 0\<rparr>"

definition lv_create :: "gfx \<Rightarrow> nat \<times> gfx" where
  "lv_create g = (next_obj g, g\<lparr>live_objs := next_obj g # live_objs g, next_obj := next_obj g + 1\<rparr>)"

definition lv_obj_clean :: "gfx \<Rightarrow> gfx" where
  "lv_obj_clean g = g\<lparr>live_objs := []\<rparr>"

definition on_canvas :: "nat \<Rightarrow> gfx \<Rightarrow> draw_cmd list \<Rightarrow> (gfx \<times> draw_cmd list) option" where
  "on_canvas c g cmds = (if c \<in> set (live_objs g) then Some (g, cmds) else None)"

text \<open>The stick figure on its 200 by 300 canvas, scaled by height and weight, with hair and skirt for gender 1.\<close>

definition stick_figure :: "'f float_ops \<Rightarrow> int \<Rightarrow> int \<Rightarrow> int \<Rightarrow> draw_cmd list" where
  "stick_figure F h w g =
     (let height_scale = fdiv F (of_int_f F h) (flit F 170);
          weight_scale = fdiv F (of_int_f F w) (flit F 70);
          head_radius = to_int_f F (fmul F (of_int_f F 15) height_scale);
          torso_length = to_int_f F (fmul F (of_int_f F 80) height_scale);
          arm_length = to_int_f F (fmul F (of_int_f F 60) height_scale);
          leg_length = to_int_f F (fmul F (of_int_f F 90) height_scale);
          line_width = to_int_f F (fadd F (of_int_f F 2) (fmul F weight_scale (of_int_f F 2)));
          center_x = 100; start_y = 50;
          torso_top = start_y + head_radius * 2;
          torso_bottom = torso_top + torso_length;
          arm_y = torso_top + torso_length sdiv 3;
          body = [DrawArc center_x (start_y + head_radius) head_radius 0 360,
                  DrawLine center_x torso_top center_x torso_bottom line_width,
                  DrawLine (center_x - arm_length) (arm_y - 10) center_x arm_y line_width,
                  DrawLine center_x arm_y (center_x + arm_length) (arm_y - 10) line_width,
                  DrawLine center_x torso_bottom (center_x - 30) (torso_bottom + leg_length) line_width,
                  DrawLine center_x torso_bottom (center_x + 30) (torso_bottom + leg_length) line_width];
          female = [DrawArc center_x (start_y + head_radius - 5) (head_radius + 5) 180 360,
                    DrawTriangle [(center_x - 25, torso_top + torso_length * 2 sdiv 3),
                                  (center_x + 25, torso_top + torso_length * 2 sdiv 3),
                                  (center_x, torso_bottom)]]
      in body @ (if g = 1 then female else []))"

definition gk_gui_draw_stick_figure ::
  "'f float_ops \<Rightarrow> int \<Rightarrow> int \<Rightarrow> int \<Rightarrow> gfx \<Rightarrow> (gfx \<times> draw_cmd list) option" where
  "gk_gui_draw_stick_figure F hgt wgt gdr g =
     (case (case g_stick_figure_canvas g of
              None \<Rightarrow> (case lv_create g of (c, g) \<Rightarrow> (c, g\<lparr>g_stick_figure_canvas := Some c\<rparr>))
            | Some c \<Rightarrow> (c, g)) of
        (c, g) \<Rightarrow> on_canvas c g (stick_figure F hgt wgt gdr))"

text \<open>
  The pentagon on its 400 by 300 canvas. \<open>vertex\<close> is the point at distance \<open>radius\<close> from the centre in the
  direction of corner \<open>i\<close>.
\<close>

definition vertex :: "'f float_ops \<Rightarrow> 'f \<Rightarrow> 'f \<Rightarrow> nat \<Rightarrow> int \<times> int" where
  "vertex F M_PI radius i =
     (let angle = fadd F (fdiv F (fneg F M_PI) (of_int_f F 2))
            (fdiv F (fmul F (fmul F (of_int_f F 2) M_PI) (of_int_f F (int i))) (flit F 5))
      in (200 + to_int_f F (fmul F radius (cosf F angle)), 150 + to_int_f F (fmul F radius (sinf F angle))))"

definition draw_line :: "int \<times> int \<Rightarrow> int \<times> int \<Rightarrow> int \<Rightarrow> draw_cmd" where
  "draw_line p q w = DrawLine (fst p) (snd p) (fst q) (snd q) w"

definition pentagon_grid :: "'f float_ops \<Rightarrow> 'f \<Rightarrow> draw_cmd list" where
  "pentagon_grid F M_PI =
     concat (map (\<lambda>level.
        (let radius = fdiv F (of_int_f F (100 * int level)) (flit F 5);
             pentagon_points = map (\<lambda>i. vertex F M_PI radius (i mod 5)) [0..<6]
         in map (\<lambda>i. draw_line (pentagon_points ! i) (pentagon_points ! (i + 1)) 1) [0..<5])) [1..<6])"

definition pentagon_axes :: "'f float_ops \<Rightarrow> 'f \<Rightarrow> draw_cmd list" where
  "pentagon_axes F M_PI = map (\<lambda>i. draw_line (200, 150) (vertex F M_PI (of_int_f F 100) i) 1) [0..<5]"

definition stats_points :: "'f float_ops \<Rightarrow> 'f \<Rightarrow> int list \<Rightarrow> (int \<times> int) list" where
  "stats_points F M_PI stats_values =
     map (\<lambda>i. vertex F M_PI (fdiv F (of_int_f F (100 * stats_values ! (i mod 5))) (flit F 100)) (i mod 5)) [0..<6]"

text \<open>The \<^verbatim>\<open>snprintf\<close> of the values has eight characters.\<close>

definition stats_labels :: "'f float_ops \<Rightarrow> 'f \<Rightarrow> int list \<Rightarrow> draw_cmd list" where
  "stats_labels F M_PI stats_values =
     concat (map (\<lambda>i.
        (case vertex F M_PI (of_int_f F (100 + 20)) i of (vx, vy) \<Rightarrow>
           (let x = vx - 20; y = vy - 7
            in [DrawLabel x y (x + 40) (y + 14) (StatName i),
                DrawLabel (x + 5) (y + 16) (x + 5 + 30) (y + 16 + 12) (StatValue (take 7 (int_digits (stats_values ! i))))])))
      [0..<5])"

definition gk_gui_update_combat_stats ::
  "'f float_ops \<Rightarrow> 'f \<Rightarrow> gk_combat_stats option \<Rightarrow> gfx \<Rightarrow> (gfx \<times> draw_cmd list) option" where
  "gk_gui_update_combat_stats F M_PI stats g =
     (let g = (case stats of Some s \<Rightarrow> g\<lparr>g_current_stats := s\<rparr> | None \<Rightarrow> g)
      in case g_combat_stats_canvas g of
           None \<Rightarrow> Some (g, [])
         | Some c \<Rightarrow>
             (let cs = g_current_stats g;
                  stats_values = [speed cs, power_stat cs, endurance cs, accuracy cs, technique cs];
                  pts = stats_points F M_PI stats_values
              in on_canvas c g
                   (pentagon_grid F M_PI @ pentagon_axes F M_PI
                    @ map (\<lambda>i. draw_line (pts ! i) (pts ! (i + 1)) 3) [0..<5]
                    @ map (\<lambda>i. DrawTriangle [(200, 150), pts ! i, pts ! (i + 1)]) [0..<5]
                    @ stats_labels F M_PI stats_values)))"

text \<open>The page: it is cleaned, then the title, the figure, the pentagon and the hint are added.\<close>

definition gk_gui_update_main_stats_page ::
  "'f float_ops \<Rightarrow> 'f \<Rightarrow> bool \<Rightarrow> gk_user_info \<Rightarrow> gfx \<Rightarrow> (gfx \<times> draw_cmd list) option" where
  "gk_gui_update_main_stats_page F M_PI page u g =
     (if \<not> page then Some (g, [])
      else
        (let g = snd (lv_create (lv_obj_clean g)); user = gk_get_user_info u
         in case gk_gui_draw_stick_figure F (height user) (weight user) (gender user) g of
              None \<Rightarrow> None
            | Some (g, d1) \<Rightarrow>
                (let g = (case g_combat_stats_canvas g of
                            None \<Rightarrow> (case lv_create g of (c, g) \<Rightarrow> g\<lparr>g_combat_stats_canvas := Some c\<rparr>)
                          | Some c \<Rightarrow> g)
                 in case gk_gui_update_combat_stats F M_PI None g of
                      None \<Rightarrow> None
                    | Some (g, d2) \<Rightarrow> Some (snd (lv_create g), d1 @ d2))))"

section \<open>The drawing stays on its canvas\<close>

fun in_canvas :: "int \<Rightarrow> int \<Rightarrow> draw_cmd \<Rightarrow> bool" where
  "in_canvas w h (DrawLine x1 y1 x2 y2 _) \<longleftrightarrow> {x1, x2} \<subseteq> {0..w} \<and> {y1, y2} \<subseteq> {0..h}"
| "in_canvas w h (DrawRect x1 y1 x2 y2) \<longleftrightarrow> {x1, x2} \<subseteq> {0..w} \<and> {y1, y2} \<subseteq> {0..h}"
| "in_canvas w h (DrawLabel x1 y1 x2 y2 _) \<longleftrightarrow> {x1, x2} \<subseteq> {0..w} \<and> {y1, y2} \<subseteq> {0..h}"
| "in_canvas w h (DrawArc x y r _ _) \<longleftrightarrow> 0 \<le> x - r \<and> x + r \<le> w \<and> 0 \<le> y - r \<and> y + r \<le> h"
| "in_canvas w h (DrawTriangle ps) \<longleftrightarrow> (\<forall>(x, y) \<in> set ps. x \<in> {0..w} \<and> y \<in> {0..h})"

text \<open>A point of the pentagon at distance at most \<open>m\<close> from the centre.\<close>

definition near_centre :: "int \<Rightarrow> int \<times> int \<Rightarrow> bool" where
  "near_centre m p \<longleftrightarrow> 200 - m \<le> fst p \<and> fst p \<le> 200 + m \<and> 150 - m \<le> snd p \<and> snd p \<le> 150 + m"

lemma trunc_bound:
  assumes "\<bar>v\<bar> \<le> (of_int m :: real)"
  shows "- m \<le> to_int_f real_ops v" "to_int_f real_ops v \<le> m"
  using assms by (auto simp: real_ops_def floor_le_iff le_floor_iff ceiling_le_iff le_ceiling_iff)

lemma vertex_near:
  assumes "0 \<le> r" "r \<le> of_int m"
  shows "near_centre m (vertex real_ops pi r i)"
proof -
  have "\<bar>r * cos a\<bar> \<le> of_int m" "\<bar>r * sin a\<bar> \<le> of_int m" for a
    using assms mult_mono [OF assms(2) abs_cos_le_one [of a]] mult_mono [OF assms(2) abs_sin_le_one [of a]]
    by (simp_all add: abs_mult)
  note b = this [THEN trunc_bound(1)] this [THEN trunc_bound(2)]
  show ?thesis
    unfolding near_centre_def vertex_def Let_def fst_conv snd_conv using b by (simp add: real_ops_def)
qed

lemma near_lines:
  assumes "near_centre 100 p" "near_centre 100 q"
  shows "in_canvas 400 300 (draw_line p q w)" "in_canvas 400 300 (DrawTriangle [(200, 150), p, q])"
  using assms by (auto simp: near_centre_def draw_line_def split_beta)

lemma grid_in_canvas: "cmd \<in> set (pentagon_grid real_ops pi) \<Longrightarrow> in_canvas 400 300 cmd"
proof -
  have v: "near_centre 100 (vertex real_ops pi (fdiv real_ops (of_int_f real_ops (100 * int level)) (flit real_ops 5)) i)"
    if "level < 6" for level i
    using that by (intro vertex_near) (simp_all add: real_ops_def)
  then show "cmd \<in> set (pentagon_grid real_ops pi) \<Longrightarrow> in_canvas 400 300 cmd"
    by (auto simp: pentagon_grid_def Let_def intro!: near_lines v)
qed

lemma axes_in_canvas: "cmd \<in> set (pentagon_axes real_ops pi) \<Longrightarrow> in_canvas 400 300 cmd"
proof -
  have "near_centre 100 (vertex real_ops pi (of_int_f real_ops 100) i)" for i
    by (intro vertex_near) (simp_all add: real_ops_def)
  moreover have "near_centre 100 (200, 150)" by (simp add: near_centre_def)
  ultimately show "cmd \<in> set (pentagon_axes real_ops pi) \<Longrightarrow> in_canvas 400 300 cmd"
    by (auto simp: pentagon_axes_def intro!: near_lines)
qed

lemma labels_in_canvas:
  assumes "cmd \<in> set (stats_labels real_ops pi vs)"
  shows "in_canvas 400 300 cmd"
proof -
  obtain i where i: "cmd \<in> set (case vertex real_ops pi (of_int_f real_ops (100 + 20)) i of (vx, vy) \<Rightarrow>
      (let x = vx - 20; y = vy - 7 in [DrawLabel x y (x + 40) (y + 14) (StatName i),
        DrawLabel (x + 5) (y + 16) (x + 5 + 30) (y + 16 + 12) (StatValue (take 7 (int_digits (vs ! i))))]))"
    using assms unfolding stats_labels_def by auto
  have "near_centre 120 (vertex real_ops pi (of_int_f real_ops (100 + 20)) i)"
    by (intro vertex_near) (simp_all add: real_ops_def)
  with i show ?thesis
    by (cases "vertex real_ops pi (of_int_f real_ops (100 + 20)) i") (auto simp: near_centre_def Let_def)
qed

lemma length_stats_drawing:
  "length (pentagon_grid F M_PI) = 25" "length (pentagon_axes F M_PI) = 5" "length (stats_labels F M_PI vs) = 10"
  by (simp_all add: pentagon_grid_def pentagon_axes_def stats_labels_def Let_def upt_rec split_beta)

lemma stats_points_near:
  assumes "length vs = 5" "\<forall>v \<in> set vs. 0 \<le> v \<and> v \<le> 100" "i < 6"
  shows "near_centre 100 (stats_points real_ops pi vs ! i)"
proof -
  have "vs ! (i mod 5) \<in> set vs" using assms(1) by simp
  with assms(2) have "0 \<le> vs ! (i mod 5)" "vs ! (i mod 5) \<le> 100" by blast+
  then show ?thesis using assms(3) by (simp add: stats_points_def del: upt_Suc) (intro vertex_near; simp add: real_ops_def)
qed

section \<open>Properties\<close>

text \<open>
  The pentagon of the combat statistics stays on its canvas of 400 by 300 pixels: for statistics
  between 0 and 100 every line, triangle and label of the drawing lies in it, in exact arithmetic, and
  the statistics are stored.
\<close>

theorem combat_stats_on_canvas:
  assumes "g_combat_stats_canvas g = Some c" and "c \<in> set (live_objs g)"
    and "\<forall>v \<in> {speed s, power_stat s, endurance s, accuracy s, technique s}. 0 \<le> v \<and> v \<le> 100"
  shows "\<exists>cmds. gk_gui_update_combat_stats real_ops pi (Some s) g = Some (g\<lparr>g_current_stats := s\<rparr>, cmds)
    \<and> length cmds = 50 \<and> (\<forall>cmd \<in> set cmds. in_canvas 400 300 cmd)"
proof -
  let ?vs = "[speed s, power_stat s, endurance s, accuracy s, technique s]"
  let ?pts = "stats_points real_ops pi ?vs"
  let ?cmds = "pentagon_grid real_ops pi @ pentagon_axes real_ops pi
      @ map (\<lambda>i. draw_line (?pts ! i) (?pts ! (i + 1)) 3) [0..<5]
      @ map (\<lambda>i. DrawTriangle [(200, 150), ?pts ! i, ?pts ! (i + 1)]) [0..<5]
      @ stats_labels real_ops pi ?vs"
  have n: "near_centre 100 (?pts ! i)" if "i < 6" for i
    by (rule stats_points_near) (use assms(3) that in auto)
  have "in_canvas 400 300 (draw_line (?pts ! i) (?pts ! (i + 1)) 3)"
    "in_canvas 400 300 (DrawTriangle [(200, 150), ?pts ! i, ?pts ! (i + 1)])" if "i < 5" for i
    by (rule near_lines; rule n; use that in simp)+
  then have "\<forall>cmd \<in> set ?cmds. in_canvas 400 300 cmd"
    using grid_in_canvas axes_in_canvas labels_in_canvas [of _ ?vs] by (auto simp del: in_canvas.simps)
  moreover have "length ?cmds = 50" by (simp add: length_stats_drawing)
  moreover have "gk_gui_update_combat_stats real_ops pi (Some s) g = Some (g\<lparr>g_current_stats := s\<rparr>, ?cmds)"
    using assms(1,2) by (simp add: gk_gui_update_combat_stats_def on_canvas_def Let_def)
  ultimately show ?thesis by blast
qed

lemma combat_stats_on_canvas_witness:
  "\<exists>cmds. gk_gui_update_combat_stats real_ops pi
      (Some \<lparr>speed = 100, power_stat = 0, endurance = 50, accuracy = 7, technique = 99\<rparr>)
      (gfx0\<lparr>g_combat_stats_canvas := Some 3, live_objs := [3]\<rparr>)
    = Some (gfx0\<lparr>g_combat_stats_canvas := Some 3, live_objs := [3],
        g_current_stats := \<lparr>speed = 100, power_stat = 0, endurance = 50, accuracy = 7, technique = 99\<rparr>\<rparr>, cmds)
    \<and> length cmds = 50"
  using combat_stats_on_canvas [of "gfx0\<lparr>g_combat_stats_canvas := Some 3, live_objs := [3]\<rparr>" 3
      "\<lparr>speed = 100, power_stat = 0, endurance = 50, accuracy = 7, technique = 99\<rparr>"] by auto

text \<open>
  The statistics page can be shown only once: the first update creates both canvases, and each later
  one first deletes them with the page's content but keeps the pointers to them, so it draws on a deleted
  object.
\<close>

theorem main_stats_page_dangling:
  "(\<exists>g cmds. gk_gui_update_main_stats_page F M_PI True u gfx0 = Some (g, cmds)
      \<and> gk_gui_update_main_stats_page F' M_PI' True u' g = None)"
  by (simp add: gk_gui_update_main_stats_page_def gk_gui_draw_stick_figure_def gk_gui_update_combat_stats_def
      gfx0_def lv_create_def lv_obj_clean_def on_canvas_def Let_def)

end
