(* ===== verification/TimeService.thy ===== *)
theory TimeService
  imports Prelude
begin

text \<open>
  The clock and calendar of \<^verbatim>\<open>src/tal_system/src/tal_time_serivce.c\<close>. \<^verbatim>\<open>TIME_T\<close> is a 32-bit
  word, the millisecond counters are 64-bit words, the fields of \<^verbatim>\<open>POSIX_TM_S\<close> are integers, as in the
  source. The value of \<^verbatim>\<open>tal_system_get_millisecond\<close> is an argument of the operations that read it. The
  mutex only serialises the calls; the static variables of the module are one record.
\<close>

section \<open>Calendar\<close>

abbreviation SEC_PER_DAY :: u32 where "SEC_PER_DAY \<equiv> 86400"
abbreviation SEC_PER_HOUR :: u32 where "SEC_PER_HOUR \<equiv> 3600"

record posix_tm =
  tm_sec :: int
  tm_min :: int
  tm_hour :: int
  tm_mday :: int
  tm_mon :: int
  tm_year :: int
  tm_wday :: int

definition SEC_PER_YR :: "nat \<Rightarrow> u32" where
  "SEC_PER_YR leap = [31536000, 31622400] ! leap"

definition SEC_PER_MT :: "nat \<Rightarrow> u32 list" where
  "SEC_PER_MT leap =
     [[2678400, 2419200, 2678400, 2592000, 2678400, 2592000, 2678400, 2678400, 2592000, 2678400, 2592000, 2678400],
      [2678400, 2505600, 2678400, 2592000, 2678400, 2592000, 2678400, 2678400, 2592000, 2678400, 2592000, 2678400]] ! leap"

definition is_leap :: "int \<Rightarrow> nat" where
  "is_leap yr =
     (if yr mod 100 = 0 then (if yr mod 400 = 0 then 1 else 0) else (if yr mod 4 = 0 then 1 else 0))"

definition is_valid_date_time :: "posix_tm \<Rightarrow> int" where
  "is_valid_date_time tm =
     (if tm_sec tm > 59 then -1
      else if tm_min tm > 59 then -1
      else if tm_hour tm > 23 then -1
      else if tm_year tm + 1900 < 1970 \<or> tm_year tm + 1900 > 2111 then -1
      else if tm_mon tm \<ge> 12 then -1
      else if tm_mon tm = 1 \<and> is_leap (tm_year tm + 1900) = 0 \<and> tm_mday tm > 28 then -1
      else if tm_mon tm = 1 \<and> is_leap (tm_year tm + 1900) \<noteq> 0 \<and> tm_mday tm > 29 then -1
      else if (tm_mon tm = 3 \<or> tm_mon tm = 5 \<or> tm_mon tm = 8 \<or> tm_mon tm = 10) \<and> tm_mday tm > 30 then -1
      else if tm_mday tm < 1 \<or> tm_mday tm > 31 then -1
      else 0)"

text \<open>Month 1 to 12; the year is a 16-bit number, from which January and February take one.\<close>

definition get_day_of_week :: "nat \<Rightarrow> nat \<Rightarrow> nat \<Rightarrow> nat" where
  "get_day_of_week month day year =
     (let t = [0, 3, 2, 5, 0, 3, 5, 1, 4, 6, 2, 4];
          year = year - (if month < 3 then 1 else 0)
      in (year + year div 4 - year div 100 + year div 400 + t ! (month - 1) + day) mod 7)"

definition tal_time_mktime :: "posix_tm option \<Rightarrow> u32" where
  "tal_time_mktime tm =
     (case tm of
        None \<Rightarrow> 0
      | Some tm \<Rightarrow>
          (let time = fold (\<lambda>i time. time + SEC_PER_YR (is_leap i)) [1970..tm_year tm + 1900 - 1] 0;
               leapyr = (if is_leap (tm_year tm + 1900) \<noteq> 0 then 1 else 0);
               time = fold (\<lambda>i time. time + SEC_PER_MT leapyr ! i) [0..<nat (tm_mon tm)] time;
               time = time + of_int (tm_mday tm - 1) * SEC_PER_DAY;
               time = time + of_int (tm_hour tm) * SEC_PER_HOUR;
               time = time + of_int (tm_min tm) * 60
           in time + of_int (tm_sec tm)))"

lemma SEC_PER_YR_pos: "0 < SEC_PER_YR (is_leap y)" "SEC_PER_YR (is_leap y) \<noteq> 0"
  by (simp_all add: SEC_PER_YR_def is_leap_def)

text \<open>The two search loops of \<^verbatim>\<open>tal_time_gmtime_r\<close>: over the years, and over the months of the table row.\<close>

function gm_years :: "u32 \<Rightarrow> int \<Rightarrow> u32 \<times> int" where
  "gm_years ltm y =
     (if ltm < SEC_PER_YR (is_leap y) then (ltm, y) else gm_years (ltm - SEC_PER_YR (is_leap y)) (y + 1))"
  by pat_completeness auto
termination
proof (relation "measure (\<lambda>(ltm, y). unat ltm)")
  fix ltm :: u32 and y :: int
  assume "\<not> ltm < SEC_PER_YR (is_leap y)"
  then have "unat (ltm - SEC_PER_YR (is_leap y)) = unat ltm - unat (SEC_PER_YR (is_leap y))"
    "unat (SEC_PER_YR (is_leap y)) \<le> unat ltm"
    by (simp_all add: unat_sub not_less word_le_nat_alt)
  moreover have "0 < unat (SEC_PER_YR (is_leap y))" using SEC_PER_YR_pos [of y] by (simp add: word_less_nat_alt)
  ultimately show "((ltm - SEC_PER_YR (is_leap y), y + 1), (ltm, y)) \<in> measure (\<lambda>(ltm, y). unat ltm)" by simp
qed simp

declare gm_years.simps [simp del]

text \<open>An exhausted row would be a read outside the table; \<open>gm_months_stop\<close> below shows it does not happen.\<close>

fun gm_months :: "u32 \<Rightarrow> u32 list \<Rightarrow> int \<Rightarrow> u32 \<times> int" where
  "gm_months ltm [] mon = (ltm, mon)"
| "gm_months ltm (s # ss) mon = (if ltm < s then (ltm, mon) else gm_months (ltm - s) ss (mon + 1))"

definition tal_time_gmtime_r :: "u32 \<Rightarrow> posix_tm" where
  "tal_time_gmtime_r tm =
     (case gm_years tm 1970 of (ltm, year) \<Rightarrow>
        (case gm_months ltm (SEC_PER_MT (is_leap year)) 0 of (ltm, mon) \<Rightarrow>
           (let mday = uint (ltm div SEC_PER_DAY) + 1;
                ltm = ltm mod SEC_PER_DAY;
                hour = uint (ltm div SEC_PER_HOUR);
                ltm = ltm mod SEC_PER_HOUR
            in \<lparr>tm_sec = uint (ltm mod 60), tm_min = uint (ltm div 60), tm_hour = hour, tm_mday = mday,
                tm_mon = mon, tm_year = year - 1900,
                tm_wday = int (get_day_of_week (nat (mon + 1)) (nat mday) (nat year))\<rparr>)))"

section \<open>Clock state\<close>

record sum_zone =
  posix_min :: u32
  posix_max :: u32

abbreviation SUM_ZONE_TAB_LMT :: nat where "SUM_ZONE_TAB_LMT \<equiv> 6"

record time_state =
  s_time_mutex :: bool
  s_time_last_ms :: u64
  s_time_tz_sync :: bool
  s_time_tz :: int
  s_time_sz_tbl :: "sum_zone list"
  s_time_cloud_sync :: bool
  s_time_cloud_posix :: u32
  s_time_disable_update :: bool
  sys_last_ms :: u64
  sys_roll_ms :: u64

definition tal_time_is_in_sum_zone :: "u32 \<Rightarrow> time_state \<Rightarrow> bool" where
  "tal_time_is_in_sum_zone time s = list_ex (\<lambda>z. time \<ge> posix_min z \<and> time \<le> posix_max z) (s_time_sz_tbl s)"

definition tal_time_service_init :: "operate_ret \<Rightarrow> u64 \<Rightarrow> time_state \<Rightarrow> operate_ret \<times> time_state" where
  "tal_time_service_init mutex_ret ms s =
     (if s_time_mutex s then (OPRT_OK, s)
      else if mutex_ret \<noteq> OPRT_OK then (mutex_ret, s)
      else (OPRT_OK, s\<lparr>s_time_mutex := True, s_time_cloud_posix := 0, s_time_last_ms := ms, s_time_sz_tbl := []\<rparr>))"

definition tal_time_set_posix :: "u32 \<Rightarrow> int \<Rightarrow> u64 \<Rightarrow> time_state \<Rightarrow> operate_ret \<times> time_state" where
  "tal_time_set_posix time update_source ms s =
     (let s = (if \<not> s_time_disable_update s
               then (let s = s\<lparr>s_time_cloud_posix := time, s_time_last_ms := ms\<rparr>
                     in if update_source = 1 then s\<lparr>s_time_cloud_sync := True\<rparr> else s)
               else s)
      in (OPRT_OK, s))"

definition tal_time_set :: "posix_tm \<Rightarrow> u64 \<Rightarrow> time_state \<Rightarrow> operate_ret \<times> time_state" where
  "tal_time_set tm ms s =
     (if is_valid_date_time tm = 0 then tal_time_set_posix (tal_time_mktime (Some tm)) 2 ms s
      else (OPRT_COM_ERROR, s))"

definition tal_time_get_cur_posix :: "time_state \<Rightarrow> u32" where
  "tal_time_get_cur_posix s = s_time_cloud_posix s"

definition tal_time_check_time_sync :: "time_state \<Rightarrow> operate_ret" where
  "tal_time_check_time_sync s = (if \<not> s_time_cloud_sync s then OPRT_COM_ERROR else OPRT_OK)"

definition tal_time_check_time_zone_sync :: "time_state \<Rightarrow> operate_ret" where
  "tal_time_check_time_zone_sync s = (if \<not> s_time_tz_sync s then OPRT_COM_ERROR else OPRT_OK)"

text \<open>The counter has run over when it is below the last value: what was left of it is added first.\<close>

definition recycle :: "u64 \<Rightarrow> time_state \<Rightarrow> time_state" where
  "recycle ms s =
     (if s_time_last_ms s > ms
      then s\<lparr>s_time_cloud_posix := s_time_cloud_posix s + ucast ((0x100000000 - s_time_last_ms s) div 1000),
             s_time_last_ms := 0\<rparr>
      else s)"

definition tal_time_get_posix :: "u64 \<Rightarrow> time_state \<Rightarrow> u32 \<times> time_state" where
  "tal_time_get_posix ms s =
     (let s = recycle ms s in (s_time_cloud_posix s + ucast ((ms - s_time_last_ms s) div 1000), s))"

definition tal_time_get_posix_ms :: "u64 \<Rightarrow> time_state \<Rightarrow> u64 \<times> time_state" where
  "tal_time_get_posix_ms ms s =
     (let s = recycle ms s in (ucast (s_time_cloud_posix s) * 1000 + (ms - s_time_last_ms s), s))"

definition tal_time_get :: "bool \<Rightarrow> u64 \<Rightarrow> time_state \<Rightarrow> operate_ret \<times> posix_tm option \<times> time_state" where
  "tal_time_get out ms s =
     (if \<not> out then (OPRT_INVALID_PARM, None, s)
      else (case tal_time_get_posix ms s of (t, s) \<Rightarrow> (OPRT_OK, Some (tal_time_gmtime_r t), s)))"

text \<open>Seconds and milliseconds since start, as the 32-bit results the caller gets.\<close>

definition tal_time_get_system_time :: "u64 \<Rightarrow> time_state \<Rightarrow> (u32 \<times> u32) \<times> time_state" where
  "tal_time_get_system_time ms s =
     (let s = (if sys_last_ms s > ms then s\<lparr>sys_roll_ms := sys_roll_ms s + 0x100000000\<rparr> else s);
          total = ms + sys_roll_ms s
      in ((ucast (total div 1000), ucast (total mod 1000)), s\<lparr>sys_last_ms := ms\<rparr>))"

section \<open>Time zones\<close>

definition digit_of :: "char \<Rightarrow> int option" where
  "digit_of c = (let n = of_char c :: nat in if 48 \<le> n \<and> n \<le> 57 then Some (int n - 48) else None)"

text \<open>\<^verbatim>\<open>sscanf\<close> with \<^verbatim>\<open>%d\<close>: blanks, a sign and digits; the number and what follows.\<close>

fun digits_val :: "int \<Rightarrow> string \<Rightarrow> int \<times> string" where
  "digits_val acc [] = (acc, [])"
| "digits_val acc (c # cs) =
     (case digit_of c of None \<Rightarrow> (acc, c # cs) | Some d \<Rightarrow> digits_val (10 * acc + d) cs)"

definition scan_nat :: "string \<Rightarrow> (int \<times> string) option" where
  "scan_nat s = (if s \<noteq> [] \<and> digit_of (hd s) \<noteq> None then Some (digits_val 0 s) else None)"

definition scan_int :: "string \<Rightarrow> (int \<times> string) option" where
  "scan_int s =
     (case dropWhile (\<lambda>c. c \<in> {CHR '' '', CHR 0x09, CHR 0x0A, CHR 0x0B, CHR 0x0C, CHR 0x0D}) s of
        [] \<Rightarrow> None
      | c # cs \<Rightarrow>
          if c = CHR ''-'' then map_option (\<lambda>(n, r). (- n, r)) (scan_nat cs)
          else if c = CHR ''+'' then scan_nat cs
          else scan_nat (c # cs))"

text \<open>The number of conversions of \<^verbatim>\<open>sscanf(s, "%d:%d", ...)\<close> and the two results, zero where not stored.\<close>

definition sscanf_hm :: "string \<Rightarrow> nat \<times> int \<times> int" where
  "sscanf_hm s =
     (case scan_int s of
        None \<Rightarrow> (0, 0, 0)
      | Some (h, r) \<Rightarrow>
          (case r of
             c # r' \<Rightarrow> if c = CHR '':''
                       then (case scan_int r' of None \<Rightarrow> (1, h, 0) | Some (m, _) \<Rightarrow> (2, h, m))
                       else (1, h, 0)
           | [] \<Rightarrow> (1, h, 0)))"

definition get_time_zone :: "string \<Rightarrow> operate_ret \<times> int option" where
  "get_time_zone time_zone =
     (let plus = CHR ''+'' \<in> set time_zone; minus = CHR ''-'' \<in> set time_zone;
          offset = (if plus \<or> minus then 1 else 0)
      in case sscanf_hm (drop offset time_zone) of (num, h, m) \<Rightarrow>
           if num < 2 then (OPRT_INVALID_PARM, None)
           else (let posix = (h * 60 + m) * 60
                 in (OPRT_OK, Some (if \<not> plus \<and> minus then - posix else posix))))"

definition tal_time_set_time_zone :: "string \<Rightarrow> time_state \<Rightarrow> operate_ret \<times> time_state" where
  "tal_time_set_time_zone time_zone s =
     (case get_time_zone time_zone of
        (op_ret, None) \<Rightarrow> (op_ret, s)
      | (op_ret, Some z) \<Rightarrow> (OPRT_OK, s\<lparr>s_time_tz := z, s_time_tz_sync := True\<rparr>))"

definition tal_time_get_time_zone_seconds :: "time_state \<Rightarrow> operate_ret \<times> int" where
  "tal_time_get_time_zone_seconds s = (OPRT_OK, s_time_tz s)"

definition tal_time_set_time_zone_seconds :: "int \<Rightarrow> time_state \<Rightarrow> operate_ret \<times> time_state" where
  "tal_time_set_time_zone_seconds z s = (OPRT_OK, s\<lparr>s_time_tz := z, s_time_tz_sync := True\<rparr>)"

text \<open>The two clock readings are those of the two calls the function makes.\<close>

definition is_in_sum_zone :: "u64 \<Rightarrow> u64 \<Rightarrow> time_state \<Rightarrow> bool \<times> time_state" where
  "is_in_sum_zone ms1 ms2 s =
     (case tal_time_get_posix ms1 s of (time, s) \<Rightarrow>
        (case tal_time_get_posix ms2 s of (time2, s) \<Rightarrow>
           if time > time2 then (False, s) else (tal_time_is_in_sum_zone time s, s)))"

definition tal_time_get_local_time_custom ::
  "u32 \<Rightarrow> bool \<Rightarrow> u64 \<Rightarrow> u64 \<Rightarrow> u64 \<Rightarrow> time_state \<Rightarrow> operate_ret \<times> posix_tm option \<times> time_state" where
  "tal_time_get_local_time_custom in_time out ms0 ms1 ms2 s =
     (if \<not> out then (OPRT_INVALID_PARM, None, s)
      else
        (case (if in_time = 0
               then (case tal_time_get_posix ms0 s of (t, s) \<Rightarrow> (t + of_int (s_time_tz s), s))
               else (in_time + of_int (s_time_tz s), s)) of (local_time, s) \<Rightarrow>
           (case is_in_sum_zone ms1 ms2 s of (summer, s) \<Rightarrow>
              (let local_time = (if summer then local_time + SEC_PER_HOUR else local_time)
               in (OPRT_OK, Some (tal_time_gmtime_r local_time), s)))))"

definition tal_time_set_sum_zone_tbl :: "sum_zone list option \<Rightarrow> nat \<Rightarrow> time_state \<Rightarrow> time_state" where
  "tal_time_set_sum_zone_tbl zone cnt s =
     (if zone = None \<or> cnt = 0 then s\<lparr>s_time_sz_tbl := []\<rparr>
      else (let n = (if cnt > SUM_ZONE_TAB_LMT then SUM_ZONE_TAB_LMT else cnt)
            in s\<lparr>s_time_sz_tbl := take n (the zone)\<rparr>))"

definition tal_time_get_sum_time_posix :: "u64 \<Rightarrow> u64 \<Rightarrow> u64 \<Rightarrow> time_state \<Rightarrow> u32 \<times> time_state" where
  "tal_time_get_sum_time_posix ms0 ms1 ms2 s =
     (case tal_time_get_posix ms0 s of (time, s) \<Rightarrow>
        (case is_in_sum_zone ms1 ms2 s of (summer, s) \<Rightarrow> (if summer then time + SEC_PER_HOUR else time, s)))"

definition tal_time_get_sum_time :: "u64 \<Rightarrow> u64 \<Rightarrow> u64 \<Rightarrow> time_state \<Rightarrow> operate_ret \<times> posix_tm \<times> time_state" where
  "tal_time_get_sum_time ms0 ms1 ms2 s =
     (case tal_time_get_sum_time_posix ms0 ms1 ms2 s of (t, s) \<Rightarrow> (OPRT_OK, tal_time_gmtime_r t, s))"

definition tal_time_get_sum_zone :: "bool \<Rightarrow> time_state \<Rightarrow> operate_ret \<times> sum_zone list option" where
  "tal_time_get_sum_zone out s = (if \<not> out then (OPRT_INVALID_PARM, None) else (OPRT_OK, Some (s_time_sz_tbl s)))"

definition tal_time_config_update :: "bool \<Rightarrow> time_state \<Rightarrow> operate_ret \<times> time_state" where
  "tal_time_config_update disable s = (OPRT_OK, s\<lparr>s_time_disable_update := disable\<rparr>)"

section \<open>The calendar loops\<close>

lemma fold_add_sum: "fold (\<lambda>i a. a + f i) xs (a :: u32) = a + sum_list (map f xs)"
  by (induction xs arbitrary: a) (simp_all add: algebra_simps)

lemma gm_years_sum:
  "gm_years t y = (r, y') \<Longrightarrow> y \<le> y' \<and> t = sum_list (map (\<lambda>i. SEC_PER_YR (is_leap i)) [y..y' - 1]) + r
     \<and> r < SEC_PER_YR (is_leap y')"
proof (induction t y rule: gm_years.induct)
  case (1 t y)
  show ?case
  proof (cases "t < SEC_PER_YR (is_leap y)")
    case True
    with 1(2) show ?thesis by (simp add: gm_years.simps [of t y])
  next
    case False
    then have "gm_years (t - SEC_PER_YR (is_leap y)) (y + 1) = (r, y')" using 1(2) by (simp add: gm_years.simps [of t y])
    from 1(1) [OF False this] have
      ih: "y + 1 \<le> y'" "t - SEC_PER_YR (is_leap y) = sum_list (map (\<lambda>i. SEC_PER_YR (is_leap i)) [y + 1..y' - 1]) + r"
      "r < SEC_PER_YR (is_leap y')" by auto
    have "[y..y' - 1] = y # [y + 1..y' - 1]" using ih(1) by (simp add: upto_rec1)
    then have "sum_list (map (\<lambda>i. SEC_PER_YR (is_leap i)) [y..y' - 1]) + r = t"
      using ih(2) by (simp add: algebra_simps flip: ih(2))
    with ih show ?thesis by simp
  qed
qed

lemma SEC_PER_YR_unat: "31536000 \<le> int (unat (SEC_PER_YR (is_leap y)))"
  by (simp add: SEC_PER_YR_def is_leap_def)

lemma gm_years_bound: "gm_years t y = (r, y') \<Longrightarrow> 31536000 * (y' - y) + int (unat r) \<le> int (unat t)"
proof (induction t y rule: gm_years.induct)
  case (1 t y)
  show ?case
  proof (cases "t < SEC_PER_YR (is_leap y)")
    case True
    with 1(2) show ?thesis by (simp add: gm_years.simps [of t y])
  next
    case False
    then have "gm_years (t - SEC_PER_YR (is_leap y)) (y + 1) = (r, y')" using 1(2) by (simp add: gm_years.simps [of t y])
    note ih = 1(1) [OF False this]
    have "unat (t - SEC_PER_YR (is_leap y)) = unat t - unat (SEC_PER_YR (is_leap y))"
      "unat (SEC_PER_YR (is_leap y)) \<le> unat t"
      using False by (simp_all add: unat_sub not_less word_le_nat_alt)
    then have "int (unat (t - SEC_PER_YR (is_leap y))) = int (unat t) - int (unat (SEC_PER_YR (is_leap y)))" by linarith
    with ih SEC_PER_YR_unat [of y] show ?thesis by (simp add: algebra_simps)
  qed
qed

lemma gm_months_stop:
  assumes "unat ltm < sum_list (map unat ss)"
  shows "\<exists>k r. k < length ss \<and> gm_months ltm ss mon = (r, mon + int k) \<and> r < ss ! k \<and> ltm = sum_list (take k ss) + r"
  using assms
proof (induction ss arbitrary: ltm mon)
  case (Cons s ss)
  show ?case
  proof (cases "ltm < s")
    case True
    then show ?thesis by (intro exI [of _ 0] exI [of _ ltm]) simp
  next
    case False
    then have "unat (ltm - s) = unat ltm - unat s" "unat s \<le> unat ltm"
      by (simp_all add: unat_sub not_less word_le_nat_alt)
    with Cons.prems have "unat (ltm - s) < sum_list (map unat ss)" by simp
    from Cons.IH [OF this, of "mon + 1"] obtain k r where
      k: "k < length ss" "gm_months (ltm - s) ss (mon + 1) = (r, mon + 1 + int k)" "r < ss ! k"
      "ltm - s = sum_list (take k ss) + r" by blast
    have "ltm = s + (sum_list (take k ss) + r)" unfolding k(4) [symmetric] by simp
    with False k show ?thesis by (intro exI [of _ "Suc k"] exI [of _ r]) (simp add: algebra_simps)
  qed
qed simp

lemma is_leap_01: "is_leap y = 0 \<or> is_leap y = 1"
  by (simp add: is_leap_def)

lemma year_row: "unat (SEC_PER_YR (is_leap y)) = sum_list (map unat (SEC_PER_MT (is_leap y)))"
  using is_leap_01 [of y] by (auto simp: SEC_PER_YR_def SEC_PER_MT_def)

lemma length_row: "length (SEC_PER_MT (is_leap y)) = 12"
  using is_leap_01 [of y] by (auto simp: SEC_PER_MT_def)

text \<open>What \<^verbatim>\<open>tal_time_gmtime_r\<close> finds: the year, the month and the seconds left in the month.\<close>

lemma gmtime_parts:
  obtains r0 y k r where "gm_years t 1970 = (r0, y)" "1970 \<le> y" "y \<le> 2106" "k < 12"
    "gm_months r0 (SEC_PER_MT (is_leap y)) 0 = (r, int k)" "r < SEC_PER_MT (is_leap y) ! k"
    "t = sum_list (map (\<lambda>i. SEC_PER_YR (is_leap i)) [1970..y - 1]) + (sum_list (take k (SEC_PER_MT (is_leap y))) + r)"
proof -
  obtain r0 y where g: "gm_years t 1970 = (r0, y)" by fastforce
  note s = gm_years_sum [OF g]
  have "31536000 * (y - 1970) < 4294967296" using gm_years_bound [OF g] unat_u32_less [of t] by linarith
  then have "y \<le> 2106" by simp
  have "unat r0 < sum_list (map unat (SEC_PER_MT (is_leap y)))"
    using s by (simp add: word_less_nat_alt flip: year_row)
  from gm_months_stop [OF this, of 0] s g \<open>y \<le> 2106\<close> that show thesis by (auto simp: length_row)
qed

lemma map_nth_take: "k \<le> length xs \<Longrightarrow> map (\<lambda>i. xs ! i) [0..<k] = take k xs"
  by (auto intro: nth_equalityI)

lemma split_day:
  fixes r :: u32
  shows "r div 86400 * 86400 + (r mod 86400 div 3600 * 3600 + (r mod 86400 mod 3600 div 60 * 60 + r mod 86400 mod 3600 mod 60)) = r"
  by (simp only: div_mult_mod_eq)

lemma div_less_u32: "unat (r :: u32) < n * d \<Longrightarrow> unat (of_nat d :: u32) = d \<Longrightarrow> uint (r div of_nat d) < int n"
  by (simp add: uint_nat unat_div less_mult_imp_div_less)

lemma day_bound: "r < w \<Longrightarrow> unat w = d * 86400 \<Longrightarrow> uint (r div 86400 :: u32) < int d"
  using div_less_u32 [of r d 86400] by (simp add: word_less_nat_alt)

lemma mod_less_u32: "unat (b :: u32) = n \<Longrightarrow> 0 < n \<Longrightarrow> unat (a mod b) < n"
  by (simp add: unat_mod)

lemma mod_bounds:
  fixes r :: u32
  shows "uint (r mod 86400 div 3600) < 24" "uint (r mod 86400 mod 3600 div 60) < 60" "uint (r mod 60) < 60"
proof -
  have "unat (r mod 86400) < 24 * 3600" using mod_less_u32 [of 86400 86400 r] by simp
  from div_less_u32 [OF this] show "uint (r mod 86400 div 3600) < 24" by simp
  have "unat (r mod 86400 mod 3600) < 60 * 60" using mod_less_u32 [of 3600 3600 "r mod 86400"] by simp
  from div_less_u32 [OF this] show "uint (r mod 86400 mod 3600 div 60) < 60" by simp
  have "unat (r mod 60) < 60" by (rule mod_less_u32) simp_all
  then have "int (unat (r mod 60)) < 60" by linarith
  then show "uint (r mod 60) < 60" by (simp only: uint_nat)
qed

text \<open>The lengths of the months, in days.\<close>

definition month_days :: "nat \<Rightarrow> nat list" where
  "month_days leap = [31, 28 + leap, 31, 30, 31, 30, 31, 31, 30, 31, 30, 31]"

lemma row_days: "k < 12 \<Longrightarrow> unat (SEC_PER_MT (is_leap y) ! k) = month_days (is_leap y) ! k * 86400"
proof -
  assume "k < 12"
  then have "k = 0 \<or> k = 1 \<or> k = 2 \<or> k = 3 \<or> k = 4 \<or> k = 5 \<or> k = 6 \<or> k = 7 \<or> k = 8 \<or> k = 9 \<or> k = 10 \<or> k = 11"
    by presburger
  moreover have "is_leap y \<in> {0, 1}" using is_leap_01 [of y] by auto
  ultimately show ?thesis
    by (elim insertE emptyE disjE) (simp_all add: SEC_PER_MT_def month_days_def)
qed

lemma month_days_bounds:
  assumes "k < 12"
  shows "month_days (is_leap y) ! k \<le> 31" "k = 1 \<Longrightarrow> month_days (is_leap y) ! k = 28 + is_leap y"
    "k \<in> {3, 5, 8, 10} \<Longrightarrow> month_days (is_leap y) ! k = 30"
proof -
  have k: "k = 0 \<or> k = 1 \<or> k = 2 \<or> k = 3 \<or> k = 4 \<or> k = 5 \<or> k = 6 \<or> k = 7 \<or> k = 8 \<or> k = 9 \<or> k = 10 \<or> k = 11"
    using assms by presburger
  have l: "is_leap y \<in> {0, 1}" using is_leap_01 [of y] by auto
  show "month_days (is_leap y) ! k \<le> 31"
    using k l by (elim insertE emptyE disjE) (simp_all add: month_days_def)
  show "k = 1 \<Longrightarrow> month_days (is_leap y) ! k = 28 + is_leap y" by (simp add: month_days_def)
  show "k \<in> {3, 5, 8, 10} \<Longrightarrow> month_days (is_leap y) ! k = 30"
    by (elim insertE emptyE) (simp_all add: month_days_def)
qed


lemma mktime_of_gmtime: "tal_time_mktime (Some (tal_time_gmtime_r t)) = t"
proof -
  obtain r0 y k r where g: "gm_years t 1970 = (r0, y)" "k < 12"
    "gm_months r0 (SEC_PER_MT (is_leap y)) 0 = (r, int k)"
    "t = sum_list (map (\<lambda>i. SEC_PER_YR (is_leap i)) [1970..y - 1]) + (sum_list (take k (SEC_PER_MT (is_leap y))) + r)"
    by (rule gmtime_parts [of t])
  have l: "(if is_leap z \<noteq> 0 then 1 else 0) = is_leap z" for z using is_leap_01 [of z] by auto
  have "tal_time_mktime (Some (tal_time_gmtime_r t)) =
      sum_list (map (\<lambda>i. SEC_PER_YR (is_leap i)) [1970..y - 1]) + sum_list (take k (SEC_PER_MT (is_leap y)))
      + r div 86400 * 86400 + r mod 86400 div 3600 * 3600 + r mod 86400 mod 3600 div 60 * 60 + r mod 86400 mod 3600 mod 60"
    using g(2) unfolding tal_time_mktime_def option.case Let_def l
    by (simp add: tal_time_gmtime_r_def Let_def g(1,3) fold_add_sum map_nth_take length_row)
  also have "\<dots> = t" using split_day [of r] by (subst g(4)) (simp add: add.assoc)
  finally show ?thesis .
qed

lemma gmtime_ranges:
  "is_valid_date_time (tal_time_gmtime_r t) = 0
   \<and> 70 \<le> tm_year (tal_time_gmtime_r t) \<and> tm_year (tal_time_gmtime_r t) \<le> 206
   \<and> 0 \<le> tm_mon (tal_time_gmtime_r t) \<and> tm_mon (tal_time_gmtime_r t) < 12
   \<and> 1 \<le> tm_mday (tal_time_gmtime_r t)
   \<and> tm_mday (tal_time_gmtime_r t)
       \<le> int (month_days (is_leap (tm_year (tal_time_gmtime_r t) + 1900)) ! nat (tm_mon (tal_time_gmtime_r t)))
   \<and> 0 \<le> tm_hour (tal_time_gmtime_r t) \<and> tm_hour (tal_time_gmtime_r t) < 24
   \<and> 0 \<le> tm_min (tal_time_gmtime_r t) \<and> tm_min (tal_time_gmtime_r t) < 60
   \<and> 0 \<le> tm_sec (tal_time_gmtime_r t) \<and> tm_sec (tal_time_gmtime_r t) < 60"
proof -
  obtain r0 y k r where g: "gm_years t 1970 = (r0, y)" "1970 \<le> y" "y \<le> 2106" "k < 12"
    "gm_months r0 (SEC_PER_MT (is_leap y)) 0 = (r, int k)" "r < SEC_PER_MT (is_leap y) ! k"
    by (rule gmtime_parts [of t])
  define d where "d = uint (r div 86400) + 1"
  have d: "d \<le> int (month_days (is_leap y) ! k)" "1 \<le> d"
    using day_bound [OF g(6) row_days [OF g(4)]] by (auto simp: d_def)
  note b = mod_bounds(1,2) [of r] mod_bounds(3) [of "r mod 86400 mod 3600"]
  have tm: "tm_year (tal_time_gmtime_r t) = y - 1900" "tm_mon (tal_time_gmtime_r t) = int k" "tm_mday (tal_time_gmtime_r t) = d"
    "tm_hour (tal_time_gmtime_r t) = uint (r mod 86400 div 3600)"
    "tm_min (tal_time_gmtime_r t) = uint (r mod 86400 mod 3600 div 60)"
    "tm_sec (tal_time_gmtime_r t) = uint (r mod 86400 mod 3600 mod 60)"
    by (simp_all add: tal_time_gmtime_r_def Let_def g(1,5) d_def)
  note days = month_days_bounds [OF g(4), of y]
  have "is_valid_date_time (tal_time_gmtime_r t) = 0"
    using d b days g(2-4) is_leap_01 [of y] by (auto simp: is_valid_date_time_def tm)
  then show ?thesis using d b g(2-4) by (auto simp: tm)
qed

lemma gmtime_is_valid: "is_valid_date_time (tal_time_gmtime_r t) = 0"
  using gmtime_ranges [of t] by blast

section \<open>Properties\<close>

text \<open>
  C35. Calendar and time are inverse: for every 32-bit time, converting it to a date and the date back
  gives the same time. (In particular both search loops end.)
\<close>

theorem mktime_gmtime: "tal_time_mktime (Some (tal_time_gmtime_r t)) = t"
  by (rule mktime_of_gmtime)

text \<open>
  Every 32-bit time converts to a date of the Gregorian calendar: the check \<^verbatim>\<open>__is_valid_date_time\<close>
  accepts it, all fields are in their ranges, and the year is between 1970 and 2106.
\<close>

theorem gmtime_valid:
  "is_valid_date_time (tal_time_gmtime_r t) = 0
   \<and> 70 \<le> tm_year (tal_time_gmtime_r t) \<and> tm_year (tal_time_gmtime_r t) \<le> 206
   \<and> 0 \<le> tm_mon (tal_time_gmtime_r t) \<and> tm_mon (tal_time_gmtime_r t) < 12
   \<and> 1 \<le> tm_mday (tal_time_gmtime_r t)
   \<and> tm_mday (tal_time_gmtime_r t)
       \<le> int (month_days (is_leap (tm_year (tal_time_gmtime_r t) + 1900)) ! nat (tm_mon (tal_time_gmtime_r t)))
   \<and> 0 \<le> tm_hour (tal_time_gmtime_r t) \<and> tm_hour (tal_time_gmtime_r t) < 24
   \<and> 0 \<le> tm_min (tal_time_gmtime_r t) \<and> tm_min (tal_time_gmtime_r t) < 60
   \<and> 0 \<le> tm_sec (tal_time_gmtime_r t) \<and> tm_sec (tal_time_gmtime_r t) < 60"
  by (rule gmtime_ranges)

lemma recycle_twice: "recycle ms (recycle ms s) = recycle ms s"
  by (simp add: recycle_def)

lemma sum_zone_now:
  "is_in_sum_zone ms ms s = (tal_time_is_in_sum_zone (fst (tal_time_get_posix ms s)) s, recycle ms s)"
  by (simp add: is_in_sum_zone_def tal_time_get_posix_def Let_def recycle_twice tal_time_is_in_sum_zone_def recycle_def)

text \<open>
  The clock keeps the time it is set to: after setting it (updates being enabled) to the date of
  any time \<open>t\<close> at the counter value \<open>ms0\<close>, reading it at \<open>ms1 \<ge> ms0\<close> gives \<open>t\<close> plus the whole seconds
  in between, and within the first second the same date.
\<close>

theorem clock_set_get:
  assumes "\<not> s_time_disable_update s" and "ms0 \<le> ms1"
    and "tal_time_set (tal_time_gmtime_r t) ms0 s = (r, s')"
  shows "r = OPRT_OK \<and> fst (tal_time_get_posix ms1 s') = t + ucast ((ms1 - ms0) div 1000)
    \<and> (ms1 - ms0 < 1000 \<longrightarrow> fst (snd (tal_time_get True ms1 s')) = Some (tal_time_gmtime_r t))"
proof -
  have v: "is_valid_date_time (tal_time_gmtime_r t) = 0" by (rule gmtime_is_valid)
  have s': "r = OPRT_OK" "s_time_cloud_posix s' = t" "s_time_last_ms s' = ms0"
    using assms(1,3) by (auto simp: tal_time_set_def v tal_time_set_posix_def mktime_of_gmtime)
  have "recycle ms1 s' = s'" using assms(2) s' by (simp add: recycle_def leD)
  then have g: "tal_time_get_posix ms1 s' = (t + ucast ((ms1 - ms0) div 1000), s')"
    by (simp add: tal_time_get_posix_def Let_def s')
  have "(ms1 - ms0) div 1000 = 0" if "ms1 - ms0 < 1000"
    using that by (rule div_word_less)
  then show ?thesis using g s' by (auto simp: tal_time_get_def)
qed

definition time_demo :: time_state where
  "time_demo = \<lparr>s_time_mutex = True, s_time_last_ms = 0, s_time_tz_sync = False, s_time_tz = 0, s_time_sz_tbl = [],
     s_time_cloud_sync = False, s_time_cloud_posix = 0, s_time_disable_update = False, sys_last_ms = 0, sys_roll_ms = 0\<rparr>"

lemma clock_set_get_witness:
  "fst (tal_time_get_posix 9500 (snd (tal_time_set (tal_time_gmtime_r 1700000000) 4000 time_demo))) = 1700000005"
  using clock_set_get [of time_demo 4000 9500 1700000000 _ "snd (tal_time_set (tal_time_gmtime_r 1700000000) 4000 time_demo)"]
  by (simp add: time_demo_def prod_eq_iff)

text \<open>
  Summer time in a conversion of a given time depends on the current time, not on the time that is
  converted: \<^verbatim>\<open>tal_time_get_local_time_custom\<close> adds the hour exactly when the clock, at the moment of the
  call, is inside a summer-time interval.
\<close>

theorem local_time_summer_by_now:
  assumes "in_time \<noteq> 0"
  shows "fst (snd (tal_time_get_local_time_custom in_time True ms0 ms ms s)) =
    Some (tal_time_gmtime_r (in_time + of_int (s_time_tz s)
      + (if tal_time_is_in_sum_zone (fst (tal_time_get_posix ms s)) s then 3600 else 0)))"
  using assms by (simp add: tal_time_get_local_time_custom_def sum_zone_now Let_def)

lemma local_time_summer_by_now_witness:
  "fst (snd (tal_time_get_local_time_custom 500 True 0 0 0
     (time_demo\<lparr>s_time_sz_tbl := [\<lparr>posix_min = 400, posix_max = 600\<rparr>]\<rparr>))) = Some (tal_time_gmtime_r 500)"
  using local_time_summer_by_now [of 500 0 0 "time_demo\<lparr>s_time_sz_tbl := [\<lparr>posix_min = 400, posix_max = 600\<rparr>]\<rparr>"]
  by (simp add: time_demo_def tal_time_is_in_sum_zone_def tal_time_get_posix_def recycle_def)

end
