(* ===== verification/MixMethod.thy ===== *)
theory MixMethod
  imports BubbleSort
begin

text \<open>
  The string and byte utilities \<^verbatim>\<open>src/common/utilities/mix_method.c\<close>: comparison, hexadecimal encoding and
  decoding, search from the end, byte sorting, version strings and MAC addresses. A C string is the list of
  its bytes without the terminator, so it contains no zero; where the code reads the terminator the
  model reads a zero. The two base64 functions only call \<^verbatim>\<open>mbedtls\<close> and are left out.
\<close>

section \<open>Model\<close>

text \<open>The loop of \<^verbatim>\<open>uni_strcmp\<close>, on the strings with their terminators.\<close>

fun strcmp_loop :: "byte list \<Rightarrow> byte list \<Rightarrow> int" where
  "strcmp_loop (s # ss) (d # ds) =
     (let ret = uint s - uint d in if ret = 0 \<and> d \<noteq> 0 then strcmp_loop ss ds else ret)"
| "strcmp_loop _ _ = 0"

definition uni_strcmp :: "byte list \<Rightarrow> byte list \<Rightarrow> int" where
  "uni_strcmp src dst =
     (let ret = strcmp_loop (src @ [0]) (dst @ [0])
      in if ret < 0 then - 1 else if ret > 0 then 1 else ret)"

definition asc2hex :: "byte \<Rightarrow> byte" where
  "asc2hex asccode =
     (if 48 \<le> asccode \<and> asccode \<le> 57 then asccode - 48
      else if 97 \<le> asccode \<and> asccode \<le> 102 then asccode - 97 + 10
      else if 65 \<le> asccode \<and> asccode \<le> 70 then asccode - 65 + 10
      else 0)"

text \<open>The bytes \<^verbatim>\<open>ascs2hex\<close> writes to its output; an odd last character is ignored.\<close>

fun ascs2hex :: "byte list \<Rightarrow> byte list" where
  "ascs2hex (h # l # ascs) = (push_bit 4 (asc2hex h) + asc2hex l) # ascs2hex ascs"
| "ascs2hex _ = []"

definition hex_char :: "byte \<Rightarrow> byte" where
  "hex_char q = (let d = 48 + q in if 57 < d then d + 7 else d)"

definition hex2str :: "byte list \<Rightarrow> byte list" where
  "hex2str pbSrc = concat (map (\<lambda>b. [hex_char (b div 16), hex_char (b mod 16)]) pbSrc) @ [0]"

definition to_lower_table :: "byte list" where
  "to_lower_table = [48, 49, 50, 51, 52, 53, 54, 55, 56, 57, 97, 98, 99, 100, 101, 102]"

definition to_upper_table :: "byte list" where
  "to_upper_table = [48, 49, 50, 51, 52, 53, 54, 55, 56, 57, 65, 66, 67, 68, 69, 70]"

definition byte2str :: "byte list \<Rightarrow> bool \<Rightarrow> byte list" where
  "byte2str pbSrc upper =
     (let tmp = (if upper then to_upper_table else to_lower_table)
      in concat (map (\<lambda>b. [tmp ! unat (drop_bit 4 (b AND 0xF0)), tmp ! unat (b AND 0x0F)]) pbSrc) @ [0])"

text \<open>
  The downward loop of \<^verbatim>\<open>str_revr_find_ch\<close> over the indices below \<open>k\<close>. \<open>None\<close> is a read outside the string,
  which happens for a negative reverse index.
\<close>

fun find_down :: "byte list \<Rightarrow> byte \<Rightarrow> nat \<Rightarrow> int" where
  "find_down str ch 0 = - 2"
| "find_down str ch (Suc k) = (if str ! k = ch then int k else find_down str ch k)"

definition str_revr_find_ch :: "byte list option \<Rightarrow> int \<Rightarrow> byte \<Rightarrow> int option" where
  "str_revr_find_ch str revr_index ch =
     (case str of
        None \<Rightarrow> Some (- 1)
      | Some s \<Rightarrow>
          if revr_index \<ge> int (length s) then Some (- 1)
          else if revr_index < 0 then None
          else Some (find_down s ch (length s - nat revr_index)))"

definition byte_sort :: "bool \<Rightarrow> byte list \<Rightarrow> byte list" where
  "byte_sort is_ascend buf =
     (if is_ascend then bubble_sort (\<lambda>a b. a > b) (length buf - 1) buf
      else bubble_sort (\<lambda>a b. a < b) (length buf - 1) buf)"

definition mm_strdup :: "bool \<Rightarrow> byte list option \<Rightarrow> byte list option" where
  "mm_strdup alloc_ok str =
     (case str of None \<Rightarrow> None | Some s \<Rightarrow> if alloc_ok then Some (memcpy_at (replicate (length s + 1) 0) 0 s) else None)"

abbreviation DOT :: byte where "DOT \<equiv> 46"

definition is_digit :: "byte \<Rightarrow> bool" where
  "is_digit c \<longleftrightarrow> 48 \<le> c \<and> c \<le> 57"

text \<open>The loop of \<^verbatim>\<open>is_valid_version\<close>; \<open>last\<close> is the previous character.\<close>

fun version_loop :: "nat \<Rightarrow> nat \<Rightarrow> byte option \<Rightarrow> byte list \<Rightarrow> bool" where
  "version_loop section_num_count dot lst [] = (lst \<noteq> Some DOT)"
| "version_loop section_num_count dot lst (c # ver) =
     (if c = DOT
      then if lst = None \<or> lst = Some DOT then False
           else if dot + 1 > 2 then False
           else version_loop 0 (dot + 1) (Some c) ver
      else if is_digit c
      then if section_num_count + 1 > 8 then False
           else version_loop (section_num_count + 1) dot (Some c) ver
      else False)"

definition is_valid_version :: "byte list option \<Rightarrow> int" where
  "is_valid_version ver =
     (case ver of
        None \<Rightarrow> 0
      | Some v \<Rightarrow> if length v > 10 \<or> length v = 0 then 0
                  else if version_loop 0 0 None v then 1 else 0)"

text \<open>\<open>Inl\<close> is the error result, \<open>Inr\<close> the six bytes written.\<close>

definition string2mac :: "byte list \<Rightarrow> int + byte list" where
  "string2mac str =
     (let len = length str; stride = (if len = 17 then 3 else 2)
      in if 12 \<noteq> len \<and> 17 \<noteq> len then Inl (- 1)
         else Inr (map (\<lambda>i. (push_bit 4 (asc2hex (str ! (stride * i))) AND 0xF0)
                            + (asc2hex (str ! (stride * i + 1)) AND 0x0F)) [0..<6]))"

text \<open>
  The loop of \<^verbatim>\<open>versionString2int\<close>. The byte \<open>v\<close> is a static variable, so it is part of the state; the
  integer is kept at its width.
\<close>

fun version_int_loop :: "byte \<Rightarrow> u32 \<Rightarrow> byte list \<Rightarrow> u32" where
  "version_int_loop v n [] = n"
| "version_int_loop v n (c # cs) =
     (if c = DOT then version_int_loop 0 (push_bit 8 n) cs
      else
        (let v = v * 10 + asc2hex c
         in version_int_loop v (if cs = [] \<or> hd cs = DOT then n OR ucast v else n) cs))"

definition versionString2int :: "byte \<Rightarrow> byte list \<Rightarrow> int \<times> byte" where
  "versionString2int v versionString =
     (if versionString = [] then (OPRT_INVALID_PARM, v)
      else (sint (version_int_loop v 0 versionString), 0))"

definition tuya_isalpha :: "int \<Rightarrow> int" where
  "tuya_isalpha c = (if (65 \<le> c \<and> c \<le> 90) \<or> (97 \<le> c \<and> c \<le> 122) then c else 0)"

definition tuya_tolower :: "int \<Rightarrow> int" where
  "tuya_tolower c = (if 65 \<le> c \<and> c \<le> 90 then c - 65 + 97 else c)"

definition tuya_toupper :: "int \<Rightarrow> int" where
  "tuya_toupper c = (if 97 \<le> c \<and> c \<le> 122 then c - 97 + 65 else c)"

section \<open>Hexadecimal text\<close>

lemma nibble_cases:
  fixes q :: byte
  assumes "q < 16"
  shows "q = 0 \<or> q = 1 \<or> q = 2 \<or> q = 3 \<or> q = 4 \<or> q = 5 \<or> q = 6 \<or> q = 7 \<or> q = 8 \<or> q = 9 \<or> q = 10
    \<or> q = 11 \<or> q = 12 \<or> q = 13 \<or> q = 14 \<or> q = 15"
proof -
  have q: "q = word_of_nat (unat q)" by simp
  have "unat q < 16" using assms by (simp add: word_less_nat_alt)
  then have "unat q = 0 \<or> unat q = 1 \<or> unat q = 2 \<or> unat q = 3 \<or> unat q = 4 \<or> unat q = 5 \<or> unat q = 6
    \<or> unat q = 7 \<or> unat q = 8 \<or> unat q = 9 \<or> unat q = 10 \<or> unat q = 11 \<or> unat q = 12 \<or> unat q = 13
    \<or> unat q = 14 \<or> unat q = 15" by presburger
  then show ?thesis by (elim disjE) (subst q, simp)+
qed

lemma asc2hex_hex_char: "q < 16 \<Longrightarrow> asc2hex (hex_char q) = q"
  by (drule nibble_cases, elim disjE) (simp_all add: asc2hex_def hex_char_def)

lemma asc2hex_tables:
  "q < 16 \<Longrightarrow> asc2hex (to_upper_table ! unat q) = q" "q < 16 \<Longrightarrow> asc2hex (to_lower_table ! unat q) = q"
  by (drule nibble_cases, elim disjE; simp add: asc2hex_def to_upper_table_def to_lower_table_def)+

lemma nibble_and:
  fixes q :: byte
  shows "q < 16 \<Longrightarrow> q AND 15 = q"
  by (drule nibble_cases, elim disjE) simp_all

lemma byte_nibbles:
  fixes b :: byte
  shows "b div 16 = drop_bit 4 b" "b mod 16 = b AND 15" "drop_bit 4 b < 16" "b AND 15 < 16"
    "push_bit 4 (drop_bit 4 b) + (b AND 15) = b"
proof -
  show "b div 16 = drop_bit 4 b" by (simp add: drop_bit_eq_div)
  have t: "b AND 15 = take_bit 4 b" by (simp add: take_bit_eq_mask mask_eq_exp_minus_1)
  show "b mod 16 = b AND 15" unfolding t by (simp add: take_bit_eq_mod)
  show "drop_bit 4 b < 16"
    using unat_u8_less [of b]
    by (simp add: word_less_nat_alt unat_drop_bit_eq drop_bit_eq_div [where 'a = nat] del: drop_bit_numeral_bit0)
  show "b AND 15 < 16"
    unfolding t by (simp add: word_less_nat_alt unsigned_take_bit_eq take_bit_eq_mod [where 'a = nat] del: take_bit_numeral_bit0)
  show "push_bit 4 (drop_bit 4 b) + (b AND 15) = b"
    unfolding t using bits_ident [of 4 b] by simp
qed

lemma push_bit_and_240: "push_bit 4 q AND 240 = push_bit 4 (q :: byte)"
proof (rule bit_word_eqI)
  fix n assume "n < LENGTH(8)"
  then have "n < 4 \<or> n = 4 \<or> n = 5 \<or> n = 6 \<or> n = 7" by auto
  then show "bit (push_bit 4 q AND 240) n = bit (push_bit 4 q) n" by (auto simp: bit_simps)
qed

lemmas hex_simps = byte_nibbles nibble_and push_bit_and_240 asc2hex_hex_char asc2hex_tables

lemma ascs2hex_hex2str_body:
  "ascs2hex (concat (map (\<lambda>b. [hex_char (b div 16), hex_char (b mod 16)]) bs) @ [0]) = bs"
  by (induction bs) (simp_all add: hex_simps)

lemma ascs2hex_byte2str: "ascs2hex (byte2str bs upper) = bs"
  unfolding byte2str_def Let_def by (induction bs) (auto simp: hex_simps)

lemma mac_byte: "(push_bit 4 q AND 0xF0) + (r AND 0x0F) = push_bit 4 q + r" if "r < 16" for q r :: byte
  using that by (simp add: hex_simps)


lemma string2mac_plain:
  assumes "length mac = 6"
  shows "string2mac (butlast (byte2str mac upper)) = Inr mac"
proof -
  obtain a b c d e f where "mac = [a, b, c, d, e, f]"
    using assms by (auto simp: numeral_eq_Suc length_Suc_conv)
  then show ?thesis
    by (cases upper) (simp_all add: string2mac_def byte2str_def Let_def upt_rec hex_simps)
qed

section \<open>Comparison, search and sorting\<close>

lemma strcmp_loop_sgn:
  assumes "0 \<notin> set src" "0 \<notin> set dst"
  shows "(strcmp_loop (src @ [0]) (dst @ [0]) = 0 \<longleftrightarrow> src = dst)
    \<and> (strcmp_loop (src @ [0]) (dst @ [0]) < 0 \<longleftrightarrow> ord_class.lexordp src dst)"
  using assms
proof (induction src arbitrary: dst)
  case Nil
  then show ?case by (cases dst) (auto simp: Let_def word_neq_0_conv word_less_def)
next
  case (Cons s ss)
  show ?case
  proof (cases dst)
    case Nil
    with Cons.prems show ?thesis by (auto simp: Let_def uint_0_iff word_neq_0_conv word_less_def)
  next
    case dst: (Cons d ds)
    show ?thesis
    proof (cases "s = d")
      case True
      with Cons dst show ?thesis by (auto simp: Let_def)
    next
      case False
      then have "uint s \<noteq> uint d" by (simp add: word_uint_eq_iff)
      with False dst show ?thesis by (auto simp: Let_def word_less_def)
    qed
  qed
qed

lemma uni_strcmp_spec:
  assumes "0 \<notin> set src" "0 \<notin> set dst"
  shows "(uni_strcmp src dst = 0 \<longleftrightarrow> src = dst) \<and> (uni_strcmp src dst = - 1 \<longleftrightarrow> ord_class.lexordp src dst)
    \<and> uni_strcmp src dst \<in> {- 1, 0, 1}"
  using strcmp_loop_sgn [OF assms] by (auto simp: uni_strcmp_def Let_def)

lemma find_down_spec:
  "(\<forall>i < k. str ! i \<noteq> ch) \<and> find_down str ch k = - 2
    \<or> (\<exists>i < k. find_down str ch k = int i \<and> str ! i = ch \<and> (\<forall>j. i < j \<and> j < k \<longrightarrow> str ! j \<noteq> ch))"
proof (induction k)
  case (Suc k)
  then show ?case by (cases "str ! k = ch") (auto simp: less_Suc_eq)
qed simp

lemma byte_sort_sorted:
  "sorted_wrt (if asc then (\<le>) else (\<ge>)) (byte_sort asc buf) \<and> mset (byte_sort asc buf) = mset buf"
  using ascending.bubble_sort_correct [of buf] descending.bubble_sort_correct [of buf]
  by (cases asc) (auto simp: byte_sort_def)

section \<open>Version strings\<close>

text \<open>The text of a version: its sections with a dot before each but the first.\<close>

definition version_text :: "byte list list \<Rightarrow> byte list" where
  "version_text secs = hd secs @ concat (map ((#) DOT) (tl secs))"

definition version_section :: "byte list \<Rightarrow> bool" where
  "version_section s \<longleftrightarrow> 1 \<le> length s \<and> length s \<le> 8 \<and> list_all is_digit s"

lemma not_digit_dot [simp]: "\<not> is_digit DOT"
  by (simp add: is_digit_def)

lemma version_loop_complete:
  assumes "list_all is_digit x" "n + length x \<le> 8" "1 \<le> n + length x" "list_all version_section ss"
    and "d + length ss \<le> 2" "n \<noteq> 0 \<longrightarrow> lst \<noteq> None \<and> lst \<noteq> Some DOT"
  shows "version_loop n d lst (x @ concat (map ((#) DOT) ss))"
  using assms
proof (induction "length x + length (concat (map ((#) DOT) ss))" arbitrary: x n d lst ss rule: less_induct)
  case less
  show ?case
  proof (cases x)
    case x: Nil
    show ?thesis
    proof (cases ss)
      case Nil
      with x less.prems show ?thesis by auto
    next
      case (Cons s ss')
      have "version_loop 0 (d + 1) (Some DOT) (s @ concat (map ((#) DOT) ss'))"
        using less.prems x Cons by (intro less.hyps) (auto simp: version_section_def)
      with x Cons less.prems show ?thesis by auto
    qed
  next
    case (Cons c x')
    have c: "is_digit c" "c \<noteq> DOT" using less.prems(1) Cons by auto
    have "version_loop (n + 1) d (Some c) (x' @ concat (map ((#) DOT) ss))"
      using less.prems Cons c(2) by (intro less.hyps) auto
    with Cons c less.prems(2) show ?thesis by simp
  qed
qed

lemma version_loop_sound:
  assumes "version_loop n d lst v" "v = [] \<longrightarrow> lst \<noteq> None" "lst \<noteq> None \<and> lst \<noteq> Some DOT \<longleftrightarrow> n \<noteq> 0" "n \<le> 8" "d \<le> 2"
  shows "\<exists>x ss. v = x @ concat (map ((#) DOT) ss) \<and> list_all is_digit x \<and> n + length x \<le> 8 \<and> 1 \<le> n + length x
    \<and> list_all version_section ss \<and> d + length ss \<le> 2"
  using assms
proof (induction v arbitrary: n d lst)
  case Nil
  then show ?case by (intro exI [of _ "[]"]) auto
next
  case (Cons c v)
  show ?case
  proof (cases "c = DOT")
    case True
    then have "version_loop 0 (d + 1) (Some DOT) v" "n \<noteq> 0" "d + 1 \<le> 2"
      using Cons.prems by (auto split: if_splits)
    with Cons.IH [OF this(1)] Cons.prems(4) obtain x ss where
      "v = x @ concat (map ((#) DOT) ss)" "1 \<le> length x" "length x \<le> 8" "list_all is_digit x"
      "list_all version_section ss" "d + 1 + length ss \<le> 2"
      by auto
    moreover from this have "version_section x" by (simp add: version_section_def)
    ultimately show ?thesis using True \<open>n \<noteq> 0\<close> Cons.prems(4) by (intro exI [of _ "[]"] exI [of _ "x # ss"]) auto
  next
    case False
    then have c: "version_loop (n + 1) d (Some c) v" "is_digit c" "n + 1 \<le> 8"
      using Cons.prems by (auto split: if_splits)
    with Cons.IH [OF c(1)] Cons.prems False obtain x ss where
      "v = x @ concat (map ((#) DOT) ss)" "list_all is_digit x" "n + 1 + length x \<le> 8"
      "list_all version_section ss" "d + length ss \<le> 2"
      by auto
    with c show ?thesis by (intro exI [of _ "c # x"] exI [of _ ss]) auto
  qed
qed


text \<open>The number of a section, as the code accumulates it in a byte.\<close>

definition section_val :: "byte list \<Rightarrow> byte" where
  "section_val s = fold (\<lambda>c v. v * 10 + asc2hex c) s 0"

lemma version_int_section:
  assumes "list_all is_digit s" "s \<noteq> []" "rest = [] \<or> hd rest = DOT"
  shows "version_int_loop v n (s @ rest) = version_int_loop (fold (\<lambda>c v. v * 10 + asc2hex c) s v)
    (n OR ucast (fold (\<lambda>c v. v * 10 + asc2hex c) s v)) rest"
  using assms(1,2)
proof (induction s arbitrary: v)
  case (Cons c s)
  have c: "c \<noteq> DOT" using Cons.prems(1) by auto
  show ?case
  proof (cases s)
    case Nil
    with c assms(3) show ?thesis by (auto simp: Let_def)
  next
    case s: (Cons d s')
    then have "d \<noteq> DOT" using Cons.prems(1) by auto
    then have "version_int_loop v n ((c # s) @ rest) = version_int_loop (v * 10 + asc2hex c) n (s @ rest)"
      using c by (subst append_Cons, subst version_int_loop.simps) (simp add: Let_def s del: version_int_loop.simps)
    with Cons.IH [of "v * 10 + asc2hex c"] Cons.prems(1) s show ?thesis by (simp del: version_int_loop.simps)
  qed
qed simp

lemma version_int_text:
  assumes "list_all (\<lambda>s. s \<noteq> [] \<and> list_all is_digit s) ss"
  shows "version_int_loop v n (concat (map ((#) DOT) ss)) = fold (\<lambda>s n. push_bit 8 n OR ucast (section_val s)) ss n"
  using assms
proof (induction ss arbitrary: v n)
  case (Cons s ss)
  have "concat (map ((#) DOT) ss) = [] \<or> hd (concat (map ((#) DOT) ss)) = DOT" by (cases ss) auto
  with Cons version_int_section [of s "concat (map ((#) DOT) ss)" 0 "push_bit 8 n"] show ?case
    by (simp add: section_val_def)
qed simp

section \<open>Properties\<close>

text \<open>
  Hexadecimal text round trips: decoding what \<^verbatim>\<open>hex2str\<close> or \<^verbatim>\<open>byte2str\<close> (in either case) wrote gives the
  bytes back, and a MAC address printed by \<^verbatim>\<open>byte2str\<close> is read back by \<^verbatim>\<open>string2mac\<close>.
\<close>

theorem hex_text_roundtrip:
  "ascs2hex (hex2str bs) = bs \<and> ascs2hex (byte2str bs upper) = bs
    \<and> (length bs = 6 \<longrightarrow> string2mac (butlast (byte2str bs upper)) = Inr bs)"
  using ascs2hex_hex2str_body ascs2hex_byte2str string2mac_plain by (simp add: hex2str_def)

lemma hex_text_roundtrip_witness:
  "string2mac (butlast (byte2str [0x18, 0xde, 0, 7, 0xff, 0x5a] False)) = Inr [0x18, 0xde, 0, 7, 0xff, 0x5a]"
  using hex_text_roundtrip [of "[0x18, 0xde, 0, 7, 0xff, 0x5a]" False] by simp

text \<open>
  \<^verbatim>\<open>is_valid_version\<close> accepts exactly the texts of at most ten characters that consist of one to three
  sections of one to eight digits, separated by dots.
\<close>

theorem valid_version_spec:
  "is_valid_version (Some v) = 1 \<longleftrightarrow> length v \<le> 10 \<and>
    (\<exists>secs. secs \<noteq> [] \<and> length secs \<le> 3 \<and> list_all version_section secs \<and> v = version_text secs)"
proof
  assume "is_valid_version (Some v) = 1"
  then have l: "length v \<le> 10" "v \<noteq> []" "version_loop 0 0 None v" by (auto simp: is_valid_version_def split: if_splits)
  from version_loop_sound [OF l(3)] l(2) obtain x ss where
    "v = x @ concat (map ((#) DOT) ss)" "version_section x" "list_all version_section ss" "length ss \<le> 2"
    by (auto simp: version_section_def [of x for x])
  with l(1) show "length v \<le> 10 \<and> (\<exists>secs. secs \<noteq> [] \<and> length secs \<le> 3 \<and> list_all version_section secs \<and> v = version_text secs)"
    by (intro conjI exI [of _ "x # ss"]) (auto simp: version_text_def)
next
  assume "length v \<le> 10 \<and> (\<exists>secs. secs \<noteq> [] \<and> length secs \<le> 3 \<and> list_all version_section secs \<and> v = version_text secs)"
  then obtain x ss where s: "length v \<le> 10" "v = x @ concat (map ((#) DOT) ss)" "version_section x"
    "list_all version_section ss" "length ss \<le> 2"
    by (auto simp: version_text_def neq_Nil_conv)
  have "version_loop 0 0 None v"
    unfolding s(2) using s(3-5) by (intro version_loop_complete) (auto simp: version_section_def)
  moreover have "v \<noteq> []" using s(2,3) by (auto simp: version_section_def)
  ultimately show "is_valid_version (Some v) = 1" using s(1) by (simp add: is_valid_version_def)
qed

text \<open>
  The integer of a version: on dotted sections of digits \<^verbatim>\<open>versionString2int\<close> shifts the sections together,
  one byte each, the last one lowest, and leaves its static accumulator zero, so that the next call
  starts afresh. The empty string is refused.
\<close>

theorem version_int_value:
  assumes "secs \<noteq> []" and "list_all (\<lambda>s. s \<noteq> [] \<and> list_all is_digit s) secs"
  shows "versionString2int 0 (version_text secs)
    = (sint (fold (\<lambda>s n. push_bit 8 n OR ucast (section_val s)) secs (0 :: u32)), 0)
    \<and> versionString2int 0 [] = (OPRT_INVALID_PARM, 0)"
proof -
  obtain s ss where s: "secs = s # ss" using assms(1) by (cases secs) auto
  have r: "concat (map ((#) DOT) ss) = [] \<or> hd (concat (map ((#) DOT) ss)) = DOT" by (cases ss) auto
  have "version_int_loop 0 0 (version_text secs) = fold (\<lambda>s n. push_bit 8 n OR ucast (section_val s)) secs 0"
    using assms(2) version_int_section [OF _ _ r, of s 0 0] version_int_text [of ss]
    by (simp add: s version_text_def section_val_def)
  moreover have "version_text secs \<noteq> []" using assms(2) by (simp add: s version_text_def)
  ultimately show ?thesis by (simp add: versionString2int_def)
qed

lemma version_int_value_witness:
  "versionString2int 0 [49, DOT, 50, 53, DOT, 51] = (0x011903, 0)"
  using version_int_value [of "[[49], [50, 53], [51]]"]
  by (simp add: version_text_def is_digit_def section_val_def asc2hex_def)

end
