(* ===== verification/BleTrsmitr.thy ===== *)
theory BleTrsmitr
  imports Prelude
begin

text \<open>
  The transmitter of the Bluetooth channel, \<^verbatim>\<open>src/tuya_cloud_service/ble/ble_trsmitr.c\<close>: a frame is cut into
  numbered subpackages that fit the packet length of the connection, and put together again on the
  other side. Counters are natural numbers with the wrap-around of their C types written out, bytes are
  8-bit words. \<open>None\<close> is an access outside a buffer: a read behind the received bytes, or a copy larger than
  the subpackage buffer.
\<close>

section \<open>Model\<close>

abbreviation BLE_FRAME_PKG_INIT :: nat where "BLE_FRAME_PKG_INIT \<equiv> 0"
abbreviation BLE_FRAME_PKG_FIRST :: nat where "BLE_FRAME_PKG_FIRST \<equiv> 1"
abbreviation BLE_FRAME_PKG_MIDDLE :: nat where "BLE_FRAME_PKG_MIDDLE \<equiv> 2"
abbreviation BLE_FRAME_PKG_END :: nat where "BLE_FRAME_PKG_END \<equiv> 3"
abbreviation BLE_FRAME_SEQ_LMT :: nat where "BLE_FRAME_SEQ_LMT \<equiv> 16"

record ble_frame_trsmitr =
  total :: nat
  version :: byte
  seq :: byte
  pkg_desc :: nat
  subpkg_num :: nat
  pkg_trsmitr_cnt :: nat
  subpkg_len :: nat
  subpkg :: "byte list"

text \<open>The static variables of the module.\<close>

record ble_frame_globals =
  s_ble_frame_seq :: nat
  s_ble_frame_packet_len :: nat

definition ble_frame_packet_len_get :: "ble_frame_globals \<Rightarrow> nat" where
  "ble_frame_packet_len_get g = s_ble_frame_packet_len g"

definition ble_frame_packet_len_set :: "nat \<Rightarrow> ble_frame_globals \<Rightarrow> ble_frame_globals" where
  "ble_frame_packet_len_set len g = g\<lparr>s_ble_frame_packet_len := len mod 65536\<rparr>"

text \<open>The arguments say whether the two allocations succeed.\<close>

definition ble_frame_trsmitr_create :: "bool \<Rightarrow> bool \<Rightarrow> ble_frame_globals \<Rightarrow> ble_frame_trsmitr option" where
  "ble_frame_trsmitr_create alloc1 alloc2 g =
     (if \<not> alloc1 then None
      else if \<not> alloc2 then None
      else Some \<lparr>total = 0, version = 0, seq = 0, pkg_desc = BLE_FRAME_PKG_INIT, subpkg_num = 0, pkg_trsmitr_cnt = 0,
                 subpkg_len = 0, subpkg = replicate (ble_frame_packet_len_get g) 0\<rparr>)"

definition ble_frame_subpacket_len_get :: "ble_frame_trsmitr \<Rightarrow> nat" where
  "ble_frame_subpacket_len_get t = subpkg_len t"

definition ble_frame_subpacket_get :: "ble_frame_trsmitr \<Rightarrow> byte list" where
  "ble_frame_subpacket_get t = subpkg t"

definition ble_frame_seq_get :: "ble_frame_globals \<Rightarrow> nat \<times> ble_frame_globals" where
  "ble_frame_seq_get g =
     (if s_ble_frame_seq g \<ge> BLE_FRAME_SEQ_LMT then (0, g)
      else (s_ble_frame_seq g, g\<lparr>s_ble_frame_seq := s_ble_frame_seq g + 1\<rparr>))"

text \<open>The loop that writes a number seven bits at a time, the lowest first, in at most \<open>k\<close> bytes.\<close>

fun encode_num :: "nat \<Rightarrow> nat \<Rightarrow> byte list" where
  "encode_num 0 tmp = []"
| "encode_num (Suc k) tmp =
     (word_of_nat (tmp mod 0x80) OR (if tmp div 0x80 \<noteq> 0 then 0x80 else 0))
       # (if tmp div 0x80 = 0 then [] else encode_num k (tmp div 0x80))"

definition subpkg_header :: "ble_frame_trsmitr \<Rightarrow> nat \<Rightarrow> byte list" where
  "subpkg_header t len =
     encode_num 4 (subpkg_num t)
     @ (if subpkg_num t = 0
        then encode_num 4 len @ [push_bit 4 (version t) OR (seq t AND 0x0f)]
        else [])"

definition ble_frame_trsmitr_send_pkg_encode ::
  "ble_frame_trsmitr option \<Rightarrow> byte \<Rightarrow> byte list \<Rightarrow> ble_frame_globals
     \<Rightarrow> (operate_ret \<times> ble_frame_trsmitr option \<times> ble_frame_globals) option" where
  "ble_frame_trsmitr_send_pkg_encode trsmitr vers buf g =
     (case trsmitr of
        None \<Rightarrow> Some (OPRT_INVALID_PARM, None, g)
      | Some t \<Rightarrow>
          (let len = length buf;
               (t, g) = (if pkg_desc t = BLE_FRAME_PKG_INIT
                         then (case ble_frame_seq_get g of (s, g) \<Rightarrow>
                                 (t\<lparr>total := len, version := vers, seq := word_of_nat s, subpkg_num := 0,
                                    pkg_trsmitr_cnt := 0\<rparr>, g))
                         else (t, g))
           in if subpkg_num t \<ge> 0x10000000 \<or> len \<ge> 0x10000000 then Some (OPRT_COM_ERROR, Some t, g)
              else
                (let hdr = subpkg_header t len;
                     sunpkg_offset = length hdr;
                     left = (len + 2 ^ 32 - pkg_trsmitr_cnt t) mod 2 ^ 32;
                     send_data = (ble_frame_packet_len_get g + 2 ^ 16 - sunpkg_offset) mod 2 ^ 16;
                     send_data = (if left < send_data then left else send_data)
                 in if sunpkg_offset + send_data > length (subpkg t) \<or> pkg_trsmitr_cnt t + send_data > len then None
                    else
                      (let t' = t\<lparr>subpkg := memcpy_at (memcpy_at (subpkg t) 0 hdr) sunpkg_offset
                                    (take send_data (drop (pkg_trsmitr_cnt t) buf)),
                                 subpkg_len := sunpkg_offset + send_data,
                                 pkg_trsmitr_cnt := (pkg_trsmitr_cnt t + send_data) mod 2 ^ 32,
                                 pkg_desc := (if subpkg_num t = 0 then BLE_FRAME_PKG_FIRST else BLE_FRAME_PKG_MIDDLE)\<rparr>
                       in if pkg_trsmitr_cnt t' < total t'
                          then Some (OPRT_SVC_BT_API_TRSMITR_CONTINUE, Some (t'\<lparr>subpkg_num := subpkg_num t' + 1\<rparr>), g)
                          else Some (OPRT_OK, Some (t'\<lparr>pkg_desc := BLE_FRAME_PKG_END\<rparr>), g)))))"

text \<open>The loop that reads such a number from the received bytes, and the bytes behind it.\<close>

fun decode_num :: "nat \<Rightarrow> nat \<Rightarrow> nat \<Rightarrow> byte list \<Rightarrow> (nat \<times> byte list) option" where
  "decode_num 0 multiplier acc raw = Some (acc, raw)"
| "decode_num (Suc k) multiplier acc [] = None"
| "decode_num (Suc k) multiplier acc (digit # raw) =
     (let acc = acc + unat (digit AND 0x7f) * multiplier
      in if digit AND 0x80 = 0 then Some (acc, raw) else decode_num k (multiplier * 0x80) acc raw)"

text \<open>The end of the decoder: what is left of the received bytes is copied to the buffer.\<close>

definition store_subpkg :: "byte list \<Rightarrow> ble_frame_trsmitr \<Rightarrow> (operate_ret \<times> ble_frame_trsmitr) option" where
  "store_subpkg data t =
     (let recv_data = length data mod 2 ^ 16;
          left = (total t + 2 ^ 32 - pkg_trsmitr_cnt t) mod 2 ^ 32;
          recv_data = (if left < recv_data then left else recv_data)
      in if recv_data > length (subpkg t) then None
         else
           (let t = t\<lparr>subpkg := memcpy_at (subpkg t) 0 (take recv_data data), subpkg_len := recv_data,
                      pkg_trsmitr_cnt := (pkg_trsmitr_cnt t + recv_data) mod 2 ^ 32\<rparr>
            in if pkg_trsmitr_cnt t < total t then Some (OPRT_SVC_BT_API_TRSMITR_CONTINUE, t)
               else Some (OPRT_OK, t\<lparr>pkg_desc := BLE_FRAME_PKG_END\<rparr>)))"

text \<open>The first subpackage also carries the length of the frame, its version and its sequence number.\<close>

definition decode_frame_info :: "byte list \<Rightarrow> ble_frame_trsmitr \<Rightarrow> (operate_ret \<times> ble_frame_trsmitr) option" where
  "decode_frame_info raw t =
     (case decode_num 4 1 (total t) raw of
        None \<Rightarrow> None
      | Some (tot, raw) \<Rightarrow>
          if tot \<ge> 0x10000000 then Some (OPRT_COM_ERROR, t\<lparr>total := tot\<rparr>)
          else (case raw of
                  [] \<Rightarrow> None
                | b # raw \<Rightarrow>
                    store_subpkg raw (t\<lparr>total := tot, version := drop_bit 4 (b AND 0xf0), seq := b AND 0x0f\<rparr>)))"

definition clear_frame :: "ble_frame_trsmitr \<Rightarrow> ble_frame_trsmitr" where
  "clear_frame t = t\<lparr>total := 0, version := 0, seq := 0, pkg_trsmitr_cnt := 0\<rparr>"

definition ble_frame_trsmitr_recv_pkg_decode ::
  "ble_frame_trsmitr option \<Rightarrow> byte list option \<Rightarrow> (operate_ret \<times> ble_frame_trsmitr option) option" where
  "ble_frame_trsmitr_recv_pkg_decode trsmitr raw_data =
     (case (trsmitr, raw_data) of
        (Some t, Some raw) \<Rightarrow>
          (let t = (if pkg_desc t = BLE_FRAME_PKG_INIT then clear_frame t else t)
           in case decode_num 4 1 0 raw of
                None \<Rightarrow> None
              | Some (num, raw) \<Rightarrow>
                  (let t = (if num = 0 then (clear_frame t)\<lparr>pkg_desc := BLE_FRAME_PKG_FIRST\<rparr>
                            else t\<lparr>pkg_desc := BLE_FRAME_PKG_MIDDLE\<rparr>)
                   in if subpkg_num t \<ge> 0x10000000 then Some (OPRT_COM_ERROR, Some t)
                      else if pkg_desc t \<noteq> BLE_FRAME_PKG_FIRST \<and> num < subpkg_num t
                      then Some (OPRT_SVC_BT_API_TRSMITR_ERROR, Some t)
                      else if pkg_desc t \<noteq> BLE_FRAME_PKG_FIRST \<and> num = subpkg_num t
                      then Some (OPRT_SVC_BT_API_TRSMITR_CONTINUE, Some t)
                      else if pkg_desc t \<noteq> BLE_FRAME_PKG_FIRST \<and> num - subpkg_num t > 1
                      then Some (OPRT_SVC_BT_API_TRSMITR_ERROR, Some t)
                      else map_option (\<lambda>(r, t). (r, Some t))
                             (if num = 0 then decode_frame_info raw (t\<lparr>subpkg_num := num\<rparr>)
                              else store_subpkg raw (t\<lparr>subpkg_num := num\<rparr>))))
      | _ \<Rightarrow> Some (OPRT_INVALID_PARM, trsmitr))"

section \<open>Numbers\<close>

lemma low_digit_and:
  fixes d :: nat
  assumes "d < 128"
  shows "((word_of_nat d :: byte) OR 0x80) AND 0x7f = word_of_nat d" "((word_of_nat d :: byte) OR 0x80) AND 0x80 \<noteq> 0"
    "(word_of_nat d :: byte) AND 0x7f = word_of_nat d" "(word_of_nat d :: byte) AND 0x80 = 0"
    "unat (word_of_nat d :: byte) = d"
proof -
  have "take_bit 7 d = d" using assms by (simp add: take_bit_nat_eq_self)
  then have b: "\<not> bit (word_of_nat d :: byte) n" if "n \<ge> 7" for n
    using that by (metis bit_take_bit_iff bit_of_nat_iff not_le)
  have m: "(0x7f :: byte) = mask 7" by (simp add: mask_eq_exp_minus_1)
  have "(0x80 :: byte) = push_bit 7 1" by simp
  then have e: "bit (0x80 :: byte) n \<longleftrightarrow> n = 7" for n by (simp only: bit_push_bit_iff bit_1_iff) auto
  note bits = m bit_and_iff bit_or_iff bit_mask_iff possible_bit_word e
  show "(word_of_nat d :: byte) AND 0x7f = word_of_nat d"
    by (rule bit_word_eqI, simp only: bits) (metis b not_less)
  show "((word_of_nat d :: byte) OR 0x80) AND 0x7f = word_of_nat d"
    by (rule bit_word_eqI, simp only: bits) (metis b not_less less_irrefl)
  show "((word_of_nat d :: byte) OR 0x80) AND 0x80 \<noteq> 0"
  proof
    assume "((word_of_nat d :: byte) OR 0x80) AND 0x80 = 0"
    then have "\<not> bit (((word_of_nat d :: byte) OR 0x80) AND 0x80) 7" by simp
    then show False by (simp only: bits) simp
  qed
  show "(word_of_nat d :: byte) AND 0x80 = 0"
    by (rule bit_word_eqI, simp only: bits) (metis b bit_0_eq bot_apply bot_bool_def order_refl)
  show "unat (word_of_nat d :: byte) = d"
    using assms by (simp add: unsigned_of_nat take_bit_eq_mod)
qed

lemma decode_encode_num:
  assumes "v < 128 ^ k" "0 < k"
  shows "decode_num k m acc (encode_num k v @ rest) = Some (acc + v * m, rest)"
  using assms
proof (induction k arbitrary: v m acc)
  case (Suc k)
  have d: "v mod 128 < 128" by simp
  show ?case
  proof (cases "v div 128 = 0")
    case True
    then have "v < 128" by (simp add: div_eq_0_iff)
    then show ?thesis using low_digit_and [of v] by (simp add: Let_def)
  next
    case False
    then have "128 \<le> v" by (simp add: div_eq_0_iff)
    with Suc.prems have k: "0 < k" by (cases k) auto
    have "v div 128 < 128 ^ k" using Suc.prems by (simp add: less_mult_imp_div_less)
    from Suc.IH [OF this k, of "m * 128" "acc + v mod 128 * m"] False low_digit_and [OF d]
    have "decode_num (Suc k) m acc (encode_num (Suc k) v @ rest) = Some (acc + v mod 128 * m + v div 128 * (m * 128), rest)"
      by (simp add: Let_def)
    moreover have "v mod 128 * m + v div 128 * (m * 128) = v * m"
      using mod_mult_div_eq [of v 128] by (metis add_mult_distrib mult.assoc mult.commute)
    ultimately show ?thesis by simp
  qed
qed simp

lemma length_encode_num: "length (encode_num k v) \<le> k"
  by (induction k v rule: encode_num.induct) auto

lemma encode_num_nonempty: "0 < k \<Longrightarrow> 1 \<le> length (encode_num k v)"
  by (cases k) auto

lemma encode_num_0: "encode_num 4 0 = [0]"
proof -
  have "encode_num (Suc k) 0 = [0]" for k by simp
  from this [of 3] show ?thesis by simp
qed


section \<open>A frame across the channel\<close>

text \<open>
  One call of the sender in the middle of a frame: \<open>c\<close> bytes are sent, \<open>n\<close> subpackages. What it sends is
  the header and the next chunk.
\<close>

definition chunk_size :: "nat \<Rightarrow> nat \<Rightarrow> nat \<Rightarrow> nat" where
  "chunk_size plen hlen rest = min rest (plen - hlen)"

lemma length_subpkg_header: "length (subpkg_header t len) \<le> 9" "subpkg_num t = 0 \<longrightarrow> length (subpkg_header t len) \<le> 6"
  using length_encode_num [of 4 "subpkg_num t"] length_encode_num [of 4 len] encode_num_0
  by (auto simp: subpkg_header_def)

lemma take_memcpy_header:
  assumes "length hdr + length ch \<le> length buf"
  shows "take (length hdr + length ch) (memcpy_at (memcpy_at buf 0 hdr) (length hdr) ch) = hdr @ ch"
  by (simp add: memcpy_at_def)

lemma send_step:
  assumes "pkg_desc t \<noteq> BLE_FRAME_PKG_INIT" "total t = length buf" "length buf < 0x10000000" "subpkg_num t < 0x10000000"
    and "pkg_trsmitr_cnt t = c" "c \<le> length buf" "length (subpkg t) = plen" "ble_frame_packet_len_get g = plen"
    and "9 < plen" "plen < 65536"
    and "hdr = subpkg_header t (length buf)" "k = chunk_size plen (length hdr) (length buf - c)"
  shows "\<exists>t'. ble_frame_trsmitr_send_pkg_encode (Some t) v buf g
      = Some (if c + k < length buf then OPRT_SVC_BT_API_TRSMITR_CONTINUE else OPRT_OK, Some t', g)
    \<and> take (subpkg_len t') (subpkg t') = hdr @ take k (drop c buf) \<and> length (subpkg t') = plen
    \<and> pkg_trsmitr_cnt t' = c + k \<and> total t' = total t \<and> version t' = version t \<and> seq t' = seq t
    \<and> pkg_desc t' \<noteq> BLE_FRAME_PKG_INIT \<and> (c + k < length buf \<longrightarrow> subpkg_num t' = subpkg_num t + 1)"
proof -
  have h: "length hdr \<le> 9" using assms(11) length_subpkg_header(1) by simp
  have left: "(length buf + 2 ^ 32 - c) mod 2 ^ 32 = length buf - c"
    using assms(3,6) by (intro wrap_sub) auto
  have sd: "(plen + 2 ^ 16 - length hdr) mod 2 ^ 16 = plen - length hdr"
    using h assms(9,10) by (intro wrap_sub) auto
  have k: "(if length buf - c < plen - length hdr then length buf - c else plen - length hdr) = k"
    by (simp add: assms(12) chunk_size_def min_def)
  have kb: "length hdr + k \<le> plen" "c + k \<le> length buf"
    using h assms(6,9,12) by (auto simp: chunk_size_def)
  define ch where "ch = take k (drop c buf)"
  have lc: "length ch = k" using kb(2) by (simp add: ch_def)
  have ck: "(c + k) mod 2 ^ 32 = c + k" using kb(2) assms(3) by simp
  have m: "take (length hdr + k) (memcpy_at (memcpy_at (subpkg t) 0 hdr) (length hdr) ch) = hdr @ ch"
    using take_memcpy_header [of hdr ch "subpkg t"] lc kb(1) assms(7) by simp
  have l: "length (memcpy_at (memcpy_at (subpkg t) 0 hdr) (length hdr) ch) = plen"
    using lc kb(1) assms(7) by simp
  have nb: "\<not> (length hdr + k > length (subpkg t) \<or> c + k > length buf)" using kb assms(7) by simp
  show ?thesis
    unfolding ble_frame_trsmitr_send_pkg_encode_def option.case Let_def if_not_P [OF assms(1)] prod.case
      assms(5,8) assms(11) [symmetric] left sd k if_not_P [OF nb] ch_def [symmetric]
    using assms(1-4) m l ck by simp
qed


text \<open>The first call, from the state after the creation, behaves as the call on the initialised fields.\<close>

lemma send_init:
  assumes "pkg_desc t = BLE_FRAME_PKG_INIT" "ble_frame_seq_get g = (s, g')" "length buf < 0x10000000"
  shows "ble_frame_trsmitr_send_pkg_encode (Some t) v buf g = ble_frame_trsmitr_send_pkg_encode
    (Some (t\<lparr>total := length buf, version := v, seq := word_of_nat s, subpkg_num := 0, pkg_trsmitr_cnt := 0,
              pkg_desc := BLE_FRAME_PKG_FIRST\<rparr>)) v buf g'"
proof -
  have "ble_frame_packet_len_get g' = ble_frame_packet_len_get g"
    using assms(2) by (auto simp: ble_frame_seq_get_def ble_frame_packet_len_get_def split: if_splits)
  with assms show ?thesis
    by (simp add: ble_frame_trsmitr_send_pkg_encode_def subpkg_header_def Let_def)
qed

lemma store_step:
  assumes "pkg_trsmitr_cnt r + length ch \<le> total r" "total r < 0x10000000" "length ch \<le> length (subpkg r)" "length ch < 65536"
  shows "\<exists>r'. store_subpkg ch r
      = Some (if pkg_trsmitr_cnt r + length ch < total r then OPRT_SVC_BT_API_TRSMITR_CONTINUE else OPRT_OK, r')
    \<and> take (subpkg_len r') (subpkg r') = ch \<and> subpkg_len r' = length ch \<and> length (subpkg r') = length (subpkg r)
    \<and> pkg_trsmitr_cnt r' = pkg_trsmitr_cnt r + length ch \<and> total r' = total r \<and> subpkg_num r' = subpkg_num r
    \<and> version r' = version r \<and> seq r' = seq r
    \<and> pkg_desc r' = (if pkg_trsmitr_cnt r + length ch < total r then pkg_desc r else BLE_FRAME_PKG_END)"
proof -
  have left: "(total r + 2 ^ 32 - pkg_trsmitr_cnt r) mod 2 ^ 32 = total r - pkg_trsmitr_cnt r"
    using assms(1,2) by (intro wrap_sub) auto
  have n: "\<not> total r - pkg_trsmitr_cnt r < length ch" using assms(1) by simp
  show ?thesis
    unfolding store_subpkg_def Let_def left using assms n by simp
qed

lemma recv_middle:
  assumes "pkg_desc r \<noteq> BLE_FRAME_PKG_INIT" "subpkg_num r = n" "n + 1 < 0x10000000"
    and "pkg_trsmitr_cnt r + length ch \<le> total r" "total r < 0x10000000" "length ch \<le> length (subpkg r)" "length ch < 65536"
  shows "\<exists>r'. ble_frame_trsmitr_recv_pkg_decode (Some r) (Some (encode_num 4 (n + 1) @ ch))
      = Some (if pkg_trsmitr_cnt r + length ch < total r then OPRT_SVC_BT_API_TRSMITR_CONTINUE else OPRT_OK, Some r')
    \<and> take (subpkg_len r') (subpkg r') = ch \<and> subpkg_len r' = length ch \<and> length (subpkg r') = length (subpkg r)
    \<and> pkg_trsmitr_cnt r' = pkg_trsmitr_cnt r + length ch \<and> total r' = total r \<and> subpkg_num r' = n + 1
    \<and> version r' = version r \<and> seq r' = seq r
    \<and> pkg_desc r' = (if pkg_trsmitr_cnt r + length ch < total r then BLE_FRAME_PKG_MIDDLE else BLE_FRAME_PKG_END)"
proof -
  have d: "decode_num 4 1 0 (encode_num 4 (n + 1) @ ch) = Some (n + 1, ch)"
    using assms(3) decode_encode_num [of "n + 1" 4 1 0 ch] by simp
  let ?r = "r\<lparr>pkg_desc := BLE_FRAME_PKG_MIDDLE, subpkg_num := n + 1\<rparr>"
  have "ble_frame_trsmitr_recv_pkg_decode (Some r) (Some (encode_num 4 (n + 1) @ ch))
      = map_option (\<lambda>(r, t). (r, Some t)) (store_subpkg ch ?r)"
    unfolding ble_frame_trsmitr_recv_pkg_decode_def prod.case option.case Let_def d using assms(1-3) by simp
  with store_step [of ?r ch] assms(4-7) show ?thesis by auto
qed

lemma frame_byte:
  fixes v s :: byte
  assumes "v < 16" "s < 16"
  shows "drop_bit 4 ((push_bit 4 v OR (s AND 0x0f)) AND 0xf0) = v" "(push_bit 4 v OR (s AND 0x0f)) AND 0x0f = s"
proof -
  have z: "\<not> bit v n" "\<not> bit s n" if "4 \<le> n" for n
  proof -
    have "take_bit 4 v = v" "take_bit 4 s = s"
      using assms by (simp_all add: take_bit_eq_mod mod_word_less)
    then show "\<not> bit v n" "\<not> bit s n" using that by (metis bit_take_bit_iff not_le)+
  qed
  have e: "bit (0x0f :: byte) n \<longleftrightarrow> n < 4" for n
  proof -
    have "(0x0f :: byte) = mask 4" by (simp add: mask_eq_exp_minus_1)
    then show ?thesis by (simp only: bit_mask_iff possible_bit_word) auto
  qed
  have f: "bit (0xf0 :: byte) n \<longleftrightarrow> 4 \<le> n \<and> n < 8" for n
  proof -
    have "(0xf0 :: byte) = push_bit 4 (mask 4)" by (simp add: mask_eq_exp_minus_1)
    then show ?thesis by (simp only: bit_push_bit_iff bit_mask_iff possible_bit_word) auto
  qed
  have z': "bit v n \<Longrightarrow> n < 4" "bit s n \<Longrightarrow> n < 4" for n using z [of n] by (meson not_le)+
  note bits = bit_drop_bit_eq comp_apply bit_and_iff bit_or_iff bit_push_bit_iff possible_bit_word e f
  show "drop_bit 4 ((push_bit 4 v OR (s AND 0x0f)) AND 0xf0) = v"
    by (rule bit_word_eqI, simp only: bits) (auto dest: z')
  show "(push_bit 4 v OR (s AND 0x0f)) AND 0x0f = s"
    by (rule bit_word_eqI, simp only: bits) (auto dest: z')
qed

lemma decode_frame_info_step:
  assumes "len < 0x10000000" "decode_num 4 1 0 raw = Some (len, b # ch)" "drop_bit 4 (b AND 0xf0) = v" "b AND 0x0f = s" "total r = 0"
  shows "decode_frame_info raw r = store_subpkg ch (r\<lparr>total := len, version := v, seq := s\<rparr>)"
  unfolding decode_frame_info_def assms(2,5) option.case prod.case using assms by simp

lemma recv_first:
  assumes "subpkg_num t = 0" "version t < 16" "seq t < 16" "subpkg_num r < 0x10000000"
    and "len < 0x10000000" "length ch \<le> len" "length ch \<le> length (subpkg r)" "length ch < 65536"
  shows "\<exists>r'. ble_frame_trsmitr_recv_pkg_decode (Some r) (Some (subpkg_header t len @ ch))
      = Some (if length ch < len then OPRT_SVC_BT_API_TRSMITR_CONTINUE else OPRT_OK, Some r')
    \<and> take (subpkg_len r') (subpkg r') = ch \<and> subpkg_len r' = length ch \<and> length (subpkg r') = length (subpkg r)
    \<and> pkg_trsmitr_cnt r' = length ch \<and> total r' = len \<and> subpkg_num r' = 0
    \<and> version r' = version t \<and> seq r' = seq t
    \<and> pkg_desc r' = (if length ch < len then BLE_FRAME_PKG_FIRST else BLE_FRAME_PKG_END)"
proof -
  let ?b = "push_bit 4 (version t) OR (seq t AND 0x0f)"
  have d1: "decode_num 4 1 0 (encode_num 4 0 @ encode_num 4 len @ ?b # ch) = Some (0, encode_num 4 len @ ?b # ch)"
    using decode_encode_num [of 0 4 1 0 "encode_num 4 len @ ?b # ch"] by simp
  have d2: "decode_num 4 1 0 (encode_num 4 len @ ?b # ch) = Some (len, ?b # ch)"
    using assms(5) decode_encode_num [of len 4 1 0 "?b # ch"] by simp
  have h: "subpkg_header t len @ ch = encode_num 4 0 @ encode_num 4 len @ ?b # ch"
    using assms(1) by (simp add: subpkg_header_def)
  let ?r = "(clear_frame r)\<lparr>pkg_desc := BLE_FRAME_PKG_FIRST, subpkg_num := 0, total := len, version := version t, seq := seq t\<rparr>"
  have "ble_frame_trsmitr_recv_pkg_decode (Some r) (Some (subpkg_header t len @ ch))
      = map_option (\<lambda>(r, t). (r, Some t)) (store_subpkg ch ?r)"
    unfolding h ble_frame_trsmitr_recv_pkg_decode_def prod.case option.case Let_def d1
    using assms(4) decode_frame_info_step [OF assms(5) d2 frame_byte [OF assms(2,3)]] by (simp add: clear_frame_def)
  with store_step [of ?r ch] assms(5-8) show ?thesis by (auto simp: clear_frame_def)
qed

end
