(* ===== verification/BleReassembly.thy ===== *)
theory BleReassembly
  imports BleTrsmitr
begin

text \<open>
  The reassembly of frames in the Bluetooth manager, \<^verbatim>\<open>ble_packet_trsmitr\<close> of \<^verbatim>\<open>src/tuya_cloud_service/ble/ble_mgr.c\<close>, and
  the proof that a frame cut by the transmitter is put together again: \<open>mid_frame\<close> relates sender and
  receiver between two subpackages. The number of received packets, which is only printed, is left out.
\<close>

section \<open>Reassembly\<close>

abbreviation TUYA_BLE_AIR_FRAME_MAX :: nat where "TUYA_BLE_AIR_FRAME_MAX \<equiv> 1024"

record ble_packet_recv_t =
  trsmitr :: ble_frame_trsmitr
  raw_len :: nat
  raw_buf :: "byte list"
  dec_len :: nat
  dec_buf :: "byte list"

definition clear_raw :: "ble_packet_recv_t \<Rightarrow> ble_packet_recv_t" where
  "clear_raw pr = pr\<lparr>raw_len := 0, raw_buf := replicate TUYA_BLE_AIR_FRAME_MAX 0\<rparr>"

definition ble_packet_trsmitr ::
  "ble_packet_recv_t \<Rightarrow> byte list \<Rightarrow> (operate_ret \<times> ble_packet_recv_t) option" where
  "ble_packet_trsmitr pr buf =
     (case ble_frame_trsmitr_recv_pkg_decode (Some (trsmitr pr)) (Some buf) of
        Some (rt, Some t) \<Rightarrow>
          (let pr = pr\<lparr>trsmitr := t\<rparr>
           in if OPRT_OK \<noteq> rt \<and> OPRT_SVC_BT_API_TRSMITR_CONTINUE \<noteq> rt then Some (rt, clear_raw pr)
              else
                (let pr = (if pkg_desc t = BLE_FRAME_PKG_FIRST \<or> pkg_desc t = BLE_FRAME_PKG_END \<and> subpkg_num t = 0
                           then clear_raw pr else pr);
                     len = ble_frame_subpacket_len_get t;
                     new_len = (raw_len pr + len) mod 2 ^ 32
                 in if new_len \<le> TUYA_BLE_AIR_FRAME_MAX
                    then Some (rt, pr\<lparr>raw_buf := memcpy_at (raw_buf pr) (raw_len pr) (take len (ble_frame_subpacket_get t)),
                                      raw_len := new_len\<rparr>)
                    else Some (OPRT_INVALID_PARM, pr\<lparr>raw_len := new_len\<rparr>)))
      | _ \<Rightarrow> None)"

text \<open>
  The intended use of the transmitter: the encoder is called until it reports the last subpackage, and
  every subpackage is handed to the other side. No function of the sources is this loop: \<open>ble_packet_resp\<close> calls the encoder once and sends the first subpackage only. The fuel bounds the number of calls.
\<close>

fun send_all ::
  "nat \<Rightarrow> ble_frame_trsmitr \<Rightarrow> byte \<Rightarrow> byte list \<Rightarrow> ble_frame_globals \<Rightarrow> (byte list list \<times> ble_frame_globals) option" where
  "send_all 0 t v buf g = None"
| "send_all (Suc f) t v buf g =
     (case ble_frame_trsmitr_send_pkg_encode (Some t) v buf g of
        Some (rt, Some t, g) \<Rightarrow>
          (let p = take (ble_frame_subpacket_len_get t) (ble_frame_subpacket_get t)
           in if rt = OPRT_OK then Some ([p], g)
              else if rt = OPRT_SVC_BT_API_TRSMITR_CONTINUE
              then map_option (\<lambda>(ps, g). (p # ps, g)) (send_all f t v buf g)
              else None)
      | _ \<Rightarrow> None)"

fun recv_all :: "ble_packet_recv_t \<Rightarrow> byte list list \<Rightarrow> (operate_ret list \<times> ble_packet_recv_t) option" where
  "recv_all pr [] = Some ([], pr)"
| "recv_all pr (p # ps) =
     (case ble_packet_trsmitr pr p of
        None \<Rightarrow> None
      | Some (rt, pr) \<Rightarrow> map_option (\<lambda>(rts, pr). (rt # rts, pr)) (recv_all pr ps))"

lemma take_memcpy_append:
  assumes "take c dst = take c src" "c + k \<le> length dst" "c + k \<le> length src"
  shows "take (c + k) (memcpy_at dst c (take k (drop c src))) = take (c + k) src"
proof -
  have "take (c + k) (memcpy_at dst c (take k (drop c src))) = take c dst @ take k (drop c src)"
    using assms(2,3) by (simp add: memcpy_at_def)
  also have "\<dots> = take (c + k) src" by (simp add: assms(1) take_add)
  finally show ?thesis .
qed

text \<open>Receiving one more subpackage: the chunk is appended to what has been put together.\<close>

lemma append_chunk:
  assumes "ble_frame_trsmitr_recv_pkg_decode (Some (trsmitr pr)) (Some p) = Some (rt, Some r)"
    and "rt = OPRT_OK \<or> rt = OPRT_SVC_BT_API_TRSMITR_CONTINUE"
    and "pkg_desc r = BLE_FRAME_PKG_MIDDLE \<or> pkg_desc r = BLE_FRAME_PKG_END \<and> subpkg_num r \<noteq> 0"
    and "take (subpkg_len r) (subpkg r) = take k (drop c buf)" "subpkg_len r = k"
    and "raw_len pr = c" "take c (raw_buf pr) = take c buf" "length (raw_buf pr) = 1024" "c + k \<le> length buf" "length buf \<le> 1024"
  shows "\<exists>pr'. ble_packet_trsmitr pr p = Some (rt, pr') \<and> trsmitr pr' = r \<and> raw_len pr' = c + k
    \<and> take (c + k) (raw_buf pr') = take (c + k) buf \<and> length (raw_buf pr') = 1024
    \<and> dec_len pr' = dec_len pr \<and> dec_buf pr' = dec_buf pr"
proof -
  have "(c + k) mod 2 ^ 32 = c + k" using assms(9,10) by simp
  with assms take_memcpy_append [of c "raw_buf pr" buf k] show ?thesis
    by (auto simp: ble_packet_trsmitr_def Let_def ble_frame_subpacket_len_get_def ble_frame_subpacket_get_def)
qed

lemma first_chunk:
  assumes "ble_frame_trsmitr_recv_pkg_decode (Some (trsmitr pr)) (Some p) = Some (rt, Some r)"
    and "rt = OPRT_OK \<or> rt = OPRT_SVC_BT_API_TRSMITR_CONTINUE"
    and "pkg_desc r = BLE_FRAME_PKG_FIRST \<or> pkg_desc r = BLE_FRAME_PKG_END \<and> subpkg_num r = 0"
    and "take (subpkg_len r) (subpkg r) = take k buf" "subpkg_len r = k" "k \<le> length buf" "length buf \<le> 1024"
  shows "\<exists>pr'. ble_packet_trsmitr pr p = Some (rt, pr') \<and> trsmitr pr' = r \<and> raw_len pr' = k
    \<and> take k (raw_buf pr') = take k buf \<and> length (raw_buf pr') = 1024 \<and> dec_len pr' = dec_len pr \<and> dec_buf pr' = dec_buf pr"
proof -
  have "k mod 2 ^ 32 = k" using assms(6,7) by simp
  with assms take_memcpy_append [of 0 "replicate 1024 0" buf k] show ?thesis
    by (auto simp: ble_packet_trsmitr_def Let_def ble_frame_subpacket_len_get_def ble_frame_subpacket_get_def clear_raw_def)
qed

text \<open>The sender and the receiver in the middle of a frame: \<open>c\<close> bytes and \<open>n + 1\<close> subpackages are across.\<close>

definition mid_frame ::
  "nat \<Rightarrow> byte list \<Rightarrow> nat \<Rightarrow> nat \<Rightarrow> byte \<Rightarrow> ble_frame_trsmitr \<Rightarrow> ble_packet_recv_t \<Rightarrow> bool" where
  "mid_frame plen buf c n v t pr \<longleftrightarrow>
     pkg_desc t \<noteq> BLE_FRAME_PKG_INIT \<and> total t = length buf \<and> subpkg_num t = n + 1 \<and> pkg_trsmitr_cnt t = c
     \<and> length (subpkg t) = plen \<and> n + 1 \<le> c \<and> c < length buf
     \<and> pkg_desc (trsmitr pr) \<noteq> BLE_FRAME_PKG_INIT \<and> total (trsmitr pr) = length buf \<and> subpkg_num (trsmitr pr) = n
     \<and> pkg_trsmitr_cnt (trsmitr pr) = c \<and> plen \<le> length (subpkg (trsmitr pr)) \<and> version (trsmitr pr) = v
     \<and> raw_len pr = c \<and> take c (raw_buf pr) = take c buf \<and> length (raw_buf pr) = 1024"

lemma mid_step:
  assumes "mid_frame plen buf c n v t pr" "length buf \<le> 1024" "ble_frame_packet_len_get g = plen" "9 < plen" "plen < 65536"
  shows "\<exists>rt t' p pr' c'. ble_frame_trsmitr_send_pkg_encode (Some t) vv buf g = Some (rt, Some t', g)
    \<and> take (subpkg_len t') (subpkg t') = p \<and> length p \<le> plen \<and> ble_packet_trsmitr pr p = Some (rt, pr') \<and> c < c'
    \<and> (if c' < length buf then rt = OPRT_SVC_BT_API_TRSMITR_CONTINUE \<and> mid_frame plen buf c' (n + 1) v t' pr'
       else rt = OPRT_OK \<and> raw_len pr' = length buf \<and> take (length buf) (raw_buf pr') = buf
         \<and> length (raw_buf pr') = 1024 \<and> version (trsmitr pr') = v)
    \<and> dec_len pr' = dec_len pr \<and> dec_buf pr' = dec_buf pr"
proof -
  note m = assms(1) [unfolded mid_frame_def]
  define hdr where "hdr = subpkg_header t (length buf)"
  define k where "k = chunk_size plen (length hdr) (length buf - c)"
  define ch where "ch = take k (drop c buf)"
  have hdr: "hdr = encode_num 4 (n + 1)" using m by (simp add: hdr_def subpkg_header_def)
  have h: "length hdr \<le> 9" unfolding hdr_def by (rule length_subpkg_header)
  have k: "0 < k" "c + k \<le> length buf" "length hdr + k \<le> plen" using m h assms(4) by (auto simp: k_def chunk_size_def)
  have lch: "length ch = k" using k(2) by (simp add: ch_def)
  let ?rt = "if c + k < length buf then OPRT_SVC_BT_API_TRSMITR_CONTINUE else OPRT_OK"
  obtain t' where s: "ble_frame_trsmitr_send_pkg_encode (Some t) vv buf g = Some (?rt, Some t', g)"
    "take (subpkg_len t') (subpkg t') = hdr @ ch" "length (subpkg t') = plen" "pkg_trsmitr_cnt t' = c + k"
    "total t' = total t" "pkg_desc t' \<noteq> BLE_FRAME_PKG_INIT" "c + k < length buf \<longrightarrow> subpkg_num t' = subpkg_num t + 1"
    using send_step [of t buf c plen g hdr k vv] m assms(2-5) by (auto simp: hdr_def k_def ch_def)
  have cnt: "pkg_trsmitr_cnt (trsmitr pr) = c" and tot: "total (trsmitr pr) = length buf" and vs: "version (trsmitr pr) = v"
    using m by simp_all
  have recv: "pkg_desc (trsmitr pr) \<noteq> BLE_FRAME_PKG_INIT" "subpkg_num (trsmitr pr) = n" "n + 1 < 0x10000000"
    "pkg_trsmitr_cnt (trsmitr pr) + length ch \<le> total (trsmitr pr)" "total (trsmitr pr) < 0x10000000"
    "length ch \<le> length (subpkg (trsmitr pr))" "length ch < 65536"
    using m k lch assms(2,5) by simp_all
  note recv = recv_middle [OF this]
  obtain r' where r: "ble_frame_trsmitr_recv_pkg_decode (Some (trsmitr pr)) (Some (hdr @ ch)) = Some (?rt, Some r')"
    "take (subpkg_len r') (subpkg r') = ch" "subpkg_len r' = k" "length (subpkg r') = length (subpkg (trsmitr pr))"
    "pkg_trsmitr_cnt r' = c + k" "total r' = length buf" "subpkg_num r' = n + 1" "version r' = v"
    "pkg_desc r' = (if c + k < length buf then BLE_FRAME_PKG_MIDDLE else BLE_FRAME_PKG_END)"
    using recv [unfolded lch cnt tot hdr [symmetric] vs] by blast
  have rt: "?rt = OPRT_OK \<or> ?rt = OPRT_SVC_BT_API_TRSMITR_CONTINUE"
    and desc: "pkg_desc r' = BLE_FRAME_PKG_MIDDLE \<or> pkg_desc r' = BLE_FRAME_PKG_END \<and> subpkg_num r' \<noteq> 0"
    and raw: "raw_len pr = c" "take c (raw_buf pr) = take c buf" "length (raw_buf pr) = 1024"
    using r m by simp_all
  obtain pr' where p: "ble_packet_trsmitr pr (hdr @ ch) = Some (?rt, pr')" "trsmitr pr' = r'" "raw_len pr' = c + k"
    "take (c + k) (raw_buf pr') = take (c + k) buf" "length (raw_buf pr') = 1024" "dec_len pr' = dec_len pr" "dec_buf pr' = dec_buf pr"
    using append_chunk [OF r(1) rt desc r(2) [unfolded ch_def] r(3) raw k(2) assms(2)] by blast
  show ?thesis
    using s r p k m lch
    by (intro exI [of _ ?rt] exI [of _ t'] exI [of _ "hdr @ ch"] exI [of _ pr'] exI [of _ "c + k"])
       (auto simp: mid_frame_def)
qed


text \<open>The whole rest of a frame, by induction on the bytes that are left.\<close>

lemma mid_frame_done:
  assumes "mid_frame plen buf c n v t pr" "length buf \<le> 1024" "ble_frame_packet_len_get g = plen" "9 < plen" "plen < 65536"
    and "length buf - c \<le> f"
  shows "\<exists>ps pr'. send_all f t vv buf g = Some (ps, g) \<and> ps \<noteq> [] \<and> (\<forall>p \<in> set ps. length p \<le> plen)
    \<and> recv_all pr ps = Some (replicate (length ps - 1) OPRT_SVC_BT_API_TRSMITR_CONTINUE @ [OPRT_OK], pr')
    \<and> raw_len pr' = length buf \<and> take (length buf) (raw_buf pr') = buf \<and> length (raw_buf pr') = 1024
    \<and> version (trsmitr pr') = v \<and> dec_len pr' = dec_len pr \<and> dec_buf pr' = dec_buf pr"
  using assms(1,6)
proof (induction f arbitrary: c n t pr)
  case 0
  then show ?case by (simp add: mid_frame_def)
next
  case (Suc f)
  from mid_step [OF Suc.prems(1) assms(2-5), of vv] obtain rt t' p pr1 c' where
    s: "ble_frame_trsmitr_send_pkg_encode (Some t) vv buf g = Some (rt, Some t', g)"
      "take (subpkg_len t') (subpkg t') = p" "length p \<le> plen" "ble_packet_trsmitr pr p = Some (rt, pr1)" "c < c'"
    and e: "if c' < length buf then rt = OPRT_SVC_BT_API_TRSMITR_CONTINUE \<and> mid_frame plen buf c' (n + 1) v t' pr1
       else rt = OPRT_OK \<and> raw_len pr1 = length buf \<and> take (length buf) (raw_buf pr1) = buf
         \<and> length (raw_buf pr1) = 1024 \<and> version (trsmitr pr1) = v"
    and d: "dec_len pr1 = dec_len pr" "dec_buf pr1 = dec_buf pr"
    by blast
  note gets = ble_frame_subpacket_len_get_def ble_frame_subpacket_get_def
  show ?case
  proof (cases "c' < length buf")
    case True
    with e have m: "rt = OPRT_SVC_BT_API_TRSMITR_CONTINUE" "mid_frame plen buf c' (n + 1) v t' pr1" by simp_all
    have "length buf - c' \<le> f" using s(5) Suc.prems(2) True by simp
    from Suc.IH [OF m(2) this] obtain ps pr' where
      i: "send_all f t' vv buf g = Some (ps, g)" "ps \<noteq> []" "\<forall>p \<in> set ps. length p \<le> plen"
      "recv_all pr1 ps = Some (replicate (length ps - 1) OPRT_SVC_BT_API_TRSMITR_CONTINUE @ [OPRT_OK], pr')"
      "raw_len pr' = length buf" "take (length buf) (raw_buf pr') = buf" "length (raw_buf pr') = 1024"
      "version (trsmitr pr') = v" "dec_len pr' = dec_len pr1" "dec_buf pr' = dec_buf pr1" by blast
    have rep: "OPRT_SVC_BT_API_TRSMITR_CONTINUE # replicate (length ps - 1) OPRT_SVC_BT_API_TRSMITR_CONTINUE
      = replicate (length ps) OPRT_SVC_BT_API_TRSMITR_CONTINUE" using i(2) by (cases ps) simp_all
    show ?thesis
      using s m(1) i d rep by (intro exI [of _ "p # ps"] exI [of _ pr']) (simp add: gets Let_def)
  next
    case False
    with e s d show ?thesis by (intro exI [of _ "[p]"] exI [of _ pr1]) (simp add: gets Let_def)
  qed
qed

lemma seq_get_bound: "ble_frame_seq_get g = (s, g') \<Longrightarrow> (word_of_nat s :: byte) < 16 \<and> s_ble_frame_packet_len g' = s_ble_frame_packet_len g"
proof -
  assume a: "ble_frame_seq_get g = (s, g')"
  then have "s < 16" by (auto simp: ble_frame_seq_get_def split: if_splits)
  then have "unat (word_of_nat s :: byte) < 16" by (simp add: unsigned_of_nat take_bit_eq_mod)
  with a show ?thesis by (auto simp: ble_frame_seq_get_def word_less_nat_alt split: if_splits)
qed

text \<open>The first subpackage, from the transmitter as created and a receiver in any state.\<close>

lemma first_step:
  assumes "ble_frame_trsmitr_create True True g = Some t" "ble_frame_packet_len_get g = plen" "9 < plen" "plen < 65536"
    and "length buf \<le> 1024" "v < 16" "subpkg_num (trsmitr pr) < 0x10000000" "plen \<le> length (subpkg (trsmitr pr))"
  shows "\<exists>rt t' p pr' k g'. ble_frame_trsmitr_send_pkg_encode (Some t) v buf g = Some (rt, Some t', g')
    \<and> take (subpkg_len t') (subpkg t') = p \<and> length p \<le> plen \<and> k + 3 \<le> length p
    \<and> ble_packet_trsmitr pr p = Some (rt, pr')
    \<and> ble_frame_packet_len_get g' = plen
    \<and> (if k < length buf then rt = OPRT_SVC_BT_API_TRSMITR_CONTINUE \<and> mid_frame plen buf k 0 v t' pr'
       else rt = OPRT_OK \<and> raw_len pr' = length buf \<and> take (length buf) (raw_buf pr') = buf
         \<and> length (raw_buf pr') = 1024 \<and> version (trsmitr pr') = v)
    \<and> dec_len pr' = dec_len pr \<and> dec_buf pr' = dec_buf pr"
proof -
  obtain s g' where sg: "ble_frame_seq_get g = (s, g')" by fastforce
  have g': "ble_frame_packet_len_get g' = plen" and sq: "(word_of_nat s :: byte) < 16"
    using seq_get_bound [OF sg] assms(2) by (simp_all add: ble_frame_packet_len_get_def)
  define t1 where "t1 = t\<lparr>total := length buf, version := v, seq := word_of_nat s, subpkg_num := 0,
    pkg_trsmitr_cnt := 0, pkg_desc := BLE_FRAME_PKG_FIRST\<rparr>"
  have t: "pkg_desc t = BLE_FRAME_PKG_INIT" "length (subpkg t) = plen"
    using assms(1,2) by (auto simp: ble_frame_trsmitr_create_def)
  have init: "ble_frame_trsmitr_send_pkg_encode (Some t) v buf g = ble_frame_trsmitr_send_pkg_encode (Some t1) v buf g'"
    unfolding t1_def using assms(5) by (intro send_init t(1) sg) simp
  define hdr k ch where "hdr = subpkg_header t1 (length buf)"
    and "k = chunk_size plen (length hdr) (length buf - 0)" and "ch = take k (drop 0 buf)"
  have h: "length hdr \<le> 9" unfolding hdr_def by (rule length_subpkg_header)
  have h3: "3 \<le> length hdr"
    using encode_num_nonempty [of 4 "length buf"] encode_num_0 by (simp add: hdr_def subpkg_header_def t1_def)
  have k: "length buf > 0 \<longrightarrow> 0 < k" "k \<le> length buf" "length hdr + k \<le> plen" and lch: "length ch = k"
    using h assms(3) by (auto simp: k_def chunk_size_def ch_def)
  let ?rt = "if k < length buf then OPRT_SVC_BT_API_TRSMITR_CONTINUE else OPRT_OK"
  obtain t' where s: "ble_frame_trsmitr_send_pkg_encode (Some t1) v buf g' = Some (?rt, Some t', g')"
    "take (subpkg_len t') (subpkg t') = hdr @ ch" "length (subpkg t') = plen" "pkg_trsmitr_cnt t' = k"
    "total t' = length buf" "pkg_desc t' \<noteq> BLE_FRAME_PKG_INIT" "k < length buf \<longrightarrow> subpkg_num t' = 1"
    using send_step [of t1 buf 0 plen g' hdr k v] t(2) assms(3-5) g' by (auto simp: hdr_def k_def ch_def t1_def)
  have rf: "subpkg_num t1 = 0" "version t1 < 16" "seq t1 < 16" "subpkg_num (trsmitr pr) < 0x10000000"
    "length buf < 0x10000000" "length ch \<le> length buf" "length ch \<le> length (subpkg (trsmitr pr))" "length ch < 65536"
    using assms(4-8) sq k lch by (simp_all add: t1_def)
  obtain r' where r: "ble_frame_trsmitr_recv_pkg_decode (Some (trsmitr pr)) (Some (hdr @ ch)) = Some (?rt, Some r')"
    "take (subpkg_len r') (subpkg r') = ch" "subpkg_len r' = k" "length (subpkg r') = length (subpkg (trsmitr pr))"
    "pkg_trsmitr_cnt r' = k" "total r' = length buf" "subpkg_num r' = 0" "version r' = version t1"
    "pkg_desc r' = (if k < length buf then BLE_FRAME_PKG_FIRST else BLE_FRAME_PKG_END)"
    using recv_first [OF rf, folded hdr_def, unfolded lch] by blast
  have rt: "?rt = OPRT_OK \<or> ?rt = OPRT_SVC_BT_API_TRSMITR_CONTINUE"
    and desc: "pkg_desc r' = BLE_FRAME_PKG_FIRST \<or> pkg_desc r' = BLE_FRAME_PKG_END \<and> subpkg_num r' = 0"
    and chunk: "take (subpkg_len r') (subpkg r') = take k buf" and vt: "version t1 = v"
    using r by (simp_all add: ch_def t1_def)
  from first_chunk [OF r(1) rt desc chunk r(3) k(2) assms(5)] obtain pr1 where
    p: "ble_packet_trsmitr pr (hdr @ ch) = Some (?rt, pr1)" "trsmitr pr1 = r'" "raw_len pr1 = k"
    "take k (raw_buf pr1) = take k buf" "length (raw_buf pr1) = 1024" "dec_len pr1 = dec_len pr" "dec_buf pr1 = dec_buf pr"
    by blast
  show ?thesis
    using init s r p k lch g' vt assms(8) h3
    by (intro exI [of _ ?rt] exI [of _ t'] exI [of _ "hdr @ ch"] exI [of _ pr1] exI [of _ k] exI [of _ g'])
       (auto simp: mid_frame_def)
qed

text \<open>A whole frame, from the transmitter as created.\<close>

lemma frame_roundtrip:
  assumes "ble_frame_trsmitr_create True True g = Some t" "ble_frame_packet_len_get g = plen" "9 < plen" "plen < 65536"
    and "length buf \<le> 1024" "v < 16" "subpkg_num (trsmitr pr) < 0x10000000" "plen \<le> length (subpkg (trsmitr pr))"
  shows "\<exists>ps g' pr'. send_all (Suc (length buf)) t v buf g = Some (ps, g') \<and> ps \<noteq> [] \<and> (\<forall>p \<in> set ps. length p \<le> plen)
    \<and> recv_all pr ps = Some (replicate (length ps - 1) OPRT_SVC_BT_API_TRSMITR_CONTINUE @ [OPRT_OK], pr')
    \<and> raw_len pr' = length buf \<and> take (length buf) (raw_buf pr') = buf \<and> length (raw_buf pr') = 1024
    \<and> version (trsmitr pr') = v \<and> dec_len pr' = dec_len pr \<and> dec_buf pr' = dec_buf pr"
proof -
  from first_step [OF assms] obtain rt t' p pr1 k g' where
    s: "ble_frame_trsmitr_send_pkg_encode (Some t) v buf g = Some (rt, Some t', g')"
      "take (subpkg_len t') (subpkg t') = p" "length p \<le> plen" "ble_packet_trsmitr pr p = Some (rt, pr1)"
      "ble_frame_packet_len_get g' = plen"
    and e: "if k < length buf then rt = OPRT_SVC_BT_API_TRSMITR_CONTINUE \<and> mid_frame plen buf k 0 v t' pr1
       else rt = OPRT_OK \<and> raw_len pr1 = length buf \<and> take (length buf) (raw_buf pr1) = buf
         \<and> length (raw_buf pr1) = 1024 \<and> version (trsmitr pr1) = v"
    and d: "dec_len pr1 = dec_len pr" "dec_buf pr1 = dec_buf pr"
    by blast
  note gets = ble_frame_subpacket_len_get_def ble_frame_subpacket_get_def
  show ?thesis
  proof (cases "k < length buf")
    case True
    with e have m: "rt = OPRT_SVC_BT_API_TRSMITR_CONTINUE" "mid_frame plen buf k 0 v t' pr1" by simp_all
    from mid_frame_done [OF m(2) assms(5) s(5) assms(3,4) diff_le_self, of v] obtain ps pr' where
      i: "send_all (length buf) t' v buf g' = Some (ps, g')" "ps \<noteq> []" "\<forall>p \<in> set ps. length p \<le> plen"
      "recv_all pr1 ps = Some (replicate (length ps - 1) OPRT_SVC_BT_API_TRSMITR_CONTINUE @ [OPRT_OK], pr')"
      "raw_len pr' = length buf" "take (length buf) (raw_buf pr') = buf" "length (raw_buf pr') = 1024"
      "version (trsmitr pr') = v" "dec_len pr' = dec_len pr1" "dec_buf pr' = dec_buf pr1" by blast
    have rep: "OPRT_SVC_BT_API_TRSMITR_CONTINUE # replicate (length ps - 1) OPRT_SVC_BT_API_TRSMITR_CONTINUE
      = replicate (length ps) OPRT_SVC_BT_API_TRSMITR_CONTINUE" using i(2) by (cases ps) simp_all
    show ?thesis
      using s m(1) i d rep by (intro exI [of _ "p # ps"] exI [of _ g'] exI [of _ pr']) (simp add: gets Let_def)
  next
    case False
    with e s d show ?thesis by (intro exI [of _ "[p]"] exI [of _ g'] exI [of _ pr1]) (simp add: gets Let_def)
  qed
qed

end
