(* ===== verification/Checksum.thy ===== *)
theory Checksum
  imports Prelude
begin

text \<open>
  The checksums \<^verbatim>\<open>src/common/utilities/crc_16.c\<close> and \<^verbatim>\<open>src/common/utilities/crc32i.c\<close>. Both are related to one
  bitwise reference, the shift register step \<open>crc_step\<close> with the reflected polynomial: the table-driven
  CRC-32 computes the same function, and the CRC-16 has the residue property its users rely on.
\<close>

section \<open>Model\<close>

text \<open>The inner loop of \<^verbatim>\<open>get_crc_16\<close>: \<open>n\<close> bits of the byte \<open>ds\<close>.\<close>

fun crc16_bits :: "nat \<Rightarrow> u16 \<Rightarrow> byte \<Rightarrow> u16" where
  "crc16_bits 0 crc ds = crc"
| "crc16_bits (Suc n) crc ds =
     crc16_bits n (drop_bit 1 crc XOR [0, 0xa001] ! unat ((crc XOR ucast ds) AND 1)) (drop_bit 1 ds)"

definition get_crc_16 :: "byte list \<Rightarrow> u16" where
  "get_crc_16 data = fold (\<lambda>ds crc. crc16_bits 8 crc ds) data 0xffff"

definition s_crc32 :: "u32 list" where
  "s_crc32 =
     [
      0x00000000, 0x77073096, 0xEE0E612C, 0x990951BA, 0x076DC419, 0x706AF48F, 0xE963A535, 0x9E6495A3,
      0x0EDB8832, 0x79DCB8A4, 0xE0D5E91E, 0x97D2D988, 0x09B64C2B, 0x7EB17CBD, 0xE7B82D07, 0x90BF1D91,
      0x1DB71064, 0x6AB020F2, 0xF3B97148, 0x84BE41DE, 0x1ADAD47D, 0x6DDDE4EB, 0xF4D4B551, 0x83D385C7,
      0x136C9856, 0x646BA8C0, 0xFD62F97A, 0x8A65C9EC, 0x14015C4F, 0x63066CD9, 0xFA0F3D63, 0x8D080DF5,
      0x3B6E20C8, 0x4C69105E, 0xD56041E4, 0xA2677172, 0x3C03E4D1, 0x4B04D447, 0xD20D85FD, 0xA50AB56B,
      0x35B5A8FA, 0x42B2986C, 0xDBBBC9D6, 0xACBCF940, 0x32D86CE3, 0x45DF5C75, 0xDCD60DCF, 0xABD13D59,
      0x26D930AC, 0x51DE003A, 0xC8D75180, 0xBFD06116, 0x21B4F4B5, 0x56B3C423, 0xCFBA9599, 0xB8BDA50F,
      0x2802B89E, 0x5F058808, 0xC60CD9B2, 0xB10BE924, 0x2F6F7C87, 0x58684C11, 0xC1611DAB, 0xB6662D3D,
      0x76DC4190, 0x01DB7106, 0x98D220BC, 0xEFD5102A, 0x71B18589, 0x06B6B51F, 0x9FBFE4A5, 0xE8B8D433,
      0x7807C9A2, 0x0F00F934, 0x9609A88E, 0xE10E9818, 0x7F6A0DBB, 0x086D3D2D, 0x91646C97, 0xE6635C01,
      0x6B6B51F4, 0x1C6C6162, 0x856530D8, 0xF262004E, 0x6C0695ED, 0x1B01A57B, 0x8208F4C1, 0xF50FC457,
      0x65B0D9C6, 0x12B7E950, 0x8BBEB8EA, 0xFCB9887C, 0x62DD1DDF, 0x15DA2D49, 0x8CD37CF3, 0xFBD44C65,
      0x4DB26158, 0x3AB551CE, 0xA3BC0074, 0xD4BB30E2, 0x4ADFA541, 0x3DD895D7, 0xA4D1C46D, 0xD3D6F4FB,
      0x4369E96A, 0x346ED9FC, 0xAD678846, 0xDA60B8D0, 0x44042D73, 0x33031DE5, 0xAA0A4C5F, 0xDD0D7CC9,
      0x5005713C, 0x270241AA, 0xBE0B1010, 0xC90C2086, 0x5768B525, 0x206F85B3, 0xB966D409, 0xCE61E49F,
      0x5EDEF90E, 0x29D9C998, 0xB0D09822, 0xC7D7A8B4, 0x59B33D17, 0x2EB40D81, 0xB7BD5C3B, 0xC0BA6CAD,
      0xEDB88320, 0x9ABFB3B6, 0x03B6E20C, 0x74B1D29A, 0xEAD54739, 0x9DD277AF, 0x04DB2615, 0x73DC1683,
      0xE3630B12, 0x94643B84, 0x0D6D6A3E, 0x7A6A5AA8, 0xE40ECF0B, 0x9309FF9D, 0x0A00AE27, 0x7D079EB1,
      0xF00F9344, 0x8708A3D2, 0x1E01F268, 0x6906C2FE, 0xF762575D, 0x806567CB, 0x196C3671, 0x6E6B06E7,
      0xFED41B76, 0x89D32BE0, 0x10DA7A5A, 0x67DD4ACC, 0xF9B9DF6F, 0x8EBEEFF9, 0x17B7BE43, 0x60B08ED5,
      0xD6D6A3E8, 0xA1D1937E, 0x38D8C2C4, 0x4FDFF252, 0xD1BB67F1, 0xA6BC5767, 0x3FB506DD, 0x48B2364B,
      0xD80D2BDA, 0xAF0A1B4C, 0x36034AF6, 0x41047A60, 0xDF60EFC3, 0xA867DF55, 0x316E8EEF, 0x4669BE79,
      0xCB61B38C, 0xBC66831A, 0x256FD2A0, 0x5268E236, 0xCC0C7795, 0xBB0B4703, 0x220216B9, 0x5505262F,
      0xC5BA3BBE, 0xB2BD0B28, 0x2BB45A92, 0x5CB36A04, 0xC2D7FFA7, 0xB5D0CF31, 0x2CD99E8B, 0x5BDEAE1D,
      0x9B64C2B0, 0xEC63F226, 0x756AA39C, 0x026D930A, 0x9C0906A9, 0xEB0E363F, 0x72076785, 0x05005713,
      0x95BF4A82, 0xE2B87A14, 0x7BB12BAE, 0x0CB61B38, 0x92D28E9B, 0xE5D5BE0D, 0x7CDCEFB7, 0x0BDBDF21,
      0x86D3D2D4, 0xF1D4E242, 0x68DDB3F8, 0x1FDA836E, 0x81BE16CD, 0xF6B9265B, 0x6FB077E1, 0x18B74777,
      0x88085AE6, 0xFF0F6A70, 0x66063BCA, 0x11010B5C, 0x8F659EFF, 0xF862AE69, 0x616BFFD3, 0x166CCF45,
      0xA00AE278, 0xD70DD2EE, 0x4E048354, 0x3903B3C2, 0xA7672661, 0xD06016F7, 0x4969474D, 0x3E6E77DB,
      0xAED16A4A, 0xD9D65ADC, 0x40DF0B66, 0x37D83BF0, 0xA9BCAE53, 0xDEBB9EC5, 0x47B2CF7F, 0x30B5FFE9,
      0xBDBDF21C, 0xCABAC28A, 0x53B39330, 0x24B4A3A6, 0xBAD03605, 0xCDD70693, 0x54DE5729, 0x23D967BF,
      0xB3667A2E, 0xC4614AB8, 0x5D681B02, 0x2A6F2B94, 0xB40BBE37, 0xC30C8EA1, 0x5A05DF1B, 0x2D02EF8D
     ]"

abbreviation CRC32_INT_VALUE :: u32 where "CRC32_INT_VALUE \<equiv> 0xFFFFFFFF"
abbreviation CRC32_XOR_VALUE :: u32 where "CRC32_XOR_VALUE \<equiv> 0xFFFFFFFF"

definition hash_crc32i_init :: u32 where
  "hash_crc32i_init = CRC32_INT_VALUE"

definition hash_crc32i_update :: "u32 \<Rightarrow> byte list \<Rightarrow> u32" where
  "hash_crc32i_update hash data =
     fold (\<lambda>b hash. s_crc32 ! unat ((hash XOR ucast b) AND 0xFF) XOR drop_bit 8 hash) data hash"

definition hash_crc32i_finish :: "u32 \<Rightarrow> u32" where
  "hash_crc32i_finish hash = hash XOR CRC32_XOR_VALUE"

definition hash_crc32i_total :: "byte list \<Rightarrow> u32" where
  "hash_crc32i_total data =
     (let hash = hash_crc32i_init;
          hash = hash_crc32i_update hash data
      in hash_crc32i_finish hash)"

section \<open>The bitwise reference\<close>

definition crc_step :: "'a :: len word \<Rightarrow> 'a word \<Rightarrow> 'a word" where
  "crc_step poly x = drop_bit 1 x XOR (if bit x 0 then poly else 0)"

lemma crc_step_xor: "crc_step p (x XOR y) = crc_step p x XOR crc_step p y"
proof (rule bit_word_eqI)
  fix n
  show "bit (crc_step p (x XOR y)) n \<longleftrightarrow> bit (crc_step p x XOR crc_step p y) n"
    by (cases "bit x 0"; cases "bit y 0") (auto simp: crc_step_def bit_simps)
qed

lemma crc_steps_xor: "(crc_step p ^^ n) (x XOR y) = (crc_step p ^^ n) x XOR (crc_step p ^^ n) y"
  by (induction n) (simp_all add: crc_step_xor)

lemma crc_steps_shift: "take_bit n x = 0 \<Longrightarrow> (crc_step p ^^ n) x = drop_bit n x"
proof (induction n arbitrary: x)
  case (Suc n)
  have z: "\<not> bit x k" if "k < Suc n" for k
    using that Suc.prems by (metis bit_take_bit_iff bit_0_eq bot_fun_def bot_bool_def)
  have "crc_step p x = drop_bit 1 x" using z [of 0] by (simp add: crc_step_def)
  moreover have "take_bit n (drop_bit 1 x) = 0"
    using z by (auto intro!: bit_word_eqI simp: bit_simps)
  ultimately show ?case using Suc.IH [of "drop_bit 1 x"] by (simp add: funpow_swap1 drop_bit_drop_bit)
qed simp

abbreviation POLY32 :: u32 where "POLY32 \<equiv> 0xEDB88320"
abbreviation POLY16 :: u16 where "POLY16 \<equiv> 0xa001"

text \<open>
  The table is spanned by its entries at the powers of two: \<open>spread\<close> builds it from these eight, as
  every function that commutes with \<open>XOR\<close> is built.
\<close>

fun spread :: "u32 list \<Rightarrow> u32 list" where
  "spread [] = [0]"
| "spread (w # ws) = (let t = spread ws in t @ map (\<lambda>x. x XOR w) t)"

lemma of_nat_add_pow: "k < 2 ^ n \<Longrightarrow> of_nat (k + 2 ^ n) = (of_nat k XOR 2 ^ n :: u32)"
proof -
  assume k: "k < 2 ^ n"
  have "take_bit n k AND 2 ^ n = 0" by (rule bit_eqI) (auto simp: bit_simps)
  then have "k AND 2 ^ n = 0" by (simp only: take_bit_nat_eq_self [OF k])
  then have "k + 2 ^ n = k XOR 2 ^ n" by (metis disjunctive_add_eq_xor)
  then show ?thesis by (simp add: of_nat_xor_eq)
qed

lemma spread_linear:
  fixes L :: "u32 \<Rightarrow> u32"
  assumes "\<And>x y. L (x XOR y) = L x XOR L y"
  shows "spread (map (\<lambda>i. L (2 ^ i)) (rev [0..<n])) = map (\<lambda>k. L (of_nat k)) [0..<2 ^ n]"
proof (induction n)
  case 0
  have "L 0 = 0" using assms [of 0 0] by simp
  then show ?case by simp
next
  case (Suc n)
  have "[0..<2 ^ Suc n] = [0..<2 ^ n] @ map (\<lambda>k. k + 2 ^ n) [0..<2 ^ n]"
    using upt_add_eq_append [of 0 "2 ^ n" "2 ^ n"] by (simp add: map_add_upt mult_2)
  moreover have "map (\<lambda>k. L (of_nat (k + 2 ^ n))) [0..<2 ^ n] = map (\<lambda>k. L (of_nat k) XOR L (2 ^ n)) [0..<2 ^ n]"
    by (rule map_cong) (auto simp: of_nat_add_pow assms simp del: of_nat_add)
  ultimately show ?case using Suc.IH by (simp add: Let_def comp_def)
qed

lemma crc32_chain:
  "crc_step POLY32 128 = 64" "crc_step POLY32 64 = 32" "crc_step POLY32 32 = 16" "crc_step POLY32 16 = 8"
  "crc_step POLY32 8 = 4" "crc_step POLY32 4 = 2" "crc_step POLY32 2 = 1" "crc_step POLY32 1 = 0xEDB88320"
  "crc_step POLY32 0xEDB88320 = 0x76DC4190" "crc_step POLY32 0x76DC4190 = 0x3B6E20C8"
  "crc_step POLY32 0x3B6E20C8 = 0x1DB71064" "crc_step POLY32 0x1DB71064 = 0x0EDB8832"
  "crc_step POLY32 0x0EDB8832 = 0x076DC419" "crc_step POLY32 0x076DC419 = 0xEE0E612C"
  "crc_step POLY32 0xEE0E612C = 0x77073096"
  by (simp_all add: crc_step_def bit_0)

lemma funpow_8: "(f ^^ 8) x = f (f (f (f (f (f (f (f x)))))))"
  by (simp add: numeral_eq_Suc)

lemma crc32_generators:
  "map (\<lambda>i. (crc_step POLY32 ^^ 8) (2 ^ i)) (rev [0..<8])
     = [0xEDB88320, 0x76DC4190, 0x3B6E20C8, 0x1DB71064, 0x0EDB8832, 0x076DC419, 0xEE0E612C, 0x77073096]"
proof -
  have "rev [0..<8] = [7, 6, 5, 4, 3, 2, 1, 0 :: nat]" by (simp add: upt_rec)
  then show ?thesis by (simp add: funpow_8 crc32_chain)
qed

lemma s_crc32_table: "s_crc32 = map (\<lambda>k. (crc_step POLY32 ^^ 8) (of_nat k)) [0..<256]"
proof -
  have "s_crc32 = spread [0xEDB88320, 0x76DC4190, 0x3B6E20C8, 0x1DB71064, 0x0EDB8832, 0x076DC419, 0xEE0E612C, 0x77073096]"
    by (simp add: s_crc32_def Let_def)
  also have "\<dots> = map (\<lambda>k. (crc_step POLY32 ^^ 8) (of_nat k)) [0..<2 ^ 8]"
    unfolding crc32_generators [symmetric] by (rule spread_linear) (rule crc_steps_xor)
  finally show ?thesis by simp
qed

lemma low_byte: "unat ((x :: u32) AND 0xFF) < 256" "of_nat (unat (x AND 0xFF)) = take_bit 8 x"
proof -
  have m: "x AND 0xFF = take_bit 8 x" by (simp add: take_bit_eq_mask mask_eq_exp_minus_1)
  show "unat (x AND 0xFF) < 256"
    using take_bit_nat_less_exp [of 8 "unat x"] by (simp add: m unsigned_take_bit_eq)
  have "of_nat (unat (x AND 0xFF)) = x AND 0xFF" by simp
  then show "of_nat (unat (x AND 0xFF)) = take_bit 8 x" by (simp only: m)
qed

lemma split_byte: "(x :: 'a :: len word) = take_bit 8 x XOR push_bit 8 (drop_bit 8 x)"
  by (rule bit_word_eqI) (auto simp: bit_simps)

lemma table_step:
  "s_crc32 ! unat ((x :: u32) AND 0xFF) XOR drop_bit 8 x = (crc_step POLY32 ^^ 8) x"
proof -
  have t: "s_crc32 ! unat (x AND 0xFF) = (crc_step POLY32 ^^ 8) (take_bit 8 x)"
    using low_byte [of x] by (simp add: s_crc32_table)
  have "take_bit 8 (push_bit 8 (drop_bit 8 x)) = 0" by (rule bit_word_eqI) (auto simp: bit_simps)
  then have "(crc_step POLY32 ^^ 8) (push_bit 8 (drop_bit 8 x)) = drop_bit 8 (push_bit 8 (drop_bit 8 x))"
    by (rule crc_steps_shift)
  also have "\<dots> = drop_bit 8 x" by (rule bit_word_eqI) (auto simp: bit_simps dest: bit_imp_le_length)
  finally have "(crc_step POLY32 ^^ 8) x = (crc_step POLY32 ^^ 8) (take_bit 8 x) XOR drop_bit 8 x"
    by (subst split_byte) (simp only: crc_steps_xor)
  with t show ?thesis by simp
qed

lemma drop_byte: "drop_bit 8 (h XOR ucast (b :: byte)) = drop_bit 8 (h :: 'a :: len word)"
  by (rule bit_word_eqI) (auto simp: bit_simps dest: bit_imp_le_length)

lemma crc16_bits_steps:
  "crc16_bits n crc ds XOR ucast (drop_bit n ds) = (crc_step POLY16 ^^ n) (crc XOR ucast ds)"
proof (induction n arbitrary: crc ds)
  case (Suc n)
  have "[0, 0xa001] ! unat ((crc XOR ucast ds) AND 1) = (if bit (crc XOR ucast ds) 0 then POLY16 else 0)"
    by (simp add: and_one_eq mod_2_eq_odd bit_0)
  moreover have "drop_bit 1 (ucast ds :: u16) = ucast (drop_bit 1 ds)"
    by (rule bit_word_eqI) (auto simp: bit_simps dest: bit_imp_le_length)
  ultimately have s: "(drop_bit 1 crc XOR [0, 0xa001] ! unat ((crc XOR ucast ds) AND 1)) XOR ucast (drop_bit 1 ds)
      = crc_step POLY16 (crc XOR ucast ds)"
    by (simp add: crc_step_def drop_bit_xor ac_simps)
  have "crc16_bits (Suc n) crc ds XOR ucast (drop_bit (Suc n) ds)
      = (crc_step POLY16 ^^ n) ((drop_bit 1 crc XOR [0, 0xa001] ! unat ((crc XOR ucast ds) AND 1)) XOR ucast (drop_bit 1 ds))"
    by (subst Suc.IH [symmetric]) (simp add: drop_bit_drop_bit)
  then show ?case unfolding s by (simp add: funpow_swap1)
qed simp

lemma crc16_byte: "crc16_bits 8 crc ds = (crc_step POLY16 ^^ 8) (crc XOR ucast ds)"
proof -
  have "drop_bit 8 ds = 0" by (rule bit_word_eqI) (auto simp: bit_simps dest: bit_imp_le_length)
  then show ?thesis using crc16_bits_steps [of 8 crc ds] by simp
qed

section \<open>Properties\<close>

text \<open>
  C39. The table-driven CRC-32 is the bitwise one: \<^verbatim>\<open>hash_crc32i_total\<close> equals the shift register with the
  reflected IEEE polynomial that takes eight steps per byte, so in particular each of the 256 entries of
  the table is right.
\<close>

theorem crc32_table_bitwise:
  "hash_crc32i_total data =
     fold (\<lambda>b h. (crc_step 0xEDB88320 ^^ 8) (h XOR ucast b)) data 0xFFFFFFFF XOR 0xFFFFFFFF"
proof -
  have "s_crc32 ! unat ((h XOR ucast b) AND 0xFF) XOR drop_bit 8 h = (crc_step POLY32 ^^ 8) (h XOR ucast b)"
    for h and b :: byte
    using table_step [of "h XOR ucast b"] by (simp only: drop_byte)
  then show ?thesis
    by (simp add: hash_crc32i_total_def hash_crc32i_init_def hash_crc32i_update_def hash_crc32i_finish_def)
qed

text \<open>
  The residue of the CRC-16: a message followed by its own checksum, low byte first, has checksum
  zero, which is how a receiver can check a frame without splitting it.
\<close>

theorem crc16_residue:
  "get_crc_16 (data @ [ucast (get_crc_16 data), ucast (drop_bit 8 (get_crc_16 data))]) = 0"
proof -
  define c where "c = get_crc_16 data"
  have "take_bit 8 (c XOR ucast (ucast c :: byte)) = 0"
    by (rule bit_word_eqI) (auto simp: bit_simps)
  then have "(crc_step POLY16 ^^ 8) (c XOR ucast (ucast c :: byte)) = drop_bit 8 (c XOR ucast (ucast c :: byte))"
    by (rule crc_steps_shift)
  then have lo: "crc16_bits 8 c (ucast c) = drop_bit 8 c" by (simp only: crc16_byte drop_byte)
  have "drop_bit 8 c XOR ucast (ucast (drop_bit 8 c) :: byte) = 0"
    by (rule bit_word_eqI) (auto simp: bit_simps dest: bit_imp_le_length)
  then have "crc16_bits 8 (drop_bit 8 c) (ucast (drop_bit 8 c)) = (crc_step POLY16 ^^ 8) 0" by (simp add: crc16_byte)
  also have "\<dots> = 0" using crc_steps_shift [of 8 "0 :: u16" POLY16] by simp
  finally show ?thesis using lo by (simp add: get_crc_16_def c_def [unfolded get_crc_16_def])
qed

end
