(* ===== verification/Endian.thy ===== *)
theory Endian
  imports Prelude
begin

text \<open>
  Numbers in network byte order, as several components write them into their frames: \<open>be16\<close> and \<open>be32\<close> are the bytes of a number, \<open>rd16\<close> and
  \<open>rd32\<close> read one at a position of a buffer.
\<close>

definition be16 :: "u16 \<Rightarrow> byte list" where
  "be16 w = [ucast (drop_bit 8 w), ucast w]"

definition be32 :: "u32 \<Rightarrow> byte list" where
  "be32 w = [ucast (drop_bit 24 w), ucast (drop_bit 16 w), ucast (drop_bit 8 w), ucast w]"

definition rd16 :: "byte list \<Rightarrow> nat \<Rightarrow> u16" where
  "rd16 buf i = push_bit 8 (ucast (buf ! i)) + ucast (buf ! (i + 1))"

definition rd32 :: "byte list \<Rightarrow> nat \<Rightarrow> u32" where
  "rd32 buf i = push_bit 24 (ucast (buf ! i)) + push_bit 16 (ucast (buf ! (i + 1)))
     + push_bit 8 (ucast (buf ! (i + 2))) + ucast (buf ! (i + 3))"

lemma ucast_ucast_take:
  fixes w :: "'a :: len word"
  assumes "8 \<le> LENGTH('a)"
  shows "ucast (ucast w :: byte) = take_bit 8 w"
  by (rule bit_word_eqI) (auto simp: bit_simps)

lemma rd16_be16: "rd16 (xs @ be16 w @ ys) (length xs) = w"
proof -
  have "take_bit 8 (drop_bit 8 w) = drop_bit 8 w" by (rule bit_word_eqI) (auto simp: bit_simps dest: bit_imp_le_length)
  then have "rd16 (xs @ be16 w @ ys) (length xs) = push_bit 8 (drop_bit 8 w) + take_bit 8 w"
    by (simp add: rd16_def be16_def nth_append ucast_ucast_take)
  then show ?thesis using bits_ident [of 8 w] by simp
qed

lemma split_take_bit: "push_bit m (take_bit n (drop_bit m w)) + take_bit m w = take_bit (m + n) (w :: u32)"
proof -
  have "drop_bit m (take_bit (m + n) w) = take_bit n (drop_bit m w)" "take_bit m (take_bit (m + n) w) = take_bit m w"
    by (simp_all add: drop_bit_take_bit min_def)
  with bits_ident [of m "take_bit (m + n) w"] show ?thesis by simp
qed

lemma rd32_be32: "rd32 (xs @ be32 w @ ys) (length xs) = w"
proof -
  have a: "take_bit 8 (drop_bit 24 w) = drop_bit 24 w" by (rule bit_word_eqI) (auto simp: bit_simps dest: bit_imp_le_length)
  have e1: "rd32 (xs @ be32 w @ ys) (length xs) = push_bit 24 (drop_bit 24 w) + push_bit 16 (take_bit 8 (drop_bit 16 w))
      + push_bit 8 (take_bit 8 (drop_bit 8 w)) + take_bit 8 w"
    by (simp add: rd32_def be32_def nth_append ucast_ucast_take a)
  have e2: "push_bit 8 (take_bit 8 (drop_bit 8 w)) + take_bit 8 w = take_bit 16 w"
    using split_take_bit [of 8 8 w] by simp
  have e3: "push_bit 16 (take_bit 8 (drop_bit 16 w)) + take_bit 16 w = take_bit 24 w"
    using split_take_bit [of 16 8 w] by simp
  show ?thesis by (simp only: e1 add.assoc e2 e3 bits_ident)
qed

lemma length_be [simp]: "length (be16 v) = 2" "length (be32 w) = 4"
  by (simp_all add: be16_def be32_def)

end
