(* ===== verification/BleMgr.thy ===== *)
theory BleMgr
  imports BleReassembly Checksum Endian
begin

text \<open>
  The packet layer of the Bluetooth manager, \<^verbatim>\<open>src/tuya_cloud_service/ble/ble_mgr.c\<close>, with the encryption of
  \<^verbatim>\<open>src/tuya_cloud_service/ble/ble_cryption.c\<close>: a packet is framed with serial numbers, a length and a CRC-16,
  encrypted, and handed to the transmitter; a received frame is put together, decrypted, checked and
  unpacked. MD5 and AES-128-CBC are parameters \<open>md5\<close>, \<open>aes_enc\<close> and \<open>aes_dec\<close>, the random bytes and the
  answers of the radio are arguments. \<open>None\<close> is an access outside a buffer. A packet's length is the length
  of its data.
\<close>

section \<open>Encryption\<close>

abbreviation ENCRYPTION_MODE_NONE :: byte where "ENCRYPTION_MODE_NONE \<equiv> 0"
abbreviation ENCRYPTION_MODE_KEY_11 :: byte where "ENCRYPTION_MODE_KEY_11 \<equiv> 11"
abbreviation ENCRYPTION_MODE_KEY_12 :: byte where "ENCRYPTION_MODE_KEY_12 \<equiv> 12"
abbreviation ENCRYPTION_MODE_KEY_14 :: byte where "ENCRYPTION_MODE_KEY_14 \<equiv> 14"
abbreviation ENCRYPTION_MODE_SESSION_KEY15 :: byte where "ENCRYPTION_MODE_SESSION_KEY15 \<equiv> 15"
abbreviation ENCRYPTION_MODE_KEY_16 :: byte where "ENCRYPTION_MODE_KEY_16 \<equiv> 16"
abbreviation ENCRYPTION_MODE_MAX :: byte where "ENCRYPTION_MODE_MAX \<equiv> 17"

text \<open>The key material, and the two static buffers of the module.\<close>

record ble_crypto_param =
  auth_key :: "byte list"
  login_key :: "byte list"
  sec_key :: "byte list"
  uuid :: "byte list"
  pair_rand :: "byte list"

record ble_crypto_state =
  service_rand :: "byte list"
  key_out_key11 :: "byte list"

definition ble_key_generate ::
  "(byte list \<Rightarrow> byte list) \<Rightarrow> ble_crypto_param \<Rightarrow> byte \<Rightarrow> ble_crypto_state \<Rightarrow> byte list option \<times> ble_crypto_state" where
  "ble_key_generate md5 p mode st =
     (if mode \<ge> ENCRYPTION_MODE_MAX then (None, st)
      else if mode = ENCRYPTION_MODE_NONE then (Some (replicate 16 0), st)
      else
        (let key_in =
               (if mode = ENCRYPTION_MODE_KEY_11 then take 32 (auth_key p) @ take 16 (uuid p) @ take 16 (service_rand st)
                else if mode = ENCRYPTION_MODE_KEY_12 then take 16 (key_out_key11 st) @ take 6 (pair_rand p)
                else if mode = ENCRYPTION_MODE_KEY_14 then take 16 (login_key p) @ take 16 (sec_key p)
                else if mode = ENCRYPTION_MODE_SESSION_KEY15
                then take 16 (login_key p) @ take 16 (sec_key p) @ take 6 (pair_rand p)
                else if mode = ENCRYPTION_MODE_KEY_16
                then take 32 (auth_key p) @ take 16 (md5 (take 16 (uuid p))) @ take 16 (service_rand st)
                else [])
         in if key_in = [] then (None, st)
            else
              (let key_out_hex = take 16 (md5 key_in)
               in (Some key_out_hex,
                   if mode = ENCRYPTION_MODE_KEY_11 then st\<lparr>key_out_key11 := key_out_hex\<rparr> else st))))"

definition ble_add_pkcs :: "byte list \<Rightarrow> byte list" where
  "ble_add_pkcs p =
     (if length p mod 16 = 0 then p
      else (let cz = 16 - length p mod 16 in p @ replicate cz (word_of_nat cz)))"

text \<open>The result is the C result code and the bytes written.\<close>

definition tuya_ble_encryption ::
  "(byte list \<Rightarrow> byte list) \<Rightarrow> (byte list \<Rightarrow> byte list \<Rightarrow> byte list \<Rightarrow> byte list option) \<Rightarrow> ble_crypto_param
     \<Rightarrow> byte \<Rightarrow> byte list \<Rightarrow> byte list \<Rightarrow> ble_crypto_state \<Rightarrow> int \<times> byte list \<times> ble_crypto_state" where
  "tuya_ble_encryption md5 aes_enc p mode iv in_buf st =
     (if mode \<ge> ENCRYPTION_MODE_MAX then (2, [], st)
      else if mode = ENCRYPTION_MODE_NONE then (0, in_buf, st)
      else (case ble_key_generate md5 p mode st of
              (None, st) \<Rightarrow> (4, [], st)
            | (Some key, st) \<Rightarrow>
                (case aes_enc key iv (ble_add_pkcs in_buf) of None \<Rightarrow> (3, [], st) | Some out \<Rightarrow> (0, out, st))))"

definition tuya_ble_decryption ::
  "(byte list \<Rightarrow> byte list) \<Rightarrow> (byte list \<Rightarrow> byte list \<Rightarrow> byte list \<Rightarrow> byte list option) \<Rightarrow> ble_crypto_param
     \<Rightarrow> byte list \<Rightarrow> ble_crypto_state \<Rightarrow> int \<times> byte list \<times> ble_crypto_state" where
  "tuya_ble_decryption md5 aes_dec p in_buf st =
     (if length in_buf < 17 then (1, [], st)
      else if in_buf ! 0 \<ge> ENCRYPTION_MODE_MAX then (2, [], st)
      else if in_buf ! 0 = ENCRYPTION_MODE_NONE then (0, drop 1 in_buf, st)
      else
        (let mode = in_buf ! 0; iv = take 16 (drop 1 in_buf);
             st = (if mode = ENCRYPTION_MODE_KEY_11 \<or> mode = ENCRYPTION_MODE_KEY_16 then st\<lparr>service_rand := iv\<rparr> else st)
         in case ble_key_generate md5 p mode st of
              (None, st) \<Rightarrow> (4, [], st)
            | (Some key, st) \<Rightarrow>
                (case aes_dec key iv (drop 17 in_buf) of None \<Rightarrow> (3, [], st) | Some out \<Rightarrow> (0, out, st))))"

section \<open>Packets\<close>

record ble_packet =
  p_sn :: u32
  p_type :: u16
  p_data :: "byte list"
  p_encrypt_mode :: byte

record ble_mgr =
  crypto_param :: ble_crypto_param
  crypto_state :: ble_crypto_state
  send_sn :: u32
  recv_sn :: u32
  is_paired :: bool
  is_bound :: bool
  packet_recv :: ble_packet_recv_t

abbreviation BLE_PACKET_SN_IND :: nat where "BLE_PACKET_SN_IND \<equiv> 0"
abbreviation BLE_PACKET_CMD_IND :: nat where "BLE_PACKET_CMD_IND \<equiv> 8"
abbreviation BLE_PACKET_DLEN_IND :: nat where "BLE_PACKET_DLEN_IND \<equiv> 10"
abbreviation BLE_PACKET_DATA_IND :: nat where "BLE_PACKET_DATA_IND \<equiv> 12"
abbreviation BLE_PACKET_CRC16_IND :: nat where "BLE_PACKET_CRC16_IND \<equiv> 12"
abbreviation BLE_PACKET_MIN_LEN :: nat where "BLE_PACKET_MIN_LEN \<equiv> 14"

definition frame_body :: "u32 \<Rightarrow> ble_packet \<Rightarrow> byte list" where
  "frame_body sn packet = be32 sn @ be32 (p_sn packet) @ be16 (p_type packet)
     @ be16 (word_of_nat (length (p_data packet))) @ p_data packet"

text \<open>
  The frame is built in a buffer of 1024 bytes before its length is checked, so a packet that does not
  fit there is written outside it. \<open>iv\<close> are the random bytes drawn, \<open>alloc\<close> the result of the allocations.
\<close>

definition ble_packet_encode ::
  "(byte list \<Rightarrow> byte list) \<Rightarrow> (byte list \<Rightarrow> byte list \<Rightarrow> byte list \<Rightarrow> byte list option) \<Rightarrow> bool \<Rightarrow> byte list
     \<Rightarrow> ble_packet \<Rightarrow> ble_mgr \<Rightarrow> ((operate_ret \<times> byte list) \<times> ble_mgr) option" where
  "ble_packet_encode md5 aes_enc alloc iv packet ble =
     (if \<not> alloc then Some ((OPRT_COM_ERROR, []), ble)
      else
        (let sn = send_sn ble;
             ble = ble\<lparr>send_sn := sn + 1\<rparr>;
             body = frame_body sn packet;
             ble_frame = body @ be16 (get_crc_16 body);
             frame_len = length ble_frame
         in if frame_len > TUYA_BLE_AIR_FRAME_MAX then None
            else
              (let padding_len = 17 + (if frame_len mod 16 \<noteq> 0 then 16 - frame_len mod 16 else 0)
               in if frame_len + padding_len > TUYA_BLE_AIR_FRAME_MAX then Some ((OPRT_COM_ERROR, []), ble)
                  else (case tuya_ble_encryption md5 aes_enc (crypto_param ble) (p_encrypt_mode packet) iv ble_frame
                               (crypto_state ble) of
                          (r, out, st) \<Rightarrow>
                            if r = 0 then Some ((OPRT_OK, p_encrypt_mode packet # iv @ out), ble\<lparr>crypto_state := st\<rparr>)
                            else Some ((OPRT_COM_ERROR, []), ble\<lparr>crypto_state := st\<rparr>)))))"

text \<open>
  The loop of \<^verbatim>\<open>ble_packet_resp\<close>. The macro around the call of the radio stores its result in the variable
  \<^verbatim>\<open>rt\<close> that the loop condition then compares with the result of the encoder. \<open>tx\<close> is the answer of the radio.
\<close>

abbreviation TUYA_BLE_PROTOCOL_VERSION_HIGN :: byte where "TUYA_BLE_PROTOCOL_VERSION_HIGN \<equiv> 4"

fun resp_loop ::
  "(byte list \<Rightarrow> operate_ret) \<Rightarrow> nat \<Rightarrow> ble_frame_trsmitr \<Rightarrow> byte list \<Rightarrow> ble_frame_globals
     \<Rightarrow> (operate_ret \<times> byte list list \<times> ble_frame_globals) option" where
  "resp_loop tx 0 t outbuf g = None"
| "resp_loop tx (Suc f) t outbuf g =
     (case ble_frame_trsmitr_send_pkg_encode (Some t) TUYA_BLE_PROTOCOL_VERSION_HIGN outbuf g of
        Some (rt, Some t, g) \<Rightarrow>
          if OPRT_OK \<noteq> rt \<and> OPRT_SVC_BT_API_TRSMITR_CONTINUE \<noteq> rt then Some (rt, [], g)
          else
            (let p = take (ble_frame_subpacket_len_get t) (ble_frame_subpacket_get t);
                 rt = tx p
             in if OPRT_OK \<noteq> rt then Some (rt, [p], g)
                else if rt = OPRT_SVC_BT_API_TRSMITR_CONTINUE
                then map_option (\<lambda>(rt, ps, g). (rt, p # ps, g)) (resp_loop tx f t outbuf g)
                else Some (rt, [p], g))
      | _ \<Rightarrow> None)"

definition ble_packet_resp ::
  "(byte list \<Rightarrow> byte list) \<Rightarrow> (byte list \<Rightarrow> byte list \<Rightarrow> byte list \<Rightarrow> byte list option) \<Rightarrow> (byte list \<Rightarrow> operate_ret)
     \<Rightarrow> bool \<Rightarrow> byte list \<Rightarrow> ble_packet \<Rightarrow> ble_mgr \<Rightarrow> ble_frame_globals
     \<Rightarrow> (operate_ret \<times> byte list list \<times> ble_mgr \<times> ble_frame_globals) option" where
  "ble_packet_resp md5 aes_enc tx alloc iv resp ble g =
     (case ble_packet_encode md5 aes_enc alloc iv resp ble of
        None \<Rightarrow> None
      | Some ((rt, outbuf), ble) \<Rightarrow>
          if OPRT_OK \<noteq> rt then Some (rt, [], ble, g)
          else (case ble_frame_trsmitr_create alloc alloc g of
                  None \<Rightarrow> Some (OPRT_MALLOC_FAILED, [], ble, g)
                | Some t \<Rightarrow> map_option (\<lambda>(rt, ps, g). (rt, ps, ble, g)) (resp_loop tx (length outbuf + 1) t outbuf g)))"

abbreviation FRM_QRY_DEV_INFO_REQ :: u16 where "FRM_QRY_DEV_INFO_REQ \<equiv> 0"

definition tuya_ble_send_packet ::
  "(byte list \<Rightarrow> byte list) \<Rightarrow> (byte list \<Rightarrow> byte list \<Rightarrow> byte list \<Rightarrow> byte list option) \<Rightarrow> (byte list \<Rightarrow> operate_ret)
     \<Rightarrow> bool \<Rightarrow> byte list \<Rightarrow> ble_packet \<Rightarrow> ble_mgr \<Rightarrow> ble_frame_globals
     \<Rightarrow> (operate_ret \<times> byte list list \<times> ble_mgr \<times> ble_frame_globals) option" where
  "tuya_ble_send_packet md5 aes_enc tx alloc iv packet ble g =
     (if \<not> is_paired ble then Some (OPRT_OK, [], ble, g)
      else
        (let mode = (if p_type packet = FRM_QRY_DEV_INFO_REQ
                     then if is_bound ble then ENCRYPTION_MODE_KEY_14 else ENCRYPTION_MODE_KEY_11
                     else if is_bound ble then ENCRYPTION_MODE_SESSION_KEY15 else ENCRYPTION_MODE_KEY_12)
         in ble_packet_resp md5 aes_enc tx alloc iv (packet\<lparr>p_encrypt_mode := mode\<rparr>) ble g))"

definition tuya_ble_send ::
  "(byte list \<Rightarrow> byte list) \<Rightarrow> (byte list \<Rightarrow> byte list \<Rightarrow> byte list \<Rightarrow> byte list option) \<Rightarrow> (byte list \<Rightarrow> operate_ret)
     \<Rightarrow> bool \<Rightarrow> byte list \<Rightarrow> u16 \<Rightarrow> u32 \<Rightarrow> byte list \<Rightarrow> ble_mgr \<Rightarrow> ble_frame_globals
     \<Rightarrow> (operate_ret \<times> byte list list \<times> ble_mgr \<times> ble_frame_globals) option" where
  "tuya_ble_send md5 aes_enc tx alloc iv type ack_sn data ble g =
     tuya_ble_send_packet md5 aes_enc tx alloc iv
       \<lparr>p_sn = ack_sn, p_type = type, p_data = take (length data mod 65536) data, p_encrypt_mode = 0\<rparr> ble g"

text \<open>
  The part of \<^verbatim>\<open>ble_packet_recv\<close> behind the reassembly. The flag in the result says that the connection is
  dropped because the serial number does not grow.
\<close>

definition ble_packet_unpack ::
  "(byte list \<Rightarrow> byte list) \<Rightarrow> (byte list \<Rightarrow> byte list \<Rightarrow> byte list \<Rightarrow> byte list option) \<Rightarrow> bool \<Rightarrow> ble_mgr
     \<Rightarrow> operate_ret \<times> ble_packet option \<times> bool \<times> ble_mgr" where
  "ble_packet_unpack md5 aes_dec alloc ble =
     (let pr = packet_recv ble
      in if raw_len pr > TUYA_BLE_AIR_FRAME_MAX then (OPRT_INVALID_PARM, None, False, ble)
         else if version (trsmitr pr) < 2 then (OPRT_INVALID_PARM, None, False, ble)
         else
           (case tuya_ble_decryption md5 aes_dec (crypto_param ble) (take (raw_len pr) (raw_buf pr)) (crypto_state ble) of
              (rt, dec, st) \<Rightarrow>
                (let ble = ble\<lparr>crypto_state := st\<rparr>
                 in if rt \<noteq> 0 then (OPRT_INVALID_PARM, None, False, ble)
                    else
                      (let db = memcpy_at (dec_buf pr) 0 dec;
                           ble = ble\<lparr>packet_recv := pr\<lparr>dec_buf := db, dec_len := length dec\<rparr>\<rparr>;
                           data_len = unat (rd16 db BLE_PACKET_DLEN_IND)
                       in if data_len + BLE_PACKET_MIN_LEN > TUYA_BLE_AIR_FRAME_MAX
                          then (OPRT_INVALID_PARM, None, False, ble)
                          else if rd16 db (BLE_PACKET_CRC16_IND + data_len)
                                  \<noteq> get_crc_16 (take (data_len + BLE_PACKET_DATA_IND) db)
                          then (OPRT_INVALID_PARM, None, False, ble)
                          else
                            (let sn = rd32 db BLE_PACKET_SN_IND
                             in if sn \<le> recv_sn ble then (OPRT_INVALID_PARM, None, True, ble)
                                else
                                  (let ble = ble\<lparr>recv_sn := sn\<rparr>;
                                       packet = \<lparr>p_sn = sn, p_type = rd16 db BLE_PACKET_CMD_IND,
                                                 p_data = take data_len (drop BLE_PACKET_DATA_IND db),
                                                 p_encrypt_mode = raw_buf pr ! 0\<rparr>
                                   in if data_len \<noteq> 0 \<and> \<not> alloc then (OPRT_MALLOC_FAILED, None, False, ble)
                                      else (OPRT_OK, Some packet, False, ble)))))))"

definition ble_packet_recv ::
  "(byte list \<Rightarrow> byte list) \<Rightarrow> (byte list \<Rightarrow> byte list \<Rightarrow> byte list \<Rightarrow> byte list option) \<Rightarrow> bool \<Rightarrow> byte list \<Rightarrow> ble_mgr
     \<Rightarrow> (operate_ret \<times> ble_packet option \<times> bool \<times> ble_mgr) option" where
  "ble_packet_recv md5 aes_dec alloc buf ble =
     (case ble_packet_trsmitr (packet_recv ble) buf of
        None \<Rightarrow> None
      | Some (rt, pr) \<Rightarrow>
          (let ble = ble\<lparr>packet_recv := pr\<rparr>
           in if OPRT_OK \<noteq> rt then Some (rt, None, False, ble) else Some (ble_packet_unpack md5 aes_dec alloc ble)))"

section \<open>A packet across the channel\<close>

text \<open>The fields of a buffer that starts with a frame.\<close>

lemma frame_fields:
  fixes sn :: u32 and packet :: ble_packet
  assumes "db = frame_body sn packet @ be16 (get_crc_16 (frame_body sn packet)) @ rest" "length (p_data packet) < 65536"
  shows "rd32 db 0 = sn" "rd16 db 8 = p_type packet" "unat (rd16 db 10) = length (p_data packet)"
    "take (length (p_data packet)) (drop 12 db) = p_data packet"
    "rd16 db (12 + length (p_data packet)) = get_crc_16 (take (length (p_data packet) + 12) db)"
proof -
  let ?d = "p_data packet" and ?l = "be16 (word_of_nat (length (p_data packet)))"
  have db: "db = be32 sn @ be32 (p_sn packet) @ be16 (p_type packet) @ ?l @ ?d @ be16 (get_crc_16 (frame_body sn packet)) @ rest"
    using assms(1) by (simp add: frame_body_def)
  show "rd32 db 0 = sn" using rd32_be32 [of "[]" sn] by (simp add: db)
  show "rd16 db 8 = p_type packet"
    using rd16_be16 [of "be32 sn @ be32 (p_sn packet)" "p_type packet"] by (simp add: db)
  have "rd16 db 10 = word_of_nat (length ?d)"
    using rd16_be16 [of "be32 sn @ be32 (p_sn packet) @ be16 (p_type packet)" "word_of_nat (length ?d)"] by (simp add: db)
  then show "unat (rd16 db 10) = length ?d" using assms(2) by (simp add: unsigned_of_nat take_bit_eq_mod)
  show "take (length ?d) (drop 12 db) = ?d" by (simp add: db)
  have l: "length (frame_body sn packet) = 12 + length ?d" by (simp add: frame_body_def)
  have "take (length ?d + 12) db = frame_body sn packet" using l by (simp add: assms(1) add.commute)
  moreover have "rd16 db (12 + length ?d) = get_crc_16 (frame_body sn packet)"
    using rd16_be16 [of "frame_body sn packet" "get_crc_16 (frame_body sn packet)" rest] by (simp add: assms(1) l)
  ultimately show "rd16 db (12 + length ?d) = get_crc_16 (take (length ?d + 12) db)" by simp
qed

lemma unpack_ok:
  assumes "raw_len (packet_recv ble) = length raw" "take (length raw) (raw_buf (packet_recv ble)) = raw" "raw \<noteq> []"
    and "length raw \<le> 1024" "\<not> version (trsmitr (packet_recv ble)) < 2"
    and "tuya_ble_decryption md5 aes_dec (crypto_param ble) raw (crypto_state ble) = (0, dec, st)"
    and "dec = frame_body sn packet @ be16 (get_crc_16 (frame_body sn packet)) @ pad" "length dec \<le> 1024"
    and "recv_sn ble < sn" "raw ! 0 = p_encrypt_mode packet"
  shows "\<exists>ble'. ble_packet_unpack md5 aes_dec True ble = (OPRT_OK, Some (packet\<lparr>p_sn := sn\<rparr>), False, ble') \<and> recv_sn ble' = sn"
proof -
  let ?db = "memcpy_at (dec_buf (packet_recv ble)) 0 dec"
  have db: "?db = frame_body sn packet @ be16 (get_crc_16 (frame_body sn packet)) @ pad @ drop (length dec) (dec_buf (packet_recv ble))"
    by (simp add: memcpy_at_def assms(7))
  have l: "length dec \<ge> 14 + length (p_data packet)" by (simp add: assms(7) frame_body_def)
  then have "length (p_data packet) < 65536" using assms(8) by simp
  note f = frame_fields [OF db this]
  have r0: "raw_buf (packet_recv ble) ! 0 = p_encrypt_mode packet"
    using assms(2,3,10) by (metis length_greater_0_conv nth_take)
  have n: "\<not> length (p_data packet) + 14 > 1024" using l assms(8) by simp
  have "\<not> sn \<le> recv_sn ble" using assms(9) by simp
  with assms(1,2,4,5,6) n r0 show ?thesis
    unfolding ble_packet_unpack_def Let_def
    by (simp add: f)
qed

text \<open>Feeding the received subpackages one by one to \<^verbatim>\<open>ble_packet_recv\<close>.\<close>

fun recv_packets ::
  "(byte list \<Rightarrow> byte list) \<Rightarrow> (byte list \<Rightarrow> byte list \<Rightarrow> byte list \<Rightarrow> byte list option) \<Rightarrow> byte list list \<Rightarrow> ble_mgr
     \<Rightarrow> ((operate_ret \<times> ble_packet option) list \<times> ble_mgr) option" where
  "recv_packets md5 aes_dec [] ble = Some ([], ble)"
| "recv_packets md5 aes_dec (p # ps) ble =
     (case ble_packet_recv md5 aes_dec True p ble of
        None \<Rightarrow> None
      | Some (rt, packet, _, ble) \<Rightarrow>
          map_option (\<lambda>(rs, ble). ((rt, packet) # rs, ble)) (recv_packets md5 aes_dec ps ble))"

lemma recv_packets_frame:
  assumes "recv_all (packet_recv ble) ps = Some (replicate (length ps - 1) OPRT_SVC_BT_API_TRSMITR_CONTINUE @ [OPRT_OK], pr)"
    and "ps \<noteq> []" "ble_packet_unpack md5 aes_dec True (ble\<lparr>packet_recv := pr\<rparr>) = (OPRT_OK, packet, dc, ble')"
  shows "recv_packets md5 aes_dec ps ble
    = Some (replicate (length ps - 1) (OPRT_SVC_BT_API_TRSMITR_CONTINUE, None) @ [(OPRT_OK, packet)], ble')"
  using assms
proof (induction ps arbitrary: ble)
  case (Cons p ps)
  show ?case
  proof (cases ps)
    case Nil
    with Cons.prems show ?thesis
      by (auto simp: ble_packet_recv_def Let_def split: option.splits)
  next
    case (Cons q qs)
    then have rep: "replicate (length (p # ps) - 1) x = x # replicate (length ps - 1) x" for x :: 'x by simp
    from Cons.prems(1) obtain pr1 where
      s: "ble_packet_trsmitr (packet_recv ble) p = Some (OPRT_SVC_BT_API_TRSMITR_CONTINUE, pr1)"
      "recv_all pr1 ps = Some (replicate (length ps - 1) OPRT_SVC_BT_API_TRSMITR_CONTINUE @ [OPRT_OK], pr)"
      unfolding rep by (auto split: option.splits)
    have "recv_packets md5 aes_dec ps (ble\<lparr>packet_recv := pr1\<rparr>)
      = Some (replicate (length ps - 1) (OPRT_SVC_BT_API_TRSMITR_CONTINUE, None) @ [(OPRT_OK, packet)], ble')"
      by (rule Cons.IH) (use s Cons Cons.prems(3) in simp_all)
    then show ?thesis unfolding rep using s(1) by (simp add: ble_packet_recv_def Let_def)
  qed
qed simp


lemma add_pkcs_shape:
  "\<exists>pad. ble_add_pkcs f = f @ pad \<and> length pad = (if length f mod 16 \<noteq> 0 then 16 - length f mod 16 else 0)"
  by (simp add: ble_add_pkcs_def Let_def)

text \<open>What the encoder sends in an encrypting mode.\<close>

lemma encode_ok:
  assumes "ble_packet_encode md5 aes_enc True iv packet ble = Some ((OPRT_OK, out), ble')"
    and "p_encrypt_mode packet \<noteq> ENCRYPTION_MODE_NONE"
  shows "\<exists>body key c. body = frame_body (send_sn ble) packet \<and> out = p_encrypt_mode packet # iv @ c
    \<and> fst (ble_key_generate md5 (crypto_param ble) (p_encrypt_mode packet) (crypto_state ble)) = Some key
    \<and> aes_enc key iv (ble_add_pkcs (body @ be16 (get_crc_16 body))) = Some c \<and> p_encrypt_mode packet < ENCRYPTION_MODE_MAX
    \<and> 17 + length (ble_add_pkcs (body @ be16 (get_crc_16 body))) \<le> 1024 \<and> send_sn ble' = send_sn ble + 1"
proof -
  define body where "body = frame_body (send_sn ble) packet"
  define f where "f = body @ be16 (get_crc_16 body)"
  obtain pad where pad: "ble_add_pkcs f = f @ pad" "length pad = (if length f mod 16 \<noteq> 0 then 16 - length f mod 16 else 0)"
    using add_pkcs_shape by blast
  from assms(1) have le: "\<not> length f > 1024" "\<not> length f + (17 + (if length f mod 16 \<noteq> 0 then 16 - length f mod 16 else 0)) > 1024"
    and e: "(case tuya_ble_encryption md5 aes_enc (crypto_param ble) (p_encrypt_mode packet) iv f (crypto_state ble) of
       (r, out, st) \<Rightarrow> if r = 0 then Some ((OPRT_OK, p_encrypt_mode packet # iv @ out), ble\<lparr>send_sn := send_sn ble + 1, crypto_state := st\<rparr>)
          else Some ((OPRT_COM_ERROR, []), ble\<lparr>send_sn := send_sn ble + 1, crypto_state := st\<rparr>)) = Some ((OPRT_OK, out), ble')"
    unfolding ble_packet_encode_def Let_def body_def [symmetric] f_def [symmetric]
    by (auto split: if_splits)
  have "length (ble_add_pkcs f) + 17 \<le> 1024" using le(2) pad by simp
  moreover obtain key c where "fst (ble_key_generate md5 (crypto_param ble) (p_encrypt_mode packet) (crypto_state ble)) = Some key"
    "aes_enc key iv (ble_add_pkcs f) = Some c" "out = p_encrypt_mode packet # iv @ c" "send_sn ble' = send_sn ble + 1"
    "p_encrypt_mode packet < ENCRYPTION_MODE_MAX"
    using e assms(2) by (auto simp: tuya_ble_encryption_def not_le split: prod.splits option.splits if_splits)
  ultimately show ?thesis unfolding f_def body_def by (intro exI [of _ key] exI [of _ c] exI conjI) (auto simp: add.commute)
qed

lemma decrypt_ok:
  assumes "length iv = 16" "mode \<noteq> ENCRYPTION_MODE_NONE" "mode < ENCRYPTION_MODE_MAX"
    and "fst (ble_key_generate md5 p mode
        (if mode = ENCRYPTION_MODE_KEY_11 \<or> mode = ENCRYPTION_MODE_KEY_16 then st\<lparr>service_rand := iv\<rparr> else st)) = Some key"
    and "aes_dec key iv c = Some x"
  shows "\<exists>st'. tuya_ble_decryption md5 aes_dec p (mode # iv @ c) st = (0, x, st')"
proof -
  let ?st = "if mode = ENCRYPTION_MODE_KEY_11 \<or> mode = ENCRYPTION_MODE_KEY_16 then st\<lparr>service_rand := iv\<rparr> else st"
  obtain st' where k: "ble_key_generate md5 p mode ?st = (Some key, st')" using assms(4) by (metis prod.collapse)
  have m: "\<not> ENCRYPTION_MODE_MAX \<le> mode" using assms(3) by (simp add: not_le)
  have b: "drop 17 (mode # iv @ c) = c" "take 16 (drop 1 (mode # iv @ c)) = iv" "(mode # iv @ c) ! 0 = mode"
    "\<not> length (mode # iv @ c) < 17" using assms(1) by simp_all
  show ?thesis
    unfolding tuya_ble_decryption_def Let_def b if_not_P [OF b(4)] if_not_P [OF m] if_not_P [OF assms(2)] k
    by (simp add: assms(5))
qed

section \<open>Properties\<close>

text \<open>
  A frame of up to 1024 bytes crosses the channel intact: cut by the transmitter into subpackages that
  never exceed the packet length of the connection and handed one by one to the reassembly, all but the
  last of which ask for more, it is in the receiver's buffer byte for byte, with its version. This
  holds for every packet length above 9, and the sender stops after at most one call per byte.
\<close>

theorem ble_frame_crosses:
  assumes "ble_frame_trsmitr_create True True g = Some t" and "9 < ble_frame_packet_len_get g"
    and "ble_frame_packet_len_get g < 65536" and "length buf \<le> TUYA_BLE_AIR_FRAME_MAX" and "v < 16"
    and "subpkg_num (trsmitr pr) < 0x10000000" and "ble_frame_packet_len_get g \<le> length (subpkg (trsmitr pr))"
  shows "\<exists>ps g' pr'. send_all (Suc (length buf)) t v buf g = Some (ps, g')
    \<and> (\<forall>p \<in> set ps. length p \<le> ble_frame_packet_len_get g)
    \<and> recv_all pr ps = Some (replicate (length ps - 1) OPRT_SVC_BT_API_TRSMITR_CONTINUE @ [OPRT_OK], pr')
    \<and> raw_len pr' = length buf \<and> take (length buf) (raw_buf pr') = buf \<and> version (trsmitr pr') = v"
  using frame_roundtrip [OF assms(1) refl assms(2-7)] by blast


text \<open>Concrete values for the witnesses: a channel with packets of 20 bytes, and a manager at the start of a connection.\<close>

definition demo_globals :: ble_frame_globals where
  "demo_globals = \<lparr>s_ble_frame_seq = 3, s_ble_frame_packet_len = 20\<rparr>"

definition demo_recv :: ble_packet_recv_t where
  "demo_recv = \<lparr>trsmitr = \<lparr>total = 0, version = 0, seq = 0, pkg_desc = 0, subpkg_num = 0, pkg_trsmitr_cnt = 0,
     subpkg_len = 0, subpkg = replicate 20 0\<rparr>, raw_len = 0, raw_buf = replicate 1024 0, dec_len = 0, dec_buf = replicate 1024 0\<rparr>"

definition demo_mgr :: ble_mgr where
  "demo_mgr = \<lparr>crypto_param = \<lparr>auth_key = [1], login_key = [2], sec_key = [3], uuid = [4], pair_rand = [5]\<rparr>,
     crypto_state = \<lparr>service_rand = [], key_out_key11 = []\<rparr>, send_sn = 1, recv_sn = 0, is_paired = True, is_bound = True,
     packet_recv = demo_recv\<rparr>"

lemma ble_frame_crosses_witness:
  "\<exists>t ps g' pr'. ble_frame_trsmitr_create True True demo_globals = Some t
    \<and> send_all 51 t 4 (replicate 50 7) demo_globals = Some (ps, g') \<and> raw_len pr' = 50
    \<and> recv_all demo_recv ps = Some (replicate (length ps - 1) OPRT_SVC_BT_API_TRSMITR_CONTINUE @ [OPRT_OK], pr')"
proof -
  obtain t where t: "ble_frame_trsmitr_create True True demo_globals = Some t"
    by (simp add: ble_frame_trsmitr_create_def)
  have "\<exists>ps g' pr'. send_all (Suc (length (replicate 50 (7 :: byte)))) t 4 (replicate 50 7) demo_globals = Some (ps, g')
    \<and> (\<forall>p \<in> set ps. length p \<le> ble_frame_packet_len_get demo_globals)
    \<and> recv_all demo_recv ps = Some (replicate (length ps - 1) OPRT_SVC_BT_API_TRSMITR_CONTINUE @ [OPRT_OK], pr')
    \<and> raw_len pr' = length (replicate 50 (7 :: byte))
    \<and> take (length (replicate 50 (7 :: byte))) (raw_buf pr') = replicate 50 7 \<and> version (trsmitr pr') = 4"
    by (rule ble_frame_crosses [OF t]) (simp_all add: demo_globals_def demo_recv_def ble_frame_packet_len_get_def)
  then show ?thesis using t by auto
qed

text \<open>
  C3. A packet sent in an encrypting mode arrives: for a cipher whose decryption undoes its encryption and
  two sides that derive the same key, encoding the packet, cutting it into subpackages and feeding
  them to the receiver makes the last of them deliver the packet with its type, data and mode, under the sender's
  serial number, provided that this is larger than the last one received.
\<close>

theorem ble_packet_delivered:
  assumes enc: "ble_packet_encode md5 aes_enc True iv packet ble1 = Some ((OPRT_OK, out), ble1')"
    and mode: "p_encrypt_mode packet \<noteq> ENCRYPTION_MODE_NONE" and iv: "length iv = 16"
    and cipher: "\<And>k i x y. aes_enc k i x = Some y \<Longrightarrow> length y = length x \<and> aes_dec k i y = Some x"
    and key: "fst (ble_key_generate md5 (crypto_param ble2) (p_encrypt_mode packet)
        (if p_encrypt_mode packet = ENCRYPTION_MODE_KEY_11 \<or> p_encrypt_mode packet = ENCRYPTION_MODE_KEY_16
         then (crypto_state ble2)\<lparr>service_rand := iv\<rparr> else crypto_state ble2))
      = fst (ble_key_generate md5 (crypto_param ble1) (p_encrypt_mode packet) (crypto_state ble1))"
    and sn: "recv_sn ble2 < send_sn ble1"
    and chan: "ble_frame_trsmitr_create True True g = Some t" "9 < ble_frame_packet_len_get g" "ble_frame_packet_len_get g < 65536"
      "subpkg_num (trsmitr (packet_recv ble2)) < 0x10000000"
      "ble_frame_packet_len_get g \<le> length (subpkg (trsmitr (packet_recv ble2)))"
  shows "\<exists>ps g' ble2'. send_all (Suc (length out)) t TUYA_BLE_PROTOCOL_VERSION_HIGN out g = Some (ps, g')
    \<and> recv_packets md5 aes_dec ps ble2 = Some (replicate (length ps - 1) (OPRT_SVC_BT_API_TRSMITR_CONTINUE, None)
        @ [(OPRT_OK, Some (packet\<lparr>p_sn := send_sn ble1\<rparr>))], ble2')
    \<and> recv_sn ble2' = send_sn ble1 \<and> send_sn ble1' = send_sn ble1 + 1"
proof -
  from encode_ok [OF enc mode] obtain body k c where
    b: "body = frame_body (send_sn ble1) packet" and out: "out = p_encrypt_mode packet # iv @ c"
    and k: "fst (ble_key_generate md5 (crypto_param ble1) (p_encrypt_mode packet) (crypto_state ble1)) = Some k"
    and c: "aes_enc k iv (ble_add_pkcs (body @ be16 (get_crc_16 body))) = Some c"
    and m: "p_encrypt_mode packet < ENCRYPTION_MODE_MAX"
    and l: "17 + length (ble_add_pkcs (body @ be16 (get_crc_16 body))) \<le> 1024" and sn1: "send_sn ble1' = send_sn ble1 + 1"
    by blast
  note dec = cipher [OF c]
  have lo: "length out \<le> 1024" using l dec iv by (simp add: out)
  obtain pad where pad: "ble_add_pkcs (body @ be16 (get_crc_16 body)) = body @ be16 (get_crc_16 body) @ pad"
    using add_pkcs_shape [of "body @ be16 (get_crc_16 body)"] by auto
  obtain st where d: "tuya_ble_decryption md5 aes_dec (crypto_param ble2) out (crypto_state ble2)
      = (0, ble_add_pkcs (body @ be16 (get_crc_16 body)), st)"
    unfolding out using decrypt_ok [OF iv mode m key [unfolded k]] dec by blast
  from frame_roundtrip [OF chan(1) refl chan(2,3) lo _ chan(4,5), of TUYA_BLE_PROTOCOL_VERSION_HIGN] obtain ps g' pr' where
    f: "send_all (Suc (length out)) t TUYA_BLE_PROTOCOL_VERSION_HIGN out g = Some (ps, g')" "ps \<noteq> []"
    "recv_all (packet_recv ble2) ps = Some (replicate (length ps - 1) OPRT_SVC_BT_API_TRSMITR_CONTINUE @ [OPRT_OK], pr')"
    "raw_len pr' = length out" "take (length out) (raw_buf pr') = out" "version (trsmitr pr') = TUYA_BLE_PROTOCOL_VERSION_HIGN"
    by auto
  have "\<exists>ble'. ble_packet_unpack md5 aes_dec True (ble2\<lparr>packet_recv := pr'\<rparr>)
      = (OPRT_OK, Some (packet\<lparr>p_sn := send_sn ble1\<rparr>), False, ble') \<and> recv_sn ble' = send_sn ble1"
  proof (rule unpack_ok)
    show "tuya_ble_decryption md5 aes_dec (crypto_param (ble2\<lparr>packet_recv := pr'\<rparr>)) out (crypto_state (ble2\<lparr>packet_recv := pr'\<rparr>))
      = (0, ble_add_pkcs (body @ be16 (get_crc_16 body)), st)" using d by simp
    show "ble_add_pkcs (body @ be16 (get_crc_16 body)) = frame_body (send_sn ble1) packet
      @ be16 (get_crc_16 (frame_body (send_sn ble1) packet)) @ pad" using pad b by simp
  qed (use f lo l sn in \<open>simp_all add: out\<close>)
  then obtain ble2' where u: "ble_packet_unpack md5 aes_dec True (ble2\<lparr>packet_recv := pr'\<rparr>)
      = (OPRT_OK, Some (packet\<lparr>p_sn := send_sn ble1\<rparr>), False, ble2')" "recv_sn ble2' = send_sn ble1" by blast
  from recv_packets_frame [OF f(3,2) u(1)] f(1) u(2) sn1 show ?thesis by blast
qed


lemma ble_packet_delivered_witness:
  "\<exists>out ble1' t ps g' ble2'. ble_packet_encode (\<lambda>_. replicate 16 0) (\<lambda>k i x. Some x) True (replicate 16 9)
      \<lparr>p_sn = 0, p_type = 0x8006, p_data = [1, 2, 3], p_encrypt_mode = 15\<rparr> demo_mgr = Some ((OPRT_OK, out), ble1')
    \<and> send_all (Suc (length out)) t TUYA_BLE_PROTOCOL_VERSION_HIGN out demo_globals = Some (ps, g')
    \<and> recv_packets (\<lambda>_. replicate 16 0) (\<lambda>k i x. Some x) ps demo_mgr
      = Some (replicate (length ps - 1) (OPRT_SVC_BT_API_TRSMITR_CONTINUE, None)
          @ [(OPRT_OK, Some \<lparr>p_sn = 1, p_type = 0x8006, p_data = [1, 2, 3], p_encrypt_mode = 15\<rparr>)], ble2')"
proof -
  let ?md5 = "\<lambda>_. replicate 16 0 :: byte list" and ?aes = "\<lambda>k i x. Some x :: byte list option"
  let ?p = "\<lparr>p_sn = 0, p_type = 0x8006, p_data = [1, 2, 3], p_encrypt_mode = 15\<rparr>"
  obtain out ble1' where e: "ble_packet_encode ?md5 ?aes True (replicate 16 9) ?p demo_mgr = Some ((OPRT_OK, out), ble1')"
    by (simp add: ble_packet_encode_def Let_def frame_body_def tuya_ble_encryption_def ble_key_generate_def demo_mgr_def)
  obtain t where t: "ble_frame_trsmitr_create True True demo_globals = Some t"
    by (simp add: ble_frame_trsmitr_create_def)
  have "\<exists>ps g' ble2'. send_all (Suc (length out)) t TUYA_BLE_PROTOCOL_VERSION_HIGN out demo_globals = Some (ps, g')
    \<and> recv_packets ?md5 ?aes ps demo_mgr = Some (replicate (length ps - 1) (OPRT_SVC_BT_API_TRSMITR_CONTINUE, None)
        @ [(OPRT_OK, Some (?p\<lparr>p_sn := send_sn demo_mgr\<rparr>))], ble2')
    \<and> recv_sn ble2' = send_sn demo_mgr \<and> send_sn ble1' = send_sn demo_mgr + 1"
    by (rule ble_packet_delivered [OF e _ _ _ _ _ t])
       (simp_all add: demo_mgr_def demo_globals_def demo_recv_def ble_frame_packet_len_get_def)
  then show ?thesis using e by (fastforce simp: demo_mgr_def)
qed

text \<open>
  A response that needs more than one subpackage is cut off: \<^verbatim>\<open>ble_packet_resp\<close> sends its first subpackage only
  and reports success, since the result of the radio has replaced the encoder's request to continue when
  the loop condition is evaluated. The receiver is left waiting for the rest.
\<close>

theorem ble_resp_truncated:
  assumes "ble_packet_encode md5 aes_enc True iv resp ble = Some ((OPRT_OK, out), ble')"
    and "ble_frame_packet_len_get g \<le> length out" and "length out \<le> 1024"
    and "9 < ble_frame_packet_len_get g" and "ble_frame_packet_len_get g < 65536" and "\<And>p. tx p = OPRT_OK"
    and "subpkg_num (trsmitr pr) < 0x10000000" and "ble_frame_packet_len_get g \<le> length (subpkg (trsmitr pr))"
  shows "\<exists>p g' pr'. ble_packet_resp md5 aes_enc tx True iv resp ble g = Some (OPRT_OK, [p], ble', g')
    \<and> ble_packet_trsmitr pr p = Some (OPRT_SVC_BT_API_TRSMITR_CONTINUE, pr') \<and> raw_len pr' < length out"
proof -
  obtain t where t: "ble_frame_trsmitr_create True True g = Some t" by (simp add: ble_frame_trsmitr_create_def)
  from first_step [OF t refl assms(4,5,3) _ assms(7,8), of TUYA_BLE_PROTOCOL_VERSION_HIGN] obtain rt t' p pr' k g' where
    s: "ble_frame_trsmitr_send_pkg_encode (Some t) TUYA_BLE_PROTOCOL_VERSION_HIGN out g = Some (rt, Some t', g')"
      "take (subpkg_len t') (subpkg t') = p" "length p \<le> ble_frame_packet_len_get g" "k + 3 \<le> length p"
      "ble_packet_trsmitr pr p = Some (rt, pr')"
    and e: "if k < length out then rt = OPRT_SVC_BT_API_TRSMITR_CONTINUE \<and> mid_frame (ble_frame_packet_len_get g) out k 0 4 t' pr'
       else rt = OPRT_OK \<and> raw_len pr' = length out \<and> take (length out) (raw_buf pr') = out
         \<and> length (raw_buf pr') = 1024 \<and> version (trsmitr pr') = 4"
    by auto
  have k: "k < length out" using s(3,4) assms(2) by simp
  then have rt: "rt = OPRT_SVC_BT_API_TRSMITR_CONTINUE" and raw: "raw_len pr' = k" using e by (simp_all add: mid_frame_def)
  have "ble_packet_resp md5 aes_enc tx True iv resp ble g = Some (OPRT_OK, [p], ble', g')"
    using assms(1,6) t s(1,2) rt
    by (simp add: ble_packet_resp_def Let_def ble_frame_subpacket_len_get_def ble_frame_subpacket_get_def)
  with s(5) rt raw k show ?thesis by blast
qed

lemma ble_resp_truncated_witness:
  "\<exists>p ble' g' pr'. ble_packet_resp (\<lambda>_. replicate 16 0) (\<lambda>k i x. Some x) (\<lambda>_. OPRT_OK) True (replicate 16 9)
      \<lparr>p_sn = 0, p_type = 0x8006, p_data = [1, 2, 3], p_encrypt_mode = 15\<rparr> demo_mgr demo_globals = Some (OPRT_OK, [p], ble', g')
    \<and> ble_packet_trsmitr demo_recv p = Some (OPRT_SVC_BT_API_TRSMITR_CONTINUE, pr')"
proof -
  let ?md5 = "\<lambda>_. replicate 16 0 :: byte list" and ?aes = "\<lambda>k i x. Some x :: byte list option"
  let ?p = "\<lparr>p_sn = 0, p_type = 0x8006, p_data = [1, 2, 3], p_encrypt_mode = 15\<rparr>"
  obtain out ble' where e: "ble_packet_encode ?md5 ?aes True (replicate 16 9) ?p demo_mgr = Some ((OPRT_OK, out), ble')"
    and l: "length out = 49"
    by (simp add: ble_packet_encode_def Let_def frame_body_def tuya_ble_encryption_def ble_key_generate_def demo_mgr_def
        ble_add_pkcs_def)
  from ble_resp_truncated [OF e, of demo_globals "\<lambda>_. OPRT_OK" demo_recv] l show ?thesis
    by (auto simp: demo_globals_def demo_recv_def ble_frame_packet_len_get_def)
qed

end
