(* ===== verification/CliParse.thy ===== *)
theory CliParse
  imports Prelude
begin

text \<open>
  How the command line interface \<^verbatim>\<open>src/tal_cli/src/tal_cli.c\<close> cuts a line into arguments. \<^verbatim>\<open>cli_parse_buffer\<close> works in
  place: a read and a write position move over the buffer, runs of spaces become single terminators, and
  the arguments are then found by skipping from terminator to terminator. The model keeps the buffer
  and the two positions; \<open>None\<close> is an access outside the buffer.
\<close>

section \<open>Model\<close>

abbreviation CLI_ARGV_NUM :: nat where "CLI_ARGV_NUM \<equiv> 8"
abbreviation SPACE :: byte where "SPACE \<equiv> 32"

datatype parse_state = PARSE_SPACE | PARSE_ARG

function parse_loop :: "byte list \<Rightarrow> nat \<Rightarrow> nat \<Rightarrow> parse_state \<Rightarrow> nat \<Rightarrow> (byte list \<times> nat) option" where
  "parse_loop buffer readchar writechar state argc =
     (if readchar \<ge> length buffer \<or> writechar \<ge> length buffer then None
      else
        (let ch = buffer ! readchar
         in case state of
              PARSE_SPACE \<Rightarrow>
                if ch = SPACE then parse_loop buffer (readchar + 1) writechar PARSE_SPACE argc
                else if ch = 0 then Some (buffer[writechar := 0], argc)
                else parse_loop buffer readchar writechar PARSE_ARG argc
            | PARSE_ARG \<Rightarrow>
                if ch = SPACE then parse_loop (buffer[writechar := 0]) (readchar + 1) (writechar + 1) PARSE_SPACE (argc + 1)
                else if ch = 0 then Some (buffer[writechar := 0], argc + 1)
                else parse_loop (buffer[writechar := ch]) (readchar + 1) (writechar + 1) PARSE_ARG argc))"
  by pat_completeness auto
termination
  by (relation "measure (\<lambda>(buffer, rd, wr, st, argc). 2 * (length buffer - rd) + (case st of PARSE_SPACE \<Rightarrow> 1 | PARSE_ARG \<Rightarrow> 0))")
     (auto split: parse_state.splits)

text \<open>The C string that starts at a position of the buffer.\<close>

definition str_at :: "byte list \<Rightarrow> nat \<Rightarrow> byte list" where
  "str_at buffer p = takeWhile (\<lambda>c. c \<noteq> 0) (drop p buffer)"

text \<open>The positions of the arguments: \<^verbatim>\<open>strlen + 1\<close> bytes from one to the next.\<close>

fun argv_positions :: "byte list \<Rightarrow> nat \<Rightarrow> nat \<Rightarrow> nat list" where
  "argv_positions buffer p 0 = []"
| "argv_positions buffer p (Suc n) = p # argv_positions buffer (p + length (str_at buffer p) + 1) n"

definition cli_parse_buffer :: "byte list \<Rightarrow> (byte list \<times> nat \<times> nat list) option" where
  "cli_parse_buffer buffer =
     (case parse_loop buffer 0 0 PARSE_SPACE 0 of
        None \<Rightarrow> None
      | Some (buffer, argc) \<Rightarrow>
          (let argc = (if CLI_ARGV_NUM < argc then CLI_ARGV_NUM else argc)
           in Some (buffer, argc, argv_positions buffer 0 argc)))"

declare parse_loop.simps [simp del]

section \<open>Words\<close>

text \<open>The specification: the maximal runs of other characters between spaces.\<close>

fun words_from :: "byte list \<Rightarrow> byte list \<Rightarrow> byte list list" where
  "words_from w [] = (if w = [] then [] else [w])"
| "words_from w (c # cs) =
     (if c = SPACE then (if w = [] then [] else [w]) @ words_from [] cs else words_from (w @ [c]) cs)"

definition line_words :: "byte list \<Rightarrow> byte list list" where
  "line_words line = words_from [] line"

text \<open>What the loop has written: each finished word with its terminator.\<close>

definition packed :: "byte list list \<Rightarrow> byte list" where
  "packed ws = concat (map (\<lambda>w. w @ [0]) ws)"

lemma packed_append [simp]: "packed (xs @ ys) = packed xs @ packed ys" "packed [w] = w @ [0]" "packed [] = []"
  by (simp_all add: packed_def)

text \<open>
  The loop in the middle: \<open>packed ws @ w\<close> are the bytes written so far, \<open>gap\<close> those between the two
  positions, and \<open>line\<close> is the rest of the line, before its terminator. A write moves the gap by one.
\<close>

lemma update_gap: "(p @ gap @ c # rest)[length p := x] = p @ x # tl (gap @ [c]) @ rest"
  by (cases gap) (simp_all add: list_update_append)

lemma nth_gap: "(p @ gap @ c # rest) ! length (p @ gap) = c"
  by (metis append.assoc nth_append_length)

lemma parse_at:
  assumes "buffer = p @ gap @ c # rest"
  shows "parse_loop buffer (length (p @ gap)) (length p) PARSE_SPACE n =
      (if c = SPACE then parse_loop (p @ (gap @ [c]) @ rest) (length (p @ gap @ [c])) (length p) PARSE_SPACE n
       else if c = 0 then Some (p @ 0 # tl (gap @ [c]) @ rest, n)
       else parse_loop buffer (length (p @ gap)) (length p) PARSE_ARG n)"
    and "parse_loop buffer (length (p @ gap)) (length p) PARSE_ARG n =
      (if c = SPACE
       then parse_loop ((p @ [0]) @ tl (gap @ [c]) @ rest) (length ((p @ [0]) @ tl (gap @ [c]))) (length (p @ [0])) PARSE_SPACE (n + 1)
       else if c = 0 then Some (p @ 0 # tl (gap @ [c]) @ rest, n + 1)
       else parse_loop ((p @ [c]) @ tl (gap @ [c]) @ rest) (length ((p @ [c]) @ tl (gap @ [c]))) (length (p @ [c])) PARSE_ARG n)"
  unfolding assms by (subst parse_loop.simps; simp only: Let_def nth_gap update_gap; simp)+

lemma parse_loop_length: "parse_loop buffer rd wr st n = Some (buffer', m) \<Longrightarrow> length buffer' = length buffer"
  by (induction buffer rd wr st n rule: parse_loop.induct)
     (subst (asm) (3) parse_loop.simps, auto simp: Let_def split: if_splits parse_state.splits)

text \<open>The whole loop, from either state.\<close>

lemma parse_loop_words:
  assumes "0 \<notin> set line" "st = PARSE_SPACE \<and> w = [] \<or> st = PARSE_ARG \<and> (w \<noteq> [] \<or> (\<exists>c cs. line = c # cs \<and> c \<noteq> SPACE))"
  shows "\<exists>junk'. parse_loop ((packed ws @ w) @ gap @ line @ 0 # junk) (length ((packed ws @ w) @ gap)) (length (packed ws @ w)) st n
      = Some (packed (ws @ words_from w line) @ junk', n + length (words_from w line))
    \<and> (words_from w line = [] \<longrightarrow> junk' \<noteq> [] \<and> hd junk' = 0)"
  using assms
proof (induction line arbitrary: ws w gap st n)
  case Nil
  then show ?case
    using parse_at [of _ "packed ws @ w" gap 0 junk n, OF refl] by (cases st) auto
next
  case (Cons c cs)
  have c0: "c \<noteq> 0" "0 \<notin> set cs" using Cons.prems(1) by auto
  note at = parse_at [of _ "packed ws @ w" gap c "cs @ 0 # junk" n, OF refl]
  show ?case
  proof (cases "c = SPACE")
    case True
    show ?thesis
    proof (cases st)
      case PARSE_SPACE
      then show ?thesis
        using Cons.IH [OF c0(2), of PARSE_SPACE "[]" ws "gap @ [c]" n] Cons.prems(2) True at by simp
    next
      case PARSE_ARG
      then have "w \<noteq> []" using Cons.prems(2) True by auto
      then show ?thesis
        using Cons.IH [OF c0(2), of PARSE_SPACE "[]" "ws @ [w]" "tl (gap @ [c])" "n + 1"] PARSE_ARG True at by auto
    qed
  next
    case False
    have arg: "\<exists>junk'. parse_loop ((packed ws @ w) @ gap @ (c # cs) @ 0 # junk) (length ((packed ws @ w) @ gap)) (length (packed ws @ w)) PARSE_ARG n
      = Some (packed (ws @ words_from w (c # cs)) @ junk', n + length (words_from w (c # cs)))
    \<and> (words_from w (c # cs) = [] \<longrightarrow> junk' \<noteq> [] \<and> hd junk' = 0)"
      using Cons.IH [OF c0(2), of PARSE_ARG "w @ [c]" ws "tl (gap @ [c])" n] False c0(1) at(2) by simp
    then show ?thesis using at(1) False c0(1) by (cases st) simp_all
  qed
qed

text \<open>Reading the packed words back.\<close>

lemma words_from_nonempty:
  "w0 \<in> set (words_from w line) \<Longrightarrow> 0 \<notin> set w \<Longrightarrow> 0 \<notin> set line \<Longrightarrow> w0 \<noteq> [] \<and> 0 \<notin> set w0"
  by (induction w line rule: words_from.induct) (auto split: if_splits)

lemma str_at_packed:
  "0 \<notin> set w \<Longrightarrow> str_at (p @ w @ 0 # rest) (length p) = w"
  by (auto simp: str_at_def takeWhile_tail)

lemma argv_packed:
  assumes "\<forall>w \<in> set ws. 0 \<notin> set w" "n \<le> length ws"
  shows "map (str_at (p @ packed ws @ junk)) (argv_positions (p @ packed ws @ junk) (length p) n) = take n ws"
  using assms
proof (induction ws arbitrary: p n)
  case (Cons w ws)
  show ?case
  proof (cases n)
    case (Suc m)
    have b: "p @ packed (w # ws) @ junk = p @ w @ 0 # packed ws @ junk" "p @ w @ 0 # packed ws @ junk = (p @ w @ [0]) @ packed ws @ junk"
      by (simp_all add: packed_def)
    have s: "str_at (p @ packed (w # ws) @ junk) (length p) = w" unfolding b(1) using Cons.prems by (intro str_at_packed) simp
    have "map (str_at (p @ packed (w # ws) @ junk)) (argv_positions (p @ packed (w # ws) @ junk) (length (p @ w @ [0])) m) = take m ws"
      unfolding b using Cons.IH [of m "p @ w @ [0]"] Cons.prems Suc by simp
    with s Suc show ?thesis by (simp add: add.assoc)
  qed simp
qed simp

text \<open>The arguments of a line are its first eight words.\<close>

lemma parse_buffer_words:
  assumes "0 \<notin> set line"
  shows "\<exists>buffer'. cli_parse_buffer (line @ 0 # junk)
      = Some (buffer', min CLI_ARGV_NUM (length (line_words line)), argv_positions buffer' 0 (min CLI_ARGV_NUM (length (line_words line))))
    \<and> length buffer' = length (line @ 0 # junk)
    \<and> map (str_at buffer') (argv_positions buffer' 0 (min CLI_ARGV_NUM (length (line_words line)))) = take CLI_ARGV_NUM (line_words line)
    \<and> (line_words line = [] \<longrightarrow> str_at buffer' 0 = [])"
proof -
  obtain junk' where p: "parse_loop (line @ 0 # junk) 0 0 PARSE_SPACE 0
      = Some (packed (line_words line) @ junk', length (line_words line))"
    and e: "line_words line = [] \<longrightarrow> junk' \<noteq> [] \<and> hd junk' = 0"
    using parse_loop_words [OF assms, of PARSE_SPACE "[]" "[]" "[]" junk 0] by (auto simp: line_words_def)
  have z: "\<forall>w \<in> set (line_words line). 0 \<notin> set w" using words_from_nonempty [of _ "[]" line] assms by (auto simp: line_words_def)
  have l: "length (packed (line_words line) @ junk') = length (line @ 0 # junk)"
    using p by (rule parse_loop_length)
  have "line_words line = [] \<longrightarrow> str_at (packed (line_words line) @ junk') 0 = []"
    using e by (cases junk') (auto simp: str_at_def)
  then show ?thesis
    using p l argv_packed [OF z, of "min CLI_ARGV_NUM (length (line_words line))" "[]" junk']
    by (auto simp: cli_parse_buffer_def Let_def min_def)
qed

end
