(* ===== verification/CliHistory.thy ===== *)
theory CliHistory
  imports Prelude
begin

text \<open>
  The command history of \<^verbatim>\<open>src/tal_cli/src/tal_cli.c\<close>: a ring of eight lines with a write position, and a read
  position that the up and down keys move. An entry is the C string it holds; the 16-bit wrap of the
  write position minus one is written out. The locale \<open>recall_history\<close> is the contract the line editor relies
  on: the lines, newest first, and how many of them have been recalled.
\<close>

section \<open>Model\<close>

abbreviation CLI_HISTORY_NUM :: nat where "CLI_HISTORY_NUM \<equiv> 8"

record cli_history =
  write_index :: nat
  write_count :: nat
  read_index :: nat
  read_count :: nat
  hist_data :: "byte list list"

definition cli_history0 :: cli_history where
  "cli_history0 = \<lparr>write_index = 0, write_count = 0, read_index = 0, read_count = 0, hist_data = replicate CLI_HISTORY_NUM []\<rparr>"

definition cli_histroy_data_perv :: "cli_history \<Rightarrow> cli_history \<times> byte list option" where
  "cli_histroy_data_perv h =
     (if read_count h = 0 then (h, None)
      else
        (let h = (if read_count h \<noteq> write_count h
                  then h\<lparr>read_index := (if read_index h = 0 then CLI_HISTORY_NUM else read_index h) - 1\<rparr>
                  else h);
             h = h\<lparr>read_count := read_count h - 1\<rparr>
         in (h, Some (hist_data h ! read_index h))))"

definition cli_histroy_data_next :: "cli_history \<Rightarrow> cli_history \<times> byte list option" where
  "cli_histroy_data_next h =
     (if write_count h \<le> read_count h + 1 then (h, None)
      else
        (let i = read_index h + 1;
             h = h\<lparr>read_index := (if CLI_HISTORY_NUM = i then 0 else i)\<rparr>;
             h = h\<lparr>read_count := read_count h + 1\<rparr>
         in (h, Some (hist_data h ! read_index h))))"

definition cli_histroy_data_save :: "byte list \<Rightarrow> cli_history \<Rightarrow> cli_history" where
  "cli_histroy_data_save line h =
     (let rewind = (\<lambda>h. h\<lparr>read_count := write_count h, read_index := (write_index h + 65535) mod 65536\<rparr>);
          (h, last) = cli_histroy_data_perv (rewind h)
      in if last = Some line then rewind h
         else
           (let h = (if CLI_HISTORY_NUM \<le> write_index h then h\<lparr>write_index := 0\<rparr> else h);
                h = h\<lparr>read_index := write_index h\<rparr>;
                h = (if CLI_HISTORY_NUM > write_count h then h\<lparr>write_count := write_count h + 1\<rparr> else h);
                h = h\<lparr>read_count := write_count h\<rparr>
            in h\<lparr>hist_data := (hist_data h)[write_index h := line], write_index := write_index h + 1\<rparr>))"

section \<open>The contract\<close>

locale recall_history =
  fixes save :: "byte list \<Rightarrow> 'h \<Rightarrow> 'h"
    and up :: "'h \<Rightarrow> 'h \<times> byte list option"
    and down :: "'h \<Rightarrow> 'h \<times> byte list option"
    and lines :: "'h \<Rightarrow> byte list list"
    and recalled :: "'h \<Rightarrow> nat"
    and inv :: "'h \<Rightarrow> bool"
  assumes save_inv: "inv h \<Longrightarrow> inv (save l h)"
    and save_lines: "inv h \<Longrightarrow> lines (save l h) = (if lines h \<noteq> [] \<and> hd (lines h) = l then lines h else take 8 (l # lines h))"
    and save_recalled: "inv h \<Longrightarrow> recalled (save l h) = 0"
    and up_inv: "inv h \<Longrightarrow> inv (fst (up h)) \<and> lines (fst (up h)) = lines h"
    and up_spec: "inv h \<Longrightarrow> (recalled (fst (up h)), snd (up h)) =
        (if recalled h < length (lines h) then (recalled h + 1, Some (lines h ! recalled h)) else (recalled h, None))"
    and down_inv: "inv h \<Longrightarrow> inv (fst (down h)) \<and> lines (fst (down h)) = lines h"
    and down_spec: "inv h \<Longrightarrow> (recalled (fst (down h)), snd (down h)) =
        (if 2 \<le> recalled h then (recalled h - 1, Some (lines h ! (recalled h - 2))) else (recalled h, None))"
    and recalled_bound: "inv h \<Longrightarrow> recalled h \<le> length (lines h)"
    and lines_bound: "inv h \<Longrightarrow> length (lines h) \<le> 8"
begin

lemma ups:
  assumes "inv h" "recalled h + k < length (lines h)"
  shows "inv (((\<lambda>h. fst (up h)) ^^ k) h) \<and> lines (((\<lambda>h. fst (up h)) ^^ k) h) = lines h
    \<and> recalled (((\<lambda>h. fst (up h)) ^^ k) h) = recalled h + k"
  using assms(2)
proof (induction k)
  case 0
  then show ?case using assms(1) by simp
next
  case (Suc k)
  let ?g = "((\<lambda>h. fst (up h)) ^^ k) h"
  from Suc have "inv ?g" "lines ?g = lines h" "recalled ?g = recalled h + k" by auto
  with up_inv [of ?g] up_spec [of ?g] Suc.prems show ?case by (simp split: if_splits)
qed

lemma recall_after_save:
  assumes "inv h" "k < length (lines (save l h))"
  shows "snd (up (((\<lambda>h. fst (up h)) ^^ k) (save l h))) = Some (lines (save l h) ! k)"
proof -
  let ?s = "save l h"
  have s: "inv ?s" "recalled ?s = 0" using assms(1) save_inv save_recalled by auto
  with ups [of ?s k] assms(2) up_spec [of "((\<lambda>h. fst (up h)) ^^ k) ?s"] show ?thesis by (simp split: if_splits)
qed

lemma down_undoes_up:
  assumes "inv h" "0 < recalled h" "recalled h < length (lines h)"
  shows "snd (down (fst (up h))) = Some (lines h ! (recalled h - 1)) \<and> recalled (fst (down (fst (up h)))) = recalled h"
  using up_inv [OF assms(1)] up_spec [OF assms(1)] down_spec [of "fst (up h)"] assms(2,3) by (simp split: if_splits)

lemma save_all_inv: "inv h \<Longrightarrow> inv (fold save ls h)"
  by (induction ls arbitrary: h) (simp_all add: save_inv)

text \<open>Saving a sequence of lines: a line equal to the one saved before it is kept once, as \<open>remdups_adj\<close> has it.\<close>

lemma save_all:
  assumes "inv h" "lines h = []"
  shows "inv (fold save ls h) \<and> lines (fold save ls h) = take 8 (remdups_adj (rev ls))"
proof (induction ls rule: rev_induct)
  case Nil
  then show ?case using assms by simp
next
  case (snoc l ls)
  then have i: "inv (fold save ls h)" "lines (fold save ls h) = take 8 (remdups_adj (rev ls))" by auto
  have "remdups_adj (l # rev ls) = (if rev ls \<noteq> [] \<and> hd (rev ls) = l then remdups_adj (rev ls) else l # remdups_adj (rev ls))"
    by (cases "rev ls") auto
  moreover have "hd (take 8 (remdups_adj (rev ls))) = hd (rev ls)" by (simp del: remdups_adj_rev)
  ultimately show ?case using save_inv [OF i(1), of l] save_lines [OF i(1), of l] i(2)
    by (auto simp: take_Cons' simp del: remdups_adj_rev)
qed

end

section \<open>The ring implements the contract\<close>

definition hist_slot :: "cli_history \<Rightarrow> nat \<Rightarrow> nat" where
  "hist_slot h j = (write_index h + 7 - j) mod 8"

definition hist_lines :: "cli_history \<Rightarrow> byte list list" where
  "hist_lines h = map (\<lambda>j. hist_data h ! hist_slot h j) [0..<write_count h]"

definition hist_recalled :: "cli_history \<Rightarrow> nat" where
  "hist_recalled h = write_count h - read_count h"

definition hist_inv :: "cli_history \<Rightarrow> bool" where
  "hist_inv h \<longleftrightarrow> length (hist_data h) = 8 \<and> write_count h \<le> 8 \<and> write_index h \<le> 8 \<and> read_count h \<le> write_count h
     \<and> (write_count h < 8 \<longrightarrow> write_index h = write_count h) \<and> (0 < write_count h \<longrightarrow> 0 < write_index h)
     \<and> (0 < write_count h \<longrightarrow> read_index h = hist_slot h (hist_recalled h - 1))"

lemma hist_slot_less: "hist_slot h j < 8"
  by (simp add: hist_slot_def)

lemma hist_inv0: "hist_inv cli_history0" "hist_lines cli_history0 = []"
  by (simp_all add: hist_inv_def hist_lines_def cli_history0_def)

lemma slot_prev:
  assumes "0 < w" "w \<le> 8" "Suc j < 8"
  shows "(w + 7 - Suc j) mod 8 = (if (w + 7 - j) mod 8 = 0 then 8 else (w + 7 - j) mod 8) - (1 :: nat)"
proof -
  have "w + 7 - j = Suc (w + 7 - Suc j)" using assms by simp
  then show ?thesis by (simp add: mod_Suc)
qed

lemma slot_next:
  assumes "0 < w" "w \<le> 8" "Suc j < 8"
  shows "(w + 7 - j) mod 8 = (if 8 = (w + 7 - Suc j) mod 8 + 1 then 0 else (w + 7 - Suc j) mod 8 + (1 :: nat))"
proof -
  have "w + 7 - j = Suc (w + 7 - Suc j)" using assms by simp
  then show ?thesis by (simp add: mod_Suc)
qed

lemma hist_lines_nth: "j < write_count h \<Longrightarrow> hist_lines h ! j = hist_data h ! hist_slot h j"
  by (simp add: hist_lines_def)

lemma perv_spec:
  assumes "hist_inv h"
  shows "cli_histroy_data_perv h = (if hist_recalled h < write_count h
      then (h\<lparr>read_index := hist_slot h (hist_recalled h), read_count := read_count h - 1\<rparr>, Some (hist_data h ! hist_slot h (hist_recalled h)))
      else (h, None))"
proof (cases "read_count h = 0 \<or> read_count h = write_count h")
  case True
  then show ?thesis using assms by (auto simp: cli_histroy_data_perv_def hist_recalled_def hist_inv_def)
next
  case False
  define j where "j = hist_recalled h - 1"
  have j: "hist_recalled h = Suc j" "Suc j < 8" "hist_recalled h < write_count h" "0 < write_index h" "write_index h \<le> 8"
    using False assms by (auto simp: hist_inv_def hist_recalled_def j_def)
  have r: "read_index h = hist_slot h j" using False assms by (auto simp: hist_inv_def j_def)
  show ?thesis
    using False j(3) slot_prev [OF j(4,5,2)] unfolding cli_histroy_data_perv_def Let_def j(1) r hist_slot_def by simp
qed

lemma next_spec:
  assumes "hist_inv h"
  shows "cli_histroy_data_next h = (if 2 \<le> hist_recalled h
      then (h\<lparr>read_index := hist_slot h (hist_recalled h - 2), read_count := read_count h + 1\<rparr>, Some (hist_data h ! hist_slot h (hist_recalled h - 2)))
      else (h, None))"
proof (cases "2 \<le> hist_recalled h")
  case True
  define j where "j = hist_recalled h - 2"
  have j: "hist_recalled h = Suc (Suc j)" "Suc j < 8" "0 < write_index h" "write_index h \<le> 8"
    using True assms by (auto simp: hist_inv_def hist_recalled_def j_def)
  have "0 < write_count h" using True by (simp add: hist_recalled_def)
  then have r: "read_index h = hist_slot h (Suc j)" using assms j(1) by (simp add: hist_inv_def)
  have "\<not> write_count h \<le> read_count h + 1" using True by (simp add: hist_recalled_def)
  then show ?thesis
    using slot_next [OF j(3,4,2)] unfolding cli_histroy_data_next_def Let_def j(1) r hist_slot_def by simp
next
  case False
  then show ?thesis by (auto simp: cli_histroy_data_next_def hist_recalled_def)
qed

text \<open>The line is appended in the slot after the newest one, or it is already the newest one.\<close>

definition rewound :: "cli_history \<Rightarrow> cli_history" where
  "rewound h = h\<lparr>read_count := write_count h, read_index := (write_index h + 65535) mod 65536\<rparr>"

definition appended :: "byte list \<Rightarrow> cli_history \<Rightarrow> cli_history" where
  "appended line h =
     (let w = write_index h mod 8; n = min 8 (write_count h + 1)
      in \<lparr>write_index = w + 1, write_count = n, read_index = w, read_count = n, hist_data = (hist_data h)[w := line]\<rparr>)"

lemma rewound_inv:
  assumes "hist_inv h" "0 < write_count h"
  shows "hist_inv (rewound h)" "hist_recalled (rewound h) = 0" "hist_lines (rewound h) = hist_lines h"
proof -
  have "write_index h + 65535 = 65536 + (write_index h - 1)" "write_index h + 7 = 8 + (write_index h - 1)" "write_index h - 1 < 8"
    using assms by (auto simp: hist_inv_def)
  then have "(write_index h + 65535) mod 65536 = (write_index h + 7) mod 8" by (simp only: mod_add_self1) simp
  then show "hist_inv (rewound h)" using assms by (auto simp: hist_inv_def rewound_def hist_slot_def hist_recalled_def)
qed (simp_all add: rewound_def hist_recalled_def hist_lines_def hist_slot_def)

lemma save_cases:
  assumes "hist_inv h"
  shows "cli_histroy_data_save line h =
    (if hist_lines h \<noteq> [] \<and> hd (hist_lines h) = line then rewound h else appended line h)"
proof (cases "write_count h = 0")
  case True
  then have "write_index h = 0" using assms by (simp add: hist_inv_def)
  with True show ?thesis
    by (simp add: cli_histroy_data_save_def cli_histroy_data_perv_def appended_def hist_lines_def)
next
  case False
  note inv = rewound_inv [OF assms]
  have w: "0 < write_index h" "write_index h \<le> 8" "write_count h \<le> 8" using False assms by (auto simp: hist_inv_def)
  have e: "hist_lines h \<noteq> []" "hd (hist_lines h) = hist_data h ! hist_slot h 0"
    using False by (simp_all add: hist_lines_def hd_map upt_rec)
  have p: "cli_histroy_data_perv (rewound h)
      = ((rewound h)\<lparr>read_index := hist_slot h 0, read_count := write_count h - 1\<rparr>, Some (hist_data h ! hist_slot h 0))"
    using perv_spec [OF inv(1)] inv(2) False by (simp add: rewound_def hist_slot_def)
  have m: "write_index h mod 8 = (if 8 \<le> write_index h then 0 else write_index h)" using w(2) by auto
  show ?thesis
    using p w e(1)
    unfolding cli_histroy_data_save_def rewound_def appended_def Let_def e(2) m by (auto simp: min_def)
qed

lemma appended_slot:
  assumes "write_index h \<le> 8" "j < 8"
  shows "hist_slot (appended l h) j = (case j of 0 \<Rightarrow> write_index h mod 8 | Suc i \<Rightarrow> hist_slot h i)"
proof (cases j)
  case 0
  then show ?thesis by (simp add: hist_slot_def appended_def Let_def)
next
  case (Suc i)
  then have i: "write_index h mod 8 + 1 + 7 - j = write_index h mod 8 + (7 - i)" "write_index h + 7 - i = write_index h + (7 - i)"
    using assms(2) by simp_all
  show ?thesis unfolding hist_slot_def appended_def Let_def cli_history.simps i using Suc by (simp add: i(2) mod_add_left_eq)
qed

lemma appended_fresh:
  assumes "write_index h \<le> 8" "Suc i < 8"
  shows "hist_slot h i \<noteq> write_index h mod 8"
proof
  assume "hist_slot h i = write_index h mod 8"
  then have "(write_index h + 7 - i) mod 8 = write_index h mod 8" by (simp add: hist_slot_def)
  then have "8 dvd write_index h + 7 - i - write_index h" using assms by (subst (asm) mod_eq_dvd_iff_nat) auto
  then have "8 dvd 7 - i" by simp
  then show False using assms(2) by (auto dest: dvd_imp_le)
qed

lemma appended_lines:
  assumes "hist_inv h"
  shows "hist_lines (appended l h) = take 8 (l # hist_lines h)"
proof (rule nth_equalityI)
  have n: "write_count h \<le> 8" "write_index h \<le> 8" "length (hist_data h) = 8" using assms by (auto simp: hist_inv_def)
  show len: "length (hist_lines (appended l h)) = length (take 8 (l # hist_lines h))"
    using n by (simp add: hist_lines_def appended_def Let_def)
  fix j assume "j < length (hist_lines (appended l h))"
  then have j: "j < min 8 (write_count h + 1)" by (simp add: hist_lines_def appended_def Let_def)
  have s: "hist_lines (appended l h) ! j = (hist_data h)[write_index h mod 8 := l] ! hist_slot (appended l h) j"
    using j hist_lines_nth [of j "appended l h"] by (simp add: appended_def Let_def)
  show "hist_lines (appended l h) ! j = take 8 (l # hist_lines h) ! j"
  proof (cases j)
    case 0
    then show ?thesis using s n(3) appended_slot [OF n(2), of 0] by simp
  next
    case (Suc i)
    then show ?thesis using s j appended_slot [OF n(2), of j] appended_fresh [OF n(2), of i] by (simp add: hist_lines_def)
  qed
qed

lemma appended_inv:
  assumes "hist_inv h"
  shows "hist_inv (appended l h)" "hist_recalled (appended l h) = 0"
proof -
  have n: "write_count h \<le> 8" "write_index h \<le> 8" "length (hist_data h) = 8" using assms by (auto simp: hist_inv_def)
  have f: "write_index (appended l h) = write_index h mod 8 + 1" "write_count (appended l h) = min 8 (write_count h + 1)"
    "read_index (appended l h) = write_index h mod 8" "read_count (appended l h) = min 8 (write_count h + 1)"
    "length (hist_data (appended l h)) = 8" using n by (simp_all add: appended_def Let_def)
  show r: "hist_recalled (appended l h) = 0" by (simp add: hist_recalled_def f)
  have "write_count h + 1 < 8 \<Longrightarrow> write_index h = write_count h" using assms by (simp add: hist_inv_def)
  then show "hist_inv (appended l h)"
    unfolding hist_inv_def f r using appended_slot [OF n(2), of 0 l] by (auto simp: min_def Suc_leI)
qed

text \<open>Moving the read position keeps the lines.\<close>

lemma moved:
  assumes "hist_inv h" "Suc j + r = write_count h"
  shows "hist_inv (h\<lparr>read_index := hist_slot h j, read_count := r\<rparr>)"
    "hist_lines (h\<lparr>read_index := hist_slot h j, read_count := r\<rparr>) = hist_lines h"
    "hist_recalled (h\<lparr>read_index := hist_slot h j, read_count := r\<rparr>) = Suc j"
proof -
  have "write_count h - r = Suc j" "r \<le> write_count h" using assms(2) by simp_all
  then show "hist_inv (h\<lparr>read_index := hist_slot h j, read_count := r\<rparr>)"
    using assms(1) by (auto simp: hist_inv_def hist_recalled_def hist_slot_def)
qed (use assms(2) in \<open>simp_all add: hist_recalled_def hist_lines_def hist_slot_def\<close>)

lemma hist_lines_length [simp]: "length (hist_lines h) = write_count h"
  by (simp add: hist_lines_def)

lemma hist_up:
  assumes "hist_inv h"
  shows "hist_inv (fst (cli_histroy_data_perv h)) \<and> hist_lines (fst (cli_histroy_data_perv h)) = hist_lines h"
    and "(hist_recalled (fst (cli_histroy_data_perv h)), snd (cli_histroy_data_perv h)) =
        (if hist_recalled h < length (hist_lines h) then (hist_recalled h + 1, Some (hist_lines h ! hist_recalled h)) else (hist_recalled h, None))"
proof -
  have "Suc (hist_recalled h) + (read_count h - 1) = write_count h" if "hist_recalled h < write_count h"
    using that assms by (auto simp: hist_inv_def hist_recalled_def)
  note m = moved [OF assms this]
  show "hist_inv (fst (cli_histroy_data_perv h)) \<and> hist_lines (fst (cli_histroy_data_perv h)) = hist_lines h"
    using m(1,2) assms by (simp add: perv_spec [OF assms])
  show "(hist_recalled (fst (cli_histroy_data_perv h)), snd (cli_histroy_data_perv h)) =
        (if hist_recalled h < length (hist_lines h) then (hist_recalled h + 1, Some (hist_lines h ! hist_recalled h)) else (hist_recalled h, None))"
    using m(3) by (simp add: perv_spec [OF assms] hist_lines_nth)
qed

lemma hist_down:
  assumes "hist_inv h"
  shows "hist_inv (fst (cli_histroy_data_next h)) \<and> hist_lines (fst (cli_histroy_data_next h)) = hist_lines h"
    and "(hist_recalled (fst (cli_histroy_data_next h)), snd (cli_histroy_data_next h)) =
        (if 2 \<le> hist_recalled h then (hist_recalled h - 1, Some (hist_lines h ! (hist_recalled h - 2))) else (hist_recalled h, None))"
proof -
  have e: "Suc (hist_recalled h - 2) + (read_count h + 1) = write_count h" "Suc (hist_recalled h - 2) = hist_recalled h - 1"
    "hist_recalled h - 2 < write_count h" if "2 \<le> hist_recalled h"
    using that by (auto simp: hist_recalled_def)
  note m = moved [OF assms e(1)]
  show "hist_inv (fst (cli_histroy_data_next h)) \<and> hist_lines (fst (cli_histroy_data_next h)) = hist_lines h"
    using m(1,2) assms by (simp add: next_spec [OF assms])
  show "(hist_recalled (fst (cli_histroy_data_next h)), snd (cli_histroy_data_next h)) =
        (if 2 \<le> hist_recalled h then (hist_recalled h - 1, Some (hist_lines h ! (hist_recalled h - 2))) else (hist_recalled h, None))"
    using m(3) e(2,3) by (simp add: next_spec [OF assms] hist_lines_nth)
qed

interpretation ring_hist: recall_history cli_histroy_data_save cli_histroy_data_perv cli_histroy_data_next
  hist_lines hist_recalled hist_inv
proof unfold_locales
  fix h l assume i: "hist_inv h"
  then have w: "hist_lines h \<noteq> [] \<Longrightarrow> 0 < write_count h" by (simp add: hist_lines_def)
  show "hist_inv (cli_histroy_data_save l h)" "hist_recalled (cli_histroy_data_save l h) = 0"
    "hist_lines (cli_histroy_data_save l h) = (if hist_lines h \<noteq> [] \<and> hd (hist_lines h) = l then hist_lines h else take 8 (l # hist_lines h))"
    using rewound_inv [OF i w] appended_inv [OF i, of l] appended_lines [OF i, of l] by (auto simp: save_cases [OF i])
qed (simp_all only: hist_up hist_down, auto simp: hist_inv_def hist_recalled_def)

end
