(* ===== verification/Cli.thy ===== *)
theory Cli
  imports CliParse CliHistory
begin

text \<open>
  The command line interface \<^verbatim>\<open>src/tal_cli/src/tal_cli.c\<close>: the command tables, the key decoder, the line editor, the
  execution of a line and the task that reads the serial port. The state is the handle \<^verbatim>\<open>cli_t\<close>, with the
  bytes written to the port so far in \<open>cli_tx\<close> and the commands called so far in \<open>cli_calls\<close>. The functions of
  other modules that a table names are a parameter: \<open>ext i args\<close> are the strings that function \<open>i\<close>
  passes to \<^verbatim>\<open>tal_cli_echo\<close>. \<open>None\<close> is an access outside the line buffer. The 16-bit
  positions are naturals, with the wrap of a decrement written out.
\<close>

section \<open>Data\<close>

abbreviation CLI_BUFFER_SIZE :: nat where "CLI_BUFFER_SIZE \<equiv> 1000"
abbreviation CLI_CMD_TABLE_NUM :: nat where "CLI_CMD_TABLE_NUM \<equiv> 10"
abbreviation CLI_CMD_NAME_MAX :: nat where "CLI_CMD_NAME_MAX \<equiv> 20"

abbreviation CR :: byte where "CR \<equiv> 13"
abbreviation LF :: byte where "LF \<equiv> 10"
abbreviation BS :: byte where "BS \<equiv> 8"

definition cstr :: "string \<Rightarrow> byte list" where
  "cstr s = map of_char s"

datatype cli_func = CLI_HELLO | EXT nat

record cli_cmd_t =
  cname :: "byte list"
  help_text :: "byte list"
  func :: cli_func

record cli_cmd_table_t =
  num :: nat
  cmd :: "cli_cmd_t list option"

record cli_tables =
  s_cli_static_table :: "cli_cmd_table_t list"
  s_cli_dynamic_table :: "cli_cmd_table_t list"

datatype cli_key_t = CLI_NULL_KEY | CLI_ENTER_KEY | CLI_ENTER2_KEY | CLI_BACKSPACE_KEY | CLI_BACKSPACE2_KEY | CLI_TABLE_KEY
  | CLI_UP_KEY | CLI_DOWN_KEY | CLI_RIGHT_KEY | CLI_LETF_KEY

record cli_t =
  prompt :: "byte list"
  echo :: bool
  cli_index :: nat
  cli_insert :: nat
  history :: cli_history
  cli_argc :: nat
  cli_argv :: "nat option list"
  cli_buffer :: "byte list"
  cli_tx :: "byte list"
  cli_calls :: "(cli_func \<times> byte list list) list"

definition cli_out_put :: "byte list \<Rightarrow> cli_t \<Rightarrow> cli_t" where
  "cli_out_put s cli = cli\<lparr>cli_tx := cli_tx cli @ s\<rparr>"

definition cli_print_string :: "byte list \<Rightarrow> cli_t \<Rightarrow> cli_t" where
  "cli_print_string s cli = fold (\<lambda>c. cli_out_put [c]) s (cli_out_put [CR, LF] cli)"

definition cli_hello :: "cli_t \<Rightarrow> cli_t" where
  "cli_hello = cli_print_string (cstr ''helo world'')"

definition tal_cli_echo :: "byte list \<Rightarrow> cli_t \<Rightarrow> cli_t" where
  "tal_cli_echo = cli_print_string"

definition cli_print_prompt :: "cli_t \<Rightarrow> cli_t" where
  "cli_print_prompt cli = cli_out_put (prompt cli) (cli_out_put [CR, LF] cli)"

section \<open>Command tables\<close>

text \<open>The commands of one row: \<^verbatim>\<open>cmd[0]\<close> to \<^verbatim>\<open>cmd[num - 1]\<close>.\<close>

definition row_cmds :: "cli_cmd_table_t \<Rightarrow> cli_cmd_t list" where
  "row_cmds r = (case cmd r of None \<Rightarrow> [] | Some cs \<Rightarrow> take (num r) cs)"

definition static_cmds :: "cli_tables \<Rightarrow> cli_cmd_t list" where
  "static_cmds T = concat (map row_cmds (s_cli_static_table T))"

definition dynamic_cmds :: "cli_tables \<Rightarrow> cli_cmd_t list" where
  "dynamic_cmds T = concat (map row_cmds (s_cli_dynamic_table T))"

definition cli_cmd_find_with_name :: "cli_tables \<Rightarrow> byte list option \<Rightarrow> cli_cmd_t option" where
  "cli_cmd_find_with_name T name =
     (case name of
        None \<Rightarrow> None
      | Some n \<Rightarrow>
          (case find (\<lambda>c. cname c = n) (static_cmds T) of
             Some c \<Rightarrow> Some c
           | None \<Rightarrow> find (\<lambda>c. cname c = n) (dynamic_cmds T)))"

text \<open>The name is padded to twenty columns; its length is kept in eight bits.\<close>

definition cli_print_cmd :: "cli_cmd_t \<Rightarrow> cli_t \<Rightarrow> cli_t" where
  "cli_print_cmd c cli =
     (let len = length (cname c) mod 256;
          len = (if len > CLI_CMD_NAME_MAX then CLI_CMD_NAME_MAX else len);
          name = memcpy_at (replicate CLI_CMD_NAME_MAX SPACE) 0 (take len (cname c))
      in cli_out_put (help_text c) (cli_out_put ([9]) (cli_out_put name (cli_out_put [CR, LF] cli))))"

definition cli_print_all_cmd :: "cli_tables \<Rightarrow> cli_t \<Rightarrow> cli_t" where
  "cli_print_all_cmd T cli = cli_print_prompt (fold cli_print_cmd (dynamic_cmds T) (fold cli_print_cmd (static_cmds T) cli))"

definition cli_print_cmd_title :: "cli_t \<Rightarrow> cli_t" where
  "cli_print_cmd_title cli =
     (let cli = cli_out_put ([CR, LF] @ cstr ''cmd'') cli;
          cli = fold (\<lambda>_. cli_out_put [SPACE]) [3..<CLI_CMD_NAME_MAX] cli;
          cli = cli_out_put ([9] @ cstr ''help'' @ [CR, LF]) cli
      in fold (\<lambda>_. cli_out_put (cstr ''-'')) [0..<2 * CLI_CMD_NAME_MAX] cli)"

text \<open>\<^verbatim>\<open>strncmp(a, b, n) == 0\<close> on two terminated strings.\<close>

fun strncmp_eq :: "byte list \<Rightarrow> byte list \<Rightarrow> nat \<Rightarrow> bool" where
  "strncmp_eq a b 0 = True"
| "strncmp_eq (x # xs) (y # ys) (Suc n) = (x = y \<and> (x = 0 \<or> strncmp_eq xs ys n))"
| "strncmp_eq _ _ (Suc n) = False"

text \<open>\<^verbatim>\<open>strcpy\<close> into the line buffer.\<close>

definition set_line :: "byte list \<Rightarrow> cli_t \<Rightarrow> cli_t option" where
  "set_line s cli =
     (if length s + 1 > length (cli_buffer cli) then None
      else Some (cli\<lparr>cli_buffer := memcpy_at (cli_buffer cli) 0 (s @ [0])\<rparr>))"

definition cli_table_key :: "cli_tables \<Rightarrow> cli_t \<Rightarrow> cli_t option" where
  "cli_table_key T cli =
     (if cli_index cli = 0 then Some (cli_print_all_cmd T (cli_print_cmd_title cli))
      else
        (let hit = (\<lambda>c. strncmp_eq (cname c @ [0]) (cli_buffer cli) (cli_index cli));
             found = filter hit (static_cmds T) @ filter hit (dynamic_cmds T);
             after = (if length found > 1 then Some (fold cli_print_cmd found (cli_print_cmd_title cli))
                      else if found \<noteq> []
                      then (case set_line (cname (last found)) cli of
                              None \<Rightarrow> None
                            | Some cli \<Rightarrow>
                                (let n = length (str_at (cli_buffer cli) 0) in Some (cli\<lparr>cli_index := n, cli_insert := n\<rparr>)))
                      else Some (cli\<lparr>cli_insert := cli_index cli\<rparr>))
         in case after of
              None \<Rightarrow> None
            | Some cli \<Rightarrow> Some (cli_out_put (take (cli_index cli) (cli_buffer cli)) (cli_print_prompt cli))))"

fun first_free :: "cli_cmd_table_t \<Rightarrow> cli_cmd_table_t list \<Rightarrow> cli_cmd_table_t list option" where
  "first_free r [] = None"
| "first_free r (x # xs) =
     (if cmd x \<noteq> None then (case first_free r xs of None \<Rightarrow> None | Some ys \<Rightarrow> Some (x # ys)) else Some (r # xs))"

definition cli_cmd_register :: "bool \<Rightarrow> cli_cmd_t list option \<Rightarrow> nat \<Rightarrow> cli_tables \<Rightarrow> cli_tables \<times> operate_ret" where
  "cli_cmd_register malloc_ok cs n T =
     (let r = \<lparr>num = n, cmd = cs\<rparr>
      in case first_free r (s_cli_static_table T) of
           Some rows \<Rightarrow> (T\<lparr>s_cli_static_table := rows\<rparr>, OPRT_OK)
         | None \<Rightarrow>
             if \<not> malloc_ok then (T, OPRT_MALLOC_FAILED)
             else (T\<lparr>s_cli_dynamic_table := r # s_cli_dynamic_table T\<rparr>, OPRT_OK))"

definition tal_cli_cmd_register :: "bool \<Rightarrow> cli_cmd_t list option \<Rightarrow> nat \<Rightarrow> cli_tables \<Rightarrow> cli_tables \<times> operate_ret" where
  "tal_cli_cmd_register malloc_ok cs n T =
     (if cs = None \<or> n = 0 then (T, OPRT_INVALID_PARM) else cli_cmd_register malloc_ok cs n T)"

section \<open>Keys\<close>

datatype detect_state = CHECK_KEY | CHECK_FUNC_TAG | CHECK_FUNC_KEY

definition plain_key :: "byte \<Rightarrow> cli_key_t option" where
  "plain_key ch =
     (if ch = CR then Some CLI_ENTER_KEY else if ch = LF then Some CLI_ENTER2_KEY
      else if ch = BS then Some CLI_BACKSPACE_KEY else if ch = 127 then Some CLI_BACKSPACE2_KEY
      else if ch = 9 then Some CLI_TABLE_KEY else None)"

definition func_key :: "byte \<Rightarrow> cli_key_t option" where
  "func_key ch =
     (if ch = 65 then Some CLI_UP_KEY else if ch = 66 then Some CLI_DOWN_KEY
      else if ch = 68 then Some CLI_LETF_KEY else if ch = 67 then Some CLI_RIGHT_KEY else None)"

text \<open>
  The decoder on the bytes that have arrived: the key, the character for \<^verbatim>\<open>CLI_NULL_KEY\<close>, and the bytes left.
  \<open>None\<close> means that it waits for more input.
\<close>

fun cli_key_detect :: "detect_state \<Rightarrow> byte list \<Rightarrow> (cli_key_t \<times> byte \<times> byte list) option" where
  "cli_key_detect st [] = None"
| "cli_key_detect CHECK_KEY (ch # rest) =
     (case plain_key ch of
        Some k \<Rightarrow> Some (k, ch, rest)
      | None \<Rightarrow> if ch = 27 then cli_key_detect CHECK_FUNC_TAG rest else Some (CLI_NULL_KEY, ch, rest))"
| "cli_key_detect CHECK_FUNC_TAG (ch # rest) = cli_key_detect (if ch = 91 then CHECK_FUNC_KEY else CHECK_KEY) rest"
| "cli_key_detect CHECK_FUNC_KEY (ch # rest) =
     (case func_key ch of Some k \<Rightarrow> Some (k, ch, rest) | None \<Rightarrow> cli_key_detect CHECK_KEY rest)"

section \<open>Line editor\<close>

text \<open>\<^verbatim>\<open>memmove(&buffer[dst], &buffer[src], n)\<close>; a negative \<open>n\<close> is a huge \<^verbatim>\<open>size_t\<close>.\<close>

definition memmove_at :: "nat \<Rightarrow> nat \<Rightarrow> int \<Rightarrow> byte list \<Rightarrow> byte list option" where
  "memmove_at dst src n buffer =
     (if n < 0 \<or> src + nat n > length buffer \<or> dst + nat n > length buffer then None
      else Some (memcpy_at buffer dst (take (nat n) (drop src buffer))))"

definition cli_backspace_key :: "cli_t \<Rightarrow> cli_t option" where
  "cli_backspace_key cli =
     (if cli_index cli = 0 then Some cli
      else
        (let idx = cli_index cli - 1; ins = (cli_insert cli + 65535) mod 65536
         in if cli_index cli > cli_insert cli
            then (case memmove_at ins (ins + 1) (int idx - int ins) (cli_buffer cli) of
                    None \<Rightarrow> None
                  | Some b \<Rightarrow>
                      (let b = b[idx := 0];
                           cli = cli\<lparr>cli_index := idx, cli_insert := ins, cli_buffer := b\<rparr>;
                           cli = cli_out_put [BS] cli;
                           cli = cli_out_put (take (idx - ins) (drop ins b)) cli;
                           cli = cli_out_put [SPACE, BS] cli
                       in Some (fold (\<lambda>_. cli_out_put [BS]) [0..<idx - ins] cli)))
            else if ins \<ge> length (cli_buffer cli) then None
            else Some (cli_out_put [BS, SPACE, BS]
                   (cli\<lparr>cli_index := idx, cli_insert := ins, cli_buffer := (cli_buffer cli)[ins := 0]\<rparr>))))"

text \<open>What both history keys do with the line they get.\<close>

definition show_line :: "byte list option \<Rightarrow> cli_t \<Rightarrow> cli_t option" where
  "show_line line cli =
     (case line of
        None \<Rightarrow> Some cli
      | Some s \<Rightarrow>
          (let cli = cli_out_put [CR] cli;
               cli = fold (\<lambda>_. cli_out_put [SPACE]) [0..<cli_index cli + length (prompt cli)] cli;
               cli = cli_out_put [CR] cli;
               cli = cli_out_put (prompt cli) cli;
               cli = cli_out_put s cli
           in case set_line s cli of
                None \<Rightarrow> None
              | Some cli \<Rightarrow>
                  (let n = length (str_at (cli_buffer cli) 0)
                   in Some (cli\<lparr>cli_index := n, cli_buffer := (cli_buffer cli)[n := 0], cli_insert := n\<rparr>))))"

definition cli_up_key :: "cli_t \<Rightarrow> cli_t option" where
  "cli_up_key cli = (let (h, line) = cli_histroy_data_perv (history cli) in show_line line (cli\<lparr>history := h\<rparr>))"

definition cli_down_key :: "cli_t \<Rightarrow> cli_t option" where
  "cli_down_key cli = (let (h, line) = cli_histroy_data_next (history cli) in show_line line (cli\<lparr>history := h\<rparr>))"

definition cli_letf_key :: "cli_t \<Rightarrow> cli_t" where
  "cli_letf_key cli = (if cli_insert cli \<noteq> 0 then (cli_out_put [BS] cli)\<lparr>cli_insert := cli_insert cli - 1\<rparr> else cli)"

definition cli_right_key :: "cli_t \<Rightarrow> cli_t" where
  "cli_right_key cli =
     (if cli_insert cli < cli_index cli
      then (cli_out_put [cli_buffer cli ! cli_insert cli] cli)\<lparr>cli_insert := cli_insert cli + 1\<rparr> else cli)"

text \<open>A character, the last part of the loop body of \<^verbatim>\<open>cli_task\<close>.\<close>

definition cli_char :: "byte \<Rightarrow> cli_t \<Rightarrow> cli_t option" where
  "cli_char ch cli =
     (if \<not> (32 \<le> ch \<and> ch \<le> 127) then Some cli
      else if CLI_BUFFER_SIZE - 1 < cli_index cli then Some cli
      else if cli_insert cli \<noteq> cli_index cli
      then (case memmove_at (cli_insert cli + 1) (cli_insert cli) (int (cli_index cli) - int (cli_insert cli)) (cli_buffer cli) of
              None \<Rightarrow> None
            | Some b \<Rightarrow>
                (let b = b[cli_insert cli := ch];
                     idx = cli_index cli + 1;
                     ins = cli_insert cli;
                     cli = cli_out_put (take (idx - ins) (drop ins b)) (cli\<lparr>cli_buffer := b, cli_index := idx\<rparr>);
                     ins = ins + 1;
                     cli = cli\<lparr>cli_insert := ins\<rparr>
                 in Some (fold (\<lambda>_. cli_out_put [BS]) [0..<idx - ins] cli)))
      else
        (let cli = cli\<lparr>cli_buffer := (cli_buffer cli)[cli_index cli := ch], cli_index := cli_index cli + 1,
                      cli_insert := cli_index cli + 1\<rparr>
         in Some (if echo cli then cli_out_put [ch] cli else cli)))"

section \<open>Executing a line\<close>

definition run_func :: "(nat \<Rightarrow> byte list list \<Rightarrow> byte list list) \<Rightarrow> cli_func \<Rightarrow> byte list list \<Rightarrow> cli_t \<Rightarrow> cli_t" where
  "run_func ext f args cli =
     (let cli = cli\<lparr>cli_calls := cli_calls cli @ [(f, args)]\<rparr>
      in case f of CLI_HELLO \<Rightarrow> cli_hello cli | EXT i \<Rightarrow> fold tal_cli_echo (ext i args) cli)"

definition cli_cmd_exec :: "(nat \<Rightarrow> byte list list \<Rightarrow> byte list list) \<Rightarrow> cli_tables \<Rightarrow> cli_t \<Rightarrow> cli_t \<times> operate_ret" where
  "cli_cmd_exec ext T cli =
     (let arg = (\<lambda>i. map_option (str_at (cli_buffer cli)) (cli_argv cli ! i))
      in case cli_cmd_find_with_name T (arg 0) of
           Some c \<Rightarrow> (run_func ext (func c) (map (\<lambda>i. the (arg i)) [0..<cli_argc cli]) cli, OPRT_OK)
         | None \<Rightarrow> (cli, OPRT_NOT_FOUND))"

definition cli_enter_key :: "(nat \<Rightarrow> byte list list \<Rightarrow> byte list list) \<Rightarrow> cli_tables \<Rightarrow> cli_t \<Rightarrow> cli_t option" where
  "cli_enter_key ext T cli =
     (if cli_index cli = 0 then Some (cli_print_prompt cli)
      else if cli_index cli \<ge> length (cli_buffer cli) then None
      else
        (let cli = cli\<lparr>cli_buffer := (cli_buffer cli)[cli_index cli := 0]\<rparr>;
             cli = cli\<lparr>history := cli_histroy_data_save (str_at (cli_buffer cli) 0) (history cli)\<rparr>
         in case cli_parse_buffer (cli_buffer cli) of
              None \<Rightarrow> None
            | Some (b, argc, argv) \<Rightarrow>
                (let cli = cli\<lparr>cli_buffer := b, cli_argc := argc, cli_argv := map Some argv @ drop argc (cli_argv cli)\<rparr>;
                     cli = cli_out_put [CR, LF] cli;
                     (cli, result) = cli_cmd_exec ext T cli;
                     cli = (if result \<noteq> OPRT_OK then cli_print_string (cstr ''No command or file name'') cli else cli);
                     cli = cli_print_prompt cli
                 in Some (cli\<lparr>cli_index := 0, cli_insert := 0, cli_buffer := replicate (CLI_BUFFER_SIZE + 1) 0\<rparr>))))"

definition cli_key_app :: "(nat \<Rightarrow> byte list list \<Rightarrow> byte list list) \<Rightarrow> cli_tables \<Rightarrow> cli_key_t \<Rightarrow> cli_t \<Rightarrow> cli_t option" where
  "cli_key_app ext T key cli =
     (case key of
        CLI_TABLE_KEY \<Rightarrow> cli_table_key T cli
      | CLI_ENTER_KEY \<Rightarrow> cli_enter_key ext T cli
      | CLI_ENTER2_KEY \<Rightarrow> cli_enter_key ext T cli
      | CLI_BACKSPACE_KEY \<Rightarrow> cli_backspace_key cli
      | CLI_BACKSPACE2_KEY \<Rightarrow> cli_backspace_key cli
      | CLI_UP_KEY \<Rightarrow> cli_up_key cli
      | CLI_DOWN_KEY \<Rightarrow> cli_down_key cli
      | CLI_LETF_KEY \<Rightarrow> Some (cli_letf_key cli)
      | CLI_RIGHT_KEY \<Rightarrow> Some (cli_right_key cli)
      | CLI_NULL_KEY \<Rightarrow> Some cli)"

section \<open>The task\<close>

text \<open>One turn of the loop, after the decoder.\<close>

definition cli_turn :: "(nat \<Rightarrow> byte list list \<Rightarrow> byte list list) \<Rightarrow> cli_tables \<Rightarrow> cli_key_t \<times> byte \<Rightarrow> cli_t \<Rightarrow> cli_t option" where
  "cli_turn ext T e cli = (if fst e \<noteq> CLI_NULL_KEY then cli_key_app ext T (fst e) cli else cli_char (snd e) cli)"

lemma cli_key_detect_shorter: "cli_key_detect st bs = Some (k, ch, rest) \<Longrightarrow> length rest < length bs"
  by (induction st bs rule: cli_key_detect.induct) (auto split: option.splits if_splits)

text \<open>The loop on the bytes that arrive; it returns when it waits for the next byte.\<close>

function cli_loop :: "(nat \<Rightarrow> byte list list \<Rightarrow> byte list list) \<Rightarrow> cli_tables \<Rightarrow> byte list \<Rightarrow> cli_t \<Rightarrow> cli_t option" where
  "cli_loop ext T bs cli =
     (case cli_key_detect CHECK_KEY bs of
        None \<Rightarrow> Some cli
      | Some (k, ch, rest) \<Rightarrow> (case cli_turn ext T (k, ch) cli of None \<Rightarrow> None | Some cli' \<Rightarrow> cli_loop ext T rest cli'))"
  by pat_completeness auto
termination
  by (relation "measure (\<lambda>(ext, T, bs, cli). length bs)") (auto dest: cli_key_detect_shorter)

declare cli_loop.simps [simp del]

definition cli_task :: "(nat \<Rightarrow> byte list list \<Rightarrow> byte list list) \<Rightarrow> cli_tables \<Rightarrow> byte list \<Rightarrow> cli_t \<Rightarrow> cli_t option" where
  "cli_task ext T bs cli =
     (let cli = cli\<lparr>prompt := cstr ''tuya>''\<rparr>;
          cli = cli_print_prompt cli;
          cli = cli\<lparr>echo := True\<rparr>
      in cli_loop ext T bs cli)"

text \<open>The zeroed handle of \<^verbatim>\<open>tal_cli_init_with_uart\<close> and the result of its calls.\<close>

definition cli_zero :: cli_t where
  "cli_zero = \<lparr>prompt = [], echo = False, cli_index = 0, cli_insert = 0, history = cli_history0, cli_argc = 0,
     cli_argv = replicate CLI_ARGV_NUM None, cli_buffer = replicate (CLI_BUFFER_SIZE + 1) 0, cli_tx = [], cli_calls = []\<rparr>"

definition s_cli_cmd :: "cli_cmd_t list" where
  "s_cli_cmd = [\<lparr>cname = cstr ''hello'', help_text = cstr ''print helo world'', func = CLI_HELLO\<rparr>]"

record cli_init_env =
  malloc_handle :: bool
  malloc_node :: bool
  uart_result :: operate_ret
  thread_result :: operate_ret

definition tal_cli_init_with_uart ::
    "cli_init_env \<Rightarrow> cli_t option \<times> cli_tables \<Rightarrow> (cli_t option \<times> cli_tables) \<times> operate_ret" where
  "tal_cli_init_with_uart env s =
     (let (handle, T) = s
      in if handle \<noteq> None then (s, OPRT_OK)
         else if \<not> malloc_handle env then ((None, T), OPRT_MALLOC_FAILED)
         else if uart_result env \<noteq> OPRT_OK then ((None, T), OPRT_COM_ERROR)
         else
           (let T = fst (tal_cli_cmd_register (malloc_node env) (Some s_cli_cmd) 1 T)
            in if thread_result env \<noteq> OPRT_OK then ((None, T), OPRT_COM_ERROR) else ((Some cli_zero, T), OPRT_OK)))"

end
