(* ===== verification/CliScreen.thy ===== *)
theory CliScreen
  imports Cli
begin

text \<open>
  What the user of the command line interface sees. The bytes the editor sends are interpreted by a
  terminal of one line, and the editor is compared with a specification: a line cut at the cursor, and the lines of
  the history. Every editing key but one keeps both in step; the exceptions are the backspace
  key at the start of a non-empty line, which moves memory with a negative length, and a completion with several
  candidates, which leaves the cursor of the screen behind.
\<close>

section \<open>The terminal\<close>

text \<open>The line on which the cursor is, and its column.\<close>

type_synonym terminal = "byte list \<times> nat"

definition term_put :: "byte \<Rightarrow> terminal \<Rightarrow> terminal" where
  "term_put c t =
     (let (row, col) = t
      in if c = CR then (row, 0)
         else if c = LF then ([], col)
         else if c = BS then (row, col - 1)
         else (take col (row @ replicate (col - length row) SPACE) @ [c] @ drop (col + 1) row, col + 1))"

definition term_show :: "byte list \<Rightarrow> terminal \<Rightarrow> terminal" where
  "term_show = fold term_put"

definition screen :: "cli_t \<Rightarrow> terminal" where
  "screen cli = term_show (cli_tx cli) ([], 0)"

definition glyph :: "byte \<Rightarrow> bool" where
  "glyph c \<longleftrightarrow> c \<noteq> CR \<and> c \<noteq> LF \<and> c \<noteq> BS"

lemma term_show_append [simp]: "term_show (s @ t) x = term_show t (term_show s x)" "term_show [] x = x"
  "term_show (c # s) x = term_show s (term_put c x)"
  by (simp_all add: term_show_def)

lemma term_put_glyph: "glyph c \<Longrightarrow> term_put c (p @ r, length p) = (p @ c # drop 1 r, length p + 1)"
  by (simp add: term_put_def glyph_def)

lemma term_show_text:
  "\<forall>c \<in> set s. glyph c \<Longrightarrow> term_show s (p @ r, length p) = (p @ s @ drop (length s) r, length p + length s)"
proof (induction s arbitrary: p r)
  case (Cons c s)
  then show ?case using Cons.IH [of "p @ [c]" "drop 1 r"] by (simp add: term_put_glyph)
qed simp

lemma term_blank: "term_show (replicate n SPACE) (row, 0) = (replicate n SPACE @ drop n row, n)"
  using term_show_text [of "replicate n SPACE" "[]" row] by (simp add: glyph_def)

lemma term_put_control [simp]:
  "term_put CR (row, col) = (row, 0)" "term_put LF (row, col) = ([], col)" "term_put BS (row, col) = (row, col - 1)"
  by (simp_all add: term_put_def)

lemma term_show_back [simp]: "term_show (replicate n BS) (row, col) = (row, col - n)"
  by (induction n arbitrary: col) simp_all

lemma term_newline: "term_show [CR, LF] t = ([], 0)"
  by (cases t) simp

lemma term_line:
  assumes "\<forall>c \<in> set s. glyph c"
  shows "term_show s ([], 0) = (s, length s)"
  using term_show_text [OF assms, of "[]" "[]"] by simp

section \<open>The state of the editor\<close>

definition printable :: "byte \<Rightarrow> bool" where
  "printable c \<longleftrightarrow> 32 \<le> c \<and> c \<le> 127"

definition line_before :: "cli_t \<Rightarrow> byte list" where
  "line_before cli = take (cli_insert cli) (cli_buffer cli)"

definition line_after :: "cli_t \<Rightarrow> byte list" where
  "line_after cli = take (cli_index cli - cli_insert cli) (drop (cli_insert cli) (cli_buffer cli))"

definition line_ok :: "cli_t \<Rightarrow> bool" where
  "line_ok cli \<longleftrightarrow> length (cli_buffer cli) = CLI_BUFFER_SIZE + 1 \<and> cli_insert cli \<le> cli_index cli \<and> cli_index cli \<le> CLI_BUFFER_SIZE
     \<and> list_all printable (take (cli_index cli) (cli_buffer cli))"

definition entry_ok :: "byte list \<Rightarrow> bool" where
  "entry_ok l \<longleftrightarrow> length l \<le> CLI_BUFFER_SIZE \<and> list_all printable l"

definition cli_inv :: "cli_t \<Rightarrow> bool" where
  "cli_inv cli \<longleftrightarrow> line_ok cli \<and> hist_inv (history cli) \<and> list_all entry_ok (hist_lines (history cli))
     \<and> prompt cli = cstr ''tuya>'' \<and> echo cli \<and> length (cli_argv cli) = CLI_ARGV_NUM \<and> cli_argv cli ! 0 \<in> {None, Some 0}"

text \<open>The screen shows the prompt and the line, then blanks, with the cursor at the insert position.\<close>

definition in_step :: "cli_t \<Rightarrow> bool" where
  "in_step cli \<longleftrightarrow> (let (row, col) = screen cli; text = prompt cli @ line_before cli @ line_after cli
     in take (length text) row = text \<and> list_all (\<lambda>c. c = SPACE) (drop (length text) row)
        \<and> length text \<le> length row \<and> col = length (prompt cli @ line_before cli))"

lemma printable_facts:
  assumes "printable c"
  shows "glyph c" "c \<noteq> 0"
  using assms by (auto simp: printable_def glyph_def)

lemma prompt_value: "cstr ''tuya>'' = [116, 117, 121, 97, 62]"
  by (simp add: cstr_def)

lemma prompt_glyph: "\<forall>c \<in> set (cstr ''tuya>''). glyph c"
  by (simp add: prompt_value glyph_def)

text \<open>The buffer cut at the cursor and at the end of the line.\<close>

lemma line_okE:
  assumes "line_ok cli"
  obtains x junk where "cli_buffer cli = line_before cli @ line_after cli @ x # junk"
    "cli_insert cli = length (line_before cli)" "cli_index cli = length (line_before cli) + length (line_after cli)"
    "length (line_before cli) + length (line_after cli) + length junk = CLI_BUFFER_SIZE"
    "\<forall>c \<in> set (line_before cli @ line_after cli). printable c"
proof -
  have l: "length (cli_buffer cli) = 1001" "cli_insert cli \<le> cli_index cli" "cli_index cli \<le> 1000"
    and pr: "\<forall>c \<in> set (take (cli_index cli) (cli_buffer cli)). printable c"
    using assms by (auto simp: line_ok_def list_all_iff)
  have t: "take (cli_index cli) (cli_buffer cli) = line_before cli @ line_after cli"
    using l(2) by (simp add: line_before_def line_after_def flip: take_add)
  obtain x junk where d: "drop (cli_index cli) (cli_buffer cli) = x # junk"
    using l by (cases "drop (cli_index cli) (cli_buffer cli)") auto
  have b: "cli_buffer cli = line_before cli @ line_after cli @ x # junk"
    using append_take_drop_id [of "cli_index cli" "cli_buffer cli"] unfolding t d by simp
  have n: "length (line_before cli) = cli_insert cli" "length (line_after cli) = cli_index cli - cli_insert cli"
    using l by (simp_all add: line_before_def line_after_def)
  have "length junk = length (cli_buffer cli) - cli_index cli - 1" using arg_cong [OF d, of length] by simp
  then show ?thesis using that [OF b] l n pr unfolding t by simp
qed

lemma line_okI:
  assumes "cli_buffer cli = b @ a @ x # junk" "cli_insert cli = length b" "cli_index cli = length b + length a"
    "length b + length a + length junk = CLI_BUFFER_SIZE" "\<forall>c \<in> set (b @ a). printable c"
  shows "line_ok cli" "line_before cli = b" "line_after cli = a"
  using assms by (simp_all add: line_ok_def line_before_def line_after_def list_all_iff)

lemma in_step_iff:
  "in_step cli \<longleftrightarrow> (\<exists>k. screen cli = (prompt cli @ line_before cli @ line_after cli @ replicate k SPACE, length (prompt cli @ line_before cli)))"
  (is "_ \<longleftrightarrow> (\<exists>k. _ = (?p @ ?b @ ?a @ _, _))")
proof
  obtain row col where s: "screen cli = (row, col)" by (cases "screen cli")
  let ?n = "length (?p @ ?b @ ?a)"
  assume "in_step cli"
  then have i: "take ?n row = ?p @ ?b @ ?a" "\<forall>c \<in> set (drop ?n row). c = SPACE" "col = length (?p @ ?b)"
    unfolding in_step_def Let_def s prod.case list_all_iff by blast+
  have "drop ?n row = replicate (length (drop ?n row)) SPACE" using i(2) by (simp only: replicate_length_same)
  then have "row = (?p @ ?b @ ?a) @ replicate (length (drop ?n row)) SPACE"
    using append_take_drop_id [of ?n row] i(1) by simp
  then show "\<exists>k. screen cli = (?p @ ?b @ ?a @ replicate k SPACE, length (?p @ ?b))"
    using s i(3) by (metis append.assoc)
next
  assume "\<exists>k. screen cli = (?p @ ?b @ ?a @ replicate k SPACE, length (?p @ ?b))"
  then show "in_step cli" by (auto simp: in_step_def list_all_iff)
qed

section \<open>Output\<close>

lemma out_fields [simp]:
  "prompt (cli_out_put s cli) = prompt cli" "echo (cli_out_put s cli) = echo cli" "cli_index (cli_out_put s cli) = cli_index cli"
  "cli_insert (cli_out_put s cli) = cli_insert cli" "history (cli_out_put s cli) = history cli"
  "cli_argc (cli_out_put s cli) = cli_argc cli" "cli_argv (cli_out_put s cli) = cli_argv cli"
  "cli_buffer (cli_out_put s cli) = cli_buffer cli" "cli_tx (cli_out_put s cli) = cli_tx cli @ s"
  "cli_calls (cli_out_put s cli) = cli_calls cli"
  by (simp_all add: cli_out_put_def)

lemma fold_out [simp]: "fold (\<lambda>_. cli_out_put [c]) xs cli = cli_out_put (replicate (length xs) c) cli"
proof (induction xs arbitrary: cli)
  case (Cons x xs)
  then show ?case by (simp add: cli_out_put_def)
qed (simp add: cli_out_put_def)

lemma screen_out: "cli_tx cli' = cli_tx cli @ s \<Longrightarrow> screen cli' = term_show s (screen cli)"
  by (simp add: screen_def)

text \<open>
  How a key is proved right: its fields give the new line, and the bytes it sends turn a screen that
  shows the old line into one that shows the new line.
\<close>

definition redraws :: "byte list \<Rightarrow> byte list \<times> byte list \<Rightarrow> byte list \<times> byte list \<Rightarrow> bool" where
  "redraws out old new \<longleftrightarrow> (\<forall>k. \<exists>k'.
     term_show out (cstr ''tuya>'' @ fst old @ snd old @ replicate k SPACE, length (cstr ''tuya>'' @ fst old))
       = (cstr ''tuya>'' @ fst new @ snd new @ replicate k' SPACE, length (cstr ''tuya>'' @ fst new)))"

lemma edit_step:
  assumes "cli_inv cli"
    and "cli_buffer cli' = b @ a @ x # junk" "cli_insert cli' = length b" "cli_index cli' = length b + length a"
      "length b + length a + length junk = CLI_BUFFER_SIZE" "\<forall>c \<in> set (b @ a). printable c"
    and "prompt cli' = prompt cli" "echo cli' = echo cli" "cli_argv cli' = cli_argv cli"
      "hist_inv (history cli')" "hist_lines (history cli') = hist_lines (history cli)"
    and "cli_tx cli' = cli_tx cli @ out" "redraws out (line_before cli, line_after cli) (b, a)"
  shows "cli_inv cli' \<and> line_before cli' = b \<and> line_after cli' = a \<and> (in_step cli \<longrightarrow> in_step cli')"
proof -
  note l = line_okI [OF assms(2-6)]
  have "prompt cli = cstr ''tuya>''" using assms(1) by (simp add: cli_inv_def)
  then have "in_step cli \<longrightarrow> in_step cli'"
    using assms(7,13) screen_out [OF assms(12)] unfolding in_step_iff redraws_def l fst_conv snd_conv by auto
  then show ?thesis using assms(1,7-11) l by (simp add: cli_inv_def)
qed

section \<open>Editing keys\<close>

lemma tuya_append: "cstr ''tuya>'' @ b @ r = (cstr ''tuya>'' @ b) @ r"
  by simp

lemma redraw_char:
  assumes "\<forall>c \<in> set (ch # a). glyph c"
  shows "redraws (ch # a @ replicate (length a) BS) (b, a) (b @ [ch], a)"
  unfolding redraws_def fst_conv snd_conv
proof
  fix k
  have "term_show (ch # a) ((cstr ''tuya>'' @ b) @ a @ replicate k SPACE, length (cstr ''tuya>'' @ b))
     = ((cstr ''tuya>'' @ b) @ (ch # a) @ replicate (k - 1) SPACE, length (cstr ''tuya>'' @ b) + length (ch # a))"
    using term_show_text [OF assms, of "cstr ''tuya>'' @ b" "a @ replicate k SPACE"] by simp
  then show "\<exists>k'. term_show (ch # a @ replicate (length a) BS) (cstr ''tuya>'' @ b @ a @ replicate k SPACE, length (cstr ''tuya>'' @ b))
     = (cstr ''tuya>'' @ (b @ [ch]) @ a @ replicate k' SPACE, length (cstr ''tuya>'' @ b @ [ch]))"
    by (intro exI [of _ "k - 1"]) simp
qed

lemma redraw_backspace:
  assumes "\<forall>c \<in> set a. glyph c"
  shows "redraws (BS # a @ [SPACE, BS] @ replicate (length a) BS) (b @ [x], a) (b, a)"
  unfolding redraws_def fst_conv snd_conv
proof
  fix k
  let ?p = "cstr ''tuya>'' @ b"
  obtain y where d: "drop (length a) (x # a @ replicate k SPACE) = y # replicate k SPACE"
    by (cases a rule: rev_cases) auto
  have a: "term_show a (?p @ x # a @ replicate k SPACE, length ?p) = (?p @ a @ y # replicate k SPACE, length ?p + length a)"
    using term_show_text [OF assms, of ?p "x # a @ replicate k SPACE"] unfolding d .
  have sp: "term_put SPACE ((?p @ a) @ y # replicate k SPACE, length (?p @ a)) = ((?p @ a) @ SPACE # replicate k SPACE, length (?p @ a) + 1)"
    using term_put_glyph [of SPACE "?p @ a"] by (simp add: glyph_def)
  have "term_show (BS # a @ [SPACE, BS] @ replicate (length a) BS) (?p @ x # a @ replicate k SPACE, length ?p + 1)
      = (?p @ a @ replicate (Suc k) SPACE, length ?p)"
    using a sp by (simp add: add.assoc)
  then show "\<exists>k'. term_show (BS # a @ [SPACE, BS] @ replicate (length a) BS)
       (cstr ''tuya>'' @ (b @ [x]) @ a @ replicate k SPACE, length (cstr ''tuya>'' @ b @ [x]))
     = (cstr ''tuya>'' @ b @ a @ replicate k' SPACE, length (cstr ''tuya>'' @ b))"
    by (intro exI [of _ "Suc k"]) simp
qed

lemma redraw_left: "redraws [BS] (b @ [x], a) (b, x # a)"
  by (auto simp: redraws_def)

lemma redraw_right:
  assumes "glyph x"
  shows "redraws [x] (b, x # a) (b @ [x], a)"
  using term_put_glyph [OF assms, of "cstr ''tuya>'' @ b"] by (simp add: redraws_def)

lemma redraw_line:
  assumes "\<forall>c \<in> set l. glyph c"
  shows "redraws (CR # replicate (length b + length a + length (cstr ''tuya>'')) SPACE @ [CR] @ cstr ''tuya>'' @ l) (b, a) (l, [])"
  unfolding redraws_def fst_conv snd_conv
proof
  fix k
  let ?p = "cstr ''tuya>''" and ?n = "length b + length a + length (cstr ''tuya>'')"
  have "drop ?n (?p @ b @ a @ replicate k SPACE) = replicate k SPACE" by simp
  then have sp: "term_show (replicate ?n SPACE) (?p @ b @ a @ replicate k SPACE, 0) = (replicate (?n + k) SPACE, ?n)"
    using term_blank [of ?n "?p @ b @ a @ replicate k SPACE"] unfolding replicate_add by (simp only:)
  have l: "\<forall>c \<in> set (?p @ l). glyph c" using assms prompt_glyph by auto
  have tx: "term_show (?p @ l) (replicate (?n + k) SPACE, 0) = ((?p @ l) @ replicate (?n + k - length (?p @ l)) SPACE, length (?p @ l))"
    using term_show_text [OF l, of "[]" "replicate (?n + k) SPACE"] by simp
  show "\<exists>k'. term_show (CR # replicate ?n SPACE @ [CR] @ ?p @ l) (?p @ b @ a @ replicate k SPACE, length (?p @ b))
      = (?p @ l @ [] @ replicate k' SPACE, length (?p @ l))"
    using sp tx by (intro exI [of _ "?n + k - length (?p @ l)"]) simp
qed

text \<open>The specification: a line cut at the cursor, the lines of the history and how many have been recalled.\<close>

type_synonym editor = "byte list \<times> byte list \<times> byte list list \<times> nat"

definition editor_of :: "cli_t \<Rightarrow> editor" where
  "editor_of cli = (line_before cli, line_after cli, hist_lines (history cli), hist_recalled (history cli))"

fun edit_spec :: "cli_key_t \<times> byte \<Rightarrow> editor \<Rightarrow> editor" where
  "edit_spec (k, ch) (b, a, ls, r) =
     (case k of
        CLI_NULL_KEY \<Rightarrow> if printable ch \<and> length b + length a < CLI_BUFFER_SIZE then (b @ [ch], a, ls, r) else (b, a, ls, r)
      | CLI_LETF_KEY \<Rightarrow> if b = [] then (b, a, ls, r) else (butlast b, last b # a, ls, r)
      | CLI_RIGHT_KEY \<Rightarrow> (case a of [] \<Rightarrow> (b, a, ls, r) | x # xs \<Rightarrow> (b @ [x], xs, ls, r))
      | CLI_BACKSPACE_KEY \<Rightarrow> (butlast b, a, ls, r)
      | CLI_BACKSPACE2_KEY \<Rightarrow> (butlast b, a, ls, r)
      | CLI_UP_KEY \<Rightarrow> if r < length ls then (ls ! r, [], ls, r + 1) else (b, a, ls, r)
      | CLI_DOWN_KEY \<Rightarrow> if 2 \<le> r then (ls ! (r - 2), [], ls, r - 1) else (b, a, ls, r)
      | _ \<Rightarrow> (b, a, ls, r))"

definition edits :: "cli_key_t \<times> byte \<Rightarrow> cli_t \<Rightarrow> cli_t option \<Rightarrow> bool" where
  "edits e cli r \<longleftrightarrow> (\<exists>cli'. r = Some cli' \<and> cli_inv cli' \<and> (in_step cli \<longrightarrow> in_step cli')
     \<and> editor_of cli' = edit_spec e (editor_of cli) \<and> cli_calls cli' = cli_calls cli)"

lemma edits_same: "cli_inv cli \<Longrightarrow> edit_spec e (editor_of cli) = editor_of cli \<Longrightarrow> edits e cli (Some cli)"
  by (simp add: edits_def)

lemma edited:
  assumes result: "r = Some (cli\<lparr>cli_index := length b + length a, cli_insert := length b, cli_buffer := b @ a @ x # junk,
      history := h, cli_tx := cli_tx cli @ out\<rparr>)"
    and inv: "cli_inv cli"
    and spec: "edit_spec e (editor_of cli) = (b, a, hist_lines (history cli), hist_recalled h)"
    and draw: "redraws out (line_before cli, line_after cli) (b, a)"
    and size: "length b + length a + length junk = CLI_BUFFER_SIZE" and print: "\<forall>c \<in> set (b @ a). printable c"
    and hist: "hist_inv h" "hist_lines h = hist_lines (history cli)"
  shows "edits e cli r"
proof -
  let ?c = "cli\<lparr>cli_index := length b + length a, cli_insert := length b, cli_buffer := b @ a @ x # junk,
      history := h, cli_tx := cli_tx cli @ out\<rparr>"
  have "cli_inv ?c \<and> line_before ?c = b \<and> line_after ?c = a \<and> (in_step cli \<longrightarrow> in_step ?c)"
    by (rule edit_step [OF inv _ _ _ size print _ _ _ _ _ _ draw]) (simp_all add: hist)
  then show ?thesis using spec hist(2) by (simp add: result edits_def editor_of_def)
qed

lemma cli_invE:
  assumes "cli_inv cli"
  obtains x junk where "cli_buffer cli = line_before cli @ line_after cli @ x # junk"
    "cli_insert cli = length (line_before cli)" "cli_index cli = length (line_before cli) + length (line_after cli)"
    "length (line_before cli) + length (line_after cli) + length junk = CLI_BUFFER_SIZE"
    "\<forall>c \<in> set (line_before cli @ line_after cli). printable c"
    "hist_inv (history cli)" "echo cli" "prompt cli = cstr ''tuya>''" "list_all entry_ok (hist_lines (history cli))"
  using line_okE [of cli] assms unfolding cli_inv_def by metis

lemma memmove_ok:
  assumes "buffer = p @ s @ r" "n = int (length s)" "src = length p" "dst + length s \<le> length buffer"
  shows "memmove_at dst src n buffer = Some (memcpy_at buffer dst s)"
  using assms by (simp add: memmove_at_def)

lemma char_edits:
  assumes inv: "cli_inv cli"
  shows "edits (CLI_NULL_KEY, ch) cli (cli_char ch cli)"
  using inv
proof (rule cli_invE)
  let ?b = "line_before cli" and ?a = "line_after cli"
  fix x junk
  assume l: "cli_buffer cli = ?b @ ?a @ x # junk" "cli_insert cli = length ?b"
    "cli_index cli = length ?b + length ?a" "length ?b + length ?a + length junk = CLI_BUFFER_SIZE"
    "\<forall>c \<in> set (?b @ ?a). printable c" "hist_inv (history cli)" "echo cli"
  show ?thesis
  proof (cases "printable ch \<and> cli_index cli < CLI_BUFFER_SIZE")
    case True
    then obtain y junk' where j: "junk = y # junk'" using l(3,4) by (cases junk) auto
    have pr: "\<forall>c \<in> set ((?b @ [ch]) @ ?a). printable c" using l(5) True by auto
    have draw: "redraws (ch # ?a @ replicate (length ?a) BS) (?b, ?a) (?b @ [ch], ?a)"
      using pr printable_facts(1) by (intro redraw_char) auto
    have g: "32 \<le> ch \<and> ch \<le> 127" "\<not> CLI_BUFFER_SIZE - 1 < cli_index cli" using True by (auto simp: printable_def)
    have m: "memmove_at (cli_insert cli + 1) (cli_insert cli) (int (cli_index cli) - int (cli_insert cli)) (cli_buffer cli)
        = Some (memcpy_at (cli_buffer cli) (length ?b + 1) ?a)"
      using l j by (subst memmove_ok [where p = ?b and s = ?a and r = "x # junk"]) auto
    have c: "(memcpy_at (cli_buffer cli) (Suc (length ?b)) ?a)[length ?b := ch] = ?b @ ch # ?a @ y # junk'"
      unfolding l(1) memcpy_at_def j by (cases ?a) (simp_all add: list_update_append)
    have c0: "(cli_buffer cli)[length ?b := ch] = ?b @ ch # y # junk'" if "?a = []"
      using that l(1) j by (simp add: list_update_append)
    have "cli_char ch cli = Some (cli\<lparr>cli_index := length (?b @ [ch]) + length ?a, cli_insert := length (?b @ [ch]),
        cli_buffer := (?b @ [ch]) @ ?a @ y # junk', history := history cli, cli_tx := cli_tx cli @ ch # ?a @ replicate (length ?a) BS\<rparr>)"
      using g l(7) m unfolding cli_char_def
      by (cases "?a = []") (simp_all add: l(2,3) c0 c Let_def cli_out_put_def)
    then show ?thesis
      by (rule edited [OF _ inv _ draw _ pr l(6)]) (use True l j in \<open>simp_all add: editor_of_def\<close>)
  next
    case False
    then show ?thesis
      using l(3) by (auto simp: cli_char_def printable_def editor_of_def intro!: edits_same inv)
  qed
qed

text \<open>The backspace key, when something stands before the cursor or the line is empty.\<close>

lemma backspace_edits:
  assumes inv: "cli_inv cli" and k: "k = CLI_BACKSPACE_KEY \<or> k = CLI_BACKSPACE2_KEY"
    and safe: "line_before cli = [] \<Longrightarrow> line_after cli = []"
  shows "edits (k, ch) cli (cli_backspace_key cli)"
  using inv
proof (rule cli_invE)
  let ?a = "line_after cli"
  fix x junk
  assume l: "cli_buffer cli = line_before cli @ ?a @ x # junk" "cli_insert cli = length (line_before cli)"
    "cli_index cli = length (line_before cli) + length ?a" "length (line_before cli) + length ?a + length junk = CLI_BUFFER_SIZE"
    "\<forall>c \<in> set (line_before cli @ ?a). printable c" "hist_inv (history cli)"
  show ?thesis
  proof (cases "line_before cli" rule: rev_cases)
    case Nil
    then show ?thesis using k l(3) safe by (auto simp: cli_backspace_key_def editor_of_def intro!: edits_same inv)
  next
    case (snoc b y)
    note l = l [unfolded snoc]
    have draw: "redraws (BS # ?a @ [SPACE, BS] @ replicate (length ?a) BS) (line_before cli, ?a) (b, ?a)"
      unfolding snoc using l(5) printable_facts(1) by (intro redraw_backspace) auto
    have w: "(cli_insert cli + 65535) mod 65536 = length b" "cli_index cli - 1 = length b + length ?a"
      using l(2,3,4) by (simp_all add: mod_nat_eqI)
    have m: "memmove_at (length b) (length b + 1) (int (length b + length ?a) - int (length b)) (cli_buffer cli)
        = Some (memcpy_at (cli_buffer cli) (length b) ?a)"
      using l by (subst memmove_ok [where p = "b @ [y]" and s = ?a and r = "x # junk"]) auto
    have c: "(memcpy_at (cli_buffer cli) (length b) ?a)[length b + length ?a := 0] = b @ ?a @ 0 # x # junk"
      unfolding l(1) memcpy_at_def by (cases ?a rule: rev_cases) (simp_all add: list_update_append)
    have c0: "(cli_buffer cli)[length b := 0] = b @ 0 # x # junk" if "?a = []" using that l(1) by (simp add: list_update_append)
    have "cli_backspace_key cli = Some (cli\<lparr>cli_index := length b + length ?a, cli_insert := length b,
        cli_buffer := b @ ?a @ 0 # x # junk, history := history cli, cli_tx := cli_tx cli @ BS # ?a @ [SPACE, BS] @ replicate (length ?a) BS\<rparr>)"
    proof (cases "?a = []")
      case True
      then show ?thesis using c0 l(1,2,3) unfolding cli_backspace_key_def w Let_def by (simp add: cli_out_put_def)
    next
      case False
      then show ?thesis using l(1,2,3) unfolding cli_backspace_key_def w Let_def m option.case c by (simp add: cli_out_put_def)
    qed
    then show ?thesis
      by (rule edited [OF _ inv _ draw _ _ l(6)]) (use k l snoc in \<open>auto simp: editor_of_def\<close>)
  qed
qed

lemma arrow_edits:
  assumes inv: "cli_inv cli"
  shows "edits (CLI_LETF_KEY, ch) cli (Some (cli_letf_key cli))" and "edits (CLI_RIGHT_KEY, ch) cli (Some (cli_right_key cli))"
  using inv
proof (atomize (full), rule cli_invE)
  let ?a = "line_after cli" and ?b = "line_before cli"
  fix x junk
  assume l: "cli_buffer cli = ?b @ ?a @ x # junk" "cli_insert cli = length ?b"
    "cli_index cli = length ?b + length ?a" "length ?b + length ?a + length junk = CLI_BUFFER_SIZE"
    "\<forall>c \<in> set (?b @ ?a). printable c" "hist_inv (history cli)"
  have "edits (CLI_LETF_KEY, ch) cli (Some (cli_letf_key cli))"
  proof (cases ?b rule: rev_cases)
    case Nil
    then show ?thesis using l(2) by (auto simp: cli_letf_key_def editor_of_def intro!: edits_same inv)
  next
    case (snoc b y)
    have "Some (cli_letf_key cli) = Some (cli\<lparr>cli_index := length b + length (y # ?a), cli_insert := length b,
        cli_buffer := b @ (y # ?a) @ x # junk, history := history cli, cli_tx := cli_tx cli @ [BS]\<rparr>)"
      using l(1-3) [symmetric] snoc by (simp add: cli_letf_key_def cli_out_put_def)
    then show ?thesis
      by (rule edited [OF _ inv _ redraw_left [of b y ?a, folded snoc] _ _ l(6)]) (use l snoc in \<open>auto simp: editor_of_def\<close>)
  qed
  moreover have "edits (CLI_RIGHT_KEY, ch) cli (Some (cli_right_key cli))"
  proof (cases ?a)
    case Nil
    then show ?thesis using l(2,3) by (auto simp: cli_right_key_def editor_of_def intro!: edits_same inv)
  next
    case (Cons y a)
    have y: "glyph y" using l(5) Cons printable_facts(1) by simp
    have n: "cli_buffer cli ! cli_insert cli = y" using l(1,2) Cons by (simp add: nth_append)
    have "Some (cli_right_key cli) = Some (cli\<lparr>cli_index := length (?b @ [y]) + length a, cli_insert := length (?b @ [y]),
        cli_buffer := (?b @ [y]) @ a @ x # junk, history := history cli, cli_tx := cli_tx cli @ [y]\<rparr>)"
      using l(1-3) [symmetric] Cons n by (simp add: cli_right_key_def cli_out_put_def)
    then show ?thesis
      by (rule edited [OF _ inv _ redraw_right [OF y, of ?b a, folded Cons] _ _ l(6)]) (use l Cons in \<open>auto simp: editor_of_def\<close>)
  qed
  ultimately show "edits (CLI_LETF_KEY, ch) cli (Some (cli_letf_key cli)) \<and> edits (CLI_RIGHT_KEY, ch) cli (Some (cli_right_key cli))"
    by (rule conjI)
qed

text \<open>A line copied into the buffer.\<close>

lemma printable_zero: "\<forall>c \<in> set l. printable c \<Longrightarrow> 0 \<notin> set l"
  using printable_facts(2) by blast

lemma set_line_ok:
  assumes "length l \<le> CLI_BUFFER_SIZE" "\<forall>c \<in> set l. printable c" "length (cli_buffer cli) = CLI_BUFFER_SIZE + 1"
  defines "buf \<equiv> l @ 0 # drop (length l + 1) (cli_buffer cli)"
  shows "set_line l cli = Some (cli\<lparr>cli_buffer := buf\<rparr>)" "length (str_at buf 0) = length l" "buf[length l := 0] = buf"
    "take (length l) buf = l"
  using assms str_at_packed [OF printable_zero [OF assms(2)], of "[]"]
  by (simp_all add: set_line_def memcpy_at_def list_update_append)

lemma recall_edits:
  assumes inv: "cli_inv cli" and l: "entry_ok l" and h: "hist_inv h" "hist_lines h = hist_lines (history cli)"
    and spec: "edit_spec e (editor_of cli) = (l, [], hist_lines (history cli), hist_recalled h)"
  shows "edits e cli (show_line (Some l) (cli\<lparr>history := h\<rparr>))"
  using inv
proof (rule cli_invE)
  let ?a = "line_after cli" and ?b = "line_before cli" and ?p = "cstr ''tuya>''"
  fix x junk
  assume i: "cli_buffer cli = ?b @ ?a @ x # junk" "cli_index cli = length ?b + length ?a"
    "length ?b + length ?a + length junk = CLI_BUFFER_SIZE" "prompt cli = ?p"
  have pr: "\<forall>c \<in> set (l @ []). printable c" and n: "length l \<le> CLI_BUFFER_SIZE" using l by (simp_all add: entry_ok_def list_all_iff)
  have draw: "redraws (CR # replicate (length ?b + length ?a + length ?p) SPACE @ [CR] @ ?p @ l) (?b, ?a) (l, [])"
    using pr printable_facts(1) by (intro redraw_line) auto
  have bl: "length (cli_buffer cli) = CLI_BUFFER_SIZE + 1" using i(1,3) by simp
  note sl = set_line_ok [OF n, of "cli_out_put _ _"]
  have "show_line (Some l) (cli\<lparr>history := h\<rparr>) = Some (cli\<lparr>cli_index := length l + length [], cli_insert := length l,
      cli_buffer := l @ [] @ 0 # drop (length l + 1) (cli_buffer cli), history := h,
      cli_tx := cli_tx cli @ CR # replicate (length ?b + length ?a + length ?p) SPACE @ [CR] @ ?p @ l\<rparr>)"
    using sl pr bl by (simp add: show_line_def Let_def i(2,4))
  then show ?thesis
    by (rule edited [OF _ inv spec draw _ pr h]) (use n bl in simp)
qed

lemma up_edits:
  assumes inv: "cli_inv cli"
  shows "edits (CLI_UP_KEY, ch) cli (cli_up_key cli)"
proof -
  let ?h = "history cli"
  have h: "hist_inv ?h" "\<forall>l \<in> set (hist_lines ?h). entry_ok l" using inv by (simp_all add: cli_inv_def list_all_iff)
  note u = ring_hist.up_inv [OF h(1)] ring_hist.up_spec [OF h(1)]
  obtain g line where r: "cli_histroy_data_perv ?h = (g, line)" by (cases "cli_histroy_data_perv ?h")
  show ?thesis
  proof (cases "hist_recalled ?h < length (hist_lines ?h)")
    case True
    then have "line = Some (hist_lines ?h ! hist_recalled ?h)" "hist_recalled g = hist_recalled ?h + 1" using u(2) r by simp_all
    then show ?thesis
      using u(1) r True h(2) by (auto simp: cli_up_key_def editor_of_def intro!: recall_edits inv)
  next
    case False
    then have "cli_histroy_data_perv ?h = (?h, None)" using perv_spec [OF h(1)] by simp
    then show ?thesis using False by (auto simp: cli_up_key_def show_line_def editor_of_def intro!: edits_same inv)
  qed
qed

lemma down_edits:
  assumes inv: "cli_inv cli"
  shows "edits (CLI_DOWN_KEY, ch) cli (cli_down_key cli)"
proof -
  let ?h = "history cli"
  have h: "hist_inv ?h" "\<forall>l \<in> set (hist_lines ?h). entry_ok l" using inv by (simp_all add: cli_inv_def list_all_iff)
  note d = ring_hist.down_inv [OF h(1)] ring_hist.down_spec [OF h(1)]
  obtain g line where r: "cli_histroy_data_next ?h = (g, line)" by (cases "cli_histroy_data_next ?h")
  show ?thesis
  proof (cases "2 \<le> hist_recalled ?h")
    case True
    then have g: "line = Some (hist_lines ?h ! (hist_recalled ?h - 2))" "hist_recalled g = hist_recalled ?h - 1" using d(2) r by simp_all
    have "hist_recalled ?h - 2 < length (hist_lines ?h)" using ring_hist.recalled_bound [OF h(1)] True by simp
    then show ?thesis
      using d(1) r True h(2) g by (auto simp: cli_down_key_def editor_of_def intro!: recall_edits inv)
  next
    case False
    then have "cli_histroy_data_next ?h = (?h, None)" using next_spec [OF h(1)] by simp
    then show ?thesis using False by (auto simp: cli_down_key_def show_line_def editor_of_def intro!: edits_same inv)
  qed
qed

text \<open>Backspace at the start of a line that is not empty: the insert position wraps to 65535.\<close>

definition at_line_start :: "cli_t \<Rightarrow> bool" where
  "at_line_start cli \<longleftrightarrow> line_before cli = [] \<and> line_after cli \<noteq> []"

lemma backspace_at_start:
  assumes "cli_inv cli" "at_line_start cli"
  shows "cli_backspace_key cli = None"
  using assms(1)
proof (rule cli_invE)
  fix x junk
  assume "cli_insert cli = length (line_before cli)" "cli_index cli = length (line_before cli) + length (line_after cli)"
    "length (line_before cli) + length (line_after cli) + length junk = CLI_BUFFER_SIZE"
  then have i: "cli_insert cli = 0" "0 < cli_index cli" "cli_index cli \<le> 1000"
    using assms(2) by (simp_all add: at_line_start_def)
  have "memmove_at 65535 (65535 + 1) (int (cli_index cli - 1) - int 65535) (cli_buffer cli) = None"
    using i(3) by (auto simp: memmove_at_def)
  then show ?thesis using i by (simp add: cli_backspace_key_def)
qed

abbreviation is_backspace :: "cli_key_t \<Rightarrow> bool" where
  "is_backspace k \<equiv> k = CLI_BACKSPACE_KEY \<or> k = CLI_BACKSPACE2_KEY"

abbreviation is_enter :: "cli_key_t \<Rightarrow> bool" where
  "is_enter k \<equiv> k = CLI_ENTER_KEY \<or> k = CLI_ENTER2_KEY"

lemma turn_edits:
  assumes "cli_inv cli" "\<not> is_enter k" "k \<noteq> CLI_TABLE_KEY" "is_backspace k \<Longrightarrow> \<not> at_line_start cli"
  shows "edits (k, ch) cli (cli_turn ext T (k, ch) cli)"
  using assms by (cases k) (auto simp: cli_turn_def cli_key_app_def at_line_start_def
    intro: char_edits backspace_edits arrow_edits up_edits down_edits)

end
