(* ===== verification/CliExec.thy ===== *)
theory CliExec
  imports CliScreen
begin

text \<open>
  The keys of the command line interface that use the command tables, and the whole task. Enter
  saves the line, calls the first command whose name is the first word with the first eight words, and starts an empty line;
  the completion key replaces a prefix by the only name it fits. The state stays well formed for every input,
  and the task is lost only by the backspace key at the start of a line.
\<close>

section \<open>What a line does\<close>

definition cmds_ok :: "cli_tables \<Rightarrow> bool" where
  "cmds_ok T \<longleftrightarrow> list_all (\<lambda>c. cname c \<noteq> [] \<and> entry_ok (cname c)) (static_cmds T @ dynamic_cmds T)"

definition called :: "cli_tables \<Rightarrow> byte list \<Rightarrow> (cli_func \<times> byte list list) list" where
  "called T line =
     (case line_words line of
        [] \<Rightarrow> []
      | w # ws \<Rightarrow>
          (case find (\<lambda>c. cname c = w) (static_cmds T @ dynamic_cmds T) of
             None \<Rightarrow> []
           | Some c \<Rightarrow> [(func c, take CLI_ARGV_NUM (line_words line))]))"

definition answer :: "(nat \<Rightarrow> byte list list \<Rightarrow> byte list list) \<Rightarrow> (cli_func \<times> byte list list) list \<Rightarrow> byte list" where
  "answer ext cs =
     (let told = (case cs of
          [] \<Rightarrow> [cstr ''No command or file name'']
        | (CLI_HELLO, args) # _ \<Rightarrow> [cstr ''helo world'']
        | (EXT i, args) # _ \<Rightarrow> ext i args)
      in concat (map (\<lambda>s. [CR, LF] @ s) told))"

lemma out_out: "cli_out_put t (cli_out_put s cli) = cli_out_put (s @ t) cli"
  by (simp add: cli_out_put_def)

lemma out_nil [simp]: "cli_out_put [] cli = cli"
  by (simp add: cli_out_put_def)

lemma fold_outs: "fold (\<lambda>x. cli_out_put (f x)) xs cli = cli_out_put (concat (map f xs)) cli"
  by (induction xs arbitrary: cli) (simp_all add: out_out)

lemma print_string: "cli_print_string s = cli_out_put ([CR, LF] @ s)"
  by (rule ext) (simp add: cli_print_string_def fold_outs out_out)

lemma fold_echo: "fold tal_cli_echo ss cli = cli_out_put (concat (map (\<lambda>s. [CR, LF] @ s) ss)) cli"
  by (induction ss arbitrary: cli) (simp_all add: tal_cli_echo_def print_string out_out)

lemma run_func_out:
  "run_func xt f args cli = cli_out_put (answer xt [(f, args)]) (cli\<lparr>cli_calls := cli_calls cli @ [(f, args)]\<rparr>)"
  by (cases f) (simp_all add: run_func_def answer_def cli_hello_def print_string fold_echo)

lemma find_append: "find P (xs @ ys) = (case find P xs of Some x \<Rightarrow> Some x | None \<Rightarrow> find P ys)"
  by (induction xs) auto

lemma find_name: "cli_cmd_find_with_name T (Some n) = find (\<lambda>c. cname c = n) (static_cmds T @ dynamic_cmds T)"
  by (simp add: cli_cmd_find_with_name_def find_append split: option.splits)

lemma cmds_ok_names:
  assumes "cmds_ok T" "find P (static_cmds T @ dynamic_cmds T) = Some c"
  shows "cname c \<noteq> []" "entry_ok (cname c)"
proof -
  have "c \<in> set (static_cmds T @ dynamic_cmds T)" using assms(2) by (metis find_Some_iff nth_mem)
  then show "cname c \<noteq> []" "entry_ok (cname c)" using assms(1) unfolding cmds_ok_def list_all_iff by blast+
qed

lemma exec_words:
  assumes ok: "cmds_ok T"
    and ws: "cli_argc cli = min CLI_ARGV_NUM (length ws)" "cli_argv cli = map Some ps @ old" "length ps = cli_argc cli"
      "map (str_at (cli_buffer cli)) ps = take CLI_ARGV_NUM ws"
    and none: "ws = [] \<Longrightarrow> old ! 0 \<in> {None, Some 0} \<and> str_at (cli_buffer cli) 0 = []"
    and line: "line_words line = ws"
  shows "cli_cmd_exec xt T cli =
    (case called T line of
       [] \<Rightarrow> (cli, OPRT_NOT_FOUND)
     | (f, args) # _ \<Rightarrow> (run_func xt f args cli, OPRT_OK))"
proof (cases ws)
  case Nil
  then have n: "old ! 0 \<in> {None, Some 0}" "str_at (cli_buffer cli) 0 = []" "ps = []" using none ws by auto
  have "find (\<lambda>c. cname c = []) (static_cmds T @ dynamic_cmds T) = None"
    using cmds_ok_names(1) [OF ok, of "\<lambda>c. cname c = []"] by (metis (mono_tags) find_Some_iff option.exhaust)
  then have "cli_cmd_find_with_name T (map_option (str_at (cli_buffer cli)) (cli_argv cli ! 0)) = None"
    using n ws(2) by (auto simp: find_name) (simp add: cli_cmd_find_with_name_def)
  then show ?thesis using Nil line by (simp add: cli_cmd_exec_def called_def)
next
  case (Cons w rest)
  have args: "map (\<lambda>i. the (map_option (str_at (cli_buffer cli)) (cli_argv cli ! i))) [0..<cli_argc cli] = take CLI_ARGV_NUM ws"
    unfolding ws(4) [symmetric] using ws(2,3) by (intro nth_equalityI) (simp_all add: nth_append)
  have "ps \<noteq> []" "take CLI_ARGV_NUM ws ! 0 = w" using Cons ws(1,3) by auto
  then have first: "map_option (str_at (cli_buffer cli)) (cli_argv cli ! 0) = Some w"
    using ws(2) nth_map [of 0 ps "str_at (cli_buffer cli)"] unfolding ws(4) by (simp add: nth_append)
  show ?thesis unfolding cli_cmd_exec_def called_def line args first find_name Let_def
    using Cons by (simp split: option.splits)
qed

text \<open>The whole enter key on a line that is not empty.\<close>

lemma enter_result:
  assumes inv: "cli_inv cli" and ok: "cmds_ok T" and line: "line_before cli @ line_after cli = line" "line \<noteq> []"
  shows "\<exists>argc argv. cli_enter_key xt T cli = Some (cli\<lparr>cli_index := 0, cli_insert := 0, cli_argc := argc, cli_argv := argv,
      cli_buffer := replicate (CLI_BUFFER_SIZE + 1) 0, history := cli_histroy_data_save line (history cli),
      cli_calls := cli_calls cli @ called T line,
      cli_tx := cli_tx cli @ [CR, LF] @ answer xt (called T line) @ [CR, LF] @ prompt cli\<rparr>)
    \<and> length argv = CLI_ARGV_NUM \<and> argv ! 0 \<in> {None, Some 0}"
  using inv
proof (rule cli_invE)
  fix x junk
  assume l: "cli_buffer cli = line_before cli @ line_after cli @ x # junk" "cli_index cli = length (line_before cli) + length (line_after cli)"
    "\<forall>c \<in> set (line_before cli @ line_after cli). printable c"
  have old: "length (cli_argv cli) = CLI_ARGV_NUM" "cli_argv cli ! 0 \<in> {None, Some 0}" using inv by (simp_all add: cli_inv_def)
  have i: "cli_index cli = length line" "cli_buffer cli = line @ x # junk" using l(1,2) line(1) by (simp_all flip: line(1))
  have z: "0 \<notin> set line" using l(3) line(1) printable_zero by simp
  let ?n = "min CLI_ARGV_NUM (length (line_words line))"
  obtain b where p: "cli_parse_buffer (line @ 0 # junk) = Some (b, ?n, argv_positions b 0 ?n)"
    and args: "map (str_at b) (argv_positions b 0 ?n) = take CLI_ARGV_NUM (line_words line)"
    and e: "line_words line = [] \<longrightarrow> str_at b 0 = []"
    using parse_buffer_words [OF z, of junk] by blast
  have buf: "(cli_buffer cli)[cli_index cli := 0] = line @ 0 # junk" "str_at (line @ 0 # junk) 0 = line"
    using i str_at_packed [OF z, of "[]" junk] by simp_all
  let ?argv = "map Some (argv_positions b 0 ?n) @ drop ?n (cli_argv cli)"
  have len: "length (argv_positions b 0 ?n) = ?n" using arg_cong [OF args, of length] by simp
  have av: "length ?argv = CLI_ARGV_NUM" "?argv ! 0 \<in> {None, Some 0}"
    using len old by (cases ?n; simp)+
  define c where "c = cli_out_put [CR, LF] (cli\<lparr>history := cli_histroy_data_save line (history cli), cli_buffer := b,
      cli_argc := ?n, cli_argv := ?argv\<rparr>)"
  have ex: "cli_cmd_exec xt T c = (case called T line of [] \<Rightarrow> (c, OPRT_NOT_FOUND) | (f, as) # _ \<Rightarrow> (run_func xt f as c, OPRT_OK))"
    by (rule exec_words [OF ok, where ps = "argv_positions b 0 ?n" and old = "drop ?n (cli_argv cli)", OF _ _ _ _ _ refl]) (use args e old(2) len in \<open>simp_all add: c_def\<close>)
  have cs: "called T line = [] \<or> (\<exists>f as. called T line = [(f, as)])"
    by (simp add: called_def split: list.splits option.splits)
  have "cli_enter_key xt T cli =
    (let (cli, result) = cli_cmd_exec xt T c;
         cli = (if result \<noteq> OPRT_OK then cli_print_string (cstr ''No command or file name'') cli else cli);
         cli = cli_print_prompt cli
     in Some (cli\<lparr>cli_index := 0, cli_insert := 0, cli_buffer := replicate (CLI_BUFFER_SIZE + 1) 0\<rparr>))"
    unfolding cli_enter_key_def using i line(2) buf p by (simp add: Let_def c_def)
  then have "cli_enter_key xt T cli = Some (cli\<lparr>cli_index := 0, cli_insert := 0, cli_argc := ?n, cli_argv := ?argv,
      cli_buffer := replicate (CLI_BUFFER_SIZE + 1) 0, history := cli_histroy_data_save line (history cli),
      cli_calls := cli_calls cli @ called T line,
      cli_tx := cli_tx cli @ [CR, LF] @ answer xt (called T line) @ [CR, LF] @ prompt cli\<rparr>)"
    using cs unfolding ex
    by (auto simp: Let_def c_def run_func_out print_string cli_print_prompt_def cli_out_put_def answer_def)
  with av show ?thesis by blast
qed

lemma prompt_in_step:
  assumes "cli_tx cli = out @ [CR, LF] @ prompt cli @ line_before cli" "prompt cli = cstr ''tuya>''"
    "line_after cli = []" "\<forall>c \<in> set (line_before cli). glyph c"
  shows "in_step cli"
proof -
  have "\<forall>c \<in> set (prompt cli @ line_before cli). glyph c" using assms(2,4) prompt_glyph by auto
  then have "screen cli = (prompt cli @ line_before cli, length (prompt cli @ line_before cli))"
    unfolding screen_def assms(1) term_show_append(1) [of out] term_show_append(1) [of "[CR, LF]"] term_newline by (rule term_line)
  then show ?thesis using assms(3) by (auto simp: in_step_iff intro: exI [of _ 0])
qed

lemma enter_step:
  assumes inv: "cli_inv cli" and ok: "cmds_ok T"
  shows "\<exists>cli'. cli_enter_key xt T cli = Some cli' \<and> cli_inv cli' \<and> in_step cli' \<and> line_before cli' = [] \<and> line_after cli' = []"
proof (cases "line_before cli @ line_after cli = []")
  case True
  have h: "length (line_before cli) = cli_insert cli" "cli_index cli = 0" "prompt cli = cstr ''tuya>''"
    using inv True by (auto elim!: cli_invE)
  let ?c = "cli_print_prompt cli"
  have e: "line_before ?c = []" "line_after ?c = []" using True by (simp_all add: line_before_def line_after_def cli_print_prompt_def)
  have "in_step ?c" by (rule prompt_in_step) (use e h in \<open>simp_all add: cli_print_prompt_def\<close>)
  moreover have "cli_inv ?c" using inv by (simp add: cli_inv_def line_ok_def cli_print_prompt_def)
  ultimately show ?thesis using e h(2) by (simp add: cli_enter_key_def)
next
  case False
  let ?line = "line_before cli @ line_after cli"
  obtain argc argv where r: "cli_enter_key xt T cli = Some (cli\<lparr>cli_index := 0, cli_insert := 0, cli_argc := argc, cli_argv := argv,
      cli_buffer := replicate (CLI_BUFFER_SIZE + 1) 0, history := cli_histroy_data_save ?line (history cli),
      cli_calls := cli_calls cli @ called T ?line,
      cli_tx := cli_tx cli @ [CR, LF] @ answer xt (called T ?line) @ [CR, LF] @ prompt cli\<rparr>)" (is "_ = Some ?c")
    and av: "length argv = CLI_ARGV_NUM" "argv ! 0 \<in> {None, Some 0}"
    using enter_result [OF inv ok refl False, of xt] by blast
  have h: "prompt cli = cstr ''tuya>''" "hist_inv (history cli)" "list_all entry_ok (hist_lines (history cli))" "echo cli" "entry_ok ?line"
    using inv by (auto elim!: cli_invE simp: entry_ok_def list_all_iff)
  have e: "line_before ?c = []" "line_after ?c = []" by (simp_all add: line_before_def line_after_def)
  have "in_step ?c" by (rule prompt_in_step [of _ "cli_tx cli @ [CR, LF] @ answer xt (called T ?line)"]) (use e h in simp_all)
  moreover have "list_all entry_ok (hist_lines (cli_histroy_data_save ?line (history cli)))"
    using h(3,5) ring_hist.save_lines [OF h(2), of ?line] by (auto simp: list_all_iff dest: in_set_takeD)
  then have "cli_inv ?c"
    using ring_hist.save_inv [OF h(2), of ?line] av h(1,4) by (simp add: cli_inv_def line_ok_def)
  ultimately show ?thesis using r e by blast
qed

section \<open>Completion\<close>

definition cmd_row :: "cli_cmd_t \<Rightarrow> byte list" where
  "cmd_row c =
     (let n = min CLI_CMD_NAME_MAX (length (cname c) mod 256)
      in [CR, LF] @ take n (cname c) @ replicate (CLI_CMD_NAME_MAX - n) SPACE @ [9] @ help_text c)"

lemma print_cmd: "cli_print_cmd c cli = cli_out_put (cmd_row c) cli"
proof -
  have "length (cname c) mod 256 \<le> length (cname c)" by simp
  then show ?thesis by (auto simp: cli_print_cmd_def cmd_row_def Let_def memcpy_at_def out_out min_def)
qed

lemma fold_print_cmd: "fold cli_print_cmd cs cli = cli_out_put (concat (map cmd_row cs)) cli"
  by (induction cs arbitrary: cli) (simp_all add: print_cmd out_out)

lemma print_title: "\<exists>s. \<forall>cli. cli_print_cmd_title cli = cli_out_put s cli"
  unfolding cli_print_cmd_title_def Let_def fold_outs out_out by blast

text \<open>The commands a typed prefix stands for.\<close>

definition candidates :: "cli_tables \<Rightarrow> byte list \<Rightarrow> cli_cmd_t list" where
  "candidates T pre = filter (\<lambda>c. \<exists>rest. cname c = pre @ rest) (static_cmds T @ dynamic_cmds T)"

lemma strncmp_prefix:
  assumes "0 \<notin> set pre" "0 \<notin> set name"
  shows "strncmp_eq (name @ [0]) (pre @ junk) (length pre) \<longleftrightarrow> (\<exists>rest. name = pre @ rest)"
  using assms
proof (induction pre arbitrary: name)
  case (Cons p pre)
  then show ?case by (cases name) auto
qed simp

lemma candidates_hit:
  assumes ok: "cmds_ok T" and inv: "cli_inv cli"
  shows "filter (\<lambda>c. strncmp_eq (cname c @ [0]) (cli_buffer cli) (cli_index cli)) (static_cmds T)
    @ filter (\<lambda>c. strncmp_eq (cname c @ [0]) (cli_buffer cli) (cli_index cli)) (dynamic_cmds T)
    = candidates T (line_before cli @ line_after cli)"
  using inv
proof (rule cli_invE)
  fix x junk
  assume l: "cli_buffer cli = line_before cli @ line_after cli @ x # junk" "cli_index cli = length (line_before cli) + length (line_after cli)"
    "\<forall>c \<in> set (line_before cli @ line_after cli). printable c"
  let ?l = "line_before cli @ line_after cli"
  have hit: "strncmp_eq (cname c @ [0]) (cli_buffer cli) (cli_index cli) \<longleftrightarrow> (\<exists>rest. cname c = ?l @ rest)"
    if "c \<in> set (static_cmds T @ dynamic_cmds T)" for c
  proof -
    have "0 \<notin> set (cname c)" using ok that printable_zero unfolding cmds_ok_def list_all_iff entry_ok_def by blast
    then show ?thesis using strncmp_prefix [OF printable_zero [OF l(3)], of "cname c" "x # junk"] l(1,2) by simp
  qed
  show ?thesis unfolding candidates_def filter_append using hit by (intro arg_cong2 [of _ _ _ _ append] filter_cong) auto
qed

text \<open>After each case the line is printed again, behind a prompt.\<close>

lemma reprinted:
  assumes inv: "cli_inv cli"
  defines "cli' \<equiv> cli_out_put (take (cli_index cli) (cli_buffer cli)) (cli_print_prompt cli)"
  shows "cli_inv cli'" "line_before cli' = line_before cli" "line_after cli' = line_after cli" "history cli' = history cli"
    "cli_calls cli' = cli_calls cli" "prompt cli' = prompt cli"
    "cli_tx cli' = cli_tx cli @ [CR, LF] @ prompt cli @ line_before cli @ line_after cli"
proof -
  have "take (cli_index cli) (cli_buffer cli) = line_before cli @ line_after cli" using inv by (auto elim!: cli_invE)
  then show "cli_tx cli' = cli_tx cli @ [CR, LF] @ prompt cli @ line_before cli @ line_after cli"
    by (simp add: cli'_def cli_print_prompt_def)
  show "cli_inv cli'" using inv by (simp add: cli_inv_def line_ok_def cli'_def cli_print_prompt_def)
qed (simp_all add: cli'_def cli_print_prompt_def line_before_def line_after_def)

definition completes :: "cli_tables \<Rightarrow> cli_t \<Rightarrow> cli_t option \<Rightarrow> bool" where
  "completes T cli r \<longleftrightarrow> (\<exists>cli' out. r = Some cli' \<and> cli_inv cli' \<and> cli_calls cli' = cli_calls cli \<and> history cli' = history cli
    \<and> cli_tx cli' = cli_tx cli @ out @ [CR, LF] @ prompt cli' @ line_before cli' @ line_after cli'
    \<and> (line_before cli', line_after cli') =
        (case candidates T (line_before cli @ line_after cli) of
           [] \<Rightarrow> (line_before cli @ line_after cli, [])
         | [c] \<Rightarrow> (cname c, [])
         | _ \<Rightarrow> (line_before cli, line_after cli)))"

lemma completesI:
  assumes "cli_inv cli1" "cli_calls cli1 = cli_calls cli" "history cli1 = history cli" "cli_tx cli1 = cli_tx cli @ out"
    "(line_before cli1, line_after cli1) =
        (case candidates T (line_before cli @ line_after cli) of
           [] \<Rightarrow> (line_before cli @ line_after cli, [])
         | [c] \<Rightarrow> (cname c, [])
         | _ \<Rightarrow> (line_before cli, line_after cli))"
  shows "completes T cli (Some (cli_out_put (take (cli_index cli1) (cli_buffer cli1)) (cli_print_prompt cli1)))"
  using assms reprinted [OF assms(1)] unfolding completes_def by auto

lemma table_completes:
  assumes inv: "cli_inv cli" and ok: "cmds_ok T" and line: "line_before cli @ line_after cli \<noteq> []"
  shows "completes T cli (cli_table_key T cli)"
  using inv
proof (rule cli_invE)
  let ?l = "line_before cli @ line_after cli"
  fix x junk
  assume l: "cli_buffer cli = line_before cli @ line_after cli @ x # junk" "cli_index cli = length (line_before cli) + length (line_after cli)"
    "length (line_before cli) + length (line_after cli) + length junk = CLI_BUFFER_SIZE"
    "\<forall>c \<in> set (line_before cli @ line_after cli). printable c"
  have n0: "cli_index cli \<noteq> 0" using l(2) line by auto
  note key = cli_table_key_def [of T cli, unfolded if_not_P [OF n0] Let_def candidates_hit [OF ok inv]]
  consider (none) "candidates T ?l = []" | (one) c where "candidates T ?l = [c]" | (more) c d cs where "candidates T ?l = c # d # cs"
    by (metis list.exhaust)
  then show ?thesis
  proof cases
    case none
    let ?c = "cli\<lparr>cli_insert := cli_index cli\<rparr>"
    have "line_ok ?c" "line_before ?c = ?l" "line_after ?c = []"
      using line_okI [of ?c ?l "[]" x junk] l by simp_all
    then have "cli_inv ?c" using inv by (simp add: cli_inv_def)
    then have "completes T cli (Some (cli_out_put (take (cli_index ?c) (cli_buffer ?c)) (cli_print_prompt ?c)))"
      by (rule completesI [of _ _ "[]"]) (use none \<open>line_before ?c = ?l\<close> \<open>line_after ?c = []\<close> in simp_all)
    then show ?thesis using none unfolding key by simp
  next
    case (one c)
    then have "c \<in> set (candidates T ?l)" by simp
    then have nm: "length (cname c) \<le> CLI_BUFFER_SIZE" "\<forall>a \<in> set (cname c). printable a"
      using ok unfolding candidates_def cmds_ok_def list_all_iff entry_ok_def by auto
    have bl: "length (cli_buffer cli) = CLI_BUFFER_SIZE + 1" using l(1,3) by simp
    note sl = set_line_ok [OF nm bl]
    let ?buf = "cname c @ 0 # drop (length (cname c) + 1) (cli_buffer cli)"
    let ?c = "cli\<lparr>cli_buffer := ?buf, cli_index := length (cname c), cli_insert := length (cname c)\<rparr>"
    have k: "line_ok ?c" "line_before ?c = cname c" "line_after ?c = []"
      using line_okI [of ?c "cname c" "[]" 0 "drop (length (cname c) + 1) (cli_buffer cli)"] nm bl by simp_all
    then have "cli_inv ?c" using inv by (simp add: cli_inv_def)
    then have "completes T cli (Some (cli_out_put (take (cli_index ?c) (cli_buffer ?c)) (cli_print_prompt ?c)))"
      by (rule completesI [of _ _ "[]"]) (use one k in simp_all)
    then show ?thesis using one sl unfolding key by simp
  next
    case (more c d cs)
    obtain t where t: "\<And>cli. cli_print_cmd_title cli = cli_out_put t cli" using print_title by blast
    let ?c = "fold cli_print_cmd (candidates T ?l) (cli_print_cmd_title cli)"
    have c: "?c = cli_out_put (t @ concat (map cmd_row (candidates T ?l))) cli" by (simp add: t fold_print_cmd out_out)
    have "cli_inv ?c" using inv by (simp add: c cli_inv_def line_ok_def)
    then have "completes T cli (Some (cli_out_put (take (cli_index ?c) (cli_buffer ?c)) (cli_print_prompt ?c)))"
      by (rule completesI [of _ _ "t @ concat (map cmd_row (candidates T ?l))"]) (use more c in \<open>simp_all add: line_before_def line_after_def\<close>)
    then show ?thesis using more unfolding key by simp
  qed
qed

lemma table_key_step:
  assumes inv: "cli_inv cli" and ok: "cmds_ok T"
  shows "\<exists>cli'. cli_table_key T cli = Some cli' \<and> cli_inv cli'"
proof (cases "cli_index cli = 0")
  case True
  obtain t where "\<And>cli. cli_print_cmd_title cli = cli_out_put t cli" using print_title by blast
  with True inv show ?thesis
    by (simp add: cli_table_key_def cli_print_all_cmd_def fold_print_cmd cli_print_prompt_def cli_inv_def line_ok_def)
next
  case False
  then have "line_before cli @ line_after cli \<noteq> []" using inv by (auto elim!: cli_invE)
  from table_completes [OF inv ok this] show ?thesis by (auto simp: completes_def)
qed

section \<open>The task\<close>

lemma turn_step:
  assumes inv: "cli_inv cli" and ok: "cmds_ok T" and safe: "\<not> (is_backspace k \<and> at_line_start cli)"
  shows "\<exists>cli'. cli_turn xt T (k, ch) cli = Some cli' \<and> cli_inv cli'"
proof -
  consider (enter) "is_enter k" | (tab) "k = CLI_TABLE_KEY" | (edit) "\<not> is_enter k" "k \<noteq> CLI_TABLE_KEY" by blast
  then show ?thesis
  proof cases
    case enter
    then have "cli_turn xt T (k, ch) cli = cli_enter_key xt T cli" by (auto simp: cli_turn_def cli_key_app_def)
    then show ?thesis using enter_step [OF inv ok, of xt] by auto
  next
    case tab
    then show ?thesis using table_key_step [OF inv ok] by (simp add: cli_turn_def cli_key_app_def)
  next
    case edit
    then have "edits (k, ch) cli (cli_turn xt T (k, ch) cli)" using inv safe by (intro turn_edits) auto
    then show ?thesis by (auto simp: edits_def)
  qed
qed

lemma turn_lost_iff:
  assumes "cli_inv cli" "cmds_ok T"
  shows "cli_turn xt T (k, ch) cli = None \<longleftrightarrow> is_backspace k \<and> at_line_start cli"
  using turn_step [OF assms, of k xt ch] backspace_at_start [OF assms(1)]
  by (cases "is_backspace k \<and> at_line_start cli") (auto simp: cli_turn_def cli_key_app_def)

lemma loop_inv:
  "cli_loop xt T bs cli = Some cli' \<Longrightarrow> cli_inv cli \<Longrightarrow> cmds_ok T \<Longrightarrow> cli_inv cli'"
proof (induction xt T bs cli rule: cli_loop.induct)
  case (1 xt T bs cli)
  show ?case
  proof (cases "cli_key_detect CHECK_KEY bs")
    case None
    then show ?thesis using "1.prems" by (simp add: cli_loop.simps)
  next
    case (Some e)
    obtain k ch rest where e: "e = (k, ch, rest)" by (cases e)
    obtain c where c: "cli_turn xt T (k, ch) cli = Some c"
      using "1.prems"(1) Some e by (cases "cli_turn xt T (k, ch) cli") (simp_all add: cli_loop.simps [of xt T bs])
    then have "cli_inv c" using turn_step [OF "1.prems"(2,3), of k xt ch] turn_lost_iff [OF "1.prems"(2,3), of xt k ch] by auto
    moreover have "cli_loop xt T rest c = Some cli'" using "1.prems"(1) Some e c by (simp add: cli_loop.simps [of xt T bs])
    ultimately show ?thesis using "1.IH" [OF Some] e c "1.prems"(3) by blast
  qed
qed

text \<open>The bytes of a key, and the key at which a run of the task is lost.\<close>

lemma detect_consumes:
  "cli_key_detect st bs = Some (k, ch, rest) \<Longrightarrow> \<exists>p. bs = p @ rest \<and> (\<forall>r. cli_key_detect st (p @ r) = Some (k, ch, r))"
proof (induction st bs rule: cli_key_detect.induct)
  case (2 c bs)
  show ?case
  proof (cases "plain_key c = None \<and> c = 27")
    case True
    then obtain p where "bs = p @ rest" "\<forall>r. cli_key_detect CHECK_FUNC_TAG (p @ r) = Some (k, ch, r)" using 2 by auto
    then show ?thesis using True by (intro exI [of _ "c # p"]) auto
  next
    case False
    then show ?thesis using "2.prems" by (intro exI [of _ "[c]"]) (auto split: option.splits if_splits)
  qed
next
  case (3 c bs)
  then obtain p where "bs = p @ rest" "\<forall>r. cli_key_detect (if c = 91 then CHECK_FUNC_KEY else CHECK_KEY) (p @ r) = Some (k, ch, r)" by auto
  then show ?case by (intro exI [of _ "c # p"]) simp
next
  case (4 c bs)
  show ?case
  proof (cases "func_key c")
    case None
    then obtain p where "bs = p @ rest" "\<forall>r. cli_key_detect CHECK_KEY (p @ r) = Some (k, ch, r)" using 4 by auto
    then show ?thesis using None by (intro exI [of _ "c # p"]) simp
  next
    case (Some a)
    then show ?thesis using "4.prems" by (intro exI [of _ "[c]"]) simp
  qed
qed simp

lemma loop_lost:
  assumes "cli_loop xt T bs cli = None" "cli_inv cli" "cmds_ok T"
  shows "\<exists>bs1 bs2 c k ch rest. bs = bs1 @ bs2 \<and> cli_loop xt T bs1 cli = Some c \<and> cli_inv c \<and> at_line_start c
    \<and> cli_key_detect CHECK_KEY bs2 = Some (k, ch, rest) \<and> is_backspace k"
  using assms
proof (induction xt T bs cli rule: cli_loop.induct)
  case (1 xt T bs cli)
  from "1.prems"(1) obtain k ch rest where d: "cli_key_detect CHECK_KEY bs = Some (k, ch, rest)"
    by (cases "cli_key_detect CHECK_KEY bs") (auto simp: cli_loop.simps [of xt T bs])
  then obtain p where p: "bs = p @ rest" "\<And>r. cli_key_detect CHECK_KEY (p @ r) = Some (k, ch, r)" using detect_consumes by blast
  show ?case
  proof (cases "cli_turn xt T (k, ch) cli")
    case None
    then have "is_backspace k \<and> at_line_start cli" using turn_lost_iff [OF "1.prems"(2,3)] by blast
    then show ?thesis using d "1.prems"(2)
      by (intro exI [of _ "[]"] exI [of _ bs] exI [of _ cli] exI [of _ k] exI [of _ ch] exI [of _ rest]) (simp add: cli_loop.simps [of xt T "[]"])
  next
    case (Some c1)
    then have "cli_inv c1" using turn_step [OF "1.prems"(2,3), of k xt ch] turn_lost_iff [OF "1.prems"(2,3), of xt k ch] by auto
    moreover have "cli_loop xt T rest c1 = None" using "1.prems"(1) d Some by (simp add: cli_loop.simps [of xt T bs])
    ultimately obtain bs1 bs2 c k' ch' rest' where r: "rest = bs1 @ bs2" "cli_loop xt T bs1 c1 = Some c" "cli_inv c" "at_line_start c"
      "cli_key_detect CHECK_KEY bs2 = Some (k', ch', rest')" "is_backspace k'" using "1.IH" [OF d refl refl Some] "1.prems"(3) by blast
    have "cli_loop xt T (p @ bs1) cli = Some c" using p(2) [of bs1] Some r(2) by (simp add: cli_loop.simps [of xt T "p @ bs1"])
    then show ?thesis using p(1) r by (intro exI [of _ "p @ bs1"] exI [of _ bs2]) auto
  qed
qed

text \<open>Typing.\<close>

definition typable :: "byte \<Rightarrow> bool" where
  "typable c \<longleftrightarrow> 32 \<le> c \<and> c < 127"

lemma typable_facts:
  assumes "typable c"
  shows "cli_key_detect CHECK_KEY (c # rest) = Some (CLI_NULL_KEY, c, rest)" "printable c"
proof -
  have "c \<noteq> CR" "c \<noteq> LF" "c \<noteq> BS" "c \<noteq> 127" "c \<noteq> 9" "c \<noteq> 27" using assms by (auto simp: typable_def)
  then show "cli_key_detect CHECK_KEY (c # rest) = Some (CLI_NULL_KEY, c, rest)" by (simp add: plain_key_def)
  show "printable c" using assms by (auto simp: typable_def printable_def)
qed

lemma char_history: "cli_char c cli = Some cli' \<Longrightarrow> history cli' = history cli"
  by (auto simp: cli_char_def Let_def split: if_splits option.splits)

lemma loop_typing:
  assumes "cli_inv cli" "\<forall>c \<in> set s. typable c" "length (line_before cli) + length (line_after cli) + length s \<le> CLI_BUFFER_SIZE"
  shows "\<exists>cli'. cli_loop xt T (s @ rest) cli = cli_loop xt T rest cli' \<and> cli_inv cli' \<and> line_before cli' = line_before cli @ s
    \<and> line_after cli' = line_after cli \<and> history cli' = history cli \<and> cli_calls cli' = cli_calls cli"
  using assms
proof (induction s arbitrary: cli)
  case (Cons c s)
  have c: "cli_key_detect CHECK_KEY (c # s @ rest) = Some (CLI_NULL_KEY, c, s @ rest)" "printable c"
    using Cons.prems(2) typable_facts by simp_all
  obtain c1 where c1: "cli_char c cli = Some c1" "cli_inv c1" "line_before c1 = line_before cli @ [c]" "line_after c1 = line_after cli"
    "cli_calls c1 = cli_calls cli"
    using char_edits [OF Cons.prems(1), of c] Cons.prems(3) c(2) by (auto simp: edits_def editor_of_def)
  note h = char_history [OF c1(1)]
  have "cli_loop xt T ((c # s) @ rest) cli = cli_loop xt T (s @ rest) c1"
    using c(1) c1(1) by (simp add: cli_loop.simps [of xt T "c # s @ rest"] cli_turn_def)
  then show ?case using Cons.IH [of c1] Cons.prems c1 h by auto
qed auto

definition typed_line :: "byte list \<Rightarrow> bool" where
  "typed_line l \<longleftrightarrow> l \<noteq> [] \<and> length l \<le> CLI_BUFFER_SIZE \<and> list_all typable l"

lemma loop_line:
  assumes inv: "cli_inv cli" and ok: "cmds_ok T" and empty: "line_before cli = []" "line_after cli = []" and l: "typed_line l"
  shows "\<exists>cli'. cli_loop xt T (l @ CR # rest) cli = cli_loop xt T rest cli' \<and> cli_inv cli' \<and> in_step cli' \<and> line_before cli' = []
    \<and> line_after cli' = [] \<and> history cli' = cli_histroy_data_save l (history cli) \<and> cli_calls cli' = cli_calls cli @ called T l"
proof -
  obtain c1 where c1: "cli_loop xt T (l @ CR # rest) cli = cli_loop xt T (CR # rest) c1" "cli_inv c1"
    "line_before c1 @ line_after c1 = l" "history c1 = history cli" "cli_calls c1 = cli_calls cli"
    using loop_typing [OF inv, of l xt T "CR # rest"] l empty by (auto simp: typed_line_def list_all_iff)
  have "l \<noteq> []" using l by (simp add: typed_line_def)
  from enter_result [OF c1(2) ok c1(3) this, of xt] enter_step [OF c1(2) ok, of xt]
  obtain c2 where c2: "cli_enter_key xt T c1 = Some c2" "cli_inv c2" "in_step c2" "line_before c2 = []" "line_after c2 = []"
    "history c2 = cli_histroy_data_save l (history c1)" "cli_calls c2 = cli_calls c1 @ called T l" by auto
  have "cli_loop xt T (CR # rest) c1 = cli_loop xt T rest c2"
    using c2(1) by (simp add: cli_loop.simps [of xt T "CR # rest"] plain_key_def cli_turn_def cli_key_app_def)
  with c1 c2 show ?thesis by auto
qed

lemma loop_lines:
  assumes "cli_inv cli" "cmds_ok T" "line_before cli = []" "line_after cli = []" "in_step cli" "\<forall>l \<in> set ls. typed_line l"
  shows "\<exists>cli'. cli_loop xt T (concat (map (\<lambda>l. l @ [CR]) ls) @ rest) cli = cli_loop xt T rest cli' \<and> cli_inv cli' \<and> in_step cli'
    \<and> line_before cli' = [] \<and> line_after cli' = [] \<and> history cli' = fold cli_histroy_data_save ls (history cli)
    \<and> cli_calls cli' = cli_calls cli @ concat (map (called T) ls)"
  using assms
proof (induction ls arbitrary: cli)
  case (Cons l ls)
  obtain c where "cli_loop xt T (l @ CR # concat (map (\<lambda>l. l @ [CR]) ls) @ rest) cli = cli_loop xt T (concat (map (\<lambda>l. l @ [CR]) ls) @ rest) c"
    "cli_inv c" "in_step c" "line_before c = []" "line_after c = []"
    "history c = cli_histroy_data_save l (history cli)" "cli_calls c = cli_calls cli @ called T l"
    using loop_line [OF Cons.prems(1-4), of l xt] Cons.prems(6) by auto
  then show ?case using Cons.IH [of c] Cons.prems(2,6) by auto
qed auto

abbreviation UP :: "byte list" where "UP \<equiv> [27, 91, 65]"

lemma loop_up:
  assumes "cli_inv cli" "in_step cli"
  shows "\<exists>cli'. cli_loop xt T (UP @ rest) cli = cli_loop xt T rest cli' \<and> cli_inv cli' \<and> in_step cli'
    \<and> editor_of cli' = edit_spec (CLI_UP_KEY, 65) (editor_of cli) \<and> cli_calls cli' = cli_calls cli"
proof -
  obtain c where "cli_up_key cli = Some c" "cli_inv c" "in_step c" "editor_of c = edit_spec (CLI_UP_KEY, 65) (editor_of cli)" "cli_calls c = cli_calls cli"
    using up_edits [OF assms(1), of 65] assms(2) by (auto simp: edits_def)
  then show ?thesis
    by (intro exI [of _ c]) (simp add: cli_loop.simps [of xt T "27 # _"] plain_key_def func_key_def cli_turn_def cli_key_app_def)
qed

lemma loop_ups:
  assumes "cli_inv cli" "in_step cli"
  shows "\<exists>cli'. cli_loop xt T (concat (replicate n UP) @ rest) cli = cli_loop xt T rest cli' \<and> cli_inv cli' \<and> in_step cli'
    \<and> editor_of cli' = (edit_spec (CLI_UP_KEY, 65) ^^ n) (editor_of cli) \<and> cli_calls cli' = cli_calls cli"
  using assms
proof (induction n arbitrary: cli)
  case (Suc n)
  obtain c where "cli_loop xt T (UP @ concat (replicate n UP) @ rest) cli = cli_loop xt T (concat (replicate n UP) @ rest) c"
    "cli_inv c" "in_step c" "editor_of c = edit_spec (CLI_UP_KEY, 65) (editor_of cli)" "cli_calls c = cli_calls cli"
    using loop_up [OF Suc.prems, of xt T] by blast
  then show ?case using Suc.IH [of c] by (auto simp: funpow_swap1)
qed auto

lemma ups_spec: "k \<le> length ls \<Longrightarrow> (edit_spec (CLI_UP_KEY, ch) ^^ k) (b, a, ls, 0) = (if k = 0 then (b, a, ls, 0) else (ls ! (k - 1), [], ls, k))"
  by (induction k) auto

text \<open>The state in which the task starts to read.\<close>

definition cli_ready :: cli_t where
  "cli_ready = cli_zero\<lparr>prompt := cstr ''tuya>'', echo := True, cli_tx := [CR, LF] @ cstr ''tuya>''\<rparr>"

lemma task_ready: "cli_task xt T bs cli_zero = cli_loop xt T bs cli_ready"
  by (simp add: cli_task_def cli_ready_def cli_zero_def cli_print_prompt_def cli_out_put_def)

lemma ready_ok: "cli_inv cli_ready" "in_step cli_ready" "line_before cli_ready = []" "line_after cli_ready = []"
  "history cli_ready = cli_history0" "cli_calls cli_ready = []"
proof -
  show e: "line_before cli_ready = []" "line_after cli_ready = []" "history cli_ready = cli_history0" "cli_calls cli_ready = []"
    by (simp_all add: line_before_def line_after_def cli_ready_def cli_zero_def)
  show "cli_inv cli_ready"
    using hist_inv0 by (simp add: cli_inv_def line_ok_def cli_ready_def cli_zero_def)
  show "in_step cli_ready" by (rule prompt_in_step [of _ "[]"]) (simp_all add: e, simp_all add: cli_ready_def)
qed

section \<open>Registration\<close>

lemma first_free_rows:
  "first_free r rows = Some rows' \<Longrightarrow> \<exists>xs x ys. rows = xs @ x # ys \<and> rows' = xs @ r # ys \<and> cmd x = None \<and> list_all (\<lambda>y. cmd y \<noteq> None) xs"
proof (induction rows arbitrary: rows')
  case (Cons x rows)
  show ?case
  proof (cases "cmd x = None")
    case True
    then show ?thesis using Cons.prems by (intro exI [of _ "[]"]) auto
  next
    case False
    then obtain ys where "first_free r rows = Some ys" "rows' = x # ys" using Cons.prems by (auto split: option.splits)
    moreover from this(1) obtain xs z zs where "rows = xs @ z # zs" "ys = xs @ r # zs" "cmd z = None" "list_all (\<lambda>y. cmd y \<noteq> None) xs"
      using Cons.IH by blast
    ultimately show ?thesis using False by (intro exI [of _ "x # xs"]) auto
  qed
qed simp

text \<open>Registering adds exactly the commands of the row, and a failed registration nothing.\<close>

lemma register_cmds:
  assumes "tal_cli_cmd_register m cs n T = (T', ret)"
  shows "set (static_cmds T' @ dynamic_cmds T') = set (static_cmds T @ dynamic_cmds T)
    \<union> (if ret = OPRT_OK then set (row_cmds \<lparr>num = n, cmd = cs\<rparr>) else {})"
proof (cases "first_free \<lparr>num = n, cmd = cs\<rparr> (s_cli_static_table T)")
  case None
  then show ?thesis using assms
    by (auto simp: tal_cli_cmd_register_def cli_cmd_register_def Let_def static_cmds_def dynamic_cmds_def split: if_splits)
next
  case (Some rows)
  obtain xs x ys where "s_cli_static_table T = xs @ x # ys" "rows = xs @ \<lparr>num = n, cmd = cs\<rparr> # ys" "row_cmds x = []"
    using first_free_rows [OF Some] by (auto simp: row_cmds_def)
  with Some show ?thesis using assms
    by (auto simp: tal_cli_cmd_register_def cli_cmd_register_def Let_def static_cmds_def dynamic_cmds_def split: if_splits)
qed

section \<open>Properties\<close>

text \<open>An editor state with a given line, for the concrete instances.\<close>

definition cli_with :: "byte list \<Rightarrow> byte list \<Rightarrow> cli_t" where
  "cli_with b a = cli_ready\<lparr>cli_buffer := b @ a @ replicate (CLI_BUFFER_SIZE + 1 - length b - length a) 0, cli_insert := length b,
     cli_index := length b + length a\<rparr>"

lemma cli_with_ok:
  assumes "length b + length a \<le> CLI_BUFFER_SIZE" "\<forall>c \<in> set (b @ a). printable c"
  shows "cli_inv (cli_with b a)" "line_before (cli_with b a) = b" "line_after (cli_with b a) = a"
proof -
  have "CLI_BUFFER_SIZE + 1 - length b - length a = Suc (CLI_BUFFER_SIZE - length b - length a)" using assms(1) by simp
  then have "cli_buffer (cli_with b a) = b @ a @ 0 # replicate (CLI_BUFFER_SIZE - length b - length a) 0" by (simp add: cli_with_def)
  from line_okI [OF this] assms show "cli_inv (cli_with b a)" "line_before (cli_with b a) = b" "line_after (cli_with b a) = a"
    using ready_ok(1) by (simp_all add: cli_inv_def) (simp_all add: cli_with_def)
qed

definition tables_hello :: cli_tables where
  "tables_hello = \<lparr>s_cli_static_table = [\<lparr>num = 1, cmd = Some s_cli_cmd\<rparr>,
      \<lparr>num = 1, cmd = Some [\<lparr>cname = cstr ''help'', help_text = [], func = EXT 0\<rparr>]\<rparr>], s_cli_dynamic_table = []\<rparr>"

lemma tables_hello_cmds:
  "static_cmds tables_hello = [\<lparr>cname = [104, 101, 108, 108, 111], help_text = cstr ''print helo world'', func = CLI_HELLO\<rparr>,
     \<lparr>cname = [104, 101, 108, 112], help_text = [], func = EXT 0\<rparr>]" "dynamic_cmds tables_hello = []"
  by (simp_all add: tables_hello_def static_cmds_def dynamic_cmds_def row_cmds_def s_cli_cmd_def cstr_def)

lemma tables_hello_ok: "cmds_ok tables_hello"
  by (simp add: cmds_ok_def tables_hello_cmds entry_ok_def printable_def)

text \<open>
  C38. The task keeps its state well formed whatever bytes arrive, until the one key that it does not survive. For every input, either the task
  has consumed it and its state is well formed: the two positions stay inside the line, the line inside its 1001-byte buffer, the history is a ring of at most
  eight printable lines that fit the buffer, and the argument array keeps its size and never holds a pointer outside the buffer in its first place. Or
  the task has left the line buffer, and then at a backspace that arrived when the cursor was at the start of a line that was not empty, in a state that was well formed before it.
\<close>

theorem cli_task_well_formed:
  assumes "cmds_ok T"
  shows "case cli_task xt T bs cli_zero of
      Some cli \<Rightarrow> cli_inv cli
    | None \<Rightarrow> \<exists>bs1 bs2 cli k ch rest. bs = bs1 @ bs2 \<and> cli_task xt T bs1 cli_zero = Some cli \<and> cli_inv cli
        \<and> line_before cli = [] \<and> line_after cli \<noteq> [] \<and> cli_key_detect CHECK_KEY bs2 = Some (k, ch, rest) \<and> is_backspace k"
proof (cases "cli_loop xt T bs cli_ready")
  case None
  then show ?thesis using loop_lost [OF None ready_ok(1) assms] by (simp add: task_ready at_line_start_def)
next
  case (Some cli)
  then show ?thesis using loop_inv [OF Some ready_ok(1) assms] by (simp add: task_ready)
qed

text \<open>
  The letter a, the left arrow and a letter b are a run that is survived, and its line is \<^verbatim>\<open>ba\<close>; with a backspace for the b the run is lost.
\<close>

lemma task_demo:
  "\<exists>cli. cli_task (\<lambda>i args. []) tables_hello [97, 27, 91, 68, 98] cli_zero = Some cli"
  "cli_task (\<lambda>i args. []) tables_hello [97, 27, 91, 68, 8] cli_zero = None"
proof -
  let ?turn = "cli_turn (\<lambda>i args. []) tables_hello" and ?loop = "cli_loop (\<lambda>i args. []) tables_hello"
  obtain c1 where c1: "?turn (CLI_NULL_KEY, 97) cli_ready = Some c1" "cli_inv c1" "line_before c1 = [97]" "line_after c1 = []"
    using turn_edits [OF ready_ok(1), of CLI_NULL_KEY 97 "\<lambda>i args. []" tables_hello] ready_ok(3,4) by (auto simp: edits_def editor_of_def printable_def)
  obtain c2 where c2: "?turn (CLI_LETF_KEY, 68) c1 = Some c2" "cli_inv c2" "line_before c2 = []" "line_after c2 = [97]"
    using turn_edits [OF c1(2), of CLI_LETF_KEY 68 "\<lambda>i args. []" tables_hello] c1(3,4) by (auto simp: edits_def editor_of_def)
  obtain c3 where c3: "?turn (CLI_NULL_KEY, 98) c2 = Some c3"
    using turn_edits [OF c2(2), of CLI_NULL_KEY 98 "\<lambda>i args. []" tables_hello] by (auto simp: edits_def)
  have n: "?turn (CLI_BACKSPACE_KEY, 8) c2 = None"
    using turn_lost_iff [OF c2(2) tables_hello_ok] c2(3,4) by (simp add: at_line_start_def)
  have "?loop (97 # 27 # 91 # 68 # bs) cli_ready = ?loop bs c2" for bs
    using c1(1) c2(1) by (simp add: cli_loop.simps [of _ _ "97 # _"] cli_loop.simps [of _ _ "27 # _"] plain_key_def func_key_def)
  then show "\<exists>cli. cli_task (\<lambda>i args. []) tables_hello [97, 27, 91, 68, 98] cli_zero = Some cli"
    "cli_task (\<lambda>i args. []) tables_hello [97, 27, 91, 68, 8] cli_zero = None"
    using c3 n by (simp_all add: task_ready cli_loop.simps [of _ _ "[98]"] cli_loop.simps [of _ _ "[8]"] cli_loop.simps [of _ _ "[]"] plain_key_def)
qed

theorem cli_task_well_formed_witness:
  "(\<exists>cli. cli_task (\<lambda>i args. []) tables_hello [97, 27, 91, 68, 98] cli_zero = Some cli \<and> cli_inv cli)
   \<and> (\<exists>bs1 bs2. [97, 27, 91, 68, 8] = bs1 @ bs2 \<and> (\<exists>cli. cli_task (\<lambda>i args. []) tables_hello bs1 cli_zero = Some cli \<and> line_before cli = [] \<and> line_after cli \<noteq> []))"
  using cli_task_well_formed [OF tables_hello_ok, of "[97, 27, 91, 68, 98]" "\<lambda>i args. []"]
    cli_task_well_formed [OF tables_hello_ok, of "[97, 27, 91, 68, 8]" "\<lambda>i args. []"] task_demo by auto

text \<open>
  A turn of the task fails, by an access outside the line buffer, in exactly one situation: the backspace key
  when the cursor is at the start of a line that is not empty. The insert position, 16 bits wide, wraps from 0 to 65535.
\<close>

theorem cli_turn_fails_iff:
  assumes "cli_inv cli" "cmds_ok T"
  shows "cli_turn xt T (k, ch) cli = None \<longleftrightarrow> is_backspace k \<and> line_before cli = [] \<and> line_after cli \<noteq> []"
  using turn_lost_iff [OF assms] by (simp add: at_line_start_def)

theorem cli_turn_fails_iff_witness:
  "cli_turn (\<lambda>i args. []) tables_hello (CLI_BACKSPACE_KEY, 8) (cli_with [] [97]) = None"
  using cli_turn_fails_iff [OF cli_with_ok(1) tables_hello_ok, of "[]" "[97]" "\<lambda>i args. []" CLI_BACKSPACE_KEY 8] cli_with_ok [of "[]" "[97]"]
  by (simp add: printable_def)

text \<open>
  C4. Every editing key, a character, an arrow, a history key or backspace, does to the buffer what the specification does to a line cut at the cursor, and
  the bytes it sends keep the terminal in step: after the key the screen shows the prompt and the line, and the cursor stands at the
  insert position. The one exception is backspace at the start of a line that is not empty: there the insert position wraps around and the key moves bytes outside the buffer.
\<close>

theorem edit_keys_refine:
  assumes "cli_inv cli" "in_step cli" "\<not> is_enter k" "k \<noteq> CLI_TABLE_KEY"
  shows "if is_backspace k \<and> line_before cli = [] \<and> line_after cli \<noteq> [] then cli_turn xt T (k, ch) cli = None
    else \<exists>cli'. cli_turn xt T (k, ch) cli = Some cli' \<and> cli_inv cli' \<and> in_step cli'
      \<and> editor_of cli' = edit_spec (k, ch) (editor_of cli)"
proof (cases "is_backspace k \<and> at_line_start cli")
  case True
  then have "cli_turn xt T (k, ch) cli = None" using backspace_at_start [OF assms(1)] by (auto simp: cli_turn_def cli_key_app_def)
  then show ?thesis using True by (simp add: at_line_start_def)
next
  case False
  then have "edits (k, ch) cli (cli_turn xt T (k, ch) cli)" using assms by (intro turn_edits) auto
  then show ?thesis using assms(2) False by (auto simp: edits_def at_line_start_def)
qed

theorem edit_keys_refine_witness:
  "(\<exists>cli'. cli_turn (\<lambda>i args. []) tables_hello (CLI_NULL_KEY, 97) cli_ready = Some cli' \<and> in_step cli' \<and> line_before cli' = [97])"
  using edit_keys_refine [OF ready_ok(1,2), of CLI_NULL_KEY "\<lambda>i args. []" tables_hello 97] ready_ok
  by (auto simp: editor_of_def printable_def)

text \<open>
  Enter on a line that is not empty calls the first registered command whose name is the first word of the line, with the first
  eight words, or prints that there is none; the line goes to the history, a fresh prompt is on the screen and the line is empty.
\<close>

theorem enter_runs_command:
  assumes "cli_inv cli" "cmds_ok T" "line_before cli @ line_after cli = line" "line \<noteq> []"
  shows "\<exists>cli'. cli_enter_key xt T cli = Some cli' \<and> cli_calls cli' = cli_calls cli @ called T line
    \<and> cli_tx cli' = cli_tx cli @ [CR, LF] @ answer xt (called T line) @ [CR, LF] @ prompt cli
    \<and> history cli' = cli_histroy_data_save line (history cli)
    \<and> cli_inv cli' \<and> in_step cli' \<and> line_before cli' = [] \<and> line_after cli' = []"
  using enter_result [OF assms, of xt] enter_step [OF assms(1,2), of xt] by auto

theorem enter_runs_command_witness:
  "\<exists>cli'. cli_enter_key (\<lambda>i args. []) tables_hello (cli_with [32, 104, 101, 108, 112] [32, 120]) = Some cli'
    \<and> cli_calls cli' = [(EXT 0, [[104, 101, 108, 112], [120]])]"
proof -
  have ok: "cli_inv (cli_with [32, 104, 101, 108, 112] [32, 120])"
    "line_before (cli_with [32, 104, 101, 108, 112] [32, 120]) @ line_after (cli_with [32, 104, 101, 108, 112] [32, 120]) = [32, 104, 101, 108, 112, 32, 120]"
    using cli_with_ok [of "[32, 104, 101, 108, 112]" "[32, 120]"] by (simp_all add: printable_def)
  have "called tables_hello [32, 104, 101, 108, 112, 32, 120] = [(EXT 0, [[104, 101, 108, 112], [120]])]"
    by (simp add: called_def line_words_def tables_hello_cmds)
  then show ?thesis
    using enter_runs_command [OF ok(1) tables_hello_ok ok(2), of "\<lambda>i args. []"] ready_ok(6) by (auto simp: cli_with_def)
qed

text \<open>
  C5. From the start of the task: lines are typed and entered, and then the up key is pressed. Every line is executed once each time it is entered, in order. The history keeps a line
  that is entered several times in a row once; of the lines so kept, the k-th press brings the k-th newest back to the editor and the screen, for the eight newest.
\<close>

theorem lines_recalled:
  assumes "cmds_ok T" "\<forall>l \<in> set ls. typed_line l" "0 < k" "k \<le> length (remdups_adj ls)" "k \<le> CLI_HISTORY_NUM"
  shows "\<exists>cli. cli_task xt T (concat (map (\<lambda>l. l @ [CR]) ls) @ concat (replicate k UP)) cli_zero = Some cli
    \<and> cli_calls cli = concat (map (called T) ls) \<and> line_before cli = remdups_adj ls ! (length (remdups_adj ls) - k) \<and> line_after cli = [] \<and> in_step cli"
proof -
  obtain c where c: "cli_loop xt T (concat (map (\<lambda>l. l @ [CR]) ls) @ concat (replicate k UP)) cli_ready = cli_loop xt T (concat (replicate k UP)) c"
    "cli_inv c" "in_step c" "line_before c = []" "line_after c = []" "history c = fold cli_histroy_data_save ls cli_history0"
    "cli_calls c = concat (map (called T) ls)"
    using loop_lines [OF ready_ok(1) assms(1) ready_ok(3,4,2) assms(2), of xt "concat (replicate k UP)"] ready_ok(5,6) by auto
  have h: "hist_lines (history c) = take CLI_HISTORY_NUM (rev (remdups_adj ls))"
    using ring_hist.save_all [OF hist_inv0, of ls] c(6) by auto
  have "ls \<noteq> []" using assms(3,4) by auto
  then obtain l0 ls0 where "ls = ls0 @ [l0]" by (cases ls rule: rev_cases) auto
  then have r: "hist_recalled (history c) = 0"
    using ring_hist.save_recalled [of "fold cli_histroy_data_save ls0 cli_history0" l0]
      ring_hist.save_all_inv [OF hist_inv0(1), of ls0] c(6) by simp
  obtain d where d: "cli_loop xt T (concat (replicate k UP) @ []) c = cli_loop xt T [] d" "in_step d" "cli_calls d = cli_calls c"
    "editor_of d = (edit_spec (CLI_UP_KEY, 65) ^^ k) (editor_of c)"
    using loop_ups [OF c(2,3), of xt T k "[]"] by blast
  have "editor_of d = (rev (remdups_adj ls) ! (k - 1), [], take CLI_HISTORY_NUM (rev (remdups_adj ls)), k)"
    using ups_spec [of k "take CLI_HISTORY_NUM (rev (remdups_adj ls))" 65 "[]" "[]"] assms(3-5) d(4) by (simp add: editor_of_def c(4,5) h r)
  moreover have "rev (remdups_adj ls) ! (k - 1) = remdups_adj ls ! (length (remdups_adj ls) - k)" using assms(3,4) by (simp add: rev_nth)
  ultimately show ?thesis using c(1,7) d by (auto simp: task_ready editor_of_def cli_loop.simps [of xt T "[]"])
qed

text \<open>The line \<^verbatim>\<open>hello\<close>, and the line \<^verbatim>\<open>a\<close> twice; the second press brings \<^verbatim>\<open>hello\<close> back.\<close>

theorem lines_recalled_witness:
  "\<exists>cli. cli_task (\<lambda>i args. []) tables_hello (concat (map (\<lambda>l. l @ [CR]) [[104, 101, 108, 108, 111], [97], [97]]) @ concat (replicate 2 UP)) cli_zero = Some cli
    \<and> cli_calls cli = [(CLI_HELLO, [[104, 101, 108, 108, 111]])] \<and> line_before cli = [104, 101, 108, 108, 111]"
  using lines_recalled [OF tables_hello_ok, of "[[104, 101, 108, 108, 111], [97], [97]]" 2 "\<lambda>i args. []"]
  by (simp add: typed_line_def typable_def called_def line_words_def tables_hello_cmds) blast

text \<open>
  The completion key on a prefix: with no candidate the cursor goes to the end of the line, with one the line becomes its
  name, with several the line is kept; nothing is executed and the history is kept. In the first two cases the
  screen shows the line with the cursor at its end.
\<close>

theorem completion_key:
  assumes "cli_inv cli" "cmds_ok T" "line_before cli @ line_after cli = line" "line \<noteq> []"
  shows "\<exists>cli'. cli_table_key T cli = Some cli' \<and> cli_inv cli' \<and> cli_calls cli' = cli_calls cli \<and> history cli' = history cli
    \<and> (line_before cli', line_after cli') =
        (case candidates T line of [] \<Rightarrow> (line, []) | [c] \<Rightarrow> (cname c, []) | _ \<Rightarrow> (line_before cli, line_after cli))
    \<and> (length (candidates T line) \<le> 1 \<longrightarrow> in_step cli')"
proof -
  obtain c out where c: "cli_table_key T cli = Some c" "cli_inv c" "cli_calls c = cli_calls cli" "history c = history cli"
    "cli_tx c = cli_tx cli @ out @ [CR, LF] @ prompt c @ line_before c @ line_after c"
    "(line_before c, line_after c) =
        (case candidates T line of [] \<Rightarrow> (line, []) | [c] \<Rightarrow> (cname c, []) | _ \<Rightarrow> (line_before cli, line_after cli))"
    using table_completes [OF assms(1,2)] assms(3,4) unfolding completes_def by auto
  have g: "\<forall>c \<in> set (line_before c). glyph c" "prompt c = cstr ''tuya>''"
    using c(2) printable_facts(1) by (auto elim!: cli_invE)
  have "in_step c" if "length (candidates T line) \<le> 1"
  proof -
    have "line_after c = []" using c(6) that by (auto split: list.splits)
    then show ?thesis using prompt_in_step [of c "cli_tx cli @ out"] c(5) g by simp
  qed
  with c show ?thesis by blast
qed

theorem completion_key_witness:
  "\<exists>cli'. cli_table_key tables_hello (cli_with [104, 101, 108] [108]) = Some cli' \<and> line_before cli' = [104, 101, 108, 108, 111]"
proof -
  have ok: "cli_inv (cli_with [104, 101, 108] [108])"
    "line_before (cli_with [104, 101, 108] [108]) @ line_after (cli_with [104, 101, 108] [108]) = [104, 101, 108, 108]"
    using cli_with_ok [of "[104, 101, 108]" "[108]"] by (simp_all add: printable_def)
  show ?thesis using completion_key [OF ok(1) tables_hello_ok ok(2)]
    by (auto simp: candidates_def tables_hello_cmds)
qed

text \<open>
  With several candidates and the cursor before the end of the line, the key leaves the editor and the screen out of step: the
  line is printed again with the cursor of the terminal at its end, and the insert position stays where it was.
\<close>

theorem completion_many_out_of_step:
  assumes "cli_inv cli" "cmds_ok T" "2 \<le> length (candidates T (line_before cli @ line_after cli))" "line_after cli \<noteq> []"
  shows "\<exists>cli'. cli_table_key T cli = Some cli' \<and> line_after cli' \<noteq> [] \<and> \<not> in_step cli'"
proof -
  let ?l = "line_before cli @ line_after cli"
  obtain c1 c2 cs where m: "candidates T ?l = c1 # c2 # cs"
    using assms(3) by (cases "candidates T ?l" rule: remdups_adj.cases) auto
  obtain c out where c: "cli_table_key T cli = Some c" "cli_inv c"
    "cli_tx c = (cli_tx cli @ out) @ [CR, LF] @ prompt c @ ?l" "line_before c = line_before cli" "line_after c = line_after cli"
    using table_completes [OF assms(1,2)] assms(4) m unfolding completes_def by auto
  have "\<forall>c \<in> set (prompt c @ ?l). glyph c"
    using c(2,4,5) prompt_glyph printable_facts(1) by (auto elim!: cli_invE)
  then have "screen c = (prompt c @ ?l, length (prompt c @ ?l))"
    unfolding screen_def c(3) term_show_append(1) [of "cli_tx cli @ out"] term_show_append(1) [of "[CR, LF]"] term_newline by (rule term_line)
  then have "\<not> in_step c" using assms(4) c(4,5) by (simp add: in_step_iff)
  with c(1,5) assms(4) show ?thesis by auto
qed

theorem completion_many_out_of_step_witness:
  "\<exists>cli'. cli_table_key tables_hello (cli_with [104] [101]) = Some cli' \<and> \<not> in_step cli'"
proof -
  have ok: "cli_inv (cli_with [104] [101])" "line_before (cli_with [104] [101]) = [104]" "line_after (cli_with [104] [101]) = [101]"
    using cli_with_ok [of "[104]" "[101]"] by (simp_all add: printable_def)
  show ?thesis using completion_many_out_of_step [OF ok(1) tables_hello_ok] ok
    by (auto simp: candidates_def tables_hello_cmds)
qed

end
