(* ===== verification/Uart.thy ===== *)
theory Uart
  imports RingBuf "HOL-Library.Sublist"
begin

text \<open>
  The serial port driver \<^verbatim>\<open>src/tal_driver/src/tal_uart.c\<close>, in the configuration without asynchronous writes. A device
  keeps the ring buffer between the receive interrupt and the reader, a flag by which the reader asks to be
  woken, and a binary semaphore on which it waits. The calls of the platform (allocation, semaphores, the hardware) are
  arguments that give their results. Reader and interrupt run concurrently: \<open>uart_step\<close> interleaves the interrupt handler
  with the single actions of a blocking read, each ring buffer call and each assignment being one action.
\<close>

section \<open>Model\<close>

abbreviation O_BLOCK :: u32 where "O_BLOCK \<equiv> 1"
abbreviation O_ASYNC_WRITE :: u32 where "O_ASYNC_WRITE \<equiv> 2"

record uart_dev =
  port_num :: nat
  open_mode :: u32
  rx_ring :: "ringbuff option"
  wait_rx_flag :: bool
  rx_block_sem :: nat

record uart_list =
  uart_mutex :: bool
  uart_nodes :: "uart_dev list"

definition uart_list_get_one_node :: "nat \<Rightarrow> uart_list \<Rightarrow> uart_dev option" where
  "uart_list_get_one_node port L = find (\<lambda>d. port_num d = port) (uart_nodes L)"

definition uart_list_add_one_node :: "operate_ret \<Rightarrow> uart_dev \<Rightarrow> uart_list \<Rightarrow> uart_list \<times> operate_ret" where
  "uart_list_add_one_node lock d L =
     (if lock \<noteq> OPRT_OK then (L, lock) else (L\<lparr>uart_nodes := d # uart_nodes L\<rparr>, OPRT_OK))"

definition uart_list_delete_one_node :: "operate_ret \<Rightarrow> uart_dev \<Rightarrow> uart_list \<Rightarrow> uart_list \<times> operate_ret" where
  "uart_list_delete_one_node lock d L =
     (if lock \<noteq> OPRT_OK then (L, lock) else (L\<lparr>uart_nodes := remove1 d (uart_nodes L)\<rparr>, OPRT_OK))"

text \<open>The hardware holds the bytes \<open>hw\<close>; the loop moves them to the ring until it refuses one. On Linux it moves one.\<close>

fun rx_loop :: "bool \<Rightarrow> byte list \<Rightarrow> ringbuff option \<Rightarrow> nat \<Rightarrow> byte list \<times> ringbuff option \<times> nat" where
  "rx_loop linux [] ring rx_bytes = ([], ring, rx_bytes)"
| "rx_loop linux (c # hw) ring rx_bytes =
     (let (ring', ret) = tuya_ring_buff_write ring (Some [c]) 1
      in if ret \<noteq> 1 then (hw, ring', rx_bytes)
         else if linux then (hw, ring', rx_bytes + 1)
         else rx_loop linux hw ring' (rx_bytes + 1))"

text \<open>A semaphore of maximum one: a post on a set semaphore fails and changes nothing.\<close>

definition sem_post1 :: "nat \<Rightarrow> nat" where
  "sem_post1 n = min 1 (n + 1)"

definition uart_rx_chars_in_isr :: "bool \<Rightarrow> byte list \<Rightarrow> uart_dev \<Rightarrow> byte list \<times> uart_dev" where
  "uart_rx_chars_in_isr linux hw d =
     (let (hw', ring, rx_bytes) = rx_loop linux hw (rx_ring d) 0;
          d = d\<lparr>rx_ring := ring\<rparr>
      in (hw', if 1 \<le> rx_bytes \<and> wait_rx_flag d
               then d\<lparr>wait_rx_flag := False, rx_block_sem := sem_post1 (rx_block_sem d)\<rparr> else d))"

text \<open>The results of the calls made by the initialisation, in order.\<close>

record uart_init_env =
  mutex_create :: operate_ret
  dev_alloc :: bool
  rx_block_create :: operate_ret
  tx_block_create :: operate_ret
  hw_init :: operate_ret
  ring_mem :: "byte list option"
  ring_sem_create :: operate_ret
  list_lock :: operate_ret

record tal_uart_cfg =
  cfg_open_mode :: u32
  rx_buffer_size :: nat

definition tal_uart_init :: "uart_init_env \<Rightarrow> nat \<Rightarrow> tal_uart_cfg option \<Rightarrow> uart_list \<Rightarrow> uart_list \<times> operate_ret" where
  "tal_uart_init env port cfg L =
     (case cfg of
        None \<Rightarrow> (L, OPRT_INVALID_PARM)
      | Some c \<Rightarrow>
          if \<not> uart_mutex L \<and> mutex_create env \<noteq> OPRT_OK then (L, mutex_create env)
          else
            (let L = L\<lparr>uart_mutex := True\<rparr>
             in if uart_list_get_one_node port L \<noteq> None then (L, OPRT_INVALID_PARM)
                else if \<not> dev_alloc env then (L, OPRT_MALLOC_FAILED)
                else if cfg_open_mode c AND O_BLOCK \<noteq> 0 \<and> rx_block_create env \<noteq> OPRT_OK then (L, rx_block_create env)
                else if cfg_open_mode c AND O_BLOCK \<noteq> 0 \<and> tx_block_create env \<noteq> OPRT_OK then (L, tx_block_create env)
                else if hw_init env \<noteq> OPRT_OK then (L, hw_init env)
                else
                  (let (ret, ring) = tuya_ring_buff_create (rx_buffer_size c) OVERFLOW_STOP_TYPE True (ring_mem env)
                   in if ret \<noteq> OPRT_OK then (L, ret)
                      else if ring_sem_create env \<noteq> OPRT_OK then (L, ring_sem_create env)
                      else uart_list_add_one_node (list_lock env)
                             \<lparr>port_num = port, open_mode = cfg_open_mode c, rx_ring = ring, wait_rx_flag = False, rx_block_sem = 0\<rparr> L)))"

text \<open>A read either returns, or has to go on in its waiting loop.\<close>

datatype read_result = Returns int "byte list" | Loops

definition tal_uart_read :: "nat \<Rightarrow> bool \<Rightarrow> nat \<Rightarrow> uart_list \<Rightarrow> uart_dev option \<times> read_result" where
  "tal_uart_read port data len L =
     (if \<not> data then (None, Returns OPRT_INVALID_PARM [])
      else
        (case uart_list_get_one_node port L of
           None \<Rightarrow> (None, Returns OPRT_INVALID_PARM [])
         | Some d \<Rightarrow>
             if tuya_ring_buff_used_size_get (rx_ring d) \<noteq> 0
             then (let (ring, bytes, n) = tuya_ring_buff_read (rx_ring d) True len in (Some (d\<lparr>rx_ring := ring\<rparr>), Returns (int n) bytes))
             else if open_mode d AND O_BLOCK \<noteq> 0 then (Some d, Loops)
             else (Some d, Returns 0 [])))"

text \<open>The actions of the waiting loop: read again, ask to be woken, wait.\<close>

definition read_again :: "nat \<Rightarrow> uart_dev \<Rightarrow> uart_dev \<times> read_result" where
  "read_again len d =
     (let (ring, bytes, n) = tuya_ring_buff_read (rx_ring d) True len
      in (d\<lparr>rx_ring := ring\<rparr>, if n \<noteq> 0 then Returns (int n) bytes else Loops))"

definition ask_wake :: "uart_dev \<Rightarrow> uart_dev" where
  "ask_wake d = d\<lparr>wait_rx_flag := True\<rparr>"

definition take_sem :: "uart_dev \<Rightarrow> uart_dev" where
  "take_sem d = d\<lparr>rx_block_sem := rx_block_sem d - 1\<rparr>"

text \<open>\<open>send k\<close> tells whether the hardware takes the byte number \<open>k\<close>.\<close>

fun tx_loop :: "(nat \<Rightarrow> bool) \<Rightarrow> byte list \<Rightarrow> nat \<Rightarrow> byte list \<times> nat" where
  "tx_loop send [] n = ([], n)"
| "tx_loop send (c # cs) n =
     (if \<not> send n then ([], n) else (let (sent, m) = tx_loop send cs (n + 1) in (c # sent, m)))"

definition tal_uart_write :: "(nat \<Rightarrow> bool) \<Rightarrow> nat \<Rightarrow> byte list option \<Rightarrow> uart_list \<Rightarrow> byte list \<times> int" where
  "tal_uart_write send port data L =
     (case data of
        None \<Rightarrow> ([], OPRT_INVALID_PARM)
      | Some bytes \<Rightarrow>
          (case uart_list_get_one_node port L of
             None \<Rightarrow> ([], OPRT_INVALID_PARM)
           | Some d \<Rightarrow>
               if open_mode d AND O_ASYNC_WRITE = 0
               then (let (sent, n) = tx_loop send bytes 0 in (sent, int n))
               else ([], 0)))"

definition tal_uart_deinit :: "operate_ret \<Rightarrow> operate_ret \<Rightarrow> nat \<Rightarrow> uart_list \<Rightarrow> uart_list \<times> operate_ret" where
  "tal_uart_deinit hw lock port L =
     (case uart_list_get_one_node port L of
        None \<Rightarrow> (L, OPRT_INVALID_PARM)
      | Some d \<Rightarrow> if hw \<noteq> OPRT_OK then (L, hw) else uart_list_delete_one_node lock d L)"

definition tal_uart_get_rx_data_size :: "nat \<Rightarrow> uart_list \<Rightarrow> int" where
  "tal_uart_get_rx_data_size port L =
     (case uart_list_get_one_node port L of
        None \<Rightarrow> OPRT_INVALID_PARM
      | Some d \<Rightarrow> int (tuya_ring_buff_used_size_get (rx_ring d)))"

section \<open>Reader and interrupt\<close>

datatype reader = Idle | Reading | Asking | Waiting

record uart_sys =
  dev :: uart_dev
  hw :: "byte list"
  pc :: reader
  arrived :: "byte list"
  delivered :: "byte list"

definition deliver :: "uart_dev \<times> read_result \<Rightarrow> reader \<Rightarrow> uart_sys \<Rightarrow> uart_sys" where
  "deliver r next s =
     (case snd r of
        Returns n bytes \<Rightarrow> s\<lparr>dev := fst r, delivered := delivered s @ bytes, pc := Idle\<rparr>
      | Loops \<Rightarrow> s\<lparr>dev := fst r, pc := next\<rparr>)"

inductive uart_step :: "bool \<Rightarrow> nat \<Rightarrow> uart_sys \<Rightarrow> uart_sys \<Rightarrow> bool" for linux len where
  us_arrive: "uart_step linux len s (s\<lparr>hw := hw s @ [c], arrived := arrived s @ [c]\<rparr>)"
| us_isr: "hw s \<noteq> [] \<Longrightarrow> uart_rx_chars_in_isr linux (hw s) (dev s) = (hw', d) \<Longrightarrow> uart_step linux len s (s\<lparr>hw := hw', dev := d\<rparr>)"
| us_read: "pc s = Idle \<Longrightarrow> tal_uart_read (port_num (dev s)) True len \<lparr>uart_mutex = True, uart_nodes = [dev s]\<rparr> = (Some d, r)
    \<Longrightarrow> uart_step linux len s (deliver (d, r) Reading s)"
| us_again: "pc s = Reading \<Longrightarrow> uart_step linux len s (deliver (read_again len (dev s)) Asking s)"
| us_ask: "pc s = Asking \<Longrightarrow> uart_step linux len s (s\<lparr>dev := ask_wake (dev s), pc := Waiting\<rparr>)"
| us_wake: "pc s = Waiting \<Longrightarrow> 0 < rx_block_sem (dev s) \<Longrightarrow> uart_step linux len s (s\<lparr>dev := take_sem (dev s), pc := Reading\<rparr>)"

definition uart_start :: "uart_dev \<Rightarrow> uart_sys" where
  "uart_start d = \<lparr>dev = d, hw = [], pc = Idle, arrived = [], delivered = []\<rparr>"

text \<open>The states reached while \<open>fits\<close> holds of every state that is left.\<close>

inductive uart_reach :: "bool \<Rightarrow> nat \<Rightarrow> (uart_sys \<Rightarrow> bool) \<Rightarrow> uart_dev \<Rightarrow> uart_sys \<Rightarrow> bool" for linux len fits d where
  ur_start: "uart_reach linux len fits d (uart_start d)"
| ur_step: "uart_reach linux len fits d s \<Longrightarrow> fits s \<Longrightarrow> uart_step linux len s s' \<Longrightarrow> uart_reach linux len fits d s'"

section \<open>The ring between them\<close>

definition unread :: "uart_dev \<Rightarrow> byte list" where
  "unread d = (case rx_ring d of None \<Rightarrow> [] | Some rb \<Rightarrow> ring_contents rb)"

definition dev_room :: "uart_dev \<Rightarrow> nat" where
  "dev_room d = (case rx_ring d of None \<Rightarrow> 0 | Some rb \<Rightarrow> ring_room rb)"

definition dev_ok :: "uart_dev \<Rightarrow> bool" where
  "dev_ok d \<longleftrightarrow> (case rx_ring d of None \<Rightarrow> False | Some rb \<Rightarrow> ring_inv rb)"

lemma write_one:
  assumes "ring_inv rb"
  obtains rb' k where "tuya_ring_buff_write (Some rb) (Some [c]) 1 = (Some rb', k)" "ring_inv rb'"
    "k = min (ring_room rb) 1" "ring_contents rb' = ring_contents rb @ take k [c]" "ring_room rb' = ring_room rb - k"
proof -
  obtain h k where w: "tuya_ring_buff_write (Some rb) (Some [c]) 1 = (h, k)" by (cases "tuya_ring_buff_write (Some rb) (Some [c]) 1")
  have "h = Some (the h)" using w ring_write_push [OF assms refl, of "[c]" 1] by auto
  moreover have "ring_put rb [c] = (the h, k)" using w by (simp add: ring_put_def)
  ultimately show ?thesis
    using that [of "the h" k] w ring.put_invar [OF assms, of "[c]"] ring.put_accepts [OF assms, of "[c]"]
      ring.put_contents [OF assms, of "[c]"] ring.put_room [OF assms, of "[c]"] by simp
qed

text \<open>The receive loop moves a prefix of the hardware bytes to the ring; the byte after it is lost when the ring is full.\<close>

lemma rx_loop_moves:
  assumes "ring_inv rb"
  shows "\<exists>rb' moved lost hw'. rx_loop linux hws (Some rb) n = (hw', Some rb', n + length moved) \<and> ring_inv rb'
    \<and> hws = moved @ lost @ hw' \<and> ring_contents rb' = ring_contents rb @ moved
    \<and> (length hws \<le> ring_room rb \<longrightarrow> lost = []) \<and> (hws \<noteq> [] \<and> 0 < ring_room rb \<longrightarrow> moved \<noteq> [])"
  using assms
proof (induction hws arbitrary: rb n)
  case (Cons c hws)
  obtain r k where r: "tuya_ring_buff_write (Some rb) (Some [c]) 1 = (Some r, k)" "ring_inv r"
    "k = min (ring_room rb) 1" "ring_contents r = ring_contents rb @ take k [c]" "ring_room r = ring_room rb - k"
    using write_one [OF Cons.prems] by blast
  consider (full) "ring_room rb = 0" | (one) "0 < ring_room rb" linux | (more) "0 < ring_room rb" "\<not> linux" by blast
  then show ?case
  proof cases
    case full
    then show ?thesis using r by (intro exI [of _ r] exI [of _ "[]"] exI [of _ "[c]"] exI [of _ hws]) simp
  next
    case one
    then show ?thesis using r by (intro exI [of _ r] exI [of _ "[c]"] exI [of _ "[]"] exI [of _ hws]) simp
  next
    case more
    obtain rb' moved lost hw' where ih: "rx_loop linux hws (Some r) (n + 1) = (hw', Some rb', n + 1 + length moved)" "ring_inv rb'"
      "hws = moved @ lost @ hw'" "ring_contents rb' = ring_contents r @ moved" "length hws \<le> ring_room r \<longrightarrow> lost = []"
      using Cons.IH [OF r(2), of "n + 1"] by blast
    from more r(3) have k: "k = 1" by simp
    with more r ih show ?thesis
      by (intro exI [of _ rb'] exI [of _ "c # moved"] exI [of _ lost] exI [of _ hw']) auto
  qed
qed simp

lemma isr_moves:
  assumes ok: "dev_ok d" and isr: "uart_rx_chars_in_isr linux hws d = (hw', d')"
  obtains moved lost where "dev_ok d'" "hws = moved @ lost @ hw'" "unread d' = unread d @ moved"
    "length hws \<le> dev_room d \<longrightarrow> lost = []" "hws \<noteq> [] \<and> 0 < dev_room d \<longrightarrow> moved \<noteq> []" "open_mode d' = open_mode d" "port_num d' = port_num d"
    "(wait_rx_flag d', rx_block_sem d') =
      (if moved \<noteq> [] \<and> wait_rx_flag d then (False, sem_post1 (rx_block_sem d)) else (wait_rx_flag d, rx_block_sem d))"
proof -
  obtain rb where rb: "rx_ring d = Some rb" "ring_inv rb" using ok by (auto simp: dev_ok_def split: option.splits)
  obtain rb' moved lost h where r: "rx_loop linux hws (Some rb) 0 = (h, Some rb', length moved)" "ring_inv rb'"
    "hws = moved @ lost @ h" "ring_contents rb' = ring_contents rb @ moved"
    "length hws \<le> ring_room rb \<longrightarrow> lost = []" "hws \<noteq> [] \<and> 0 < ring_room rb \<longrightarrow> moved \<noteq> []"
    using rx_loop_moves [OF rb(2), of linux hws 0, unfolded add_0] by blast
  have m: "1 \<le> length moved \<longleftrightarrow> moved \<noteq> []" by (cases moved) auto
  from isr have "hw' = h" "d' = (if moved \<noteq> [] \<and> wait_rx_flag d
      then d\<lparr>rx_ring := Some rb', wait_rx_flag := False, rx_block_sem := sem_post1 (rx_block_sem d)\<rparr> else d\<lparr>rx_ring := Some rb'\<rparr>)"
    unfolding uart_rx_chars_in_isr_def rb(1) r(1) Let_def prod.case m by auto
  with r rb show ?thesis by (intro that [of moved lost]) (simp_all add: dev_ok_def unread_def dev_room_def)
qed

text \<open>A read of the ring.\<close>

lemma ring_read_one:
  assumes "ring_inv rb"
  obtains rb' where "tuya_ring_buff_read (Some rb) True len = (Some rb', take len (ring_contents rb), min (length (ring_contents rb)) len)"
    "ring_inv rb'" "ring_contents rb' = drop len (ring_contents rb)"
  using ring_read_pop [OF assms refl, of len] ring.get_invar [OF assms, of len] ring.get_contents [OF assms, of len]
  by (auto simp: ring_get_def)

lemma again_reads:
  assumes "dev_ok d" "0 < len"
  obtains d' where "read_again len d = (d', if unread d = [] then Loops else Returns (int (min (length (unread d)) len)) (take len (unread d)))"
    "dev_ok d'" "unread d' = drop len (unread d)" "open_mode d' = open_mode d" "wait_rx_flag d' = wait_rx_flag d" "rx_block_sem d' = rx_block_sem d"
proof -
  obtain rb where rb: "rx_ring d = Some rb" "ring_inv rb" using assms(1) by (auto simp: dev_ok_def split: option.splits)
  obtain rb' where r: "tuya_ring_buff_read (Some rb) True len = (Some rb', take len (ring_contents rb), min (length (ring_contents rb)) len)"
    "ring_inv rb'" "ring_contents rb' = drop len (ring_contents rb)" using ring_read_one [OF rb(2)] by blast
  show ?thesis
    by (rule that [of "d\<lparr>rx_ring := Some rb'\<rparr>"]) (use r rb assms(2) in \<open>auto simp: read_again_def unread_def dev_ok_def min_def\<close>)
qed

lemma read_reads:
  assumes "dev_ok d" "tal_uart_read (port_num d) True len \<lparr>uart_mutex = True, uart_nodes = [d]\<rparr> = (Some d', r)"
  shows "dev_ok d' \<and> open_mode d' = open_mode d \<and> wait_rx_flag d' = wait_rx_flag d \<and> rx_block_sem d' = rx_block_sem d
    \<and> (case r of Returns n bytes \<Rightarrow> unread d = bytes @ unread d' | Loops \<Rightarrow> unread d' = unread d)"
proof -
  obtain rb where rb: "rx_ring d = Some rb" "ring_inv rb" using assms(1) by (auto simp: dev_ok_def split: option.splits)
  obtain rb' where "tuya_ring_buff_read (Some rb) True len = (Some rb', take len (ring_contents rb), min (length (ring_contents rb)) len)"
    "ring_inv rb'" "ring_contents rb' = drop len (ring_contents rb)" using ring_read_one [OF rb(2)] by blast
  with rb assms show ?thesis
    by (auto simp: tal_uart_read_def uart_list_get_one_node_def unread_def dev_ok_def ring_used_contents split: if_splits)
qed

section \<open>Invariant of the concurrent system\<close>

text \<open>The bytes on their way, oldest first.\<close>

definition stream :: "uart_sys \<Rightarrow> byte list" where
  "stream s = delivered s @ unread (dev s) @ hw s"

text \<open>One step appends what arrives, and loses bytes only in an interrupt for which the ring has no room.\<close>

lemma step_stream:
  assumes ok: "dev_ok (dev s)" and step: "uart_step linux len s s'" and len: "0 < len"
  obtains pre lost post new where "dev_ok (dev s')" "stream s = pre @ lost @ post" "stream s' = pre @ post @ new"
    "arrived s' = arrived s @ new" "length (hw s) \<le> dev_room (dev s) \<Longrightarrow> lost = []"
  using step
proof (cases rule: uart_step.cases)
  case (us_arrive c)
  show ?thesis by (rule that [of "stream s" "[]" "[]" "[c]"]) (use us_arrive ok in \<open>simp_all add: stream_def\<close>)
next
  case (us_isr hw' d)
  obtain moved lost where m: "dev_ok d" "hw s = moved @ lost @ hw'" "unread d = unread (dev s) @ moved"
    "length (hw s) \<le> dev_room (dev s) \<longrightarrow> lost = []"
    using isr_moves [OF ok us_isr(3)] by blast
  show ?thesis
    by (rule that [of "delivered s @ unread (dev s) @ moved" lost hw' "[]"]) (use us_isr m in \<open>simp_all add: stream_def\<close>)
next
  case (us_read d r)
  show ?thesis
    by (rule that [of "stream s" "[]" "[]" "[]"])
      (use read_reads [OF ok us_read(3)] us_read(1) in \<open>auto simp: stream_def deliver_def split: read_result.splits\<close>)
next
  case us_again
  obtain d where d: "read_again len (dev s) = (d, if unread (dev s) = [] then Loops else Returns (int (min (length (unread (dev s))) len)) (take len (unread (dev s))))"
    "dev_ok d" "unread d = drop len (unread (dev s))" using again_reads [OF ok len] by blast
  have "take len (unread (dev s)) @ drop len (unread (dev s)) @ hw s = unread (dev s) @ hw s"
    by (simp flip: append_assoc)
  then show ?thesis
    by (intro that [of "stream s" "[]" "[]" "[]"]) (use us_again d in \<open>auto simp: stream_def deliver_def\<close>)
next
  case us_ask
  show ?thesis by (rule that [of "stream s" "[]" "[]" "[]"]) (use us_ask ok in \<open>simp_all add: stream_def ask_wake_def dev_ok_def unread_def\<close>)
next
  case us_wake
  show ?thesis by (rule that [of "stream s" "[]" "[]" "[]"]) (use us_wake ok in \<open>simp_all add: stream_def take_sem_def dev_ok_def unread_def\<close>)
qed

text \<open>
  The reader has asked for a wake-up exactly while it waits and no post has been made, and the semaphore is set only
  for a reader that waits.
\<close>

definition wake_inv :: "uart_sys \<Rightarrow> bool" where
  "wake_inv s \<longleftrightarrow> (if pc s = Waiting then rx_block_sem (dev s) = (if wait_rx_flag (dev s) then 0 else 1)
     else \<not> wait_rx_flag (dev s) \<and> rx_block_sem (dev s) = 0)"

lemma step_wake:
  assumes ok: "dev_ok (dev s)" and inv: "wake_inv s" and step: "uart_step linux len s s'" and len: "0 < len"
  shows "wake_inv s'"
  using step
proof (cases rule: uart_step.cases)
  case (us_isr hw' d)
  obtain moved where "(wait_rx_flag d, rx_block_sem d) = (if moved \<noteq> ([] :: byte list) \<and> wait_rx_flag (dev s)
      then (False, sem_post1 (rx_block_sem (dev s))) else (wait_rx_flag (dev s), rx_block_sem (dev s)))"
    using isr_moves [OF ok us_isr(3)] by blast
  with us_isr(1) inv show ?thesis by (auto simp: wake_inv_def sem_post1_def split: if_splits)
next
  case (us_read d r)
  with read_reads [OF ok us_read(3)] inv show ?thesis by (cases r) (auto simp: wake_inv_def deliver_def)
next
  case us_again
  obtain d r where "read_again len (dev s) = (d, r)" "wait_rx_flag d = wait_rx_flag (dev s)" "rx_block_sem d = rx_block_sem (dev s)"
    using again_reads [OF ok len] by metis
  with us_again inv show ?thesis by (cases r) (auto simp: wake_inv_def deliver_def)
qed (use inv in \<open>auto simp: wake_inv_def ask_wake_def take_sem_def split: if_splits\<close>)

text \<open>A device as the initialisation leaves it.\<close>

definition dev_fresh :: "uart_dev \<Rightarrow> bool" where
  "dev_fresh d \<longleftrightarrow> dev_ok d \<and> unread d = [] \<and> \<not> wait_rx_flag d \<and> rx_block_sem d = 0"

lemma subseq_step:
  assumes "subseq (pre @ lost @ post) ws"
  shows "subseq (pre @ post @ new) (ws @ new)"
proof -
  have "subseq (pre @ post) (pre @ lost @ post)" by (intro list_emb_append_mono list_emb_append2 subseq_order.order_refl)
  then have "subseq ((pre @ post) @ new) (ws @ new)"
    using assms by (intro list_emb_append_mono) (auto intro: subseq_order.trans)
  then show ?thesis by simp
qed

lemma uart_reach_inv:
  assumes "uart_reach linux len fits d s" "dev_fresh d" "0 < len"
  shows "dev_ok (dev s) \<and> wake_inv s \<and> subseq (stream s) (arrived s)
    \<and> ((\<forall>s. fits s \<longrightarrow> length (hw s) \<le> dev_room (dev s)) \<longrightarrow> stream s = arrived s)"
  using assms(1)
proof induction
  case ur_start
  then show ?case using assms(2) by (simp add: dev_fresh_def uart_start_def wake_inv_def stream_def)
next
  case (ur_step s s')
  then have inv: "dev_ok (dev s)" "wake_inv s" "subseq (stream s) (arrived s)"
    and eq: "(\<forall>s. fits s \<longrightarrow> length (hw s) \<le> dev_room (dev s)) \<longrightarrow> stream s = arrived s" by blast+
  obtain pre lost post new where st: "dev_ok (dev s')" "stream s = pre @ lost @ post" "stream s' = pre @ post @ new"
    "arrived s' = arrived s @ new" and l: "length (hw s) \<le> dev_room (dev s) \<Longrightarrow> lost = []"
    using step_stream [OF inv(1) ur_step(3) assms(3)] by blast
  have "subseq (stream s') (arrived s')" using subseq_step inv(3) unfolding st by blast
  moreover have "stream s' = arrived s'" if "\<forall>s. fits s \<longrightarrow> length (hw s) \<le> dev_room (dev s)"
    using eq that l ur_step(2) st by auto
  ultimately show ?case using st(1) step_wake [OF inv(1,2) ur_step(3) assms(3)] by blast
qed

text \<open>A waiting reader is woken by every interrupt that finds a byte and room for it.\<close>

lemma next_byte_wakes:
  assumes ok: "dev_ok (dev s)" and inv: "wake_inv s" and w: "pc s = Waiting" and b: "hw s \<noteq> []" "0 < dev_room (dev s)"
    and isr: "uart_rx_chars_in_isr linux (hw s) (dev s) = (hw', d)"
  shows "rx_block_sem d = 1"
proof -
  obtain moved lost where "hw s \<noteq> [] \<and> 0 < dev_room (dev s) \<longrightarrow> moved \<noteq> ([] :: byte list)"
    "(wait_rx_flag d, rx_block_sem d) = (if moved \<noteq> [] \<and> wait_rx_flag (dev s)
      then (False, sem_post1 (rx_block_sem (dev s))) else (wait_rx_flag (dev s), rx_block_sem (dev s)))"
    using isr_moves [OF ok isr] by blast
  with b w inv show ?thesis by (auto simp: wake_inv_def sem_post1_def split: if_splits)
qed

section \<open>A byte that wakes nobody\<close>

lemma fresh_read_loops:
  assumes "dev_fresh d" "open_mode d AND O_BLOCK \<noteq> 0"
  shows "tal_uart_read (port_num d) True len \<lparr>uart_mutex = True, uart_nodes = [d]\<rparr> = (Some d, Loops)"
  using assms by (auto simp: tal_uart_read_def uart_list_get_one_node_def dev_fresh_def dev_ok_def unread_def ring_used_contents split: option.splits)

lemma fresh_again_loops:
  assumes "dev_fresh d" "0 < len"
  shows "read_again len d = (d, Loops)"
proof -
  obtain rb where rb: "rx_ring d = Some rb" "ring_inv rb" "ring_contents rb = []"
    using assms(1) by (auto simp: dev_fresh_def dev_ok_def unread_def split: option.splits)
  then have "tuya_ring_buff_read (Some rb) True len = (Some rb, [], 0)" using ring_read_pop [OF rb(2) refl, of len] by simp
  then show ?thesis using rb(1) by (simp add: read_again_def)
qed

lemma reach_step: "uart_reach linux len (\<lambda>_. True) d s \<Longrightarrow> uart_step linux len s s' \<Longrightarrow> uart_reach linux len (\<lambda>_. True) d s'"
  by (erule ur_step) simp_all

lemma asking_reachable:
  assumes "dev_fresh d" "open_mode d AND O_BLOCK \<noteq> 0" "0 < len"
  shows "uart_reach linux len (\<lambda>_. True) d \<lparr>dev = d, hw = [], pc = Asking, arrived = [], delivered = []\<rparr>"
proof -
  have "uart_step linux len (uart_start d) (deliver (d, Loops) Reading (uart_start d))"
    by (rule us_read) (use fresh_read_loops [OF assms(1,2)] in \<open>simp_all add: uart_start_def\<close>)
  from reach_step [OF ur_start this] have "uart_reach linux len (\<lambda>_. True) d \<lparr>dev = d, hw = [], pc = Reading, arrived = [], delivered = []\<rparr>"
    by (simp add: uart_start_def deliver_def)
  moreover have "uart_step linux len \<lparr>dev = d, hw = [], pc = Reading, arrived = [], delivered = []\<rparr>
      \<lparr>dev = d, hw = [], pc = Asking, arrived = [], delivered = []\<rparr>"
    using us_again [of "\<lparr>dev = d, hw = [], pc = Reading, arrived = [], delivered = []\<rparr>" linux len] fresh_again_loops [OF assms(1,3)]
    by (simp add: deliver_def)
  ultimately show ?thesis by (rule reach_step)
qed

lemma unnoticed_byte:
  assumes d: "dev_fresh d" "0 < dev_room d"
  obtains d' where "uart_rx_chars_in_isr linux [c] d = ([], d')" "dev_ok d'" "unread d' = [c]" "\<not> wait_rx_flag d'" "rx_block_sem d' = 0"
proof -
  obtain h d' where i: "uart_rx_chars_in_isr linux [c] d = (h, d')" by (cases "uart_rx_chars_in_isr linux [c] d")
  have ok: "dev_ok d" "unread d = []" "\<not> wait_rx_flag d" "rx_block_sem d = 0" using d(1) by (simp_all add: dev_fresh_def)
  obtain moved lost where m: "dev_ok d'" "[c] = moved @ lost @ h" "unread d' = unread d @ moved" "[c] \<noteq> [] \<and> 0 < dev_room d \<longrightarrow> moved \<noteq> []"
    "(wait_rx_flag d', rx_block_sem d') = (if moved \<noteq> [] \<and> wait_rx_flag d then (False, sem_post1 (rx_block_sem d)) else (wait_rx_flag d, rx_block_sem d))"
    using isr_moves [OF ok(1) i] by blast
  obtain x xs where "moved = x # xs" using m(4) d(2) by (cases moved) auto
  then have "moved = [c]" "h = []" using m(2) by simp_all
  with i m(1,3,5) ok show ?thesis by (intro that [of d']) simp_all
qed

section \<open>Every sequence of bytes can pass\<close>

lemma byte_passes:
  assumes d: "dev_fresh d" "0 < dev_room d" and len: "0 < len"
  obtains d1 d2 where "uart_rx_chars_in_isr linux [c] d = ([], d1)"
    "tal_uart_read (port_num d1) True len \<lparr>uart_mutex = True, uart_nodes = [d1]\<rparr> = (Some d2, Returns 1 [c])" "dev_fresh d2" "0 < dev_room d2"
proof -
  obtain rb where rb: "rx_ring d = Some rb" "ring_inv rb" "ring_contents rb = []" "0 < ring_room rb"
    using d by (auto simp: dev_fresh_def dev_ok_def unread_def dev_room_def split: option.splits)
  obtain r k where r: "tuya_ring_buff_write (Some rb) (Some [c]) 1 = (Some r, k)" "ring_inv r" "k = min (ring_room rb) 1"
    "ring_contents r = ring_contents rb @ take k [c]" "ring_room r = ring_room rb - k"
    using write_one [OF rb(2)] by blast
  have k: "k = 1" "ring_contents r = [c]" using r(3,4) rb(3,4) by simp_all
  obtain q where q: "tuya_ring_buff_read (Some r) True len = (Some q, [c], 1)" "ring_inv q" "ring_contents q = []"
    using ring_read_one [OF r(2), of len] k(2) len by (auto simp: min_def)
  have "rb_len q = rb_len r" using q(1) ring_read_pop [OF r(2) refl, of len] by (auto simp: ring_pop_def split: if_splits)
  moreover have "rb_len r = rb_len rb" using ring_put_len [OF rb(2), of "[c]"] r(1) by (simp add: ring_put_def)
  ultimately have "0 < ring_room q" using rb(3,4) q(3) by (simp add: ring_room_def)
  have w: "\<not> wait_rx_flag d" "rx_block_sem d = 0" using d(1) by (simp_all add: dev_fresh_def)
  show ?thesis
  proof (rule that [of "d\<lparr>rx_ring := Some r\<rparr>" "d\<lparr>rx_ring := Some q\<rparr>"])
    show "uart_rx_chars_in_isr linux [c] d = ([], d\<lparr>rx_ring := Some r\<rparr>)" using r(1) rb(1) k(1) w by (simp add: uart_rx_chars_in_isr_def)
    show "tal_uart_read (port_num (d\<lparr>rx_ring := Some r\<rparr>)) True len \<lparr>uart_mutex = True, uart_nodes = [d\<lparr>rx_ring := Some r\<rparr>]\<rparr> =
        (Some (d\<lparr>rx_ring := Some q\<rparr>), Returns 1 [c])"
      using q(1) k(2) ring_used_contents [OF r(2)] by (simp add: tal_uart_read_def uart_list_get_one_node_def)
  qed (use q \<open>0 < ring_room q\<close> w in \<open>simp_all add: dev_fresh_def dev_ok_def unread_def dev_room_def\<close>)
qed

text \<open>When every byte is read before the next one arrives, all of them are delivered.\<close>

lemma uart_carries:
  assumes d: "dev_fresh d" "0 < dev_room d" "0 < len"
  shows "\<exists>d'. uart_reach linux len (\<lambda>s. length (hw s) \<le> dev_room (dev s)) d \<lparr>dev = d', hw = [], pc = Idle, arrived = bs, delivered = bs\<rparr>
    \<and> dev_fresh d' \<and> 0 < dev_room d'"
proof (induction bs rule: rev_induct)
  case Nil
  show ?case using ur_start [of linux len _ d] d by (auto simp: uart_start_def)
next
  case (snoc c bs)
  then obtain e where e: "uart_reach linux len (\<lambda>s. length (hw s) \<le> dev_room (dev s)) d \<lparr>dev = e, hw = [], pc = Idle, arrived = bs, delivered = bs\<rparr>"
    "dev_fresh e" "0 < dev_room e" by blast
  obtain d1 d2 where p: "uart_rx_chars_in_isr linux [c] e = ([], d1)" "dev_fresh d2" "0 < dev_room d2"
    "tal_uart_read (port_num d1) True len \<lparr>uart_mutex = True, uart_nodes = [d1]\<rparr> = (Some d2, Returns 1 [c])"
    using byte_passes [OF e(2,3) d(3)] by blast
  let ?f = "\<lambda>s. length (hw s) \<le> dev_room (dev s)"
  let ?s1 = "\<lparr>dev = e, hw = [c], pc = Idle, arrived = bs @ [c], delivered = bs\<rparr>"
  let ?s2 = "\<lparr>dev = d1, hw = [], pc = Idle, arrived = bs @ [c], delivered = bs\<rparr>"
  have "uart_reach linux len ?f d ?s1"
    using ur_step [OF e(1) _ us_arrive [of linux len _ c]] by simp
  from ur_step [OF this _ us_isr [of ?s1 linux "[]" d1]] have "uart_reach linux len ?f d ?s2" using e(3) p(1) by simp
  from ur_step [OF this _ us_read [of ?s2 len d2 "Returns 1 [c]"]] have
    "uart_reach linux len ?f d \<lparr>dev = d2, hw = [], pc = Idle, arrived = bs @ [c], delivered = bs @ [c]\<rparr>"
    using p(4) by (simp add: deliver_def)
  with p(2,3) show ?case by blast
qed

section \<open>Properties\<close>

definition uart_demo :: uart_dev where
  "uart_demo = \<lparr>port_num = 0, open_mode = O_BLOCK,
     rx_ring = Some \<lparr>rb_type = OVERFLOW_STOP_TYPE, rb_in = 0, rb_out = 0, rb_len = 3, rb_buff = [0, 0, 0]\<rparr>, wait_rx_flag = False, rx_block_sem = 0\<rparr>"

lemma uart_demo_fresh: "dev_fresh uart_demo" "0 < dev_room uart_demo" "open_mode uart_demo AND O_BLOCK \<noteq> 0"
  by (simp_all add: uart_demo_def dev_fresh_def dev_ok_def unread_def dev_room_def ring_room_def ring_inv_def ring_contents_def)

text \<open>
  Under every interleaving of the receive interrupt and a blocking reader, the bytes delivered, then those in
  the ring, then those in the hardware are the bytes that arrived, in their order, some possibly missing; none is missing as long
  as an interrupt never finds more bytes than the ring has room for. The semaphore is set only for a reader that waits.
\<close>

theorem uart_stream:
  assumes "uart_reach linux len fits d s" "dev_fresh d" "0 < len"
  shows "subseq (delivered s @ unread (dev s) @ hw s) (arrived s)
    \<and> ((\<forall>s. fits s \<longrightarrow> length (hw s) \<le> dev_room (dev s)) \<longrightarrow> delivered s @ unread (dev s) @ hw s = arrived s)
    \<and> (rx_block_sem (dev s) = 0 \<or> pc s = Waiting)"
  using uart_reach_inv [OF assms] by (auto simp: stream_def wake_inv_def split: if_splits)

theorem uart_stream_witness:
  "\<exists>s :: uart_sys. arrived s = [72, 105, 33, 33] \<and> delivered s @ unread (dev s) @ hw s = arrived s \<and> pc s = Idle"
proof -
  obtain d' where "uart_reach True 1 (\<lambda>s. length (hw s) \<le> dev_room (dev s)) uart_demo
      \<lparr>dev = d', hw = [], pc = Idle, arrived = [72, 105, 33, 33], delivered = [72, 105, 33, 33]\<rparr>"
    using uart_carries [OF uart_demo_fresh(1,2), of 1 True "[72, 105, 33, 33]"] by auto
  from uart_stream [OF this uart_demo_fresh(1)]
  show ?thesis by - (rule exI [of _ "\<lparr>dev = d', hw = [], pc = Idle, arrived = [72, 105, 33, 33], delivered = [72, 105, 33, 33]\<rparr>"], simp)
qed

text \<open>
  A wake-up can be lost. A byte that arrives after a blocking read has found the ring empty and before it sets its flag
  is stored without a post; the reader then waits with the byte in the ring, and no step but the arrival of another byte is possible.
\<close>

theorem uart_wakeup_lost:
  assumes "dev_fresh d" "0 < dev_room d" "open_mode d AND O_BLOCK \<noteq> 0" "0 < len"
  shows "\<exists>s. uart_reach linux len (\<lambda>_. True) d s \<and> pc s = Waiting \<and> unread (dev s) = [c] \<and> delivered s = []
    \<and> (\<forall>s'. uart_step linux len s s' \<longrightarrow> (\<exists>b. s' = s\<lparr>hw := [b], arrived := [c, b]\<rparr>))"
proof -
  obtain d' where i: "uart_rx_chars_in_isr linux [c] d = ([], d')" "unread d' = [c]" "\<not> wait_rx_flag d'" "rx_block_sem d' = 0"
    using unnoticed_byte [OF assms(1,2)] by blast
  let ?a = "\<lparr>dev = d, hw = [c], pc = Asking, arrived = [c], delivered = []\<rparr>"
  let ?b = "\<lparr>dev = d', hw = [], pc = Asking, arrived = [c], delivered = []\<rparr>"
  let ?s = "\<lparr>dev = ask_wake d', hw = [], pc = Waiting, arrived = [c], delivered = []\<rparr>"
  have "uart_step linux len \<lparr>dev = d, hw = [], pc = Asking, arrived = [], delivered = []\<rparr> ?a"
    using us_arrive [of linux len "\<lparr>dev = d, hw = [], pc = Asking, arrived = [], delivered = []\<rparr>" c] by simp
  moreover have "uart_step linux len ?a ?b" using us_isr [of ?a linux "[]" d' len] i(1) by simp
  moreover have "uart_step linux len ?b ?s" using us_ask [of ?b linux len] by simp
  ultimately have "uart_reach linux len (\<lambda>_. True) d ?s"
    using asking_reachable [OF assms(1,3,4)] by (blast intro: reach_step)
  moreover have "\<exists>b. s' = ?s\<lparr>hw := [b], arrived := [c, b]\<rparr>" if "uart_step linux len ?s s'" for s'
    using that by (cases rule: uart_step.cases) (use i(4) in \<open>auto simp: ask_wake_def\<close>)
  ultimately show ?thesis using i(2) by (intro exI [of _ ?s]) (auto simp: ask_wake_def unread_def)
qed

theorem uart_wakeup_lost_witness:
  "\<exists>s. uart_reach False 1 (\<lambda>_. True) uart_demo s \<and> pc s = Waiting \<and> unread (dev s) = [65]"
  using uart_wakeup_lost [OF uart_demo_fresh, of 1 False 65] by auto

end
