(* ===== verification/RegisterCenter.thy ===== *)
theory RegisterCenter
  imports MixMethod
begin

text \<open>
  The register center \<^verbatim>\<open>src/tuya_cloud_service/cloud/tuya_register_center.c\<close>: the record of the servers a device
  registers with, its encoding as type, length and value, and the operations that save, load and update it. A field that is a pointer is the
  block it points to, with the terminator of a string. The compile-time security level is the argument \<open>sl0\<close> (level zero or not),
  the certificate parser of mbedtls is the parameter \<open>pem\<close>, and a JSON object is the record of the members the code looks up;
  a member that is not a string has no \<^verbatim>\<open>valuestring\<close>. \<open>None\<close> as the result of an operation is an access outside a block or through NULL.
\<close>

section \<open>Model\<close>

record register_center =
  rc_source :: int
  rc_pub :: int
  rc_code :: "byte list option"
  rc_url0 :: "byte list option"
  rc_urlx :: "byte list option"
  rc_ca :: "byte list option"
  rc_ca_len :: nat

definition rcs_zero :: register_center where
  "rcs_zero = \<lparr>rc_source = 0, rc_pub = 0, rc_code = None, rc_url0 = None, rc_urlx = None, rc_ca = None, rc_ca_len = 0\<rparr>"

abbreviation (input) RCS_APP :: int where "RCS_APP \<equiv> 0"
abbreviation (input) RCS_MF :: int where "RCS_MF \<equiv> 1"
abbreviation (input) RCS_CODE :: int where "RCS_CODE \<equiv> 2"

abbreviation (input) TLV_SRC :: byte where "TLV_SRC \<equiv> 1"
abbreviation (input) TLV_PUB :: byte where "TLV_PUB \<equiv> 2"
abbreviation (input) TLV_CODE :: byte where "TLV_CODE \<equiv> 3"
abbreviation (input) TLV_URL0 :: byte where "TLV_URL0 \<equiv> 4"
abbreviation (input) TLV_URLX :: byte where "TLV_URLX \<equiv> 5"
abbreviation (input) TLV_CA :: byte where "TLV_CA \<equiv> 6"
abbreviation (input) TLV_MAX :: nat where "TLV_MAX \<equiv> 7"

text \<open>The string in a block, and the bytes copied for it: the string and its terminator.\<close>

definition str_of :: "byte list \<Rightarrow> byte list" where
  "str_of b = takeWhile (\<lambda>c. c \<noteq> 0) b"

definition with_nul :: "byte list \<Rightarrow> byte list" where
  "with_nul b = str_of b @ [0]"

text \<open>One entry written at the offset: \<^verbatim>\<open>len\<close> is 16 bits wide, and only \<^verbatim>\<open>len\<close> bytes are copied.\<close>

definition tlv_put :: "byte \<Rightarrow> byte list \<Rightarrow> byte list \<times> nat \<Rightarrow> (byte list \<times> nat) option" where
  "tlv_put t v s =
     (let (buf, off) = s; len = length v mod 65536
      in if off + 3 + len > length buf then None
         else Some (memcpy_at buf off ([t, of_nat (len mod 256), of_nat (len div 256)] @ take len v), (off + 3 + len) mod 65536))"

text \<open>
  What mbedtls finds in a certificate. \<open>mem\<close> says whether the memory of the binary form is granted; when it is not, the result is success without data, as it is for a
  certificate without a header.
\<close>

datatype pem_result = PEM_DER "byte list" | PEM_NO_HEADER | PEM_ERROR

definition tuya_x509_pem2der :: "bool \<Rightarrow> (byte list \<Rightarrow> pem_result) \<Rightarrow> byte list option \<Rightarrow> nat \<Rightarrow> operate_ret \<times> byte list" where
  "tuya_x509_pem2der mem pem buf buflen =
     (case buf of
        None \<Rightarrow> (OPRT_INVALID_PARM, [])
      | Some b \<Rightarrow>
          if buflen < 64 then (OPRT_INVALID_PARM, [])
          else (case pem b of PEM_DER der \<Rightarrow> (OPRT_OK, if mem then der else []) | PEM_NO_HEADER \<Rightarrow> (OPRT_OK, []) | PEM_ERROR \<Rightarrow> (OPRT_COM_ERROR, [])))"

definition put_opt :: "byte \<Rightarrow> byte list option \<Rightarrow> byte list \<times> nat \<Rightarrow> (byte list \<times> nat) option" where
  "put_opt t v s = (case v of None \<Rightarrow> Some s | Some b \<Rightarrow> tlv_put t (with_nul b) s)"

definition rcs_fill :: "bool \<Rightarrow> byte list \<Rightarrow> register_center \<Rightarrow> nat \<Rightarrow> byte list option" where
  "rcs_fill sl0 der rcs tot =
     Option.bind (tlv_put TLV_SRC [of_int (rc_source rcs)] (replicate tot 0, 0)) (\<lambda>s.
     Option.bind (tlv_put TLV_PUB [of_int (rc_pub rcs)] s) (\<lambda>s.
     Option.bind (put_opt TLV_CODE (rc_code rcs) s) (\<lambda>s.
     Option.bind (case rc_url0 rcs of None \<Rightarrow> None | Some b \<Rightarrow> tlv_put TLV_URL0 (with_nul b) s) (\<lambda>s.
     if sl0 then Some (fst s)
     else
       Option.bind (case rc_urlx rcs of None \<Rightarrow> None | Some b \<Rightarrow> tlv_put TLV_URLX (with_nul b) s) (\<lambda>s.
       map_option fst (tlv_put TLV_CA der s))))))"

definition rcs_serialize :: "bool \<Rightarrow> bool \<Rightarrow> bool \<Rightarrow> (byte list \<Rightarrow> pem_result) \<Rightarrow> register_center \<Rightarrow> (operate_ret \<times> byte list) option" where
  "rcs_serialize sl0 mem alloc pem rcs =
     (case rc_url0 rcs of
        None \<Rightarrow> None
      | Some url0 \<Rightarrow>
          (let tot = 4 * TLV_MAX + 1 + 1 + length (str_of url0) + 1 + (case rc_code rcs of None \<Rightarrow> 0 | Some c \<Rightarrow> length (str_of c));
               (rt, der) = (if sl0 then (OPRT_OK, []) else tuya_x509_pem2der mem pem (rc_ca rcs) (rc_ca_len rcs))
           in if rt \<noteq> OPRT_OK then Some (OPRT_INVALID_PARM, [])
              else if \<not> sl0 \<and> rc_urlx rcs = None then None
              else
                (let tot = (if sl0 then tot else tot + length der + length (str_of (the (rc_urlx rcs))))
                 in if \<not> alloc then Some (OPRT_MALLOC_FAILED, [])
                    else map_option (\<lambda>buf. (OPRT_OK, buf)) (rcs_fill sl0 der rcs tot))))"

text \<open>
  The loop of the decoder. \<open>tot\<close> is a 16-bit value and no offset exceeds it, so the 16-bit offset does not wrap.
\<close>

function rcs_loop :: "(nat \<Rightarrow> bool) \<Rightarrow> byte list \<Rightarrow> nat \<Rightarrow> nat \<Rightarrow> register_center \<Rightarrow> (operate_ret \<times> register_center) option" where
  "rcs_loop alloc data tot off rcs =
     (if \<not> off + 3 < tot then Some (OPRT_OK, rcs)
      else if length data < off + 3 then None
      else if data ! off = 0 then Some (OPRT_OK, rcs)
      else
        (let type = data ! off;
             len = unat (data ! (off + 1)) + 256 * unat (data ! (off + 2));
             at = off + 3
         in if len = 0 \<or> len + at > tot then Some (OPRT_INVALID_PARM, rcs)
            else if type = TLV_SRC
            then (if length data \<le> at then None else rcs_loop alloc data tot (at + 1) (rcs\<lparr>rc_source := uint (data ! at)\<rparr>))
            else if type = TLV_PUB
            then (if length data \<le> at then None else rcs_loop alloc data tot (at + 1) (rcs\<lparr>rc_pub := uint (data ! at)\<rparr>))
            else if \<not> alloc len then Some (OPRT_MALLOC_FAILED, rcs)
            else if length data < at + len then None
            else
              (let buf = take len (drop at data)
               in if type = TLV_CODE then rcs_loop alloc data tot (at + len) (rcs\<lparr>rc_code := Some buf\<rparr>)
                  else if type = TLV_URL0 then rcs_loop alloc data tot (at + len) (rcs\<lparr>rc_url0 := Some buf\<rparr>)
                  else if type = TLV_URLX then rcs_loop alloc data tot (at + len) (rcs\<lparr>rc_urlx := Some buf\<rparr>)
                  else if type = TLV_CA then rcs_loop alloc data tot (at + len) (rcs\<lparr>rc_ca := Some buf, rc_ca_len := len\<rparr>)
                  else Some (OPRT_INVALID_PARM, rcs))))"
  by pat_completeness auto
termination
  by (relation "measure (\<lambda>(alloc, data, tot, off, rcs). tot - off)") auto

declare rcs_loop.simps [simp del]

definition rcs_deserialize :: "(nat \<Rightarrow> bool) \<Rightarrow> byte list \<Rightarrow> nat \<Rightarrow> register_center \<Rightarrow> (operate_ret \<times> register_center) option" where
  "rcs_deserialize alloc data tot rcs = rcs_loop alloc data (tot mod 65536) 0 rcs"

text \<open>The members of a JSON object; \<open>Some None\<close> is a member that is not a string.\<close>

record rcs_json =
  j_source :: "int option"
  j_pub :: "int option"
  j_code :: "byte list option option"
  j_url0 :: "byte list option option"
  j_urlx :: "byte list option option"
  j_ca :: "byte list option option"

definition rcs_restore :: "bool \<Rightarrow> bool \<Rightarrow> rcs_json \<Rightarrow> (operate_ret \<times> register_center) option" where
  "rcs_restore sl0 alloc js =
     (case (j_source js, j_pub js, j_url0 js) of
        (Some source, Some pub, Some url0) \<Rightarrow>
          if \<not> sl0 \<and> (j_urlx js = None \<or> j_ca js = None) then Some (OPRT_CJSON_GET_ERR, rcs_zero)
          else
            (let rcs = rcs_zero\<lparr>rc_source := source, rc_pub := pub,
                       rc_code := (case j_code js of None \<Rightarrow> None | Some s \<Rightarrow> mm_strdup alloc s), rc_url0 := mm_strdup alloc url0\<rparr>
             in if rc_code rcs = None \<and> j_code js \<noteq> None \<or> rc_url0 rcs = None then Some (OPRT_MALLOC_FAILED, rcs)
                else if sl0 then Some (OPRT_OK, rcs)
                else
                  (case the (j_ca js) of
                     None \<Rightarrow> None
                   | Some ca \<Rightarrow>
                       (let rcs = rcs\<lparr>rc_urlx := mm_strdup alloc (the (j_urlx js)), rc_ca := mm_strdup alloc (Some ca), rc_ca_len := length ca + 1\<rparr>
                        in if rc_urlx rcs = None \<or> rc_ca rcs = None then Some (OPRT_MALLOC_FAILED, rcs) else Some (OPRT_OK, rcs))))
      | _ \<Rightarrow> Some (OPRT_CJSON_GET_ERR, rcs_zero))"

datatype rcs_key = RCS_KV_MF | RCS_KV_ACTIVE

record rcs_sys =
  s_tuya_rcs :: register_center
  rcs_kv :: "rcs_key \<Rightarrow> byte list option"
  rcs_published :: nat

text \<open>The results of the calls a save makes.\<close>

record rcs_env =
  json_printed :: bool
  restore_alloc :: bool
  der_alloc :: bool
  serialize_alloc :: bool
  kv_set_result :: operate_ret

definition tuya_register_center_save ::
    "bool \<Rightarrow> (byte list \<Rightarrow> pem_result) \<Rightarrow> rcs_env \<Rightarrow> int \<Rightarrow> rcs_json option \<Rightarrow> rcs_sys \<Rightarrow> (operate_ret \<times> rcs_sys) option" where
  "tuya_register_center_save sl0 pem env source json s =
     (case json of
        None \<Rightarrow> Some (OPRT_INVALID_PARM, s)
      | Some js \<Rightarrow>
          (let js = js\<lparr>j_source := (case j_source js of Some x \<Rightarrow> Some x | None \<Rightarrow> Some source)\<rparr>
           in if \<not> json_printed env then Some (OPRT_CJSON_PARSE_ERR, s)
              else
                Option.bind (rcs_restore sl0 (restore_alloc env) js) (\<lambda>(rt, tmp).
                  if rt \<noteq> OPRT_OK then Some (OPRT_CJSON_GET_ERR, s)
                  else
                    Option.bind (rcs_serialize sl0 (der_alloc env) (serialize_alloc env) pem tmp) (\<lambda>(rt, data).
                      if rt \<noteq> OPRT_OK then Some (OPRT_CR_CJSON_ERR, s)
                      else
                        (let key = (if source = RCS_MF then RCS_KV_MF else RCS_KV_ACTIVE);
                             rt = kv_set_result env;
                             s = (if rt = OPRT_OK
                                  then s\<lparr>rcs_kv := (rcs_kv s)(key := Some (take (length data mod 65536) data)), s_tuya_rcs := tmp\<rparr> else s)
                         in Some (rt, s\<lparr>rcs_published := rcs_published s + 1\<rparr>))))))"

definition tuya_register_center_init :: "register_center \<Rightarrow> (nat \<Rightarrow> bool) \<Rightarrow> rcs_sys \<Rightarrow> (operate_ret \<times> rcs_sys) option" where
  "tuya_register_center_init s_def_rcs alloc s =
     (if rc_url0 (s_tuya_rcs s) \<noteq> None then Some (OPRT_OK, s)
      else
        (let stored = (case rcs_kv s RCS_KV_ACTIVE of Some d \<Rightarrow> Some d | None \<Rightarrow> rcs_kv s RCS_KV_MF)
         in case stored of
              None \<Rightarrow> Some (OPRT_OK, s\<lparr>s_tuya_rcs := s_def_rcs\<rparr>)
            | Some data \<Rightarrow>
                map_option (\<lambda>(rt, rcs). (OPRT_OK, s\<lparr>s_tuya_rcs := (if rt \<noteq> OPRT_OK then s_def_rcs else rcs)\<rparr>))
                  (rcs_deserialize alloc data (length data) (s_tuya_rcs s))))"

definition tuya_register_center_get :: "rcs_sys \<Rightarrow> operate_ret \<times> register_center" where
  "tuya_register_center_get s = (OPRT_OK, s_tuya_rcs s)"

definition tuya_register_center_get_url :: "rcs_sys \<Rightarrow> byte list option" where
  "tuya_register_center_get_url s =
     (case rc_urlx (s_tuya_rcs s) of Some u \<Rightarrow> Some u | None \<Rightarrow> rc_url0 (s_tuya_rcs s))"

definition tuya_register_center_update ::
    "bool \<Rightarrow> (byte list \<Rightarrow> pem_result) \<Rightarrow> rcs_env \<Rightarrow> byte list option \<Rightarrow> nat \<Rightarrow> rcs_sys \<Rightarrow> (operate_ret \<times> rcs_sys) option" where
  "tuya_register_center_update sl0 pem env ca_cert ca_cert_len s =
     (case ca_cert of
        None \<Rightarrow> Some (OPRT_INVALID_PARM, s)
      | Some ca \<Rightarrow>
          if ca_cert_len = 0 then Some (OPRT_INVALID_PARM, s)
          else
            (case rc_url0 (s_tuya_rcs s) of
               None \<Rightarrow> Some (OPRT_RESOURCE_NOT_READY, s)
             | Some url0 \<Rightarrow>
                 tuya_register_center_save sl0 pem env RCS_APP
                   (Some \<lparr>j_source = None, j_pub = Some (if rc_pub (s_tuya_rcs s) \<noteq> 0 then 1 else 0),
                      j_code = Some (map_option str_of (rc_code (s_tuya_rcs s))), j_url0 = Some (Some (str_of url0)),
                      j_urlx = Some (map_option str_of (rc_urlx (s_tuya_rcs s))), j_ca = Some (Some (str_of ca))\<rparr>) s))"

definition tuya_register_center_reset :: "rcs_sys \<Rightarrow> operate_ret \<times> rcs_sys" where
  "tuya_register_center_reset s = (OPRT_OK, s\<lparr>rcs_kv := (rcs_kv s)(RCS_KV_ACTIVE := None)\<rparr>)"

section \<open>Entries\<close>

definition entry :: "byte \<times> byte list \<Rightarrow> byte list" where
  "entry e = [fst e, of_nat (length (snd e) mod 256), of_nat (length (snd e) div 256)] @ snd e"

lemma entry_length [simp]: "length (entry e) = 3 + length (snd e)"
  by (simp add: entry_def)

lemma tlv_put_at:
  assumes "3 + length v \<le> k" "length p + 3 + length v < 65536"
  shows "tlv_put t v (p @ replicate k 0, length p) = Some ((p @ entry (t, v)) @ replicate (k - length (entry (t, v))) 0, length (p @ entry (t, v)))"
proof -
  have l: "length v mod 65536 = length v" "(length p + 3 + length v) mod 65536 = length p + 3 + length v" using assms(2) by simp_all
  have m: "memcpy_at (p @ replicate k 0) (length p) (entry (t, v)) = (p @ entry (t, v)) @ replicate (k - length (entry (t, v))) 0"
    by (simp add: memcpy_at_def)
  have "\<not> length p + 3 + length v > length (p @ replicate k (0 :: byte))" using assms(1) by simp
  then show ?thesis
    unfolding tlv_put_def Let_def prod.case l take_all [OF order_refl] using m by (simp add: entry_def)
qed

text \<open>The entries of a record, in the order they are written.\<close>

definition opt_entry :: "byte \<Rightarrow> byte list option \<Rightarrow> (byte \<times> byte list) list" where
  "opt_entry t v = (case v of None \<Rightarrow> [] | Some b \<Rightarrow> [(t, with_nul b)])"

definition rcs_entries :: "bool \<Rightarrow> byte list \<Rightarrow> register_center \<Rightarrow> (byte \<times> byte list) list" where
  "rcs_entries sl0 der rcs =
     [(TLV_SRC, [of_int (rc_source rcs)]), (TLV_PUB, [of_int (rc_pub rcs)])] @ opt_entry TLV_CODE (rc_code rcs)
     @ opt_entry TLV_URL0 (rc_url0 rcs) @ (if sl0 then [] else opt_entry TLV_URLX (rc_urlx rcs) @ [(TLV_CA, der)])"

fun put_all :: "(byte \<times> byte list) list \<Rightarrow> byte list \<times> nat \<Rightarrow> (byte list \<times> nat) option" where
  "put_all [] s = Some s"
| "put_all (e # es) s = Option.bind (tlv_put (fst e) (snd e) s) (put_all es)"

lemma put_all_at:
  assumes "length (concat (map entry es)) \<le> k" "length p + length (concat (map entry es)) < 65536"
  shows "put_all es (p @ replicate k 0, length p) =
    Some ((p @ concat (map entry es)) @ replicate (k - length (concat (map entry es))) 0, length (p @ concat (map entry es)))"
  using assms
proof (induction es arbitrary: p k)
  case (Cons e es)
  have "tlv_put (fst e) (snd e) (p @ replicate k 0, length p) = Some ((p @ entry e) @ replicate (k - length (entry e)) 0, length (p @ entry e))"
    using tlv_put_at [of "snd e" k p "fst e"] Cons.prems by simp
  moreover have "put_all es ((p @ entry e) @ replicate (k - length (entry e)) 0, length (p @ entry e)) =
    Some (((p @ entry e) @ concat (map entry es)) @ replicate (k - length (entry e) - length (concat (map entry es))) 0,
      length ((p @ entry e) @ concat (map entry es)))"
    using Cons.prems by (intro Cons.IH) simp_all
  ultimately show ?case by simp
qed simp

lemma put_all_append: "put_all (xs @ ys) s = Option.bind (put_all xs s) (put_all ys)"
  by (induction xs arbitrary: s) (auto split: bind_splits)

lemma rcs_fill_entries:
  assumes "rc_url0 rcs \<noteq> None" "sl0 \<or> rc_urlx rcs \<noteq> None"
  shows "rcs_fill sl0 der rcs tot = map_option fst (put_all (rcs_entries sl0 der rcs) (replicate tot 0, 0))"
  using assms by (cases "rc_code rcs") (auto simp: rcs_fill_def rcs_entries_def opt_entry_def put_opt_def put_all_append
      bind_map_option comp_def split: bind_splits intro!: arg_cong2 [of _ _ _ _ Option.bind])

text \<open>What the decoder does with one entry.\<close>

definition apply_entry :: "byte \<times> byte list \<Rightarrow> register_center \<Rightarrow> register_center" where
  "apply_entry e rcs =
     (let (t, v) = e
      in if t = TLV_SRC then rcs\<lparr>rc_source := uint (v ! 0)\<rparr>
         else if t = TLV_PUB then rcs\<lparr>rc_pub := uint (v ! 0)\<rparr>
         else if t = TLV_CODE then rcs\<lparr>rc_code := Some v\<rparr>
         else if t = TLV_URL0 then rcs\<lparr>rc_url0 := Some v\<rparr>
         else if t = TLV_URLX then rcs\<lparr>rc_urlx := Some v\<rparr>
         else rcs\<lparr>rc_ca := Some v, rc_ca_len := length v\<rparr>)"

definition valid_entry :: "byte \<times> byte list \<Rightarrow> bool" where
  "valid_entry e \<longleftrightarrow> snd e \<noteq> [] \<and> length (snd e) < 65536
     \<and> (fst e = TLV_SRC \<or> fst e = TLV_PUB \<or> fst e = TLV_CODE \<or> fst e = TLV_URL0 \<or> fst e = TLV_URLX \<or> fst e = TLV_CA)
     \<and> (fst e = TLV_SRC \<or> fst e = TLV_PUB \<longrightarrow> length (snd e) = 1)"

lemma length_bytes:
  assumes "n < 65536"
  shows "unat (of_nat (n mod 256) :: byte) + 256 * unat (of_nat (n div 256) :: byte) = n"
proof -
  have "n div 256 < 256" using assms by simp
  then have "unat (of_nat (n mod 256) :: byte) = n mod 256" "unat (of_nat (n div 256) :: byte) = n div 256"
    by (simp_all add: unat_of_nat)
  then show ?thesis by simp
qed

lemma loop_entry:
  assumes v: "valid_entry e" and data: "data = p @ entry e @ rest" and tot: "length p + length (entry e) \<le> tot" "tot \<le> length data"
  shows "rcs_loop (\<lambda>_. True) data tot (length p) rcs = rcs_loop (\<lambda>_. True) data tot (length (p @ entry e)) (apply_entry e rcs)"
proof -
  obtain t w where e: "e = (t, w)" by (cases e)
  have w: "w \<noteq> []" "length w < 65536" using v e by (simp_all add: valid_entry_def)
  have n: "data ! length p = t" "data ! (length p + 1) = of_nat (length w mod 256)" "data ! (length p + 2) = of_nat (length w div 256)"
    "data ! (length p + 3) = w ! 0" "take (length w) (drop (length p + 3) data) = w"
    using w(1) by (simp_all add: data e entry_def nth_append)
  have b: "length p + 3 < tot" "\<not> length data < length p + 3" "\<not> length data \<le> length p + 3" "\<not> length data < length p + 3 + length w"
    "\<not> length w + (length p + 3) > tot" "length w \<noteq> 0" using tot e w(1) by (cases w; auto simp: data)+
  have t: "t = TLV_SRC \<and> length w = 1 \<or> t = TLV_PUB \<and> length w = 1 \<or> t = TLV_CODE \<or> t = TLV_URL0 \<or> t = TLV_URLX \<or> t = TLV_CA"
    using v e by (auto simp: valid_entry_def)
  have t0: "t \<noteq> 0" using t by auto
  have b1: "length w = Suc 0 \<Longrightarrow> \<not> tot < 4 + length p" using tot e by simp
  have ln: "length (p @ entry e) = length p + 3 + length w" by (simp add: e)
  show ?thesis
    unfolding ln by (subst rcs_loop.simps, unfold Let_def n length_bytes [OF w(2)], use t in \<open>elim disjE\<close>)
      (simp_all add: e apply_entry_def b b1 t0 w(1))
qed

lemma loop_entries:
  assumes "\<forall>e \<in> set es. valid_entry e" "data = p @ concat (map entry es) @ replicate k 0" "tot \<le> length data"
    "length p + length (concat (map entry es)) \<le> tot"
  shows "rcs_loop (\<lambda>_. True) data tot (length p) rcs = Some (OPRT_OK, fold apply_entry es rcs)"
  using assms
proof (induction es arbitrary: p rcs)
  case Nil
  show ?case
  proof (cases "length p + 3 < tot")
    case True
    then have "data ! length p = 0" "\<not> length data < length p + 3" using Nil.prems by (auto simp: nth_append)
    then show ?thesis using True by (subst rcs_loop.simps) simp
  qed (subst rcs_loop.simps, simp)
next
  case (Cons e es)
  have "rcs_loop (\<lambda>_. True) data tot (length p) rcs = rcs_loop (\<lambda>_. True) data tot (length (p @ entry e)) (apply_entry e rcs)"
    by (rule loop_entry [of _ _ _ "concat (map entry es) @ replicate k 0"]) (use Cons.prems in auto)
  also have "\<dots> = Some (OPRT_OK, fold apply_entry es (apply_entry e rcs))"
    by (rule Cons.IH) (use Cons.prems in auto)
  finally show ?case by simp
qed

section \<open>Encoding and decoding a record\<close>

definition c_block :: "byte list option \<Rightarrow> bool" where
  "c_block b \<longleftrightarrow> (case b of None \<Rightarrow> True | Some x \<Rightarrow> x = with_nul x)"

definition rcs_ok :: "bool \<Rightarrow> register_center \<Rightarrow> bool" where
  "rcs_ok sl0 rcs \<longleftrightarrow> 0 \<le> rc_source rcs \<and> rc_source rcs < 256 \<and> 0 \<le> rc_pub rcs \<and> rc_pub rcs < 256 \<and> rc_url0 rcs \<noteq> None
     \<and> (if sl0 then rc_urlx rcs = None \<and> rc_ca rcs = None \<and> rc_ca_len rcs = 0 else rc_urlx rcs \<noteq> None)
     \<and> c_block (rc_code rcs) \<and> c_block (rc_url0 rcs) \<and> c_block (rc_urlx rcs)"

text \<open>What is read back: the record with the certificate in its binary form.\<close>

definition rcs_stored :: "bool \<Rightarrow> byte list \<Rightarrow> register_center \<Rightarrow> register_center" where
  "rcs_stored sl0 der rcs = (if sl0 then rcs else rcs\<lparr>rc_ca := Some der, rc_ca_len := length der\<rparr>)"

lemma byte_int: "0 \<le> x \<Longrightarrow> x < 256 \<Longrightarrow> uint (of_int x :: byte) = x"
  by (simp add: uint_word_of_int)

lemma apply_entries:
  assumes "rcs_ok sl0 rcs"
  shows "fold apply_entry (rcs_entries sl0 der rcs) rcs_zero = rcs_stored sl0 der rcs"
  using assms by (cases rcs) (auto simp: rcs_entries_def opt_entry_def rcs_ok_def c_block_def apply_entry_def rcs_stored_def rcs_zero_def byte_int
      split: option.splits)

text \<open>The size the encoder allocates is more than it needs.\<close>

definition rcs_total :: "bool \<Rightarrow> byte list \<Rightarrow> register_center \<Rightarrow> nat" where
  "rcs_total sl0 der rcs = 4 * TLV_MAX + 1 + 1 + length (str_of (the (rc_url0 rcs))) + 1
     + (case rc_code rcs of None \<Rightarrow> 0 | Some c \<Rightarrow> length (str_of c)) + (if sl0 then 0 else length der + length (str_of (the (rc_urlx rcs))))"

lemma entries_fit: "rcs_ok sl0 rcs \<Longrightarrow> length (concat (map entry (rcs_entries sl0 der rcs))) \<le> rcs_total sl0 der rcs"
  by (auto simp: rcs_entries_def opt_entry_def rcs_ok_def rcs_total_def with_nul_def split: option.splits)

lemma entries_valid:
  assumes "rcs_ok sl0 rcs" "sl0 \<or> der \<noteq> []" "rcs_total sl0 der rcs < 65536"
  shows "\<forall>e \<in> set (rcs_entries sl0 der rcs). valid_entry e"
  using assms by (auto simp: rcs_entries_def opt_entry_def rcs_ok_def rcs_total_def with_nul_def valid_entry_def split: option.splits)

lemma rcs_serialized:
  assumes ok: "rcs_ok sl0 rcs" and der: "sl0 \<or> tuya_x509_pem2der mem pem (rc_ca rcs) (rc_ca_len rcs) = (OPRT_OK, der)"
    and small: "rcs_total sl0 der rcs < 65536"
  defines "c \<equiv> concat (map entry (rcs_entries sl0 der rcs))"
  shows "rcs_serialize sl0 mem True pem rcs = Some (OPRT_OK, c @ replicate (rcs_total sl0 der rcs - length c) 0)"
proof -
  let ?es = "rcs_entries sl0 der rcs" and ?tot = "rcs_total sl0 der rcs"
  have f: "length c \<le> ?tot" unfolding c_def by (rule entries_fit [OF ok])
  have u: "rc_url0 rcs \<noteq> None" "sl0 \<or> rc_urlx rcs \<noteq> None" using ok by (auto simp: rcs_ok_def split: if_splits)
  have fill: "rcs_fill sl0 der rcs ?tot = Some (c @ replicate (?tot - length c) 0)"
    using put_all_at [of ?es ?tot "[]"] f small by (simp add: rcs_fill_entries [OF u] c_def)
  have "rcs_serialize sl0 mem True pem rcs = map_option (\<lambda>buf. (OPRT_OK, buf)) (rcs_fill sl0 der rcs ?tot)"
  proof (cases sl0)
    case True
    then have "rcs_fill sl0 [] rcs = rcs_fill sl0 der rcs" by (simp add: rcs_fill_def fun_eq_iff)
    then show ?thesis using u True by (auto simp: rcs_serialize_def rcs_total_def)
  next
    case False
    then show ?thesis using u der by (auto simp: rcs_serialize_def rcs_total_def Let_def ac_simps)
  qed
  then show ?thesis by (simp add: fill)
qed

text \<open>An empty entry of a certificate makes the decoder fail.\<close>

lemma loop_empty_cert:
  assumes "data = p @ [TLV_CA, 0, 0] @ rest" "length p + 3 < tot" "tot \<le> length data"
  shows "rcs_loop alloc data tot (length p) rcs = Some (OPRT_INVALID_PARM, rcs)"
  by (subst rcs_loop.simps) (use assms in \<open>simp add: nth_append\<close>)

lemma loop_prefix:
  assumes "\<forall>e \<in> set es. valid_entry e" "data = p @ concat (map entry es) @ rest" "length p + length (concat (map entry es)) \<le> tot" "tot \<le> length data"
  shows "rcs_loop (\<lambda>_. True) data tot (length p) rcs = rcs_loop (\<lambda>_. True) data tot (length (p @ concat (map entry es))) (fold apply_entry es rcs)"
  using assms
proof (induction es arbitrary: p rcs)
  case (Cons e es)
  have "rcs_loop (\<lambda>_. True) data tot (length p) rcs = rcs_loop (\<lambda>_. True) data tot (length (p @ entry e)) (apply_entry e rcs)"
    by (rule loop_entry [of _ _ _ "concat (map entry es) @ rest"]) (use Cons.prems in auto)
  also have "\<dots> = rcs_loop (\<lambda>_. True) data tot (length ((p @ entry e) @ concat (map entry es))) (fold apply_entry es (apply_entry e rcs))"
    by (rule Cons.IH) (use Cons.prems in auto)
  finally show ?case by simp
qed simp

text \<open>What the decoder makes of the encoded record: the record, or an error when the certificate has no binary form.\<close>

lemma rcs_codec:
  assumes ok: "rcs_ok sl0 rcs" and small: "rcs_total sl0 der rcs < 65536"
  defines "c \<equiv> concat (map entry (rcs_entries sl0 der rcs))"
  defines "data \<equiv> c @ replicate (rcs_total sl0 der rcs - length c) 0"
  shows "length data < 65536" "sl0 \<or> der \<noteq> [] \<Longrightarrow> rcs_deserialize (\<lambda>_. True) data (length data) rcs_zero = Some (OPRT_OK, rcs_stored sl0 der rcs)"
    "\<not> (sl0 \<or> der \<noteq> []) \<Longrightarrow> \<exists>r. rcs_deserialize (\<lambda>_. True) data (length data) rcs_zero = Some (OPRT_INVALID_PARM, r)"
proof -
  let ?es = "rcs_entries sl0 der rcs" and ?tot = "rcs_total sl0 der rcs"
  have f: "length c \<le> ?tot" unfolding c_def by (rule entries_fit [OF ok])
  have len: "length data = ?tot" using f by (simp add: data_def)
  show "length data < 65536" using len small by simp
  show "rcs_deserialize (\<lambda>_. True) data (length data) rcs_zero = Some (OPRT_OK, rcs_stored sl0 der rcs)" if d: "sl0 \<or> der \<noteq> []"
  proof -
    have "rcs_loop (\<lambda>_. True) data ?tot (length ([] :: byte list)) rcs_zero = Some (OPRT_OK, fold apply_entry ?es rcs_zero)"
      by (rule loop_entries [where p = "[]"]) (use entries_valid [OF ok d small] f len in \<open>auto simp: data_def c_def\<close>)
    then show ?thesis using small by (simp add: rcs_deserialize_def len apply_entries [OF ok])
  qed
  show "\<exists>r. rcs_deserialize (\<lambda>_. True) data (length data) rcs_zero = Some (OPRT_INVALID_PARM, r)" if d: "\<not> (sl0 \<or> der \<noteq> [])"
  proof -
    define ps where "ps = [(TLV_SRC, [of_int (rc_source rcs)]), (TLV_PUB, [of_int (rc_pub rcs)])] @ opt_entry TLV_CODE (rc_code rcs)
        @ opt_entry TLV_URL0 (rc_url0 rcs) @ opt_entry TLV_URLX (rc_urlx rcs)"
    have e: "?es = ps @ [(TLV_CA, [])]" using d by (simp add: rcs_entries_def ps_def)
    obtain u x where ux: "rc_url0 rcs = Some u" "rc_urlx rcs = Some x" using ok d by (auto simp: rcs_ok_def)
    have v: "\<forall>e \<in> set ps. valid_entry e" using small d
      by (auto simp: ps_def opt_entry_def rcs_total_def with_nul_def valid_entry_def ux split: option.splits)
    have room: "length (concat (map entry ps)) + 3 < ?tot"
      using ok d by (auto simp: ps_def opt_entry_def rcs_ok_def rcs_total_def with_nul_def split: option.splits)
    have dt: "data = concat (map entry ps) @ [TLV_CA, 0, 0] @ replicate (?tot - length c) 0" by (simp add: data_def c_def e entry_def)
    have "rcs_loop (\<lambda>_. True) data ?tot (length ([] :: byte list)) rcs_zero = rcs_loop (\<lambda>_. True) data ?tot (length ([] @ concat (map entry ps))) (fold apply_entry ps rcs_zero)"
      by (rule loop_prefix [OF v, of _ _ "[TLV_CA, 0, 0] @ replicate (?tot - length c) 0"]) (use dt room len in simp_all)
    then show ?thesis using loop_empty_cert [OF dt room] small by (simp add: rcs_deserialize_def len)
  qed
qed

section \<open>Properties\<close>

lemma dup_block:
  assumes "0 \<notin> set x"
  shows "mm_strdup True (Some x) = Some (x @ [0])" "str_of (x @ [0]) = x" "c_block (Some (x @ [0]))"
proof -
  show s: "str_of (x @ [0]) = x" using assms by (auto simp: str_of_def takeWhile_tail)
  then show "c_block (Some (x @ [0]))" by (simp add: c_block_def with_nul_def)
qed (simp add: mm_strdup_def memcpy_at_def del: replicate_Suc, simp)

text \<open>The strings of a JSON object hold no zero byte.\<close>

definition json_text :: "byte list option option \<Rightarrow> bool" where
  "json_text m \<longleftrightarrow> (case m of Some (Some x) \<Rightarrow> 0 \<notin> set x | _ \<Rightarrow> True)"

lemma dup_member:
  assumes "json_text m"
  shows "c_block (case m of None \<Rightarrow> None | Some x \<Rightarrow> mm_strdup True x)"
  using assms dup_block by (auto simp: json_text_def mm_strdup_def [of _ None] c_block_def [of None] split: option.splits)

lemma restore_ok:
  assumes r: "rcs_restore sl0 True js = Some (OPRT_OK, rcs)"
    and strs: "json_text (j_code js)" "json_text (j_url0 js)" "json_text (j_urlx js)"
    and range: "\<forall>x. j_source js = Some x \<longrightarrow> 0 \<le> x \<and> x < 256" "\<forall>x. j_pub js = Some x \<longrightarrow> 0 \<le> x \<and> x < 256"
  shows "rcs_ok sl0 rcs"
proof -
  obtain source pub url0 where j: "j_source js = Some source" "j_pub js = Some pub" "j_url0 js = Some url0"
    using r by (cases "j_source js"; cases "j_pub js"; cases "j_url0 js") (simp_all add: rcs_restore_def)
  have b: "c_block (mm_strdup True url0)" "c_block (case j_code js of None \<Rightarrow> None | Some x \<Rightarrow> mm_strdup True x)"
    using dup_member [OF strs(2)] dup_member [OF strs(1)] j(3) by simp_all
  note r = r [unfolded rcs_restore_def j option.case prod.case Let_def]
  show ?thesis
  proof (cases sl0)
    case True
    then show ?thesis using r b range j by (auto simp: rcs_ok_def rcs_zero_def c_block_def [of None] split: if_splits)
  next
    case False
    obtain urlx where x: "j_urlx js = Some urlx" using r False by (cases "j_urlx js") simp_all
    have "c_block (mm_strdup True urlx)" using dup_member [OF strs(3)] x by simp
    then show ?thesis using r b range j False x by (auto simp: rcs_ok_def rcs_zero_def split: if_splits option.splits)
  qed
qed

text \<open>
  The decoder never reads outside its data: for any bytes, also damaged ones, and any outcome of the allocations it returns, with success or an error.
\<close>

theorem rcs_deserialize_safe:
  assumes "n \<le> length data"
  shows "rcs_deserialize alloc data n rcs \<noteq> None"
proof -
  have "tot \<le> length data \<Longrightarrow> rcs_loop alloc data tot off rcs \<noteq> None" for tot off
  proof (induction alloc data tot off rcs rule: rcs_loop.induct)
    case (1 alloc data tot off rcs)
    show ?case by (subst rcs_loop.simps) (use 1 in \<open>auto simp: Let_def\<close>)
  qed
  moreover have "n mod 65536 \<le> length data" using assms by (meson le_trans mod_less_eq_dividend)
  ultimately show ?thesis by (simp add: rcs_deserialize_def)
qed

theorem rcs_deserialize_safe_witness: "rcs_deserialize (\<lambda>_. True) [3, 255, 255, 7, 9] 5 rcs_zero \<noteq> None"
  by (rule rcs_deserialize_safe) simp

text \<open>
  C27. A register center that was saved successfully is the one in use, and after a restart the initialisation loads it again, with the
  certificate in its binary form, provided that the certificate has one: a certificate without a PEM header, and one whose binary form gets no memory, is saved with success as an
  empty entry, and the restart falls back to the built-in center. A center of the manufacturer is meant to be overridden by an active center, so for it there is no active center in the
  store. The strings hold no zero byte, the two numbers fit a byte and the encoding fits 16 bits.
\<close>

theorem rcs_survives_restart:
  assumes save: "tuya_register_center_save sl0 pem env source (Some js) s = Some (OPRT_OK, s')" "restore_alloc env"
    and json: "json_text (j_code js)" "json_text (j_url0 js)" "json_text (j_urlx js)" "j_source js = None"
      "\<forall>x. j_pub js = Some x \<longrightarrow> 0 \<le> x \<and> x < 256" "0 \<le> source" "source < 256"
    and store: "source = RCS_MF \<longrightarrow> rcs_kv s RCS_KV_ACTIVE = None"
  defines "der \<equiv> snd (tuya_x509_pem2der (der_alloc env) pem (rc_ca (s_tuya_rcs s')) (rc_ca_len (s_tuya_rcs s')))"
  assumes small: "rcs_total sl0 der (s_tuya_rcs s') < 65536"
  shows "\<exists>t. tuya_register_center_init def (\<lambda>_. True) (s'\<lparr>s_tuya_rcs := rcs_zero\<rparr>) = Some (OPRT_OK, t)
    \<and> s_tuya_rcs t = (if sl0 \<or> der \<noteq> [] then rcs_stored sl0 der (s_tuya_rcs s') else def)"
proof -
  let ?js = "js\<lparr>j_source := Some source\<rparr>"
  obtain tmp data where t: "rcs_restore sl0 True ?js = Some (OPRT_OK, tmp)" "rcs_serialize sl0 (der_alloc env) (serialize_alloc env) pem tmp = Some (OPRT_OK, data)"
    and s': "s_tuya_rcs s' = tmp"
      "rcs_kv s' = (rcs_kv s)((if source = RCS_MF then RCS_KV_MF else RCS_KV_ACTIVE) := Some (take (length data mod 65536) data))"
    using save json(4) by (auto simp: tuya_register_center_save_def Let_def bind_eq_Some_conv split: if_splits)
  have ok: "rcs_ok sl0 tmp" by (rule restore_ok [OF t(1)]) (use json in auto)
  have m: "serialize_alloc env" "sl0 \<or> tuya_x509_pem2der (der_alloc env) pem (rc_ca tmp) (rc_ca_len tmp) = (OPRT_OK, der)"
    using t(2) by (auto simp: rcs_serialize_def der_def s'(1) Let_def split: option.splits if_splits prod.splits)
  have sm: "rcs_total sl0 der tmp < 65536" using small s'(1) by simp
  define c where "c = concat (map entry (rcs_entries sl0 der tmp))"
  have d: "data = c @ replicate (rcs_total sl0 der tmp - length c) 0" using rcs_serialized [OF ok m(2) sm] t(2) m(1) by (simp add: c_def)
  note D = rcs_codec [OF ok sm, folded c_def, folded d]
  have kv: "(case rcs_kv s' RCS_KV_ACTIVE of Some d \<Rightarrow> Some d | None \<Rightarrow> rcs_kv s' RCS_KV_MF) = Some data"
    using s'(2) D(1) store by auto
  have z: "rcs_kv (s'\<lparr>s_tuya_rcs := rcs_zero\<rparr>) = rcs_kv s'" "rc_url0 rcs_zero = None" by (simp_all add: rcs_zero_def)
  obtain rt rcs where r: "rcs_deserialize (\<lambda>_. True) data (length data) rcs_zero = Some (rt, rcs)"
    "(if rt \<noteq> OPRT_OK then def else rcs) = (if sl0 \<or> der \<noteq> [] then rcs_stored sl0 der tmp else def)"
    using D(2,3) by (cases "sl0 \<or> der \<noteq> []") auto
  show ?thesis unfolding tuya_register_center_init_def Let_def z kv using r s'(1) z(2) by simp
qed

definition rcs_json_demo :: rcs_json where
  "rcs_json_demo = \<lparr>j_source = None, j_pub = Some 1, j_code = None, j_url0 = Some (Some [104, 51]), j_urlx = Some (Some [104, 54]),
     j_ca = Some (Some (replicate 64 65))\<rparr>"

definition rcs_env_demo :: rcs_env where
  "rcs_env_demo = \<lparr>json_printed = True, restore_alloc = True, der_alloc = True, serialize_alloc = True, kv_set_result = OPRT_OK\<rparr>"

definition rcs_sys_demo :: rcs_sys where
  "rcs_sys_demo = \<lparr>s_tuya_rcs = rcs_zero, rcs_kv = (\<lambda>_. None), rcs_published = 0\<rparr>"

lemma rcs_demo_saved:
  obtains s' where "tuya_register_center_save False (\<lambda>_. PEM_DER [48, 130]) rcs_env_demo RCS_APP (Some rcs_json_demo) rcs_sys_demo = Some (OPRT_OK, s')"
    "s_tuya_rcs s' = \<lparr>rc_source = 0, rc_pub = 1, rc_code = None, rc_url0 = Some [104, 51, 0], rc_urlx = Some [104, 54, 0],
       rc_ca = Some (replicate 64 65 @ [0]), rc_ca_len = 65\<rparr>"
proof -
  let ?tmp = "\<lparr>rc_source = 0, rc_pub = 1, rc_code = None, rc_url0 = Some [104, 51, 0], rc_urlx = Some [104, 54, 0],
       rc_ca = Some (replicate 64 65 @ [0]), rc_ca_len = 65\<rparr>"
  have ca: "mm_strdup True (Some (replicate 64 65)) = Some (replicate 64 65 @ [0])" by (rule dup_block(1)) simp
  have r: "rcs_restore False True (rcs_json_demo\<lparr>j_source := Some 0\<rparr>) = Some (OPRT_OK, ?tmp)"
    using ca dup_block(1) [of "[104, 51]"] dup_block(1) [of "[104, 54]"]
    by (simp add: rcs_restore_def rcs_json_demo_def rcs_zero_def)
  have ok: "rcs_ok False ?tmp" by (simp add: rcs_ok_def c_block_def with_nul_def str_of_def)
  obtain data where "rcs_serialize False True True (\<lambda>_. PEM_DER [48, 130]) ?tmp = Some (OPRT_OK, data)"
    using rcs_serialized [OF ok, of True "\<lambda>_. PEM_DER [48, 130]" "[48, 130]"] by (auto simp: tuya_x509_pem2der_def rcs_total_def str_of_def)
  with r show ?thesis
    by (intro that) (auto simp: tuya_register_center_save_def rcs_env_demo_def rcs_json_demo_def)
qed

theorem rcs_survives_restart_witness:
  "\<exists>s' t. tuya_register_center_save False (\<lambda>_. PEM_DER [48, 130]) rcs_env_demo RCS_APP (Some rcs_json_demo) rcs_sys_demo = Some (OPRT_OK, s')
    \<and> tuya_register_center_init rcs_zero (\<lambda>_. True) (s'\<lparr>s_tuya_rcs := rcs_zero\<rparr>) = Some (OPRT_OK, t)
    \<and> rc_url0 (s_tuya_rcs t) = Some [104, 51, 0] \<and> rc_ca (s_tuya_rcs t) = Some [48, 130]"
proof -
  obtain s' where s: "tuya_register_center_save False (\<lambda>_. PEM_DER [48, 130]) rcs_env_demo RCS_APP (Some rcs_json_demo) rcs_sys_demo = Some (OPRT_OK, s')"
    "s_tuya_rcs s' = \<lparr>rc_source = 0, rc_pub = 1, rc_code = None, rc_url0 = Some [104, 51, 0], rc_urlx = Some [104, 54, 0],
       rc_ca = Some (replicate 64 65 @ [0]), rc_ca_len = 65\<rparr>" using rcs_demo_saved .
  have d: "snd (tuya_x509_pem2der (der_alloc rcs_env_demo) (\<lambda>_. PEM_DER [48, 130]) (rc_ca (s_tuya_rcs s')) (rc_ca_len (s_tuya_rcs s'))) = [48, 130]"
    by (simp add: s(2) rcs_env_demo_def tuya_x509_pem2der_def)
  have "\<exists>t. tuya_register_center_init rcs_zero (\<lambda>_. True) (s'\<lparr>s_tuya_rcs := rcs_zero\<rparr>) = Some (OPRT_OK, t)
    \<and> s_tuya_rcs t = (if False \<or> [48, 130 :: byte] \<noteq> [] then rcs_stored False [48, 130] (s_tuya_rcs s') else rcs_zero)"
    using rcs_survives_restart [OF s(1), unfolded d]
    by (simp add: s(2) rcs_env_demo_def rcs_json_demo_def json_text_def rcs_total_def str_of_def rcs_sys_demo_def)
  then show ?thesis using s by (auto simp: rcs_stored_def)
qed

text \<open>
  The certificate of a register center without a code, such as the built-in one, cannot be updated: the update writes the missing code
  as a JSON null, the reader takes the null for a failed copy, and the update returns an error and changes nothing.
\<close>

theorem rcs_update_needs_code:
  assumes "rc_code (s_tuya_rcs s) = None" "rc_url0 (s_tuya_rcs s) \<noteq> None" "0 < ca_len" "json_printed env"
  shows "tuya_register_center_update sl0 pem env (Some ca) ca_len s = Some (OPRT_CJSON_GET_ERR, s)"
  using assms by (auto simp: tuya_register_center_update_def tuya_register_center_save_def rcs_restore_def mm_strdup_def Let_def)

theorem rcs_update_needs_code_witness:
  "tuya_register_center_update False (\<lambda>_. PEM_DER [48]) rcs_env_demo (Some [65, 0]) 2 (rcs_sys_demo\<lparr>s_tuya_rcs := rcs_zero\<lparr>rc_url0 := Some [104, 0]\<rparr>\<rparr>)
    = Some (OPRT_CJSON_GET_ERR, rcs_sys_demo\<lparr>s_tuya_rcs := rcs_zero\<lparr>rc_url0 := Some [104, 0]\<rparr>\<rparr>)"
  by (rule rcs_update_needs_code) (simp_all add: rcs_sys_demo_def rcs_zero_def rcs_env_demo_def)

end
