(* ===== verification/Netmgr.thy ===== *)
theory Netmgr
  imports Prelude "HOL-Library.Monad_Syntax"
begin

text \<open>
  The network manager \<^verbatim>\<open>src/tuya_cloud_service/netmgr\<close>: \<^verbatim>\<open>netmgr.c\<close> with the connections \<^verbatim>\<open>netconn_wired.c\<close>, \<^verbatim>\<open>netconn_cellular.c\<close>
  and \<^verbatim>\<open>netconn_wifi.c\<close>, all three compiled in. The static connection objects are the function \<open>nm_base\<close> from the type of a connection to its
  priority, status and callback; the linked list is the list of the types in its order. The events published are kept in order in
  \<open>nm_events\<close>. The reconnection of the wireless station is a state machine with its timer (the milliseconds it is started with, if it runs) and the
  work items it has scheduled. The name and the password of the access point are the arrays of the structure, the item \<^verbatim>\<open>netinfo\<close> of the
  key-value store is \<open>nm_netinfo\<close>, and the functions registered to obtain a token are \<open>nm_tokens\<close>. The results of platform calls and of the
  scheduling are arguments, and so is the JSON parser; a call that only configures the radio is left out. \<open>None\<close> is an access outside an
  array or through a null pointer.
\<close>

section \<open>Model\<close>

abbreviation (input) NETCONN_AUTO :: u32 where "NETCONN_AUTO \<equiv> 1"
abbreviation (input) NETCONN_WIFI :: u32 where "NETCONN_WIFI \<equiv> 2"
abbreviation (input) NETCONN_WIRED :: u32 where "NETCONN_WIRED \<equiv> 4"
abbreviation (input) NETCONN_CELLULAR :: u32 where "NETCONN_CELLULAR \<equiv> 8"

datatype netmgr_status = NETMGR_LINK_DOWN | NETMGR_LINK_UP | NETMGR_LINK_UP_SWITH

datatype conn_cmd = NETCONN_CMD_PRI | NETCONN_CMD_IP | NETCONN_CMD_MAC | NETCONN_CMD_STATUS | NETCONN_CMD_SSID_PSWD
  | NETCONN_CMD_COUNTRYCODE | NETCONN_CMD_NETCFG | NETCONN_CMD_SET_STATUS_CB | NETCONN_CMD_CLOSE | NETCONN_CMD_RESET

record conn_base =
  b_pri :: nat
  b_status :: netmgr_status
  b_cb :: bool

datatype wifi_stat = WIFI_CONN_REDAY | WIFI_CONN_CHECK | WIFI_CONN_LINKUP | WIFI_CONN_WAIT | WIFI_CONN_STOP
datatype wifi_msg = WIFI_MSG_CONNECT | WIFI_MSG_DISCONNECT

record wifi_conn =
  w_stat :: wifi_stat
  w_count :: nat
  w_table :: "nat list"
  w_timer :: "nat option"
  w_work :: "wifi_msg list"
  w_info :: "byte list \<times> byte list"
  w_ccode :: "byte list"
  w_netcfg :: u32

datatype link_event = LINK_TYPE_CHG u32 | LINK_STATUS_CHG netmgr_status | LINK_ACTIVATE "byte list" "byte list" "byte list"
datatype token_port = MQTT_BIND_TOKEN | NETCFG_TOKEN

record netmgr =
  nm_inited :: bool
  nm_type :: u32
  nm_active :: u32
  nm_status :: netmgr_status
  nm_conn :: "u32 list"
  nm_base :: "u32 \<Rightarrow> conn_base"
  nm_wifi :: wifi_conn
  nm_events :: "link_event list"
  nm_netinfo :: "byte list option"
  nm_tokens :: "token_port list"

text \<open>The manager and the connection objects before the initialisation.\<close>

definition info_zero :: "byte list \<times> byte list" where
  "info_zero = (replicate 33 0, replicate 65 0)"

definition netmgr0 :: netmgr where
  "netmgr0 = \<lparr>nm_inited = False, nm_type = 0, nm_active = 0, nm_status = NETMGR_LINK_DOWN, nm_conn = [],
     nm_base = (\<lambda>t. \<lparr>b_pri = (if t = NETCONN_WIRED then 2 else if t = NETCONN_WIFI then 1 else 0), b_status = NETMGR_LINK_DOWN, b_cb = False\<rparr>),
     nm_wifi = \<lparr>w_stat = WIFI_CONN_REDAY, w_count = 0, w_table = [1, 3, 5, 10, 15, 20], w_timer = None, w_work = [], w_info = info_zero,
       w_ccode = [67, 78] @ replicate 7 0, w_netcfg = 0\<rparr>,
     nm_events = [], nm_netinfo = None, nm_tokens = []\<rparr>"

definition upd_base :: "u32 \<Rightarrow> (conn_base \<Rightarrow> conn_base) \<Rightarrow> netmgr \<Rightarrow> netmgr" where
  "upd_base t f nm = nm\<lparr>nm_base := (nm_base nm)(t := f (nm_base nm t))\<rparr>"

subsection \<open>\<^verbatim>\<open>netmgr.c\<close>\<close>

definition get_active_conn :: "netmgr \<Rightarrow> u32" where
  "get_active_conn nm =
     (case nm_conn nm of
        [] \<Rightarrow> NETCONN_AUTO
      | t # _ \<Rightarrow> (case find (\<lambda>u. b_status (nm_base nm u) = NETMGR_LINK_UP) (nm_conn nm) of Some u \<Rightarrow> u | None \<Rightarrow> t))"

definition get_conn_by_type :: "u32 \<Rightarrow> netmgr \<Rightarrow> u32 option" where
  "get_conn_by_type t nm = (if t = NETCONN_AUTO then None else find (\<lambda>u. u = t) (nm_conn nm))"

text \<open>The status is set to down before the mask is tested, and not at all for \<^verbatim>\<open>NETCONN_AUTO\<close>.\<close>

definition get_netmgr_status :: "u32 \<Rightarrow> netmgr \<Rightarrow> netmgr_status \<Rightarrow> operate_ret \<times> netmgr_status" where
  "get_netmgr_status t nm status =
     (if t = NETCONN_AUTO then (OPRT_INVALID_PARM, status)
      else if nm_type nm AND t = 0 then (OPRT_NOT_SUPPORTED, NETMGR_LINK_DOWN)
      else (OPRT_OK, if t \<in> set (nm_conn nm) then b_status (nm_base nm t) else NETMGR_LINK_DOWN))"

definition netmgr_event_cb :: "u32 \<Rightarrow> netmgr \<Rightarrow> netmgr" where
  "netmgr_event_cb t nm =
     (if nm_type nm AND t = 0 then nm
      else
        (let active_conn = get_active_conn nm;
             active_status = snd (get_netmgr_status active_conn nm NETMGR_LINK_DOWN)
         in if active_status \<noteq> nm_status nm \<and> active_conn \<noteq> nm_active nm
            then nm\<lparr>nm_status := active_status, nm_active := active_conn,
                    nm_events := nm_events nm @ [LINK_TYPE_CHG active_conn, LINK_STATUS_CHG active_status]\<rparr>
            else if active_status \<noteq> nm_status nm
            then nm\<lparr>nm_status := active_status, nm_events := nm_events nm @ [LINK_STATUS_CHG active_status]\<rparr>
            else if active_conn \<noteq> nm_active nm
            then nm\<lparr>nm_active := active_conn, nm_events := nm_events nm @ [LINK_TYPE_CHG active_conn]\<rparr>
            else nm))"

fun insert_pri :: "(u32 \<Rightarrow> nat) \<Rightarrow> u32 \<Rightarrow> u32 list \<Rightarrow> u32 list" where
  "insert_pri pri t [] = [t]"
| "insert_pri pri t (u # us) = (if pri u < pri t then t # u # us else u # insert_pri pri t us)"

text \<open>\<open>open\<close> is the function the connection registers for its start.\<close>

definition netmgr_conn_register ::
    "(netmgr \<Rightarrow> (operate_ret \<times> netmgr) option) \<Rightarrow> u32 \<Rightarrow> netmgr \<Rightarrow> (operate_ret \<times> netmgr) option" where
  "netmgr_conn_register open t nm =
     (let nm = upd_base t (\<lambda>b. b\<lparr>b_cb := True\<rparr>) nm
      in if t \<in> set (nm_conn nm) then Some (OPRT_INVALID_PARM, nm)
         else open (nm\<lparr>nm_conn := insert_pri (\<lambda>u. b_pri (nm_base nm u)) t (nm_conn nm)\<rparr>))"

subsection \<open>Wired and cellular connections\<close>

definition netconn_event :: "u32 \<Rightarrow> bool \<Rightarrow> netmgr \<Rightarrow> netmgr" where
  "netconn_event t up nm =
     (let nm = upd_base t (\<lambda>b. b\<lparr>b_status := (if up then NETMGR_LINK_UP else NETMGR_LINK_DOWN)\<rparr>) nm
      in if b_cb (nm_base nm t) then netmgr_event_cb t nm else nm)"

text \<open>Opening the wired connection also registers how its token is obtained.\<close>

definition netconn_wired_open :: "operate_ret \<Rightarrow> netmgr \<Rightarrow> operate_ret \<times> netmgr" where
  "netconn_wired_open set_cb nm =
     (let nm = upd_base NETCONN_WIRED (\<lambda>b. b\<lparr>b_status := NETMGR_LINK_DOWN\<rparr>) nm
      in if set_cb \<noteq> OPRT_OK then (set_cb, nm) else (OPRT_OK, nm\<lparr>nm_tokens := nm_tokens nm @ [MQTT_BIND_TOKEN]\<rparr>))"

definition netconn_cellular_open :: "operate_ret \<Rightarrow> netmgr \<Rightarrow> operate_ret \<times> netmgr" where
  "netconn_cellular_open set_cb nm = (set_cb, upd_base NETCONN_CELLULAR (\<lambda>b. b\<lparr>b_status := NETMGR_LINK_DOWN\<rparr>) nm)"

text \<open>The priority is eight bits wide.\<close>

definition set_pri :: "u32 \<Rightarrow> int \<Rightarrow> netmgr \<Rightarrow> netmgr" where
  "set_pri t v nm = netmgr_event_cb t (upd_base t (\<lambda>b. b\<lparr>b_pri := nat (v mod 256)\<rparr>) nm)"

definition status_code :: "netmgr_status \<Rightarrow> int" where
  "status_code st = (case st of NETMGR_LINK_DOWN \<Rightarrow> 0 | NETMGR_LINK_UP \<Rightarrow> 1 | NETMGR_LINK_UP_SWITH \<Rightarrow> 2)"

text \<open>What the parameter of a command points to; \<open>None\<close> is a command whose parameter is of another type.\<close>

datatype conn_arg = Arg_Int int | Arg_Info "byte list \<times> byte list" | Arg_Code "byte list" | Arg_Netcfg u32 | Arg_Other

definition netconn_wired_set :: "(conn_cmd \<Rightarrow> operate_ret) \<Rightarrow> conn_cmd \<Rightarrow> conn_arg \<Rightarrow> netmgr \<Rightarrow> (operate_ret \<times> netmgr) option" where
  "netconn_wired_set plat c arg nm =
     (case c of
        NETCONN_CMD_PRI \<Rightarrow> (case arg of Arg_Int v \<Rightarrow> Some (OPRT_OK, set_pri NETCONN_WIRED v nm) | _ \<Rightarrow> None)
      | NETCONN_CMD_IP \<Rightarrow> Some (plat c, nm)
      | NETCONN_CMD_MAC \<Rightarrow> Some (plat c, nm)
      | _ \<Rightarrow> Some (OPRT_NOT_SUPPORTED, nm))"

text \<open>A query returns the value it stores through its parameter, if it stores one.\<close>

definition netconn_wired_get :: "(conn_cmd \<Rightarrow> operate_ret \<times> int) \<Rightarrow> conn_cmd \<Rightarrow> netmgr \<Rightarrow> operate_ret \<times> int option" where
  "netconn_wired_get plat c nm =
     (case c of
        NETCONN_CMD_PRI \<Rightarrow> (OPRT_OK, Some (int (b_pri (nm_base nm NETCONN_WIRED))))
      | NETCONN_CMD_IP \<Rightarrow> (fst (plat c), Some (snd (plat c)))
      | NETCONN_CMD_MAC \<Rightarrow> (fst (plat c), Some (snd (plat c)))
      | NETCONN_CMD_STATUS \<Rightarrow> (OPRT_OK, Some (status_code (b_status (nm_base nm NETCONN_WIRED))))
      | NETCONN_CMD_CLOSE \<Rightarrow> (OPRT_OK, None)
      | _ \<Rightarrow> (OPRT_NOT_SUPPORTED, None))"

definition netconn_cellular_set :: "conn_cmd \<Rightarrow> conn_arg \<Rightarrow> netmgr \<Rightarrow> (operate_ret \<times> netmgr) option" where
  "netconn_cellular_set c arg nm =
     (case c of
        NETCONN_CMD_PRI \<Rightarrow> (case arg of Arg_Int v \<Rightarrow> Some (OPRT_OK, set_pri NETCONN_CELLULAR v nm) | _ \<Rightarrow> None)
      | _ \<Rightarrow> Some (OPRT_NOT_SUPPORTED, nm))"

definition netconn_cellular_get :: "(conn_cmd \<Rightarrow> operate_ret \<times> int) \<Rightarrow> conn_cmd \<Rightarrow> netmgr \<Rightarrow> operate_ret \<times> int option" where
  "netconn_cellular_get plat c nm =
     (case c of
        NETCONN_CMD_PRI \<Rightarrow> (OPRT_OK, Some (int (b_pri (nm_base nm NETCONN_CELLULAR))))
      | NETCONN_CMD_STATUS \<Rightarrow> (OPRT_OK, Some (status_code (b_status (nm_base nm NETCONN_CELLULAR))))
      | NETCONN_CMD_IP \<Rightarrow> (fst (plat c), Some (snd (plat c)))
      | _ \<Rightarrow> (OPRT_NOT_SUPPORTED, None))"

subsection \<open>The wireless connection\<close>

abbreviation (input) WIFI_CONN_TIMEOUT_MAX :: nat where "WIFI_CONN_TIMEOUT_MAX \<equiv> 20"
abbreviation (input) NETCFG_TUYA_BLE :: u32 where "NETCFG_TUYA_BLE \<equiv> 2"
abbreviation (input) NETCFG_TUYA_WIFI_AP :: u32 where "NETCFG_TUYA_WIFI_AP \<equiv> 1"

definition upd_wifi :: "(wifi_conn \<Rightarrow> wifi_conn) \<Rightarrow> netmgr \<Rightarrow> netmgr" where
  "upd_wifi f nm = nm\<lparr>nm_wifi := f (nm_wifi nm)\<rparr>"

definition wifi_connect_process :: "wifi_msg \<Rightarrow> wifi_conn \<Rightarrow> wifi_conn" where
  "wifi_connect_process msg w =
     (case msg of
        WIFI_MSG_CONNECT \<Rightarrow> w\<lparr>w_timer := Some (WIFI_CONN_TIMEOUT_MAX * 1000), w_stat := WIFI_CONN_CHECK\<rparr>
      | WIFI_MSG_DISCONNECT \<Rightarrow> w\<lparr>w_count := 0, w_stat := WIFI_CONN_STOP, w_timer := Some 1500\<rparr>)"

text \<open>The work queue runs the oldest item.\<close>

definition wifi_work :: "wifi_conn \<Rightarrow> wifi_conn" where
  "wifi_work w = (case w_work w of [] \<Rightarrow> w | m # ms \<Rightarrow> wifi_connect_process m (w\<lparr>w_work := ms\<rparr>))"

text \<open>\<open>sched\<close> is \<open>None\<close> when the message cannot be allocated, otherwise the result of the scheduling.\<close>

definition schedule_msg :: "operate_ret option \<Rightarrow> wifi_msg \<Rightarrow> wifi_conn \<Rightarrow> operate_ret \<times> wifi_conn" where
  "schedule_msg sched msg w =
     (case sched of
        None \<Rightarrow> (OPRT_MALLOC_FAILED, w)
      | Some r \<Rightarrow> (r, if r = OPRT_OK then w\<lparr>w_work := w_work w @ [msg]\<rparr> else w))"

definition wifi_connect :: "operate_ret option \<Rightarrow> wifi_conn \<Rightarrow> operate_ret \<times> wifi_conn" where
  "wifi_connect sched w =
     (if w_stat w = WIFI_CONN_LINKUP then (OPRT_OK, w) else schedule_msg sched WIFI_MSG_CONNECT w)"

definition wifi_disconnect :: "operate_ret option \<Rightarrow> wifi_conn \<Rightarrow> operate_ret \<times> wifi_conn" where
  "wifi_disconnect sched w =
     (if w_stat w = WIFI_CONN_STOP \<or> w_stat w = WIFI_CONN_REDAY then (OPRT_OK, w) else schedule_msg sched WIFI_MSG_DISCONNECT w)"

text \<open>A failed attempt arms the timer with the next entry of the table. \<open>None\<close> is an access outside the table.\<close>

definition wifi_backoff :: "wifi_conn \<Rightarrow> wifi_conn option" where
  "wifi_backoff w =
     (if w_count w \<ge> length (w_table w) then None
      else Some (w\<lparr>w_timer := Some (w_table w ! w_count w * 1000),
              w_count := (if w_count w < length (w_table w) - 1 then w_count w + 1 else w_count w), w_stat := WIFI_CONN_WAIT\<rparr>))"

definition wifi_link :: "operate_ret option \<Rightarrow> bool \<Rightarrow> wifi_conn \<Rightarrow> wifi_conn option" where
  "wifi_link sched connected w =
     (let w = w\<lparr>w_timer := None\<rparr>
      in if connected then Some (w\<lparr>w_count := 0, w_stat := WIFI_CONN_LINKUP\<rparr>)
         else if w_stat w = WIFI_CONN_CHECK \<or> w_stat w = WIFI_CONN_WAIT then wifi_backoff w
         else if w_stat w = WIFI_CONN_LINKUP then Some (snd (wifi_connect sched (w\<lparr>w_stat := WIFI_CONN_REDAY\<rparr>)))
         else Some w)"

definition netconn_wifi_event :: "operate_ret option \<Rightarrow> bool \<Rightarrow> netmgr \<Rightarrow> netmgr option" where
  "netconn_wifi_event sched connected nm =
     (case wifi_link sched connected (nm_wifi nm) of
        None \<Rightarrow> None
      | Some w \<Rightarrow> Some (netconn_event NETCONN_WIFI connected (nm\<lparr>nm_wifi := w\<rparr>)))"

definition netconn_wifi_conn_timer :: "operate_ret option \<Rightarrow> wifi_conn \<Rightarrow> wifi_conn option" where
  "netconn_wifi_conn_timer sched w =
     (let w = w\<lparr>w_timer := None\<rparr>
      in if w_stat w = WIFI_CONN_WAIT then Some ((snd (wifi_connect sched w))\<lparr>w_stat := WIFI_CONN_CHECK\<rparr>)
         else if w_stat w = WIFI_CONN_STOP then Some (w\<lparr>w_stat := WIFI_CONN_REDAY\<rparr>)
         else if w_stat w = WIFI_CONN_CHECK then wifi_backoff w
         else Some w)"

text \<open>Strings and blocks in arrays of fixed size.\<close>

definition c_text :: "byte list \<Rightarrow> byte list option" where
  "c_text b = (if 0 \<in> set b then Some (takeWhile (\<lambda>c. c \<noteq> 0) b) else None)"

definition memcpy_into :: "byte list \<Rightarrow> byte list \<Rightarrow> byte list option" where
  "memcpy_into buf s = (if length s \<le> length buf then Some (memcpy_at buf 0 s) else None)"

definition strcpy_into :: "byte list \<Rightarrow> byte list \<Rightarrow> byte list option" where
  "strcpy_into buf s = memcpy_into buf (s @ [0])"

text \<open>The text \<^verbatim>\<open>{"s":"...","p":"..."}\<close>, printed to an array of 128 bytes.\<close>

definition netinfo_text :: "byte list \<Rightarrow> byte list \<Rightarrow> byte list" where
  "netinfo_text s p = [123, 34, 115, 34, 58, 34] @ s @ [34, 44, 34, 112, 34, 58, 34] @ p @ [34, 125]"

definition netconn_wifi_info_set :: "operate_ret \<Rightarrow> netmgr \<Rightarrow> (operate_ret \<times> netmgr) option" where
  "netconn_wifi_info_set kv_set nm =
     (case (c_text (fst (w_info (nm_wifi nm))), c_text (snd (w_info (nm_wifi nm)))) of
        (Some s, Some p) \<Rightarrow>
          (let netinfo = netinfo_text s p
           in if 128 \<le> length netinfo then None
              else Some (kv_set, if kv_set = OPRT_OK then nm\<lparr>nm_netinfo := Some netinfo\<rparr> else nm))
      | _ \<Rightarrow> None)"

text \<open>What the JSON parser finds for the two members.\<close>

datatype json_member = Absent | Not_String | Text "byte list"

definition netconn_wifi_info_get :: "(byte list \<Rightarrow> (json_member \<times> json_member) option) \<Rightarrow> operate_ret \<Rightarrow> netmgr \<Rightarrow> (operate_ret \<times> netmgr) option" where
  "netconn_wifi_info_get parse kv_err nm =
     (case nm_netinfo nm of
        None \<Rightarrow> Some (kv_err, nm)
      | Some netinfo \<Rightarrow>
          (case parse netinfo of
             None \<Rightarrow> Some (OPRT_CJSON_PARSE_ERR, nm)
           | Some (Absent, _) \<Rightarrow> Some (OPRT_CJSON_PARSE_ERR, nm)
           | Some (_, Absent) \<Rightarrow> Some (OPRT_CJSON_PARSE_ERR, nm)
           | Some (Text s, Text p) \<Rightarrow>
               (case (strcpy_into (fst (w_info (nm_wifi nm))) s, strcpy_into (snd (w_info (nm_wifi nm))) p) of
                  (Some s', Some p') \<Rightarrow> Some (OPRT_OK, upd_wifi (\<lambda>w. w\<lparr>w_info := (s', p')\<rparr>) nm)
                | _ \<Rightarrow> None)
           | _ \<Rightarrow> None))"

text \<open>The credentials and the token that the provisioning obtained.\<close>

record netcfg_info =
  i_ssid :: "byte list"
  i_s_len :: nat
  i_passwd :: "byte list"
  i_p_len :: nat
  i_token :: "byte list"

definition netconn_wifi_netcfg_finish :: "operate_ret \<Rightarrow> operate_ret option \<Rightarrow> netcfg_info \<Rightarrow> netmgr \<Rightarrow> (operate_ret \<times> netmgr) option" where
  "netconn_wifi_netcfg_finish kv_set sched info nm =
     (if length (i_ssid info) < i_s_len info \<or> length (i_passwd info) < i_p_len info then None
      else
        (case (memcpy_into (fst (w_info (nm_wifi nm))) (take (i_s_len info) (i_ssid info)),
               memcpy_into (snd (w_info (nm_wifi nm))) (take (i_p_len info) (i_passwd info))) of
           (Some s, Some p) \<Rightarrow>
             (case netconn_wifi_info_set kv_set (upd_wifi (\<lambda>w. w\<lparr>w_info := (s, p)\<rparr>) nm) of
                None \<Rightarrow> None
              | Some (_, nm) \<Rightarrow>
                  (let binding = LINK_ACTIVATE (take 2 (i_token info)) (take 8 (drop 2 (i_token info))) (take 4 (drop 10 (i_token info)));
                       nm = nm\<lparr>nm_events := nm_events nm @ [binding]\<rparr>
                   in Some (OPRT_OK, upd_wifi (\<lambda>w. snd (wifi_connect sched w)) nm)))
         | _ \<Rightarrow> None))"

text \<open>\<open>disconnect\<close> and \<open>stop\<close> are the results of leaving the access point and of stopping the provisioning.\<close>

definition wifi_reset_event_cb :: "bool \<Rightarrow> operate_ret \<Rightarrow> operate_ret \<Rightarrow> netmgr \<Rightarrow> operate_ret \<times> netmgr" where
  "wifi_reset_event_cb activated disconnect stop nm =
     (let nm = upd_wifi (\<lambda>w. w\<lparr>w_timer := None, w_stat := WIFI_CONN_STOP\<rparr>) nm
      in if activated then (disconnect, upd_wifi (\<lambda>w. w\<lparr>w_info := info_zero\<rparr>) (nm\<lparr>nm_netinfo := None\<rparr>)) else (stop, nm))"

text \<open>The results of the calls that the start of the wireless connection makes, and whether the device is activated.\<close>

record wifi_open_env =
  wifi_init :: operate_ret
  set_country :: operate_ret
  timer_create :: operate_ret
  event_subscribe :: operate_ret
  is_activated :: bool
  json_parse :: "byte list \<Rightarrow> (json_member \<times> json_member) option"
  kv_error :: operate_ret
  open_sched :: "operate_ret option"

definition netconn_wifi_open :: "wifi_open_env \<Rightarrow> netmgr \<Rightarrow> (operate_ret \<times> netmgr) option" where
  "netconn_wifi_open env nm =
     (if wifi_init env \<noteq> OPRT_OK then Some (wifi_init env, nm)
      else if set_country env \<noteq> OPRT_OK then Some (set_country env, nm)
      else if timer_create env \<noteq> OPRT_OK then Some (timer_create env, nm)
      else if event_subscribe env \<noteq> OPRT_OK then Some (event_subscribe env, nm)
      else if is_activated env
      then
        (case netconn_wifi_info_get (json_parse env) (kv_error env) nm of
           None \<Rightarrow> None
         | Some (_, nm) \<Rightarrow> Some (OPRT_OK, upd_wifi (\<lambda>w. snd (wifi_connect (open_sched env) w)) nm))
      else Some (OPRT_OK, nm))"

definition netconn_wifi_set ::
    "(conn_cmd \<Rightarrow> operate_ret) \<Rightarrow> operate_ret option \<Rightarrow> conn_cmd \<Rightarrow> conn_arg \<Rightarrow> netmgr \<Rightarrow> (operate_ret \<times> netmgr) option" where
  "netconn_wifi_set plat sched c arg nm =
     (case (c, arg) of
        (NETCONN_CMD_PRI, Arg_Int v) \<Rightarrow> Some (OPRT_OK, set_pri NETCONN_WIFI v nm)
      | (NETCONN_CMD_IP, _) \<Rightarrow> Some (plat c, nm)
      | (NETCONN_CMD_MAC, _) \<Rightarrow> Some (plat c, nm)
      | (NETCONN_CMD_SSID_PSWD, Arg_Info i) \<Rightarrow> Some (OPRT_OK, upd_wifi (\<lambda>w. snd (wifi_connect sched (w\<lparr>w_info := i\<rparr>))) nm)
      | (NETCONN_CMD_COUNTRYCODE, Arg_Code code) \<Rightarrow>
          (case memcpy_into (w_ccode (nm_wifi nm)) code of
             None \<Rightarrow> None
           | Some cc \<Rightarrow> Some (plat c, upd_wifi (\<lambda>w. w\<lparr>w_ccode := cc\<rparr>) nm))
      | (NETCONN_CMD_NETCFG, Arg_Netcfg type) \<Rightarrow>
          (let nm = upd_wifi (\<lambda>w. w\<lparr>w_netcfg := type\<rparr>) nm
           in Some (OPRT_OK,
                if type AND NETCFG_TUYA_BLE \<noteq> 0 \<or> type AND NETCFG_TUYA_WIFI_AP \<noteq> 0 then nm\<lparr>nm_tokens := nm_tokens nm @ [NETCFG_TOKEN]\<rparr> else nm))
      | (NETCONN_CMD_CLOSE, _) \<Rightarrow> Some (OPRT_OK, upd_wifi (\<lambda>w. snd (wifi_disconnect sched w)) nm)
      | (NETCONN_CMD_RESET, _) \<Rightarrow>
          Some (OPRT_OK, upd_wifi (\<lambda>w. w\<lparr>w_stat := WIFI_CONN_STOP, w_info := info_zero\<rparr>) (nm\<lparr>nm_netinfo := None\<rparr>))
      | (NETCONN_CMD_STATUS, _) \<Rightarrow> Some (OPRT_NOT_SUPPORTED, nm)
      | (NETCONN_CMD_SET_STATUS_CB, _) \<Rightarrow> Some (OPRT_NOT_SUPPORTED, nm)
      | _ \<Rightarrow> None)"

text \<open>The parameter after a query; the priority is stored from it instead.\<close>

definition netconn_wifi_get ::
    "(conn_cmd \<Rightarrow> operate_ret \<times> int) \<Rightarrow> conn_cmd \<Rightarrow> conn_arg \<Rightarrow> netmgr \<Rightarrow> (operate_ret \<times> conn_arg \<times> netmgr) option" where
  "netconn_wifi_get plat c arg nm =
     (case (c, arg) of
        (NETCONN_CMD_PRI, Arg_Int v) \<Rightarrow> Some (OPRT_OK, arg, set_pri NETCONN_WIFI v nm)
      | (NETCONN_CMD_PRI, _) \<Rightarrow> None
      | (NETCONN_CMD_MAC, _) \<Rightarrow> Some (fst (plat c), Arg_Int (snd (plat c)), nm)
      | (NETCONN_CMD_SSID_PSWD, _) \<Rightarrow> Some (OPRT_OK, Arg_Info (w_info (nm_wifi nm)), nm)
      | (NETCONN_CMD_COUNTRYCODE, Arg_Code buf) \<Rightarrow>
          (case c_text (w_ccode (nm_wifi nm)) of
             None \<Rightarrow> None
           | Some code \<Rightarrow> (case memcpy_into buf code of None \<Rightarrow> None | Some buf' \<Rightarrow> Some (OPRT_OK, Arg_Code buf', nm)))
      | (NETCONN_CMD_COUNTRYCODE, _) \<Rightarrow> None
      | (NETCONN_CMD_IP, _) \<Rightarrow> Some (fst (plat c), Arg_Int (snd (plat c)), nm)
      | (NETCONN_CMD_NETCFG, _) \<Rightarrow> Some (OPRT_OK, Arg_Netcfg (w_netcfg (nm_wifi nm)), nm)
      | (NETCONN_CMD_STATUS, _) \<Rightarrow> Some (OPRT_OK, Arg_Int (status_code (b_status (nm_base nm NETCONN_WIFI))), nm)
      | _ \<Rightarrow> Some (OPRT_NOT_SUPPORTED, arg, nm))"

subsection \<open>Initialisation\<close>

record netmgr_env =
  lock_create :: operate_ret
  wired_cb :: operate_ret
  cellular_cb :: operate_ret
  wifi_env :: wifi_open_env

text \<open>One registration of the initialisation, whose result is ignored.\<close>

definition init_register :: "u32 \<Rightarrow> u32 \<Rightarrow> (netmgr \<Rightarrow> (operate_ret \<times> netmgr) option) \<Rightarrow> netmgr \<Rightarrow> netmgr option" where
  "init_register type t open nm = (if type AND t \<noteq> 0 then map_option snd (netmgr_conn_register open t nm) else Some nm)"

definition netmgr_init :: "netmgr_env \<Rightarrow> u32 \<Rightarrow> netmgr \<Rightarrow> (operate_ret \<times> netmgr) option" where
  "netmgr_init env type nm =
     (if lock_create env \<noteq> OPRT_OK then Some (lock_create env, nm)
      else
        do {
          nm \<leftarrow> init_register type NETCONN_WIRED (\<lambda>nm. Some (netconn_wired_open (wired_cb env) nm)) (nm\<lparr>nm_status := NETMGR_LINK_DOWN, nm_type := type\<rparr>);
          nm \<leftarrow> init_register type NETCONN_CELLULAR (\<lambda>nm. Some (netconn_cellular_open (cellular_cb env) nm)) nm;
          nm \<leftarrow> init_register type NETCONN_WIFI (netconn_wifi_open (wifi_env env)) nm;
          let nm = nm\<lparr>nm_active := get_active_conn nm\<rparr>;
          Some (if nm_active nm = NETCONN_AUTO then (OPRT_INVALID_PARM, nm) else (OPRT_OK, nm\<lparr>nm_inited := True\<rparr>))
        })"

text \<open>The command interface finds the connection by its type, the active one for \<^verbatim>\<open>NETCONN_AUTO\<close>.\<close>

definition netmgr_conn_set ::
    "(u32 \<Rightarrow> conn_cmd \<Rightarrow> operate_ret) \<Rightarrow> operate_ret option \<Rightarrow> u32 \<Rightarrow> conn_cmd \<Rightarrow> conn_arg \<Rightarrow> netmgr \<Rightarrow> (operate_ret \<times> netmgr) option" where
  "netmgr_conn_set plat sched type c arg nm =
     (if \<not> nm_inited nm then Some (OPRT_RESOURCE_NOT_READY, nm)
      else
        (let t = (if type = NETCONN_AUTO then nm_active nm else type)
         in if t \<notin> set (nm_conn nm) then Some (OPRT_OK, nm)
            else if t = NETCONN_WIRED then netconn_wired_set (plat t) c arg nm
            else if t = NETCONN_CELLULAR then netconn_cellular_set c arg nm
            else netconn_wifi_set (plat t) sched c arg nm))"

definition netmgr_conn_get ::
    "(u32 \<Rightarrow> conn_cmd \<Rightarrow> operate_ret \<times> int) \<Rightarrow> u32 \<Rightarrow> conn_cmd \<Rightarrow> conn_arg \<Rightarrow> netmgr \<Rightarrow> (operate_ret \<times> conn_arg \<times> netmgr) option" where
  "netmgr_conn_get plat type c arg nm =
     (if \<not> nm_inited nm then Some (OPRT_RESOURCE_NOT_READY, arg, nm)
      else
        (let t = (if type = NETCONN_AUTO then nm_active nm else type);
             stored = (\<lambda>(r, out). Some (r, case out of None \<Rightarrow> arg | Some x \<Rightarrow> Arg_Int x, nm))
         in if t \<notin> set (nm_conn nm) then Some (OPRT_OK, arg, nm)
            else if t = NETCONN_WIRED then stored (netconn_wired_get (plat t) c nm)
            else if t = NETCONN_CELLULAR then stored (netconn_cellular_get (plat t) c nm)
            else netconn_wifi_get (plat t) c arg nm))"

end
