(* ===== verification/NetmgrLinks.thy ===== *)
theory NetmgrLinks
  imports Netmgr
begin

text \<open>
  Properties of the network manager: it follows its links, what its subscribers hear, the wireless station keeps trying, what the
  provisioning stores, and a changed priority is not acted upon.
\<close>

section \<open>The manager follows its links\<close>

definition net_up :: "netmgr \<Rightarrow> u32 \<Rightarrow> bool" where
  "net_up nm t \<longleftrightarrow> b_status (nm_base nm t) = NETMGR_LINK_UP"

definition net_wf :: "netmgr \<Rightarrow> bool" where
  "net_wf nm \<longleftrightarrow> nm_conn nm \<noteq> [] \<and> set (nm_conn nm) \<subseteq> {NETCONN_WIRED, NETCONN_CELLULAR, NETCONN_WIFI}
     \<and> (\<forall>t \<in> set (nm_conn nm). nm_type nm AND t \<noteq> 0 \<and> b_cb (nm_base nm t) \<and> b_status (nm_base nm t) \<noteq> NETMGR_LINK_UP_SWITH)
     \<and> sorted_wrt (\<lambda>t u. b_pri (nm_base nm u) \<le> b_pri (nm_base nm t)) (nm_conn nm)
     \<and> w_count (nm_wifi nm) < length (w_table (nm_wifi nm))"

text \<open>The active connection is the first one that is up, and the status says whether there is one.\<close>

definition net_consistent :: "netmgr \<Rightarrow> bool" where
  "net_consistent nm \<longleftrightarrow> nm_active nm = get_active_conn nm
     \<and> nm_status nm = (if \<exists>t \<in> set (nm_conn nm). net_up nm t then NETMGR_LINK_UP else NETMGR_LINK_DOWN)"

lemma active_cases:
  assumes "nm_conn nm \<noteq> []"
  obtains (up) "get_active_conn nm \<in> set (nm_conn nm)" "net_up nm (get_active_conn nm)"
      "\<exists>pre post. nm_conn nm = pre @ get_active_conn nm # post \<and> (\<forall>t \<in> set pre. \<not> net_up nm t)"
    | (down) "get_active_conn nm = hd (nm_conn nm)" "\<forall>t \<in> set (nm_conn nm). \<not> net_up nm t"
proof (cases "find (\<lambda>u. b_status (nm_base nm u) = NETMGR_LINK_UP) (nm_conn nm)")
  case None
  then have "get_active_conn nm = hd (nm_conn nm)" using assms by (cases "nm_conn nm") (simp_all add: get_active_conn_def)
  then show ?thesis using None that(2) by (simp add: find_None_iff net_up_def)
next
  case (Some u)
  then have g: "get_active_conn nm = u" using assms by (auto simp: get_active_conn_def split: list.splits)
  from Some obtain i where i: "i < length (nm_conn nm)" "nm_conn nm ! i = u" "net_up nm u" "\<forall>j<i. \<not> net_up nm (nm_conn nm ! j)"
    by (auto simp: find_Some_iff net_up_def)
  have "nm_conn nm = take i (nm_conn nm) @ u # drop (Suc i) (nm_conn nm)" using i(1,2) id_take_nth_drop by blast
  moreover have "\<forall>t \<in> set (take i (nm_conn nm)). \<not> net_up nm t" using i(1,4) by (auto simp: in_set_conv_nth)
  ultimately show ?thesis using that(1) g i(1-3) nth_mem by fastforce
qed

lemma active_status:
  assumes wf: "net_wf nm"
  shows "snd (get_netmgr_status (get_active_conn nm) nm st) = (if \<exists>t \<in> set (nm_conn nm). net_up nm t then NETMGR_LINK_UP else NETMGR_LINK_DOWN)"
proof -
  have ne: "nm_conn nm \<noteq> []" using wf by (simp add: net_wf_def)
  have m: "get_active_conn nm \<in> set (nm_conn nm)" using ne hd_in_set [OF ne] by (cases rule: active_cases) auto
  then have s: "snd (get_netmgr_status (get_active_conn nm) nm st) = b_status (nm_base nm (get_active_conn nm))"
    using wf by (auto simp: net_wf_def get_netmgr_status_def)
  from ne show ?thesis
  proof (cases rule: active_cases)
    case up
    then show ?thesis unfolding s by (auto simp: net_up_def)
  next
    case down
    then have "b_status (nm_base nm (get_active_conn nm)) = NETMGR_LINK_DOWN"
      using m wf by (cases "b_status (nm_base nm (get_active_conn nm))") (auto simp: net_wf_def net_up_def)
    then show ?thesis unfolding s using down by auto
  qed
qed

text \<open>What a subscriber of the two events knows.\<close>

definition heard :: "link_event \<Rightarrow> u32 \<times> netmgr_status \<Rightarrow> u32 \<times> netmgr_status" where
  "heard e k = (case e of LINK_TYPE_CHG t \<Rightarrow> (t, snd k) | LINK_STATUS_CHG s \<Rightarrow> (fst k, s) | LINK_ACTIVATE _ _ _ \<Rightarrow> k)"

lemma event_cb_follows:
  assumes wf: "net_wf nm" and t: "t \<in> set (nm_conn nm)"
  shows "net_wf (netmgr_event_cb t nm)" "net_consistent (netmgr_event_cb t nm)" "nm_base (netmgr_event_cb t nm) = nm_base nm"
    "nm_conn (netmgr_event_cb t nm) = nm_conn nm" "nm_wifi (netmgr_event_cb t nm) = nm_wifi nm"
    "fold heard (nm_events nm) k = (nm_active nm, nm_status nm) \<Longrightarrow>
      fold heard (nm_events (netmgr_event_cb t nm)) k = (nm_active (netmgr_event_cb t nm), nm_status (netmgr_event_cb t nm))"
proof -
  have ty: "nm_type nm AND t \<noteq> 0" using wf t by (auto simp: net_wf_def)
  note def = netmgr_event_cb_def [of t nm, unfolded if_not_P [OF ty] Let_def active_status [OF wf]]
  show f: "nm_base (netmgr_event_cb t nm) = nm_base nm" "nm_conn (netmgr_event_cb t nm) = nm_conn nm" "nm_wifi (netmgr_event_cb t nm) = nm_wifi nm"
    by (simp_all add: netmgr_event_cb_def Let_def)
  have "nm_type (netmgr_event_cb t nm) = nm_type nm" by (simp add: netmgr_event_cb_def Let_def)
  then show "net_wf (netmgr_event_cb t nm)" using wf f by (simp add: net_wf_def)
  have a: "get_active_conn (netmgr_event_cb t nm) = get_active_conn nm" "net_up (netmgr_event_cb t nm) = net_up nm"
    unfolding get_active_conn_def net_up_def fun_eq_iff f by simp_all
  show "net_consistent (netmgr_event_cb t nm)" unfolding net_consistent_def a f unfolding def by simp
  show "fold heard (nm_events (netmgr_event_cb t nm)) k = (nm_active (netmgr_event_cb t nm), nm_status (netmgr_event_cb t nm))"
    if "fold heard (nm_events nm) k = (nm_active nm, nm_status nm)"
    unfolding def using that by (simp add: heard_def)
qed

text \<open>One change of a link, from the driver of the connection.\<close>

definition net_link :: "operate_ret option \<Rightarrow> u32 \<times> bool \<Rightarrow> netmgr \<Rightarrow> netmgr option" where
  "net_link sched e nm =
     (if fst e = NETCONN_WIFI then netconn_wifi_event sched (snd e) nm else Some (netconn_event (fst e) (snd e) nm))"

fun net_run :: "operate_ret option \<Rightarrow> (u32 \<times> bool) list \<Rightarrow> netmgr \<Rightarrow> netmgr option" where
  "net_run sched [] nm = Some nm"
| "net_run sched (e # es) nm = (case net_link sched e nm of None \<Rightarrow> None | Some nm' \<Rightarrow> net_run sched es nm')"

lemma netconn_event_follows:
  fixes up :: bool
  assumes wf: "net_wf nm" and t: "t \<in> set (nm_conn nm)" and k: "fold heard (nm_events nm) k = (nm_active nm, nm_status nm)"
  defines "nm' \<equiv> netconn_event t up nm"
  shows "net_wf nm'" "net_consistent nm'" "nm_conn nm' = nm_conn nm" "fold heard (nm_events nm') k = (nm_active nm', nm_status nm')"
    "nm_base nm' = (nm_base nm)(t := (nm_base nm t)\<lparr>b_status := (if up then NETMGR_LINK_UP else NETMGR_LINK_DOWN)\<rparr>)"
proof -
  let ?n = "upd_base t (\<lambda>b. b\<lparr>b_status := (if up then NETMGR_LINK_UP else NETMGR_LINK_DOWN)\<rparr>) nm"
  have p: "b_pri (nm_base ?n u) = b_pri (nm_base nm u)" "b_cb (nm_base ?n u) = b_cb (nm_base nm u)" for u by (simp_all add: upd_base_def)
  have c: "nm_conn ?n = nm_conn nm" "nm_type ?n = nm_type nm" "nm_wifi ?n = nm_wifi nm" "nm_events ?n = nm_events nm"
    "nm_active ?n = nm_active nm" "nm_status ?n = nm_status nm" by (simp_all add: upd_base_def)
  have w: "net_wf ?n" using wf unfolding net_wf_def p c by (auto simp: upd_base_def)
  have e: "nm' = netmgr_event_cb t ?n" using wf t unfolding nm'_def netconn_event_def Let_def p by (auto simp: net_wf_def)
  have t': "t \<in> set (nm_conn ?n)" using t c by simp
  note f = event_cb_follows(1-5) [OF w t'] event_cb_follows(6) [OF w t', of k]
  show "net_wf nm'" "net_consistent nm'" "nm_conn nm' = nm_conn nm" "fold heard (nm_events nm') k = (nm_active nm', nm_status nm')"
    unfolding e using f k c by simp_all
  show "nm_base nm' = (nm_base nm)(t := (nm_base nm t)\<lparr>b_status := (if up then NETMGR_LINK_UP else NETMGR_LINK_DOWN)\<rparr>)"
    unfolding e f(3) by (simp add: upd_base_def)
qed

lemma wifi_link_ok:
  assumes "w_count w < length (w_table w)"
  shows "\<exists>w'. wifi_link sched up w = Some w' \<and> w_count w' < length (w_table w')"
  using assms by (auto simp: wifi_link_def Let_def wifi_backoff_def wifi_connect_def schedule_msg_def split: option.splits)

lemma net_link_follows:
  assumes wf: "net_wf nm" and t: "t \<in> set (nm_conn nm)" and k: "fold heard (nm_events nm) k = (nm_active nm, nm_status nm)"
  shows "\<exists>nm'. net_link sched (t, up) nm = Some nm' \<and> net_wf nm' \<and> net_consistent nm' \<and> nm_conn nm' = nm_conn nm
    \<and> fold heard (nm_events nm') k = (nm_active nm', nm_status nm')
    \<and> nm_base nm' = (nm_base nm)(t := (nm_base nm t)\<lparr>b_status := (if up then NETMGR_LINK_UP else NETMGR_LINK_DOWN)\<rparr>)"
proof (cases "t = NETCONN_WIFI")
  case False
  then show ?thesis using netconn_event_follows [OF wf t k] by (simp add: net_link_def)
next
  case True
  have cnt: "w_count (nm_wifi nm) < length (w_table (nm_wifi nm))" using wf by (simp add: net_wf_def)
  obtain w where "net_link sched (t, up) nm = Some (netconn_event t up (nm\<lparr>nm_wifi := w\<rparr>))" "w_count w < length (w_table w)"
    using wifi_link_ok [OF cnt, of sched up] True by (auto simp: net_link_def netconn_wifi_event_def)
  moreover from this(2) wf have "net_wf (nm\<lparr>nm_wifi := w\<rparr>)" by (simp add: net_wf_def)
  from netconn_event_follows [OF this, of t k up] have "net_wf (netconn_event t up (nm\<lparr>nm_wifi := w\<rparr>))"
    "net_consistent (netconn_event t up (nm\<lparr>nm_wifi := w\<rparr>))" "nm_conn (netconn_event t up (nm\<lparr>nm_wifi := w\<rparr>)) = nm_conn nm"
    "fold heard (nm_events (netconn_event t up (nm\<lparr>nm_wifi := w\<rparr>))) k =
      (nm_active (netconn_event t up (nm\<lparr>nm_wifi := w\<rparr>)), nm_status (netconn_event t up (nm\<lparr>nm_wifi := w\<rparr>)))"
    "nm_base (netconn_event t up (nm\<lparr>nm_wifi := w\<rparr>)) =
      (nm_base nm)(t := (nm_base nm t)\<lparr>b_status := (if up then NETMGR_LINK_UP else NETMGR_LINK_DOWN)\<rparr>)"
    using t k by simp_all
  ultimately show ?thesis by blast
qed

lemma net_run_follows:
  assumes "net_wf nm" "net_consistent nm" "\<forall>e \<in> set es. fst e \<in> set (nm_conn nm)" "fold heard (nm_events nm) k = (nm_active nm, nm_status nm)"
  shows "\<exists>nm'. net_run sched es nm = Some nm' \<and> net_wf nm' \<and> net_consistent nm' \<and> nm_conn nm' = nm_conn nm
    \<and> fold heard (nm_events nm') k = (nm_active nm', nm_status nm')
    \<and> (\<forall>t. b_pri (nm_base nm' t) = b_pri (nm_base nm t))"
  using assms
proof (induction es arbitrary: nm)
  case (Cons e es)
  obtain t up where e: "e = (t, up)" by (cases e)
  obtain n where n: "net_link sched (t, up) nm = Some n" "net_wf n" "net_consistent n" "nm_conn n = nm_conn nm"
    "fold heard (nm_events n) k = (nm_active n, nm_status n)"
    "nm_base n = (nm_base nm)(t := (nm_base nm t)\<lparr>b_status := (if up then NETMGR_LINK_UP else NETMGR_LINK_DOWN)\<rparr>)"
    using net_link_follows [OF Cons.prems(1) _ Cons.prems(4), of t sched up] Cons.prems(3) e by auto
  from Cons.IH [OF n(2,3) _ n(5)] n(4) Cons.prems(3) obtain m where "net_run sched es n = Some m" "net_wf m" "net_consistent m"
    "nm_conn m = nm_conn nm" "fold heard (nm_events m) k = (nm_active m, nm_status m)" "\<forall>t. b_pri (nm_base m t) = b_pri (nm_base n t)" by auto
  then show ?case using n(1,6) e by auto
qed auto

section \<open>After the initialisation\<close>

lemma wifi_info_get_fields:
  assumes "netconn_wifi_info_get parse kv nm = Some (r, nm')"
  shows "nm_conn nm' = nm_conn nm" "nm_base nm' = nm_base nm" "nm_type nm' = nm_type nm" "nm_status nm' = nm_status nm" "nm_events nm' = nm_events nm"
    "w_count (nm_wifi nm') = w_count (nm_wifi nm)" "w_table (nm_wifi nm') = w_table (nm_wifi nm)"
  using assms by (auto simp: netconn_wifi_info_get_def upd_wifi_def split: option.splits prod.splits json_member.splits)

lemma wifi_open_fields:
  assumes "netconn_wifi_open env nm = Some (r, nm')"
  shows "nm_conn nm' = nm_conn nm" "nm_base nm' = nm_base nm" "nm_type nm' = nm_type nm" "nm_status nm' = nm_status nm" "nm_events nm' = nm_events nm"
    "w_count (nm_wifi nm') = w_count (nm_wifi nm)" "w_table (nm_wifi nm') = w_table (nm_wifi nm)"
  using assms
  by (auto simp: netconn_wifi_open_def upd_wifi_def wifi_connect_def schedule_msg_def wifi_info_get_fields split: option.splits if_splits)

text \<open>Registering one more connection, none of them being up.\<close>

definition net_quiet :: "netmgr \<Rightarrow> bool" where
  "net_quiet nm \<longleftrightarrow> set (nm_conn nm) \<subseteq> {NETCONN_WIRED, NETCONN_CELLULAR, NETCONN_WIFI}
     \<and> (\<forall>t \<in> set (nm_conn nm). nm_type nm AND t \<noteq> 0 \<and> b_cb (nm_base nm t)) \<and> (\<forall>t. b_status (nm_base nm t) = NETMGR_LINK_DOWN)
     \<and> sorted_wrt (\<lambda>t u. b_pri (nm_base nm u) \<le> b_pri (nm_base nm t)) (nm_conn nm)
     \<and> w_count (nm_wifi nm) < length (w_table (nm_wifi nm)) \<and> nm_status nm = NETMGR_LINK_DOWN \<and> nm_events nm = []"

lemma insert_pri_set: "set (insert_pri pri t us) = insert t (set us)"
  by (induction us) auto

lemma insert_pri_sorted:
  "sorted_wrt (\<lambda>t u. pri u \<le> pri t) us \<Longrightarrow> sorted_wrt (\<lambda>t u. pri u \<le> (pri t :: nat)) (insert_pri pri t us)"
  by (induction us) (auto simp: insert_pri_set)

lemma upd_base_fields [simp]:
  "nm_conn (upd_base t f nm) = nm_conn nm" "nm_type (upd_base t f nm) = nm_type nm" "nm_wifi (upd_base t f nm) = nm_wifi nm"
  "nm_status (upd_base t f nm) = nm_status nm" "nm_events (upd_base t f nm) = nm_events nm"
  by (simp_all add: upd_base_def)

lemma upd_base_at: "nm_base (upd_base t f nm) u = (if u = t then f (nm_base nm t) else nm_base nm u)"
  by (simp add: upd_base_def)

text \<open>What the start of a connection leaves alone.\<close>

definition open_ok :: "(netmgr \<Rightarrow> (operate_ret \<times> netmgr) option) \<Rightarrow> bool" where
  "open_ok open \<longleftrightarrow> (\<forall>n r n'. open n = Some (r, n') \<longrightarrow> nm_type n' = nm_type n \<and> nm_conn n' = nm_conn n \<and> (net_quiet n \<longrightarrow> net_quiet n'))"

lemma register_quiet:
  assumes q: "net_quiet nm" and t: "t \<notin> set (nm_conn nm)" "t = NETCONN_WIRED \<or> t = NETCONN_CELLULAR \<or> t = NETCONN_WIFI" "nm_type nm AND t \<noteq> 0"
    and op: "open_ok open" and r: "netmgr_conn_register open t nm = Some (r, nm')"
  shows "net_quiet nm'" "nm_type nm' = nm_type nm" "set (nm_conn nm') = insert t (set (nm_conn nm))"
proof -
  define u where "u = upd_base t (\<lambda>b. b\<lparr>b_cb := True\<rparr>) nm"
  define n where "n = u\<lparr>nm_conn := insert_pri (\<lambda>v. b_pri (nm_base u v)) t (nm_conn u)\<rparr>"
  have o: "open n = Some (r, nm')" using r t(1) by (simp add: netmgr_conn_register_def n_def u_def Let_def)
  have p: "b_pri (nm_base n v) = b_pri (nm_base nm v)" "b_cb (nm_base n v) \<longleftrightarrow> v = t \<or> b_cb (nm_base nm v)"
    "b_status (nm_base n v) = b_status (nm_base nm v)" for v by (simp_all add: n_def u_def upd_base_at)
  have pu: "(\<lambda>v. b_pri (nm_base u v)) = (\<lambda>v. b_pri (nm_base nm v))" by (auto simp: u_def upd_base_at)
  have f: "nm_conn n = insert_pri (\<lambda>v. b_pri (nm_base nm v)) t (nm_conn nm)" "nm_type n = nm_type nm" "nm_wifi n = nm_wifi nm"
    "nm_status n = nm_status nm" "nm_events n = nm_events nm"
    using pu by (simp_all add: n_def u_def)
  have "net_quiet n"
    using q t(2,3) insert_pri_sorted [of "\<lambda>v. b_pri (nm_base nm v)" "nm_conn nm" t]
    unfolding net_quiet_def f p by (auto simp: insert_pri_set)
  then show "net_quiet nm'" "nm_type nm' = nm_type nm" "set (nm_conn nm') = insert t (set (nm_conn nm))"
    using op o f unfolding open_ok_def by (auto simp: insert_pri_set)
qed

lemma open_quiet:
  "open_ok (\<lambda>nm. Some (netconn_wired_open r nm))" "open_ok (\<lambda>nm. Some (netconn_cellular_open r nm))" "open_ok (netconn_wifi_open env)"
proof -
  have d: "net_quiet (upd_base t (\<lambda>b. b\<lparr>b_status := NETMGR_LINK_DOWN\<rparr>) n)" if "net_quiet n" for t n
  proof -
    let ?n = "upd_base t (\<lambda>b. b\<lparr>b_status := NETMGR_LINK_DOWN\<rparr>) n"
    have "b_pri (nm_base ?n u) = b_pri (nm_base n u)" "b_cb (nm_base ?n u) = b_cb (nm_base n u)" for u by (simp_all add: upd_base_at)
    then show ?thesis using that unfolding net_quiet_def by (auto simp: upd_base_at)
  qed
  have tok: "net_quiet (n\<lparr>nm_tokens := x\<rparr>) = net_quiet n" for n x by (simp add: net_quiet_def)
  show "open_ok (\<lambda>nm. Some (netconn_wired_open r nm))" "open_ok (\<lambda>nm. Some (netconn_cellular_open r nm))"
    by (auto simp: open_ok_def netconn_wired_open_def netconn_cellular_open_def Let_def tok d split: if_splits)
  show "open_ok (netconn_wifi_open env)" unfolding open_ok_def
  proof (intro allI impI conjI)
    fix n r n' assume o: "netconn_wifi_open env n = Some (r, n')"
    show "nm_type n' = nm_type n" "nm_conn n' = nm_conn n" using wifi_open_fields [OF o] by simp_all
    show "net_quiet n'" if "net_quiet n" using that unfolding net_quiet_def wifi_open_fields [OF o] .
  qed
qed

text \<open>One optional registration of the initialisation.\<close>

lemma reg_quiet:
  assumes "net_quiet nm" "nm_type nm = ty" "t \<notin> set (nm_conn nm)" "t = NETCONN_WIRED \<or> t = NETCONN_CELLULAR \<or> t = NETCONN_WIFI"
    and "open_ok open" "init_register ty t open nm = Some n"
  shows "net_quiet n \<and> nm_type n = ty \<and> set (nm_conn n) = (if ty AND t \<noteq> 0 then insert t (set (nm_conn nm)) else set (nm_conn nm))"
  using register_quiet [OF assms(1,3,4) _ assms(5)] assms(1,2,6) by (auto simp: init_register_def split: if_splits)

lemma active_cong: "nm_conn a = nm_conn b \<Longrightarrow> nm_base a = nm_base b \<Longrightarrow> get_active_conn a = get_active_conn b"
  unfolding get_active_conn_def by (simp only:)

lemma init_follows:
  assumes "netmgr_init env ty netmgr0 = Some (OPRT_OK, nm)"
  shows "net_wf nm \<and> net_consistent nm \<and> nm_events nm = [] \<and> nm_inited nm
    \<and> set (nm_conn nm) = {t. (t = NETCONN_WIRED \<or> t = NETCONN_CELLULAR \<or> t = NETCONN_WIFI) \<and> ty AND t \<noteq> 0}"
proof -
  define n0 where "n0 = netmgr0\<lparr>nm_status := NETMGR_LINK_DOWN, nm_type := ty\<rparr>"
  obtain n1 n2 n3 where
    r: "init_register ty NETCONN_WIRED (\<lambda>nm. Some (netconn_wired_open (wired_cb env) nm)) n0 = Some n1"
      "init_register ty NETCONN_CELLULAR (\<lambda>nm. Some (netconn_cellular_open (cellular_cb env) nm)) n1 = Some n2"
      "init_register ty NETCONN_WIFI (netconn_wifi_open (wifi_env env)) n2 = Some n3"
    and nm: "nm = n3\<lparr>nm_active := get_active_conn n3, nm_inited := True\<rparr>" "get_active_conn n3 \<noteq> NETCONN_AUTO"
    using assms unfolding netmgr_init_def n0_def [symmetric] by (auto simp: bind_eq_Some_conv Let_def split: if_splits)
  have q0: "net_quiet n0" "nm_type n0 = ty" "set (nm_conn n0) = {}" by (simp_all add: n0_def net_quiet_def netmgr0_def)
  have q1: "net_quiet n1 \<and> nm_type n1 = ty \<and> set (nm_conn n1) = (if ty AND NETCONN_WIRED \<noteq> 0 then {NETCONN_WIRED} else {})"
    using reg_quiet [OF q0(1,2) _ _ open_quiet(1) r(1)] q0(3) by simp
  have q2: "net_quiet n2 \<and> nm_type n2 = ty \<and> set (nm_conn n2) =
      (if ty AND NETCONN_CELLULAR \<noteq> 0 then insert NETCONN_CELLULAR (set (nm_conn n1)) else set (nm_conn n1))"
    using reg_quiet [OF _ _ _ _ open_quiet(2) r(2)] q1 by simp
  have q3: "net_quiet n3 \<and> nm_type n3 = ty \<and> set (nm_conn n3) =
      (if ty AND NETCONN_WIFI \<noteq> 0 then insert NETCONN_WIFI (set (nm_conn n2)) else set (nm_conn n2))"
    using reg_quiet [OF _ _ _ _ open_quiet(3) r(3)] q1 q2 by simp
  have ne: "nm_conn n3 \<noteq> []" using nm(2) by (auto simp: get_active_conn_def)
  have f: "nm_conn nm = nm_conn n3" "nm_base nm = nm_base n3" "nm_type nm = nm_type n3" "nm_wifi nm = nm_wifi n3" "nm_status nm = nm_status n3"
    "nm_events nm = nm_events n3" "nm_active nm = get_active_conn n3" by (simp_all add: nm(1))
  note f = f active_cong [OF f(1,2)]
  have "set (nm_conn nm) = {t. (t = NETCONN_WIRED \<or> t = NETCONN_CELLULAR \<or> t = NETCONN_WIFI) \<and> ty AND t \<noteq> 0}"
    using q1 q2 q3 unfolding f(1) by (cases "ty AND NETCONN_WIRED = 0"; cases "ty AND NETCONN_CELLULAR = 0"; cases "ty AND NETCONN_WIFI = 0") auto
  moreover have "net_wf nm \<and> net_consistent nm \<and> nm_events nm = []"
    using conjunct1 [OF q3] ne unfolding net_quiet_def net_wf_def net_consistent_def net_up_def f by simp
  ultimately show ?thesis by (simp add: nm(1))
qed

section \<open>Properties\<close>

definition net_env_demo :: netmgr_env where
  "net_env_demo = \<lparr>lock_create = OPRT_OK, wired_cb = OPRT_OK, cellular_cb = OPRT_OK,
     wifi_env = \<lparr>wifi_init = OPRT_OK, set_country = OPRT_OK, timer_create = OPRT_OK, event_subscribe = OPRT_OK, is_activated = False,
       json_parse = (\<lambda>_. None), kv_error = OPRT_KVS_RD_FAIL, open_sched = Some OPRT_OK\<rparr>\<rparr>"

text \<open>
  C7. After the initialisation and any sequence of link changes the manager agrees with its connections: the active connection is one that is up,
  of the highest priority among those, and the status is up exactly when some connection is up. Whoever heard all the events published since the
  initialisation knows the active connection and the status. The table of waiting times is never left.
\<close>

theorem netmgr_follows_links:
  assumes "netmgr_init env ty netmgr0 = Some (OPRT_OK, nm0)" "\<forall>e \<in> set es. fst e \<in> set (nm_conn nm0)"
  shows "\<exists>nm. net_run sched es nm0 = Some nm
    \<and> (nm_status nm = NETMGR_LINK_UP \<longleftrightarrow> (\<exists>t \<in> set (nm_conn nm0). b_status (nm_base nm t) = NETMGR_LINK_UP))
    \<and> (nm_status nm = NETMGR_LINK_UP \<longrightarrow> b_status (nm_base nm (nm_active nm)) = NETMGR_LINK_UP
        \<and> (\<forall>t \<in> set (nm_conn nm0). b_status (nm_base nm t) = NETMGR_LINK_UP \<longrightarrow> b_pri (nm_base nm t) \<le> b_pri (nm_base nm (nm_active nm))))
    \<and> fold heard (nm_events nm) (nm_active nm0, nm_status nm0) = (nm_active nm, nm_status nm)"
proof -
  note i = init_follows [OF assms(1)]
  obtain nm where r: "net_run sched es nm0 = Some nm" "net_wf nm" "net_consistent nm" "nm_conn nm = nm_conn nm0"
    "fold heard (nm_events nm) (nm_active nm0, nm_status nm0) = (nm_active nm, nm_status nm)"
    using net_run_follows [of nm0 es "(nm_active nm0, nm_status nm0)" sched] i assms(2) by auto
  have ne: "nm_conn nm \<noteq> []" and so: "sorted_wrt (\<lambda>t u. b_pri (nm_base nm u) \<le> b_pri (nm_base nm t)) (nm_conn nm)"
    using r(2) by (simp_all add: net_wf_def)
  have st: "nm_status nm = NETMGR_LINK_UP \<longleftrightarrow> (\<exists>t \<in> set (nm_conn nm0). b_status (nm_base nm t) = NETMGR_LINK_UP)"
    using r(3,4) by (auto simp: net_consistent_def net_up_def)
  have best: "b_status (nm_base nm (nm_active nm)) = NETMGR_LINK_UP
      \<and> (\<forall>t \<in> set (nm_conn nm0). b_status (nm_base nm t) = NETMGR_LINK_UP \<longrightarrow> b_pri (nm_base nm t) \<le> b_pri (nm_base nm (nm_active nm)))"
    if up: "nm_status nm = NETMGR_LINK_UP"
    using ne
  proof (cases rule: active_cases)
    case up
    then obtain pre post where p: "nm_conn nm = pre @ nm_active nm # post" "\<forall>t \<in> set pre. \<not> net_up nm t" "net_up nm (nm_active nm)"
      using r(3) unfolding net_consistent_def by metis
    then show ?thesis using so unfolding r(4) [symmetric] by (auto simp: net_up_def sorted_wrt_append)
  next
    case down
    then show ?thesis using st that r(4) by (auto simp: net_up_def)
  qed
  show ?thesis using r(1,5) st best by blast
qed

definition net_demo :: netmgr where
  "net_demo = snd (the (netmgr_init net_env_demo 6 netmgr0))"

lemma net_demo_init: "netmgr_init net_env_demo 6 netmgr0 = Some (OPRT_OK, net_demo)" "nm_conn net_demo = [NETCONN_WIRED, NETCONN_WIFI]"
  by (simp_all add: net_demo_def netmgr_init_def init_register_def net_env_demo_def netmgr_conn_register_def netconn_wired_open_def netconn_wifi_open_def
      netmgr0_def upd_base_def get_active_conn_def Let_def)

theorem netmgr_follows_links_witness:
  "\<exists>nm. net_run None [(NETCONN_WIFI, True), (NETCONN_WIRED, True)] net_demo = Some nm
    \<and> (nm_status nm = NETMGR_LINK_UP \<longrightarrow> b_status (nm_base nm (nm_active nm)) = NETMGR_LINK_UP)"
  using netmgr_follows_links [OF net_demo_init(1), of "[(NETCONN_WIFI, True), (NETCONN_WIRED, True)]" None] net_demo_init(2) by auto

text \<open>
  A change of a priority is stored but never acted upon: the list keeps its order, so the active connection and the order of preference stay
  what they were, whatever the new value is. For the wireless connection the query of the priority does the same: it stores the integer its caller
  passed and returns that.
\<close>

theorem priority_not_renegotiated:
  assumes "net_consistent nm" "v mod 256 = v"
  shows "nm_active (set_pri t v nm) = nm_active nm \<and> nm_conn (set_pri t v nm) = nm_conn nm \<and> int (b_pri (nm_base (set_pri t v nm) t)) = v
    \<and> netconn_wifi_get plat NETCONN_CMD_PRI (Arg_Int v) nm = Some (OPRT_OK, Arg_Int v, set_pri NETCONN_WIFI v nm)"
proof -
  let ?u = "upd_base t (\<lambda>b. b\<lparr>b_pri := nat (v mod 256)\<rparr>) nm"
  have s: "b_status (nm_base ?u x) = b_status (nm_base nm x)" for x by (simp add: upd_base_at)
  have a: "get_active_conn ?u = get_active_conn nm" unfolding get_active_conn_def s upd_base_fields by (rule refl)
  have k: "nm_active (netmgr_event_cb t n) = (if nm_type n AND t = 0 then nm_active n else get_active_conn n)"
    "nm_conn (netmgr_event_cb t n) = nm_conn n" "nm_base (netmgr_event_cb t n) = nm_base n" for n
    by (simp_all add: netmgr_event_cb_def Let_def)
  have "nm_active ?u = nm_active nm" by (simp add: upd_base_def)
  then have 1: "nm_active (set_pri t v nm) = nm_active nm" using assms(1) unfolding set_pri_def k a by (simp add: net_consistent_def)
  have 2: "nm_conn (set_pri t v nm) = nm_conn nm" unfolding set_pri_def k by simp
  have "0 \<le> v" using assms(2) pos_mod_sign [of 256 v] by simp
  then have 3: "int (b_pri (nm_base (set_pri t v nm) t)) = v" unfolding set_pri_def k using assms(2) by (simp add: upd_base_at)
  show ?thesis using 1 2 3 by (simp add: netconn_wifi_get_def)
qed

theorem priority_not_renegotiated_witness:
  "nm_active (set_pri NETCONN_WIFI 9 net_demo) = nm_active net_demo"
  by (rule priority_not_renegotiated [THEN conjunct1]) (use init_follows [OF net_demo_init(1)] in simp_all)

section \<open>The wireless connection tries again\<close>

text \<open>The steps of the state machine, every message being scheduled.\<close>

inductive wifi_step :: "wifi_conn \<Rightarrow> wifi_conn \<Rightarrow> bool" where
  ws_connect: "wifi_step w (snd (wifi_connect (Some OPRT_OK) w))"
| ws_disconnect: "wifi_step w (snd (wifi_disconnect (Some OPRT_OK) w))"
| ws_link: "wifi_link (Some OPRT_OK) up w = Some w' \<Longrightarrow> wifi_step w w'"
| ws_timer: "w_timer w \<noteq> None \<Longrightarrow> netconn_wifi_conn_timer (Some OPRT_OK) w = Some w' \<Longrightarrow> wifi_step w w'"
| ws_work: "w_work w \<noteq> [] \<Longrightarrow> wifi_step w (wifi_work w)"
| ws_info: "wifi_step w (w\<lparr>w_info := i, w_ccode := cc, w_netcfg := ty\<rparr>)"
| ws_reset: "wifi_step w (w\<lparr>w_stat := WIFI_CONN_STOP, w_info := info_zero\<rparr>)"
| ws_reset_event: "wifi_step w (w\<lparr>w_timer := None, w_stat := WIFI_CONN_STOP, w_info := i\<rparr>)"

definition retrying :: "wifi_conn \<Rightarrow> bool" where
  "retrying w \<longleftrightarrow> (w_stat w = WIFI_CONN_CHECK \<or> w_stat w = WIFI_CONN_WAIT \<longrightarrow> w_timer w \<noteq> None \<or> WIFI_MSG_CONNECT \<in> set (w_work w))
     \<and> w_count w < length (w_table w)"

lemma wifi_step_retrying:
  assumes "wifi_step w w'" "retrying w"
  shows "retrying w'"
  using assms
proof (cases rule: wifi_step.cases)
  case (ws_link up)
  then show ?thesis using assms(2)
    by (auto simp: retrying_def wifi_link_def Let_def wifi_backoff_def wifi_connect_def schedule_msg_def split: if_splits)
next
  case ws_timer
  then show ?thesis using assms(2)
    by (auto simp: retrying_def netconn_wifi_conn_timer_def Let_def wifi_backoff_def wifi_connect_def schedule_msg_def split: if_splits)
next
  case ws_work
  then show ?thesis using assms(2)
    by (cases "w_work w") (auto simp: retrying_def wifi_work_def wifi_connect_process_def split: wifi_msg.splits)
qed (auto simp: retrying_def wifi_connect_def wifi_disconnect_def schedule_msg_def)

text \<open>The timer values of consecutive failed attempts: the link fails, the timer expires, the work item runs.\<close>

fun waits :: "nat \<Rightarrow> wifi_conn \<Rightarrow> nat list" where
  "waits 0 w = []"
| "waits (Suc n) w =
     (case wifi_link (Some OPRT_OK) False w of
        None \<Rightarrow> []
      | Some w1 \<Rightarrow>
          (case w_timer w1 of None \<Rightarrow> [] | Some ms \<Rightarrow> ms #
             (case netconn_wifi_conn_timer (Some OPRT_OK) w1 of None \<Rightarrow> [] | Some w2 \<Rightarrow> waits n (wifi_work w2))))"

lemma waits_from:
  assumes "w_stat w = WIFI_CONN_CHECK" "w_work w = []" "w_count w < length (w_table w)"
  shows "waits n w = map (\<lambda>i. w_table w ! min (length (w_table w) - 1) (w_count w + i) * 1000) [0..<n]"
  using assms
proof (induction n arbitrary: w)
  case (Suc n)
  define w1 where "w1 = w\<lparr>w_timer := Some (w_table w ! w_count w * 1000), w_count := min (length (w_table w) - 1) (w_count w + 1), w_stat := WIFI_CONN_WAIT\<rparr>"
  define w2 where "w2 = w1\<lparr>w_timer := None, w_work := [WIFI_MSG_CONNECT], w_stat := WIFI_CONN_CHECK\<rparr>"
  define w3 where "w3 = w2\<lparr>w_work := [], w_timer := Some (WIFI_CONN_TIMEOUT_MAX * 1000), w_stat := WIFI_CONN_CHECK\<rparr>"
  have 1: "wifi_link (Some OPRT_OK) False w = Some w1"
    using Suc.prems by (auto simp: wifi_link_def wifi_backoff_def w1_def min_def Let_def)
  have 2: "netconn_wifi_conn_timer (Some OPRT_OK) w1 = Some w2"
    using Suc.prems(2) by (simp add: netconn_wifi_conn_timer_def wifi_connect_def schedule_msg_def w1_def w2_def)
  have 3: "wifi_work w2 = w3" by (simp add: wifi_work_def wifi_connect_process_def w2_def w3_def)
  have f: "w_stat w3 = WIFI_CONN_CHECK" "w_work w3 = []" "w_table w3 = w_table w" "w_count w3 = min (length (w_table w) - 1) (w_count w + 1)"
    by (simp_all add: w1_def w2_def w3_def)
  have ih: "waits n w3 = map (\<lambda>i. w_table w ! min (length (w_table w) - 1) (w_count w + 1 + i) * 1000) [0..<n]"
  proof -
    have "min (length (w_table w) - 1) (min (length (w_table w) - 1) (w_count w + 1) + i) = min (length (w_table w) - 1) (w_count w + 1 + i)" for i
      by (simp add: min_def)
    moreover have "w_count w3 < length (w_table w3)" using Suc.prems(3) f by (auto simp: min_def)
    ultimately show ?thesis using Suc.IH [OF f(1,2)] unfolding f(3,4) by simp
  qed
  have "min (length (w_table w) - 1) (w_count w) = w_count w" using Suc.prems(3) by simp
  then show ?case using 1 2 3 ih
    by (simp add: w1_def upt_conv_Cons map_Suc_upt [symmetric] comp_def del: upt_Suc)
qed simp

text \<open>
  As long as its messages are scheduled, the wireless station never gives up: whenever it is checking or waiting, its timer runs or a connection attempt
  is scheduled, and it never leaves its table of waiting times. Consecutive failed attempts wait 1, 3, 5, 10, 15 and then always 20 seconds.
\<close>

theorem wifi_keeps_trying:
  "(wifi_step\<^sup>*\<^sup>* (nm_wifi netmgr0) w \<longrightarrow>
      (w_stat w = WIFI_CONN_CHECK \<or> w_stat w = WIFI_CONN_WAIT \<longrightarrow> w_timer w \<noteq> None \<or> WIFI_MSG_CONNECT \<in> set (w_work w))
      \<and> w_count w < length (w_table w))
   \<and> waits n (wifi_work (snd (wifi_connect (Some OPRT_OK) (nm_wifi netmgr0)))) = map (\<lambda>i. [1, 3, 5, 10, 15, 20] ! min 5 i * 1000) [0..<n]"
proof
  show "wifi_step\<^sup>*\<^sup>* (nm_wifi netmgr0) w \<longrightarrow>
      (w_stat w = WIFI_CONN_CHECK \<or> w_stat w = WIFI_CONN_WAIT \<longrightarrow> w_timer w \<noteq> None \<or> WIFI_MSG_CONNECT \<in> set (w_work w))
      \<and> w_count w < length (w_table w)"
  proof
    assume "wifi_step\<^sup>*\<^sup>* (nm_wifi netmgr0) w"
    then have "retrying w"
      by (induction rule: rtranclp_induct) (simp add: retrying_def netmgr0_def, rule wifi_step_retrying)
    then show "(w_stat w = WIFI_CONN_CHECK \<or> w_stat w = WIFI_CONN_WAIT \<longrightarrow> w_timer w \<noteq> None \<or> WIFI_MSG_CONNECT \<in> set (w_work w))
      \<and> w_count w < length (w_table w)" by (unfold retrying_def)
  qed
  show "waits n (wifi_work (snd (wifi_connect (Some OPRT_OK) (nm_wifi netmgr0)))) = map (\<lambda>i. [1, 3, 5, 10, 15, 20] ! min 5 i * 1000) [0..<n]"
  proof -
    let ?w = "wifi_work (snd (wifi_connect (Some OPRT_OK) (nm_wifi netmgr0)))"
    have f: "w_stat ?w = WIFI_CONN_CHECK" "w_work ?w = []" "w_count ?w = 0" "w_table ?w = [1, 3, 5, 10, 15, 20]"
      by (simp_all add: netmgr0_def wifi_connect_def schedule_msg_def wifi_work_def wifi_connect_process_def)
    have l: "length [1, 3, 5, 10, 15, 20 :: nat] - 1 = 5" "0 < length [1, 3, 5, 10, 15, 20 :: nat]" by simp_all
    show ?thesis using waits_from [of ?w n] unfolding f l(1) add_0 using l(2) by (rule meta_mp) simp_all
  qed
qed

theorem wifi_keeps_trying_witness:
  "w_count (nm_wifi netmgr0) < length (w_table (nm_wifi netmgr0))
   \<and> waits 7 (wifi_work (snd (wifi_connect (Some OPRT_OK) (nm_wifi netmgr0)))) = [1000, 3000, 5000, 10000, 15000, 20000, 20000]"
proof -
  have "map (\<lambda>i. [1, 3, 5, 10, 15, 20] ! min 5 i * 1000) [0..<7] = [1000, 3000, 5000, 10000, 15000, 20000, 20000 :: nat]" by code_simp
  then show ?thesis using wifi_keeps_trying [of "nm_wifi netmgr0" 7] by simp
qed

text \<open>A message that cannot be allocated when the timer expires ends the attempts: nothing is left that could start one.\<close>

lemma wifi_gives_up:
  assumes "w_stat w = WIFI_CONN_WAIT" "w_work w = []"
  shows "netconn_wifi_conn_timer None w = Some (w\<lparr>w_timer := None, w_stat := WIFI_CONN_CHECK\<rparr>)"
  using assms by (simp add: netconn_wifi_conn_timer_def wifi_connect_def schedule_msg_def)

text \<open>New credentials are stored but not used while the station is connected.\<close>

lemma credentials_ignored:
  assumes "w_stat (nm_wifi nm) = WIFI_CONN_LINKUP"
  shows "netconn_wifi_set plat sched NETCONN_CMD_SSID_PSWD (Arg_Info i) nm = Some (OPRT_OK, upd_wifi (\<lambda>w. w\<lparr>w_info := i\<rparr>) nm)"
  using assms by (simp add: netconn_wifi_set_def upd_wifi_def wifi_connect_def)

section \<open>Provisioning\<close>

text \<open>An array that holds a text and zeros, and the texts that the JSON text quotes as they are.\<close>

definition padded :: "nat \<Rightarrow> byte list \<Rightarrow> byte list" where
  "padded n x = x @ replicate (n - length x) 0"

definition plain :: "byte list \<Rightarrow> bool" where
  "plain x \<longleftrightarrow> (\<forall>c \<in> set x. 32 \<le> c \<and> c < 127 \<and> c \<noteq> 34 \<and> c \<noteq> 92)"

lemma plain_no_nul: "plain x \<Longrightarrow> 0 \<notin> set x"
  by (auto simp: plain_def)

lemma plain_append: "plain (x @ drop n y)" if "plain x" "plain y"
  using that by (auto simp: plain_def dest: in_set_dropD)

lemma memcpy_padded:
  assumes "length s \<le> n" "length x \<le> n"
  shows "memcpy_into (padded n x) s = Some (padded n (s @ drop (length s) x))"
  using assms by (cases "length s \<le> length x") (simp_all add: memcpy_into_def memcpy_at_def padded_def)

lemma c_text_padded:
  assumes "plain x" "length x < n"
  shows "c_text (padded n x) = Some x"
  using assms plain_no_nul [OF assms(1)] by (cases "n - length x") (auto simp: c_text_def padded_def takeWhile_tail takeWhile_append2)

lemma strcpy_zero:
  assumes "length x < n"
  shows "strcpy_into (replicate n 0) x = Some (padded n x)"
proof -
  have "n - length x = Suc (n - Suc (length x))" using assms by simp
  then show ?thesis using assms by (simp add: strcpy_into_def memcpy_into_def memcpy_at_def padded_def)
qed

lemma info_set_padded:
  assumes "w_info (nm_wifi nm) = (padded 33 s, padded 65 p)" "plain s" "plain p" "length s \<le> 32" "length p \<le> 64"
  shows "netconn_wifi_info_set OPRT_OK nm = Some (OPRT_OK, nm\<lparr>nm_netinfo := Some (netinfo_text s p)\<rparr>)"
  using assms by (simp add: netconn_wifi_info_set_def c_text_padded netinfo_text_def)

lemma info_get_zero:
  assumes "parse (netinfo_text s p) = Some (Text s, Text p)" "length s \<le> 32" "length p \<le> 64" "w_info (nm_wifi nm) = info_zero"
    "nm_netinfo nm = Some (netinfo_text s p)"
  shows "netconn_wifi_info_get parse kv nm = Some (OPRT_OK, upd_wifi (\<lambda>w. w\<lparr>w_info := (padded 33 s, padded 65 p)\<rparr>) nm)"
  using assms by (simp add: netconn_wifi_info_get_def info_zero_def strcpy_zero)

text \<open>
  What the provisioning stores, the device uses again after a restart, and it stores no more than 128 bytes and leaves no array. But a name or password
  that is shorter than the one before keeps the rest of it: the second attempt after a mistyped password is made with a mixture of the two.
\<close>

theorem wifi_provisioning:
  assumes cjson: "\<And>s p. plain s \<Longrightarrow> plain p \<Longrightarrow> parse (netinfo_text s p) = Some (Text s, Text p)"
    and new: "plain s" "plain p" "length s \<le> 32" "length p \<le> 64"
      "i_ssid info = padded 33 s" "i_s_len info = length s" "i_passwd info = padded 65 p" "i_p_len info = length p"
    and old: "plain so" "plain po" "length so \<le> 32" "length po \<le> 64" "w_info (nm_wifi nm) = (padded 33 so, padded 65 po)"
  shows "\<exists>nm' nm''. netconn_wifi_netcfg_finish OPRT_OK sched info nm = Some (OPRT_OK, nm')
    \<and> c_text (fst (w_info (nm_wifi nm'))) = Some (s @ drop (length s) so) \<and> c_text (snd (w_info (nm_wifi nm'))) = Some (p @ drop (length p) po)
    \<and> netconn_wifi_info_get parse kv (netmgr0\<lparr>nm_netinfo := nm_netinfo nm'\<rparr>) = Some (OPRT_OK, nm'') \<and> w_info (nm_wifi nm'') = w_info (nm_wifi nm')"
proof -
  let ?s = "s @ drop (length s) so" and ?p = "p @ drop (length p) po"
  have pl: "plain ?s" "plain ?p" using new(1,2) old(1,2) plain_append by auto
  have le: "length ?s \<le> 32" "length ?p \<le> 64" using new(3,4) old(3,4) by auto
  define n1 where "n1 = upd_wifi (\<lambda>w. w\<lparr>w_info := (padded 33 ?s, padded 65 ?p)\<rparr>) nm"
  have i: "netconn_wifi_info_set OPRT_OK n1 = Some (OPRT_OK, n1\<lparr>nm_netinfo := Some (netinfo_text ?s ?p)\<rparr>)"
    using info_set_padded [OF _ pl le, of n1] by (simp add: n1_def upd_wifi_def)
  have t: "take (length s) (padded 33 s) = s" "take (length p) (padded 65 p) = p" by (simp_all add: padded_def)
  obtain nm' where f: "netconn_wifi_netcfg_finish OPRT_OK sched info nm = Some (OPRT_OK, nm')"
    "nm_netinfo nm' = Some (netinfo_text ?s ?p)" "w_info (nm_wifi nm') = (padded 33 ?s, padded 65 ?p)"
  proof
    let ?m = "n1\<lparr>nm_netinfo := Some (netinfo_text ?s ?p)\<rparr>"
    let ?b = "LINK_ACTIVATE (take 2 (i_token info)) (take 8 (drop 2 (i_token info))) (take 4 (drop 10 (i_token info)))"
    let ?n = "upd_wifi (\<lambda>w. snd (wifi_connect sched w)) (?m\<lparr>nm_events := nm_events ?m @ [?b]\<rparr>)"
    show "netconn_wifi_netcfg_finish OPRT_OK sched info nm = Some (OPRT_OK, ?n)"
      using new(3,4) old(3,4) i unfolding netconn_wifi_netcfg_finish_def new(5-8) old(5) n1_def
      by (simp add: t memcpy_padded Let_def) (simp add: padded_def)
    show "nm_netinfo ?n = Some (netinfo_text ?s ?p)" by (simp add: upd_wifi_def)
    show "w_info (nm_wifi ?n) = (padded 33 ?s, padded 65 ?p)"
      by (simp add: upd_wifi_def n1_def wifi_connect_def schedule_msg_def split: option.split)
  qed
  have "netconn_wifi_info_get parse kv (netmgr0\<lparr>nm_netinfo := nm_netinfo nm'\<rparr>) =
      Some (OPRT_OK, upd_wifi (\<lambda>w. w\<lparr>w_info := (padded 33 ?s, padded 65 ?p)\<rparr>) (netmgr0\<lparr>nm_netinfo := nm_netinfo nm'\<rparr>))"
    by (rule info_get_zero) (use cjson [OF pl] le f(2) in \<open>simp_all add: netmgr0_def\<close>)
  then show ?thesis using f c_text_padded pl le by (auto simp: upd_wifi_def)
qed

definition parse_demo :: "byte list \<Rightarrow> (json_member \<times> json_member) option" where
  "parse_demo b =
     (let s = takeWhile (\<lambda>c. c \<noteq> 34) (drop 6 b)
      in Some (Text s, Text (takeWhile (\<lambda>c. c \<noteq> 34) (drop (13 + length s) b))))"

lemma parse_demo_netinfo:
  assumes "plain s" "plain p"
  shows "parse_demo (netinfo_text s p) = Some (Text s, Text p)"
proof -
  have q: "takeWhile (\<lambda>c. c \<noteq> 34) (x @ 34 # r) = x" if "plain x" for x r
    using that by (subst takeWhile_append2) (auto simp: plain_def)
  have "drop 6 (netinfo_text s p) = s @ 34 # [44, 34, 112, 34, 58, 34] @ p @ [34, 125]" by (simp add: netinfo_text_def)
  moreover have "drop (13 + length s) (netinfo_text s p) = drop 7 (drop (length s) (drop 6 (netinfo_text s p)))"
    by (simp add: drop_drop add.commute add.left_commute del: drop_append)
  moreover have "drop 7 (drop (length s) (s @ 34 # [44, 34, 112, 34, 58, 34] @ p @ [34, 125])) = p @ 34 # [125]" by simp
  ultimately show ?thesis unfolding parse_demo_def Let_def by (simp only: q assms)
qed

text \<open>The password \<^verbatim>\<open>ok\<close> entered after \<^verbatim>\<open>wrong\<close> is used as \<^verbatim>\<open>okong\<close>.\<close>

theorem wifi_provisioning_witness:
  "\<exists>nm' nm''. netconn_wifi_netcfg_finish OPRT_OK None
      \<lparr>i_ssid = padded 33 [97], i_s_len = 1, i_passwd = padded 65 [111, 107], i_p_len = 2, i_token = replicate 17 0\<rparr>
      (upd_wifi (\<lambda>w. w\<lparr>w_info := (padded 33 [97], padded 65 [119, 114, 111, 110, 103])\<rparr>) netmgr0) = Some (OPRT_OK, nm')
    \<and> c_text (snd (w_info (nm_wifi nm'))) = Some [111, 107, 111, 110, 103]
    \<and> netconn_wifi_info_get parse_demo 0 (netmgr0\<lparr>nm_netinfo := nm_netinfo nm'\<rparr>) = Some (OPRT_OK, nm'') \<and> w_info (nm_wifi nm'') = w_info (nm_wifi nm')"
  using wifi_provisioning [where parse = parse_demo and s = "[97]" and p = "[111, 107]" and so = "[97]" and po = "[119, 114, 111, 110, 103]"
      and info = "\<lparr>i_ssid = padded 33 [97], i_s_len = 1, i_passwd = padded 65 [111, 107], i_p_len = 2, i_token = replicate 17 0\<rparr>"
      and nm = "upd_wifi (\<lambda>w. w\<lparr>w_info := (padded 33 [97], padded 65 [119, 114, 111, 110, 103])\<rparr>) netmgr0" and sched = None and kv = 0, OF parse_demo_netinfo]
  by (auto simp: plain_def upd_wifi_def)

end
