(* ===== verification/TuyaProtocol.thy ===== *)
theory TuyaProtocol
  imports Endian
begin

text \<open>
  The frames of the cloud and of the local network, \<^verbatim>\<open>src/tuya_cloud_service/protocol/tuya_protocol.c\<close>, over the wrapper
  \<^verbatim>\<open>src/libtls/src/cipher_wrapper.c\<close> of the authenticated cipher of mbedtls, and the check of broadcast datagrams in
  \<^verbatim>\<open>src/tuya_cloud_service/lan/tuya_lan.c\<close>. The cipher, the random bytes, the clock and the allocator (which says of a size whether it can be had) are
  arguments. A C string is the list of its bytes without the terminator. \<open>None\<close> is a read or write outside a buffer.
\<close>

section \<open>Model\<close>

subsection \<open>\<^verbatim>\<open>cipher_wrapper.c\<close>\<close>

text \<open>
  What mbedtls answers: whether the cipher exists, the result of its setup, its block size, the result of setting the key, and the two operations on key, nonce,
  additional data and text. The encryption returns the ciphertext followed by the tag, the decryption takes both.
\<close>

record mbedtls =
  m_info :: bool
  m_setup :: operate_ret
  m_block_size :: nat
  m_setkey :: operate_ret
  m_enc :: "byte list \<Rightarrow> byte list \<Rightarrow> byte list \<Rightarrow> byte list \<Rightarrow> operate_ret \<times> byte list"
  m_dec :: "byte list \<Rightarrow> byte list \<Rightarrow> byte list \<Rightarrow> byte list \<Rightarrow> operate_ret \<times> byte list"

definition mbedtls_cipher_auth_encrypt_wrapper ::
    "mbedtls \<Rightarrow> byte list \<Rightarrow> byte list \<Rightarrow> byte list \<Rightarrow> byte list \<Rightarrow> nat \<Rightarrow> (operate_ret \<times> byte list \<times> byte list) option" where
  "mbedtls_cipher_auth_encrypt_wrapper M key nonce ad data tag_len =
     (if \<not> m_info M then Some (OPRT_INVALID_PARM, [], [])
      else if m_setup M \<noteq> 0 then Some (m_setup M, [], [])
      else if length key \<noteq> 16 then Some (OPRT_INVALID_PARM, [], [])
      else if m_setkey M \<noteq> 0 then Some (m_setkey M, [], [])
      else
        (let (ret, tmp) = m_enc M key nonce ad data;
             olen = length tmp - tag_len
         in if length tmp < tag_len then None else Some (ret, take olen tmp, drop olen tmp)))"

text \<open>A cipher that is not found, one without blocks and a key that is refused leave the result at success.\<close>

definition mbedtls_cipher_auth_decrypt_wrapper ::
    "mbedtls \<Rightarrow> byte list \<Rightarrow> byte list \<Rightarrow> byte list \<Rightarrow> byte list \<Rightarrow> byte list \<Rightarrow> operate_ret \<times> byte list" where
  "mbedtls_cipher_auth_decrypt_wrapper M key nonce ad data tag =
     (if \<not> m_info M then (OPRT_OK, [])
      else if m_setup M \<noteq> 0 then (m_setup M, [])
      else if m_block_size M = 0 then (OPRT_OK, [])
      else if m_setkey M \<noteq> 0 then (OPRT_OK, [])
      else m_dec M key nonce ad (data @ tag))"

subsection \<open>Packing and parsing of messages\<close>

definition lit :: "string \<Rightarrow> byte list" where
  "lit s = map of_char s"

abbreviation (input) DP_CMD_LAN :: nat where "DP_CMD_LAN \<equiv> 0"
abbreviation (input) DP_CMD_MQ :: nat where "DP_CMD_MQ \<equiv> 1"

definition TUYA_PV23 :: "byte list" where "TUYA_PV23 = lit ''2.3''"
definition TUYA_LPV35 :: "byte list" where "TUYA_LPV35 = lit ''3.5''"

text \<open>The bytes of a buffer from an offset on.\<close>

definition rd :: "byte list \<Rightarrow> nat \<Rightarrow> nat \<Rightarrow> byte list option" where
  "rd buf off n = (if off + n \<le> length buf then Some (take n (drop off buf)) else None)"

definition tuya_pack_protocol_serial_no :: "u32 \<Rightarrow> u32 \<Rightarrow> u32" where
  "tuya_pack_protocol_serial_no rnd serial_no = (if serial_no = 0 then rnd else serial_no) + 1"

text \<open>The length of the message is the length of the list \<open>data\<close>; it is converted to 32 bits.\<close>

definition parse_data_with_pv23 :: "mbedtls \<Rightarrow> (u32 \<Rightarrow> bool) \<Rightarrow> byte list \<Rightarrow> byte list \<Rightarrow> (operate_ret \<times> byte list option) option" where
  "parse_data_with_pv23 M alloc data key =
     (if rd data 0 3 = None \<or> rd data 11 1 = None then None
      else if rd data 0 3 \<noteq> Some TUYA_PV23 then Some (OPRT_VERSION_FMT_ERR, None)
      else if rd data 11 1 \<noteq> Some [0] then Some (OPRT_VERSION_FMT_ERR, None)
      else
        (let len = of_nat (length data) :: u32;
             data_len = len - 40
         in if \<not> alloc (data_len + 1) then Some (OPRT_MALLOC_FAILED, None)
            else
              (case (rd data 12 12, rd data 24 (unat data_len), rd data (unat (len - 16)) 16) of
                 (Some nonce, Some text, Some tag) \<Rightarrow>
                   (let (op_ret, ec_data) = mbedtls_cipher_auth_decrypt_wrapper M (take 16 key) nonce (take 12 data) text tag
                    in if op_ret \<noteq> OPRT_OK then Some (op_ret, None)
                       else if unat data_len < length ec_data then None
                       else Some (OPRT_OK, Some (ec_data @ [0])))
               | _ \<Rightarrow> None)))"

definition parse_data_with_lpv35 :: "(u32 \<Rightarrow> bool) \<Rightarrow> byte list \<Rightarrow> (operate_ret \<times> byte list option) option" where
  "parse_data_with_lpv35 alloc data =
     (let ec_len = of_nat (length data) - 15 :: u32
      in if \<not> alloc (ec_len + 1) then Some (OPRT_MALLOC_FAILED, None)
         else (case rd data 15 (unat ec_len) of None \<Rightarrow> None | Some ec_data \<Rightarrow> Some (OPRT_OK, Some (ec_data @ [0]))))"

definition tuya_parse_protocol_data ::
    "mbedtls \<Rightarrow> (u32 \<Rightarrow> bool) \<Rightarrow> nat \<Rightarrow> byte list option \<Rightarrow> byte list \<Rightarrow> (operate_ret \<times> byte list option) option" where
  "tuya_parse_protocol_data M alloc cmd data key =
     (case data of
        None \<Rightarrow> Some (OPRT_INVALID_PARM, None)
      | Some data \<Rightarrow>
          if length data < 15 then Some (OPRT_INVALID_PARM, None)
          else if cmd = DP_CMD_LAN then parse_data_with_lpv35 alloc data
          else if cmd = DP_CMD_MQ then parse_data_with_pv23 M alloc data key
          else Some (OPRT_COM_ERROR, None))"

fun dec_text :: "nat \<Rightarrow> byte list" where
  "dec_text n = (if n < 10 then [of_nat (48 + n)] else dec_text (n div 10) @ [of_nat (48 + n mod 10)])"

text \<open>The message is printed to a buffer of 60 bytes more than the text.\<close>

definition pack_json :: "u32 \<Rightarrow> u32 \<Rightarrow> byte list \<Rightarrow> byte list" where
  "pack_json pro t src =
     lit ''{\"protocol\":'' @ dec_text (unat pro) @ lit '',\"t\":'' @ dec_text (unat t) @ lit '',\"data\":'' @ src @ lit ''}''"

definition print_json :: "u32 \<Rightarrow> u32 \<Rightarrow> byte list \<Rightarrow> byte list option" where
  "print_json pro t src = (let out = pack_json pro t src in if length out + 1 \<le> length src + 60 then Some out else None)"

text \<open>The random and changing inputs of packing.\<close>

record pack_env =
  posix_time :: u32
  nonce_bytes :: "byte list"
  serial_rnd :: u32

definition pack_data_with_cmd_pv23 ::
    "mbedtls \<Rightarrow> (u32 \<Rightarrow> bool) \<Rightarrow> pack_env \<Rightarrow> byte list \<Rightarrow> byte list \<Rightarrow> u32 \<Rightarrow> u32 \<Rightarrow> byte list \<Rightarrow> (operate_ret \<times> byte list option) option" where
  "pack_data_with_cmd_pv23 M alloc env pv src pro num key =
     (if \<not> alloc (of_nat (length src + 60)) then Some (OPRT_MALLOC_FAILED, None)
      else
        (case print_json pro (posix_time env) src of
           None \<Rightarrow> None
         | Some out \<Rightarrow>
             if \<not> alloc (of_nat (length out + 40)) then Some (OPRT_MALLOC_FAILED, None)
             else
               (let offset = length out;
                    head = take 3 pv @ be32 num @ be32 1 @ [0] @ nonce_bytes env;
                    buf = head @ replicate (offset + 40 - length head) 0
                in case mbedtls_cipher_auth_encrypt_wrapper M (take 16 key) (nonce_bytes env) (take 12 buf) (takeWhile (\<lambda>c. c \<noteq> 0) out) 16 of
                     None \<Rightarrow> None
                   | Some (op_ret, enc, tag) \<Rightarrow>
                       if op_ret \<noteq> OPRT_OK then Some (op_ret, None)
                       else if offset < length enc \<or> length tag \<noteq> 16 then None
                       else Some (OPRT_OK, Some (take (40 + length enc) (memcpy_at (memcpy_at buf 24 enc) (24 + offset) tag))))))"

definition pack_data_with_cmd_lpv35 ::
    "(u32 \<Rightarrow> bool) \<Rightarrow> pack_env \<Rightarrow> byte list \<Rightarrow> byte list \<Rightarrow> u32 \<Rightarrow> u32 \<Rightarrow> (operate_ret \<times> byte list option) option" where
  "pack_data_with_cmd_lpv35 alloc env pv src pro num =
     (if \<not> alloc (of_nat (length src + 60)) then Some (OPRT_MALLOC_FAILED, None)
      else
        (case print_json pro (posix_time env) src of
           None \<Rightarrow> None
         | Some out \<Rightarrow>
             if \<not> alloc (of_nat (15 + length out + 16)) then Some (OPRT_MALLOC_FAILED, None)
             else Some (OPRT_OK, Some (take 3 pv @ be32 0 @ be32 num @ be32 1 @ out))))"

text \<open>The serial number is drawn before the command is looked at.\<close>

definition tuya_pack_protocol_data ::
    "mbedtls \<Rightarrow> (u32 \<Rightarrow> bool) \<Rightarrow> pack_env \<Rightarrow> nat \<Rightarrow> byte list option \<Rightarrow> u32 \<Rightarrow> byte list \<Rightarrow> u32
       \<Rightarrow> (operate_ret \<times> byte list option) option \<times> u32" where
  "tuya_pack_protocol_data M alloc env cmd src pro key serial_no =
     (case src of
        None \<Rightarrow> (Some (OPRT_INVALID_PARM, None), serial_no)
      | Some src \<Rightarrow>
          (let num = tuya_pack_protocol_serial_no (serial_rnd env) serial_no
           in (if cmd = DP_CMD_LAN then pack_data_with_cmd_lpv35 alloc env TUYA_LPV35 src pro num
               else if cmd = DP_CMD_MQ then pack_data_with_cmd_pv23 M alloc env TUYA_PV23 src pro num key
               else Some (OPRT_COM_ERROR, None), num)))"

subsection \<open>Frames of the local network\<close>

record lpv35_frame_object =
  f_sequence :: u32
  f_type :: u32
  f_data :: "byte list"

definition LPV35_FRAME_HEAD :: "byte list" where "LPV35_FRAME_HEAD = [0, 0, 0x66, 0x99]"
definition LPV35_FRAME_TAIL :: "byte list" where "LPV35_FRAME_TAIL = [0, 0, 0x99, 0x66]"
abbreviation (input) LPV35_FRAME_MINI_SIZE :: nat where "LPV35_FRAME_MINI_SIZE \<equiv> 50"

definition lpv35_frame_buffer_size_get :: "lpv35_frame_object \<Rightarrow> nat" where
  "lpv35_frame_buffer_size_get f = 4 + 14 + 12 + length (f_data f) + 16 + 4"

definition additional_data :: "lpv35_frame_object \<Rightarrow> byte list" where
  "additional_data f = [0, 0] @ be32 (f_sequence f) @ be32 (f_type f) @ be32 (12 + of_nat (length (f_data f)) + 16)"

text \<open>\<open>osize\<close> is the size of the output buffer.\<close>

definition lpv35_frame_serialize ::
    "mbedtls \<Rightarrow> byte list \<Rightarrow> byte list option \<Rightarrow> lpv35_frame_object option \<Rightarrow> nat \<Rightarrow> (operate_ret \<times> byte list) option" where
  "lpv35_frame_serialize M nonce key input osize =
     (case (key, input) of
        (Some key, Some f) \<Rightarrow>
          if key = [] then Some (OPRT_INVALID_PARM, [])
          else
            (case mbedtls_cipher_auth_encrypt_wrapper M key nonce (additional_data f) (f_data f) 16 of
               None \<Rightarrow> None
             | Some (op_ret, enc, tag) \<Rightarrow>
                 if op_ret \<noteq> OPRT_OK then (if osize < 30 then None else Some (op_ret, []))
                 else
                   (let output = LPV35_FRAME_HEAD @ additional_data f @ nonce @ enc @ tag @ LPV35_FRAME_TAIL
                    in if osize < length output then None else Some (OPRT_OK, output)))
      | _ \<Rightarrow> Some (OPRT_INVALID_PARM, []))"

text \<open>\<open>input\<close> is the memory from the given address to the end of its buffer, of which the first \<open>ilen\<close> bytes are the frame.\<close>

definition lpv35_frame_parse ::
    "mbedtls \<Rightarrow> (u32 \<Rightarrow> bool) \<Rightarrow> byte list option \<Rightarrow> byte list option \<Rightarrow> nat \<Rightarrow> (operate_ret \<times> lpv35_frame_object option) option" where
  "lpv35_frame_parse M alloc key input ilen =
     (case (key, input) of
        (Some key, Some inp) \<Rightarrow>
          if key = [] \<or> ilen = 0 then Some (OPRT_INVALID_PARM, None)
          else if ilen < 4 \<or> rd inp 0 4 = None \<or> rd inp (ilen - 4) 4 = None then None
          else if rd inp 0 4 \<noteq> Some LPV35_FRAME_HEAD \<or> rd inp (ilen - 4) 4 \<noteq> Some LPV35_FRAME_TAIL then Some (OPRT_VERSION_FMT_ERR, None)
          else if length inp < 18 then None
          else
            (let len = rd32 inp 14
             in if len \<noteq> of_nat ilen - 22 then Some (OPRT_COM_ERROR, None)
                else
                  (let data_len = len - 28
                   in case (rd inp 18 12, rd inp (unat (30 + data_len)) 16) of
                        (Some nonce, Some tag) \<Rightarrow>
                          if \<not> alloc (data_len + 1) then Some (OPRT_MALLOC_FAILED, None)
                          else
                            (case rd inp 30 (unat data_len) of
                               None \<Rightarrow> None
                             | Some data \<Rightarrow>
                                 (let (op_ret, text) = mbedtls_cipher_auth_decrypt_wrapper M key nonce (take 14 (drop 4 inp)) data tag
                                  in if op_ret \<noteq> OPRT_OK then Some (op_ret, None)
                                     else Some (OPRT_OK, Some \<lparr>f_sequence = rd32 inp 6, f_type = rd32 inp 10, f_data = text\<rparr>)))
                      | _ \<Rightarrow> None))
      | _ \<Rightarrow> Some (OPRT_INVALID_PARM, None))"

text \<open>The check of a broadcast datagram of \<open>recv_datalen\<close> bytes in its buffer, and the length of the frame in it.\<close>

abbreviation (input) FRM_TYPE_APP_UDP_BOARDCAST :: u32 where "FRM_TYPE_APP_UDP_BOARDCAST \<equiv> 0x25"

definition udp_serv_is_in_packet_vaild :: "byte list \<Rightarrow> nat \<Rightarrow> bool option" where
  "udp_serv_is_in_packet_vaild buf recv_datalen =
     (if recv_datalen < LPV35_FRAME_MINI_SIZE then Some False
      else if rd buf 0 4 \<noteq> Some LPV35_FRAME_HEAD then Some False
      else
        (case rd buf (4 + 14 + unat (rd32 buf 14)) 4 of
           None \<Rightarrow> None
         | Some tail \<Rightarrow> Some (tail = LPV35_FRAME_TAIL \<and> rd32 buf 10 = FRM_TYPE_APP_UDP_BOARDCAST)))"

definition udp_frame_len :: "byte list \<Rightarrow> u32" where
  "udp_frame_len buf = 4 + 14 + rd32 buf 14 + 4"

section \<open>The printed message\<close>

declare dec_text.simps [simp del]

lemma dec_text_length: "n < 10 ^ k \<Longrightarrow> 0 < k \<Longrightarrow> length (dec_text n) \<le> k"
proof (induction k arbitrary: n)
  case (Suc k)
  show ?case
  proof (cases "n < 10")
    case False
    then have "n div 10 < 10 ^ k" "0 < k" using Suc.prems(1) by (auto intro: Nat.gr0I)
    then show ?thesis using Suc.IH [of "n div 10"] False by (simp add: dec_text.simps [of n])
  qed (simp add: dec_text.simps [of n])
qed simp

lemma dec_text_u32: "length (dec_text (unat (w :: u32))) \<le> 10"
  using dec_text_length [of "unat w" 10] unat_u32_less [of w] by simp

lemma dec_text_no_nul: "0 \<notin> set (dec_text n)"
proof (induction n rule: dec_text.induct)
  case (1 n)
  have "(of_nat (48 + d) :: byte) \<noteq> 0" if "d < 10" for d
    using that by (auto simp: word_of_nat_eq_0_iff simp del: of_nat_add dest!: dvd_imp_le)
  from this [of n] this [of "n mod 10"] 1 show ?case by (simp add: dec_text.simps [of n])
qed

lemma pack_json_length: "length (pack_json pro t src) \<le> length src + 46"
  using dec_text_u32 [of pro] dec_text_u32 [of t] by (simp add: pack_json_def lit_def)

lemma print_json_ok: "print_json pro t src = Some (pack_json pro t src)"
  using pack_json_length [of pro t src] by (simp add: print_json_def Let_def)

lemma pack_json_no_nul: "0 \<notin> set src \<Longrightarrow> 0 \<notin> set (pack_json pro t src)"
  by (auto simp: pack_json_def lit_def dec_text_no_nul)

section \<open>The cipher\<close>

text \<open>What is documented of the authenticated cipher: it decrypts what it encrypted, and its tag is 16 bytes long.\<close>

definition gcm_ok :: "mbedtls \<Rightarrow> bool" where
  "gcm_ok M \<longleftrightarrow> m_info M \<and> m_setup M = 0 \<and> m_block_size M \<noteq> 0 \<and> m_setkey M = 0
     \<and> (\<forall>key nonce ad data. length key = 16 \<longrightarrow>
          (\<exists>enc tag. m_enc M key nonce ad data = (0, enc @ tag) \<and> length enc = length data \<and> length tag = 16
            \<and> m_dec M key nonce ad (enc @ tag) = (0, data)))"

lemma gcm_okE:
  assumes "gcm_ok M" "length key = 16"
  obtains enc tag where "mbedtls_cipher_auth_encrypt_wrapper M key nonce ad data 16 = Some (OPRT_OK, enc, tag)" "length enc = length data"
    "length tag = 16" "mbedtls_cipher_auth_decrypt_wrapper M key nonce ad enc tag = (OPRT_OK, data)"
proof -
  obtain enc tag where "m_enc M key nonce ad data = (0, enc @ tag)" "length enc = length data" "length tag = 16"
    "m_dec M key nonce ad (enc @ tag) = (0, data)" using assms unfolding gcm_ok_def by blast
  with assms show ?thesis
    by (intro that [of enc tag]) (simp_all add: gcm_ok_def mbedtls_cipher_auth_encrypt_wrapper_def mbedtls_cipher_auth_decrypt_wrapper_def)
qed

section \<open>Reading a buffer\<close>

lemma unat_len:
  assumes "k \<le> n" "n < 4294967296"
  shows "unat (of_nat n - of_nat k :: u32) = n - k"
proof -
  have e: "(of_nat n - of_nat k :: u32) = of_nat (n - k)" using assms(1) by (simp add: of_nat_diff)
  have "n - k < 4294967296" using assms(2) by simp
  then show ?thesis unfolding e by (simp add: unsigned_of_nat take_bit_eq_mod)
qed

lemma unat_numeral_len:
  assumes "length data < 4294967296"
  shows "numeral k \<le> length data \<Longrightarrow> unat (of_nat (length data) - numeral k :: u32) = length data - numeral k"
  using unat_len [OF _ assms, of "numeral k"] by simp

lemma rd_append:
  "length xs = i \<Longrightarrow> length ys = n \<Longrightarrow> rd (xs @ ys @ zs) i n = Some ys"
  by (auto simp: rd_def)

text \<open>A message of the cloud protocol: head, nonce, ciphertext and tag.\<close>

lemma pv23_read:
  assumes "data = TUYA_PV23 @ be32 num @ be32 1 @ [0] @ nonce @ enc @ tag" "length nonce = 12" "length tag = 16" "length data < 4294967296"
  shows "rd data 0 3 = Some TUYA_PV23" "rd data 11 1 = Some [0]" "rd data 12 12 = Some nonce" "take 12 data = TUYA_PV23 @ be32 num @ be32 1 @ [0]"
    "unat (of_nat (length data) - 40 :: u32) = length enc" "rd data 24 (length enc) = Some enc" "rd data (unat (of_nat (length data) - 16 :: u32)) 16 = Some tag"
proof -
  have v: "length TUYA_PV23 = 3" by (simp add: TUYA_PV23_def lit_def)
  have l: "length data = length enc + 40" using assms v by simp
  show "unat (of_nat (length data) - 40 :: u32) = length enc" using unat_numeral_len [OF assms(4), of "num.Bit0 (num.Bit0 (num.Bit0 (num.Bit1 (num.Bit0 num.One))))"] l by simp
  have t: "unat (of_nat (length data) - 16 :: u32) = length enc + 24" using unat_numeral_len [OF assms(4), of "num.Bit0 (num.Bit0 (num.Bit0 (num.Bit0 num.One)))"] l by simp
  show "rd data 0 3 = Some TUYA_PV23" using rd_append [of "[]" 0 TUYA_PV23 3] v assms(1) by simp
  show "rd data 11 1 = Some [0]" using rd_append [of "TUYA_PV23 @ be32 num @ be32 1" 11 "[0]" 1] v assms(1) by simp
  show "rd data 12 12 = Some nonce" using rd_append [of "TUYA_PV23 @ be32 num @ be32 1 @ [0]" 12 nonce 12] v assms by simp
  show "take 12 data = TUYA_PV23 @ be32 num @ be32 1 @ [0]" using v assms(1) by simp
  show "rd data 24 (length enc) = Some enc" using rd_append [of "TUYA_PV23 @ be32 num @ be32 1 @ [0] @ nonce" 24 enc "length enc" tag] v assms by simp
  show "rd data (unat (of_nat (length data) - 16 :: u32)) 16 = Some tag"
    unfolding t using rd_append [of "TUYA_PV23 @ be32 num @ be32 1 @ [0] @ nonce @ enc" "length enc + 24" tag 16 "[]"] v assms by simp
qed

lemma pack_pv23:
  assumes "gcm_ok M" "length key = 16" "length (nonce_bytes env) = 12" "0 \<notin> set src" "\<And>n. alloc n"
  obtains enc tag where
    "pack_data_with_cmd_pv23 M alloc env TUYA_PV23 src pro num key =
       Some (OPRT_OK, Some (TUYA_PV23 @ be32 num @ be32 1 @ [0] @ nonce_bytes env @ enc @ tag))"
    "length enc = length (pack_json pro (posix_time env) src)" "length tag = 16"
    "mbedtls_cipher_auth_decrypt_wrapper M key (nonce_bytes env) (TUYA_PV23 @ be32 num @ be32 1 @ [0]) enc tag = (OPRT_OK, pack_json pro (posix_time env) src)"
proof -
  let ?out = "pack_json pro (posix_time env) src" and ?ad = "TUYA_PV23 @ be32 num @ be32 1 @ [0]"
  obtain enc tag where e: "mbedtls_cipher_auth_encrypt_wrapper M key (nonce_bytes env) ?ad ?out 16 = Some (OPRT_OK, enc, tag)"
    "length enc = length ?out" "length tag = 16" "mbedtls_cipher_auth_decrypt_wrapper M key (nonce_bytes env) ?ad enc tag = (OPRT_OK, ?out)"
    using gcm_okE [OF assms(1,2)] by blast
  have v: "length TUYA_PV23 = 3" by (simp add: TUYA_PV23_def lit_def)
  have w: "takeWhile (\<lambda>c. c \<noteq> 0) ?out = ?out" using pack_json_no_nul [OF assms(4)] by (auto intro!: takeWhile_eq_all_conv [THEN iffD2])
  define head where "head = ?ad @ nonce_bytes env"
  have h: "length head = 24" "take 12 (head @ z) = ?ad" for z using v assms(3) by (simp_all add: head_def)
  have "take (40 + length enc) (memcpy_at (memcpy_at (head @ replicate (16 + length ?out) 0) 24 enc) (24 + length ?out) tag) = head @ enc @ tag"
    using e(2,3) h(1) by (simp add: memcpy_at_def)
  then have "pack_data_with_cmd_pv23 M alloc env TUYA_PV23 src pro num key = Some (OPRT_OK, Some (head @ enc @ tag))"
    using e(1-3) h(1) h(2) [of "replicate (16 + length ?out) 0"] v assms(2,5)
    by (simp add: pack_data_with_cmd_pv23_def print_json_ok w Let_def head_def)
  then show ?thesis using e by (intro that [of enc tag]) (simp_all add: head_def)
qed

section \<open>Frames of the local network\<close>

lemma additional_data_length: "length (additional_data f) = 14"
  by (simp add: additional_data_def)

lemma lan_frame_fields:
  fixes f :: lpv35_frame_object
  assumes "inp = LPV35_FRAME_HEAD @ additional_data f @ rest"
  shows "rd inp 0 4 = Some LPV35_FRAME_HEAD" "rd32 inp 6 = f_sequence f" "rd32 inp 10 = f_type f"
    "rd32 inp 14 = 12 + of_nat (length (f_data f)) + 16" "take 14 (drop 4 inp) = additional_data f"
proof -
  let ?h = "LPV35_FRAME_HEAD" and ?s = "be32 (f_sequence f)" and ?t = "be32 (f_type f)"
  have l: "length ?h = 4" by (simp add: LPV35_FRAME_HEAD_def)
  have inp: "inp = ?h @ [0, 0] @ ?s @ ?t @ be32 (12 + of_nat (length (f_data f)) + 16) @ rest" using assms by (simp add: additional_data_def)
  show "rd inp 0 4 = Some ?h" unfolding inp using rd_append [of "[]" 0 ?h 4] l by simp
  show "rd32 inp 6 = f_sequence f" unfolding inp using rd32_be32 [of "?h @ [0, 0]" "f_sequence f"] l by simp
  show "rd32 inp 10 = f_type f" unfolding inp using rd32_be32 [of "?h @ [0, 0] @ ?s" "f_type f"] l by simp
  show "rd32 inp 14 = 12 + of_nat (length (f_data f)) + 16" unfolding inp using rd32_be32 [of "?h @ [0, 0] @ ?s @ ?t"] l by simp
  show "take 14 (drop 4 inp) = additional_data f" using assms l additional_data_length [of f] by simp
qed

lemma frame_parse_built:
  fixes f :: lpv35_frame_object
  assumes fr: "frame = LPV35_FRAME_HEAD @ additional_data f @ nonce @ enc @ tag @ LPV35_FRAME_TAIL"
    and len: "length nonce = 12" "length tag = 16" "length enc = length (f_data f)" "length (f_data f) < 4294967000" and key: "key \<noteq> []"
    and dec: "mbedtls_cipher_auth_decrypt_wrapper M key nonce (additional_data f) enc tag = (OPRT_OK, f_data f)"
    and mem: "alloc (of_nat (length (f_data f)) + 1)"
  shows "lpv35_frame_parse M alloc (Some key) (Some (frame @ rest)) (length frame) = Some (OPRT_OK, Some f)"
proof -
  let ?n = "length (f_data f)" and ?i = "frame @ rest"
  have h: "length LPV35_FRAME_HEAD = 4" "length LPV35_FRAME_TAIL = 4" by (simp_all add: LPV35_FRAME_HEAD_def LPV35_FRAME_TAIL_def)
  have l: "length frame = ?n + 50" using fr len h additional_data_length [of f] by simp
  have i: "?i = LPV35_FRAME_HEAD @ additional_data f @ (nonce @ enc @ tag @ LPV35_FRAME_TAIL @ rest)" using fr by simp
  note ff = lan_frame_fields [OF i]
  have d: "rd32 ?i 14 - 28 = of_nat ?n" "rd32 ?i 14 = of_nat (length frame) - 22" unfolding ff l by simp_all
  have u: "unat (of_nat ?n :: u32) = ?n" "unat (30 + of_nat ?n :: u32) = 30 + ?n"
    using len(4) unat_len [of 0 ?n] unat_len [of 0 "30 + ?n"] by simp_all
  have t: "rd ?i (length frame - 4) 4 = Some LPV35_FRAME_TAIL"
    using rd_append [of "LPV35_FRAME_HEAD @ additional_data f @ nonce @ enc @ tag" "length frame - 4" LPV35_FRAME_TAIL 4 rest] fr l len h additional_data_length [of f] by simp
  have r: "rd ?i 18 12 = Some nonce" "rd ?i (30 + ?n) 16 = Some tag" "rd ?i 30 ?n = Some enc"
    using rd_append [of "LPV35_FRAME_HEAD @ additional_data f" 18 nonce 12]
      rd_append [of "LPV35_FRAME_HEAD @ additional_data f @ nonce @ enc" "30 + ?n" tag 16]
      rd_append [of "LPV35_FRAME_HEAD @ additional_data f @ nonce" 30 enc ?n] i len h additional_data_length [of f] by simp_all
  show ?thesis
    unfolding lpv35_frame_parse_def prod.case option.case Let_def d(1) u r ff(1-3,5) t dec
    unfolding d(2) using key l mem by simp
qed

lemma frame_serialized:
  assumes "gcm_ok M" "length key = 16" "length nonce = 12"
  obtains enc tag where "lpv35_frame_serialize M nonce (Some key) (Some f) (lpv35_frame_buffer_size_get f) =
      Some (OPRT_OK, LPV35_FRAME_HEAD @ additional_data f @ nonce @ enc @ tag @ LPV35_FRAME_TAIL)"
    "length enc = length (f_data f)" "length tag = 16"
    "mbedtls_cipher_auth_decrypt_wrapper M key nonce (additional_data f) enc tag = (OPRT_OK, f_data f)"
proof -
  obtain enc tag where e: "mbedtls_cipher_auth_encrypt_wrapper M key nonce (additional_data f) (f_data f) 16 = Some (OPRT_OK, enc, tag)"
    "length enc = length (f_data f)" "length tag = 16" "mbedtls_cipher_auth_decrypt_wrapper M key nonce (additional_data f) enc tag = (OPRT_OK, f_data f)"
    using gcm_okE [OF assms(1,2)] by blast
  have "key \<noteq> []" using assms(2) by auto
  then show ?thesis using e assms(3)
    by (intro that [of enc tag])
      (simp_all add: lpv35_frame_serialize_def Let_def lpv35_frame_buffer_size_get_def additional_data_length LPV35_FRAME_HEAD_def LPV35_FRAME_TAIL_def)
qed

section \<open>Reads outside a message\<close>

lemma short_len:
  assumes "n < 40" "15 \<le> n"
  shows "4294967270 < unat (of_nat n - 40 :: u32)"
proof -
  have e: "(of_nat n - 40 :: u32) = of_nat (n + 4294967256)" by simp
  have "unat (of_nat (n + 4294967256) :: u32) = n + 4294967256" using assms by (simp only: unsigned_of_nat take_bit_eq_mod) simp
  then show ?thesis unfolding e using assms by simp
qed

lemma pv23_parse_none:
  assumes "length data < 2147483648" "15 \<le> length data" and dec: "\<And>key n ad x. length (snd (m_dec M key n ad x)) \<le> length x - 16"
  shows "parse_data_with_pv23 M alloc data key = None
    \<longleftrightarrow> length data < 40 \<and> take 3 data = TUYA_PV23 \<and> data ! 11 = 0 \<and> alloc (of_nat (length data) - 40 + 1)"
proof -
  have r: "rd data 0 3 = Some (take 3 data)" "rd data 11 1 = Some [data ! 11]" "rd data 12 12 = None \<longleftrightarrow> length data < 24"
    using assms(2) by (auto simp: rd_def take_Suc hd_drop_conv_nth)
  show ?thesis
  proof (cases "length data < 40")
    case True
    have "rd data 24 (unat (of_nat (length data) - 40 :: u32)) = None" using short_len [OF True assms(2)] assms(1) by (simp add: rd_def)
    then show ?thesis using True unfolding parse_data_with_pv23_def r(1,2) Let_def by (auto split: option.splits)
  next
    case False
    have u: "unat (of_nat (length data) - 40 :: u32) = length data - 40" "unat (of_nat (length data) - 16 :: u32) = length data - 16"
      using unat_len [of 40 "length data"] unat_len [of 16 "length data"] False assms(1) by simp_all
    obtain nonce ct tag where s: "rd data 12 12 = Some nonce" "rd data 24 (length data - 40) = Some ct" "rd data (length data - 16) 16 = Some tag"
      "length ct = length data - 40" "length tag = 16" using False by (auto simp: rd_def)
    have "length (snd (mbedtls_cipher_auth_decrypt_wrapper M k nonce ad ct tag)) \<le> length data - 40" for k ad
      using dec [of k nonce ad "ct @ tag"] s(4,5) by (simp add: mbedtls_cipher_auth_decrypt_wrapper_def)
    then show ?thesis using False unfolding parse_data_with_pv23_def r(1,2) Let_def u s
      by (auto split: prod.splits if_splits) (metis leD snd_conv)+
  qed
qed

lemma lpv35_parse_some: "15 \<le> length data \<Longrightarrow> length data < 2147483648 \<Longrightarrow> parse_data_with_lpv35 alloc data \<noteq> None"
  using unat_len [of 15 "length data"] by (simp add: parse_data_with_lpv35_def Let_def rd_def)

lemma frame_parse_some:
  assumes "LPV35_FRAME_MINI_SIZE \<le> ilen" "ilen \<le> length inp" "ilen < 4294967296"
  shows "lpv35_frame_parse M alloc (Some key) (Some inp) ilen \<noteq> None"
proof (cases "rd32 inp 14 = of_nat ilen - 22")
  case True
  have e: "rd32 inp 14 - 28 = of_nat ilen - of_nat 50" "30 + (rd32 inp 14 - 28) = of_nat ilen - of_nat 20" unfolding True by simp_all
  have "unat (rd32 inp 14 - 28) = ilen - 50" "unat (30 + (rd32 inp 14 - 28)) = ilen - 20"
    unfolding e using unat_len [of 50 ilen] unat_len [of 20 ilen] assms by simp_all
  then show ?thesis using assms by (auto simp: lpv35_frame_parse_def Let_def rd_def split: prod.splits)
qed (use assms in \<open>auto simp: lpv35_frame_parse_def Let_def rd_def\<close>)

definition short_frame :: "byte list" where
  "short_frame = LPV35_FRAME_HEAD @ [0, 0] @ be32 1 @ be32 0x25 @ be32 27 @ replicate 27 0 @ LPV35_FRAME_TAIL @ replicate 15 0"

lemma short_frame_fields: "length short_frame = 64" "rd32 short_frame 10 = 0x25" "rd32 short_frame 14 = 27"
  "rd short_frame 0 4 = Some LPV35_FRAME_HEAD" "rd short_frame 45 4 = Some LPV35_FRAME_TAIL"
  by code_simp+

lemma short_frame_parse:
  assumes "alloc 0" "key \<noteq> []"
  shows "udp_serv_is_in_packet_vaild short_frame 64 = Some True"
    "lpv35_frame_parse M alloc (Some key) (Some short_frame) (unat (udp_frame_len short_frame)) = None"
proof -
  show "udp_serv_is_in_packet_vaild short_frame 64 = Some True" by (simp add: udp_serv_is_in_packet_vaild_def short_frame_fields)
  have l: "unat (udp_frame_len short_frame) = 49" by (simp add: udp_frame_len_def short_frame_fields)
  have "rd short_frame 30 (unat (- 1 :: u32)) = None" by (simp add: rd_def short_frame_fields(1) unsigned_minus_1_eq_mask mask_eq_exp_minus_1)
  then show "lpv35_frame_parse M alloc (Some key) (Some short_frame) (unat (udp_frame_len short_frame)) = None"
    unfolding l using assms by (simp add: lpv35_frame_parse_def Let_def short_frame_fields split: option.split)
qed

lemma mq_roundtrip:
  assumes "gcm_ok M" "\<And>n. alloc n" "length key = 16" "length (nonce_bytes env) = 12" "0 \<notin> set src" "length src < 2147483000"
  shows "\<exists>data. tuya_pack_protocol_data M alloc env DP_CMD_MQ (Some src) pro key serial_no =
      (Some (OPRT_OK, Some data), tuya_pack_protocol_serial_no (serial_rnd env) serial_no)
    \<and> tuya_parse_protocol_data M alloc DP_CMD_MQ (Some data) key = Some (OPRT_OK, Some (pack_json pro (posix_time env) src @ [0]))"
proof -
  let ?out = "pack_json pro (posix_time env) src" and ?num = "tuya_pack_protocol_serial_no (serial_rnd env) serial_no"
  have out: "length ?out < 2147483100" using pack_json_length [of pro "posix_time env" src] assms(6) by simp
  obtain enc tag where p: "pack_data_with_cmd_pv23 M alloc env TUYA_PV23 src pro ?num key =
      Some (OPRT_OK, Some (TUYA_PV23 @ be32 ?num @ be32 1 @ [0] @ nonce_bytes env @ enc @ tag))" "length enc = length ?out" "length tag = 16"
    "mbedtls_cipher_auth_decrypt_wrapper M key (nonce_bytes env) (TUYA_PV23 @ be32 ?num @ be32 1 @ [0]) enc tag = (OPRT_OK, ?out)"
    by (rule pack_pv23 [OF assms(1,3,4,5,2)])
  define data where "data = TUYA_PV23 @ be32 ?num @ be32 1 @ [0] @ nonce_bytes env @ enc @ tag"
  have l: "length data = length ?out + 40" using p(2,3) assms(4) by (simp add: data_def TUYA_PV23_def lit_def)
  note r = pv23_read [OF data_def assms(4) p(3)]
  have "parse_data_with_pv23 M alloc data key = Some (OPRT_OK, Some (?out @ [0]))"
    unfolding parse_data_with_pv23_def Let_def using r l out p(2,4) assms(2,3) by simp
  then show ?thesis using p(1) l
    by (intro exI [of _ data]) (simp add: tuya_pack_protocol_data_def tuya_parse_protocol_data_def Let_def data_def)
qed

lemma lan_roundtrip:
  assumes "\<And>n. alloc n" "length src < 2147483000"
  shows "\<exists>data. tuya_pack_protocol_data M alloc env DP_CMD_LAN (Some src) pro key serial_no =
      (Some (OPRT_OK, Some data), tuya_pack_protocol_serial_no (serial_rnd env) serial_no)
    \<and> tuya_parse_protocol_data M alloc DP_CMD_LAN (Some data) key = Some (OPRT_OK, Some (pack_json pro (posix_time env) src @ [0]))"
proof -
  let ?out = "pack_json pro (posix_time env) src" and ?num = "tuya_pack_protocol_serial_no (serial_rnd env) serial_no"
  let ?data = "TUYA_LPV35 @ be32 0 @ be32 ?num @ be32 1 @ ?out"
  have out: "length ?out < 2147483100" using pack_json_length [of pro "posix_time env" src] assms(2) by simp
  have v: "length TUYA_LPV35 = 3" "take 3 TUYA_LPV35 = TUYA_LPV35" by (simp_all add: TUYA_LPV35_def lit_def)
  have "unat (of_nat (length ?data) - 15 :: u32) = length ?out" using unat_len [of 15 "length ?data"] out v by simp
  moreover have "rd ?data 15 (length ?out) = Some ?out" using rd_append [of "TUYA_LPV35 @ be32 0 @ be32 ?num @ be32 1" 15 ?out "length ?out" "[]"] v by simp
  ultimately have "parse_data_with_lpv35 alloc ?data = Some (OPRT_OK, Some (?out @ [0]))"
    unfolding parse_data_with_lpv35_def Let_def using assms(1) by simp
  moreover have "pack_data_with_cmd_lpv35 alloc env TUYA_LPV35 src pro ?num = Some (OPRT_OK, Some ?data)"
    using assms(1) v by (simp add: pack_data_with_cmd_lpv35_def print_json_ok)
  ultimately show ?thesis using v
    by (intro exI [of _ ?data]) (simp add: tuya_pack_protocol_data_def tuya_parse_protocol_data_def Let_def)
qed

section \<open>Properties\<close>

text \<open>
  C28. A message packed for the cloud or for the local network is parsed to the message that was printed, for every text; the buffers
  allocated are large enough.
\<close>

theorem protocol_roundtrip:
  assumes "gcm_ok M" "\<And>n. alloc n" "length key = 16" "length (nonce_bytes env) = 12" "0 \<notin> set src" "length src < 2147483000"
    and "cmd = DP_CMD_LAN \<or> cmd = DP_CMD_MQ"
  shows "\<exists>data. tuya_pack_protocol_data M alloc env cmd (Some src) pro key serial_no =
      (Some (OPRT_OK, Some data), tuya_pack_protocol_serial_no (serial_rnd env) serial_no)
    \<and> tuya_parse_protocol_data M alloc cmd (Some data) key = Some (OPRT_OK, Some (pack_json pro (posix_time env) src @ [0]))"
  using assms(7)
proof
  assume c: "cmd = DP_CMD_LAN"
  show ?thesis unfolding c by (rule lan_roundtrip [OF assms(2,6)])
next
  assume c: "cmd = DP_CMD_MQ"
  show ?thesis unfolding c by (rule mq_roundtrip [OF assms(1-6)])
qed

text \<open>
  A frame of the local network fills exactly the buffer that its size function announces, and is parsed to itself, whatever follows it in
  the receive buffer.
\<close>

theorem lan_frame_roundtrip:
  assumes "gcm_ok M" "length key = 16" "length nonce = 12" "length (f_data f) < 4294967000" "alloc (of_nat (length (f_data f)) + 1)"
  shows "\<exists>frame. lpv35_frame_serialize M nonce (Some key) (Some f) (lpv35_frame_buffer_size_get f) = Some (OPRT_OK, frame)
    \<and> length frame = lpv35_frame_buffer_size_get f
    \<and> lpv35_frame_parse M alloc (Some key) (Some (frame @ rest)) (length frame) = Some (OPRT_OK, Some f)"
proof -
  obtain enc tag where s: "lpv35_frame_serialize M nonce (Some key) (Some f) (lpv35_frame_buffer_size_get f) =
      Some (OPRT_OK, LPV35_FRAME_HEAD @ additional_data f @ nonce @ enc @ tag @ LPV35_FRAME_TAIL)"
    "length enc = length (f_data f)" "length tag = 16"
    "mbedtls_cipher_auth_decrypt_wrapper M key nonce (additional_data f) enc tag = (OPRT_OK, f_data f)"
    using frame_serialized [OF assms(1-3)] by blast
  have "key \<noteq> []" using assms(2) by auto
  from frame_parse_built [OF refl assms(3) s(3,2) assms(4) this s(4), of alloc, OF assms(5)] s show ?thesis
    using assms(3) by (auto simp: lpv35_frame_buffer_size_get_def additional_data_length LPV35_FRAME_HEAD_def LPV35_FRAME_TAIL_def)
qed

text \<open>
  C29. Of the messages under two gigabytes, the parser leaves its buffers on exactly the cloud messages of 15 to 39 bytes with the right version and a zero
  in the reserved place for which the allocation succeeds: the length of the ciphertext wraps around below zero, and what is allocated is that
  length and one byte more, so nothing at all for 39 bytes and almost four gigabytes for fewer. Where the allocation fails, and on every other message, it stays inside.
  The parser of local messages never leaves them.
\<close>

theorem cloud_parse_memory:
  assumes "length data < 2147483648" "\<And>key n ad x. length (snd (m_dec M key n ad x)) \<le> length x - 16"
  shows "tuya_parse_protocol_data M alloc cmd (Some data) key = None
    \<longleftrightarrow> cmd = DP_CMD_MQ \<and> 15 \<le> length data \<and> length data < 40 \<and> take 3 data = TUYA_PV23 \<and> data ! 11 = 0 \<and> alloc (of_nat (length data) - 40 + 1)"
proof (cases "length data < 15")
  case False
  then have "15 \<le> length data" by simp
  from pv23_parse_none [OF assms(1) this assms(2), of alloc key] lpv35_parse_some [OF this assms(1), of alloc] False show ?thesis
    by (auto simp: tuya_parse_protocol_data_def)
qed (simp add: tuya_parse_protocol_data_def)

text \<open>
  The parser of frames never leaves a frame of at least the minimal size of 50 bytes. Its callers check the size of what was received and not
  the size of the frame in it: a broadcast datagram of 64 bytes that passes the check holds a frame of 49 bytes, on which the
  parser allocates nothing and reads four gigabytes.
\<close>

theorem lan_parse_memory:
  "(LPV35_FRAME_MINI_SIZE \<le> ilen \<and> ilen \<le> length inp \<and> ilen < 4294967296 \<longrightarrow> lpv35_frame_parse M alloc (Some key) (Some inp) ilen \<noteq> None)
   \<and> (alloc 0 \<and> key \<noteq> [] \<longrightarrow>
       (\<exists>buf. length buf = 64 \<and> udp_serv_is_in_packet_vaild buf 64 = Some True
         \<and> lpv35_frame_parse M alloc (Some key) (Some buf) (unat (udp_frame_len buf)) = None))"
  using frame_parse_some [of ilen inp M alloc key] short_frame_parse(1) [of alloc key] short_frame_parse(2) [of alloc key M] short_frame_fields(1) by blast

section \<open>Concrete instances\<close>

definition xor_cipher :: mbedtls where
  "xor_cipher = \<lparr>m_info = True, m_setup = 0, m_block_size = 16, m_setkey = 0,
     m_enc = (\<lambda>key nonce ad data. (0, map (\<lambda>b. b XOR hd key) data @ replicate 16 7)),
     m_dec = (\<lambda>key nonce ad x. (0, map (\<lambda>b. b XOR hd key) (take (length x - 16) x)))\<rparr>"

lemma xor_cipher_ok: "gcm_ok xor_cipher"
proof -
  have "(b XOR k) XOR k = b" for b k :: byte by (simp add: xor.assoc)
  then have "\<exists>enc tag. m_enc xor_cipher key nonce ad data = (0, enc @ tag) \<and> length enc = length data \<and> length tag = 16
      \<and> m_dec xor_cipher key nonce ad (enc @ tag) = (0, data)" for key nonce ad data
    by (intro exI [of _ "map (\<lambda>b. b XOR hd key) data"] exI [of _ "replicate 16 7"]) (simp add: xor_cipher_def comp_def)
  then show ?thesis unfolding gcm_ok_def by (simp add: xor_cipher_def)
qed

theorem protocol_roundtrip_witness:
  "\<exists>data. tuya_parse_protocol_data xor_cipher (\<lambda>_. True) DP_CMD_MQ (Some data) (replicate 16 85)
    = Some (OPRT_OK, Some (pack_json 4 1000 [123, 125] @ [0]))"
  using protocol_roundtrip [of xor_cipher "\<lambda>_. True" "replicate 16 85" "\<lparr>posix_time = 1000, nonce_bytes = replicate 12 48, serial_rnd = 9\<rparr>" "[123, 125]"
      DP_CMD_MQ 4 0] xor_cipher_ok by auto

theorem lan_frame_roundtrip_witness:
  "\<exists>frame. lpv35_frame_parse xor_cipher (\<lambda>_. True) (Some (replicate 16 85)) (Some (frame @ [1, 2, 3])) (length frame)
    = Some (OPRT_OK, Some \<lparr>f_sequence = 7, f_type = 0x25, f_data = [65, 66]\<rparr>)"
  using lan_frame_roundtrip [of xor_cipher "replicate 16 85" "replicate 12 48" "\<lparr>f_sequence = 7, f_type = 0x25, f_data = [65, 66]\<rparr>" "\<lambda>_. True" "[1, 2, 3]"]
    xor_cipher_ok by auto

theorem cloud_parse_memory_witness:
  "tuya_parse_protocol_data xor_cipher (\<lambda>n. n < 100000) DP_CMD_MQ (Some (TUYA_PV23 @ replicate 36 0)) (replicate 16 85) = None"
  using cloud_parse_memory [of "TUYA_PV23 @ replicate 36 0" xor_cipher "\<lambda>n. n < 100000" DP_CMD_MQ "replicate 16 85"]
  by (simp add: xor_cipher_def TUYA_PV23_def lit_def nth_append)

theorem lan_parse_memory_witness:
  "lpv35_frame_parse xor_cipher (\<lambda>_. True) (Some [85]) (Some (replicate 60 0)) 50 \<noteq> None
   \<and> (\<exists>buf. length buf = 64 \<and> udp_serv_is_in_packet_vaild buf 64 = Some True
       \<and> lpv35_frame_parse xor_cipher (\<lambda>_. True) (Some [85]) (Some buf) (unat (udp_frame_len buf)) = None)"
  using lan_parse_memory [of 50 "replicate 60 0" xor_cipher "\<lambda>_. True" "[85]"] by simp

end
