(* ===== verification/Netcfg.thy ===== *)
theory Netcfg
  imports Workqueue "HOL-Library.Monad_Syntax"
begin

text \<open>
  The registry of the provisioning methods, \<^verbatim>\<open>src/tuya_cloud_service/netcfg/netcfg.c\<close>, on the model of the work queues: a start is a
  work item of the high-priority queue whose argument is the address of a handler. The list of handlers is the sequence of its
  nodes, each with its address. The functions that start and stop a method are arguments that say what they return; the calls made
  are kept in order in \<open>nc_log\<close>. \<open>None\<close> is a read of memory that is not, or no longer, allocated.
\<close>

section \<open>Model\<close>

record netcfg_handler =
  h_addr :: nat
  h_type :: int
  h_finish_cb :: "nat option"
  h_args :: "nat option"
  isStarted :: bool

datatype netcfg_call = Start_Call int | Stop_Call int

record 's netcfg =
  nc_session :: "netcfg_handler list option"
  nc_inited :: bool
  nc_wq :: "'s workqueue"
  nc_log :: "netcfg_call list"

text \<open>The identity of \<^verbatim>\<open>__netcfg_start_msg_cb\<close> among the callbacks of work items.\<close>

abbreviation START_MSG_CB :: nat where "START_MSG_CB \<equiv> 2"

definition upd_handler :: "nat \<Rightarrow> (netcfg_handler \<Rightarrow> netcfg_handler) \<Rightarrow> netcfg_handler list \<Rightarrow> netcfg_handler list" where
  "upd_handler a f = map (\<lambda>h. if h_addr h = a then f h else h)"

definition netcfg_start_msg_cb :: "(int \<Rightarrow> operate_ret) \<Rightarrow> nat option \<Rightarrow> 's netcfg \<Rightarrow> 's netcfg option" where
  "netcfg_start_msg_cb starts msg nc =
     do {
       a \<leftarrow> msg;
       hs \<leftarrow> nc_session nc;
       h \<leftarrow> find (\<lambda>h. h_addr h = a) hs;
       let nc = nc\<lparr>nc_log := nc_log nc @ [Start_Call (h_type h)]\<rparr>;
       Some (if starts (h_type h) = OPRT_OK then nc\<lparr>nc_session := Some (upd_handler a (\<lambda>h. h\<lparr>isStarted := True\<rparr>) hs)\<rparr> else nc)
     }"

text \<open>\<open>mem\<close> is the address that the allocation returns. A new node is put in front; its \<^verbatim>\<open>args\<close> are what the memory held, \<open>old\<close>.\<close>

definition netcfg_register :: "nat option \<Rightarrow> int \<Rightarrow> nat option \<Rightarrow> 's netcfg \<Rightarrow> (operate_ret \<times> 's netcfg) option" where
  "netcfg_register old type mem nc =
     (case nc_session nc of
        None \<Rightarrow> None
      | Some hs \<Rightarrow>
          if \<exists>h \<in> set hs. h_type h = type then Some (OPRT_INVALID_PARM, nc)
          else
            (case mem of
               None \<Rightarrow> Some (OPRT_MALLOC_FAILED, nc)
             | Some a \<Rightarrow>
                 Some (OPRT_OK, nc\<lparr>nc_session := Some (\<lparr>h_addr = a, h_type = type, h_finish_cb = None, h_args = old, isStarted = False\<rparr> # hs)\<rparr>)))"

fun remove_type :: "int \<Rightarrow> netcfg_handler list \<Rightarrow> netcfg_handler list option" where
  "remove_type type [] = None"
| "remove_type type (h # hs) = (if h_type h = type then Some hs else map_option (Cons h) (remove_type type hs))"

definition netcfg_unregister :: "int \<Rightarrow> 's netcfg \<Rightarrow> operate_ret \<times> 's netcfg" where
  "netcfg_unregister type nc =
     (case nc_session nc of
        None \<Rightarrow> (OPRT_COM_ERROR, nc)
      | Some hs \<Rightarrow>
          (case remove_type type hs of
             None \<Rightarrow> (OPRT_INVALID_PARM, nc)
           | Some hs' \<Rightarrow> (OPRT_OK, nc\<lparr>nc_session := Some hs'\<rparr>)))"

definition netcfg_get_handler :: "int \<Rightarrow> 's netcfg \<Rightarrow> netcfg_handler option" where
  "netcfg_get_handler type nc = Option.bind (nc_session nc) (find (\<lambda>h. h_type h = type))"

definition netcfg_init :: "bool \<Rightarrow> 's netcfg \<Rightarrow> operate_ret \<times> 's netcfg" where
  "netcfg_init mem nc =
     (if nc_session nc \<noteq> None then (OPRT_OK, nc)
      else if \<not> mem then (OPRT_MALLOC_FAILED, nc)
      else (OPRT_OK, nc\<lparr>nc_session := Some []\<rparr>))"

definition netcfg_uninit :: "'s netcfg \<Rightarrow> operate_ret \<times> 's netcfg" where
  "netcfg_uninit nc =
     (OPRT_OK,
      if nc_session nc = None then nc
      else
        (let wq = the (snd (tal_workqueue_cancel (Some (nc_wq nc)) (Some START_MSG_CB) None))
         in nc\<lparr>nc_wq := wq, nc_session := None\<rparr>))"

definition netcfg_get_register_count :: "'s netcfg \<Rightarrow> nat" where
  "netcfg_get_register_count nc = (case nc_session nc of None \<Rightarrow> 0 | Some hs \<Rightarrow> length hs)"

definition netcfg_get_register_started_count :: "'s netcfg \<Rightarrow> nat" where
  "netcfg_get_register_started_count nc = (case nc_session nc of None \<Rightarrow> 0 | Some hs \<Rightarrow> length (filter isStarted hs))"

text \<open>\<open>item_mem\<close> says whether the work item can be allocated; the result of the scheduling is ignored.\<close>

definition netcfg_start ::
    "'s sem_ops \<Rightarrow> bool \<Rightarrow> int \<Rightarrow> nat option \<Rightarrow> nat option \<Rightarrow> 's netcfg \<Rightarrow> operate_ret \<times> 's netcfg" where
  "netcfg_start S item_mem type finish_cb args nc =
     (let nc = nc\<lparr>nc_inited := True\<rparr>
      in case netcfg_get_handler type nc of
           None \<Rightarrow> (OPRT_INVALID_PARM, nc)
         | Some h \<Rightarrow>
             (let hs = upd_handler (h_addr h) (\<lambda>h. h\<lparr>h_finish_cb := finish_cb, h_args := args\<rparr>) (the (nc_session nc));
                  wq = the (snd (tal_workqueue_schedule S (Some (nc_wq nc)) (Some START_MSG_CB) (Some (h_addr h)) item_mem))
              in (OPRT_OK, nc\<lparr>nc_session := Some hs, nc_wq := wq\<rparr>)))"

definition is_netcfg_inited :: "'s netcfg \<Rightarrow> bool" where
  "is_netcfg_inited nc = nc_inited nc"

text \<open>The loop over the handlers that stops those chosen; the results of the stop functions are only printed.\<close>

definition stop_chosen :: "(netcfg_handler \<Rightarrow> bool) \<Rightarrow> 's netcfg \<Rightarrow> 's netcfg" where
  "stop_chosen chosen nc =
     (case nc_session nc of
        None \<Rightarrow> nc
      | Some hs \<Rightarrow>
          nc\<lparr>nc_session := Some (map (\<lambda>h. if isStarted h \<and> chosen h then h\<lparr>isStarted := False\<rparr> else h) hs),
             nc_log := nc_log nc @ map (\<lambda>h. Stop_Call (h_type h)) (filter (\<lambda>h. isStarted h \<and> chosen h) hs)\<rparr>)"

definition netcfg_stop :: "(int \<Rightarrow> operate_ret) \<Rightarrow> int \<Rightarrow> 's netcfg \<Rightarrow> operate_ret \<times> 's netcfg" where
  "netcfg_stop stops type nc =
     (if type \<noteq> 0 then
        (case netcfg_get_handler type nc of
           None \<Rightarrow> (OPRT_INVALID_PARM, nc)
         | Some h \<Rightarrow>
             if isStarted h
             then (stops type, nc\<lparr>nc_session := map_option (upd_handler (h_addr h) (\<lambda>h. h\<lparr>isStarted := False\<rparr>)) (nc_session nc),
                                 nc_log := nc_log nc @ [Stop_Call type]\<rparr>)
             else (OPRT_OK, nc))
      else if nc_session nc = None then (OPRT_COM_ERROR, nc)
      else (OPRT_OK, snd (netcfg_uninit (stop_chosen (\<lambda>_. True) nc))))"

definition netcfg_start_other_all :: "'s sem_ops \<Rightarrow> (int \<Rightarrow> bool) \<Rightarrow> int \<Rightarrow> 's netcfg \<Rightarrow> operate_ret \<times> 's netcfg" where
  "netcfg_start_other_all S item_mem type nc =
     (case nc_session nc of
        None \<Rightarrow> (OPRT_COM_ERROR, nc)
      | Some hs \<Rightarrow>
          (OPRT_OK,
           fold (\<lambda>h nc. if h_finish_cb h \<noteq> None \<and> \<not> isStarted h \<and> type \<noteq> h_type h
                        then snd (netcfg_start S (item_mem (h_type h)) (h_type h) (h_finish_cb h) (h_args h) nc) else nc) hs nc))"

definition netcfg_stop_other_all :: "int \<Rightarrow> 's netcfg \<Rightarrow> operate_ret \<times> 's netcfg" where
  "netcfg_stop_other_all type nc =
     (if nc_session nc = None then (OPRT_COM_ERROR, nc) else (OPRT_OK, stop_chosen (\<lambda>h. type \<noteq> h_type h) nc))"

text \<open>One iteration of the worker of the high-priority queue. What the items of other modules do is left out.\<close>

definition netcfg_worker :: "'s sem_ops \<Rightarrow> (int \<Rightarrow> operate_ret) \<Rightarrow> 's netcfg \<Rightarrow> 's netcfg option" where
  "netcfg_worker S starts nc =
     (let (wq, r) = work_thread_iter S (\<lambda>cb data e. if cb = START_MSG_CB then Option.bind e (netcfg_start_msg_cb starts data) else e) (nc_wq nc) (Some nc)
      in map_option (\<lambda>nc. nc\<lparr>nc_wq := wq\<rparr>) r)"

section \<open>Interleavings\<close>

text \<open>
  The callers and the worker, in any order. An allocation returns an address that no handler has. Other modules schedule their own items
  on the queue. A method is removed only when its start is not waiting in the queue: \<open>start_pending\<close> is what a caller of \<^verbatim>\<open>netcfg_unregister\<close> has to
  exclude, since the function does not look at the queue.
\<close>

definition start_items :: "'s netcfg \<Rightarrow> work_item list" where
  "start_items nc = filter (\<lambda>x. w_cb x = Some START_MSG_CB) (q_head (wq_queue (nc_wq nc)))"

definition start_pending :: "int \<Rightarrow> 's netcfg \<Rightarrow> bool" where
  "start_pending type nc \<longleftrightarrow> (case netcfg_get_handler type nc of None \<Rightarrow> False | Some h \<Rightarrow> Some (h_addr h) \<in> w_data ` set (start_items nc))"

inductive netcfg_step :: "'s sem_ops \<Rightarrow> (int \<Rightarrow> operate_ret) \<Rightarrow> (int \<Rightarrow> operate_ret) \<Rightarrow> 's netcfg \<Rightarrow> 's netcfg \<Rightarrow> bool" for S starts stops where
  ns_init: "netcfg_step S starts stops nc (snd (netcfg_init mem nc))"
| ns_register: "netcfg_register old type mem nc = Some (r, nc') \<Longrightarrow> \<forall>a hs. mem = Some a \<and> nc_session nc = Some hs \<longrightarrow> a \<notin> h_addr ` set hs
    \<Longrightarrow> netcfg_step S starts stops nc nc'"
| ns_unregister: "\<not> start_pending type nc \<Longrightarrow> netcfg_step S starts stops nc (snd (netcfg_unregister type nc))"
| ns_start: "netcfg_step S starts stops nc (snd (netcfg_start S item_mem type fin args nc))"
| ns_stop: "netcfg_step S starts stops nc (snd (netcfg_stop stops type nc))"
| ns_uninit: "netcfg_step S starts stops nc (snd (netcfg_uninit nc))"
| ns_start_other: "netcfg_step S starts stops nc (snd (netcfg_start_other_all S mems type nc))"
| ns_stop_other: "netcfg_step S starts stops nc (snd (netcfg_stop_other_all type nc))"
| ns_other: "cb \<noteq> START_MSG_CB \<Longrightarrow> tal_workqueue_schedule S (Some (nc_wq nc)) (Some cb) data item_mem = (r, Some wq)
    \<Longrightarrow> netcfg_step S starts stops nc (nc\<lparr>nc_wq := wq\<rparr>)"
| ns_worker: "netcfg_worker S starts nc = Some nc' \<Longrightarrow> netcfg_step S starts stops nc nc'"

text \<open>Every pending start names a live handler; addresses and types are unique.\<close>

definition nc_inv :: "'s netcfg \<Rightarrow> bool" where
  "nc_inv nc \<longleftrightarrow> queue_inv (wq_queue (nc_wq nc))
     \<and> (case nc_session nc of
          None \<Rightarrow> start_items nc = []
        | Some hs \<Rightarrow> distinct (map h_addr hs) \<and> distinct (map h_type hs)
            \<and> (\<forall>x \<in> set (start_items nc). \<exists>h \<in> set hs. w_data x = Some (h_addr h)))"

section \<open>The queue\<close>

lemma schedule_items:
  assumes "queue_inv (wq_queue wq)"
  obtains wq' where "snd (tal_workqueue_schedule S (Some wq) (Some cb) data mem) = Some wq'" "queue_inv (wq_queue wq')"
    "q_head (wq_queue wq') = q_head (wq_queue wq) \<or> q_head (wq_queue wq') = q_head (wq_queue wq) @ [\<lparr>w_cb = Some cb, w_data = data\<rparr>]"
proof -
  obtain r q where e: "tuya_queue_input (Some (wq_queue wq)) (Some \<lparr>w_cb = Some cb, w_data = data\<rparr>) mem = (r, Some q)" "queue_inv q"
    "q_head q = q_head (wq_queue wq) \<or> q_head q = q_head (wq_queue wq) @ [\<lparr>w_cb = Some cb, w_data = data\<rparr>]"
  proof (cases "mem \<and> queue_free (wq_queue wq) > 0")
    case True
    then show ?thesis
      using assms that [of OPRT_OK "(wq_queue wq)\<lparr>q_head := q_head (wq_queue wq) @ [\<lparr>w_cb = Some cb, w_data = data\<rparr>], queue_free := queue_free (wq_queue wq) - 1\<rparr>"]
      by (simp add: tuya_queue_input_def enqueue_def queue_inv_def)
  next
    case False
    then show ?thesis using assms that [of "if mem then OPRT_EXCEED_UPPER_LIMIT else OPRT_MALLOC_FAILED" "wq_queue wq"]
      by (simp add: tuya_queue_input_def enqueue_def)
  qed
  show ?thesis
  proof (cases "r = OPRT_OK")
    case True
    then show ?thesis using e
      by (intro that [of "wq\<lparr>wq_queue := q, wq_sem := snd (sem_post S (wq_sem wq))\<rparr>"]) (simp_all add: tal_workqueue_schedule_def split: prod.split)
  next
    case False
    then show ?thesis using e by (intro that [of "wq\<lparr>wq_queue := q\<rparr>"]) (simp_all add: tal_workqueue_schedule_def)
  qed
qed

lemma cancel_items:
  assumes "queue_inv (wq_queue wq)"
  obtains wq' where "snd (tal_workqueue_cancel (Some wq) (Some START_MSG_CB) None) = Some wq'" "queue_inv (wq_queue wq')"
    "filter (\<lambda>x. w_cb x = Some START_MSG_CB) (q_head (wq_queue wq')) = []"
proof (rule that)
  let ?wq = "wq\<lparr>wq_queue := (wq_queue wq)\<lparr>q_head := map (cancel_mark (Some START_MSG_CB) None) (q_head (wq_queue wq))\<rparr>\<rparr>"
  show "snd (tal_workqueue_cancel (Some wq) (Some START_MSG_CB) None) = Some ?wq" by (simp add: cancel_eq)
  show "queue_inv (wq_queue ?wq)" using assms by (simp add: queue_inv_def)
  show "filter (\<lambda>x. w_cb x = Some START_MSG_CB) (q_head (wq_queue ?wq)) = []" by (auto simp: cancel_mark_def filter_empty_conv)
qed

lemma worker_cases:
  assumes "queue_inv (wq_queue (nc_wq nc))"
  obtains (idle) wq where "netcfg_worker S starts nc = Some (nc\<lparr>nc_wq := wq\<rparr>)" "queue_inv (wq_queue wq)" "q_head (wq_queue wq) = q_head (wq_queue (nc_wq nc))"
    | (skip) x xs wq where "netcfg_worker S starts nc = Some (nc\<lparr>nc_wq := wq\<rparr>)" "queue_inv (wq_queue wq)" "q_head (wq_queue (nc_wq nc)) = x # xs"
        "q_head (wq_queue wq) = xs" "w_cb x \<noteq> Some START_MSG_CB"
    | (start) x xs wq where "netcfg_worker S starts nc = map_option (\<lambda>nc. nc\<lparr>nc_wq := wq\<rparr>) (netcfg_start_msg_cb starts (w_data x) nc)"
        "queue_inv (wq_queue wq)" "q_head (wq_queue (nc_wq nc)) = x # xs" "q_head (wq_queue wq) = xs" "w_cb x = Some START_MSG_CB"
proof -
  obtain r sem where w: "sem_wait S (wq_sem (nc_wq nc)) = (r, sem)" by (cases "sem_wait S (wq_sem (nc_wq nc))")
  let ?q = "wq_queue (nc_wq nc)"
  consider (no) "r \<noteq> OPRT_OK \<or> q_head ?q = []" | (item) x xs where "r = OPRT_OK" "q_head ?q = x # xs" by (cases "q_head ?q") auto
  then show ?thesis
  proof cases
    case no
    then show ?thesis using assms w
      by (intro idle [of "(nc_wq nc)\<lparr>wq_sem := sem\<rparr>"]) (auto simp: netcfg_worker_def work_thread_iter_def tuya_queue_output_def queue_inv_def Let_def)
  next
    case (item x xs)
    let ?wq = "(nc_wq nc)\<lparr>wq_sem := sem, wq_queue := ?q\<lparr>q_head := xs, queue_free := queue_free ?q + 1\<rparr>\<rparr>"
    have q: "queue_free ?q < queue_len ?q" "queue_inv (wq_queue ?wq)" using assms item(2) by (auto simp: queue_inv_def)
    show ?thesis
    proof (cases "w_cb x = Some START_MSG_CB")
      case True
      with item w q show ?thesis by (intro start [of ?wq x xs]) (simp_all add: netcfg_worker_def work_thread_iter_def tuya_queue_output_def Let_def)
    next
      case False
      with item w q show ?thesis
        by (intro skip [of ?wq x xs]) (auto simp: netcfg_worker_def work_thread_iter_def tuya_queue_output_def Let_def split: option.split)
    qed
  qed
qed

section \<open>The invariant\<close>

lemma upd_handler_maps:
  assumes "\<And>h. h_addr (f h) = h_addr h" "\<And>h. h_type (f h) = h_type h"
  shows "map h_addr (upd_handler a f hs) = map h_addr hs" "map h_type (upd_handler a f hs) = map h_type hs"
  using assms by (simp_all add: upd_handler_def)

text \<open>The invariant only sees the queue, the addresses and the types.\<close>

lemma nc_inv_Some:
  "nc_session nc = Some hs \<Longrightarrow> nc_inv nc \<longleftrightarrow> queue_inv (wq_queue (nc_wq nc)) \<and> distinct (map h_addr hs) \<and> distinct (map h_type hs)
     \<and> (\<forall>x \<in> set (start_items nc). w_data x \<in> Some ` set (map h_addr hs))"
  by (auto simp: nc_inv_def)

lemma nc_inv_maps:
  assumes "nc_inv nc" "nc_session nc = Some hs" "nc_session nc' = Some hs'" "map h_addr hs' = map h_addr hs" "map h_type hs' = map h_type hs"
    "nc_wq nc' = nc_wq nc"
  shows "nc_inv nc'"
  using assms(1) unfolding nc_inv_Some [OF assms(2)] nc_inv_Some [OF assms(3)] assms(4-6) start_items_def by simp

lemma start_inv:
  assumes "nc_inv nc"
  shows "nc_inv (snd (netcfg_start S item_mem type fin args nc))"
proof (cases "netcfg_get_handler type nc")
  case None
  then have "snd (netcfg_start S item_mem type fin args nc) = nc\<lparr>nc_inited := True\<rparr>" by (simp add: netcfg_start_def Let_def netcfg_get_handler_def)
  then show ?thesis using assms by (simp add: nc_inv_def start_items_def split: option.splits)
next
  case (Some h)
  then obtain hs where f: "nc_session nc = Some hs" "find (\<lambda>h. h_type h = type) hs = Some h"
    by (auto simp: netcfg_get_handler_def bind_eq_Some_conv)
  then have "h \<in> set hs" by (auto simp: find_Some_iff)
  note hs = f(1) this f(2)
  have q: "queue_inv (wq_queue (nc_wq nc))" using assms by (simp add: nc_inv_def)
  obtain wq where w: "snd (tal_workqueue_schedule S (Some (nc_wq nc)) (Some START_MSG_CB) (Some (h_addr h)) item_mem) = Some wq" "queue_inv (wq_queue wq)"
    "q_head (wq_queue wq) = q_head (wq_queue (nc_wq nc)) \<or> q_head (wq_queue wq) = q_head (wq_queue (nc_wq nc)) @ [\<lparr>w_cb = Some START_MSG_CB, w_data = Some (h_addr h)\<rparr>]"
    using schedule_items [OF q] by blast
  define us where "us = upd_handler (h_addr h) (\<lambda>h. h\<lparr>h_finish_cb := fin, h_args := args\<rparr>) hs"
  have m: "map h_addr us = map h_addr hs" "map h_type us = map h_type hs" by (simp_all add: us_def upd_handler_maps)
  have e: "snd (netcfg_start S item_mem type fin args nc) = nc\<lparr>nc_inited := True, nc_session := Some us, nc_wq := wq\<rparr>"
    using hs w(1) by (simp add: netcfg_start_def Let_def netcfg_get_handler_def us_def)
  have n: "nc_session (nc\<lparr>nc_inited := True, nc_session := Some us, nc_wq := wq\<rparr>) = Some us" by simp
  show ?thesis using assms w(2,3) hs(2) unfolding e nc_inv_Some [OF n] m nc_inv_Some [OF hs(1)] start_items_def by auto
qed

lemma start_msg_inv:
  assumes "nc_inv nc" "nc_session nc = Some hs" "h \<in> set hs"
  obtains nc' hs' where "netcfg_start_msg_cb starts (Some (h_addr h)) nc = Some nc'" "nc_session nc' = Some hs'" "map h_addr hs' = map h_addr hs"
    "map h_type hs' = map h_type hs" "nc_wq nc' = nc_wq nc"
proof -
  obtain k where "find (\<lambda>g. h_addr g = h_addr h) hs = Some k" using assms(3) by (cases "find (\<lambda>g. h_addr g = h_addr h) hs") (auto simp: find_None_iff)
  then show ?thesis using assms(2) that [of _ "if starts (h_type k) = OPRT_OK then upd_handler (h_addr h) (\<lambda>h. h\<lparr>isStarted := True\<rparr>) hs else hs"]
    by (simp add: netcfg_start_msg_cb_def Let_def upd_handler_maps)
qed

lemma worker_inv:
  assumes "nc_inv nc"
  obtains nc' where "netcfg_worker S starts nc = Some nc'" "nc_inv nc'"
proof -
  have q: "queue_inv (wq_queue (nc_wq nc))" using assms by (simp add: nc_inv_def)
  have sub: "nc_inv (n\<lparr>nc_wq := wq\<rparr>)"
    if "nc_inv n" "queue_inv (wq_queue wq)" "set (q_head (wq_queue wq)) \<subseteq> set (q_head (wq_queue (nc_wq n)))" for n :: "'a netcfg" and wq
    using that by (auto simp: nc_inv_def start_items_def filter_empty_conv split: option.splits)
  from q show ?thesis
  proof (cases rule: worker_cases [of nc S starts])
    case (idle wq)
    then show ?thesis using that sub [OF assms] by simp
  next
    case (skip x xs wq)
    then show ?thesis using that sub [OF assms, of wq] by auto
  next
    case (start x xs wq)
    then have "x \<in> set (start_items nc)" by (simp add: start_items_def)
    then obtain hs h where h: "nc_session nc = Some hs" "h \<in> set hs" "w_data x = Some (h_addr h)"
      using assms by (auto simp: nc_inv_def split: option.splits)
    from start_msg_inv [OF assms h(1,2), of starts] obtain n hs' where n: "netcfg_start_msg_cb starts (Some (h_addr h)) nc = Some n"
      "nc_session n = Some hs'" "map h_addr hs' = map h_addr hs" "map h_type hs' = map h_type hs" "nc_wq n = nc_wq nc" by metis
    have "nc_inv n" by (rule nc_inv_maps [OF assms h(1) n(2-5)])
    from sub [OF this start(2)] start n h(3) show ?thesis by (intro that) auto
  qed
qed

lemma uninit_inv:
  assumes "nc_inv nc"
  shows "nc_inv (snd (netcfg_uninit nc))" "nc_session (snd (netcfg_uninit nc)) = None" "start_items (snd (netcfg_uninit nc)) = []"
    "nc_log (snd (netcfg_uninit nc)) = nc_log nc"
proof -
  have q: "queue_inv (wq_queue (nc_wq nc))" using assms by (simp add: nc_inv_def)
  obtain wq where w: "snd (tal_workqueue_cancel (Some (nc_wq nc)) (Some START_MSG_CB) None) = Some wq" "queue_inv (wq_queue wq)"
    "filter (\<lambda>x. w_cb x = Some START_MSG_CB) (q_head (wq_queue wq)) = []" using cancel_items [OF q] by blast
  have "nc_inv (snd (netcfg_uninit nc)) \<and> nc_session (snd (netcfg_uninit nc)) = None \<and> start_items (snd (netcfg_uninit nc)) = []
      \<and> nc_log (snd (netcfg_uninit nc)) = nc_log nc"
    using assms w by (cases "nc_session nc") (simp_all add: netcfg_uninit_def nc_inv_def start_items_def)
  then show "nc_inv (snd (netcfg_uninit nc))" "nc_session (snd (netcfg_uninit nc)) = None" "start_items (snd (netcfg_uninit nc)) = []"
    "nc_log (snd (netcfg_uninit nc)) = nc_log nc" by blast+
qed

lemma stop_chosen_inv: "nc_inv nc \<Longrightarrow> nc_inv (stop_chosen c nc)"
proof (cases "nc_session nc")
  case (Some hs)
  assume inv: "nc_inv nc"
  show ?thesis
    by (rule nc_inv_maps [OF inv Some, of _ "map (\<lambda>h. if isStarted h \<and> c h then h\<lparr>isStarted := False\<rparr> else h) hs"])
      (simp_all add: stop_chosen_def Some)
qed (simp add: stop_chosen_def)

lemma stop_inv:
  assumes "nc_inv nc"
  shows "nc_inv (snd (netcfg_stop stops type nc))"
proof (cases "type = 0")
  case True
  then show ?thesis using assms uninit_inv(1) [OF stop_chosen_inv [OF assms]] by (simp add: netcfg_stop_def)
next
  case False
  show ?thesis
  proof (cases "\<exists>h. netcfg_get_handler type nc = Some h \<and> isStarted h")
    case True
    then obtain h hs where h: "netcfg_get_handler type nc = Some h" "isStarted h" "nc_session nc = Some hs"
      by (auto simp: netcfg_get_handler_def bind_eq_Some_conv)
    show ?thesis
      by (rule nc_inv_maps [OF assms h(3), of _ "upd_handler (h_addr h) (\<lambda>h. h\<lparr>isStarted := False\<rparr>) hs"])
        (simp_all add: netcfg_stop_def False h upd_handler_maps)
  qed (use assms False in \<open>auto simp: netcfg_stop_def split: option.splits\<close>)
qed

lemma register_inv:
  assumes "nc_inv nc" "netcfg_register old type mem nc = Some (r, nc')" "\<forall>a hs. mem = Some a \<and> nc_session nc = Some hs \<longrightarrow> a \<notin> h_addr ` set hs"
  shows "nc_inv nc'"
  using assms by (auto simp: netcfg_register_def nc_inv_def start_items_def split: option.splits if_splits) blast

text \<open>Unique types and addresses make the searches find the handler meant.\<close>

lemma find_type: "distinct (map h_type hs) \<Longrightarrow> h \<in> set hs \<Longrightarrow> h_type h = t \<Longrightarrow> find (\<lambda>h. h_type h = t) hs = Some h"
  by (induction hs) auto

lemma find_addr: "distinct (map h_addr hs) \<Longrightarrow> h \<in> set hs \<Longrightarrow> find (\<lambda>g. h_addr g = h_addr h) hs = Some h"
  by (induction hs) auto

lemma upd_handler_mem: "h \<in> set hs \<Longrightarrow> f h \<in> set (upd_handler (h_addr h) f hs)"
  by (auto simp: upd_handler_def image_iff)

lemma find_addr_None: "a \<notin> h_addr ` set hs \<Longrightarrow> find (\<lambda>g. h_addr g = a) hs = None"
  by (induction hs) auto

lemma remove_type_found:
  "h \<in> set hs \<Longrightarrow> distinct (map h_type hs) \<Longrightarrow> distinct (map h_addr hs)
     \<Longrightarrow> \<exists>gs. remove_type (h_type h) hs = Some gs \<and> h_addr h \<notin> h_addr ` set gs"
proof (induction hs)
  case (Cons g hs)
  show ?case
  proof (cases "h_type g = h_type h")
    case True
    then have "g = h" using Cons.prems(1,2) by force
    then show ?thesis using Cons.prems by simp
  next
    case False
    then have "h \<in> set hs" using Cons.prems(1) by auto
    moreover from this have "h_addr h \<noteq> h_addr g" using Cons.prems(3) by (metis distinct.simps(2) image_eqI image_set list.simps(9))
    ultimately show ?thesis using Cons.IH Cons.prems False by auto
  qed
qed simp

lemma remove_type_Some:
  "remove_type type hs = Some gs \<Longrightarrow> \<exists>h. find (\<lambda>h. h_type h = type) hs = Some h \<and> set hs = insert h (set gs)
     \<and> (distinct (map h_addr hs) \<longrightarrow> distinct (map h_addr gs)) \<and> (distinct (map h_type hs) \<longrightarrow> distinct (map h_type gs))"
proof (induction hs arbitrary: gs)
  case (Cons g hs)
  show ?case
  proof (cases "h_type g = type")
    case False
    then obtain us where us: "gs = g # us" "remove_type type hs = Some us" using Cons.prems by auto
    from Cons.IH [OF us(2)] us(1) False show ?thesis by (auto simp: insert_commute)
  qed (use Cons.prems in auto)
qed simp

lemma unregister_inv:
  assumes "nc_inv nc" "\<not> start_pending type nc"
  shows "nc_inv (snd (netcfg_unregister type nc))"
proof (cases "\<exists>hs gs. nc_session nc = Some hs \<and> remove_type type hs = Some gs")
  case True
  then obtain hs gs where r: "nc_session nc = Some hs" "remove_type type hs = Some gs" by blast
  obtain h where h: "find (\<lambda>h. h_type h = type) hs = Some h" "set hs = insert h (set gs)"
    "distinct (map h_addr hs) \<longrightarrow> distinct (map h_addr gs)" "distinct (map h_type hs) \<longrightarrow> distinct (map h_type gs)"
    using remove_type_Some [OF r(2)] by blast
  have e: "netcfg_unregister type nc = (OPRT_OK, nc\<lparr>nc_session := Some gs\<rparr>)" by (simp add: netcfg_unregister_def r)
  have n: "Some (h_addr h) \<notin> w_data ` set (start_items nc)" using assms(2) h(1) r(1) by (simp add: start_pending_def netcfg_get_handler_def)
  have s: "nc_session (nc\<lparr>nc_session := Some gs\<rparr>) = Some gs" "start_items (nc\<lparr>nc_session := Some gs\<rparr>) = start_items nc" by (simp_all add: start_items_def)
  have "w_data x \<in> Some ` set (map h_addr gs)" if "x \<in> set (start_items nc)" for x
  proof -
    have "w_data x \<in> Some ` set (map h_addr hs)" using assms(1) that unfolding nc_inv_Some [OF r(1)] by blast
    moreover have "w_data x \<noteq> Some (h_addr h)" using n that by force
    ultimately show ?thesis using h(2) by auto
  qed
  then show ?thesis using assms(1) h(3,4) unfolding e nc_inv_Some [OF r(1)] snd_conv nc_inv_Some [OF s(1)] s(2) by simp
qed (use assms in \<open>auto simp: netcfg_unregister_def split: option.splits\<close>)

lemma step_inv:
  assumes "netcfg_step S starts stops nc nc'" "nc_inv nc"
  shows "nc_inv nc'"
  using assms(1)
proof (cases rule: netcfg_step.cases)
  case (ns_init mem)
  then show ?thesis using assms(2) by (auto simp: netcfg_init_def nc_inv_def start_items_def filter_empty_conv)
next
  case (ns_start_other mems type)
  have "nc_inv (fold (\<lambda>h nc. if h_finish_cb h \<noteq> None \<and> \<not> isStarted h \<and> type \<noteq> h_type h
      then snd (netcfg_start S (mems (h_type h)) (h_type h) (h_finish_cb h) (h_args h) nc) else nc) hs n)" if "nc_inv n" for hs n
    using that by (induction hs arbitrary: n) (simp_all add: start_inv)
  then show ?thesis using assms(2) ns_start_other by (simp add: netcfg_start_other_all_def split: option.splits)
next
  case (ns_other cb data item_mem r wq)
  have q: "queue_inv (wq_queue (nc_wq nc))" using assms(2) by (simp add: nc_inv_def)
  obtain w where "wq = w" "queue_inv (wq_queue w)"
    "q_head (wq_queue w) = q_head (wq_queue (nc_wq nc)) \<or> q_head (wq_queue w) = q_head (wq_queue (nc_wq nc)) @ [\<lparr>w_cb = Some cb, w_data = data\<rparr>]"
    using schedule_items [OF q, of S cb data item_mem] ns_other(3) by auto
  then have "start_items (nc\<lparr>nc_wq := wq\<rparr>) = start_items nc" "queue_inv (wq_queue wq)" using ns_other(2) by (auto simp: start_items_def)
  then show ?thesis using assms(2) ns_other(1) by (simp add: nc_inv_def split: option.splits)
next
  case (ns_unregister type)
  then show ?thesis using unregister_inv [OF assms(2)] by blast
next
  case ns_worker
  then show ?thesis using worker_inv [OF assms(2), of S starts] by (metis option.inject)
qed (use assms(2) register_inv start_inv stop_inv uninit_inv(1) stop_chosen_inv in \<open>auto simp: netcfg_stop_other_all_def\<close>)

lemma reach_inv: "(netcfg_step S starts stops)\<^sup>*\<^sup>* nc nc' \<Longrightarrow> nc_inv nc \<Longrightarrow> nc_inv nc'"
  by (induction rule: rtranclp_induct) (auto intro: step_inv)


text \<open>Iterations of the worker.\<close>

fun worker_iters :: "nat \<Rightarrow> 's sem_ops \<Rightarrow> (int \<Rightarrow> operate_ret) \<Rightarrow> 's netcfg \<Rightarrow> 's netcfg option" where
  "worker_iters 0 S starts nc = Some nc"
| "worker_iters (Suc n) S starts nc = Option.bind (netcfg_worker S starts nc) (worker_iters n S starts)"

lemma worker_no_session:
  assumes "nc_inv nc" "nc_session nc = None"
  obtains nc' where "netcfg_worker S starts nc = Some nc'" "nc_inv nc'" "nc_session nc' = None" "nc_log nc' = nc_log nc"
proof -
  have q: "queue_inv (wq_queue (nc_wq nc))" "start_items nc = []" using assms by (simp_all add: nc_inv_def)
  obtain n where n: "netcfg_worker S starts nc = Some n" "nc_inv n" using worker_inv [OF assms(1)] by blast
  from q(1) have "nc_session n = None \<and> nc_log n = nc_log nc"
  proof (cases rule: worker_cases [of nc S starts])
    case (start x xs wq)
    then show ?thesis using q(2) by (simp add: start_items_def)
  qed (use n(1) assms(2) in auto)
  then show ?thesis using that n by blast
qed

lemma worker_iters_no_session:
  "nc_inv nc \<Longrightarrow> nc_session nc = None \<Longrightarrow> \<exists>nc'. worker_iters n S starts nc = Some nc' \<and> nc_log nc' = nc_log nc"
proof (induction n arbitrary: nc)
  case (Suc n)
  from worker_no_session [OF Suc.prems, of S starts] obtain nc' where
    "netcfg_worker S starts nc = Some nc'" "nc_inv nc'" "nc_session nc' = None" "nc_log nc' = nc_log nc" .
  with Suc.IH [of nc'] show ?case by auto
qed simp

text \<open>A start on an idle queue leaves one item, which the next iteration of the worker runs.\<close>

lemma start_then_worker:
  assumes "nc_session nc = Some hs" "find (\<lambda>h. h_type h = type) hs = Some h"
    "queue_inv (wq_queue (nc_wq nc))" "q_head (wq_queue (nc_wq nc)) = []" "queue_free (wq_queue (nc_wq nc)) > 0"
    "sem_wait S (snd (sem_post S (wq_sem (nc_wq nc)))) = (OPRT_OK, sem)"
    "nc_wq nc' = nc_wq (snd (netcfg_start S True type fin args nc))"
  obtains wq where "netcfg_worker S starts nc' = map_option (\<lambda>nc. nc\<lparr>nc_wq := wq\<rparr>) (netcfg_start_msg_cb starts (Some (h_addr h)) nc')"
proof -
  let ?q = "wq_queue (nc_wq nc)"
  let ?x = "\<lparr>w_cb = Some START_MSG_CB, w_data = Some (h_addr h)\<rparr>"
  have "nc_wq nc' = (nc_wq nc)\<lparr>wq_queue := ?q\<lparr>q_head := [?x], queue_free := queue_free ?q - 1\<rparr>, wq_sem := snd (sem_post S (wq_sem (nc_wq nc)))\<rparr>"
    using assms by (simp add: netcfg_start_def netcfg_get_handler_def Let_def tal_workqueue_schedule_def tuya_queue_input_def enqueue_def split: prod.split)
  moreover have "queue_free ?q - 1 < queue_len ?q" using assms(3-5) by (simp add: queue_inv_def)
  ultimately show ?thesis using assms(6) that
    by (simp add: netcfg_worker_def work_thread_iter_def tuya_queue_output_def Let_def)
qed

section \<open>Properties\<close>

text \<open>
  The next item of the queue is the start of a method, and the method is removed: the next iteration of the worker follows the freed handler.
\<close>

lemma unregister_pending:
  assumes "nc_inv nc" "netcfg_get_handler type nc = Some h" "q_head (wq_queue (nc_wq nc)) = x # xs" "x \<in> set (start_items nc)" "w_data x = Some (h_addr h)"
    "fst (sem_wait S (wq_sem (nc_wq nc))) = OPRT_OK"
  shows "netcfg_worker S starts (snd (netcfg_unregister type nc)) = None"
proof -
  obtain hs where hs: "nc_session nc = Some hs" "h \<in> set hs" "h_type h = type" using assms(2) by (auto simp: netcfg_get_handler_def bind_eq_Some_conv find_Some_iff)
  obtain gs where gs: "remove_type type hs = Some gs" "h_addr h \<notin> h_addr ` set gs"
    using remove_type_found [OF hs(2)] hs(1,3) assms(1) by (auto simp: nc_inv_def)
  have u: "snd (netcfg_unregister type nc) = nc\<lparr>nc_session := Some gs\<rparr>" by (simp add: netcfg_unregister_def hs(1) gs(1))
  obtain sem where w: "sem_wait S (wq_sem (nc_wq nc)) = (OPRT_OK, sem)" using assms(6) by (cases "sem_wait S (wq_sem (nc_wq nc))") auto
  have "w_cb x = Some START_MSG_CB" using assms(4) unfolding start_items_def by simp
  moreover have "queue_free (wq_queue (nc_wq nc)) < queue_len (wq_queue (nc_wq nc))" using assms(1,3) by (auto simp: nc_inv_def queue_inv_def)
  ultimately show ?thesis using assms(3,5) w find_addr_None [OF gs(2)]
    by (simp add: u netcfg_worker_def work_thread_iter_def tuya_queue_output_def netcfg_start_msg_cb_def Let_def)
qed

text \<open>
  C8. Whatever sequence of initialisations, registrations, removals, starts, stops and iterations of the worker runs from the state before the
  initialisation, and however other modules use the queue, the worker never starts a method through a handler that has been freed, provided that no method is removed while its
  start waits in the queue: tearing the session down disarms every pending start first. The types and the addresses of the handlers stay unique. The proviso is needed:
  in every state so reached, if the next item of the queue is the start of a method and the method is removed, the next iteration of the worker follows the freed handler.
\<close>

theorem netcfg_no_dangling:
  assumes "nc_session nc = None" "queue_inv (wq_queue (nc_wq nc))" "start_items nc = []" "(netcfg_step S starts stops)\<^sup>*\<^sup>* nc nc'"
  shows "netcfg_worker S starts nc' \<noteq> None
    \<and> (case nc_session nc' of None \<Rightarrow> start_items nc' = [] | Some hs \<Rightarrow> distinct (map h_addr hs) \<and> distinct (map h_type hs))
    \<and> (\<forall>type h x xs. netcfg_get_handler type nc' = Some h \<and> q_head (wq_queue (nc_wq nc')) = x # xs \<and> x \<in> set (start_items nc') \<and> w_data x = Some (h_addr h)
        \<and> fst (sem_wait S (wq_sem (nc_wq nc'))) = OPRT_OK \<longrightarrow> netcfg_worker S starts (snd (netcfg_unregister type nc')) = None)"
proof -
  have "nc_inv nc" using assms(1-3) by (simp add: nc_inv_def)
  then have i: "nc_inv nc'" by (rule reach_inv [OF assms(4)])
  obtain n where "netcfg_worker S starts nc' = Some n" using worker_inv [OF i, of S starts] by blast
  moreover have "case nc_session nc' of None \<Rightarrow> start_items nc' = [] | Some hs \<Rightarrow> distinct (map h_addr hs) \<and> distinct (map h_type hs)"
    using i by (simp add: nc_inv_def split: option.splits)
  ultimately show ?thesis using unregister_pending [OF i] by simp
qed

definition netcfg_demo :: "nat netcfg" where
  "netcfg_demo = \<lparr>nc_session = None, nc_inited = False,
     nc_wq = \<lparr>wq_queue = \<lparr>item_size = 8, queue_len = 2, queue_free = 2, q_head = []\<rparr>, wq_sem = 0, wq_thread = 9\<rparr>, nc_log = []\<rparr>"

definition netcfg_demo2 :: "nat netcfg" where
  "netcfg_demo2 = netcfg_demo\<lparr>nc_session := Some [\<lparr>h_addr = 5, h_type = 1, h_finish_cb = None, h_args = None, isStarted = False\<rparr>,
                                            \<lparr>h_addr = 3, h_type = 2, h_finish_cb = Some 9, h_args = None, isStarted = True\<rparr>]\<rparr>"

text \<open>
  A run with a pending start: the module is initialised, method 1 registered at address 5 and started. The worker survives it, whether it runs the start or the session is torn
  down first; with the method removed it does not.
\<close>

definition netcfg_pending :: "nat netcfg" where
  "netcfg_pending = snd (netcfg_start (nat_sem 2) True 1 None None (snd (the (netcfg_register None 1 (Some 5) (snd (netcfg_init True netcfg_demo))))))"

lemma netcfg_pending_eq:
  "netcfg_pending = netcfg_demo\<lparr>nc_inited := True, nc_session := Some [\<lparr>h_addr = 5, h_type = 1, h_finish_cb = None, h_args = None, isStarted = False\<rparr>],
     nc_wq := \<lparr>wq_queue = \<lparr>item_size = 8, queue_len = 2, queue_free = 1, q_head = [\<lparr>w_cb = Some START_MSG_CB, w_data = Some 5\<rparr>]\<rparr>, wq_sem = 1, wq_thread = 9\<rparr>\<rparr>"
  by (simp add: netcfg_pending_def netcfg_start_def netcfg_register_def netcfg_init_def netcfg_demo_def netcfg_get_handler_def upd_handler_def
      tal_workqueue_schedule_def tuya_queue_input_def enqueue_def nat_sem_def Let_def)

lemma netcfg_pending_reached: "(netcfg_step (nat_sem 2) starts stops)\<^sup>*\<^sup>* netcfg_demo netcfg_pending"
proof -
  let ?s = "netcfg_step (nat_sem 2) starts stops" and ?i = "snd (netcfg_init True netcfg_demo)"
  have "?s netcfg_demo ?i" by (rule ns_init)
  moreover have "?s ?i (snd (the (netcfg_register None 1 (Some 5) ?i)))"
    by (rule ns_register [of None 1 "Some 5" _ OPRT_OK]) (simp_all add: netcfg_register_def netcfg_init_def netcfg_demo_def)
  moreover have "?s (snd (the (netcfg_register None 1 (Some 5) ?i))) netcfg_pending" unfolding netcfg_pending_def by (rule ns_start)
  ultimately show ?thesis by (rule converse_rtranclp_into_rtranclp [OF _ converse_rtranclp_into_rtranclp [OF _ r_into_rtranclp]])
qed

theorem netcfg_no_dangling_witness:
  "start_items netcfg_pending \<noteq> [] \<and> netcfg_worker (nat_sem 2) (\<lambda>_. OPRT_OK) netcfg_pending \<noteq> None
   \<and> netcfg_worker (nat_sem 2) (\<lambda>_. OPRT_OK) (snd (netcfg_uninit netcfg_pending)) \<noteq> None
   \<and> netcfg_worker (nat_sem 2) (\<lambda>_. OPRT_OK) (snd (netcfg_unregister 1 netcfg_pending)) = None"
proof -
  note reached = netcfg_pending_reached [of "\<lambda>_. OPRT_OK" "\<lambda>_. OPRT_OK"]
  have d: "nc_session netcfg_demo = None" "queue_inv (wq_queue (nc_wq netcfg_demo))" "start_items netcfg_demo = []"
    by (simp_all add: netcfg_demo_def queue_inv_def start_items_def)
  have "(netcfg_step (nat_sem 2) (\<lambda>_. OPRT_OK) (\<lambda>_. OPRT_OK))\<^sup>*\<^sup>* netcfg_demo (snd (netcfg_uninit netcfg_pending))"
    using reached ns_uninit by (rule rtranclp.rtrancl_into_rtrancl)
  from netcfg_no_dangling [OF d this] have u: "netcfg_worker (nat_sem 2) (\<lambda>_. OPRT_OK) (snd (netcfg_uninit netcfg_pending)) \<noteq> None" by (rule conjunct1)
  note p = netcfg_no_dangling [OF d reached]
  have n: "netcfg_worker (nat_sem 2) (\<lambda>_. OPRT_OK) (snd (netcfg_unregister 1 netcfg_pending)) = None"
    by (rule p [THEN conjunct2, THEN conjunct2, rule_format, of _ "\<lparr>h_addr = 5, h_type = 1, h_finish_cb = None, h_args = None, isStarted = False\<rparr>"
          "\<lparr>w_cb = Some START_MSG_CB, w_data = Some 5\<rparr>" "[]"])
      (simp add: netcfg_pending_eq netcfg_get_handler_def start_items_def nat_sem_def)
  have "start_items netcfg_pending \<noteq> []" by (simp add: netcfg_pending_eq start_items_def)
  with u n p [THEN conjunct1] show ?thesis by blast
qed

text \<open>
  Stopping with type 0 stops each started method once, in the order of the list, frees the session and leaves no pending start: however
  often the worker iterates afterwards, no method is started or stopped any more.
\<close>

theorem netcfg_stop_all:
  assumes "nc_inv nc" "nc_session nc = Some hs" "netcfg_stop stops 0 nc = (r, nc')"
  shows "r = OPRT_OK \<and> nc_session nc' = None \<and> nc_log nc' = nc_log nc @ map (\<lambda>h. Stop_Call (h_type h)) (filter isStarted hs)
    \<and> (\<exists>nc''. worker_iters n S starts nc' = Some nc'' \<and> nc_log nc'' = nc_log nc')"
proof -
  have e: "r = OPRT_OK" "nc' = snd (netcfg_uninit (stop_chosen (\<lambda>_. True) nc))" using assms by (auto simp: netcfg_stop_def)
  note u = uninit_inv [OF stop_chosen_inv [OF assms(1), of "\<lambda>_. True"]]
  show ?thesis using worker_iters_no_session [of nc' n S starts] u assms(2) e by (simp add: stop_chosen_def)
qed

theorem netcfg_stop_all_witness:
  "nc_log (snd (netcfg_stop (\<lambda>_. OPRT_OK) 0 (snd (netcfg_start (nat_sem 2) True 1 (Some 4) None netcfg_demo2)))) = [Stop_Call 2]"
proof -
  have i: "nc_inv (snd (netcfg_start (nat_sem 2) True 1 (Some 4) None netcfg_demo2))"
    by (rule start_inv) (simp add: nc_inv_def netcfg_demo2_def netcfg_demo_def queue_inv_def start_items_def)
  show ?thesis
    using netcfg_stop_all [OF i, of _ "\<lambda>_. OPRT_OK" "fst (netcfg_stop (\<lambda>_. OPRT_OK) 0 (snd (netcfg_start (nat_sem 2) True 1 (Some 4) None netcfg_demo2)))"
        "snd (netcfg_stop (\<lambda>_. OPRT_OK) 0 (snd (netcfg_start (nat_sem 2) True 1 (Some 4) None netcfg_demo2)))", OF _ surjective_pairing]
    by (simp add: netcfg_start_def netcfg_get_handler_def netcfg_demo2_def netcfg_demo_def Let_def upd_handler_def)
qed

text \<open>
  A pending start is not withdrawn by the operations on a single method. When a method is removed between its start and the next iteration
  of the worker, the worker follows a freed handler. When it is stopped in between, the stop reports success without a call and the worker
  starts the method afterwards.
\<close>

theorem netcfg_pending_start:
  assumes "nc_inv nc" "nc_session nc = Some hs" "h \<in> set hs" "h_type h = type" "\<not> isStarted h" "type \<noteq> 0"
    "q_head (wq_queue (nc_wq nc)) = []" "queue_free (wq_queue (nc_wq nc)) > 0"
    "sem_wait S (snd (sem_post S (wq_sem (nc_wq nc)))) = (OPRT_OK, sem)" "starts type = OPRT_OK"
    "netcfg_start S True type fin args nc = (r, nc')"
  shows "r = OPRT_OK \<and> fst (netcfg_unregister type nc') = OPRT_OK \<and> netcfg_worker S starts (snd (netcfg_unregister type nc')) = None
    \<and> netcfg_stop stops type nc' = (OPRT_OK, nc')
    \<and> (\<exists>nc''. netcfg_worker S starts nc' = Some nc'' \<and> nc_log nc'' = nc_log nc @ [Start_Call type]
         \<and> (\<exists>h. netcfg_get_handler type nc'' = Some h \<and> isStarted h))"
proof -
  have inv: "distinct (map h_addr hs)" "distinct (map h_type hs)" "queue_inv (wq_queue (nc_wq nc))" using assms(1,2) by (simp_all add: nc_inv_def)
  have f: "find (\<lambda>h. h_type h = type) hs = Some h" using find_type [OF inv(2) assms(3,4)] .
  let ?hs = "upd_handler (h_addr h) (\<lambda>h. h\<lparr>h_finish_cb := fin, h_args := args\<rparr>) hs"
  let ?h = "h\<lparr>h_finish_cb := fin, h_args := args\<rparr>"
  have m: "map h_addr ?hs = map h_addr hs" "map h_type ?hs = map h_type hs" by (simp_all add: upd_handler_maps)
  have s: "r = OPRT_OK" "nc_session nc' = Some ?hs" "nc_log nc' = nc_log nc" "nc_wq nc' = nc_wq (snd (netcfg_start S True type fin args nc))"
    using assms(2,11) f by (auto simp: netcfg_start_def netcfg_get_handler_def Let_def)
  have h: "?h \<in> set ?hs" by (rule upd_handler_mem [OF assms(3)])
  note start = start_then_worker [OF assms(2) f inv(3) assms(7-9)]
  from remove_type_found [of ?h ?hs] h inv m assms(4) obtain gs where gs: "remove_type type ?hs = Some gs" "h_addr h \<notin> h_addr ` set gs" by auto
  let ?u = "nc'\<lparr>nc_session := Some gs\<rparr>"
  have u: "netcfg_unregister type nc' = (OPRT_OK, ?u)" by (simp add: netcfg_unregister_def s gs)
  have su: "nc_wq ?u = nc_wq (snd (netcfg_start S True type fin args nc))" using s(4) by simp
  obtain w where "netcfg_worker S starts ?u = map_option (\<lambda>nc. nc\<lparr>nc_wq := w\<rparr>) (netcfg_start_msg_cb starts (Some (h_addr h)) ?u)"
    by (rule start [OF su])
  moreover have "find (\<lambda>g. h_addr g = h_addr h) gs = None" using gs(2) by (rule find_addr_None)
  then have "netcfg_start_msg_cb starts (Some (h_addr h)) ?u = None" by (simp add: netcfg_start_msg_cb_def)
  ultimately have A: "netcfg_worker S starts ?u = None" by simp
  have g: "find (\<lambda>h. h_type h = type) ?hs = Some ?h" using find_type [of ?hs ?h type] inv m h assms(4) by simp
  then have B: "netcfg_stop stops type nc' = (OPRT_OK, nc')" using assms(5,6) by (simp add: netcfg_stop_def netcfg_get_handler_def s)
  obtain w where w: "netcfg_worker S starts nc' = map_option (\<lambda>nc. nc\<lparr>nc_wq := w\<rparr>) (netcfg_start_msg_cb starts (Some (h_addr h)) nc')"
    by (rule start [OF s(4)])
  have k: "find (\<lambda>g. h_addr g = h_addr h) ?hs = Some ?h" using find_addr [of ?hs ?h] inv m h by simp
  let ?ks = "upd_handler (h_addr h) (\<lambda>h. h\<lparr>isStarted := True\<rparr>) ?hs"
  have "?h\<lparr>isStarted := True\<rparr> \<in> set ?ks" using upd_handler_mem [OF h, of "\<lambda>h. h\<lparr>isStarted := True\<rparr>"] by simp
  then have "find (\<lambda>h. h_type h = type) ?ks = Some (?h\<lparr>isStarted := True\<rparr>)"
    using find_type [of ?ks "?h\<lparr>isStarted := True\<rparr>" type] inv(2) m assms(4) by (simp add: upd_handler_maps)
  then show ?thesis using A B u s k w assms(4,10) by (simp add: netcfg_start_msg_cb_def netcfg_get_handler_def Let_def)
qed

theorem netcfg_pending_start_witness:
  "netcfg_worker (nat_sem 2) (\<lambda>_. OPRT_OK) (snd (netcfg_unregister 1 (snd (netcfg_start (nat_sem 2) True 1 None None netcfg_demo2)))) = None"
proof -
  obtain r nc' where e: "netcfg_start (nat_sem 2) True 1 None None netcfg_demo2 = (r, nc')" by force
  show ?thesis
    using netcfg_pending_start [OF _ _ _ _ _ _ _ _ _ _ e, of "the (nc_session netcfg_demo2)" "hd (the (nc_session netcfg_demo2))" 0 "\<lambda>_. OPRT_OK"] e
    by (simp add: nc_inv_def netcfg_demo2_def netcfg_demo_def queue_inv_def start_items_def nat_sem_def)
qed

end
