(* ===== verification/DpSchema.thy ===== *)
theory DpSchema
  imports Prelude "HOL-Library.Monad_Syntax"
begin

text \<open>
  The data points of a device, \<^verbatim>\<open>src/tuya_cloud_service/schema/dp_schema.c\<close>: the schema with the cached values, the check and the text of a
  report, and the parsing of a command. The two unions of the header are datatypes: the member in use is the one that the type of
  the object or of the point names. cJSON is not part of the repository: a document is its tree of items with the fields that the code reads,
  the look-up of a member and the printers are arguments, and so are the base64 decoder of mbedtls, the clock and the allocator. \<open>None\<close> is an
  access outside of an object or an allocation; the lock only serialises the calls.
\<close>

section \<open>Data\<close>

datatype dp_rept_type = T_OBJ_REPT | T_RAW_REPT | T_STAT_REPT | T_RE_TRANS_REPT
datatype dp_type = T_OBJ | T_RAW | T_FILE
datatype dp_mode = M_RW | M_WR | M_RO
datatype dp_trig = TRIG_PULSE | TRIG_DIRECT
datatype dp_psv = PSV_FALSE | PSV_TRUE | PSV_F_ONCE
datatype dp_stat_tp = DST_NONE | DST_INC | DST_TOTAL
datatype dp_route = ROUTE_DEFAULT | ROUTE_BLE_FIRST | ROUTE_FORCE_BT
datatype dp_pv_stat = PV_STAT_INVALID | PV_STAT_LOCAL | PV_STAT_ULING | PV_STAT_CLOUD

abbreviation PROP_BOOL :: nat where "PROP_BOOL \<equiv> 0"
abbreviation PROP_VALUE :: nat where "PROP_VALUE \<equiv> 1"
abbreviation PROP_STR :: nat where "PROP_STR \<equiv> 2"
abbreviation PROP_ENUM :: nat where "PROP_ENUM \<equiv> 3"
abbreviation PROP_BITMAP :: nat where "PROP_BITMAP \<equiv> 4"

text \<open>A value with its type; \<open>DP_Other t\<close> is an object whose type is the number \<open>5 + t\<close>, none of the five.\<close>

datatype dp_value = DP_Bool bool | DP_Value int | DP_Str string | DP_Enum nat | DP_Bitmap nat | DP_Other nat

primrec dp_tp :: "dp_value \<Rightarrow> nat" where
  "dp_tp (DP_Bool b) = PROP_BOOL"
| "dp_tp (DP_Value v) = PROP_VALUE"
| "dp_tp (DP_Str s) = PROP_STR"
| "dp_tp (DP_Enum e) = PROP_ENUM"
| "dp_tp (DP_Bitmap m) = PROP_BITMAP"
| "dp_tp (DP_Other t) = 5 + t"

record dp_obj =
  o_id :: byte
  o_value :: dp_value
  o_time :: nat

text \<open>The property of a point, with its cached value; the value of a string is NULL at first.\<close>

datatype dp_prop =
    Prop_Bool bool
  | Prop_Int (pi_min: int) (pi_max: int) (pi_scale: int) (pi_value: int)
  | Prop_Str (ps_max_len: int) (ps_cur_len: nat) (ps_value: "string option")
  | Prop_Enum (pe_enum: "string list") (pe_value: nat)
  | Prop_Bitmap (pb_max_len: int) (pb_value: nat)

primrec prop_tp :: "dp_prop \<Rightarrow> nat" where
  "prop_tp (Prop_Bool v) = PROP_BOOL"
| "prop_tp (Prop_Int mn mx sc v) = PROP_VALUE"
| "prop_tp (Prop_Str mx cur v) = PROP_STR"
| "prop_tp (Prop_Enum es v) = PROP_ENUM"
| "prop_tp (Prop_Bitmap mx v) = PROP_BITMAP"

record dp_node =
  d_id :: byte
  d_mode :: dp_mode
  d_passive :: dp_psv
  d_type :: dp_type
  d_trig :: dp_trig
  d_stat :: dp_stat_tp
  d_route :: dp_route
  d_prop :: dp_prop
  pv_stat :: dp_pv_stat
  d_time :: nat

record dp_schema =
  devid :: string
  attach_dp_if :: bool
  preprocess :: bool
  s_node :: "dp_node list"

abbreviation DEV_ID_LEN :: nat where "DEV_ID_LEN \<equiv> 25"
abbreviation DP_SCHEMA_NUM_MAX :: nat where "DP_SCHEMA_NUM_MAX \<equiv> 1"

record dp_schema_mgr =
  schema_num :: nat
  schema_list :: "dp_schema option list"

section \<open>Look-up\<close>

text \<open>The index of the first point with an identifier.\<close>

definition dp_node_find :: "dp_schema \<Rightarrow> int \<Rightarrow> nat option" where
  "dp_node_find schema dpid = find (\<lambda>i. uint (d_id (s_node schema ! i)) = dpid) [0..<length (s_node schema)]"

definition dp_schema_find :: "string \<Rightarrow> dp_schema_mgr \<Rightarrow> dp_schema option" where
  "dp_schema_find dev mgr =
     Option.bind (find (\<lambda>s. case s of None \<Rightarrow> False | Some schema \<Rightarrow> devid schema = dev) (schema_list mgr)) (\<lambda>s. s)"

definition dp_node_find_by_devid :: "string \<Rightarrow> int \<Rightarrow> dp_schema_mgr \<Rightarrow> nat option" where
  "dp_node_find_by_devid dev dpid mgr = Option.bind (dp_schema_find dev mgr) (\<lambda>schema. dp_node_find schema dpid)"

definition upd_node :: "nat \<Rightarrow> (dp_node \<Rightarrow> dp_node) \<Rightarrow> dp_schema \<Rightarrow> dp_schema" where
  "upd_node i f schema = schema\<lparr>s_node := (s_node schema)[i := f (s_node schema ! i)]\<rparr>"

definition dp_pv_stat_get :: "dp_schema \<Rightarrow> byte \<Rightarrow> dp_pv_stat" where
  "dp_pv_stat_get schema dpid = (case dp_node_find schema (uint dpid) of None \<Rightarrow> PV_STAT_INVALID | Some i \<Rightarrow> pv_stat (s_node schema ! i))"

definition dp_pv_stat_set :: "dp_schema \<Rightarrow> byte \<Rightarrow> dp_pv_stat \<Rightarrow> dp_schema" where
  "dp_pv_stat_set schema dpid st =
     (case dp_node_find schema (uint dpid) of None \<Rightarrow> schema | Some i \<Rightarrow> upd_node i (\<lambda>n. n\<lparr>pv_stat := st\<rparr>) schema)"

section \<open>Reports\<close>

text \<open>
  The comparison with the cache and its update; \<open>mem\<close> says whether memory for a longer string is granted. The first result
  tells whether the value is new.
\<close>

definition rept_prop :: "bool \<Rightarrow> bool \<Rightarrow> dp_value \<Rightarrow> dp_prop \<Rightarrow> bool \<times> dp_prop" where
  "rept_prop mem need v p =
     (case (p, v) of
        (Prop_Bool c, DP_Bool b) \<Rightarrow> (let need = (need \<or> c \<noteq> b) in (need, if need then Prop_Bool b else p))
      | (Prop_Int mn mx sc c, DP_Value x) \<Rightarrow> (let need = (need \<or> c \<noteq> x) in (need, if need then Prop_Int mn mx sc x else p))
      | (Prop_Str mx cur c, DP_Str s) \<Rightarrow>
          (let need = (need \<or> c \<noteq> Some s)
           in if \<not> need then (need, p)
              else if c = None \<or> cur < length s
                   then (if mem then (True, Prop_Str mx (length s) (Some s)) else (False, Prop_Str mx (length s) None))
                   else (True, Prop_Str mx cur (Some s)))
      | (Prop_Enum es c, DP_Enum e) \<Rightarrow>
          (if e \<ge> length es then (need, p)
           else (let need = (need \<or> c \<noteq> e) in (need, if need then Prop_Enum es e else p)))
      | (Prop_Bitmap mx c, DP_Bitmap m) \<Rightarrow> (let need = (need \<or> c \<noteq> m) in (need, if need then Prop_Bitmap mx m else p))
      | _ \<Rightarrow> (need, p))"

text \<open>The answer is true when nothing has to be reported.\<close>

definition dp_rept_update :: "bool \<Rightarrow> dp_rept_type \<Rightarrow> dp_obj \<Rightarrow> dp_node \<Rightarrow> u32 \<Rightarrow> bool \<times> dp_node" where
  "dp_rept_update mem rept_type dp dpnode flags =
     (let (is_need_update, node) =
            (case d_type dpnode of
               T_OBJ \<Rightarrow>
                 (let need = (pv_stat dpnode = PV_STAT_INVALID \<or> pv_stat dpnode = PV_STAT_LOCAL \<or> d_trig dpnode = TRIG_DIRECT
                                \<or> rept_type = T_STAT_REPT \<or> bit flags 0);
                      (upd, prop) = rept_prop mem need (o_value dp) (d_prop dpnode);
                      node = dpnode\<lparr>d_prop := prop\<rparr>
                  in (upd, if prop_tp prop = PROP_STR \<and> rept_type = T_STAT_REPT
                           then node\<lparr>d_time := o_time dp\<rparr> else node))
             | T_RAW \<Rightarrow> (True, dpnode\<lparr>pv_stat := PV_STAT_LOCAL\<rparr>)
             | T_FILE \<Rightarrow> (False, dpnode));
          node = (if is_need_update
                  then (let node = node\<lparr>pv_stat := PV_STAT_LOCAL\<rparr> in if rept_type = T_STAT_REPT then node\<lparr>d_time := o_time dp\<rparr> else node)
                  else node)
      in (\<not> is_need_update, node))"

text \<open>\<open>num\<close> is the value of the type \<^verbatim>\<open>cJSON_Number\<close>, with which the code compares the type of a bitmap.\<close>

definition dp_type_check :: "nat \<Rightarrow> dp_rept_type \<Rightarrow> dp_obj \<Rightarrow> dp_node \<Rightarrow> bool" where
  "dp_type_check num rept_type dp node =
     (if d_mode node = M_WR \<or> d_type node \<noteq> T_OBJ \<and> rept_type = T_OBJ_REPT \<or> d_type node \<noteq> T_RAW \<and> rept_type = T_RAW_REPT then False
      else case d_type node of
             T_OBJ \<Rightarrow>
               (case (d_prop node, o_value dp) of
                  (Prop_Bool c, DP_Bool b) \<Rightarrow> True
                | (Prop_Int mn mx sc c, DP_Value x) \<Rightarrow> \<not> (x > mx \<or> x < mn)
                | (Prop_Str mx cur c, DP_Str s) \<Rightarrow> \<not> (mx \<ge> 0 \<and> length s > nat mx)
                | (Prop_Enum es c, DP_Enum e) \<Rightarrow> \<not> e \<ge> length es
                | (Prop_Bitmap mx c, v) \<Rightarrow> dp_tp v = num
                | _ \<Rightarrow> False)
           | T_RAW \<Rightarrow> True
           | T_FILE \<Rightarrow> False)"

record dp_rept_valid =
  v_len :: u16
  v_timelen :: u16
  v_dpid :: "byte list"

text \<open>The length that the text of an object needs at most, and the check that goes with it.\<close>

definition rept_len :: "dp_obj \<Rightarrow> dp_prop \<Rightarrow> operate_ret + nat" where
  "rept_len dp prop =
     (case o_value dp of
        DP_Bool _ \<Rightarrow> Inr 20
      | DP_Value _ \<Rightarrow> Inr 20
      | DP_Bitmap _ \<Rightarrow> Inr 20
      | DP_Str s \<Rightarrow> Inr (2 * length s + 15)
      | DP_Enum e \<Rightarrow> if e \<ge> length (pe_enum prop) then Inl OPRT_SVC_DP_TYPE_PROP_ILLEGAL else Inr (length (pe_enum prop ! e) + 15)
      | DP_Other _ \<Rightarrow> Inl OPRT_COM_ERROR)"

text \<open>
  The loop over the objects. A caller that fails half-way has already changed the cache of the objects before. \<open>mem\<close> is indexed by the position
  of the object.
\<close>

fun valid_loop :: "nat \<Rightarrow> (nat \<Rightarrow> bool) \<Rightarrow> dp_rept_type \<Rightarrow> u32 \<Rightarrow> nat \<Rightarrow> dp_obj list \<Rightarrow> dp_schema \<Rightarrow> dp_rept_valid
    \<Rightarrow> operate_ret \<times> dp_schema \<times> dp_rept_valid" where
  "valid_loop num mem rt flags k [] schema dpvalid = (OPRT_OK, schema, dpvalid)"
| "valid_loop num mem rt flags k (dp # dps) schema dpvalid =
     (case dp_node_find schema (uint (o_id dp)) of
        None \<Rightarrow> valid_loop num mem rt flags (Suc k) dps schema dpvalid
      | Some i \<Rightarrow>
          (let dpnode = s_node schema ! i
           in if dp_tp (o_value dp) \<noteq> prop_tp (d_prop dpnode) then (OPRT_SVC_DP_TP_NOT_MATCH, schema, dpvalid)
              else if rt \<noteq> T_RE_TRANS_REPT \<and> (\<not> dp_type_check num rt dp dpnode \<or> preprocess schema \<and> d_passive dpnode = PSV_TRUE)
              then valid_loop num mem rt flags (Suc k) dps schema dpvalid
              else
                (let (same, node) = (if rt \<noteq> T_RE_TRANS_REPT then dp_rept_update (mem k) rt dp dpnode flags else (False, dpnode));
                     schema = upd_node i (\<lambda>_. node) schema
                 in if same then valid_loop num mem rt flags (Suc k) dps schema dpvalid
                    else case rept_len dp (d_prop node) of
                           Inl err \<Rightarrow> (err, schema, dpvalid)
                         | Inr n \<Rightarrow>
                             valid_loop num mem rt flags (Suc k) dps schema
                               (dpvalid\<lparr>v_len := v_len dpvalid + of_nat n,
                                        v_timelen := (if o_time dp \<noteq> 0 then v_timelen dpvalid + 30 else v_timelen dpvalid),
                                        v_dpid := v_dpid dpvalid @ [o_id dp]\<rparr>))))"

record dp_rept_in =
  rept_type :: dp_rept_type
  r_flags :: u32
  r_dps :: "dp_obj list"

definition dp_rept_valid_check :: "nat \<Rightarrow> (nat \<Rightarrow> bool) \<Rightarrow> dp_schema \<Rightarrow> dp_rept_in \<Rightarrow> dp_rept_valid \<Rightarrow> operate_ret \<times> dp_schema \<times> dp_rept_valid" where
  "dp_rept_valid_check num mem schema dpin dpvalid =
     (case valid_loop num mem (rept_type dpin) (r_flags dpin) 0 (r_dps dpin) schema dpvalid of (ret, schema, dpvalid) \<Rightarrow>
        if ret \<noteq> OPRT_OK then (ret, schema, dpvalid)
        else if v_dpid dpvalid = [] then (OPRT_SVC_DP_ID_NOT_FOUND, schema, dpvalid)
        else (OPRT_OK, schema, dpvalid))"

section \<open>The text of a report\<close>

text \<open>
  What one \<^verbatim>\<open>sprintf\<close> of the loop prints. \<open>print_str\<close> is the text of a string as JSON, \<open>None\<close> when its allocation fails.
\<close>

definition key_text :: "byte \<Rightarrow> string" where
  "key_text dpid = ''\"'' @ nat_digits (unat dpid) @ ''\":''"

definition dp_text :: "(string \<Rightarrow> string option) \<Rightarrow> dp_obj \<Rightarrow> dp_prop \<Rightarrow> string" where
  "dp_text print_str dp prop =
     (case o_value dp of
        DP_Bool b \<Rightarrow> key_text (o_id dp) @ (if b then ''true,'' else ''false,'')
      | DP_Value v \<Rightarrow> key_text (o_id dp) @ int_digits v @ '',''
      | DP_Bitmap m \<Rightarrow> key_text (o_id dp) @ nat_digits m @ '',''
      | DP_Str s \<Rightarrow> (case print_str s of None \<Rightarrow> [] | Some t \<Rightarrow> key_text (o_id dp) @ t @ '','')
      | DP_Enum e \<Rightarrow> key_text (o_id dp) @ ''\"'' @ pe_enum prop ! e @ ''\",''
      | DP_Other _ \<Rightarrow> [])"

text \<open>
  The loop over the accepted identifiers, on the text written so far and the sizes of the two buffers. The time text is only built for
  statistics when the caller asks for it.
\<close>

fun json_loop :: "(string \<Rightarrow> string option) \<Rightarrow> dp_schema \<Rightarrow> dp_obj list \<Rightarrow> nat \<Rightarrow> nat option \<Rightarrow> byte list \<Rightarrow> string \<Rightarrow> string
    \<Rightarrow> (operate_ret + string \<times> string) option" where
  "json_loop print_str schema dps cap tcap [] out tout = Some (Inr (out, tout))"
| "json_loop print_str schema dps cap tcap (dpid # ids) out tout =
     (case find (\<lambda>dp. o_id dp = dpid) dps of
        None \<Rightarrow> Some (Inl OPRT_SVC_DP_ID_NOT_FOUND)
      | Some dp \<Rightarrow>
          (case dp_node_find schema (uint (o_id dp)) of
             None \<Rightarrow> Some (Inl OPRT_SVC_DP_ID_NOT_FOUND)
           | Some i \<Rightarrow>
               (let prop = d_prop (s_node schema ! i)
                in if dp_tp (o_value dp) \<noteq> prop_tp prop then Some (Inl OPRT_SVC_DP_TP_NOT_MATCH)
                   else if (case o_value dp of DP_Enum e \<Rightarrow> e \<ge> length (pe_enum prop) | _ \<Rightarrow> False) then None
                   else
                     (let out = out @ dp_text print_str dp prop;
                          tout = (if tcap \<noteq> None \<and> o_time dp \<noteq> 0 then tout @ key_text (o_id dp) @ nat_digits (o_time dp) @ '','' else tout)
                      in if length out \<ge> cap \<or> (case tcap of None \<Rightarrow> False | Some n \<Rightarrow> length tout \<ge> n) then None
                         else json_loop print_str schema dps cap tcap ids out tout))))"

definition close_text :: "string \<Rightarrow> string" where
  "close_text t = butlast t @ ''}''"

text \<open>\<open>want_time\<close> is the pointer of the caller, \<open>mems\<close> the results of the two allocations.\<close>

definition dp_rept_json_output ::
    "(string \<Rightarrow> string option) \<Rightarrow> bool \<times> bool \<Rightarrow> bool \<Rightarrow> dp_schema \<Rightarrow> dp_rept_in \<Rightarrow> dp_rept_valid \<Rightarrow> (operate_ret + string \<times> string option) option" where
  "dp_rept_json_output print_str mems want_time schema dpin dpvalid =
     (let is_need_time = (rept_type dpin = T_STAT_REPT \<and> v_timelen dpvalid \<noteq> 0 \<and> want_time);
          cap = unat (v_len dpvalid);
          tcap = (if is_need_time then Some (unat (v_timelen dpvalid)) else None)
      in if \<not> fst mems then Some (Inl OPRT_MALLOC_FAILED)
         else if is_need_time \<and> \<not> snd mems then Some (Inl OPRT_MALLOC_FAILED)
         else if cap = 0 then None
         else case json_loop print_str schema (r_dps dpin) cap tcap (v_dpid dpvalid) ''{'' ''{'' of
                None \<Rightarrow> None
              | Some (Inl err) \<Rightarrow> Some (Inl err)
              | Some (Inr (out, tout)) \<Rightarrow>
                  if length out \<ge> cap \<or> (case tcap of None \<Rightarrow> False | Some n \<Rightarrow> length tout \<ge> n) then None
                  else Some (Inr (close_text out, if is_need_time then Some (close_text tout) else None)))"

text \<open>The header around a report; \<open>None\<close> when the text leaves its buffer.\<close>

definition dp_rept_json_append ::
    "bool \<Rightarrow> dp_schema \<Rightarrow> string \<Rightarrow> string option \<Rightarrow> string option \<Rightarrow> byte \<Rightarrow> (operate_ret + string) option" where
  "dp_rept_json_append mem schema data time type rept_seq =
     (let len = length data + (case time of None \<Rightarrow> 0 | Some t \<Rightarrow> length t) + 128;
          tmp = ''{\"dps\":'' @ data @ '',\"devId\":\"'' @ devid schema @ ''\"''
                @ (case time of None \<Rightarrow> [] | Some t \<Rightarrow> '',\"t\":'' @ t)
                @ (if rept_seq > 0 then '',\"seq\":\"'' @ nat_digits (unat rept_seq) @ ''\"'' else [])
                @ (case type of None \<Rightarrow> [] | Some t \<Rightarrow> '',\"type\":\"'' @ t @ ''\"'')
      in if \<not> mem then Some (Inl OPRT_MALLOC_FAILED)
         else if Suc (length tmp) \<ge> len then None
         else Some (Inr (tmp @ ''}'')))"

section \<open>Commands\<close>

datatype cjson_type = CJ_False | CJ_True | CJ_NULL | CJ_Number | CJ_String | CJ_Array | CJ_Object

text \<open>An item: its type, \<^verbatim>\<open>valuestring\<close> (which is NULL unless it is a string), \<^verbatim>\<open>valueint\<close>, and the children with their names.\<close>

datatype cjson = CJson (cj_type: cjson_type) (cj_string: "string option") (cj_int: int) (cj_child: "(string option \<times> cjson) list")

definition digit_char :: "char \<Rightarrow> bool" where
  "digit_char c \<longleftrightarrow> (of_char c :: nat) \<in> {48..57}"

definition is_blank :: "char \<Rightarrow> bool" where
  "is_blank c \<longleftrightarrow> (of_char c :: nat) = 32 \<or> (of_char c :: nat) \<in> {9..13}"

definition digits_val :: "string \<Rightarrow> int" where
  "digits_val ds = foldl (\<lambda>n c. 10 * n + (of_char c - 48)) 0 ds"

definition atoi :: "string \<Rightarrow> int" where
  "atoi s =
     (let t = dropWhile is_blank s
      in case t of
           [] \<Rightarrow> 0
         | c # cs \<Rightarrow>
             if c = CHR ''-'' then - digits_val (takeWhile digit_char cs)
             else if c = CHR ''+'' then digits_val (takeWhile digit_char cs)
             else digits_val (takeWhile digit_char t))"

datatype dp_event = Recv_Raw byte "byte list" | Recv_Obj "dp_obj list"

text \<open>The first loop: points that wait for a query are released, the objects are counted.\<close>

fun recv_count :: "(string option \<times> cjson) list \<Rightarrow> dp_schema \<Rightarrow> nat \<Rightarrow> (dp_schema \<times> nat) option" where
  "recv_count [] schema cnt = Some (schema, cnt)"
| "recv_count ((name, item) # items) schema cnt =
     (case name of
        None \<Rightarrow> None
      | Some s \<Rightarrow>
          (case dp_node_find schema (atoi s) of
             None \<Rightarrow> recv_count items schema cnt
           | Some i \<Rightarrow>
               (let schema = upd_node i (\<lambda>n. if preprocess schema \<and> d_passive n = PSV_TRUE then n\<lparr>d_passive := PSV_F_ONCE\<rparr> else n) schema
                in recv_count items schema (if d_type (s_node schema ! i) = T_OBJ then (cnt + 1) mod 65536 else cnt))))"

text \<open>The value that an item gives to a point, \<open>Some None\<close> when the item is passed over.\<close>

definition recv_value :: "dp_prop \<Rightarrow> cjson \<Rightarrow> dp_value option option" where
  "recv_value prop item =
     (case prop of
        Prop_Bool _ \<Rightarrow> Some (if cj_type item = CJ_True then Some (DP_Bool True) else if cj_type item = CJ_False then Some (DP_Bool False) else None)
      | Prop_Int _ _ _ _ \<Rightarrow> Some (if cj_type item \<noteq> CJ_Number then None else Some (DP_Value (cj_int item)))
      | Prop_Str _ _ _ \<Rightarrow> if cj_type item \<noteq> CJ_String then Some None else map_option (\<lambda>s. Some (DP_Str s)) (cj_string item)
      | Prop_Enum es _ \<Rightarrow>
          if cj_type item \<noteq> CJ_String then Some (Some (DP_Enum 0))
          else map_option (\<lambda>s. map_option DP_Enum (find (\<lambda>j. es ! j = s) [0..<length es])) (cj_string item)
      | Prop_Bitmap _ _ \<Rightarrow> Some (Some (DP_Bitmap (nat (cj_int item mod 2 ^ 32)))))"

definition zero_obj :: dp_obj where
  "zero_obj = \<lparr>o_id = 0, o_value = DP_Bool False, o_time = 0\<rparr>"

text \<open>
  The second loop, on the array of objects (\<open>None\<close> when it was not allocated) with the next free position. The first result tells that
  the memory for a raw value was refused, which ends the loop.
\<close>

fun recv_loop :: "(string \<Rightarrow> byte list) \<Rightarrow> bool \<Rightarrow> nat \<Rightarrow> (string option \<times> cjson) list \<Rightarrow> nat \<Rightarrow> dp_obj list option \<Rightarrow> dp_schema
    \<Rightarrow> dp_event list \<Rightarrow> (bool \<times> dp_obj list option \<times> dp_schema \<times> dp_event list) option" where
  "recv_loop b64 raw_mem now [] k dpobj schema evs = Some (False, dpobj, schema, evs)"
| "recv_loop b64 raw_mem now ((name, item) # items) k dpobj schema evs =
     do {
       s \<leftarrow> name;
       case dp_node_find schema (atoi s) of
         None \<Rightarrow> recv_loop b64 raw_mem now items k dpobj schema evs
       | Some i \<Rightarrow>
           (let dpnode = s_node schema ! i
            in if d_type dpnode = T_RAW \<and> cj_type item = CJ_String
               then (if \<not> raw_mem then Some (True, dpobj, schema, evs)
                     else do {
                       v \<leftarrow> cj_string item;
                       recv_loop b64 raw_mem now items k dpobj schema (evs @ [Recv_Raw (d_id dpnode) (b64 v)])
                     })
               else
                 (let schema = upd_node i (\<lambda>n. n\<lparr>pv_stat := PV_STAT_LOCAL\<rparr>) schema
                  in case recv_value (d_prop dpnode) item of
                       None \<Rightarrow> None
                     | Some None \<Rightarrow> recv_loop b64 raw_mem now items k dpobj schema evs
                     | Some (Some v) \<Rightarrow>
                         (case dpobj of
                            None \<Rightarrow> None
                          | Some dps \<Rightarrow>
                              if k \<ge> length dps then None
                              else recv_loop b64 raw_mem now items (Suc k) (Some (dps[k := \<lparr>o_id = d_id dpnode, o_value = v, o_time = now\<rparr>])) schema evs)))
     }"

text \<open>\<open>dps_js\<close> is the member \<open>dps\<close> of the message; the events are the calls of the callback of the caller.\<close>

definition dp_data_recv_parse ::
    "(string \<Rightarrow> byte list) \<Rightarrow> bool \<Rightarrow> bool \<Rightarrow> nat \<Rightarrow> dp_schema option \<Rightarrow> cjson option \<Rightarrow> (operate_ret \<times> dp_schema option \<times> dp_event list) option" where
  "dp_data_recv_parse b64 obj_mem raw_mem now schema dps_js =
     (case (schema, dps_js) of
        (Some schema, Some js) \<Rightarrow>
          do {
            (schema, dpscnt) \<leftarrow> recv_count (cj_child js) schema 0;
            if dpscnt > 0 \<and> \<not> obj_mem then Some (OPRT_MALLOC_FAILED, Some schema, [])
            else do {
              (failed, dpobj, schema, evs) \<leftarrow>
                recv_loop b64 raw_mem now (cj_child js) 0 (if dpscnt > 0 then Some (replicate dpscnt zero_obj) else None) schema [];
              Some (OPRT_OK, Some schema, if failed then evs else evs @ (case dpobj of None \<Rightarrow> [] | Some dps \<Rightarrow> [Recv_Obj dps]))
            }
          }
      | _ \<Rightarrow> Some (OPRT_COM_ERROR, schema, []))"

section \<open>Dumps\<close>

datatype dump_value = Dump_Bool bool | Dump_Num int | Dump_Str string

text \<open>The member that a point adds to an object and the length that is counted for it; \<open>None\<close> is an enumeration out of its range.\<close>

definition dp_obj_json_create :: "dp_node \<Rightarrow> (nat \<times> (string \<times> dump_value) list) option" where
  "dp_obj_json_create dpnode =
     (let dpid = nat_digits (unat (d_id dpnode))
      in case d_prop dpnode of
           Prop_Bool v \<Rightarrow> Some (10, [(dpid, Dump_Bool v)])
         | Prop_Int _ _ _ v \<Rightarrow> Some (10, [(dpid, Dump_Num v)])
         | Prop_Str _ _ v \<Rightarrow> Some (case v of None \<Rightarrow> (0, []) | Some s \<Rightarrow> (10 + length s, [(dpid, Dump_Str s)]))
         | Prop_Enum es v \<Rightarrow> if v < length es then Some (10 + length (es ! v), [(dpid, Dump_Str (es ! v))]) else None
         | Prop_Bitmap _ v \<Rightarrow> Some (10, [(dpid, Dump_Num (int v))]))"

fun create_all :: "dp_node list \<Rightarrow> (nat \<times> (string \<times> dump_value) list) option" where
  "create_all [] = Some (0, [])"
| "create_all (n # ns) = do { (l, m) \<leftarrow> dp_obj_json_create n; (l', m') \<leftarrow> create_all ns; Some (l + l', m @ m') }"

definition stat_local :: "dp_node \<Rightarrow> bool" where
  "stat_local n \<longleftrightarrow> d_type n = T_OBJ \<and> pv_stat n \<noteq> PV_STAT_CLOUD"

definition stat_cloud :: "dp_node \<Rightarrow> bool" where
  "stat_cloud n \<longleftrightarrow> d_type n = T_OBJ \<and> pv_stat n = PV_STAT_CLOUD"

text \<open>\<open>print_obj\<close> prints an object; \<open>mems\<close> are the results of the two allocations.\<close>

definition dp_obj_dump_stat_local_json ::
    "((string \<times> dump_value) list \<Rightarrow> string option) \<Rightarrow> bool \<times> bool \<Rightarrow> bool \<Rightarrow> dp_schema option \<Rightarrow> u32 \<Rightarrow> (operate_ret \<times> (byte list \<times> string option) option) option" where
  "dp_obj_dump_stat_local_json print_obj mems app_mem schema flags =
     do {
       schema \<leftarrow> schema;
       let n = length (filter stat_local (s_node schema));
       if n = 0 then Some (OPRT_OK, None)
       else if \<not> fst mems \<or> \<not> snd mems then Some (OPRT_MALLOC_FAILED, None)
       else
         do {
           let ns = take n (filter (\<lambda>n. \<not> stat_cloud n) (s_node schema));
           (len, members) \<leftarrow> create_all ns;
           if len = 0 then Some (OPRT_SVC_DP_ID_NOT_FOUND, None)
           else case print_obj members of
                  None \<Rightarrow> Some (OPRT_CR_CJSON_ERR, None)
                | Some str \<Rightarrow>
                    if bit flags 2
                    then do {
                      out \<leftarrow> dp_rept_json_append app_mem schema str None None 0;
                      Some (OPRT_OK, Some (map d_id ns, case out of Inl _ \<Rightarrow> None | Inr t \<Rightarrow> Some t))
                    }
                    else Some (OPRT_OK, Some (map d_id ns, Some str))
         }
     }"

definition dp_obj_dump_all_json ::
    "((string \<times> dump_value) list \<Rightarrow> string option) \<Rightarrow> bool \<Rightarrow> bool \<Rightarrow> dp_schema option \<Rightarrow> u32 \<Rightarrow> string option option" where
  "dp_obj_dump_all_json print_obj mem app_mem schema flags =
     (if \<not> mem then Some None
      else case schema of
             None \<Rightarrow> Some None
           | Some schema \<Rightarrow>
               do {
                 (len, members) \<leftarrow> create_all (filter (\<lambda>n. \<not> (bit flags 1 \<and> stat_cloud n)) (s_node schema));
                 if len = 0 then Some None
                 else case print_obj members of
                        None \<Rightarrow> Some None
                      | Some str \<Rightarrow>
                          if bit flags 2
                          then do {
                            out \<leftarrow> dp_rept_json_append app_mem schema str None None 0;
                            Some (Some (case out of Inl _ \<Rightarrow> str | Inr t \<Rightarrow> t))
                          }
                          else Some (Some str)
               })"

section \<open>Schemas\<close>

text \<open>The loop that finds the outermost braces; positions are kept in 16 bits.\<close>

fun pos_loop :: "nat \<Rightarrow> string \<Rightarrow> nat \<Rightarrow> int \<Rightarrow> nat \<Rightarrow> (nat \<times> nat) list \<Rightarrow> (nat \<times> nat) list" where
  "pos_loop pos_num [] i brace start pos = pos"
| "pos_loop pos_num (c # cs) i brace start pos =
     (if c = CHR ''{'' then pos_loop pos_num cs (Suc i) (brace + 1) (if brace = 0 then i mod 65536 else start) pos
      else if c = CHR ''}'' then
        (let pos = (if brace - 1 = 0 then pos @ [(start, i mod 65536)] else pos)
         in if length pos \<ge> pos_num then pos else pos_loop pos_num cs (Suc i) (brace - 1) start pos)
      else pos_loop pos_num cs (Suc i) brace start pos)"

definition dp_node_pos_decode :: "string option \<Rightarrow> nat \<Rightarrow> (nat \<times> nat) list" where
  "dp_node_pos_decode schema_json pos_num = (case schema_json of None \<Rightarrow> [] | Some s \<Rightarrow> pos_loop pos_num s 0 0 0 [])"

definition zero_node :: dp_node where
  "zero_node = \<lparr>d_id = 0, d_mode = M_RW, d_passive = PSV_FALSE, d_type = T_OBJ, d_trig = TRIG_PULSE, d_stat = DST_NONE, d_route = ROUTE_DEFAULT,
     d_prop = Prop_Bool False, pv_stat = PV_STAT_INVALID, d_time = 0\<rparr>"

text \<open>The allocations and the lock that a parse makes, and the two functions of cJSON.\<close>

record parse_env =
  cjson_parse :: "string \<Rightarrow> cjson option"
  get_item :: "cjson \<Rightarrow> string \<Rightarrow> cjson option"
  buf_mem :: bool
  enum_mem :: bool
  str_mutex :: operate_ret

definition with_item :: "cjson option \<Rightarrow> (cjson \<Rightarrow> (operate_ret + 'a) option) \<Rightarrow> (operate_ret + 'a) option" where
  "with_item item f = (case item of None \<Rightarrow> Some (Inl OPRT_CJSON_GET_ERR) | Some i \<Rightarrow> f i)"

text \<open>The member \<open>property\<close>. A comparison of strings follows the pointer \<^verbatim>\<open>valuestring\<close>, which is NULL for an item of another type.\<close>

definition parse_int :: "parse_env \<Rightarrow> cjson \<Rightarrow> (operate_ret + dp_prop) option" where
  "parse_int E item =
     with_item (get_item E item ''max'') (\<lambda>mx. with_item (get_item E item ''min'') (\<lambda>mn.
       Some (Inr (Prop_Int (cj_int mn) (cj_int mx) (case get_item E item ''scale'' of None \<Rightarrow> 0 | Some sc \<Rightarrow> cj_int sc mod 65536) 0))))"

definition parse_enum :: "parse_env \<Rightarrow> cjson \<Rightarrow> (operate_ret + dp_prop) option" where
  "parse_enum E item =
     with_item (get_item E item ''range'') (\<lambda>child.
       let items = map snd (cj_child child)
       in if items = [] then Some (Inl OPRT_CJSON_GET_ERR)
          else if \<not> enum_mem E then Some (Inl OPRT_MALLOC_FAILED)
          else if \<exists>i \<in> set items. cj_string i = None then Some (Inl OPRT_MALLOC_FAILED)
          else Some (Inr (Prop_Enum (map (\<lambda>i. the (cj_string i)) items) 0)))"

definition parse_prop :: "parse_env \<Rightarrow> cjson \<Rightarrow> (operate_ret + dp_prop) option" where
  "parse_prop E item =
     with_item (get_item E item ''type'') (\<lambda>child. do {
       tp \<leftarrow> cj_string child;
       if tp = ''bool'' then Some (Inr (Prop_Bool False))
       else if tp = ''value'' then parse_int E item
       else if tp = ''string'' then
         with_item (get_item E item ''maxlen'') (\<lambda>m.
           Some (if str_mutex E \<noteq> OPRT_OK then Inl OPRT_CR_MUTEX_ERR else Inr (Prop_Str (cj_int m) 0 None)))
       else if tp = ''enum'' then parse_enum E item
       else if tp = ''bitmap'' then with_item (get_item E item ''maxlen'') (\<lambda>m. Some (Inr (Prop_Bitmap (cj_int m mod 2 ^ 32) 0)))
       else Some (Inl OPRT_SVC_DEVOS_SCMA_INVALID)
     })"

text \<open>The attributes of a point before its property.\<close>

definition opt_string :: "cjson option \<Rightarrow> 'a \<Rightarrow> (string \<Rightarrow> 'a) \<Rightarrow> 'a option" where
  "opt_string item d f = (case item of None \<Rightarrow> Some d | Some i \<Rightarrow> map_option f (cj_string i))"

definition parse_desc :: "parse_env \<Rightarrow> cjson \<Rightarrow> (operate_ret + dp_node) option" where
  "parse_desc E js =
     with_item (get_item E js ''id'') (\<lambda>idi. do {
       dpid \<leftarrow> (if cj_type idi = CJ_String then map_option atoi (cj_string idi) else Some (cj_int idi));
       with_item (get_item E js ''mode'') (\<lambda>mi. do {
         mode \<leftarrow> cj_string mi;
         trig \<leftarrow> opt_string (get_item E js ''trigger'') TRIG_PULSE (\<lambda>s. if s = ''pulse'' then TRIG_PULSE else TRIG_DIRECT);
         stat \<leftarrow> opt_string (get_item E js ''stat'') DST_NONE (\<lambda>s. if s = ''total'' then DST_TOTAL else DST_INC);
         type \<leftarrow> opt_string (get_item E js ''type'') T_OBJ (\<lambda>s. if s = ''obj'' then T_OBJ else if s = ''raw'' then T_RAW else T_FILE);
         Some (Inr (zero_node\<lparr>d_id := word_of_int dpid,
                 d_mode := (if mode = ''rw'' then M_RW else if mode = ''ro'' then M_RO else M_WR),
                 d_passive := PSV_FALSE, d_trig := trig,
                 d_route := (case get_item E js ''route'' of None \<Rightarrow> ROUTE_DEFAULT
                             | Some r \<Rightarrow> if cj_int r = 2 then ROUTE_FORCE_BT else if cj_int r = 1 then ROUTE_BLE_FIRST else ROUTE_DEFAULT),
                 d_stat := stat, d_type := type\<rparr>))
       })
     })"

definition parse_node :: "parse_env \<Rightarrow> cjson \<Rightarrow> (operate_ret + dp_node) option" where
  "parse_node E js =
     (case parse_desc E js of
        None \<Rightarrow> None
      | Some (Inl err) \<Rightarrow> Some (Inl err)
      | Some (Inr node) \<Rightarrow>
          if d_type node \<noteq> T_OBJ then Some (Inr node)
          else with_item (get_item E js ''property'') (\<lambda>item. map_option (map_sum (\<lambda>e. e) (\<lambda>prop. node\<lparr>d_prop := prop\<rparr>)) (parse_prop E item)))"

text \<open>
  The copy of an item goes to a buffer of 1024 bytes that is cleared before; it needs a zero at its end.
\<close>

abbreviation MAX_ITEM_LEN :: nat where "MAX_ITEM_LEN \<equiv> 1024"

definition item_text :: "string \<Rightarrow> nat \<times> nat \<Rightarrow> string option" where
  "item_text schema_json pos =
     (case pos of (start, end_) \<Rightarrow>
        if start \<le> Suc end_ \<and> Suc end_ - start < MAX_ITEM_LEN \<and> end_ < length schema_json
        then Some (take (Suc end_ - start) (drop start schema_json)) else None)"

fun dp_node_parse :: "parse_env \<Rightarrow> string \<Rightarrow> (nat \<times> nat) list \<Rightarrow> bool \<Rightarrow> (operate_ret + dp_node list \<times> bool) option" where
  "dp_node_parse E schema_json [] pre = Some (Inr ([], pre))"
| "dp_node_parse E schema_json (pos # ps) pre =
     do {
       t \<leftarrow> item_text schema_json pos;
       case cjson_parse E t of
         None \<Rightarrow> Some (Inl OPRT_CJSON_PARSE_ERR)
       | Some js \<Rightarrow>
           (case parse_node E js of
              None \<Rightarrow> None
            | Some (Inl err) \<Rightarrow> Some (Inl err)
            | Some (Inr node) \<Rightarrow>
                map_option (map_sum (\<lambda>e. e) (\<lambda>(ns, p). (node # ns, p)))
                  (dp_node_parse E schema_json ps (pre \<or> get_item E js ''passive'' \<noteq> None)))
     }"

text \<open>\<open>mems\<close> are the allocations of the positions and of the schema, \<open>mutex\<close> is the result of creating its lock.\<close>

definition dp_schema_create ::
    "parse_env \<Rightarrow> bool \<times> bool \<Rightarrow> operate_ret \<Rightarrow> string \<Rightarrow> string \<Rightarrow> dp_schema_mgr \<Rightarrow> (operate_ret \<times> dp_schema option \<times> dp_schema_mgr) option" where
  "dp_schema_create E mems mutex dev schema_json mgr =
     (if \<not> fst mems then Some (OPRT_MALLOC_FAILED, None, mgr)
      else
        (let nodepos = dp_node_pos_decode (Some schema_json) 255
         in if nodepos = [] \<or> length nodepos \<ge> 255 then Some (OPRT_SVC_DEVOS_DEV_DP_CNT_INVALID, None, mgr)
            else if \<not> snd mems then Some (OPRT_MALLOC_FAILED, None, mgr)
            else if mutex \<noteq> OPRT_OK then Some (mutex, None, mgr)
            else if \<not> buf_mem E then Some (OPRT_COM_ERROR, None, mgr)
            else case dp_node_parse E schema_json nodepos False of
                   None \<Rightarrow> None
                 | Some (Inl err) \<Rightarrow> Some (err, None, mgr)
                 | Some (Inr (nodes, pre)) \<Rightarrow>
                     (let schema = \<lparr>devid = take DEV_ID_LEN dev, attach_dp_if = True, preprocess = pre, s_node = nodes\<rparr>
                      in Some (OPRT_OK, Some schema,
                               if schema_num mgr < DP_SCHEMA_NUM_MAX
                               then mgr\<lparr>schema_list := (schema_list mgr)[schema_num mgr := Some schema], schema_num := schema_num mgr + 1\<rparr>
                               else mgr))))"

definition dp_schema_delete :: "string \<Rightarrow> dp_schema_mgr \<Rightarrow> operate_ret \<times> dp_schema_mgr" where
  "dp_schema_delete dev mgr =
     (OPRT_OK,
      case find (\<lambda>i. case schema_list mgr ! i of None \<Rightarrow> False | Some s \<Rightarrow> devid s = dev) [0..<length (schema_list mgr)] of
        None \<Rightarrow> mgr
      | Some i \<Rightarrow> mgr\<lparr>schema_list := (schema_list mgr)[i := None], schema_num := schema_num mgr - 1\<rparr>)"

section \<open>Decimal numbers\<close>

text \<open>The text of a number is read back.\<close>

lemma digit_of: "k < 10 \<Longrightarrow> (of_char (char_of (48 + k)) :: nat) = 48 + k"
  by (simp add: of_char_of)

lemma nat_digits_chars: "\<forall>c \<in> set (nat_digits n). digit_char c"
  by (induction n rule: nat_digits.induct) (subst nat_digits.simps, auto simp: digit_char_def digit_of)

lemma digits_val_snoc: "digits_val (ds @ [c]) = 10 * digits_val ds + (of_char c - 48)"
  by (simp add: digits_val_def)

lemma digits_val_digits: "digits_val (nat_digits n) = int n"
proof (induction n rule: nat_digits.induct)
  case (1 n)
  have d: "(of_char (char_of (48 + k)) :: int) = 48 + int k" if "k < 10" for k :: nat
    using digit_of [OF that] by (metis of_nat_add of_nat_numeral of_nat_of_char)
  show ?case
  proof (cases "n < 10")
    case True
    then show ?thesis by (subst nat_digits.simps) (simp add: digits_val_def d)
  next
    case False
    then have "digits_val (nat_digits n) = 10 * int (n div 10) + int (n mod 10)"
      using 1 d [of "n mod 10"] by (subst nat_digits.simps) (simp add: digits_val_snoc)
    then show ?thesis by (simp add: zdiv_int zmod_int)
  qed
qed

lemma atoi_digits: "atoi (nat_digits n) = int n"
proof -
  have ne: "nat_digits n \<noteq> []" by (subst nat_digits.simps) simp
  have c: "digit_char (hd (nat_digits n))" using nat_digits_chars [of n] ne by simp
  then have b: "\<not> is_blank (hd (nat_digits n))" "hd (nat_digits n) \<noteq> CHR ''-''" "hd (nat_digits n) \<noteq> CHR ''+''"
    by (auto simp: digit_char_def is_blank_def)
  have t: "takeWhile digit_char (nat_digits n) = nat_digits n" using nat_digits_chars [of n] by simp
  have "dropWhile is_blank (nat_digits n) = nat_digits n" using b(1) ne by (cases "nat_digits n") auto
  then show ?thesis using b ne t digits_val_digits [of n] by (cases "nat_digits n") (auto simp: atoi_def Let_def)
qed

lemma atoi_int_digits: "atoi (int_digits i) = i"
proof (cases "i < 0")
  case True
  have "takeWhile digit_char (nat_digits (nat (- i))) = nat_digits (nat (- i))" using nat_digits_chars [of "nat (- i)"] by (simp add: takeWhile_eq_all_conv)
  then have "digits_val (takeWhile digit_char (nat_digits (nat (- i)))) = int (nat (- i))" by (simp only: digits_val_digits)
  then show ?thesis using True by (simp add: int_digits_def atoi_def is_blank_def)
qed (simp add: int_digits_def atoi_digits)

end
