(* ===== verification/MqttService.thy ===== *)
theory MqttService
  imports TuyaProtocol DpSchema "HOL-Library.Multiset"
begin

text \<open>
  The message service of the cloud (\<^verbatim>\<open>src/tuya_cloud_service/cloud/mqtt_service.c\<close>): credentials, subscriptions, protocol handlers and the list of
  publications that wait for their acknowledgement. The client library under it is a parameter: \<open>'e\<close> is the state of everything outside of the
  context, the library's functions and the callbacks act on it. A callback of a publication with its user data is a value of \<open>'c\<close>, so that the clients of
  this theory choose what it does. Topics and texts are strings; \<open>None\<close> is a write outside of a buffer or a null pointer.
\<close>

section \<open>Model\<close>

abbreviation OPRT_TIMEOUT :: operate_ret where "OPRT_TIMEOUT \<equiv> - 20"
abbreviation OPRT_AUTHENTICATION_FAIL :: operate_ret where "OPRT_AUTHENTICATION_FAIL \<equiv> - 34"

record mqtt_access =
  clientid :: string
  username :: string
  password :: string
  cipherkey :: "byte list"
  topic_in :: string
  topic_out :: string

record protocol_handle =
  ph_id :: u16
  ph_cb :: nat
  ph_data :: nat

text \<open>The callback of a subscription is \<^verbatim>\<open>on_subscribe_message_default\<close> or one of a client.\<close>

datatype sub_cb = On_Subscribe_Default | Sub_Cb nat

record subscribe_handle =
  sh_topic :: string
  sh_cb :: sub_cb
  sh_data :: nat

record 'c publish_handle =
  pb_msgid :: u16
  pb_timeout :: u32
  pb_topic :: string
  pb_payload :: "byte list"
  pb_notify :: 'c

record 'c mqtt_context =
  mq_client :: bool
  mq_signature :: mqtt_access
  protocol_list :: "protocol_handle list"
  subscribe_list :: "subscribe_handle list"
  publish_list :: "'c publish_handle list"
  manual_disconnect :: bool
  is_inited :: bool
  is_connected :: bool

text \<open>
  The client library as this service calls it, with the clock and the callbacks. A message identifier of 0 is a failure.
\<close>

datatype mqtt_status = MQTT_STATUS_SUCCESS | MQTT_STATUS_NOT_AUTHORIZED | MQTT_STATUS_OTHER

record ('c, 'e) mqtt_env =
  mqtt_client_publish :: "string \<Rightarrow> byte list \<Rightarrow> nat \<Rightarrow> 'e \<Rightarrow> u16 \<times> 'e"
  mqtt_client_subscribe :: "string \<Rightarrow> 'e \<Rightarrow> u16 \<times> 'e"
  mqtt_client_unsubscribe :: "string \<Rightarrow> 'e \<Rightarrow> u16 \<times> 'e"
  posix_now :: "'e \<Rightarrow> u32"
  call_notify :: "operate_ret \<Rightarrow> 'c \<Rightarrow> 'e \<Rightarrow> 'e option"

subsection \<open>Credentials\<close>

text \<open>\<^verbatim>\<open>sprintf\<close> into an array of the given size.\<close>

definition sprintf_into :: "nat \<Rightarrow> string \<Rightarrow> string option" where
  "sprintf_into cap t = (if length t < cap then Some t else None)"

definition hex_of :: "nat \<Rightarrow> char" where
  "hex_of n = char_of (if n < 10 then 48 + n else 87 + n)"

definition hex_byte :: "byte \<Rightarrow> string" where
  "hex_byte b = [hex_of (unat b div 16), hex_of (unat b mod 16)]"

record meta_info =
  m_uuid :: "string option"
  m_authkey :: "string option"
  m_devid :: "string option"
  m_seckey :: "string option"
  m_localkey :: "string option"

abbreviation TOPIC_SIZE :: nat where "TOPIC_SIZE \<equiv> 65"
abbreviation TOKEN_SIZE :: nat where "TOKEN_SIZE \<equiv> 33"

text \<open>Sixteen bytes of the key are copied; a key of at least fifteen characters has as many with its terminator.\<close>

definition key16 :: "string \<Rightarrow> byte list option" where
  "key16 k = (if length k < 15 then None else Some (take 16 (map of_char k @ [0]) @ replicate 17 0))"

definition tuya_mqtt_signature_tool :: "(byte list \<Rightarrow> byte list) \<Rightarrow> meta_info \<Rightarrow> (operate_ret + mqtt_access) option" where
  "tuya_mqtt_signature_tool md5 input =
     (case (m_devid input, m_seckey input, m_localkey input) of
        (Some dev, Some seckey, Some localkey) \<Rightarrow>
          do {
            key \<leftarrow> key16 localkey;
            cid \<leftarrow> sprintf_into TOKEN_SIZE dev;
            user \<leftarrow> sprintf_into TOKEN_SIZE dev;
            pass \<leftarrow> Some (concat (map hex_byte (take 8 (drop 4 (md5 (map of_char seckey))))));
            t_in \<leftarrow> sprintf_into TOPIC_SIZE (''smart/device/in/'' @ dev);
            t_out \<leftarrow> sprintf_into TOPIC_SIZE (''smart/device/out/'' @ dev);
            Some (Inr \<lparr>clientid = cid, username = user, password = pass, cipherkey = key, topic_in = t_in, topic_out = t_out\<rparr>)
          }
      | _ \<Rightarrow>
          (case (m_uuid input, m_authkey input) of
             (Some uuid, Some authkey) \<Rightarrow>
               do {
                 key \<leftarrow> key16 authkey;
                 cid \<leftarrow> sprintf_into TOKEN_SIZE (''acon_'' @ uuid);
                 user \<leftarrow> sprintf_into TOKEN_SIZE (''acon_'' @ uuid @ ''|pv='' @ ''2.3'');
                 pass \<leftarrow> Some (concat (map hex_byte (take 8 (drop 4 (md5 (map of_char authkey))))));
                 t_in \<leftarrow> sprintf_into TOPIC_SIZE (''d/ai/'' @ uuid);
                 Some (Inr \<lparr>clientid = cid, username = user, password = pass, cipherkey = key, topic_in = t_in, topic_out = []\<rparr>)
               }
           | _ \<Rightarrow> Some (Inl OPRT_INVALID_PARM)))"

subsection \<open>Subscriptions\<close>

text \<open>
  The filter compares as many characters as the registered topic has, and the callback as it was passed, before the default replaces a missing one.
  \<open>mem\<close> is the result of the two allocations, of the handle and of the copy of the topic.
\<close>

definition tuya_mqtt_subscribe_message_callback_register ::
    "('c, 'e) mqtt_env \<Rightarrow> bool \<Rightarrow> string \<Rightarrow> sub_cb option \<Rightarrow> nat \<Rightarrow> 'c mqtt_context \<Rightarrow> 'e \<Rightarrow> operate_ret \<times> 'c mqtt_context \<times> 'e" where
  "tuya_mqtt_subscribe_message_callback_register M mem topic cb userdata ctx e =
     (case mqtt_client_subscribe M topic e of (msgid, e) \<Rightarrow>
        if msgid = 0 then (OPRT_COM_ERROR, ctx, e)
        else if \<exists>t \<in> set (subscribe_list ctx). take (length (sh_topic t)) topic = sh_topic t \<and> Some (sh_cb t) = cb then (OPRT_OK, ctx, e)
        else if \<not> mem then (OPRT_MALLOC_FAILED, ctx, e)
        else (OPRT_OK, ctx\<lparr>subscribe_list :=
                \<lparr>sh_topic = topic, sh_cb = (case cb of None \<Rightarrow> On_Subscribe_Default | Some c \<Rightarrow> c), sh_data = userdata\<rparr> # subscribe_list ctx\<rparr>, e))"

definition tuya_mqtt_subscribe_message_callback_unregister ::
    "('c, 'e) mqtt_env \<Rightarrow> string \<Rightarrow> 'c mqtt_context \<Rightarrow> 'e \<Rightarrow> operate_ret \<times> 'c mqtt_context \<times> 'e" where
  "tuya_mqtt_subscribe_message_callback_unregister M topic ctx e =
     (let ctx = ctx\<lparr>subscribe_list := filter (\<lambda>t. sh_topic t \<noteq> topic) (subscribe_list ctx)\<rparr>
      in case mqtt_client_unsubscribe M topic e of (msgid, e) \<Rightarrow> (if msgid = 0 then OPRT_COM_ERROR else OPRT_OK, ctx, e))"

text \<open>The subscriptions whose callback is called for a message, in the order of the calls.\<close>

definition mqtt_subscribe_message_distribute :: "'c mqtt_context \<Rightarrow> string \<Rightarrow> subscribe_handle list" where
  "mqtt_subscribe_message_distribute ctx topic = filter (\<lambda>t. sh_topic t = topic) (subscribe_list ctx)"

subsection \<open>Protocol handlers\<close>

record protocol_event =
  ev_cb :: nat
  ev_user :: nat
  event_id :: int
  root_json :: cjson
  ev_data :: cjson

definition byte_text :: "byte list \<Rightarrow> string" where
  "byte_text bs = map (\<lambda>b. char_of (unat b)) (takeWhile (\<lambda>b. b \<noteq> 0) bs)"

definition event_of :: "int \<Rightarrow> cjson \<Rightarrow> cjson \<Rightarrow> protocol_handle \<Rightarrow> protocol_event" where
  "event_of pro root dat h = \<lparr>ev_cb = ph_cb h, ev_user = ph_data h, event_id = pro, root_json = root, ev_data = dat\<rparr>"

text \<open>The calls of the handlers that a message of the cloud makes. The identifier of the event has sixteen bits.\<close>

definition tuya_protocol_message_parse_process ::
    "mbedtls \<Rightarrow> (u32 \<Rightarrow> bool) \<Rightarrow> parse_env \<Rightarrow> 'c mqtt_context \<Rightarrow> byte list \<Rightarrow> (operate_ret \<times> protocol_event list) option" where
  "tuya_protocol_message_parse_process C alloc J ctx payload =
     do {
       (ret, txt) \<leftarrow> tuya_parse_protocol_data C alloc DP_CMD_MQ (Some payload) (take 16 (cipherkey (mq_signature ctx)));
       if ret \<noteq> OPRT_OK then Some (OPRT_COM_ERROR, [])
       else case cjson_parse J (byte_text (case txt of None \<Rightarrow> [] | Some t \<Rightarrow> t)) of
              None \<Rightarrow> Some (OPRT_CJSON_PARSE_ERR, [])
            | Some root \<Rightarrow>
                (case (get_item J root ''protocol'', get_item J root ''t'', get_item J root ''data'') of
                   (Some pro, Some _, Some dat) \<Rightarrow>
                     Some (OPRT_OK,
                       map (event_of (cj_int pro mod 65536) root dat)
                         (filter (\<lambda>h. uint (ph_id h) = cj_int pro) (protocol_list ctx)))
                 | _ \<Rightarrow> Some (OPRT_CJSON_GET_ERR, []))
     }"

definition tuya_mqtt_protocol_register :: "bool \<Rightarrow> u16 \<Rightarrow> nat option \<Rightarrow> nat \<Rightarrow> 'c mqtt_context option \<Rightarrow> operate_ret \<times> 'c mqtt_context option" where
  "tuya_mqtt_protocol_register mem protocol_id cb user_data context =
     (case (context, cb) of
        (Some ctx, Some c) \<Rightarrow>
          if \<not> is_inited ctx then (OPRT_INVALID_PARM, context)
          else if \<exists>t \<in> set (protocol_list ctx). ph_id t = protocol_id \<and> ph_cb t = c then (OPRT_COM_ERROR, context)
          else if \<not> mem then (OPRT_MALLOC_FAILED, context)
          else (OPRT_OK, Some (ctx\<lparr>protocol_list := \<lparr>ph_id = protocol_id, ph_cb = c, ph_data = user_data\<rparr> # protocol_list ctx\<rparr>))
      | _ \<Rightarrow> (OPRT_INVALID_PARM, context))"

definition tuya_mqtt_protocol_unregister :: "u16 \<Rightarrow> nat option \<Rightarrow> 'c mqtt_context option \<Rightarrow> operate_ret \<times> 'c mqtt_context option" where
  "tuya_mqtt_protocol_unregister protocol_id cb context =
     (case (context, cb) of
        (Some ctx, Some c) \<Rightarrow>
          if \<not> is_inited ctx then (OPRT_INVALID_PARM, context)
          else (OPRT_OK, Some (ctx\<lparr>protocol_list := filter (\<lambda>t. \<not> (ph_id t = protocol_id \<and> ph_cb t = c)) (protocol_list ctx)\<rparr>))
      | _ \<Rightarrow> (OPRT_INVALID_PARM, context))"

definition tuya_mqtt_protocol_unregister_all :: "'c mqtt_context option \<Rightarrow> operate_ret \<times> 'c mqtt_context option" where
  "tuya_mqtt_protocol_unregister_all context =
     (case context of
        None \<Rightarrow> (OPRT_INVALID_PARM, context)
      | Some ctx \<Rightarrow> if \<not> is_inited ctx then (OPRT_INVALID_PARM, context) else (OPRT_OK, Some (ctx\<lparr>protocol_list := []\<rparr>)))"

subsection \<open>Publications\<close>

abbreviation MQTT_QOS_0 :: nat where "MQTT_QOS_0 \<equiv> 0"
abbreviation MQTT_QOS_1 :: nat where "MQTT_QOS_1 \<equiv> 1"

text \<open>
  A publication without a callback is sent at once; one with a callback is put at the end of the list, sent before unless \<open>async\<close> holds. The time of its end is the
  clock, in seconds, plus the time the caller allows, in milliseconds. \<open>mem\<close> is the result of the two allocations.
\<close>

definition tuya_mqtt_client_publish_common ::
    "('c, 'e) mqtt_env \<Rightarrow> bool \<Rightarrow> string \<Rightarrow> byte list \<Rightarrow> 'c option \<Rightarrow> u32 \<Rightarrow> bool \<Rightarrow> 'c mqtt_context \<Rightarrow> 'e \<Rightarrow> operate_ret \<times> 'c mqtt_context \<times> 'e" where
  "tuya_mqtt_client_publish_common M mem topic payload cb timeout_ms async ctx e =
     (case cb of
        None \<Rightarrow>
          if async then (OPRT_INVALID_PARM, ctx, e)
          else (case mqtt_client_publish M topic payload MQTT_QOS_0 e of (msgid, e) \<Rightarrow> (if msgid = 0 then OPRT_COM_ERROR else OPRT_OK, ctx, e))
      | Some c \<Rightarrow>
          if \<not> mem then (OPRT_MALLOC_FAILED, ctx, e)
          else
            (let timeout = posix_now M e + timeout_ms;
                 (msgid, e) = (if async then (0, e) else mqtt_client_publish M topic payload MQTT_QOS_1 e)
             in (OPRT_OK, ctx\<lparr>publish_list := publish_list ctx @
                   [\<lparr>pb_msgid = msgid, pb_timeout = timeout, pb_topic = topic, pb_payload = payload, pb_notify = c\<rparr>]\<rparr>, e)))"

text \<open>What packing a message needs: the cipher, the allocations, the clock with the random numbers, and the serial number.\<close>

record packer =
  pk_cipher :: mbedtls
  pk_alloc :: "u32 \<Rightarrow> bool"
  pk_env :: pack_env
  pk_serial :: u32

definition tuya_mqtt_protocol_data_publish_with_topic_common ::
    "('c, 'e) mqtt_env \<Rightarrow> packer \<Rightarrow> bool \<Rightarrow> string \<Rightarrow> u16 \<Rightarrow> byte list option \<Rightarrow> 'c option \<Rightarrow> u32 \<Rightarrow> bool \<Rightarrow> 'c mqtt_context option \<Rightarrow> 'e
       \<Rightarrow> (operate_ret \<times> packer \<times> 'c mqtt_context option \<times> 'e) option" where
  "tuya_mqtt_protocol_data_publish_with_topic_common M P mem topic protocol_id data cb timeout_ms async context e =
     (case context of
        None \<Rightarrow> Some (OPRT_INVALID_PARM, P, context, e)
      | Some ctx \<Rightarrow>
          if \<not> is_inited ctx then Some (OPRT_INVALID_PARM, P, context, e)
          else if \<not> is_connected ctx then Some (OPRT_COM_ERROR, P, context, e)
          else
            (case tuya_pack_protocol_data (pk_cipher P) (pk_alloc P) (pk_env P) DP_CMD_MQ data (ucast protocol_id)
                    (take 16 (cipherkey (mq_signature ctx))) (pk_serial P) of (res, serial) \<Rightarrow>
               do {
                 (ret, buffer) \<leftarrow> res;
                 let P = P\<lparr>pk_serial := serial\<rparr>;
                 if ret \<noteq> OPRT_OK then Some (ret, P, context, e)
                 else case buffer of
                        None \<Rightarrow> Some (OPRT_INVALID_PARM, P, context, e)
                      | Some b \<Rightarrow>
                          (case tuya_mqtt_client_publish_common M mem topic b cb timeout_ms async ctx e of (ret, ctx, e) \<Rightarrow> Some (ret, P, Some ctx, e))
               }))"

definition tuya_mqtt_protocol_data_publish_common ::
    "('c, 'e) mqtt_env \<Rightarrow> packer \<Rightarrow> bool \<Rightarrow> u16 \<Rightarrow> byte list option \<Rightarrow> 'c option \<Rightarrow> u32 \<Rightarrow> bool \<Rightarrow> 'c mqtt_context option \<Rightarrow> 'e
       \<Rightarrow> (operate_ret \<times> packer \<times> 'c mqtt_context option \<times> 'e) option" where
  "tuya_mqtt_protocol_data_publish_common M P mem protocol_id data cb timeout_ms async context e =
     do {
       ctx \<leftarrow> context;
       tuya_mqtt_protocol_data_publish_with_topic_common M P mem (topic_out (mq_signature ctx)) protocol_id data cb timeout_ms async context e
     }"

definition tuya_mqtt_protocol_data_publish_with_topic ::
    "('c, 'e) mqtt_env \<Rightarrow> packer \<Rightarrow> bool \<Rightarrow> string \<Rightarrow> u16 \<Rightarrow> byte list option \<Rightarrow> 'c mqtt_context option \<Rightarrow> 'e
       \<Rightarrow> (operate_ret \<times> packer \<times> 'c mqtt_context option \<times> 'e) option" where
  "tuya_mqtt_protocol_data_publish_with_topic M P mem topic protocol_id data context e =
     tuya_mqtt_protocol_data_publish_with_topic_common M P mem topic protocol_id data None 0 False context e"

definition tuya_mqtt_protocol_data_publish ::
    "('c, 'e) mqtt_env \<Rightarrow> packer \<Rightarrow> bool \<Rightarrow> u16 \<Rightarrow> byte list option \<Rightarrow> 'c mqtt_context option \<Rightarrow> 'e
       \<Rightarrow> (operate_ret \<times> packer \<times> 'c mqtt_context option \<times> 'e) option" where
  "tuya_mqtt_protocol_data_publish M P mem protocol_id data context e =
     do {
       ctx \<leftarrow> context;
       tuya_mqtt_protocol_data_publish_with_topic M P mem (topic_out (mq_signature ctx)) protocol_id data context e
     }"

abbreviation PRO_UPGE_PUSH :: u16 where "PRO_UPGE_PUSH \<equiv> 16"

text \<open>The result of the publication is stored in sixteen bits and read as a message identifier.\<close>

definition tuya_mqtt_upgrade_progress_report ::
    "('c, 'e) mqtt_env \<Rightarrow> packer \<Rightarrow> bool \<Rightarrow> bool \<Rightarrow> int \<Rightarrow> int \<Rightarrow> 'c mqtt_context option \<Rightarrow> 'e \<Rightarrow> (operate_ret \<times> packer \<times> 'c mqtt_context option \<times> 'e) option" where
  "tuya_mqtt_upgrade_progress_report M P bmem mem channel percent context e =
     (if percent > 100 then Some (OPRT_INVALID_PARM, P, context, e)
      else if \<not> bmem then Some (OPRT_MALLOC_FAILED, P, context, e)
      else
        do {
          (ret, P, context, e) \<leftarrow> tuya_mqtt_protocol_data_publish M P mem PRO_UPGE_PUSH
            (Some (map of_char (''{\"progress\":\"'' @ int_digits percent @ ''\",\"firmwareType\":'' @ int_digits channel @ ''}''))) context e;
          Some (if (word_of_int ret :: u16) = 0 then OPRT_COM_ERROR else OPRT_OK, P, context, e)
        })"

text \<open>The first publication with the identifier is confirmed and removed.\<close>

fun puback_loop :: "('c, 'e) mqtt_env \<Rightarrow> u16 \<Rightarrow> 'c publish_handle list \<Rightarrow> 'e \<Rightarrow> ('c publish_handle list \<times> 'e) option" where
  "puback_loop M msgid [] e = Some ([], e)"
| "puback_loop M msgid (h # hs) e =
     (if msgid = pb_msgid h then do { e \<leftarrow> call_notify M OPRT_OK (pb_notify h) e; Some (hs, e) }
      else do { (hs, e) \<leftarrow> puback_loop M msgid hs e; Some (h # hs, e) })"

definition mqtt_client_puback_cb :: "('c, 'e) mqtt_env \<Rightarrow> u16 \<Rightarrow> 'c mqtt_context \<Rightarrow> 'e \<Rightarrow> ('c mqtt_context \<times> 'e) option" where
  "mqtt_client_puback_cb M msgid ctx e = do { (hs, e) \<leftarrow> puback_loop M msgid (publish_list ctx) e; Some (ctx\<lparr>publish_list := hs\<rparr>, e) }"

text \<open>
  The walk through the list. The pointer to a removed entry holds its successor, and the step of the loop goes on to the successor of that: the entry behind a removed
  one is passed over, and behind the last one there is a null pointer.
\<close>

definition resend :: "('c, 'e) mqtt_env \<Rightarrow> 'c publish_handle \<Rightarrow> 'e \<Rightarrow> 'c publish_handle \<times> 'e" where
  "resend M h e =
     (if pb_msgid h = 0 then (case mqtt_client_publish M (pb_topic h) (pb_payload h) MQTT_QOS_1 e of (msgid, e) \<Rightarrow> (h\<lparr>pb_msgid := msgid\<rparr>, e)) else (h, e))"

fun publish_loop :: "('c, 'e) mqtt_env \<Rightarrow> 'c publish_handle list \<Rightarrow> 'e \<Rightarrow> ('c publish_handle list \<times> 'e) option" where
  "publish_loop M [] e = Some ([], e)"
| "publish_loop M [h] e =
     (if pb_timeout h \<le> posix_now M e then do { e \<leftarrow> call_notify M OPRT_TIMEOUT (pb_notify h) e; None }
      else (case resend M h e of (h, e) \<Rightarrow> Some ([h], e)))"
| "publish_loop M (h # g # hs) e =
     (if pb_timeout h \<le> posix_now M e
      then do { e \<leftarrow> call_notify M OPRT_TIMEOUT (pb_notify h) e; (hs, e) \<leftarrow> publish_loop M hs e; Some (g # hs, e) }
      else (case resend M h e of (h, e) \<Rightarrow> do { (hs, e) \<leftarrow> publish_loop M (g # hs) e; Some (h # hs, e) }))"

text \<open>
  One turn of the service. \<open>connect\<close> is a connection attempt of the library with the callback of a success inside, \<open>on_unbind\<close> the callback of the owner,
  \<open>yield\<close> the processing of what has arrived, with its callbacks. Waiting after a failed attempt has no effect on the state.
\<close>

definition tuya_mqtt_loop ::
    "('c, 'e) mqtt_env \<Rightarrow> ('c mqtt_context \<Rightarrow> 'e \<Rightarrow> mqtt_status \<times> 'c mqtt_context \<times> 'e) \<Rightarrow> ('c mqtt_context \<Rightarrow> 'e \<Rightarrow> 'c mqtt_context \<times> 'e)
       \<Rightarrow> ('c mqtt_context \<Rightarrow> 'e \<Rightarrow> ('c mqtt_context \<times> 'e) option) \<Rightarrow> 'c mqtt_context option \<Rightarrow> 'e \<Rightarrow> (operate_ret \<times> 'c mqtt_context option \<times> 'e) option" where
  "tuya_mqtt_loop M connect on_unbind yield context e =
     (case context of
        None \<Rightarrow> Some (OPRT_COM_ERROR, context, e)
      | Some ctx \<Rightarrow>
          if \<not> is_inited ctx \<or> manual_disconnect ctx then Some (OPRT_OK, context, e)
          else if \<not> is_connected ctx then
            (case connect ctx e of (status, ctx, e) \<Rightarrow>
               if status = MQTT_STATUS_NOT_AUTHORIZED then (case on_unbind ctx e of (ctx, e) \<Rightarrow> Some (OPRT_OK, Some ctx, e))
               else Some (OPRT_OK, Some ctx, e))
          else
            do {
              (hs, e) \<leftarrow> publish_loop M (publish_list ctx) e;
              (ctx, e) \<leftarrow> yield (ctx\<lparr>publish_list := hs\<rparr>) e;
              Some (OPRT_OK, Some ctx, e)
            })"

subsection \<open>The life of the service\<close>

definition mqtt_client_connected_cb ::
    "('c, 'e) mqtt_env \<Rightarrow> bool \<Rightarrow> ('c mqtt_context \<Rightarrow> 'e \<Rightarrow> 'c mqtt_context \<times> 'e) \<Rightarrow> nat \<Rightarrow> 'c mqtt_context \<Rightarrow> 'e \<Rightarrow> 'c mqtt_context \<times> 'e" where
  "mqtt_client_connected_cb M mem on_connected userdata ctx e =
     (case tuya_mqtt_subscribe_message_callback_register M mem (topic_in (mq_signature ctx)) (Some On_Subscribe_Default) userdata ctx e of (_, ctx, e) \<Rightarrow>
        on_connected (ctx\<lparr>is_connected := True\<rparr>) e)"

definition mqtt_client_disconnected_cb :: "('c mqtt_context \<Rightarrow> 'e \<Rightarrow> 'c mqtt_context \<times> 'e) \<Rightarrow> 'c mqtt_context \<Rightarrow> 'e \<Rightarrow> 'c mqtt_context \<times> 'e" where
  "mqtt_client_disconnected_cb on_disconnect ctx e = on_disconnect (ctx\<lparr>is_connected := False\<rparr>) e"

text \<open>\<open>new_client\<close> is the result of the allocation of the client, \<open>init_status\<close> that of its initialisation. The context is cleared first.\<close>

definition context_zero :: "'c mqtt_context" where
  "context_zero = \<lparr>mq_client = False, mq_signature = \<lparr>clientid = [], username = [], password = [], cipherkey = replicate 33 0, topic_in = [], topic_out = []\<rparr>,
     protocol_list = [], subscribe_list = [], publish_list = [], manual_disconnect = False, is_inited = False, is_connected = False\<rparr>"

definition tuya_mqtt_init :: "(byte list \<Rightarrow> byte list) \<Rightarrow> bool \<Rightarrow> bool \<Rightarrow> meta_info \<Rightarrow> (operate_ret \<times> 'c mqtt_context) option" where
  "tuya_mqtt_init md5 new_client init_ok config =
     do {
       r \<leftarrow> tuya_mqtt_signature_tool md5 config;
       case r of
         Inl rt \<Rightarrow> Some (rt, context_zero)
       | Inr acc \<Rightarrow>
           (let ctx = context_zero\<lparr>mq_signature := acc\<rparr>
            in if \<not> new_client then Some (OPRT_MALLOC_FAILED, ctx)
               else if \<not> init_ok then Some (OPRT_COM_ERROR, ctx\<lparr>mq_client := True\<rparr>)
               else Some (OPRT_OK, ctx\<lparr>mq_client := True, is_inited := True, manual_disconnect := True\<rparr>))
     }"

definition tuya_mqtt_start ::
    "('c mqtt_context \<Rightarrow> 'e \<Rightarrow> mqtt_status \<times> 'c mqtt_context \<times> 'e) \<Rightarrow> ('c mqtt_context \<Rightarrow> 'e \<Rightarrow> 'c mqtt_context \<times> 'e) \<Rightarrow> 'c mqtt_context option \<Rightarrow> 'e
       \<Rightarrow> operate_ret \<times> 'c mqtt_context option \<times> 'e" where
  "tuya_mqtt_start connect on_unbind context e =
     (case context of
        None \<Rightarrow> (OPRT_INVALID_PARM, context, e)
      | Some ctx \<Rightarrow>
          if \<not> is_inited ctx then (OPRT_INVALID_PARM, context, e)
          else
            (case connect (ctx\<lparr>manual_disconnect := False\<rparr>) e of (status, ctx, e) \<Rightarrow>
               if status = MQTT_STATUS_NOT_AUTHORIZED then (case on_unbind ctx e of (ctx, e) \<Rightarrow> (OPRT_AUTHENTICATION_FAIL, Some ctx, e))
               else (if status = MQTT_STATUS_SUCCESS then OPRT_OK else OPRT_COM_ERROR, Some ctx, e)))"

text \<open>\<open>disconnect\<close> is the call of the library, with its callback.\<close>

definition tuya_mqtt_stop ::
    "('c, 'e) mqtt_env \<Rightarrow> ('c mqtt_context \<Rightarrow> 'e \<Rightarrow> 'c mqtt_context \<times> 'e) \<Rightarrow> 'c mqtt_context option \<Rightarrow> 'e \<Rightarrow> operate_ret \<times> 'c mqtt_context option \<times> 'e" where
  "tuya_mqtt_stop M disconnect context e =
     (case context of
        None \<Rightarrow> (OPRT_INVALID_PARM, context, e)
      | Some ctx \<Rightarrow>
          if \<not> is_inited ctx then (OPRT_INVALID_PARM, context, e)
          else
            (case tuya_mqtt_subscribe_message_callback_unregister M (topic_in (mq_signature ctx)) ctx e of (_, ctx, e) \<Rightarrow>
               (case disconnect ctx e of (ctx, e) \<Rightarrow> (OPRT_OK, Some (ctx\<lparr>manual_disconnect := True\<rparr>), e))))"

definition tuya_mqtt_destory :: "bool \<Rightarrow> 'c mqtt_context option \<Rightarrow> operate_ret \<times> 'c mqtt_context option" where
  "tuya_mqtt_destory deinit_ok context =
     (case context of
        None \<Rightarrow> (OPRT_COM_ERROR, context)
      | Some ctx \<Rightarrow>
          if \<not> is_inited ctx then (OPRT_COM_ERROR, context)
          else
            (case tuya_mqtt_protocol_unregister_all context of (_, context) \<Rightarrow>
               (case context of
                  None \<Rightarrow> (OPRT_OK, None)
                | Some ctx \<Rightarrow> if mq_client ctx then (if deinit_ok then OPRT_OK else OPRT_COM_ERROR, Some (ctx\<lparr>mq_client := False\<rparr>)) else (OPRT_OK, Some ctx))))"

definition tuya_mqtt_connected :: "'c mqtt_context option \<Rightarrow> bool" where
  "tuya_mqtt_connected context = (case context of None \<Rightarrow> False | Some ctx \<Rightarrow> is_connected ctx)"

section \<open>The list of publications\<close>

text \<open>
  A client of the list: \<open>inv\<close> relates the callbacks that are still pending to the state outside, a callback consumes its share, and handing a message to the
  library consumes nothing. Then every walk keeps \<open>inv\<close>, so each callback is called at most once, and is pending until then.
\<close>

locale publication_client =
  fixes M :: "('c, 'e) mqtt_env" and inv :: "'c multiset \<Rightarrow> 'e \<Rightarrow> bool"
  assumes notify_inv: "inv (add_mset c P) e \<Longrightarrow> \<exists>e'. call_notify M r c e = Some e' \<and> inv P e'"
    and publish_inv: "inv P e \<Longrightarrow> inv P (snd (mqtt_client_publish M t p q e))"
begin

abbreviation waiting :: "'c publish_handle list \<Rightarrow> 'c multiset" where
  "waiting hs \<equiv> mset (map pb_notify hs)"

lemma puback_inv:
  assumes "inv (waiting hs + R) e"
  shows "\<exists>hs' e'. puback_loop M msgid hs e = Some (hs', e') \<and> inv (waiting hs' + R) e'
    \<and> (msgid \<notin> pb_msgid ` set hs \<longrightarrow> hs' = hs \<and> e' = e) \<and> (msgid \<in> pb_msgid ` set hs \<longrightarrow> length hs' < length hs)"
  using assms
proof (induction hs arbitrary: R)
  case (Cons h hs)
  show ?case
  proof (cases "msgid = pb_msgid h")
    case True
    then show ?thesis using notify_inv [of "pb_notify h" "waiting hs + R" e OPRT_OK] Cons.prems by auto
  next
    case False
    then show ?thesis using Cons.IH [of "add_mset (pb_notify h) R"] Cons.prems by auto
  qed
qed simp

lemma resend_inv: "inv P e \<Longrightarrow> resend M h e = (h', e') \<Longrightarrow> inv P e' \<and> pb_notify h' = pb_notify h"
  using publish_inv [of P e "pb_topic h" "pb_payload h" MQTT_QOS_1] by (auto simp: resend_def split: if_splits prod.splits)

lemma publish_loop_inv:
  "inv (waiting hs + R) e \<Longrightarrow> publish_loop M hs e = Some (hs', e') \<Longrightarrow> inv (waiting hs' + R) e'"
proof (induction hs arbitrary: R e hs' e' rule: induct_list012)
  case (2 h)
  then show ?case using resend_inv by (fastforce split: if_splits prod.splits bind_splits)
next
  case (3 h g hs)
  show ?case
  proof (cases "pb_timeout h \<le> posix_now M e")
    case True
    obtain e1 where e1: "call_notify M OPRT_TIMEOUT (pb_notify h) e = Some e1" "inv (waiting (g # hs) + R) e1"
      using notify_inv [of "pb_notify h" "waiting (g # hs) + R" e OPRT_TIMEOUT] 3(3) by auto
    then show ?thesis using 3(1) [of "add_mset (pb_notify g) R" e1] 3(4) True by (auto split: bind_splits)
  next
    case False
    obtain h1 e1 where r: "resend M h e = (h1, e1)" by fastforce
    then have "inv (waiting (h # g # hs) + R) e1" "pb_notify h1 = pb_notify h" using resend_inv 3(3) by auto
    then show ?thesis using 3(2) [of "add_mset (pb_notify h) R" e1] 3(4) False r by (auto split: bind_splits)
  qed
qed simp

end

text \<open>A callback that always succeeds and a clock that stands still during one walk.\<close>

definition steady :: "('c, 'e) mqtt_env \<Rightarrow> u32 \<Rightarrow> bool" where
  "steady M now \<longleftrightarrow> (\<forall>e. posix_now M e = now) \<and> (\<forall>r c e. call_notify M r c e \<noteq> None)"

text \<open>The publications at the end of the list whose time is over.\<close>

definition late_tail :: "u32 \<Rightarrow> 'c publish_handle list \<Rightarrow> nat" where
  "late_tail now hs = length (takeWhile (\<lambda>h. pb_timeout h \<le> now) (rev hs))"

lemma late_tail_all: "\<forall>g \<in> set hs. pb_timeout g \<le> now \<Longrightarrow> late_tail now hs = length hs"
  unfolding late_tail_def by (subst takeWhile_eq_all_conv [THEN iffD2]) auto

lemma late_tail_Cons:
  "late_tail now (h # hs) = (if (\<forall>g \<in> set hs. pb_timeout g \<le> now) \<and> pb_timeout h \<le> now then Suc (length hs) else late_tail now hs)"
proof (cases "\<forall>g \<in> set hs. pb_timeout g \<le> now")
  case True
  then show ?thesis using late_tail_all [OF True] by (simp add: late_tail_def takeWhile_append)
next
  case False
  then show ?thesis by (auto simp: late_tail_def takeWhile_append)
qed

text \<open>
  C21. Exactly when the turn of the service follows a null pointer: when the number of publications at the end of the list whose time is over is odd. In
  particular a single publication that is never acknowledged stops the device when its time is over.
\<close>

theorem mqtt_loop_crashes:
  assumes "steady M now"
  shows "publish_loop M hs e = None \<longleftrightarrow> odd (late_tail now hs)"
proof (induction hs arbitrary: e rule: induct_list012)
  case (2 h)
  then show ?case using assms by (auto simp: steady_def late_tail_def split: prod.splits bind_splits)
next
  case (3 h g hs)
  show ?case
  proof (cases "pb_timeout h \<le> now")
    case True
    then obtain e' where "call_notify M OPRT_TIMEOUT (pb_notify h) e = Some e'" using assms unfolding steady_def by blast
    moreover have "odd (late_tail now (h # g # hs)) = odd (late_tail now hs)" using True by (auto simp: late_tail_Cons late_tail_all)
    ultimately show ?thesis using 3(1) [of e'] True assms by (auto simp: steady_def split: bind_splits)
  next
    case False
    obtain h' e' where "resend M h e = (h', e')" by fastforce
    moreover have "late_tail now (h # g # hs) = late_tail now (g # hs)" using False by (simp add: late_tail_Cons)
    ultimately show ?thesis using 3(2) [of e'] False assms by (auto simp: steady_def split: bind_splits)
  qed
qed (simp add: late_tail_def)

definition mqtt_demo :: "(nat, nat list) mqtt_env" where
  "mqtt_demo = \<lparr>mqtt_client_publish = (\<lambda>t p q e. (7, e)), mqtt_client_subscribe = (\<lambda>t e. (3, e)), mqtt_client_unsubscribe = (\<lambda>t e. (4, e)),
     posix_now = (\<lambda>e. 100), call_notify = (\<lambda>r c e. Some (c # e))\<rparr>"

definition publish_demo :: "u32 \<Rightarrow> nat \<Rightarrow> nat publish_handle" where
  "publish_demo timeout c = \<lparr>pb_msgid = 1, pb_timeout = timeout, pb_topic = ''t'', pb_payload = [], pb_notify = c\<rparr>"

theorem mqtt_loop_crashes_witness: "publish_loop mqtt_demo [publish_demo 300 1, publish_demo 90 2] [] = None"
proof -
  have "steady mqtt_demo 100" by (simp add: steady_def mqtt_demo_def)
  then show ?thesis using mqtt_loop_crashes [of mqtt_demo 100 "[publish_demo 300 1, publish_demo 90 2]" "[]"] by (simp add: late_tail_def publish_demo_def)
qed

section \<open>Messages of the cloud\<close>

lemma byte_text_nul: "0 \<notin> set bs \<Longrightarrow> byte_text (bs @ [0]) = map (\<lambda>b. char_of (unat b)) bs"
  by (induction bs) (auto simp: byte_text_def)

text \<open>
  C22. A message that the cloud packs with the key of the device reaches the handlers of its protocol and no others, each with the parsed data, the one registered last
  first; registering a handler adds exactly its call.
\<close>

theorem cloud_message_dispatched:
  assumes "gcm_ok C" "\<And>n. alloc n" "length (take 16 (cipherkey (mq_signature ctx))) = 16" "length (nonce_bytes env) = 12" "0 \<notin> set src" "length src < 2147483000"
    and parse: "cjson_parse J (map (\<lambda>b. char_of (unat b)) (pack_json (ucast pro) (posix_time env) src)) = Some root"
      "get_item J root ''protocol'' = Some p" "cj_int p = uint pro" "get_item J root ''t'' = Some t" "get_item J root ''data'' = Some dat"
    and reg: "tuya_mqtt_protocol_register True pro (Some cb) ud (Some ctx) = (OPRT_OK, Some ctx')"
  shows "\<exists>payload calls. tuya_pack_protocol_data C alloc env DP_CMD_MQ (Some src) (ucast pro) (take 16 (cipherkey (mq_signature ctx))) serial_no =
      (Some (OPRT_OK, Some payload), tuya_pack_protocol_serial_no (serial_rnd env) serial_no)
    \<and> calls = map (event_of (uint pro) root dat) (filter (\<lambda>h. ph_id h = pro) (protocol_list ctx))
    \<and> tuya_protocol_message_parse_process C alloc J ctx payload = Some (OPRT_OK, calls)
    \<and> tuya_protocol_message_parse_process C alloc J ctx' payload = Some (OPRT_OK, event_of (uint pro) root dat \<lparr>ph_id = pro, ph_cb = cb, ph_data = ud\<rparr> # calls)
    \<and> cb \<notin> ev_cb ` set calls"
proof -
  let ?key = "take 16 (cipherkey (mq_signature ctx))" and ?out = "pack_json (ucast pro) (posix_time env) src"
  obtain payload where p: "tuya_pack_protocol_data C alloc env DP_CMD_MQ (Some src) (ucast pro) ?key serial_no =
      (Some (OPRT_OK, Some payload), tuya_pack_protocol_serial_no (serial_rnd env) serial_no)"
    "tuya_parse_protocol_data C alloc DP_CMD_MQ (Some payload) ?key = Some (OPRT_OK, Some (?out @ [0]))"
    using mq_roundtrip [of C alloc ?key env src "ucast pro" serial_no, OF assms(1-6)] by blast
  have tree: "cjson_parse J (byte_text (?out @ [0])) = Some root" using parse(1) pack_json_no_nul [OF assms(5)] by (simp add: byte_text_nul)
  have pid: "uint pro mod 65536 = uint pro" "(uint a = uint pro) = (a = pro)" for a
    using uint_lt2p [of pro] by (auto simp: word_uint_eq_iff)
  have new: "ctx' = ctx\<lparr>protocol_list := \<lparr>ph_id = pro, ph_cb = cb, ph_data = ud\<rparr> # protocol_list ctx\<rparr>"
    and fresh: "\<not> (\<exists>h \<in> set (protocol_list ctx). ph_id h = pro \<and> ph_cb h = cb)"
    using reg by (auto simp: tuya_mqtt_protocol_register_def split: if_splits)
  show ?thesis
    by (rule exI [of _ payload], rule exI, intro conjI, rule p(1), rule refl)
      (use p(2) tree parse pid fresh in \<open>auto simp: tuya_protocol_message_parse_process_def new event_of_def [abs_def]\<close>)
qed

definition json_demo :: parse_env where
  "json_demo = \<lparr>cjson_parse = (\<lambda>s. if s = [] then None else Some (CJson CJ_Object None 0 [(Some ''protocol'', CJson CJ_Number None 5 []),
       (Some ''t'', CJson CJ_Number None 9 []), (Some ''data'', CJson CJ_Object None 0 [])])),
     get_item = (\<lambda>j k. map_of (cj_child j) (Some k)), buf_mem = True, enum_mem = True, str_mutex = 0\<rparr>"

definition context_demo :: "nat mqtt_context" where
  "context_demo = context_zero\<lparr>is_inited := True, protocol_list := [\<lparr>ph_id = 5, ph_cb = 1, ph_data = 0\<rparr>, \<lparr>ph_id = 8, ph_cb = 2, ph_data = 0\<rparr>]\<rparr>"

theorem cloud_message_dispatched_witness:
  "\<exists>payload root dat. tuya_protocol_message_parse_process xor_cipher (\<lambda>_. True) json_demo context_demo payload =
     Some (OPRT_OK, [event_of 5 root dat \<lparr>ph_id = 5, ph_cb = 1, ph_data = 0\<rparr>])"
proof -
  let ?env = "\<lparr>posix_time = 1000, nonce_bytes = replicate 12 48, serial_rnd = 9\<rparr>"
  let ?root = "CJson CJ_Object None 0 [(Some ''protocol'', CJson CJ_Number None 5 []), (Some ''t'', CJson CJ_Number None 9 []), (Some ''data'', CJson CJ_Object None 0 [])]"
  have ne: "pack_json p t s \<noteq> []" for p t s by (simp add: pack_json_def lit_def)
  have "\<exists>payload calls. tuya_pack_protocol_data xor_cipher (\<lambda>_. True) ?env DP_CMD_MQ (Some [123, 125]) (ucast (5 :: u16))
        (take 16 (cipherkey (mq_signature context_demo))) 0 = (Some (OPRT_OK, Some payload), tuya_pack_protocol_serial_no (serial_rnd ?env) 0)
      \<and> calls = map (event_of (uint (5 :: u16)) ?root (CJson CJ_Object None 0 [])) (filter (\<lambda>h. ph_id h = 5) (protocol_list context_demo))
      \<and> tuya_protocol_message_parse_process xor_cipher (\<lambda>_. True) json_demo context_demo payload = Some (OPRT_OK, calls)
      \<and> tuya_protocol_message_parse_process xor_cipher (\<lambda>_. True) json_demo (context_demo\<lparr>protocol_list := \<lparr>ph_id = 5, ph_cb = 9, ph_data = 0\<rparr> # protocol_list context_demo\<rparr>) payload =
          Some (OPRT_OK, event_of (uint (5 :: u16)) ?root (CJson CJ_Object None 0 []) \<lparr>ph_id = 5, ph_cb = 9, ph_data = 0\<rparr> # calls)
      \<and> 9 \<notin> ev_cb ` set calls"
    by (rule cloud_message_dispatched [OF xor_cipher_ok, where p = "CJson CJ_Number None 5 []" and t = "CJson CJ_Number None 9 []"])
      (simp_all add: ne json_demo_def context_demo_def context_zero_def tuya_mqtt_protocol_register_def)
  then show ?thesis by (auto simp: context_demo_def)
qed

text \<open>
  What a subscription does. When no topic that is registered for the callback is a beginning of the new one, the callback is called for messages of the topic,
  before those registered earlier. Otherwise the registration reports success as well, but adds nothing: unless the topic itself is among them, the callback is
  never called for it.
\<close>

theorem subscription_called:
  assumes "tuya_mqtt_subscribe_message_callback_register M True topic (Some cb) ud ctx e = (OPRT_OK, ctx', e')"
  defines "same \<equiv> filter (\<lambda>t. sh_cb t = cb \<and> take (length (sh_topic t)) topic = sh_topic t) (subscribe_list ctx)"
  shows "(same = [] \<longrightarrow> mqtt_subscribe_message_distribute ctx' topic =
      \<lparr>sh_topic = topic, sh_cb = cb, sh_data = ud\<rparr> # mqtt_subscribe_message_distribute ctx topic)
    \<and> (same \<noteq> [] \<and> topic \<notin> sh_topic ` set same \<longrightarrow> cb \<notin> sh_cb ` set (mqtt_subscribe_message_distribute ctx' topic))"
  using assms(1) unfolding same_def
  by (auto simp: tuya_mqtt_subscribe_message_callback_register_def mqtt_subscribe_message_distribute_def filter_empty_conv split: prod.splits if_splits)

theorem subscription_called_witness:
  "mqtt_subscribe_message_distribute
     (fst (snd (tuya_mqtt_subscribe_message_callback_register mqtt_demo True ''a/bc'' (Some (Sub_Cb 1)) 0
        (context_demo\<lparr>subscribe_list := [\<lparr>sh_topic = ''a/b'', sh_cb = Sub_Cb 1, sh_data = 0\<rparr>]\<rparr>) []))) ''a/bc'' = []"
proof -
  let ?ctx = "context_demo\<lparr>subscribe_list := [\<lparr>sh_topic = ''a/b'', sh_cb = Sub_Cb 1, sh_data = 0\<rparr>]\<rparr>"
  have r: "tuya_mqtt_subscribe_message_callback_register mqtt_demo True ''a/bc'' (Some (Sub_Cb 1)) 0 ?ctx [] = (OPRT_OK, ?ctx, [])"
    by (simp add: tuya_mqtt_subscribe_message_callback_register_def mqtt_demo_def)
  show ?thesis using subscription_called [OF r] unfolding r by (simp add: mqtt_subscribe_message_distribute_def)
qed

text \<open>
  The report of an upgrade's progress answers the opposite of what happened: the result of the publication is taken for a message identifier, so a
  publication that succeeds is reported as a failure, and one that fails as a success.
\<close>

theorem upgrade_progress_inverted:
  assumes "percent \<le> 100" "tuya_mqtt_protocol_data_publish M P mem PRO_UPGE_PUSH
      (Some (map of_char (''{\"progress\":\"'' @ int_digits percent @ ''\",\"firmwareType\":'' @ int_digits channel @ ''}''))) context e = Some (ret, P', context', e')"
    and "- 65535 \<le> ret" "ret \<le> 0"
  shows "tuya_mqtt_upgrade_progress_report M P True mem channel percent context e = Some (if ret = OPRT_OK then OPRT_COM_ERROR else OPRT_OK, P', context', e')"
proof -
  have "(word_of_int ret :: u16) = 0 \<longleftrightarrow> ret = 0"
  proof
    assume "(word_of_int ret :: u16) = 0"
    then have "65536 dvd ret" by (simp add: word_of_int_eq_0_iff)
    then have "65536 dvd - ret" by simp
    then show "ret = 0" using assms(3,4) zdvd_imp_le [of 65536 "- ret"] by force
  qed simp
  then show ?thesis using assms(1,2) by (simp add: tuya_mqtt_upgrade_progress_report_def)
qed

theorem upgrade_progress_inverted_witness:
  "\<exists>P'. tuya_mqtt_upgrade_progress_report mqtt_demo P' True True 0 50 (Some context_zero) [] = Some (OPRT_OK, P', Some context_zero, [])"
proof -
  let ?P = "\<lparr>pk_cipher = xor_cipher, pk_alloc = (\<lambda>_. True), pk_env = \<lparr>posix_time = 1000, nonce_bytes = replicate 12 48, serial_rnd = 9\<rparr>, pk_serial = 1\<rparr>"
  have "tuya_mqtt_upgrade_progress_report mqtt_demo ?P True True 0 50 (Some context_zero) [] =
      Some (if OPRT_INVALID_PARM = OPRT_OK then OPRT_COM_ERROR else OPRT_OK, ?P, Some context_zero, [])"
    by (rule upgrade_progress_inverted) (simp_all add: tuya_mqtt_protocol_data_publish_def tuya_mqtt_protocol_data_publish_with_topic_def
        tuya_mqtt_protocol_data_publish_with_topic_common_def context_zero_def)
  then show ?thesis by auto
qed

text \<open>
  The buffers of the credentials: a device identifier of 32 characters fits, and so does an identifier of the module of 20; a longer one, although the
  header allows 32, is written beyond the name of the user.
\<close>

theorem signature_bounds:
  assumes "m_devid input = None" "m_uuid input = Some uuid" "m_authkey input = Some authkey" "length authkey \<ge> 15"
  shows "tuya_mqtt_signature_tool md5 input = None \<longleftrightarrow> length uuid > 20"
  using assms by (auto simp: tuya_mqtt_signature_tool_def key16_def sprintf_into_def split: bind_splits)

theorem signature_bounds_witness:
  "tuya_mqtt_signature_tool (\<lambda>_. replicate 16 0)
     \<lparr>m_uuid = Some (replicate 21 CHR ''u''), m_authkey = Some (replicate 32 CHR ''k''), m_devid = None, m_seckey = None, m_localkey = None\<rparr> = None"
  using signature_bounds [of "\<lparr>m_uuid = Some (replicate 21 CHR ''u''), m_authkey = Some (replicate 32 CHR ''k''), m_devid = None, m_seckey = None, m_localkey = None\<rparr>"
      "replicate 21 CHR ''u''" "replicate 32 CHR ''k''" "\<lambda>_. replicate 16 0"] by simp

end
