(* ===== verification/DpReport.thy ===== *)
theory DpReport
  imports DpSchema
begin

text \<open>
  Reports of data points: what the check accepts and what it leaves in the cache, the text of a report, and the size of its buffer.
\<close>

section \<open>Looking up\<close>

lemma node_find_Some:
  assumes "dp_node_find schema v = Some i"
  shows "i < length (s_node schema)" "uint (d_id (s_node schema ! i)) = v"
  using assms by (auto simp: dp_node_find_def find_Some_iff)

lemma node_find_ids: "map d_id (s_node a) = map d_id (s_node b) \<Longrightarrow> dp_node_find a = dp_node_find b"
proof (rule ext)
  fix v
  assume e: "map d_id (s_node a) = map d_id (s_node b)"
  then have l: "length (s_node a) = length (s_node b)" using map_eq_imp_length_eq by blast
  have "d_id (s_node a ! i) = d_id (s_node b ! i)" if "i < length (s_node b)" for i
    using arg_cong [OF e, of "\<lambda>xs. xs ! i"] that l by simp
  then show "dp_node_find a v = dp_node_find b v" unfolding dp_node_find_def l by (intro find_cong) auto
qed

lemma upd_node_same [simp]: "upd_node i (\<lambda>_. s_node schema ! i) schema = schema"
  by (simp add: upd_node_def)

lemma upd_node_ids:
  assumes "d_id n = d_id (s_node schema ! i)"
  shows "map d_id (s_node (upd_node i (\<lambda>_. n) schema)) = map d_id (s_node schema)"
  using assms by (cases "i < length (s_node schema)") (simp_all add: upd_node_def map_update list_update_same_conv list_update_beyond)

lemma upd_node_find [simp]: "d_id n = d_id (s_node schema ! i) \<Longrightarrow> dp_node_find (upd_node i (\<lambda>_. n) schema) = dp_node_find schema"
  by (rule node_find_ids) (rule upd_node_ids)

lemma upd_node_nth: "j < length (s_node schema) \<Longrightarrow> s_node (upd_node i (\<lambda>_. n) schema) ! j = (if j = i then n else s_node schema ! j)"
  by (simp add: upd_node_def nth_list_update)

lemma upd_node_fields [simp]:
  "length (s_node (upd_node i f schema)) = length (s_node schema)" "preprocess (upd_node i f schema) = preprocess schema"
  "devid (upd_node i f schema) = devid schema"
  by (simp_all add: upd_node_def)

section \<open>One object\<close>

text \<open>What the loop does with an object whose type is the one of its point: whether it is reported, and the new state of the point.\<close>

definition step_node :: "nat \<Rightarrow> bool \<Rightarrow> dp_rept_type \<Rightarrow> u32 \<Rightarrow> bool \<Rightarrow> dp_obj \<Rightarrow> dp_node \<Rightarrow> bool \<times> dp_node" where
  "step_node num m rt flags pre dp node =
     (if rt = T_RE_TRANS_REPT then (True, node)
      else if \<not> dp_type_check num rt dp node \<or> pre \<and> d_passive node = PSV_TRUE then (False, node)
      else (let (same, node') = dp_rept_update m rt dp node flags in (\<not> same, node')))"

lemma rept_update_fields:
  assumes "dp_rept_update m rt dp node flags = (same, node')"
  shows "d_id node' = d_id node" "d_mode node' = d_mode node" "d_passive node' = d_passive node" "d_type node' = d_type node"
    "d_trig node' = d_trig node"
  using assms by (auto simp: dp_rept_update_def Let_def split: dp_type.splits prod.splits if_splits)

lemma step_node_id: "step_node num m rt flags pre dp node = (rep, node') \<Longrightarrow> d_id node' = d_id node"
  by (auto simp: step_node_def Let_def split: if_splits prod.splits dest: rept_update_fields(1))

text \<open>The loop in these terms.\<close>

lemma valid_loop_Cons:
  "valid_loop num mem rt flags k (dp # dps) schema v =
     (case dp_node_find schema (uint (o_id dp)) of
        None \<Rightarrow> valid_loop num mem rt flags (Suc k) dps schema v
      | Some i \<Rightarrow>
          if dp_tp (o_value dp) \<noteq> prop_tp (d_prop (s_node schema ! i)) then (OPRT_SVC_DP_TP_NOT_MATCH, schema, v)
          else
            (let (rep, node) = step_node num (mem k) rt flags (preprocess schema) dp (s_node schema ! i);
                 schema = upd_node i (\<lambda>_. node) schema
             in if \<not> rep then valid_loop num mem rt flags (Suc k) dps schema v
                else case rept_len dp (d_prop node) of
                       Inl err \<Rightarrow> (err, schema, v)
                     | Inr n \<Rightarrow>
                         valid_loop num mem rt flags (Suc k) dps schema
                           (v\<lparr>v_len := v_len v + of_nat n, v_timelen := (if o_time dp \<noteq> 0 then v_timelen v + 30 else v_timelen v),
                              v_dpid := v_dpid v @ [o_id dp]\<rparr>)))"
  by (simp add: step_node_def Let_def split: option.split prod.split)

declare valid_loop.simps(2) [simp del]

text \<open>An update keeps the type of the property and its enumeration.\<close>

lemma rept_prop_shape:
  assumes "rept_prop m need v p = (upd, p')"
  shows "prop_tp p' = prop_tp p" "prop_tp p = PROP_ENUM \<Longrightarrow> pe_enum p' = pe_enum p"
  using assms by (auto simp: rept_prop_def Let_def split: dp_prop.splits dp_value.splits if_splits)

lemma rept_update_shape:
  assumes "dp_rept_update m rt dp node flags = (same, node')"
  shows "prop_tp (d_prop node') = prop_tp (d_prop node)" "prop_tp (d_prop node) = PROP_ENUM \<Longrightarrow> pe_enum (d_prop node') = pe_enum (d_prop node)"
proof -
  have "d_prop node' = d_prop node \<or> (\<exists>need upd. rept_prop m need (o_value dp) (d_prop node) = (upd, d_prop node'))"
    using assms by (auto simp: dp_rept_update_def Let_def split: dp_type.splits prod.splits if_splits)
  then show "prop_tp (d_prop node') = prop_tp (d_prop node)"
    "prop_tp (d_prop node) = PROP_ENUM \<Longrightarrow> pe_enum (d_prop node') = pe_enum (d_prop node)" by (auto dest: rept_prop_shape)
qed

lemma step_node_shape:
  assumes "step_node num m rt flags pre dp node = (rep, node')"
  shows "prop_tp (d_prop node') = prop_tp (d_prop node)" "prop_tp (d_prop node) = PROP_ENUM \<Longrightarrow> pe_enum (d_prop node') = pe_enum (d_prop node)"
  using assms rept_update_shape [of m rt dp node flags] by (auto simp: step_node_def Let_def split: if_splits prod.splits)

lemma rept_len_shape:
  "prop_tp p' = prop_tp p \<Longrightarrow> (prop_tp p = PROP_ENUM \<Longrightarrow> pe_enum p' = pe_enum p) \<Longrightarrow> dp_tp (o_value dp) = prop_tp p \<Longrightarrow> rept_len dp p' = rept_len dp p"
  by (auto simp: rept_len_def split: dp_value.splits)

lemma rept_len_error [simp]: "rept_len dp p \<noteq> Inl OPRT_OK"
  by (auto simp: rept_len_def split: dp_value.split)

section \<open>The whole check\<close>

definition reported :: "nat \<Rightarrow> bool \<Rightarrow> dp_rept_type \<Rightarrow> u32 \<Rightarrow> dp_schema \<Rightarrow> dp_obj \<Rightarrow> bool" where
  "reported num m rt flags schema dp \<longleftrightarrow>
     (case dp_node_find schema (uint (o_id dp)) of None \<Rightarrow> False | Some i \<Rightarrow> fst (step_node num m rt flags (preprocess schema) dp (s_node schema ! i)))"

definition need_len :: "dp_schema \<Rightarrow> dp_obj \<Rightarrow> nat" where
  "need_len schema dp =
     (case dp_node_find schema (uint (o_id dp)) of None \<Rightarrow> 0 | Some i \<Rightarrow> (case rept_len dp (d_prop (s_node schema ! i)) of Inl _ \<Rightarrow> 0 | Inr n \<Rightarrow> n))"

text \<open>The state of a point afterwards.\<close>

definition point_result :: "nat \<Rightarrow> bool \<Rightarrow> dp_rept_type \<Rightarrow> u32 \<Rightarrow> dp_schema \<Rightarrow> dp_schema \<Rightarrow> dp_obj \<Rightarrow> bool" where
  "point_result num m rt flags schema schema' dp \<longleftrightarrow>
     (case dp_node_find schema (uint (o_id dp)) of
        None \<Rightarrow> True
      | Some i \<Rightarrow> dp_tp (o_value dp) = prop_tp (d_prop (s_node schema ! i))
          \<and> s_node schema' ! i = snd (step_node num m rt flags (preprocess schema) dp (s_node schema ! i))
          \<and> (reported num m rt flags schema dp \<longrightarrow> \<not> isl (rept_len dp (d_prop (s_node schema ! i)))))"

text \<open>Updating one point does not touch what an object of another identifier meets.\<close>

lemma other_point:
  assumes "dp_node_find schema (uint a) = Some i" "d_id n = d_id (s_node schema ! i)" "o_id dp \<noteq> a"
  shows "reported num m rt flags (upd_node i (\<lambda>_. n) schema) dp = reported num m rt flags schema dp"
    "need_len (upd_node i (\<lambda>_. n) schema) dp = need_len schema dp"
    "dp_node_find schema (uint (o_id dp)) \<noteq> Some i"
    "point_result num m rt flags (upd_node i (\<lambda>_. n) schema) schema' dp = point_result num m rt flags schema schema' dp"
proof -
  have ne: "j \<noteq> i \<and> j < length (s_node schema)" if "dp_node_find schema (uint (o_id dp)) = Some j" for j
    using node_find_Some [OF that] node_find_Some [OF assms(1)] assms(3) by (auto simp: word_uint_eq_iff)
  show "reported num m rt flags (upd_node i (\<lambda>_. n) schema) dp = reported num m rt flags schema dp"
    "need_len (upd_node i (\<lambda>_. n) schema) dp = need_len schema dp"
    "dp_node_find schema (uint (o_id dp)) \<noteq> Some i"
    "point_result num m rt flags (upd_node i (\<lambda>_. n) schema) schema' dp = point_result num m rt flags schema schema' dp"
    using ne assms(2) by (auto simp: reported_def need_len_def point_result_def upd_node_nth split: option.split)
qed

text \<open>
  The result of the loop for objects with distinct identifiers: the identifiers accepted, the length counted, and the points. \<open>m\<close> says
  whether memory is granted.
\<close>

definition loop_result :: "nat \<Rightarrow> bool \<Rightarrow> dp_rept_type \<Rightarrow> u32 \<Rightarrow> dp_obj list \<Rightarrow> dp_schema \<Rightarrow> dp_rept_valid \<Rightarrow> dp_schema \<Rightarrow> dp_rept_valid \<Rightarrow> bool" where
  "loop_result num m rt flags dps schema v schema' v' \<longleftrightarrow>
     map d_id (s_node schema') = map d_id (s_node schema) \<and> preprocess schema' = preprocess schema \<and> devid schema' = devid schema
     \<and> v_dpid v' = v_dpid v @ map o_id (filter (reported num m rt flags schema) dps)
     \<and> v_len v' = v_len v + of_nat (sum_list (map (need_len schema) (filter (reported num m rt flags schema) dps)))
     \<and> (\<forall>dp \<in> set dps. point_result num m rt flags schema schema' dp)
     \<and> (\<forall>i < length (s_node schema). (\<forall>dp \<in> set dps. dp_node_find schema (uint (o_id dp)) \<noteq> Some i) \<longrightarrow> s_node schema' ! i = s_node schema ! i)"

lemma valid_loop_result:
  assumes "valid_loop num (\<lambda>_. m) rt flags k dps schema v = (OPRT_OK, schema', v')" "distinct (map o_id dps)"
  shows "loop_result num m rt flags dps schema v schema' v'"
  using assms
proof (induction dps arbitrary: k schema v)
  case Nil
  then show ?case by (simp add: loop_result_def)
next
  case (Cons dp dps)
  show ?case
  proof (cases "dp_node_find schema (uint (o_id dp))")
    case None
    with Cons.prems have "loop_result num m rt flags dps schema v schema' v'" by (intro Cons.IH) (auto simp: valid_loop_Cons)
    moreover have "point_result num m rt flags schema schema' dp" using None by (simp add: point_result_def)
    ultimately show ?thesis using None by (simp add: loop_result_def reported_def)
  next
    case (Some i)
    obtain rep node where st: "step_node num m rt flags (preprocess schema) dp (s_node schema ! i) = (rep, node)" by force
    define up where "up = upd_node i (\<lambda>_. node) schema"
    have id: "d_id node = d_id (s_node schema ! i)" by (rule step_node_id [OF st])
    have tp: "dp_tp (o_value dp) = prop_tp (d_prop (s_node schema ! i))" by (rule ccontr) (use Cons.prems(1) Some in \<open>simp add: valid_loop_Cons\<close>)
    note len = rept_len_shape [OF step_node_shape [OF st] tp]
    have rp: "reported num m rt flags schema dp = rep" using Some st by (simp add: reported_def)
    have ne: "o_id d \<noteq> o_id dp" if "d \<in> set dps" for d using Cons.prems(2) that by (metis distinct.simps(2) image_eqI image_set list.simps(9))
    have oth: "reported num m rt flags up d = reported num m rt flags schema d" "need_len up d = need_len schema d"
      "dp_node_find schema (uint (o_id d)) \<noteq> Some i" "point_result num m rt flags up schema' d = point_result num m rt flags schema schema' d"
      if "d \<in> set dps" for d
      using other_point [OF Some id ne [OF that]] unfolding up_def by simp_all
    have up: "map d_id (s_node up) = map d_id (s_node schema)" "dp_node_find up = dp_node_find schema" "preprocess up = preprocess schema"
      "devid up = devid schema" "s_node up ! i = node" "length (s_node up) = length (s_node schema)"
      using id node_find_Some(1) [OF Some] by (simp_all add: up_def upd_node_ids upd_node_nth)
    have fil: "filter (reported num m rt flags up) dps = filter (reported num m rt flags schema) dps"
      "map (need_len up) (filter (reported num m rt flags schema) dps) = map (need_len schema) (filter (reported num m rt flags schema) dps)"
      using oth by (auto intro: filter_cong)
    define w where "w = (if rep then v\<lparr>v_len := v_len v + of_nat (need_len schema dp), v_timelen := (if o_time dp \<noteq> 0 then v_timelen v + 30 else v_timelen v),
        v_dpid := v_dpid v @ [o_id dp]\<rparr> else v)"
    have "valid_loop num (\<lambda>_. m) rt flags (Suc k) dps up w = (OPRT_OK, schema', v') \<and> (rep \<longrightarrow> (\<not> isl (rept_len dp (d_prop (s_node schema ! i)))))"
      using Cons.prems(1) Some tp len by (auto simp: valid_loop_Cons st up_def w_def need_len_def split: sum.splits if_splits)
    then have IH: "loop_result num m rt flags dps up w schema' v'" and ln: "rep \<Longrightarrow> \<not> isl (rept_len dp (d_prop (s_node schema ! i)))"
      using Cons.IH Cons.prems(2) by auto
    have "s_node schema' ! i = node" using IH oth(3) node_find_Some(1) [OF Some] by (simp add: loop_result_def up)
    then have "point_result num m rt flags schema schema' dp" using Some st tp ln by (simp add: point_result_def rp)
    moreover have "s_node schema' ! j = s_node schema ! j" if "j < length (s_node schema)" "j \<noteq> i" "\<forall>d \<in> set dps. dp_node_find schema (uint (o_id d)) \<noteq> Some j" for j
      using IH that by (simp add: loop_result_def up) (simp add: up_def upd_node_nth)
    moreover have "v_dpid v' = v_dpid v @ map o_id (filter (reported num m rt flags schema) (dp # dps))"
      "v_len v' = v_len v + of_nat (sum_list (map (need_len schema) (filter (reported num m rt flags schema) (dp # dps))))"
      using IH by (simp_all add: loop_result_def fil rp w_def add.assoc)
    ultimately show ?thesis using IH Some oth(4) unfolding loop_result_def by (auto simp: up)
  qed
qed

section \<open>Acknowledged reports\<close>

primrec prop_value :: "dp_prop \<Rightarrow> dp_value option" where
  "prop_value (Prop_Bool v) = Some (DP_Bool v)"
| "prop_value (Prop_Int mn mx sc v) = Some (DP_Value v)"
| "prop_value (Prop_Str mx cur v) = map_option DP_Str v"
| "prop_value (Prop_Enum es v) = Some (DP_Enum v)"
| "prop_value (Prop_Bitmap mx v) = Some (DP_Bitmap v)"

text \<open>What the acknowledgement of a report does to the points it lists.\<close>

definition acknowledged :: "byte list \<Rightarrow> dp_schema \<Rightarrow> dp_schema" where
  "acknowledged ids schema = fold (\<lambda>dpid s. dp_pv_stat_set s dpid PV_STAT_CLOUD) ids schema"

lemma pv_set_find [simp]: "dp_node_find (dp_pv_stat_set schema a st) = dp_node_find schema"
proof (cases "dp_node_find schema (uint a)")
  case (Some i)
  have "map d_id (s_node (dp_pv_stat_set schema a st)) = map d_id (s_node schema)"
    using Some node_find_Some(1) [OF Some] by (simp add: dp_pv_stat_set_def upd_node_def map_update list_update_same_conv)
  then show ?thesis by (rule node_find_ids)
qed (simp add: dp_pv_stat_set_def)

lemma pv_set_fields [simp]:
  "preprocess (dp_pv_stat_set schema a st) = preprocess schema" "length (s_node (dp_pv_stat_set schema a st)) = length (s_node schema)"
  by (simp_all add: dp_pv_stat_set_def split: option.split)

lemma acknowledged_find [simp]: "dp_node_find (acknowledged ids schema) = dp_node_find schema"
  "preprocess (acknowledged ids schema) = preprocess schema" "length (s_node (acknowledged ids schema)) = length (s_node schema)"
  by (induction ids arbitrary: schema) (simp_all add: acknowledged_def)

lemma acknowledged_nth:
  assumes "dp_node_find schema (uint a) = Some i"
  shows "s_node (acknowledged ids schema) ! i = (if a \<in> set ids then (s_node schema ! i)\<lparr>pv_stat := PV_STAT_CLOUD\<rparr> else s_node schema ! i)"
  using assms
proof (induction ids arbitrary: schema)
  case (Cons b ids)
  have "s_node (dp_pv_stat_set schema b PV_STAT_CLOUD) ! i = (if a = b then (s_node schema ! i)\<lparr>pv_stat := PV_STAT_CLOUD\<rparr> else s_node schema ! i)"
  proof (cases "dp_node_find schema (uint b)")
    case (Some j)
    then have "j = i \<longleftrightarrow> a = b" using node_find_Some [OF Some] node_find_Some [OF Cons.prems] Cons.prems by (auto simp: word_uint_eq_iff)
    then show ?thesis using Some node_find_Some(1) [OF Cons.prems] by (auto simp: dp_pv_stat_set_def upd_node_def nth_list_update)
  qed (use Cons.prems in \<open>auto simp: dp_pv_stat_set_def\<close>)
  then show ?case using Cons.IH [of "dp_pv_stat_set schema b PV_STAT_CLOUD"] Cons.prems by (simp add: acknowledged_def)
qed (simp add: acknowledged_def)

text \<open>The update of an object that has passed the check of its type, when memory is granted.\<close>

definition enum_ok :: "dp_value \<Rightarrow> dp_prop \<Rightarrow> bool" where
  "enum_ok v p \<longleftrightarrow> (case v of DP_Enum e \<Rightarrow> e < length (pe_enum p) | _ \<Rightarrow> True)"

lemma rept_prop_value:
  assumes "dp_tp v = prop_tp p" "rept_prop True need v p = (upd, p')" "enum_ok v p"
  shows "prop_value p' = Some v" "upd \<longleftrightarrow> need \<or> prop_value p \<noteq> Some v" "\<not> upd \<Longrightarrow> p' = p"
proof -
  have "prop_value p' = Some v \<and> (upd \<longleftrightarrow> need \<or> prop_value p \<noteq> Some v) \<and> (\<not> upd \<longrightarrow> p' = p)"
    using assms by (cases p; cases v) (auto simp: rept_prop_def enum_ok_def Let_def split: if_splits)
  then show "prop_value p' = Some v" "upd \<longleftrightarrow> need \<or> prop_value p \<noteq> Some v" "\<not> upd \<Longrightarrow> p' = p" by blast+
qed

lemma rept_prop_same:
  assumes "prop_value p = Some v"
  shows "rept_prop m False v p = (False, p)"
  using assms by (cases p) (auto simp: rept_prop_def)

lemma type_check_prop:
  assumes "rept_prop m need (o_value dp) q = (upd, p)"
  shows "dp_type_check num rt dp (node\<lparr>d_prop := p, pv_stat := st\<rparr>) = dp_type_check num rt dp (node\<lparr>d_prop := q\<rparr>)"
  using assms by (cases q; cases "o_value dp") (auto simp: dp_type_check_def rept_prop_def Let_def split: dp_type.split if_splits)

lemma type_check_rept:
  assumes "rept_prop m need (o_value dp) (d_prop node) = (upd, p)"
  shows "dp_type_check num rt dp (node\<lparr>d_prop := p, pv_stat := st\<rparr>) = dp_type_check num rt dp node"
  using type_check_prop [OF assms, of num rt] by simp

lemma rept_update_obj:
  fixes flags :: u32
  assumes "d_type node = T_OBJ"
  defines "need \<equiv> pv_stat node = PV_STAT_INVALID \<or> pv_stat node = PV_STAT_LOCAL \<or> d_trig node = TRIG_DIRECT \<or> bit flags 0"
  shows "dp_rept_update m T_OBJ_REPT dp node flags =
    (case rept_prop m need (o_value dp) (d_prop node) of (upd, p) \<Rightarrow>
       (\<not> upd, node\<lparr>d_prop := p, pv_stat := if upd then PV_STAT_LOCAL else pv_stat node\<rparr>))"
  using assms by (simp add: dp_rept_update_def Let_def split: prod.split)

lemma type_check_obj:
  assumes "dp_type_check num T_OBJ_REPT dp node"
  shows "d_type node = T_OBJ" "dp_tp (o_value dp) = prop_tp (d_prop node) \<Longrightarrow> enum_ok (o_value dp) (d_prop node)"
  using assms by (auto simp: dp_type_check_def enum_ok_def split: if_splits dp_prop.splits dp_value.splits)

text \<open>
  A point that has been reported and acknowledged has the value of the object. The same object is reported again only when the point is set to report every
  time, and then its value stays.
\<close>

lemma rept_prop_again:
  assumes "rept_prop True need v q = (True, p)" "prop_value p = Some v" "enum_ok v p"
  shows "rept_prop m True v p = (True, p)"
  using assms by (cases q; cases v) (auto simp: rept_prop_def enum_ok_def Let_def split: if_splits)

lemma step_again:
  assumes "step_node num True T_OBJ_REPT flags pre dp node = (rep, node')" "dp_tp (o_value dp) = prop_tp (d_prop node)" "\<not> bit fl 0"
  defines "node2 \<equiv> if rep then node'\<lparr>pv_stat := PV_STAT_CLOUD\<rparr> else node'"
  shows "step_node num m T_OBJ_REPT fl pre dp node2 =
      (rep \<and> d_trig node = TRIG_DIRECT, if rep \<and> d_trig node = TRIG_DIRECT then node2\<lparr>pv_stat := PV_STAT_LOCAL\<rparr> else node2)
    \<and> (rep \<longrightarrow> prop_value (d_prop node2) = Some (o_value dp))"
proof (cases "dp_type_check num T_OBJ_REPT dp node \<and> \<not> (pre \<and> d_passive node = PSV_TRUE)")
  case False
  then show ?thesis using assms(1) by (auto simp: step_node_def node2_def split: if_splits)
next
  case True
  note tc = type_check_obj [OF conjunct1 [OF True]]
  define need where "need \<longleftrightarrow> pv_stat node = PV_STAT_INVALID \<or> pv_stat node = PV_STAT_LOCAL \<or> d_trig node = TRIG_DIRECT \<or> bit flags 0"
  obtain p where p: "rept_prop True need (o_value dp) (d_prop node) = (rep, p)"
    and n: "node' = node\<lparr>d_prop := p, pv_stat := if rep then PV_STAT_LOCAL else pv_stat node\<rparr>"
    using assms(1) True unfolding step_node_def rept_update_obj [OF tc(1)] need_def [symmetric] by (auto split: prod.splits)
  note v = rept_prop_value [OF assms(2) p tc(2) [OF assms(2)]]
  define st where "st = (if rep then PV_STAT_CLOUD else pv_stat node)"
  have e: "node2 = node\<lparr>d_prop := p, pv_stat := st\<rparr>" using n by (auto simp: st_def node2_def)
  have st: "st \<noteq> PV_STAT_INVALID" "st \<noteq> PV_STAT_LOCAL" "d_trig node = TRIG_DIRECT \<Longrightarrow> rep" using v(2) by (auto simp: st_def need_def)
  have ty: "d_type (node\<lparr>d_prop := p, pv_stat := st\<rparr>) = T_OBJ" using tc(1) by simp
  have en: "enum_ok (o_value dp) p"
    using tc(2) [OF assms(2)] rept_prop_shape [OF p] assms(2) by (auto simp: enum_ok_def split: dp_value.splits)
  have "rept_prop m (d_trig node = TRIG_DIRECT) (o_value dp) p = (d_trig node = TRIG_DIRECT, p)"
    using rept_prop_same [OF v(1)] rept_prop_again [OF _ v(1) en] p st(3) by (cases "d_trig node = TRIG_DIRECT") auto
  then have "step_node num m T_OBJ_REPT fl pre dp node2 = (d_trig node = TRIG_DIRECT, if d_trig node = TRIG_DIRECT then node2\<lparr>pv_stat := PV_STAT_LOCAL\<rparr> else node2)"
    using True assms(3) st(1,2) unfolding e step_node_def type_check_rept [OF p] rept_update_obj [OF ty] by simp
  then show ?thesis using v(1) e st(3) by auto
qed

text \<open>Objects none of which is reported leave everything as it is.\<close>

lemma quiet_loop:
  assumes "\<forall>dp \<in> set dps. \<forall>i. dp_node_find schema (uint (o_id dp)) = Some i \<longrightarrow>
      dp_tp (o_value dp) = prop_tp (d_prop (s_node schema ! i))
      \<and> (\<forall>m. step_node num m rt flags (preprocess schema) dp (s_node schema ! i) = (False, s_node schema ! i))"
  shows "valid_loop num mem rt flags k dps schema v = (OPRT_OK, schema, v)"
  using assms
proof (induction dps arbitrary: k)
  case (Cons dp dps)
  have "valid_loop num mem rt flags (Suc k) dps schema v = (OPRT_OK, schema, v)" by (rule Cons.IH) (use Cons.prems in simp)
  then show ?case using Cons.prems by (cases "dp_node_find schema (uint (o_id dp))") (simp_all add: valid_loop_Cons)
qed simp

text \<open>Objects of the right types whose texts have a length are all looked at.\<close>

lemma valid_loop_ok:
  assumes "\<forall>dp \<in> set dps. \<forall>i. dp_node_find schema (uint (o_id dp)) = Some i \<longrightarrow>
      dp_tp (o_value dp) = prop_tp (d_prop (s_node schema ! i))
      \<and> (fst (step_node num m rt flags (preprocess schema) dp (s_node schema ! i)) \<longrightarrow> \<not> isl (rept_len dp (d_prop (s_node schema ! i))))"
    and "distinct (map o_id dps)"
  shows "\<exists>schema' v'. valid_loop num (\<lambda>_. m) rt flags k dps schema v = (OPRT_OK, schema', v')"
  using assms
proof (induction dps arbitrary: k schema v)
  case (Cons dp dps)
  show ?case
  proof (cases "dp_node_find schema (uint (o_id dp))")
    case None
    then show ?thesis using Cons.IH [of schema] Cons.prems by (simp add: valid_loop_Cons)
  next
    case (Some i)
    obtain rep node where st: "step_node num m rt flags (preprocess schema) dp (s_node schema ! i) = (rep, node)" by force
    have tp: "dp_tp (o_value dp) = prop_tp (d_prop (s_node schema ! i))" "rep \<Longrightarrow> \<not> isl (rept_len dp (d_prop (s_node schema ! i)))"
      using Cons.prems(1) Some st by auto
    note len = rept_len_shape [OF step_node_shape [OF st] tp(1)]
    have id: "d_id node = d_id (s_node schema ! i)" by (rule step_node_id [OF st])
    have ne: "j \<noteq> i \<and> j < length (s_node schema)" if "d \<in> set dps" "dp_node_find schema (uint (o_id d)) = Some j" for d j
    proof -
      have "o_id d \<noteq> o_id dp" using Cons.prems(2) that(1) by (metis distinct.simps(2) image_eqI image_set list.simps(9))
      then show ?thesis using other_point(3) [OF Some id] that(2) node_find_Some(1) [OF that(2)] by auto
    qed
    have "\<exists>schema' v'. valid_loop num (\<lambda>_. m) rt flags (Suc k) dps (upd_node i (\<lambda>_. node) schema) w = (OPRT_OK, schema', v')" for w
      using Cons.prems id ne by (intro Cons.IH) (simp_all add: upd_node_nth)
    then show ?thesis using Some st tp len by (cases "rept_len dp (d_prop (s_node schema ! i))") (auto simp: valid_loop_Cons Let_def)
  qed
qed simp

lemma check_loop:
  assumes "dp_rept_valid_check num mem schema dpin v = (OPRT_OK, schema', v')"
  shows "valid_loop num mem (rept_type dpin) (r_flags dpin) 0 (r_dps dpin) schema v = (OPRT_OK, schema', v')" "v_dpid v' \<noteq> []"
  using assms by (auto simp: dp_rept_valid_check_def split: prod.splits if_splits)

section \<open>Properties of the check\<close>

text \<open>The points of a schema that are set to report every time.\<close>

definition direct :: "dp_schema \<Rightarrow> byte \<Rightarrow> bool" where
  "direct schema a \<longleftrightarrow> (case dp_node_find schema (uint a) of None \<Rightarrow> False | Some i \<Rightarrow> d_trig (s_node schema ! i) = TRIG_DIRECT)"

text \<open>
  What a point looks like after a report that was accepted and acknowledged: its type, what the same object would do to it, and its value.
\<close>

definition settled :: "nat \<Rightarrow> u32 \<Rightarrow> bool \<Rightarrow> bool \<Rightarrow> dp_schema \<Rightarrow> dp_obj \<Rightarrow> nat \<Rightarrow> bool" where
  "settled num fl listed dir cloud dp i \<longleftrightarrow>
     dp_tp (o_value dp) = prop_tp (d_prop (s_node cloud ! i))
     \<and> (\<forall>m. step_node num m T_OBJ_REPT fl (preprocess cloud) dp (s_node cloud ! i) =
          (listed \<and> dir, if listed \<and> dir then (s_node cloud ! i)\<lparr>pv_stat := PV_STAT_LOCAL\<rparr> else s_node cloud ! i))
     \<and> (listed \<longrightarrow> prop_value (d_prop (s_node cloud ! i)) = Some (o_value dp) \<and> \<not> isl (rept_len dp (d_prop (s_node cloud ! i))))"

lemma report_settles:
  assumes "dp_rept_valid_check num (\<lambda>_. True) schema \<lparr>rept_type = T_OBJ_REPT, r_flags = flags, r_dps = dps\<rparr> v = (OPRT_OK, schema', v')"
    and "v_dpid v = []" "distinct (map o_id dps)" "\<not> bit fl 0"
  defines "cloud \<equiv> acknowledged (v_dpid v') schema'"
  shows "dp_node_find cloud = dp_node_find schema" "v_dpid v' = map o_id (filter (reported num True T_OBJ_REPT flags schema) dps)"
    "\<And>dp. dp \<in> set dps \<Longrightarrow> o_id dp \<in> set (v_dpid v') \<longleftrightarrow> reported num True T_OBJ_REPT flags schema dp"
    "\<And>dp i. dp \<in> set dps \<Longrightarrow> dp_node_find schema (uint (o_id dp)) = Some i \<Longrightarrow>
       settled num fl (reported num True T_OBJ_REPT flags schema dp) (direct schema (o_id dp)) cloud dp i"
proof -
  note R = valid_loop_result [OF check_loop(1) [OF assms(1), simplified] assms(3), unfolded loop_result_def]
  then have ids: "map d_id (s_node schema') = map d_id (s_node schema)" and pre: "preprocess schema' = preprocess schema"
    and pts: "\<forall>dp \<in> set dps. point_result num True T_OBJ_REPT flags schema schema' dp" by auto
  show dpid: "v_dpid v' = map o_id (filter (reported num True T_OBJ_REPT flags schema) dps)" using R assms(2) by auto
  show "dp_node_find cloud = dp_node_find schema" using node_find_ids [OF ids] by (simp add: cloud_def)
  show mem: "o_id dp \<in> set (v_dpid v') \<longleftrightarrow> reported num True T_OBJ_REPT flags schema dp" if "dp \<in> set dps" for dp
    using that assms(3) unfolding dpid by (auto simp: distinct_map inj_on_def)
  fix dp i assume d: "dp \<in> set dps" and i: "dp_node_find schema (uint (o_id dp)) = Some i"
  let ?node = "s_node schema ! i"
  obtain rep node' where st: "step_node num True T_OBJ_REPT flags (preprocess schema) dp ?node = (rep, node')" by force
  have tp: "dp_tp (o_value dp) = prop_tp (d_prop ?node)" and n: "s_node schema' ! i = node'" using pts d i st by (auto simp: point_result_def)
  have rp: "reported num True T_OBJ_REPT flags schema dp \<longleftrightarrow> rep" using i st by (simp add: reported_def)
  have c: "s_node cloud ! i = (if rep then node'\<lparr>pv_stat := PV_STAT_CLOUD\<rparr> else node')"
    using acknowledged_nth [of schema' "o_id dp" i "v_dpid v'"] i node_find_ids [OF ids] mem [OF d] rp n by (simp add: cloud_def)
  have "rep \<longrightarrow> \<not> isl (rept_len dp (d_prop ?node))" using pts d i rp by (auto simp: point_result_def)
  then have l: "rep \<longrightarrow> \<not> isl (rept_len dp (d_prop (s_node cloud ! i)))" using rept_len_shape [OF step_node_shape [OF st] tp] by (simp add: c)
  have "prop_tp (d_prop (s_node cloud ! i)) = prop_tp (d_prop ?node)" using step_node_shape(1) [OF st] by (simp add: c)
  moreover have "preprocess cloud = preprocess schema" using pre by (simp add: cloud_def)
  ultimately show "settled num fl (reported num True T_OBJ_REPT flags schema dp) (direct schema (o_id dp)) cloud dp i"
    using step_again [OF st tp assms(4), folded c] tp l i unfolding settled_def rp direct_def by simp
qed

text \<open>The same objects once more.\<close>

lemma settled_loop:
  assumes "\<And>dp i. dp \<in> set dps \<Longrightarrow> dp_node_find cloud (uint (o_id dp)) = Some i \<Longrightarrow> settled num fl (listed dp) (dir dp) cloud dp i"
    and "\<And>dp. dp \<in> set dps \<Longrightarrow> listed dp \<Longrightarrow> dp_node_find cloud (uint (o_id dp)) \<noteq> None" "distinct (map o_id dps)" "v_dpid v = []"
  obtains schema' v' where "valid_loop num (\<lambda>_. m) T_OBJ_REPT fl 0 dps cloud v = (OPRT_OK, schema', v')"
    "v_dpid v' = map o_id (filter (\<lambda>dp. listed dp \<and> dir dp) dps)" "map d_prop (s_node schema') = map d_prop (s_node cloud)"
    "filter (\<lambda>dp. listed dp \<and> dir dp) dps = [] \<Longrightarrow> schema' = cloud \<and> v' = v"
proof -
  have "\<exists>s2 v2. valid_loop num (\<lambda>_. m) T_OBJ_REPT fl 0 dps cloud v = (OPRT_OK, s2, v2)"
    by (rule valid_loop_ok [OF _ assms(3)]) (use assms(1) in \<open>auto simp: settled_def\<close>)
  then obtain s2 v2 where l: "valid_loop num (\<lambda>_. m) T_OBJ_REPT fl 0 dps cloud v = (OPRT_OK, s2, v2)" by blast
  note L = valid_loop_result [OF l assms(3), unfolded loop_result_def]
  have rep: "reported num m T_OBJ_REPT fl cloud dp \<longleftrightarrow> listed dp \<and> dir dp" if "dp \<in> set dps" for dp
    using assms(1) [OF that] assms(2) [OF that] by (cases "dp_node_find cloud (uint (o_id dp))") (auto simp: reported_def settled_def)
  have len: "length (s_node s2) = length (s_node cloud)" using L map_eq_imp_length_eq by blast
  have "d_prop (s_node s2 ! i) = d_prop (s_node cloud ! i)" if "i < length (s_node cloud)" for i
  proof (cases "\<exists>dp \<in> set dps. dp_node_find cloud (uint (o_id dp)) = Some i")
    case True
    then obtain dp where dp: "dp \<in> set dps" "dp_node_find cloud (uint (o_id dp)) = Some i" by blast
    then have "s_node s2 ! i = snd (step_node num m T_OBJ_REPT fl (preprocess cloud) dp (s_node cloud ! i))" using L by (auto simp: point_result_def)
    then show ?thesis using assms(1) [OF dp] by (auto simp: settled_def)
  qed (use L that in auto)
  then have p: "map d_prop (s_node s2) = map d_prop (s_node cloud)" using len by (intro nth_equalityI) simp_all
  have q: "s2 = cloud \<and> v2 = v" if "filter (\<lambda>dp. listed dp \<and> dir dp) dps = []"
  proof -
    have "\<forall>dp \<in> set dps. \<not> (listed dp \<and> dir dp)" using that by (auto simp: filter_empty_conv)
    then have "valid_loop num (\<lambda>_. m) T_OBJ_REPT fl 0 dps cloud v = (OPRT_OK, cloud, v)"
      using assms(1) by (intro quiet_loop) (auto simp: settled_def)
    then show ?thesis using l by simp
  qed
  have "filter (reported num m T_OBJ_REPT fl cloud) dps = filter (\<lambda>dp. listed dp \<and> dir dp) dps" using rep by (intro filter_cong) auto
  then have "v_dpid v2 = map o_id (filter (\<lambda>dp. listed dp \<and> dir dp) dps)" using L assms(4) by simp
  with l p q show ?thesis by (intro that)
qed

text \<open>
  C23. A report of objects with distinct identifiers that the check accepts leaves each listed value in the cache. Once the report has been
  acknowledged, the same objects are reported again without the flag that forces a report: exactly those of the listed points are reported that are set to report every time, and
  no value changes; when there are none of these, nothing is reported and nothing changes.
\<close>

theorem report_once:
  fixes m :: bool
  assumes "dp_rept_valid_check num (\<lambda>_. True) schema \<lparr>rept_type = T_OBJ_REPT, r_flags = flags, r_dps = dps\<rparr> v = (OPRT_OK, schema', v')"
    and "v_dpid v = []" "distinct (map o_id dps)" "\<not> bit fl 0"
  defines "cloud \<equiv> acknowledged (v_dpid v') schema'"
  defines "again \<equiv> dp_rept_valid_check num (\<lambda>_. m) cloud \<lparr>rept_type = T_OBJ_REPT, r_flags = fl, r_dps = dps\<rparr> v"
  shows "(\<forall>dp \<in> set dps. o_id dp \<in> set (v_dpid v') \<longrightarrow>
        (\<exists>i. dp_node_find cloud (uint (o_id dp)) = Some i \<and> prop_value (d_prop (s_node cloud ! i)) = Some (o_value dp)))
    \<and> v_dpid (snd (snd again)) = filter (direct schema) (v_dpid v')
    \<and> map d_prop (s_node (fst (snd again))) = map d_prop (s_node cloud)
    \<and> (if filter (direct schema) (v_dpid v') = [] then again = (OPRT_SVC_DP_ID_NOT_FOUND, cloud, v) else fst again = OPRT_OK)"
proof -
  note R = report_settles [OF assms(1-4), folded cloud_def]
  let ?rep = "reported num True T_OBJ_REPT flags schema"
  have found: "\<exists>i. dp_node_find cloud (uint (o_id dp)) = Some i" if "?rep dp" for dp using that by (auto simp: R(1) reported_def split: option.splits)
  have A: "\<exists>i. dp_node_find cloud (uint (o_id dp)) = Some i \<and> prop_value (d_prop (s_node cloud ! i)) = Some (o_value dp)"
    if dp: "dp \<in> set dps" "o_id dp \<in> set (v_dpid v')" for dp
  proof -
    have r: "?rep dp" using dp R(3) by blast
    then obtain i where i: "dp_node_find cloud (uint (o_id dp)) = Some i" using found by blast
    then have "settled num fl (?rep dp) (direct schema (o_id dp)) cloud dp i" using R(4) [OF dp(1)] by (simp add: R(1))
    then show ?thesis using i r by (auto simp: settled_def)
  qed
  have f: "map o_id (filter (\<lambda>dp. ?rep dp \<and> direct schema (o_id dp)) dps) = filter (direct schema) (v_dpid v')"
    unfolding R(2) by (induction dps) auto
  have n: "filter (direct schema) (v_dpid v') = [] \<longleftrightarrow> filter (\<lambda>dp. ?rep dp \<and> direct schema (o_id dp)) dps = []"
    unfolding f [symmetric] by simp
  obtain s2 v2 where l: "valid_loop num (\<lambda>_. m) T_OBJ_REPT fl 0 dps cloud v = (OPRT_OK, s2, v2)"
    "v_dpid v2 = map o_id (filter (\<lambda>dp. ?rep dp \<and> direct schema (o_id dp)) dps)" "map d_prop (s_node s2) = map d_prop (s_node cloud)"
    "filter (\<lambda>dp. ?rep dp \<and> direct schema (o_id dp)) dps = [] \<Longrightarrow> s2 = cloud \<and> v2 = v"
  proof (rule settled_loop [of dps cloud num fl ?rep "\<lambda>dp. direct schema (o_id dp)" v m])
    show "settled num fl (?rep dp) (direct schema (o_id dp)) cloud dp i" if "dp \<in> set dps" "dp_node_find cloud (uint (o_id dp)) = Some i" for dp i
      using R(4) [OF that(1)] that(2) by (simp add: R(1))
    show "dp_node_find cloud (uint (o_id dp)) \<noteq> None" if "dp \<in> set dps" "?rep dp" for dp using found [OF that(2)] by simp
  qed (use assms(2,3) in auto)
  have "again = (if v_dpid v2 = [] then OPRT_SVC_DP_ID_NOT_FOUND else OPRT_OK, s2, v2)"
    using l(1) by (simp add: again_def dp_rept_valid_check_def)
  moreover have "s2 = cloud \<and> v2 = v" if "filter (direct schema) (v_dpid v') = []" using l(4) n that by blast
  ultimately show ?thesis using A l(2,3) f by auto
qed

definition report_demo :: dp_schema where
  "report_demo = \<lparr>devid = ''dev'', attach_dp_if = True, preprocess = False,
     s_node = [zero_node\<lparr>d_id := 1\<rparr>, zero_node\<lparr>d_id := 2, d_prop := Prop_Int 0 100 0 0\<rparr>, zero_node\<lparr>d_id := 3, d_prop := Prop_Str 10 0 None\<rparr>]\<rparr>"

definition objs_demo :: "dp_obj list" where
  "objs_demo = [\<lparr>o_id = 3, o_value = DP_Str ''hi'', o_time = 0\<rparr>, \<lparr>o_id = 2, o_value = DP_Value 300, o_time = 0\<rparr>, \<lparr>o_id = 1, o_value = DP_Bool True, o_time = 0\<rparr>]"

abbreviation valid_zero :: dp_rept_valid where "valid_zero \<equiv> \<lparr>v_len = 0, v_timelen = 0, v_dpid = []\<rparr>"

definition reported_demo :: dp_schema where
  "reported_demo = report_demo\<lparr>s_node := [zero_node\<lparr>d_id := 1, d_prop := Prop_Bool True, pv_stat := PV_STAT_LOCAL\<rparr>,
     zero_node\<lparr>d_id := 2, d_prop := Prop_Int 0 100 0 0\<rparr>, zero_node\<lparr>d_id := 3, d_prop := Prop_Str 10 2 (Some ''hi''), pv_stat := PV_STAT_LOCAL\<rparr>]\<rparr>"

lemma report_demo_check:
  "dp_rept_valid_check 8 (\<lambda>_. True) report_demo \<lparr>rept_type = T_OBJ_REPT, r_flags = 0, r_dps = objs_demo\<rparr> valid_zero =
     (OPRT_OK, reported_demo, \<lparr>v_len = 39, v_timelen = 0, v_dpid = [3, 1]\<rparr>)"
  by (simp add: dp_rept_valid_check_def report_demo_def reported_demo_def objs_demo_def valid_loop_Cons dp_node_find_def upt_conv_Cons
      step_node_def dp_type_check_def zero_node_def dp_rept_update_def rept_prop_def upd_node_def rept_len_def del: upt_Suc)

theorem report_once_witness:
  "fst (dp_rept_valid_check 8 (\<lambda>_. True) (acknowledged [3, 1] reported_demo) \<lparr>rept_type = T_OBJ_REPT, r_flags = 0, r_dps = objs_demo\<rparr> valid_zero)
     = OPRT_SVC_DP_ID_NOT_FOUND"
proof -
  have "filter (direct report_demo) [3, 1] = []"
    by (simp add: direct_def dp_node_find_def report_demo_def zero_node_def upt_conv_Cons del: upt_Suc)
  then show ?thesis using report_once [OF report_demo_check, of 0 True] by (simp add: objs_demo_def)
qed

section \<open>The text of a report\<close>

text \<open>
  Numbers of 32 bits, and strings whose text as JSON is at most twice as long: cJSON writes a backslash before a quote, a backslash and
  the usual control characters.
\<close>

definition obj_ok :: "(string \<Rightarrow> string option) \<Rightarrow> dp_obj \<Rightarrow> bool" where
  "obj_ok print_str dp \<longleftrightarrow>
     (case o_value dp of
        DP_Value v \<Rightarrow> - (2 ^ 31) \<le> v \<and> v < 2 ^ 31
      | DP_Bitmap m \<Rightarrow> m < 2 ^ 32
      | DP_Str s \<Rightarrow> (case print_str s of None \<Rightarrow> True | Some t \<Rightarrow> length t \<le> 2 * length s + 2)
      | _ \<Rightarrow> True)"

lemma length_key_text: "length (key_text a) \<le> 6" "length (key_text a) \<ge> 4"
proof -
  have "length (nat_digits n) > 0" for n by (subst nat_digits.simps) simp
  then show "length (key_text a) \<ge> 4" by (simp add: key_text_def Suc_le_eq)
qed (use length_byte_digits [of a] in \<open>simp add: key_text_def\<close>)

lemma dp_text_len:
  assumes "obj_ok print_str dp" "rept_len dp prop = Inr n"
  shows "length (dp_text print_str dp prop) + 2 \<le> n"
proof (cases "o_value dp")
  case (DP_Value v)
  then have "length (int_digits v) \<le> Suc 10" using assms(1) by (intro length_int_digits) (simp_all add: obj_ok_def)
  then show ?thesis using DP_Value assms(2) length_key_text(1) [of "o_id dp"] by (simp add: dp_text_def rept_len_def)
next
  case (DP_Bitmap m)
  then have "length (nat_digits m) \<le> 10" using assms(1) by (intro length_nat_digits) (simp_all add: obj_ok_def)
  then show ?thesis using DP_Bitmap assms(2) length_key_text(1) [of "o_id dp"] by (simp add: dp_text_def rept_len_def)
qed (use assms length_key_text(1) [of "o_id dp"] in \<open>auto simp: dp_text_def rept_len_def obj_ok_def split: if_splits option.splits\<close>)

text \<open>The text of an identifier, and the loop when every text fits.\<close>

definition id_text :: "(string \<Rightarrow> string option) \<Rightarrow> dp_schema \<Rightarrow> dp_obj list \<Rightarrow> byte \<Rightarrow> string" where
  "id_text print_str schema dps a =
     (case find (\<lambda>dp. o_id dp = a) dps of
        None \<Rightarrow> []
      | Some dp \<Rightarrow> dp_text print_str dp (d_prop (s_node schema ! the (dp_node_find schema (uint a)))))"

definition printable :: "dp_schema \<Rightarrow> dp_obj list \<Rightarrow> byte \<Rightarrow> bool" where
  "printable schema dps a \<longleftrightarrow>
     (case (find (\<lambda>dp. o_id dp = a) dps, dp_node_find schema (uint a)) of
        (Some dp, Some i) \<Rightarrow> dp_tp (o_value dp) = prop_tp (d_prop (s_node schema ! i)) \<and> enum_ok (o_value dp) (d_prop (s_node schema ! i))
      | _ \<Rightarrow> False)"

lemma json_loop_fits:
  assumes "\<forall>a \<in> set ids. printable schema dps a" "length out + sum_list (map (\<lambda>a. length (id_text print_str schema dps a)) ids) < cap"
  shows "json_loop print_str schema dps cap None ids out tout = Some (Inr (out @ concat (map (id_text print_str schema dps) ids), tout))"
  using assms
proof (induction ids arbitrary: out)
  case (Cons a ids)
  obtain dp i where f: "find (\<lambda>dp. o_id dp = a) dps = Some dp" "dp_node_find schema (uint a) = Some i"
    "dp_tp (o_value dp) = prop_tp (d_prop (s_node schema ! i))" "enum_ok (o_value dp) (d_prop (s_node schema ! i))"
    using Cons.prems(1) by (auto simp: printable_def split: option.splits)
  have a: "o_id dp = a" using f(1) by (auto simp: find_Some_iff)
  have t: "id_text print_str schema dps a = dp_text print_str dp (d_prop (s_node schema ! i))" using f by (simp add: id_text_def)
  have "json_loop print_str schema dps cap None ids (out @ id_text print_str schema dps a) tout =
      Some (Inr ((out @ id_text print_str schema dps a) @ concat (map (id_text print_str schema dps) ids), tout))"
    by (rule Cons.IH) (use Cons.prems in simp_all)
  then show ?case using f a t Cons.prems(2) by (auto simp: enum_ok_def split: dp_value.splits)
qed simp

text \<open>What the check has established for an object that it lists.\<close>

lemma listed_object:
  assumes R: "loop_result num m rt flags dps schema v schema' v'" and d: "dp \<in> set dps" "distinct (map o_id dps)"
    and r: "reported num m rt flags schema dp" and ok: "obj_ok print_str dp"
  shows "printable schema' dps (o_id dp)" "length (id_text print_str schema' dps (o_id dp)) + 2 \<le> need_len schema dp"
proof -
  obtain i where i: "dp_node_find schema (uint (o_id dp)) = Some i" using r by (auto simp: reported_def split: option.splits)
  have ids: "map d_id (s_node schema') = map d_id (s_node schema)" and pr: "point_result num m rt flags schema schema' dp"
    using R d(1) by (auto simp: loop_result_def)
  have f: "find (\<lambda>e. o_id e = o_id dp) dps = Some dp" using d by (induction dps) auto
  obtain rep node where st: "step_node num m rt flags (preprocess schema) dp (s_node schema ! i) = (rep, node)" by force
  have p: "dp_tp (o_value dp) = prop_tp (d_prop (s_node schema ! i))" "s_node schema' ! i = node" "\<not> isl (rept_len dp (d_prop (s_node schema ! i)))"
    using pr i r st by (auto simp: point_result_def)
  then obtain n where n: "rept_len dp (d_prop (s_node schema ! i)) = Inr n" by (cases "rept_len dp (d_prop (s_node schema ! i))") auto
  have l: "rept_len dp (d_prop node) = Inr n" using rept_len_shape [OF step_node_shape [OF st] p(1)] n by simp
  then have "enum_ok (o_value dp) (d_prop node)" by (auto simp: rept_len_def enum_ok_def split: dp_value.splits if_splits)
  then show "printable schema' dps (o_id dp)"
    using f i p node_find_ids [OF ids] step_node_shape(1) [OF st] by (simp add: printable_def)
  show "length (id_text print_str schema' dps (o_id dp)) + 2 \<le> need_len schema dp"
    using dp_text_len [OF ok l] f i p n node_find_ids [OF ids] by (simp add: id_text_def need_len_def)
qed

lemma sum_texts:
  assumes "\<forall>x \<in> set xs. f x + 2 \<le> (g x :: nat)"
  shows "sum_list (map f xs) + 2 * length xs \<le> sum_list (map g xs)"
  using assms by (induction xs) auto

text \<open>
  The buffer of a report is large enough: for objects with distinct identifiers, 32-bit numbers and strings that at most double when they are
  printed, with a total below 65536 characters, the text stays inside the buffer that the check has computed and consists of the
  listed objects in order.
\<close>

theorem report_text_fits:
  assumes "dp_rept_valid_check num (\<lambda>_. m) schema dpin \<lparr>v_len = 0, v_timelen = 0, v_dpid = []\<rparr> = (OPRT_OK, schema', v')"
    and "distinct (map o_id (r_dps dpin))" "\<forall>dp \<in> set (r_dps dpin). obj_ok print_str dp"
    and "sum_list (map (need_len schema) (r_dps dpin)) < 65536"
  defines "out \<equiv> ''{'' @ concat (map (id_text print_str schema' (r_dps dpin)) (v_dpid v'))"
  shows "dp_rept_json_output print_str (True, True) False schema' dpin v' = Some (Inr (close_text out, None)) \<and> length out < unat (v_len v')"
proof -
  let ?dps = "r_dps dpin" and ?r = "reported num m (rept_type dpin) (r_flags dpin) schema"
  note R = valid_loop_result [OF check_loop(1) [OF assms(1)] assms(2)]
  note E = R [unfolded loop_result_def]
  have ids: "v_dpid v' = map o_id (filter ?r ?dps)" and vl: "v_len v' = of_nat (sum_list (map (need_len schema) (filter ?r ?dps)))" using E by auto
  have "sum_list (map (need_len schema) (filter ?r ?dps)) \<le> sum_list (map (need_len schema) ?dps)" by (rule sum_list_filter_le_nat)
  then have cap: "unat (v_len v') = sum_list (map (need_len schema) (filter ?r ?dps))" using assms(4) unfolding vl by (intro unat_u16_of_nat) simp
  have ls: "printable schema' ?dps (o_id dp)" "length (id_text print_str schema' ?dps (o_id dp)) + 2 \<le> need_len schema dp"
    if "dp \<in> set (filter ?r ?dps)" for dp using listed_object [OF R _ assms(2), of dp print_str] that assms(3) by auto
  have "sum_list (map (\<lambda>dp. length (id_text print_str schema' ?dps (o_id dp))) (filter ?r ?dps)) + 2 * length (filter ?r ?dps)
      \<le> sum_list (map (need_len schema) (filter ?r ?dps))" by (rule sum_texts) (use ls(2) in blast)
  moreover have "filter ?r ?dps \<noteq> []" using check_loop(2) [OF assms(1)] unfolding ids by simp
  ultimately have fit: "Suc (sum_list (map (\<lambda>a. length (id_text print_str schema' ?dps a)) (v_dpid v'))) < unat (v_len v')"
    unfolding cap ids by (cases "filter ?r ?dps") (simp_all add: o_def)
  have loop: "json_loop print_str schema' ?dps (unat (v_len v')) None (v_dpid v') ''{'' ''{'' = Some (Inr (out, ''{''))"
    unfolding out_def by (rule json_loop_fits) (use fit ls(1) in \<open>auto simp: ids\<close>)
  have "length out < unat (v_len v')" using fit by (simp add: out_def length_concat o_def)
  then show ?thesis using loop by (simp add: dp_rept_json_output_def)
qed

theorem report_text_fits_witness:
  "dp_rept_json_output (\<lambda>s. Some (''\"'' @ s @ ''\"'')) (True, True) False reported_demo \<lparr>rept_type = T_OBJ_REPT, r_flags = 0, r_dps = objs_demo\<rparr>
     \<lparr>v_len = 39, v_timelen = 0, v_dpid = [3, 1]\<rparr> = Some (Inr (''{\"3\":\"hi\",\"1\":true}'', None))"
  using report_text_fits [OF report_demo_check, of "\<lambda>s. Some (''\"'' @ s @ ''\"'')"]
  by (simp add: objs_demo_def obj_ok_def need_len_def report_demo_def reported_demo_def zero_node_def rept_len_def dp_node_find_def upt_conv_Cons id_text_def dp_text_def
      key_text_def nat_digits.simps close_text_def char_of_def bit_0 del: upt_Suc)

text \<open>
  The buffer can also be too small. The text of a string with control characters grows up to six times but only twice its length is
  reserved: two such characters suffice to write beyond the end.
\<close>

theorem report_text_overflows:
  assumes "dp_rept_valid_check num (\<lambda>_. m) schema \<lparr>rept_type = rt, r_flags = flags, r_dps = [\<lparr>o_id = a, o_value = DP_Str s, o_time = t\<rparr>]\<rparr>
      \<lparr>v_len = 0, v_timelen = 0, v_dpid = []\<rparr> = (OPRT_OK, schema', v')"
    and "print_str s = Some x" "length x \<ge> 2 * length s + 9" "2 * length s + 15 < 65536"
  shows "dp_rept_json_output print_str (True, True) False schema' \<lparr>rept_type = rt, r_flags = flags, r_dps = [\<lparr>o_id = a, o_value = DP_Str s, o_time = t\<rparr>]\<rparr> v' = None"
proof -
  let ?dp = "\<lparr>o_id = a, o_value = DP_Str s, o_time = t\<rparr>"
  have R: "loop_result num m rt flags [?dp] schema \<lparr>v_len = 0, v_timelen = 0, v_dpid = []\<rparr> schema' v'"
    using valid_loop_result [OF check_loop(1) [OF assms(1)]] by simp
  have r: "reported num m rt flags schema ?dp" and v: "v_dpid v' = [a]"
    using R check_loop(2) [OF assms(1)] by (auto simp: loop_result_def split: if_splits)
  obtain i where i: "dp_node_find schema (uint a) = Some i" using r by (auto simp: reported_def split: option.splits)
  have f: "dp_node_find schema' = dp_node_find schema" using R by (intro node_find_ids) (simp add: loop_result_def)
  have "need_len schema ?dp = 2 * length s + 15" using i by (simp add: need_len_def rept_len_def)
  then have "v_len v' = of_nat (2 * length s + 15)" using R r unfolding loop_result_def by (simp del: of_nat_add)
  then have c: "unat (v_len v') = 2 * length s + 15" using unat_u16_of_nat [OF assms(4)] by simp
  obtain rep node where st: "step_node num m rt flags (preprocess schema) ?dp (s_node schema ! i) = (rep, node)" by force
  have "prop_tp (d_prop (s_node schema' ! i)) = PROP_STR"
    using R i step_node_shape(1) [OF st] st by (simp add: loop_result_def point_result_def)
  moreover have "length (''{'' @ dp_text print_str ?dp (d_prop (s_node schema' ! i))) \<ge> 2 * length s + 15"
    using assms(2,3) length_key_text(2) [of a] by (simp add: dp_text_def)
  ultimately show ?thesis using i f v c by (simp add: dp_rept_json_output_def)
qed

definition control_print :: "string \<Rightarrow> string option" where
  "control_print s = Some (''\"'' @ concat (map (\<lambda>c. CHR 0x5C # ''u0001'') s) @ ''\"'')"

definition string_demo :: "nat \<Rightarrow> string option \<Rightarrow> dp_pv_stat \<Rightarrow> dp_schema" where
  "string_demo cur v st = report_demo\<lparr>s_node := [zero_node\<lparr>d_id := 3, d_prop := Prop_Str 10 cur v, pv_stat := st\<rparr>]\<rparr>"

lemma control_check:
  "dp_rept_valid_check 8 (\<lambda>_. True) (string_demo 0 None PV_STAT_INVALID)
       \<lparr>rept_type = T_OBJ_REPT, r_flags = 0, r_dps = [\<lparr>o_id = 3, o_value = DP_Str [CHR 0x01, CHR 0x01], o_time = 0\<rparr>]\<rparr> valid_zero =
     (OPRT_OK, string_demo 2 (Some [CHR 0x01, CHR 0x01]) PV_STAT_LOCAL, \<lparr>v_len = 19, v_timelen = 0, v_dpid = [3]\<rparr>)"
  by (simp add: dp_rept_valid_check_def string_demo_def report_demo_def valid_loop_Cons dp_node_find_def step_node_def dp_type_check_def zero_node_def dp_rept_update_def
      rept_prop_def upd_node_def rept_len_def)

theorem report_text_overflows_witness:
  "dp_rept_json_output control_print (True, True) False (string_demo 2 (Some [CHR 0x01, CHR 0x01]) PV_STAT_LOCAL)
     \<lparr>rept_type = T_OBJ_REPT, r_flags = 0, r_dps = [\<lparr>o_id = 3, o_value = DP_Str [CHR 0x01, CHR 0x01], o_time = 0\<rparr>]\<rparr> \<lparr>v_len = 19, v_timelen = 0, v_dpid = [3]\<rparr> = None"
  by (rule report_text_overflows [OF control_check, of control_print "the (control_print [CHR 0x01, CHR 0x01])"]) (simp_all add: control_print_def)

text \<open>Two objects with the same identifier: the first text is printed twice, and the room reserved for the second may be too small.\<close>

definition twice_demo :: dp_schema where
  "twice_demo = report_demo\<lparr>s_node := [zero_node\<lparr>d_id := 7, d_prop := Prop_Enum [''on'', ''a_rather_long_name_of_a_mode''] 0\<rparr>]\<rparr>"

lemma duplicate_overflows:
  "case dp_rept_valid_check 8 (\<lambda>_. True) twice_demo \<lparr>rept_type = T_OBJ_REPT, r_flags = 0,
          r_dps = [\<lparr>o_id = 7, o_value = DP_Enum 1, o_time = 0\<rparr>, \<lparr>o_id = 7, o_value = DP_Enum 0, o_time = 0\<rparr>]\<rparr> valid_zero of (ret, schema, v) \<Rightarrow>
     ret = OPRT_OK \<and> dp_rept_json_output print_str (True, True) False schema \<lparr>rept_type = T_OBJ_REPT, r_flags = 0,
          r_dps = [\<lparr>o_id = 7, o_value = DP_Enum 1, o_time = 0\<rparr>, \<lparr>o_id = 7, o_value = DP_Enum 0, o_time = 0\<rparr>]\<rparr> v = None"
  by (simp add: dp_rept_valid_check_def report_demo_def twice_demo_def valid_loop_Cons dp_node_find_def step_node_def dp_type_check_def zero_node_def dp_rept_update_def
      rept_prop_def upd_node_def rept_len_def dp_rept_json_output_def dp_text_def key_text_def nat_digits.simps)

text \<open>
  No bitmap can be reported: the check compares the type of the object with the type number that cJSON gives to numbers, so every
  report that consists of bitmaps fails and changes nothing.
\<close>

theorem bitmap_never_reported:
  assumes "num \<noteq> PROP_BITMAP" "rept_type dpin = T_OBJ_REPT" "\<forall>dp \<in> set (r_dps dpin). \<exists>b. o_value dp = DP_Bitmap b" "v_dpid v = []"
  shows "\<exists>ret. dp_rept_valid_check num mem schema dpin v = (ret, schema, v) \<and> ret \<noteq> OPRT_OK"
proof -
  have "\<exists>ret. valid_loop num mem T_OBJ_REPT flags k dps schema v = (ret, schema, v)" if "\<forall>dp \<in> set dps. \<exists>b. o_value dp = DP_Bitmap b" for dps k flags
    using that
  proof (induction dps arbitrary: k)
    case (Cons dp dps)
    then obtain b where b: "o_value dp = DP_Bitmap b" by auto
    have "\<not> dp_type_check num T_OBJ_REPT dp node" if "prop_tp (d_prop node) = PROP_BITMAP" for node
      using that b assms(1) by (cases "d_prop node") (auto simp: dp_type_check_def split: dp_type.split)
    then show ?case using Cons b by (auto simp: valid_loop_Cons step_node_def split: option.split)
  qed simp
  from this [OF assms(3), of "r_flags dpin" 0] assms(2,4) show ?thesis by (auto simp: dp_rept_valid_check_def)
qed

theorem bitmap_never_reported_witness:
  "fst (dp_rept_valid_check 8 (\<lambda>_. True) (report_demo\<lparr>s_node := [zero_node\<lparr>d_id := 4, d_prop := Prop_Bitmap 8 0\<rparr>]\<rparr>)
     \<lparr>rept_type = T_OBJ_REPT, r_flags = 0, r_dps = [\<lparr>o_id = 4, o_value = DP_Bitmap 5, o_time = 0\<rparr>]\<rparr> valid_zero) \<noteq> OPRT_OK"
  using bitmap_never_reported [of 8 "\<lparr>rept_type = T_OBJ_REPT, r_flags = 0, r_dps = [\<lparr>o_id = 4, o_value = DP_Bitmap 5, o_time = 0\<rparr>]\<rparr>" valid_zero "\<lambda>_. True"
      "report_demo\<lparr>s_node := [zero_node\<lparr>d_id := 4, d_prop := Prop_Bitmap 8 0\<rparr>]\<rparr>"] by auto

end
