(* ===== verification/DpCommand.thy ===== *)
theory DpCommand
  imports DpReport
begin

text \<open>
  Commands to data points: what the application receives for a message, and how the text of a schema is cut into its points.
\<close>

section \<open>What the parser reads of a schema\<close>

text \<open>The two loops change only the states of the points.\<close>

definition point_view :: "dp_schema \<Rightarrow> (byte \<times> dp_type \<times> dp_prop) list" where
  "point_view schema = map (\<lambda>n. (d_id n, d_type n, d_prop n)) (s_node schema)"

lemma view_upd:
  assumes "d_id (f (s_node schema ! i)) = d_id (s_node schema ! i)" "d_type (f (s_node schema ! i)) = d_type (s_node schema ! i)"
    "d_prop (f (s_node schema ! i)) = d_prop (s_node schema ! i)"
  shows "point_view (upd_node i f schema) = point_view schema"
  using assms by (cases "i < length (s_node schema)") (simp_all add: point_view_def upd_node_def map_update list_update_same_conv list_update_beyond)

lemma view_find: "point_view a = point_view b \<Longrightarrow> dp_node_find a = dp_node_find b"
proof (rule node_find_ids)
  assume "point_view a = point_view b"
  then have "map fst (point_view a) = map fst (point_view b)" by simp
  then show "map d_id (s_node a) = map d_id (s_node b)" by (simp add: point_view_def o_def)
qed

lemma view_nth:
  assumes "point_view a = point_view b" "dp_node_find a v = Some i"
  shows "d_id (s_node a ! i) = d_id (s_node b ! i)" "d_type (s_node a ! i) = d_type (s_node b ! i)" "d_prop (s_node a ! i) = d_prop (s_node b ! i)"
proof -
  have i: "i < length (s_node a)" "i < length (s_node b)"
    using node_find_Some(1) [OF assms(2)] arg_cong [OF assms(1), of length] by (simp_all add: point_view_def)
  have "point_view a ! i = point_view b ! i" using assms(1) by simp
  then show "d_id (s_node a ! i) = d_id (s_node b ! i)" "d_type (s_node a ! i) = d_type (s_node b ! i)" "d_prop (s_node a ! i) = d_prop (s_node b ! i)"
    using i by (simp_all add: point_view_def)
qed

section \<open>What an item means\<close>

type_synonym dp_item = "string option \<times> cjson"

definition item_node :: "dp_schema \<Rightarrow> dp_item \<Rightarrow> dp_node option" where
  "item_node schema x = map_option (\<lambda>i. s_node schema ! i) (dp_node_find schema (atoi (the (fst x))))"

definition raw_item :: "dp_node \<Rightarrow> cjson \<Rightarrow> bool" where
  "raw_item n item \<longleftrightarrow> d_type n = T_RAW \<and> cj_type item = CJ_String"

text \<open>The raw value, the object, and whether room for an object is reserved.\<close>

definition item_raw :: "(string \<Rightarrow> byte list) \<Rightarrow> dp_schema \<Rightarrow> dp_item \<Rightarrow> dp_event option" where
  "item_raw b64 schema x =
     (case item_node schema x of None \<Rightarrow> None | Some n \<Rightarrow> if raw_item n (snd x) then Some (Recv_Raw (d_id n) (b64 (the (cj_string (snd x))))) else None)"

definition item_obj :: "nat \<Rightarrow> dp_schema \<Rightarrow> dp_item \<Rightarrow> dp_obj option" where
  "item_obj now schema x =
     (case item_node schema x of
        None \<Rightarrow> None
      | Some n \<Rightarrow> if raw_item n (snd x) then None
                  else map_option (\<lambda>v. \<lparr>o_id = d_id n, o_value = v, o_time = now\<rparr>) (the (recv_value (d_prop n) (snd x))))"

definition names_object :: "dp_schema \<Rightarrow> dp_item \<Rightarrow> bool" where
  "names_object schema x \<longleftrightarrow> (case item_node schema x of None \<Rightarrow> False | Some n \<Rightarrow> d_type n = T_OBJ)"

text \<open>
  An item as cJSON builds it has a name, and a string if its type says so. The third condition is what the sender must keep: a point that is not
  an object gets no value that would be taken for one.
\<close>

definition item_ok :: "dp_schema \<Rightarrow> dp_item \<Rightarrow> bool" where
  "item_ok schema x \<longleftrightarrow> fst x \<noteq> None \<and> (cj_type (snd x) = CJ_String \<longrightarrow> cj_string (snd x) \<noteq> None)
     \<and> (item_obj 0 schema x \<noteq> None \<longrightarrow> names_object schema x)"

definition collect :: "('a \<Rightarrow> 'b option) \<Rightarrow> 'a list \<Rightarrow> 'b list" where
  "collect f xs = map (\<lambda>x. the (f x)) (filter (\<lambda>x. f x \<noteq> None) xs)"

lemma collect_simps [simp]: "collect f [] = []" "collect f (x # xs) = (case f x of None \<Rightarrow> collect f xs | Some y \<Rightarrow> y # collect f xs)"
  by (auto simp: collect_def split: option.split)

lemma view_item:
  assumes "point_view a = point_view b"
  shows "item_raw b64 a = item_raw b64 b" "item_obj now a = item_obj now b" "names_object a = names_object b" "item_ok a = item_ok b"
proof -
  have "item_raw b64 a x = item_raw b64 b x \<and> item_obj t a x = item_obj t b x \<and> names_object a x = names_object b x" for x t
    using view_nth [OF assms] view_find [OF assms]
    by (cases "dp_node_find a (atoi (the (fst x)))") (simp_all add: item_raw_def item_obj_def names_object_def item_node_def raw_item_def)
  then show "item_raw b64 a = item_raw b64 b" "item_obj now a = item_obj now b" "names_object a = names_object b" "item_ok a = item_ok b"
    by (auto simp: item_ok_def fun_eq_iff)
qed

section \<open>The two loops\<close>

lemma recv_count_result:
  assumes "\<forall>x \<in> set items. fst x \<noteq> None" "cnt + length items < 65536"
  shows "\<exists>schema'. recv_count items schema cnt = Some (schema', cnt + length (filter (names_object schema) items)) \<and> point_view schema' = point_view schema"
  using assms
proof (induction items arbitrary: schema cnt)
  case (Cons x items)
  obtain s item where x: "x = (Some s, item)" using Cons.prems(1) by (cases x) auto
  show ?case
  proof (cases "dp_node_find schema (atoi s)")
    case None
    then show ?thesis using Cons.IH [of cnt schema] Cons.prems x by (simp add: names_object_def item_node_def)
  next
    case (Some i)
    define up where "up = upd_node i (\<lambda>n. if preprocess schema \<and> d_passive n = PSV_TRUE then n\<lparr>d_passive := PSV_F_ONCE\<rparr> else n) schema"
    have v: "point_view up = point_view schema" unfolding up_def by (rule view_upd) simp_all
    have t: "d_type (s_node up ! i) = T_OBJ \<longleftrightarrow> names_object schema x"
      using view_nth(2) [OF v [symmetric] Some] Some x by (simp add: names_object_def item_node_def)
    let ?c = "if names_object schema x then cnt + 1 else cnt"
    have pr: "\<forall>x \<in> set items. fst x \<noteq> None" "?c + length items < 65536" using Cons.prems by auto
    obtain schema' where "recv_count items up ?c = Some (schema', ?c + length (filter (names_object up) items))" "point_view schema' = point_view up"
      using Cons.IH [OF pr, of up] by blast
    then show ?thesis using Some x t v view_item(3) [OF v] Cons.prems(2) by (auto simp: up_def [symmetric] Let_def)
  qed
qed simp

lemma recv_loop_result:
  assumes "\<forall>x \<in> set items. item_ok schema x" "k + length (collect (item_obj now schema) items) \<le> length dps" "dpobj = Some dps \<or> dpobj = None \<and> dps = []"
  shows "\<exists>schema'. recv_loop b64 True now items k dpobj schema evs =
    Some (False, map_option (\<lambda>_. memcpy_at dps k (collect (item_obj now schema) items)) dpobj, schema', evs @ collect (item_raw b64 schema) items)"
  using assms
proof (induction items arbitrary: k dpobj dps schema evs)
  case Nil
  then show ?case by (auto simp: memcpy_at_def)
next
  case (Cons x items)
  obtain s item where x: "x = (Some s, item)" using Cons.prems(1) by (cases x) (auto simp: item_ok_def)
  show ?case
  proof (cases "dp_node_find schema (atoi s)")
    case None
    then show ?thesis using Cons.IH [of schema k dps dpobj evs] Cons.prems x by (simp add: item_obj_def item_raw_def item_node_def)
  next
    case (Some i)
    let ?n = "s_node schema ! i"
    have n: "item_node schema x = Some ?n" using Some x by (simp add: item_node_def)
    show ?thesis
    proof (cases "raw_item ?n item")
      case True
      then obtain v where v: "cj_string item = Some v" using Cons.prems(1) x by (auto simp: item_ok_def raw_item_def)
      show ?thesis using Cons.IH [of schema k dps dpobj "evs @ [Recv_Raw (d_id ?n) (b64 v)]"] Cons.prems True Some n v x
        by (simp add: item_obj_def item_raw_def raw_item_def)
    next
      case False
      define up where "up = upd_node i (\<lambda>n. n\<lparr>pv_stat := PV_STAT_LOCAL\<rparr>) schema"
      have w: "point_view up = point_view schema" unfolding up_def by (rule view_upd) simp_all
      obtain r where r: "recv_value (d_prop ?n) item = Some r"
        using Cons.prems(1) x by (cases "recv_value (d_prop ?n) item") (auto simp: recv_value_def item_ok_def split: dp_prop.splits if_splits)
      show ?thesis
      proof (cases r)
        case None
        then have "item_obj now schema x = None" "item_raw b64 schema x = None" using n False r x by (simp_all add: item_obj_def item_raw_def)
        then show ?thesis using Cons.IH [of up k dps dpobj evs] Cons.prems False Some r None x view_item [OF w]
          by (auto simp: raw_item_def up_def [symmetric] Let_def)
      next
        case (Some v)
        let ?o = "\<lparr>o_id = d_id ?n, o_value = v, o_time = now\<rparr>"
        have o: "item_obj now schema x = Some ?o" "item_raw b64 schema x = None" using n False r x Some by (simp_all add: item_obj_def item_raw_def)
        then have k: "k < length dps" "Suc k + length (collect (item_obj now schema) items) \<le> length (dps[k := ?o])" "dpobj = Some dps" using Cons.prems(2,3) by auto
        have "memcpy_at (dps[k := ?o]) (Suc k) xs = memcpy_at dps k (?o # xs)" if "Suc k + length xs \<le> length dps" for xs
          using that k(1) by (simp add: memcpy_at_def take_Suc_conv_app_nth drop_update_cancel)
        then show ?thesis using Cons.IH [of up "Suc k" "dps[k := ?o]" "Some (dps[k := ?o])" evs] Cons.prems False \<open>dp_node_find schema (atoi s) = Some i\<close> r Some x k o view_item [OF w]
          by (auto simp: raw_item_def up_def [symmetric] Let_def)
      qed
    qed
  qed
qed

lemma collected_objects:
  assumes "\<forall>x \<in> set items. item_ok schema x"
  shows "length (collect (item_obj now schema) items) \<le> length (filter (names_object schema) items)"
proof -
  have "item_obj now schema x \<noteq> None \<Longrightarrow> names_object schema x" if "x \<in> set items" for x
  proof -
    assume "item_obj now schema x \<noteq> None"
    then have "item_obj 0 schema x \<noteq> None" by (auto simp: item_obj_def split: option.splits if_splits)
    then show "names_object schema x" using assms that by (simp add: item_ok_def)
  qed
  then have "filter (\<lambda>x. item_obj now schema x \<noteq> None) items = filter (\<lambda>x. item_obj now schema x \<noteq> None) (filter (names_object schema) items)"
    by (auto intro!: filter_cong)
  then show ?thesis by (metis collect_def length_filter_le length_map)
qed

lemma recv_result:
  fixes now :: nat
  assumes "\<forall>x \<in> set (cj_child js). item_ok schema x" "length (cj_child js) < 65536"
  defines "n \<equiv> length (filter (names_object schema) (cj_child js))" and "objs \<equiv> collect (item_obj now schema) (cj_child js)"
  shows "\<exists>schema'. dp_data_recv_parse b64 True True now (Some schema) (Some js) =
    Some (OPRT_OK, Some schema', collect (item_raw b64 schema) (cj_child js)
      @ (if n = 0 then [] else [Recv_Obj (objs @ replicate (n - length objs) zero_obj)]))"
proof -
  let ?xs = "cj_child js"
  have names: "\<forall>x \<in> set ?xs. fst x \<noteq> None" using assms(1) by (auto simp: item_ok_def)
  obtain sc where c: "recv_count ?xs schema 0 = Some (sc, n)" "point_view sc = point_view schema"
    using recv_count_result [of ?xs 0 schema] names assms(2) by (auto simp: n_def)
  note v = view_item [OF c(2)]
  have le: "length objs \<le> n" unfolding objs_def n_def by (rule collected_objects [OF assms(1)])
  let ?d = "if n > 0 then Some (replicate n zero_obj) else None"
  have ok: "\<forall>x \<in> set ?xs. item_ok sc x" using assms(1) v(4) by simp
  have room: "0 + length (collect (item_obj now sc) ?xs) \<le> length (replicate n zero_obj)" using le v(2) by (simp add: objs_def)
  have dd: "?d = Some (replicate n zero_obj) \<or> ?d = None \<and> replicate n zero_obj = []" by simp
  from recv_loop_result [OF ok room dd, of b64 "[]"] obtain schema' where
    "recv_loop b64 True now ?xs 0 ?d sc [] = Some (False, map_option (\<lambda>_. memcpy_at (replicate n zero_obj) 0 objs) ?d, schema', collect (item_raw b64 schema) ?xs)"
    using v by (auto simp: objs_def)
  moreover have "memcpy_at (replicate n zero_obj) 0 objs = objs @ replicate (n - length objs) zero_obj" by (simp add: memcpy_at_def)
  ultimately show ?thesis using c(1) by (auto simp: dp_data_recv_parse_def)
qed

section \<open>Properties\<close>

text \<open>
  What the application receives for a message: one event for each raw value, in order, and then one event with as many objects as
  items name an object point. The accepted values come first, in order; an item whose value does not fit its point is dropped, but its place
  stays and is delivered as an object of identifier 0. All writes stay inside the reserved objects when no point that is not an object gets
  a value of its property type.
\<close>

theorem recv_delivers:
  fixes now :: nat
  assumes "\<forall>x \<in> set (cj_child js). item_ok schema x" "length (cj_child js) < 65536"
  defines "n \<equiv> length (filter (names_object schema) (cj_child js))" and "objs \<equiv> collect (item_obj now schema) (cj_child js)"
  shows "\<exists>schema'. dp_data_recv_parse b64 True True now (Some schema) (Some js) =
    Some (OPRT_OK, Some schema', collect (item_raw b64 schema) (cj_child js)
      @ (if n = 0 then [] else [Recv_Obj (objs @ replicate (n - length objs) zero_obj)]))"
  using recv_result [OF assms(1,2)] unfolding n_def objs_def .

definition recv_demo :: dp_schema where
  "recv_demo = report_demo\<lparr>s_node := [zero_node\<lparr>d_id := 1\<rparr>, zero_node\<lparr>d_id := 2, d_prop := Prop_Enum [''low'', ''high''] 0\<rparr>,
     zero_node\<lparr>d_id := 9, d_type := T_RAW\<rparr>]\<rparr>"

definition js_demo :: cjson where
  "js_demo = CJson CJ_Object None 0 [(Some ''2'', CJson CJ_String (Some ''mid'') 0 []), (Some ''9'', CJson CJ_String (Some ''AA=='') 0 []),
     (Some ''1'', CJson CJ_True None 1 [])]"

lemmas recv_demo_simps = js_demo_def recv_demo_def report_demo_def zero_node_def item_obj_def item_node_def names_object_def raw_item_def item_raw_def
  recv_value_def atoi_def digits_val_def digit_char_def is_blank_def dp_node_find_def upt_conv_Cons

theorem recv_delivers_witness:
  "\<exists>schema'. dp_data_recv_parse (\<lambda>_. [0]) True True 50 (Some recv_demo) (Some js_demo) =
     Some (OPRT_OK, Some schema', [Recv_Raw 9 [0], Recv_Obj [\<lparr>o_id = 1, o_value = DP_Bool True, o_time = 50\<rparr>, zero_obj]])"
proof -
  have "\<forall>x \<in> set (cj_child js_demo). item_ok recv_demo x" by (simp add: item_ok_def recv_demo_simps del: upt_Suc)
  then show ?thesis using recv_delivers [of js_demo recv_demo "\<lambda>_. [0]" 50] by (simp add: recv_demo_simps del: upt_Suc)
qed

text \<open>
  A message that gives a raw point a Boolean value, and names no object, makes the device write through a null pointer.
\<close>

theorem recv_raw_bool_crashes:
  assumes "cj_child js = [(Some s, item)]" "cj_type item = CJ_True \<or> cj_type item = CJ_False"
    and "item_node schema (Some s, item) = Some n" "d_type n = T_RAW" "d_prop n = Prop_Bool False"
  shows "dp_data_recv_parse b64 obj_mem raw_mem now (Some schema) (Some js) = None"
proof -
  obtain i where i: "dp_node_find schema (atoi s) = Some i" "s_node schema ! i = n" using assms(3) by (auto simp: item_node_def)
  have "recv_value (Prop_Bool False) item \<in> {Some (Some (DP_Bool True)), Some (Some (DP_Bool False))}" using assms(2) by (auto simp: recv_value_def)
  moreover define up where "up = upd_node i (\<lambda>n. if preprocess schema \<and> d_passive n = PSV_TRUE then n\<lparr>d_passive := PSV_F_ONCE\<rparr> else n) schema"
  have w: "point_view up = point_view schema" unfolding up_def by (rule view_upd) simp_all
  moreover have "d_type (s_node up ! i) = T_RAW" "d_prop (s_node up ! i) = Prop_Bool False" "dp_node_find up (atoi s) = Some i"
    using view_nth [OF w [symmetric] i(1)] view_find [OF w] i assms(4,5) by simp_all
  ultimately show ?thesis using assms(1,2) i by (auto simp: dp_data_recv_parse_def up_def [symmetric] Let_def)
qed

theorem recv_raw_bool_crashes_witness:
  "dp_data_recv_parse (\<lambda>_. []) True True 0 (Some recv_demo) (Some (CJson CJ_Object None 0 [(Some ''9'', CJson CJ_True None 1 [])])) = None"
  by (rule recv_raw_bool_crashes [of _ "''9''" "CJson CJ_True None 1 []" _ "zero_node\<lparr>d_id := 9, d_type := T_RAW\<rparr>"])
    (simp_all add: recv_demo_simps del: upt_Suc)

section \<open>Cutting the text of a schema\<close>

text \<open>A text whose braces are balanced and never close more than they open.\<close>

fun balanced :: "nat \<Rightarrow> string \<Rightarrow> bool" where
  "balanced d [] = (d = 0)"
| "balanced d (c # cs) =
     (if c = CHR ''{'' then balanced (Suc d) cs else if c = CHR ''}'' then d > 0 \<and> balanced (d - 1) cs else balanced d cs)"

definition braceless :: "string \<Rightarrow> bool" where
  "braceless s \<longleftrightarrow> CHR ''{'' \<notin> set s \<and> CHR ''}'' \<notin> set s"

lemma pos_braceless: "braceless s \<Longrightarrow> pos_loop n (s @ cs) i b st pos = pos_loop n cs (i + length s) b st pos"
  by (induction s arbitrary: i) (auto simp: braceless_def)

lemma pos_body:
  "balanced d body \<Longrightarrow> length pos < n \<Longrightarrow> pos_loop n (body @ cs) i (1 + int d) st pos = pos_loop n cs (i + length body) 1 st pos"
proof (induction d body arbitrary: i rule: balanced.induct)
  case (2 d c body)
  show ?case
  proof (cases "c = CHR ''{''")
    case True
    then show ?thesis using "2.IH"(1) [of "Suc i"] "2.prems" by (simp add: add.commute)
  next
    case False
    then show ?thesis using "2.IH"(2,3) [of "Suc i"] "2.prems" by (auto simp: Let_def of_nat_diff)
  qed
qed simp

text \<open>An object is a balanced text in braces. A schema is a sequence of objects, each with the text before it.\<close>

definition braced :: "string \<Rightarrow> string" where
  "braced body = CHR ''{'' # body @ ''}''"

lemma pos_object:
  assumes "balanced 0 body" "Suc (length pos) < n"
  shows "pos_loop n (braced body @ cs) i 0 st pos =
    pos_loop n cs (i + length (braced body)) 0 (i mod 65536) (pos @ [(i mod 65536, Suc (i + length body) mod 65536)])"
  using pos_body [OF assms(1), of pos n "CHR ''}'' # cs" "Suc i" "i mod 65536"] assms(2) by (simp add: braced_def Let_def)

fun schema_text :: "(string \<times> string) list \<Rightarrow> string \<Rightarrow> string" where
  "schema_text [] post = post"
| "schema_text ((sep, body) # ps) post = sep @ braced body @ schema_text ps post"

fun part_pos :: "nat \<Rightarrow> (string \<times> string) list \<Rightarrow> (nat \<times> nat) list" where
  "part_pos i [] = []"
| "part_pos i ((sep, body) # ps) = (i + length sep, Suc (i + length sep + length body)) # part_pos (i + length sep + length (braced body)) ps"

lemma pos_parts:
  assumes "\<forall>(sep, body) \<in> set ps. braceless sep \<and> balanced 0 body" "braceless post" "length pos + length ps < n" "i + length (schema_text ps post) < 65536"
  shows "pos_loop n (schema_text ps post) i 0 st pos = pos @ part_pos i ps"
  using assms
proof (induction ps post arbitrary: i st pos rule: schema_text.induct)
  case (1 post)
  then show ?case using pos_braceless [of post n "[]"] by simp
next
  case (2 sep body ps post)
  let ?j = "i + length sep"
  have m: "?j mod 65536 = ?j" "Suc (?j + length body) mod 65536 = Suc (?j + length body)" using "2.prems"(4) by (simp_all add: braced_def)
  have "pos_loop n (schema_text ps post) (?j + length (braced body)) 0 ?j (pos @ [(?j, Suc (?j + length body))]) =
      (pos @ [(?j, Suc (?j + length body))]) @ part_pos (?j + length (braced body)) ps"
    by (rule "2.IH") (use "2.prems" in \<open>auto simp: add.assoc\<close>)
  then show ?case using "2.prems"(1,3) pos_object [of body pos n "schema_text ps post" ?j st] by (simp add: pos_braceless m)
qed

text \<open>Each position gives its object back.\<close>

lemma item_text_parts:
  "map (item_text (pre @ schema_text ps post)) (part_pos (length pre) ps) =
     map (\<lambda>(sep, body). if length (braced body) < MAX_ITEM_LEN then Some (braced body) else None) ps"
proof (induction ps post arbitrary: pre rule: schema_text.induct)
  case (2 sep body ps post)
  have "map (item_text ((pre @ sep @ braced body) @ schema_text ps post)) (part_pos (length (pre @ sep @ braced body)) ps) =
      map (\<lambda>(sep, body). if length (braced body) < MAX_ITEM_LEN then Some (braced body) else None) ps" by (rule "2.IH")
  moreover have "item_text (pre @ sep @ braced body @ schema_text ps post) (length pre + length sep, Suc (length pre + length sep + length body)) =
      (if length (braced body) < MAX_ITEM_LEN then Some (braced body) else None)"
    by (simp add: item_text_def braced_def)
  ultimately show ?case by (simp add: add.assoc)
qed simp

lemma node_parse_texts:
  assumes "map (item_text t) pos = map (\<lambda>x. if length x < MAX_ITEM_LEN then Some x else None) xs"
    "\<forall>x \<in> set xs. \<exists>js. cjson_parse E x = Some js \<and> parse_node E js = Some (Inr (nd x))"
  shows "dp_node_parse E t pos pre =
    (if \<forall>x \<in> set xs. length x < MAX_ITEM_LEN
     then Some (Inr (map nd xs, pre \<or> (\<exists>x \<in> set xs. get_item E (the (cjson_parse E x)) ''passive'' \<noteq> None))) else None)"
  using assms
proof (induction pos arbitrary: xs pre)
  case (Cons p pos)
  then obtain x ys where x: "xs = x # ys" "item_text t p = (if length x < MAX_ITEM_LEN then Some x else None)"
    "map (item_text t) pos = map (\<lambda>x. if length x < MAX_ITEM_LEN then Some x else None) ys" by (cases xs) auto
  obtain js where js: "cjson_parse E x = Some js" "parse_node E js = Some (Inr (nd x))" using Cons.prems(2) x(1) by auto
  have IH: "dp_node_parse E t pos q = (if \<forall>x \<in> set ys. length x < MAX_ITEM_LEN
      then Some (Inr (map nd ys, q \<or> (\<exists>x \<in> set ys. get_item E (the (cjson_parse E x)) ''passive'' \<noteq> None))) else None)" for q
    by (rule Cons.IH) (use Cons.prems(2) x in auto)
  show ?case using x js IH by auto
qed simp

text \<open>
  C25. A schema text of at least one and at most 254 objects whose braces are balanced, of at most 65535 characters in all, whose objects cJSON parses into the description of a point
  each. When every object is shorter than the buffer of 1024 bytes, the schema is
  created with exactly the points that its objects describe, in order; it is found under its device afterwards, and no longer after it has been
  deleted. An object of 1024 characters or more is copied beyond the end of that buffer.
\<close>

theorem schema_created:
  assumes parts: "\<forall>(sep, body) \<in> set ps. braceless sep \<and> balanced 0 body" "braceless post"
    and size: "ps \<noteq> []" "length ps < 255" "length (schema_text ps post) < 65536"
    and cjson: "\<forall>(sep, body) \<in> set ps. \<exists>js. cjson_parse E (braced body) = Some js \<and> parse_node E js = Some (Inr (nd (braced body)))"
    and mgr: "buf_mem E" "schema_num mgr = 0" "schema_list mgr = [None]"
  shows "if \<forall>(sep, body) \<in> set ps. length (braced body) < MAX_ITEM_LEN
    then \<exists>schema mgr'. dp_schema_create E (True, True) OPRT_OK dev (schema_text ps post) mgr = Some (OPRT_OK, Some schema, mgr')
      \<and> s_node schema = map (\<lambda>(sep, body). nd (braced body)) ps \<and> dp_schema_find (take DEV_ID_LEN dev) mgr' = Some schema
      \<and> dp_schema_find (take DEV_ID_LEN dev) (snd (dp_schema_delete (take DEV_ID_LEN dev) mgr')) = None
    else dp_schema_create E (True, True) OPRT_OK dev (schema_text ps post) mgr = None"
proof -
  let ?t = "schema_text ps post" and ?xs = "map (\<lambda>(sep, body). braced body) ps"
  have pos: "dp_node_pos_decode (Some ?t) 255 = part_pos 0 ps"
    using pos_parts [of ps post "[]" 255 0 0] parts size by (auto simp: dp_node_pos_decode_def)
  have len: "length (part_pos i ps) = length ps" for i by (induction i ps rule: part_pos.induct) simp_all
  have it: "map (item_text ?t) (part_pos 0 ps) = map (\<lambda>x. if length x < MAX_ITEM_LEN then Some x else None) ?xs"
    using item_text_parts [of "[]" ps post] by (auto simp: case_prod_beta' o_def)
  have c: "\<forall>x \<in> set ?xs. \<exists>js. cjson_parse E x = Some js \<and> parse_node E js = Some (Inr (nd x))" using cjson by fastforce
  have sh: "(\<forall>x \<in> set ?xs. length x < MAX_ITEM_LEN) \<longleftrightarrow> (\<forall>(sep, body) \<in> set ps. length (braced body) < MAX_ITEM_LEN)" by auto
  note parse = node_parse_texts [OF it c, of False, unfolded sh]
  have "map nd ?xs = map (\<lambda>(sep, body). nd (braced body)) ps" by (auto simp: case_prod_beta')
  moreover have "part_pos 0 ps \<noteq> []" "length (part_pos 0 ps) < 255" using size len [of 0] by auto
  ultimately show ?thesis using mgr parse unfolding dp_schema_create_def pos Let_def
    by (cases "\<forall>(sep, body) \<in> set ps. length (braced body) < MAX_ITEM_LEN") (simp_all add: dp_schema_find_def dp_schema_delete_def)
qed

definition body_demo :: string where
  "body_demo = ''\"id\":5,\"mode\":\"rw\",\"property\":{\"type\":\"bool\"}''"

definition js_node_demo :: cjson where
  "js_node_demo = CJson CJ_Object None 0 [(Some ''id'', CJson CJ_Number None 5 []), (Some ''mode'', CJson CJ_String (Some ''rw'') 0 []),
     (Some ''property'', CJson CJ_Object None 0 [(Some ''type'', CJson CJ_String (Some ''bool'') 0 [])])]"

definition env_demo :: parse_env where
  "env_demo = \<lparr>cjson_parse = (\<lambda>t. if t = braced body_demo then Some js_node_demo else None),
     get_item = (\<lambda>js name. map_option snd (find (\<lambda>c. fst c = Some name) (cj_child js))), buf_mem = True, enum_mem = True, str_mutex = OPRT_OK\<rparr>"

theorem schema_created_witness:
  "\<exists>schema mgr'. dp_schema_create env_demo (True, True) OPRT_OK ''bag'' (''['' @ braced body_demo @ '']'') \<lparr>schema_num = 0, schema_list = [None]\<rparr>
       = Some (OPRT_OK, Some schema, mgr') \<and> s_node schema = [zero_node\<lparr>d_id := 5\<rparr>]"
proof -
  have n: "parse_node env_demo js_node_demo = Some (Inr (zero_node\<lparr>d_id := 5\<rparr>))"
    by (simp add: parse_node_def parse_desc_def parse_prop_def with_item_def opt_string_def env_demo_def js_node_demo_def zero_node_def)
  have e: "cjson_parse env_demo (braced body_demo) = Some js_node_demo" "buf_mem env_demo" by (simp_all add: env_demo_def)
  have b: "balanced 0 body_demo" "length (braced body_demo) < 100" by (simp_all add: body_demo_def braced_def)
  have s: "braceless ''[''" "braceless '']''" by (simp_all add: braceless_def)
  show ?thesis
    using schema_created [of "[(''['', body_demo)]" "'']''" env_demo "\<lambda>_. zero_node\<lparr>d_id := 5\<rparr>" "\<lparr>schema_num = 0, schema_list = [None]\<rparr>" "''bag''"] n e b s
    by auto
qed

end
