(* ===== verification/BleDp.thy ===== *)
theory BleDp
  imports BleMgr DpCommand
begin

text \<open>
  Data points over Bluetooth, \<^verbatim>\<open>src/tuya_cloud_service/ble/ble_dp.c\<close>, on the models of the packet layer and of the schema: the list of
  identifier, type, length and value, its bytes, reports, commands and queries. Numbers in memory are little endian; a node holds the bytes of its
  value, and a null list is the empty list. The JSON tree of a command is built with the items of \<open>DpSchema\<close>; the base64 encoder and the clock are
  arguments. \<open>None\<close> is an access outside of an object. The protocol version that the code fixes to \<^verbatim>\<open>type = 1\<close> is the only one modelled.
\<close>

section \<open>Lists of values\<close>

abbreviation DT_RAW :: byte where "DT_RAW \<equiv> 0"
abbreviation DT_BOOL :: byte where "DT_BOOL \<equiv> 1"
abbreviation DT_VALUE :: byte where "DT_VALUE \<equiv> 2"
abbreviation DT_STRING :: byte where "DT_STRING \<equiv> 3"
abbreviation DT_ENUM :: byte where "DT_ENUM \<equiv> 4"
abbreviation DT_BITMAP :: byte where "DT_BITMAP \<equiv> 5"
abbreviation DT_LMT :: byte where "DT_LMT \<equiv> 10"

record klv_node =
  k_id :: byte
  k_type :: byte
  k_data :: "byte list"

definition le32 :: "u32 \<Rightarrow> byte list" where
  "le32 w = rev (be32 w)"

text \<open>The shortest form of an enumeration, and the single byte of a Boolean.\<close>

definition tuya_change_bt_dp_tlv :: "byte \<Rightarrow> byte list \<Rightarrow> byte list" where
  "tuya_change_bt_dp_tlv type data =
     (if type = DT_ENUM then
        (let v = rd32 (rev data) 0
         in if v \<le> 0xff then [ucast v] else if v \<le> 0xffff then be16 (ucast v) else be32 v)
      else if type = DT_BOOL then [ucast (rd32 (rev data) 0)]
      else data)"

text \<open>A new node in front of a list. On an error the list is dropped; \<open>mem\<close> is the result of the allocations.\<close>

definition make_klv_list :: "bool \<Rightarrow> klv_node list \<Rightarrow> byte \<Rightarrow> byte \<Rightarrow> byte list option \<Rightarrow> klv_node list option" where
  "make_klv_list mem list dpid type data =
     (case data of
        None \<Rightarrow> Some []
      | Some d \<Rightarrow>
          if type \<ge> DT_LMT then Some []
          else if type = DT_VALUE \<and> length d \<noteq> 4 \<or> type = DT_BITMAP \<and> length d > 4 \<or> type = DT_BOOL \<and> length d \<noteq> 4 \<or> type = DT_ENUM \<and> length d \<noteq> 4 then Some []
          else if \<not> mem then Some []
          else if type = DT_VALUE \<or> type = DT_BITMAP
          then (if length d < 4 then None else Some (\<lparr>k_id = dpid, k_type = type, k_data = rev d\<rparr> # list))
          else Some (\<lparr>k_id = dpid, k_type = type, k_data = tuya_change_bt_dp_tlv type d\<rparr> # list))"

definition klv_bytes :: "klv_node \<Rightarrow> byte list" where
  "klv_bytes n = [k_id n, k_type n] @ be16 (of_nat (length (k_data n))) @ k_data n"

text \<open>The bytes of a report, with the serial number \<open>sn\<close> and the optional time; the last result is the next serial number.\<close>

definition klvlist_2_data :: "bool \<Rightarrow> klv_node list \<Rightarrow> u32 option \<Rightarrow> bool \<Rightarrow> byte \<Rightarrow> u32 \<Rightarrow> (operate_ret + byte list) \<times> u32" where
  "klvlist_2_data mem list time_stamp query flag sn =
     (if list = [] then (Inl OPRT_INVALID_PARM, sn)
      else if \<not> mem then (Inl OPRT_MALLOC_FAILED, sn)
      else (Inr (0 # be32 sn @ [if query then 1 else 0, flag] @ (case time_stamp of None \<Rightarrow> [] | Some t \<Rightarrow> 1 # be32 t) @ concat (map klv_bytes list)), sn + 1))"

text \<open>The loop of the decoder on the bytes that are left; nodes are put in front.\<close>

function klv_loop :: "bool \<Rightarrow> byte list \<Rightarrow> klv_node list \<Rightarrow> operate_ret + klv_node list" where
  "klv_loop mem rest klv_list =
     (if length rest < 4 then Inl OPRT_COM_ERROR
      else if \<not> mem then Inl OPRT_MALLOC_FAILED
      else
        (let len = unat (rd16 rest 2)
         in if length rest - 4 < len then Inl OPRT_COM_ERROR
            else
              (let klv_list = \<lparr>k_id = rest ! 0, k_type = rest ! 1, k_data = take len (drop 4 rest)\<rparr> # klv_list;
                   rest = drop (4 + len) rest
               in if rest = [] then Inr klv_list else klv_loop mem rest klv_list)))"
  by pat_completeness auto
termination by (relation "measure (\<lambda>(mem, rest, l). length rest)") (auto simp: Let_def)

declare klv_loop.simps [simp del]

definition data_2_klvlist :: "bool \<Rightarrow> byte list \<Rightarrow> operate_ret + klv_node list" where
  "data_2_klvlist mem data = klv_loop mem data []"

section \<open>Sending\<close>

text \<open>What the packet layer needs from the platform, and its state with the frames handed to the radio and the serial number of reports.\<close>

record ble_env =
  e_md5 :: "byte list \<Rightarrow> byte list"
  e_aes_enc :: "byte list \<Rightarrow> byte list \<Rightarrow> byte list \<Rightarrow> byte list option"
  e_tx :: "byte list \<Rightarrow> operate_ret"
  e_mem :: bool
  e_iv :: "nat \<Rightarrow> byte list"

record ble_sys =
  bs_mgr :: ble_mgr
  bs_glob :: ble_frame_globals
  bs_air :: "byte list list"
  bs_sn :: u32

definition dp_send :: "ble_env \<Rightarrow> u16 \<Rightarrow> u32 \<Rightarrow> byte list \<Rightarrow> ble_sys \<Rightarrow> (operate_ret \<times> ble_sys) option" where
  "dp_send E type ack_sn data s =
     do {
       (ret, pkts, ble, g) \<leftarrow> tuya_ble_send (e_md5 E) (e_aes_enc E) (e_tx E) (e_mem E) (e_iv E (length (bs_air s))) type ack_sn data (bs_mgr s) (bs_glob s);
       Some (ret, s\<lparr>bs_mgr := ble, bs_glob := g, bs_air := bs_air s @ pkts\<rparr>)
     }"

abbreviation FRM_STATE_QUERY :: u16 where "FRM_STATE_QUERY \<equiv> 0x0003"
abbreviation FRM_DP_CMD_SEND_V4 :: u16 where "FRM_DP_CMD_SEND_V4 \<equiv> 0x0027"
abbreviation FRM_DP_STAT_REPORT_V4 :: u16 where "FRM_DP_STAT_REPORT_V4 \<equiv> 0x8006"
abbreviation FRM_DP_STAT_REPORT_WITH_TIME_V4 :: u16 where "FRM_DP_STAT_REPORT_WITH_TIME_V4 \<equiv> 0x8007"
abbreviation TUYA_BLE_TRANSMISSION_MAX_DATA_LEN :: nat where "TUYA_BLE_TRANSMISSION_MAX_DATA_LEN \<equiv> TUYA_BLE_AIR_FRAME_MAX - 29"

definition result_code_resp :: "ble_env \<Rightarrow> u16 \<Rightarrow> u32 \<Rightarrow> byte \<Rightarrow> ble_sys \<Rightarrow> (operate_ret \<times> ble_sys) option" where
  "result_code_resp E type ack_sn result_code s = dp_send E type ack_sn [result_code] s"

text \<open>The first five bytes of the request are copied without a look at its length.\<close>

definition result_code_resp_v4 :: "ble_env \<Rightarrow> u16 \<Rightarrow> u32 \<Rightarrow> byte list \<Rightarrow> byte \<Rightarrow> ble_sys \<Rightarrow> (operate_ret \<times> ble_sys) option" where
  "result_code_resp_v4 E type ack_sn data result_code s =
     (if length data < 5 then None else dp_send E type ack_sn (take 5 data @ [result_code]) s)"

definition dp_data_report_data :: "ble_env \<Rightarrow> u16 \<Rightarrow> byte list option \<Rightarrow> ble_sys \<Rightarrow> (operate_ret \<times> ble_sys) option" where
  "dp_data_report_data E type data s =
     (case data of
        None \<Rightarrow> Some (OPRT_INVALID_PARM, s)
      | Some d \<Rightarrow>
          if length d > TUYA_BLE_TRANSMISSION_MAX_DATA_LEN \<or> d = [] then Some (OPRT_INVALID_PARM, s)
          else dp_send E type 0 d s)"

section \<open>Reports\<close>

text \<open>The bytes of a text whose length is kept in 16 bits.\<close>

definition str_data :: "string \<Rightarrow> byte list" where
  "str_data s = take (length s mod 65536) (text_bytes s)"

definition native_value :: "dp_value \<Rightarrow> (byte \<times> byte list) option" where
  "native_value v =
     (case v of
        DP_Bool b \<Rightarrow> Some (DT_BOOL, le32 (if b then 1 else 0))
      | DP_Value x \<Rightarrow> Some (DT_VALUE, le32 (word_of_int x))
      | DP_Str s \<Rightarrow> Some (DT_STRING, str_data s)
      | DP_Enum e \<Rightarrow> Some (DT_ENUM, le32 (of_nat e))
      | DP_Bitmap m \<Rightarrow> Some (DT_BITMAP, le32 (of_nat m))
      | DP_Other _ \<Rightarrow> None)"

fun make_obj_dp_klv_list :: "bool \<Rightarrow> dp_obj list \<Rightarrow> klv_node list \<Rightarrow> klv_node list option" where
  "make_obj_dp_klv_list mem [] p_node = Some p_node"
| "make_obj_dp_klv_list mem (dp # dps) p_node =
     (case native_value (o_value dp) of
        None \<Rightarrow> make_obj_dp_klv_list mem dps p_node
      | Some (type, d) \<Rightarrow> do { l \<leftarrow> make_klv_list mem p_node (o_id dp) type (Some d); make_obj_dp_klv_list mem dps l })"

definition ty_bt_dp_data_report :: "ble_env \<Rightarrow> klv_node list \<Rightarrow> u32 \<Rightarrow> ble_sys \<Rightarrow> (operate_ret \<times> ble_sys) option" where
  "ty_bt_dp_data_report E p_node time_stamp s =
     (if p_node = [] then Some (OPRT_INVALID_PARM, s)
      else
        (let t = (if time_stamp > 0 then Some time_stamp else None);
             (r, sn) = klvlist_2_data (e_mem E) p_node t False 0 (bs_sn s)
         in dp_data_report_data E (if t \<noteq> None then FRM_DP_STAT_REPORT_WITH_TIME_V4 else FRM_DP_STAT_REPORT_V4)
              (case r of Inl _ \<Rightarrow> None | Inr d \<Rightarrow> Some d) (s\<lparr>bs_sn := sn\<rparr>)))"

definition dp_get_time_stamp :: "nat \<Rightarrow> dp_obj list \<Rightarrow> nat" where
  "dp_get_time_stamp now dps = (case dps of [] \<Rightarrow> now | dp # _ \<Rightarrow> if o_time dp = 0 then now else o_time dp)"

text \<open>\<open>raw\<close> is the raw point of a raw report.\<close>

definition ble_dp_report :: "ble_env \<Rightarrow> nat \<Rightarrow> dp_rept_in \<Rightarrow> byte \<times> byte list \<Rightarrow> ble_sys \<Rightarrow> (operate_ret \<times> ble_sys) option" where
  "ble_dp_report E now dpin raw s =
     (case rept_type dpin of
        T_OBJ_REPT \<Rightarrow>
          do {
            l \<leftarrow> make_obj_dp_klv_list (e_mem E) (r_dps dpin) [];
            ty_bt_dp_data_report E l (of_nat (dp_get_time_stamp now (r_dps dpin))) s
          }
      | T_STAT_REPT \<Rightarrow> ty_bt_dp_data_report E [] 0 s
      | T_RAW_REPT \<Rightarrow> do { l \<leftarrow> make_klv_list (e_mem E) [] (fst raw) DT_RAW (Some (snd raw)); ty_bt_dp_data_report E l 0 s }
      | T_RE_TRANS_REPT \<Rightarrow> Some (OPRT_INVALID_PARM, s))"

section \<open>Commands and queries\<close>

text \<open>
  The JSON item of a node, \<open>Some None\<close> when it is passed over. A value of length \<open>n\<close> has \<open>n + 1\<close> bytes, the last one zero; without a value there
  is no memory. An enumeration reads the table of the point it names, whatever the type of that point is.
\<close>

definition req_item :: "(byte list \<Rightarrow> string) \<Rightarrow> dp_schema option \<Rightarrow> klv_node \<Rightarrow> cjson option option" where
  "req_item b64 schema n =
     (let d = k_data n
      in if k_type n = DT_RAW then Some (Some (CJson CJ_String (Some (b64 d)) 0 []))
         else if k_type n = DT_BOOL then (if d = [] then None else Some (Some (CJson (if d ! 0 \<noteq> 0 then CJ_True else CJ_False) None 0 [])))
         else if k_type n = DT_BITMAP \<or> k_type n = DT_VALUE
         then (if length d < 3 then None else Some (Some (CJson CJ_Number None (sint (rd32 (d @ [0]) 0)) [])))
         else if k_type n = DT_ENUM
         then (if d = [] then None
               else do {
                 sc \<leftarrow> schema;
                 case dp_node_find sc (uint (k_id n)) of
                   None \<Rightarrow> Some None
                 | Some i \<Rightarrow>
                     (case d_prop (s_node sc ! i) of
                        Prop_Enum es _ \<Rightarrow> if unat (d ! 0) < length es then Some (Some (CJson CJ_String (Some (es ! unat (d ! 0))) 0 [])) else None
                      | _ \<Rightarrow> None)
               })
         else if k_type n = DT_STRING then Some (Some (CJson CJ_String (Some (c_string d)) 0 []))
         else Some None)"

fun req_items :: "(byte list \<Rightarrow> string) \<Rightarrow> dp_schema option \<Rightarrow> klv_node list \<Rightarrow> (string option \<times> cjson) list option" where
  "req_items b64 schema [] = Some []"
| "req_items b64 schema (n # ns) =
     do {
       x \<leftarrow> req_item b64 schema n;
       xs \<leftarrow> req_items b64 schema ns;
       Some (case x of None \<Rightarrow> xs | Some j \<Rightarrow> (Some (nat_digits (unat (k_id n))), j) # xs)
     }"

text \<open>The result is an error or the tree that is handed to \<^verbatim>\<open>tuya_iot_dp_parse\<close>.\<close>

definition ble_dp_req :: "ble_env \<Rightarrow> (byte list \<Rightarrow> string) \<Rightarrow> dp_schema option \<Rightarrow> ble_packet \<Rightarrow> ble_sys \<Rightarrow> ((operate_ret + cjson) \<times> ble_sys) option" where
  "ble_dp_req E b64 schema req s =
     (if p_type req \<noteq> FRM_DP_CMD_SEND_V4 then Some (Inl OPRT_NOT_SUPPORTED, s)
      else
        do {
          (_, s) \<leftarrow> result_code_resp_v4 E FRM_DP_CMD_SEND_V4 (p_sn req) (p_data req) 0 s;
          if \<not> e_mem E then Some (Inl OPRT_CR_CJSON_ERR, s)
          else case data_2_klvlist (e_mem E) (drop 5 (p_data req)) of
                 Inl _ \<Rightarrow> Some (Inl OPRT_CJSON_PARSE_ERR, s)
               | Inr ns \<Rightarrow>
                   do {
                     xs \<leftarrow> req_items b64 schema ns;
                     Some (Inr (CJson CJ_Object None 0 [(Some ''dps'', CJson CJ_Object None 0 xs)]), s)
                   }
        })"

text \<open>The value of a point as the query reads it. The length of a string is measured even when no value has been stored yet.\<close>

definition query_value :: "dp_prop \<Rightarrow> (byte \<times> byte list) option" where
  "query_value p =
     (case p of
        Prop_Bool b \<Rightarrow> Some (DT_BOOL, le32 (if b then 1 else 0))
      | Prop_Int _ _ _ v \<Rightarrow> Some (DT_VALUE, le32 (word_of_int v))
      | Prop_Str _ _ v \<Rightarrow> map_option (\<lambda>s. (DT_STRING, str_data s)) v
      | Prop_Enum _ e \<Rightarrow> Some (DT_ENUM, le32 (of_nat e))
      | Prop_Bitmap _ m \<Rightarrow> Some (DT_BITMAP, le32 (of_nat m)))"

fun query_loop :: "bool \<Rightarrow> dp_node list \<Rightarrow> klv_node list \<Rightarrow> klv_node list option" where
  "query_loop mem [] p_node = Some p_node"
| "query_loop mem (n # ns) p_node =
     (if d_mode n = M_WR \<or> d_type n \<noteq> T_OBJ then query_loop mem ns p_node
      else do { (type, d) \<leftarrow> query_value (d_prop n); l \<leftarrow> make_klv_list mem p_node (d_id n) type (Some d); query_loop mem ns l })"

definition ble_dp_query :: "ble_env \<Rightarrow> dp_schema option \<Rightarrow> ble_packet \<Rightarrow> ble_sys \<Rightarrow> (operate_ret \<times> ble_sys) option" where
  "ble_dp_query E schema req s =
     do {
       (_, s) \<leftarrow> result_code_resp E (p_type req) (p_sn req) 0 s;
       case schema of
         None \<Rightarrow> Some (OPRT_INVALID_PARM, s)
       | Some schema \<Rightarrow>
           do {
             l \<leftarrow> query_loop (e_mem E) (s_node schema) [];
             if l = [] then Some (OPRT_OK, s)
             else
               (let (r, sn) = klvlist_2_data (e_mem E) l None True 0 (bs_sn s)
                in do {
                     (_, s) \<leftarrow> dp_data_report_data E FRM_DP_STAT_REPORT_V4 (case r of Inl _ \<Rightarrow> None | Inr d \<Rightarrow> Some d) (s\<lparr>bs_sn := sn\<rparr>);
                     Some (OPRT_OK, s)
                   })
           }
     }"

definition ble_session_dp_process ::
    "ble_env \<Rightarrow> (byte list \<Rightarrow> string) \<Rightarrow> dp_schema option \<Rightarrow> ble_packet \<Rightarrow> ble_sys \<Rightarrow> (cjson option \<times> ble_sys) option" where
  "ble_session_dp_process E b64 schema packet s =
     (if p_type packet = FRM_DP_CMD_SEND_V4 then
        do { (r, s) \<leftarrow> ble_dp_req E b64 schema packet s; Some (case r of Inl _ \<Rightarrow> None | Inr js \<Rightarrow> Some js, s) }
      else if p_type packet = FRM_STATE_QUERY then do { (_, s) \<leftarrow> ble_dp_query E schema packet s; Some (None, s) }
      else Some (None, s))"

section \<open>Values and their bytes\<close>

definition enum_bytes :: "u32 \<Rightarrow> byte list" where
  "enum_bytes v = (if v \<le> 0xff then [ucast v] else if v \<le> 0xffff then be16 (ucast v) else be32 v)"

text \<open>The node that stands for an object.\<close>

definition klv_of :: "dp_obj \<Rightarrow> klv_node" where
  "klv_of dp =
     (case o_value dp of
        DP_Bool b \<Rightarrow> \<lparr>k_id = o_id dp, k_type = DT_BOOL, k_data = [if b then 1 else 0]\<rparr>
      | DP_Value x \<Rightarrow> \<lparr>k_id = o_id dp, k_type = DT_VALUE, k_data = be32 (word_of_int x)\<rparr>
      | DP_Str t \<Rightarrow> \<lparr>k_id = o_id dp, k_type = DT_STRING, k_data = text_bytes t\<rparr>
      | DP_Enum e \<Rightarrow> \<lparr>k_id = o_id dp, k_type = DT_ENUM, k_data = enum_bytes (of_nat e)\<rparr>
      | DP_Bitmap m \<Rightarrow> \<lparr>k_id = o_id dp, k_type = DT_BITMAP, k_data = be32 (of_nat m)\<rparr>
      | DP_Other _ \<Rightarrow> \<lparr>k_id = o_id dp, k_type = DT_LMT, k_data = []\<rparr>)"

definition sendable :: "dp_obj \<Rightarrow> bool" where
  "sendable dp \<longleftrightarrow> (case o_value dp of DP_Str t \<Rightarrow> length t < 65536 | DP_Other _ \<Rightarrow> False | _ \<Rightarrow> True)"

lemma dt_small [simp]: "\<not> DT_LMT \<le> DT_BOOL" "\<not> DT_LMT \<le> DT_VALUE" "\<not> DT_LMT \<le> DT_STRING" "\<not> DT_LMT \<le> DT_ENUM" "\<not> DT_LMT \<le> DT_BITMAP"
  by (simp_all add: word_le_nat_alt)

lemma rd32_le32 [simp]: "rd32 (be32 w) 0 = w" "length (le32 w) = 4" "rev (le32 w) = be32 w"
  using rd32_be32 [of "[]" w "[]"] by (simp_all add: le32_def)

lemma length_enum_bytes: "length (enum_bytes v) \<le> 4"
  by (simp add: enum_bytes_def)

lemma make_klv_obj:
  assumes "sendable dp"
  shows "\<exists>type d. native_value (o_value dp) = Some (type, d) \<and> make_klv_list True l (o_id dp) type (Some d) = Some (klv_of dp # l)"
  using assms by (cases "o_value dp") (auto simp: sendable_def native_value_def make_klv_list_def klv_of_def tuya_change_bt_dp_tlv_def enum_bytes_def
      str_data_def text_bytes_def Let_def)

lemma make_obj_list: "\<forall>dp \<in> set dps. sendable dp \<Longrightarrow> make_obj_dp_klv_list True dps l = Some (rev (map klv_of dps) @ l)"
proof (induction dps arbitrary: l)
  case (Cons dp dps)
  from make_klv_obj [of dp l] Cons.prems obtain type d where
    "native_value (o_value dp) = Some (type, d)" "make_klv_list True l (o_id dp) type (Some d) = Some (klv_of dp # l)" by auto
  then show ?case using Cons by simp
qed simp

section \<open>The decoder\<close>

lemma klv_loop_step:
  assumes "length (k_data n) < 65536"
  shows "klv_loop True (klv_bytes n @ rest) acc = (if rest = [] then Inr (n # acc) else klv_loop True rest (n # acc))"
proof -
  have u: "unat (of_nat (length (k_data n)) :: u16) = length (k_data n)" by (rule unat_u16_of_nat [OF assms])
  have r: "rd16 (klv_bytes n @ rest) 2 = of_nat (length (k_data n))"
    using rd16_be16 [of "[k_id n, k_type n]" "of_nat (length (k_data n))" "k_data n @ rest"] by (simp add: klv_bytes_def numeral_2_eq_2)
  have l: "length (klv_bytes n) = 4 + length (k_data n)" by (simp add: klv_bytes_def)
  have dr: "drop (4 + length (k_data n)) (klv_bytes n @ rest) = rest" unfolding l [symmetric] by simp
  have t: "take (length (k_data n)) (drop 4 (klv_bytes n @ rest)) = k_data n" "(klv_bytes n @ rest) ! 0 = k_id n" "(klv_bytes n @ rest) ! 1 = k_type n"
    by (simp_all add: klv_bytes_def be16_def)
  have e: "\<lparr>k_id = k_id n, k_type = k_type n, k_data = k_data n\<rparr> = n" by simp
  show ?thesis by (subst klv_loop.simps) (simp only: Let_def r u t dr e, simp add: l)
qed

lemma klv_loop_bytes:
  assumes "ns \<noteq> []" "\<forall>n \<in> set ns. length (k_data n) < 65536"
  shows "klv_loop True (concat (map klv_bytes ns)) acc = Inr (rev ns @ acc)"
  using assms
proof (induction ns arbitrary: acc)
  case (Cons n ns)
  have ne: "concat (map klv_bytes ns) = [] \<longleftrightarrow> ns = []" by (cases ns) (simp_all add: klv_bytes_def)
  show ?case
  proof (cases "ns = []")
    case True
    then show ?thesis using klv_loop_step [of n "[]" acc] Cons.prems by simp
  next
    case False
    then show ?thesis using klv_loop_step [of n "concat (map klv_bytes ns)" acc] Cons ne by simp
  qed
qed simp

lemma sendable_len: "sendable dp \<Longrightarrow> length (k_data (klv_of dp)) < 65536"
  using length_enum_bytes by (auto simp: sendable_def klv_of_def text_bytes_def split: dp_value.splits intro: le_less_trans [of _ 4])

section \<open>Properties\<close>

text \<open>
  The bytes of a report hold the objects in order: after the header of 7 bytes, or 12 with a time, the decoder reads the identifier, the
  type and the value of every object, in network byte order.
\<close>

theorem ble_report_decodes:
  assumes "dps \<noteq> []" "\<forall>dp \<in> set dps. sendable dp"
  shows "\<exists>l d. make_obj_dp_klv_list True dps [] = Some l \<and> klvlist_2_data True l t query flag sn = (Inr d, sn + 1)
    \<and> data_2_klvlist True (drop (if t = None then 7 else 12) d) = Inr (map klv_of dps)"
proof -
  let ?l = "rev (map klv_of dps)"
  have "klv_loop True (concat (map klv_bytes ?l)) [] = Inr (rev ?l @ [])"
    by (rule klv_loop_bytes) (use assms sendable_len in auto)
  moreover have "make_obj_dp_klv_list True dps [] = Some ?l" using make_obj_list [OF assms(2)] by simp
  ultimately show ?thesis using assms(1) by (cases t) (auto simp: klvlist_2_data_def data_2_klvlist_def be32_def)
qed

theorem ble_report_decodes_witness:
  "\<exists>l d. make_obj_dp_klv_list True objs_demo [] = Some l \<and> klvlist_2_data True l (Some 9) False 0 1 = (Inr d, 2)
    \<and> data_2_klvlist True (drop 12 d) = Inr (map klv_of objs_demo)"
  using ble_report_decodes [of objs_demo "Some 9" False 0 1] by (simp add: objs_demo_def sendable_def)

section \<open>From the frame to the application\<close>

text \<open>An object that a command may carry: its point has its type, and the value is one that the format of a command can express.\<close>

definition commandable :: "dp_schema \<Rightarrow> dp_obj \<Rightarrow> bool" where
  "commandable schema dp \<longleftrightarrow>
     (case dp_node_find schema (uint (o_id dp)) of
        None \<Rightarrow> False
      | Some i \<Rightarrow>
          d_type (s_node schema ! i) = T_OBJ
          \<and> (case (d_prop (s_node schema ! i), o_value dp) of
               (Prop_Bool _, DP_Bool _) \<Rightarrow> True
             | (Prop_Int _ _ _ _, DP_Value x) \<Rightarrow> - (2 ^ 31) \<le> x \<and> x < 2 ^ 31
             | (Prop_Str _ _ _, DP_Str t) \<Rightarrow> length t < 65536 \<and> CHR 0x00 \<notin> set t
             | (Prop_Enum es _, DP_Enum e) \<Rightarrow> e < length es \<and> e < 256 \<and> distinct es
             | (Prop_Bitmap _ _, DP_Bitmap m) \<Rightarrow> m < 2 ^ 32
             | _ \<Rightarrow> False))"

text \<open>The item of an object gives its value back.\<close>

lemma enum_byte: "e < 256 \<Longrightarrow> enum_bytes (of_nat e) = [of_nat e] \<and> unat (of_nat e :: byte) = e"
  by (simp add: enum_bytes_def word_le_nat_alt unsigned_of_nat take_bit_eq_mod)

lemma find_nth_distinct: "distinct es \<Longrightarrow> e < length es \<Longrightarrow> find (\<lambda>j. es ! j = es ! e) [0..<length es] = Some e"
  by (auto simp: find_Some_iff nth_eq_iff_index_eq intro!: exI [of _ e])

lemma sint_value: "- (2 ^ 31) \<le> x \<Longrightarrow> x < 2 ^ 31 \<Longrightarrow> sint (word_of_int x :: u32) = x"
  by (simp add: signed_of_int signed_take_bit_int_eq_self)

lemma sint_bitmap: "m < 2 ^ 32 \<Longrightarrow> nat (sint (of_nat m :: u32) mod 2 ^ 32) = m"
proof -
  assume m: "m < 2 ^ 32"
  have "sint (of_nat m :: u32) mod 2 ^ 32 = uint (of_nat m :: u32)" by (simp add: uint_sint take_bit_eq_mod)
  also have "\<dots> = int m" using m by (simp add: unsigned_of_nat take_bit_eq_mod)
  finally show ?thesis by simp
qed

lemma rd32_be32_app [simp]: "rd32 (be32 w @ ys) 0 = w"
  using rd32_be32 [of "[]" w ys] by simp

lemma command_value:
  assumes "commandable schema dp" "dp_node_find schema (uint (o_id dp)) = Some i"
  shows "\<exists>item. req_item b64 (Some schema) (klv_of dp) = Some (Some item) \<and> recv_value (d_prop (s_node schema ! i)) item = Some (Some (o_value dp))
    \<and> (cj_type item = CJ_String \<longrightarrow> cj_string item \<noteq> None)"
proof (cases "o_value dp")
  case (DP_Bool b)
  then show ?thesis using assms by (auto simp: commandable_def klv_of_def req_item_def recv_value_def split: dp_prop.splits)
next
  case (DP_Value x)
  then show ?thesis using assms sint_value [of x] by (auto simp: commandable_def klv_of_def req_item_def recv_value_def split: dp_prop.splits)
next
  case (DP_Str t)
  then show ?thesis using assms c_string_text [of t] by (auto simp: commandable_def klv_of_def req_item_def recv_value_def split: dp_prop.splits)
next
  case (DP_Enum e)
  then obtain es c where p: "d_prop (s_node schema ! i) = Prop_Enum es c" "e < length es" "e < 256" "distinct es"
    using assms by (auto simp: commandable_def split: dp_prop.splits)
  then show ?thesis using assms(2) DP_Enum enum_byte [OF p(3)] find_nth_distinct [OF p(4,2)] by (simp add: klv_of_def req_item_def recv_value_def)
next
  case (DP_Bitmap m)
  then show ?thesis using assms sint_bitmap [of m] by (auto simp: commandable_def klv_of_def req_item_def recv_value_def split: dp_prop.splits)
next
  case (DP_Other t)
  then show ?thesis using assms by (auto simp: commandable_def split: dp_prop.splits)
qed

lemma command_item:
  assumes "commandable schema dp"
  shows "\<exists>item. req_item b64 (Some schema) (klv_of dp) = Some (Some item)
    \<and> item_ok schema (Some (nat_digits (unat (o_id dp))), item) \<and> item_obj now schema (Some (nat_digits (unat (o_id dp))), item) = Some (dp\<lparr>o_time := now\<rparr>)
    \<and> names_object schema (Some (nat_digits (unat (o_id dp))), item) \<and> item_raw dec schema (Some (nat_digits (unat (o_id dp))), item) = None"
proof -
  obtain i where i: "dp_node_find schema (uint (o_id dp)) = Some i" "d_type (s_node schema ! i) = T_OBJ"
    using assms by (auto simp: commandable_def split: option.splits)
  from command_value [OF assms i(1)] obtain item where v: "req_item b64 (Some schema) (klv_of dp) = Some (Some item)"
    "recv_value (d_prop (s_node schema ! i)) item = Some (Some (o_value dp))" "cj_type item = CJ_String \<longrightarrow> cj_string item \<noteq> None" by blast
  have a: "int (unat (o_id dp)) = uint (o_id dp)" by simp
  have n: "item_node schema (Some (nat_digits (unat (o_id dp))), item) = Some (s_node schema ! i)" using i(1) by (simp add: item_node_def atoi_digits)
  have d: "d_id (s_node schema ! i) = o_id dp" using node_find_Some(2) [OF i(1)] by (simp add: word_uint_eq_iff)
  show ?thesis using v n i(2) d by (intro exI [of _ item]) (simp add: item_ok_def item_obj_def item_raw_def names_object_def raw_item_def)
qed

lemma command_items:
  assumes "\<forall>dp \<in> set dps. commandable schema dp"
  shows "\<exists>xs. req_items b64 (Some schema) (map klv_of dps) = Some xs \<and> length xs = length dps \<and> (\<forall>x \<in> set xs. item_ok schema x)
    \<and> collect (item_obj now schema) xs = map (\<lambda>dp. dp\<lparr>o_time := now\<rparr>) dps \<and> filter (names_object schema) xs = xs \<and> collect (item_raw dec schema) xs = []"
  using assms
proof (induction dps)
  case (Cons dp dps)
  from Cons obtain xs where xs: "req_items b64 (Some schema) (map klv_of dps) = Some xs" "length xs = length dps" "\<forall>x \<in> set xs. item_ok schema x"
    "collect (item_obj now schema) xs = map (\<lambda>dp. dp\<lparr>o_time := now\<rparr>) dps" "filter (names_object schema) xs = xs" "collect (item_raw dec schema) xs = []" by auto
  from command_item [of schema dp b64 now dec] Cons.prems obtain item where "req_item b64 (Some schema) (klv_of dp) = Some (Some item)"
    "item_ok schema (Some (nat_digits (unat (o_id dp))), item)" "item_obj now schema (Some (nat_digits (unat (o_id dp))), item) = Some (dp\<lparr>o_time := now\<rparr>)"
    "names_object schema (Some (nat_digits (unat (o_id dp))), item)" "item_raw dec schema (Some (nat_digits (unat (o_id dp))), item) = None" by auto
  moreover have "k_id (klv_of dp) = o_id dp" by (simp add: klv_of_def split: dp_value.split)
  ultimately show ?case using xs by (intro exI [of _ "(Some (nat_digits (unat (o_id dp))), item) # xs"]) simp
qed simp

lemma commandable_sendable: "commandable schema dp \<Longrightarrow> sendable dp"
  by (auto simp: commandable_def sendable_def split: option.splits dp_prop.splits dp_value.splits)

text \<open>
  C24. A command crosses the whole device: the values that the application of the phone puts into a frame, for object points of their type, reach the
  application of the device as objects with the same identifiers and values. They arrive in the reverse order.
\<close>

theorem ble_command_delivered:
  assumes "dps \<noteq> []" "length dps < 65536" "\<forall>dp \<in> set dps. commandable schema dp" "length hdr = 5" "e_mem E"
    and "p_type req = FRM_DP_CMD_SEND_V4" "p_data req = hdr @ concat (map (\<lambda>dp. klv_bytes (klv_of dp)) dps)"
    and "result_code_resp_v4 E FRM_DP_CMD_SEND_V4 (p_sn req) (p_data req) 0 s = Some (r, s')"
  shows "\<exists>js schema'. ble_dp_req E b64 (Some schema) req s = Some (Inr (CJson CJ_Object None 0 [(Some ''dps'', js)]), s')
    \<and> dp_data_recv_parse dec True True now (Some schema) (Some js) = Some (OPRT_OK, Some schema', [Recv_Obj (map (\<lambda>dp. dp\<lparr>o_time := now\<rparr>) (rev dps))])"
proof -
  have b: "concat (map (\<lambda>dp. klv_bytes (klv_of dp)) dps) = concat (map klv_bytes (map klv_of dps))" by (simp add: o_def)
  have d: "data_2_klvlist True (drop 5 (p_data req)) = Inr (map klv_of (rev dps))"
    using klv_loop_bytes [of "map klv_of dps" "[]"] assms(1,3,4) sendable_len commandable_sendable unfolding data_2_klvlist_def assms(7) b by (auto simp: rev_map)
  obtain xs where xs: "req_items b64 (Some schema) (map klv_of (rev dps)) = Some xs" "length xs = length dps" "\<forall>x \<in> set xs. item_ok schema x"
    "collect (item_obj now schema) xs = map (\<lambda>dp. dp\<lparr>o_time := now\<rparr>) (rev dps)" "filter (names_object schema) xs = xs" "collect (item_raw dec schema) xs = []"
    using command_items [of "rev dps" schema b64 now dec] assms(3) by auto
  let ?js = "CJson CJ_Object None 0 xs"
  have "ble_dp_req E b64 (Some schema) req s = Some (Inr (CJson CJ_Object None 0 [(Some ''dps'', ?js)]), s')"
    using assms(5,6,8) d xs(1) by (simp add: ble_dp_req_def)
  moreover obtain schema' where "dp_data_recv_parse dec True True now (Some schema) (Some ?js) =
      Some (OPRT_OK, Some schema', [Recv_Obj (map (\<lambda>dp. dp\<lparr>o_time := now\<rparr>) (rev dps))])"
    using recv_result [of ?js schema dec now] xs assms(1,2) by auto
  ultimately show ?thesis by blast
qed

definition env_ble :: ble_env where
  "env_ble = \<lparr>e_md5 = (\<lambda>_. replicate 16 0), e_aes_enc = (\<lambda>k i x. Some x), e_tx = (\<lambda>_. OPRT_OK), e_mem = True, e_iv = (\<lambda>_. replicate 16 9)\<rparr>"

definition sys_demo :: ble_sys where
  "sys_demo = \<lparr>bs_mgr = demo_mgr\<lparr>is_paired := False\<rparr>, bs_glob = demo_globals, bs_air = [], bs_sn = 1\<rparr>"

definition req_demo :: ble_packet where
  "req_demo = \<lparr>p_sn = 3, p_type = FRM_DP_CMD_SEND_V4, p_data = [0, 0, 0, 0, 1, 1, DT_BOOL, 0, 1, 1, 2, DT_ENUM, 0, 1, 1], p_encrypt_mode = 15\<rparr>"

theorem ble_command_delivered_witness:
  "\<exists>js schema' s'. ble_dp_req env_ble (\<lambda>_. []) (Some recv_demo) req_demo sys_demo = Some (Inr (CJson CJ_Object None 0 [(Some ''dps'', js)]), s')
    \<and> dp_data_recv_parse (\<lambda>_. []) True True 7 (Some recv_demo) (Some js) = Some (OPRT_OK, Some schema',
        [Recv_Obj [\<lparr>o_id = 2, o_value = DP_Enum 1, o_time = 7\<rparr>, \<lparr>o_id = 1, o_value = DP_Bool True, o_time = 7\<rparr>]])"
proof -
  let ?dps = "[\<lparr>o_id = 1, o_value = DP_Bool True, o_time = 0\<rparr>, \<lparr>o_id = 2, o_value = DP_Enum 1, o_time = 0\<rparr>]"
  obtain r s' where r: "result_code_resp_v4 env_ble FRM_DP_CMD_SEND_V4 (p_sn req_demo) (p_data req_demo) 0 sys_demo = Some (r, s')"
    by (simp add: result_code_resp_v4_def dp_send_def tuya_ble_send_def tuya_ble_send_packet_def req_demo_def sys_demo_def)
  have "\<exists>js schema'. ble_dp_req env_ble (\<lambda>_. []) (Some recv_demo) req_demo sys_demo = Some (Inr (CJson CJ_Object None 0 [(Some ''dps'', js)]), s')
    \<and> dp_data_recv_parse (\<lambda>_. []) True True 7 (Some recv_demo) (Some js) = Some (OPRT_OK, Some schema',
        [Recv_Obj (map (\<lambda>dp. dp\<lparr>o_time := 7\<rparr>) (rev ?dps))])"
    by (rule ble_command_delivered [OF _ _ _ _ _ _ _ r, where hdr = "[0, 0, 0, 0, 1]"])
      (simp_all add: commandable_def recv_demo_simps env_ble_def req_demo_def klv_of_def klv_bytes_def enum_bytes_def be16_def del: upt_Suc)
  then show ?thesis by auto
qed

text \<open>
  What the Bluetooth side does not check. A command of fewer than five bytes is read beyond its end; an enumeration beyond its table is
  looked up outside of it; and a query follows a null pointer as long as some string point that can be read has no value yet.
\<close>

theorem ble_dp_unchecked:
  "(p_type req = FRM_DP_CMD_SEND_V4 \<and> length (p_data req) < 5 \<longrightarrow> ble_dp_req E b64 schema req s = None)
   \<and> (dp_node_find sc (uint a) = Some i \<and> d_prop (s_node sc ! i) = Prop_Enum es c \<and> length es \<le> unat e
        \<longrightarrow> req_item b64 (Some sc) \<lparr>k_id = a, k_type = DT_ENUM, k_data = [e]\<rparr> = None)
   \<and> (n \<in> set (s_node sc) \<and> d_mode n \<noteq> M_WR \<and> d_type n = T_OBJ \<and> d_prop n = Prop_Str mx cur None \<longrightarrow> ble_dp_query E (Some sc) req s = None)"
proof -
  have q: "n \<in> set ns \<Longrightarrow> d_mode n \<noteq> M_WR \<Longrightarrow> d_type n = T_OBJ \<Longrightarrow> d_prop n = Prop_Str mx cur None \<Longrightarrow> query_loop mem ns l = None" for ns mem l
  proof (induction ns arbitrary: l)
    case (Cons m ns)
    then show ?case by (cases "m = n") (auto simp: query_value_def split: bind_splits)
  qed simp
  then show ?thesis by (auto simp: ble_dp_req_def result_code_resp_v4_def req_item_def ble_dp_query_def split: bind_splits option.splits)
qed

theorem ble_dp_unchecked_witness:
  "ble_dp_req env_ble (\<lambda>_. []) (Some recv_demo) (req_demo\<lparr>p_data := []\<rparr>) sys_demo = None
   \<and> req_item (\<lambda>_. []) (Some recv_demo) \<lparr>k_id = 2, k_type = DT_ENUM, k_data = [2]\<rparr> = None
   \<and> ble_dp_query env_ble (Some (recv_demo\<lparr>s_node := [zero_node\<lparr>d_prop := Prop_Str 9 0 None\<rparr>]\<rparr>)) req_demo sys_demo = None"
proof -
  note u = ble_dp_unchecked [of _ env_ble "\<lambda>_. []" "Some recv_demo" sys_demo]
  have "ble_dp_req env_ble (\<lambda>_. []) (Some recv_demo) (req_demo\<lparr>p_data := []\<rparr>) sys_demo = None"
    using u [of "req_demo\<lparr>p_data := []\<rparr>"] by (simp add: req_demo_def)
  moreover have "req_item (\<lambda>_. []) (Some recv_demo) \<lparr>k_id = 2, k_type = DT_ENUM, k_data = [2]\<rparr> = None"
    using u [of req_demo recv_demo 2 1 "[''low'', ''high'']" 0 2] by (simp add: recv_demo_simps del: upt_Suc)
  moreover have "ble_dp_query env_ble (Some (recv_demo\<lparr>s_node := [zero_node\<lparr>d_prop := Prop_Str 9 0 None\<rparr>]\<rparr>)) req_demo sys_demo = None"
    using u [of req_demo "recv_demo\<lparr>s_node := [zero_node\<lparr>d_prop := Prop_Str 9 0 None\<rparr>]\<rparr>" _ _ _ _ _ "zero_node\<lparr>d_prop := Prop_Str 9 0 None\<rparr>" 9 0]
    by (simp add: zero_node_def)
  ultimately show ?thesis by simp
qed

end
