(* ===== verification/IotDp.thy ===== *)
theory IotDp
  imports MqttService BleDp Workqueue
begin

text \<open>
  The reports of data points to whoever listens (\<^verbatim>\<open>src/tuya_cloud_service/schema/tuya_iot_dp.c\<close>): over Bluetooth, over the local network or over the message service
  of the cloud, and the delayed work that uploads later what could not be confirmed. It joins the schema, the message service, the Bluetooth data points and the
  work queues. The object that the service hands back with a result holds the place of its schema in the table of schemas and the identifiers of the points reported;
  the printing of JSON, the answers of the platform and the local network are fields of \<open>iot_env\<close>.
\<close>

section \<open>Model\<close>

text \<open>The two callbacks with their data: \<^verbatim>\<open>dp_sync_cb\<close> and \<^verbatim>\<open>dp_raw_async_cb\<close>.\<close>

datatype iot_notify = Dp_Sync nat "byte list" | Dp_Raw_Async

record dp_recv_msg =
  rm_cmd :: nat
  rm_devid :: "string option"
  rm_js :: cjson

text \<open>Everything the reports touch but the message service itself; \<open>i_wire\<close> are the messages handed to its library, \<open>i_lan\<close> the texts for the local network,
  \<open>i_msgs\<close> the commands on their way to the worker and \<open>i_events\<close> the calls of the handler of the application.\<close>

record 's iot_dp =
  i_dsmgr :: dp_schema_mgr
  i_wq :: "'s wq_system_state"
  i_sync :: "nat option"
  i_ble :: "ble_sys option"
  i_lan :: "string option list"
  i_wire :: "(string \<times> byte list) list"
  i_msgs :: "nat \<Rightarrow> dp_recv_msg option"
  i_events :: "dp_event list"

record iot_client =
  c_active :: bool
  c_devid :: string
  c_handler :: bool

record iot_env =
  v_msgid :: "nat \<Rightarrow> u16"
  v_posix :: u32
  v_clock :: clock
  v_dw_mem :: "nat option"
  v_dw_tmem :: "nat option"
  v_print_str :: "string \<Rightarrow> string option"
  v_print_obj :: "(string \<times> dump_value) list \<Rightarrow> string option"
  v_number :: nat
  v_mem :: bool
  v_junk :: u16
  v_size_in :: nat
  v_size_obj :: nat
  v_lan_on :: bool
  v_lan_ret :: operate_ret
  v_ble :: ble_env
  v_client :: iot_client

abbreviation DP_SYNC_PROCESS :: nat where "DP_SYNC_PROCESS \<equiv> 21"
abbreviation CLIENT_DATA :: nat where "CLIENT_DATA \<equiv> 1"

text \<open>The delayed work is created with the first start.\<close>

definition tuya_iot_dp_sync_start :: "iot_env \<Rightarrow> u32 \<Rightarrow> 's iot_dp \<Rightarrow> operate_ret \<times> 's iot_dp" where
  "tuya_iot_dp_sync_start E timeout_s st =
     (let (ret, st) =
            (if i_sync st = None
             then (case tal_workq_init_delayed WORKQ_HIGHTPRI (Some DP_SYNC_PROCESS) (Some CLIENT_DATA) True (v_dw_mem E) (v_dw_tmem E) (i_wq st) of (ret, h, y) \<Rightarrow>
                     (ret, st\<lparr>i_wq := y, i_sync := h\<rparr>))
             else (OPRT_OK, st))
      in if ret \<noteq> OPRT_OK then (ret, st)
         else (case tal_workq_start_delayed (i_sync st) (timeout_s * 1000) TAL_TIMER_ONCE (v_clock E) (i_wq st) of (ret, y) \<Rightarrow> (ret, st\<lparr>i_wq := y\<rparr>)))"

text \<open>The points of a confirmed report are marked in their schema, which has to exist still.\<close>

definition dp_sync_cb :: "iot_env \<Rightarrow> operate_ret \<Rightarrow> nat \<Rightarrow> byte list \<Rightarrow> 's iot_dp \<Rightarrow> 's iot_dp option" where
  "dp_sync_cb E result slot ids st =
     (if result = OPRT_OK then
        (let m = i_dsmgr st
         in if slot < length (schema_list m)
            then do { schema \<leftarrow> schema_list m ! slot; Some (st\<lparr>i_dsmgr := m\<lparr>schema_list := (schema_list m)[slot := Some (acknowledged ids schema)]\<rparr>\<rparr>) }
            else None)
      else Some (snd (tuya_iot_dp_sync_start E 5 st)))"

primrec iot_call :: "iot_env \<Rightarrow> operate_ret \<Rightarrow> iot_notify \<Rightarrow> 's iot_dp \<Rightarrow> 's iot_dp option" where
  "iot_call E result (Dp_Sync slot ids) st = dp_sync_cb E result slot ids st"
| "iot_call E result Dp_Raw_Async st = Some st"

text \<open>The message service with this client.\<close>

definition iot_mqtt :: "iot_env \<Rightarrow> (iot_notify, 's iot_dp) mqtt_env" where
  "iot_mqtt E = \<lparr>mqtt_client_publish = (\<lambda>t p q st. (v_msgid E (length (i_wire st)), st\<lparr>i_wire := i_wire st @ [(t, p)]\<rparr>)),
     mqtt_client_subscribe = (\<lambda>t st. (1, st)), mqtt_client_unsubscribe = (\<lambda>t st. (1, st)), posix_now = (\<lambda>st. v_posix E), call_notify = iot_call E\<rparr>"

abbreviation PRO_DATA_PUSH :: u16 where "PRO_DATA_PUSH \<equiv> 4"

text \<open>
  The text around the values goes into a buffer of 64 bytes more than they have. Its length is cut to 16 bits on the way to the packer, which
  does not look at it: the text is packed up to its terminator.
\<close>

definition report_text :: "string \<Rightarrow> string \<Rightarrow> string option \<Rightarrow> string" where
  "report_text dev dps time = ''{\"devId\":\"'' @ dev @ ''\",\"dps\":'' @ dps @ (case time of None \<Rightarrow> [] | Some t \<Rightarrow> '',\"t\":'' @ t) @ ''}''"

definition tuya_iot_dp_report_json_common ::
    "iot_env \<Rightarrow> packer \<Rightarrow> string option \<Rightarrow> string option \<Rightarrow> iot_notify option \<Rightarrow> u32 \<Rightarrow> bool \<Rightarrow> iot_notify mqtt_context \<Rightarrow> 's iot_dp
       \<Rightarrow> (operate_ret \<times> packer \<times> iot_notify mqtt_context \<times> 's iot_dp) option" where
  "tuya_iot_dp_report_json_common E P dps time cb timeout_ms async ctx st =
     (case dps of
        None \<Rightarrow> Some (OPRT_INVALID_PARM, P, ctx, st)
      | Some d \<Rightarrow>
          if \<not> v_mem E then Some (OPRT_MALLOC_FAILED, P, ctx, st)
          else
            do {
              buffer \<leftarrow> sprintf_into (length d + (case time of None \<Rightarrow> 0 | Some t \<Rightarrow> length t) + 64) (report_text (c_devid (v_client E)) d time);
              (ret, P, context, st) \<leftarrow> tuya_mqtt_protocol_data_publish_common (iot_mqtt E) P (v_mem E) PRO_DATA_PUSH (Some (map of_char buffer)) cb timeout_ms async (Some ctx) st;
              Some (ret, P, the context, st)
            })"

definition tuya_iot_dp_report_json_async where
  "tuya_iot_dp_report_json_async E P dps time cb timeout_ms = tuya_iot_dp_report_json_common E P dps time cb timeout_ms True"

definition tuya_iot_dp_report_json_with_notify where
  "tuya_iot_dp_report_json_with_notify E P dps time cb timeout_ms = tuya_iot_dp_report_json_common E P dps time cb timeout_ms False"

text \<open>The place of the schema of a device; a missing identifier is compared with the schemas that exist.\<close>

definition slot_find :: "string option \<Rightarrow> dp_schema_mgr \<Rightarrow> nat option option" where
  "slot_find dev m =
     (case dev of
        None \<Rightarrow> if list_all (\<lambda>s. s = None) (schema_list m) then Some None else None
      | Some d \<Rightarrow> Some (find (\<lambda>k. case schema_list m ! k of None \<Rightarrow> False | Some s \<Rightarrow> devid s = d) [0..<length (schema_list m)]))"

text \<open>The work that uploads the points not confirmed yet. The answer of the publication is not looked at.\<close>

definition tuya_iot_dp_sync_process ::
    "iot_env \<Rightarrow> packer \<Rightarrow> iot_notify mqtt_context \<Rightarrow> 's iot_dp \<Rightarrow> (packer \<times> iot_notify mqtt_context \<times> 's iot_dp) option" where
  "tuya_iot_dp_sync_process E P ctx st =
     (let again = (\<lambda>st. case tal_workq_start_delayed (i_sync st) 5000 TAL_TIMER_ONCE (v_clock E) (i_wq st) of (_, y) \<Rightarrow> Some (P, ctx, st\<lparr>i_wq := y\<rparr>))
      in if \<not> tuya_mqtt_connected (Some ctx) then again st
         else
           do {
             found \<leftarrow> slot_find (Some (c_devid (v_client E))) (i_dsmgr st);
             slot \<leftarrow> found;
             (ret, out) \<leftarrow> dp_obj_dump_stat_local_json (v_print_obj E) (v_mem E, v_mem E) (v_mem E) (schema_list (i_dsmgr st) ! slot) 0;
             if ret \<noteq> OPRT_OK then again st
             else
               do {
                 (_, P, ctx, st) \<leftarrow> tuya_iot_dp_report_json_async E P (Option.bind out snd) None
                   (Some (Dp_Sync slot (case out of None \<Rightarrow> [] | Some (ids, _) \<Rightarrow> ids))) 5000 ctx st;
                 Some (P, ctx, st)
               }
           })"

section \<open>Reports\<close>

text \<open>
  The copy of the accepted objects for Bluetooth: the pointer behind the header is advanced by the square of the header's size, and the block has the size of the
  header and the objects. Of several objects with one identifier the last one is copied.
\<close>

definition ble_copy :: "nat \<Rightarrow> nat \<Rightarrow> byte list \<Rightarrow> dp_obj list \<Rightarrow> dp_obj list option" where
  "ble_copy size_in size_obj ids dps =
     (let block = size_in + size_obj * length ids
      in if \<forall>k < length ids. size_in * size_in + (k + 1) * size_obj \<le> block
         then Some (map (\<lambda>a. last (filter (\<lambda>dp. o_id dp = a) dps)) ids) else None)"

definition ble_report :: "iot_env \<Rightarrow> dp_rept_in \<Rightarrow> byte list \<Rightarrow> ble_sys \<Rightarrow> 's iot_dp \<Rightarrow> (operate_ret \<times> 's iot_dp) option" where
  "ble_report E dpin ids b st =
     (if \<not> v_mem E then Some (OPRT_MALLOC_FAILED, st)
      else
        do {
          dps \<leftarrow> ble_copy (v_size_in E) (v_size_obj E) ids (r_dps dpin);
          (ret, b) \<leftarrow> ble_dp_report (v_ble E) (unat (v_posix E)) (dpin\<lparr>r_dps := dps\<rparr>) (0, []) b;
          Some (ret, snd (tuya_iot_dp_sync_start E 5 (st\<lparr>i_ble := Some b\<rparr>)))
        })"

text \<open>The text of a report over the local network or the cloud; with neither the answer is a success.\<close>

definition net_report ::
    "iot_env \<Rightarrow> packer \<Rightarrow> nat \<Rightarrow> dp_schema \<Rightarrow> dp_rept_in \<Rightarrow> dp_rept_valid \<Rightarrow> iot_notify mqtt_context \<Rightarrow> 's iot_dp
       \<Rightarrow> (operate_ret \<times> packer \<times> iot_notify mqtt_context \<times> 's iot_dp) option" where
  "net_report E P slot schema dpin valid ctx st =
     do {
       r \<leftarrow> dp_rept_json_output (v_print_str E) (v_mem E, v_mem E) False schema dpin valid;
       case r of
         Inl err \<Rightarrow> Some (err, P, ctx, st)
       | Inr (txt, _) \<Rightarrow>
           if v_lan_on E then
             do {
               out \<leftarrow> dp_rept_json_append (v_mem E) schema txt None None 0;
               Some (v_lan_ret E, P, ctx, snd (tuya_iot_dp_sync_start E 5 (st\<lparr>i_lan := i_lan st @ [case out of Inl _ \<Rightarrow> None | Inr t \<Rightarrow> Some t]\<rparr>)))
             }
           else if tuya_mqtt_connected (Some ctx)
           then tuya_iot_dp_report_json_with_notify E P (Some txt) None (Some (Dp_Sync slot (v_dpid valid))) 5000 ctx st
           else Some (OPRT_OK, P, ctx, st)
     }"

text \<open>\<open>None\<close> for \<open>dps\<close> is a null pointer. The number of objects is cut to eight bits.\<close>

definition tuya_iot_dp_obj_report ::
    "iot_env \<Rightarrow> packer \<Rightarrow> string option \<Rightarrow> dp_obj list option \<Rightarrow> u32 \<Rightarrow> iot_notify mqtt_context \<Rightarrow> 's iot_dp
       \<Rightarrow> (operate_ret \<times> packer \<times> iot_notify mqtt_context \<times> 's iot_dp) option" where
  "tuya_iot_dp_obj_report E P dev dps flags ctx st =
     (if \<not> c_active (v_client E) then Some (OPRT_COM_ERROR, P, ctx, st)
      else if dps = None \<or> dps = Some [] then Some (OPRT_INVALID_PARM, P, ctx, st)
      else
        do {
          found \<leftarrow> slot_find dev (i_dsmgr st);
          case found of
            None \<Rightarrow> Some (OPRT_INVALID_PARM, P, ctx, st)
          | Some slot \<Rightarrow>
              if \<not> v_mem E then Some (OPRT_MALLOC_FAILED, P, ctx, st)
              else
                (let dpin = \<lparr>rept_type = T_OBJ_REPT, r_flags = flags, r_dps = take (length (the dps) mod 256) (the dps)\<rparr>;
                     schema = the (schema_list (i_dsmgr st) ! slot)
                 in case dp_rept_valid_check (v_number E) (\<lambda>_. v_mem E) schema dpin \<lparr>v_len = 0, v_timelen = v_junk E, v_dpid = []\<rparr> of (ret, schema, valid) \<Rightarrow>
                      (let st = st\<lparr>i_dsmgr := (i_dsmgr st)\<lparr>schema_list := (schema_list (i_dsmgr st))[slot := Some schema]\<rparr>\<rparr>
                       in if ret \<noteq> OPRT_OK then Some (ret, P, ctx, st)
                          else case i_ble st of
                                 Some b \<Rightarrow>
                                   if is_paired (bs_mgr b)
                                   then do { (ret, st) \<leftarrow> ble_report E dpin (v_dpid valid) b st; Some (ret, P, ctx, st) }
                                   else net_report E P slot schema dpin valid ctx st
                               | None \<Rightarrow> net_report E P slot schema dpin valid ctx st))
        })"

definition tuya_iot_dp_obj_dump :: "iot_env \<Rightarrow> string option \<Rightarrow> u32 \<Rightarrow> 's iot_dp \<Rightarrow> string option option" where
  "tuya_iot_dp_obj_dump E dev flags st =
     (if \<not> c_active (v_client E) then Some None
      else
        do {
          found \<leftarrow> slot_find (Some (case dev of None \<Rightarrow> c_devid (v_client E) | Some d \<Rightarrow> d)) (i_dsmgr st);
          dp_obj_dump_all_json (v_print_obj E) (v_mem E) (v_mem E) (Option.bind found (\<lambda>slot. schema_list (i_dsmgr st) ! slot)) flags
        })"

text \<open>The text of a raw point in a buffer of its computed size; \<open>b64\<close> is the base64 text of the data.\<close>

definition raw_size :: "nat \<Rightarrow> nat" where
  "raw_size len = len div 3 * 4 + (if len mod 3 \<noteq> 0 then 4 else 0) + 20 + 1"

definition raw_text :: "(byte list \<Rightarrow> string) \<Rightarrow> byte \<Rightarrow> byte list \<Rightarrow> string" where
  "raw_text b64 dpid data = ''{\"'' @ nat_digits (unat dpid) @ ''\":\"'' @ b64 data @ ''\"}''"

definition raw_net_report ::
    "iot_env \<Rightarrow> packer \<Rightarrow> string \<Rightarrow> nat \<Rightarrow> nat \<Rightarrow> u32 \<Rightarrow> iot_notify mqtt_context \<Rightarrow> 's iot_dp \<Rightarrow> (operate_ret \<times> packer \<times> iot_notify mqtt_context \<times> 's iot_dp) option" where
  "raw_net_report E P txt len slot timeout ctx st =
     (if \<not> v_mem E then Some (OPRT_MALLOC_FAILED, P, ctx, st)
      else
        do {
          txt \<leftarrow> sprintf_into (raw_size len) txt;
          if v_lan_on E then
            do {
              schema \<leftarrow> schema_list (i_dsmgr st) ! slot;
              out \<leftarrow> dp_rept_json_append (v_mem E) schema txt None None 0;
              Some (v_lan_ret E, P, ctx, st\<lparr>i_lan := i_lan st @ [case out of Inl _ \<Rightarrow> None | Inr t \<Rightarrow> Some t]\<rparr>)
            }
          else if tuya_mqtt_connected (Some ctx) then tuya_iot_dp_report_json_async E P (Some txt) None (Some Dp_Raw_Async) timeout ctx st
          else Some (OPRT_OK, P, ctx, st)
        })"

definition tuya_iot_dp_raw_report ::
    "iot_env \<Rightarrow> packer \<Rightarrow> (byte list \<Rightarrow> string) \<Rightarrow> string option \<Rightarrow> byte \<times> byte list \<Rightarrow> u32 \<Rightarrow> iot_notify mqtt_context \<Rightarrow> 's iot_dp
       \<Rightarrow> (operate_ret \<times> packer \<times> iot_notify mqtt_context \<times> 's iot_dp) option" where
  "tuya_iot_dp_raw_report E P b64 dev dp timeout ctx st =
     (if \<not> c_active (v_client E) then Some (OPRT_COM_ERROR, P, ctx, st)
      else
        do {
          found \<leftarrow> slot_find (Some (case dev of None \<Rightarrow> c_devid (v_client E) | Some d \<Rightarrow> d)) (i_dsmgr st);
          case found of
            None \<Rightarrow> Some (OPRT_INVALID_PARM, P, ctx, st)
          | Some slot \<Rightarrow>
              (case i_ble st of
                 Some b \<Rightarrow>
                   if is_paired (bs_mgr b)
                   then do {
                     (ret, b) \<leftarrow> ble_dp_report (v_ble E) (unat (v_posix E)) \<lparr>rept_type = T_RAW_REPT, r_flags = 0, r_dps = []\<rparr> dp b;
                     Some (ret, P, ctx, st\<lparr>i_ble := Some b\<rparr>)
                   }
                   else raw_net_report E P (raw_text b64 (fst dp) (snd dp)) (length (snd dp)) slot timeout ctx st
               | None \<Rightarrow> raw_net_report E P (raw_text b64 (fst dp) (snd dp)) (length (snd dp)) slot timeout ctx st)
        })"

section \<open>Commands\<close>

abbreviation DP_PARSE_ON_WORQ :: nat where "DP_PARSE_ON_WORQ \<equiv> 22"

text \<open>\<open>addr\<close> is the address of the message, if there is memory for it, and \<open>qmem\<close> the memory of the queue.\<close>

definition tuya_iot_dp_parse ::
    "'s sem_ops \<Rightarrow> iot_env \<Rightarrow> parse_env \<Rightarrow> nat option \<Rightarrow> bool \<Rightarrow> nat \<Rightarrow> cjson option \<Rightarrow> 's iot_dp \<Rightarrow> operate_ret \<times> 's iot_dp" where
  "tuya_iot_dp_parse S E J addr qmem cmd cmd_js st =
     (case cmd_js of
        None \<Rightarrow> (OPRT_CJSON_GET_ERR, st)
      | Some js \<Rightarrow>
          (case addr of
             None \<Rightarrow> (OPRT_MALLOC_FAILED, st)
           | Some a \<Rightarrow>
               (let dev = (case get_item J js ''devId'' of None \<Rightarrow> Some (c_devid (v_client E)) | Some item \<Rightarrow> cj_string item);
                    msg = \<lparr>rm_cmd = cmd, rm_devid = dev, rm_js = js\<rparr>
                in case tal_workq_schedule S WORKQ_HIGHTPRI (Some DP_PARSE_ON_WORQ) (Some a) qmem (i_wq st) of (ret, y) \<Rightarrow>
                     (ret, st\<lparr>i_msgs := (i_msgs st)(a := Some msg), i_wq := y\<rparr>))))"

definition tuya_iot_dp_event_dispatch :: "iot_env \<Rightarrow> dp_event list \<Rightarrow> dp_event list" where
  "tuya_iot_dp_event_dispatch E evs = (if c_handler (v_client E) then evs else [])"

definition tuya_iot_dp_parse_on_worq :: "iot_env \<Rightarrow> parse_env \<Rightarrow> (string \<Rightarrow> byte list) \<Rightarrow> nat \<Rightarrow> 's iot_dp \<Rightarrow> 's iot_dp option" where
  "tuya_iot_dp_parse_on_worq E J dec a st =
     do {
       msg \<leftarrow> i_msgs st a;
       found \<leftarrow> slot_find (rm_devid msg) (i_dsmgr st);
       (_, schema, evs) \<leftarrow> dp_data_recv_parse dec (v_mem E) (v_mem E) (unat (v_posix E)) (Option.bind found (\<lambda>slot. schema_list (i_dsmgr st) ! slot)) (get_item J (rm_js msg) ''dps'');
       Some (st\<lparr>i_dsmgr := (case found of None \<Rightarrow> i_dsmgr st | Some slot \<Rightarrow> (i_dsmgr st)\<lparr>schema_list := (schema_list (i_dsmgr st))[slot := schema]\<rparr>),
                i_msgs := (i_msgs st)(a := None), i_events := i_events st @ tuya_iot_dp_event_dispatch E evs\<rparr>)
     }"

section \<open>Confirmations\<close>

text \<open>Every pending confirmation belongs to a schema that exists.\<close>

definition schema_alive :: "'s iot_dp \<Rightarrow> nat \<Rightarrow> bool" where
  "schema_alive st slot \<longleftrightarrow> slot < length (schema_list (i_dsmgr st)) \<and> schema_list (i_dsmgr st) ! slot \<noteq> None"

definition confirmable :: "'s iot_dp \<Rightarrow> iot_notify \<Rightarrow> bool" where
  "confirmable st c \<longleftrightarrow> (case c of Dp_Sync slot ids \<Rightarrow> schema_alive st slot | Dp_Raw_Async \<Rightarrow> True)"

lemma sync_start_keeps:
  "i_dsmgr (snd (tuya_iot_dp_sync_start E s st)) = i_dsmgr st" "i_wire (snd (tuya_iot_dp_sync_start E s st)) = i_wire st"
  by (auto simp: tuya_iot_dp_sync_start_def Let_def split: prod.splits if_splits)

lemma iot_call_alive:
  assumes "confirmable st c"
  shows "\<exists>st'. iot_call E r c st = Some st' \<and> (\<forall>d. confirmable st d \<longrightarrow> confirmable st' d)"
proof (cases c)
  case (Dp_Sync slot ids)
  then obtain schema where s: "slot < length (schema_list (i_dsmgr st))" "schema_list (i_dsmgr st) ! slot = Some schema"
    using assms by (auto simp: confirmable_def schema_alive_def)
  show ?thesis
  proof (cases "r = OPRT_OK")
    case True
    then show ?thesis using Dp_Sync s by (auto simp: dp_sync_cb_def Let_def confirmable_def schema_alive_def nth_list_update split: iot_notify.splits)
  next
    case False
    then show ?thesis using Dp_Sync by (auto simp: dp_sync_cb_def confirmable_def schema_alive_def sync_start_keeps split: iot_notify.splits)
  qed
qed simp

definition all_confirmable :: "iot_notify multiset \<Rightarrow> 's iot_dp \<Rightarrow> bool" where
  "all_confirmable P st \<longleftrightarrow> (\<forall>c \<in># P. confirmable st c)"

interpretation iot: publication_client "iot_mqtt E" all_confirmable for E :: iot_env
proof
  fix c P and e :: "'a iot_dp" and r
  assume a: "all_confirmable (add_mset c P) e"
  then have "confirmable e c" by (simp add: all_confirmable_def)
  then obtain e' where "iot_call E r c e = Some e'" "\<forall>d. confirmable e d \<longrightarrow> confirmable e' d" using iot_call_alive by blast
  then show "\<exists>e'. call_notify (iot_mqtt E) r c e = Some e' \<and> all_confirmable P e'" using a by (auto simp: iot_mqtt_def all_confirmable_def)
qed (auto simp: iot_mqtt_def all_confirmable_def confirmable_def schema_alive_def split: iot_notify.splits)

text \<open>
  Confirmations are safe: as long as the schema of each pending report exists, an acknowledgement of the server, for any identifier, and a turn of the service find
  the schemas they mark, and keep the schemas of those that are left; an acknowledgement removes the report it belongs to.
\<close>

theorem confirmations_safe:
  fixes st :: "'s iot_dp"
  assumes "all_confirmable (mset (map pb_notify (publish_list ctx))) st"
  shows "(\<exists>ctx' st'. mqtt_client_puback_cb (iot_mqtt E) msgid ctx st = Some (ctx', st') \<and> all_confirmable (mset (map pb_notify (publish_list ctx'))) st'
      \<and> (msgid \<in> pb_msgid ` set (publish_list ctx) \<longrightarrow> length (publish_list ctx') < length (publish_list ctx)))
    \<and> (\<forall>hs st'. publish_loop (iot_mqtt E) (publish_list ctx) st = Some (hs, st') \<longrightarrow> all_confirmable (mset (map pb_notify hs)) st')"
proof -
  have "\<exists>hs' st'. puback_loop (iot_mqtt E) msgid (publish_list ctx) st = Some (hs', st') \<and> all_confirmable (mset (map pb_notify hs')) st'
      \<and> (msgid \<in> pb_msgid ` set (publish_list ctx) \<longrightarrow> length hs' < length (publish_list ctx))"
    using iot.puback_inv [of "publish_list ctx" "{#}" st E msgid] assms by auto
  then have "\<exists>ctx' st'. mqtt_client_puback_cb (iot_mqtt E) msgid ctx st = Some (ctx', st') \<and> all_confirmable (mset (map pb_notify (publish_list ctx'))) st'
      \<and> (msgid \<in> pb_msgid ` set (publish_list ctx) \<longrightarrow> length (publish_list ctx') < length (publish_list ctx))"
    by (force simp: mqtt_client_puback_cb_def)
  then show ?thesis using iot.publish_loop_inv [of "publish_list ctx" "{#}" st E] assms by auto
qed

section \<open>Uploading what is left\<close>

lemma find_own_id:
  assumes "distinct (map d_id (s_node schema))" "i < length (s_node schema)"
  shows "dp_node_find schema (uint (d_id (s_node schema ! i))) = Some i"
proof -
  let ?es = "map (\<lambda>n. uint (d_id n)) (s_node schema)"
  have "distinct ?es" using assms(1) by (auto simp: distinct_map inj_on_def) (metis word_uint_eq_iff)
  then have "find (\<lambda>j. ?es ! j = ?es ! i) [0..<length ?es] = Some i" using assms(2) by (intro find_nth_distinct) simp_all
  moreover have "find (\<lambda>j. ?es ! j = ?es ! i) [0..<length ?es] = find (\<lambda>j. uint (d_id (s_node schema ! j)) = ?es ! i) [0..<length ?es]"
    by (rule find_cong) (use assms(2) in auto)
  ultimately show ?thesis using assms(2) by (simp add: dp_node_find_def)
qed

lemma acknowledged_length [simp]: "length (s_node (acknowledged ids schema)) = length (s_node schema)"
  unfolding acknowledged_def by (induction ids arbitrary: schema) (auto simp: dp_pv_stat_set_def upd_node_def split: option.splits)

lemma acknowledged_nodes:
  assumes "distinct (map d_id (s_node schema))"
  shows "s_node (acknowledged ids schema) = map (\<lambda>n. if d_id n \<in> set ids then n\<lparr>pv_stat := PV_STAT_CLOUD\<rparr> else n) (s_node schema)"
  by (rule nth_equalityI) (use acknowledged_nth [OF find_own_id [OF assms]] in auto)

text \<open>A schema without raw points, as far as the upload is concerned.\<close>

definition objects_only :: "dp_schema \<Rightarrow> bool" where
  "objects_only schema \<longleftrightarrow> distinct (map d_id (s_node schema)) \<and> (\<forall>n \<in> set (s_node schema). d_type n = T_OBJ)"

lemma dump_local:
  assumes "objects_only schema" "create_all (filter stat_local (s_node schema)) = Some (len, ms)"
  shows "dp_obj_dump_stat_local_json print_obj (True, True) am (Some schema) 0 =
    (if filter stat_local (s_node schema) = [] then Some (OPRT_OK, None)
     else if len = 0 then Some (OPRT_SVC_DP_ID_NOT_FOUND, None)
     else case print_obj ms of None \<Rightarrow> Some (OPRT_CR_CJSON_ERR, None) | Some str \<Rightarrow> Some (OPRT_OK, Some (map d_id (filter stat_local (s_node schema)), Some str)))"
proof -
  have "filter (\<lambda>n. \<not> stat_cloud n) (s_node schema) = filter stat_local (s_node schema)"
    using assms(1) by (intro filter_cong) (auto simp: stat_cloud_def stat_local_def objects_only_def)
  then show ?thesis using assms(2) by (simp add: dp_obj_dump_stat_local_json_def split: option.split)
qed

text \<open>The connection to the cloud is up and can pack messages.\<close>

definition cloud_ready :: "iot_env \<Rightarrow> packer \<Rightarrow> iot_notify mqtt_context \<Rightarrow> bool" where
  "cloud_ready E P ctx \<longleftrightarrow> v_mem E \<and> is_inited ctx \<and> is_connected ctx \<and> gcm_ok (pk_cipher P) \<and> (\<forall>n. pk_alloc P n) \<and> length (take 16 (cipherkey (mq_signature ctx))) = 16
     \<and> length (nonce_bytes (pk_env P)) = 12 \<and> length (c_devid (v_client E)) < 45 \<and> CHR 0x00 \<notin> set (c_devid (v_client E))"

definition plain_text :: "string \<Rightarrow> bool" where
  "plain_text d \<longleftrightarrow> CHR 0x00 \<notin> set d \<and> length d < 2147480000"

lemma report_common:
  assumes "cloud_ready E P ctx" "plain_text d"
  obtains P' payload where
    "tuya_iot_dp_report_json_common E P (Some d) None (Some cb) timeout async ctx st =
       Some (OPRT_OK, P', ctx\<lparr>publish_list := publish_list ctx @ [\<lparr>pb_msgid = (if async then 0 else v_msgid E (length (i_wire st))), pb_timeout = v_posix E + timeout,
           pb_topic = topic_out (mq_signature ctx), pb_payload = payload, pb_notify = cb\<rparr>]\<rparr>,
         if async then st else st\<lparr>i_wire := i_wire st @ [(topic_out (mq_signature ctx), payload)]\<rparr>)"
    "tuya_parse_protocol_data (pk_cipher P) (pk_alloc P) DP_CMD_MQ (Some payload) (take 16 (cipherkey (mq_signature ctx))) =
       Some (OPRT_OK, Some (pack_json 4 (posix_time (pk_env P)) (map of_char (report_text (c_devid (v_client E)) d None)) @ [0]))"
proof -
  let ?txt = "report_text (c_devid (v_client E)) d None" and ?key = "take 16 (cipherkey (mq_signature ctx))"
  have len: "length ?txt < length d + 64" using assms(1) by (simp add: report_text_def cloud_ready_def)
  have nz: "0 \<notin> set (map of_char ?txt :: byte list)" using assms by (auto simp: of_char_zero report_text_def cloud_ready_def plain_text_def)
  obtain payload where p: "tuya_pack_protocol_data (pk_cipher P) (pk_alloc P) (pk_env P) DP_CMD_MQ (Some (map of_char ?txt)) (ucast PRO_DATA_PUSH) ?key (pk_serial P) =
      (Some (OPRT_OK, Some payload), tuya_pack_protocol_serial_no (serial_rnd (pk_env P)) (pk_serial P))"
    "tuya_parse_protocol_data (pk_cipher P) (pk_alloc P) DP_CMD_MQ (Some payload) ?key = Some (OPRT_OK, Some (pack_json (ucast PRO_DATA_PUSH) (posix_time (pk_env P)) (map of_char ?txt) @ [0]))"
    using mq_roundtrip [of "pk_cipher P" "pk_alloc P" ?key "pk_env P" "map of_char ?txt" "ucast PRO_DATA_PUSH" "pk_serial P"] nz len assms
    by (auto simp: cloud_ready_def plain_text_def)
  have f: "sprintf_into (length d + 64) ?txt = Some ?txt" using len by (simp add: sprintf_into_def)
  show ?thesis
  proof (rule that)
    show "tuya_iot_dp_report_json_common E P (Some d) None (Some cb) timeout async ctx st =
       Some (OPRT_OK, P\<lparr>pk_serial := tuya_pack_protocol_serial_no (serial_rnd (pk_env P)) (pk_serial P)\<rparr>,
         ctx\<lparr>publish_list := publish_list ctx @ [\<lparr>pb_msgid = (if async then 0 else v_msgid E (length (i_wire st))), pb_timeout = v_posix E + timeout,
           pb_topic = topic_out (mq_signature ctx), pb_payload = payload, pb_notify = cb\<rparr>]\<rparr>,
         if async then st else st\<lparr>i_wire := i_wire st @ [(topic_out (mq_signature ctx), payload)]\<rparr>)"
      using f p(1) assms(1) by (simp add: tuya_iot_dp_report_json_common_def cloud_ready_def tuya_mqtt_protocol_data_publish_common_def iot_mqtt_def
        tuya_mqtt_protocol_data_publish_with_topic_common_def tuya_mqtt_client_publish_common_def)
  qed (use p(2) in simp)
qed

text \<open>A device whose schema stands at a place of the table.\<close>

definition device_at :: "iot_env \<Rightarrow> nat \<Rightarrow> dp_schema \<Rightarrow> 's iot_dp \<Rightarrow> bool" where
  "device_at E slot schema st \<longleftrightarrow> slot_find (Some (c_devid (v_client E))) (i_dsmgr st) = Some (Some slot)
     \<and> slot < length (schema_list (i_dsmgr st)) \<and> schema_list (i_dsmgr st) ! slot = Some schema"

definition put_schema :: "nat \<Rightarrow> dp_schema \<Rightarrow> 's iot_dp \<Rightarrow> 's iot_dp" where
  "put_schema slot schema st = st\<lparr>i_dsmgr := (i_dsmgr st)\<lparr>schema_list := (schema_list (i_dsmgr st))[slot := Some schema]\<rparr>\<rparr>"

lemma put_schema_device:
  assumes "device_at E slot schema st" "devid schema' = devid schema"
  shows "device_at E slot schema' (put_schema slot schema' st)"
proof -
  let ?l = "schema_list (i_dsmgr st)"
  have "find (\<lambda>k. case ?l[slot := Some schema'] ! k of None \<Rightarrow> False | Some s \<Rightarrow> devid s = d) [0..<length ?l] =
      find (\<lambda>k. case ?l ! k of None \<Rightarrow> False | Some s \<Rightarrow> devid s = d) [0..<length ?l]" for d
    by (rule find_cong) (use assms in \<open>auto simp: device_at_def nth_list_update\<close>)
  then show ?thesis using assms by (simp add: device_at_def put_schema_def slot_find_def)
qed

lemma acknowledged_devid [simp]: "devid (acknowledged ids schema) = devid schema"
  unfolding acknowledged_def by (induction ids arbitrary: schema) (auto simp: dp_pv_stat_set_def upd_node_def split: option.splits)

lemma sync_confirmed:
  assumes "device_at E slot schema st"
  shows "dp_sync_cb E OPRT_OK slot ids st = Some (put_schema slot (acknowledged ids schema) st)"
    and "device_at E slot (acknowledged ids schema) (put_schema slot (acknowledged ids schema) st)"
  using assms put_schema_device [OF assms, of "acknowledged ids schema"] by (simp_all add: dp_sync_cb_def Let_def device_at_def put_schema_def)

lemma sync_idle:
  assumes "device_at E slot schema st" "filter stat_local (s_node schema) = []" "is_connected ctx"
  shows "tuya_iot_dp_sync_process E P ctx st = Some (P, ctx, st)"
  using assms by (simp add: tuya_iot_dp_sync_process_def device_at_def tuya_mqtt_connected_def dp_obj_dump_stat_local_json_def
      tuya_iot_dp_report_json_async_def tuya_iot_dp_report_json_common_def)

text \<open>
  C20. The upload catches up. For a device all of whose points are object points, at least one of them not confirmed and their values such that they can be dumped and printed: on a connection that is
  up, the work sends the values of exactly the points that are not confirmed, in one message that the cloud can
  read; once it is acknowledged no point is left, the values are unchanged, and the work has nothing to send.
\<close>

theorem sync_catches_up:
  assumes "cloud_ready E P ctx" "device_at E slot schema st" "objects_only schema"
    and "create_all (filter stat_local (s_node schema)) = Some (len, ms)" "len > 0" "v_print_obj E ms = Some txt" "plain_text txt"
  shows "\<exists>P' h st'. tuya_iot_dp_sync_process E P ctx st = Some (P', ctx\<lparr>publish_list := publish_list ctx @ [h]\<rparr>, st)
    \<and> tuya_parse_protocol_data (pk_cipher P) (pk_alloc P) DP_CMD_MQ (Some (pb_payload h)) (take 16 (cipherkey (mq_signature ctx))) =
        Some (OPRT_OK, Some (pack_json 4 (posix_time (pk_env P)) (map of_char (report_text (c_devid (v_client E)) txt None)) @ [0]))
    \<and> iot_call E OPRT_OK (pb_notify h) st = Some st'
    \<and> (\<exists>schema'. device_at E slot schema' st' \<and> filter stat_local (s_node schema') = [] \<and> map d_prop (s_node schema') = map d_prop (s_node schema))
    \<and> tuya_iot_dp_sync_process E P' ctx st' = Some (P', ctx, st')"
proof -
  let ?ids = "map d_id (filter stat_local (s_node schema))" and ?s = "acknowledged (map d_id (filter stat_local (s_node schema))) schema"
  have up: "v_mem E" "is_connected ctx" using assms(1) by (simp_all add: cloud_ready_def)
  have ne: "filter stat_local (s_node schema) \<noteq> []" using assms(4,5) by auto
  obtain P' payload where r: "tuya_iot_dp_report_json_common E P (Some txt) None (Some (Dp_Sync slot ?ids)) 5000 True ctx st =
       Some (OPRT_OK, P', ctx\<lparr>publish_list := publish_list ctx @ [\<lparr>pb_msgid = (if True then 0 else v_msgid E (length (i_wire st))), pb_timeout = v_posix E + 5000,
           pb_topic = topic_out (mq_signature ctx), pb_payload = payload, pb_notify = Dp_Sync slot ?ids\<rparr>]\<rparr>,
         if True then st else st\<lparr>i_wire := i_wire st @ [(topic_out (mq_signature ctx), payload)]\<rparr>)"
    "tuya_parse_protocol_data (pk_cipher P) (pk_alloc P) DP_CMD_MQ (Some payload) (take 16 (cipherkey (mq_signature ctx))) =
       Some (OPRT_OK, Some (pack_json 4 (posix_time (pk_env P)) (map of_char (report_text (c_devid (v_client E)) txt None)) @ [0]))"
    by (rule report_common [OF assms(1,7)])
  let ?h = "\<lparr>pb_msgid = 0, pb_timeout = v_posix E + 5000, pb_topic = topic_out (mq_signature ctx), pb_payload = payload, pb_notify = Dp_Sync slot ?ids\<rparr>"
  have "tuya_iot_dp_sync_process E P ctx st = Some (P', ctx\<lparr>publish_list := publish_list ctx @ [?h]\<rparr>, st)"
    using r(1) up assms(2,5,6) ne dump_local [OF assms(3,4), of "v_print_obj E" True]
    by (simp add: tuya_iot_dp_sync_process_def device_at_def tuya_mqtt_connected_def tuya_iot_dp_report_json_async_def)
  moreover have nodes: "s_node ?s = map (\<lambda>n. if d_id n \<in> set ?ids then n\<lparr>pv_stat := PV_STAT_CLOUD\<rparr> else n) (s_node schema)"
    using acknowledged_nodes assms(3) by (simp add: objects_only_def)
  have l: "filter stat_local (s_node ?s) = []" unfolding nodes by (auto simp: filter_empty_conv stat_local_def)
  have v: "map d_prop (s_node ?s) = map d_prop (s_node schema)" unfolding nodes by simp
  note c = sync_confirmed [OF assms(2), of ?ids]
  have "tuya_iot_dp_sync_process E P' ctx (put_schema slot ?s st) = Some (P', ctx, put_schema slot ?s st)" by (rule sync_idle [OF c(2) l up(2)])
  ultimately show ?thesis using r(2) c l v by (intro exI [of _ P'] exI [of _ ?h] exI [of _ "put_schema slot ?s st"]) auto
qed

text \<open>
  A late confirmation hides a newer value: when a point is reported again before the first report is confirmed, the confirmation of the first marks the point as uploaded.
  If the second report then fails, the upload that its failure starts has nothing to send, and the newer value never reaches the cloud.
\<close>

theorem late_confirmation_hides:
  assumes "device_at E slot schema st" "distinct (map d_id (s_node schema))" "is_connected ctx"
    and "\<forall>n \<in> set (s_node schema). stat_local n \<longrightarrow> d_id n \<in> set ids"
  shows "\<exists>st1 st2 schema2. iot_call E OPRT_OK (Dp_Sync slot ids) st = Some st1 \<and> iot_call E OPRT_TIMEOUT (Dp_Sync slot newer) st1 = Some st2
    \<and> tuya_iot_dp_sync_process E P ctx st2 = Some (P, ctx, st2)
    \<and> i_wire st2 = i_wire st \<and> device_at E slot schema2 st2 \<and> map d_prop (s_node schema2) = map d_prop (s_node schema)"
proof -
  let ?s = "acknowledged ids schema" and ?st1 = "put_schema slot (acknowledged ids schema) st"
  let ?st2 = "snd (tuya_iot_dp_sync_start E 5 ?st1)"
  note c = sync_confirmed [OF assms(1), of ids]
  have nodes: "s_node ?s = map (\<lambda>n. if d_id n \<in> set ids then n\<lparr>pv_stat := PV_STAT_CLOUD\<rparr> else n) (s_node schema)" by (rule acknowledged_nodes [OF assms(2)])
  have l: "filter stat_local (s_node ?s) = []" unfolding nodes using assms(4) by (auto simp: filter_empty_conv stat_local_def)
  have d: "device_at E slot ?s ?st2" using c(2) by (simp add: device_at_def sync_start_keeps)
  have "tuya_iot_dp_sync_process E P ctx ?st2 = Some (P, ctx, ?st2)" by (rule sync_idle [OF d l assms(3)])
  moreover have "iot_call E OPRT_TIMEOUT (Dp_Sync slot newer) ?st1 = Some ?st2" by (simp add: dp_sync_cb_def)
  moreover have "i_wire ?st2 = i_wire st" by (simp add: sync_start_keeps put_schema_def)
  moreover have "map d_prop (s_node ?s) = map d_prop (s_node schema)" unfolding nodes by simp
  ultimately show ?thesis using c(1) d by (intro exI [of _ ?st1] exI [of _ ?st2] exI [of _ ?s]) simp
qed

section \<open>Reports\<close>

lemma report_checked:
  assumes "c_active (v_client E)" "dps \<noteq> []" "length dps < 256" "v_mem E" "slot_find dev (i_dsmgr st) = Some (Some slot)" "schema_list (i_dsmgr st) ! slot = Some schema"
    and "dp_rept_valid_check (v_number E) (\<lambda>_. True) schema \<lparr>rept_type = T_OBJ_REPT, r_flags = flags, r_dps = dps\<rparr> \<lparr>v_len = 0, v_timelen = v_junk E, v_dpid = []\<rparr> = (OPRT_OK, schema', valid)"
  shows "tuya_iot_dp_obj_report E P dev (Some dps) flags ctx st =
    (let dpin = \<lparr>rept_type = T_OBJ_REPT, r_flags = flags, r_dps = dps\<rparr>; st = put_schema slot schema' st
     in case i_ble st of
          Some b \<Rightarrow> if is_paired (bs_mgr b) then do { (ret, st) \<leftarrow> ble_report E dpin (v_dpid valid) b st; Some (ret, P, ctx, st) }
                    else net_report E P slot schema' dpin valid ctx st
        | None \<Rightarrow> net_report E P slot schema' dpin valid ctx st)"
  using assms by (simp add: tuya_iot_dp_obj_report_def put_schema_def Let_def)

lemma check_lists:
  "dp_rept_valid_check num mem schema dpin v = (OPRT_OK, schema', v') \<Longrightarrow> v_dpid v' \<noteq> []"
  by (auto simp: dp_rept_valid_check_def split: prod.splits if_splits)

text \<open>
  While a phone is connected over Bluetooth, every report of objects that passes the check is written outside of the memory allocated for it: the pointer to
  the objects is advanced by as many headers as a header has bytes.
\<close>

theorem ble_report_corrupts:
  assumes "c_active (v_client E)" "dps \<noteq> []" "length dps < 256" "v_mem E" "slot_find dev (i_dsmgr st) = Some (Some slot)" "schema_list (i_dsmgr st) ! slot = Some schema"
    and "dp_rept_valid_check (v_number E) (\<lambda>_. True) schema \<lparr>rept_type = T_OBJ_REPT, r_flags = flags, r_dps = dps\<rparr> \<lparr>v_len = 0, v_timelen = v_junk E, v_dpid = []\<rparr> = (OPRT_OK, schema', valid)"
    and "i_ble st = Some b" "is_paired (bs_mgr b)" "1 < v_size_in E"
  shows "tuya_iot_dp_obj_report E P dev (Some dps) flags ctx st = None"
proof -
  let ?k = "length (v_dpid valid) - 1"
  have k: "?k < length (v_dpid valid)" using check_lists [OF assms(7)] by simp
  then have "?k + 1 = length (v_dpid valid)" by simp
  then have e: "(?k + 1) * v_size_obj E = v_size_obj E * length (v_dpid valid)" by (simp only: mult.commute)
  have "v_size_in E < v_size_in E * v_size_in E" using assms(10) by simp
  then have "\<not> v_size_in E * v_size_in E + (?k + 1) * v_size_obj E \<le> v_size_in E + v_size_obj E * length (v_dpid valid)"
    unfolding e by linarith
  then have "ble_copy (v_size_in E) (v_size_obj E) (v_dpid valid) dps = None" using k unfolding ble_copy_def Let_def by auto
  then show ?thesis using assms(8,9) unfolding report_checked [OF assms(1-7)] by (simp add: ble_report_def put_schema_def assms(4))
qed

lemma puback_last:
  "msgid \<notin> pb_msgid ` set hs \<Longrightarrow> pb_msgid h = msgid \<Longrightarrow> puback_loop M msgid (hs @ [h]) e = do { e \<leftarrow> call_notify M OPRT_OK (pb_notify h) e; Some (hs, e) }"
  by (induction hs) (auto split: bind_splits)

text \<open>No phone is connected.\<close>

definition ble_off :: "'s iot_dp \<Rightarrow> bool" where
  "ble_off st \<longleftrightarrow> (case i_ble st of None \<Rightarrow> True | Some b \<Rightarrow> \<not> is_paired (bs_mgr b))"

lemma report_over_net:
  assumes "c_active (v_client E)" "dps \<noteq> []" "length dps < 256" "v_mem E" "slot_find dev (i_dsmgr st) = Some (Some slot)" "schema_list (i_dsmgr st) ! slot = Some schema"
    and "dp_rept_valid_check (v_number E) (\<lambda>_. True) schema \<lparr>rept_type = T_OBJ_REPT, r_flags = flags, r_dps = dps\<rparr> \<lparr>v_len = 0, v_timelen = v_junk E, v_dpid = []\<rparr> = (OPRT_OK, schema', valid)"
    and "ble_off st"
  shows "tuya_iot_dp_obj_report E P dev (Some dps) flags ctx st =
    net_report E P slot schema' \<lparr>rept_type = T_OBJ_REPT, r_flags = flags, r_dps = dps\<rparr> valid ctx (put_schema slot schema' st)"
  unfolding report_checked [OF assms(1-7)] using assms(8) by (simp add: Let_def put_schema_def ble_off_def split: option.splits)

text \<open>
  C19. A report over the cloud arrives and is confirmed: the message handed to the network is one that the cloud reads as the text of the report, the report waits for
  its acknowledgement, and the acknowledgement removes it and marks exactly its points as uploaded.
\<close>

theorem report_reaches_cloud:
  assumes "c_active (v_client E)" "dps \<noteq> []" "length dps < 256" "v_mem E" "slot_find dev (i_dsmgr st) = Some (Some slot)" "schema_list (i_dsmgr st) ! slot = Some schema"
    and "dp_rept_valid_check (v_number E) (\<lambda>_. True) schema \<lparr>rept_type = T_OBJ_REPT, r_flags = flags, r_dps = dps\<rparr> \<lparr>v_len = 0, v_timelen = v_junk E, v_dpid = []\<rparr> = (OPRT_OK, schema', valid)"
    and "ble_off st" "\<not> v_lan_on E" "cloud_ready E P ctx"
    and "dp_rept_json_output (v_print_str E) (True, True) False schema' \<lparr>rept_type = T_OBJ_REPT, r_flags = flags, r_dps = dps\<rparr> valid = Some (Inr (txt, tms))" "plain_text txt"
    and "v_msgid E (length (i_wire st)) \<notin> pb_msgid ` set (publish_list ctx)" "slot < length (schema_list (i_dsmgr st))"
  shows "\<exists>P' ctx' st' payload. tuya_iot_dp_obj_report E P dev (Some dps) flags ctx st = Some (OPRT_OK, P', ctx', st')
    \<and> i_wire st' = i_wire st @ [(topic_out (mq_signature ctx), payload)]
    \<and> tuya_parse_protocol_data (pk_cipher P) (pk_alloc P) DP_CMD_MQ (Some payload) (take 16 (cipherkey (mq_signature ctx))) =
        Some (OPRT_OK, Some (pack_json 4 (posix_time (pk_env P)) (map of_char (report_text (c_devid (v_client E)) txt None)) @ [0]))
    \<and> length (publish_list ctx') = length (publish_list ctx) + 1
    \<and> mqtt_client_puback_cb (iot_mqtt E) (v_msgid E (length (i_wire st))) ctx' st' = Some (ctx, put_schema slot (acknowledged (v_dpid valid) schema') st')"
proof -
  let ?st = "put_schema slot schema' st" and ?id = "v_msgid E (length (i_wire st))"
  have up: "is_connected ctx" using assms(10) by (simp add: cloud_ready_def)
  obtain P' payload where r: "tuya_iot_dp_report_json_common E P (Some txt) None (Some (Dp_Sync slot (v_dpid valid))) 5000 False ctx ?st =
       Some (OPRT_OK, P', ctx\<lparr>publish_list := publish_list ctx @ [\<lparr>pb_msgid = (if False then 0 else v_msgid E (length (i_wire ?st))), pb_timeout = v_posix E + 5000,
           pb_topic = topic_out (mq_signature ctx), pb_payload = payload, pb_notify = Dp_Sync slot (v_dpid valid)\<rparr>]\<rparr>,
         if False then ?st else ?st\<lparr>i_wire := i_wire ?st @ [(topic_out (mq_signature ctx), payload)]\<rparr>)"
    "tuya_parse_protocol_data (pk_cipher P) (pk_alloc P) DP_CMD_MQ (Some payload) (take 16 (cipherkey (mq_signature ctx))) =
       Some (OPRT_OK, Some (pack_json 4 (posix_time (pk_env P)) (map of_char (report_text (c_devid (v_client E)) txt None)) @ [0]))"
    by (rule report_common [OF assms(10,12)])
  define h where "h = \<lparr>pb_msgid = ?id, pb_timeout = v_posix E + 5000, pb_topic = topic_out (mq_signature ctx), pb_payload = payload, pb_notify = Dp_Sync slot (v_dpid valid)\<rparr>"
  define st' where "st' = ?st\<lparr>i_wire := i_wire st @ [(topic_out (mq_signature ctx), payload)]\<rparr>"
  have rep: "tuya_iot_dp_obj_report E P dev (Some dps) flags ctx st = Some (OPRT_OK, P', ctx\<lparr>publish_list := publish_list ctx @ [h]\<rparr>, st')"
    unfolding report_over_net [OF assms(1-8)] h_def st'_def using assms(4,9,11) up r(1)
    by (simp add: net_report_def tuya_mqtt_connected_def tuya_iot_dp_report_json_with_notify_def put_schema_def)
  have s: "slot < length (schema_list (i_dsmgr st'))" "schema_list (i_dsmgr st') ! slot = Some schema'" using assms(14) by (simp_all add: st'_def put_schema_def)
  have "call_notify (iot_mqtt E) OPRT_OK (pb_notify h) st' = Some (put_schema slot (acknowledged (v_dpid valid) schema') st')"
    using s by (simp add: iot_mqtt_def h_def dp_sync_cb_def Let_def put_schema_def)
  then have "mqtt_client_puback_cb (iot_mqtt E) ?id (ctx\<lparr>publish_list := publish_list ctx @ [h]\<rparr>) st' = Some (ctx, put_schema slot (acknowledged (v_dpid valid) schema') st')"
    using assms(13) puback_last [of ?id "publish_list ctx" h "iot_mqtt E" st'] by (simp add: mqtt_client_puback_cb_def h_def)
  then show ?thesis using rep r(2) by (auto simp: st'_def put_schema_def)
qed

text \<open>
  Without a channel a report is accepted all the same: the answer is a success, the value is in the cache, but nothing is sent, nothing waits and no upload is started.
\<close>

theorem report_without_channel:
  assumes "c_active (v_client E)" "dps \<noteq> []" "length dps < 256" "v_mem E" "slot_find dev (i_dsmgr st) = Some (Some slot)" "schema_list (i_dsmgr st) ! slot = Some schema"
    and "dp_rept_valid_check (v_number E) (\<lambda>_. True) schema \<lparr>rept_type = T_OBJ_REPT, r_flags = flags, r_dps = dps\<rparr> \<lparr>v_len = 0, v_timelen = v_junk E, v_dpid = []\<rparr> = (OPRT_OK, schema', valid)"
    and "ble_off st" "\<not> v_lan_on E" "\<not> is_connected ctx"
    and "dp_rept_json_output (v_print_str E) (True, True) False schema' \<lparr>rept_type = T_OBJ_REPT, r_flags = flags, r_dps = dps\<rparr> valid = Some (Inr (txt, tms))"
  shows "tuya_iot_dp_obj_report E P dev (Some dps) flags ctx st = Some (OPRT_OK, P, ctx, put_schema slot schema' st)"
  unfolding report_over_net [OF assms(1-8)] using assms(4,9-11) by (simp add: net_report_def tuya_mqtt_connected_def)

text \<open>The text of a raw point fits its buffer, when the base64 text has the length it should have.\<close>

lemma raw_text_fits:
  assumes "length (b64 data) = (length data + 2) div 3 * 4"
  shows "length (raw_text b64 dpid data) < raw_size (length data)"
  using assms length_byte_digits [of dpid] div3_round_up [of "length data"] by (simp add: raw_text_def raw_size_def)

section \<open>A device\<close>

definition env_iot :: iot_env where
  "env_iot = \<lparr>v_msgid = (\<lambda>n. of_nat n + 1), v_posix = 100, v_clock = (0, 0), v_dw_mem = Some 5, v_dw_tmem = Some 6,
     v_print_str = (\<lambda>s. Some (''\"'' @ s @ ''\"'')), v_print_obj = (\<lambda>_. Some ''{}''), v_number = 8, v_mem = True, v_junk = 0, v_size_in = 16, v_size_obj = 12,
     v_lan_on = False, v_lan_ret = OPRT_OK, v_ble = env_ble, v_client = \<lparr>c_active = True, c_devid = ''dev'', c_handler = True\<rparr>\<rparr>"

definition iot_demo :: "dp_schema \<Rightarrow> ble_sys option \<Rightarrow> nat iot_dp" where
  "iot_demo schema b = \<lparr>i_dsmgr = \<lparr>schema_num = 1, schema_list = [Some schema]\<rparr>,
     i_wq = \<lparr>wq_heap = (\<lambda>_. None), dw_heap = (\<lambda>_. None), tmr = timer_demo, wq_system = None, wq_highpri = None\<rparr>,
     i_sync = None, i_ble = b, i_lan = [], i_wire = [], i_msgs = (\<lambda>_. None), i_events = []\<rparr>"

definition packer_demo :: packer where
  "packer_demo = \<lparr>pk_cipher = xor_cipher, pk_alloc = (\<lambda>_. True), pk_env = \<lparr>posix_time = 1000, nonce_bytes = replicate 12 48, serial_rnd = 9\<rparr>, pk_serial = 1\<rparr>"

definition cloud_demo :: "iot_notify mqtt_context" where
  "cloud_demo = context_zero\<lparr>is_inited := True, is_connected := True\<rparr>"

lemma demo_ready: "cloud_ready env_iot packer_demo cloud_demo"
  by (simp add: cloud_ready_def env_iot_def packer_demo_def cloud_demo_def context_zero_def xor_cipher_ok)

lemma demo_device: "devid schema = ''dev'' \<Longrightarrow> device_at env_iot 0 schema (iot_demo schema b)"
  by (simp add: device_at_def slot_find_def env_iot_def iot_demo_def)

theorem confirmations_safe_witness:
  "\<exists>ctx' st'. mqtt_client_puback_cb (iot_mqtt env_iot) 4
       (cloud_demo\<lparr>publish_list := [\<lparr>pb_msgid = 4, pb_timeout = 9, pb_topic = [], pb_payload = [], pb_notify = Dp_Sync 0 [1]\<rparr>]\<rparr>) (iot_demo report_demo None) = Some (ctx', st')
     \<and> publish_list ctx' = []"
proof -
  let ?ctx = "cloud_demo\<lparr>publish_list := [\<lparr>pb_msgid = 4, pb_timeout = 9, pb_topic = [], pb_payload = [], pb_notify = Dp_Sync 0 [1]\<rparr>]\<rparr>"
  have a: "all_confirmable (mset (map pb_notify (publish_list ?ctx))) (iot_demo report_demo None)"
    by (simp add: all_confirmable_def confirmable_def schema_alive_def iot_demo_def)
  show ?thesis using confirmations_safe [OF a, of env_iot 4] by auto
qed

theorem sync_catches_up_witness:
  "\<exists>P' h st'. tuya_iot_dp_sync_process env_iot packer_demo cloud_demo (iot_demo reported_demo None) = Some (P', cloud_demo\<lparr>publish_list := [h]\<rparr>, iot_demo reported_demo None)
     \<and> iot_call env_iot OPRT_OK (pb_notify h) (iot_demo reported_demo None) = Some st' \<and> tuya_iot_dp_sync_process env_iot P' cloud_demo st' = Some (P', cloud_demo, st')"
proof -
  have o: "objects_only reported_demo" by (simp add: objects_only_def reported_demo_def zero_node_def)
  have c: "create_all (filter stat_local (s_node reported_demo)) = Some (32, [(nat_digits 1, Dump_Bool True), (nat_digits 2, Dump_Num 0), (nat_digits 3, Dump_Str ''hi'')])"
    by (simp add: reported_demo_def zero_node_def stat_local_def dp_obj_json_create_def)
  have d: "device_at env_iot 0 reported_demo (iot_demo reported_demo None)" by (rule demo_device) (simp add: reported_demo_def report_demo_def)
  show ?thesis using sync_catches_up [OF demo_ready d o c, of "''{}''"] by (auto simp: env_iot_def plain_text_def cloud_demo_def context_zero_def)
qed

theorem late_confirmation_hides_witness:
  "\<exists>st1 st2. iot_call env_iot OPRT_OK (Dp_Sync 0 [1, 2, 3]) (iot_demo reported_demo None) = Some st1 \<and> iot_call env_iot OPRT_TIMEOUT (Dp_Sync 0 [3]) st1 = Some st2
     \<and> tuya_iot_dp_sync_process env_iot packer_demo cloud_demo st2 = Some (packer_demo, cloud_demo, st2) \<and> i_wire st2 = []"
proof -
  have d: "device_at env_iot 0 reported_demo (iot_demo reported_demo None)" by (rule demo_device) (simp add: reported_demo_def report_demo_def)
  have i: "distinct (map d_id (s_node reported_demo))" "\<forall>n \<in> set (s_node reported_demo). stat_local n \<longrightarrow> d_id n \<in> set [1, 2, 3]"
    by (simp_all add: reported_demo_def zero_node_def)
  have u: "is_connected cloud_demo" by (simp add: cloud_demo_def)
  show ?thesis using late_confirmation_hides [OF d i(1) u i(2), of "[3]" packer_demo] by (auto simp: iot_demo_def)
qed

lemma demo_report:
  "c_active (v_client env_iot)" "objs_demo \<noteq> []" "length objs_demo < 256" "v_mem env_iot" "slot_find (Some ''dev'') (i_dsmgr (iot_demo report_demo b)) = Some (Some 0)"
  "schema_list (i_dsmgr (iot_demo report_demo b)) ! 0 = Some report_demo"
  "dp_rept_valid_check (v_number env_iot) (\<lambda>_. True) report_demo \<lparr>rept_type = T_OBJ_REPT, r_flags = 0, r_dps = objs_demo\<rparr> \<lparr>v_len = 0, v_timelen = v_junk env_iot, v_dpid = []\<rparr>
     = (OPRT_OK, reported_demo, \<lparr>v_len = 39, v_timelen = 0, v_dpid = [3, 1]\<rparr>)"
  using report_demo_check by (simp_all add: env_iot_def objs_demo_def slot_find_def iot_demo_def) (simp add: report_demo_def)

theorem ble_report_corrupts_witness:
  "tuya_iot_dp_obj_report env_iot packer_demo (Some ''dev'') (Some objs_demo) 0 cloud_demo (iot_demo report_demo (Some (sys_demo\<lparr>bs_mgr := demo_mgr\<rparr>))) = None"
  by (rule ble_report_corrupts [OF demo_report, where b = "sys_demo\<lparr>bs_mgr := demo_mgr\<rparr>"]) (simp_all add: iot_demo_def demo_mgr_def env_iot_def)

lemma demo_text:
  "dp_rept_json_output (v_print_str env_iot) (True, True) False reported_demo \<lparr>rept_type = T_OBJ_REPT, r_flags = 0, r_dps = objs_demo\<rparr> \<lparr>v_len = 39, v_timelen = 0, v_dpid = [3, 1]\<rparr>
     = Some (Inr (''{\"3\":\"hi\",\"1\":true}'', None))"
  by (simp add: dp_rept_json_output_def env_iot_def objs_demo_def reported_demo_def zero_node_def dp_node_find_def upt_conv_Cons dp_text_def key_text_def close_text_def
      nat_digits.simps char_of_def bit_0 del: upt_Suc)

theorem report_reaches_cloud_witness:
  "\<exists>P' ctx' st'. tuya_iot_dp_obj_report env_iot packer_demo (Some ''dev'') (Some objs_demo) 0 cloud_demo (iot_demo report_demo None) = Some (OPRT_OK, P', ctx', st')
     \<and> mqtt_client_puback_cb (iot_mqtt env_iot) 1 ctx' st' = Some (cloud_demo, put_schema 0 (acknowledged [3, 1] reported_demo) st')"
proof -
  have "ble_off (iot_demo report_demo None)" "\<not> v_lan_on env_iot" by (simp_all add: ble_off_def iot_demo_def env_iot_def)
  note r = report_reaches_cloud [OF demo_report this demo_ready demo_text]
  have "plain_text ''{\"3\":\"hi\",\"1\":true}''" by (simp add: plain_text_def)
  from r [OF this] show ?thesis by (auto simp: iot_demo_def env_iot_def cloud_demo_def context_zero_def)
qed

end
