(* ===== verification/FlatJson.thy ===== *)
theory FlatJson
  imports DpSchema
begin

text \<open>
  Objects of JSON without nesting, as the key-value store writes them: what is relied on of cJSON for them, and a parser that has the property. Strings are written
  as they are, so the members have to be free of quotes, backslashes and control characters. \<^verbatim>\<open>cJSON_GetObjectItem\<close> compares names
  without regard to case.
\<close>

datatype scalar = J_Num int | J_Bool bool | J_Null | J_Str string

primrec scalar_text :: "scalar \<Rightarrow> string" where
  "scalar_text (J_Num i) = int_digits i"
| "scalar_text (J_Bool b) = (if b then ''true'' else ''false'')"
| "scalar_text J_Null = ''null''"
| "scalar_text (J_Str s) = ''\"'' @ s @ ''\"''"

primrec scalar_item :: "scalar \<Rightarrow> cjson \<Rightarrow> bool" where
  "scalar_item (J_Num i) j \<longleftrightarrow> cj_type j = CJ_Number \<and> cj_int j = i"
| "scalar_item (J_Bool b) j \<longleftrightarrow> cj_type j = (if b then CJ_True else CJ_False)"
| "scalar_item J_Null j \<longleftrightarrow> cj_type j = CJ_NULL"
| "scalar_item (J_Str s) j \<longleftrightarrow> cj_type j = CJ_String \<and> cj_string j = Some s"

definition plain_char :: "char \<Rightarrow> bool" where
  "plain_char c \<longleftrightarrow> c \<noteq> CHR 0x22 \<and> c \<noteq> CHR 0x5C \<and> 32 \<le> (of_char c :: nat)"

primrec scalar_ok :: "scalar \<Rightarrow> bool" where
  "scalar_ok (J_Num i) \<longleftrightarrow> - (2 ^ 31) \<le> i \<and> i < 2 ^ 31"
| "scalar_ok (J_Bool b) \<longleftrightarrow> True"
| "scalar_ok J_Null \<longleftrightarrow> True"
| "scalar_ok (J_Str s) \<longleftrightarrow> list_all plain_char s"

definition lower_char :: "char \<Rightarrow> char" where
  "lower_char c = (if 65 \<le> (of_char c :: nat) \<and> (of_char c :: nat) \<le> 90 then char_of ((of_char c :: nat) + 32) else c)"

definition member_text :: "string \<times> scalar \<Rightarrow> string" where
  "member_text m = ''\"'' @ fst m @ ''\":'' @ scalar_text (snd m)"

text \<open>Texts separated by commas.\<close>

fun separated :: "string list \<Rightarrow> string" where
  "separated [] = []"
| "separated [t] = t"
| "separated (t # ts) = t @ '','' @ separated ts"

definition members_ok :: "(string \<times> scalar) list \<Rightarrow> bool" where
  "members_ok ms \<longleftrightarrow> list_all (\<lambda>(n, v). list_all plain_char n \<and> scalar_ok v) ms \<and> distinct (map (\<lambda>m. map lower_char (fst m)) ms)"

text \<open>
  What is relied on: the text of an object of such members is parsed, and each member is found under its name, with its type and its value.
\<close>

definition json_objects :: "parse_env \<Rightarrow> bool" where
  "json_objects J \<longleftrightarrow>
     (\<forall>ms. ms \<noteq> [] \<and> members_ok ms \<longrightarrow>
        (\<exists>root. cjson_parse J (''{'' @ separated (map member_text ms) @ '' }'') = Some root
          \<and> (\<forall>m \<in> set ms. \<exists>j. get_item J root (fst m) = Some j \<and> scalar_item (snd m) j)))"

section \<open>A parser with this property\<close>

definition in_word :: "char \<Rightarrow> bool" where
  "in_word c \<longleftrightarrow> c \<noteq> CHR '','' \<and> c \<noteq> CHR '' ''"

definition not_quote :: "char \<Rightarrow> bool" where
  "not_quote c \<longleftrightarrow> c \<noteq> CHR 0x22"

definition word_item :: "string \<Rightarrow> cjson" where
  "word_item w =
     (if w = ''true'' then CJson CJ_True None 0 [] else if w = ''false'' then CJson CJ_False None 0 []
      else if w = ''null'' then CJson CJ_NULL None 0 [] else CJson CJ_Number None (atoi w) [])"

definition parse_scalar :: "string \<Rightarrow> cjson \<times> string" where
  "parse_scalar t =
     (if t \<noteq> [] \<and> hd t = CHR 0x22 then (CJson CJ_String (Some (takeWhile not_quote (tl t))) 0 [], tl (dropWhile not_quote (tl t)))
      else (word_item (takeWhile in_word t), dropWhile in_word t))"

text \<open>The members behind the opening brace; the first argument bounds their number.\<close>

fun parse_members :: "nat \<Rightarrow> string \<Rightarrow> (string option \<times> cjson) list option" where
  "parse_members 0 t = None"
| "parse_members (Suc n) t =
     (if t = [] \<or> hd t \<noteq> CHR 0x22 then None
      else
        let name = takeWhile not_quote (tl t); (j, rest) = parse_scalar (drop 2 (dropWhile not_quote (tl t)))
        in case rest of
             [] \<Rightarrow> None
           | c # cs \<Rightarrow>
               if c = CHR '','' then map_option (Cons (Some name, j)) (parse_members n cs)
               else if rest = '' }'' then Some [(Some name, j)] else None)"

definition flat_json :: parse_env where
  "flat_json = \<lparr>
     cjson_parse = (\<lambda>t. if t = [] \<or> hd t \<noteq> CHR ''{'' then None else map_option (CJson CJ_Object None 0) (parse_members (length t) (tl t))),
     get_item = (\<lambda>j n. map_option snd (find (\<lambda>c. map_option (map lower_char) (fst c) = Some (map lower_char n)) (cj_child j))),
     buf_mem = True, enum_mem = True, str_mutex = OPRT_OK\<rparr>"

lemma digit_in_word: "digit_char c \<Longrightarrow> in_word c \<and> c \<noteq> CHR 0x22"
  by (auto simp: digit_char_def in_word_def)

lemma int_digits_word:
  "\<forall>c \<in> set (int_digits i). in_word c" "hd (int_digits i) \<noteq> CHR 0x22" "int_digits i \<noteq> []" "int_digits i \<notin> {''true'', ''false'', ''null''}"
proof -
  have ne: "nat_digits n \<noteq> []" for n by (subst nat_digits.simps) simp
  then have h: "digit_char (hd (nat_digits n))" for n using nat_digits_chars [of n] by simp
  show "\<forall>c \<in> set (int_digits i). in_word c" using nat_digits_chars digit_in_word by (auto simp: int_digits_def in_word_def)
  show "hd (int_digits i) \<noteq> CHR 0x22" "int_digits i \<noteq> []" using ne digit_in_word [OF h] by (auto simp: int_digits_def)
  have "hd (int_digits i) = CHR ''-'' \<or> digit_char (hd (int_digits i))" using h by (auto simp: int_digits_def)
  then show "int_digits i \<notin> {''true'', ''false'', ''null''}" by (auto simp: digit_char_def)
qed

lemma takeWhile_stop: "\<forall>x \<in> set xs. P x \<Longrightarrow> \<not> P y \<Longrightarrow> takeWhile P (xs @ y # ys) = xs \<and> dropWhile P (xs @ y # ys) = y # ys"
  by (simp add: takeWhile_append2 dropWhile_append2)

lemma parse_word:
  assumes "\<forall>x \<in> set w. in_word x" "w \<noteq> []" "hd w \<noteq> CHR 0x22" "\<not> in_word c"
  shows "parse_scalar (w @ c # rest) = (word_item w, c # rest)"
  using takeWhile_stop [OF assms(1,4), of rest] assms(2,3) by (simp add: parse_scalar_def)

lemma parse_scalar_text:
  assumes "scalar_ok v" "\<not> in_word c"
  obtains j where "parse_scalar (scalar_text v @ c # rest) = (j, c # rest)" "scalar_item v j"
proof (cases v)
  case (J_Num i)
  have "parse_scalar (int_digits i @ c # rest) = (word_item (int_digits i), c # rest)" by (rule parse_word) (use int_digits_word assms(2) in auto)
  moreover have "scalar_item v (word_item (int_digits i))" using int_digits_word(4) [of i] by (auto simp: J_Num word_item_def atoi_int_digits)
  ultimately show ?thesis using that J_Num by simp
next
  case (J_Bool b)
  have "parse_scalar (scalar_text v @ c # rest) = (word_item (scalar_text v), c # rest)"
    unfolding J_Bool by (rule parse_word) (use assms(2) in \<open>auto simp: in_word_def\<close>)
  then show ?thesis using that by (simp add: J_Bool word_item_def split: if_splits)
next
  case J_Null
  have "parse_scalar (scalar_text v @ c # rest) = (word_item (scalar_text v), c # rest)"
    unfolding J_Null by (rule parse_word) (use assms(2) in \<open>auto simp: in_word_def\<close>)
  then show ?thesis using that by (simp add: J_Null word_item_def)
next
  case (J_Str s)
  have "\<forall>x \<in> set s. not_quote x" using assms(1) by (auto simp: J_Str list_all_iff plain_char_def not_quote_def)
  then show ?thesis using takeWhile_stop [of s not_quote "CHR 0x22" "c # rest"] that by (simp add: J_Str parse_scalar_def not_quote_def)
qed

lemma parse_member:
  assumes "list_all plain_char n" "scalar_ok v" "\<not> in_word c"
  obtains j where "scalar_item v j" "parse_members (Suc k) (member_text (n, v) @ c # rest) =
    (if c = CHR '','' then map_option (Cons (Some n, j)) (parse_members k rest) else if c # rest = '' }'' then Some [(Some n, j)] else None)"
proof -
  obtain j where j: "parse_scalar (scalar_text v @ c # rest) = (j, c # rest)" "scalar_item v j" using parse_scalar_text [OF assms(2,3)] by blast
  have "\<forall>x \<in> set n. not_quote x" using assms(1) by (auto simp: list_all_iff plain_char_def not_quote_def)
  then have "takeWhile not_quote (n @ CHR 0x22 # CHR '':'' # scalar_text v @ c # rest) = n"
    "dropWhile not_quote (n @ CHR 0x22 # CHR '':'' # scalar_text v @ c # rest) = CHR 0x22 # CHR '':'' # scalar_text v @ c # rest"
    using takeWhile_stop [of n not_quote "CHR 0x22" "CHR '':'' # scalar_text v @ c # rest"] by (simp_all add: not_quote_def)
  then show ?thesis using that [OF j(2)] j(1) by (simp add: member_text_def)
qed

lemma parse_members_text:
  assumes "ms \<noteq> []" "list_all (\<lambda>(n, v). list_all plain_char n \<and> scalar_ok v) ms" "length ms \<le> k"
  shows "\<exists>js. parse_members k (separated (map member_text ms) @ '' }'') = Some js
    \<and> list_all2 (\<lambda>m c. fst c = Some (fst m) \<and> scalar_item (snd m) (snd c)) ms js"
  using assms
proof (induction ms arbitrary: k rule: induct_list012)
  case (2 m)
  then obtain n v k' where m: "m = (n, v)" "k = Suc k'" by (cases m; cases k) auto
  then obtain j where "scalar_item v j" "parse_members (Suc k') (member_text (n, v) @ '' }'') = Some [(Some n, j)]"
    using parse_member [of n v "CHR '' ''" k' "''}''"] 2 by (auto simp: in_word_def)
  then show ?case by (simp add: m)
next
  case (3 m m' ms)
  then obtain n v k' where m: "m = (n, v)" "k = Suc k'" by (cases m; cases k) auto
  obtain js where js: "parse_members k' (separated (map member_text (m' # ms)) @ '' }'') = Some js"
    "list_all2 (\<lambda>m c. fst c = Some (fst m) \<and> scalar_item (snd m) (snd c)) (m' # ms) js"
    using 3 m by auto
  obtain j where j: "scalar_item v j" "parse_members (Suc k') (member_text (n, v) @ CHR '','' # (separated (map member_text (m' # ms)) @ '' }'')) =
      map_option (Cons (Some n, j)) (parse_members k' (separated (map member_text (m' # ms)) @ '' }''))"
    using parse_member [of n v "CHR '',''" k' "separated (map member_text (m' # ms)) @ '' }''"] 3 m by (auto simp: in_word_def)
  then show ?case using js by (simp add: m)
qed simp

lemma find_member:
  assumes "list_all2 (\<lambda>m c. fst c = Some (fst m) \<and> scalar_item (snd m) (snd c)) ms js" "distinct (map (\<lambda>m. map lower_char (fst m)) ms)" "m \<in> set ms"
  shows "\<exists>c. find (\<lambda>c. map_option (map lower_char) (fst c) = Some (map lower_char (fst m))) js = Some c \<and> scalar_item (snd m) (snd c)"
  using assms
proof (induction rule: list_all2_induct)
  case (Cons x xs c cs)
  show ?case
  proof (cases "map lower_char (fst x) = map lower_char (fst m)")
    case True
    then have "x = m" using Cons.prems by (metis (no_types, lifting) distinct.simps(2) image_eqI image_set list.simps(9) set_ConsD)
    then show ?thesis using Cons.hyps(1) by simp
  qed (use Cons in auto)
qed simp

theorem flat_json_objects: "json_objects flat_json"
  unfolding json_objects_def
proof (intro allI impI)
  fix ms :: "(string \<times> scalar) list"
  assume a: "ms \<noteq> [] \<and> members_ok ms"
  let ?t = "separated (map member_text ms) @ '' }''"
  have "length (separated (map member_text ms)) \<ge> length ms"
    by (induction ms rule: induct_list012) (simp_all add: member_text_def)
  then obtain js where js: "parse_members (length (''{'' @ ?t)) ?t = Some js"
    "list_all2 (\<lambda>m c. fst c = Some (fst m) \<and> scalar_item (snd m) (snd c)) ms js"
    using parse_members_text [of ms "length (''{'' @ ?t)"] a by (auto simp: members_ok_def)
  show "\<exists>root. cjson_parse flat_json (''{'' @ ?t) = Some root \<and> (\<forall>m \<in> set ms. \<exists>j. get_item flat_json root (fst m) = Some j \<and> scalar_item (snd m) j)"
  proof (rule exI [of _ "CJson CJ_Object None 0 js"], intro conjI ballI)
    show "cjson_parse flat_json (''{'' @ ?t) = Some (CJson CJ_Object None 0 js)" using js(1) by (simp add: flat_json_def)
    fix m assume "m \<in> set ms"
    from find_member [OF js(2) _ this] a show "\<exists>j. get_item flat_json (CJson CJ_Object None 0 js) (fst m) = Some j \<and> scalar_item (snd m) j"
      by (auto simp: flat_json_def members_ok_def)
  qed
qed

end
