(* ===== verification/KvStore.thy ===== *)
theory KvStore
  imports FlatJson
begin

text \<open>
  The key-value store: records of typed values as JSON text (\<^verbatim>\<open>src/tal_kv/src/kv_serialize.c\<close>), files with encrypted contents (\<^verbatim>\<open>src/tal_kv/src/tal_kv.c\<close>) and the padding and encryption under them
  (\<^verbatim>\<open>src/tal_security/src/tal_symmetry.c\<close>). The file system is a map from names to contents; the results of its calls, the cipher of the platform, base64 and cJSON are arguments.
  \<open>None\<close> is an access outside of a buffer.
\<close>

section \<open>Encryption\<close>

record aes =
  aes_create :: operate_ret
  aes_setkey :: "byte list \<Rightarrow> operate_ret"
  aes_enc :: "byte list \<Rightarrow> byte list \<Rightarrow> byte list \<Rightarrow> operate_ret \<times> byte list"
  aes_dec :: "byte list \<Rightarrow> byte list \<Rightarrow> byte list \<Rightarrow> operate_ret \<times> byte list"
  aes_free :: operate_ret

text \<open>The block is transformed in place. Behind the label \<^verbatim>\<open>exit\<close> the result is that of freeing the context.\<close>

definition cbc_raw :: "aes \<Rightarrow> (byte list \<Rightarrow> byte list \<Rightarrow> byte list \<Rightarrow> operate_ret \<times> byte list) \<Rightarrow> byte list \<Rightarrow> byte list \<Rightarrow> byte list \<Rightarrow> operate_ret \<times> byte list" where
  "cbc_raw A crypt data key iv =
     (if aes_create A \<noteq> OPRT_OK then (aes_create A, data)
      else if aes_setkey A key \<noteq> OPRT_OK then (aes_free A, data)
      else (aes_free A, snd (crypt key iv data)))"

definition tal_aes128_cbc_encode_raw where
  "tal_aes128_cbc_encode_raw A data key iv = cbc_raw A (aes_enc A) data key iv"

definition tal_aes128_cbc_decode_raw where
  "tal_aes128_cbc_decode_raw A data key iv = cbc_raw A (aes_dec A) data key iv"

definition Add_Pkcs :: "byte list \<Rightarrow> byte list" where
  "Add_Pkcs p = (let cz = 16 - length p mod 16 in p @ replicate cz (of_nat cz))"

definition tal_aes128_cbc_encode :: "aes \<Rightarrow> (nat \<Rightarrow> bool) \<Rightarrow> byte list \<Rightarrow> byte list \<Rightarrow> byte list \<Rightarrow> operate_ret + byte list" where
  "tal_aes128_cbc_encode A mem data key iv =
     (if data = [] then Inl OPRT_INVALID_PARM
      else if \<not> mem (length data + 16) then Inl OPRT_MALLOC_FAILED
      else (case tal_aes128_cbc_encode_raw A (Add_Pkcs data) key iv of (ret, ec) \<Rightarrow> if ret \<noteq> OPRT_OK then Inl ret else Inr ec))"

definition tal_aes128_cbc_decode :: "aes \<Rightarrow> (nat \<Rightarrow> bool) \<Rightarrow> byte list \<Rightarrow> byte list \<Rightarrow> byte list \<Rightarrow> operate_ret + byte list" where
  "tal_aes128_cbc_decode A mem data key iv =
     (if data = [] then Inl OPRT_INVALID_PARM
      else if \<not> mem (length data + 1) then Inl OPRT_MALLOC_FAILED
      else (case tal_aes128_cbc_decode_raw A data key iv of (ret, dec) \<Rightarrow> if ret \<noteq> OPRT_OK then Inl ret else Inr dec))"

definition tal_aes_get_actual_length :: "byte list \<Rightarrow> int" where
  "tal_aes_get_actual_length dec =
     (if dec = [] \<or> length dec mod 16 \<noteq> 0 then OPRT_INVALID_PARM
      else (let v = unat (last dec) in if v > 16 then - 2 else if length dec \<le> v then - 3 else int (length dec - v)))"

section \<open>Files\<close>

text \<open>\<open>kv_open\<close> is the answer of the file system to an opening for writing, \<open>kv_written\<close> how many bytes a write stores, negative for an error, \<open>kv_mem\<close> which sizes the allocator grants.\<close>

record kv_env =
  kv_aes :: aes
  kv_key :: "byte list"
  kv_seed :: "byte list"
  kv_open :: operate_ret
  kv_written :: "nat \<Rightarrow> int"
  kv_mem :: "nat \<Rightarrow> bool"

type_synonym kv_files = "string \<Rightarrow> byte list option"

abbreviation LFS_ERR_NOENT :: operate_ret where "LFS_ERR_NOENT \<equiv> - 2"

text \<open>The file is emptied when it is opened, before anything is encrypted.\<close>

definition tal_kv_set :: "kv_env \<Rightarrow> string option \<Rightarrow> byte list option \<Rightarrow> kv_files \<Rightarrow> operate_ret \<times> kv_files" where
  "tal_kv_set E key value fs =
     (case (key, value) of
        (Some k, Some v) \<Rightarrow>
          if v = [] then (OPRT_INVALID_PARM, fs)
          else if kv_open E \<noteq> OPRT_OK then (kv_open E, fs)
          else
            (let fs = fs(k \<mapsto> [])
             in case tal_aes128_cbc_encode (kv_aes E) (kv_mem E) v (kv_key E) (kv_seed E) of
                  Inl err \<Rightarrow> (err, fs)
                | Inr ec \<Rightarrow>
                    (let n = kv_written E (length ec)
                     in (if n \<noteq> int (length ec) then OPRT_KVS_WR_FAIL else OPRT_OK, fs(k \<mapsto> take (nat n) ec))))
      | _ \<Rightarrow> (OPRT_INVALID_PARM, fs))"

definition tal_kv_get :: "kv_env \<Rightarrow> string option \<Rightarrow> kv_files \<Rightarrow> operate_ret + byte list" where
  "tal_kv_get E key fs =
     (case key of
        None \<Rightarrow> Inl OPRT_INVALID_PARM
      | Some k \<Rightarrow>
          (case fs k of
             None \<Rightarrow> Inl LFS_ERR_NOENT
           | Some ec \<Rightarrow>
               if \<not> kv_mem E (length ec + 1) then Inl OPRT_MALLOC_FAILED
               else if ec = [] then Inl OPRT_KVS_RD_FAIL
               else
                 (case tal_aes128_cbc_decode (kv_aes E) (kv_mem E) ec (kv_key E) (kv_seed E) of
                    Inl _ \<Rightarrow> Inl OPRT_BUFFER_NOT_ENOUGH
                  | Inr dec \<Rightarrow>
                      (let n = tal_aes_get_actual_length dec
                       in if n < 0 \<or> n > int (length ec) then Inl OPRT_BUFFER_NOT_ENOUGH else Inr (take (nat n) dec)))))"

definition tal_kv_del :: "string \<Rightarrow> kv_files \<Rightarrow> operate_ret \<times> kv_files" where
  "tal_kv_del k fs = (if fs k = None then (OPRT_COM_ERROR, fs) else (OPRT_OK, fs(k := None)))"

section \<open>Records\<close>

abbreviation KV_CHAR :: nat where "KV_CHAR \<equiv> 0"
abbreviation KV_BYTE :: nat where "KV_BYTE \<equiv> 1"
abbreviation KV_SHORT :: nat where "KV_SHORT \<equiv> 2"
abbreviation KV_USHORT :: nat where "KV_USHORT \<equiv> 3"
abbreviation KV_INT :: nat where "KV_INT \<equiv> 4"

text \<open>
  A value with the memory it has: a number of one of the five types; a text in an array of the given size; raw data, as long as its field; and a type that does not exist.
\<close>

datatype kv_value = KV_Num nat int | KV_Bool bool | KV_String nat string | KV_Raw "byte list" | KV_Bad nat

record kv_db =
  kv_name :: string
  kv_val :: kv_value

definition val_len :: "kv_value \<Rightarrow> nat" where
  "val_len v =
     (case v of
        KV_Num _ _ \<Rightarrow> 11 + 6
      | KV_Bool _ \<Rightarrow> 6 + 6
      | KV_String cap s \<Rightarrow> if s = [] then cap + 4 + 4 else cap + 6
      | KV_Raw d \<Rightarrow> length d div 3 * 4 + (if length d mod 3 \<noteq> 0 then 4 else 0) + (if d \<noteq> [] then 6 else 4 + 4)
      | KV_Bad _ \<Rightarrow> 0)"

definition kv_len :: "kv_db list \<Rightarrow> nat" where
  "kv_len db = sum_list (map (\<lambda>x. val_len (kv_val x) + length (kv_name x) + 2) db) + 3"

definition val_text :: "(byte list \<Rightarrow> string) \<Rightarrow> kv_value \<Rightarrow> string option" where
  "val_text b64 v =
     (case v of
        KV_Num _ i \<Rightarrow> Some (int_digits i)
      | KV_Bool b \<Rightarrow> Some (if b then ''true'' else ''false'')
      | KV_String _ s \<Rightarrow> Some (if s = [] then ''null'' else ''\"'' @ s @ ''\"'')
      | KV_Raw d \<Rightarrow> Some (if d = [] then ''null'' else ''\"'' @ b64 d @ ''\"'')
      | KV_Bad _ \<Rightarrow> None)"

fun ser_loop :: "(byte list \<Rightarrow> string) \<Rightarrow> nat \<Rightarrow> kv_db list \<Rightarrow> string \<Rightarrow> (operate_ret + string) option" where
  "ser_loop b64 cap [] out = Some (Inr out)"
| "ser_loop b64 cap (x # xs) out =
     (let out = out @ ''\"'' @ kv_name x @ ''\":''
      in if length out \<ge> cap then None
         else case val_text b64 (kv_val x) of
                None \<Rightarrow> Some (Inl OPRT_COM_ERROR)
              | Some t \<Rightarrow> (let out = out @ t @ '','' in if length out \<ge> cap then None else ser_loop b64 cap xs out))"

definition kv_serialize :: "(byte list \<Rightarrow> string) \<Rightarrow> (nat \<Rightarrow> bool) \<Rightarrow> kv_db list \<Rightarrow> (operate_ret + string) option" where
  "kv_serialize b64 mem db =
     (if \<not> mem (kv_len db) then Some (Inl OPRT_MALLOC_FAILED)
      else
        do {
          r \<leftarrow> ser_loop b64 (kv_len db) db ''{'';
          case r of
            Inl err \<Rightarrow> Some (Inl err)
          | Inr out \<Rightarrow>
              (let out = (if db \<noteq> [] then butlast out @ '' '' else out) @ ''}''
               in if length out \<ge> kv_len db then None else Some (Inr out))
        })"

definition num_range :: "nat \<Rightarrow> int \<Rightarrow> bool" where
  "num_range tp i =
     (if tp = KV_CHAR then - 128 \<le> i \<and> i \<le> 127
      else if tp = KV_BYTE then 0 \<le> i \<and> i \<le> 255
      else if tp = KV_SHORT then - 32768 \<le> i \<and> i \<le> 32767
      else if tp = KV_USHORT then 0 \<le> i \<and> i \<le> 65535
      else True)"

definition kv_zero :: "kv_value \<Rightarrow> kv_value" where
  "kv_zero v =
     (case v of
        KV_Num tp _ \<Rightarrow> KV_Num tp 0
      | KV_Bool _ \<Rightarrow> KV_Bool False
      | KV_String cap _ \<Rightarrow> KV_String cap []
      | KV_Raw d \<Rightarrow> KV_Raw (replicate (length d) 0)
      | KV_Bad t \<Rightarrow> KV_Bad t)"

text \<open>The value that an item gives. Decoded raw data overwrite the beginning of the memory, however long they are.\<close>

definition deser_val :: "(string \<Rightarrow> byte list) \<Rightarrow> cjson \<Rightarrow> kv_value \<Rightarrow> (operate_ret + kv_value) option" where
  "deser_val dec json v =
     (case v of
        KV_Num tp _ \<Rightarrow>
          Some (if cj_type json \<noteq> CJ_Number then Inl OPRT_CJSON_GET_ERR
                else if \<not> num_range tp (cj_int json) then Inl OPRT_COM_ERROR else Inr (KV_Num tp (cj_int json)))
      | KV_Bool _ \<Rightarrow>
          Some (if cj_type json \<noteq> CJ_False \<and> cj_type json \<noteq> CJ_True then Inl OPRT_CJSON_GET_ERR else Inr (KV_Bool (cj_type json = CJ_True)))
      | KV_String cap _ \<Rightarrow>
          if cj_type json = CJ_NULL then Some (Inr (KV_String cap []))
          else if cj_type json \<noteq> CJ_String then Some (Inl OPRT_CJSON_GET_ERR)
          else do { s \<leftarrow> cj_string json; Some (if cap < length s + 1 then Inl OPRT_COM_ERROR else Inr (KV_String cap s)) }
      | KV_Raw d \<Rightarrow>
          if cj_type json = CJ_NULL then Some (Inr (KV_Raw []))
          else if cj_type json \<noteq> CJ_String then Some (Inl OPRT_CJSON_GET_ERR)
          else do {
            s \<leftarrow> cj_string json;
            if length (dec s) > length d then None else Some (Inr (KV_Raw (dec s @ drop (length (dec s)) d)))
          }
      | KV_Bad _ \<Rightarrow> Some (Inl OPRT_COM_ERROR))"

fun deser_loop :: "parse_env \<Rightarrow> (string \<Rightarrow> byte list) \<Rightarrow> cjson \<Rightarrow> kv_db list \<Rightarrow> (operate_ret \<times> kv_db list) option" where
  "deser_loop J dec root [] = Some (OPRT_OK, [])"
| "deser_loop J dec root (x # xs) =
     (case get_item J root (kv_name x) of
        None \<Rightarrow> do { (r, ys) \<leftarrow> deser_loop J dec root xs; Some (r, x\<lparr>kv_val := kv_zero (kv_val x)\<rparr> # ys) }
      | Some json \<Rightarrow>
          do {
            v \<leftarrow> deser_val dec json (kv_val x);
            case v of
              Inl err \<Rightarrow> Some (err, x # xs)
            | Inr w \<Rightarrow> do { (r, ys) \<leftarrow> deser_loop J dec root xs; Some (r, x\<lparr>kv_val := w\<rparr> # ys) }
          })"

definition kv_deserialize :: "parse_env \<Rightarrow> (string \<Rightarrow> byte list) \<Rightarrow> string \<Rightarrow> kv_db list \<Rightarrow> (operate_ret \<times> kv_db list) option" where
  "kv_deserialize J dec txt db = (case cjson_parse J txt of None \<Rightarrow> Some (OPRT_CJSON_PARSE_ERR, db) | Some root \<Rightarrow> deser_loop J dec root db)"

definition tal_kv_serialize_set :: "kv_env \<Rightarrow> (byte list \<Rightarrow> string) \<Rightarrow> string option \<Rightarrow> kv_db list \<Rightarrow> kv_files \<Rightarrow> (operate_ret \<times> kv_files) option" where
  "tal_kv_serialize_set E b64 key db fs =
     (if db = [] then Some (OPRT_INVALID_PARM, fs)
      else
        do {
          r \<leftarrow> kv_serialize b64 (kv_mem E) db;
          Some (case r of Inl err \<Rightarrow> (err, fs) | Inr buf \<Rightarrow> tal_kv_set E key (Some (text_bytes buf)) fs)
        })"

text \<open>The decrypted bytes are read as a text up to the first zero.\<close>

definition tal_kv_serialize_get ::
    "kv_env \<Rightarrow> parse_env \<Rightarrow> (string \<Rightarrow> byte list) \<Rightarrow> string option \<Rightarrow> kv_db list \<Rightarrow> kv_files \<Rightarrow> (operate_ret \<times> kv_db list) option" where
  "tal_kv_serialize_get E J dec key db fs =
     (if db = [] \<or> key = None then Some (OPRT_INVALID_PARM, db)
      else case tal_kv_get E key fs of
             Inl err \<Rightarrow> Some (err, db)
           | Inr buf \<Rightarrow> kv_deserialize J dec (c_string buf) db)"

section \<open>What is stored is read back\<close>

text \<open>The documented behaviour of the platform: the cipher keeps the length of whole blocks and decryption inverts it; nothing fails.\<close>

definition cipher_ok :: "aes \<Rightarrow> bool" where
  "cipher_ok A \<longleftrightarrow>
     aes_create A = OPRT_OK \<and> aes_free A = OPRT_OK \<and> (\<forall>k. aes_setkey A k = OPRT_OK) \<and>
     (\<forall>k iv x. length x mod 16 = 0 \<longrightarrow> length (snd (aes_enc A k iv x)) = length x \<and> snd (aes_dec A k iv (snd (aes_enc A k iv x))) = x)"

definition kv_ready :: "kv_env \<Rightarrow> bool" where
  "kv_ready E \<longleftrightarrow> cipher_ok (kv_aes E) \<and> kv_open E = OPRT_OK \<and> (\<forall>n. kv_written E n = int n) \<and> (\<forall>n. kv_mem E n)"

lemma length_Add_Pkcs: "length (Add_Pkcs p) = length p div 16 * 16 + 16"
proof -
  have "length p = length p div 16 * 16 + length p mod 16" "length p mod 16 < 16" by simp_all
  then show ?thesis unfolding Add_Pkcs_def Let_def length_append length_replicate by linarith
qed

lemma Add_Pkcs_block [simp]: "length (Add_Pkcs p) mod 16 = 0" and Add_Pkcs_nonempty [simp]: "Add_Pkcs p \<noteq> []"
  using length_Add_Pkcs [of p] by (auto simp: mod_mult_self3)

text \<open>The padding is found again.\<close>

lemma actual_length_Add_Pkcs:
  assumes "p \<noteq> []"
  shows "tal_aes_get_actual_length (Add_Pkcs p) = int (length p)"
proof -
  define cz where "cz = 16 - length p mod 16"
  have cz: "0 < cz" "cz \<le> 16" unfolding cz_def by (simp_all add: less_imp_le_nat)
  have p: "Add_Pkcs p = p @ replicate cz (of_nat cz)" by (simp add: Add_Pkcs_def cz_def)
  have "unat (of_nat cz :: byte) = cz" using cz by (simp add: unat_of_nat)
  moreover have "last (Add_Pkcs p) = of_nat cz" using cz by (simp add: p)
  moreover have "cz < length (Add_Pkcs p)" "length (Add_Pkcs p) - cz = length p" using assms by (simp_all add: p)
  ultimately show ?thesis using cz by (simp add: tal_aes_get_actual_length_def)
qed

lemma set_ready:
  assumes "kv_ready E" "v \<noteq> []"
  shows "tal_kv_set E (Some k) (Some v) fs = (OPRT_OK, fs(k \<mapsto> snd (aes_enc (kv_aes E) (kv_key E) (kv_seed E) (Add_Pkcs v))))"
  using assms by (simp add: tal_kv_set_def tal_aes128_cbc_encode_def tal_aes128_cbc_encode_raw_def cbc_raw_def kv_ready_def cipher_ok_def)

lemma get_ready:
  assumes "kv_ready E" "v \<noteq> []" "fs k = Some (snd (aes_enc (kv_aes E) (kv_key E) (kv_seed E) (Add_Pkcs v)))"
  shows "tal_kv_get E (Some k) fs = Inr v"
proof -
  let ?ec = "snd (aes_enc (kv_aes E) (kv_key E) (kv_seed E) (Add_Pkcs v))"
  have "length ?ec = length (Add_Pkcs v)" "snd (aes_dec (kv_aes E) (kv_key E) (kv_seed E) ?ec) = Add_Pkcs v"
    using assms(1) by (simp_all add: kv_ready_def cipher_ok_def)
  moreover from this have "?ec \<noteq> []" by (metis Add_Pkcs_nonempty length_0_conv)
  moreover have "take (length v) (Add_Pkcs v) = v" "length v \<le> length (Add_Pkcs v)" by (simp_all add: Add_Pkcs_def Let_def)
  ultimately show ?thesis
    using assms actual_length_Add_Pkcs [OF assms(2)]
    by (simp add: tal_kv_get_def tal_aes128_cbc_decode_def tal_aes128_cbc_decode_raw_def cbc_raw_def kv_ready_def cipher_ok_def Let_def)
qed

lemma get_frame: "fs k = fs' k \<Longrightarrow> tal_kv_get E (Some k) fs = tal_kv_get E (Some k) fs'"
  by (simp add: tal_kv_get_def)

text \<open>The contents as a client sees them.\<close>

definition kv_view :: "kv_env \<Rightarrow> kv_files \<Rightarrow> string \<Rightarrow> byte list option" where
  "kv_view E fs k = (case tal_kv_get E (Some k) fs of Inr v \<Rightarrow> Some v | Inl _ \<Rightarrow> None)"

text \<open>
  The store as its clients use it: in an environment where nothing fails, storing succeeds and acts as the update of a map, and removing as the removal
  from it.
\<close>

locale value_store =
  fixes ready :: "'e \<Rightarrow> bool"
    and put :: "'e \<Rightarrow> 'k option \<Rightarrow> 'v list option \<Rightarrow> 's \<Rightarrow> operate_ret \<times> 's"
    and del :: "'k \<Rightarrow> 's \<Rightarrow> operate_ret \<times> 's"
    and view :: "'e \<Rightarrow> 's \<Rightarrow> 'k \<Rightarrow> 'v list option"
  assumes put_ok: "ready E \<Longrightarrow> v \<noteq> [] \<Longrightarrow> fst (put E (Some k) (Some v) s) = OPRT_OK"
    and put_view: "ready E \<Longrightarrow> v \<noteq> [] \<Longrightarrow> view E (snd (put E (Some k) (Some v) s)) = (view E s)(k \<mapsto> v)"
    and put_nothing: "ready E \<Longrightarrow> snd (put E (Some k) (Some []) s) = s"
    and del_view: "view E (snd (del k s)) = (view E s)(k := None)"
begin

lemma put_other: "ready E \<Longrightarrow> k' \<noteq> k \<Longrightarrow> view E (snd (put E (Some k') (Some v) s)) k = view E s k"
  by (cases "v = []") (simp_all add: put_view put_nothing)

lemma puts_other:
  "ready E \<Longrightarrow> k \<notin> set (map fst ops) \<Longrightarrow>
   view E (fold (\<lambda>(k', v) s. case v of None \<Rightarrow> snd (del k' s) | Some b \<Rightarrow> snd (put E (Some k') (Some b) s)) ops s) k = view E s k"
  by (induction ops arbitrary: s) (auto simp: put_other del_view split: option.splits)

end

interpretation kv: value_store kv_ready tal_kv_set tal_kv_del kv_view
proof
  show "fst (tal_kv_set E (Some k) (Some v) s) = OPRT_OK" if "kv_ready E" "v \<noteq> []" for E k v s
    using that by (simp add: set_ready)
  show "kv_view E (snd (tal_kv_set E (Some k) (Some v) s)) = (kv_view E s)(k \<mapsto> v)" if "kv_ready E" "v \<noteq> []" for E k v s
  proof
    show "kv_view E (snd (tal_kv_set E (Some k) (Some v) s)) j = ((kv_view E s)(k \<mapsto> v)) j" for j
      using that get_ready [OF that] get_frame [of "snd (tal_kv_set E (Some k) (Some v) s)" j s E] by (auto simp: kv_view_def set_ready)
  qed
  show "snd (tal_kv_set E (Some k) (Some []) s) = s" for E k s by (simp add: tal_kv_set_def)
  show "kv_view E (snd (tal_kv_del k s)) = (kv_view E s)(k := None)" for E k s
  proof
    show "kv_view E (snd (tal_kv_del k s)) j = ((kv_view E s)(k := None)) j" for j
      using get_frame [of "s(k := None)" j s E] by (auto simp: kv_view_def tal_kv_del_def) (auto simp: tal_kv_get_def)
  qed
qed

text \<open>
  The store refines a map. When the cipher of the platform inverts and nothing fails, storing a non-empty value returns OK and updates exactly the view of
  that key, and deleting a key removes exactly that key; the deletion reports an error exactly when no file of that name exists.
\<close>

theorem kv_refines_map:
  assumes "kv_ready E" "v \<noteq> []"
  shows "fst (tal_kv_set E (Some k) (Some v) fs) = OPRT_OK \<and>
         kv_view E (snd (tal_kv_set E (Some k) (Some v) fs)) = (kv_view E fs)(k \<mapsto> v) \<and>
         kv_view E (snd (tal_kv_del k fs)) = (kv_view E fs)(k := None) \<and>
         (fst (tal_kv_del k fs) = OPRT_OK \<longleftrightarrow> fs k \<noteq> None)"
  using kv.put_ok [OF assms] kv.put_view [OF assms] kv.del_view by (auto simp: tal_kv_del_def)

text \<open>A cipher that swaps the bits of each byte, on a flash that never fails.\<close>

definition demo_aes :: aes where
  "demo_aes = \<lparr>aes_create = OPRT_OK, aes_setkey = (\<lambda>_. OPRT_OK), aes_enc = (\<lambda>k iv x. (OPRT_OK, map (\<lambda>b. not b) x)),
     aes_dec = (\<lambda>k iv x. (OPRT_OK, map (\<lambda>b. not b) x)), aes_free = OPRT_OK\<rparr>"

definition demo_kv :: kv_env where
  "demo_kv = \<lparr>kv_aes = demo_aes, kv_key = replicate 16 1, kv_seed = replicate 16 2, kv_open = OPRT_OK, kv_written = int, kv_mem = (\<lambda>_. True)\<rparr>"

lemma demo_kv_ready: "kv_ready demo_kv"
  by (simp add: kv_ready_def cipher_ok_def demo_kv_def demo_aes_def comp_def)

theorem kv_refines_map_witness:
  "fst (tal_kv_set demo_kv (Some ''ssid'') (Some [1, 2, 3]) Map.empty) = OPRT_OK \<and>
   kv_view demo_kv (snd (tal_kv_set demo_kv (Some ''ssid'') (Some [1, 2, 3]) Map.empty)) ''ssid'' = Some [1, 2, 3]"
  using kv_refines_map [OF demo_kv_ready, of "[1, 2, 3]" "''ssid''" Map.empty] by simp

text \<open>
  A key that the cipher refuses goes unnoticed: the result of the failed call is overwritten by that of freeing the context, so the value is stored
  unencrypted (with its padding) and OK is returned; and the value can even be read back.
\<close>

theorem kv_stores_plaintext:
  assumes "aes_create (kv_aes E) = OPRT_OK" "aes_setkey (kv_aes E) (kv_key E) \<noteq> OPRT_OK" "aes_free (kv_aes E) = OPRT_OK"
    and "kv_open E = OPRT_OK" "\<And>n. kv_written E n = int n" "\<And>n. kv_mem E n" "v \<noteq> []"
  shows "tal_kv_set E (Some k) (Some v) fs = (OPRT_OK, fs(k \<mapsto> Add_Pkcs v)) \<and>
         tal_kv_get E (Some k) (snd (tal_kv_set E (Some k) (Some v) fs)) = Inr v"
proof -
  have s: "tal_kv_set E (Some k) (Some v) fs = (OPRT_OK, fs(k \<mapsto> Add_Pkcs v))"
    using assms by (simp add: tal_kv_set_def tal_aes128_cbc_encode_def tal_aes128_cbc_encode_raw_def cbc_raw_def)
  have "take (length v) (Add_Pkcs v) = v" "length v \<le> length (Add_Pkcs v)" by (simp_all add: Add_Pkcs_def Let_def)
  then show ?thesis
    using assms actual_length_Add_Pkcs [OF assms(7)]
    by (simp add: s tal_kv_get_def tal_aes128_cbc_decode_def tal_aes128_cbc_decode_raw_def cbc_raw_def Let_def)
qed

theorem kv_stores_plaintext_witness:
  "tal_kv_set (demo_kv\<lparr>kv_aes := demo_aes\<lparr>aes_setkey := (\<lambda>_. OPRT_COM_ERROR)\<rparr>\<rparr>) (Some ''psk'') (Some [7]) Map.empty =
   (OPRT_OK, Map.empty(''psk'' \<mapsto> Add_Pkcs [7]))"
  using kv_stores_plaintext [of "demo_kv\<lparr>kv_aes := demo_aes\<lparr>aes_setkey := (\<lambda>_. OPRT_COM_ERROR)\<rparr>\<rparr>" "[7]" "''psk''" Map.empty]
  by (simp add: demo_kv_def demo_aes_def)

section \<open>Records survive\<close>

text \<open>Values that have the memory their type claims, and a base64 encoder that produces texts of the length it should.\<close>

definition val_ok :: "(byte list \<Rightarrow> string) \<Rightarrow> kv_value \<Rightarrow> bool" where
  "val_ok b64 v =
     (case v of
        KV_Num _ i \<Rightarrow> - (2 ^ 31) \<le> i \<and> i < 2 ^ 31
      | KV_Bool _ \<Rightarrow> True
      | KV_String cap s \<Rightarrow> length s < cap
      | KV_Raw d \<Rightarrow> length (b64 d) = (length d + 2) div 3 * 4
      | KV_Bad _ \<Rightarrow> True)"

definition entry :: "(byte list \<Rightarrow> string) \<Rightarrow> kv_db \<Rightarrow> string" where
  "entry b64 x = ''\"'' @ kv_name x @ ''\":'' @ the (val_text b64 (kv_val x))"

definition json_text :: "(byte list \<Rightarrow> string) \<Rightarrow> kv_db list \<Rightarrow> string" where
  "json_text b64 db = ''{'' @ separated (map (entry b64) db) @ (if db = [] then ''}'' else '' }'')"

lemma val_text_fits:
  assumes "val_ok b64 v" "val_text b64 v = Some t"
  shows "length t + 6 \<le> val_len v + 2"
proof (cases v)
  case (KV_Num tp i)
  then show ?thesis using assms length_int_digits [of 10 i] by (auto simp: val_ok_def val_text_def val_len_def)
next
  case (KV_Raw d)
  then show ?thesis using assms div3_round_up [of "length d"] by (auto simp: val_ok_def val_text_def val_len_def split: if_splits)
qed (use assms in \<open>auto simp: val_ok_def val_text_def val_len_def\<close>)

lemma entry_fits:
  "val_ok b64 (kv_val x) \<Longrightarrow> val_text b64 (kv_val x) = Some t \<Longrightarrow> length (entry b64 x) + 3 \<le> val_len (kv_val x) + length (kv_name x) + 2"
  using val_text_fits [of b64 "kv_val x" t] by (simp add: entry_def)

lemma concat_separated: "ts \<noteq> [] \<Longrightarrow> concat (map (\<lambda>t. t @ '','') ts) = separated ts @ '',''"
  by (induction ts rule: separated.induct) simp_all

text \<open>The loop writes the members within the room that the first loop has counted, unless it meets a type that does not exist.\<close>

lemma ser_loop_fits:
  assumes "\<forall>x \<in> set db. val_ok b64 (kv_val x)" "length out + sum_list (map (\<lambda>x. val_len (kv_val x) + length (kv_name x) + 2) db) + 2 \<le> cap"
  shows "ser_loop b64 cap db out =
    Some (if \<exists>x \<in> set db. val_text b64 (kv_val x) = None then Inl OPRT_COM_ERROR else Inr (out @ concat (map (\<lambda>x. entry b64 x @ '','') db)))"
  using assms
proof (induction db arbitrary: out)
  case (Cons x xs)
  show ?case
  proof (cases "val_text b64 (kv_val x)")
    case None
    then show ?thesis using Cons.prems by (auto simp: val_text_def split: kv_value.splits)
  next
    case (Some t)
    then have e: "length (kv_name x) + length t + 6 \<le> val_len (kv_val x) + length (kv_name x) + 2"
      using Cons.prems(1) entry_fits [of b64 x t] by (simp add: entry_def)
    then show ?thesis using Cons.prems Cons.IH [of "out @ entry b64 x @ '',''"] by (simp add: Some entry_def)
  qed
qed simp

lemma kv_serialize_eq:
  assumes "\<forall>x \<in> set db. val_ok b64 (kv_val x)"
  shows "kv_serialize b64 mem db =
    Some (if \<not> mem (kv_len db) then Inl OPRT_MALLOC_FAILED
          else if \<exists>x \<in> set db. val_text b64 (kv_val x) = None then Inl OPRT_COM_ERROR
          else Inr (json_text b64 db))"
proof (cases "\<exists>x \<in> set db. val_text b64 (kv_val x) = None")
  case True
  then show ?thesis using ser_loop_fits [OF assms, of "''{''" "kv_len db"] by (auto simp: kv_serialize_def kv_len_def)
next
  case False
  let ?out = "''{'' @ concat (map (\<lambda>x. entry b64 x @ '','') db)"
  have loop: "ser_loop b64 (kv_len db) db ''{'' = Some (Inr ?out)"
    using False ser_loop_fits [OF assms, of "''{''" "kv_len db"] by (simp add: kv_len_def)
  have "length (entry b64 x @ '','') \<le> val_len (kv_val x) + length (kv_name x) + 2" if "x \<in> set db" for x
    using that False assms entry_fits [of b64 x] by fastforce
  then have "sum_list (map (\<lambda>x. length (entry b64 x @ '','')) db) \<le> sum_list (map (\<lambda>x. val_len (kv_val x) + length (kv_name x) + 2) db)"
    by (intro sum_list_mono) auto
  then have len: "length ?out + 2 \<le> kv_len db" by (simp add: kv_len_def length_concat comp_def)
  have "db \<noteq> [] \<Longrightarrow> butlast ?out = ''{'' @ separated (map (entry b64) db)"
    using concat_separated [of "map (entry b64) db"] by (simp add: comp_def butlast_append)
  moreover have "db \<noteq> [] \<Longrightarrow> length (butlast ?out) + 1 = length ?out" by simp
  ultimately show ?thesis using False loop len by (auto simp: kv_serialize_def json_text_def)
qed

text \<open>
  The room that the first loop of \<^verbatim>\<open>kv_serialize\<close> counts is enough: for values that have the memory of their type, no text is written behind the
  buffer, and the result is the JSON object of all members, an error when a type does not exist or the memory is refused.
\<close>

theorem kv_serialize_fits:
  assumes "\<forall>x \<in> set db. val_ok b64 (kv_val x)"
  shows "kv_serialize b64 mem db =
    Some (if \<not> mem (kv_len db) then Inl OPRT_MALLOC_FAILED
          else if \<exists>x \<in> set db. \<exists>t. kv_val x = KV_Bad t then Inl OPRT_COM_ERROR
          else Inr (json_text b64 db))"
proof -
  have "val_text b64 v = None \<longleftrightarrow> (\<exists>t. v = KV_Bad t)" for v by (cases v) (simp_all add: val_text_def)
  then show ?thesis by (simp add: kv_serialize_eq [OF assms])
qed

text \<open>What cJSON finds for a member, which values can be read again, and an array that is prepared for a record.\<close>

definition item_ok :: "(byte list \<Rightarrow> string) \<Rightarrow> kv_value \<Rightarrow> cjson \<Rightarrow> bool" where
  "item_ok b64 v j =
     (case v of
        KV_Num _ i \<Rightarrow> cj_type j = CJ_Number \<and> cj_int j = i
      | KV_Bool b \<Rightarrow> cj_type j = (if b then CJ_True else CJ_False)
      | KV_String _ s \<Rightarrow> if s = [] then cj_type j = CJ_NULL else cj_type j = CJ_String \<and> cj_string j = Some s
      | KV_Raw d \<Rightarrow> if d = [] then cj_type j = CJ_NULL else cj_type j = CJ_String \<and> cj_string j = Some (b64 d)
      | KV_Bad _ \<Rightarrow> False)"

definition nul_free :: "string \<Rightarrow> bool" where
  "nul_free s \<longleftrightarrow> CHR 0x00 \<notin> set s"

definition restorable :: "(byte list \<Rightarrow> string) \<Rightarrow> (string \<Rightarrow> byte list) \<Rightarrow> kv_value \<Rightarrow> bool" where
  "restorable b64 dec v =
     (case v of
        KV_Num tp i \<Rightarrow> num_range tp i
      | KV_Bool _ \<Rightarrow> True
      | KV_String _ s \<Rightarrow> nul_free s
      | KV_Raw d \<Rightarrow> nul_free (b64 d) \<and> dec (b64 d) = d
      | KV_Bad _ \<Rightarrow> False)"

fun same_shape :: "kv_value \<Rightarrow> kv_value \<Rightarrow> bool" where
  "same_shape (KV_Num tp _) (KV_Num tp' _) \<longleftrightarrow> tp = tp'"
| "same_shape (KV_Bool _) (KV_Bool _) \<longleftrightarrow> True"
| "same_shape (KV_String cap _) (KV_String cap' _) \<longleftrightarrow> cap = cap'"
| "same_shape (KV_Raw d) (KV_Raw d') \<longleftrightarrow> length d = length d'"
| "same_shape _ _ \<longleftrightarrow> False"

lemma deser_val_restores:
  "same_shape w v \<Longrightarrow> item_ok b64 v j \<Longrightarrow> val_ok b64 v \<Longrightarrow> restorable b64 dec v \<Longrightarrow> deser_val dec j w = Some (Inr v)"
  by (induction w v rule: same_shape.induct) (auto simp: deser_val_def item_ok_def val_ok_def restorable_def split: if_splits)

lemma deser_loop_restores:
  assumes "list_all2 (\<lambda>y x. kv_name y = kv_name x \<and> same_shape (kv_val y) (kv_val x)) db0 db"
    and "\<forall>x \<in> set db. val_ok b64 (kv_val x) \<and> restorable b64 dec (kv_val x)"
    and "\<forall>x \<in> set db. \<exists>j. get_item J root (kv_name x) = Some j \<and> item_ok b64 (kv_val x) j"
  shows "deser_loop J dec root db0 = Some (OPRT_OK, db)"
  using assms
proof (induction rule: list_all2_induct)
  case (Cons y ys x xs)
  then obtain j where "get_item J root (kv_name x) = Some j" "item_ok b64 (kv_val x) j" by auto
  then show ?case using Cons deser_val_restores [of "kv_val y" "kv_val x" b64 j dec] by simp
qed simp

lemma nul_free_append [simp]: "nul_free (s @ t) \<longleftrightarrow> nul_free s \<and> nul_free t"
  and nul_free_Nil [simp]: "nul_free []"
  and nul_free_Cons [simp]: "nul_free (c # s) \<longleftrightarrow> c \<noteq> CHR 0x00 \<and> nul_free s"
  by (auto simp: nul_free_def)

lemma nul_free_nat_digits [simp]: "nul_free (nat_digits n)"
proof (induction n rule: nat_digits.induct)
  case (1 n)
  have "char_of (48 + m) \<noteq> CHR 0x00" if "m < 10" for m :: nat
  proof
    assume "char_of (48 + m) = CHR 0x00"
    then have "(of_char (char_of (48 + m)) :: nat) = of_char (CHR 0x00)" by simp
    then show False using that by simp
  qed
  then show ?case using 1 by (subst nat_digits.simps) simp
qed

lemma nul_free_separated: "(\<And>t. t \<in> set ts \<Longrightarrow> nul_free t) \<Longrightarrow> nul_free (separated ts)"
  by (induction ts rule: separated.induct) simp_all

lemma nul_free_json_text:
  assumes "\<forall>x \<in> set db. nul_free (kv_name x) \<and> restorable b64 dec (kv_val x)"
  shows "nul_free (json_text b64 db)"
proof -
  have "nul_free (entry b64 x)" if "x \<in> set db" for x
    using assms that by (cases "kv_val x") (auto simp: entry_def val_text_def restorable_def int_digits_def)
  then show ?thesis by (auto simp: json_text_def intro!: nul_free_separated)
qed

text \<open>Other clients of the store between the writing and the reading of a record: each stores a value or removes a key.\<close>

definition kv_clients :: "kv_env \<Rightarrow> (string \<times> byte list option) list \<Rightarrow> kv_files \<Rightarrow> kv_files" where
  "kv_clients E ops fs =
     fold (\<lambda>(k', v) s. case v of None \<Rightarrow> snd (tal_kv_del k' s) | Some b \<Rightarrow> snd (tal_kv_set E (Some k') (Some b) s)) ops fs"

lemma view_get: "kv_view E fs k = Some v \<Longrightarrow> tal_kv_get E (Some k) fs = Inr v"
  by (simp add: kv_view_def split: sum.splits)

text \<open>Writing and reading a record, seen through the contents of the store.\<close>

definition record_ok :: "(byte list \<Rightarrow> string) \<Rightarrow> (string \<Rightarrow> byte list) \<Rightarrow> parse_env \<Rightarrow> kv_db list \<Rightarrow> bool" where
  "record_ok b64 dec J db \<longleftrightarrow>
     (\<forall>x \<in> set db. nul_free (kv_name x) \<and> val_ok b64 (kv_val x) \<and> restorable b64 dec (kv_val x)) \<and>
     (\<exists>root. cjson_parse J (json_text b64 db) = Some root \<and>
             (\<forall>x \<in> set db. \<exists>j. get_item J root (kv_name x) = Some j \<and> item_ok b64 (kv_val x) j))"

lemma record_written:
  assumes "kv_ready E" "db \<noteq> []" "record_ok b64 dec J db"
  shows "tal_kv_serialize_set E b64 (Some k) db fs = Some (OPRT_OK, snd (tal_kv_set E (Some k) (Some (text_bytes (json_text b64 db))) fs))"
proof -
  have "\<not> (\<exists>x \<in> set db. val_text b64 (kv_val x) = None)" using assms(3) by (auto simp: record_ok_def restorable_def val_text_def split: kv_value.splits)
  then have "kv_serialize b64 (kv_mem E) db = Some (Inr (json_text b64 db))"
    using kv_serialize_eq [of db b64 "kv_mem E"] assms(1,3) by (simp add: kv_ready_def record_ok_def)
  moreover have "text_bytes (json_text b64 db) \<noteq> []" by (simp add: text_bytes_def json_text_def)
  ultimately show ?thesis using assms(2) kv.put_ok [OF assms(1)] by (simp add: tal_kv_serialize_set_def prod_eq_iff)
qed

lemma record_read:
  assumes "db \<noteq> []" "record_ok b64 dec J db" "kv_view E fs k = Some (text_bytes (json_text b64 db))"
    and "list_all2 (\<lambda>y x. kv_name y = kv_name x \<and> same_shape (kv_val y) (kv_val x)) db0 db"
  shows "tal_kv_serialize_get E J dec (Some k) db0 fs = Some (OPRT_OK, db)"
proof -
  obtain root where root: "cjson_parse J (json_text b64 db) = Some root" "\<forall>x \<in> set db. \<exists>j. get_item J root (kv_name x) = Some j \<and> item_ok b64 (kv_val x) j"
    using assms(2) by (auto simp: record_ok_def)
  have "c_string (text_bytes (json_text b64 db)) = json_text b64 db"
    using nul_free_json_text [of db b64 dec] assms(2) by (intro c_string_text) (simp add: nul_free_def record_ok_def)
  moreover have "db0 \<noteq> []" using assms(1,4) by auto
  moreover have "deser_loop J dec root db0 = Some (OPRT_OK, db)" using deser_loop_restores [OF assms(4) _ root(2)] assms(2) by (simp add: record_ok_def)
  ultimately show ?thesis using root(1) assms(3) by (simp add: tal_kv_serialize_get_def view_get kv_deserialize_def)
qed

text \<open>
  The records for which the property of cJSON speaks: texts without quotes, backslashes and control characters, as names and as values, and names that differ not only in
  their case. \<^verbatim>\<open>kv_serialize\<close> writes the texts as they are, so a record with a quote in a string is not read back.
\<close>

primrec scalar_of :: "(byte list \<Rightarrow> string) \<Rightarrow> kv_value \<Rightarrow> scalar" where
  "scalar_of b64 (KV_Num tp i) = J_Num i"
| "scalar_of b64 (KV_Bool b) = J_Bool b"
| "scalar_of b64 (KV_String cap s) = (if s = [] then J_Null else J_Str s)"
| "scalar_of b64 (KV_Raw d) = (if d = [] then J_Null else J_Str (b64 d))"
| "scalar_of b64 (KV_Bad t) = J_Null"

definition members :: "(byte list \<Rightarrow> string) \<Rightarrow> kv_db list \<Rightarrow> (string \<times> scalar) list" where
  "members b64 db = map (\<lambda>x. (kv_name x, scalar_of b64 (kv_val x))) db"

primrec value_ok :: "(byte list \<Rightarrow> string) \<Rightarrow> (string \<Rightarrow> byte list) \<Rightarrow> kv_value \<Rightarrow> bool" where
  "value_ok b64 dec (KV_Num tp i) \<longleftrightarrow> num_range tp i \<and> - (2 ^ 31) \<le> i \<and> i < 2 ^ 31"
| "value_ok b64 dec (KV_Bool b) \<longleftrightarrow> True"
| "value_ok b64 dec (KV_String cap s) \<longleftrightarrow> list_all plain_char s \<and> length s < cap"
| "value_ok b64 dec (KV_Raw d) \<longleftrightarrow> list_all plain_char (b64 d) \<and> length (b64 d) = (length d + 2) div 3 * 4 \<and> dec (b64 d) = d"
| "value_ok b64 dec (KV_Bad t) \<longleftrightarrow> False"

definition record_plain :: "(byte list \<Rightarrow> string) \<Rightarrow> (string \<Rightarrow> byte list) \<Rightarrow> kv_db list \<Rightarrow> bool" where
  "record_plain b64 dec db \<longleftrightarrow> db \<noteq> [] \<and> list_all (\<lambda>x. list_all plain_char (kv_name x) \<and> value_ok b64 dec (kv_val x)) db
     \<and> distinct (map (\<lambda>x. map lower_char (kv_name x)) db)"

lemma plain_nul_free: "list_all plain_char s \<Longrightarrow> nul_free s"
proof -
  have "\<not> plain_char (CHR 0x00)" by (simp add: plain_char_def)
  then show "list_all plain_char s \<Longrightarrow> nul_free s" by (auto simp: list_all_iff nul_free_def)
qed

lemma value_ok_facts:
  assumes "value_ok b64 dec v"
  shows "val_ok b64 v" "restorable b64 dec v" "scalar_ok (scalar_of b64 v)" "the (val_text b64 v) = scalar_text (scalar_of b64 v)"
    "scalar_item (scalar_of b64 v) j = item_ok b64 v j"
  using assms by (cases v; auto simp: val_ok_def restorable_def val_text_def item_ok_def plain_nul_free)+

lemma record_plain_ok:
  assumes "json_objects J" "record_plain b64 dec db"
  shows "record_ok b64 dec J db"
proof -
  have v: "list_all plain_char (kv_name x) \<and> value_ok b64 dec (kv_val x)" if "x \<in> set db" for x
    using assms(2) that by (auto simp: record_plain_def list_all_iff)
  have "entry b64 x = member_text (kv_name x, scalar_of b64 (kv_val x))" if "x \<in> set db" for x
    using value_ok_facts(4) [of b64 dec "kv_val x"] v [OF that] by (simp add: entry_def member_text_def)
  then have t: "json_text b64 db = ''{'' @ separated (map member_text (members b64 db)) @ '' }''"
    using assms(2) by (simp add: json_text_def members_def record_plain_def comp_def cong: map_cong)
  have "members b64 db \<noteq> [] \<and> members_ok (members b64 db)"
    using assms(2) v value_ok_facts(3) by (auto simp: members_def members_ok_def record_plain_def list_all_iff comp_def)
  then obtain root where r: "cjson_parse J (json_text b64 db) = Some root"
    "\<forall>m \<in> set (members b64 db). \<exists>j. get_item J root (fst m) = Some j \<and> scalar_item (snd m) j"
    using assms(1) unfolding json_objects_def t by blast
  have "\<exists>j. get_item J root (kv_name x) = Some j \<and> item_ok b64 (kv_val x) j" if "x \<in> set db" for x
    using r(2) that value_ok_facts(5) [of b64 dec "kv_val x"] v [OF that] by (fastforce simp: members_def)
  moreover have "nul_free (kv_name x) \<and> val_ok b64 (kv_val x) \<and> restorable b64 dec (kv_val x)" if "x \<in> set db" for x
    using v [OF that] plain_nul_free value_ok_facts(1,2) by blast
  ultimately show ?thesis using r(1) by (auto simp: record_ok_def)
qed

text \<open>
  C26. A record survives in the store: a record written with \<^verbatim>\<open>tal_kv_serialize_set\<close> is restored by \<^verbatim>\<open>tal_kv_serialize_get\<close> into an array of the same
  names and types, every member with the value it had, whatever other keys are written and removed in between. The names and the strings of the record have no quotes, backslashes or
  control characters, since they are written unescaped, its numbers are in the range of their types and its strings shorter than their memory. The cipher inverts, base64
  has the right length and inverts, and cJSON parses every object without nesting whose texts are of this kind.
\<close>

theorem kv_record_survives:
  assumes "kv_ready E" "json_objects J" "record_plain b64 dec db"
    and "list_all2 (\<lambda>y x. kv_name y = kv_name x \<and> same_shape (kv_val y) (kv_val x)) db0 db"
    and "k \<notin> set (map fst ops)"
  shows "\<exists>fs'. tal_kv_serialize_set E b64 (Some k) db fs = Some (OPRT_OK, fs') \<and>
               tal_kv_serialize_get E J dec (Some k) db0 (kv_clients E ops fs') = Some (OPRT_OK, db)"
proof -
  let ?v = "text_bytes (json_text b64 db)"
  have r: "db \<noteq> []" "record_ok b64 dec J db" using assms(3) record_plain_ok [OF assms(2,3)] by (simp_all add: record_plain_def)
  have v: "?v \<noteq> []" by (simp add: text_bytes_def json_text_def)
  have "kv_view E (kv_clients E ops (snd (tal_kv_set E (Some k) (Some ?v) fs))) k = Some ?v"
    using kv.puts_other [OF assms(1,5)] kv.put_view [OF assms(1) v] by (simp add: kv_clients_def)
  then show ?thesis using record_written [OF assms(1) r, of k fs] record_read [OF r _ assms(4)] by blast
qed

definition demo_db :: "kv_db list" where
  "demo_db = [\<lparr>kv_name = ''a'', kv_val = KV_Num KV_INT (- 5)\<rparr>, \<lparr>kv_name = ''on'', kv_val = KV_Bool True\<rparr>, \<lparr>kv_name = ''s'', kv_val = KV_String 4 ''hi''\<rparr>]"

definition blank_db :: "kv_db list" where
  "blank_db = [\<lparr>kv_name = ''a'', kv_val = KV_Num KV_INT 0\<rparr>, \<lparr>kv_name = ''on'', kv_val = KV_Bool False\<rparr>, \<lparr>kv_name = ''s'', kv_val = KV_String 4 []\<rparr>]"

lemma demo_json_text: "json_text b64 demo_db = ''{\"a\":-5,\"on\":true,\"s\":\"hi\" }''"
  by (simp add: json_text_def demo_db_def entry_def val_text_def int_digits_def nat_digits.simps char_of_def bit_0)

theorem kv_serialize_fits_witness: "kv_serialize (\<lambda>_. []) (\<lambda>_. True) demo_db = Some (Inr ''{\"a\":-5,\"on\":true,\"s\":\"hi\" }'')"
  using kv_serialize_fits [of demo_db "\<lambda>_. []" "\<lambda>_. True"] unfolding demo_json_text by (simp add: demo_db_def val_ok_def)

theorem kv_record_survives_witness:
  "\<exists>fs'. tal_kv_serialize_set demo_kv (\<lambda>_. []) (Some ''cfg'') demo_db Map.empty = Some (OPRT_OK, fs') \<and>
         tal_kv_serialize_get demo_kv flat_json (\<lambda>_. []) (Some ''cfg'') blank_db (kv_clients demo_kv [(''x'', Some [1]), (''y'', None)] fs') = Some (OPRT_OK, demo_db)"
proof (rule kv_record_survives [OF demo_kv_ready flat_json_objects])
  show "record_plain (\<lambda>_. []) (\<lambda>_. []) demo_db"
    by (simp add: record_plain_def demo_db_def plain_char_def num_range_def lower_char_def)
qed (simp_all add: demo_db_def blank_db_def)

end
