(* ===== verification/Health.thy ===== *)
theory Health
  imports Event
begin

text \<open>
  The health monitor (\<^verbatim>\<open>src/tuya_cloud_service/cloud/tuya_health.c\<close>): the list of items, a round of the monitor over them, and the start with the default policies.
  What the checks read of the platform is an argument of each round; what a round does is a list: the watchdog is fed, a dump of the threads or a notification is put on the
  work queue. \<open>None\<close> is an access through a null pointer. The time that is left is a 32-bit integer read with its sign.
\<close>

section \<open>Items\<close>

datatype health_check = Check_Memory | Check_Workq | Check_Msgq | Check_Timeq | Watchdog_Feed | Check_User nat
datatype health_notify = Memory_Notify | Workq_Notify | Msgq_Notify | Notify_User nat

record health_policy =
  hp_type :: int
  hp_threshold :: u32
  hp_period :: u32
  hp_check :: "health_check option"
  hp_notify :: "health_notify option"

record health_item =
  hi_policy :: health_policy
  hi_ts :: u32
  hi_cnt :: u32
  hi_left :: u32

record health_mgr =
  hm_type :: int
  hm_items :: "health_item list"

record health_env =
  he_heap :: int
  he_workq :: nat
  he_msgq :: nat
  he_timers :: int
  he_user :: "nat \<Rightarrow> bool"
  he_posix :: u32

datatype health_out = Dump_Watermark | Feed | Schedule health_notify

abbreviation HEALTH_SLEEP_INTERVAL :: u32 where "HEALTH_SLEEP_INTERVAL \<equiv> 5"
abbreviation HEALTH_DETECT_INTERVAL :: u32 where "HEALTH_DETECT_INTERVAL \<equiv> 600"
abbreviation HEALTH_WATCHDOG_INTERVAL :: u32 where "HEALTH_WATCHDOG_INTERVAL \<equiv> 60"
abbreviation HEALTH_FREE_MEM_THRESHOLD :: int where "HEALTH_FREE_MEM_THRESHOLD \<equiv> 8192"
abbreviation HEALTH_RULE_FEED_WATCH_DOG :: int where "HEALTH_RULE_FEED_WATCH_DOG \<equiv> 7"
abbreviation HEALTH_RULE_RUNTIME_REPT :: int where "HEALTH_RULE_RUNTIME_REPT \<equiv> 8"

text \<open>The new item goes to the head of the list.\<close>

definition tuya_health_item_add ::
    "bool \<Rightarrow> u32 \<Rightarrow> u32 \<Rightarrow> health_check option \<Rightarrow> health_notify option \<Rightarrow> health_mgr option \<Rightarrow> int \<times> health_mgr option" where
  "tuya_health_item_add mem threshold period check notify s =
     (case s of
        None \<Rightarrow> (OPRT_INVALID_PARM, None)
      | Some m \<Rightarrow>
          if hm_type m > 128 then (OPRT_INVALID_PARM, Some m)
          else if \<not> mem then (OPRT_MALLOC_FAILED, Some m)
          else (let policy = \<lparr>hp_type = hm_type m, hp_threshold = threshold, hp_period = period, hp_check = check, hp_notify = notify\<rparr>
                in (hm_type m, Some (m\<lparr>hm_type := hm_type m + 1, hm_items := \<lparr>hi_policy = policy, hi_ts = 0, hi_cnt = 0, hi_left = period\<rparr> # hm_items m\<rparr>))))"

fun del_type :: "int \<Rightarrow> health_item list \<Rightarrow> health_item list" where
  "del_type typ [] = []"
| "del_type typ (i # is) = (if hp_type (hi_policy i) = typ then is else i # del_type typ is)"

definition tuya_health_item_del :: "int \<Rightarrow> health_mgr option \<Rightarrow> health_mgr option" where
  "tuya_health_item_del typ s = map_option (\<lambda>m. m\<lparr>hm_items := del_type typ (hm_items m)\<rparr>) s"

definition upd_type :: "int \<Rightarrow> (health_item \<Rightarrow> health_item) \<Rightarrow> health_mgr \<Rightarrow> health_mgr" where
  "upd_type typ f m = m\<lparr>hm_items := map (\<lambda>i. if hp_type (hi_policy i) = typ then f i else i) (hm_items m)\<rparr>"

definition tuya_health_update_item_period :: "int \<Rightarrow> u32 \<Rightarrow> health_mgr option \<Rightarrow> health_mgr option" where
  "tuya_health_update_item_period typ period s =
     map_option (upd_type typ (\<lambda>i. i\<lparr>hi_policy := (hi_policy i)\<lparr>hp_period := period\<rparr>, hi_left := period\<rparr>)) s"

definition tuya_health_update_item_threshold :: "int \<Rightarrow> u32 \<Rightarrow> health_mgr option \<Rightarrow> health_mgr option" where
  "tuya_health_update_item_threshold typ threshold s =
     map_option (upd_type typ (\<lambda>i. i\<lparr>hi_policy := (hi_policy i)\<lparr>hp_threshold := threshold\<rparr>\<rparr>)) s"

text \<open>Printing the items needs the manager.\<close>

definition tuya_health_item_dump :: "health_mgr option \<Rightarrow> health_item list option" where
  "tuya_health_item_dump s = map_option hm_items s"

section \<open>Checks\<close>

definition health_memory_check :: "health_env \<Rightarrow> bool" where
  "health_memory_check E \<longleftrightarrow> 0 < he_heap E \<and> he_heap E < HEALTH_FREE_MEM_THRESHOLD"

definition health_workq_check :: "health_env \<Rightarrow> bool" where
  "health_workq_check E \<longleftrightarrow> he_workq E > 50"

definition health_msgq_check :: "health_env \<Rightarrow> bool" where
  "health_msgq_check E \<longleftrightarrow> he_msgq E > 50"

definition health_timeq_check :: "health_env \<Rightarrow> bool" where
  "health_timeq_check E \<longleftrightarrow> he_timers E > 100"

text \<open>The first argument tells whether the watchdog is compiled in.\<close>

definition watchdog_feed :: "bool \<Rightarrow> bool \<times> health_out list" where
  "watchdog_feed wd = (False, if wd then [Feed] else [])"

primrec run_check :: "bool \<Rightarrow> health_env \<Rightarrow> health_check \<Rightarrow> bool \<times> health_out list" where
  "run_check wd E Check_Memory = (health_memory_check E, [Dump_Watermark])"
| "run_check wd E Check_Workq = (health_workq_check E, [])"
| "run_check wd E Check_Msgq = (health_msgq_check E, [])"
| "run_check wd E Check_Timeq = (health_timeq_check E, [])"
| "run_check wd E Watchdog_Feed = watchdog_feed wd"
| "run_check wd E (Check_User n) = (he_user E n, [])"

text \<open>What an item does when its time is up: the query, the notification, and the end of the count of an item that is fed by events.\<close>

definition item_query :: "bool \<Rightarrow> health_env \<Rightarrow> health_item \<Rightarrow> health_item \<times> health_out list" where
  "item_query wd E i =
     (case hp_check (hi_policy i) of
        None \<Rightarrow> (i, [])
      | Some c \<Rightarrow> (case run_check wd E c of (bad, out) \<Rightarrow>
          (if bad then i\<lparr>hi_cnt := hi_cnt i + 1, hi_ts := he_posix E\<rparr> else i\<lparr>hi_cnt := 0, hi_ts := 0\<rparr>, out)))"

definition item_notify :: "health_item \<Rightarrow> health_item \<times> health_out list" where
  "item_notify i =
     (case hp_notify (hi_policy i) of
        None \<Rightarrow> (i, [])
      | Some f \<Rightarrow> if hi_cnt i \<ge> hp_threshold (hi_policy i) then (i\<lparr>hi_cnt := 0, hi_ts := 0\<rparr>, [Schedule f]) else (i, []))"

definition item_due :: "bool \<Rightarrow> health_env \<Rightarrow> health_item \<Rightarrow> health_item \<times> health_out list" where
  "item_due wd E i =
     (case item_query wd E (i\<lparr>hi_left := hp_period (hi_policy i)\<rparr>) of (i, o1) \<Rightarrow>
        case item_notify i of (i, o2) \<Rightarrow>
          (if hp_check (hi_policy i) = None then i\<lparr>hi_cnt := 0, hi_ts := 0\<rparr> else i, o1 @ o2))"

definition item_round :: "bool \<Rightarrow> health_env \<Rightarrow> health_item \<Rightarrow> health_item \<times> health_out list" where
  "item_round wd E i =
     (let i = i\<lparr>hi_left := hi_left i - HEALTH_SLEEP_INTERVAL\<rparr>
      in if sint (hi_left i) \<le> 0 then item_due wd E i else (i, []))"

fun foreach_loop :: "bool \<Rightarrow> health_env \<Rightarrow> health_item list \<Rightarrow> health_item list \<times> health_out list" where
  "foreach_loop wd E [] = ([], [])"
| "foreach_loop wd E (i # is) =
     (case item_round wd E i of (i, o1) \<Rightarrow> case foreach_loop wd E is of (is, o2) \<Rightarrow> (i # is, o1 @ o2))"

definition health_foreach_item :: "bool \<Rightarrow> health_env \<Rightarrow> health_mgr \<Rightarrow> health_mgr \<times> health_out list" where
  "health_foreach_item wd E m = (case foreach_loop wd E (hm_items m) of (is, out) \<Rightarrow> (m\<lparr>hm_items := is\<rparr>, out))"

text \<open>The task runs a round every five seconds, for ever; here for as many rounds as there are environments.\<close>

fun health_monitor_task :: "bool \<Rightarrow> health_env list \<Rightarrow> health_mgr \<Rightarrow> health_mgr \<times> health_out list" where
  "health_monitor_task wd [] m = (m, [])"
| "health_monitor_task wd (E # Es) m =
     (case health_foreach_item wd E m of (m, o1) \<Rightarrow> case health_monitor_task wd Es m of (m, o2) \<Rightarrow> (m, o1 @ o2))"

text \<open>An alert counts for the items of its type; the data that come with the event are released.\<close>

definition health_alert_cb :: "int option \<Rightarrow> health_mgr option \<Rightarrow> (operate_ret \<times> health_mgr option) option" where
  "health_alert_cb alert s =
     (case alert of
        None \<Rightarrow> Some (OPRT_INVALID_PARM, s)
      | Some typ \<Rightarrow> (case s of None \<Rightarrow> None | Some m \<Rightarrow> Some (OPRT_OK, Some (upd_type typ (\<lambda>i. i\<lparr>hi_cnt := hi_cnt i + 1\<rparr>) m))))"

section \<open>Start\<close>

definition g_health_policy :: "health_policy list" where
  "g_health_policy =
     [\<lparr>hp_type = 0, hp_threshold = 1, hp_period = HEALTH_DETECT_INTERVAL, hp_check = Some Check_Memory, hp_notify = Some Memory_Notify\<rparr>,
      \<lparr>hp_type = 1, hp_threshold = 1, hp_period = HEALTH_DETECT_INTERVAL, hp_check = None, hp_notify = None\<rparr>,
      \<lparr>hp_type = 2, hp_threshold = 5, hp_period = HEALTH_DETECT_INTERVAL, hp_check = None, hp_notify = None\<rparr>,
      \<lparr>hp_type = 3, hp_threshold = 5, hp_period = HEALTH_DETECT_INTERVAL, hp_check = None, hp_notify = None\<rparr>,
      \<lparr>hp_type = 4, hp_threshold = 1, hp_period = HEALTH_DETECT_INTERVAL, hp_check = Some Check_Workq, hp_notify = Some Workq_Notify\<rparr>,
      \<lparr>hp_type = 5, hp_threshold = 1, hp_period = HEALTH_DETECT_INTERVAL, hp_check = Some Check_Msgq, hp_notify = Some Msgq_Notify\<rparr>,
      \<lparr>hp_type = 6, hp_threshold = 1, hp_period = HEALTH_DETECT_INTERVAL, hp_check = Some Check_Timeq, hp_notify = None\<rparr>,
      \<lparr>hp_type = HEALTH_RULE_FEED_WATCH_DOG, hp_threshold = 0, hp_period = HEALTH_WATCHDOG_INTERVAL, hp_check = Some Watchdog_Feed, hp_notify = None\<rparr>]"

text \<open>The allocations of the items are numbered.\<close>

fun item_load :: "(nat \<Rightarrow> bool) \<Rightarrow> nat \<Rightarrow> health_policy list \<Rightarrow> health_mgr option \<Rightarrow> health_mgr option" where
  "item_load mem n [] s = s"
| "item_load mem n (p # ps) s =
     (case s of
        None \<Rightarrow> None
      | Some m \<Rightarrow> if hp_type p \<noteq> hm_type m then s
                  else item_load mem (Suc n) ps (snd (tuya_health_item_add (mem n) (hp_threshold p) (hp_period p) (hp_check p) (hp_notify p) s)))"

definition health_item_load :: "(nat \<Rightarrow> bool) \<Rightarrow> health_mgr option \<Rightarrow> health_mgr option" where
  "health_item_load mem s = item_load mem 0 g_health_policy s"

abbreviation EVENT_HEALTH_ALERT :: string where "EVENT_HEALTH_ALERT \<equiv> ''health.alert''"
abbreviation EVENT_REBOOT_ACK :: string where "EVENT_REBOOT_ACK \<equiv> ''dev.reboot.ack''"
abbreviation HEALTH_ALERT_CB :: nat where "HEALTH_ALERT_CB \<equiv> 1"
abbreviation HEALTH_REBOOT_CB :: nat where "HEALTH_REBOOT_CB \<equiv> 2"

text \<open>
  The environment of the start: the allocations of the manager, of the subscriptions and of the items, the results of the mutex and of the thread, and the interval of the
  watchdog in milliseconds when it is compiled in.
\<close>

record start_env =
  se_mgr :: bool
  se_sub :: bool
  se_items :: "nat \<Rightarrow> bool"
  se_mutex :: operate_ret
  se_thread :: operate_ret
  se_watchdog :: "u32 option"

definition watchdog_init_and_start :: "u32 \<Rightarrow> u32" where
  "watchdog_init_and_start interval_ms = interval_ms div 1000"

definition start_failed :: "operate_ret \<Rightarrow> event_manage \<Rightarrow> operate_ret \<times> health_mgr option \<times> event_manage" where
  "start_failed rt bus =
     (let bus = snd (tal_event_unsubscribe (Some EVENT_REBOOT_ACK) (Some ''health_monitor'') (Some HEALTH_REBOOT_CB) bus)
      in (rt, None, snd (tal_event_unsubscribe (Some EVENT_HEALTH_ALERT) (Some ''health_monitor'') (Some HEALTH_ALERT_CB) bus)))"

definition tuya_health_monitor_init :: "start_env \<Rightarrow> health_mgr option \<Rightarrow> event_manage \<Rightarrow> operate_ret \<times> health_mgr option \<times> event_manage" where
  "tuya_health_monitor_init S s bus =
     (if s \<noteq> None then (OPRT_OK, s, bus)
      else if \<not> se_mgr S then (OPRT_OK, None, bus)
      else if se_mutex S \<noteq> OPRT_OK then start_failed (se_mutex S) bus
      else case tal_event_subscribe (Some EVENT_HEALTH_ALERT) (Some ''health_monitor'') (Some HEALTH_ALERT_CB) SUBSCRIBE_TYPE_NORMAL (se_sub S) bus of (rt, bus) \<Rightarrow>
        if rt \<noteq> OPRT_OK then start_failed rt bus
        else case tal_event_subscribe (Some EVENT_REBOOT_ACK) (Some ''health_monitor'') (Some HEALTH_REBOOT_CB) SUBSCRIBE_TYPE_NORMAL (se_sub S) bus of (rt, bus) \<Rightarrow>
          if rt \<noteq> OPRT_OK then start_failed rt bus
          else (let m = health_item_load (se_items S) (Some \<lparr>hm_type = 0, hm_items = []\<rparr>);
                    m = (case se_watchdog S of
                           None \<Rightarrow> m
                         | Some ms \<Rightarrow> tuya_health_update_item_period HEALTH_RULE_FEED_WATCH_DOG (watchdog_init_and_start ms div 3) m)
                in if se_thread S \<noteq> OPRT_OK then start_failed (se_thread S) bus else (OPRT_OK, m, bus)))"

definition tuya_health_disable_watchdog :: "health_mgr option \<Rightarrow> health_mgr option" where
  "tuya_health_disable_watchdog s = (if s = None then None else tuya_health_update_item_period HEALTH_RULE_FEED_WATCH_DOG 0xFFFF s)"

definition tuya_health_udpate_detect_interval :: "int \<Rightarrow> health_mgr option \<Rightarrow> health_mgr option" where
  "tuya_health_udpate_detect_interval interval s =
     (let monitor_detect_interval = (if interval < 60 then 60 else interval)
      in fold (\<lambda>p s. if hp_type p = HEALTH_RULE_FEED_WATCH_DOG \<or> hp_type p = HEALTH_RULE_RUNTIME_REPT then s
                     else tuya_health_update_item_period (hp_type p) (word_of_int monitor_detect_interval) s) g_health_policy s)"


section \<open>The rate of an item\<close>

text \<open>A run of one item, and the environments in which its time is up: every \<open>k\<close>-th.\<close>

fun item_run :: "bool \<Rightarrow> health_env list \<Rightarrow> health_item \<Rightarrow> health_item \<times> health_out list" where
  "item_run wd [] i = (i, [])"
| "item_run wd (E # Es) i = (case item_round wd E i of (i, o1) \<Rightarrow> case item_run wd Es i of (i, o2) \<Rightarrow> (i, o1 @ o2))"

fun due_run :: "bool \<Rightarrow> health_env list \<Rightarrow> health_item \<Rightarrow> health_out list" where
  "due_run wd [] i = []"
| "due_run wd (E # Es) i = (case item_due wd E i of (i, o1) \<Rightarrow> o1 @ due_run wd Es i)"

definition samples :: "nat \<Rightarrow> health_env list \<Rightarrow> health_env list" where
  "samples k Es = map (\<lambda>j. Es ! (j * k + k - 1)) [0..<length Es div k]"

definition rounds :: "u32 \<Rightarrow> nat" where
  "rounds period = (unat period + 4) div 5"

lemma run_append: "item_run wd (xs @ ys) i = (case item_run wd xs i of (i, o1) \<Rightarrow> case item_run wd ys i of (i, o2) \<Rightarrow> (i, o1 @ o2))"
  by (induction xs arbitrary: i) (simp_all add: case_prod_beta)

lemma due_policy: "hi_policy (fst (item_due wd E i)) = hi_policy i"
  by (auto simp: item_due_def item_query_def item_notify_def case_prod_beta split: option.splits)

lemma due_left: "hi_left (fst (item_due wd E i)) = hp_period (hi_policy i)"
  by (auto simp: item_due_def item_query_def item_notify_def case_prod_beta split: option.splits)

lemma due_reads_no_left: "item_due wd E (i\<lparr>hi_left := l\<rparr>) = item_due wd E i"
  by (simp add: item_due_def)

lemma sint_small: "n < 2 ^ 31 \<Longrightarrow> sint (word_of_int n :: u32) = n" if "- (2 ^ 31) \<le> n"
  using that by (simp add: signed_of_int signed_take_bit_int_eq_self)

text \<open>Until its time is up an item only counts down.\<close>

lemma run_quiet:
  "hi_left i = word_of_int l \<Longrightarrow> l < 2 ^ 31 \<Longrightarrow> 5 * int (length Es) < l \<Longrightarrow> item_run wd Es i = (i\<lparr>hi_left := word_of_int (l - 5 * int (length Es))\<rparr>, [])"
proof (induction Es arbitrary: i l)
  case (Cons E Es)
  have "item_round wd E i = (i\<lparr>hi_left := word_of_int (l - 5)\<rparr>, [])"
    using Cons.prems sint_small [of "l - 5"] by (simp add: item_round_def Let_def)
  moreover have "item_run wd Es (i\<lparr>hi_left := word_of_int (l - 5)\<rparr>) = (i\<lparr>hi_left := word_of_int (l - 5)\<rparr>\<lparr>hi_left := word_of_int (l - 5 - 5 * int (length Es))\<rparr>, [])"
    by (rule Cons.IH) (use Cons.prems in simp_all)
  ultimately show ?case by (simp add: algebra_simps)
qed simp

lemma run_period:
  assumes "hi_left i = hp_period (hi_policy i)" "0 < hp_period (hi_policy i)" "unat (hp_period (hi_policy i)) < 2 ^ 31" "length Es = rounds (hp_period (hi_policy i))"
  shows "item_run wd Es i = item_due wd (last Es) i"
proof -
  define p where "p = unat (hp_period (hi_policy i))"
  have p: "0 < p" "p < 2 ^ 31" "hi_left i = word_of_int (int p)" using assms(1-3) by (simp_all add: p_def unat_gt_0)
  have n: "length Es = (p + 4) div 5" using assms(4) by (simp add: p_def rounds_def)
  then obtain xs E where e: "Es = xs @ [E]" using p(1) by (cases Es rule: rev_cases) auto
  have l: "5 * length xs < p" "p \<le> 5 * length xs + 5" using n e p(1) by auto
  have "item_run wd xs i = (i\<lparr>hi_left := word_of_int (int p - 5 * int (length xs))\<rparr>, [])"
    by (rule run_quiet) (use p l in auto)
  moreover have "item_round wd E (i\<lparr>hi_left := word_of_int (int p - 5 * int (length xs))\<rparr>) = item_due wd E i"
    using l p sint_small [of "int p - 5 * int (length xs) - 5"] by (simp add: item_round_def Let_def due_reads_no_left)
  ultimately show ?thesis using e by (simp add: run_append case_prod_beta)
qed

lemma samples_step:
  assumes "0 < k" "k \<le> length Es"
  shows "samples k Es = last (take k Es) # samples k (drop k Es)"
proof -
  obtain n where n: "length Es div k = Suc n" using assms by (cases "length Es div k") (auto simp: div_eq_0_iff)
  then have d: "length (drop k Es) div k = n" using assms by (simp add: div_if split: if_splits)
  have "take k Es \<noteq> []" using assms by auto
  then have "last (take k Es) = Es ! (k - 1)" using assms by (simp add: last_conv_nth)
  moreover have "map (\<lambda>j. Es ! (j * k + k - 1)) (map Suc [0..<n]) = map (\<lambda>j. drop k Es ! (j * k + k - 1)) [0..<n]"
    using assms by (auto simp: algebra_simps)
  ultimately show ?thesis unfolding samples_def n d using upt_conv_Cons [of 0 "Suc n"] by (simp add: map_Suc_upt)
qed

text \<open>What an item does in a run is what it does in every \<open>k\<close>-th round.\<close>

lemma run_due:
  assumes "hi_left i = hp_period (hi_policy i)" "0 < hp_period (hi_policy i)" "unat (hp_period (hi_policy i)) < 2 ^ 31"
  shows "snd (item_run wd Es i) = due_run wd (samples (rounds (hp_period (hi_policy i))) Es) i"
  using assms
proof (induction "length Es" arbitrary: Es i rule: less_induct)
  case less
  let ?k = "rounds (hp_period (hi_policy i))"
  have "0 < unat (hp_period (hi_policy i))" using less.prems(2) by (simp add: unat_gt_0)
  then have k: "0 < ?k" by (simp add: rounds_def div_greater_zero_iff)
  show ?case
  proof (cases "length Es < ?k")
    case True
    have "5 * length Es < unat (hp_period (hi_policy i))" using True by (simp add: rounds_def)
    then have "int (5 * length Es) < int (unat (hp_period (hi_policy i)))" by (simp only: of_nat_less_iff)
    moreover have "int (unat (hp_period (hi_policy i))) < 2 ^ 31" using of_nat_less_iff [where 'a = int, THEN iffD2, OF less.prems(3)] by simp
    ultimately have "snd (item_run wd Es i) = []" using run_quiet [of i "int (unat (hp_period (hi_policy i)))" Es wd] less.prems by simp
    then show ?thesis using True by (simp add: samples_def)
  next
    case False
    define i' where "i' = fst (item_due wd (last (take ?k Es)) i)"
    have i': "hi_policy i' = hi_policy i" "hi_left i' = hp_period (hi_policy i')" by (simp_all add: i'_def due_policy due_left)
    have "item_run wd (take ?k Es) i = item_due wd (last (take ?k Es)) i" by (rule run_period) (use less.prems False in simp_all)
    moreover have "snd (item_run wd (drop ?k Es) i') = due_run wd (samples ?k (drop ?k Es)) i'"
      using less.hyps [of "drop ?k Es" i'] i' less.prems k False by simp
    ultimately have "snd (item_run wd Es i) = snd (item_due wd (last (take ?k Es)) i) @ due_run wd (samples ?k (drop ?k Es)) i'"
      using run_append [of wd "take ?k Es" "drop ?k Es" i] by (simp add: case_prod_beta i'_def)
    then show ?thesis using samples_step [of ?k Es] k False by (simp add: case_prod_beta i'_def)
  qed
qed

section \<open>The monitor\<close>

lemma foreach_map: "foreach_loop wd E is = (map (\<lambda>i. fst (item_round wd E i)) is, concat (map (\<lambda>i. snd (item_round wd E i)) is))"
  by (induction "is") (simp_all add: case_prod_beta)

text \<open>The items do not depend on each other: what is done in a run is done by the runs of the items.\<close>

lemma sum_list_map_add: "(\<Sum>x \<leftarrow> xs. f x + g x) = (\<Sum>x \<leftarrow> xs. f x) + (\<Sum>x \<leftarrow> xs. g x :: nat)"
  by (induction xs) simp_all

lemma count_concat_map: "count_list (concat (map f xs)) y = (\<Sum>x \<leftarrow> xs. count_list (f x) y)"
  by (induction xs) simp_all

lemma task_counts:
  "hm_items (fst (health_monitor_task wd Es m)) = map (\<lambda>i. fst (item_run wd Es i)) (hm_items m)"
  "count_list (snd (health_monitor_task wd Es m)) y = (\<Sum>i \<leftarrow> hm_items m. count_list (snd (item_run wd Es i)) y)"
  by (induction Es arbitrary: m)
    (simp_all add: health_foreach_item_def foreach_map case_prod_beta comp_def count_concat_map sum_list_map_add)

lemma task_count_due:
  assumes "\<forall>i \<in> set (hm_items m). hi_left i = hp_period (hi_policy i) \<and> 0 < hp_period (hi_policy i) \<and> unat (hp_period (hi_policy i)) < 2 ^ 31"
  shows "count_list (snd (health_monitor_task wd Es m)) y = (\<Sum>i \<leftarrow> hm_items m. count_list (due_run wd (samples (rounds (hp_period (hi_policy i))) Es) i) y)"
  unfolding task_counts(2) using assms by (intro arg_cong [of _ _ sum_list] map_cong refl) (simp add: run_due)

text \<open>An item that does \<open>y\<close> neither as its notification nor in its check; an item with threshold one; the item of the watchdog.\<close>

lemma due_run_none:
  assumes "hp_notify (hi_policy i) = None \<or> (\<exists>f. hp_notify (hi_policy i) = Some f \<and> y \<noteq> Schedule f)" "\<forall>c E. hp_check (hi_policy i) = Some c \<longrightarrow> y \<notin> set (snd (run_check wd E c))"
  shows "count_list (due_run wd Es i) y = 0"
  using assms
proof (induction Es arbitrary: i)
  case (Cons E Es)
  have "y \<notin> set (snd (item_due wd E i))"
    using Cons.prems by (auto simp: item_due_def item_query_def item_notify_def case_prod_beta split: option.splits)
  moreover have "count_list (due_run wd Es (fst (item_due wd E i))) y = 0" using Cons.IH Cons.prems by (simp add: due_policy)
  ultimately show ?case by (simp add: case_prod_beta count_list_0_iff)
qed simp

lemma due_run_first:
  assumes "hp_check (hi_policy i) = Some c" "hp_notify (hi_policy i) = Some f" "hp_threshold (hi_policy i) = 1" "hi_cnt i = 0"
    and "\<And>E. count_list (snd (run_check wd E c)) (Schedule g) = 0"
  shows "count_list (due_run wd Es i) (Schedule g) = (if f = g then length (filter (\<lambda>E. fst (run_check wd E c)) Es) else 0)"
  using assms(1-4)
proof (induction Es arbitrary: i)
  case (Cons E Es)
  let ?i = "fst (item_due wd E i)"
  have d: "hi_cnt ?i = 0" "count_list (snd (item_due wd E i)) (Schedule g) = (if f = g \<and> fst (run_check wd E c) then 1 else 0)"
    using Cons.prems assms(5) by (auto simp: item_due_def item_query_def item_notify_def case_prod_beta)
  have "count_list (due_run wd Es ?i) (Schedule g) = (if f = g then length (filter (\<lambda>E. fst (run_check wd E c)) Es) else 0)"
    by (rule Cons.IH) (use Cons.prems d in \<open>simp_all add: due_policy\<close>)
  then show ?case using d(2) by (simp add: case_prod_beta)
qed simp

lemma due_run_feed:
  "hp_check (hi_policy i) = Some Watchdog_Feed \<Longrightarrow> hp_notify (hi_policy i) = None \<Longrightarrow> count_list (due_run True Es i) Feed = length Es"
proof (induction Es arbitrary: i)
  case (Cons E Es)
  have "snd (item_due True E i) = [Feed]" using Cons.prems by (simp add: item_due_def item_query_def item_notify_def watchdog_feed_def)
  then show ?case using Cons by (simp add: case_prod_beta due_policy)
qed simp

text \<open>The manager after a start in which nothing fails.\<close>

definition started :: "u32 \<Rightarrow> health_mgr" where
  "started period = \<lparr>hm_type = 8, hm_items = rev (map (\<lambda>p. \<lparr>hi_policy = p, hi_ts = 0, hi_cnt = 0, hi_left = hp_period p\<rparr>)
     (map (\<lambda>p. if hp_type p = HEALTH_RULE_FEED_WATCH_DOG then p\<lparr>hp_period := period\<rparr> else p) g_health_policy))\<rparr>"

lemma init_started:
  assumes "se_mgr S" "se_mutex S = OPRT_OK" "se_thread S = OPRT_OK" "\<forall>n. se_items S n" "se_watchdog S = Some ms"
    and "tal_event_subscribe (Some EVENT_HEALTH_ALERT) (Some ''health_monitor'') (Some HEALTH_ALERT_CB) SUBSCRIBE_TYPE_NORMAL (se_sub S) bus = (OPRT_OK, bus1)"
    and "tal_event_subscribe (Some EVENT_REBOOT_ACK) (Some ''health_monitor'') (Some HEALTH_REBOOT_CB) SUBSCRIBE_TYPE_NORMAL (se_sub S) bus1 = (OPRT_OK, bus2)"
  shows "tuya_health_monitor_init S None bus = (OPRT_OK, Some (started (ms div 1000 div 3)), bus2)"
proof -
  have "health_item_load (se_items S) (Some \<lparr>hm_type = 0, hm_items = []\<rparr>) =
      Some \<lparr>hm_type = 8, hm_items = rev (map (\<lambda>p. \<lparr>hi_policy = p, hi_ts = 0, hi_cnt = 0, hi_left = hp_period p\<rparr>) g_health_policy)\<rparr>"
    using assms(4) by (simp add: health_item_load_def g_health_policy_def tuya_health_item_add_def)
  moreover have "tuya_health_update_item_period HEALTH_RULE_FEED_WATCH_DOG (ms div 1000 div 3)
      (Some \<lparr>hm_type = 8, hm_items = rev (map (\<lambda>p. \<lparr>hi_policy = p, hi_ts = 0, hi_cnt = 0, hi_left = hp_period p\<rparr>) g_health_policy)\<rparr>) = Some (started (ms div 1000 div 3))"
    by (simp add: tuya_health_update_item_period_def upd_type_def started_def g_health_policy_def)
  ultimately show ?thesis using assms by (simp add: tuya_health_monitor_init_def watchdog_init_and_start_def Let_def)
qed

lemma samples_length: "length (samples k Es) = length Es div k"
  by (simp add: samples_def)

lemma task_counts_started:
  assumes "0 < period" "unat period < 2 ^ 31"
  shows "count_list (snd (health_monitor_task True Es (started period))) Feed = length Es div rounds period"
    and "count_list (snd (health_monitor_task True Es (started period))) (Schedule Memory_Notify) = length (filter health_memory_check (samples 120 Es))"
proof -
  have ok: "\<forall>i \<in> set (hm_items (started period)). hi_left i = hp_period (hi_policy i) \<and> 0 < hp_period (hi_policy i) \<and> unat (hp_period (hi_policy i)) < 2 ^ 31"
    using assms by (simp add: started_def g_health_policy_def)
  have r: "rounds 600 = 120" by (simp add: rounds_def)
  show "count_list (snd (health_monitor_task True Es (started period))) Feed = length Es div rounds period"
    unfolding task_count_due [OF ok]
    by (simp add: started_def g_health_policy_def due_run_none due_run_feed samples_length)
  show "count_list (snd (health_monitor_task True Es (started period))) (Schedule Memory_Notify) = length (filter health_memory_check (samples 120 Es))"
    unfolding task_count_due [OF ok]
    by (simp add: started_def g_health_policy_def due_run_none due_run_first watchdog_feed_def r)
qed

text \<open>
  C30. The rates of the monitor: after a start in which nothing fails, with a watchdog of at least six seconds, the watchdog is fed once in every span of rounds that is not longer than its interval, and
  the application is asked to reboot exactly for those samples, one in ten minutes, at which the free memory was too small.
\<close>

theorem health_rates:
  assumes "se_mgr S" "se_mutex S = OPRT_OK" "se_thread S = OPRT_OK" "\<forall>n. se_items S n" "se_watchdog S = Some ms" "6 \<le> unat ms div 1000"
    and "tal_event_subscribe (Some EVENT_HEALTH_ALERT) (Some ''health_monitor'') (Some HEALTH_ALERT_CB) SUBSCRIBE_TYPE_NORMAL (se_sub S) bus = (OPRT_OK, bus1)"
    and "tal_event_subscribe (Some EVENT_REBOOT_ACK) (Some ''health_monitor'') (Some HEALTH_REBOOT_CB) SUBSCRIBE_TYPE_NORMAL (se_sub S) bus1 = (OPRT_OK, bus2)"
  shows "\<exists>m k. tuya_health_monitor_init S None bus = (OPRT_OK, Some m, bus2) \<and> 0 < k \<and> 5 * k \<le> unat ms div 1000
    \<and> (\<forall>Es. count_list (snd (health_monitor_task True Es m)) Feed = length Es div k
        \<and> count_list (snd (health_monitor_task True Es m)) (Schedule Memory_Notify) = length (filter health_memory_check (samples 120 Es)))"
proof -
  define p where "p = ms div 1000 div 3"
  have p: "unat p = unat ms div 1000 div 3" by (simp add: p_def unat_div)
  have "unat ms < 2 ^ 32" by (rule order.strict_trans2 [OF unsigned_less]) simp
  then have b: "0 < p" "unat p < 2 ^ 31" using assms(6) p by (simp_all add: word_gt_0 unat_eq_0 [symmetric])
  have k: "0 < rounds p" "5 * rounds p \<le> unat ms div 1000" using assms(6) by (simp_all add: rounds_def p)
  show ?thesis
    using init_started [OF assms(1-5,7,8)] task_counts_started [OF b] k unfolding p_def [symmetric]
    by (intro exI [of _ "started p"] exI [of _ "rounds p"]) simp
qed

text \<open>
  Switching the watchdog off only puts the next feeding off: the watchdog itself is not stopped, and it is fed again after more than eighteen hours, 13107 rounds of five seconds.
\<close>

lemma disabled_rate:
  "\<exists>m. tuya_health_disable_watchdog (Some (started period)) = Some m \<and> count_list (snd (health_monitor_task True Es m)) Feed = length Es div 13107"
proof -
  have "tuya_health_disable_watchdog (Some (started period)) = Some (started 0xFFFF)"
    by (simp add: tuya_health_disable_watchdog_def tuya_health_update_item_period_def upd_type_def started_def g_health_policy_def)
  moreover have "rounds 0xFFFF = 13107" by (simp add: rounds_def)
  ultimately show ?thesis using task_counts_started(1) [of "0xFFFF" Es] by simp
qed

definition start_demo :: start_env where
  "start_demo = \<lparr>se_mgr = True, se_sub = True, se_items = (\<lambda>_. True), se_mutex = OPRT_OK, se_thread = OPRT_OK, se_watchdog = Some 60000\<rparr>"

definition low_memory :: health_env where
  "low_memory = \<lparr>he_heap = 4096, he_workq = 0, he_msgq = 0, he_timers = 0, he_user = (\<lambda>_. False), he_posix = 1000\<rparr>"

theorem health_rates_witness:
  "\<exists>m bus k. tuya_health_monitor_init start_demo None event_manage0 = (OPRT_OK, Some m, bus) \<and> 5 * k \<le> 60
     \<and> count_list (snd (health_monitor_task True (replicate 240 low_memory) m)) Feed = 240 div k
     \<and> count_list (snd (health_monitor_task True (replicate 240 low_memory) m)) (Schedule Memory_Notify) = 2"
proof -
  obtain bus1 bus2 where s: "tal_event_subscribe (Some EVENT_HEALTH_ALERT) (Some ''health_monitor'') (Some HEALTH_ALERT_CB) SUBSCRIBE_TYPE_NORMAL True event_manage0 = (OPRT_OK, bus1)"
    "tal_event_subscribe (Some EVENT_REBOOT_ACK) (Some ''health_monitor'') (Some HEALTH_REBOOT_CB) SUBSCRIBE_TYPE_NORMAL True bus1 = (OPRT_OK, bus2)"
    by (simp add: event_manage0_def tal_event_subscribe_def event_name_is_valid_def event_desc_is_valid_def event_node_get_def event_node_add_free_subscribe_def
        event_node_get_free_subscribe_def same_free_subscribe_def)
  have n: "length (filter health_memory_check (samples 120 (replicate 240 low_memory))) = 2"
    unfolding samples_def length_replicate by (simp add: health_memory_check_def low_memory_def upt_conv_Cons del: replicate.simps)
  obtain m k where r: "tuya_health_monitor_init start_demo None event_manage0 = (OPRT_OK, Some m, bus2)" "5 * k \<le> unat (60000 :: u32) div 1000"
    "\<And>Es. count_list (snd (health_monitor_task True Es m)) Feed = length Es div k"
    "\<And>Es. count_list (snd (health_monitor_task True Es m)) (Schedule Memory_Notify) = length (filter health_memory_check (samples 120 Es))"
    using health_rates [of start_demo 60000 event_manage0 bus1 bus2] s by (auto simp: start_demo_def)
  show ?thesis
  proof (intro exI conjI)
    show "tuya_health_monitor_init start_demo None event_manage0 = (OPRT_OK, Some m, bus2)" "5 * k \<le> 60" using r(1,2) by simp_all
    show "count_list (snd (health_monitor_task True (replicate 240 low_memory) m)) Feed = 240 div k" unfolding r(3) length_replicate by (rule refl)
    show "count_list (snd (health_monitor_task True (replicate 240 low_memory) m)) (Schedule Memory_Notify) = 2" unfolding r(4) by (rule n)
  qed
qed
end
