(* ===== verification/Endpoint.thy ===== *)
theory Endpoint
  imports KvStore
begin

text \<open>
  The servers that the client talks to: the question to the directory of the cloud and its answer (\<^verbatim>\<open>src/tuya_cloud_service/cloud/iotdns.c\<close>), and the endpoint
  that is kept in the key-value store (\<^verbatim>\<open>src/tuya_cloud_service/cloud/tuya_endpoint.c\<close>). The HTTP client, cJSON and base64 are arguments. The memory of the certificate is
  a pointer that may be null or freed; \<open>None\<close> is a second release, an access to released memory, through a null pointer or outside of an array.
\<close>

section \<open>The directory of the cloud\<close>

datatype cert_mem = Cert_Null | Cert_Mem "byte list" | Cert_Freed

record tuya_endpoint =
  ep_region :: string
  atop_host :: string
  atop_port :: nat
  atop_path :: string
  mqtt_host :: string
  mqtt_port :: nat
  ep_cert :: cert_mem

abbreviation MAX_LENGTH_REGION :: nat where "MAX_LENGTH_REGION \<equiv> 2"
abbreviation MAX_LENGTH_REGIST :: nat where "MAX_LENGTH_REGIST \<equiv> 4"
abbreviation MAX_LENGTH_TUYA_HOST :: nat where "MAX_LENGTH_TUYA_HOST \<equiv> 64"
abbreviation MAX_LENGTH_ATOP_PATH :: nat where "MAX_LENGTH_ATOP_PATH \<equiv> 16"
abbreviation OPRT_LINK_CORE_HTTP_CLIENT_SEND_ERROR :: operate_ret where "OPRT_LINK_CORE_HTTP_CLIENT_SEND_ERROR \<equiv> - 7689"

text \<open>
  The conversions of \<^verbatim>\<open>sscanf\<close> that the code uses: a run of characters up to a stop character and to a width, and a number of at most five
  characters. A conversion without a character ends the scan, and what is not converted keeps its value.
\<close>

definition scan_run :: "nat \<Rightarrow> char \<Rightarrow> string \<Rightarrow> string" where
  "scan_run w stop s = take w (takeWhile (\<lambda>c. c \<noteq> stop) s)"

definition scan_https :: "string \<Rightarrow> tuya_endpoint \<Rightarrow> tuya_endpoint" where
  "scan_https url ep =
     (if take 8 url \<noteq> ''https://'' then ep
      else
        (let rest = drop 8 url; host = scan_run MAX_LENGTH_TUYA_HOST (CHR ''/'') rest
         in if host = [] then ep
            else
              (let ep = ep\<lparr>atop_host := host\<rparr>; path = scan_run MAX_LENGTH_ATOP_PATH (CHR 0x0A) (drop (length host) rest)
               in if path = [] then ep else ep\<lparr>atop_path := path\<rparr>)))"

definition scan_int5 :: "string \<Rightarrow> int option" where
  "scan_int5 s =
     (let t = dropWhile is_blank s;
          sign = (t \<noteq> [] \<and> (hd t = CHR ''-'' \<or> hd t = CHR ''+''));
          ds = takeWhile digit_char (if sign then take 4 (tl t) else take 5 t)
      in if ds = [] then None else Some (if sign \<and> hd t = CHR ''-'' then - digits_val ds else digits_val ds))"

text \<open>The port is a variable of the caller that holds 443 before.\<close>

definition scan_mqtt :: "string \<Rightarrow> tuya_endpoint \<Rightarrow> tuya_endpoint" where
  "scan_mqtt url ep =
     (let host = scan_run MAX_LENGTH_TUYA_HOST (CHR '':'') url; rest = drop (length host) url;
          port = (if host = [] \<or> rest = [] \<or> hd rest \<noteq> CHR '':'' then None else scan_int5 (tl rest));
          ep = (if host = [] then ep else ep\<lparr>mqtt_host := host\<rparr>)
      in ep\<lparr>mqtt_port := nat ((case port of None \<Rightarrow> 443 | Some p \<Rightarrow> p) mod 65536)\<rparr>)"

text \<open>The text of the member \<open>addr\<close> of a member, and the text of the first item of an array.\<close>

definition addr_of :: "parse_env \<Rightarrow> cjson \<Rightarrow> string option" where
  "addr_of J item = do { a \<leftarrow> get_item J item ''addr''; cj_string a }"

definition first_text :: "cjson option \<Rightarrow> string option" where
  "first_text arr = do { a \<leftarrow> arr; (case cj_child a of [] \<Rightarrow> None | (_, i) # _ \<Rightarrow> cj_string i) }"

text \<open>\<open>b64 n s\<close> decodes into a buffer of \<open>n\<close> bytes, or fails; it also fails when the buffer could not be allocated.\<close>

definition iotdns_response_decode ::
    "parse_env \<Rightarrow> (nat \<Rightarrow> string \<Rightarrow> byte list option) \<Rightarrow> (nat \<Rightarrow> bool) \<Rightarrow> string \<Rightarrow> tuya_endpoint \<Rightarrow> (operate_ret \<times> tuya_endpoint) option" where
  "iotdns_response_decode J b64 mem input ep =
     (case cjson_parse J input of
        None \<Rightarrow> Some (OPRT_CJSON_PARSE_ERR, ep)
      | Some root \<Rightarrow>
          (case (get_item J root ''httpsSelfUrl'', get_item J root ''mqttsSelfUrl'') of
             (Some https, Some mqtts) \<Rightarrow>
               do {
                 httpsSelfUrl \<leftarrow> addr_of J https;
                 mqttsSelfUrl \<leftarrow> addr_of J mqtts;
                 caArr0 \<leftarrow> first_text (get_item J root ''caArr'');
                 let ep = scan_mqtt mqttsSelfUrl ((scan_https httpsSelfUrl ep)\<lparr>atop_port := 443\<rparr>);
                 let buffer_len = length caArr0 * 3 div 4;
                 case (if mem buffer_len then b64 buffer_len caArr0 else None) of
                   None \<Rightarrow> Some (OPRT_COM_ERROR, ep)
                 | Some raw \<Rightarrow> Some (OPRT_OK, ep\<lparr>ep_cert := Cert_Mem raw\<rparr>)
               }
           | _ \<Rightarrow> Some (OPRT_CR_CJSON_ERR, ep)))"

definition request_text :: "string option \<Rightarrow> string \<Rightarrow> string" where
  "request_text region env =
     ''{\"config\":[{\"key\":\"httpsSelfUrl\",\"need_ca\":true},{\"key\":\"mqttsSelfUrl\",\"need_ca\":true}],''
     @ (case region of None \<Rightarrow> [] | Some r \<Rightarrow> ''\"region\":\"'' @ r @ ''\",'') @ ''\"env\":\"'' @ env @ ''\"}''"

text \<open>The HTTP client: the path and the body of a request to the body of the response, \<open>None\<close> when the request fails.\<close>

record dns_env =
  dns_json :: parse_env
  dns_b64 :: "nat \<Rightarrow> string \<Rightarrow> byte list option"
  dns_mem :: "nat \<Rightarrow> bool"
  dns_http :: "string \<Rightarrow> string \<Rightarrow> string option"

definition iotdns_cloud_endpoint_get :: "dns_env \<Rightarrow> string option \<Rightarrow> string option \<Rightarrow> tuya_endpoint \<Rightarrow> (operate_ret \<times> tuya_endpoint) option" where
  "iotdns_cloud_endpoint_get D region env ep =
     (case env of
        None \<Rightarrow> Some (OPRT_INVALID_PARM, ep)
      | Some ev \<Rightarrow>
          if \<not> dns_mem D 128 then Some (OPRT_MALLOC_FAILED, ep)
          else if length (request_text region ev) \<ge> 128 then None
          else case dns_http D ''/v2/url_config'' (request_text region ev) of
                 None \<Rightarrow> Some (OPRT_LINK_CORE_HTTP_CLIENT_SEND_ERROR, ep)
               | Some body \<Rightarrow>
                   do {
                     (rt, ep) \<leftarrow> iotdns_response_decode (dns_json D) (dns_b64 D) (dns_mem D) body ep;
                     case region of
                       None \<Rightarrow> Some (rt, ep)
                     | Some r \<Rightarrow> if length r > MAX_LENGTH_REGION then None else Some (rt, ep\<lparr>ep_region := r\<rparr>)
                   })"

text \<open>Certificates of a host; the result of the parser is dropped. \<open>Inr\<close> is a new certificate.\<close>

definition iotdns_query_domain_certs_parser :: "dns_env \<Rightarrow> string \<Rightarrow> (operate_ret + byte list) option" where
  "iotdns_query_domain_certs_parser D input =
     (case cjson_parse (dns_json D) input of
        None \<Rightarrow> Some (Inl OPRT_CJSON_PARSE_ERR)
      | Some root \<Rightarrow>
          if get_item (dns_json D) root ''errcode'' \<noteq> None then Some (Inl OPRT_COM_ERROR)
          else case cj_child root of
                 [] \<Rightarrow> Some (Inl OPRT_CJSON_GET_ERR)
               | (_, item) # _ \<Rightarrow>
                   do {
                     ca \<leftarrow> get_item (dns_json D) item ''ca'';
                     s \<leftarrow> cj_string ca;
                     Some (if \<not> dns_mem D (length s + 1) then Inl OPRT_MALLOC_FAILED
                           else Inr (case dns_b64 D (length s) s of None \<Rightarrow> [] | Some b \<Rightarrow> b))
                   })"

definition host_query :: "string \<Rightarrow> nat \<Rightarrow> string" where
  "host_query host port = ''[{\"host\":\"'' @ host @ ''\", \"port\":'' @ nat_digits port @ '', \"need_ca\":true}]''"

definition tuya_iotdns_query_host_certs :: "dns_env \<Rightarrow> string option \<Rightarrow> u16 \<Rightarrow> (operate_ret \<times> byte list option) option" where
  "tuya_iotdns_query_host_certs D host port =
     (case host of
        None \<Rightarrow> Some (OPRT_INVALID_PARM, None)
      | Some h \<Rightarrow>
          if \<not> dns_mem D 256 then Some (OPRT_MALLOC_FAILED, None)
          else if length (host_query h (unat port)) \<ge> 256 then None
          else case dns_http D ''/device/dns_query'' (host_query h (unat port)) of
                 None \<Rightarrow> Some (OPRT_OK, None)
               | Some body \<Rightarrow> do { r \<leftarrow> iotdns_query_domain_certs_parser D body; Some (OPRT_OK, case r of Inl _ \<Rightarrow> None | Inr c \<Rightarrow> Some c) })"

text \<open>\<^verbatim>\<open>strstr\<close>: what is before the first occurrence and what is behind it.\<close>

fun strstr_cut :: "string \<Rightarrow> string \<Rightarrow> (string \<times> string) option" where
  "strstr_cut n [] = (if n = [] then Some ([], []) else None)"
| "strstr_cut n (c # cs) =
     (if take (length n) (c # cs) = n then Some ([], drop (length n) (c # cs)) else map_option (\<lambda>(a, b). (c # a, b)) (strstr_cut n cs))"

definition url_host :: "string \<Rightarrow> string \<times> u32" where
  "url_host url =
     (let s = (case strstr_cut ''://'' url of None \<Rightarrow> url | Some (_, b) \<Rightarrow> b);
          s = (case strstr_cut ''/'' s of None \<Rightarrow> s | Some (a, _) \<Rightarrow> a)
      in case strstr_cut '':'' s of None \<Rightarrow> (s, 443) | Some (a, b) \<Rightarrow> (a, word_of_int (atoi b)))"

definition tuya_iotdns_query_domain_certs :: "dns_env \<Rightarrow> string \<Rightarrow> (operate_ret \<times> byte list option) option" where
  "tuya_iotdns_query_domain_certs D url =
     (if \<not> dns_mem D (length url + 128) then Some (OPRT_MALLOC_FAILED, None)
      else case url_host url of (host, port) \<Rightarrow> tuya_iotdns_query_host_certs D (Some host) (ucast port))"

section \<open>The endpoint\<close>

record endpoint_management =
  em_region :: string
  em_regist_key :: string
  em_endpoint :: tuya_endpoint

text \<open>The environment of the records of the store: the files' environment, cJSON and the two functions for base64.\<close>

record ep_env =
  ep_kv :: kv_env
  ep_json :: parse_env
  ep_enc :: "byte list \<Rightarrow> string"
  ep_dec :: "string \<Rightarrow> byte list"

definition tuya_region_regist_key_write :: "kv_env \<Rightarrow> string option \<Rightarrow> string option \<Rightarrow> kv_files \<Rightarrow> operate_ret \<times> kv_files" where
  "tuya_region_regist_key_write E region regist_key fs =
     (case (region, regist_key) of
        (Some r, Some k) \<Rightarrow>
          (case tal_kv_set E (Some ''region'') (Some (text_bytes r)) fs of (ret, fs) \<Rightarrow>
             if ret \<noteq> OPRT_OK then (OPRT_KVS_WR_FAIL, fs)
             else (case tal_kv_set E (Some ''regist_key'') (Some (text_bytes k)) fs of (ret, fs) \<Rightarrow>
                     (if ret \<noteq> OPRT_OK then OPRT_KVS_WR_FAIL else OPRT_OK, fs)))
      | _ \<Rightarrow> (OPRT_INVALID_PARM, fs))"

text \<open>A fixed number of bytes is copied from the value, which has a zero behind it and at least seventeen bytes.\<close>

definition fixed_text :: "nat \<Rightarrow> byte list \<Rightarrow> string" where
  "fixed_text n v = c_string (take n (v @ [0]))"

definition tuya_region_regist_key_read :: "kv_env \<Rightarrow> kv_files \<Rightarrow> endpoint_management \<Rightarrow> operate_ret \<times> endpoint_management" where
  "tuya_region_regist_key_read E fs mgr =
     (case tal_kv_get E (Some ''region'') fs of
        Inl _ \<Rightarrow> (OPRT_KVS_RD_FAIL, mgr)
      | Inr r \<Rightarrow>
          (let mgr = mgr\<lparr>em_region := fixed_text MAX_LENGTH_REGION r\<rparr>
           in case tal_kv_get E (Some ''regist_key'') fs of
                Inl _ \<Rightarrow> (OPRT_KVS_RD_FAIL, mgr)
              | Inr k \<Rightarrow> (OPRT_OK, mgr\<lparr>em_regist_key := fixed_text MAX_LENGTH_REGIST k\<rparr>)))"

definition tuya_endpoint_cert_get :: "kv_env \<Rightarrow> kv_files \<Rightarrow> tuya_endpoint \<Rightarrow> operate_ret \<times> tuya_endpoint" where
  "tuya_endpoint_cert_get E fs ep =
     (case tal_kv_get E (Some ''endpoint.cert'') fs of Inl err \<Rightarrow> (err, ep) | Inr c \<Rightarrow> (OPRT_OK, ep\<lparr>ep_cert := Cert_Mem c\<rparr>))"

definition tuya_endpoint_cert_set :: "kv_env \<Rightarrow> tuya_endpoint \<Rightarrow> kv_files \<Rightarrow> (operate_ret \<times> kv_files) option" where
  "tuya_endpoint_cert_set E ep fs =
     (case ep_cert ep of
        Cert_Freed \<Rightarrow> None
      | Cert_Null \<Rightarrow> Some (tal_kv_set E (Some ''endpoint.cert'') None fs)
      | Cert_Mem c \<Rightarrow> Some (tal_kv_set E (Some ''endpoint.cert'') (Some c) fs))"

definition domain_db :: "tuya_endpoint \<Rightarrow> kv_db list" where
  "domain_db ep =
     [\<lparr>kv_name = ''atop.host'', kv_val = KV_String (MAX_LENGTH_TUYA_HOST + 1) (atop_host ep)\<rparr>,
      \<lparr>kv_name = ''atop.port'', kv_val = KV_Num KV_USHORT (int (atop_port ep))\<rparr>,
      \<lparr>kv_name = ''atop.path'', kv_val = KV_String (MAX_LENGTH_ATOP_PATH + 1) (atop_path ep)\<rparr>,
      \<lparr>kv_name = ''mqtt.host'', kv_val = KV_String (MAX_LENGTH_TUYA_HOST + 1) (mqtt_host ep)\<rparr>,
      \<lparr>kv_name = ''mqtt.port'', kv_val = KV_Num KV_USHORT (int (mqtt_port ep))\<rparr>]"

text \<open>The values go back to the fields that the array points to.\<close>

fun store_val :: "kv_db \<Rightarrow> tuya_endpoint \<Rightarrow> tuya_endpoint" where
  "store_val x ep =
     (case kv_val x of
        KV_String _ s \<Rightarrow>
          if kv_name x = ''atop.host'' then ep\<lparr>atop_host := s\<rparr>
          else if kv_name x = ''atop.path'' then ep\<lparr>atop_path := s\<rparr>
          else ep\<lparr>mqtt_host := s\<rparr>
      | KV_Num _ i \<Rightarrow> if kv_name x = ''atop.port'' then ep\<lparr>atop_port := nat i\<rparr> else ep\<lparr>mqtt_port := nat i\<rparr>
      | _ \<Rightarrow> ep)"

definition tuya_endpoint_domain_get :: "ep_env \<Rightarrow> kv_files \<Rightarrow> tuya_endpoint \<Rightarrow> (operate_ret \<times> tuya_endpoint) option" where
  "tuya_endpoint_domain_get E fs ep =
     do {
       (ret, db) \<leftarrow> tal_kv_serialize_get (ep_kv E) (ep_json E) (ep_dec E) (Some ''endpoint.domain'') (domain_db ep) fs;
       Some (ret, fold store_val db ep)
     }"

definition tuya_endpoint_domain_set :: "ep_env \<Rightarrow> tuya_endpoint \<Rightarrow> kv_files \<Rightarrow> (operate_ret \<times> kv_files) option" where
  "tuya_endpoint_domain_set E ep fs = tal_kv_serialize_set (ep_kv E) (ep_enc E) (Some ''endpoint.domain'') (domain_db ep) fs"

definition tuya_endpoint_region_regist_set :: "kv_env \<Rightarrow> string \<Rightarrow> string \<Rightarrow> endpoint_management \<Rightarrow> kv_files \<Rightarrow> (operate_ret \<times> endpoint_management \<times> kv_files) option" where
  "tuya_endpoint_region_regist_set E region regist_key mgr fs =
     (case tuya_region_regist_key_write E (Some region) (Some regist_key) fs of (ret, fs) \<Rightarrow>
        if ret \<noteq> OPRT_OK then Some (OPRT_KVS_WR_FAIL, mgr, fs)
        else if length region > MAX_LENGTH_REGION \<or> length regist_key > MAX_LENGTH_REGIST then None
        else Some (OPRT_OK, mgr\<lparr>em_region := region, em_regist_key := regist_key\<rparr>, fs))"

definition tuya_endpoint_remove :: "kv_files \<Rightarrow> kv_files" where
  "tuya_endpoint_remove fs = fold (\<lambda>k fs. snd (tal_kv_del k fs)) [''region'', ''regist_key'', ''endpoint.cert'', ''endpoint.domain''] fs"

definition tuya_endpoint_init :: "kv_env \<Rightarrow> kv_files \<Rightarrow> endpoint_management \<Rightarrow> operate_ret \<times> endpoint_management" where
  "tuya_endpoint_init E fs mgr =
     (case tuya_region_regist_key_read E fs mgr of (ret, mgr) \<Rightarrow>
        (ret, if em_regist_key mgr = [] then mgr\<lparr>em_regist_key := ''pro''\<rparr> else mgr))"

text \<open>The certificate is released first; the pointer keeps its value.\<close>

definition free_cert :: "tuya_endpoint \<Rightarrow> tuya_endpoint option" where
  "free_cert ep = (case ep_cert ep of Cert_Null \<Rightarrow> Some ep | Cert_Mem _ \<Rightarrow> Some (ep\<lparr>ep_cert := Cert_Freed\<rparr>) | Cert_Freed \<Rightarrow> None)"

definition tuya_endpoint_update :: "dns_env \<Rightarrow> endpoint_management \<Rightarrow> (operate_ret \<times> endpoint_management) option" where
  "tuya_endpoint_update D mgr =
     do {
       ep \<leftarrow> free_cert (em_endpoint mgr);
       (ret, ep) \<leftarrow> iotdns_cloud_endpoint_get D (Some (em_region mgr)) (Some (em_regist_key mgr)) ep;
       Some (ret, mgr\<lparr>em_endpoint := ep\<rparr>)
     }"

definition tuya_endpoint_update_auto_region :: "dns_env \<Rightarrow> endpoint_management \<Rightarrow> (operate_ret \<times> endpoint_management) option" where
  "tuya_endpoint_update_auto_region D mgr =
     do {
       ep \<leftarrow> free_cert (em_endpoint mgr);
       (ret, ep) \<leftarrow> iotdns_cloud_endpoint_get D None (Some (em_regist_key mgr)) ep;
       Some (ret, mgr\<lparr>em_endpoint := ep\<rparr>)
     }"

section \<open>The answer of the directory\<close>

text \<open>The texts fit their arrays.\<close>

definition ep_fits :: "tuya_endpoint \<Rightarrow> bool" where
  "ep_fits ep \<longleftrightarrow>
     length (atop_host ep) \<le> MAX_LENGTH_TUYA_HOST \<and> length (atop_path ep) \<le> MAX_LENGTH_ATOP_PATH \<and> length (mqtt_host ep) \<le> MAX_LENGTH_TUYA_HOST
     \<and> atop_port ep < 65536 \<and> mqtt_port ep < 65536 \<and> length (ep_region ep) \<le> MAX_LENGTH_REGION"

lemma scan_run_length: "length (scan_run w stop s) \<le> w"
  by (simp add: scan_run_def)

lemma scan_https_fits: "ep_fits ep \<Longrightarrow> ep_fits (scan_https url ep)"
  using scan_run_length by (simp add: scan_https_def ep_fits_def Let_def)

lemma scan_mqtt_fits: "ep_fits ep \<Longrightarrow> ep_fits (scan_mqtt url ep)"
  using scan_run_length [of MAX_LENGTH_TUYA_HOST "CHR '':''" url] by (simp add: scan_mqtt_def ep_fits_def Let_def nat_less_iff)

lemma scan_run_stop: "stop \<notin> set s \<Longrightarrow> length s \<le> w \<Longrightarrow> (r = [] \<or> hd r = stop) \<Longrightarrow> scan_run w stop (s @ r) = s"
proof -
  assume a: "stop \<notin> set s" "length s \<le> w" "r = [] \<or> hd r = stop"
  have "takeWhile (\<lambda>c. c \<noteq> stop) (s @ r) = s" using a(1,3) by (cases r) (auto simp: takeWhile_append takeWhile_eq_all_conv)
  then show ?thesis using a(2) by (simp add: scan_run_def)
qed

lemma scan_https_url:
  assumes "host \<noteq> []" "CHR ''/'' \<notin> set host" "length host \<le> MAX_LENGTH_TUYA_HOST" "CHR 0x0A \<notin> set path" "length path < MAX_LENGTH_ATOP_PATH"
  shows "scan_https (''https://'' @ host @ ''/'' @ path) ep = ep\<lparr>atop_host := host, atop_path := ''/'' @ path\<rparr>"
  using assms scan_run_stop [of "CHR ''/''" host MAX_LENGTH_TUYA_HOST "''/'' @ path"] scan_run_stop [of "CHR 0x0A" "''/'' @ path" MAX_LENGTH_ATOP_PATH "[]"]
  by (simp add: scan_https_def Let_def)

lemma scan_mqtt_url:
  assumes "host \<noteq> []" "CHR '':'' \<notin> set host" "length host \<le> MAX_LENGTH_TUYA_HOST" "scan_int5 port = Some (int p)" "p < 65536"
  shows "scan_mqtt (host @ '':'' @ port) ep = ep\<lparr>mqtt_host := host, mqtt_port := p\<rparr>"
  using assms scan_run_stop [of "CHR '':''" host MAX_LENGTH_TUYA_HOST "'':'' @ port"] by (simp add: scan_mqtt_def Let_def)

text \<open>
  The answer of the directory: whatever it is, the texts that are taken from it fit their arrays and the ports are numbers of sixteen bits; and an answer with two addresses
  \<open>https://host/path\<close> and \<open>host:port\<close> and a certificate gives exactly these.
\<close>

theorem directory_answer:
  assumes "ep_fits ep"
  shows "(iotdns_response_decode J b64 mem input ep = Some (rt, ep') \<longrightarrow> ep_fits ep') \<and>
    (cjson_parse J input = Some root \<and> get_item J root ''httpsSelfUrl'' = Some hs \<and> get_item J root ''mqttsSelfUrl'' = Some ms
     \<and> addr_of J hs = Some (''https://'' @ host @ ''/'' @ path) \<and> addr_of J ms = Some (mhost @ '':'' @ port) \<and> first_text (get_item J root ''caArr'') = Some ca
     \<and> mem (length ca * 3 div 4) \<and> b64 (length ca * 3 div 4) ca = Some cert
     \<and> host \<noteq> [] \<and> CHR ''/'' \<notin> set host \<and> length host \<le> MAX_LENGTH_TUYA_HOST \<and> CHR 0x0A \<notin> set path \<and> length path < MAX_LENGTH_ATOP_PATH
     \<and> mhost \<noteq> [] \<and> CHR '':'' \<notin> set mhost \<and> length mhost \<le> MAX_LENGTH_TUYA_HOST \<and> scan_int5 port = Some (int p) \<and> p < 65536
     \<longrightarrow> iotdns_response_decode J b64 mem input ep =
           Some (OPRT_OK, ep\<lparr>atop_host := host, atop_port := 443, atop_path := ''/'' @ path, mqtt_host := mhost, mqtt_port := p, ep_cert := Cert_Mem cert\<rparr>))"
proof -
  have "ep_fits ((scan_https u ep)\<lparr>atop_port := 443\<rparr>)" for u using scan_https_fits [OF assms, of u] by (simp add: ep_fits_def)
  then have f: "ep_fits (scan_mqtt m ((scan_https u ep)\<lparr>atop_port := 443\<rparr>))" for u m by (intro scan_mqtt_fits)
  then have f': "ep_fits ((scan_mqtt m ((scan_https u ep)\<lparr>atop_port := 443\<rparr>))\<lparr>ep_cert := x\<rparr>)" for u m x by (simp add: ep_fits_def)
  have "iotdns_response_decode J b64 mem input ep = Some (rt, ep') \<Longrightarrow> ep_fits ep'"
    using assms f f' by (auto simp: iotdns_response_decode_def Let_def bind_eq_Some_conv split: option.splits if_splits)
  moreover have "\<lbrakk>host \<noteq> []; CHR ''/'' \<notin> set host; length host \<le> MAX_LENGTH_TUYA_HOST; CHR 0x0A \<notin> set path; length path < MAX_LENGTH_ATOP_PATH\<rbrakk>
      \<Longrightarrow> scan_https (''https://'' @ host @ ''/'' @ path) ep = ep\<lparr>atop_host := host, atop_path := ''/'' @ path\<rparr>" by (rule scan_https_url)
  ultimately show ?thesis by (auto simp: iotdns_response_decode_def scan_mqtt_url [simplified])
qed

section \<open>The stored endpoint\<close>

definition ep_nul_free :: "tuya_endpoint \<Rightarrow> bool" where
  "ep_nul_free ep \<longleftrightarrow> nul_free (atop_host ep) \<and> nul_free (atop_path ep) \<and> nul_free (mqtt_host ep)"

lemma domain_shape: "list_all2 (\<lambda>y x. kv_name y = kv_name x \<and> same_shape (kv_val y) (kv_val x)) (domain_db ep0) (domain_db ep)"
  by (simp add: domain_db_def)

lemma domain_record:
  assumes "ep_fits ep" "ep_nul_free ep" "cjson_parse J (json_text b64 (domain_db ep)) = Some root"
    and "\<forall>x \<in> set (domain_db ep). \<exists>j. get_item J root (kv_name x) = Some j \<and> item_ok b64 (kv_val x) j"
  shows "record_ok b64 dec J (domain_db ep)"
proof -
  have "\<forall>x \<in> set (domain_db ep). nul_free (kv_name x) \<and> val_ok b64 (kv_val x) \<and> restorable b64 dec (kv_val x)"
    using assms(1,2) by (simp add: domain_db_def val_ok_def restorable_def num_range_def ep_fits_def ep_nul_free_def nul_free_def)
  then show ?thesis using assms(3,4) by (auto simp: record_ok_def)
qed

lemma store_domain:
  "fold store_val (domain_db ep) ep0 = ep0\<lparr>atop_host := atop_host ep, atop_port := atop_port ep, atop_path := atop_path ep, mqtt_host := mqtt_host ep, mqtt_port := mqtt_port ep\<rparr>"
  by (simp add: domain_db_def)

lemma fixed_text_bytes: "nul_free t \<Longrightarrow> length t \<le> n \<Longrightarrow> fixed_text n (text_bytes t) = t"
proof -
  assume t: "nul_free t" "length t \<le> n"
  have "c_string (text_bytes t @ u) = t" if "u = [] \<or> u = [0]" for u
    using t(1) that by (induction t) (auto simp: c_string_def text_bytes_def of_char_zero unat_char)
  moreover have "take n (text_bytes t @ [0]) = text_bytes t @ take (n - length t) [0]" using t(2) by (simp add: text_bytes_def)
  moreover have "take (n - length t) [0 :: byte] \<in> {[], [0]}" by (cases "n - length t") auto
  ultimately show ?thesis by (auto simp: fixed_text_def)
qed

text \<open>Storing the endpoint, seen through the contents of the store.\<close>

lemma endpoint_stored:
  assumes "kv_ready (ep_kv E)" "region \<noteq> []" "key \<noteq> []" "length region \<le> MAX_LENGTH_REGION" "length key \<le> MAX_LENGTH_REGIST" "cert \<noteq> []" "ep_cert ep = Cert_Mem cert"
    and "record_ok (ep_enc E) (ep_dec E) (ep_json E) (domain_db ep)"
  obtains fs1 fs2 fs3 where "tuya_endpoint_region_regist_set (ep_kv E) region key mgr fs = Some (OPRT_OK, mgr\<lparr>em_region := region, em_regist_key := key\<rparr>, fs1)"
    "tuya_endpoint_cert_set (ep_kv E) ep fs1 = Some (OPRT_OK, fs2)" "tuya_endpoint_domain_set E ep fs2 = Some (OPRT_OK, fs3)"
    "kv_view (ep_kv E) fs3 = (kv_view (ep_kv E) fs)(''region'' \<mapsto> text_bytes region, ''regist_key'' \<mapsto> text_bytes key, ''endpoint.cert'' \<mapsto> cert,
        ''endpoint.domain'' \<mapsto> text_bytes (json_text (ep_enc E) (domain_db ep)))"
proof -
  let ?kv = "ep_kv E" and ?put = "\<lambda>k v fs. snd (tal_kv_set (ep_kv E) (Some k) (Some v) fs)"
  let ?j = "text_bytes (json_text (ep_enc E) (domain_db ep))"
  have ok: "fst (tal_kv_set ?kv (Some k) (Some v) f) = OPRT_OK" if "v \<noteq> []" for k v f
    by (rule kv.put_ok [OF assms(1) that])
  have ne: "text_bytes region \<noteq> []" "text_bytes key \<noteq> []" "?j \<noteq> []" using assms(2,3) by (simp_all add: text_bytes_def json_text_def)
  let ?fs1 = "?put ''regist_key'' (text_bytes key) (?put ''region'' (text_bytes region) fs)"
  let ?fs2 = "?put ''endpoint.cert'' cert ?fs1"
  show thesis
  proof
    show "tuya_endpoint_region_regist_set ?kv region key mgr fs = Some (OPRT_OK, mgr\<lparr>em_region := region, em_regist_key := key\<rparr>, ?fs1)"
      using assms(4,5) ne by (simp add: tuya_endpoint_region_regist_set_def tuya_region_regist_key_write_def ok case_prod_beta)
    show "tuya_endpoint_cert_set ?kv ep ?fs1 = Some (OPRT_OK, ?fs2)" using assms(6,7) by (simp add: tuya_endpoint_cert_set_def ok prod_eq_iff)
    show "tuya_endpoint_domain_set E ep ?fs2 = Some (OPRT_OK, ?put ''endpoint.domain'' ?j ?fs2)"
      unfolding tuya_endpoint_domain_set_def by (rule record_written [OF assms(1) _ assms(8)]) (simp add: domain_db_def)
    show "kv_view ?kv (?put ''endpoint.domain'' ?j ?fs2) = (kv_view ?kv fs)(''region'' \<mapsto> text_bytes region, ''regist_key'' \<mapsto> text_bytes key,
        ''endpoint.cert'' \<mapsto> cert, ''endpoint.domain'' \<mapsto> ?j)"
      by (simp only: kv.put_view [OF assms(1)] ne assms(6) not_False_eq_True)
  qed
qed

text \<open>Reading it, from the contents of the store.\<close>

lemma endpoint_read:
  assumes "kv_view (ep_kv E) fs ''region'' = Some (text_bytes region)" "kv_view (ep_kv E) fs ''regist_key'' = Some (text_bytes key)"
    and "kv_view (ep_kv E) fs ''endpoint.cert'' = Some cert" "kv_view (ep_kv E) fs ''endpoint.domain'' = Some (text_bytes (json_text (ep_enc E) (domain_db ep)))"
    and "nul_free region" "nul_free key" "length region \<le> MAX_LENGTH_REGION" "length key \<le> MAX_LENGTH_REGIST" "key \<noteq> []"
    and "record_ok (ep_enc E) (ep_dec E) (ep_json E) (domain_db ep)"
  shows "tuya_endpoint_init (ep_kv E) fs mgr = (OPRT_OK, mgr\<lparr>em_region := region, em_regist_key := key\<rparr>)"
    and "tuya_endpoint_cert_get (ep_kv E) fs ep0 = (OPRT_OK, ep0\<lparr>ep_cert := Cert_Mem cert\<rparr>)"
    and "tuya_endpoint_domain_get E fs ep0 =
      Some (OPRT_OK, ep0\<lparr>atop_host := atop_host ep, atop_port := atop_port ep, atop_path := atop_path ep, mqtt_host := mqtt_host ep, mqtt_port := mqtt_port ep\<rparr>)"
proof -
  show "tuya_endpoint_init (ep_kv E) fs mgr = (OPRT_OK, mgr\<lparr>em_region := region, em_regist_key := key\<rparr>)"
    using assms by (simp add: tuya_endpoint_init_def tuya_region_regist_key_read_def view_get fixed_text_bytes)
  show "tuya_endpoint_cert_get (ep_kv E) fs ep0 = (OPRT_OK, ep0\<lparr>ep_cert := Cert_Mem cert\<rparr>)" using assms(3) by (simp add: tuya_endpoint_cert_get_def view_get)
  have "tal_kv_serialize_get (ep_kv E) (ep_json E) (ep_dec E) (Some ''endpoint.domain'') (domain_db ep0) fs = Some (OPRT_OK, domain_db ep)"
    by (rule record_read [OF _ assms(10,4) domain_shape]) (simp add: domain_db_def)
  then show "tuya_endpoint_domain_get E fs ep0 =
      Some (OPRT_OK, ep0\<lparr>atop_host := atop_host ep, atop_port := atop_port ep, atop_path := atop_path ep, mqtt_host := mqtt_host ep, mqtt_port := mqtt_port ep\<rparr>)"
    by (simp add: tuya_endpoint_domain_get_def store_domain)
qed

text \<open>
  C18. The endpoint survives a restart: after the region and key of a token, the certificate and the servers are stored, the functions that read them at the next start
  give them back, whatever other keys are written or removed in between. The cipher of the store inverts and cJSON finds the members of the record.
\<close>

theorem endpoint_survives_restart:
  assumes "kv_ready (ep_kv E)" "region \<noteq> []" "key \<noteq> []" "length region \<le> MAX_LENGTH_REGION" "length key \<le> MAX_LENGTH_REGIST" "nul_free region" "nul_free key"
    and "cert \<noteq> []" "ep_cert ep = Cert_Mem cert" "ep_fits ep" "ep_nul_free ep"
    and "cjson_parse (ep_json E) (json_text (ep_enc E) (domain_db ep)) = Some root"
    and "\<forall>x \<in> set (domain_db ep). \<exists>j. get_item (ep_json E) root (kv_name x) = Some j \<and> item_ok (ep_enc E) (kv_val x) j"
    and "set (map fst ops) \<inter> {''region'', ''regist_key'', ''endpoint.cert'', ''endpoint.domain''} = {}"
  shows "\<exists>fs1 fs2 fs3. tuya_endpoint_region_regist_set (ep_kv E) region key mgr fs = Some (OPRT_OK, mgr\<lparr>em_region := region, em_regist_key := key\<rparr>, fs1)
    \<and> tuya_endpoint_cert_set (ep_kv E) ep fs1 = Some (OPRT_OK, fs2) \<and> tuya_endpoint_domain_set E ep fs2 = Some (OPRT_OK, fs3)
    \<and> tuya_endpoint_init (ep_kv E) (kv_clients (ep_kv E) ops fs3) mgr0 = (OPRT_OK, mgr0\<lparr>em_region := region, em_regist_key := key\<rparr>)
    \<and> tuya_endpoint_cert_get (ep_kv E) (kv_clients (ep_kv E) ops fs3) ep0 = (OPRT_OK, ep0\<lparr>ep_cert := Cert_Mem cert\<rparr>)
    \<and> tuya_endpoint_domain_get E (kv_clients (ep_kv E) ops fs3) ep0 =
        Some (OPRT_OK, ep0\<lparr>atop_host := atop_host ep, atop_port := atop_port ep, atop_path := atop_path ep, mqtt_host := mqtt_host ep, mqtt_port := mqtt_port ep\<rparr>)"
proof -
  have rec: "record_ok (ep_enc E) (ep_dec E) (ep_json E) (domain_db ep)" by (rule domain_record [OF assms(10-13)])
  obtain fs1 fs2 fs3 where st: "tuya_endpoint_region_regist_set (ep_kv E) region key mgr fs = Some (OPRT_OK, mgr\<lparr>em_region := region, em_regist_key := key\<rparr>, fs1)"
    "tuya_endpoint_cert_set (ep_kv E) ep fs1 = Some (OPRT_OK, fs2)" "tuya_endpoint_domain_set E ep fs2 = Some (OPRT_OK, fs3)"
    and v: "kv_view (ep_kv E) fs3 = (kv_view (ep_kv E) fs)(''region'' \<mapsto> text_bytes region, ''regist_key'' \<mapsto> text_bytes key, ''endpoint.cert'' \<mapsto> cert,
        ''endpoint.domain'' \<mapsto> text_bytes (json_text (ep_enc E) (domain_db ep)))"
    using endpoint_stored [OF assms(1-5,8,9) rec, of mgr fs] by metis
  have keep: "kv_view (ep_kv E) (kv_clients (ep_kv E) ops fs3) k = kv_view (ep_kv E) fs3 k" if "k \<in> {''region'', ''regist_key'', ''endpoint.cert'', ''endpoint.domain''}" for k
    unfolding kv_clients_def using that assms(14) by (intro kv.puts_other [OF assms(1)]) blast
  show ?thesis
    using st endpoint_read [OF _ _ _ _ assms(6,7,4,5,3) rec, of "kv_clients (ep_kv E) ops fs3" cert] by (simp add: keep v)
qed

text \<open>
  A failed update of the endpoint leaves the pointer to the released certificate: when the directory cannot be reached twice in a row, the certificate is released twice.
\<close>

theorem endpoint_double_free:
  assumes "ep_cert (em_endpoint mgr) = Cert_Mem cert" "length (em_region mgr) \<le> MAX_LENGTH_REGION" "length (em_regist_key mgr) \<le> MAX_LENGTH_REGIST"
    and "dns_mem D 128" "\<And>body. dns_http D ''/v2/url_config'' body = None"
  shows "\<exists>mgr'. tuya_endpoint_update D mgr = Some (OPRT_LINK_CORE_HTTP_CLIENT_SEND_ERROR, mgr') \<and> tuya_endpoint_update D mgr' = None"
  using assms by (simp add: tuya_endpoint_update_def free_cert_def iotdns_cloud_endpoint_get_def request_text_def)

section \<open>A device\<close>

definition ep_demo :: tuya_endpoint where
  "ep_demo = \<lparr>ep_region = ''EU'', atop_host = ''a1.eu'', atop_port = 443, atop_path = ''/d.json'', mqtt_host = ''m1.eu'', mqtt_port = 8883, ep_cert = Cert_Mem [1, 2]\<rparr>"

definition ep_zero :: tuya_endpoint where
  "ep_zero = \<lparr>ep_region = [], atop_host = [], atop_port = 0, atop_path = [], mqtt_host = [], mqtt_port = 0, ep_cert = Cert_Null\<rparr>"

definition mgr_zero :: endpoint_management where
  "mgr_zero = \<lparr>em_region = [], em_regist_key = [], em_endpoint = ep_zero\<rparr>"

definition text_item :: "string \<Rightarrow> cjson" where
  "text_item s = CJson CJ_String (Some s) 0 []"

definition domain_item :: cjson where
  "domain_item = CJson CJ_Object None 0
     [(Some ''atop.host'', text_item ''a1.eu''), (Some ''atop.port'', CJson CJ_Number None 443 []), (Some ''atop.path'', text_item ''/d.json''),
      (Some ''mqtt.host'', text_item ''m1.eu''), (Some ''mqtt.port'', CJson CJ_Number None 8883 [])]"

definition directory_item :: cjson where
  "directory_item = CJson CJ_Object None 0
     [(Some ''httpsSelfUrl'', CJson CJ_Object None 0 [(Some ''addr'', text_item ''https://a1.eu/d.json'')]),
      (Some ''mqttsSelfUrl'', CJson CJ_Object None 0 [(Some ''addr'', text_item ''m1.eu:8883'')]),
      (Some ''caArr'', CJson CJ_Array None 0 [(None, text_item ''AQI='')])]"

definition ep_json_demo :: parse_env where
  "ep_json_demo = \<lparr>
     cjson_parse = (\<lambda>t. if t = ''{}'' then Some directory_item
       else if t = ''{\"atop.host\":\"a1.eu\",\"atop.port\":443,\"atop.path\":\"/d.json\",\"mqtt.host\":\"m1.eu\",\"mqtt.port\":8883 }'' then Some domain_item else None),
     get_item = (\<lambda>j n. map_of (cj_child j) (Some n)), buf_mem = True, enum_mem = True, str_mutex = OPRT_OK\<rparr>"

definition ep_env_demo :: ep_env where
  "ep_env_demo = \<lparr>ep_kv = demo_kv, ep_json = ep_json_demo, ep_enc = (\<lambda>_. []), ep_dec = (\<lambda>_. [])\<rparr>"

lemma ep_demo_text:
  "json_text b64 (domain_db ep_demo) = ''{\"atop.host\":\"a1.eu\",\"atop.port\":443,\"atop.path\":\"/d.json\",\"mqtt.host\":\"m1.eu\",\"mqtt.port\":8883 }''"
  by (simp add: json_text_def domain_db_def ep_demo_def entry_def val_text_def int_digits_def nat_digits.simps char_of_def bit_0)

lemma ep_demo_ok: "ep_fits ep_demo" "ep_nul_free ep_demo" "ep_fits ep_zero"
  by (simp_all add: ep_fits_def ep_demo_def ep_zero_def ep_nul_free_def nul_free_def)

theorem directory_answer_witness:
  "iotdns_response_decode ep_json_demo (\<lambda>n s. Some [1, 2]) (\<lambda>_. True) ''{}'' ep_zero = Some (OPRT_OK, ep_demo\<lparr>ep_region := []\<rparr>)"
proof -
  have "scan_int5 ''8883'' = Some (int 8883)" by (simp add: scan_int5_def is_blank_def digit_char_def digits_val_def)
  then show ?thesis
    using directory_answer [OF ep_demo_ok(3), of ep_json_demo "\<lambda>n s. Some [1, 2]" "\<lambda>_. True" "''{}''" OPRT_OK ep_zero directory_item
        "CJson CJ_Object None 0 [(Some ''addr'', text_item ''https://a1.eu/d.json'')]" "CJson CJ_Object None 0 [(Some ''addr'', text_item ''m1.eu:8883'')]"
        "''a1.eu''" "''d.json''" "''m1.eu''" "''8883''" "''AQI=''" "[1, 2]" 8883]
    by (simp add: ep_json_demo_def directory_item_def addr_of_def first_text_def text_item_def ep_demo_def ep_zero_def)
qed

theorem endpoint_survives_restart_witness:
  "\<exists>fs1 fs2 fs3. tuya_endpoint_region_regist_set demo_kv ''EU'' ''pro'' mgr_zero Map.empty = Some (OPRT_OK, mgr_zero\<lparr>em_region := ''EU'', em_regist_key := ''pro''\<rparr>, fs1)
    \<and> tuya_endpoint_cert_set demo_kv ep_demo fs1 = Some (OPRT_OK, fs2) \<and> tuya_endpoint_domain_set ep_env_demo ep_demo fs2 = Some (OPRT_OK, fs3)
    \<and> tuya_endpoint_init demo_kv (kv_clients demo_kv [(''x'', Some [7])] fs3) mgr_zero = (OPRT_OK, mgr_zero\<lparr>em_region := ''EU'', em_regist_key := ''pro''\<rparr>)
    \<and> tuya_endpoint_cert_get demo_kv (kv_clients demo_kv [(''x'', Some [7])] fs3) ep_zero = (OPRT_OK, ep_zero\<lparr>ep_cert := Cert_Mem [1, 2]\<rparr>)"
proof -
  have E: "ep_kv ep_env_demo = demo_kv" "ep_json ep_env_demo = ep_json_demo" by (simp_all add: ep_env_demo_def)
  have "cjson_parse ep_json_demo (json_text (ep_enc ep_env_demo) (domain_db ep_demo)) = Some domain_item" unfolding ep_demo_text by (simp add: ep_json_demo_def)
  moreover have "\<forall>x \<in> set (domain_db ep_demo). \<exists>j. get_item ep_json_demo domain_item (kv_name x) = Some j \<and> item_ok (ep_enc ep_env_demo) (kv_val x) j"
    by (simp add: ep_json_demo_def domain_item_def domain_db_def ep_demo_def item_ok_def text_item_def)
  ultimately show ?thesis
    using endpoint_survives_restart [of ep_env_demo "''EU''" "''pro''" "[1, 2]" ep_demo domain_item "[(''x'', Some [7])]" mgr_zero Map.empty mgr_zero ep_zero]
    by (simp add: E demo_kv_ready ep_demo_ok nul_free_def) (auto simp: ep_demo_def)
qed

definition dns_down :: dns_env where
  "dns_down = \<lparr>dns_json = ep_json_demo, dns_b64 = (\<lambda>_ _. None), dns_mem = (\<lambda>_. True), dns_http = (\<lambda>_ _. None)\<rparr>"

theorem endpoint_double_free_witness:
  "\<exists>mgr'. tuya_endpoint_update dns_down (mgr_zero\<lparr>em_region := ''EU'', em_regist_key := ''pro'', em_endpoint := ep_demo\<rparr>) = Some (OPRT_LINK_CORE_HTTP_CLIENT_SEND_ERROR, mgr')
     \<and> tuya_endpoint_update dns_down mgr' = None"
  by (rule endpoint_double_free) (simp_all add: mgr_zero_def ep_demo_def dns_down_def)

end
