(* ===== verification/IotClient.thy ===== *)
theory IotClient
  imports Endpoint MqttService Event TimeService
begin

text \<open>
  The client of the cloud (\<^verbatim>\<open>src/tuya_cloud_service/cloud/tuya_iot.c\<close>): the data of the activation in the store, the callbacks of the message service and the state
  machine that \<^verbatim>\<open>tuya_iot_yield\<close> turns. The store, the endpoint, the message service, the schema, the event manager and the clock are those of their
  theories. Requests to the cloud, the JSON library and the network are arguments, one environment for each turn. What the application is told is appended to a
  list. \<open>None\<close> is an access through a null pointer, outside of an array or to released memory.
\<close>

section \<open>Data\<close>

datatype run_state =
    STATE_IDLE | STATE_START | STATE_DATA_LOAD | STATE_ENDPOINT_GET | STATE_ENDPOINT_UPDATE | STATE_TOKEN_PENDING | STATE_ACTIVATING
  | STATE_NETWORK_CHECK | STATE_NETWORK_RECONNECT | STATE_STARTUP_UPDATE | STATE_MQTT_CONNECT_START | STATE_MQTT_CONNECTING
  | STATE_MQTT_RECONNECT | STATE_MQTT_YIELD | STATE_RESTART | STATE_RESET | STATE_STOP | STATE_EXIT

datatype client_status = TUYA_STATUS_UNACTIVE | TUYA_STATUS_NETCFG_IDLE | TUYA_STATUS_UNCONNECT_ROUTER | TUYA_STATUS_WIFI_CONNECTED | TUYA_STATUS_MQTT_CONNECTED

datatype reset_type =
    TUYA_RESET_TYPE_FACTORY | TUYA_RESET_TYPE_REMOTE_UNACTIVE | TUYA_RESET_TYPE_LOCAL_UNACTIVE | TUYA_RESET_TYPE_REMOTE_FACTORY | TUYA_RESET_TYPE_DATA_FACTORY

text \<open>The events that the application is told, and the other calls to the outside: the ports that fetch a token, a command of data points, and a question for an upgrade.\<close>

datatype client_out =
    Event_Reset reset_type
  | Event_Bind_Start
  | Event_Bind_Token string
  | Event_Activated
  | Event_Mqtt_Connected
  | Event_Mqtt_Disconnect
  | Event_Upgrade_Notify cjson
  | Event_Reset_Complete
  | Event_Timestamp_Sync int
  | Event_Dpcache_Notify
  | Event_Binded_Notify
  | Call_Token_Port nat
  | Call_Dp_Parse cjson
  | Call_Upgrade_Info int
  | Call_Upgrade_Status
  | Call_Ota_Start cjson

record activated_data =
  a_devid :: string
  a_seckey :: string
  a_localkey :: string
  a_schemaId :: string
  a_timezone :: string

record binding_info =
  b_token :: string
  b_region :: string
  b_regist_key :: string

record tuya_client =
  cl_state :: run_state
  cl_next :: run_state
  cl_status :: client_status
  cl_activated :: bool
  cl_act :: activated_data
  cl_binding :: "binding_info option"
  cl_schema :: "dp_schema option"
  cl_dsmgr :: dp_schema_mgr
  cl_token_result :: operate_ret
  cl_sem :: nat
  cl_ports :: "nat list"
  cl_modules :: "string option"
  cl_matop :: bool
  cl_timer :: bool
  cl_bus :: event_manage
  cl_files :: kv_files
  cl_mgr :: endpoint_management
  cl_clock :: time_state
  cl_out :: "client_out list"

text \<open>An answer of the service behind HTTP.\<close>

record atop_response =
  r_success :: bool
  r_time :: int
  r_result :: "cjson option"

text \<open>
  The environment of a turn: the store and the directory, the storage name and the version of the configuration, whether the callback for the network says yes, the
  allocator, and the answers of the cloud. \<open>x_print\<close> prints a document without the member \<open>schema\<close>.
\<close>

record turn_env =
  x_ep :: ep_env
  x_dns :: dns_env
  x_ns :: string
  x_sw_ver :: string
  x_net :: bool
  x_mem :: bool
  x_md5 :: "byte list \<Rightarrow> byte list"
  x_new_client :: bool
  x_init_ok :: bool
  x_deinit_ok :: bool
  x_connect :: mqtt_status
  x_activate :: "string \<Rightarrow> string option \<Rightarrow> operate_ret \<times> atop_response"
  x_print :: "cjson \<Rightarrow> string option"
  x_sync_factory :: bool
  x_version_ret :: operate_ret
  x_matop_reset :: operate_ret
  x_mutex :: operate_ret

abbreviation x_kv :: "turn_env \<Rightarrow> kv_env" where "x_kv T \<equiv> ep_kv (x_ep T)"
abbreviation x_json :: "turn_env \<Rightarrow> parse_env" where "x_json T \<equiv> ep_json (x_ep T)"

abbreviation MAX_LENGTH_DEVICE_ID :: nat where "MAX_LENGTH_DEVICE_ID \<equiv> 25"
abbreviation MAX_LENGTH_SECKEY :: nat where "MAX_LENGTH_SECKEY \<equiv> 16"
abbreviation MAX_LENGTH_LOCALKEY :: nat where "MAX_LENGTH_LOCALKEY \<equiv> 16"
abbreviation MAX_LENGTH_SCHEMA_ID :: nat where "MAX_LENGTH_SCHEMA_ID \<equiv> 16"
abbreviation MAX_LENGTH_TIMEZONE :: nat where "MAX_LENGTH_TIMEZONE \<equiv> 6"

definition iot_dispatch_event :: "client_out \<Rightarrow> tuya_client \<Rightarrow> tuya_client" where
  "iot_dispatch_event ev c = c\<lparr>cl_out := cl_out c @ [ev]\<rparr>"

section \<open>The data of the activation\<close>

text \<open>\<^verbatim>\<open>strcpy\<close> from the text of an item into an array with room for \<open>n\<close> characters.\<close>

definition copy_item :: "nat \<Rightarrow> cjson \<Rightarrow> string option" where
  "copy_item n item = do { s \<leftarrow> cj_string item; if length s > n then None else Some s }"

definition activate_json_string_parse :: "parse_env \<Rightarrow> string \<Rightarrow> activated_data \<Rightarrow> (operate_ret \<times> activated_data) option" where
  "activate_json_string_parse J str out =
     (case cjson_parse J str of
        None \<Rightarrow> Some (OPRT_CJSON_PARSE_ERR, out)
      | Some root \<Rightarrow>
          (case (get_item J root ''devId'', get_item J root ''secKey'', get_item J root ''localKey'', get_item J root ''schemaId'') of
             (Some dev, Some sec, Some loc, Some sch) \<Rightarrow>
               do {
                 d \<leftarrow> copy_item MAX_LENGTH_DEVICE_ID dev;
                 s \<leftarrow> copy_item MAX_LENGTH_SECKEY sec;
                 l \<leftarrow> copy_item MAX_LENGTH_LOCALKEY loc;
                 i \<leftarrow> copy_item MAX_LENGTH_SCHEMA_ID sch;
                 let out = out\<lparr>a_devid := d, a_seckey := s, a_localkey := l, a_schemaId := i\<rparr>;
                 case get_item J root ''stdTimeZone'' of
                   None \<Rightarrow> Some (OPRT_OK, out)
                 | Some z \<Rightarrow> do { t \<leftarrow> copy_item MAX_LENGTH_TIMEZONE z; Some (OPRT_OK, out\<lparr>a_timezone := t\<rparr>) }
               }
           | _ \<Rightarrow> Some (OPRT_CJSON_GET_ERR, out)))"

definition schema_instance_create :: "turn_env \<Rightarrow> tuya_client \<Rightarrow> (dp_schema option \<times> tuya_client) option" where
  "schema_instance_create T c =
     (case tal_kv_get (x_kv T) (Some (a_schemaId (cl_act c))) (cl_files c) of
        Inl _ \<Rightarrow> Some (None, c)
      | Inr d \<Rightarrow>
          do {
            (_, schema, mgr) \<leftarrow> dp_schema_create (x_json T) (x_mem T, x_mem T) (x_mutex T) (a_devid (cl_act c)) (c_string d) (cl_dsmgr c);
            Some (schema, c\<lparr>cl_dsmgr := mgr\<rparr>)
          })"

definition activated_data_read :: "turn_env \<Rightarrow> tuya_client \<Rightarrow> (operate_ret \<times> tuya_client) option" where
  "activated_data_read T c =
     (case tal_kv_get (x_kv T) (Some (x_ns T)) (cl_files c) of
        Inl err \<Rightarrow> Some (err, c)
      | Inr d \<Rightarrow>
          do {
            (rt, act) \<leftarrow> activate_json_string_parse (x_json T) (c_string d) (cl_act c);
            let c = c\<lparr>cl_act := act\<rparr>;
            if rt \<noteq> OPRT_OK then Some (rt, c)
            else case tal_time_set_time_zone (a_timezone act) (cl_clock c) of (rt, clock) \<Rightarrow> Some (rt, c\<lparr>cl_clock := clock\<rparr>)
          })"

text \<open>The last result tells that the document has been deleted.\<close>

definition activate_response_parse :: "turn_env \<Rightarrow> atop_response \<Rightarrow> tuya_client \<Rightarrow> (operate_ret \<times> bool \<times> tuya_client) option" where
  "activate_response_parse T r c =
     (case (if r_success r then r_result r else None) of
        None \<Rightarrow> Some (OPRT_INVALID_PARM, False, c)
      | Some root \<Rightarrow>
          (case (get_item (x_json T) root ''schema'', get_item (x_json T) root ''schemaId'') of
             (Some sch, Some sid) \<Rightarrow>
               do {
                 schema \<leftarrow> cj_string sch;
                 (ret, fs) \<leftarrow> Some (tal_kv_set (x_kv T) (cj_string sid) (Some (text_bytes schema)) (cl_files c));
                 let c = c\<lparr>cl_files := fs\<rparr>;
                 if ret \<noteq> OPRT_OK then Some (OPRT_KVS_WR_FAIL, False, c)
                 else do {
                   result_string \<leftarrow> x_print T root;
                   (ret, fs) \<leftarrow> Some (tal_kv_set (x_kv T) (Some (x_ns T)) (Some (text_bytes result_string)) (cl_files c));
                   Some (if ret \<noteq> OPRT_OK then OPRT_KVS_WR_FAIL else OPRT_OK, False, c\<lparr>cl_files := fs\<rparr>)
                 }
               }
           | _ \<Rightarrow> Some (OPRT_CJSON_GET_ERR, True, c)))"

text \<open>The key of a stored value: thirty-one characters at most.\<close>

definition storage_key :: "string \<Rightarrow> string \<Rightarrow> string" where
  "storage_key ns suffix = take 31 (ns @ suffix)"

definition cached_devid :: "turn_env \<Rightarrow> kv_files \<Rightarrow> string option option" where
  "cached_devid T fs =
     (case tal_kv_get (x_kv T) (Some (storage_key (x_ns T) ''.devid'')) fs of
        Inl _ \<Rightarrow> Some None
      | Inr v \<Rightarrow> if length v > MAX_LENGTH_DEVICE_ID + 1 then None else Some (Some (c_string v)))"

text \<open>A deleted document is deleted again when the answer is released.\<close>

definition client_activate_process :: "turn_env \<Rightarrow> string \<Rightarrow> tuya_client \<Rightarrow> (operate_ret \<times> tuya_client) option" where
  "client_activate_process T token c =
     do {
       dev \<leftarrow> cached_devid T (cl_files c);
       (case x_activate T token dev of (rt, response) \<Rightarrow>
          if rt \<noteq> OPRT_OK then Some (rt, c\<lparr>cl_next := STATE_RESTART\<rparr>)
          else do {
            (rt, deleted, c) \<leftarrow> activate_response_parse T response (iot_dispatch_event (Event_Timestamp_Sync (r_time response)) c);
            if deleted then None else Some (rt, c)
          })
     }"

section \<open>Callbacks\<close>

abbreviation PRO_CMD :: u16 where "PRO_CMD \<equiv> 5"
abbreviation PRO_GW_RESET :: u16 where "PRO_GW_RESET \<equiv> 11"
abbreviation PRO_UPGD_REQ :: u16 where "PRO_UPGD_REQ \<equiv> 15"
abbreviation PRO_MQ_DPCACHE_NOTIFY :: u16 where "PRO_MQ_DPCACHE_NOTIFY \<equiv> 103"

definition mqtt_service_dp_receive_on :: "parse_env \<Rightarrow> protocol_event \<Rightarrow> tuya_client \<Rightarrow> tuya_client option" where
  "mqtt_service_dp_receive_on J ev c =
     Some (if get_item J (ev_data ev) ''dps'' = None then c else iot_dispatch_event (Call_Dp_Parse (ev_data ev)) c)"

text \<open>A missing identifier is logged, and then used.\<close>

definition mqtt_service_reset_cmd_on :: "parse_env \<Rightarrow> protocol_event \<Rightarrow> tuya_client \<Rightarrow> tuya_client option" where
  "mqtt_service_reset_cmd_on J ev c =
     do {
       _ \<leftarrow> get_item J (ev_data ev) ''gwId'';
       tp \<leftarrow> (case get_item J (root_json ev) ''type'' of None \<Rightarrow> Some [] | Some i \<Rightarrow> cj_string i);
       Some ((iot_dispatch_event (Event_Reset (if tp = ''reset_factory'' then TUYA_RESET_TYPE_REMOTE_FACTORY else TUYA_RESET_TYPE_REMOTE_UNACTIVE)) c)
               \<lparr>cl_next := STATE_RESET\<rparr>)
     }"

definition mqtt_service_upgrade_notify_on :: "parse_env \<Rightarrow> protocol_event \<Rightarrow> tuya_client \<Rightarrow> tuya_client option" where
  "mqtt_service_upgrade_notify_on J ev c =
     Some (iot_dispatch_event (Call_Upgrade_Info (case get_item J (ev_data ev) ''firmwareType'' of None \<Rightarrow> 0 | Some i \<Rightarrow> cj_int i)) c)"

definition mqtt_atop_dp_cache_notify_cb :: "tuya_client \<Rightarrow> tuya_client option" where
  "mqtt_atop_dp_cache_notify_cb c = Some (iot_dispatch_event Event_Dpcache_Notify c)"

definition matop_upgrade_info_on :: "atop_response \<Rightarrow> tuya_client \<Rightarrow> tuya_client" where
  "matop_upgrade_info_on r c =
     (if \<not> r_success r then c
      else (let c = iot_dispatch_event (Event_Timestamp_Sync (r_time r)) c
            in case r_result r of None \<Rightarrow> c | Some j \<Rightarrow> iot_dispatch_event (Call_Ota_Start j) (iot_dispatch_event (Event_Upgrade_Notify j) c)))"

definition matop_app_notify_upgrade_info_on :: "atop_response \<Rightarrow> tuya_client \<Rightarrow> tuya_client" where
  "matop_app_notify_upgrade_info_on r c = (if \<not> r_success r then iot_dispatch_event Call_Upgrade_Status c else matop_upgrade_info_on r c)"

text \<open>
  Of the requests to the cloud (theory \<open>Matop\<close>) the client keeps here only whether they are set up: their subscriptions in the context of the message service
  and their list of waiting answers are the state of that theory.
\<close>

definition mqtt_client_connected_on :: "tuya_client \<Rightarrow> tuya_client" where
  "mqtt_client_connected_on c = iot_dispatch_event Event_Mqtt_Connected (c\<lparr>cl_matop := True, cl_timer := True\<rparr>)"

definition mqtt_client_disconnect_on :: "tuya_client \<Rightarrow> tuya_client" where
  "mqtt_client_disconnect_on c = iot_dispatch_event Event_Mqtt_Disconnect (c\<lparr>cl_matop := False\<rparr>)"

definition mqtt_client_unbind_on :: "turn_env \<Rightarrow> tuya_client \<Rightarrow> tuya_client" where
  "mqtt_client_unbind_on T c =
     iot_dispatch_event (Event_Reset (if x_sync_factory T then TUYA_RESET_TYPE_REMOTE_FACTORY else TUYA_RESET_TYPE_REMOTE_UNACTIVE)) (c\<lparr>cl_next := STATE_RESET\<rparr>)"

text \<open>The timer is started again; the connection of the message service is its argument.\<close>

definition check_auto_upgrade_timeout_on :: "bool \<Rightarrow> tuya_client \<Rightarrow> tuya_client" where
  "check_auto_upgrade_timeout_on connected c = (if connected then iot_dispatch_event (Call_Upgrade_Info 0) c else c)\<lparr>cl_timer := True\<rparr>"

text \<open>The calls of the client library with the callbacks in them.\<close>

definition lib_connect :: "('c, tuya_client) mqtt_env \<Rightarrow> turn_env \<Rightarrow> 'c mqtt_context \<Rightarrow> tuya_client \<Rightarrow> mqtt_status \<times> 'c mqtt_context \<times> tuya_client" where
  "lib_connect M T ctx c =
     (if x_connect T = MQTT_STATUS_SUCCESS
      then (MQTT_STATUS_SUCCESS, mqtt_client_connected_cb M (x_mem T) (\<lambda>ctx c. (ctx, mqtt_client_connected_on c)) 0 ctx c)
      else (x_connect T, ctx, c))"

definition lib_disconnect :: "'c mqtt_context \<Rightarrow> tuya_client \<Rightarrow> 'c mqtt_context \<times> tuya_client" where
  "lib_disconnect ctx c = mqtt_client_disconnected_cb (\<lambda>ctx c. (ctx, mqtt_client_disconnect_on c)) ctx c"

section \<open>Requests\<close>

abbreviation EVENT_LINK_TYPE_CHG :: string where "EVENT_LINK_TYPE_CHG \<equiv> ''link.type''"
abbreviation EVENT_LINK_ACTIVATE :: string where "EVENT_LINK_ACTIVATE \<equiv> ''link.activate''"
abbreviation EVENT_RESET :: string where "EVENT_RESET \<equiv> ''dev.reset''"

abbreviation LINK_TYPE_CHANGE_CB :: nat where "LINK_TYPE_CHANGE_CB \<equiv> 1"
abbreviation TOKEN_ACTIVATE_EVT :: nat where "TOKEN_ACTIVATE_EVT \<equiv> 2"

definition tuya_iot_start :: "tuya_client \<Rightarrow> operate_ret \<times> tuya_client" where
  "tuya_iot_start c = (if cl_state c \<noteq> STATE_IDLE then (OPRT_COM_ERROR, c) else (OPRT_OK, c\<lparr>cl_next := STATE_START\<rparr>))"

definition tuya_iot_stop :: "tuya_client \<Rightarrow> operate_ret \<times> tuya_client" where
  "tuya_iot_stop c = (OPRT_OK, c\<lparr>cl_next := STATE_STOP\<rparr>)"

definition tuya_iot_reconnect :: "tuya_client \<Rightarrow> operate_ret \<times> tuya_client" where
  "tuya_iot_reconnect c = (if cl_state c \<noteq> STATE_MQTT_YIELD then (OPRT_COM_ERROR, c) else (OPRT_OK, c\<lparr>cl_next := STATE_MQTT_RECONNECT\<rparr>))"

text \<open>The semaphore counts to one.\<close>

definition tuya_iot_reset :: "turn_env \<Rightarrow> tuya_client \<Rightarrow> operate_ret \<times> tuya_client" where
  "tuya_iot_reset T c =
     (let ret = (if cl_state c = STATE_MQTT_YIELD \<and> cl_activated c then x_matop_reset T else OPRT_OK);
          c = (iot_dispatch_event (Event_Reset TUYA_RESET_TYPE_FACTORY) c)\<lparr>cl_next := STATE_RESET\<rparr>
      in (ret, if cl_state c = STATE_TOKEN_PENDING then c\<lparr>cl_token_result := OPRT_COM_ERROR, cl_sem := 1\<rparr> else c))"

text \<open>The binding is copied to the memory that the client has allocated for it.\<close>

definition tuya_iot_token_activate_evt :: "binding_info \<Rightarrow> tuya_client \<Rightarrow> tuya_client option" where
  "tuya_iot_token_activate_evt b c =
     (case cl_binding c of None \<Rightarrow> None | Some _ \<Rightarrow> Some (c\<lparr>cl_binding := Some b, cl_token_result := OPRT_OK, cl_sem := 1\<rparr>))"

definition tuya_iot_link_type_change_cb :: "tuya_client \<Rightarrow> tuya_client" where
  "tuya_iot_link_type_change_cb c = snd (tuya_iot_reconnect c)"

text \<open>A publication on the bus calls the two subscribers of the client; the others do not touch it.\<close>

definition client_cb :: "binding_info \<Rightarrow> nat \<Rightarrow> tuya_client option \<Rightarrow> operate_ret \<times> tuya_client option" where
  "client_cb b cb s =
     (OPRT_OK,
      if cb = LINK_TYPE_CHANGE_CB then map_option tuya_iot_link_type_change_cb s
      else if cb = TOKEN_ACTIVATE_EVT then Option.bind s (tuya_iot_token_activate_evt b)
      else s)"

definition publish :: "binding_info \<Rightarrow> string \<Rightarrow> tuya_client \<Rightarrow> tuya_client option" where
  "publish b name c =
     (case tal_event_publish (client_cb b) (Some name) True (cl_bus c) (Some c) of (_, bus, s) \<Rightarrow> map_option (\<lambda>c. c\<lparr>cl_bus := bus\<rparr>) s)"

text \<open>What other tasks do to the client, between turns or while a turn waits.\<close>

datatype request = Rq_Start | Rq_Stop | Rq_Reset | Rq_Link_Type | Rq_Token binding_info

definition no_binding :: binding_info where
  "no_binding = \<lparr>b_token = [], b_region = [], b_regist_key = []\<rparr>"

primrec serve :: "turn_env \<Rightarrow> request \<Rightarrow> tuya_client \<Rightarrow> tuya_client option" where
  "serve T Rq_Start c = Some (snd (tuya_iot_start c))"
| "serve T Rq_Stop c = Some (snd (tuya_iot_stop c))"
| "serve T Rq_Reset c = Some (snd (tuya_iot_reset T c))"
| "serve T Rq_Link_Type c = publish no_binding EVENT_LINK_TYPE_CHG c"
| "serve T (Rq_Token b) c = publish b EVENT_LINK_ACTIVATE c"

fun serve_all :: "turn_env \<Rightarrow> request list \<Rightarrow> tuya_client \<Rightarrow> tuya_client option" where
  "serve_all T [] c = Some c"
| "serve_all T (r # rs) c = Option.bind (serve T r c) (serve_all T rs)"

definition tuya_iot_token_get_port_register :: "nat option \<Rightarrow> tuya_client \<Rightarrow> operate_ret \<times> tuya_client" where
  "tuya_iot_token_get_port_register f c =
     (case f of
        None \<Rightarrow> (OPRT_INVALID_PARM, c)
      | Some p \<Rightarrow>
          if p \<in> set (cl_ports c) then (OPRT_OK, c)
          else if length (cl_ports c) < 2 then (OPRT_OK, c\<lparr>cl_ports := cl_ports c @ [p]\<rparr>)
          else (- 35, c))"

section \<open>The states\<close>

text \<open>The text of the versions, with escaped quotes, and its size.\<close>

definition quoted :: "string \<Rightarrow> string" where
  "quoted s = [CHR 0x5C, CHR 0x22] @ s @ [CHR 0x5C, CHR 0x22]"

definition versions_text :: "string option \<Rightarrow> string \<Rightarrow> string option" where
  "versions_text modules sw =
     do {
       h \<leftarrow> (case modules of None \<Rightarrow> Some ''['' | Some m \<Rightarrow> if m = [] then None else Some (butlast m @ '',''));
       (let t = h @ ''{'' @ quoted ''otaChannel'' @ '':0,'' @ quoted ''protocolVer'' @ '':'' @ quoted ''2.3'' @ '','' @ quoted ''baselineVer'' @ '':'' @ quoted ''40.07'' @ '',''
                @ quoted ''softVer'' @ '':'' @ quoted sw @ ''}]''
        in if length t \<ge> 128 + (case modules of None \<Rightarrow> 0 | Some m \<Rightarrow> length m + 10) then None else Some t)
     }"

definition tuya_iot_version_update_sync :: "turn_env \<Rightarrow> tuya_client \<Rightarrow> (operate_ret \<times> tuya_client) option" where
  "tuya_iot_version_update_sync T c =
     (if \<not> x_mem T then Some (OPRT_INVALID_PARM, c)
      else
        do {
          ver \<leftarrow> versions_text (cl_modules c) (x_sw_ver T);
          (let key = storage_key (x_ns T) ''.ver''; stored = (case tal_kv_get (x_kv T) (Some key) (cl_files c) of Inl _ \<Rightarrow> [] | Inr v \<Rightarrow> v)
           in if take (length ver) stored = text_bytes ver then Some (OPRT_OK, c)
              else if x_version_ret T \<noteq> OPRT_OK then Some (x_version_ret T, c)
              else (case tal_kv_set (x_kv T) (Some key) (Some (text_bytes ver)) (cl_files c) of (rt, fs) \<Rightarrow> Some (rt, c\<lparr>cl_files := fs\<rparr>)))
        })"

definition tuya_iot_extension_modules_version_update :: "turn_env \<Rightarrow> string option \<Rightarrow> tuya_client \<Rightarrow> (operate_ret \<times> tuya_client) option" where
  "tuya_iot_extension_modules_version_update T version c = tuya_iot_version_update_sync T (c\<lparr>cl_modules := version\<rparr>)"

definition client_meta :: "tuya_client \<Rightarrow> meta_info" where
  "client_meta c = \<lparr>m_uuid = None, m_authkey = None, m_devid = Some (a_devid (cl_act c)), m_seckey = Some (a_seckey (cl_act c)), m_localkey = Some (a_localkey (cl_act c))\<rparr>"

definition run_state_startup_update :: "turn_env \<Rightarrow> 'c mqtt_context \<Rightarrow> tuya_client \<Rightarrow> ('c mqtt_context \<times> tuya_client) option" where
  "run_state_startup_update T ctx c =
     do {
       (_, c) \<leftarrow> tuya_iot_version_update_sync T c;
       (_, ctx) \<leftarrow> tuya_mqtt_init (x_md5 T) (x_new_client T) (x_init_ok T) (client_meta c);
       Some (ctx, c)
     }"

definition or_old :: "'a \<Rightarrow> 'a option \<Rightarrow> 'a" where
  "or_old a x = (case x of None \<Rightarrow> a | Some b \<Rightarrow> b)"

definition register_handlers :: "bool \<Rightarrow> 'c mqtt_context \<Rightarrow> 'c mqtt_context" where
  "register_handlers mem ctx =
     fold (\<lambda>(p, cb) ctx. or_old ctx (snd (tuya_mqtt_protocol_register mem p (Some cb) 0 (Some ctx))))
       [(PRO_CMD, 1), (PRO_GW_RESET, 2), (PRO_UPGD_REQ, 3), (PRO_MQ_DPCACHE_NOTIFY, 4)] ctx"

definition run_state_mqtt_connect_start ::
    "('c, tuya_client) mqtt_env \<Rightarrow> turn_env \<Rightarrow> 'c mqtt_context \<Rightarrow> tuya_client \<Rightarrow> operate_ret \<times> 'c mqtt_context \<times> tuya_client" where
  "run_state_mqtt_connect_start M T ctx c =
     (case tuya_mqtt_start (lib_connect M T) (\<lambda>ctx c. (ctx, mqtt_client_unbind_on T c)) (Some ctx) c of (rt, ctx', c) \<Rightarrow>
        if rt \<noteq> OPRT_OK then (rt, or_old ctx ctx', c) else (rt, register_handlers (x_mem T) (or_old ctx ctx'), c))"

definition tuya_iot_activated_data_remove :: "turn_env \<Rightarrow> tuya_client \<Rightarrow> operate_ret \<times> tuya_client" where
  "tuya_iot_activated_data_remove T c =
     (if \<not> cl_activated c then (OPRT_COM_ERROR, c)
      else
        (let fs = snd (tal_kv_del (a_schemaId (cl_act c)) (cl_files c)); fs = tuya_endpoint_remove (snd (tal_kv_del (x_ns T) fs))
         in (OPRT_OK, iot_dispatch_event Event_Reset_Complete
               (c\<lparr>cl_dsmgr := snd (dp_schema_delete (a_devid (cl_act c)) (cl_dsmgr c)), cl_files := fs, cl_activated := False\<rparr>))))"

text \<open>The message service is stopped through its client, which is gone after it has been destroyed.\<close>

definition mqtt_stop :: "('c, tuya_client) mqtt_env \<Rightarrow> 'c mqtt_context \<Rightarrow> tuya_client \<Rightarrow> ('c mqtt_context \<times> tuya_client) option" where
  "mqtt_stop M ctx c =
     (if is_inited ctx \<and> \<not> mq_client ctx then None
      else (case tuya_mqtt_stop M lib_disconnect (Some ctx) c of (_, ctx', c) \<Rightarrow> Some (or_old ctx ctx', c)))"

definition mqtt_destroy :: "turn_env \<Rightarrow> 'c mqtt_context \<Rightarrow> 'c mqtt_context" where
  "mqtt_destroy T ctx = or_old ctx (snd (tuya_mqtt_destory (x_deinit_ok T) (Some ctx)))"

definition run_state_reset :: "('c, tuya_client) mqtt_env \<Rightarrow> turn_env \<Rightarrow> 'c mqtt_context \<Rightarrow> tuya_client \<Rightarrow> (operate_ret \<times> 'c mqtt_context \<times> tuya_client) option" where
  "run_state_reset M T ctx c =
     do {
       (ctx, c) \<leftarrow> (if cl_activated c \<and> tuya_mqtt_connected (Some ctx) then mqtt_stop M ctx c else Some (ctx, c));
       let ctx = mqtt_destroy T ctx;
       let fs = snd (tal_kv_set (x_kv T) (Some (storage_key (x_ns T) ''.devid'')) (Some (text_bytes (a_devid (cl_act c)))) (cl_files c));
       c \<leftarrow> publish no_binding EVENT_RESET (c\<lparr>cl_files := fs\<rparr>);
       (rt, c) \<leftarrow> Some (tuya_iot_activated_data_remove T c);
       Some (rt, ctx, c)
     }"

text \<open>What arrives in a turn of the message service: messages, acknowledgements and the loss of the connection. The handlers are those registered above.\<close>

datatype arrival = Arr_Message "byte list" | Arr_Ack u16 | Arr_Lost

definition handle_event :: "parse_env \<Rightarrow> protocol_event \<Rightarrow> tuya_client \<Rightarrow> tuya_client option" where
  "handle_event J ev c =
     (if ev_cb ev = 1 then mqtt_service_dp_receive_on J ev c
      else if ev_cb ev = 2 then mqtt_service_reset_cmd_on J ev c
      else if ev_cb ev = 3 then mqtt_service_upgrade_notify_on J ev c
      else if ev_cb ev = 4 then mqtt_atop_dp_cache_notify_cb c
      else Some c)"

fun handle_events :: "parse_env \<Rightarrow> protocol_event list \<Rightarrow> tuya_client \<Rightarrow> tuya_client option" where
  "handle_events J [] c = Some c"
| "handle_events J (ev # evs) c = Option.bind (handle_event J ev c) (handle_events J evs)"

fun arrive :: "('c, tuya_client) mqtt_env \<Rightarrow> packer \<Rightarrow> parse_env \<Rightarrow> arrival list \<Rightarrow> 'c mqtt_context \<Rightarrow> tuya_client \<Rightarrow> ('c mqtt_context \<times> tuya_client) option" where
  "arrive M P J [] ctx c = Some (ctx, c)"
| "arrive M P J (Arr_Message payload # as) ctx c =
     do {
       (_, evs) \<leftarrow> tuya_protocol_message_parse_process (pk_cipher P) (pk_alloc P) J ctx payload;
       c \<leftarrow> handle_events J evs c;
       arrive M P J as ctx c
     }"
| "arrive M P J (Arr_Ack msgid # as) ctx c = do { (ctx, c) \<leftarrow> mqtt_client_puback_cb M msgid ctx c; arrive M P J as ctx c }"
| "arrive M P J (Arr_Lost # as) ctx c = Some (lib_disconnect ctx c)"

text \<open>
  A turn. \<open>reqs\<close> are the requests that other tasks make while the turn is under way: the body writes the next state after its calls, so they are made before
  that; while the client waits for a token they are what it waits for. A turn may wait for ever.
\<close>

datatype 'a turn = Done 'a | Blocked | Crash

definition finish :: "'a option \<Rightarrow> 'a turn" where
  "finish r = (case r of None \<Rightarrow> Crash | Some x \<Rightarrow> Done x)"

definition turn_start :: "tuya_client \<Rightarrow> tuya_client" where
  "turn_start c =
     (let c = (if cl_activated c then c\<lparr>cl_next := STATE_NETWORK_CHECK, cl_status := TUYA_STATUS_UNCONNECT_ROUTER\<rparr>
               else c\<lparr>cl_next := STATE_DATA_LOAD, cl_status := TUYA_STATUS_UNACTIVE\<rparr>)
      in c\<lparr>cl_bus := snd (tal_event_subscribe (Some EVENT_LINK_TYPE_CHG) (Some ''iot'') (Some LINK_TYPE_CHANGE_CB) SUBSCRIBE_TYPE_NORMAL True (cl_bus c))\<rparr>)"

definition turn_data_load :: "turn_env \<Rightarrow> tuya_client \<Rightarrow> tuya_client" where
  "turn_data_load T c =
     (if cl_activated c then c\<lparr>cl_next := STATE_NETWORK_CHECK\<rparr>
      else if \<not> x_mem T then c\<lparr>cl_binding := None\<rparr>
      else c\<lparr>cl_binding := Some no_binding,
             cl_bus := snd (tal_event_subscribe (Some EVENT_LINK_ACTIVATE) (Some ''iot'') (Some TOKEN_ACTIVATE_EVT) SUBSCRIBE_TYPE_ONETIME True (cl_bus c)),
             cl_next := STATE_TOKEN_PENDING\<rparr>)"

text \<open>The ports are called, then the client waits.\<close>

definition tuya_iot_token_get_pending :: "turn_env \<Rightarrow> request list \<Rightarrow> tuya_client \<Rightarrow> (operate_ret \<times> tuya_client) turn" where
  "tuya_iot_token_get_pending T reqs c =
     (case serve_all T reqs (c\<lparr>cl_out := cl_out c @ map Call_Token_Port (cl_ports c)\<rparr>) of
        None \<Rightarrow> Crash
      | Some c \<Rightarrow> if cl_sem c = 0 then Blocked else Done (cl_token_result c, c\<lparr>cl_sem := cl_sem c - 1\<rparr>))"

definition turn_token_pending :: "turn_env \<Rightarrow> request list \<Rightarrow> tuya_client \<Rightarrow> tuya_client turn" where
  "turn_token_pending T reqs c =
     (case tuya_iot_token_get_pending T reqs (iot_dispatch_event Event_Bind_Start c) of
        Crash \<Rightarrow> Crash
      | Blocked \<Rightarrow> Blocked
      | Done (rt, c) \<Rightarrow>
          if rt \<noteq> OPRT_OK then Done (c\<lparr>cl_binding := None\<rparr>)
          else finish (do {
            b \<leftarrow> cl_binding c;
            (_, mgr, fs) \<leftarrow> tuya_endpoint_region_regist_set (x_kv T) (b_region b) (b_regist_key b) (cl_mgr c) (cl_files c);
            Some ((iot_dispatch_event (Event_Bind_Token (b_token b)) (c\<lparr>cl_mgr := mgr, cl_files := fs\<rparr>))\<lparr>cl_next := STATE_NETWORK_CHECK\<rparr>)
          }))"

definition turn_endpoint_get :: "turn_env \<Rightarrow> tuya_client \<Rightarrow> (operate_ret \<times> tuya_client) option" where
  "turn_endpoint_get T c =
     (case tuya_endpoint_cert_get (x_kv T) (cl_files c) (em_endpoint (cl_mgr c)) of (r1, ep) \<Rightarrow>
        do {
          (r2, ep) \<leftarrow> tuya_endpoint_domain_get (x_ep T) (cl_files c) ep;
          let c = c\<lparr>cl_mgr := (cl_mgr c)\<lparr>em_endpoint := ep\<rparr>\<rparr>;
          let rt = or r1 r2;
          Some (rt, c\<lparr>cl_next := (if rt \<noteq> OPRT_OK then STATE_ENDPOINT_UPDATE else STATE_STARTUP_UPDATE)\<rparr>)
        })"

text \<open>The certificate and the servers go to the store; failures are only logged.\<close>

definition endpoint_save :: "turn_env \<Rightarrow> tuya_client \<Rightarrow> (operate_ret \<times> tuya_client) option" where
  "endpoint_save T c =
     do {
       (r1, fs) \<leftarrow> tuya_endpoint_cert_set (x_kv T) (em_endpoint (cl_mgr c)) (cl_files c);
       (r2, fs) \<leftarrow> tuya_endpoint_domain_set (x_ep T) (em_endpoint (cl_mgr c)) fs;
       Some (or r1 r2, c\<lparr>cl_files := fs\<rparr>)
     }"

definition turn_endpoint_update :: "turn_env \<Rightarrow> tuya_client \<Rightarrow> (operate_ret \<times> tuya_client) option" where
  "turn_endpoint_update T c =
     do {
       (rt, mgr) \<leftarrow> tuya_endpoint_update (x_dns T) (cl_mgr c);
       let c = c\<lparr>cl_mgr := mgr\<rparr>;
       if rt \<noteq> OPRT_OK then Some (rt, c)
       else if cl_activated c then do { (rt, c) \<leftarrow> endpoint_save T c; Some (rt, c\<lparr>cl_next := STATE_STARTUP_UPDATE\<rparr>) }
       else Some (rt, c\<lparr>cl_next := STATE_ACTIVATING\<rparr>)
     }"

definition turn_activating :: "turn_env \<Rightarrow> tuya_client \<Rightarrow> (operate_ret \<times> tuya_client) option" where
  "turn_activating T c =
     do {
       b \<leftarrow> cl_binding c;
       (rt, c) \<leftarrow> client_activate_process T (b_token b) c;
       if rt \<noteq> OPRT_OK then Some (rt, c)
       else do {
         (rd, c) \<leftarrow> activated_data_read T (c\<lparr>cl_binding := None\<rparr>);
         if rd \<noteq> OPRT_OK then Some (rt, c\<lparr>cl_next := STATE_RESET\<rparr>)
         else do {
           (schema, c) \<leftarrow> schema_instance_create T c;
           let c = c\<lparr>cl_schema := schema\<rparr>;
           if schema = None then Some (rt, c\<lparr>cl_next := STATE_RESET\<rparr>)
           else do {
             (rt, c) \<leftarrow> endpoint_save T c;
             Some (rt, iot_dispatch_event Event_Activated (c\<lparr>cl_activated := True, cl_next := STATE_STARTUP_UPDATE\<rparr>))
           }
         }
       }
     }"

text \<open>The callback for the network is asked.\<close>

definition turn_network_check :: "turn_env \<Rightarrow> tuya_client \<Rightarrow> tuya_client" where
  "turn_network_check T c =
     (if x_net T then c\<lparr>cl_status := TUYA_STATUS_WIFI_CONNECTED, cl_next := (if cl_activated c then STATE_ENDPOINT_GET else STATE_ENDPOINT_UPDATE)\<rparr> else c)"

definition turn_network_reconnect :: "turn_env \<Rightarrow> tuya_client \<Rightarrow> tuya_client" where
  "turn_network_reconnect T c =
     (if x_net T then c\<lparr>cl_status := TUYA_STATUS_WIFI_CONNECTED, cl_next := STATE_MQTT_CONNECT_START\<rparr> else c)"

definition turn_mqtt_reconnect :: "('c, tuya_client) mqtt_env \<Rightarrow> turn_env \<Rightarrow> 'c mqtt_context \<Rightarrow> tuya_client \<Rightarrow> ('c mqtt_context \<times> tuya_client) option" where
  "turn_mqtt_reconnect M T ctx c =
     do {
       (ctx, c) \<leftarrow> mqtt_stop M ctx c;
       Some (ctx, if x_net T then c\<lparr>cl_status := TUYA_STATUS_WIFI_CONNECTED, cl_next := STATE_MQTT_CONNECT_START\<rparr>
                  else c\<lparr>cl_status := TUYA_STATUS_UNCONNECT_ROUTER, cl_next := STATE_NETWORK_RECONNECT\<rparr>)
     }"

text \<open>
  The body of a turn behind the requests, for every state but that of the token. The call of \<open>matop_serice_yield\<close> at the end of a turn of
  \<open>STATE_MQTT_YIELD\<close>, which looks at one waiting request to the cloud, works on the state of theory \<open>Matop\<close> and is not part of this body.
\<close>

definition turn_body ::
    "('c, tuya_client) mqtt_env \<Rightarrow> packer \<Rightarrow> turn_env \<Rightarrow> arrival list \<Rightarrow> 'c mqtt_context \<Rightarrow> tuya_client \<Rightarrow> (operate_ret \<times> 'c mqtt_context \<times> tuya_client) option" where
  "turn_body M P T as ctx c =
     (case cl_state c of
        STATE_MQTT_YIELD \<Rightarrow>
          do {
            (_, ctx', c) \<leftarrow> tuya_mqtt_loop M (lib_connect M T) (\<lambda>ctx c. (ctx, mqtt_client_unbind_on T c)) (arrive M P (x_json T) as) (Some ctx) c;
            Some (OPRT_OK, or_old ctx ctx', c)
          }
      | STATE_START \<Rightarrow> Some (OPRT_OK, ctx, turn_start c)
      | STATE_DATA_LOAD \<Rightarrow> Some (OPRT_OK, ctx, turn_data_load T c)
      | STATE_NETWORK_CHECK \<Rightarrow> Some (OPRT_OK, ctx, turn_network_check T c)
      | STATE_ENDPOINT_GET \<Rightarrow> do { (rt, c) \<leftarrow> turn_endpoint_get T c; Some (rt, ctx, c) }
      | STATE_ENDPOINT_UPDATE \<Rightarrow> do { (rt, c) \<leftarrow> turn_endpoint_update T c; Some (rt, ctx, c) }
      | STATE_ACTIVATING \<Rightarrow> do { (rt, c) \<leftarrow> turn_activating T c; Some (rt, ctx, c) }
      | STATE_STARTUP_UPDATE \<Rightarrow>
          do {
            (ctx, c) \<leftarrow> run_state_startup_update T ctx (iot_dispatch_event Event_Binded_Notify c);
            Some (OPRT_OK, ctx, c\<lparr>cl_next := STATE_MQTT_CONNECT_START\<rparr>)
          }
      | STATE_MQTT_CONNECT_START \<Rightarrow>
          (case run_state_mqtt_connect_start M T ctx c of (rt, ctx, c) \<Rightarrow>
             Some (OPRT_OK, ctx, if rt = OPRT_OK then c\<lparr>cl_next := STATE_MQTT_CONNECTING\<rparr> else c))
      | STATE_MQTT_CONNECTING \<Rightarrow>
          Some (OPRT_OK, ctx,
            if tuya_mqtt_connected (Some ctx) then c\<lparr>cl_status := TUYA_STATUS_MQTT_CONNECTED, cl_next := STATE_MQTT_YIELD\<rparr> else c)
      | STATE_MQTT_RECONNECT \<Rightarrow> do { (ctx, c) \<leftarrow> turn_mqtt_reconnect M T ctx c; Some (OPRT_OK, ctx, c) }
      | STATE_NETWORK_RECONNECT \<Rightarrow> Some (OPRT_OK, ctx, turn_network_reconnect T c)
      | STATE_RESTART \<Rightarrow> Some (OPRT_OK, ctx, c\<lparr>cl_next := STATE_START\<rparr>)
      | STATE_RESET \<Rightarrow> do { (_, ctx, c) \<leftarrow> run_state_reset M T ctx c; Some (OPRT_OK, ctx, c\<lparr>cl_next := STATE_RESTART\<rparr>) }
      | STATE_STOP \<Rightarrow> do { (ctx, c) \<leftarrow> mqtt_stop M ctx c; Some (OPRT_OK, mqtt_destroy T ctx, c\<lparr>cl_next := STATE_IDLE\<rparr>) }
      | _ \<Rightarrow> Some (OPRT_OK, ctx, c))"

definition tuya_iot_yield ::
    "('c, tuya_client) mqtt_env \<Rightarrow> packer \<Rightarrow> turn_env \<Rightarrow> request list \<Rightarrow> arrival list \<Rightarrow> 'c mqtt_context \<times> tuya_client \<Rightarrow> (operate_ret \<times> 'c mqtt_context \<times> tuya_client) turn" where
  "tuya_iot_yield M P T reqs as s =
     (case s of (ctx, c) \<Rightarrow>
        let c = c\<lparr>cl_state := cl_next c\<rparr>
        in if cl_state c = STATE_TOKEN_PENDING
           then (case turn_token_pending T reqs c of Crash \<Rightarrow> Crash | Blocked \<Rightarrow> Blocked | Done c \<Rightarrow> Done (OPRT_OK, ctx, c))
           else finish (Option.bind (serve_all T reqs c) (turn_body M P T as ctx)))"

section \<open>Start\<close>

definition act_zero :: activated_data where
  "act_zero = \<lparr>a_devid = [], a_seckey = [], a_localkey = [], a_schemaId = [], a_timezone = []\<rparr>"

text \<open>
  The structure is cleared. The store, the bus, the endpoint, the clock and the schemas are outside of it; \<open>timer\<close> is the result of creating the timer of the upgrades.
\<close>

definition tuya_iot_init :: "turn_env \<Rightarrow> operate_ret \<Rightarrow> string option \<Rightarrow> tuya_client \<Rightarrow> (operate_ret \<times> 'c mqtt_context \<times> tuya_client) option" where
  "tuya_iot_init T timer modules c =
     (let c = c\<lparr>cl_state := STATE_IDLE, cl_next := STATE_IDLE, cl_status := TUYA_STATUS_UNACTIVE, cl_activated := False, cl_act := act_zero, cl_binding := None,
                cl_schema := None, cl_token_result := OPRT_OK, cl_sem := 0, cl_ports := [], cl_modules := modules, cl_matop := False, cl_timer := False,
                cl_mgr := snd (tuya_endpoint_init (x_kv T) (cl_files c) (cl_mgr c))\<rparr>
      in do {
        (rt, c) \<leftarrow> activated_data_read T c;
        c \<leftarrow> (if rt \<noteq> OPRT_OK then Some c
              else do { (schema, c) \<leftarrow> schema_instance_create T c; Some (c\<lparr>cl_schema := schema, cl_activated := (schema \<noteq> None)\<rparr>) });
        Some (timer, context_zero, c)
      })"

end
