(* ===== verification/IotClientRuns.thy ===== *)
theory IotClientRuns
  imports IotClient
begin

text \<open>
  Runs of the client of the cloud: an activated client connects, an activation survives a restart and a reset forgets it, and the requests and failures
  that the state machine does not survive.
\<close>

section \<open>Turns\<close>

fun run_turns :: "('c, tuya_client) mqtt_env \<Rightarrow> packer \<Rightarrow> (turn_env \<times> request list \<times> arrival list) list \<Rightarrow> 'c mqtt_context \<times> tuya_client \<Rightarrow> ('c mqtt_context \<times> tuya_client) turn" where
  "run_turns M P [] s = Done s"
| "run_turns M P ((T, reqs, as) # ts) s =
     (case tuya_iot_yield M P T reqs as s of Done (_, s) \<Rightarrow> run_turns M P ts s | Blocked \<Rightarrow> Blocked | Crash \<Rightarrow> Crash)"

lemma yield_quiet: "cl_next c \<noteq> STATE_TOKEN_PENDING \<Longrightarrow> tuya_iot_yield M P T [] as (ctx, c) = finish (turn_body M P T as ctx (c\<lparr>cl_state := cl_next c\<rparr>))"
  by (simp add: tuya_iot_yield_def)

lemma finish_Some [simp]: "finish (Some x) = Done x"
  and finish_None [simp]: "finish None = Crash"
  by (simp_all add: finish_def)

text \<open>A library whose calls do not touch the client.\<close>

definition lib_quiet :: "('c, tuya_client) mqtt_env \<Rightarrow> bool" where
  "lib_quiet M \<longleftrightarrow> (\<forall>t e. snd (mqtt_client_subscribe M t e) = e) \<and> (\<forall>t e. snd (mqtt_client_unsubscribe M t e) = e)"

lemma signature_device:
  assumes "length (a_devid (cl_act c)) \<le> MAX_LENGTH_DEVICE_ID" "15 \<le> length (a_localkey (cl_act c))"
  shows "\<exists>acc. tuya_mqtt_signature_tool md5 (client_meta c) = Some (Inr acc)"
  using assms by (simp add: tuya_mqtt_signature_tool_def client_meta_def key16_def sprintf_into_def)

text \<open>The effect of the synchronisation of the versions: a result and the files.\<close>

definition sync_effect :: "turn_env \<Rightarrow> tuya_client \<Rightarrow> operate_ret \<times> kv_files" where
  "sync_effect T c =
     (let ver = the (versions_text (cl_modules c) (x_sw_ver T)); key = storage_key (x_ns T) ''.ver'';
          stored = (case tal_kv_get (x_kv T) (Some key) (cl_files c) of Inl _ \<Rightarrow> [] | Inr v \<Rightarrow> v)
      in if \<not> x_mem T then (OPRT_INVALID_PARM, cl_files c)
         else if take (length ver) stored = text_bytes ver then (OPRT_OK, cl_files c)
         else if x_version_ret T \<noteq> OPRT_OK then (x_version_ret T, cl_files c)
         else tal_kv_set (x_kv T) (Some key) (Some (text_bytes ver)) (cl_files c))"

lemma version_sync:
  assumes "versions_text (cl_modules c) (x_sw_ver T) \<noteq> None"
  shows "tuya_iot_version_update_sync T c = Some (fst (sync_effect T c), c\<lparr>cl_files := snd (sync_effect T c)\<rparr>)"
  using assms by (clarsimp simp: tuya_iot_version_update_sync_def sync_effect_def Let_def case_prod_beta)

lemma startup_ready:
  assumes "versions_text (cl_modules c) (x_sw_ver T) \<noteq> None" "length (a_devid (cl_act c)) \<le> MAX_LENGTH_DEVICE_ID" "15 \<le> length (a_localkey (cl_act c))"
    and "x_new_client T" "x_init_ok T"
  shows "\<exists>ctx'. run_state_startup_update T ctx c = Some (ctx', c\<lparr>cl_files := snd (sync_effect T c)\<rparr>) \<and> is_inited ctx' \<and> mq_client ctx' \<and> protocol_list ctx' = []"
proof -
  obtain acc where "tuya_mqtt_signature_tool (x_md5 T) (client_meta (c\<lparr>cl_files := snd (sync_effect T c)\<rparr>)) = Some (Inr acc)"
    using signature_device [of "c\<lparr>cl_files := snd (sync_effect T c)\<rparr>" "x_md5 T"] assms(2,3) by auto
  then show ?thesis using version_sync [OF assms(1)] assms(4,5) by (simp add: run_state_startup_update_def tuya_mqtt_init_def context_zero_def)
qed

lemma handlers_registered:
  assumes "is_inited ctx" "protocol_list ctx = []"
  shows "register_handlers True ctx = ctx\<lparr>protocol_list := map (\<lambda>(p, cb). \<lparr>ph_id = p, ph_cb = cb, ph_data = 0\<rparr>)
    [(PRO_MQ_DPCACHE_NOTIFY, 4), (PRO_UPGD_REQ, 3), (PRO_GW_RESET, 2), (PRO_CMD, 1)]\<rparr>"
  using assms by (simp add: register_handlers_def tuya_mqtt_protocol_register_def or_old_def)

lemma connect_ready:
  assumes "lib_quiet M" "is_inited ctx" "protocol_list ctx = []" "x_connect T = MQTT_STATUS_SUCCESS" "x_mem T"
  shows "\<exists>ctx'. run_state_mqtt_connect_start M T ctx c = (OPRT_OK, ctx', mqtt_client_connected_on c) \<and> is_connected ctx' \<and> \<not> manual_disconnect ctx'
     \<and> map (\<lambda>h. (ph_id h, ph_cb h)) (protocol_list ctx') = [(PRO_MQ_DPCACHE_NOTIFY, 4), (PRO_UPGD_REQ, 3), (PRO_GW_RESET, 2), (PRO_CMD, 1)]"
proof -
  define sub where "sub = tuya_mqtt_subscribe_message_callback_register M True (topic_in (mq_signature ctx)) (Some On_Subscribe_Default) 0 (ctx\<lparr>manual_disconnect := False\<rparr>) c"
  have q: "snd (mqtt_client_subscribe M t e) = e" for t e using assms(1) by (simp add: lib_quiet_def)
  have s: "snd (snd sub) = c" "is_inited (fst (snd sub))" "protocol_list (fst (snd sub)) = []" "\<not> manual_disconnect (fst (snd sub))"
    using assms(2,3) q by (auto simp: sub_def tuya_mqtt_subscribe_message_callback_register_def case_prod_beta)
  have "run_state_mqtt_connect_start M T ctx c = (OPRT_OK, register_handlers True ((fst (snd sub))\<lparr>is_connected := True\<rparr>), mqtt_client_connected_on c)"
    using assms(2,4,5) s(1)
    by (simp add: run_state_mqtt_connect_start_def tuya_mqtt_start_def lib_connect_def mqtt_client_connected_cb_def sub_def [symmetric] case_prod_beta or_old_def)
  moreover have "register_handlers True ((fst (snd sub))\<lparr>is_connected := True\<rparr>) = (fst (snd sub))\<lparr>is_connected := True, protocol_list := map (\<lambda>(p, cb). \<lparr>ph_id = p, ph_cb = cb, ph_data = 0\<rparr>)
    [(PRO_MQ_DPCACHE_NOTIFY, 4), (PRO_UPGD_REQ, 3), (PRO_GW_RESET, 2), (PRO_CMD, 1)]\<rparr>" by (subst handlers_registered) (simp_all add: s)
  ultimately show ?thesis using s(4) by simp
qed

text \<open>
  C9. An activated client connects: with a network, a stored endpoint and a server that accepts it, six turns after its start it is in the state that serves the connection, with
  the handlers of the four protocols registered, and the application has been told.
\<close>

theorem client_connects:
  assumes "lib_quiet M" "cl_next c = STATE_START" "cl_activated c" "x_net T" "x_mem T" "x_new_client T" "x_init_ok T" "x_connect T = MQTT_STATUS_SUCCESS"
    and "tuya_endpoint_cert_get (x_kv T) (cl_files c) (em_endpoint (cl_mgr c)) = (OPRT_OK, ep)"
    and "tuya_endpoint_domain_get (x_ep T) (cl_files c) ep = Some (OPRT_OK, ep')"
    and "versions_text (cl_modules c) (x_sw_ver T) \<noteq> None" "length (a_devid (cl_act c)) \<le> MAX_LENGTH_DEVICE_ID" "15 \<le> length (a_localkey (cl_act c))"
  shows "\<exists>ctx' c'. run_turns M P (replicate 6 (T, [], [])) (ctx, c) = Done (ctx', c')
     \<and> cl_next c' = STATE_MQTT_YIELD \<and> cl_status c' = TUYA_STATUS_MQTT_CONNECTED \<and> is_connected ctx' \<and> \<not> manual_disconnect ctx'
     \<and> map (\<lambda>h. (ph_id h, ph_cb h)) (protocol_list ctx') = [(PRO_MQ_DPCACHE_NOTIFY, 4), (PRO_UPGD_REQ, 3), (PRO_GW_RESET, 2), (PRO_CMD, 1)]
     \<and> cl_out c' = cl_out c @ [Event_Binded_Notify, Event_Mqtt_Connected]"
proof -
  define c1 where "c1 = turn_start (c\<lparr>cl_state := STATE_START\<rparr>)"
  define c2 where "c2 = c1\<lparr>cl_state := STATE_NETWORK_CHECK, cl_status := TUYA_STATUS_WIFI_CONNECTED, cl_next := STATE_ENDPOINT_GET\<rparr>"
  define c3 where "c3 = c2\<lparr>cl_state := STATE_ENDPOINT_GET, cl_mgr := (cl_mgr c)\<lparr>em_endpoint := ep'\<rparr>, cl_next := STATE_STARTUP_UPDATE\<rparr>"
  define d where "d = iot_dispatch_event Event_Binded_Notify (c3\<lparr>cl_state := STATE_STARTUP_UPDATE\<rparr>)"
  define c4 where "c4 = d\<lparr>cl_files := snd (sync_effect T d), cl_next := STATE_MQTT_CONNECT_START\<rparr>"
  define c5 where "c5 = mqtt_client_connected_on (c4\<lparr>cl_state := STATE_MQTT_CONNECT_START\<rparr>)"
  have f1: "cl_next c1 = STATE_NETWORK_CHECK" "cl_activated c1" "cl_files c1 = cl_files c" "cl_mgr c1 = cl_mgr c" "cl_modules c1 = cl_modules c" "cl_act c1 = cl_act c" "cl_out c1 = cl_out c"
    using assms(3) by (simp_all add: c1_def turn_start_def)
  have fd: "cl_modules d = cl_modules c" "cl_act d = cl_act c" "cl_out d = cl_out c @ [Event_Binded_Notify]"
    by (simp_all add: d_def c3_def c2_def iot_dispatch_event_def f1)
  obtain ctx1 where up: "run_state_startup_update T ctx d = Some (ctx1, d\<lparr>cl_files := snd (sync_effect T d)\<rparr>)" "is_inited ctx1" "protocol_list ctx1 = []"
    using startup_ready [of d T ctx] assms(6,7,11-13) unfolding fd by blast
  obtain ctx2 where con: "run_state_mqtt_connect_start M T ctx1 (c4\<lparr>cl_state := STATE_MQTT_CONNECT_START\<rparr>) = (OPRT_OK, ctx2, c5)" "is_connected ctx2" "\<not> manual_disconnect ctx2"
    "map (\<lambda>h. (ph_id h, ph_cb h)) (protocol_list ctx2) = [(PRO_MQ_DPCACHE_NOTIFY, 4), (PRO_UPGD_REQ, 3), (PRO_GW_RESET, 2), (PRO_CMD, 1)]"
    using connect_ready [OF assms(1) up(2,3) assms(8,5), of "c4\<lparr>cl_state := STATE_MQTT_CONNECT_START\<rparr>"] unfolding c5_def [symmetric] by (elim exE conjE) (rule that)
  have "tuya_iot_yield M P T [] [] (ctx, c) = Done (OPRT_OK, ctx, c1)"
    using assms(2) by (simp add: yield_quiet turn_body_def c1_def)
  moreover have "tuya_iot_yield M P T [] [] (ctx, c1) = Done (OPRT_OK, ctx, c2)"
    using assms(4) by (simp add: yield_quiet turn_body_def c2_def turn_network_check_def f1)
  moreover have "tuya_iot_yield M P T [] [] (ctx, c2) = Done (OPRT_OK, ctx, c3)"
    using assms(9,10) by (simp add: yield_quiet turn_body_def c3_def c2_def turn_endpoint_get_def f1)
  moreover have "tuya_iot_yield M P T [] [] (ctx, c3) = Done (OPRT_OK, ctx1, c4)"
    using up(1) by (simp add: yield_quiet turn_body_def c4_def d_def c3_def)
  moreover have "tuya_iot_yield M P T [] [] (ctx1, c4) = Done (OPRT_OK, ctx2, c5\<lparr>cl_next := STATE_MQTT_CONNECTING\<rparr>)"
  proof -
    have "cl_next c4 = STATE_MQTT_CONNECT_START" by (simp add: c4_def)
    then show ?thesis using con(1) by (simp add: yield_quiet turn_body_def)
  qed
  moreover have "tuya_iot_yield M P T [] [] (ctx2, c5\<lparr>cl_next := STATE_MQTT_CONNECTING\<rparr>) =
      Done (OPRT_OK, ctx2, c5\<lparr>cl_state := STATE_MQTT_CONNECTING, cl_status := TUYA_STATUS_MQTT_CONNECTED, cl_next := STATE_MQTT_YIELD\<rparr>)"
    using con(2) by (simp add: yield_quiet turn_body_def tuya_mqtt_connected_def)
  moreover have "cl_out c5 = cl_out c @ [Event_Binded_Notify, Event_Mqtt_Connected]"
    by (simp add: c5_def mqtt_client_connected_on_def iot_dispatch_event_def c4_def fd)
  ultimately show ?thesis using con(2-4) by (simp add: eval_nat_numeral)
qed

section \<open>The store\<close>

lemma set_other: "j \<noteq> k \<Longrightarrow> snd (tal_kv_set E (Some k) v fs) j = fs j"
  by (auto simp: tal_kv_set_def Let_def split: option.splits sum.splits)

lemma set_result_other: "tal_kv_set E (Some k) v fs = (r, fs') \<Longrightarrow> j \<noteq> k \<Longrightarrow> fs' j = fs j"
  using set_other [of j k E v fs] by simp

lemma serialize_set_other:
  assumes "tal_kv_serialize_set E b64 (Some k) db fs = Some (r, fs')" "j \<noteq> k"
  shows "fs' j = fs j"
proof (cases "db = []")
  case False
  then obtain x where "kv_serialize b64 (kv_mem E) db = Some x" "(case x of Inl err \<Rightarrow> (err, fs) | Inr buf \<Rightarrow> tal_kv_set E (Some k) (Some (text_bytes buf)) fs) = (r, fs')"
    using assms(1) by (auto simp: tal_kv_serialize_set_def bind_eq_Some_conv)
  then show ?thesis using assms(2) set_result_other by (cases x) auto
qed (use assms(1) in \<open>simp add: tal_kv_serialize_set_def\<close>)

lemma endpoint_save_effect:
  assumes "endpoint_save T c = Some (rt, c')"
  obtains fs where "c' = c\<lparr>cl_files := fs\<rparr>" "\<And>k. k \<notin> {''endpoint.cert'', ''endpoint.domain''} \<Longrightarrow> fs k = cl_files c k"
proof -
  obtain r1 fs1 r2 fs2 where s: "tuya_endpoint_cert_set (x_kv T) (em_endpoint (cl_mgr c)) (cl_files c) = Some (r1, fs1)"
    "tuya_endpoint_domain_set (x_ep T) (em_endpoint (cl_mgr c)) fs1 = Some (r2, fs2)" "c' = c\<lparr>cl_files := fs2\<rparr>"
    using assms by (auto simp: endpoint_save_def bind_eq_Some_conv)
  have "fs1 k = cl_files c k" if "k \<noteq> ''endpoint.cert''" for k
    using s(1) set_result_other [OF _ that] by (auto simp: tuya_endpoint_cert_set_def split: cert_mem.splits)
  moreover have "fs2 k = fs1 k" if "k \<noteq> ''endpoint.domain''" for k
    using serialize_set_other [OF s(2) [unfolded tuya_endpoint_domain_set_def] that] .
  ultimately show thesis using that [OF s(3)] by simp
qed

text \<open>Reading the data of the activation depends on one file only, and so does the creation of the schema.\<close>

lemma get_error: "tal_kv_get E k fs = Inl err \<Longrightarrow> err \<noteq> OPRT_OK"
  by (auto simp: tal_kv_get_def Let_def split: option.splits if_splits sum.splits)

text \<open>
  The time zone is the one optional member of the data. Where they have it, reading them overwrites all that the client knew; where they do not, the zone that the client
  knew stays.
\<close>

definition zone_stored :: "turn_env \<Rightarrow> kv_files \<Rightarrow> bool" where
  "zone_stored T fs \<longleftrightarrow>
     (case tal_kv_get (x_kv T) (Some (x_ns T)) fs of
        Inl _ \<Rightarrow> False
      | Inr v \<Rightarrow> (case cjson_parse (x_json T) (c_string v) of None \<Rightarrow> False | Some root \<Rightarrow> get_item (x_json T) root ''stdTimeZone'' \<noteq> None))"

lemma zone_frame: "fs (x_ns T) = fs' (x_ns T) \<Longrightarrow> zone_stored T fs = zone_stored T fs'"
  using get_frame [of fs "x_ns T" fs' "x_kv T"] by (simp add: zone_stored_def)

lemma parse_zone:
  assumes "activate_json_string_parse J str out = Some (OPRT_OK, act)" "cjson_parse J str = Some root"
  shows "get_item J root ''stdTimeZone'' \<noteq> None \<Longrightarrow> activate_json_string_parse J str out' = Some (OPRT_OK, act)"
    "get_item J root ''stdTimeZone'' = None \<Longrightarrow> a_timezone act = a_timezone out"
    "get_item J root ''stdTimeZone'' = None \<Longrightarrow> activate_json_string_parse J str out' = Some (OPRT_OK, act\<lparr>a_timezone := a_timezone out'\<rparr>)"
  using assms by (cases out; cases out'; auto simp: activate_json_string_parse_def bind_eq_Some_conv Let_def split: option.splits)+

lemma read_data:
  assumes "activated_data_read T c = Some (OPRT_OK, c')"
  obtains b root act clock where "tal_kv_get (x_kv T) (Some (x_ns T)) (cl_files c) = Inr b" "cjson_parse (x_json T) (c_string b) = Some root"
    "activate_json_string_parse (x_json T) (c_string b) (cl_act c) = Some (OPRT_OK, act)" "tal_time_set_time_zone (a_timezone act) (cl_clock c) = (OPRT_OK, clock)"
    "c' = c\<lparr>cl_act := act, cl_clock := clock\<rparr>" "zone_stored T (cl_files c) \<longleftrightarrow> get_item (x_json T) root ''stdTimeZone'' \<noteq> None"
proof -
  obtain b where b: "tal_kv_get (x_kv T) (Some (x_ns T)) (cl_files c) = Inr b"
    using assms get_error [of "x_kv T" "Some (x_ns T)" "cl_files c"] by (cases "tal_kv_get (x_kv T) (Some (x_ns T)) (cl_files c)") (simp_all add: activated_data_read_def)
  obtain rt act where a: "activate_json_string_parse (x_json T) (c_string b) (cl_act c) = Some (rt, act)"
    using assms b by (cases "activate_json_string_parse (x_json T) (c_string b) (cl_act c)") (auto simp: activated_data_read_def)
  obtain z clock where z: "tal_time_set_time_zone (a_timezone act) (cl_clock c) = (z, clock)" by fastforce
  have r: "rt = OPRT_OK" "z = OPRT_OK" "c' = c\<lparr>cl_act := act, cl_clock := clock\<rparr>"
    using assms a z by (simp_all add: activated_data_read_def b Let_def split: if_splits)
  obtain root where root: "cjson_parse (x_json T) (c_string b) = Some root" using a r(1) by (cases "cjson_parse (x_json T) (c_string b)") (auto simp: activate_json_string_parse_def)
  have "zone_stored T (cl_files c) \<longleftrightarrow> get_item (x_json T) root ''stdTimeZone'' \<noteq> None" unfolding zone_stored_def b root sum.case option.case ..
  from that [OF b root a [unfolded r(1)] z [unfolded r(2)] r(3) this] show thesis .
qed

lemma set_zone_result: "tal_time_set_time_zone z clock = (OPRT_OK, clock') \<Longrightarrow> fst (tal_time_set_time_zone z k) = OPRT_OK"
  by (auto simp: tal_time_set_time_zone_def split: prod.splits option.splits)

lemma read_again:
  assumes "activated_data_read T c = Some (OPRT_OK, c')" "cl_files d (x_ns T) = cl_files c (x_ns T)" "zone_stored T (cl_files c)"
  shows "\<exists>clock. activated_data_read T d = Some (OPRT_OK, d\<lparr>cl_act := cl_act c', cl_clock := clock\<rparr>)"
proof -
  obtain b root act clock where r: "tal_kv_get (x_kv T) (Some (x_ns T)) (cl_files c) = Inr b" "cjson_parse (x_json T) (c_string b) = Some root"
    "activate_json_string_parse (x_json T) (c_string b) (cl_act c) = Some (OPRT_OK, act)" "tal_time_set_time_zone (a_timezone act) (cl_clock c) = (OPRT_OK, clock)"
    "c' = c\<lparr>cl_act := act, cl_clock := clock\<rparr>" "get_item (x_json T) root ''stdTimeZone'' \<noteq> None"
    using read_data [OF assms(1)] assms(3) by metis
  have g: "tal_kv_get (x_kv T) (Some (x_ns T)) (cl_files d) = Inr b" using get_frame [of "cl_files d" "x_ns T" "cl_files c"] assms(2) r(1) by simp
  have "activate_json_string_parse (x_json T) (c_string b) (cl_act d) = Some (OPRT_OK, act)" by (rule parse_zone(1) [OF r(3,2,6)])
  moreover have "fst (tal_time_set_time_zone (a_timezone act) (cl_clock d)) = OPRT_OK" by (rule set_zone_result [OF r(4)])
  ultimately show ?thesis
    using r(5) g by (intro exI [of _ "snd (tal_time_set_time_zone (a_timezone act) (cl_clock d))"]) (simp add: activated_data_read_def case_prod_beta)
qed

lemma no_time_zone: "tal_time_set_time_zone [] clock = (OPRT_INVALID_PARM, clock)"
  by (simp add: tal_time_set_time_zone_def get_time_zone_def sscanf_hm_def scan_int_def scan_nat_def)

lemma read_zoneless:
  assumes "activated_data_read T c = Some (OPRT_OK, c')" "cl_files d (x_ns T) = cl_files c (x_ns T)" "\<not> zone_stored T (cl_files c)" "a_timezone (cl_act d) = []"
  shows "\<exists>act. activated_data_read T d = Some (OPRT_INVALID_PARM, d\<lparr>cl_act := act\<rparr>)"
proof -
  obtain b root act clock where r: "tal_kv_get (x_kv T) (Some (x_ns T)) (cl_files c) = Inr b" "cjson_parse (x_json T) (c_string b) = Some root"
    "activate_json_string_parse (x_json T) (c_string b) (cl_act c) = Some (OPRT_OK, act)" "get_item (x_json T) root ''stdTimeZone'' = None"
    using read_data [OF assms(1)] assms(3) by metis
  have g: "tal_kv_get (x_kv T) (Some (x_ns T)) (cl_files d) = Inr b" using get_frame [of "cl_files d" "x_ns T" "cl_files c"] assms(2) r(1) by simp
  have "activate_json_string_parse (x_json T) (c_string b) (cl_act d) = Some (OPRT_OK, act\<lparr>a_timezone := []\<rparr>)" using parse_zone(3) [OF r(3,2,4), of "cl_act d"] assms(4) by simp
  then show ?thesis using g by (intro exI [of _ "act\<lparr>a_timezone := []\<rparr>"]) (simp add: activated_data_read_def no_time_zone)
qed

lemma schema_again:
  assumes "schema_instance_create T c = Some (Some s, c')" "cl_files d (a_schemaId (cl_act c)) = cl_files c (a_schemaId (cl_act c))" "cl_act d = cl_act c"
  shows "\<exists>mgr. schema_instance_create T d = Some (Some s, d\<lparr>cl_dsmgr := mgr\<rparr>)" and "\<exists>mgr. c' = c\<lparr>cl_dsmgr := mgr\<rparr>"
proof -
  obtain b r mgr where g: "tal_kv_get (x_kv T) (Some (a_schemaId (cl_act c))) (cl_files c) = Inr b"
    "dp_schema_create (x_json T) (x_mem T, x_mem T) (x_mutex T) (a_devid (cl_act c)) (c_string b) (cl_dsmgr c) = Some (r, Some s, mgr)" "c' = c\<lparr>cl_dsmgr := mgr\<rparr>"
    using assms(1) by (auto simp: schema_instance_create_def bind_eq_Some_conv split: sum.splits)
  have "\<exists>r m. dp_schema_create (x_json T) (x_mem T, x_mem T) (x_mutex T) (a_devid (cl_act c)) (c_string b) (cl_dsmgr d) = Some (r, Some s, m)"
    using g(2) by (auto simp: dp_schema_create_def Let_def split: if_splits option.splits sum.splits)
  then obtain r' m where "dp_schema_create (x_json T) (x_mem T, x_mem T) (x_mutex T) (a_devid (cl_act c)) (c_string b) (cl_dsmgr d) = Some (r', Some s, m)" by blast
  then show "\<exists>mgr. schema_instance_create T d = Some (Some s, d\<lparr>cl_dsmgr := mgr\<rparr>)"
    using get_frame [of "cl_files d" "a_schemaId (cl_act c)" "cl_files c"] assms(2) g(1) assms(3) by (intro exI [of _ m]) (simp add: schema_instance_create_def)
  show "\<exists>mgr. c' = c\<lparr>cl_dsmgr := mgr\<rparr>" using g(3) by blast
qed

text \<open>The request of the activation changes the files, the next state and what the application has been told.\<close>

lemma response_parse_keeps:
  assumes "activate_response_parse T r c = Some (rt, del, c')"
  shows "cl_act c' = cl_act c \<and> cl_activated c' = cl_activated c"
proof (cases "if r_success r then r_result r else None")
  case (Some root)
  have "(if r_success r then r_result r else None) = Some root" by (rule Some)
  then show ?thesis
    using assms unfolding activate_response_parse_def by (auto simp: bind_eq_Some_conv Let_def case_prod_beta split: option.split_asm if_splits)
qed (use assms in \<open>simp add: activate_response_parse_def\<close>)

lemma activate_keeps:
  assumes "client_activate_process T token c = Some (rt, c')"
  shows "cl_act c' = cl_act c \<and> cl_activated c' = cl_activated c"
proof -
  obtain dev where dev: "cached_devid T (cl_files c) = Some dev" using assms by (auto simp: client_activate_process_def bind_eq_Some_conv)
  obtain r response where req: "x_activate T token dev = (r, response)" by fastforce
  show ?thesis
  proof (cases "r = OPRT_OK")
    case True
    then obtain del where "activate_response_parse T response (iot_dispatch_event (Event_Timestamp_Sync (r_time response)) c) = Some (rt, del, c')"
      using assms dev req by (auto simp: client_activate_process_def bind_eq_Some_conv split: if_splits)
    from response_parse_keeps [OF this] show ?thesis by (simp add: iot_dispatch_event_def)
  qed (use assms dev req in \<open>auto simp: client_activate_process_def\<close>)
qed

text \<open>What a turn of the activation that succeeds has done.\<close>

lemma activating_succeeds:
  assumes "turn_activating T c = Some (rt, c')" "cl_activated c'" "\<not> cl_activated c"
  obtains c2 c3 c4 s where "activated_data_read T c2 = Some (OPRT_OK, c3)" "cl_act c2 = cl_act c" "schema_instance_create T c3 = Some (Some s, c4)"
    "cl_act c' = cl_act c3" "cl_schema c' = Some s" "\<And>k. k \<notin> {''endpoint.cert'', ''endpoint.domain''} \<Longrightarrow> cl_files c' k = cl_files c2 k" "cl_files c3 = cl_files c2"
proof -
  obtain b r1 c1 where s1: "cl_binding c = Some b" "client_activate_process T (b_token b) c = Some (r1, c1)"
    using assms(1) by (auto simp: turn_activating_def bind_eq_Some_conv)
  have c1: "cl_act c1 = cl_act c" "cl_activated c1 = cl_activated c" using activate_keeps [OF s1(2)] by simp_all
  have r1: "r1 = OPRT_OK" using assms(1-3) s1 c1 by (auto simp: turn_activating_def split: if_splits)
  define c2 where "c2 = c1\<lparr>cl_binding := None\<rparr>"
  have c2: "cl_act c2 = cl_act c" "\<not> cl_activated c2" using c1 assms(3) by (simp_all add: c2_def)
  obtain rd c3 where rd: "activated_data_read T c2 = Some (rd, c3)"
    using assms(1) s1 r1 by (auto simp: turn_activating_def bind_eq_Some_conv c2_def)
  have c3: "\<not> cl_activated c3" "cl_files c3 = cl_files c2"
    using rd c2 by (auto simp: activated_data_read_def bind_eq_Some_conv Let_def split: sum.splits if_splits prod.splits)
  have rd0: "rd = OPRT_OK" using assms(1,2) s1 r1 rd c3 by (auto simp: turn_activating_def c2_def [symmetric] split: if_splits)
  obtain sc c4 where sc: "schema_instance_create T c3 = Some (sc, c4)" using assms(1) s1 r1 rd rd0 by (auto simp: turn_activating_def bind_eq_Some_conv c2_def [symmetric])
  have c4: "\<not> cl_activated c4" "cl_files c4 = cl_files c3" "cl_act c4 = cl_act c3"
    using sc c3 by (auto simp: schema_instance_create_def bind_eq_Some_conv split: sum.splits)
  obtain s where s: "sc = Some s" using assms(1,2) s1 r1 rd rd0 sc c4 by (cases sc) (auto simp: turn_activating_def c2_def [symmetric])
  obtain r5 c5 where e: "endpoint_save T (c4\<lparr>cl_schema := Some s\<rparr>) = Some (r5, c5)"
    using assms(1) s1 r1 rd rd0 sc s by (auto simp: turn_activating_def bind_eq_Some_conv c2_def [symmetric])
  have c': "c' = iot_dispatch_event Event_Activated (c5\<lparr>cl_activated := True, cl_next := STATE_STARTUP_UPDATE\<rparr>)"
    using assms(1) s1 r1 rd rd0 sc s e by (simp add: turn_activating_def c2_def [symmetric])
  obtain fs where fs: "c5 = c4\<lparr>cl_schema := Some s, cl_files := fs\<rparr>" "\<And>k. k \<notin> {''endpoint.cert'', ''endpoint.domain''} \<Longrightarrow> fs k = cl_files c4 k"
    using endpoint_save_effect [OF e] by auto
  show thesis
    by (rule that [of c2 c3 s c4]) (use rd rd0 c2 sc s fs c4 c3 in \<open>simp_all add: c' iot_dispatch_event_def\<close>)
qed

text \<open>The client as the initialisation has cleared it, before it reads its files.\<close>

definition cleared :: "turn_env \<Rightarrow> string option \<Rightarrow> tuya_client \<Rightarrow> tuya_client" where
  "cleared T modules d = d\<lparr>cl_state := STATE_IDLE, cl_next := STATE_IDLE, cl_status := TUYA_STATUS_UNACTIVE, cl_activated := False, cl_act := act_zero, cl_binding := None,
                cl_schema := None, cl_token_result := OPRT_OK, cl_sem := 0, cl_ports := [], cl_modules := modules, cl_matop := False, cl_timer := False,
                cl_mgr := snd (tuya_endpoint_init (x_kv T) (cl_files d) (cl_mgr d))\<rparr>"

lemma cleared_fields [simp]:
  "cl_files (cleared T modules d) = cl_files d" "cl_act (cleared T modules d) = act_zero" "\<not> cl_activated (cleared T modules d)"
  "cl_state (cleared T modules d) = STATE_IDLE" "cl_next (cleared T modules d) = STATE_IDLE" "a_timezone act_zero = []"
  by (simp_all add: cleared_def act_zero_def)

lemma init_unread:
  assumes "activated_data_read T (cleared T modules d) = Some (rt, d2)" "rt \<noteq> OPRT_OK"
  shows "tuya_iot_init T timer modules d = Some (timer, context_zero, d2)"
  using assms by (simp add: tuya_iot_init_def cleared_def [symmetric])

lemma init_read:
  assumes "activated_data_read T (cleared T modules d) = Some (OPRT_OK, d2)" "schema_instance_create T d2 = Some (Some s, d3)"
  shows "tuya_iot_init T timer modules d = Some (timer, context_zero, d3\<lparr>cl_schema := Some s, cl_activated := True\<rparr>)"
  using assms by (simp add: tuya_iot_init_def cleared_def [symmetric])

text \<open>
  C10. An activation survives a restart exactly when its data have a time zone. After the turn that activates the client, a start with the files of the activation and of the schema as that
  turn has left them finds the client activated, with the same device, keys and schema, ready to be started, if the stored data have a time zone. If they have none, it does not find the client activated. The first
  activation of a process only succeeds with a time zone; one after a reset succeeds also without, with the zone that the process still knows.
\<close>

theorem activation_survives_restart:
  assumes "turn_activating T c = Some (rt, c')" "cl_activated c'" "\<not> cl_activated c"
    and "x_ns T \<notin> {''endpoint.cert'', ''endpoint.domain''}" "a_schemaId (cl_act c') \<notin> {''endpoint.cert'', ''endpoint.domain''}"
    and "cl_files d (x_ns T) = cl_files c' (x_ns T)" "cl_files d (a_schemaId (cl_act c')) = cl_files c' (a_schemaId (cl_act c'))"
  shows "(cl_act c = act_zero \<longrightarrow> zone_stored T (cl_files c'))
    \<and> (\<exists>d'. tuya_iot_init T timer modules d = Some (timer, context_zero, d')
        \<and> (if zone_stored T (cl_files c')
           then cl_activated d' \<and> cl_act d' = cl_act c' \<and> cl_schema d' = cl_schema c' \<and> cl_state d' = STATE_IDLE \<and> cl_next d' = STATE_IDLE \<and> fst (tuya_iot_start d') = OPRT_OK
           else \<not> cl_activated d'))"
proof -
  obtain c2 c3 c4 s where a: "activated_data_read T c2 = Some (OPRT_OK, c3)" "cl_act c2 = cl_act c" "schema_instance_create T c3 = Some (Some s, c4)"
    "cl_act c' = cl_act c3" "cl_schema c' = Some s" and f: "\<And>k. k \<notin> {''endpoint.cert'', ''endpoint.domain''} \<Longrightarrow> cl_files c' k = cl_files c2 k" "cl_files c3 = cl_files c2"
    using activating_succeeds [OF assms(1-3)] by metis
  have z: "zone_stored T (cl_files c') \<longleftrightarrow> zone_stored T (cl_files c2)" using f(1) assms(4) by (intro zone_frame) blast
  have ns: "cl_files (cleared T modules d) (x_ns T) = cl_files c2 (x_ns T)" using assms(4,6) f(1) by simp
  have first: "zone_stored T (cl_files c')" if "cl_act c = act_zero"
    using read_zoneless [OF a(1), of c2] a(1,2) that z by auto
  show ?thesis
  proof (cases "zone_stored T (cl_files c')")
    case True
    then obtain clock where r: "activated_data_read T (cleared T modules d) = Some (OPRT_OK, (cleared T modules d)\<lparr>cl_act := cl_act c3, cl_clock := clock\<rparr>)"
      using read_again [OF a(1) ns] z by blast
    have "cl_files ((cleared T modules d)\<lparr>cl_act := cl_act c3, cl_clock := clock\<rparr>) (a_schemaId (cl_act c3)) = cl_files c3 (a_schemaId (cl_act c3))"
      using assms(5,7) f a(4) by simp
    then obtain mgr where m: "schema_instance_create T ((cleared T modules d)\<lparr>cl_act := cl_act c3, cl_clock := clock\<rparr>) =
        Some (Some s, (cleared T modules d)\<lparr>cl_act := cl_act c3, cl_clock := clock, cl_dsmgr := mgr\<rparr>)"
      using schema_again(1) [OF a(3), of "(cleared T modules d)\<lparr>cl_act := cl_act c3, cl_clock := clock\<rparr>"] by auto
    show ?thesis
      by (rule conjI, use first in blast, rule exI, rule conjI, rule init_read [OF r m]) (use True a(4,5) in \<open>simp add: tuya_iot_start_def\<close>)
  next
    case False
    then obtain act where r: "activated_data_read T (cleared T modules d) = Some (OPRT_INVALID_PARM, (cleared T modules d)\<lparr>cl_act := act\<rparr>)"
      using read_zoneless [OF a(1) ns] z by auto
    show ?thesis
      by (rule conjI, use first in blast, rule exI, rule conjI, rule init_unread [OF r]) (use False in simp_all)
  qed
qed

section \<open>The bus\<close>

lemma dispatch_quiet:
  "\<forall>s \<in> set subs. s_cb s \<notin> {Some LINK_TYPE_CHANGE_CB, Some TOKEN_ACTIVATE_EVT} \<Longrightarrow> snd (snd (dispatch_loop (client_cb b) subs rt s)) = s"
  by (induction subs arbitrary: rt s) (auto simp: client_cb_def case_prod_beta split: option.splits)

lemma publish_quiet:
  assumes "event_inv (cl_bus c)" "event_name_is_valid (Some name)" "\<forall>s \<in> set (event_subs (cl_bus c) name). s_cb s \<notin> {Some LINK_TYPE_CHANGE_CB, Some TOKEN_ACTIVATE_EVT}"
  shows "\<exists>bus. publish b name c = Some (c\<lparr>cl_bus := bus\<rparr>) \<and> event_inv bus"
proof -
  obtain rt bus s where p: "tal_event_publish (client_cb b) (Some name) True (cl_bus c) (Some c) = (rt, bus, s)" by (metis prod_cases3)
  have "s = Some c" using publish_subs(2) [OF assms(1,2) p] dispatch_quiet [OF assms(3), of b OPRT_OK "Some c"] by auto
  moreover have "event_inv bus" using publish_subs(1) [OF assms(1,2) p, of name] by simp
  ultimately show ?thesis using p by (intro exI [of _ bus]) (simp add: publish_def)
qed

lemma dispatch_crash:
  "(case s of None \<Rightarrow> True | Some c \<Rightarrow> cl_binding c = None) \<Longrightarrow> s = None \<or> (\<exists>x \<in> set subs. s_cb x = Some TOKEN_ACTIVATE_EVT) \<Longrightarrow>
   snd (snd (dispatch_loop (client_cb b) subs rt s)) = None"
proof (induction subs arbitrary: rt s)
  case (Cons x xs)
  define s1 where "s1 = snd (case s_cb x of None \<Rightarrow> (rt, s) | Some cb \<Rightarrow> client_cb b cb s)"
  have step: "snd (snd (dispatch_loop (client_cb b) (x # xs) rt s)) = snd (snd (dispatch_loop (client_cb b) xs (fst (case s_cb x of None \<Rightarrow> (rt, s) | Some cb \<Rightarrow> client_cb b cb s)) s1))"
    by (simp add: s1_def case_prod_beta)
  have "case s1 of None \<Rightarrow> True | Some c \<Rightarrow> cl_binding c = None"
    using Cons.prems(1) by (cases "s_cb x"; cases s) (auto simp: s1_def client_cb_def tuya_iot_link_type_change_cb_def tuya_iot_reconnect_def tuya_iot_token_activate_evt_def)
  moreover have "s1 = None \<or> (\<exists>y \<in> set xs. s_cb y = Some TOKEN_ACTIVATE_EVT)"
    using Cons.prems by (cases s) (auto simp: s1_def client_cb_def tuya_iot_token_activate_evt_def split: option.splits)
  ultimately show ?case unfolding step by (rule Cons.IH)
qed auto

lemma token_crash:
  assumes "event_inv (cl_bus c)" "cl_binding c = None" "\<exists>x \<in> set (event_subs (cl_bus c) EVENT_LINK_ACTIVATE). s_cb x = Some TOKEN_ACTIVATE_EVT"
  shows "publish b EVENT_LINK_ACTIVATE c = None"
proof -
  obtain rt bus s where p: "tal_event_publish (client_cb b) (Some EVENT_LINK_ACTIVATE) True (cl_bus c) (Some c) = (rt, bus, s)" by (metis prod_cases3)
  have "event_name_is_valid (Some EVENT_LINK_ACTIVATE)" by (simp add: event_name_is_valid_def)
  from publish_subs(2) [OF assms(1) this p] have "s = None" using dispatch_crash [of "Some c" _ b OPRT_OK] assms(2,3) by fastforce
  then show ?thesis using p by (simp add: publish_def)
qed

lemma load_subscribes:
  assumes "event_inv (cl_bus c)" "\<not> cl_activated c" "x_mem T"
  shows "event_inv (cl_bus (turn_data_load T c))" "\<exists>x \<in> set (event_subs (cl_bus (turn_data_load T c)) EVENT_LINK_ACTIVATE). s_cb x = Some TOKEN_ACTIVATE_EVT"
    and "cl_next (turn_data_load T c) = STATE_TOKEN_PENDING"
proof -
  obtain rt m where s: "tal_event_subscribe (Some EVENT_LINK_ACTIVATE) (Some ''iot'') (Some TOKEN_ACTIVATE_EVT) SUBSCRIBE_TYPE_ONETIME True (cl_bus c) = (rt, m)" by fastforce
  have v: "event_name_is_valid (Some EVENT_LINK_ACTIVATE)" "event_desc_is_valid (Some ''iot'')" by (simp_all add: event_name_is_valid_def event_desc_is_valid_def)
  note r = subscribe_subs [OF assms(1) v s, of EVENT_LINK_ACTIVATE]
  have b: "cl_bus (turn_data_load T c) = m" "cl_next (turn_data_load T c) = STATE_TOKEN_PENDING" using assms(2,3) s by (simp_all add: turn_data_load_def)
  show "event_inv (cl_bus (turn_data_load T c))" "cl_next (turn_data_load T c) = STATE_TOKEN_PENDING" using r b by simp_all
  have "\<exists>x \<in> set (event_subs m EVENT_LINK_ACTIVATE). s_cb x = Some TOKEN_ACTIVATE_EVT"
    using r by (auto simp: add_unique_def list_ex_iff same_subscribe_def)
  then show "\<exists>x \<in> set (event_subs (cl_bus (turn_data_load T c)) EVENT_LINK_ACTIVATE). s_cb x = Some TOKEN_ACTIVATE_EVT" by (simp add: b)
qed

lemma start_subscribes: "event_inv (cl_bus c) \<Longrightarrow> event_inv (cl_bus (turn_start c))"
proof -
  assume i: "event_inv (cl_bus c)"
  obtain rt m where s: "tal_event_subscribe (Some EVENT_LINK_TYPE_CHG) (Some ''iot'') (Some LINK_TYPE_CHANGE_CB) SUBSCRIBE_TYPE_NORMAL True (cl_bus c) = (rt, m)" by fastforce
  have v: "event_name_is_valid (Some EVENT_LINK_TYPE_CHG)" "event_desc_is_valid (Some ''iot'')" by (simp_all add: event_name_is_valid_def event_desc_is_valid_def)
  show ?thesis using subscribe_subs [OF i v s] s by (simp add: turn_start_def)
qed

section \<open>Resets\<close>

abbreviation quiet_reset :: "tuya_client \<Rightarrow> bool" where
  "quiet_reset c \<equiv> event_inv (cl_bus c) \<and> (\<forall>s \<in> set (event_subs (cl_bus c) EVENT_RESET). s_cb s \<notin> {Some LINK_TYPE_CHANGE_CB, Some TOKEN_ACTIVATE_EVT})"

lemma reset_name: "event_name_is_valid (Some EVENT_RESET)"
  by (simp add: event_name_is_valid_def)

text \<open>Stopping the message service leaves the client as it is, but for the note to the application.\<close>

lemma stop_quiet:
  assumes "lib_quiet M" "mq_client ctx"
  shows "\<exists>ctx'. mqtt_stop M ctx c = Some (ctx', if is_inited ctx then mqtt_client_disconnect_on c else c)"
proof -
  have "snd (mqtt_client_unsubscribe M t e) = e" for t e using assms(1) by (simp add: lib_quiet_def)
  then show ?thesis using assms(2)
    by (auto simp: mqtt_stop_def tuya_mqtt_stop_def tuya_mqtt_subscribe_message_callback_unregister_def lib_disconnect_def mqtt_client_disconnected_cb_def or_old_def case_prod_beta Let_def)
qed

text \<open>The turn of a reset: the files, and what remains of the client.\<close>

definition reset_files :: "turn_env \<Rightarrow> tuya_client \<Rightarrow> kv_files" where
  "reset_files T c = snd (tal_kv_set (x_kv T) (Some (storage_key (x_ns T) ''.devid'')) (Some (text_bytes (a_devid (cl_act c)))) (cl_files c))"

definition wiped :: "turn_env \<Rightarrow> tuya_client \<Rightarrow> kv_files \<Rightarrow> kv_files" where
  "wiped T c fs = tuya_endpoint_remove (snd (tal_kv_del (x_ns T) (snd (tal_kv_del (a_schemaId (cl_act c)) fs))))"

lemma del_files: "snd (tal_kv_del k fs) = fs(k := None)"
  by (auto simp: tal_kv_del_def)

lemma wiped_gone:
  "k \<in> {a_schemaId (cl_act c), x_ns T, ''region'', ''regist_key'', ''endpoint.cert'', ''endpoint.domain''} \<Longrightarrow> wiped T c fs k = None"
  "k \<notin> {a_schemaId (cl_act c), x_ns T, ''region'', ''regist_key'', ''endpoint.cert'', ''endpoint.domain''} \<Longrightarrow> wiped T c fs k = fs k"
  by (simp_all add: wiped_def tuya_endpoint_remove_def del_files) blast

lemma reset_turn:
  assumes "lib_quiet M" "cl_next c = STATE_RESET" "cl_activated c" "quiet_reset c" "is_connected ctx \<longrightarrow> mq_client ctx"
  obtains ctx' c' where "tuya_iot_yield M P T [] as (ctx, c) = Done (OPRT_OK, ctx', c')" "cl_next c' = STATE_RESTART" "\<not> cl_activated c'" "cl_act c' = cl_act c"
    "cl_files c' = wiped T c (reset_files T c)" "last (cl_out c') = Event_Reset_Complete"
proof -
  let ?c = "c\<lparr>cl_state := STATE_RESET\<rparr>"
  obtain ctx1 c1 where s: "(if cl_activated ?c \<and> tuya_mqtt_connected (Some ctx) then mqtt_stop M ctx ?c else Some (ctx, ?c)) = Some (ctx1, c1)"
    and c1: "cl_act c1 = cl_act c" "cl_files c1 = cl_files c" "cl_activated c1" "cl_bus c1 = cl_bus c"
  proof (cases "is_connected ctx")
    case True
    then obtain ctx1 where "mqtt_stop M ctx ?c = Some (ctx1, if is_inited ctx then mqtt_client_disconnect_on ?c else ?c)" using stop_quiet [OF assms(1), of ctx ?c] assms(5) by blast
    then show thesis using that [of ctx1 "if is_inited ctx then mqtt_client_disconnect_on ?c else ?c"] True assms(3)
      by (simp add: tuya_mqtt_connected_def mqtt_client_disconnect_on_def iot_dispatch_event_def)
  next
    case False
    then show thesis using that [of ctx ?c] assms(3) by (simp add: tuya_mqtt_connected_def)
  qed
  have f: "snd (tal_kv_set (x_kv T) (Some (storage_key (x_ns T) ''.devid'')) (Some (text_bytes (a_devid (cl_act c1)))) (cl_files c1)) = reset_files T c"
    by (simp add: reset_files_def c1)
  obtain bus where p: "publish no_binding EVENT_RESET (c1\<lparr>cl_files := reset_files T c\<rparr>) = Some (c1\<lparr>cl_files := reset_files T c, cl_bus := bus\<rparr>)"
    using publish_quiet [of "c1\<lparr>cl_files := reset_files T c\<rparr>" EVENT_RESET no_binding] assms(4) reset_name c1(4) by auto
  have "run_state_reset M T ctx ?c = Some (fst (tuya_iot_activated_data_remove T (c1\<lparr>cl_files := reset_files T c, cl_bus := bus\<rparr>)), mqtt_destroy T ctx1,
      snd (tuya_iot_activated_data_remove T (c1\<lparr>cl_files := reset_files T c, cl_bus := bus\<rparr>)))"
    using s p by (simp add: run_state_reset_def f Let_def case_prod_beta)
  then have "tuya_iot_yield M P T [] as (ctx, c) =
      Done (OPRT_OK, mqtt_destroy T ctx1, (snd (tuya_iot_activated_data_remove T (c1\<lparr>cl_files := reset_files T c, cl_bus := bus\<rparr>)))\<lparr>cl_next := STATE_RESTART\<rparr>)"
    using assms(2) by (simp add: yield_quiet turn_body_def)
  then show thesis
    by (rule that) (simp_all add: tuya_iot_activated_data_remove_def iot_dispatch_event_def wiped_def c1 Let_def)
qed

text \<open>
  C11. A reset forgets the activation and keeps the identifier: after the turn that resets an activated client, the files of the activation, of the schema and of the endpoint are gone,
  a start with these files finds no activation, and the identifier of the device is found again for the next one.
\<close>

theorem reset_forgets:
  assumes "lib_quiet M" "kv_ready (x_kv T)" "cl_next c = STATE_RESET" "cl_activated c" "quiet_reset c" "is_connected ctx \<longrightarrow> mq_client ctx"
    and "a_devid (cl_act c) \<noteq> []" "nul_free (a_devid (cl_act c))" "length (a_devid (cl_act c)) \<le> MAX_LENGTH_DEVICE_ID"
    and "storage_key (x_ns T) ''.devid'' \<notin> {a_schemaId (cl_act c), x_ns T, ''region'', ''regist_key'', ''endpoint.cert'', ''endpoint.domain''}"
  shows "\<exists>ctx' c'. tuya_iot_yield M P T [] as (ctx, c) = Done (OPRT_OK, ctx', c') \<and> cl_next c' = STATE_RESTART \<and> \<not> cl_activated c' \<and> last (cl_out c') = Event_Reset_Complete
     \<and> (\<forall>k \<in> {a_schemaId (cl_act c), x_ns T, ''region'', ''regist_key'', ''endpoint.cert'', ''endpoint.domain''}. cl_files c' k = None)
     \<and> cached_devid T (cl_files c') = Some (Some (a_devid (cl_act c)))
     \<and> (\<forall>d. cl_files d = cl_files c' \<longrightarrow> (\<exists>d'. tuya_iot_init T timer modules d = Some (timer, context_zero, d') \<and> \<not> cl_activated d'))"
proof -
  let ?key = "storage_key (x_ns T) ''.devid''"
  obtain ctx' c' where y: "tuya_iot_yield M P T [] as (ctx, c) = Done (OPRT_OK, ctx', c')" "cl_next c' = STATE_RESTART" "\<not> cl_activated c'"
    "cl_files c' = wiped T c (reset_files T c)" "last (cl_out c') = Event_Reset_Complete" using reset_turn [OF assms(1,3-6)] by metis
  have "kv_view (x_kv T) (reset_files T c) ?key = Some (text_bytes (a_devid (cl_act c)))"
    unfolding reset_files_def using kv.put_view [OF assms(2)] assms(7) by (simp add: text_bytes_def)
  moreover have "cl_files c' ?key = reset_files T c ?key" using wiped_gone(2) [OF assms(10)] y(4) by simp
  ultimately have "tal_kv_get (x_kv T) (Some ?key) (cl_files c') = Inr (text_bytes (a_devid (cl_act c)))"
    using get_frame [of "cl_files c'" ?key "reset_files T c" "x_kv T"] view_get by fastforce
  then have dev: "cached_devid T (cl_files c') = Some (Some (a_devid (cl_act c)))"
    using assms(8,9) c_string_text [of "a_devid (cl_act c)"] by (simp add: cached_devid_def nul_free_def text_bytes_def)
  have gone: "cl_files c' k = None" if "k \<in> {a_schemaId (cl_act c), x_ns T, ''region'', ''regist_key'', ''endpoint.cert'', ''endpoint.domain''}" for k
    using wiped_gone(1) [OF that] y(4) by simp
  have "\<exists>d'. tuya_iot_init T timer modules d = Some (timer, context_zero, d') \<and> \<not> cl_activated d'" if "cl_files d = cl_files c'" for d
  proof -
    have "tal_kv_get (x_kv T) (Some (x_ns T)) (cl_files d) = Inl LFS_ERR_NOENT" using gone [of "x_ns T"] that by (simp add: tal_kv_get_def)
    then show ?thesis by (simp add: tuya_iot_init_def activated_data_read_def Let_def)
  qed
  then have boot: "\<forall>d. cl_files d = cl_files c' \<longrightarrow> (\<exists>d'. tuya_iot_init T timer modules d = Some (timer, context_zero, d') \<and> \<not> cl_activated d')"
    by (intro allI impI)
  have "\<forall>k \<in> {a_schemaId (cl_act c), x_ns T, ''region'', ''regist_key'', ''endpoint.cert'', ''endpoint.domain''}. cl_files c' k = None" using gone by (intro ballI)
  then show ?thesis using y dev boot by (intro exI [of _ ctx'] exI [of _ c'] conjI)
qed

text \<open>
  C12. A reset that comes when a token has just been accepted breaks the next binding: its signal stays in the semaphore, the client restarts, does not wait for a token, and frees the memory for it; it
  goes on waiting all the same, and when the token arrives it is copied through a null pointer.
\<close>

theorem stale_reset_crashes:
  assumes "cl_state c = STATE_TOKEN_PENDING" "\<not> cl_activated c" "x_mem T" "quiet_reset c"
  shows "\<exists>ctx' c'. run_turns M P (replicate 5 (T, [], [])) (ctx, snd (tuya_iot_reset T c)) = Done (ctx', c')
     \<and> cl_next c' = STATE_TOKEN_PENDING \<and> cl_binding c' = None \<and> (\<forall>b. tuya_iot_yield M P T [Rq_Token b] [] (ctx', c') = Crash)"
proof -
  define c1 where "c1 = snd (tuya_iot_reset T c)"
  have f1: "cl_next c1 = STATE_RESET" "\<not> cl_activated c1" "cl_sem c1 = 1" "cl_token_result c1 = OPRT_COM_ERROR" "cl_bus c1 = cl_bus c" "cl_ports c1 = cl_ports c"
    using assms(1,2) by (simp_all add: c1_def tuya_iot_reset_def iot_dispatch_event_def Let_def)
  obtain bus where p: "publish no_binding EVENT_RESET (c1\<lparr>cl_state := STATE_RESET, cl_files := reset_files T c1\<rparr>) = Some (c1\<lparr>cl_state := STATE_RESET, cl_files := reset_files T c1, cl_bus := bus\<rparr>)"
    and bus: "event_inv bus"
    using publish_quiet [of "c1\<lparr>cl_state := STATE_RESET, cl_files := reset_files T c1\<rparr>" EVENT_RESET no_binding] assms(4) reset_name f1(5) by auto
  define c2 where "c2 = c1\<lparr>cl_state := STATE_RESET, cl_files := reset_files T c1, cl_bus := bus, cl_next := STATE_RESTART\<rparr>"
  define c3 where "c3 = c2\<lparr>cl_state := STATE_RESTART, cl_next := STATE_START\<rparr>"
  define c4 where "c4 = turn_start (c3\<lparr>cl_state := STATE_START\<rparr>)"
  define c5 where "c5 = turn_data_load T (c4\<lparr>cl_state := STATE_DATA_LOAD\<rparr>)"
  define c6 where "c6 = c5\<lparr>cl_state := STATE_TOKEN_PENDING, cl_out := cl_out c5 @ [Event_Bind_Start] @ map Call_Token_Port (cl_ports c5), cl_sem := 0, cl_binding := None\<rparr>"
  have f4: "cl_next c4 = STATE_DATA_LOAD" "\<not> cl_activated c4" "cl_sem c4 = 1" "cl_token_result c4 = OPRT_COM_ERROR"
    by (simp_all add: c4_def c3_def c2_def turn_start_def f1)
  have i4: "event_inv (cl_bus c4)" unfolding c4_def by (rule start_subscribes) (simp add: c3_def c2_def bus)
  have f5: "event_inv (cl_bus c5)" "\<exists>x \<in> set (event_subs (cl_bus c5) EVENT_LINK_ACTIVATE). s_cb x = Some TOKEN_ACTIVATE_EVT" "cl_next c5 = STATE_TOKEN_PENDING"
    unfolding c5_def using load_subscribes [of "c4\<lparr>cl_state := STATE_DATA_LOAD\<rparr>" T] i4 f4(2) assms(3) by simp_all
  have g5: "cl_sem c5 = 1" "cl_token_result c5 = OPRT_COM_ERROR" using f4 assms(3) by (simp_all add: c5_def turn_data_load_def)
  have "tuya_iot_yield M P T [] [] (ctx, c1) = Done (OPRT_OK, mqtt_destroy T ctx, c2)"
    using p f1 by (simp add: yield_quiet turn_body_def run_state_reset_def tuya_iot_activated_data_remove_def c2_def reset_files_def)
  moreover have "tuya_iot_yield M P T [] [] (mqtt_destroy T ctx, c2) = Done (OPRT_OK, mqtt_destroy T ctx, c3)"
    by (simp add: yield_quiet turn_body_def c3_def c2_def)
  moreover have "tuya_iot_yield M P T [] [] (mqtt_destroy T ctx, c3) = Done (OPRT_OK, mqtt_destroy T ctx, c4)"
    by (simp add: yield_quiet turn_body_def c4_def c3_def)
  moreover have "tuya_iot_yield M P T [] [] (mqtt_destroy T ctx, c4) = Done (OPRT_OK, mqtt_destroy T ctx, c5)"
    using f4 by (simp add: yield_quiet turn_body_def c5_def)
  moreover have "tuya_iot_yield M P T [] [] (mqtt_destroy T ctx, c5) = Done (OPRT_OK, mqtt_destroy T ctx, c6)"
    using f5(3) g5 by (simp add: tuya_iot_yield_def turn_token_pending_def tuya_iot_token_get_pending_def iot_dispatch_event_def c6_def)
  moreover have "tuya_iot_yield M P T [Rq_Token b] [] (mqtt_destroy T ctx, c6) = Crash" for b
  proof -
    have "publish b EVENT_LINK_ACTIVATE (c6\<lparr>cl_state := STATE_TOKEN_PENDING, cl_out := out\<rparr>) = None" for out
      using f5 by (intro token_crash) (simp_all add: c6_def)
    then show ?thesis using f5(3) by (simp add: tuya_iot_yield_def turn_token_pending_def tuya_iot_token_get_pending_def iot_dispatch_event_def c6_def)
  qed
  ultimately show ?thesis using f5(3) by (simp add: eval_nat_numeral c1_def [symmetric]) (simp add: c6_def)
qed

text \<open>
  Where a reset is lost: when it is asked for while a turn is under way in one of the states that name their successor unconditionally, or in one of those that wait for the network or load
  their data and succeed, the turn overwrites the request, and the client goes on as if nothing had been asked.
\<close>

theorem reset_request_lost:
  assumes "tuya_iot_yield M P T [Rq_Reset] as (ctx, c) = Done (rt, ctx', c')"
    and "cl_next c \<in> {STATE_START, STATE_RESTART, STATE_RESET, STATE_STOP, STATE_STARTUP_UPDATE, STATE_MQTT_RECONNECT, STATE_ENDPOINT_GET}
       \<or> cl_next c \<in> {STATE_NETWORK_CHECK, STATE_NETWORK_RECONNECT} \<and> x_net T \<or> cl_next c = STATE_DATA_LOAD \<and> (cl_activated c \<or> x_mem T)"
  shows "cl_next c' \<noteq> STATE_RESET"
proof -
  let ?c = "snd (tuya_iot_reset T (c\<lparr>cl_state := cl_next c\<rparr>))"
  have s: "cl_state ?c = cl_next c" "cl_activated ?c = cl_activated c" by (simp_all add: tuya_iot_reset_def iot_dispatch_event_def Let_def)
  have n: "cl_next c \<noteq> STATE_TOKEN_PENDING" using assms(2) by auto
  have b: "turn_body M P T as ctx ?c = Some (rt, ctx', c')"
    using assms(1) n by (simp add: tuya_iot_yield_def finish_def split: option.splits)
  from assms(2) consider "cl_next c = STATE_START" | "cl_next c = STATE_RESTART" | "cl_next c = STATE_RESET" | "cl_next c = STATE_STOP" | "cl_next c = STATE_STARTUP_UPDATE"
    | "cl_next c = STATE_MQTT_RECONNECT" | "cl_next c = STATE_ENDPOINT_GET" | "cl_next c = STATE_NETWORK_CHECK" "x_net T" | "cl_next c = STATE_NETWORK_RECONNECT" "x_net T"
    | "cl_next c = STATE_DATA_LOAD" "cl_activated c \<or> x_mem T" by auto
  then show ?thesis
  proof cases
    case 1 then show ?thesis using b s by (auto simp: turn_body_def turn_start_def)
  next
    case 2 then show ?thesis using b s by (auto simp: turn_body_def)
  next
    case 3 then show ?thesis using b s by (auto simp: turn_body_def bind_eq_Some_conv)
  next
    case 4 then show ?thesis using b s by (auto simp: turn_body_def bind_eq_Some_conv)
  next
    case 5 then show ?thesis using b s by (auto simp: turn_body_def bind_eq_Some_conv)
  next
    case 6 then show ?thesis using b s by (auto simp: turn_body_def turn_mqtt_reconnect_def bind_eq_Some_conv split: if_splits)
  next
    case 7 then show ?thesis using b s by (auto simp: turn_body_def turn_endpoint_get_def bind_eq_Some_conv Let_def case_prod_beta split: if_splits)
  next
    case 8 then show ?thesis using b s by (auto simp: turn_body_def turn_network_check_def)
  next
    case 9 then show ?thesis using b s by (auto simp: turn_body_def turn_network_reconnect_def)
  next
    case 10 then show ?thesis using b s by (auto simp: turn_body_def turn_data_load_def)
  qed
qed

section \<open>Failures\<close>

text \<open>The data of an activation without a time zone are read, but reading them fails.\<close>

lemma read_without_zone:
  assumes "a_timezone (cl_act c) = []" "tal_kv_get (x_kv T) (Some (x_ns T)) (cl_files c) = Inr v" "cjson_parse (x_json T) (c_string v) = Some root"
    and "get_item (x_json T) root ''stdTimeZone'' = None" "activate_json_string_parse (x_json T) (c_string v) act_zero = Some (OPRT_OK, act)"
  shows "activated_data_read T c = Some (OPRT_INVALID_PARM, c\<lparr>cl_act := act\<rparr>)"
proof -
  have "activate_json_string_parse (x_json T) (c_string v) (cl_act c) = Some (OPRT_OK, act\<lparr>a_timezone := []\<rparr>)" "a_timezone act = []"
    using parse_zone(2,3) [OF assms(5,3,4)] assms(1) by simp_all
  moreover from this(2) have "act\<lparr>a_timezone := []\<rparr> = act" by (cases act) simp
  ultimately show ?thesis using assms(2) by (simp add: activated_data_read_def no_time_zone)
qed

text \<open>
  C13. An activation whose data have no time zone is lost: the cloud has accepted it and its data are in the store, but every later
  start reads the data, fails at the empty time zone and asks for a new binding. When the process knows no time zone of an earlier activation, the turn of the activation itself ends in a reset.
\<close>

theorem activation_without_zone:
  assumes "cl_binding c = Some b" "client_activate_process T (b_token b) c = Some (OPRT_OK, c1)" "\<not> cl_activated c"
    and "tal_kv_get (x_kv T) (Some (x_ns T)) (cl_files c1) = Inr v" "cjson_parse (x_json T) (c_string v) = Some root"
    and "get_item (x_json T) root ''stdTimeZone'' = None" "activate_json_string_parse (x_json T) (c_string v) act_zero = Some (OPRT_OK, act)"
    and "cl_files d (x_ns T) = cl_files c1 (x_ns T)"
  shows "(a_timezone (cl_act c) = [] \<longrightarrow>
        (\<exists>c'. turn_activating T c = Some (OPRT_OK, c') \<and> cl_next c' = STATE_RESET \<and> \<not> cl_activated c' \<and> cl_files c' = cl_files c1))
    \<and> (\<exists>d'. tuya_iot_init T timer modules d = Some (timer, context_zero, d') \<and> \<not> cl_activated d' \<and> cl_act d' = act)"
proof -
  note k = activate_keeps [OF assms(2)]
  have "turn_activating T c = Some (OPRT_OK, c1\<lparr>cl_binding := None, cl_act := act, cl_next := STATE_RESET\<rparr>)" if "a_timezone (cl_act c) = []"
  proof -
    have "activated_data_read T (c1\<lparr>cl_binding := None\<rparr>) = Some (OPRT_INVALID_PARM, c1\<lparr>cl_binding := None, cl_act := act\<rparr>)"
      using read_without_zone [of "c1\<lparr>cl_binding := None\<rparr>" T v root act] that assms(4-7) k by simp
    then show ?thesis using assms(1,2) by (simp add: turn_activating_def)
  qed
  then have now: "a_timezone (cl_act c) = [] \<longrightarrow>
      (\<exists>c'. turn_activating T c = Some (OPRT_OK, c') \<and> cl_next c' = STATE_RESET \<and> \<not> cl_activated c' \<and> cl_files c' = cl_files c1)"
    using k assms(3) by (intro impI exI [of _ "c1\<lparr>cl_binding := None, cl_act := act, cl_next := STATE_RESET\<rparr>"]) simp
  have "tal_kv_get (x_kv T) (Some (x_ns T)) (cl_files (cleared T modules d)) = Inr v"
    using get_frame [of "cl_files d" "x_ns T" "cl_files c1" "x_kv T"] assms(4,8) by simp
  then have r: "activated_data_read T (cleared T modules d) = Some (OPRT_INVALID_PARM, (cleared T modules d)\<lparr>cl_act := act\<rparr>)"
    by (intro read_without_zone [OF _ _ assms(5-7)]) simp_all
  show ?thesis by (rule conjI [OF now], rule exI, rule conjI, rule init_unread [OF r]) simp_all
qed

text \<open>
  A message service that could not be initialised is never connected: its failure is not looked at, and without a request every turn tries to start it again.
\<close>

theorem failed_init_sticks:
  assumes "cl_next c = STATE_MQTT_CONNECT_START" "\<not> is_inited ctx"
  shows "run_turns M P (replicate n (T, [], [])) (ctx, c) = Done (ctx, if n = 0 then c else c\<lparr>cl_state := STATE_MQTT_CONNECT_START\<rparr>)"
  using assms
proof (induction n arbitrary: c)
  case (Suc n)
  have "tuya_iot_yield M P T [] [] (ctx, c) = Done (OPRT_OK, ctx, c\<lparr>cl_state := STATE_MQTT_CONNECT_START\<rparr>)"
    using Suc.prems by (simp add: yield_quiet turn_body_def run_state_mqtt_connect_start_def tuya_mqtt_start_def or_old_def)
  then show ?case using Suc.IH [of "c\<lparr>cl_state := STATE_MQTT_CONNECT_START\<rparr>"] Suc.prems by simp
qed simp

text \<open>
  A client that has been stopped keeps the mark that its message service is initialised, but not the client of the library: a second stop goes through a null pointer.
\<close>

theorem second_stop_crashes:
  assumes "lib_quiet M" "cl_next c = STATE_STOP" "is_inited ctx" "mq_client ctx"
  shows "\<exists>ctx' c'. tuya_iot_yield M P T [] as (ctx, c) = Done (OPRT_OK, ctx', c') \<and> cl_next c' = STATE_IDLE
     \<and> tuya_iot_yield M P T [] as (ctx', snd (tuya_iot_stop c')) = Crash"
proof -
  let ?c = "c\<lparr>cl_state := STATE_STOP\<rparr>"
  obtain ctx1 where s: "mqtt_stop M ctx ?c = Some (ctx1, mqtt_client_disconnect_on ?c)" using stop_quiet [OF assms(1,4), of ?c] assms(3) by auto
  have i: "is_inited ctx1" using s assms(3)
    by (auto simp: mqtt_stop_def tuya_mqtt_stop_def tuya_mqtt_subscribe_message_callback_unregister_def lib_disconnect_def mqtt_client_disconnected_cb_def or_old_def
        case_prod_beta Let_def split: if_splits)
  have d: "is_inited (mqtt_destroy T ctx1) \<and> \<not> mq_client (mqtt_destroy T ctx1)"
    using i by (simp add: mqtt_destroy_def tuya_mqtt_destory_def tuya_mqtt_protocol_unregister_all_def or_old_def)
  have "tuya_iot_yield M P T [] as (ctx, c) = Done (OPRT_OK, mqtt_destroy T ctx1, (mqtt_client_disconnect_on ?c)\<lparr>cl_next := STATE_IDLE\<rparr>)"
    using assms(2) s by (simp add: yield_quiet turn_body_def)
  moreover have "tuya_iot_yield M P T [] as (mqtt_destroy T ctx1, snd (tuya_iot_stop e)) = Crash" for e
    using d by (simp add: yield_quiet tuya_iot_stop_def turn_body_def mqtt_stop_def)
  ultimately show ?thesis by simp
qed

section \<open>A boxing bag\<close>

definition bag_member :: "(string option \<times> cjson) list" where
  "bag_member = [(Some ''devId'', text_item ''bag1''), (Some ''secKey'', text_item ''0123456789abcdef''), (Some ''localKey'', text_item ''fedcba9876543210''),
     (Some ''schemaId'', text_item ''s1'')]"

definition zone_member :: "(string option \<times> cjson) list" where
  "zone_member = [(Some ''stdTimeZone'', text_item ''+08:00'')]"

definition node_item :: cjson where
  "node_item = CJson CJ_Object None 0 [(Some ''id'', CJson CJ_Number None 5 []), (Some ''mode'', text_item ''rw''),
     (Some ''property'', CJson CJ_Object None 0 [(Some ''type'', text_item ''bool'')])]"

definition node_text :: string where
  "node_text = ''{\"id\":5,\"mode\":\"rw\",\"property\":{\"type\":\"bool\"}}''"

definition zoned_text :: string where
  "zoned_text = ''{\"devId\":\"bag1\",\"secKey\":\"0123456789abcdef\",\"localKey\":\"fedcba9876543210\",\"schemaId\":\"s1\",\"stdTimeZone\":\"+08:00\"}''"

definition zoneless_text :: string where
  "zoneless_text = ''{\"devId\":\"bag1\",\"secKey\":\"0123456789abcdef\",\"localKey\":\"fedcba9876543210\",\"schemaId\":\"s1\"}''"

definition bag_json :: parse_env where
  "bag_json = ep_json_demo\<lparr>cjson_parse := (\<lambda>t.
     if t = zoned_text then Some (CJson CJ_Object None 0 (bag_member @ zone_member)) else if t = zoneless_text then Some (CJson CJ_Object None 0 bag_member)
     else if t = node_text then Some node_item else cjson_parse ep_json_demo t)\<rparr>"

definition bag_answer :: "(string option \<times> cjson) list \<Rightarrow> cjson" where
  "bag_answer ms = CJson CJ_Object None 0 ((Some ''schema'', text_item (''['' @ node_text @ '']'')) # ms)"

definition bag_turn :: "(string option \<times> cjson) list \<Rightarrow> string \<Rightarrow> turn_env" where
  "bag_turn ms txt = \<lparr>x_ep = ep_env_demo\<lparr>ep_json := bag_json\<rparr>, x_dns = dns_down, x_ns = ''bag_kv'', x_sw_ver = ''1.0.0'', x_net = True, x_mem = True, x_md5 = (\<lambda>_. replicate 16 0),
     x_new_client = True, x_init_ok = True, x_deinit_ok = True, x_connect = MQTT_STATUS_SUCCESS,
     x_activate = (\<lambda>token dev. (OPRT_OK, \<lparr>r_success = True, r_time = 1700000000, r_result = Some (bag_answer ms)\<rparr>)), x_print = (\<lambda>_. Some txt),
     x_sync_factory = False, x_version_ret = OPRT_OK, x_matop_reset = OPRT_OK, x_mutex = OPRT_OK\<rparr>"

abbreviation zoned_turn :: turn_env where "zoned_turn \<equiv> bag_turn (bag_member @ zone_member) zoned_text"
abbreviation zoneless_turn :: turn_env where "zoneless_turn \<equiv> bag_turn bag_member zoneless_text"

definition bag_act :: activated_data where
  "bag_act = \<lparr>a_devid = ''bag1'', a_seckey = ''0123456789abcdef'', a_localkey = ''fedcba9876543210'', a_schemaId = ''s1'', a_timezone = ''+08:00''\<rparr>"

definition bag_client :: "run_state \<Rightarrow> kv_files \<Rightarrow> tuya_client" where
  "bag_client st fs = \<lparr>cl_state = st, cl_next = st, cl_status = TUYA_STATUS_UNACTIVE, cl_activated = False, cl_act = act_zero, cl_binding = Some no_binding, cl_schema = None,
     cl_dsmgr = \<lparr>schema_num = 0, schema_list = [None]\<rparr>, cl_token_result = OPRT_OK, cl_sem = 0, cl_ports = [], cl_modules = None, cl_matop = False, cl_timer = False,
     cl_bus = event_manage0, cl_files = fs, cl_mgr = mgr_zero\<lparr>em_endpoint := ep_demo\<rparr>, cl_clock = time_demo, cl_out = []\<rparr>"

definition bag_lib :: "(nat, tuya_client) mqtt_env" where
  "bag_lib = \<lparr>mqtt_client_publish = (\<lambda>t p q e. (7, e)), mqtt_client_subscribe = (\<lambda>t e. (3, e)), mqtt_client_unsubscribe = (\<lambda>t e. (4, e)),
     posix_now = (\<lambda>e. 100), call_notify = (\<lambda>r c e. Some e)\<rparr>"

definition bag_packer :: packer where
  "bag_packer = \<lparr>pk_cipher = xor_cipher, pk_alloc = (\<lambda>_. True), pk_env = \<lparr>posix_time = 1000, nonce_bytes = replicate 12 48, serial_rnd = 9\<rparr>, pk_serial = 1\<rparr>"

lemma bag_lib_quiet: "lib_quiet bag_lib"
  by (simp add: lib_quiet_def bag_lib_def)

lemma bag_turn_simps [simp]:
  "x_kv (bag_turn ms txt) = demo_kv" "x_json (bag_turn ms txt) = bag_json" "x_ns (bag_turn ms txt) = ''bag_kv''" "x_net (bag_turn ms txt)" "x_mem (bag_turn ms txt)"
  "x_new_client (bag_turn ms txt)" "x_init_ok (bag_turn ms txt)" "x_connect (bag_turn ms txt) = MQTT_STATUS_SUCCESS" "x_sw_ver (bag_turn ms txt) = ''1.0.0''"
  "x_ep (bag_turn ms txt) = ep_env_demo\<lparr>ep_json := bag_json\<rparr>" "x_print (bag_turn ms txt) j = Some txt" "x_mutex (bag_turn ms txt) = OPRT_OK" "ep_kv ep_env_demo = demo_kv"
  by (simp_all add: bag_turn_def ep_env_demo_def)

lemma bag_client_simps [simp]:
  "cl_state (bag_client st fs) = st" "cl_next (bag_client st fs) = st" "\<not> cl_activated (bag_client st fs)" "cl_act (bag_client st fs) = act_zero"
  "cl_binding (bag_client st fs) = Some no_binding" "cl_files (bag_client st fs) = fs" "cl_bus (bag_client st fs) = event_manage0" "cl_modules (bag_client st fs) = None"
  "cl_dsmgr (bag_client st fs) = \<lparr>schema_num = 0, schema_list = [None]\<rparr>" "cl_mgr (bag_client st fs) = mgr_zero\<lparr>em_endpoint := ep_demo\<rparr>"
  by (simp_all add: bag_client_def)

lemma bag_texts:
  "zoned_text \<noteq> zoneless_text" "node_text \<noteq> zoned_text" "node_text \<noteq> zoneless_text"
  by (simp_all add: zoned_text_def zoneless_text_def node_text_def)

lemma bag_domain: "record_ok (\<lambda>_. []) (\<lambda>_. []) bag_json (domain_db ep_demo)"
proof (rule domain_record [OF ep_demo_ok(1,2)])
  show "cjson_parse bag_json (json_text (\<lambda>_. []) (domain_db ep_demo)) = Some domain_item"
    unfolding ep_demo_text by (simp add: bag_json_def ep_json_demo_def zoned_text_def zoneless_text_def node_text_def)
  show "\<forall>x \<in> set (domain_db ep_demo). \<exists>j. get_item bag_json domain_item (kv_name x) = Some j \<and> item_ok (\<lambda>_. []) (kv_val x) j"
    by (simp add: bag_json_def ep_json_demo_def domain_item_def domain_db_def ep_demo_def item_ok_def text_item_def)
qed

lemma bag_versions: "versions_text None ''1.0.0'' \<noteq> None"
  by (simp add: versions_text_def quoted_def)

theorem client_connects_witness:
  "\<exists>fs ctx' c'. run_turns bag_lib bag_packer (replicate 6 (zoned_turn, [], [])) (context_zero, (bag_client STATE_START fs)\<lparr>cl_activated := True, cl_act := bag_act\<rparr>) = Done (ctx', c')
     \<and> cl_next c' = STATE_MQTT_YIELD \<and> cl_status c' = TUYA_STATUS_MQTT_CONNECTED \<and> is_connected ctx' \<and> cl_out c' = [Event_Binded_Notify, Event_Mqtt_Connected]"
proof -
  let ?E = "ep_env_demo\<lparr>ep_json := bag_json\<rparr>"
  have E: "ep_kv ?E = demo_kv" "ep_enc ?E = (\<lambda>_. [])" "ep_dec ?E = (\<lambda>_. [])" "ep_json ?E = bag_json" by (simp_all add: ep_env_demo_def)
  have r: "record_ok (ep_enc ?E) (ep_dec ?E) (ep_json ?E) (domain_db ep_demo)" unfolding E by (rule bag_domain)
  have c: "ep_cert ep_demo = Cert_Mem [1, 2]" by (simp add: ep_demo_def)
  have k: "kv_ready (ep_kv ?E)" unfolding E by (rule demo_kv_ready)
  obtain fs where v: "kv_view demo_kv fs = (kv_view demo_kv Map.empty)(''region'' \<mapsto> text_bytes ''EU'', ''regist_key'' \<mapsto> text_bytes ''pro'', ''endpoint.cert'' \<mapsto> [1, 2],
        ''endpoint.domain'' \<mapsto> text_bytes (json_text (\<lambda>_. []) (domain_db ep_demo)))"
    by (rule endpoint_stored [OF k _ _ _ _ _ c r, of "''EU''" "''pro''" mgr_zero Map.empty]) (use E in simp_all)
  have g: "tuya_endpoint_cert_get demo_kv fs ep_demo = (OPRT_OK, ep_demo)" "tuya_endpoint_domain_get ?E fs ep_demo = Some (OPRT_OK, ep_demo)"
    using endpoint_read(2,3) [of ?E fs "''EU''" "''pro''" "[1, 2]" ep_demo ep_demo] r unfolding E by (simp_all add: v nul_free_def) (simp_all add: ep_demo_def)
  show ?thesis
    using client_connects [of bag_lib "(bag_client STATE_START fs)\<lparr>cl_activated := True, cl_act := bag_act\<rparr>" zoned_turn ep_demo ep_demo bag_packer context_zero] g bag_versions
    by (intro exI [of _ fs]) (auto simp: bag_lib_quiet mgr_zero_def bag_act_def bag_client_def)
qed

theorem reset_forgets_witness:
  "\<exists>ctx' c'. tuya_iot_yield bag_lib bag_packer zoned_turn [] [] (context_zero, (bag_client STATE_RESET Map.empty)\<lparr>cl_activated := True, cl_act := bag_act\<rparr>) = Done (OPRT_OK, ctx', c')
     \<and> cl_next c' = STATE_RESTART \<and> cached_devid zoned_turn (cl_files c') = Some (Some ''bag1'')"
proof -
  let ?c = "(bag_client STATE_RESET Map.empty)\<lparr>cl_activated := True, cl_act := bag_act\<rparr>"
  have "\<not> is_connected context_zero" by (simp add: context_zero_def)
  moreover have "a_devid bag_act = ''bag1''" "a_schemaId bag_act = ''s1''" by (simp_all add: bag_act_def)
  ultimately show ?thesis
    using reset_forgets [of bag_lib zoned_turn ?c context_zero bag_packer "[]" OPRT_OK None]
    by (auto simp: bag_lib_quiet demo_kv_ready event_manage0_inv event_manage0_subs nul_free_def storage_key_def)
qed

theorem stale_reset_crashes_witness:
  "\<exists>ctx' c'. run_turns bag_lib bag_packer (replicate 5 (zoned_turn, [], [])) (context_zero, snd (tuya_iot_reset zoned_turn (bag_client STATE_TOKEN_PENDING Map.empty))) = Done (ctx', c')
     \<and> tuya_iot_yield bag_lib bag_packer zoned_turn [Rq_Token no_binding] [] (ctx', c') = Crash"
  using stale_reset_crashes [of "bag_client STATE_TOKEN_PENDING Map.empty" zoned_turn bag_lib bag_packer context_zero]
  by (auto simp: event_manage0_inv event_manage0_subs)

theorem reset_request_lost_witness:
  "\<exists>rt ctx' c'. tuya_iot_yield bag_lib bag_packer zoned_turn [Rq_Reset] [] (context_zero, bag_client STATE_NETWORK_CHECK Map.empty) = Done (rt, ctx', c') \<and> cl_next c' \<noteq> STATE_RESET"
proof -
  have "\<exists>c'. tuya_iot_yield bag_lib bag_packer zoned_turn [Rq_Reset] [] (context_zero, bag_client STATE_NETWORK_CHECK Map.empty) = Done (OPRT_OK, context_zero, c')"
    by (simp add: tuya_iot_yield_def turn_body_def tuya_iot_reset_def iot_dispatch_event_def)
  then show ?thesis using reset_request_lost [of bag_lib bag_packer zoned_turn "[]" context_zero "bag_client STATE_NETWORK_CHECK Map.empty"] by (elim exE) auto
qed

text \<open>The turn of an activation: the answer is stored, and what is stored is found again.\<close>

lemma bag_stored:
  assumes "nul_free txt" "txt \<noteq> []" "ms = bag_member @ zs"
  obtains c1 where "client_activate_process (bag_turn ms txt) token (bag_client st Map.empty) = Some (OPRT_OK, c1)"
    "kv_view demo_kv (cl_files c1) ''bag_kv'' = Some (text_bytes txt)" "kv_view demo_kv (cl_files c1) ''s1'' = Some (text_bytes (''['' @ node_text @ '']''))"
    "cl_dsmgr c1 = \<lparr>schema_num = 0, schema_list = [None]\<rparr>" "cl_mgr c1 = mgr_zero\<lparr>em_endpoint := ep_demo\<rparr>"
proof -
  let ?T = "bag_turn ms txt" and ?c = "iot_dispatch_event (Event_Timestamp_Sync 1700000000) (bag_client st Map.empty)"
  let ?s = "text_bytes (''['' @ node_text @ '']'')"
  define fs1 where "fs1 = snd (tal_kv_set demo_kv (Some ''s1'') (Some ?s) Map.empty)"
  define fs2 where "fs2 = snd (tal_kv_set demo_kv (Some ''bag_kv'') (Some (text_bytes txt)) fs1)"
  have ne: "?s \<noteq> []" "text_bytes txt \<noteq> []" using assms(2) by (simp_all add: text_bytes_def)
  have st: "tal_kv_set demo_kv (Some ''s1'') (Some ?s) Map.empty = (OPRT_OK, fs1)" "tal_kv_set demo_kv (Some ''bag_kv'') (Some (text_bytes txt)) fs1 = (OPRT_OK, fs2)"
    using kv.put_ok [OF demo_kv_ready ne(1)] kv.put_ok [OF demo_kv_ready ne(2)] by (simp_all add: fs1_def fs2_def prod_eq_iff)
  have it: "get_item bag_json (bag_answer ms) ''schema'' = Some (text_item (''['' @ node_text @ '']''))" "get_item bag_json (bag_answer ms) ''schemaId'' = Some (text_item ''s1'')"
    by (simp_all add: bag_json_def ep_json_demo_def bag_answer_def bag_member_def assms(3))
  have "activate_response_parse ?T \<lparr>r_success = True, r_time = 1700000000, r_result = Some (bag_answer ms)\<rparr> ?c = Some (OPRT_OK, False, ?c\<lparr>cl_files := fs2\<rparr>)"
    using it st by (simp add: activate_response_parse_def text_item_def iot_dispatch_event_def)
  moreover have "cached_devid ?T Map.empty = Some None" by (simp add: cached_devid_def tal_kv_get_def)
  ultimately have "client_activate_process ?T token (bag_client st Map.empty) = Some (OPRT_OK, ?c\<lparr>cl_files := fs2\<rparr>)"
    by (simp add: client_activate_process_def) (simp add: bag_turn_def)
  then show thesis
    by (rule that) (use kv.put_view [OF demo_kv_ready ne(1)] kv.put_view [OF demo_kv_ready ne(2)] in \<open>simp_all add: fs1_def fs2_def iot_dispatch_event_def\<close>)
qed

lemma bag_act_parse:
  "activate_json_string_parse bag_json zoned_text act_zero = Some (OPRT_OK, bag_act)"
  "activate_json_string_parse bag_json zoneless_text act_zero = Some (OPRT_OK, bag_act\<lparr>a_timezone := []\<rparr>)"
  using bag_texts(1)
  by (simp_all add: activate_json_string_parse_def bag_json_def ep_json_demo_def bag_member_def zone_member_def text_item_def copy_item_def act_zero_def bag_act_def)

lemma bag_node: "parse_node bag_json node_item = Some (Inr (zero_node\<lparr>d_id := 5\<rparr>))"
  by (simp add: parse_node_def parse_desc_def parse_prop_def with_item_def opt_string_def bag_json_def ep_json_demo_def node_item_def text_item_def zero_node_def)

lemma bag_schema:
  "\<exists>s mgr. dp_schema_create bag_json (True, True) OPRT_OK dev (''['' @ node_text @ '']'') \<lparr>schema_num = 0, schema_list = [None]\<rparr> = Some (OPRT_OK, Some s, mgr)"
proof -
  have p: "dp_node_pos_decode (Some (''['' @ node_text @ '']'')) 255 = [(1, 47)]" by (simp add: dp_node_pos_decode_def node_text_def Let_def)
  have i: "item_text (''['' @ node_text @ '']'') (1, 47) = Some node_text" by (simp add: item_text_def node_text_def)
  have j: "cjson_parse bag_json node_text = Some node_item" using bag_texts by (simp add: bag_json_def)
  show ?thesis unfolding dp_schema_create_def p using i j bag_node by (simp add: Let_def) (simp add: bag_json_def ep_json_demo_def)
qed

theorem activation_without_zone_witness:
  "\<exists>c' d'. turn_activating zoneless_turn (bag_client STATE_ACTIVATING Map.empty) = Some (OPRT_OK, c') \<and> cl_next c' = STATE_RESET \<and> \<not> cl_activated c'
     \<and> tuya_iot_init zoneless_turn OPRT_OK None (bag_client STATE_IDLE (cl_files c')) = Some (OPRT_OK, context_zero, d') \<and> \<not> cl_activated d' \<and> a_devid (cl_act d') = ''bag1''"
proof -
  have n: "nul_free zoneless_text" "zoneless_text \<noteq> []" by (simp_all add: zoneless_text_def nul_free_def)
  obtain c1 where c1: "client_activate_process zoneless_turn [] (bag_client STATE_ACTIVATING Map.empty) = Some (OPRT_OK, c1)"
    "kv_view demo_kv (cl_files c1) ''bag_kv'' = Some (text_bytes zoneless_text)"
    using bag_stored [OF n, of bag_member "[]" "[]" STATE_ACTIVATING] by auto
  have t: "c_string (text_bytes zoneless_text) = zoneless_text" using n c_string_text by (simp add: nul_free_def)
  have j: "cjson_parse bag_json zoneless_text = Some (CJson CJ_Object None 0 bag_member)" using bag_texts by (simp add: bag_json_def)
  have z: "get_item bag_json (CJson CJ_Object None 0 bag_member) ''stdTimeZone'' = None" by (simp add: bag_json_def ep_json_demo_def bag_member_def)
  note a = activation_without_zone [of "bag_client STATE_ACTIVATING Map.empty" no_binding zoneless_turn c1 "text_bytes zoneless_text" "CJson CJ_Object None 0 bag_member"
      "bag_act\<lparr>a_timezone := []\<rparr>" "bag_client STATE_IDLE (cl_files c1)" OPRT_OK None]
  have "b_token no_binding = []" "a_devid (bag_act\<lparr>a_timezone := []\<rparr>) = ''bag1''" by (simp_all add: no_binding_def bag_act_def)
  then show ?thesis using a c1 t j z bag_act_parse(2) view_get [OF c1(2)] by (simp, elim conjE exE) (rule exI conjI | simp)+
qed

theorem activation_survives_restart_witness:
  "\<exists>rt c' d'. turn_activating zoned_turn (bag_client STATE_ACTIVATING Map.empty) = Some (rt, c') \<and> cl_activated c'
     \<and> tuya_iot_init zoned_turn OPRT_OK None (bag_client STATE_IDLE (cl_files c')) = Some (OPRT_OK, context_zero, d') \<and> cl_activated d' \<and> cl_act d' = cl_act c'"
proof -
  let ?c = "bag_client STATE_ACTIVATING Map.empty"
  have n: "nul_free zoned_text" "zoned_text \<noteq> []" by (simp_all add: zoned_text_def nul_free_def)
  obtain c1 where c1: "client_activate_process zoned_turn [] ?c = Some (OPRT_OK, c1)"
    "kv_view demo_kv (cl_files c1) ''bag_kv'' = Some (text_bytes zoned_text)" "kv_view demo_kv (cl_files c1) ''s1'' = Some (text_bytes (''['' @ node_text @ '']''))"
    "cl_dsmgr c1 = \<lparr>schema_num = 0, schema_list = [None]\<rparr>" "cl_mgr c1 = mgr_zero\<lparr>em_endpoint := ep_demo\<rparr>"
    using bag_stored [OF n refl, where zs = zone_member and token = "[]" and st = STATE_ACTIVATING] by metis
  have t: "c_string (text_bytes zoned_text) = zoned_text" "c_string (text_bytes (''['' @ node_text @ '']'')) = ''['' @ node_text @ '']''"
    using n by (auto intro!: c_string_text simp: nul_free_def node_text_def)
  define c2 where "c2 = c1\<lparr>cl_binding := None, cl_act := bag_act, cl_clock := snd (tal_time_set_time_zone ''+08:00'' (cl_clock c1))\<rparr>"
  have "fst (tal_time_set_time_zone ''+08:00'' k) = OPRT_OK" for k
    by (simp add: tal_time_set_time_zone_def get_time_zone_def sscanf_hm_def scan_int_def scan_nat_def digit_of_def case_prod_beta)
  moreover have "cl_act c1 = act_zero" using activate_keeps [OF c1(1)] by simp
  ultimately have r: "activated_data_read zoned_turn (c1\<lparr>cl_binding := None\<rparr>) = Some (OPRT_OK, c2)"
    using view_get [OF c1(2)] t bag_act_parse(1) by (simp add: activated_data_read_def c2_def case_prod_beta bag_act_def)
  obtain s mgr where "dp_schema_create bag_json (True, True) OPRT_OK ''bag1'' (''['' @ node_text @ '']'') \<lparr>schema_num = 0, schema_list = [None]\<rparr> = Some (OPRT_OK, Some s, mgr)"
    using bag_schema by blast
  then have sc: "schema_instance_create zoned_turn c2 = Some (Some s, c2\<lparr>cl_dsmgr := mgr\<rparr>)"
    using view_get [OF c1(3)] t c1(4) by (simp add: schema_instance_create_def c2_def bag_act_def)
  have d: "ep_cert ep_demo = Cert_Mem [1, 2]" "domain_db ep_demo \<noteq> []" by (simp_all add: ep_demo_def domain_db_def)
  obtain r1 fs1 where k: "tal_kv_set demo_kv (Some ''endpoint.cert'') (Some [1, 2]) (cl_files c1) = (r1, fs1)" by fastforce
  obtain rt fs where e: "endpoint_save zoned_turn (c2\<lparr>cl_dsmgr := mgr, cl_schema := Some s\<rparr>) = Some (rt, c2\<lparr>cl_dsmgr := mgr, cl_schema := Some s, cl_files := fs\<rparr>)"
    using record_written [OF demo_kv_ready d(2) bag_domain, of "''endpoint.domain''" fs1] c1(5) d(1) k
    by (simp add: endpoint_save_def tuya_endpoint_cert_set_def tuya_endpoint_domain_set_def ep_env_demo_def c2_def mgr_zero_def)
  define c' where "c' = iot_dispatch_event Event_Activated (c2\<lparr>cl_dsmgr := mgr, cl_schema := Some s, cl_files := fs, cl_activated := True, cl_next := STATE_STARTUP_UPDATE\<rparr>)"
  have "b_token no_binding = []" by (simp add: no_binding_def)
  then have a: "turn_activating zoned_turn ?c = Some (rt, c')" using c1(1) r sc e by (simp add: turn_activating_def c'_def)
  have f: "cl_activated c'" "a_schemaId (cl_act c') = ''s1''" by (simp_all add: c'_def iot_dispatch_event_def c2_def bag_act_def)
  show ?thesis
    using activation_survives_restart [OF a f(1), of "bag_client STATE_IDLE (cl_files c')" OPRT_OK None] a f by auto
qed
end
