(* ===== verification/Matop.thy ===== *)
theory Matop
  imports IotClient
begin

text \<open>
  Requests to the cloud over the message service (\<^verbatim>\<open>src/tuya_cloud_service/cloud/matop_service.c\<close>): the table of the requests that wait for an answer, the texts of
  the requests, and the callbacks of the client. Each entry has a ghost key, the number of its allocation, in the place of its address. What a callback does is an
  argument; the readings of the clocks and the allocations are those of the call. \<open>None\<close> is an access outside of a buffer, through a null pointer or to released memory.
\<close>

section \<open>Data\<close>

record 'cb atop_message =
  am_key :: nat
  am_id :: u16
  am_timeout :: u32
  am_cb :: "'cb option"

record 'cb matop =
  mt_devid :: string
  mt_cnt :: u32
  mt_topic :: string
  mt_list :: "'cb atop_message list"
  mt_fresh :: nat

record atop_request =
  rq_api :: string
  rq_version :: "string option"
  rq_data :: "string option"
  rq_timeout :: u32

record raw_response = atop_response +
  r_raw :: "byte list"

abbreviation MATOP_TIMEOUT_MS_DEFAULT :: u32 where "MATOP_TIMEOUT_MS_DEFAULT \<equiv> 8000"
abbreviation MATOP_DEFAULT_BUFFER_LEN :: nat where "MATOP_DEFAULT_BUFFER_LEN \<equiv> 128"
abbreviation ON_MATOP_DATA :: nat where "ON_MATOP_DATA \<equiv> 101"
abbreviation ON_MATOP_FILE :: nat where "ON_MATOP_FILE \<equiv> 102"

section \<open>Answers\<close>

definition find_message :: "u16 \<Rightarrow> 'cb matop \<Rightarrow> 'cb atop_message option" where
  "find_message i mt = find (\<lambda>m. am_id m = i) (mt_list mt)"

definition remove_key :: "nat \<Rightarrow> 'cb matop \<Rightarrow> 'cb matop" where
  "remove_key k mt = mt\<lparr>mt_list := filter (\<lambda>m. am_key m \<noteq> k) (mt_list mt)\<rparr>"

text \<open>The callback is called while its entry is still in the list.\<close>

definition notify_and_remove ::
    "('cb \<Rightarrow> raw_response \<Rightarrow> 'cb matop \<Rightarrow> 'e \<Rightarrow> ('cb matop \<times> 'e) option) \<Rightarrow> 'cb atop_message \<Rightarrow> raw_response \<Rightarrow> 'cb matop \<Rightarrow> 'e \<Rightarrow> ('cb matop \<times> 'e) option" where
  "notify_and_remove run m r mt e =
     do {
       (mt, e) \<leftarrow> (case am_cb m of None \<Rightarrow> Some (mt, e) | Some cb \<Rightarrow> run cb r mt e);
       Some (remove_key (am_key m) mt, e)
     }"

definition response_of :: "parse_env \<Rightarrow> cjson \<Rightarrow> raw_response option" where
  "response_of J dat =
     (let success = (case get_item J dat ''result'' of None \<Rightarrow> False | Some r \<Rightarrow> (case get_item J r ''success'' of None \<Rightarrow> False | Some s \<Rightarrow> cj_type s = CJ_True));
          result = Option.bind (get_item J dat ''result'') (\<lambda>r. get_item J r ''result'')
      in do {
        t \<leftarrow> (if success then map_option cj_int (get_item J dat ''t'') else Some 0);
        Some \<lparr>r_success = success, r_time = t, r_result = result, r_raw = []\<rparr>
      })"

definition matop_service_data_receive_cb ::
    "parse_env \<Rightarrow> ('cb \<Rightarrow> raw_response \<Rightarrow> 'cb matop \<Rightarrow> 'e \<Rightarrow> ('cb matop \<times> 'e) option) \<Rightarrow> byte list \<Rightarrow> 'cb matop \<Rightarrow> 'e \<Rightarrow> (operate_ret \<times> 'cb matop \<times> 'e) option" where
  "matop_service_data_receive_cb J run input mt e =
     (case cjson_parse J (c_string input) of
        None \<Rightarrow> Some (OPRT_CJSON_PARSE_ERR, mt, e)
      | Some root \<Rightarrow>
          (case (get_item J root ''id'', get_item J root ''data'') of
             (Some i, Some dat) \<Rightarrow>
               if cj_type i \<noteq> CJ_Number then Some (OPRT_CJSON_GET_ERR, mt, e)
               else (case find_message (word_of_int (cj_int i)) mt of
                       None \<Rightarrow> Some (OPRT_COM_ERROR, mt, e)
                     | Some m \<Rightarrow> do { r \<leftarrow> response_of J dat; (mt, e) \<leftarrow> notify_and_remove run m r mt e; Some (OPRT_OK, mt, e) })
           | _ \<Rightarrow> Some (OPRT_CJSON_GET_ERR, mt, e)))"

text \<open>The identifier in front of a piece of a file has 32 bits, that of a request 16.\<close>

definition raw_id :: "byte list \<Rightarrow> u32" where
  "raw_id b = ucast (b ! 0) * 2 ^ 24 + ucast (b ! 1) * 2 ^ 16 + ucast (b ! 2) * 2 ^ 8 + ucast (b ! 3)"

definition matop_service_file_rawdata_receive_cb ::
    "('cb \<Rightarrow> raw_response \<Rightarrow> 'cb matop \<Rightarrow> 'e \<Rightarrow> ('cb matop \<times> 'e) option) \<Rightarrow> byte list \<Rightarrow> 'cb matop \<Rightarrow> 'e \<Rightarrow> (operate_ret \<times> 'cb matop \<times> 'e) option" where
  "matop_service_file_rawdata_receive_cb run input mt e =
     (if length input < 4 then Some (OPRT_INVALID_PARM, mt, e)
      else case find (\<lambda>m. ucast (am_id m) = raw_id input) (mt_list mt) of
             None \<Rightarrow> Some (OPRT_COM_ERROR, mt, e)
           | Some m \<Rightarrow>
               do {
                 (mt, e) \<leftarrow> notify_and_remove run m \<lparr>r_success = True, r_time = 0, r_result = None, r_raw = drop 4 input\<rparr> mt e;
                 Some (OPRT_OK, mt, e)
               })"

text \<open>A message of the service for the subscriptions of its topic.\<close>

fun on_matop_service :: "parse_env \<Rightarrow> ('cb \<Rightarrow> raw_response \<Rightarrow> 'cb matop \<Rightarrow> 'e \<Rightarrow> ('cb matop \<times> 'e) option) \<Rightarrow> byte list \<Rightarrow> subscribe_handle list \<Rightarrow> 'cb matop \<Rightarrow> 'e \<Rightarrow> ('cb matop \<times> 'e) option" where
  "on_matop_service J run input [] mt e = Some (mt, e)"
| "on_matop_service J run input (h # hs) mt e =
     do {
       (mt, e) \<leftarrow> (if sh_cb h = Sub_Cb ON_MATOP_DATA then map_option snd (matop_service_data_receive_cb J run input mt e)
                   else if sh_cb h = Sub_Cb ON_MATOP_FILE then map_option snd (matop_service_file_rawdata_receive_cb run input mt e)
                   else Some (mt, e));
       on_matop_service J run input hs mt e
     }"

section \<open>Start, turn and end\<close>

definition topic_fits :: "nat \<Rightarrow> string \<Rightarrow> string option" where
  "topic_fits n s = (if length s < n then Some s else None)"

definition matop_serice_init ::
    "('c, 'e) mqtt_env \<Rightarrow> bool \<Rightarrow> string \<Rightarrow> 'c mqtt_context \<Rightarrow> 'e \<Rightarrow> (operate_ret \<times> 'cb matop \<times> 'c mqtt_context \<times> 'e) option" where
  "matop_serice_init M mem dev ctx e =
     do {
       rsp \<leftarrow> topic_fits 48 (''rpc/rsp/'' @ dev);
       let mt = \<lparr>mt_devid = dev, mt_cnt = 0, mt_topic = [], mt_list = [], mt_fresh = 0\<rparr>;
       (case tuya_mqtt_subscribe_message_callback_register M mem rsp (Some (Sub_Cb ON_MATOP_DATA)) 0 ctx e of (ret, ctx, e) \<Rightarrow>
          if ret \<noteq> OPRT_OK then Some (ret, mt, ctx, e)
          else do {
            fil \<leftarrow> topic_fits 48 (''rpc/file/'' @ dev);
            (_, ctx, e) \<leftarrow> Some (tuya_mqtt_subscribe_message_callback_register M mem fil (Some (Sub_Cb ON_MATOP_FILE)) 0 ctx e);
            req \<leftarrow> topic_fits 64 (''rpc/req/'' @ dev);
            Some (OPRT_OK, mt\<lparr>mt_topic := req\<rparr>, ctx, e)
          })
     }"

text \<open>
  One entry at most is told that its time is up. The clock has 64 bits and is compared with a time of 32 bits. The entry is unlinked after its callback, which must not
  have released it.
\<close>

definition matop_serice_yield ::
    "('cb \<Rightarrow> raw_response \<Rightarrow> 'cb matop \<Rightarrow> 'e \<Rightarrow> ('cb matop \<times> 'e) option) \<Rightarrow> u64 \<Rightarrow> 'cb matop \<Rightarrow> 'e \<Rightarrow> (operate_ret \<times> 'cb matop \<times> 'e) option" where
  "matop_serice_yield run ms mt e =
     (case find (\<lambda>m. ucast (am_timeout m) < ms) (mt_list mt) of
        None \<Rightarrow> Some (OPRT_OK, mt, e)
      | Some m \<Rightarrow>
          do {
            (mt, e) \<leftarrow> (case am_cb m of None \<Rightarrow> Some (mt, e) | Some cb \<Rightarrow> run cb \<lparr>r_success = False, r_time = 0, r_result = None, r_raw = []\<rparr> mt e);
            if am_key m \<in> set (map am_key (mt_list mt)) then Some (OPRT_TIMEOUT, remove_key (am_key m) mt, e) else None
          })"

text \<open>The entries are released; nobody is told.\<close>

definition matop_serice_destory :: "('c, 'e) mqtt_env \<Rightarrow> 'cb matop \<Rightarrow> 'c mqtt_context \<Rightarrow> 'e \<Rightarrow> (operate_ret \<times> 'cb matop \<times> 'c mqtt_context \<times> 'e) option" where
  "matop_serice_destory M mt ctx e =
     do {
       rsp \<leftarrow> topic_fits 48 (''rpc/rsp/'' @ mt_devid mt);
       (_, ctx, e) \<leftarrow> Some (tuya_mqtt_subscribe_message_callback_unregister M rsp ctx e);
       fil \<leftarrow> topic_fits 48 (''rpc/file/'' @ mt_devid mt);
       (_, ctx, e) \<leftarrow> Some (tuya_mqtt_subscribe_message_callback_unregister M fil ctx e);
       Some (OPRT_OK, mt\<lparr>mt_list := []\<rparr>, ctx, e)
     }"

section \<open>Requests\<close>

text \<open>
  The text of a request, printed in up to three parts into a buffer of 128 bytes more than its data. A text that needs the whole buffer loses its last character to the end mark; a longer
  one leaves it.
\<close>

definition posix_text :: "u32 \<Rightarrow> string" where
  "posix_text t = int_digits (sint t)"

definition request_json :: "u16 \<Rightarrow> u32 \<Rightarrow> atop_request \<Rightarrow> string" where
  "request_json i t rq =
     ''{\"id\":'' @ nat_digits (unat i) @ '',\"a\":\"'' @ rq_api rq @ ''\",\"t\":'' @ posix_text t @ '',\"data\":'' @ (case rq_data rq of None \<Rightarrow> ''{}'' | Some d \<Rightarrow> d)
     @ (case rq_version rq of None \<Rightarrow> [] | Some v \<Rightarrow> '',\"v\":\"'' @ v @ ''\"'') @ ''}''"

definition request_buffer :: "u16 \<Rightarrow> u32 \<Rightarrow> atop_request \<Rightarrow> byte list option" where
  "request_buffer i t rq =
     (let text = request_json i t rq; n = 128 + (case rq_data rq of None \<Rightarrow> 0 | Some d \<Rightarrow> length d)
      in if length text < n then Some (text_bytes text) else if length text = n then Some (text_bytes (butlast text) @ [0]) else None)"

definition matop_request_send :: "('c, 'e) mqtt_env \<Rightarrow> byte list \<Rightarrow> 'cb matop \<Rightarrow> 'e \<Rightarrow> operate_ret \<times> 'e" where
  "matop_request_send M dat mt e = (case mqtt_client_publish M (mt_topic mt) dat 0 e of (msgid, e) \<Rightarrow> (if msgid = 0 then OPRT_COM_ERROR else OPRT_OK, e))"

definition matop_service_request_async ::
    "('c, 'e) mqtt_env \<Rightarrow> bool \<times> bool \<Rightarrow> u64 \<Rightarrow> atop_request \<Rightarrow> 'cb option \<Rightarrow> 'cb matop \<Rightarrow> 'e \<Rightarrow> (operate_ret \<times> 'cb matop \<times> 'e) option" where
  "matop_service_request_async M mems ms rq cb mt e =
     (if \<not> fst mems then Some (OPRT_MALLOC_FAILED, mt, e)
      else
        (let key = mt_fresh mt; mt = mt\<lparr>mt_cnt := mt_cnt mt + 1, mt_fresh := key + 1\<rparr>;
             m = \<lparr>am_key = key, am_id = ucast (mt_cnt mt), am_timeout = ucast (ms + ucast (if rq_timeout rq = 0 then MATOP_TIMEOUT_MS_DEFAULT else rq_timeout rq)), am_cb = cb\<rparr>
         in if \<not> snd mems then Some (OPRT_MALLOC_FAILED, mt, e)
            else do {
              dat \<leftarrow> request_buffer (am_id m) (posix_now M e) rq;
              (rt, e) \<leftarrow> Some (matop_request_send M dat mt e);
              Some (if rt \<noteq> OPRT_OK then (rt, mt, e) else (OPRT_OK, mt\<lparr>mt_list := mt_list mt @ [m]\<rparr>, e))
            }))"

text \<open>\<^verbatim>\<open>snprintf\<close> into a buffer of \<open>n\<close> bytes; the services allocate the buffer first.\<close>

definition printed :: "nat \<Rightarrow> string \<Rightarrow> string" where
  "printed n s = take (n - 1) s"

record mem_env =
  me_buf :: bool
  me_rst :: bool
  me_req :: "bool \<times> bool"

definition post ::
    "('c, 'e) mqtt_env \<Rightarrow> mem_env \<Rightarrow> u64 \<Rightarrow> string \<Rightarrow> string option \<Rightarrow> u32 \<Rightarrow> string \<Rightarrow> 'cb option \<Rightarrow> 'cb matop \<Rightarrow> 'e \<Rightarrow> (operate_ret \<times> 'cb matop \<times> 'e) option" where
  "post M A ms api ver timeout dat cb mt e =
     (if \<not> me_buf A then Some (OPRT_MALLOC_FAILED, mt, e)
      else matop_service_request_async M (me_req A) ms \<lparr>rq_api = api, rq_version = ver, rq_data = Some dat, rq_timeout = timeout\<rparr> cb mt e)"

definition matop_service_client_reset :: "('c, 'e) mqtt_env \<Rightarrow> mem_env \<Rightarrow> u64 \<Rightarrow> 'cb matop \<Rightarrow> 'e \<Rightarrow> (operate_ret \<times> 'cb matop \<times> 'e) option" where
  "matop_service_client_reset M A ms mt e =
     post M A ms ''tuya.device.reset'' (Some ''4.0'') 0 (printed MATOP_DEFAULT_BUFFER_LEN (''{\"t\":'' @ posix_text (posix_now M e) @ ''}'')) None mt e"

definition matop_service_version_update :: "('c, 'e) mqtt_env \<Rightarrow> mem_env \<Rightarrow> u64 \<Rightarrow> string option \<Rightarrow> 'cb matop \<Rightarrow> 'e \<Rightarrow> (operate_ret \<times> 'cb matop \<times> 'e) option" where
  "matop_service_version_update M A ms versions mt e =
     (case versions of
        None \<Rightarrow> Some (OPRT_INVALID_PARM, mt, e)
      | Some v \<Rightarrow> post M A ms ''tuya.device.versions.update'' (Some ''4.1'') 0
                    (printed 196 (''{\"versions\":\"'' @ v @ ''\",\"t\":'' @ posix_text (posix_now M e) @ ''}'')) None mt e)"

definition matop_service_upgrade_status_update :: "('c, 'e) mqtt_env \<Rightarrow> mem_env \<Rightarrow> u64 \<Rightarrow> int \<Rightarrow> int \<Rightarrow> 'cb matop \<Rightarrow> 'e \<Rightarrow> (operate_ret \<times> 'cb matop \<times> 'e) option" where
  "matop_service_upgrade_status_update M A ms channel status mt e =
     post M A ms ''tuya.device.upgrade.status.update'' (Some ''4.1'') 0
       (printed MATOP_DEFAULT_BUFFER_LEN (''{\"type\":'' @ int_digits channel @ '',\"upgradeStatus\":'' @ int_digits status @ '',\"t\":'' @ posix_text (posix_now M e) @ ''}'')) None mt e"

definition matop_service_upgrade_info_get :: "('c, 'e) mqtt_env \<Rightarrow> mem_env \<Rightarrow> u64 \<Rightarrow> int \<Rightarrow> 'cb option \<Rightarrow> 'cb matop \<Rightarrow> 'e \<Rightarrow> (operate_ret \<times> 'cb matop \<times> 'e) option" where
  "matop_service_upgrade_info_get M A ms channel cb mt e =
     post M A ms ''tuya.device.upgrade.get'' (Some ''4.4'') 10000
       (printed MATOP_DEFAULT_BUFFER_LEN (''{\"type\":'' @ int_digits channel @ '',\"t\":'' @ posix_text (posix_now M e) @ ''}'')) cb mt e"

definition matop_service_auto_upgrade_info_get :: "('c, 'e) mqtt_env \<Rightarrow> mem_env \<Rightarrow> u64 \<Rightarrow> 'cb option \<Rightarrow> 'cb matop \<Rightarrow> 'e \<Rightarrow> (operate_ret \<times> 'cb matop \<times> 'e) option" where
  "matop_service_auto_upgrade_info_get M A ms cb mt e =
     post M A ms ''tuya.device.upgrade.silent.get'' (Some ''4.4'') 0 (printed MATOP_DEFAULT_BUFFER_LEN (''{\"subId\":null,\"t\":'' @ posix_text (posix_now M e) @ ''}'')) cb mt e"

definition matop_service_file_download_range ::
    "('c, 'e) mqtt_env \<Rightarrow> mem_env \<Rightarrow> u64 \<Rightarrow> string \<Rightarrow> int \<Rightarrow> int \<Rightarrow> u32 \<Rightarrow> 'cb option \<Rightarrow> 'cb matop \<Rightarrow> 'e \<Rightarrow> (operate_ret \<times> 'cb matop \<times> 'e) option" where
  "matop_service_file_download_range M A ms url range_start range_end timeout_ms cb mt e =
     post M A ms ''tuya.device.file.download'' (Some ''1.0'') timeout_ms
       (printed 511 (''{\"url\":\"'' @ url @ ''\",\"range\":\"bytes='' @ int_digits range_start @ ''-'' @ int_digits range_end @ ''\",\"type\":''
          @ (if range_start = 0 \<and> range_end = 0 then ''1'' else ''2'') @ ''}'')) cb mt e"

definition matop_service_put_rst_log :: "('c, 'e) mqtt_env \<Rightarrow> mem_env \<Rightarrow> u64 \<Rightarrow> int \<Rightarrow> 'cb matop \<Rightarrow> 'e \<Rightarrow> (operate_ret \<times> 'cb matop \<times> 'e) option" where
  "matop_service_put_rst_log M A ms reason mt e =
     (if \<not> me_rst A then Some (OPRT_MALLOC_FAILED, mt, e)
      else post M A ms ''atop.online.debug.log'' None 0
             (printed 196 (''{'' @ printed 128 (''\"data\":'' @ int_digits reason) @ '',\"t\":'' @ posix_text (posix_now M e) @ ''}'')) None mt e)"

datatype dynamic_cfg = HTTP_DYNAMIC_CFG_TZ | HTTP_DYNAMIC_CFG_RATERULE | HTTP_DYNAMIC_CFG_ALL

definition cfg_names :: "dynamic_cfg \<Rightarrow> string" where
  "cfg_names typ =
     (case typ of
        HTTP_DYNAMIC_CFG_TZ \<Rightarrow> quoted ''timezone''
      | HTTP_DYNAMIC_CFG_RATERULE \<Rightarrow> quoted ''rateRule''
      | HTTP_DYNAMIC_CFG_ALL \<Rightarrow> quoted ''timezone'' @ '','' @ quoted ''rateRule'')"

definition matop_service_dynamic_cfg_get :: "('c, 'e) mqtt_env \<Rightarrow> mem_env \<Rightarrow> u64 \<Rightarrow> dynamic_cfg \<Rightarrow> 'cb option \<Rightarrow> 'cb matop \<Rightarrow> 'e \<Rightarrow> (operate_ret \<times> 'cb matop \<times> 'e) option" where
  "matop_service_dynamic_cfg_get M A ms typ cb mt e =
     post M A ms ''tuya.device.dynamic.config.get'' (Some ''2.0'') 0
       (printed MATOP_DEFAULT_BUFFER_LEN (''{\"type\":\"['' @ cfg_names typ @ '']\",\"t\":'' @ nat_digits (unat (posix_now M e)) @ ''}'')) cb mt e"

text \<open>
  The acknowledgement of a configuration is printed in parts into 128 bytes, and the last part is given the whole size: when the parts before it and itself with the end mark
  need more, it is written behind the buffer.
\<close>

definition ack_text :: "string option \<Rightarrow> string option \<Rightarrow> string" where
  "ack_text tz rule =
     ''{\"ackList\":['' @ (case tz of None \<Rightarrow> [] | Some a \<Rightarrow> ''{\"type\":\"timezone\",\"ackId\":\"'' @ a @ ''\"}'')
     @ (case rule of None \<Rightarrow> [] | Some a \<Rightarrow> ''{\"type\":\"rateRule\",\"ackId\":'' @ a @ ''}'')"

definition matop_service_dynamic_cfg_ack ::
    "('c, 'e) mqtt_env \<Rightarrow> mem_env \<Rightarrow> u64 \<Rightarrow> string option \<Rightarrow> string option \<Rightarrow> 'cb option \<Rightarrow> 'cb matop \<Rightarrow> 'e \<Rightarrow> (operate_ret \<times> 'cb matop \<times> 'e) option" where
  "matop_service_dynamic_cfg_ack M A ms tz rule cb mt e =
     (if \<not> me_buf A then Some (OPRT_MALLOC_FAILED, mt, e)
      else (let text = ack_text tz rule @ ''],\"t\":'' @ posix_text (posix_now M e) @ ''}''
            in if length text \<ge> MATOP_DEFAULT_BUFFER_LEN then None
               else post M A ms ''tuya.device.dynamic.config.ack'' (Some ''2.0'') 0 text cb mt e))"

definition comm_node :: "('c, 'e) mqtt_env \<Rightarrow> bool \<times> bool \<Rightarrow> u64 \<Rightarrow> string \<Rightarrow> 'cb option \<Rightarrow> 'cb matop \<Rightarrow> 'e \<Rightarrow> (operate_ret \<times> 'cb matop \<times> 'e) option" where
  "comm_node M mems ms api cb mt e =
     matop_service_request_async M mems ms \<lparr>rq_api = api, rq_version = Some ''1.0'', rq_data = None, rq_timeout = 0\<rparr> cb mt e"

definition matop_service_comm_node_enable :: "('c, 'e) mqtt_env \<Rightarrow> bool \<times> bool \<Rightarrow> u64 \<Rightarrow> 'cb option \<Rightarrow> 'cb matop \<Rightarrow> 'e \<Rightarrow> (operate_ret \<times> 'cb matop \<times> 'e) option" where
  "matop_service_comm_node_enable M mems ms cb mt e = comm_node M mems ms ''tuya.device.comm.node.enable'' cb mt e"

definition matop_service_comm_node_disable :: "('c, 'e) mqtt_env \<Rightarrow> bool \<times> bool \<Rightarrow> u64 \<Rightarrow> 'cb option \<Rightarrow> 'cb matop \<Rightarrow> 'e \<Rightarrow> (operate_ret \<times> 'cb matop \<times> 'e) option" where
  "matop_service_comm_node_disable M mems ms cb mt e = comm_node M mems ms ''tuya.device.comm.node.disable'' cb mt e"

section \<open>The callbacks of the client\<close>

datatype client_matop_cb = Upgrade_Info_On | App_Notify_Upgrade_Info_On

text \<open>A failed question of the application for an upgrade is answered with a request for its status.\<close>

definition client_run ::
    "('c, tuya_client) mqtt_env \<Rightarrow> mem_env \<Rightarrow> u64 \<Rightarrow> client_matop_cb \<Rightarrow> raw_response \<Rightarrow> client_matop_cb matop \<Rightarrow> tuya_client \<Rightarrow> (client_matop_cb matop \<times> tuya_client) option" where
  "client_run M A ms cb r mt c =
     (case cb of
        Upgrade_Info_On \<Rightarrow> Some (mt, matop_upgrade_info_on (atop_response.truncate r) c)
      | App_Notify_Upgrade_Info_On \<Rightarrow>
          if r_success r then Some (mt, matop_app_notify_upgrade_info_on (atop_response.truncate r) c)
          else map_option snd (matop_service_upgrade_status_update M A ms 0 4 mt (matop_app_notify_upgrade_info_on (atop_response.truncate r) c)))"


section \<open>The text of a request\<close>

lemma length_posix_text: "length (posix_text t) \<le> 11"
proof -
  have "- (2 ^ 31) \<le> sint t" "sint t < 2 ^ 31" using sint_greater_eq [of t] sint_less [of t] by simp_all
  then have "nat (- sint t) < 10 ^ 10" "nat (sint t) < 10 ^ 10" by (simp_all add: nat_less_iff)
  then show ?thesis
    using length_nat_digits [of "nat (- sint t)" 10] length_nat_digits [of "nat (sint t)" 10] by (simp add: posix_text_def int_digits_def)
qed

lemma length_id: "length (nat_digits (unat (i :: u16))) \<le> 5"
proof -
  have "unat i < 2 ^ 16" by (rule order.strict_trans2 [OF unsigned_less]) simp
  then show ?thesis by (intro length_nat_digits) simp_all
qed

abbreviation opt_length :: "string option \<Rightarrow> nat" where
  "opt_length s \<equiv> (case s of None \<Rightarrow> 0 | Some v \<Rightarrow> length v)"

lemma request_fits:
  assumes "length (rq_api rq) + opt_length (rq_version rq) \<le> 75"
  shows "request_buffer i t rq = Some (text_bytes (request_json i t rq))"
proof -
  have "length (request_json i t rq) < 128 + opt_length (rq_data rq)"
    using assms length_posix_text [of t] length_id [of i] by (cases "rq_data rq"; cases "rq_version rq") (simp_all add: request_json_def)
  then show ?thesis by (simp add: request_buffer_def Let_def)
qed

text \<open>What a request that is accepted does.\<close>

definition new_message :: "u64 \<Rightarrow> atop_request \<Rightarrow> 'cb option \<Rightarrow> 'cb matop \<Rightarrow> 'cb atop_message" where
  "new_message ms rq cb mt =
     \<lparr>am_key = mt_fresh mt, am_id = ucast (mt_cnt mt + 1), am_timeout = ucast (ms + ucast (if rq_timeout rq = 0 then MATOP_TIMEOUT_MS_DEFAULT else rq_timeout rq)), am_cb = cb\<rparr>"

lemma request_effect:
  assumes "matop_service_request_async M mems ms rq cb mt e = Some (rt, mt', e')"
  shows "mt' = mt \<or> mt' = mt\<lparr>mt_cnt := mt_cnt mt + 1, mt_fresh := mt_fresh mt + 1\<rparr>
    \<or> mt' = mt\<lparr>mt_cnt := mt_cnt mt + 1, mt_fresh := mt_fresh mt + 1, mt_list := mt_list mt @ [new_message ms rq cb mt]\<rparr>"
    and "rt = OPRT_OK \<longleftrightarrow> mt_list mt' = mt_list mt @ [new_message ms rq cb mt]"
    and "rt \<noteq> OPRT_OK \<Longrightarrow> mt_list mt' = mt_list mt"
  using assms
  by (auto simp: matop_service_request_async_def matop_request_send_def new_message_def Let_def bind_eq_Some_conv case_prod_beta split: if_splits)

section \<open>The table\<close>

text \<open>The keys grow along the list, and the identifiers follow the keys.\<close>

definition mt_inv :: "'cb matop \<Rightarrow> bool" where
  "mt_inv mt \<longleftrightarrow> mt_cnt mt = of_nat (mt_fresh mt) \<and> sorted_wrt (<) (map am_key (mt_list mt))
     \<and> (\<forall>m \<in> set (mt_list mt). am_key m < mt_fresh mt \<and> am_id m = of_nat (Suc (am_key m)))"

definition grown :: "'cb matop \<Rightarrow> 'cb matop \<Rightarrow> bool" where
  "grown mt mt' \<longleftrightarrow> mt_inv mt' \<and> (\<exists>xs. mt_list mt' = mt_list mt @ xs \<and> (\<forall>m \<in> set xs. am_cb m = None))"

lemma ucast_of_nat: "ucast (of_nat n :: u32) = (of_nat n :: u16)"
  by (simp add: unsigned_of_nat word_of_nat_eq_iff take_bit_take_bit)

lemma request_keeps:
  assumes "mt_inv mt" "matop_service_request_async M mems ms rq cb mt e = Some (rt, mt', e')"
  shows "mt_inv mt'"
proof -
  have "ucast (mt_cnt mt + 1) = (of_nat (Suc (mt_fresh mt)) :: u16)" using assms(1) ucast_of_nat [of "Suc (mt_fresh mt)"] by (simp add: mt_inv_def add.commute)
  then show ?thesis using request_effect(1) [OF assms(2)] assms(1)
    by (auto simp: mt_inv_def new_message_def sorted_wrt_append less_Suc_eq)
qed

lemma request_grows:
  assumes "mt_inv mt" "matop_service_request_async M mems ms rq None mt e = Some (rt, mt', e')"
  shows "grown mt mt'"
  using request_keeps [OF assms] request_effect(1) [OF assms(2)] by (auto simp: grown_def new_message_def)

lemma grown_refl: "mt_inv mt \<Longrightarrow> grown mt mt"
  by (simp add: grown_def)

lemma inv_distinct: "mt_inv mt \<Longrightarrow> distinct (map am_key (mt_list mt))"
  unfolding mt_inv_def by (metis strict_sorted_iff)

lemma remove_keeps: "mt_inv mt \<Longrightarrow> mt_inv (remove_key k mt)"
  by (auto simp: mt_inv_def remove_key_def sorted_wrt_map sorted_wrt_filter)

text \<open>Removing an entry from a list with different keys removes exactly it.\<close>

lemma remove_one:
  assumes "distinct (map am_key (mt_list mt))" "mt_list mt = xs @ m # ys"
  shows "mt_list (remove_key (am_key m) mt) = xs @ ys"
proof -
  have "am_key m \<notin> am_key ` set xs" "am_key m \<notin> am_key ` set ys" using assms by auto
  then have "filter (\<lambda>x. am_key x \<noteq> am_key m) xs = xs" "filter (\<lambda>x. am_key x \<noteq> am_key m) ys = ys" unfolding filter_id_conv by (metis imageI)+
  then show ?thesis using assms(2) by (simp add: remove_key_def)
qed

subsection \<open>Callbacks that only ask\<close>

text \<open>
  The interface of a callback: it may ask questions of its own, without a callback, but does not touch the entries that wait. A run is logged: which callbacks were called, and whether
  with success.
\<close>

definition logged ::
    "('cb \<Rightarrow> raw_response \<Rightarrow> 'cb matop \<Rightarrow> 'e \<Rightarrow> ('cb matop \<times> 'e) option) \<Rightarrow> 'cb \<Rightarrow> raw_response \<Rightarrow> 'cb matop \<Rightarrow> 'e \<times> ('cb \<times> bool) list \<Rightarrow> ('cb matop \<times> 'e \<times> ('cb \<times> bool) list) option" where
  "logged run cb r mt s = (case s of (e, l) \<Rightarrow> map_option (\<lambda>(mt, e). (mt, e, l @ [(cb, r_success r)])) (run cb r mt e))"

definition waiting :: "'cb matop \<Rightarrow> 'cb multiset" where
  "waiting mt = mset (List.map_filter am_cb (mt_list mt))"

abbreviation told :: "('cb \<times> bool) list \<Rightarrow> 'cb multiset" where
  "told l \<equiv> mset (map fst l)"

lemma map_filter_none: "\<forall>m \<in> set xs. am_cb m = None \<Longrightarrow> List.map_filter am_cb xs = []"
  by (induction xs) (simp_all add: List.map_filter_simps)

lemma map_filter_append: "List.map_filter f (xs @ ys) = List.map_filter f xs @ List.map_filter f ys"
  by (simp add: List.map_filter_def)

lemma waiting_grown: "grown mt mt' \<Longrightarrow> waiting mt' = waiting mt"
  by (auto simp: grown_def waiting_def map_filter_append map_filter_none)

lemma waiting_remove:
  assumes "mt_inv mt" "m \<in> set (mt_list mt)"
  shows "waiting mt = waiting (remove_key (am_key m) mt) + (case am_cb m of None \<Rightarrow> {#} | Some cb \<Rightarrow> {#cb#})"
proof -
  obtain xs ys where l: "mt_list mt = xs @ m # ys" using assms(2) by (meson split_list)
  have "mt_list (remove_key (am_key m) mt) = xs @ ys" by (rule remove_one [OF inv_distinct [OF assms(1)] l])
  then show ?thesis using l by (cases "am_cb m") (simp_all add: waiting_def map_filter_append List.map_filter_simps)
qed

locale asking_callbacks =
  fixes run :: "'cb \<Rightarrow> raw_response \<Rightarrow> 'cb matop \<Rightarrow> 'e \<Rightarrow> ('cb matop \<times> 'e) option"
  assumes run_grows: "mt_inv mt \<Longrightarrow> run cb r mt e = Some (mt', e') \<Longrightarrow> grown mt mt'"
    and run_returns: "run cb r mt e \<noteq> None"
begin

lemma call_entry:
  assumes "mt_inv mt" "m \<in> set (mt_list mt)"
    and "(case am_cb m of None \<Rightarrow> Some (mt, e, l) | Some cb \<Rightarrow> logged run cb r mt (e, l)) = Some (mt1, e1, l1)"
  shows "grown mt mt1" "l1 = l @ (case am_cb m of None \<Rightarrow> [] | Some cb \<Rightarrow> [(cb, r_success r)])" "m \<in> set (mt_list mt1)"
proof -
  show g: "grown mt mt1" using assms(1,3) run_grows by (cases "am_cb m") (auto simp: grown_refl logged_def)
  show "l1 = l @ (case am_cb m of None \<Rightarrow> [] | Some cb \<Rightarrow> [(cb, r_success r)])" using assms(3) by (cases "am_cb m") (auto simp: logged_def)
  show "m \<in> set (mt_list mt1)" using g assms(2) by (auto simp: grown_def)
qed

lemma call_returns: "\<exists>mt1 e1 l1. (case am_cb m of None \<Rightarrow> Some (mt, e, l) | Some cb \<Rightarrow> logged run cb r mt (e, l)) = Some (mt1, e1, l1)"
  using run_returns by (cases "am_cb m") (auto simp: logged_def)

text \<open>An entry that is told leaves the table, and the sum of those told and those that wait is the same.\<close>

lemma notify_counts:
  assumes "mt_inv mt" "m \<in> set (mt_list mt)" "notify_and_remove (logged run) m r mt (e, l) = Some (mt', e', l')"
  shows "mt_inv mt'" "told l' + waiting mt' = told l + waiting mt" "l' = l @ (case am_cb m of None \<Rightarrow> [] | Some cb \<Rightarrow> [(cb, r_success r)])"
    and "am_key m \<notin> set (map am_key (mt_list mt'))"
proof -
  obtain mt1 e1 where c: "(case am_cb m of None \<Rightarrow> Some (mt, e, l) | Some cb \<Rightarrow> logged run cb r mt (e, l)) = Some (mt1, e1, l')"
    and mt': "mt' = remove_key (am_key m) mt1" using assms(3) by (auto simp: notify_and_remove_def bind_eq_Some_conv)
  note k = call_entry [OF assms(1,2) c]
  have i: "mt_inv mt1" using k(1) by (simp add: grown_def)
  show "mt_inv mt'" using i mt' by (simp add: remove_keeps)
  show "l' = l @ (case am_cb m of None \<Rightarrow> [] | Some cb \<Rightarrow> [(cb, r_success r)])" by (rule k(2))
  show "told l' + waiting mt' = told l + waiting mt"
    using waiting_remove [OF i k(3)] waiting_grown [OF k(1)] k(2) mt' by (cases "am_cb m") simp_all
  show "am_key m \<notin> set (map am_key (mt_list mt'))" by (auto simp: mt' remove_key_def)
qed

lemma data_counts:
  assumes "mt_inv mt" "matop_service_data_receive_cb J (logged run) input mt (e, l) = Some (rt, mt', e', l')"
  shows "mt_inv mt' \<and> told l' + waiting mt' = told l + waiting mt"
proof -
  have "mt' = mt \<and> l' = l \<or> (\<exists>m r. m \<in> set (mt_list mt) \<and> notify_and_remove (logged run) m r mt (e, l) = Some (mt', e', l'))"
    using assms(2) by (auto simp: matop_service_data_receive_cb_def find_message_def bind_eq_Some_conv find_Some_iff split: option.splits if_splits)
  then show ?thesis using assms(1) notify_counts(1,2) [OF assms(1)] by auto
qed

lemma file_counts:
  assumes "mt_inv mt" "matop_service_file_rawdata_receive_cb (logged run) input mt (e, l) = Some (rt, mt', e', l')"
  shows "mt_inv mt' \<and> told l' + waiting mt' = told l + waiting mt"
proof -
  have "mt' = mt \<and> l' = l \<or> (\<exists>m r. m \<in> set (mt_list mt) \<and> notify_and_remove (logged run) m r mt (e, l) = Some (mt', e', l'))"
    using assms(2) by (auto simp: matop_service_file_rawdata_receive_cb_def bind_eq_Some_conv find_Some_iff split: option.splits if_splits)
  then show ?thesis using assms(1) notify_counts(1,2) [OF assms(1)] by auto
qed

text \<open>A turn of the service tells the first entry whose time is up, as a notification does.\<close>

lemma yield_notifies:
  assumes "mt_inv mt" "find (\<lambda>m. ucast (am_timeout m) < ms) (mt_list mt) = Some m"
  shows "\<exists>mt' e' l'. matop_serice_yield (logged run) ms mt (e, l) = Some (OPRT_TIMEOUT, mt', e', l')
    \<and> notify_and_remove (logged run) m \<lparr>r_success = False, r_time = 0, r_result = None, r_raw = []\<rparr> mt (e, l) = Some (mt', e', l')"
proof -
  have m: "m \<in> set (mt_list mt)" using assms(2) by (auto simp: find_Some_iff)
  obtain mt1 e1 l1 where c: "(case am_cb m of None \<Rightarrow> Some (mt, e, l) | Some cb \<Rightarrow> logged run cb \<lparr>r_success = False, r_time = 0, r_result = None, r_raw = []\<rparr> mt (e, l)) = Some (mt1, e1, l1)"
    using call_returns by blast
  then show ?thesis using call_entry(3) [OF assms(1) m c] assms(2) by (simp add: matop_serice_yield_def notify_and_remove_def)
qed

lemma yield_counts:
  assumes "mt_inv mt" "matop_serice_yield (logged run) ms mt (e, l) = Some (rt, mt', e', l')"
  shows "mt_inv mt' \<and> told l' + waiting mt' = told l + waiting mt"
proof (cases "find (\<lambda>m. ucast (am_timeout m) < ms) (mt_list mt)")
  case (Some m)
  then have "m \<in> set (mt_list mt)" by (auto simp: find_Some_iff)
  then show ?thesis using yield_notifies [OF assms(1) Some, of e l] notify_counts(1,2) [OF assms(1)] assms(2) by fastforce
qed (use assms in \<open>simp add: matop_serice_yield_def\<close>)

lemma yield_tells_head:
  assumes "mt_inv mt" "mt_list mt = m # ms'" "ucast (am_timeout m) < ms"
  shows "\<exists>mt' e' xs. matop_serice_yield (logged run) ms mt (e, l) = Some (OPRT_TIMEOUT, mt', e', l @ (case am_cb m of None \<Rightarrow> [] | Some cb \<Rightarrow> [(cb, False)]))
    \<and> mt_inv mt' \<and> mt_list mt' = ms' @ xs \<and> (\<forall>x \<in> set xs. am_cb x = None)"
proof -
  have f: "find (\<lambda>m. ucast (am_timeout m) < ms) (mt_list mt) = Some m" using assms(2,3) by simp
  obtain mt' e' l' where y: "matop_serice_yield (logged run) ms mt (e, l) = Some (OPRT_TIMEOUT, mt', e', l')"
    "notify_and_remove (logged run) m \<lparr>r_success = False, r_time = 0, r_result = None, r_raw = []\<rparr> mt (e, l) = Some (mt', e', l')"
    using yield_notifies [OF assms(1) f] by blast
  obtain mt1 e1 where c: "(case am_cb m of None \<Rightarrow> Some (mt, e, l) | Some cb \<Rightarrow> logged run cb \<lparr>r_success = False, r_time = 0, r_result = None, r_raw = []\<rparr> mt (e, l)) = Some (mt1, e1, l')"
    and mt': "mt' = remove_key (am_key m) mt1" using y(2) by (auto simp: notify_and_remove_def bind_eq_Some_conv)
  have m: "m \<in> set (mt_list mt)" using assms(2) by simp
  have "grown mt mt1" by (rule call_entry(1) [OF assms(1) m c])
  then obtain xs where x: "mt_list mt1 = [] @ m # (ms' @ xs)" "\<forall>x \<in> set xs. am_cb x = None" "mt_inv mt1" using assms(2) by (auto simp: grown_def)
  have "mt_list mt' = ms' @ xs" using remove_one [OF inv_distinct [OF x(3)] x(1)] mt' by simp
  moreover have "l' = l @ (case am_cb m of None \<Rightarrow> [] | Some cb \<Rightarrow> [(cb, False)])" using call_entry(2) [OF assms(1) m c] by (cases "am_cb m") simp_all
  ultimately show ?thesis using y(1) x(2) notify_counts(1) [OF assms(1) m y(2)] by blast
qed

end

subsection \<open>The client\<close>

lemma async_returns: "length (rq_api rq) + opt_length (rq_version rq) \<le> 75 \<Longrightarrow> matop_service_request_async M mems ms rq cb mt e \<noteq> None"
  by (auto simp: matop_service_request_async_def request_fits matop_request_send_def Let_def case_prod_beta)

lemma post_returns: "length api + opt_length ver \<le> 75 \<Longrightarrow> post M A ms api ver timeout dat cb mt e \<noteq> None"
  using async_returns [of "\<lparr>rq_api = api, rq_version = ver, rq_data = Some dat, rq_timeout = timeout\<rparr>" M "me_req A" ms cb mt e]
  by (cases "me_buf A") (simp_all add: post_def)

lemma status_returns: "matop_service_upgrade_status_update M A ms channel status mt e \<noteq> None"
  unfolding matop_service_upgrade_status_update_def by (rule post_returns) simp

lemma status_grows: "mt_inv mt \<Longrightarrow> matop_service_upgrade_status_update M A ms channel status mt e = Some (rt, mt', e') \<Longrightarrow> grown mt mt'"
  by (auto simp: matop_service_upgrade_status_update_def post_def grown_refl request_grows split: if_splits)

interpretation client: asking_callbacks "client_run M A ms" for M A ms
proof
  show "grown mt mt'" if "mt_inv mt" "client_run M A ms cb r mt e = Some (mt', e')" for cb r mt e mt' e'
    using that status_grows by (cases cb) (auto simp: client_run_def grown_refl split: if_splits)
  show "client_run M A ms cb r mt e \<noteq> None" for cb r mt e
    by (cases cb) (simp_all add: client_run_def status_returns del: not_None_eq)
qed

text \<open>What can happen to the table while a connection lasts: a request, an answer, a piece of a file, a turn.\<close>

datatype matop_ev = Ev_Ask atop_request "client_matop_cb option" | Ev_Answer "byte list" | Ev_File "byte list" | Ev_Turn

type_synonym matop_state = "client_matop_cb matop \<times> tuya_client \<times> (client_matop_cb \<times> bool) list"

definition matop_event ::
    "parse_env \<Rightarrow> ('c, tuya_client) mqtt_env \<Rightarrow> mem_env \<times> u64 \<times> matop_ev \<Rightarrow> matop_state \<Rightarrow> (matop_state \<times> client_matop_cb list) option" where
  "matop_event J M x s =
     (case (x, s) of ((A, ms, ev), (mt, c, l)) \<Rightarrow>
        (case ev of
           Ev_Ask rq cb \<Rightarrow>
             do { (rt, mt, c) \<leftarrow> matop_service_request_async M (me_req A) ms rq cb mt c; Some ((mt, c, l), if rt = OPRT_OK then (case cb of None \<Rightarrow> [] | Some f \<Rightarrow> [f]) else []) }
         | Ev_Answer b \<Rightarrow> do { (_, s) \<leftarrow> matop_service_data_receive_cb J (logged (client_run M A ms)) b mt (c, l); Some (s, []) }
         | Ev_File b \<Rightarrow> do { (_, s) \<leftarrow> matop_service_file_rawdata_receive_cb (logged (client_run M A ms)) b mt (c, l); Some (s, []) }
         | Ev_Turn \<Rightarrow> do { (_, s) \<leftarrow> matop_serice_yield (logged (client_run M A ms)) ms mt (c, l); Some (s, []) }))"

fun matop_events ::
    "parse_env \<Rightarrow> ('c, tuya_client) mqtt_env \<Rightarrow> (mem_env \<times> u64 \<times> matop_ev) list \<Rightarrow> matop_state \<Rightarrow> (matop_state \<times> client_matop_cb list) option" where
  "matop_events J M [] s = Some (s, [])"
| "matop_events J M (x # xs) s = do { (s, a1) \<leftarrow> matop_event J M x s; (s, a2) \<leftarrow> matop_events J M xs s; Some (s, a1 @ a2) }"

lemma ask_counts:
  assumes "mt_inv mt" "matop_service_request_async M mems ms rq cb mt c = Some (rt, mt', c')"
  shows "waiting mt' = waiting mt + mset (if rt = OPRT_OK then (case cb of None \<Rightarrow> [] | Some f \<Rightarrow> [f]) else [])"
proof (cases "rt = OPRT_OK")
  case True
  then have "mt_list mt' = mt_list mt @ [new_message ms rq cb mt]" using request_effect(2) [OF assms(2)] by blast
  then show ?thesis using True by (cases cb) (simp_all add: waiting_def map_filter_append List.map_filter_simps new_message_def)
qed (use request_effect(3) [OF assms(2)] in \<open>simp add: waiting_def\<close>)

lemma event_counts:
  assumes "mt_inv mt" "matop_event J M x (mt, c, l) = Some ((mt', c', l'), asked)"
  shows "mt_inv mt' \<and> told l' + waiting mt' = told l + waiting mt + mset asked"
proof -
  obtain A ms ev where x: "x = (A, ms, ev)" by (metis prod_cases3)
  show ?thesis
  proof (cases ev)
    case (Ev_Ask rq cb)
    then obtain rt where r: "matop_service_request_async M (me_req A) ms rq cb mt c = Some (rt, mt', c')" "l' = l" "asked = (if rt = OPRT_OK then (case cb of None \<Rightarrow> [] | Some f \<Rightarrow> [f]) else [])"
      using assms(2) x by (auto simp: matop_event_def bind_eq_Some_conv)
    then show ?thesis using request_keeps [OF assms(1) r(1)] ask_counts [OF assms(1) r(1)] by (simp add: add.assoc)
  next
    case (Ev_Answer b)
    then obtain rt where r: "matop_service_data_receive_cb J (logged (client_run M A ms)) b mt (c, l) = Some (rt, mt', c', l')" "asked = []"
      using assms(2) x by (auto simp: matop_event_def bind_eq_Some_conv)
    then show ?thesis using client.data_counts [OF assms(1) r(1)] by simp
  next
    case (Ev_File b)
    then obtain rt where r: "matop_service_file_rawdata_receive_cb (logged (client_run M A ms)) b mt (c, l) = Some (rt, mt', c', l')" "asked = []"
      using assms(2) x by (auto simp: matop_event_def bind_eq_Some_conv)
    then show ?thesis using client.file_counts [OF assms(1) r(1)] by simp
  next
    case Ev_Turn
    then obtain rt where r: "matop_serice_yield (logged (client_run M A ms)) ms mt (c, l) = Some (rt, mt', c', l')" "asked = []"
      using assms(2) x by (auto simp: matop_event_def bind_eq_Some_conv)
    then show ?thesis using client.yield_counts [OF assms(1) r(1)] by simp
  qed
qed

lemma events_count:
  "mt_inv mt \<Longrightarrow> matop_events J M xs (mt, c, l) = Some ((mt', c', l'), asked) \<Longrightarrow> mt_inv mt' \<and> told l' + waiting mt' = told l + waiting mt + mset asked"
proof (induction xs arbitrary: mt c l asked)
  case (Cons x xs)
  obtain mt1 c1 l1 a1 a2 where s: "matop_event J M x (mt, c, l) = Some ((mt1, c1, l1), a1)" "matop_events J M xs (mt1, c1, l1) = Some ((mt', c', l'), a2)" "asked = a1 @ a2"
    using Cons.prems(2) by (auto simp: bind_eq_Some_conv)
  show ?case using event_counts [OF Cons.prems(1) s(1)] Cons.IH [OF _ s(2)] s(3) by (simp add: ac_simps)
qed simp

definition mt_start :: "string \<Rightarrow> 'cb matop" where
  "mt_start dev = \<lparr>mt_devid = dev, mt_cnt = 0, mt_topic = ''rpc/req/'' @ dev, mt_list = [], mt_fresh = 0\<rparr>"

lemma init_start: "matop_serice_init M mem dev ctx e = Some (OPRT_OK, mt, ctx', e') \<Longrightarrow> mt = mt_start dev"
  by (auto simp: matop_serice_init_def mt_start_def topic_fits_def bind_eq_Some_conv Let_def split: if_splits prod.splits)

lemma mt_start_inv: "mt_inv (mt_start dev)" "waiting (mt_start dev) = {#}"
  by (simp_all add: mt_start_def mt_inv_def waiting_def List.map_filter_simps)

text \<open>
  C14. Every request is told once: after the start of the service and any sequence of requests, answers, pieces of files and turns, the callbacks of the accepted requests are exactly those that
  were called, each once, and those that still wait, also when callbacks ask questions of their own while their entry is in the table.
\<close>

theorem matop_exactly_once:
  assumes "matop_serice_init M mem dev ctx c0 = Some (OPRT_OK, mt0, ctx', c1)" "matop_events J M evs (mt0, c1, []) = Some ((mt, c, l), asked)"
  shows "mset asked = mset (map fst l) + waiting mt"
  using events_count [OF _ assms(2)] init_start [OF assms(1)] by (simp add: mt_start_inv)

lemma window_inj:
  assumes "a \<le> x" "x < a + n" "a \<le> y" "y < a + n" "Suc x mod n = Suc y mod n"
  shows "(x :: nat) = y"
proof -
  have "y = x" if "x \<le> y" "Suc x mod n = Suc y mod n" "y < x + n" for x y :: nat
  proof -
    have "n dvd Suc y - Suc x" using mod_eq_dvd_iff_nat [of "Suc x" "Suc y" n] that(1,2) by simp
    then have "n dvd y - x" by simp
    moreover have "y - x < n" using that(1,3) by simp
    ultimately have "y - x = 0" by (meson nat_dvd_not_less neq0_conv)
    then show ?thesis using that(1) by simp
  qed
  note eq = this
  show ?thesis
  proof (cases "x \<le> y")
    case True
    then show ?thesis using eq [of x y] assms by simp
  next
    case False
    then show ?thesis using eq [of y x] assms by simp
  qed
qed

lemma id_window:
  assumes "mt_inv mt" "mt_list mt = m0 # rest" "mt_fresh mt \<le> am_key m0 + 65536" "m \<in> set (mt_list mt)"
  shows "find_message (am_id m) mt = Some m"
proof -
  have k: "am_key m0 \<le> am_key x \<and> am_key x < am_key m0 + 65536 \<and> am_id x = of_nat (Suc (am_key x))" if "x \<in> set (mt_list mt)" for x
    using assms(1-3) that by (fastforce simp: mt_inv_def)
  have inj: "am_key x = am_key m" if "x \<in> set (mt_list mt)" "am_id x = am_id m" for x
  proof -
    have "Suc (am_key x) mod 65536 = Suc (am_key m) mod 65536" using k [OF that(1)] k [OF assms(4)] that(2) by (simp add: word_of_nat_eq_iff take_bit_eq_mod del: of_nat_Suc)
    then show ?thesis using k [OF that(1)] k [OF assms(4)] window_inj [of "am_key m0" "am_key x" 65536 "am_key m"] by blast
  qed
  obtain x where f: "find_message (am_id m) mt = Some x" using assms(4) by (cases "find_message (am_id m) mt") (auto simp: find_message_def find_None_iff)
  then have x: "x \<in> set (mt_list mt)" "am_id x = am_id m" by (auto simp: find_message_def find_Some_iff)
  have "x = m" using inv_distinct [OF assms(1)] inj [OF x] x(1) assms(4) by (simp add: distinct_map inj_on_def)
  then show ?thesis using f by simp
qed

text \<open>
  C15. An answer reaches its own request: as long as fewer than 65536 requests have been made since the oldest one that waits, an answer with the identifier of a request is given to the callback of that request, with
  the success it reports, and the request no longer waits.
\<close>

theorem matop_answer_own:
  assumes "matop_serice_init M mem dev ctx c0 = Some (OPRT_OK, mt0, ctx', c1)" "matop_events J M evs (mt0, c1, []) = Some ((mt, c, l), asked)"
    and "mt_list mt = m0 # rest" "mt_fresh mt \<le> am_key m0 + 65536" "m \<in> set (mt_list mt)" "am_cb m = Some cb"
    and "cjson_parse J (c_string input) = Some root" "get_item J root ''id'' = Some i" "cj_type i = CJ_Number" "word_of_int (cj_int i) = am_id m"
    and "get_item J root ''data'' = Some dat" "response_of J dat = Some r"
  shows "\<exists>mt' c'. matop_service_data_receive_cb J (logged (client_run M A ms)) input mt (c, l) = Some (OPRT_OK, mt', c', l @ [(cb, r_success r)])
    \<and> am_key m \<notin> set (map am_key (mt_list mt'))"
proof -
  have i: "mt_inv mt" using events_count [OF _ assms(2)] init_start [OF assms(1)] by (simp add: mt_start_inv)
  have f: "find_message (word_of_int (cj_int i)) mt = Some m" using id_window [OF i assms(3-5)] assms(10) by simp
  obtain mt1 c2 l1 where "(case am_cb m of None \<Rightarrow> Some (mt, c, l) | Some cb \<Rightarrow> logged (client_run M A ms) cb r mt (c, l)) = Some (mt1, c2, l1)"
    using client.call_returns by blast
  then have n: "notify_and_remove (logged (client_run M A ms)) m r mt (c, l) = Some (remove_key (am_key m) mt1, c2, l1)" by (simp add: notify_and_remove_def)
  show ?thesis
    using client.notify_counts(3,4) [OF i assms(5) n] n f assms(6-9,11,12) by (simp add: matop_service_data_receive_cb_def)
qed

subsection \<open>Timeouts\<close>

fun matop_turns :: "('c, tuya_client) mqtt_env \<Rightarrow> (mem_env \<times> u64) list \<Rightarrow> matop_state \<Rightarrow> matop_state option" where
  "matop_turns M [] s = Some s"
| "matop_turns M ((A, ms) # ts) (mt, c, l) = do { (_, s) \<leftarrow> matop_serice_yield (logged (client_run M A ms)) ms mt (c, l); matop_turns M ts s }"

lemma turns_tell:
  assumes "mt_inv mt" "mt_list mt = old @ new" "\<forall>m \<in> set new. am_cb m = None" "length ts = length old"
    and "\<forall>(A, ms) \<in> set ts. \<forall>m \<in> set old. ucast (am_timeout m) < ms"
  shows "\<exists>mt' c'. matop_turns M ts (mt, c, l) = Some (mt', c', l @ map (\<lambda>f. (f, False)) (List.map_filter am_cb old)) \<and> waiting mt' = {#}"
  using assms
proof (induction old arbitrary: mt c l new ts)
  case Nil
  then show ?case by (simp add: waiting_def map_filter_none List.map_filter_simps)
next
  case (Cons m old)
  obtain A ms ts' where t: "ts = (A, ms) # ts'" using Cons.prems(4) by (cases ts) auto
  have o: "ucast (am_timeout m) < ms" using Cons.prems(5) t by simp
  have h: "mt_list mt = m # (old @ new)" using Cons.prems(2) by simp
  obtain mt1 c1 xs where y: "matop_serice_yield (logged (client_run M A ms)) ms mt (c, l) = Some (OPRT_TIMEOUT, mt1, c1, l @ (case am_cb m of None \<Rightarrow> [] | Some cb \<Rightarrow> [(cb, False)]))"
    "mt_inv mt1" "mt_list mt1 = (old @ new) @ xs" "\<forall>x \<in> set xs. am_cb x = None"
    using client.yield_tells_head [OF Cons.prems(1) h o] by blast
  have "\<exists>mt' c'. matop_turns M ts' (mt1, c1, l @ (case am_cb m of None \<Rightarrow> [] | Some cb \<Rightarrow> [(cb, False)]))
      = Some (mt', c', (l @ (case am_cb m of None \<Rightarrow> [] | Some cb \<Rightarrow> [(cb, False)])) @ map (\<lambda>f. (f, False)) (List.map_filter am_cb old)) \<and> waiting mt' = {#}"
    by (rule Cons.IH [of _ "new @ xs"]) (use y Cons.prems t in auto)
  then show ?case using t y(1) by (cases "am_cb m") (simp_all add: List.map_filter_simps)
qed

text \<open>
  C16. No request waits for ever: with the clock behind the times of all entries, as many turns as there are entries tell each callback that waits, once and in order, that its request has failed, and
  afterwards nobody waits.
\<close>

theorem matop_timeouts_told:
  assumes "matop_serice_init M mem dev ctx c0 = Some (OPRT_OK, mt0, ctx', c1)" "matop_events J M evs (mt0, c1, []) = Some ((mt, c, l), asked)"
    and "length ts = length (mt_list mt)" "\<forall>(A, ms) \<in> set ts. \<forall>m \<in> set (mt_list mt). ucast (am_timeout m) < ms"
  shows "\<exists>mt' c'. matop_turns M ts (mt, c, l) = Some (mt', c', l @ map (\<lambda>f. (f, False)) (List.map_filter am_cb (mt_list mt))) \<and> waiting mt' = {#}"
proof -
  have "mt_inv mt" using events_count [OF _ assms(2)] init_start [OF assms(1)] by (simp add: mt_start_inv)
  then show ?thesis using turns_tell [of mt "mt_list mt" "[]" ts M c l] assms(3,4) by simp
qed

text \<open>
  C17. The end of the 32-bit time: once the clock has passed \<open>2\<^sup>3\<^sup>2\<close> milliseconds, about fifty days, every turn that finds an entry tells the oldest one that its time is up, whatever
  time it was given and however recently it was made.
\<close>

theorem matop_clock_wrap:
  assumes "matop_serice_init M mem dev ctx c0 = Some (OPRT_OK, mt0, ctx', c1)" "matop_events J M evs (mt0, c1, []) = Some ((mt, c, l), asked)"
    and "mt_list mt = m # rest" "am_cb m = Some cb" "2 ^ 32 \<le> unat ms"
  shows "\<exists>mt' c'. matop_serice_yield (logged (client_run M A ms)) ms mt (c, l) = Some (OPRT_TIMEOUT, mt', c', l @ [(cb, False)])"
proof -
  have i: "mt_inv mt" using events_count [OF _ assms(2)] init_start [OF assms(1)] by (simp add: mt_start_inv)
  have "unat (am_timeout m) < 2 ^ 32" by (rule order.strict_trans2 [OF unsigned_less]) simp
  then have "unat (ucast (am_timeout m) :: u64) < 2 ^ 32" by simp
  then have "ucast (am_timeout m) < ms" using assms(5) by (simp add: word_less_nat_alt)
  from client.yield_tells_head [OF i assms(3) this, of M A ms c l] show ?thesis using assms(4) by auto
qed

section \<open>Other requests and the route of an answer\<close>

text \<open>The acknowledgement of a configuration with a long identifier is written outside of its buffer.\<close>

lemma ack_overflows:
  assumes "me_buf A" "79 \<le> length a"
  shows "matop_service_dynamic_cfg_ack M A ms (Some a) None cb mt e = None"
  using assms by (simp add: matop_service_dynamic_cfg_ack_def ack_text_def Let_def)

text \<open>An answer reaches the table through the subscription that the start has made.\<close>

lemma init_routes:
  assumes "matop_serice_init M True dev ctx e = Some (OPRT_OK, mt, ctx', e')"
    and "\<forall>h \<in> set (subscribe_list ctx). sh_cb h \<notin> {Sub_Cb ON_MATOP_DATA, Sub_Cb ON_MATOP_FILE} \<and> sh_topic h \<noteq> ''rpc/rsp/'' @ dev"
  shows "on_matop_service J run input (mqtt_subscribe_message_distribute ctx' (''rpc/rsp/'' @ dev)) mt s = map_option snd (matop_service_data_receive_cb J run input mt s)"
proof -
  have none: "filter (\<lambda>t. sh_topic t = ''rpc/rsp/'' @ dev) (subscribe_list ctx) = []" using assms(2) by (auto simp: filter_empty_conv)
  have "mqtt_subscribe_message_distribute ctx' (''rpc/rsp/'' @ dev) = [\<lparr>sh_topic = ''rpc/rsp/'' @ dev, sh_cb = Sub_Cb ON_MATOP_DATA, sh_data = 0\<rparr>]"
    using assms none
    by (auto simp: matop_serice_init_def topic_fits_def tuya_mqtt_subscribe_message_callback_register_def mqtt_subscribe_message_distribute_def bind_eq_Some_conv Let_def
        split: if_splits prod.splits)
  then show ?thesis by (cases "matop_service_data_receive_cb J run input mt s") auto
qed

section \<open>A table\<close>

definition matop_lib :: "(nat, tuya_client) mqtt_env" where
  "matop_lib = \<lparr>mqtt_client_publish = (\<lambda>t p q e. (7, e)), mqtt_client_subscribe = (\<lambda>t e. (3, e)), mqtt_client_unsubscribe = (\<lambda>t e. (4, e)),
     posix_now = (\<lambda>e. 100), call_notify = (\<lambda>r c e. Some e)\<rparr>"

definition all_mem :: mem_env where
  "all_mem = \<lparr>me_buf = True, me_rst = True, me_req = (True, True)\<rparr>"

definition ask_upgrade :: atop_request where
  "ask_upgrade = \<lparr>rq_api = ''tuya.device.upgrade.get'', rq_version = Some ''4.4'', rq_data = Some ''{}'', rq_timeout = 10000\<rparr>"

definition two_questions :: "(mem_env \<times> u64 \<times> matop_ev) list" where
  "two_questions = [(all_mem, 1000, Ev_Ask ask_upgrade (Some Upgrade_Info_On)), (all_mem, 2000, Ev_Ask ask_upgrade (Some App_Notify_Upgrade_Info_On))]"

definition two_waiting :: "client_matop_cb matop" where
  "two_waiting = (mt_start ''bag1'')\<lparr>mt_cnt := 2, mt_fresh := 2,
     mt_list := [\<lparr>am_key = 0, am_id = 1, am_timeout = 11000, am_cb = Some Upgrade_Info_On\<rparr>, \<lparr>am_key = 1, am_id = 2, am_timeout = 12000, am_cb = Some App_Notify_Upgrade_Info_On\<rparr>]\<rparr>"

definition answer_data :: cjson where
  "answer_data = CJson CJ_Object None 0 [(Some ''t'', CJson CJ_Number None 100 []), (Some ''result'', CJson CJ_Object None 0 [(Some ''success'', CJson CJ_True None 1 [])])]"

definition answer_item :: cjson where
  "answer_item = CJson CJ_Object None 0 [(Some ''id'', CJson CJ_Number None 2 []), (Some ''data'', answer_data)]"

definition answer_json :: parse_env where
  "answer_json = \<lparr>cjson_parse = (\<lambda>t. if t = ''{}'' then Some answer_item else None), get_item = (\<lambda>j n. map_of (cj_child j) (Some n)), buf_mem = True, enum_mem = True, str_mutex = OPRT_OK\<rparr>"

lemma demo_init: "\<exists>ctx'. matop_serice_init matop_lib True ''bag1'' context_zero c = Some (OPRT_OK, mt_start ''bag1'' :: client_matop_cb matop, ctx', c)"
  by (simp add: matop_serice_init_def topic_fits_def tuya_mqtt_subscribe_message_callback_register_def matop_lib_def mt_start_def context_zero_def)

lemma demo_ask:
  "matop_service_request_async matop_lib (True, True) ms ask_upgrade cb mt c =
     Some (OPRT_OK, mt\<lparr>mt_cnt := mt_cnt mt + 1, mt_fresh := mt_fresh mt + 1, mt_list := mt_list mt @ [new_message ms ask_upgrade cb mt]\<rparr>, c)"
  using request_fits [of ask_upgrade] by (simp add: matop_service_request_async_def new_message_def matop_request_send_def matop_lib_def Let_def ask_upgrade_def)

lemma demo_events: "matop_events J matop_lib two_questions (mt_start ''bag1'', c, []) = Some ((two_waiting, c, []), [Upgrade_Info_On, App_Notify_Upgrade_Info_On])"
  by (simp add: two_questions_def matop_event_def all_mem_def demo_ask two_waiting_def new_message_def mt_start_def) (simp add: ask_upgrade_def)

theorem matop_exactly_once_witness:
  "\<forall>c. \<exists>ctx'. matop_serice_init matop_lib True ''bag1'' context_zero c = Some (OPRT_OK, mt_start ''bag1'' :: client_matop_cb matop, ctx', c)
     \<and> matop_events answer_json matop_lib two_questions (mt_start ''bag1'', c, []) = Some ((two_waiting, c, []), [Upgrade_Info_On, App_Notify_Upgrade_Info_On])
     \<and> waiting two_waiting = {#Upgrade_Info_On, App_Notify_Upgrade_Info_On#}"
proof
  fix c :: tuya_client
  obtain ctx' where i: "matop_serice_init matop_lib True ''bag1'' context_zero c = Some (OPRT_OK, mt_start ''bag1'' :: client_matop_cb matop, ctx', c)" using demo_init by blast
  from matop_exactly_once [OF i demo_events] have "waiting two_waiting = {#Upgrade_Info_On, App_Notify_Upgrade_Info_On#}" by simp
  then show "\<exists>ctx'. matop_serice_init matop_lib True ''bag1'' context_zero c = Some (OPRT_OK, mt_start ''bag1'' :: client_matop_cb matop, ctx', c)
     \<and> matop_events answer_json matop_lib two_questions (mt_start ''bag1'', c, []) = Some ((two_waiting, c, []), [Upgrade_Info_On, App_Notify_Upgrade_Info_On])
     \<and> waiting two_waiting = {#Upgrade_Info_On, App_Notify_Upgrade_Info_On#}" using i demo_events by blast
qed

theorem matop_answer_own_witness:
  "\<forall>c. \<exists>mt' c'. matop_service_data_receive_cb answer_json (logged (client_run matop_lib all_mem 3000)) (text_bytes ''{}'') two_waiting (c, []) =
     Some (OPRT_OK, mt', c', [(App_Notify_Upgrade_Info_On, True)])"
proof
  fix c :: tuya_client
  obtain ctx' where i: "matop_serice_init matop_lib True ''bag1'' context_zero c = Some (OPRT_OK, mt_start ''bag1'' :: client_matop_cb matop, ctx', c)" using demo_init by blast
  let ?old = "\<lparr>am_key = 0, am_id = 1, am_timeout = 11000, am_cb = Some Upgrade_Info_On\<rparr>"
  let ?m = "\<lparr>am_key = 1, am_id = 2, am_timeout = 12000, am_cb = Some App_Notify_Upgrade_Info_On\<rparr>"
  have t: "c_string (text_bytes ''{}'') = ''{}''" by (intro c_string_text) simp
  have w: "mt_list two_waiting = [?old, ?m]" "mt_fresh two_waiting \<le> am_key ?old + 65536" "?m \<in> set (mt_list two_waiting)" by (simp_all add: two_waiting_def)
  have j: "cjson_parse answer_json (c_string (text_bytes ''{}'')) = Some answer_item" "get_item answer_json answer_item ''id'' = Some (CJson CJ_Number None 2 [])"
    "get_item answer_json answer_item ''data'' = Some answer_data" unfolding t by (simp_all add: answer_json_def answer_item_def)
  have r: "response_of answer_json answer_data = Some \<lparr>r_success = True, r_time = 100, r_result = None, r_raw = []\<rparr>"
    by (simp add: response_of_def answer_json_def answer_data_def)
  from matop_answer_own [OF i demo_events w, of App_Notify_Upgrade_Info_On, OF _ j(1,2) _ _ j(3) r, of all_mem 3000]
  show "\<exists>mt' c'. matop_service_data_receive_cb answer_json (logged (client_run matop_lib all_mem 3000)) (text_bytes ''{}'') two_waiting (c, []) =
     Some (OPRT_OK, mt', c', [(App_Notify_Upgrade_Info_On, True)])" by auto
qed

theorem matop_timeouts_told_witness:
  "\<forall>c. \<exists>mt' c'. matop_turns matop_lib [(all_mem, 13000), (all_mem, 13000)] (two_waiting, c, []) = Some (mt', c', [(Upgrade_Info_On, False), (App_Notify_Upgrade_Info_On, False)])
     \<and> waiting mt' = {#}"
proof
  fix c :: tuya_client
  obtain ctx' where i: "matop_serice_init matop_lib True ''bag1'' context_zero c = Some (OPRT_OK, mt_start ''bag1'' :: client_matop_cb matop, ctx', c)" using demo_init by blast
  show "\<exists>mt' c'. matop_turns matop_lib [(all_mem, 13000), (all_mem, 13000)] (two_waiting, c, []) = Some (mt', c', [(Upgrade_Info_On, False), (App_Notify_Upgrade_Info_On, False)])
     \<and> waiting mt' = {#}"
    using matop_timeouts_told [OF i demo_events, of "[(all_mem, 13000), (all_mem, 13000)]"] by (simp add: two_waiting_def List.map_filter_simps)
qed

theorem matop_clock_wrap_witness:
  "\<forall>c. \<exists>mt' c'. matop_serice_yield (logged (client_run matop_lib all_mem 5000000000)) 5000000000 two_waiting (c, []) = Some (OPRT_TIMEOUT, mt', c', [(Upgrade_Info_On, False)])"
proof
  fix c :: tuya_client
  obtain ctx' where i: "matop_serice_init matop_lib True ''bag1'' context_zero c = Some (OPRT_OK, mt_start ''bag1'' :: client_matop_cb matop, ctx', c)" using demo_init by blast
  show "\<exists>mt' c'. matop_serice_yield (logged (client_run matop_lib all_mem 5000000000)) 5000000000 two_waiting (c, []) = Some (OPRT_TIMEOUT, mt', c', [(Upgrade_Info_On, False)])"
    using matop_clock_wrap [OF i demo_events, of "\<lparr>am_key = 0, am_id = 1, am_timeout = 11000, am_cb = Some Upgrade_Info_On\<rparr>" _ Upgrade_Info_On 5000000000 all_mem]
    by (simp add: two_waiting_def)
qed
end
