(* ===== verification/Spec2Isabelle.thy ===== *)
theory Spec2Isabelle
  imports RingBuf ListHeap MsgQueue SwTimer Workqueue Event BagGraphics TimeService MixMethod BleMgr CliExec Uart RegisterCenter NetmgrLinks TuyaProtocol Netcfg IotDp KvStore Health IotClientRuns Matop
begin

text \<open>
  A verification development for the boxing-bag application \<^verbatim>\<open>apps/gk_bag\<close> and for the parts of the TuyaOpen kit that
  carry its own logic. Everything is a shallow embedding: a C structure is a record, an enumeration a datatype, a function a HOL function on an
  explicit state, an error code an integer of type \<open>operate_ret\<close>. A value of an option type that is \<open>None\<close> where the C function returns nothing of
  the kind stands for an access outside an object or through a null pointer, and the theorems say when it does not occur. Machine words keep their width wherever
  the code depends on it. Calls of the platform (allocation, semaphores, flash, radio) and of vendored libraries (cJSON, mbedtls, LVGL, floating point) are
  arguments of the definitions that make them; what is relied on is a hypothesis of the theorem concerned, and its witness uses a concrete
  instance.

  \<^bold>\<open>The program.\<close> The application samples a force sensor, filters the samples, detects hits, keeps the statistics of a session and draws
  pages. It stands on the system layer of the kit: containers (ring buffer, linked list, queue), software timers, work queues, events and
  a clock. Beside it run the console (serial port and command line), the Bluetooth channel to the telephone (packets cut into subpackages, encrypted),
  the network manager, the registry of provisioning methods, the protocol of messages and frames, the message service of the cloud, the data points that device, phone and cloud exchange, the register center and the endpoint that say
  which servers to use, the client that binds the device, activates it and keeps its connection, and the health monitor. Work queues use the message queue and the timers; the timers use the linked list;
  the serial port uses the ring buffer; the command line reads the serial port; the Bluetooth manager uses the transmitter and the checksum;
  the network manager and the provisioning use the work queues, the timers and the events. A report of data points is checked against the schema, printed, packed by the
  protocol and queued by the message service, whose acknowledgement comes back to the schema; delayed work on the queues uploads what was not confirmed.
  The client turns a state machine over the endpoint, the message service, the schema, the events, the clock and the key-value store.

  \<^bold>\<open>The theories.\<close>
  \<^item> \<open>Prelude\<close>: results, word types, memory copies, and the collections of rewriting and introduction rules.
  \<^item> \<open>RingBuf\<close> (\<^verbatim>\<open>tuya_ringbuf.c\<close>): both overflow policies on an array and two indices. The locale \<open>byte_fifo\<close> is the interface of
    a bounded byte queue, interpreted on the ring; its client lemmas give the stream property of any sequence of writes and reads.
  \<^item> \<open>ListHeap\<close> (\<^verbatim>\<open>tuya_list.c\<close>): the circular list at the level of its pointers, over a store of links; traversals carry fuel, and as much fuel as there are
    nodes is proved to be enough.
  \<^item> \<open>MsgQueue\<close> (\<^verbatim>\<open>tuya_queue.c\<close>), \<open>SwTimer\<close> (\<^verbatim>\<open>tal_sw_timer.c\<close>), \<open>Workqueue\<close> (\<^verbatim>\<open>tal_workqueue.c\<close>, \<^verbatim>\<open>tal_workq_service.c\<close>), \<open>Event\<close>
    (\<^verbatim>\<open>tal_event.c\<close>): the queue; the invariant of the timers over all reachable states, termination and result of a dispatch, and the refinement of
    the sorted insertion to pointers; the worker with every interleaving of schedulers, and that no wake-up is lost; the subscriptions and what a publication
    calls.
  \<^item> \<open>TimeService\<close> (\<^verbatim>\<open>tal_time_serivce.c\<close>): calendar conversions with their round trip and their bounds, the clock, zones and summer time.
  \<^item> \<open>Checksum\<close> (\<^verbatim>\<open>crc_16.c\<close>, \<^verbatim>\<open>crc32i.c\<close>) and \<open>MixMethod\<close> (\<^verbatim>\<open>mix_method.c\<close>): the table-driven checksum against the bitwise one; which texts are versions,
    and hexadecimal texts read back. \<open>BubbleSort\<close> holds the exchange sort that two files write out.
  \<^item> \<open>ForceSensor\<close>, \<open>GkBag\<close>, \<open>BagGraphics\<close> (\<^verbatim>\<open>apps/gk_bag/src\<close>): the filters and the hit detection over a record of floating-point
    operations, the user record, pages and navigation, the main loop, and the geometry of the drawings. The number of samples is the 32-bit integer of the source, and the filter ring
    is left when it wraps around; over exact arithmetic the point of impact is the one that the geometry of the line of force and the bag gives.
  \<^item> \<open>BleTrsmitr\<close>, \<open>BleReassembly\<close>, \<open>BleMgr\<close> (\<^verbatim>\<open>ble_trsmitr.c\<close>, \<^verbatim>\<open>ble_mgr.c\<close>, \<^verbatim>\<open>ble_cryption.c\<close>): a frame cut into subpackages is
    reassembled, and an encrypted packet is delivered.
  \<^item> \<open>CliParse\<close>, \<open>CliHistory\<close>, \<open>Cli\<close>, \<open>CliScreen\<close>, \<open>CliExec\<close> (\<^verbatim>\<open>tal_cli.c\<close>): cutting a line into words, the history (locale \<open>recall_history\<close>, interpreted on the
    ring of eight lines), the editor and the task; every editing key refines a line cut at the cursor and keeps the screen of
    a terminal in step, but for a backspace at the start of a line that is not empty, the one key that the task does not survive.
  \<^item> \<open>Uart\<close> (\<^verbatim>\<open>tal_uart.c\<close>): the driver layer on the ring buffer, and a step relation for a reader and the interrupt.
  \<^item> \<open>RegisterCenter\<close> (\<^verbatim>\<open>tuya_register_center.c\<close>): the stored record, its decoder on arbitrary bytes, and that it survives a restart.
  \<^item> \<open>Netmgr\<close>, \<open>NetmgrLinks\<close> (\<^verbatim>\<open>netmgr.c\<close> and the three connections): the choice of the active connection, what subscribers are told, the reconnection of the
    wireless station, and the stored credentials.
  \<^item> \<open>TuyaProtocol\<close> (\<^verbatim>\<open>tuya_protocol.c\<close>, \<^verbatim>\<open>cipher_wrapper.c\<close>, and the check of datagrams in \<^verbatim>\<open>tuya_lan.c\<close>): messages and frames are read back as
    they were written, and exactly which inputs make the parsers leave their buffers. \<open>Endian\<close> holds the numbers in network byte order.
  \<^item> \<open>Netcfg\<close> (\<^verbatim>\<open>netcfg.c\<close>): the registry of provisioning methods with the starts that wait in the work queue; no freed method is started as long as none is
    removed while its start waits, and one is when that happens.
  \<^item> \<open>DpSchema\<close>, \<open>DpReport\<close>, \<open>DpCommand\<close> (\<^verbatim>\<open>dp_schema.c\<close>): the points of a device; which reports pass, that their text fits and when it does not, what a command
    delivers, and that a schema is created from its text.
  \<^item> \<open>BleDp\<close> (\<^verbatim>\<open>ble_dp.c\<close>): the binary form of points over Bluetooth, read back as it was written, and a command from its frame to the objects.
  \<^item> \<open>MqttService\<close> (\<^verbatim>\<open>mqtt_service.c\<close>): subscriptions, handlers and the list of publications; the locale \<open>publication_client\<close> is what the list asks of a callback,
    interpreted in \<open>IotDp\<close> (\<^verbatim>\<open>tuya_iot_dp.c\<close>), which joins schema, service, Bluetooth and work queues: a report reaches the cloud and is confirmed, and the upload catches up.
  \<^item> \<open>KvStore\<close> (\<^verbatim>\<open>tal_kv.c\<close>, \<^verbatim>\<open>kv_serialize.c\<close>, \<^verbatim>\<open>tal_symmetry.c\<close>): encrypted files and the records in them; the store refines a map (locale \<open>value_store\<close>), a record
    is read back as it was written, and what a failing cipher leaves behind. \<open>FlatJson\<close> states what is relied on of cJSON there, that it parses objects without nesting, and
    a parser that has the property.
  \<^item> \<open>Endpoint\<close> (\<^verbatim>\<open>iotdns.c\<close>, \<^verbatim>\<open>tuya_endpoint.c\<close>): the queries to the directory of the cloud and the servers, certificate, region and key in the store; they survive a restart, and
    a directory that cannot be reached makes the certificate be released twice.
  \<^item> \<open>IotClient\<close>, \<open>IotClientRuns\<close> (\<^verbatim>\<open>tuya_iot.c\<close>): the client and its turns, with the requests that other tasks make while a turn is under way as an argument, and a turn that waits for ever or crashes as
    a result of its own. An activated client connects, an activation survives a restart exactly when its data have a time zone, a reset forgets it; which resets are lost, which one breaks the next binding, and what an activation
    without a time zone leads to.
  \<^item> \<open>Matop\<close> (\<^verbatim>\<open>matop_service.c\<close>): the requests over the message service and the table of those that wait; the locale \<open>asking_callbacks\<close> is what the table asks of a callback, interpreted on
    the callbacks of the client. Every request is told once, an answer reaches its own request, no request waits for ever, and what happens when the clock passes 32 bits.
  \<^item> \<open>Health\<close> (\<^verbatim>\<open>tuya_health.c\<close>): the items of the monitor, its rounds and its start; how often the watchdog is fed and the application is asked to reboot.
  \<^item> This theory: the console as a whole, the command line over the serial port.

  \<^bold>\<open>Bounds and fuel.\<close> Loops over data are structural recursion or carry a termination proof. The traversal of a linked list, the
  sorted insertion of a timer and the loop over the encoder of a frame, which no function of the sources writes out, carry fuel, and the number of nodes, of active timers and of bytes is proved to be enough. The dispatch loop of the
  timers is given the readings of the clock; enough of them are proved to end it, and with a timer of interval zero no number of them does. Sizes of arrays are those of the source: 1001 bytes of command line, eight lines of history, five samples of the filter, 33 and 65 bytes of
  credentials.

  \<^bold>\<open>Not modelled.\<close> Vendored libraries (LVGL, lwIP, mbedtls, coreHTTP, coreMQTT, cJSON, NimBLE), drivers and thin wrappers of platform calls
  have no logic of the program's own. Labels, colours and layout of the pages are calls to LVGL without a result. Of the Bluetooth manager, advertising
  and pairing are missing; of the network manager the shell command and the start of the provisioning; of the provisioning the access point mode. Two functions for base64 only call
  mbedtls. The turn of the client does not contain the call of \<open>matop_serice_yield\<close> and its connection
  callback marks the requests as set up instead of calling \<open>matop_serice_init\<close>: their state is that of theory \<open>Matop\<close>, which has its own runs. The requests to the cloud over HTTP (\<^verbatim>\<open>atop_service.c\<close>), the direct binding (\<^verbatim>\<open>mqtt_bind.c\<close>) and the upgrade (\<^verbatim>\<open>tuya_ota.c\<close>) are calls of the HTTP, MQTT and JSON libraries; the client
  takes their results as arguments. The sessions of the local network (\<^verbatim>\<open>tuya_lan.c\<close>, of which the frames and the check of datagrams are modelled) and the channels of the Bluetooth
  manager (\<^verbatim>\<open>ble_channel.c\<close>) work on sockets and on callbacks of the host stack; they are what an extension would take next.
\<close>

section \<open>The console: serial port and command line\<close>

lemma prefix_lines:
  assumes "prefix p (concat (map (\<lambda>l. l @ [c]) ls))"
  shows "\<exists>n r. n \<le> length ls \<and> p = concat (map (\<lambda>l. l @ [c]) (take n ls)) @ r \<and> (r = [] \<or> n < length ls \<and> prefix r (ls ! n))"
  using assms
proof (induction ls arbitrary: p)
  case (Cons l ls)
  show ?case
  proof (cases "prefix p l")
    case True
    then show ?thesis by (intro exI [of _ 0] exI [of _ p]) simp
  next
    case False
    then obtain q where q: "p = l @ c # q" "prefix q (concat (map (\<lambda>l. l @ [c]) ls))"
      using Cons.prems by (auto simp: prefix_append prefix_Cons)
    from Cons.IH [OF q(2)] obtain n r where "n \<le> length ls" "q = concat (map (\<lambda>l. l @ [c]) (take n ls)) @ r"
      "r = [] \<or> n < length ls \<and> prefix r (ls ! n)" by blast
    then show ?thesis using q(1) by (intro exI [of _ "Suc n"] exI [of _ r]) auto
  qed
qed simp

lemma task_lines_then_typing:
  assumes "cmds_ok T" "\<forall>l \<in> set ls. typed_line l" "length r \<le> CLI_BUFFER_SIZE" "\<forall>c \<in> set r. typable c"
  shows "\<exists>cli. cli_task xt T (concat (map (\<lambda>l. l @ [CR]) ls) @ r) cli_zero = Some cli
    \<and> cli_calls cli = concat (map (called T) ls) \<and> line_before cli = r \<and> line_after cli = []"
proof -
  obtain c where c: "cli_loop xt T (concat (map (\<lambda>l. l @ [CR]) ls) @ r) cli_ready = cli_loop xt T r c" "cli_inv c"
    "line_before c = []" "line_after c = []" "cli_calls c = concat (map (called T) ls)"
    using loop_lines [OF ready_ok(1) assms(1) ready_ok(3,4,2) assms(2), of xt r] ready_ok(6) by auto
  obtain d where "cli_loop xt T (r @ []) c = cli_loop xt T [] d" "line_before d = r" "line_after d = []" "cli_calls d = cli_calls c"
    using loop_typing [OF c(2) assms(4), of xt T "[]"] assms(3) c(3,4) by auto
  then show ?thesis using c(1,5) by (auto simp: task_ready cli_loop.simps [of xt T "[]"])
qed

text \<open>
  C6. The console as a whole. The command line task reads its port byte by byte while the interrupt stores what arrives. Under every interleaving, and as long as an
  interrupt never finds more bytes than the ring has room for, the task has executed exactly the first of the lines that were sent, once each and in
  order, and the part of the next line that was delivered is the line in its editor; when nothing is under way any more, all the lines were executed.
\<close>

theorem console_executes_lines:
  assumes "uart_reach linux 1 fits d s" "dev_fresh d" "\<forall>s. fits s \<longrightarrow> length (hw s) \<le> dev_room (dev s)"
    "cmds_ok T" "\<forall>l \<in> set ls. typed_line l" "arrived s = concat (map (\<lambda>l. l @ [CR]) ls)"
  shows "\<exists>n cli. n \<le> length ls \<and> cli_task xt T (delivered s) cli_zero = Some cli \<and> cli_calls cli = concat (map (called T) (take n ls))
    \<and> delivered s = concat (map (\<lambda>l. l @ [CR]) (take n ls)) @ line_before cli \<and> line_after cli = []
    \<and> (unread (dev s) = [] \<and> hw s = [] \<longrightarrow> n = length ls)"
proof -
  have st: "delivered s @ unread (dev s) @ hw s = arrived s"
    using uart_reach_inv [OF assms(1,2)] assms(3) by (auto simp: stream_def)
  have ex: "\<exists>cli. cli_task xt T (concat (map (\<lambda>l. l @ [CR]) (take n ls)) @ r) cli_zero = Some cli
      \<and> cli_calls cli = concat (map (called T) (take n ls)) \<and> line_before cli = r \<and> line_after cli = []"
    if "r = [] \<or> n < length ls \<and> prefix r (ls ! n)" for n r
  proof (rule task_lines_then_typing [OF assms(4)])
    show "\<forall>l \<in> set (take n ls). typed_line l" using assms(5) by (auto dest: in_set_takeD)
    have t: "typed_line (ls ! n)" if "n < length ls" using that assms(5) by simp
    show "length r \<le> CLI_BUFFER_SIZE" using that
    proof
      assume "n < length ls \<and> prefix r (ls ! n)"
      then show ?thesis using t prefix_length_le [of r "ls ! n"] by (simp add: typed_line_def)
    qed simp
    show "\<forall>c \<in> set r. typable c" using that t by (auto simp: typed_line_def list_all_iff dest!: set_mono_prefix)
  qed
  show ?thesis
  proof (cases "unread (dev s) = [] \<and> hw s = []")
    case True
    then have "delivered s = concat (map (\<lambda>l. l @ [CR]) (take (length ls) ls)) @ []" using st assms(6) by simp
    then show ?thesis using ex [of "[]" "length ls"] by auto
  next
    case False
    have "prefix (delivered s) (concat (map (\<lambda>l. l @ [CR]) ls))" using st assms(6) by (metis prefixI)
    from prefix_lines [OF this] obtain n r where "n \<le> length ls" "delivered s = concat (map (\<lambda>l. l @ [CR]) (take n ls)) @ r"
      "r = [] \<or> n < length ls \<and> prefix r (ls ! n)" by blast
    then show ?thesis using ex [of r n] False by auto
  qed
qed

text \<open>The line \<^verbatim>\<open>help x\<close> is sent, byte by byte, and executed.\<close>

theorem console_executes_lines_witness:
  "\<exists>(s :: uart_sys) cli. arrived s = [104, 101, 108, 112, 32, 120, 13] \<and> cli_task (\<lambda>i args. []) tables_hello (delivered s) cli_zero = Some cli
    \<and> cli_calls cli = [(EXT 0, [[104, 101, 108, 112], [120]])]"
proof -
  let ?bs = "[104, 101, 108, 112, 32, 120, 13] :: byte list"
  obtain d' where r: "uart_reach False 1 (\<lambda>s. length (hw s) \<le> dev_room (dev s)) uart_demo
      \<lparr>dev = d', hw = [], pc = Idle, arrived = ?bs, delivered = ?bs\<rparr>" and d': "unread d' = []"
    using uart_carries [OF uart_demo_fresh(1,2), of 1 False ?bs] by (auto simp: dev_fresh_def)
  let ?s = "\<lparr>dev = d', hw = [], pc = Idle, arrived = ?bs, delivered = ?bs\<rparr>"
  have c: "called tables_hello [104, 101, 108, 112, 32, 120] = [(EXT 0, [[104, 101, 108, 112], [120]])]"
    by (simp add: called_def line_words_def tables_hello_cmds)
  have t: "\<forall>l \<in> set [[104, 101, 108, 112, 32, 120]]. typed_line l" by (simp add: typed_line_def typable_def)
  have a: "arrived ?s = concat (map (\<lambda>l. l @ [CR]) [[104, 101, 108, 112, 32, 120]])" by simp
  obtain n cli where "cli_task (\<lambda>i args. []) tables_hello (delivered ?s) cli_zero = Some cli"
    "cli_calls cli = concat (map (called tables_hello) (take n [[104, 101, 108, 112, 32, 120]]))"
    "unread (dev ?s) = [] \<and> hw ?s = [] \<longrightarrow> n = length [[104, 101, 108, 112, 32, 120 :: byte]]"
    using console_executes_lines [OF r uart_demo_fresh(1) _ tables_hello_ok t a, of "\<lambda>i args. []"] by blast
  then show ?thesis using c d' by (intro exI [of _ ?s] exI [of _ cli]) simp
qed

end
